(* ===== verification/Prelude.thy ===== *)
theory Prelude
  imports Main "HOL-Library.Word"
begin

text \<open>
  Shared vocabulary of the development: the Rust integer widths as words, byte strings, results
  as sums, and the list, option and word facts that several components use. The named collections
  \<open>codec_simps\<close> (equations of encoders and decoders) and \<open>result_splits\<close> carry the component proofs.
\<close>

unbundle bit_operations_syntax

named_theorems codec_simps \<open>unfolding of encoder and decoder primitives\<close>
named_theorems byte_simps \<open>lengths and inverses of the big-endian byte conversions\<close>

section \<open>Machine integers and byte strings\<close>

type_synonym u8 = "8 word"
type_synonym u16 = "16 word"
type_synonym u32 = "32 word"
type_synonym u64 = "64 word"
type_synonym i32 = "32 word"
type_synonym bytes = "u8 list"

lemma unat_less: "unat (v :: 'a::len word) < 2 ^ LENGTH('a)"
  by (rule unsigned_less)

text \<open>Rust's \<^verbatim>\<open>checked_sub\<close>, \<^verbatim>\<open>checked_add\<close> and \<^verbatim>\<open>saturating_add\<close> on unsigned integers.\<close>

definition checked_sub :: "'a::len word \<Rightarrow> 'a word \<Rightarrow> 'a word option" where
  "checked_sub a b = (if b \<le> a then Some (a - b) else None)"

definition checked_add :: "'a::len word \<Rightarrow> 'a word \<Rightarrow> 'a word option" where
  "checked_add a b = (if unat a + unat b < 2 ^ LENGTH('a) then Some (a + b) else None)"

definition saturating_add :: "'a::len word \<Rightarrow> 'a word \<Rightarrow> 'a word" where
  "saturating_add a b = (if unat a + unat b < 2 ^ LENGTH('a) then a + b else - 1)"

lemma checked_sub_Some: "checked_sub a b = Some c \<Longrightarrow> b + c = a"
  by (auto simp: checked_sub_def split: if_splits)

lemma checked_sub_None: "checked_sub a b = None \<longleftrightarrow> a < b"
  by (auto simp: checked_sub_def)

lemma sint_u32:
  "sint (v :: 32 word) = (if unat v < 2147483648 then int (unat v) else int (unat v) - 4294967296)"
proof -
  let ?n = "int (unat v)"
  have "sint v = (?n + 2147483648) mod 4294967296 - 2147483648"
    by (simp add: sint_uint signed_take_bit_eq_take_bit_shift take_bit_eq_mod)
  moreover have lt: "?n < 4294967296" using uint_lt2p [of v] by simp
  moreover have "(?n + 2147483648) mod 4294967296 = (?n - 2147483648) mod 4294967296"
    using mod_add_self2 [of "?n - 2147483648" 4294967296] by (simp add: add.commute)
  moreover have "(?n + 2147483648) mod 4294967296 = ?n + 2147483648" if "unat v < 2147483648"
    by (rule mod_pos_pos_trivial) (use that in linarith)+
  moreover have "(?n - 2147483648) mod 4294967296 = ?n - 2147483648" if "\<not> unat v < 2147483648"
    by (rule mod_pos_pos_trivial) (use that lt in linarith)+
  ultimately show ?thesis by (simp del: of_nat_unat)
qed

section \<open>Results\<close>

text \<open>
  \<^verbatim>\<open>Result<T, E>\<close> is the sum type \<open>'e + 't\<close>, \<open>Inl\<close> for \<^verbatim>\<open>Err\<close>. \<open>sbind\<close> is the \<^verbatim>\<open>?\<close> operator:
  continue on \<open>Inr\<close>, return the error at once on \<open>Inl\<close>.
\<close>

definition sbind :: "'e + 'a \<Rightarrow> ('a \<Rightarrow> 'e + 'b) \<Rightarrow> 'e + 'b" where
  "sbind x f = (case x of Inl e \<Rightarrow> Inl e | Inr v \<Rightarrow> f v)"

lemma sbind_Inl [simp]: "sbind (Inl e) f = Inl e"
  and sbind_Inr [simp]: "sbind (Inr v) f = f v"
  by (simp_all add: sbind_def)

lemma sbind_eq_Inr_iff: "sbind x f = Inr r \<longleftrightarrow> (\<exists>v. x = Inr v \<and> f v = Inr r)"
  by (cases x) auto

lemma sbind_eq_Inl_iff:
  "sbind x f = Inl e \<longleftrightarrow> x = Inl e \<or> (\<exists>v. x = Inr v \<and> f v = Inl e)"
  by (cases x) auto

lemma sbind_cong [fundef_cong]:
  "x = y \<Longrightarrow> (\<And>v. y = Inr v \<Longrightarrow> f v = g v) \<Longrightarrow> sbind x f = sbind y g"
  by (cases y) auto

definition ok_or :: "'e \<Rightarrow> 'a option \<Rightarrow> 'e + 'a" where
  "ok_or e x = (case x of None \<Rightarrow> Inl e | Some v \<Rightarrow> Inr v)"

lemma ok_or_simps [simp]: "ok_or e None = Inl e" "ok_or e (Some v) = Inr v"
  by (simp_all add: ok_or_def)

lemma ok_or_eq_Inr_iff [simp]: "ok_or e x = Inr v \<longleftrightarrow> x = Some v"
  by (cases x) auto

text \<open>\<^verbatim>\<open>slice.get(i)\<close> and \<^verbatim>\<open>slice.first()\<close>: bounds-checked reads.\<close>

definition get_at :: "'a list \<Rightarrow> nat \<Rightarrow> 'a option" where
  "get_at xs i = (if i < length xs then Some (xs ! i) else None)"

lemma get_at_simps [simp]:
  "get_at [] i = None"
  "get_at (x # xs) 0 = Some x"
  "get_at (x # xs) (Suc i) = get_at xs i"
  by (auto simp: get_at_def)

lemma get_at_numeral [simp]: "get_at (x # xs) (numeral n) = get_at xs (pred_numeral n)"
  by (simp add: numeral_eq_Suc)

section \<open>Big-endian byte conversions\<close>

text \<open>
  \<open>nat_to_be k n\<close> is the \<open>k\<close>-byte big-endian image of \<open>n\<close> (\<^verbatim>\<open>to_be_bytes\<close> at \<open>k\<close> = 2, 4, 8, and its
  last three bytes at \<open>k\<close> = 3); \<open>be_to_nat\<close> is the value of a big-endian byte string.
\<close>

fun nat_to_be :: "nat \<Rightarrow> nat \<Rightarrow> bytes" where
  "nat_to_be 0 n = []"
| "nat_to_be (Suc k) n = nat_to_be k (n div 256) @ [of_nat n]"

definition be_to_nat :: "bytes \<Rightarrow> nat" where
  "be_to_nat bs = foldl (\<lambda>n b. n * 256 + unat b) 0 bs"

lemma be_to_nat_Nil [simp]: "be_to_nat [] = 0"
  and be_to_nat_snoc [simp]: "be_to_nat (bs @ [b]) = be_to_nat bs * 256 + unat b"
  by (simp_all add: be_to_nat_def)

lemma length_nat_to_be [simp, byte_simps]: "length (nat_to_be k n) = k"
  by (induction k arbitrary: n) auto

lemma nat_to_be_numeral:
  "nat_to_be (numeral k) n = nat_to_be (pred_numeral k) (n div 256) @ [of_nat n]"
  by (simp only: numeral_eq_Suc nat_to_be.simps)

lemma drop_nat_to_be: "drop 1 (nat_to_be (Suc k) n) = nat_to_be k n"
proof (induction k arbitrary: n)
  case (Suc k)
  have "drop 1 (nat_to_be (Suc (Suc k)) n) = drop 1 (nat_to_be (Suc k) (n div 256)) @ [of_nat n]"
    using drop_append [of 1 "nat_to_be (Suc k) (n div 256)" "[of_nat n]"]
    by (simp del: nat_to_be.simps(2) add: nat_to_be.simps(2) [of "Suc k"])
  also have "drop 1 (nat_to_be (Suc k) (n div 256)) = nat_to_be k (n div 256)" by (rule Suc)
  finally show ?case by simp
qed simp

lemma unat_of_nat_u8 [simp]: "unat (of_nat n :: u8) = n mod 256"
  by (simp add: unat_of_nat)

lemma u8_256 [simp]: "(256 :: u8) = 0"
  using word_of_nat_eq_0_iff [where 'a = 8, of 256] by simp

lemma be_to_nat_to_be [byte_simps]: "be_to_nat (nat_to_be k n) = n mod 256 ^ k"
proof (induction k arbitrary: n)
  case (Suc k)
  have "n div 256 mod 256 ^ k * 256 + n mod 256 = n mod (256 * 256 ^ k)"
    by (simp add: mod_mult2_eq)
  then show ?case by (simp add: Suc)
qed simp

lemma nat_to_be_to_nat [byte_simps]: "nat_to_be (length bs) (be_to_nat bs) = bs"
proof (induction bs rule: rev_induct)
  case (snoc b bs)
  have "unat b < 256" using unat_less [of b] by simp
  then show ?case using snoc by (simp add: div_add1_eq)
qed simp

lemma be_to_nat_less: "be_to_nat bs < 256 ^ length bs"
proof (induction bs rule: rev_induct)
  case (snoc b bs)
  have "unat b < 256" using unat_less [of b] by simp
  with snoc show ?case by simp
qed simp

lemma nat_to_be_mod: "nat_to_be k (n mod 256 ^ k) = nat_to_be k n"
  by (metis be_to_nat_to_be length_nat_to_be nat_to_be_to_nat)

text \<open>\<^verbatim>\<open>uN::to_be_bytes\<close>, \<^verbatim>\<open>uN::from_be_bytes\<close> and \<^verbatim>\<open>uN::swap_bytes\<close>.\<close>

definition to_be :: "nat \<Rightarrow> 'a::len word \<Rightarrow> bytes" where
  "to_be k v = nat_to_be k (unat v)"

definition from_be :: "bytes \<Rightarrow> 'a::len word" where
  "from_be bs = of_nat (be_to_nat bs)"

definition swap_bytes :: "nat \<Rightarrow> 'a::len word \<Rightarrow> 'a word" where
  "swap_bytes k v = from_be (rev (to_be k v))"

lemma length_to_be [simp, byte_simps]: "length (to_be k v) = k"
  by (simp add: to_be_def)

lemma from_be_to_be [byte_simps]:
  assumes "unat (v :: 'a::len word) < 256 ^ k"
  shows "from_be (to_be k v) = v"
  using assms by (simp add: from_be_def to_be_def be_to_nat_to_be)

lemma to_be_from_be [byte_simps]:
  assumes "length bs = k" and "256 ^ k \<le> (2::nat) ^ LENGTH('a::len)"
  shows "to_be k (from_be bs :: 'a word) = bs"
proof -
  have "be_to_nat bs < 2 ^ LENGTH('a)"
    using be_to_nat_less [of bs] assms by simp
  then have "unat (from_be bs :: 'a word) = be_to_nat bs"
    by (simp add: from_be_def unat_of_nat)
  then show ?thesis
    using nat_to_be_to_nat [of bs] assms(1) by (simp add: to_be_def)
qed

lemma unat_u32_less: "unat (v :: u32) < 256 ^ 4"
  and unat_u16_less: "unat (w :: u16) < 256 ^ 2"
  and unat_u64_less: "unat (x :: u64) < 256 ^ 8"
  using unat_less [of v] unat_less [of w] unat_less [of x] by simp_all

lemmas word_be_simps [simp] =
  from_be_to_be [OF unat_u32_less] from_be_to_be [OF unat_u16_less] from_be_to_be [OF unat_u64_less]

lemma swap_swap_u32 [simp]: "swap_bytes 4 (swap_bytes 4 (v :: u32)) = v"
  by (simp add: swap_bytes_def to_be_from_be)

lemma swap_swap_u16 [simp]: "swap_bytes 2 (swap_bytes 2 (v :: u16)) = v"
  by (simp add: swap_bytes_def to_be_from_be)

section \<open>Lists\<close>

lemma take_append_le: "n \<le> length xs \<Longrightarrow> take n (xs @ ys) = take n xs"
  and drop_append_le: "n \<le> length xs \<Longrightarrow> drop n (xs @ ys) = drop n xs @ ys"
  by simp_all

lemma diff_shorter [simp]: "0 < n \<Longrightarrow> n \<le> m \<Longrightarrow> m - n < (m :: nat)"
  by arith

lemma list_len_ge_split: "n \<le> length xs \<Longrightarrow> \<exists>a b. xs = a @ b \<and> length a = n"
  by (metis append_take_drop_id length_take min.absorb2)

end
