(* ===== verification/Rtmp_Bytes.thy ===== *)
theory Rtmp_Bytes
  imports Prelude
begin

text \<open>
  \<^verbatim>\<open>crates/protocols/rtmp/core/src/bytes.rs\<close> and \<^verbatim>\<open>error.rs\<close>: the error kinds, the big-endian readers
  over a byte slice, the writers over a growing vector, and the growing receive buffer \<^verbatim>\<open>Buf\<close>. A
  reader returns the value and the rest of the slice; a writer is the byte string it appends. The
  contract of the receive buffer is the locale \<open>byte_buffer\<close>: a FIFO of bytes, whatever the offset
  and the compaction do inside.
\<close>

section \<open>Errors\<close>

text \<open>
  An \<^verbatim>\<open>Error\<close> carries its kind, a reason and a source location; the last two are diagnostic text that
  no code of the core branches on, so an error is modelled by its kind.
\<close>

datatype error_kind = InvalidInput | InvalidData | InvalidState | Unsupported | InsufficientBuffer

definition check_buffer_size :: "nat \<Rightarrow> bytes \<Rightarrow> error_kind + unit" where
  "check_buffer_size required_size buf =
     (if length buf < required_size then Inl InsufficientBuffer else Inr ())"

section \<open>Strings\<close>

text \<open>
  A Rust \<^verbatim>\<open>String\<close> is a byte string that is valid UTF-8; it is modelled as a \<open>string\<close>, one \<open>char\<close> per
  byte. \<open>utf8_valid\<close> is the acceptance condition of \<^verbatim>\<open>String::from_utf8\<close>: the well-formed byte
  sequences of the Unicode standard (no overlong forms, no surrogates, nothing above U+10FFFF).
\<close>

definition bytes_of_string :: "string \<Rightarrow> bytes" where
  "bytes_of_string s = map of_char s"

definition string_of_bytes :: "bytes \<Rightarrow> string" where
  "string_of_bytes bs = map (\<lambda>b. char_of (unat b)) bs"

definition utf8_cont :: "u8 \<Rightarrow> bool" where
  "utf8_cont b \<longleftrightarrow> 0x80 \<le> b \<and> b \<le> 0xBF"

fun utf8_valid :: "bytes \<Rightarrow> bool" where
  "utf8_valid [] = True"
| "utf8_valid (a # r) =
     (if a \<le> 0x7F then utf8_valid r
      else if 0xC2 \<le> a \<and> a \<le> 0xDF then
        (case r of b # r1 \<Rightarrow> utf8_cont b \<and> utf8_valid r1 | [] \<Rightarrow> False)
      else if 0xE0 \<le> a \<and> a \<le> 0xEF then
        (case r of
           b # c # r2 \<Rightarrow>
             (if a = 0xE0 then 0xA0 \<le> b \<and> b \<le> 0xBF
              else if a = 0xED then 0x80 \<le> b \<and> b \<le> 0x9F
              else utf8_cont b) \<and> utf8_cont c \<and> utf8_valid r2
         | _ \<Rightarrow> False)
      else if 0xF0 \<le> a \<and> a \<le> 0xF4 then
        (case r of
           b # c # d # r3 \<Rightarrow>
             (if a = 0xF0 then 0x90 \<le> b \<and> b \<le> 0xBF
              else if a = 0xF4 then 0x80 \<le> b \<and> b \<le> 0x8F
              else utf8_cont b) \<and> utf8_cont c \<and> utf8_cont d \<and> utf8_valid r3
         | _ \<Rightarrow> False)
      else False)"

declare utf8_valid.simps(2) [simp del]

definition valid_string :: "string \<Rightarrow> bool" where
  "valid_string s \<longleftrightarrow> utf8_valid (bytes_of_string s)"

lemma length_bytes_of_string [simp]: "length (bytes_of_string s) = length s"
  by (simp add: bytes_of_string_def)

lemma of_char_u8: "(of_char c :: u8) = of_nat (of_char c)"
  by (rule of_nat_of_char [symmetric])

lemma unat_of_char_u8 [simp]: "unat (of_char c :: u8) = of_char c"
proof -
  have "of_char c < (256 :: nat)" by simp
  then show ?thesis by (metis of_char_u8 unat_of_nat_u8 mod_less)
qed

lemma string_of_bytes_of_string [simp]: "string_of_bytes (bytes_of_string s) = s"
  by (simp add: string_of_bytes_def bytes_of_string_def o_def)

lemma bytes_of_string_of_bytes [simp]: "bytes_of_string (string_of_bytes bs) = bs"
proof -
  have "(of_char (char_of (unat b) :: char) :: u8) = b" for b :: u8
  proof -
    have "unat b < 256" using unat_less [of b] by simp
    then show ?thesis by (simp add: word_unat_eq_iff)
  qed
  then show ?thesis by (simp add: string_of_bytes_def bytes_of_string_def o_def)
qed

section \<open>Readers\<close>

type_synonym 'a read = "error_kind + 'a \<times> bytes"

definition read_u8 :: "bytes \<Rightarrow> u8 read" where
  "read_u8 buf = sbind (check_buffer_size 1 buf) (\<lambda>_. Inr (buf ! 0, drop 1 buf))"

definition read_u16 :: "bytes \<Rightarrow> u16 read" where
  "read_u16 buf = sbind (check_buffer_size 2 buf) (\<lambda>_. Inr (from_be (take 2 buf), drop 2 buf))"

definition read_u24 :: "bytes \<Rightarrow> u32 read" where
  "read_u24 buf =
     sbind (check_buffer_size 3 buf) (\<lambda>_. Inr (from_be (0 # take 3 buf), drop 3 buf))"

definition read_i24 :: "bytes \<Rightarrow> i32 read" where
  "read_i24 buf =
     sbind (check_buffer_size 3 buf) (\<lambda>_.
       Inr (from_be ((if buf ! 0 AND 0x80 \<noteq> 0 then 0xFF else 0) # take 3 buf), drop 3 buf))"

definition read_u32 :: "bytes \<Rightarrow> u32 read" where
  "read_u32 buf = sbind (check_buffer_size 4 buf) (\<lambda>_. Inr (from_be (take 4 buf), drop 4 buf))"

definition read_i32 :: "bytes \<Rightarrow> i32 read" where
  "read_i32 buf = sbind (check_buffer_size 4 buf) (\<lambda>_. Inr (from_be (take 4 buf), drop 4 buf))"

text \<open>An \<^verbatim>\<open>f64\<close> is represented by its 64 IEEE-754 bits.\<close>

definition read_f64 :: "bytes \<Rightarrow> u64 read" where
  "read_f64 buf = sbind (check_buffer_size 8 buf) (\<lambda>_. Inr (from_be (take 8 buf), drop 8 buf))"

definition read_bytes :: "nat \<Rightarrow> bytes \<Rightarrow> bytes read" where
  "read_bytes len buf = sbind (check_buffer_size len buf) (\<lambda>_. Inr (take len buf, drop len buf))"

definition read_utf8 :: "nat \<Rightarrow> bytes \<Rightarrow> string read" where
  "read_utf8 len buf =
     sbind (read_bytes len buf) (\<lambda>(s, rest).
       if utf8_valid s then Inr (string_of_bytes s, rest) else Inl InvalidData)"

section \<open>Writers\<close>

definition write_u8 :: "u8 \<Rightarrow> bytes" where "write_u8 v = [v]"
definition write_u16 :: "u16 \<Rightarrow> bytes" where "write_u16 v = to_be 2 v"
definition write_u24 :: "u32 \<Rightarrow> bytes" where "write_u24 v = drop 1 (to_be 4 v)"
definition write_i24 :: "i32 \<Rightarrow> bytes" where "write_i24 v = drop 1 (to_be 4 v)"
definition write_u32 :: "u32 \<Rightarrow> bytes" where "write_u32 v = to_be 4 v"
definition write_i32 :: "i32 \<Rightarrow> bytes" where "write_i32 v = to_be 4 v"
definition write_f64 :: "u64 \<Rightarrow> bytes" where "write_f64 v = to_be 8 v"

lemmas read_defs = read_u8_def read_u16_def read_u24_def read_i24_def read_u32_def read_i32_def
  read_f64_def read_bytes_def check_buffer_size_def

lemmas write_defs = write_u8_def write_u16_def write_u24_def write_i24_def write_u32_def
  write_i32_def write_f64_def

lemma write_u24_alt: "write_u24 v = nat_to_be 3 (unat v)"
  using drop_nat_to_be [of 3 "unat v"] by (simp add: write_u24_def to_be_def)

lemma length_write [simp]:
  "length (write_u8 a) = 1" "length (write_u16 b) = 2" "length (write_u24 c) = 3"
  "length (write_i24 d) = 3" "length (write_u32 c) = 4" "length (write_i32 d) = 4"
  "length (write_f64 e) = 8"
  by (simp_all add: write_defs)

lemma from_be_Cons_zero [simp]: "from_be (0 # bs) = from_be bs"
  by (simp add: from_be_def be_to_nat_def)

text \<open>Each reader inverts the writer of its width, whatever follows.\<close>

lemma read_u8_write [simp]: "read_u8 (write_u8 v @ r) = Inr (v, r)"
  and read_u8_Cons [simp]: "read_u8 (v # r) = Inr (v, r)"
  by (simp_all add: read_defs write_defs)

lemma read_u16_write [simp]: "read_u16 (write_u16 v @ r) = Inr (v, r)"
  and read_u32_write [simp]: "read_u32 (write_u32 w @ r) = Inr (w, r)"
  and read_i32_write [simp]: "read_i32 (write_i32 x @ r) = Inr (x, r)"
  and read_f64_write [simp]: "read_f64 (write_f64 y @ r) = Inr (y, r)"
  by (simp_all add: read_defs write_defs)

lemma read_u24_write:
  assumes "unat v < 2 ^ 24"
  shows "read_u24 (write_u24 v @ r) = Inr (v, r)"
proof -
  have "from_be (nat_to_be 3 (unat v)) = v"
    using assms by (simp add: from_be_def be_to_nat_to_be)
  then show ?thesis by (simp add: read_defs write_u24_alt)
qed

lemma read_bytes_append [simp]: "length s = n \<Longrightarrow> read_bytes n (s @ r) = Inr (s, r)"
  by (simp add: read_defs)

lemma read_utf8_append [simp]:
  "valid_string s \<Longrightarrow> n = length s \<Longrightarrow> read_utf8 n (bytes_of_string s @ r) = Inr (s, r)"
  by (simp add: read_utf8_def valid_string_def)

text \<open>
  The shape every reader shares: it fails with \<open>InsufficientBuffer\<close> exactly on a short slice, and on a
  long enough one it consumes a fixed number of bytes and ignores the rest.
\<close>

lemma read_insufficient_iff:
  "read_u8 b = Inl e \<longleftrightarrow> e = InsufficientBuffer \<and> length b < 1"
  "read_u16 b = Inl e \<longleftrightarrow> e = InsufficientBuffer \<and> length b < 2"
  "read_u24 b = Inl e \<longleftrightarrow> e = InsufficientBuffer \<and> length b < 3"
  "read_i24 b = Inl e \<longleftrightarrow> e = InsufficientBuffer \<and> length b < 3"
  "read_u32 b = Inl e \<longleftrightarrow> e = InsufficientBuffer \<and> length b < 4"
  "read_f64 b = Inl e \<longleftrightarrow> e = InsufficientBuffer \<and> length b < 8"
  "read_bytes n b = Inl e \<longleftrightarrow> e = InsufficientBuffer \<and> length b < n"
  by (auto simp: read_defs)

lemma read_length:
  "read_u8 b = Inr (v8, r) \<Longrightarrow> length b = length r + 1"
  "read_u16 b = Inr (v16, r) \<Longrightarrow> length b = length r + 2"
  "read_u24 b = Inr (v24, r) \<Longrightarrow> length b = length r + 3"
  "read_i24 b = Inr (v24, r) \<Longrightarrow> length b = length r + 3"
  "read_u32 b = Inr (v32, r) \<Longrightarrow> length b = length r + 4"
  "read_i32 b = Inr (v32, r) \<Longrightarrow> length b = length r + 4"
  "read_f64 b = Inr (v64, r) \<Longrightarrow> length b = length r + 8"
  "read_bytes n b = Inr (vs, r) \<Longrightarrow> length b = length r + n"
  "read_utf8 n b = Inr (s, r) \<Longrightarrow> length b = length r + n"
  by (auto simp: read_defs read_utf8_def split: if_splits)

lemma read_append:
  "read_u8 b = Inr (v8, r) \<Longrightarrow> read_u8 (b @ x) = Inr (v8, r @ x)"
  "read_u16 b = Inr (v16, r) \<Longrightarrow> read_u16 (b @ x) = Inr (v16, r @ x)"
  "read_u24 b = Inr (v24, r) \<Longrightarrow> read_u24 (b @ x) = Inr (v24, r @ x)"
  "read_u32 b = Inr (v32, r) \<Longrightarrow> read_u32 (b @ x) = Inr (v32, r @ x)"
  "read_bytes n b = Inr (vs, r) \<Longrightarrow> read_bytes n (b @ x) = Inr (vs, r @ x)"
  by (auto simp: read_defs nth_append Suc_le_eq split: if_splits)

section \<open>Readers that tolerate a longer slice\<close>

text \<open>
  A decoder working on a partly filled buffer must not change its mind when more bytes arrive. A
  stateful reader \<open>f\<close> (state and result, the state also on an error) is \<open>sstable\<close> when a success and a
  fatal error are unaffected by bytes appended to the slice; only \<open>InsufficientBuffer\<close> may change.
  \<open>on_read\<close> is \<^verbatim>\<open>let v = buf.read_x()?;\<close> inside code that keeps a state \<open>s\<close>.
\<close>

type_synonym ('s, 'v) sread = "bytes \<Rightarrow> 's \<times> 'v read"

definition on_read :: "(bytes \<Rightarrow> 'a read) \<Rightarrow> bytes \<Rightarrow> 's \<Rightarrow> ('a \<Rightarrow> ('s, 'v) sread) \<Rightarrow> 's \<times> 'v read" where
  "on_read p buf s k = (case p buf of Inl e \<Rightarrow> (s, Inl e) | Inr (v, rest) \<Rightarrow> k v rest)"

definition pstable :: "(bytes \<Rightarrow> 'a read) \<Rightarrow> bool" where
  "pstable p \<longleftrightarrow>
     (\<forall>b v r. p b = Inr (v, r) \<longrightarrow> length r \<le> length b \<and> (\<forall>x. p (b @ x) = Inr (v, r @ x)))
     \<and> (\<forall>b e. p b = Inl e \<longrightarrow> e \<noteq> InsufficientBuffer \<longrightarrow> (\<forall>x. p (b @ x) = Inl e))"

definition sstable :: "('s, 'v) sread \<Rightarrow> bool" where
  "sstable f \<longleftrightarrow>
     (\<forall>b s v r. f b = (s, Inr (v, r)) \<longrightarrow>
        length r \<le> length b \<and> (\<forall>x. f (b @ x) = (s, Inr (v, r @ x))))
     \<and> (\<forall>b s e. f b = (s, Inl e) \<longrightarrow> e \<noteq> InsufficientBuffer \<longrightarrow> (\<forall>x. f (b @ x) = (s, Inl e)))"

named_theorems stable_intros \<open>closure rules for stable readers\<close>

lemma pstableD:
  "pstable p \<Longrightarrow> p b = Inr (v, r) \<Longrightarrow> p (b @ x) = Inr (v, r @ x)"
  "pstable p \<Longrightarrow> p b = Inr (v, r) \<Longrightarrow> length r \<le> length b"
  "pstable p \<Longrightarrow> p b = Inl e \<Longrightarrow> e \<noteq> InsufficientBuffer \<Longrightarrow> p (b @ x) = Inl e"
  by (auto simp: pstable_def)

lemma stableD:
  "sstable f \<Longrightarrow> f b = (s, Inr (v, r)) \<Longrightarrow> f (b @ x) = (s, Inr (v, r @ x))"
  "sstable f \<Longrightarrow> f b = (s, Inr (v, r)) \<Longrightarrow> length r \<le> length b"
  "sstable f \<Longrightarrow> f b = (s, Inl e) \<Longrightarrow> e \<noteq> InsufficientBuffer \<Longrightarrow> f (b @ x) = (s, Inl e)"
  by (auto simp: sstable_def)

lemma pstable_read [stable_intros]:
  "pstable read_u8" "pstable read_u16" "pstable read_u24" "pstable read_u32" "pstable (read_bytes n)"
  by (auto simp: pstable_def read_append read_insufficient_iff dest: read_length)

lemma pstable_return [stable_intros]: "pstable (\<lambda>b. Inr (v, b))"
  and pstable_fail [stable_intros]: "pstable (\<lambda>b. Inl e)"
  and pstable_if [stable_intros]: "pstable p \<Longrightarrow> pstable q \<Longrightarrow> pstable (\<lambda>b. if c then p b else q b)"
  by (auto simp: pstable_def)

lemma pstable_sbind [stable_intros]:
  assumes "pstable p" and "\<And>v. pstable (k v)"
  shows "pstable (\<lambda>b. sbind (p b) (\<lambda>(v, b'). k v b'))"
  unfolding pstable_def
proof (intro conjI allI impI)
  fix b v r
  assume "sbind (p b) (\<lambda>(v, b'). k v b') = Inr (v, r)"
  then obtain u c where p: "p b = Inr (u, c)" and k: "k u c = Inr (v, r)"
    by (auto simp: sbind_eq_Inr_iff)
  from pstableD(2) [OF assms(1) p] pstableD(2) [OF assms(2) k] show "length r \<le> length b" by simp
  fix x
  from pstableD(1) [OF assms(1) p] pstableD(1) [OF assms(2) k]
  show "sbind (p (b @ x)) (\<lambda>(v, b'). k v b') = Inr (v, r @ x)" by simp
next
  fix b e x
  assume a: "sbind (p b) (\<lambda>(v, b'). k v b') = Inl e" and e: "e \<noteq> InsufficientBuffer"
  show "sbind (p (b @ x)) (\<lambda>(v, b'). k v b') = Inl e"
  proof (cases "p b")
    case (Inl e')
    with a e pstableD(3) [OF assms(1) Inl] show ?thesis by auto
  next
    case (Inr uc)
    obtain u c where "uc = (u, c)" by fastforce
    with a e Inr pstableD(1) [OF assms(1), of b u c x] pstableD(3) [OF assms(2), of u c e x]
    show ?thesis by auto
  qed
qed

lemma pstable_const_sbind [stable_intros]:
  "(\<And>v. pstable (k v)) \<Longrightarrow> pstable (\<lambda>b. sbind y (\<lambda>v. k v b))"
  by (cases y) (auto simp: pstable_def)

lemma stable_return [stable_intros]: "sstable (\<lambda>b. (s, Inr (v, b)))"
  and stable_fail [stable_intros]: "sstable (\<lambda>b. (s, Inl e))"
  and stable_if [stable_intros]: "sstable f \<Longrightarrow> sstable g \<Longrightarrow> sstable (\<lambda>b. if c then f b else g b)"
  by (auto simp: sstable_def)

lemma stable_case_sum [stable_intros]:
  "(\<And>e. sstable (f e)) \<Longrightarrow> (\<And>v. sstable (g v)) \<Longrightarrow>
     sstable (\<lambda>b. case y of Inl e \<Rightarrow> f e b | Inr v \<Rightarrow> g v b)"
  by (cases y) auto

lemma on_read_Inl: "p b = Inl e \<Longrightarrow> on_read p b s k = (s, Inl e)"
  and on_read_Inr: "p b = Inr (v, r) \<Longrightarrow> on_read p b s k = k v r"
  by (simp_all add: on_read_def)

lemma on_read_append: "pstable p \<Longrightarrow> p b = Inr (v, r) \<Longrightarrow> on_read p (b @ x) s k = k v (r @ x)"
  by (simp add: on_read_Inr pstableD(1))

lemma stable_on_read [stable_intros]:
  assumes p: "pstable p" and k: "\<And>v. sstable (k v)"
  shows "sstable (\<lambda>b. on_read p b s (\<lambda>v b'. k v b'))"
  unfolding sstable_def
proof (intro conjI allI impI)
  fix b s' v r
  assume a: "on_read p b s (\<lambda>v b'. k v b') = (s', Inr (v, r))"
  then obtain u c where pb: "p b = Inr (u, c)" and kc: "k u c = (s', Inr (v, r))"
    by (auto simp: on_read_def split: sum.splits)
  from pstableD(2) [OF p pb] stableD(2) [OF k kc] show "length r \<le> length b" by simp
  fix x
  from stableD(1) [OF k kc] show "on_read p (b @ x) s (\<lambda>v b'. k v b') = (s', Inr (v, r @ x))"
    by (simp add: on_read_append [OF p pb])
next
  fix b s' e x
  assume a: "on_read p b s (\<lambda>v b'. k v b') = (s', Inl e)" and e: "e \<noteq> InsufficientBuffer"
  show "on_read p (b @ x) s (\<lambda>v b'. k v b') = (s', Inl e)"
  proof (cases "p b")
    case (Inl e')
    with a have "e' = e" "s' = s" by (auto simp: on_read_Inl)
    with Inl e pstableD(3) [OF p] show ?thesis by (simp add: on_read_Inl)
  next
    case (Inr uc)
    obtain u c where "uc = (u, c)" by fastforce
    with Inr have pb: "p b = Inr (u, c)" by simp
    with a have "k u c = (s', Inl e)" by (simp add: on_read_Inr)
    from stableD(3) [OF k this e] show ?thesis by (simp add: on_read_append [OF p pb])
  qed
qed

lemma sstable_bind [stable_intros]:
  assumes f: "sstable f" and g: "\<And>s v. sstable (g s v)"
  shows "sstable (\<lambda>b. case f b of (s, Inl e) \<Rightarrow> (s, Inl e) | (s, Inr (v, b')) \<Rightarrow> g s v b')"
  unfolding sstable_def
proof (intro conjI allI impI)
  fix b s v r
  assume "(case f b of (s, Inl e) \<Rightarrow> (s, Inl e) | (s, Inr (v, b')) \<Rightarrow> g s v b') = (s, Inr (v, r))"
  then obtain s1 v1 b1 where 1: "f b = (s1, Inr (v1, b1))" and 2: "g s1 v1 b1 = (s, Inr (v, r))"
    by (auto split: prod.splits sum.splits)
  from stableD(2) [OF f 1] stableD(2) [OF g 2] show "length r \<le> length b" by simp
  fix x
  from stableD(1) [OF f 1] stableD(1) [OF g 2]
  show "(case f (b @ x) of (s, Inl e) \<Rightarrow> (s, Inl e) | (s, Inr (v, b')) \<Rightarrow> g s v b') = (s, Inr (v, r @ x))"
    by simp
next
  fix b s e x
  assume a: "(case f b of (s, Inl e) \<Rightarrow> (s, Inl e) | (s, Inr (v, b')) \<Rightarrow> g s v b') = (s, Inl e)"
    and e: "e \<noteq> InsufficientBuffer"
  then consider "f b = (s, Inl e)" | s1 v1 b1 where "f b = (s1, Inr (v1, b1))" "g s1 v1 b1 = (s, Inl e)"
    by (auto split: prod.splits sum.splits)
  then show "(case f (b @ x) of (s, Inl e) \<Rightarrow> (s, Inl e) | (s, Inr (v, b')) \<Rightarrow> g s v b') = (s, Inl e)"
  proof cases
    case 1
    from stableD(3) [OF f 1 e] show ?thesis by simp
  next
    case 2
    from stableD(1) [OF f 2(1)] stableD(3) [OF g 2(2) e] show ?thesis by simp
  qed
qed

lemma on_read_insufficient:
  assumes "on_read p b s k = (s', Inl e)"
  obtains (here) "p b = Inl e" "s' = s" | (later) v r where "p b = Inr (v, r)" "k v r = (s', Inl e)"
  using assms by (auto simp: on_read_def split: sum.splits)

section \<open>The receive buffer\<close>

record buf =
  buf_bytes :: bytes
  buf_offset :: nat

definition buf_default :: buf where
  "buf_default = \<lparr>buf_bytes = [], buf_offset = 0\<rparr>"

definition buf_get :: "buf \<Rightarrow> bytes" where
  "buf_get b = drop (buf_offset b) (buf_bytes b)"

definition buf_max_size :: nat where "buf_max_size = 1024 * 1024"

definition buf_feed :: "buf \<Rightarrow> bytes \<Rightarrow> buf" where
  "buf_feed b x =
     (let bs = buf_bytes b @ x in
      if buf_offset b > 0 \<and> length bs > buf_max_size
      then \<lparr>buf_bytes = drop (buf_offset b) bs, buf_offset = 0\<rparr>
      else b\<lparr>buf_bytes := bs\<rparr>)"

definition buf_advance :: "buf \<Rightarrow> nat \<Rightarrow> buf" where
  "buf_advance b n =
     (let off = buf_offset b + n in
      if off = length (buf_bytes b) then \<lparr>buf_bytes = [], buf_offset = 0\<rparr>
      else b\<lparr>buf_offset := off\<rparr>)"

definition buf_invar :: "buf \<Rightarrow> bool" where
  "buf_invar b \<longleftrightarrow> buf_offset b \<le> length (buf_bytes b)"

text \<open>
  What the decoders rely on: the unconsumed bytes are a FIFO. \<open>buf_invar\<close> is what makes the slice in
  \<^verbatim>\<open>Buf::get\<close> not panic.
\<close>

locale byte_buffer =
  fixes empty_buf :: 'b
    and get :: "'b \<Rightarrow> bytes"
    and feed :: "'b \<Rightarrow> bytes \<Rightarrow> 'b"
    and advance :: "'b \<Rightarrow> nat \<Rightarrow> 'b"
    and invar :: "'b \<Rightarrow> bool"
  assumes get_empty: "get empty_buf = []"
    and get_feed: "invar b \<Longrightarrow> get (feed b x) = get b @ x"
    and get_advance: "invar b \<Longrightarrow> n \<le> length (get b) \<Longrightarrow> get (advance b n) = drop n (get b)"
    and invar_empty: "invar empty_buf"
    and invar_feed: "invar b \<Longrightarrow> invar (feed b x)"
    and invar_advance: "invar b \<Longrightarrow> n \<le> length (get b) \<Longrightarrow> invar (advance b n)"
begin

lemma invar_feeds: "invar b \<Longrightarrow> invar (foldl feed b xs)"
  by (induction xs arbitrary: b) (auto simp: invar_feed)

lemma get_feeds: "invar b \<Longrightarrow> get (foldl feed b xs) = get b @ concat xs"
  by (induction xs arbitrary: b) (auto simp: get_feed invar_feed)

lemma feeds_then_advance:
  assumes "invar b" and "n \<le> length (get b @ concat xs)"
  shows "get (advance (foldl feed b xs) n) = drop n (get b @ concat xs)"
  using assms by (simp add: get_advance get_feeds invar_feeds)

end

lemmas buf_defs = buf_get_def buf_feed_def buf_advance_def buf_invar_def buf_default_def

interpretation rbuf: byte_buffer buf_default buf_get buf_feed buf_advance buf_invar
  by unfold_locales (auto simp: buf_defs Let_def add.commute)

end
