(* ===== verification/Amf_Parser.thy ===== *)
theory Amf_Parser
  imports Rtmp_Bytes
begin

text \<open>
  The recursive-descent parsers of \<^verbatim>\<open>amf0.rs\<close> and \<^verbatim>\<open>amf3.rs\<close> share a shape: a decoder state beside the
  remaining bytes, both dropped on an error. A parser result is \<open>None\<close> only when the recursion bound
  given to the model is used up; \<open>pgood\<close> is the invariant that shows this does not happen when the bound
  exceeds the number of bytes, because every recursive call is preceded by the reading of a byte.
\<close>

type_synonym ('s, 'a) presult = "(error_kind + 'a \<times> 's \<times> bytes) option"
type_synonym ('s, 'a) parser = "'s \<Rightarrow> bytes \<Rightarrow> ('s, 'a) presult"

definition pret :: "'a \<Rightarrow> ('s, 'a) parser" where
  "pret v s b = Some (Inr (v, s, b))"

definition pfail :: "error_kind \<Rightarrow> ('s, 'a) parser" where
  "pfail e s b = Some (Inl e)"

definition pbind :: "('s, 'a) presult \<Rightarrow> ('a \<Rightarrow> ('s, 'b) parser) \<Rightarrow> ('s, 'b) presult" where
  "pbind r k =
     (case r of
        None \<Rightarrow> None
      | Some (Inl e) \<Rightarrow> Some (Inl e)
      | Some (Inr (v, s, b)) \<Rightarrow> k v s b)"

definition pread :: "(bytes \<Rightarrow> 'a read) \<Rightarrow> ('s, 'a) parser" where
  "pread p s b = (case p b of Inl e \<Rightarrow> Some (Inl e) | Inr (v, r) \<Rightarrow> Some (Inr (v, s, r)))"

text \<open>\<^verbatim>\<open>(0..n).map(|_| p()).collect::<Result<Vec<_>, _>>()\<close>\<close>

fun prepeat :: "nat \<Rightarrow> ('s, 'a) parser \<Rightarrow> ('s, 'a list) parser" where
  "prepeat 0 p s b = pret [] s b"
| "prepeat (Suc n) p s b =
     pbind (p s b) (\<lambda>v s b. pbind (prepeat n p s b) (\<lambda>vs s b. pret (v # vs) s b))"

text \<open>\<^verbatim>\<open>keys.iter().map(|key| Ok(Pair { key, value: p()? })).collect()\<close>\<close>

fun pkeyed :: "'k list \<Rightarrow> ('s, 'a) parser \<Rightarrow> ('s, ('k \<times> 'a) list) parser" where
  "pkeyed [] p s b = pret [] s b"
| "pkeyed (k # ks) p s b =
     pbind (p s b) (\<lambda>v s b. pbind (pkeyed ks p s b) (\<lambda>vs s b. pret ((k, v) # vs) s b))"

lemma pbind_simps [simp]:
  "pbind None k = None"
  "pbind (Some (Inl e)) k = Some (Inl e)"
  "pbind (Some (Inr (v, s, b))) k = k v s b"
  by (simp_all add: pbind_def)

lemma pread_Inr: "p b = Inr (v, r) \<Longrightarrow> pread p s b = Some (Inr (v, s, r))"
  by (simp add: pread_def)

lemma pbind_Inr: "r = Some (Inr (v, s, b)) \<Longrightarrow> pbind r k = k v s b"
  by simp

section \<open>Progress within a bound\<close>

definition pgood :: "nat \<Rightarrow> ('s, 'a) parser \<Rightarrow> bool" where
  "pgood n p \<longleftrightarrow>
     (\<forall>s b. length b < n \<longrightarrow>
        p s b \<noteq> None \<and> (\<forall>v s' b'. p s b = Some (Inr (v, s', b')) \<longrightarrow> length b' \<le> length b))"

definition pstrict :: "nat \<Rightarrow> ('s, 'a) parser \<Rightarrow> bool" where
  "pstrict n p \<longleftrightarrow>
     (\<forall>s b. length b < n \<longrightarrow>
        p s b \<noteq> None \<and> (\<forall>v s' b'. p s b = Some (Inr (v, s', b')) \<longrightarrow> length b' < length b))"

named_theorems pgood_intros \<open>closure rules for parsers that make progress\<close>

lemma pstrict_pgood: "pstrict n p \<Longrightarrow> pgood n p"
  unfolding pstrict_def pgood_def by (meson order.strict_implies_order)

lemma pgood_mono: "pgood n p \<Longrightarrow> m \<le> n \<Longrightarrow> pgood m p"
  and pstrict_mono: "pstrict n p \<Longrightarrow> m \<le> n \<Longrightarrow> pstrict m p"
  unfolding pstrict_def pgood_def by (meson order.strict_trans2)+

lemma pgoodD:
  "pgood n p \<Longrightarrow> length b < n \<Longrightarrow> p s b \<noteq> None"
  "pgood n p \<Longrightarrow> length b < n \<Longrightarrow> p s b = Some (Inr (v, s', b')) \<Longrightarrow> length b' \<le> length b"
  by (simp_all add: pgood_def)

lemma pstrictD:
  "pstrict n p \<Longrightarrow> length b < n \<Longrightarrow> p s b \<noteq> None"
  "pstrict n p \<Longrightarrow> length b < n \<Longrightarrow> p s b = Some (Inr (v, s', b')) \<Longrightarrow> length b' < length b"
  by (simp_all add: pstrict_def)

lemma presult_cases:
  obtains "(r :: ('s, 'a) presult) = None" | e where "r = Some (Inl e)" | v s b where "r = Some (Inr (v, s, b))"
  by (metis not_Some_eq prod_cases3 sum.exhaust)

lemma pgood_pret [pgood_intros]: "pgood n (\<lambda>s b. pret v s b)"
  and pgood_pfail [pgood_intros]: "pgood n (\<lambda>s b. pfail e s b)"
  and pgood_upd [pgood_intros]: "pgood n (\<lambda>s b. pret v (f s) b)"
  by (auto simp: pgood_def pret_def pfail_def)

lemma pgood_if [pgood_intros]:
  "pgood n p \<Longrightarrow> pgood n q \<Longrightarrow> pgood n (\<lambda>s b. if c then p s b else q s b)"
  by (auto simp: pgood_def)

lemma pgood_bind [pgood_intros]:
  assumes "pgood n p" and "\<And>v. pgood n (k v)"
  shows "pgood n (\<lambda>s b. pbind (p s b) (\<lambda>v s b. k v s b))"
  unfolding pgood_def
proof (intro allI impI)
  fix s :: 'a and b :: bytes
  assume l: "length b < n"
  show "pbind (p s b) (\<lambda>v s b. k v s b) \<noteq> None \<and>
    (\<forall>v s' b'. pbind (p s b) (\<lambda>v s b. k v s b) = Some (Inr (v, s', b')) \<longrightarrow> length b' \<le> length b)"
  proof (cases "p s b" rule: presult_cases)
    case (3 v1 s1 b1)
    note l1 = pgoodD(2) [OF assms(1) l 3]
    have l2: "length b1 < n" using l l1 by simp
    have "length b' \<le> length b" if "k v1 s1 b1 = Some (Inr (v, s', b'))" for v s' b'
      using pgoodD(2) [OF assms(2) l2 that] l1 by simp
    with 3 pgoodD(1) [OF assms(2) l2] show ?thesis by simp
  qed (use pgoodD(1) [OF assms(1) l] in simp_all)
qed

lemma pstrict_bind:
  assumes "pstrict (Suc n) p" and "\<And>v. pgood n (k v)"
  shows "pstrict (Suc n) (\<lambda>s b. pbind (p s b) (\<lambda>v s b. k v s b))"
  unfolding pstrict_def
proof (intro allI impI)
  fix s :: 'a and b :: bytes
  assume l: "length b < Suc n"
  show "pbind (p s b) (\<lambda>v s b. k v s b) \<noteq> None \<and>
    (\<forall>v s' b'. pbind (p s b) (\<lambda>v s b. k v s b) = Some (Inr (v, s', b')) \<longrightarrow> length b' < length b)"
  proof (cases "p s b" rule: presult_cases)
    case (3 v1 s1 b1)
    note l1 = pstrictD(2) [OF assms(1) l 3]
    have l2: "length b1 < n" using l l1 by simp
    have "length b' < length b" if "k v1 s1 b1 = Some (Inr (v, s', b'))" for v s' b'
      using pgoodD(2) [OF assms(2) l2 that] l1 by simp
    with 3 pgoodD(1) [OF assms(2) l2] show ?thesis by simp
  qed (use pstrictD(1) [OF assms(1) l] in simp_all)
qed

lemma pread_split: "pread p s b = Some (Inr (v, s', r)) \<longleftrightarrow> p b = Inr (v, r) \<and> s' = s"
  and pread_not_None [simp]: "pread p s b \<noteq> None"
  by (auto simp: pread_def split: sum.splits)

lemma pgood_pread:
  "(\<And>b v r. p b = Inr (v, r) \<Longrightarrow> length r \<le> length b) \<Longrightarrow> pgood n (\<lambda>s b. pread p s b)"
  by (auto simp: pgood_def pread_split)

lemma pstrict_pread:
  "(\<And>b v r. p b = Inr (v, r) \<Longrightarrow> length r < length b) \<Longrightarrow> pstrict n (\<lambda>s b. pread p s b)"
  by (auto simp: pstrict_def pread_split)

lemma pgood_reads [pgood_intros]:
  "pgood n (\<lambda>s b. pread read_u8 s b)" "pgood n (\<lambda>s b. pread read_u16 s b)"
  "pgood n (\<lambda>s b. pread read_u32 s b)" "pgood n (\<lambda>s b. pread read_i32 s b)"
  "pgood n (\<lambda>s b. pread read_f64 s b)" "pgood n (\<lambda>s b. pread (read_bytes k) s b)"
  "pgood n (\<lambda>s b. pread (read_utf8 k) s b)"
  by (rule pgood_pread, drule read_length, simp)+

lemma pstrict_reads:
  "pstrict n (\<lambda>s b. pread read_u8 s b)" "pstrict n (\<lambda>s b. pread read_u16 s b)"
  by (rule pstrict_pread, drule read_length, simp)+

lemma pgood_repeat [pgood_intros]: "pgood n p \<Longrightarrow> pgood n (\<lambda>s b. prepeat k p s b)"
proof (induction k)
  case (Suc k)
  then have "pgood n (\<lambda>s b. pbind (p s b) (\<lambda>v s b. pbind (prepeat k p s b) (\<lambda>vs s b. pret (v # vs) s b)))"
    by (intro pgood_intros) simp_all
  then show ?case by simp
qed (simp add: pgood_def pret_def)

lemma pgood_keyed [pgood_intros]: "pgood n p \<Longrightarrow> pgood n (\<lambda>s b. pkeyed ks p s b)"
proof (induction ks)
  case (Cons k ks)
  then have "pgood n (\<lambda>s b. pbind (p s b) (\<lambda>v s b. pbind (pkeyed ks p s b) (\<lambda>vs s b. pret ((k, v) # vs) s b)))"
    by (intro pgood_intros) simp_all
  then show ?case by simp
qed (simp add: pgood_def pret_def)

section \<open>Parsers that read back an encoding\<close>

text \<open>\<open>preads p w v\<close>: whatever the state and whatever follows, \<open>p\<close> reads \<open>w\<close> and returns \<open>v\<close>.\<close>

definition preads :: "('s, 'a) parser \<Rightarrow> bytes \<Rightarrow> 'a \<Rightarrow> bool" where
  "preads p w v \<longleftrightarrow> (\<forall>s r. \<exists>s'. p s (w @ r) = Some (Inr (v, s', r)))"

lemma preadsI: "(\<And>s r. \<exists>s'. p s (w @ r) = Some (Inr (v, s', r))) \<Longrightarrow> preads p w v"
  by (simp add: preads_def)

lemma preads_bind:
  assumes "preads p w1 v1" and "preads (k v1) w2 v2"
  shows "preads (\<lambda>s b. pbind (p s b) (\<lambda>v s b. k v s b)) (w1 @ w2) v2"
proof (rule preadsI)
  fix s r
  from assms(1) obtain s1 where "p s (w1 @ w2 @ r) = Some (Inr (v1, s1, w2 @ r))"
    by (force simp: preads_def)
  moreover from assms(2) obtain s2 where "k v1 s1 (w2 @ r) = Some (Inr (v2, s2, r))"
    by (auto simp: preads_def)
  ultimately show "\<exists>s'. pbind (p s ((w1 @ w2) @ r)) (\<lambda>v s b. k v s b) = Some (Inr (v2, s', r))"
    by auto
qed

lemma preads_pread: "(\<And>r. p (w @ r) = Inr (v, r)) \<Longrightarrow> preads (\<lambda>s b. pread p s b) w v"
  by (auto simp: preads_def pread_def)

lemma preads_pret: "preads (\<lambda>s b. pret v (f s) b) [] v" "preads (\<lambda>s b. pret v s b) [] v"
  by (simp_all add: preads_def pret_def)

lemma preads_repeat:
  "list_all2 (\<lambda>w v. preads p w v) ws vs \<Longrightarrow> preads (\<lambda>s b. prepeat (length vs) p s b) (concat ws) vs"
proof (induction rule: list_all2_induct)
  case (Cons w ws v vs)
  have "preads (\<lambda>s b. pbind (p s b) (\<lambda>v s b. pbind (prepeat (length vs) p s b)
      (\<lambda>vs s b. pret (v # vs) s b))) (w @ concat ws @ []) (v # vs)"
    by (rule preads_bind [OF Cons.hyps(1)], rule preads_bind [OF Cons.IH], rule preads_pret)
  then show ?case by simp
qed (simp add: preads_pret)

lemma preads_keyed:
  "list_all2 (\<lambda>w (k, v). preads p w v) ws kvs \<Longrightarrow>
     preads (\<lambda>s b. pkeyed (map fst kvs) p s b) (concat ws) kvs"
proof (induction rule: list_all2_induct)
  case (Cons w ws kv kvs)
  obtain k v where kv: "kv = (k, v)" by fastforce
  with Cons have "preads p w v" by simp
  then have "preads (\<lambda>s b. pbind (p s b) (\<lambda>v s b. pbind (pkeyed (map fst kvs) p s b)
      (\<lambda>vs s b. pret ((k, v) # vs) s b))) (w @ concat ws @ []) ((k, v) # kvs)"
    by (rule preads_bind, intro preads_bind [OF Cons.IH] preads_pret)
  then show ?case by (simp add: kv)
qed (simp add: preads_pret)

lemma preads_map: "preads p w v \<Longrightarrow> preads (\<lambda>s b. pbind (p s b) (\<lambda>v s b. pret (f v) s b)) w (f v)"
  using preads_bind [of p w v "\<lambda>v s b. pret (f v) s b" "[]" "f v"] by (simp add: preads_pret)

lemma preads_repeat_map:
  "(\<And>v. v \<in> set vs \<Longrightarrow> preads p (W v) v) \<Longrightarrow>
     preads (\<lambda>s b. prepeat (length vs) p s b) (concat (map W vs)) vs"
  by (rule preads_repeat) (simp add: list_all2_map1 list.rel_refl_strong)

lemma preads_keyed_map:
  "(\<And>e. e \<in> set es \<Longrightarrow> preads p (W (snd e)) (snd e)) \<Longrightarrow>
     preads (\<lambda>s b. pkeyed (map fst es) p s b) (concat (map (\<lambda>e. W (snd e)) es)) es"
  by (rule preads_keyed) (auto simp: list_all2_map1 intro!: list.rel_refl_strong)

lemma length_concat_member: "x \<in> set xs \<Longrightarrow> length x \<le> length (concat xs)"
  by (induction xs) auto

lemma length_le_concat: "(\<And>x. x \<in> set xs \<Longrightarrow> x \<noteq> []) \<Longrightarrow> length xs \<le> length (concat xs)"
proof (induction xs)
  case (Cons x xs)
  then have "0 < length x" and "length xs \<le> length (concat xs)" by auto
  then show ?case by (simp del: length_greater_0_conv)
qed simp

end
