(* ===== verification/Codec_Ids.thy ===== *)
theory Codec_Ids
  imports Prelude
begin

text \<open>
  The part of the codec crate the RTMP core calls: \<^verbatim>\<open>MediaKind\<close> and \<^verbatim>\<open>CodecId\<close> of \<^verbatim>\<open>track.rs\<close> and the
  mapping between codecs, RTMP codec ids and enhanced-RTMP FourCC codes of \<^verbatim>\<open>compat.rs\<close>.
\<close>

datatype media_kind = Video | Audio | Data | Subtitle

datatype codec_id =
    H264 | H265 | H266 | AV1 | VP8 | VP9 | MJPEG | AAC | ADPCM | Opus | G711A | G711U
  | MP2 | MP3 | WebVtt | UnknownCodec

datatype domestic_codec_mode = Standard | Domestic | Auto

definition fourcc :: "u8 \<Rightarrow> u8 \<Rightarrow> u8 \<Rightarrow> u8 \<Rightarrow> u32" where
  "fourcc a b c d = push_bit 24 (ucast a) OR push_bit 16 (ucast b) OR push_bit 8 (ucast c) OR ucast d"

definition rtmp_fourcc_h265 :: u32 where "rtmp_fourcc_h265 = fourcc 0x68 0x76 0x63 0x31"
definition rtmp_fourcc_h266 :: u32 where "rtmp_fourcc_h266 = fourcc 0x76 0x76 0x63 0x31"
definition rtmp_fourcc_h264 :: u32 where "rtmp_fourcc_h264 = fourcc 0x61 0x76 0x63 0x31"
definition rtmp_fourcc_av1 :: u32 where "rtmp_fourcc_av1 = fourcc 0x61 0x76 0x30 0x31"
definition rtmp_fourcc_vp8 :: u32 where "rtmp_fourcc_vp8 = fourcc 0x76 0x70 0x30 0x38"
definition rtmp_fourcc_vp9 :: u32 where "rtmp_fourcc_vp9 = fourcc 0x76 0x70 0x30 0x39"

lemmas fourcc_defs = rtmp_fourcc_h265_def rtmp_fourcc_h266_def rtmp_fourcc_h264_def
  rtmp_fourcc_av1_def rtmp_fourcc_vp8_def rtmp_fourcc_vp9_def fourcc_def

fun codec_from_rtmp_codec_id :: "media_kind \<Rightarrow> u8 \<Rightarrow> codec_id option" where
  "codec_from_rtmp_codec_id Video i =
     (if i = 7 then Some H264 else if i = 12 then Some H265 else if i = 13 then Some AV1
      else if i = 14 then Some H266 else if i = 16 then Some VP9 else None)"
| "codec_from_rtmp_codec_id Audio i =
     (if i = 10 then Some AAC else if i = 1 then Some ADPCM else if i = 7 then Some G711A
      else if i = 8 then Some G711U else if i = 2 then Some MP3 else if i = 13 then Some Opus
      else None)"
| "codec_from_rtmp_codec_id _ i = None"

fun codec_from_rtmp_codec_id_with_mode ::
  "media_kind \<Rightarrow> u8 \<Rightarrow> domestic_codec_mode \<Rightarrow> codec_id option" where
  "codec_from_rtmp_codec_id_with_mode Video i mode =
     (case mode of
        Standard \<Rightarrow>
          (if i = 7 then Some H264 else if i = 12 then Some H265 else if i = 13 then Some AV1
           else if i = 14 then Some H266 else if i = 16 then Some VP9 else None)
      | _ \<Rightarrow>
          (if i = 7 then Some H264 else if i = 12 then Some H265 else if i = 13 then Some AV1
           else if i = 14 then Some VP8 else if i = 15 then Some VP9 else if i = 16 then Some VP9
           else None))"
| "codec_from_rtmp_codec_id_with_mode Audio i mode =
     (if i = 10 then Some AAC else if i = 1 then Some ADPCM else if i = 7 then Some G711A
      else if i = 8 then Some G711U else if i = 2 then Some MP3 else if i = 13 then Some Opus
      else None)"
| "codec_from_rtmp_codec_id_with_mode _ i mode = None"

fun rtmp_domestic_codec_id_from_codec :: "codec_id \<Rightarrow> u8 option" where
  "rtmp_domestic_codec_id_from_codec H264 = Some 7"
| "rtmp_domestic_codec_id_from_codec H265 = Some 12"
| "rtmp_domestic_codec_id_from_codec AV1 = Some 13"
| "rtmp_domestic_codec_id_from_codec VP8 = Some 14"
| "rtmp_domestic_codec_id_from_codec VP9 = Some 15"
| "rtmp_domestic_codec_id_from_codec AAC = Some 10"
| "rtmp_domestic_codec_id_from_codec ADPCM = Some 1"
| "rtmp_domestic_codec_id_from_codec G711A = Some 7"
| "rtmp_domestic_codec_id_from_codec G711U = Some 8"
| "rtmp_domestic_codec_id_from_codec MP3 = Some 2"
| "rtmp_domestic_codec_id_from_codec Opus = Some 13"
| "rtmp_domestic_codec_id_from_codec _ = None"

fun rtmp_codec_id_from_codec :: "codec_id \<Rightarrow> u8 option" where
  "rtmp_codec_id_from_codec H264 = Some 7"
| "rtmp_codec_id_from_codec H265 = Some 12"
| "rtmp_codec_id_from_codec AV1 = Some 13"
| "rtmp_codec_id_from_codec H266 = Some 14"
| "rtmp_codec_id_from_codec VP9 = Some 16"
| "rtmp_codec_id_from_codec AAC = Some 10"
| "rtmp_codec_id_from_codec ADPCM = Some 1"
| "rtmp_codec_id_from_codec G711A = Some 7"
| "rtmp_codec_id_from_codec G711U = Some 8"
| "rtmp_codec_id_from_codec MP3 = Some 2"
| "rtmp_codec_id_from_codec Opus = Some 13"
| "rtmp_codec_id_from_codec _ = None"

definition codec_from_rtmp_fourcc :: "u32 \<Rightarrow> codec_id option" where
  "codec_from_rtmp_fourcc f =
     (if f = rtmp_fourcc_h264 then Some H264
      else if f = rtmp_fourcc_h265 then Some H265
      else if f = rtmp_fourcc_h266 then Some H266
      else if f = rtmp_fourcc_av1 then Some AV1
      else if f = rtmp_fourcc_vp8 then Some VP8
      else if f = rtmp_fourcc_vp9 then Some VP9
      else None)"

fun rtmp_fourcc_from_codec :: "codec_id \<Rightarrow> u32 option" where
  "rtmp_fourcc_from_codec H264 = Some rtmp_fourcc_h264"
| "rtmp_fourcc_from_codec H265 = Some rtmp_fourcc_h265"
| "rtmp_fourcc_from_codec H266 = Some rtmp_fourcc_h266"
| "rtmp_fourcc_from_codec AV1 = Some rtmp_fourcc_av1"
| "rtmp_fourcc_from_codec VP8 = Some rtmp_fourcc_vp8"
| "rtmp_fourcc_from_codec VP9 = Some rtmp_fourcc_vp9"
| "rtmp_fourcc_from_codec _ = None"

fun media_kind_of_codec :: "codec_id \<Rightarrow> media_kind" where
  "media_kind_of_codec c =
     (if c \<in> {AAC, ADPCM, Opus, G711A, G711U, MP2, MP3} then Audio
      else if c = WebVtt then Subtitle else Video)"

definition rtmp_audio_flag :: "codec_id \<Rightarrow> u32 \<Rightarrow> u8 \<Rightarrow> u8 \<Rightarrow> u8 option" where
  "rtmp_audio_flag codec sample_rate bits_per_sample channels =
     (case rtmp_codec_id_from_codec codec of
        None \<Rightarrow> None
      | Some i \<Rightarrow>
          if codec \<notin> {AAC, ADPCM, G711A, G711U, MP2, MP3, Opus} then None
          else
            (let rate_code = (if sample_rate = 44100 \<or> sample_rate = 48000 then Some (3 :: u8)
                              else if sample_rate = 22050 then Some 2
                              else if sample_rate = 11025 then Some 1
                              else if sample_rate = 5512 \<or> sample_rate = 8000 \<or> sample_rate = 16000
                              then Some 0 else None)
             in map_option
                  (\<lambda>rc. push_bit 4 i OR push_bit 2 rc
                        OR push_bit 1 (if 16 \<le> bits_per_sample then 1 else 0)
                        OR (if 1 < channels then 1 else 0)) rate_code))"

section \<open>Properties\<close>

lemma fourcc_values:
  "rtmp_fourcc_h264 = 0x61766331" "rtmp_fourcc_h265 = 0x68766331" "rtmp_fourcc_h266 = 0x76766331"
  "rtmp_fourcc_av1 = 0x61763031" "rtmp_fourcc_vp8 = 0x76703038" "rtmp_fourcc_vp9 = 0x76703039"
  by (simp_all add: fourcc_defs)

text \<open>
  The codec tables agree with each other: the FourCC tables are inverse to each other, a codec id
  written for a codec is read back as that codec in the same (standard or domestic) mode, and the mode
  parameter does not matter where the plain table is used.
\<close>

lemma codec_tables_consistent:
  "(codec_from_rtmp_fourcc f = Some c \<longleftrightarrow> rtmp_fourcc_from_codec c = Some f)
   \<and> (rtmp_codec_id_from_codec c = Some i \<longrightarrow>
        codec_from_rtmp_codec_id_with_mode (media_kind_of_codec c) i Standard = Some c)
   \<and> (rtmp_domestic_codec_id_from_codec c = Some i \<longrightarrow>
        codec_from_rtmp_codec_id_with_mode (media_kind_of_codec c) i Domestic = Some c
        \<and> codec_from_rtmp_codec_id_with_mode (media_kind_of_codec c) i Auto = Some c)
   \<and> codec_from_rtmp_codec_id_with_mode m i Standard = codec_from_rtmp_codec_id m i"
  by (intro conjI; cases c; cases m)
    (auto simp: codec_from_rtmp_fourcc_def fourcc_values split: if_splits)

lemma codec_tables_consistent_witness:
  "codec_from_rtmp_fourcc 0x68766331 = Some H265
   \<and> codec_from_rtmp_codec_id_with_mode Video 14 Domestic = Some VP8"
  using codec_tables_consistent [where f = "0x68766331" and c = H265 and i = 12]
    codec_tables_consistent [where c = VP8 and i = 14]
  by (simp add: fourcc_values)

end
