(* ===== verification/Codec_Time.thy ===== *)
theory Codec_Time
  imports Prelude "HOL-Library.Signed_Division"
begin

text \<open>
  Timestamps, \<^verbatim>\<open>src/crates/foundation/cheetah-codec/src/time.rs\<close>: time bases, unwrapping of wrapped
  counters, and the normalizer that turns any mix of timestamps into a timeline of ascending decoding
  times. \<^verbatim>\<open>i64\<close> values are \<open>int\<close>s in range, with the saturation or the wrap of the code written out;
  \<^verbatim>\<open>i128\<close> intermediates stay below 2^116 and are exact.
\<close>

section \<open>64-bit integers\<close>

definition i64_min :: int where "i64_min = - (2 ^ 63)"
definition i64_max :: int where "i64_max = 2 ^ 63 - 1"

definition i64_range :: "int \<Rightarrow> bool" where
  "i64_range x \<longleftrightarrow> i64_min \<le> x \<and> x \<le> i64_max"

text \<open>\<^verbatim>\<open>as i64\<close> and wrapping \<^verbatim>\<open>+\<close>; \<^verbatim>\<open>saturating_add\<close> and the like.\<close>

definition wrap_i64 :: "int \<Rightarrow> int" where
  "wrap_i64 x = (x + 2 ^ 63) mod 2 ^ 64 - 2 ^ 63"

definition sat_i64 :: "int \<Rightarrow> int" where
  "sat_i64 x = max i64_min (min i64_max x)"

lemma i64_range_wrap [simp]: "i64_range (wrap_i64 x)"
proof -
  have "0 \<le> (x + 2 ^ 63) mod 2 ^ 64" "(x + 2 ^ 63) mod 2 ^ 64 < 2 ^ 64" by simp_all
  then show ?thesis by (simp add: wrap_i64_def i64_range_def i64_min_def i64_max_def)
qed

lemma i64_range_sat [simp]: "i64_range (sat_i64 x)"
  by (auto simp: i64_range_def sat_i64_def i64_min_def i64_max_def)

lemma wrap_i64_id: "i64_range x \<Longrightarrow> wrap_i64 x = x"
  by (simp add: wrap_i64_def i64_range_def i64_min_def i64_max_def)

lemma sat_i64_id: "i64_range x \<Longrightarrow> sat_i64 x = x"
  by (simp add: sat_i64_def i64_range_def)

section \<open>Time bases\<close>

record timebase =
  tb_num :: u32
  tb_den :: u32

definition to_micros :: "timebase \<Rightarrow> int \<Rightarrow> int" where
  "to_micros tb value =
     (let num = int (unat (tb_num tb)); den = int (unat (max (tb_den tb) 1))
      in wrap_i64 ((value * num * 1000000) sdiv den))"

definition from_micros :: "timebase \<Rightarrow> int \<Rightarrow> int" where
  "from_micros tb micros =
     (let num = int (unat (max (tb_num tb) 1)); den = int (unat (tb_den tb))
      in wrap_i64 ((micros * den) sdiv (num * 1000000)))"

definition timebase_convert :: "int \<Rightarrow> timebase \<Rightarrow> timebase \<Rightarrow> int" where
  "timebase_convert value src dst = from_micros dst (to_micros src value)"

section \<open>Unwrapping\<close>

text \<open>\<^verbatim>\<open>u64\<close> values are \<open>nat\<close>s below 2^64; the arithmetic of the code wraps.\<close>

record wrap_unwrapper =
  wu_mask :: nat
  wu_half :: nat
  wu_high :: nat
  wu_last_raw :: "nat option"

definition wrap_unwrapper_new :: "nat \<Rightarrow> wrap_unwrapper option" where
  "wrap_unwrapper_new bits =
     (if bits = 0 \<or> bits > 63 then None
      else Some \<lparr>wu_mask = 2 ^ bits - 1, wu_half = 2 ^ (bits - 1), wu_high = 0, wu_last_raw = None\<rparr>)"

definition wrap_unwrap :: "wrap_unwrapper \<Rightarrow> nat \<Rightarrow> wrap_unwrapper \<times> nat" where
  "wrap_unwrap u raw =
     (let raw = raw AND wu_mask u;
          high = (case wu_last_raw u of
                    None \<Rightarrow> wu_high u
                  | Some prev \<Rightarrow>
                      if raw < prev \<and> prev - raw > wu_half u then (wu_high u + (wu_mask u + 1)) mod 2 ^ 64
                      else if raw > prev \<and> raw - prev > wu_half u
                      then (wu_high u + 2 ^ 64 - (wu_mask u + 1)) mod 2 ^ 64
                      else wu_high u)
      in (u\<lparr>wu_high := high, wu_last_raw := Some raw\<rparr>, (high + raw) mod 2 ^ 64))"

definition wrap_unwrapper_reset :: "wrap_unwrapper \<Rightarrow> wrap_unwrapper" where
  "wrap_unwrapper_reset u = u\<lparr>wu_high := 0, wu_last_raw := None\<rparr>"

section \<open>Simple generators\<close>

datatype stamp_adjust_mode = StampSource | StampArrival | StampSampleCount | StampFrameRateGuess

record stamp_adjust =
  sa_mode :: stamp_adjust_mode
  sa_last_pts_us :: "int option"
  sa_step_us :: int

definition stamp_adjust_new :: "stamp_adjust_mode \<Rightarrow> int \<Rightarrow> stamp_adjust" where
  "stamp_adjust_new mode step_us = \<lparr>sa_mode = mode, sa_last_pts_us = None, sa_step_us = max step_us 1\<rparr>"

definition stamp_adjust_value :: "stamp_adjust \<Rightarrow> int option \<Rightarrow> nat \<Rightarrow> int" where
  "stamp_adjust_value a source_pts_us now_us =
     (let now = wrap_i64 (int now_us) in
      case sa_mode a of
        StampSource \<Rightarrow> (case source_pts_us of Some v \<Rightarrow> v | None \<Rightarrow> now)
      | StampArrival \<Rightarrow> now
      | _ \<Rightarrow> (case sa_last_pts_us a of None \<Rightarrow> now | Some v \<Rightarrow> wrap_i64 (v + sa_step_us a)))"

definition stamp_adjust_step :: "stamp_adjust \<Rightarrow> int option \<Rightarrow> nat \<Rightarrow> stamp_adjust \<times> int" where
  "stamp_adjust_step a source_pts_us now_us =
     (let value = stamp_adjust_value a source_pts_us now_us;
          value = (case sa_last_pts_us a of
                     None \<Rightarrow> value
                   | Some prev \<Rightarrow> if value \<le> prev then wrap_i64 (prev + sa_step_us a) else value)
      in (a\<lparr>sa_last_pts_us := Some value\<rparr>, value))"

record dts_generator =
  dg_last_dts :: "int option"
  dg_last_source_pts :: "int option"
  dg_smoothed_step :: "int option"
  dg_pts_reorder_seen :: bool

definition dts_generator_default :: dts_generator where
  "dts_generator_default =
     \<lparr>dg_last_dts = None, dg_last_source_pts = None, dg_smoothed_step = None, dg_pts_reorder_seen = False\<rparr>"

definition dts_generator_reset :: "dts_generator \<Rightarrow> dts_generator" where
  "dts_generator_reset g =
     g\<lparr>dg_last_dts := None, dg_last_source_pts := None, dg_smoothed_step := None, dg_pts_reorder_seen := False\<rparr>"

definition generate_monotonic_from_pts :: "dts_generator \<Rightarrow> int \<Rightarrow> dts_generator \<times> int" where
  "generate_monotonic_from_pts g pts =
     (let dts = (case dg_last_dts g of
                   None \<Rightarrow> pts
                 | Some prev \<Rightarrow> if pts \<le> prev then wrap_i64 (prev + 1) else pts)
      in (g\<lparr>dg_last_dts := Some dts\<rparr>, dts))"

record pts_only_dts_generation =
  pg_dts :: int
  pg_reordered :: bool
  pg_discontinuity :: bool

definition generate_from_pts_only ::
  "dts_generator \<Rightarrow> int \<Rightarrow> int \<Rightarrow> int option \<Rightarrow> int \<Rightarrow> dts_generator \<times> pts_only_dts_generation" where
  "generate_from_pts_only g pts fallback_step frame_duration max_gap_ticks =
     (let fallback_step = max fallback_step 1;
          expected_step = max (case dg_smoothed_step g of Some s \<Rightarrow> s | None \<Rightarrow> fallback_step) 1;
          jump_threshold = max (max (max max_gap_ticks (sat_i64 (expected_step * 8))) (sat_i64 (fallback_step * 8))) 1;
          step = max (case frame_duration of Some d \<Rightarrow> d | None \<Rightarrow> 0) 0;
          (g, step, observed, reordered, discontinuity) =
            (case dg_last_source_pts g of
               None \<Rightarrow> (g, step, None, False, False)
             | Some last_pts \<Rightarrow>
                 let delta = sat_i64 (pts - last_pts) in
                 if sat_i64 \<bar>delta\<bar> > jump_threshold then
                   (let g = g\<lparr>dg_smoothed_step := None\<rparr> in
                    if delta > 0 \<and> step = 0 then (g, delta, Some delta, False, True)
                    else (g, step, None, False, True))
                 else if delta < 0 then
                   (g\<lparr>dg_pts_reorder_seen := True, dg_smoothed_step := Some fallback_step\<rparr>, step, None, True, False)
                 else if delta > 0 \<and> step = 0 then
                   (if dg_pts_reorder_seen g then (g, expected_step, Some expected_step, False, False)
                    else (g, delta, Some delta, False, False))
                 else (g, step, None, False, False));
          step = (if step = 0 then max (case dg_smoothed_step g of Some s \<Rightarrow> s | None \<Rightarrow> fallback_step) 1 else step);
          dts = (case dg_last_dts g of Some last_dts \<Rightarrow> sat_i64 (last_dts + step) | None \<Rightarrow> pts);
          observed_step =
            max (case dg_last_source_pts g of
                   None \<Rightarrow> step
                 | Some last_pts \<Rightarrow>
                     let delta = sat_i64 (pts - last_pts) in
                     case observed of Some value \<Rightarrow> value | None \<Rightarrow> if delta > 0 then delta else step) 1;
          blended_step =
            (case dg_smoothed_step g of
               Some previous \<Rightarrow> max 1 (min i64_max ((previous * 3 + observed_step) sdiv 4))
             | None \<Rightarrow> observed_step)
      in (g\<lparr>dg_smoothed_step := Some (max blended_step 1), dg_last_source_pts := Some pts, dg_last_dts := Some dts\<rparr>,
          \<lparr>pg_dts = dts, pg_reordered = reordered, pg_discontinuity = discontinuity\<rparr>))"

record discontinuity_judge =
  dj_max_gap_us :: int
  dj_last_pts_us :: "int option"

definition discontinuity_judge_new :: "int \<Rightarrow> discontinuity_judge" where
  "discontinuity_judge_new max_gap_us = \<lparr>dj_max_gap_us = max max_gap_us 0, dj_last_pts_us = None\<rparr>"

definition discontinuity_observe :: "discontinuity_judge \<Rightarrow> int \<Rightarrow> discontinuity_judge \<times> bool" where
  "discontinuity_observe j pts_us =
     (j\<lparr>dj_last_pts_us := Some pts_us\<rparr>,
      case dj_last_pts_us j of
        Some prev \<Rightarrow> pts_us < prev \<or> wrap_i64 (pts_us - prev) > dj_max_gap_us j
      | None \<Rightarrow> False)"

section \<open>The normalizer\<close>

datatype timestamp_value = Unwrapped int | Wrapped nat

record timestamp_normalizer_config =
  nc_input_timebase :: timebase
  nc_output_timebase :: timebase
  nc_wrap_bits :: "nat option"
  nc_max_forward_gap_us :: int
  nc_default_fallback_step :: int
  nc_allow_negative_composition :: bool

datatype timestamp_normalizer_config_error =
  InvalidInputTimebase u32 u32 | InvalidOutputTimebase u32 u32 | InvalidWrapWidth nat

definition normalizer_config_new ::
  "timebase \<Rightarrow> timebase \<Rightarrow> nat option \<Rightarrow> timestamp_normalizer_config_error + timestamp_normalizer_config" where
  "normalizer_config_new input output wrap_bits =
     (if tb_num input = 0 \<or> tb_den input = 0 then Inl (InvalidInputTimebase (tb_num input) (tb_den input))
      else if tb_num output = 0 \<or> tb_den output = 0 then Inl (InvalidOutputTimebase (tb_num output) (tb_den output))
      else
        case (case wrap_bits of Some bits \<Rightarrow> if bits = 0 \<or> bits > 63 then Some bits else None | None \<Rightarrow> None) of
          Some bits \<Rightarrow> Inl (InvalidWrapWidth bits)
        | None \<Rightarrow> Inr \<lparr>nc_input_timebase = input, nc_output_timebase = output, nc_wrap_bits = wrap_bits,
                    nc_max_forward_gap_us = 2000000, nc_default_fallback_step = 1,
                    nc_allow_negative_composition = True\<rparr>)"

definition with_max_forward_gap_us :: "timestamp_normalizer_config \<Rightarrow> int \<Rightarrow> timestamp_normalizer_config" where
  "with_max_forward_gap_us c gap = c\<lparr>nc_max_forward_gap_us := max gap 0\<rparr>"

definition with_default_fallback_step :: "timestamp_normalizer_config \<Rightarrow> int \<Rightarrow> timestamp_normalizer_config" where
  "with_default_fallback_step c step = c\<lparr>nc_default_fallback_step := max step 1\<rparr>"

definition with_negative_composition_allowed ::
  "timestamp_normalizer_config \<Rightarrow> bool \<Rightarrow> timestamp_normalizer_config" where
  "with_negative_composition_allowed c allow = c\<lparr>nc_allow_negative_composition := allow\<rparr>"

datatype timestamp_normalize_error = WrappedTimestampWithoutConfig | UnwrappedTimestampOverflow nat

datatype timestamp_alert =
  MissingDtsUsedFallback | MissingPtsDerivedFromDts | NonMonotonicDtsRepaired | PtsReorderObserved
| TimelineDiscontinuityDetected | NegativeCompositionClamped | ResetApplied

datatype timestamp_normalize_mode =
  NoTimestamp
| DtsPts timestamp_value timestamp_value
| DtsWithCompositionOffset timestamp_value "int option"
| PtsOnly timestamp_value

record timestamp_normalize_input =
  ni_mode :: timestamp_normalize_mode
  ni_frame_duration :: "int option"
  ni_fallback_step :: "int option"
  ni_is_video :: bool
  ni_force_discontinuity :: bool

record timestamp_normalize_output =
  no_pts :: int
  no_dts :: int
  no_pts_us :: int
  no_dts_us :: int
  no_discontinuity :: bool
  no_alerts :: "timestamp_alert list"

record timestamp_normalizer =
  tn_config :: timestamp_normalizer_config
  tn_dts_unwrapper :: "wrap_unwrapper option"
  tn_pts_unwrapper :: "wrap_unwrapper option"
  tn_epoch_offset :: "int option"
  tn_last_dts :: "int option"
  tn_next_fallback_dts :: "int option"
  tn_dts_generator :: dts_generator
  tn_pending_reset :: bool

text \<open>\<^verbatim>\<open>new\<close> panics when the width is invalid, which its configuration excludes.\<close>

definition normalizer_new :: "timestamp_normalizer_config \<Rightarrow> timestamp_normalizer option" where
  "normalizer_new config =
     (let make = (\<lambda>u. \<lparr>tn_config = config, tn_dts_unwrapper = u, tn_pts_unwrapper = u, tn_epoch_offset = None,
            tn_last_dts = None, tn_next_fallback_dts = None, tn_dts_generator = dts_generator_default,
            tn_pending_reset = False\<rparr>)
      in case nc_wrap_bits config of
           None \<Rightarrow> Some (make None)
         | Some bits \<Rightarrow> map_option (\<lambda>u. make (Some u)) (wrap_unwrapper_new bits))"

definition normalizer_reset :: "timestamp_normalizer \<Rightarrow> timestamp_normalizer" where
  "normalizer_reset n =
     n\<lparr>tn_epoch_offset := None, tn_last_dts := None, tn_next_fallback_dts := None, tn_pending_reset := True,
       tn_dts_generator := dts_generator_reset (tn_dts_generator n),
       tn_dts_unwrapper := map_option wrap_unwrapper_reset (tn_dts_unwrapper n),
       tn_pts_unwrapper := map_option wrap_unwrapper_reset (tn_pts_unwrapper n)\<rparr>"

definition push_alert :: "timestamp_alert list \<Rightarrow> timestamp_alert \<Rightarrow> timestamp_alert list" where
  "push_alert alerts alert = (if alert \<in> set alerts then alerts else alerts @ [alert])"

definition convert_ticks :: "timestamp_normalizer \<Rightarrow> int \<Rightarrow> int" where
  "convert_ticks n value =
     timebase_convert value (nc_input_timebase (tn_config n)) (nc_output_timebase (tn_config n))"

definition resolve_ticks ::
  "timestamp_normalizer \<Rightarrow> timestamp_value \<Rightarrow> bool \<Rightarrow> timestamp_normalizer \<times> (timestamp_normalize_error + int)" where
  "resolve_ticks n value is_dts =
     (case value of
        Unwrapped v \<Rightarrow> (n, Inr (convert_ticks n v))
      | Wrapped raw \<Rightarrow>
          (case (if is_dts then tn_dts_unwrapper n else tn_pts_unwrapper n) of
             None \<Rightarrow> (n, Inl WrappedTimestampWithoutConfig)
           | Some u \<Rightarrow>
               (case wrap_unwrap u raw of (u, unwrapped) \<Rightarrow>
                  let n = (if is_dts then n\<lparr>tn_dts_unwrapper := Some u\<rparr> else n\<lparr>tn_pts_unwrapper := Some u\<rparr>)
                  in if int unwrapped > i64_max then (n, Inl (UnwrappedTimestampOverflow unwrapped))
                     else (n, Inr (convert_ticks n (int unwrapped))))))"

text \<open>The decoding time, the presentation time and the composition offset the input carries.\<close>

definition resolve_mode ::
  "timestamp_normalizer \<Rightarrow> timestamp_normalize_mode
    \<Rightarrow> timestamp_normalizer \<times> (timestamp_normalize_error + int option \<times> int option \<times> int option)" where
  "resolve_mode n mode =
     (case mode of
        NoTimestamp \<Rightarrow> (n, Inr (None, None, None))
      | DtsPts dts pts \<Rightarrow>
          (case resolve_ticks n dts True of
             (n, Inl e) \<Rightarrow> (n, Inl e)
           | (n, Inr d) \<Rightarrow>
               (case resolve_ticks n pts False of
                  (n, Inl e) \<Rightarrow> (n, Inl e)
                | (n, Inr p) \<Rightarrow> (n, Inr (Some d, Some p, None))))
      | DtsWithCompositionOffset dts offset \<Rightarrow>
          (case resolve_ticks n dts True of
             (n, Inl e) \<Rightarrow> (n, Inl e)
           | (n, Inr d) \<Rightarrow> (n, Inr (Some d, None, map_option (convert_ticks n) offset)))
      | PtsOnly pts \<Rightarrow>
          (case resolve_ticks n pts False of
             (n, Inl e) \<Rightarrow> (n, Inl e)
           | (n, Inr p) \<Rightarrow> (n, Inr (None, Some p, None))))"

text \<open>The decoding time before it is made relative: the one of the input, or a generated one.\<close>

definition choose_dts ::
  "timestamp_normalizer \<Rightarrow> bool \<Rightarrow> int option \<Rightarrow> int option \<Rightarrow> int \<Rightarrow> int option \<Rightarrow> int \<Rightarrow> timestamp_alert list \<Rightarrow> bool
    \<Rightarrow> timestamp_normalizer \<times> int \<times> timestamp_alert list \<times> bool" where
  "choose_dts n is_pts_only source_dts source_pts fallback_step frame_duration max_gap_ticks alerts discontinuity =
     (case source_dts of
        Some value \<Rightarrow> (n, value, alerts, discontinuity)
      | None \<Rightarrow>
          let alerts = push_alert alerts MissingDtsUsedFallback in
          case source_pts of
            Some pts \<Rightarrow>
              if is_pts_only then
                (case generate_from_pts_only (tn_dts_generator n) pts fallback_step frame_duration max_gap_ticks of
                   (g, generated) \<Rightarrow>
                     let alerts = (if pg_reordered generated then push_alert alerts PtsReorderObserved else alerts);
                         alerts = (if pg_discontinuity generated
                                   then push_alert alerts TimelineDiscontinuityDetected else alerts)
                     in (n\<lparr>tn_dts_generator := g\<rparr>, pg_dts generated, alerts,
                         discontinuity \<or> pg_discontinuity generated))
              else
                (case generate_monotonic_from_pts (tn_dts_generator n) pts of
                   (g, dts) \<Rightarrow> (n\<lparr>tn_dts_generator := g\<rparr>, dts, alerts, discontinuity))
          | None \<Rightarrow> (n, (case tn_next_fallback_dts n of Some d \<Rightarrow> d | None \<Rightarrow> 0), alerts, discontinuity))"

text \<open>The decoding time after the previous one, and the presentation time.\<close>

definition repair_dts ::
  "timestamp_normalizer_config \<Rightarrow> int option \<Rightarrow> int \<Rightarrow> timestamp_alert list \<Rightarrow> bool
    \<Rightarrow> int \<times> timestamp_alert list \<times> bool" where
  "repair_dts config prev_dts dts alerts discontinuity =
     (case prev_dts of
        None \<Rightarrow> (dts, alerts, discontinuity)
      | Some prev \<Rightarrow>
          if dts \<le> prev then (sat_i64 (prev + 1), push_alert alerts NonMonotonicDtsRepaired, discontinuity)
          else if to_micros (nc_output_timebase config) (sat_i64 (dts - prev)) > nc_max_forward_gap_us config
          then (dts, push_alert alerts TimelineDiscontinuityDetected, True)
          else (dts, alerts, discontinuity))"

definition choose_pts ::
  "timestamp_normalizer_config \<Rightarrow> bool \<Rightarrow> int option \<Rightarrow> int \<Rightarrow> int \<Rightarrow> int \<Rightarrow> timestamp_alert list
    \<Rightarrow> int \<times> timestamp_alert list" where
  "choose_pts config is_video source_pts epoch_offset dts offset alerts =
     (let (pts, alerts) =
        (case source_pts of
           Some value \<Rightarrow> (sat_i64 (value - epoch_offset), alerts)
         | None \<Rightarrow> (sat_i64 (dts + offset), push_alert alerts MissingPtsDerivedFromDts))
      in if is_video \<and> \<not> nc_allow_negative_composition config \<and> pts < dts
         then (dts, push_alert alerts NegativeCompositionClamped) else (pts, alerts))"

definition normalize ::
  "timestamp_normalizer \<Rightarrow> timestamp_normalize_input
    \<Rightarrow> timestamp_normalizer \<times> (timestamp_normalize_error + timestamp_normalize_output)" where
  "normalize n input =
     (let config = tn_config n;
          fallback_raw = (case ni_fallback_step input of Some s \<Rightarrow> s | None \<Rightarrow> nc_default_fallback_step config);
          fallback_step = max (convert_ticks n (max fallback_raw 1)) 1;
          frame_duration = map_option (\<lambda>v. max (convert_ticks n (max v 1)) 1) (ni_frame_duration input);
          max_gap_ticks = max (from_micros (nc_output_timebase config) (nc_max_forward_gap_us config)) 1;
          is_pts_only = (case ni_mode input of PtsOnly _ \<Rightarrow> True | _ \<Rightarrow> False)
      in case resolve_mode n (ni_mode input) of
           (n, Inl e) \<Rightarrow> (n, Inl e)
         | (n, Inr (source_dts, source_pts, composition_offset)) \<Rightarrow>
             let reset = tn_pending_reset n;
                 alerts = (if reset then [ResetApplied] else []);
                 discontinuity = (ni_force_discontinuity input \<or> reset);
                 n = n\<lparr>tn_pending_reset := False\<rparr>;
                 (n, dts, alerts, discontinuity) =
                   choose_dts n is_pts_only source_dts source_pts fallback_step frame_duration max_gap_ticks
                     alerts discontinuity;
                 epoch = (if source_dts \<noteq> None \<or> source_pts \<noteq> None
                          then Some (case tn_epoch_offset n of Some e \<Rightarrow> e | None \<Rightarrow> dts) else None);
                 n = (case epoch of Some e \<Rightarrow> n\<lparr>tn_epoch_offset := Some e\<rparr> | None \<Rightarrow> n);
                 epoch_offset = (case epoch of Some e \<Rightarrow> e | None \<Rightarrow> 0);
                 dts = sat_i64 (dts - epoch_offset);
                 (dts, alerts, discontinuity) = repair_dts config (tn_last_dts n) dts alerts discontinuity;
                 offset = (case composition_offset of Some c \<Rightarrow> c | None \<Rightarrow> 0);
                 (pts, alerts) = choose_pts config (ni_is_video input) source_pts epoch_offset dts offset alerts
             in (n\<lparr>tn_last_dts := Some dts, tn_next_fallback_dts := Some (sat_i64 (dts + fallback_step))\<rparr>,
                 Inr \<lparr>no_pts = pts, no_dts = dts, no_pts_us = to_micros (nc_output_timebase config) pts,
                      no_dts_us = to_micros (nc_output_timebase config) dts, no_discontinuity = discontinuity,
                      no_alerts = alerts\<rparr>))"

end
