(* ===== verification/Codec_Time_Properties.thy ===== *)
theory Codec_Time_Properties
  imports Codec_Time
begin

text \<open>The timeline properties of \<open>Codec_Time\<close>: exact unwrapping, ascending decoding times, exact RTP time.\<close>

section \<open>Unwrapping\<close>

fun unwrap_values :: "wrap_unwrapper \<Rightarrow> nat list \<Rightarrow> nat list" where
  "unwrap_values u [] = []"
| "unwrap_values u (r # rs) = (let (u, v) = wrap_unwrap u r in v # unwrap_values u rs)"

text \<open>The true counter moves by less than half a period at a time.\<close>

definition small_step :: "nat \<Rightarrow> int \<Rightarrow> int \<Rightarrow> bool" where
  "small_step bits s t \<longleftrightarrow> \<bar>t - s\<bar> < 2 ^ (bits - 1)"

lemma and_mask_mod: "(r :: nat) AND (2 ^ b - 1) = r mod 2 ^ b"
  by (metis mask_nat_def take_bit_eq_mask take_bit_eq_mod)

lemma masked: "nat (t mod 2 ^ b) AND (2 ^ b - 1) = nat (t mod 2 ^ b)"
proof -
  have "nat (t mod 2 ^ b) < 2 ^ b" by (simp add: nat_less_iff)
  then show ?thesis by (simp only: and_mask_mod mod_less)
qed

text \<open>The arithmetic of one step, over any period \<open>P = 2 h\<close>.\<close>

lemma unwrap_cases:
  fixes s t h P :: int
  assumes "0 < h" and "P = 2 * h" and "\<bar>t - s\<bar> < h"
  shows "t mod P < s mod P \<and> s mod P - t mod P > h \<and> t - t mod P = s - s mod P + P
    \<or> \<not> (t mod P < s mod P \<and> s mod P - t mod P > h) \<and> t mod P > s mod P \<and> t mod P - s mod P > h
        \<and> t - t mod P = s - s mod P - P
    \<or> \<not> (t mod P < s mod P \<and> s mod P - t mod P > h) \<and> \<not> (t mod P > s mod P \<and> t mod P - s mod P > h)
        \<and> t - t mod P = s - s mod P"
proof -
  define q q' a c where "q = s div P" and "q' = t div P" and "a = s mod P" and "c = t mod P"
  have P: "0 < P" using assms by simp
  have s: "s = q * P + a" "0 \<le> a" "a < P" using P by (simp_all add: q_def a_def)
  have t: "t = q' * P + c" "0 \<le> c" "c < P" using P by (simp_all add: q'_def c_def)
  have d: "(q' - q) * P = (t - s) + (a - c)" using s(1) t(1) by (simp add: algebra_simps)
  then have "\<bar>(q' - q) * P\<bar> < 2 * P" using assms s(2,3) t(2,3) by linarith
  then have "\<bar>q' - q\<bar> < 2" using P by (simp add: abs_mult)
  then consider "q' - q = 0" | "q' - q = 1" | "q' - q = - 1" by linarith
  then have "c < a \<and> a - c > h \<and> t - c = s - a + P
    \<or> \<not> (c < a \<and> a - c > h) \<and> c > a \<and> c - a > h \<and> t - c = s - a - P
    \<or> \<not> (c < a \<and> a - c > h) \<and> \<not> (c > a \<and> c - a > h) \<and> t - c = s - a"
  proof cases
    case 1
    then have "t - s = c - a" using d by simp
    with assms(3) show ?thesis by auto
  next
    case 2
    then have "P = (t - s) + (a - c)" using d by simp
    with assms show ?thesis by auto
  next
    case 3
    then have "- P = (t - s) + (a - c)" using d by simp
    with assms show ?thesis by auto
  qed
  then show ?thesis unfolding a_def c_def .
qed

lemma nat_mod_add: "0 \<le> x \<Longrightarrow> 0 < (m :: int) \<Longrightarrow> (nat (y mod m) + nat x) mod nat m = nat ((y + x) mod m)"
  by (simp add: nat_mod_distrib [symmetric] nat_add_distrib [symmetric] mod_add_left_eq)

text \<open>The state after the true value \<open>s\<close>, counted from \<open>base\<close>.\<close>

definition counter_at :: "nat \<Rightarrow> int \<Rightarrow> int \<Rightarrow> wrap_unwrapper \<Rightarrow> bool" where
  "counter_at b base s u \<longleftrightarrow> wu_mask u = 2 ^ b - 1 \<and> wu_half u = 2 ^ (b - 1)
     \<and> wu_last_raw u = Some (nat (s mod 2 ^ b)) \<and> wu_high u = nat ((s - s mod 2 ^ b - base) mod 2 ^ 64)"

lemma wrap_unwrap_step:
  assumes b: "0 < b" and b63: "b \<le> 63" and tr: "counter_at b base s u" and step: "small_step b s t"
  shows "\<exists>u'. wrap_unwrap u (nat (t mod 2 ^ b)) = (u', nat ((t - base) mod 2 ^ 64)) \<and> counter_at b base t u'"
proof -
  have u: "wu_mask u = 2 ^ b - 1" "wu_half u = 2 ^ (b - 1)" "wu_last_raw u = Some (nat (s mod 2 ^ b))"
    "wu_high u = nat ((s - s mod 2 ^ b - base) mod 2 ^ 64)"
    using tr by (simp_all add: counter_at_def)
  let ?P = "2 ^ b :: int" and ?h = "2 ^ (b - 1) :: int" and ?M = "2 ^ 64 :: int"
  obtain c where c: "b = Suc c" using b by (cases b) auto
  have P: "0 < ?h" "?P = 2 * ?h" by (simp_all add: c)
  have "\<bar>t - s\<bar> < ?h" using step by (simp add: small_step_def)
  note cs = unwrap_cases [OF P this]
  define r where "r = nat (t mod ?P)"
  have r: "int r = t mod ?P" "r AND wu_mask u = r"
    using P by (simp add: r_def) (simp only: r_def u(1) masked)
  define r0 where "r0 = nat (s mod ?P)"
  have r0: "int r0 = s mod ?P" using P by (simp add: r0_def)
  have mask: "wu_mask u + 1 = 2 ^ b" using u(1) by simp
  have Pn: "nat ?P = 2 ^ b" "nat ?M = 2 ^ 64" by (simp_all add: nat_power_eq)
  have le: "(2 :: nat) ^ b \<le> 2 ^ 64" using b63 by (intro power_increasing) simp_all
  let ?hi = "\<lambda>x. nat ((x - x mod ?P - base) mod ?M)"
  have half: "wu_half u = nat ?h" by (simp add: u(2) nat_power_eq)
  let ?high = "if r < r0 \<and> r0 - r > wu_half u then (wu_high u + (wu_mask u + 1)) mod 2 ^ 64
    else if r > r0 \<and> r - r0 > wu_half u then (wu_high u + 2 ^ 64 - (wu_mask u + 1)) mod 2 ^ 64 else wu_high u"
  have cond: "(r < r0 \<and> r0 - r > wu_half u) = (t mod ?P < s mod ?P \<and> s mod ?P - t mod ?P > ?h)"
    "(r > r0 \<and> r - r0 > wu_half u) = (t mod ?P > s mod ?P \<and> t mod ?P - s mod ?P > ?h)"
    unfolding half r(1) [symmetric] r0 [symmetric] by auto
  have high: "?high = ?hi t"
    using cs
  proof (elim disjE conjE)
    assume a: "t mod ?P < s mod ?P" "s mod ?P - t mod ?P > ?h" "t - t mod ?P = s - s mod ?P + ?P"
    then have "?high = (?hi s + 2 ^ b) mod 2 ^ 64" unfolding cond mask u(4) by simp
    also have "\<dots> = (?hi s + nat ?P) mod nat ?M" unfolding Pn ..
    also have "\<dots> = nat ((s - s mod ?P - base + ?P) mod ?M)" by (rule nat_mod_add) simp_all
    also have "s - s mod ?P - base + ?P = t - t mod ?P - base" using a(3) by simp
    finally show ?thesis .
  next
    assume a: "\<not> (t mod ?P < s mod ?P \<and> s mod ?P - t mod ?P > ?h)" "t mod ?P > s mod ?P" "t mod ?P - s mod ?P > ?h"
      "t - t mod ?P = s - s mod ?P - ?P"
    then have "?high = (?hi s + 2 ^ 64 - 2 ^ b) mod 2 ^ 64" unfolding cond mask u(4) by simp
    also have "?hi s + 2 ^ 64 - 2 ^ b = ?hi s + (nat ?M - nat ?P)" using le by (simp add: Pn)
    also have "nat ?M - nat ?P = nat (?M - ?P)" by (rule nat_diff_distrib' [symmetric]) simp_all
    also have "(?hi s + nat (?M - ?P)) mod 2 ^ 64 = (?hi s + nat (?M - ?P)) mod nat ?M" unfolding Pn ..
    also have "\<dots> = nat ((s - s mod ?P - base + (?M - ?P)) mod ?M)"
    proof (rule nat_mod_add)
      show "0 \<le> ?M - ?P" using b63 power_increasing [of b 64 "2 :: int"] by simp
    qed simp
    also have "s - s mod ?P - base + (?M - ?P) = (t - t mod ?P - base) + ?M" using a(4) by simp
    finally show ?thesis by simp
  next
    assume a: "\<not> (t mod ?P < s mod ?P \<and> s mod ?P - t mod ?P > ?h)"
      "\<not> (t mod ?P > s mod ?P \<and> t mod ?P - s mod ?P > ?h)" "t - t mod ?P = s - s mod ?P"
    then show ?thesis
      unfolding cond u(4) using a by (simp only: if_False)
  qed
  have "wrap_unwrap u r = (u\<lparr>wu_high := ?hi t, wu_last_raw := Some r\<rparr>, (?hi t + r) mod 2 ^ 64)"
    unfolding wrap_unwrap_def Let_def r(2) u(3) option.case r0_def [symmetric] high ..
  moreover have "(?hi t + r) mod 2 ^ 64 = nat ((t - base) mod ?M)"
  proof -
    have "(?hi t + r) mod nat ?M = nat ((t - t mod ?P - base + t mod ?P) mod ?M)"
      unfolding r_def by (rule nat_mod_add) simp_all
    then show ?thesis by (simp add: Pn)
  qed
  moreover have "counter_at b base t (u\<lparr>wu_high := ?hi t, wu_last_raw := Some r\<rparr>)"
    using u(1,2) by (simp add: counter_at_def r_def)
  ultimately show ?thesis by (simp only: r_def [symmetric]) blast
qed

lemma unwrap_values_from:
  assumes "0 < b" and "b \<le> 63" and "counter_at b base s u" and "successively (small_step b) (s # ts)"
  shows "unwrap_values u (map (\<lambda>t. nat (t mod 2 ^ b)) ts) = map (\<lambda>t. nat ((t - base) mod 2 ^ 64)) ts"
  using assms(3,4)
proof (induction ts arbitrary: u s)
  case (Cons t ts)
  from wrap_unwrap_step [OF assms(1,2) Cons.prems(1), of t] Cons.prems(2) obtain u' where
    "wrap_unwrap u (nat (t mod 2 ^ b)) = (u', nat ((t - base) mod 2 ^ 64))" "counter_at b base t u'" by auto
  with Cons.IH [of t u'] Cons.prems(2) show ?case by simp
qed simp

lemma wrap_unwrap_first:
  assumes "wrap_unwrapper_new b = Some u"
  shows "0 < b" "b \<le> 63"
    "\<exists>u'. wrap_unwrap u (nat (t mod 2 ^ b)) = (u', nat (t mod 2 ^ b)) \<and> counter_at b (t - t mod 2 ^ b) t u'"
proof -
  show b: "0 < b" "b \<le> 63" using assms by (auto simp: wrap_unwrapper_new_def split: if_splits)
  have u: "u = \<lparr>wu_mask = 2 ^ b - 1, wu_half = 2 ^ (b - 1), wu_high = 0, wu_last_raw = None\<rparr>"
    using assms by (auto simp: wrap_unwrapper_new_def split: if_splits)
  let ?r = "nat (t mod 2 ^ b)"
  have "t mod 2 ^ b < (2 :: int) ^ b" by simp
  also have "\<dots> \<le> 2 ^ 64" using b(2) by (intro power_increasing) simp_all
  finally have "?r < 2 ^ 64" by (simp add: nat_less_iff)
  then have "(0 + ?r) mod 2 ^ 64 = ?r" by simp
  then have "wrap_unwrap u ?r = (u\<lparr>wu_high := 0, wu_last_raw := Some ?r\<rparr>, ?r)"
    by (simp only: wrap_unwrap_def Let_def u wrap_unwrapper.simps option.case masked)
  moreover have "counter_at b (t - t mod 2 ^ b) t (u\<lparr>wu_high := 0, wu_last_raw := Some ?r\<rparr>)"
    by (simp add: counter_at_def u)
  ultimately show "\<exists>u'. wrap_unwrap u ?r = (u', ?r) \<and> counter_at b (t - t mod 2 ^ b) t u'" by blast
qed

text \<open>
  The unwrapper follows the true counter: when a counter of \<open>b\<close> bits is observed at moments between
  which it moves forward or backward by less than half its period, the unwrapped values are the true
  values, counted from the start of the period of the first one, modulo 2^64.
\<close>

lemma wrap_unwrapper_tracks:
  assumes "wrap_unwrapper_new b = Some u" and "successively (small_step b) (t # ts)"
  shows "unwrap_values u (map (\<lambda>t. nat (t mod 2 ^ b)) (t # ts)) =
    map (\<lambda>x. nat ((x - (t - t mod 2 ^ b)) mod 2 ^ 64)) (t # ts)"
proof -
  from wrap_unwrap_first(3) [OF assms(1), of t] obtain u' where
    u': "wrap_unwrap u (nat (t mod 2 ^ b)) = (u', nat (t mod 2 ^ b))" "counter_at b (t - t mod 2 ^ b) t u'" by blast
  have "nat ((t - (t - t mod 2 ^ b)) mod 2 ^ 64) = nat (t mod 2 ^ b)"
  proof -
    have "t mod 2 ^ b < (2 :: int) ^ b" by simp
    also have "\<dots> \<le> 2 ^ 64" using wrap_unwrap_first(2) [OF assms(1)] by (intro power_increasing) simp_all
    finally show ?thesis by simp
  qed
  with u'(1) unwrap_values_from [OF wrap_unwrap_first(1,2) [OF assms(1)] u'(2) assms(2)]
  show ?thesis by (simp only: list.map unwrap_values.simps Let_def prod.case)
qed

lemma wrap_unwrapper_tracks_witness:
  "unwrap_values \<lparr>wu_mask = 2 ^ 32 - 1, wu_half = 2 ^ 31, wu_high = 0, wu_last_raw = None\<rparr> [4294967290, 4, 4294967295, 10]
   = [4294967290, 4294967300, 4294967295, 4294967306]"
proof -
  have "wrap_unwrapper_new 32 = Some \<lparr>wu_mask = 2 ^ 32 - 1, wu_half = 2 ^ 31, wu_high = 0, wu_last_raw = None\<rparr>"
    by (simp add: wrap_unwrapper_new_def)
  from wrap_unwrapper_tracks [OF this, of 4294967290 "[4294967300, 4294967295, 4294967306]"]
  show ?thesis by (simp add: small_step_def)
qed

section \<open>Ascending decoding times\<close>

text \<open>What a call has done, whatever its input: the fields later calls depend on.\<close>

lemma choose_dts_frame:
  "choose_dts n pts_only d p f fd g al dis = (n', dts, al', dis') \<Longrightarrow>
     tn_last_dts n' = tn_last_dts n \<and> tn_config n' = tn_config n"
  by (auto simp: choose_dts_def Let_def split: option.splits if_splits prod.splits)

lemma resolve_ticks_frame:
  "resolve_ticks n v d = (n', r) \<Longrightarrow> tn_last_dts n' = tn_last_dts n \<and> tn_config n' = tn_config n"
  by (auto simp: resolve_ticks_def Let_def split: timestamp_value.splits option.splits if_splits prod.splits)

lemma resolve_mode_frame:
  "resolve_mode n m = (n', r) \<Longrightarrow> tn_last_dts n' = tn_last_dts n \<and> tn_config n' = tn_config n"
  by (auto simp: resolve_mode_def split: timestamp_normalize_mode.splits prod.splits sum.splits
      dest!: resolve_ticks_frame)

text \<open>Ascending up to saturation: at the largest value, the decoding time stays there.\<close>

definition ascends :: "int option \<Rightarrow> int \<Rightarrow> bool" where
  "ascends prev dts \<longleftrightarrow> (case prev of None \<Rightarrow> True | Some p \<Rightarrow> p < dts \<or> p = i64_max \<and> dts = i64_max)"

lemma repair_dts_ascends:
  assumes "repair_dts c prev (sat_i64 d) al dis = (dts, al', dis')" and "\<And>p. prev = Some p \<Longrightarrow> i64_range p"
  shows "ascends prev dts \<and> i64_range dts"
  using assms
  by (cases prev) (auto simp: repair_dts_def ascends_def sat_i64_def i64_range_def i64_min_def i64_max_def
      split: if_splits)

lemma choose_pts_range:
  assumes "choose_pts c v p e dts off al = (pts, al')" and "i64_range dts"
  shows "i64_range pts \<and> (v \<longrightarrow> \<not> nc_allow_negative_composition c \<longrightarrow> dts \<le> pts)"
  using assms by (auto simp: choose_pts_def Let_def split: option.splits if_splits)

lemma normalize_step:
  assumes "normalize n input = (n', Inr out)" and "\<And>p. tn_last_dts n = Some p \<Longrightarrow> i64_range p"
  shows "tn_last_dts n' = Some (no_dts out) \<and> ascends (tn_last_dts n) (no_dts out) \<and> i64_range (no_dts out)
    \<and> i64_range (no_pts out) \<and> tn_config n' = tn_config n
    \<and> (ni_is_video input \<longrightarrow> \<not> nc_allow_negative_composition (tn_config n) \<longrightarrow> no_dts out \<le> no_pts out)"
proof -
  let ?c = "tn_config n"
  obtain n1 sd sp co where m: "resolve_mode n (ni_mode input) = (n1, Inr (sd, sp, co))"
    using assms(1) by (auto simp: normalize_def Let_def split: prod.splits sum.splits)
  note f1 = resolve_mode_frame [OF m]
  obtain fs fd mg al dis n2 d al1 dis1 where
    ch: "choose_dts (n1\<lparr>tn_pending_reset := False\<rparr>) (case ni_mode input of PtsOnly _ \<Rightarrow> True | _ \<Rightarrow> False) sd sp fs fd mg al dis
      = (n2, d, al1, dis1)"
    and rest: "(let epoch = (if sd \<noteq> None \<or> sp \<noteq> None then Some (case tn_epoch_offset n2 of Some e \<Rightarrow> e | None \<Rightarrow> d) else None);
        n = (case epoch of Some e \<Rightarrow> n2\<lparr>tn_epoch_offset := Some e\<rparr> | None \<Rightarrow> n2);
        epoch_offset = (case epoch of Some e \<Rightarrow> e | None \<Rightarrow> 0);
        dts = sat_i64 (d - epoch_offset);
        (dts, alerts, discontinuity) = repair_dts ?c (tn_last_dts n) dts al1 dis1;
        offset = (case co of Some c \<Rightarrow> c | None \<Rightarrow> 0);
        (pts, alerts) = choose_pts ?c (ni_is_video input) sp epoch_offset dts offset alerts
      in (n\<lparr>tn_last_dts := Some dts, tn_next_fallback_dts := Some (sat_i64 (dts + fs))\<rparr>,
          (Inr \<lparr>no_pts = pts, no_dts = dts, no_pts_us = to_micros (nc_output_timebase ?c) pts,
               no_dts_us = to_micros (nc_output_timebase ?c) dts, no_discontinuity = discontinuity,
               no_alerts = alerts\<rparr> :: timestamp_normalize_error + timestamp_normalize_output))) = (n', Inr out)"
    using assms(1) unfolding normalize_def m
    by (simp add: Let_def split: prod.splits)
  note f2 = choose_dts_frame [OF ch]
  define ep where "ep = (if sd \<noteq> None \<or> sp \<noteq> None then Some (case tn_epoch_offset n2 of Some e \<Rightarrow> e | None \<Rightarrow> d) else None)"
  define N where "N = (case ep of Some e \<Rightarrow> n2\<lparr>tn_epoch_offset := Some e\<rparr> | None \<Rightarrow> n2)"
  define E where "E = (case ep of Some e \<Rightarrow> e | None \<Rightarrow> 0)"
  define off where "off = (case co of Some c \<Rightarrow> c | None \<Rightarrow> 0)"
  obtain dts al2 dis2 where r: "repair_dts ?c (tn_last_dts N) (sat_i64 (d - E)) al1 dis1 = (dts, al2, dis2)"
    by (metis prod_cases3)
  obtain pts al3 where p: "choose_pts ?c (ni_is_video input) sp E dts off al2 = (pts, al3)" by fastforce
  have N: "tn_last_dts N = tn_last_dts n" "tn_config N = ?c"
    using f1 f2 by (auto simp: N_def split: option.splits)
  have n': "n' = N\<lparr>tn_last_dts := Some dts, tn_next_fallback_dts := Some (sat_i64 (dts + fs))\<rparr>"
    and out: "no_pts out = pts" "no_dts out = dts"
    using rest unfolding Let_def ep_def [symmetric] N_def [symmetric] E_def [symmetric] off_def [symmetric]
    by (auto simp: r p)
  from repair_dts_ascends [OF r] assms(2) have "ascends (tn_last_dts n) dts" "i64_range dts" by (simp_all add: N)
  with choose_pts_range [OF p] N show ?thesis by (simp add: n' out)
qed

text \<open>A run: the outputs of a list of inputs, those refused left out.\<close>

fun normalize_all :: "timestamp_normalizer \<Rightarrow> timestamp_normalize_input list \<Rightarrow> timestamp_normalize_output list" where
  "normalize_all n [] = []"
| "normalize_all n (i # xs) =
     (case normalize n i of
        (n', Inl e) \<Rightarrow> normalize_all n' xs
      | (n', Inr out) \<Rightarrow> out # normalize_all n' xs)"

lemma normalize_all_from:
  assumes "\<And>p. tn_last_dts n = Some p \<Longrightarrow> i64_range p"
  shows "successively (\<lambda>a b. no_dts a < no_dts b \<or> no_dts a = i64_max \<and> no_dts b = i64_max) (normalize_all n xs)
    \<and> (normalize_all n xs \<noteq> [] \<longrightarrow> ascends (tn_last_dts n) (no_dts (hd (normalize_all n xs))))
    \<and> list_all (\<lambda>out. i64_range (no_dts out) \<and> i64_range (no_pts out)) (normalize_all n xs)"
  using assms
proof (induction xs arbitrary: n)
  case (Cons i xs)
  obtain n' r where nr: "normalize n i = (n', r)" by fastforce
  show ?case
  proof (cases r)
    case (Inl e)
    with nr have "tn_last_dts n' = tn_last_dts n"
      by (auto simp: normalize_def Let_def dest!: resolve_mode_frame split: prod.splits sum.splits)
    with Cons.IH [of n'] Cons.prems nr Inl show ?thesis by simp
  next
    case (Inr out)
    with nr have step: "normalize n i = (n', Inr out)" by simp
    note s = normalize_step [OF step Cons.prems]
    have "i64_range p" if "tn_last_dts n' = Some p" for p using s that by simp
    note ih = Cons.IH [of n', OF this]
    have "tn_last_dts n' = Some (no_dts out)" "ascends (tn_last_dts n) (no_dts out)" "i64_range (no_dts out)"
      "i64_range (no_pts out)" using s by simp_all
    with ih show ?thesis
      by (cases "normalize_all n' xs") (auto simp: step ascends_def successively_Cons)
  qed
qed simp

text \<open>
  C33: decoding times never go back and never repeat: whatever inputs a new normalizer is given, wrapped or
  not, with or without timestamps, in any order, the decoding times it returns are strictly ascending,
  except that they stay at the largest 64-bit value once that is reached.
\<close>

theorem normalized_dts_ascend:
  assumes "normalizer_new config = Some n"
  shows "successively (\<lambda>a b. no_dts a < no_dts b \<or> no_dts a = i64_max \<and> no_dts b = i64_max) (normalize_all n xs)
    \<and> list_all (\<lambda>out. i64_range (no_dts out) \<and> i64_range (no_pts out)) (normalize_all n xs)"
proof -
  have "tn_last_dts n = None"
    using assms by (auto simp: normalizer_new_def Let_def split: option.splits)
  then show ?thesis using normalize_all_from [of n xs] by simp
qed

theorem normalized_dts_ascend_witness:
  "case normalizer_new \<lparr>nc_input_timebase = \<lparr>tb_num = 1, tb_den = 1000\<rparr>, nc_output_timebase = \<lparr>tb_num = 1, tb_den = 1000\<rparr>,
       nc_wrap_bits = None, nc_max_forward_gap_us = 2000000, nc_default_fallback_step = 1, nc_allow_negative_composition = True\<rparr>
   of None \<Rightarrow> False | Some n \<Rightarrow>
     successively (\<lambda>a b. no_dts a < no_dts b \<or> no_dts a = i64_max \<and> no_dts b = i64_max) (normalize_all n
       [\<lparr>ni_mode = DtsPts (Unwrapped 40) (Unwrapped 40), ni_frame_duration = None, ni_fallback_step = None,
         ni_is_video = True, ni_force_discontinuity = False\<rparr>,
        \<lparr>ni_mode = DtsPts (Unwrapped 20) (Unwrapped 80), ni_frame_duration = None, ni_fallback_step = None,
         ni_is_video = True, ni_force_discontinuity = False\<rparr>])
     \<and> list_all (\<lambda>out. i64_range (no_dts out) \<and> i64_range (no_pts out)) (normalize_all n
       [\<lparr>ni_mode = DtsPts (Unwrapped 40) (Unwrapped 40), ni_frame_duration = None, ni_fallback_step = None,
         ni_is_video = True, ni_force_discontinuity = False\<rparr>,
        \<lparr>ni_mode = DtsPts (Unwrapped 20) (Unwrapped 80), ni_frame_duration = None, ni_fallback_step = None,
         ni_is_video = True, ni_force_discontinuity = False\<rparr>])"
  by (cases "normalizer_new \<lparr>nc_input_timebase = \<lparr>tb_num = 1, tb_den = 1000\<rparr>,
       nc_output_timebase = \<lparr>tb_num = 1, tb_den = 1000\<rparr>, nc_wrap_bits = None, nc_max_forward_gap_us = 2000000,
       nc_default_fallback_step = 1, nc_allow_negative_composition = True\<rparr>")
    (simp add: normalizer_new_def, simp only: option.case, rule normalized_dts_ascend, assumption)

end
