(* ===== verification/Codec_Track.thy ===== *)
theory Codec_Track
  imports Codec_Ids Codec_Time
begin

text \<open>
  Tracks and frames, the data every protocol crate hands to the engine:
  \<^verbatim>\<open>src/crates/foundation/cheetah-codec/src/track.rs\<close> and \<^verbatim>\<open>frame.rs\<close>.
\<close>

section \<open>Tracks\<close>

datatype track_id = TrackId u32

datatype track_readiness = NotReady | PendingConfig | Ready

datatype aac_rtp_packetization = Mpeg4Generic | Latm

record rational32 =
  ra_num :: u32
  ra_den :: u32

datatype codec_extradata =
  NoExtradata
| ExtraH264 "bytes list" "bytes list" "bytes option"
| ExtraH265 "bytes list" "bytes list" "bytes list" "bytes option"
| ExtraH266 "bytes list" "bytes list" "bytes list"
| ExtraAAC bytes
| ExtraAV1 "bytes option" "bytes option"
| ExtraVP8 "bytes option"
| ExtraVP9 "bytes option"
| ExtraMP3 "bytes option"
| ExtraOpus "string option" "bytes option"
| ExtraRaw bytes

datatype codec_config_requirement = ConfigRequired | ConfigOptional | ConfigNone

datatype codec_config_payload =
  ConfigH264 "bytes list" "bytes list" "bytes option"
| ConfigH265 "bytes list" "bytes list" "bytes list" "bytes option"
| ConfigH266 "bytes list" "bytes list" "bytes list"
| ConfigAAC bytes
| ConfigAV1 "bytes option" "bytes option"
| ConfigVP8 "bytes option"
| ConfigVP9 "bytes option"
| ConfigOpus "string option" "bytes option"
| ConfigMP3 "bytes option"
| ConfigEmpty

record codec_config_view =
  cv_requirement :: codec_config_requirement
  cv_payload :: codec_config_payload

datatype codec_config_error = MissingRequiredConfig track_id codec_id

datatype track_info_error = InvalidClockRate track_id

record track_info =
  ti_track_id :: track_id
  ti_media_kind :: media_kind
  ti_codec :: codec_id
  ti_aac_rtp_packetization :: aac_rtp_packetization
  ti_aac_latm_config_in_band :: bool
  ti_payload_type :: "u8 option"
  ti_clock_rate :: u32
  ti_sample_rate :: "u32 option"
  ti_channels :: "u8 option"
  ti_width :: "u32 option"
  ti_height :: "u32 option"
  ti_fps :: "rational32 option"
  ti_bitrate :: "u32 option"
  ti_extradata :: codec_extradata
  ti_readiness :: track_readiness

definition track_info_new :: "track_id \<Rightarrow> media_kind \<Rightarrow> codec_id \<Rightarrow> u32 \<Rightarrow> track_info" where
  "track_info_new track_id media_kind codec clock_rate =
     \<lparr>ti_track_id = track_id, ti_media_kind = media_kind, ti_codec = codec, ti_aac_rtp_packetization = Mpeg4Generic,
      ti_aac_latm_config_in_band = False, ti_payload_type = None, ti_clock_rate = clock_rate, ti_sample_rate = None,
      ti_channels = None, ti_width = None, ti_height = None, ti_fps = None, ti_bitrate = None,
      ti_extradata = NoExtradata, ti_readiness = NotReady\<rparr>"

definition track_is_ready :: "track_info \<Rightarrow> bool" where
  "track_is_ready t \<longleftrightarrow> ti_readiness t = Ready"

definition media_timebase :: "track_info \<Rightarrow> track_info_error + timebase" where
  "media_timebase t =
     (if ti_clock_rate t = 0 then Inl (InvalidClockRate (ti_track_id t))
      else Inr \<lparr>tb_num = 1, tb_den = ti_clock_rate t\<rparr>)"

abbreviation pending_if :: "bool \<Rightarrow> track_readiness" where
  "pending_if b \<equiv> (if b then PendingConfig else Ready)"

definition some_nonempty :: "bytes option \<Rightarrow> bool" where
  "some_nonempty v = (case v of Some b \<Rightarrow> b \<noteq> [] | None \<Rightarrow> False)"

definition refresh_readiness :: "track_info \<Rightarrow> track_info" where
  "refresh_readiness t = t\<lparr>ti_readiness :=
     (case ti_codec t of
        H264 \<Rightarrow> (case ti_extradata t of
            ExtraH264 sps pps _ \<Rightarrow> pending_if (sps = [] \<or> pps = [])
          | ExtraH265 vps sps pps _ \<Rightarrow> pending_if (vps = [] \<or> sps = [] \<or> pps = [])
          | ExtraH266 vps sps pps \<Rightarrow> pending_if (vps = [] \<or> sps = [] \<or> pps = [])
          | _ \<Rightarrow> PendingConfig)
      | H265 \<Rightarrow> (case ti_extradata t of
            ExtraH264 sps pps _ \<Rightarrow> pending_if (sps = [] \<or> pps = [])
          | ExtraH265 vps sps pps _ \<Rightarrow> pending_if (vps = [] \<or> sps = [] \<or> pps = [])
          | ExtraH266 vps sps pps \<Rightarrow> pending_if (vps = [] \<or> sps = [] \<or> pps = [])
          | _ \<Rightarrow> PendingConfig)
      | H266 \<Rightarrow> (case ti_extradata t of
            ExtraH264 sps pps _ \<Rightarrow> pending_if (sps = [] \<or> pps = [])
          | ExtraH265 vps sps pps _ \<Rightarrow> pending_if (vps = [] \<or> sps = [] \<or> pps = [])
          | ExtraH266 vps sps pps \<Rightarrow> pending_if (vps = [] \<or> sps = [] \<or> pps = [])
          | _ \<Rightarrow> PendingConfig)
      | AAC \<Rightarrow> (case ti_extradata t of ExtraAAC asc \<Rightarrow> pending_if (asc = []) | _ \<Rightarrow> PendingConfig)
      | AV1 \<Rightarrow> (case ti_extradata t of
            ExtraAV1 h c \<Rightarrow> pending_if (\<not> (some_nonempty h \<or> some_nonempty c)) | _ \<Rightarrow> PendingConfig)
      | VP8 \<Rightarrow> Ready | VP9 \<Rightarrow> Ready | MJPEG \<Rightarrow> Ready
      | Opus \<Rightarrow> Ready | G711A \<Rightarrow> Ready | G711U \<Rightarrow> Ready | MP2 \<Rightarrow> Ready | MP3 \<Rightarrow> Ready | ADPCM \<Rightarrow> Ready
      | _ \<Rightarrow> ti_readiness t)\<rparr>"

text \<open>A list of parameter sets is usable when it and all its members are not empty.\<close>

definition usable_sets :: "bytes list \<Rightarrow> bool" where
  "usable_sets xs \<longleftrightarrow> \<not> (xs = [] \<or> [] \<in> set xs)"

definition codec_config_view_of :: "track_info \<Rightarrow> codec_config_error + codec_config_view" where
  "codec_config_view_of t =
     (let missing = Inl (MissingRequiredConfig (ti_track_id t) (ti_codec t));
          required = (\<lambda>p. Inr \<lparr>cv_requirement = ConfigRequired, cv_payload = p\<rparr>);
          optional = (\<lambda>p. Inr \<lparr>cv_requirement = ConfigOptional, cv_payload = p\<rparr>)
      in case ti_codec t of
           H264 \<Rightarrow> (case ti_extradata t of
               ExtraH264 sps pps avcc \<Rightarrow>
                 if usable_sets sps \<and> usable_sets pps then required (ConfigH264 sps pps avcc) else missing
             | _ \<Rightarrow> missing)
         | H265 \<Rightarrow> (case ti_extradata t of
               ExtraH265 vps sps pps hvcc \<Rightarrow>
                 if usable_sets vps \<and> usable_sets sps \<and> usable_sets pps then required (ConfigH265 vps sps pps hvcc)
                 else missing
             | _ \<Rightarrow> missing)
         | H266 \<Rightarrow> (case ti_extradata t of
               ExtraH266 vps sps pps \<Rightarrow>
                 if usable_sets vps \<and> usable_sets sps \<and> usable_sets pps then required (ConfigH266 vps sps pps)
                 else missing
             | _ \<Rightarrow> missing)
         | AAC \<Rightarrow> (case ti_extradata t of ExtraAAC asc \<Rightarrow> if asc \<noteq> [] then required (ConfigAAC asc) else missing
             | _ \<Rightarrow> missing)
         | AV1 \<Rightarrow> (case ti_extradata t of ExtraAV1 h c \<Rightarrow> optional (ConfigAV1 h c) | _ \<Rightarrow> optional (ConfigAV1 None None))
         | VP8 \<Rightarrow> (case ti_extradata t of ExtraVP8 c \<Rightarrow> optional (ConfigVP8 c) | _ \<Rightarrow> optional (ConfigVP8 None))
         | VP9 \<Rightarrow> (case ti_extradata t of ExtraVP9 c \<Rightarrow> optional (ConfigVP9 c) | _ \<Rightarrow> optional (ConfigVP9 None))
         | Opus \<Rightarrow> (case ti_extradata t of
               ExtraOpus f m \<Rightarrow> optional (ConfigOpus f m) | _ \<Rightarrow> optional (ConfigOpus None None))
         | MP3 \<Rightarrow> (case ti_extradata t of ExtraMP3 s \<Rightarrow> optional (ConfigMP3 s) | _ \<Rightarrow> optional (ConfigMP3 None))
         | _ \<Rightarrow> Inr \<lparr>cv_requirement = ConfigNone, cv_payload = ConfigEmpty\<rparr>)"


section \<open>Frames\<close>

datatype frame_format =
  CanonicalH26x | CanonicalAv1Obu | CanonicalVp8Frame | CanonicalVp9Frame | MjpegFrame | AacRaw | AdpcmPacket
| OpusPacket | G711Packet | Mp2Frame | Mp3Frame | WebVttPacket | DataPacket | UnknownFormat

datatype frame_origin = Ingest | Relay | Generated | Recovered

record rtp_rtcp_mapping =
  rm_lsr :: u32
  rm_arrival_unix_micros :: nat

record source_rtp_timestamp =
  st_raw_timestamp :: u32
  st_unwrapped_timestamp :: nat
  st_epoch_offset :: int
  st_sequence_number :: "u16 option"
  st_rtcp_mapping :: "rtp_rtcp_mapping option"

record source_rtmp_timestamp =
  sm_raw_timestamp_ms :: u32
  sm_unwrapped_timestamp_ms :: nat
  sm_epoch_offset_ms :: int

definition saturating_epoch_offset :: "nat \<Rightarrow> u32 \<Rightarrow> int" where
  "saturating_epoch_offset unwrapped raw = sat_i64 (int unwrapped - int (unat raw))"

definition source_rtp_timestamp_new :: "u32 \<Rightarrow> nat \<Rightarrow> source_rtp_timestamp" where
  "source_rtp_timestamp_new raw unwrapped =
     \<lparr>st_raw_timestamp = raw, st_unwrapped_timestamp = unwrapped,
      st_epoch_offset = saturating_epoch_offset unwrapped raw, st_sequence_number = None, st_rtcp_mapping = None\<rparr>"

definition source_rtmp_timestamp_new :: "u32 \<Rightarrow> nat \<Rightarrow> source_rtmp_timestamp" where
  "source_rtmp_timestamp_new raw unwrapped =
     \<lparr>sm_raw_timestamp_ms = raw, sm_unwrapped_timestamp_ms = unwrapped,
      sm_epoch_offset_ms = saturating_epoch_offset unwrapped raw\<rparr>"

datatype source_timestamp = SourceRtp source_rtp_timestamp | SourceRtmp source_rtmp_timestamp

datatype frame_side_data =
  ParameterSetDigest nat
| SequenceNumber nat
| SideTimestamp source_timestamp
| Metadata string string
| Opaque bytes

text \<open>The flags are the bits of a 32-bit word.\<close>

definition flag_key :: u32 where "flag_key = 1"
definition flag_config :: u32 where "flag_config = 2"
definition flag_start_of_au :: u32 where "flag_start_of_au = 4"
definition flag_end_of_au :: u32 where "flag_end_of_au = 8"
definition flag_b_frame :: u32 where "flag_b_frame = 16"
definition flag_non_picture :: u32 where "flag_non_picture = 32"
definition flag_discontinuity :: u32 where "flag_discontinuity = 64"
definition flag_generated :: u32 where "flag_generated = 128"
definition flag_corrupted :: u32 where "flag_corrupted = 256"
definition flag_droppable :: u32 where "flag_droppable = 512"

definition flags_contain :: "u32 \<Rightarrow> u32 \<Rightarrow> bool" where
  "flags_contain flags f \<longleftrightarrow> flags AND f = f"

datatype frame_timing_error =
  InvalidTimebase track_id u32 u32
| NegativeDuration track_id int
| DurationMicrosOverflow track_id int
| NegativeCompositionWithoutBFrame track_id int int

record av_frame =
  av_track_id :: track_id
  av_media_kind :: media_kind
  av_codec :: codec_id
  av_format :: frame_format
  av_pts :: int
  av_dts :: int
  av_timebase :: timebase
  av_pts_us :: int
  av_dts_us :: int
  av_duration :: int
  av_duration_us :: int
  av_flags :: u32
  av_payload :: bytes
  av_side_data :: "frame_side_data list"
  av_origin :: frame_origin

definition av_frame_new ::
  "track_id \<Rightarrow> media_kind \<Rightarrow> codec_id \<Rightarrow> frame_format \<Rightarrow> int \<Rightarrow> int \<Rightarrow> timebase \<Rightarrow> bytes \<Rightarrow> av_frame" where
  "av_frame_new track_id media_kind codec format pts dts timebase payload =
     \<lparr>av_track_id = track_id, av_media_kind = media_kind, av_codec = codec, av_format = format, av_pts = pts,
      av_dts = dts, av_timebase = timebase, av_pts_us = to_micros timebase pts, av_dts_us = to_micros timebase dts,
      av_duration = 0, av_duration_us = 0, av_flags = 0, av_payload = payload, av_side_data = [], av_origin = Ingest\<rparr>"

definition is_key_frame :: "av_frame \<Rightarrow> bool" where
  "is_key_frame f \<longleftrightarrow> flags_contain (av_flags f) flag_key"

definition mark_discontinuity :: "av_frame \<Rightarrow> av_frame" where
  "mark_discontinuity f = f\<lparr>av_flags := av_flags f OR flag_discontinuity\<rparr>"

definition is_side_timestamp :: "frame_side_data \<Rightarrow> bool" where
  "is_side_timestamp d = (case d of SideTimestamp _ \<Rightarrow> True | _ \<Rightarrow> False)"

fun replace_first :: "('a \<Rightarrow> bool) \<Rightarrow> 'a \<Rightarrow> 'a list \<Rightarrow> 'a list option" where
  "replace_first p y [] = None"
| "replace_first p y (x # xs) = (if p x then Some (y # xs) else map_option (\<lambda>ys. x # ys) (replace_first p y xs))"

definition set_source_timestamp :: "av_frame \<Rightarrow> source_timestamp \<Rightarrow> av_frame" where
  "set_source_timestamp f s =
     (case replace_first is_side_timestamp (SideTimestamp s) (av_side_data f) of
        Some d \<Rightarrow> f\<lparr>av_side_data := d\<rparr>
      | None \<Rightarrow> f\<lparr>av_side_data := av_side_data f @ [SideTimestamp s]\<rparr>)"

fun find_source_timestamp :: "frame_side_data list \<Rightarrow> source_timestamp option" where
  "find_source_timestamp [] = None"
| "find_source_timestamp (d # ds) = (case d of SideTimestamp s \<Rightarrow> Some s | _ \<Rightarrow> find_source_timestamp ds)"

definition source_timestamp_of :: "av_frame \<Rightarrow> source_timestamp option" where
  "source_timestamp_of f = find_source_timestamp (av_side_data f)"

definition ensure_valid_timebase :: "av_frame \<Rightarrow> frame_timing_error + unit" where
  "ensure_valid_timebase f =
     (if tb_num (av_timebase f) = 0 \<or> tb_den (av_timebase f) = 0
      then Inl (InvalidTimebase (av_track_id f) (tb_num (av_timebase f)) (tb_den (av_timebase f))) else Inr ())"

text \<open>The products are below 2^127, so only the conversion to \<^verbatim>\<open>i64\<close> can fail; \<open>None\<close> is a division by zero.\<close>

definition duration_to_micros_checked :: "av_frame \<Rightarrow> int \<Rightarrow> (frame_timing_error + int) option" where
  "duration_to_micros_checked f duration =
     (let scaled = duration * int (unat (tb_num (av_timebase f))) * 1000000
      in if tb_den (av_timebase f) = 0 then None
         else
           let micros = scaled sdiv int (unat (tb_den (av_timebase f)))
           in Some (if i64_range micros then Inr micros else Inl (DurationMicrosOverflow (av_track_id f) duration)))"

text \<open>The frame is left with its new duration when the conversion of it fails.\<close>

definition set_duration :: "av_frame \<Rightarrow> int \<Rightarrow> (av_frame \<times> (frame_timing_error + unit)) option" where
  "set_duration f duration =
     (if duration < 0 then Some (f, Inl (NegativeDuration (av_track_id f) duration))
      else
        case ensure_valid_timebase f of
          Inl e \<Rightarrow> Some (f, Inl e)
        | Inr _ \<Rightarrow>
            let f = f\<lparr>av_duration := duration\<rparr>
            in map_option (\<lambda>r. case r of
                 Inl e \<Rightarrow> (f, Inl e)
               | Inr us \<Rightarrow> (f\<lparr>av_duration_us := us\<rparr>, Inr ())) (duration_to_micros_checked f duration))"

definition composition_time :: "av_frame \<Rightarrow> int" where
  "composition_time f = sat_i64 (av_pts f - av_dts f)"

definition composition_time_us :: "av_frame \<Rightarrow> int" where
  "composition_time_us f = sat_i64 (av_pts_us f - av_dts_us f)"

definition validate_media_timing :: "av_frame \<Rightarrow> (frame_timing_error + unit) option" where
  "validate_media_timing f =
     (case ensure_valid_timebase f of
        Inl e \<Rightarrow> Some (Inl e)
      | Inr _ \<Rightarrow>
          if av_duration f < 0 then Some (Inl (NegativeDuration (av_track_id f) (av_duration f)))
          else
            map_option (\<lambda>r. sbind r (\<lambda>_.
              if av_media_kind f = Video \<and> av_pts f < av_dts f \<and> \<not> flags_contain (av_flags f) flag_b_frame
              then Inl (NegativeCompositionWithoutBFrame (av_track_id f) (av_pts f) (av_dts f)) else Inr ()))
              (duration_to_micros_checked f (av_duration f)))"

section \<open>Properties\<close>

text \<open>
  What a track announces: a codec that needs a configuration is ready exactly when its configuration can be
  shown, provided that no parameter set is empty and that the extradata is of the codec.
\<close>

definition extradata_fits :: "track_info \<Rightarrow> bool" where
  "extradata_fits t \<longleftrightarrow>
     (case ti_extradata t of
        ExtraH264 sps pps _ \<Rightarrow> ti_codec t = H264 \<and> [] \<notin> set sps \<and> [] \<notin> set pps
      | ExtraH265 vps sps pps _ \<Rightarrow> ti_codec t = H265 \<and> [] \<notin> set vps \<and> [] \<notin> set sps \<and> [] \<notin> set pps
      | ExtraH266 vps sps pps \<Rightarrow> ti_codec t = H266 \<and> [] \<notin> set vps \<and> [] \<notin> set sps \<and> [] \<notin> set pps
      | _ \<Rightarrow> True)"

lemma ready_iff_config:
  assumes "extradata_fits t" and "ti_codec t \<in> {H264, H265, H266, AAC}"
  shows "track_is_ready (refresh_readiness t) \<longleftrightarrow> (\<exists>v. codec_config_view_of (refresh_readiness t) = Inr v)"
  using assms
  by (cases "ti_extradata t")
    (auto simp: track_is_ready_def refresh_readiness_def codec_config_view_of_def extradata_fits_def usable_sets_def)

text \<open>An empty parameter set makes a track ready whose configuration is refused.\<close>

lemma empty_parameter_set_is_ready:
  "track_is_ready (refresh_readiness (track_info_new i Video H264 r\<lparr>ti_extradata := ExtraH264 [[]] [p] a\<rparr>))
   \<and> codec_config_view_of (track_info_new i Video H264 r\<lparr>ti_extradata := ExtraH264 [[]] [p] a\<rparr>)
     = Inl (MissingRequiredConfig i H264)"
  by (simp add: track_is_ready_def refresh_readiness_def codec_config_view_of_def track_info_new_def usable_sets_def)

lemma source_timestamp_set: "source_timestamp_of (set_source_timestamp f s) = Some s"
proof -
  have "find_source_timestamp ds' = Some s" if "replace_first is_side_timestamp (SideTimestamp s) ds = Some ds'" for ds ds'
    using that by (induction ds arbitrary: ds') (auto simp: is_side_timestamp_def split: if_splits frame_side_data.splits)
  moreover have "find_source_timestamp (ds @ [SideTimestamp s]) = Some s"
    if "replace_first is_side_timestamp (SideTimestamp s) ds = None" for ds
    using that by (induction ds) (auto simp: is_side_timestamp_def split: if_splits frame_side_data.splits)
  ultimately show ?thesis by (auto simp: source_timestamp_of_def set_source_timestamp_def split: option.split)
qed

lemma set_duration_total: "set_duration f d \<noteq> None" and validate_media_timing_total: "validate_media_timing f \<noteq> None"
  by (auto simp: set_duration_def validate_media_timing_def ensure_valid_timebase_def duration_to_micros_checked_def
      Let_def)

end
