(* ===== verification/Engine_Ring.thy ===== *)
theory Engine_Ring
  imports Codec_Track
begin

text \<open>
  The ring buffer of a stream in the engine (\<^verbatim>\<open>src/crates/system/cheetah-engine/src/stream.rs\<close>): the last frames of
  the publisher, with the index of its key frames, and the choice of the frames a new subscriber starts with.
  Atomic loads and stores are those of a sequential run: each operation runs to its end.
\<close>

section \<open>Bootstrap policies\<close>

datatype bootstrap_mode = Bm_None | Live_Tail | Full_Gop

record bootstrap_policy =
  bp_mode :: bootstrap_mode
  bp_max_bootstrap_age_ms :: "nat option"
  bp_max_bootstrap_frames :: nat
  bp_wait_for_next_random_access_point :: bool

definition policy_none :: bootstrap_policy where
  "policy_none = \<lparr>bp_mode = Bm_None, bp_max_bootstrap_age_ms = None, bp_max_bootstrap_frames = 0,
     bp_wait_for_next_random_access_point = False\<rparr>"

definition policy_live_tail :: "nat \<Rightarrow> nat option \<Rightarrow> bootstrap_policy" where
  "policy_live_tail max_bootstrap_frames max_bootstrap_age_ms =
     \<lparr>bp_mode = Live_Tail, bp_max_bootstrap_age_ms = max_bootstrap_age_ms,
      bp_max_bootstrap_frames = max_bootstrap_frames, bp_wait_for_next_random_access_point = True\<rparr>"

definition policy_full_gop :: "nat \<Rightarrow> nat option \<Rightarrow> bootstrap_policy" where
  "policy_full_gop max_bootstrap_frames max_bootstrap_age_ms =
     \<lparr>bp_mode = Full_Gop, bp_max_bootstrap_age_ms = max_bootstrap_age_ms,
      bp_max_bootstrap_frames = max_bootstrap_frames, bp_wait_for_next_random_access_point = True\<rparr>"

definition policy_default :: bootstrap_policy where
  "policy_default = \<lparr>bp_mode = Live_Tail, bp_max_bootstrap_age_ms = Some 1500, bp_max_bootstrap_frames = 150,
     bp_wait_for_next_random_access_point = True\<rparr>"

section \<open>The ring\<close>

record idr_node =
  in_ring_pos :: nat
  in_slot_version :: nat

record ring_slot =
  sl_frame :: "av_frame option"
  sl_version :: nat

text \<open>\<open>mask\<close> is one less than a power of two, so \<open>pos & mask\<close> is the remainder by the number of slots.\<close>

record ring_buffer =
  rg_slots :: "ring_slot list"
  rg_write_pos :: nat
  rg_idr_list :: "idr_node list"

text \<open>\<^verbatim>\<open>next_power_of_two\<close>.\<close>

function next_power_from :: "nat \<Rightarrow> nat \<Rightarrow> nat" where
  "next_power_from p n = (if n \<le> p \<or> p = 0 then p else next_power_from (2 * p) n)"
  by pat_completeness auto
termination by (relation "measure (\<lambda>(p, n). n - p)") auto

declare next_power_from.simps [simp del]

definition ring_new :: "nat \<Rightarrow> ring_buffer" where
  "ring_new capacity =
     (let cap = next_power_from 1 (max capacity 2) in
      \<lparr>rg_slots = replicate cap \<lparr>sl_frame = None, sl_version = 0\<rparr>, rg_write_pos = 0, rg_idr_list = []\<rparr>)"

definition slot_at :: "ring_buffer \<Rightarrow> nat \<Rightarrow> ring_slot" where
  "slot_at r ring_pos = rg_slots r ! (ring_pos mod length (rg_slots r))"

definition earliest_readable_pos :: "ring_buffer \<Rightarrow> nat \<Rightarrow> nat" where
  "earliest_readable_pos r end_pos = end_pos - length (rg_slots r)"

definition prune_idr_nodes :: "ring_buffer \<Rightarrow> nat \<Rightarrow> idr_node list \<Rightarrow> idr_node list" where
  "prune_idr_nodes r end_pos nodes =
     (let min_pos = earliest_readable_pos r end_pos in
      filter (\<lambda>node.
        if in_ring_pos node < min_pos \<or> in_ring_pos node \<ge> end_pos then False
        else sl_version (slot_at r (in_ring_pos node)) = in_slot_version node) nodes)"

definition record_idr :: "nat \<Rightarrow> nat \<Rightarrow> ring_buffer \<Rightarrow> ring_buffer" where
  "record_idr ring_pos slot_version r =
     (let nodes = rg_idr_list r @ [\<lparr>in_ring_pos = ring_pos, in_slot_version = slot_version\<rparr>];
          nodes = prune_idr_nodes r (rg_write_pos r) nodes;
          max_entries = length (rg_slots r) * 2 in
      r\<lparr>rg_idr_list := (if length nodes > max_entries then drop (length nodes - max_entries) nodes else nodes)\<rparr>)"

definition ring_push :: "av_frame \<Rightarrow> ring_buffer \<Rightarrow> ring_buffer \<times> nat \<times> nat" where
  "ring_push frame r =
     (let pos = rg_write_pos r; slot_idx = pos mod length (rg_slots r);
          version = sl_version (rg_slots r ! slot_idx) + 1;
          r = r\<lparr>rg_write_pos := pos + 1,
                rg_slots := (rg_slots r)[slot_idx := \<lparr>sl_frame = Some frame, sl_version = version\<rparr>]\<rparr>;
          r = (if flags_contain (av_flags frame) flag_key then record_idr pos version r else r) in
      (r, pos, version))"

definition ring_read :: "ring_buffer \<Rightarrow> nat \<Rightarrow> (av_frame \<times> nat) option" where
  "ring_read r ring_pos =
     (case sl_frame (slot_at r ring_pos) of
        None \<Rightarrow> None
      | Some frame \<Rightarrow> Some (frame, sl_version (slot_at r ring_pos)))"

section \<open>Bootstrap\<close>

definition checked_i128 :: "int \<Rightarrow> int option" where
  "checked_i128 x = (if - (2 ^ 127) \<le> x \<and> x < 2 ^ 127 then Some x else None)"

definition frame_time_ms :: "av_frame \<Rightarrow> int option" where
  "frame_time_ms f =
     (case (if av_dts f \<ge> 0 then Some (av_dts f) else if av_pts f \<ge> 0 then Some (av_pts f) else None) of
        None \<Rightarrow> None
      | Some ts \<Rightarrow>
          (case checked_i128 (ts * int (unat (tb_num (av_timebase f)))) of
             None \<Rightarrow> None
           | Some numer \<Rightarrow>
               let denom = int (unat (tb_den (av_timebase f))) in
               if denom \<le> 0 then None
               else (case checked_i128 (numer * 1000) of None \<Rightarrow> None | Some n \<Rightarrow> Some (n div denom))))"

text \<open>The first position, from the back, at which a test of the frame there succeeds.\<close>

fun scan_back :: "ring_buffer \<Rightarrow> (av_frame \<Rightarrow> bool) \<Rightarrow> nat list \<Rightarrow> nat option" where
  "scan_back r P [] = None"
| "scan_back r P (pos # ps) =
     (case ring_read r pos of
        None \<Rightarrow> scan_back r P ps
      | Some (frame, _) \<Rightarrow> if P frame then Some pos else scan_back r P ps)"

text \<open>\<^verbatim>\<open>(start..end).rev().find_map(read)\<close>.\<close>

definition latest_frame :: "ring_buffer \<Rightarrow> nat \<Rightarrow> nat \<Rightarrow> av_frame option" where
  "latest_frame r start end_pos =
     (case List.map_filter (ring_read r) (rev [start..<end_pos]) of [] \<Rightarrow> None | (frame, _) # _ \<Rightarrow> Some frame)"

definition clamp_start_by_max_age :: "ring_buffer \<Rightarrow> nat \<Rightarrow> nat \<Rightarrow> nat option \<Rightarrow> nat" where
  "clamp_start_by_max_age r start end_pos max_bootstrap_age_ms =
     (case max_bootstrap_age_ms of
        None \<Rightarrow> start
      | Some max_age_ms \<Rightarrow>
          if max_age_ms = 0 \<or> start \<ge> end_pos then end_pos
          else
            case Option.bind (latest_frame r start end_pos) frame_time_ms of
              None \<Rightarrow> start
            | Some latest_ts_ms \<Rightarrow>
                let min_ts_ms = latest_ts_ms - int max_age_ms in
                case scan_back r (\<lambda>f. case frame_time_ms f of None \<Rightarrow> False | Some ts_ms \<Rightarrow> ts_ms < min_ts_ms)
                       (rev [start..<end_pos]) of
                  None \<Rightarrow> start
                | Some ring_pos \<Rightarrow> ring_pos + 1)"

definition clamp_start_by_discontinuity :: "ring_buffer \<Rightarrow> nat \<Rightarrow> nat \<Rightarrow> nat" where
  "clamp_start_by_discontinuity r start end_pos =
     (case scan_back r (\<lambda>f. flags_contain (av_flags f) flag_discontinuity) (rev [start..<end_pos]) of
        None \<Rightarrow> start
      | Some ring_pos \<Rightarrow> ring_pos)"

definition clamp_start_by_random_access :: "ring_buffer \<Rightarrow> nat \<Rightarrow> nat \<Rightarrow> bootstrap_policy \<Rightarrow> ring_buffer \<times> nat" where
  "clamp_start_by_random_access r start end_pos policy =
     (if bp_mode policy \<notin> {Live_Tail, Full_Gop} then (r, start)
      else
        let nodes = prune_idr_nodes r end_pos (rg_idr_list r);
            inside = (\<lambda>node. in_ring_pos node \<ge> start \<and> in_ring_pos node < end_pos);
            chosen = map_option in_ring_pos
              (case bp_mode policy of
                 Live_Tail \<Rightarrow> find inside (rev nodes) | Full_Gop \<Rightarrow> find inside nodes | Bm_None \<Rightarrow> None) in
        (r\<lparr>rg_idr_list := nodes\<rparr>,
         case chosen of
           Some ring_pos \<Rightarrow> ring_pos
         | None \<Rightarrow> if bp_wait_for_next_random_access_point policy then end_pos else start))"

definition bootstrap_frames :: "bootstrap_policy \<Rightarrow> ring_buffer \<Rightarrow> ring_buffer \<times> av_frame list" where
  "bootstrap_frames policy r =
     (if bp_mode policy = Bm_None \<or> bp_max_bootstrap_frames policy = 0 then (r, [])
      else
        let end_pos = rg_write_pos r;
            start = end_pos - bp_max_bootstrap_frames policy;
            start = clamp_start_by_max_age r start end_pos (bp_max_bootstrap_age_ms policy);
            start = clamp_start_by_discontinuity r start end_pos;
            (r, start) = clamp_start_by_random_access r start end_pos policy in
        (r, map fst (List.map_filter (ring_read r) [start..<end_pos])))"

end
