(* ===== verification/Engine_Dispatch.thy ===== *)
theory Engine_Dispatch
  imports Engine_Ring
begin

text \<open>
  The dispatcher of a stream in the engine (\<^verbatim>\<open>src/crates/system/cheetah-engine/src/stream.rs\<close> with the options of
  \<^verbatim>\<open>src/crates/sdk/cheetah-sdk/src/stream.rs\<close>): the subscribers with their bounded queues, and what a frame
  does at each of them. The bounded channels of the tokio crate are a parameter.
\<close>

section \<open>Options\<close>

datatype backpressure_policy = Drop_Droppable_First | Drop_Until_Next_Keyframe | Disconnect_On_Overflow

datatype dispatch_result = Accepted | Dropped_By_Policy | Rejected_Closed

record media_filter =
  mf_enable_video :: bool
  mf_enable_audio :: bool

definition media_filter_default :: media_filter where
  "media_filter_default = \<lparr>mf_enable_video = True, mf_enable_audio = True\<rparr>"

record subscriber_options =
  so_queue_capacity :: nat
  so_backpressure :: backpressure_policy
  so_bootstrap_policy :: bootstrap_policy
  so_media_filter :: media_filter

definition subscriber_options_default :: subscriber_options where
  "subscriber_options_default =
     \<lparr>so_queue_capacity = 150, so_backpressure = Drop_Droppable_First, so_bootstrap_policy = policy_default,
      so_media_filter = media_filter_default\<rparr>"

section \<open>Channels\<close>

text \<open>
  A bounded channel with its sender and its receiver is a value of the type \<open>'c\<close>; \<open>chan_ops\<close> are the operations of the
  \<^verbatim>\<open>mpsc\<close> module that are called: \<^verbatim>\<open>channel(capacity)\<close>, \<^verbatim>\<open>try_send\<close> with its two errors, \<^verbatim>\<open>recv\<close> when a value
  is there, and the drop of the receiver.
\<close>

datatype send_result = Sent | Full | Closed

record ('a, 'c) chan_ops =
  chan_new :: "nat \<Rightarrow> 'c"
  try_send :: "'a \<Rightarrow> 'c \<Rightarrow> 'c \<times> send_result"
  chan_recv :: "'c \<Rightarrow> ('a \<times> 'c) option"
  chan_close :: "'c \<Rightarrow> 'c"

section \<open>Subscribers\<close>

record dispatch_subscriber =
  ds_id :: nat
  ds_policy :: backpressure_policy
  ds_media_filter :: media_filter
  ds_wait_for_next_keyframe :: bool

record 'c dispatcher =
  dp_subscribers :: "dispatch_subscriber list"
  dp_next_subscriber_id :: nat
  dp_channels :: "nat \<Rightarrow> 'c option"

definition dispatcher_new :: "'c dispatcher" where
  "dispatcher_new = \<lparr>dp_subscribers = [], dp_next_subscriber_id = 0, dp_channels = (\<lambda>_. None)\<rparr>"

definition add_subscriber ::
  "(av_frame, 'c) chan_ops \<Rightarrow> subscriber_options \<Rightarrow> 'c dispatcher \<Rightarrow> 'c dispatcher \<times> nat" where
  "add_subscriber ops options d =
     (let id = dp_next_subscriber_id d + 1;
          chan = chan_new ops (max (so_queue_capacity options) 1);
          sub = \<lparr>ds_id = id, ds_policy = so_backpressure options, ds_media_filter = so_media_filter options,
                 ds_wait_for_next_keyframe = False\<rparr> in
      (d\<lparr>dp_next_subscriber_id := id, dp_subscribers := dp_subscribers d @ [sub], dp_channels := (dp_channels d)(id \<mapsto> chan)\<rparr>,
       id))"

definition remove_subscribers :: "nat list \<Rightarrow> 'c dispatcher \<Rightarrow> 'c dispatcher" where
  "remove_subscribers ids d =
     (if ids = [] then d else d\<lparr>dp_subscribers := filter (\<lambda>s. ds_id s \<notin> set ids) (dp_subscribers d)\<rparr>)"

definition clear_subscribers :: "'c dispatcher \<Rightarrow> 'c dispatcher" where
  "clear_subscribers d = d\<lparr>dp_subscribers := []\<rparr>"

definition subscriber_count :: "'c dispatcher \<Rightarrow> nat" where
  "subscriber_count d = length (dp_subscribers d)"

section \<open>Dispatching a frame\<close>

text \<open>What a frame did at one subscriber: it was accepted, dropped, and the subscriber is to be removed.\<close>

record offer =
  of_accepted :: bool
  of_dropped :: bool
  of_remove :: bool

definition no_offer :: offer where "no_offer = \<lparr>of_accepted = False, of_dropped = False, of_remove = False\<rparr>"

definition filtered_out :: "av_frame \<Rightarrow> dispatch_subscriber \<Rightarrow> bool" where
  "filtered_out frame sub \<longleftrightarrow>
     \<not> mf_enable_video (ds_media_filter sub) \<and> av_media_kind frame = Video
     \<or> \<not> mf_enable_audio (ds_media_filter sub) \<and> av_media_kind frame = Audio"

definition offer_send ::
  "(av_frame, 'c) chan_ops \<Rightarrow> av_frame \<Rightarrow> dispatch_subscriber \<Rightarrow> 'c \<Rightarrow> dispatch_subscriber \<times> 'c \<times> offer" where
  "offer_send ops frame sub c =
     (case try_send ops frame c of
        (c, Sent) \<Rightarrow> (sub, c, no_offer\<lparr>of_accepted := True\<rparr>)
      | (c, Full) \<Rightarrow>
          (case ds_policy sub of
             Drop_Droppable_First \<Rightarrow>
               if \<not> flags_contain (av_flags frame) flag_key \<or> flags_contain (av_flags frame) flag_droppable
               then (sub, c, no_offer\<lparr>of_dropped := True\<rparr>) else (sub, c, no_offer\<lparr>of_remove := True\<rparr>)
           | Drop_Until_Next_Keyframe \<Rightarrow>
               (sub\<lparr>ds_wait_for_next_keyframe := True\<rparr>, c, no_offer\<lparr>of_dropped := True\<rparr>)
           | Disconnect_On_Overflow \<Rightarrow> (sub, c, no_offer\<lparr>of_dropped := True, of_remove := True\<rparr>))
      | (c, Closed) \<Rightarrow> (sub, c, no_offer\<lparr>of_remove := True\<rparr>))"

definition offer_frame ::
  "(av_frame, 'c) chan_ops \<Rightarrow> av_frame \<Rightarrow> dispatch_subscriber \<Rightarrow> 'c \<Rightarrow> dispatch_subscriber \<times> 'c \<times> offer" where
  "offer_frame ops frame sub c =
     (if filtered_out frame sub then (sub, c, no_offer)
      else if ds_policy sub = Drop_Until_Next_Keyframe \<and> ds_wait_for_next_keyframe sub then
        if flags_contain (av_flags frame) flag_key
        then offer_send ops frame (sub\<lparr>ds_wait_for_next_keyframe := False\<rparr>) c
        else (sub, c, no_offer\<lparr>of_dropped := True\<rparr>)
      else offer_send ops frame sub c)"

text \<open>The loop over the subscribers; a subscriber without a channel does not occur.\<close>

fun dispatch_to ::
  "(av_frame, 'c) chan_ops \<Rightarrow> av_frame \<Rightarrow> dispatch_subscriber list \<Rightarrow> (nat \<Rightarrow> 'c option) \<Rightarrow>
   dispatch_subscriber list \<times> (nat \<Rightarrow> 'c option) \<times> offer list"
where
  "dispatch_to ops frame [] chans = ([], chans, [])"
| "dispatch_to ops frame (sub # subs) chans =
     (case chans (ds_id sub) of
        None \<Rightarrow> (case dispatch_to ops frame subs chans of (subs', chans', os) \<Rightarrow> (sub # subs', chans', no_offer # os))
      | Some c \<Rightarrow>
          (case offer_frame ops frame sub c of (sub', c', off) \<Rightarrow>
             case dispatch_to ops frame subs (chans(ds_id sub \<mapsto> c')) of (subs', chans', os) \<Rightarrow>
               (sub' # subs', chans', off # os)))"

definition dispatch_frame :: 
  "(av_frame, 'c) chan_ops \<Rightarrow> av_frame \<Rightarrow> 'c dispatcher \<Rightarrow> 'c dispatcher \<times> dispatch_result" where
  "dispatch_frame ops frame d =
     (if dp_subscribers d = [] then (d, Rejected_Closed)
      else
        case dispatch_to ops frame (dp_subscribers d) (dp_channels d) of (subs, chans, os) \<Rightarrow>
          let remove_ids = map (ds_id \<circ> fst) (filter (of_remove \<circ> snd) (zip subs os));
              d = remove_subscribers remove_ids (d\<lparr>dp_subscribers := subs, dp_channels := chans\<rparr>) in
          (d, if list_ex of_accepted os then Accepted
              else if list_ex of_dropped os then Dropped_By_Policy else Rejected_Closed))"

section \<open>One subscriber\<close>

lemma offer_frame_channel:
  assumes "offer_frame ops f sub c = (sub', c', off)"
  shows "(of_accepted off \<longrightarrow> try_send ops f c = (c', Sent)
      \<and> \<not> filtered_out f sub \<and> (ds_policy sub = Drop_Until_Next_Keyframe \<longrightarrow> \<not> ds_wait_for_next_keyframe sub \<or> flags_contain (av_flags f) flag_key))
    \<and> (\<not> of_accepted off \<longrightarrow> c' = c \<or> c' = fst (try_send ops f c) \<and> snd (try_send ops f c) \<noteq> Sent)
    \<and> sub' = sub\<lparr>ds_wait_for_next_keyframe := ds_wait_for_next_keyframe sub'\<rparr>"
  using assms
  by (auto simp: offer_frame_def offer_send_def no_offer_def split: if_splits prod.splits send_result.splits
      backpressure_policy.splits)

lemma offer_frame_keeps:
  assumes "offer_frame ops f sub c = (sub', c', off)"
  shows "ds_id sub' = ds_id sub" "ds_policy sub' = ds_policy sub" "ds_media_filter sub' = ds_media_filter sub"
  using assms
  by (auto simp: offer_frame_def offer_send_def no_offer_def split: if_splits prod.splits send_result.splits
      backpressure_policy.splits)

section \<open>An instance\<close>

text \<open>A channel as the crate documents it, for the examples: first in, first out, a bound, and errors when full or closed.\<close>

record 'a channel =
  ch_queue :: "'a list"
  ch_capacity :: nat
  ch_open :: bool

definition fifo_send :: "'a \<Rightarrow> 'a channel \<Rightarrow> 'a channel \<times> send_result" where
  "fifo_send x c =
     (if \<not> ch_open c then (c, Closed)
      else if length (ch_queue c) \<ge> ch_capacity c then (c, Full)
      else (c\<lparr>ch_queue := ch_queue c @ [x]\<rparr>, Sent))"

definition fifo_recv :: "'a channel \<Rightarrow> ('a \<times> 'a channel) option" where
  "fifo_recv c = (case ch_queue c of [] \<Rightarrow> None | x # xs \<Rightarrow> Some (x, c\<lparr>ch_queue := xs\<rparr>))"

definition fifo :: "('a, 'a channel) chan_ops" where
  "fifo = \<lparr>chan_new = (\<lambda>n. \<lparr>ch_queue = [], ch_capacity = n, ch_open = True\<rparr>), try_send = fifo_send, chan_recv = fifo_recv,
     chan_close = (\<lambda>c. c\<lparr>ch_open := False\<rparr>)\<rparr>"

end
