(* ===== verification/Engine_Dispatch_Properties.thy ===== *)
theory Engine_Dispatch_Properties
  imports Engine_Dispatch
begin

text \<open>What backpressure does to one subscriber over the frames of its stream, whatever its channel does.\<close>

section \<open>The life of a subscriber\<close>

text \<open>
  Between its subscription and its removal a subscriber sees two things: a frame is offered to it, and its
  receiver takes a frame off its queue. The history records the frames the media filter lets through, each with
  whether it was accepted.
\<close>

datatype sub_action = Offer av_frame | Receive

type_synonym history = "(av_frame \<times> bool) list"

definition receive_one :: "(av_frame, 'c) chan_ops \<Rightarrow> 'c \<Rightarrow> 'c" where
  "receive_one ops c = (case chan_recv ops c of None \<Rightarrow> c | Some (f, c') \<Rightarrow> c')"

fun sub_step ::
  "(av_frame, 'c) chan_ops \<Rightarrow> sub_action \<Rightarrow> dispatch_subscriber \<times> 'c \<times> history \<Rightarrow> dispatch_subscriber \<times> 'c \<times> history"
where
  "sub_step ops Receive (sub, c, h) = (sub, receive_one ops c, h)"
| "sub_step ops (Offer f) (sub, c, h) =
     (case offer_frame ops f sub c of (sub', c', off) \<Rightarrow>
        (sub', c', h @ (if filtered_out f sub then [] else [(f, of_accepted off)])))"

definition sub_run ::
  "(av_frame, 'c) chan_ops \<Rightarrow> sub_action list \<Rightarrow> dispatch_subscriber \<times> 'c \<Rightarrow> dispatch_subscriber \<times> 'c \<times> history"
where
  "sub_run ops as s = fold (sub_step ops) as (fst s, snd s, [])"

section \<open>A gap ends with a key frame\<close>

text \<open>\<open>waits_after_drop\<close>: without waiting, the last frame of the history was accepted; every step keeps this.\<close>

definition waits_after_drop :: "dispatch_subscriber \<Rightarrow> history \<Rightarrow> bool" where
  "waits_after_drop sub h \<longleftrightarrow>
     ds_policy sub = Drop_Until_Next_Keyframe
     \<and> (ds_wait_for_next_keyframe sub \<longleftrightarrow> h \<noteq> [] \<and> \<not> snd (last h))
     \<and> (\<forall>i. Suc i < length h \<longrightarrow> \<not> snd (h ! i) \<longrightarrow> snd (h ! Suc i) \<longrightarrow> flags_contain (av_flags (fst (h ! Suc i))) flag_key)"

lemma offer_wait:
  assumes "offer_frame ops f sub c = (sub', c', off)" and "ds_policy sub = Drop_Until_Next_Keyframe"
    and "\<And>f c. snd (try_send ops f c) \<noteq> Closed" and "\<not> filtered_out f sub"
  shows "ds_wait_for_next_keyframe sub' = (\<not> of_accepted off)"
    and "ds_wait_for_next_keyframe sub \<Longrightarrow> of_accepted off \<Longrightarrow> flags_contain (av_flags f) flag_key"
  using assms(1,2,4) assms(3) [of f c]
  by (auto simp: offer_frame_def offer_send_def no_offer_def split: if_splits prod.splits send_result.splits)

lemma offer_filtered: "filtered_out f sub \<Longrightarrow> offer_frame ops f sub c = (sub, c, no_offer)"
  by (simp add: offer_frame_def)

lemma history_grows:
  assumes w: "waits_after_drop sub h" and o: "offer_frame ops f sub c = (sub', c', off)"
    and open_rx: "\<And>f c. snd (try_send ops f c) \<noteq> Closed" and nf: "\<not> filtered_out f sub"
  shows "waits_after_drop sub' (h @ [(f, of_accepted off)])"
proof -
  have p: "ds_policy sub = Drop_Until_Next_Keyframe" using w by (simp add: waits_after_drop_def)
  note ow = offer_wait [OF o p open_rx nf]
  have old: "ds_wait_for_next_keyframe sub = (h \<noteq> [] \<and> \<not> snd (last h))"
    "\<And>i. Suc i < length h \<Longrightarrow> \<not> snd (h ! i) \<Longrightarrow> snd (h ! Suc i) \<Longrightarrow> flags_contain (av_flags (fst (h ! Suc i))) flag_key"
    using w by (simp_all add: waits_after_drop_def)
  let ?h = "h @ [(f, of_accepted off)]"
  have "flags_contain (av_flags (fst (?h ! Suc i))) flag_key"
    if i: "Suc i < length ?h" "\<not> snd (?h ! i)" "snd (?h ! Suc i)" for i
  proof (cases "Suc i < length h")
    case True
    then show ?thesis using old(2) [of i] i by (simp add: nth_append)
  next
    case False
    with i(1) have "length h = Suc i" by simp
    then have "h \<noteq> []" "?h ! Suc i = (f, of_accepted off)" by (auto simp: nth_append)
    moreover from this(1) have "?h ! i = last h" using \<open>length h = Suc i\<close> by (simp add: last_conv_nth nth_append)
    ultimately show ?thesis using i(2,3) old(1) ow(2) by simp
  qed
  with ow(1) offer_frame_keeps(2) [OF o] p show ?thesis by (simp add: waits_after_drop_def)
qed

lemma sub_run_waits:
  assumes "\<And>f c. snd (try_send ops f c) \<noteq> Closed" and "waits_after_drop sub h"
    and "fold (sub_step ops) as (sub, c, h) = (sub', c', h')"
  shows "waits_after_drop sub' h'"
  using assms(2,3)
proof (induction as arbitrary: sub c h)
  case (Cons a as)
  show ?case
  proof (cases a)
    case Receive
    with Cons show ?thesis by simp
  next
    case (Offer f)
    obtain sub1 c1 off where o: "offer_frame ops f sub c = (sub1, c1, off)" by (metis prod_cases3)
    show ?thesis
    proof (cases "filtered_out f sub")
      case True
      with Cons Offer show ?thesis by (simp add: offer_filtered)
    next
      case False
      with history_grows [OF Cons.prems(1) o assms(1)] Cons Offer o show ?thesis by simp
    qed
  qed
qed simp

text \<open>
  After a drop, a subscriber that waits for key frames goes on with a key frame. Over any frames offered to a
  subscriber with the policy DropUntilNextKeyframe, whose receiver exists and who is not waiting at the start, and
  any receptions in between, the first frame that is accepted after one that was not (of those its media filter lets
  through) is a key frame.
\<close>

lemma gap_ends_with_keyframe:
  assumes "sub_run ops as (sub, c) = (sub', c', h)" and "\<And>f c. snd (try_send ops f c) \<noteq> Closed"
    and "ds_policy sub = Drop_Until_Next_Keyframe" and "\<not> ds_wait_for_next_keyframe sub"
    and "i < j" and "j < length h" and "\<forall>k. i \<le> k \<longrightarrow> k < j \<longrightarrow> \<not> snd (h ! k)" and "snd (h ! j)"
  shows "flags_contain (av_flags (fst (h ! j))) flag_key"
proof -
  have "waits_after_drop sub' h"
    by (rule sub_run_waits [OF assms(2), of sub "[]" as c]) (use assms(1,3,4) in \<open>simp_all add: waits_after_drop_def sub_run_def\<close>)
  moreover obtain k where "j = Suc k" "i \<le> k" using assms(5) by (cases j) auto
  ultimately show ?thesis using assms(6-8) by (simp add: waits_after_drop_def)
qed

definition flagged :: "u32 \<Rightarrow> av_frame" where
  "flagged flags = (av_frame_new (TrackId 1) Video H264 CanonicalH26x 0 0 \<lparr>tb_num = 1, tb_den = 1000\<rparr> [])\<lparr>av_flags := flags\<rparr>"

section \<open>Streams without key frames\<close>

text \<open>
  Under the same policy a subscriber that dropped one frame waits for a key frame whatever it subscribed to: if
  its media filter removes video, or the stream has none, no frame is ever accepted again.
\<close>

lemma waiting_without_keyframes_starves:
  assumes "ds_policy sub = Drop_Until_Next_Keyframe" and "ds_wait_for_next_keyframe sub"
    and "\<And>f. Offer f \<in> set as \<Longrightarrow> \<not> filtered_out f sub \<Longrightarrow> \<not> flags_contain (av_flags f) flag_key"
  shows "\<exists>c'. fold (sub_step ops) as (sub, c, h) = (sub, c', h @ map (\<lambda>f. (f, False)) (filter (\<lambda>f. \<not> filtered_out f sub)
    (concat (map (\<lambda>a. case a of Offer f \<Rightarrow> [f] | Receive \<Rightarrow> []) as))))"
  using assms(3)
proof (induction as arbitrary: c h)
  case (Cons a as)
  show ?case
  proof (cases a)
    case Receive
    with Cons.IH [of "receive_one ops c" h] Cons.prems show ?thesis by simp
  next
    case (Offer f)
    have "offer_frame ops f sub c = (sub, c, if filtered_out f sub then no_offer else no_offer\<lparr>of_dropped := True\<rparr>)"
      using assms(1,2) Cons.prems [of f] by (simp add: offer_frame_def Offer)
    moreover have "\<exists>c'. fold (sub_step ops) as (sub, c, k) = (sub, c', k @ map (\<lambda>f. (f, False)) (filter (\<lambda>f. \<not> filtered_out f sub)
      (concat (map (\<lambda>a. case a of Offer f \<Rightarrow> [f] | Receive \<Rightarrow> []) as))))" for k
      by (rule Cons.IH) (use Cons.prems in auto)
    from this [of h] this [of "h @ [(f, False)]"] calculation show ?thesis by (auto simp: Offer no_offer_def)
  qed
qed simp

end
