(* ===== verification/Engine_Ring_Properties.thy ===== *)
theory Engine_Ring_Properties
  imports Engine_Ring
begin

text \<open>
  The ring buffer of a stream holds the last frames that were pushed, and a new subscriber starts with an
  unbroken run of them up to the newest, at a key frame where its policy asks for one.
\<close>

section \<open>What the ring holds\<close>

definition node_of :: "nat \<Rightarrow> nat \<Rightarrow> idr_node" where
  "node_of cap p = \<lparr>in_ring_pos = p, in_slot_version = p div cap + 1\<rparr>"

definition key_at :: "av_frame list \<Rightarrow> nat \<Rightarrow> bool" where
  "key_at fs p = flags_contain (av_flags (fs ! p)) flag_key"

text \<open>The ring after the frames \<open>fs\<close>: the window of the last ones is in its slots, and the index has their key frames.\<close>

definition ring_holds :: "ring_buffer \<Rightarrow> av_frame list \<Rightarrow> bool" where
  "ring_holds r fs \<longleftrightarrow>
     (let cap = length (rg_slots r); n = length fs in
      0 < cap \<and> rg_write_pos r = n
      \<and> (\<forall>p. n - cap \<le> p \<longrightarrow> p < n \<longrightarrow> slot_at r p = \<lparr>sl_frame = Some (fs ! p), sl_version = p div cap + 1\<rparr>)
      \<and> (\<forall>p. n \<le> p \<longrightarrow> p < cap \<longrightarrow> slot_at r p = \<lparr>sl_frame = None, sl_version = 0\<rparr>)
      \<and> (\<exists>m \<le> n - cap. rg_idr_list r = map (node_of cap) (filter (key_at fs) [m..<n])))"

lemma next_power_pos: "0 < p \<Longrightarrow> 0 < next_power_from p n"
  by (induction p n rule: next_power_from.induct) (subst next_power_from.simps, simp)

lemma ring_new_holds: "ring_holds (ring_new capacity) []"
  using next_power_pos [of 1 "max capacity 2"] by (simp add: ring_holds_def ring_new_def slot_at_def Let_def)

lemma ring_holdsD:
  assumes "ring_holds r fs"
  shows "0 < length (rg_slots r)" "rg_write_pos r = length fs"
    "\<And>p. length fs - length (rg_slots r) \<le> p \<Longrightarrow> p < length fs \<Longrightarrow>
       slot_at r p = \<lparr>sl_frame = Some (fs ! p), sl_version = p div length (rg_slots r) + 1\<rparr>"
    "\<And>p. length fs \<le> p \<Longrightarrow> p < length (rg_slots r) \<Longrightarrow> slot_at r p = \<lparr>sl_frame = None, sl_version = 0\<rparr>"
    "\<exists>m \<le> length fs - length (rg_slots r).
       rg_idr_list r = map (node_of (length (rg_slots r))) (filter (key_at fs) [m..<length fs])"
  using assms by (simp_all add: ring_holds_def Let_def)

lemma ring_holdsI:
  assumes "0 < c" and "length (rg_slots r) = c" and "rg_write_pos r = length fs"
    and "\<And>p. length fs - c \<le> p \<Longrightarrow> p < length fs \<Longrightarrow> slot_at r p = \<lparr>sl_frame = Some (fs ! p), sl_version = p div c + 1\<rparr>"
    and "\<And>p. length fs \<le> p \<Longrightarrow> p < c \<Longrightarrow> slot_at r p = \<lparr>sl_frame = None, sl_version = 0\<rparr>"
    and "m \<le> length fs - c" and "rg_idr_list r = map (node_of c) (filter (key_at fs) [m..<length fs])"
  shows "ring_holds r fs"
  unfolding ring_holds_def Let_def assms(2) using assms by blast

lemma prune_window:
  assumes "\<And>p. n - length (rg_slots r) \<le> p \<Longrightarrow> p < n \<Longrightarrow> sl_version (slot_at r p) = p div length (rg_slots r) + 1"
    and "m \<le> n - length (rg_slots r)"
  shows "prune_idr_nodes r n (map (node_of (length (rg_slots r))) (filter P [m..<n])) =
    map (node_of (length (rg_slots r))) (filter P [n - length (rg_slots r)..<n])"
proof -
  let ?c = "length (rg_slots r)"
  have s: "[m..<n] = [m..<n - ?c] @ [n - ?c..<n]"
    using assms(2) upt_add_eq_append [of m "n - ?c" "n - (n - ?c)"] by simp
  let ?Q = "\<lambda>p. if p < n - ?c \<or> n \<le> p then False else sl_version (slot_at r p) = p div ?c + 1"
  have "filter ?Q (filter P [m..<n - ?c]) = []" by (auto simp: filter_empty_conv)
  moreover have "filter ?Q (filter P [n - ?c..<n]) = filter P [n - ?c..<n]"
    unfolding filter_filter by (rule filter_cong [OF refl]) (auto simp: assms(1))
  ultimately have "filter ?Q (filter P [m..<n]) = filter P [n - ?c..<n]" unfolding s filter_append by simp
  then show ?thesis
    by (simp only: prune_idr_nodes_def earliest_readable_pos_def filter_map comp_def node_of_def Let_def idr_node.select_convs)
qed

lemma slot_of_next:
  assumes "ring_holds r fs"
  shows "sl_version (rg_slots r ! (length fs mod length (rg_slots r))) = length fs div length (rg_slots r)"
proof -
  let ?c = "length (rg_slots r)" and ?n = "length fs"
  note h = ring_holdsD [OF assms]
  show ?thesis
  proof (cases "?n < ?c")
    case True
    then show ?thesis using h(4) [of ?n] by (simp add: slot_at_def)
  next
    case False
    then have "?n - ?c < ?n" "(?n - ?c) mod ?c = ?n mod ?c" "?n div ?c = Suc ((?n - ?c) div ?c)"
      using h(1) by (simp_all add: le_mod_geq le_div_geq)
    with h(3) [of "?n - ?c"] show ?thesis by (simp add: slot_at_def)
  qed
qed

lemma push_slots:
  assumes "ring_holds r fs" and "rg_slots r' = (rg_slots r)[length fs mod length (rg_slots r) :=
      \<lparr>sl_frame = Some f, sl_version = length fs div length (rg_slots r) + 1\<rparr>]"
  shows "Suc (length fs) - length (rg_slots r) \<le> p \<Longrightarrow> p < Suc (length fs) \<Longrightarrow>
      slot_at r' p = \<lparr>sl_frame = Some ((fs @ [f]) ! p), sl_version = p div length (rg_slots r) + 1\<rparr>"
    and "Suc (length fs) \<le> p \<Longrightarrow> p < length (rg_slots r) \<Longrightarrow> slot_at r' p = \<lparr>sl_frame = None, sl_version = 0\<rparr>"
proof -
  let ?c = "length (rg_slots r)" and ?n = "length fs"
  note h = ring_holdsD [OF assms(1)]
  {
    assume p: "Suc ?n - ?c \<le> p" "p < Suc ?n"
    show "slot_at r' p = \<lparr>sl_frame = Some ((fs @ [f]) ! p), sl_version = p div ?c + 1\<rparr>"
    proof (cases "p = ?n")
      case True
      then show ?thesis using h(1) by (simp add: slot_at_def assms(2))
    next
      case False
      have "p mod ?c \<noteq> ?n mod ?c"
      proof
        assume "p mod ?c = ?n mod ?c"
        then have "?c dvd ?n - p" using mod_eq_dvd_iff_nat [of p ?n ?c] p False by auto
        then have "?c \<le> ?n - p" using p False by (intro dvd_imp_le) auto
        then show False using p False h(1) by linarith
      qed
      then have "slot_at r' p = slot_at r p" by (simp add: slot_at_def assms(2))
      then show ?thesis using h(3) [of p] p False by (simp add: nth_append)
    qed
  next
    assume p: "Suc ?n \<le> p" "p < ?c"
    then have "slot_at r' p = slot_at r p" by (simp add: slot_at_def assms(2))
    then show "slot_at r' p = \<lparr>sl_frame = None, sl_version = 0\<rparr>" using h(4) [of p] p by simp
  }
qed

lemma key_at_append: "p < length fs \<Longrightarrow> key_at (fs @ [f]) p = key_at fs p"
  by (simp add: key_at_def nth_append)

lemma filter_key_append: "m \<le> length fs \<Longrightarrow> filter (key_at (fs @ [f])) [m..<Suc (length fs)] =
    filter (key_at fs) [m..<length fs] @ (if flags_contain (av_flags f) flag_key then [length fs] else [])"
proof -
  assume "m \<le> length fs"
  moreover have "filter (key_at (fs @ [f])) [m..<length fs] = filter (key_at fs) [m..<length fs]"
    by (rule filter_cong) (auto simp: key_at_append)
  ultimately show ?thesis by (simp add: key_at_def)
qed

lemma ring_push_holds:
  assumes "ring_holds r fs"
  shows "ring_holds (fst (ring_push f r)) (fs @ [f])"
    and "snd (ring_push f r) = (length fs, length fs div length (rg_slots r) + 1)"
proof -
  let ?c = "length (rg_slots r)" and ?n = "length fs"
  note h = ring_holdsD [OF assms]
  define r1 where "r1 = r\<lparr>rg_write_pos := Suc ?n, rg_slots := (rg_slots r)[?n mod ?c :=
    \<lparr>sl_frame = Some f, sl_version = ?n div ?c + 1\<rparr>]\<rparr>"
  have p: "ring_push f r = (if flags_contain (av_flags f) flag_key then record_idr ?n (?n div ?c + 1) r1 else r1, ?n, ?n div ?c + 1)"
    by (simp add: ring_push_def r1_def h(2) slot_of_next [OF assms] Let_def)
  have c1: "length (rg_slots r1) = ?c" by (simp add: r1_def)
  have s1: "rg_slots r1 = (rg_slots r)[?n mod ?c := \<lparr>sl_frame = Some f, sl_version = ?n div ?c + 1\<rparr>]" by (simp add: r1_def)
  note slots = push_slots [OF assms s1]
  obtain m where m: "m \<le> ?n - ?c" "rg_idr_list r = map (node_of ?c) (filter (key_at fs) [m..<?n])" using h(5) by blast
  have mn: "m \<le> ?n" using m(1) by simp
  have all: "rg_idr_list r1 @ (if flags_contain (av_flags f) flag_key then [node_of ?c ?n] else []) =
    map (node_of ?c) (filter (key_at (fs @ [f])) [m..<Suc ?n])"
    unfolding filter_key_append [OF mn] by (simp add: r1_def m(2))
  show "snd (ring_push f r) = (?n, ?n div ?c + 1)" by (simp add: p)
  show "ring_holds (fst (ring_push f r)) (fs @ [f])"
  proof (cases "flags_contain (av_flags f) flag_key")
    case False
    have "m \<le> length (fs @ [f]) - ?c" using m(1) by simp
    moreover have "rg_idr_list r1 = map (node_of ?c) (filter (key_at (fs @ [f])) [m..<length (fs @ [f])])"
      using all False by simp
    moreover have "rg_write_pos r1 = length (fs @ [f])" by (simp add: r1_def)
    ultimately have "ring_holds r1 (fs @ [f])" using slots h(1) by (intro ring_holdsI [of ?c r1 "fs @ [f]" m]) (simp_all add: c1)
    then show ?thesis using False by (simp add: p)
  next
    case True
    have pr: "prune_idr_nodes r1 (Suc ?n) (rg_idr_list r1 @ [node_of ?c ?n]) =
      map (node_of ?c) (filter (key_at (fs @ [f])) [Suc ?n - ?c..<Suc ?n])"
      using all True prune_window [of "Suc ?n" r1 m "key_at (fs @ [f])"] slots(1) m(1) by (simp add: c1)
    have "length [Suc ?n - ?c..<Suc ?n] \<le> ?c" unfolding length_upt by linarith
    then have "length (filter (key_at (fs @ [f])) [Suc ?n - ?c..<Suc ?n]) \<le> ?c"
      by (rule le_trans [OF length_filter_le])
    then have rec: "record_idr ?n (?n div ?c + 1) r1 =
      r1\<lparr>rg_idr_list := map (node_of ?c) (filter (key_at (fs @ [f])) [Suc ?n - ?c..<Suc ?n])\<rparr>"
      using pr by (simp add: record_idr_def node_of_def c1 r1_def Let_def)
    define r2 where "r2 = r1\<lparr>rg_idr_list := map (node_of ?c) (filter (key_at (fs @ [f])) [Suc ?n - ?c..<Suc ?n])\<rparr>"
    have r2: "length (rg_slots r2) = ?c" "rg_write_pos r2 = length (fs @ [f])" "slot_at r2 = slot_at r1"
      "rg_idr_list r2 = map (node_of ?c) (filter (key_at (fs @ [f])) [Suc ?n - ?c..<length (fs @ [f])])"
      by (simp_all add: r2_def c1 slot_at_def fun_eq_iff) (simp add: r1_def)
    have "ring_holds r2 (fs @ [f])" using slots h(1) r2 by (intro ring_holdsI [of ?c r2 _ "Suc ?n - ?c"]) simp_all
    then show ?thesis using True rec by (simp add: p r2_def)
  qed
qed

section \<open>Reading the window\<close>

lemma read_window:
  assumes "ring_holds r fs" and "length fs - length (rg_slots r) \<le> p" and "p < length fs"
  shows "ring_read r p = Some (fs ! p, p div length (rg_slots r) + 1)"
  using ring_holdsD(3) [OF assms] by (simp add: ring_read_def)

lemma read_positions:
  assumes "ring_holds r fs" and "set ps \<subseteq> {length fs - length (rg_slots r)..<length fs}"
  shows "List.map_filter (ring_read r) ps = map (\<lambda>p. (fs ! p, p div length (rg_slots r) + 1)) ps"
  using assms(2) by (induction ps) (use read_window [OF assms(1)] in \<open>auto simp: List.map_filter_simps\<close>)

lemma read_run:
  assumes "ring_holds r fs" and "length fs - length (rg_slots r) \<le> start"
  shows "map fst (List.map_filter (ring_read r) [start..<length fs]) = drop start fs"
proof -
  have "map fst (List.map_filter (ring_read r) [start..<length fs]) = map ((!) fs) [start..<length fs]"
    using assms(2) by (subst read_positions [OF assms(1)]) auto
  then show ?thesis by (simp add: list_eq_iff_nth_eq)
qed

lemma scan_window:
  assumes "ring_holds r fs" and "set ps \<subseteq> {length fs - length (rg_slots r)..<length fs}"
  shows "scan_back r P ps = find (\<lambda>p. P (fs ! p)) ps"
  using assms(2) by (induction ps) (auto simp: read_window [OF assms(1)])

text \<open>The last position of a run that has a property.\<close>

lemma find_rev_upt:
  "find P (rev [s..<n]) = Some p \<Longrightarrow> s \<le> p \<and> p < n \<and> P p \<and> (\<forall>q. p < q \<longrightarrow> q < n \<longrightarrow> \<not> P q)"
  "find P (rev [s..<n]) = None \<Longrightarrow> s \<le> q \<Longrightarrow> q < n \<Longrightarrow> \<not> P q"
proof (induction n)
  case (Suc n)
  { case 1 with Suc.IH(1) show ?case by (auto split: if_splits simp: less_Suc_eq) }
  { case 2 with Suc.IH(2) show ?case by (auto split: if_splits simp: less_Suc_eq find_None_iff) }
qed simp_all

lemma scan_window_rev:
  assumes "ring_holds r fs" and "length fs - length (rg_slots r) \<le> s"
  shows "scan_back r P (rev [s..<length fs]) = Some p \<Longrightarrow>
      s \<le> p \<and> p < length fs \<and> P (fs ! p) \<and> (\<forall>q. p < q \<longrightarrow> q < length fs \<longrightarrow> \<not> P (fs ! q))"
    and "scan_back r P (rev [s..<length fs]) = None \<Longrightarrow> s \<le> q \<Longrightarrow> q < length fs \<Longrightarrow> \<not> P (fs ! q)"
proof -
  have e: "scan_back r P (rev [s..<length fs]) = find (\<lambda>p. P (fs ! p)) (rev [s..<length fs])"
    using assms by (intro scan_window) auto
  show "scan_back r P (rev [s..<length fs]) = Some p \<Longrightarrow>
      s \<le> p \<and> p < length fs \<and> P (fs ! p) \<and> (\<forall>q. p < q \<longrightarrow> q < length fs \<longrightarrow> \<not> P (fs ! q))"
    unfolding e by (rule find_rev_upt(1))
  show "scan_back r P (rev [s..<length fs]) = None \<Longrightarrow> s \<le> q \<Longrightarrow> q < length fs \<Longrightarrow> \<not> P (fs ! q)"
    unfolding e by (rule find_rev_upt(2))
qed

section \<open>The three clamps\<close>

lemma max_age_clamp:
  assumes "ring_holds r fs" and "length fs - length (rg_slots r) \<le> s" and "s \<le> length fs"
  shows "s \<le> clamp_start_by_max_age r s (length fs) age \<and> clamp_start_by_max_age r s (length fs) age \<le> length fs
    \<and> (\<forall>a latest q t. age = Some a \<longrightarrow> frame_time_ms (last fs) = Some latest \<longrightarrow>
         clamp_start_by_max_age r s (length fs) age \<le> q \<longrightarrow> q < length fs \<longrightarrow> frame_time_ms (fs ! q) = Some t \<longrightarrow> latest - int a \<le> t)"
proof (cases "age = None \<or> age = Some 0 \<or> length fs \<le> s")
  case True
  with assms(3) show ?thesis by (cases age) (auto simp: clamp_start_by_max_age_def)
next
  case False
  then obtain a where a: "age = Some a" "a \<noteq> 0" and lt: "s < length fs" by auto
  have "latest_frame r s (length fs) = Some (last fs)"
  proof -
    have "List.map_filter (ring_read r) (rev [s..<length fs]) =
        map (\<lambda>p. (fs ! p, p div length (rg_slots r) + 1)) (rev [s..<length fs])"
      using assms(2) by (intro read_positions [OF assms(1)]) auto
    moreover have "[s..<length fs] = [s..<length fs - 1] @ [length fs - 1]"
      using lt by (cases "length fs") auto
    moreover have "last fs = fs ! (length fs - 1)" using lt by (intro last_conv_nth) auto
    ultimately show ?thesis using lt by (simp add: latest_frame_def)
  qed
  note l = this
  let ?old = "\<lambda>latest f. case frame_time_ms f of None \<Rightarrow> False | Some ts \<Rightarrow> ts < latest - int a"
  note w = scan_window_rev [OF assms(1,2)]
  show ?thesis
  proof (cases "frame_time_ms (last fs)")
    case None
    with False lt l assms(3) show ?thesis by (auto simp: clamp_start_by_max_age_def a)
  next
    case (Some latest)
    show ?thesis
    proof (cases "scan_back r (?old latest) (rev [s..<length fs])")
      case None
      then have c: "clamp_start_by_max_age r s (length fs) age = s"
        using False lt l Some by (simp add: clamp_start_by_max_age_def a)
      show ?thesis using w(2) [OF None] assms(3) Some unfolding c by (fastforce simp: a)
    next
      case (Some p)
      then have c: "clamp_start_by_max_age r s (length fs) age = p + 1"
        using False lt l \<open>frame_time_ms (last fs) = Some latest\<close> by (simp add: clamp_start_by_max_age_def a)
      have "latest - int a \<le> t" if "p + 1 \<le> q" "q < length fs" "frame_time_ms (fs ! q) = Some t" for q t
        using w(1) [OF Some] that by (auto dest!: spec [of _ q])
      then show ?thesis using w(1) [OF Some] \<open>frame_time_ms (last fs) = Some latest\<close> unfolding c by (auto simp: a)
    qed
  qed
qed

lemma discontinuity_clamp:
  assumes "ring_holds r fs" and "length fs - length (rg_slots r) \<le> s" and "s \<le> length fs"
  shows "s \<le> clamp_start_by_discontinuity r s (length fs) \<and> clamp_start_by_discontinuity r s (length fs) \<le> length fs
    \<and> (\<forall>q. clamp_start_by_discontinuity r s (length fs) < q \<longrightarrow> q < length fs \<longrightarrow>
         \<not> flags_contain (av_flags (fs ! q)) flag_discontinuity)"
proof (cases "scan_back r (\<lambda>f. flags_contain (av_flags f) flag_discontinuity) (rev [s..<length fs])")
  case None
  then show ?thesis using scan_window_rev(2) [OF assms(1,2) None] assms(3) by (auto simp: clamp_start_by_discontinuity_def)
next
  case (Some p)
  then show ?thesis using scan_window_rev(1) [OF assms(1,2) Some] by (auto simp: clamp_start_by_discontinuity_def)
qed

lemma find_filter_map_node:
  "map_option in_ring_pos (find (\<lambda>node. in_ring_pos node \<ge> s \<and> in_ring_pos node < n) (map (node_of c) ps)) =
     find (\<lambda>p. s \<le> p \<and> p < n) ps"
  by (induction ps) (simp_all add: node_of_def)

lemma find_filter: "find P (filter Q xs) = find (\<lambda>x. Q x \<and> P x) xs"
  by (induction xs) auto

lemma random_access_clamp:
  assumes "ring_holds r fs" and "s \<le> length fs" and "length fs - length (rg_slots r) \<le> s"
    and "clamp_start_by_random_access r s (length fs) policy = (r', s')"
  shows "ring_holds r' fs" "length (rg_slots r') = length (rg_slots r)" "ring_read r' = ring_read r"
    "s \<le> s'" "s' \<le> length fs"
    "bp_mode policy \<noteq> Bm_None \<Longrightarrow> bp_wait_for_next_random_access_point policy \<Longrightarrow> s' < length fs \<Longrightarrow> key_at fs s'"
    "bp_mode policy = Live_Tail \<Longrightarrow> bp_wait_for_next_random_access_point policy \<Longrightarrow> s' < q \<Longrightarrow> q < length fs \<Longrightarrow> \<not> key_at fs q"
    "bp_mode policy = Full_Gop \<Longrightarrow> bp_wait_for_next_random_access_point policy \<Longrightarrow> s \<le> q \<Longrightarrow> q < s' \<Longrightarrow> \<not> key_at fs q"
proof -
  let ?c = "length (rg_slots r)" and ?n = "length fs"
  note h = ring_holdsD [OF assms(1)]
  define nodes where "nodes = map (node_of ?c) (filter (key_at fs) [?n - ?c..<?n])"
  obtain m where m: "m \<le> ?n - ?c" "rg_idr_list r = map (node_of ?c) (filter (key_at fs) [m..<?n])" using h(5) by blast
  have pr: "prune_idr_nodes r ?n (rg_idr_list r) = nodes"
    unfolding m(2) nodes_def by (rule prune_window) (use h(3) m(1) in simp_all)
  have pruned: "ring_holds (r\<lparr>rg_idr_list := nodes\<rparr>) fs" "ring_read (r\<lparr>rg_idr_list := nodes\<rparr>) = ring_read r"
  proof -
    have e: "slot_at (r\<lparr>rg_idr_list := nodes\<rparr>) = slot_at r" by (simp add: slot_at_def fun_eq_iff)
    then show "ring_read (r\<lparr>rg_idr_list := nodes\<rparr>) = ring_read r" by (intro ext) (simp only: ring_read_def e)
    show "ring_holds (r\<lparr>rg_idr_list := nodes\<rparr>) fs"
      using h(1-4) e by (intro ring_holdsI [of ?c _ _ "?n - ?c"]) (simp_all add: nodes_def)
  qed
  let ?find = "\<lambda>ps. find (\<lambda>p. key_at fs p \<and> s \<le> p \<and> p < ?n) ps"
  have tail: "map_option in_ring_pos (find (\<lambda>node. in_ring_pos node \<ge> s \<and> in_ring_pos node < ?n) (rev nodes)) =
      ?find (rev [?n - ?c..<?n])"
    unfolding nodes_def rev_map rev_filter find_filter_map_node by (rule find_filter)
  have gop: "map_option in_ring_pos (find (\<lambda>node. in_ring_pos node \<ge> s \<and> in_ring_pos node < ?n) nodes) =
      ?find [?n - ?c..<?n]"
    unfolding nodes_def find_filter_map_node by (rule find_filter)
  have cl: "clamp_start_by_random_access r s ?n policy =
    (if bp_mode policy = Bm_None then (r, s)
     else (r\<lparr>rg_idr_list := nodes\<rparr>,
       case ?find (if bp_mode policy = Live_Tail then rev [?n - ?c..<?n] else [?n - ?c..<?n]) of
         Some p \<Rightarrow> p | None \<Rightarrow> if bp_wait_for_next_random_access_point policy then ?n else s))"
    by (cases "bp_mode policy")
      (simp_all only: clamp_start_by_random_access_def pr Let_def tail gop bootstrap_mode.case bootstrap_mode.distinct
        insert_iff empty_iff simp_thms if_True if_False)
  show "ring_holds r' fs" "length (rg_slots r') = ?c" "ring_read r' = ring_read r"
    using assms(1,4) pruned unfolding cl by (auto split: if_splits)
  have fd: "?find ps = Some p \<Longrightarrow> key_at fs p \<and> s \<le> p \<and> p < ?n" for ps p
    by (auto simp: find_Some_iff)
  let ?ps = "if bp_mode policy = Live_Tail then rev [?n - ?c..<?n] else [?n - ?c..<?n]"
  have s': "s' = (if bp_mode policy = Bm_None then s
     else case ?find ?ps of Some p \<Rightarrow> p | None \<Rightarrow> if bp_wait_for_next_random_access_point policy then ?n else s)"
    using assms(4) unfolding cl by (auto split: if_splits)
  have "s \<le> s' \<and> s' \<le> ?n \<and> (bp_mode policy \<noteq> Bm_None \<longrightarrow> bp_wait_for_next_random_access_point policy \<longrightarrow> s' < ?n \<longrightarrow> key_at fs s')"
  proof (cases "?find ?ps")
    case None
    then show ?thesis unfolding s' None using assms(2) by simp
  next
    case (Some p)
    then show ?thesis unfolding s' Some using fd [OF Some] assms(2) by simp
  qed
  then show "s \<le> s'" "s' \<le> ?n"
    "bp_mode policy \<noteq> Bm_None \<Longrightarrow> bp_wait_for_next_random_access_point policy \<Longrightarrow> s' < ?n \<Longrightarrow> key_at fs s'"
    by blast+
  show "\<not> key_at fs q" if "bp_mode policy = Live_Tail" "bp_wait_for_next_random_access_point policy" "s' < q" "q < ?n"
  proof (cases "?find (rev [?n - ?c..<?n])")
    case None
    then show ?thesis using assms(4) that unfolding cl by simp
  next
    case (Some p)
    then have "s' = p" using assms(4) that unfolding cl by simp
    moreover from find_rev_upt(1) [OF Some] fd [OF Some] have "\<forall>q. p < q \<longrightarrow> q < ?n \<longrightarrow> \<not> key_at fs q" by auto
    ultimately show ?thesis using that by simp
  qed
  show "\<not> key_at fs q" if "bp_mode policy = Full_Gop" "bp_wait_for_next_random_access_point policy" "s \<le> q" "q < s'"
  proof (cases "?find [?n - ?c..<?n]")
    case None
    then have "s' = ?n" using assms(4) that unfolding cl by simp
    with None that assms(3) show ?thesis by (auto simp: find_None_iff)
  next
    case (Some p)
    then have e: "s' = p" using assms(4) that unfolding cl by simp
    from Some obtain i where i: "i < length [?n - ?c..<?n]" "[?n - ?c..<?n] ! i = p"
      "\<And>j. j < i \<Longrightarrow> \<not> (key_at fs ([?n - ?c..<?n] ! j) \<and> s \<le> [?n - ?c..<?n] ! j \<and> [?n - ?c..<?n] ! j < ?n)"
      by (auto simp: find_Some_iff)
    have "q - (?n - ?c) < i" "[?n - ?c..<?n] ! (q - (?n - ?c)) = q" using i(1,2) that assms(3) unfolding e by auto
    with i(1) i(3) [of "q - (?n - ?c)"] that i(2) show ?thesis unfolding e by auto
  qed
qed

section \<open>What a new subscriber starts with\<close>

text \<open>The rings a publisher and its subscribers can produce, with the frames pushed so far.\<close>

inductive ring_run :: "nat \<Rightarrow> ring_buffer \<Rightarrow> av_frame list \<Rightarrow> bool" for capacity :: nat where
  ring_start: "ring_run capacity (ring_new capacity) []"
| ring_pushed: "ring_run capacity r fs \<Longrightarrow> ring_run capacity (fst (ring_push f r)) (fs @ [f])"
| ring_bootstrapped: "ring_run capacity r fs \<Longrightarrow> bp_max_bootstrap_frames policy \<le> length (rg_slots r) \<Longrightarrow>
    ring_run capacity (fst (bootstrap_frames policy r)) fs"

text \<open>The start of the run that a policy chooses.\<close>

lemma bootstrap_run:
  assumes "ring_holds r fs" and "bp_max_bootstrap_frames policy \<le> length (rg_slots r)"
  shows "\<exists>start. length fs - bp_max_bootstrap_frames policy \<le> start \<and> snd (bootstrap_frames policy r) = drop start fs
    \<and> ring_holds (fst (bootstrap_frames policy r)) fs
    \<and> length (rg_slots (fst (bootstrap_frames policy r))) = length (rg_slots r)
    \<and> (\<forall>q. start < q \<longrightarrow> q < length fs \<longrightarrow> \<not> flags_contain (av_flags (fs ! q)) flag_discontinuity)
    \<and> (\<forall>a latest q t. bp_max_bootstrap_age_ms policy = Some a \<longrightarrow> frame_time_ms (last fs) = Some latest \<longrightarrow>
         start \<le> q \<longrightarrow> q < length fs \<longrightarrow> frame_time_ms (fs ! q) = Some t \<longrightarrow> latest - int a \<le> t)
    \<and> (bp_wait_for_next_random_access_point policy \<longrightarrow> start < length fs \<longrightarrow> key_at fs start)
    \<and> (bp_mode policy = Live_Tail \<longrightarrow> bp_wait_for_next_random_access_point policy \<longrightarrow>
         (\<forall>q. start < q \<longrightarrow> q < length fs \<longrightarrow> \<not> key_at fs q))"
proof (cases "bp_mode policy = Bm_None \<or> bp_max_bootstrap_frames policy = 0")
  case True
  with assms(1) show ?thesis by (intro exI [of _ "length fs"]) (auto simp: bootstrap_frames_def)
next
  case False
  let ?n = "length fs" and ?c = "length (rg_slots r)"
  define s0 where "s0 = ?n - bp_max_bootstrap_frames policy"
  define s1 where "s1 = clamp_start_by_max_age r s0 ?n (bp_max_bootstrap_age_ms policy)"
  define s2 where "s2 = clamp_start_by_discontinuity r s1 ?n"
  obtain r' s3 where ra: "clamp_start_by_random_access r s2 ?n policy = (r', s3)" by fastforce
  have b0: "?n - ?c \<le> s0" "s0 \<le> ?n" using assms(2) by (auto simp: s0_def)
  note m = max_age_clamp [OF assms(1) b0, of "bp_max_bootstrap_age_ms policy", folded s1_def]
  have b1: "?n - ?c \<le> s1" "s1 \<le> ?n" using m b0 by auto
  note d = discontinuity_clamp [OF assms(1) b1, folded s2_def]
  have b2: "s2 \<le> ?n" "?n - ?c \<le> s2" using d b1 by auto
  note a = random_access_clamp [OF assms(1) b2 ra]
  have "bootstrap_frames policy r = (r', map fst (List.map_filter (ring_read r) [s3..<?n]))"
    using False by (simp add: bootstrap_frames_def ring_holdsD(2) [OF assms(1)] s0_def [symmetric] s1_def [symmetric]
        s2_def [symmetric] ra a(3) Let_def)
  then have bs: "bootstrap_frames policy r = (r', drop s3 fs)"
    using read_run [OF assms(1), of s3] a(4) b2 by simp
  have le: "s0 \<le> s1" "s1 \<le> s2" "s2 \<le> s3" using m d a(4) by auto
  have age: "latest - int x \<le> t" if "bp_max_bootstrap_age_ms policy = Some x" "frame_time_ms (last fs) = Some latest"
    "s3 \<le> q" "q < ?n" "frame_time_ms (fs ! q) = Some t" for x latest q t
    using m that le by (meson le_trans)
  have disc: "\<not> flags_contain (av_flags (fs ! q)) flag_discontinuity" if "s3 < q" "q < ?n" for q
    using d that le by (meson le_less_trans)
  show ?thesis
    by (intro exI [of _ s3] conjI) (use bs a(1,2,6,7) age disc le False in \<open>auto simp: s0_def\<close>)
qed

lemma ring_run_holds: "ring_run capacity r fs \<Longrightarrow> ring_holds r fs \<and> length (rg_slots r) = length (rg_slots (ring_new capacity))"
proof (induction rule: ring_run.induct)
  case (ring_pushed r fs f)
  have "length (rg_slots (fst (ring_push f r))) = length (rg_slots r)"
    by (simp add: ring_push_def record_idr_def Let_def)
  with ring_pushed ring_push_holds show ?case by simp
next
  case (ring_bootstrapped r fs policy)
  with bootstrap_run [of r fs policy] show ?case by auto
qed (simp add: ring_new_holds)

text \<open>
  C32: A subscriber that joins late starts with an unbroken run of the newest frames. Whatever was pushed and
  whoever joined before, when no policy asks for more frames than the ring has slots, and the operations of the ring
  are not interleaved, the frames it gets, at most as many as its policy allows, are the last ones pushed, up to the
  newest, in order and without gaps; no frame after the first is a discontinuity; where the newest frame and a
  delivered one have a time in milliseconds, the latter is not older than the allowed age before the former; and a
  policy that waits for a random access point starts at a key frame or with nothing, LiveTail at the newest key frame.
\<close>

theorem bootstrap_is_newest_run:
  assumes "ring_run capacity r fs" and "bp_max_bootstrap_frames policy \<le> length (rg_slots r)"
    and "snd (bootstrap_frames policy r) = out"
  shows "\<exists>start. out = drop start fs \<and> length out \<le> bp_max_bootstrap_frames policy
    \<and> (\<forall>f \<in> set (tl out). \<not> flags_contain (av_flags f) flag_discontinuity)
    \<and> (\<forall>a latest. \<forall>f \<in> set out. \<forall>t. bp_max_bootstrap_age_ms policy = Some a \<longrightarrow>
         frame_time_ms (last fs) = Some latest \<longrightarrow> frame_time_ms f = Some t \<longrightarrow> latest - int a \<le> t)
    \<and> (bp_wait_for_next_random_access_point policy \<longrightarrow> out \<noteq> [] \<longrightarrow> flags_contain (av_flags (hd out)) flag_key)
    \<and> (bp_mode policy = Live_Tail \<longrightarrow> bp_wait_for_next_random_access_point policy \<longrightarrow>
         (\<forall>f \<in> set (tl out). \<not> flags_contain (av_flags f) flag_key))"
proof -
  have "ring_holds r fs" using ring_run_holds [OF assms(1)] by simp
  from bootstrap_run [OF this assms(2)] assms(3) obtain start where
    s: "length fs - bp_max_bootstrap_frames policy \<le> start" "out = drop start fs"
    "\<And>q. start < q \<Longrightarrow> q < length fs \<Longrightarrow> \<not> flags_contain (av_flags (fs ! q)) flag_discontinuity"
    "\<And>a latest q t. bp_max_bootstrap_age_ms policy = Some a \<Longrightarrow> frame_time_ms (last fs) = Some latest \<Longrightarrow>
       start \<le> q \<Longrightarrow> q < length fs \<Longrightarrow> frame_time_ms (fs ! q) = Some t \<Longrightarrow> latest - int a \<le> t"
    "bp_wait_for_next_random_access_point policy \<Longrightarrow> start < length fs \<Longrightarrow> key_at fs start"
    "\<And>q. bp_mode policy = Live_Tail \<Longrightarrow> bp_wait_for_next_random_access_point policy \<Longrightarrow> start < q \<Longrightarrow> q < length fs \<Longrightarrow> \<not> key_at fs q"
    by blast
  have el: "\<exists>q. start \<le> q \<and> q < length fs \<and> f = fs ! q" if "f \<in> set out" for f
  proof -
    from that obtain i where "i < length fs - start" "f = fs ! (start + i)" by (auto simp: s(2) in_set_conv_nth)
    then show ?thesis by (intro exI [of _ "start + i"]) auto
  qed
  have tl: "\<exists>q. start < q \<and> q < length fs \<and> f = fs ! q" if "f \<in> set (tl out)" for f
  proof -
    from that obtain i where "i < length fs - start - 1" "f = fs ! (start + Suc i)" by (auto simp: s(2) in_set_conv_nth nth_tl)
    then show ?thesis by (intro exI [of _ "start + Suc i"]) auto
  qed
  have "length out \<le> bp_max_bootstrap_frames policy" using s(1,2) by simp
  moreover have "\<forall>f \<in> set (tl out). \<not> flags_contain (av_flags f) flag_discontinuity" using tl s(3) by blast
  moreover have "\<forall>a latest. \<forall>f \<in> set out. \<forall>t. bp_max_bootstrap_age_ms policy = Some a \<longrightarrow>
         frame_time_ms (last fs) = Some latest \<longrightarrow> frame_time_ms f = Some t \<longrightarrow> latest - int a \<le> t"
    using el s(4) by blast
  moreover have "flags_contain (av_flags (hd out)) flag_key" if "bp_wait_for_next_random_access_point policy" "out \<noteq> []"
    using s(5) that by (simp add: s(2) hd_drop_conv_nth key_at_def)
  moreover have "\<forall>f \<in> set (tl out). \<not> flags_contain (av_flags f) flag_key"
    if "bp_mode policy = Live_Tail" "bp_wait_for_next_random_access_point policy"
    using tl s(6) that unfolding key_at_def by blast
  ultimately show ?thesis using s(2) by blast
qed

definition sample_frame :: "u32 \<Rightarrow> int \<Rightarrow> av_frame" where
  "sample_frame flags ts =
     (av_frame_new (TrackId 1) Video H264 CanonicalH26x ts ts \<lparr>tb_num = 1, tb_den = 1000\<rparr> [])\<lparr>av_flags := flags\<rparr>"

definition pushed :: "av_frame list \<Rightarrow> ring_buffer \<Rightarrow> ring_buffer" where
  "pushed fs r = fold (\<lambda>f r. fst (ring_push f r)) fs r"

lemma pushed_run: "ring_run capacity r fs \<Longrightarrow> ring_run capacity (pushed gs r) (fs @ gs)"
proof (induction gs arbitrary: r fs)
  case (Cons g gs)
  from Cons.IH [OF ring_pushed [OF Cons.prems, of g]] show ?case by (simp add: pushed_def)
qed (simp add: pushed_def)

theorem bootstrap_is_newest_run_witness:
  "\<exists>start. snd (bootstrap_frames (policy_live_tail 4 (Some 1500))
      (pushed [sample_frame 1 0, sample_frame 0 40, sample_frame 1 80, sample_frame 0 120, sample_frame 0 160] (ring_new 4)))
    = drop start [sample_frame 1 0, sample_frame 0 40, sample_frame 1 80, sample_frame 0 120, sample_frame 0 160]"
proof -
  let ?fs = "[sample_frame 1 0, sample_frame 0 40, sample_frame 1 80, sample_frame 0 120, sample_frame 0 160]"
  have run: "ring_run 4 (pushed ?fs (ring_new 4)) ?fs" using pushed_run [OF ring_start, of 4 ?fs] by simp
  have "length (rg_slots (ring_new 4)) = 4" by (simp add: ring_new_def next_power_from.simps Let_def)
  with ring_run_holds [OF run] have "bp_max_bootstrap_frames (policy_live_tail 4 (Some 1500)) \<le> length (rg_slots (pushed ?fs (ring_new 4)))"
    by (simp add: policy_live_tail_def)
  from bootstrap_is_newest_run [OF run this refl] show ?thesis by blast
qed

text \<open>
  The start is not clamped to the positions the ring still has: a policy that asks for more frames than the ring
  holds gets the newest frames twice, and out of order, where no key frame moves the start.
\<close>

lemma bootstrap_beyond_ring_repeats:
  "snd (bootstrap_frames \<lparr>bp_mode = Full_Gop, bp_max_bootstrap_age_ms = None, bp_max_bootstrap_frames = 3,
      bp_wait_for_next_random_access_point = False\<rparr> (pushed [sample_frame 0 0, sample_frame 0 40, sample_frame 0 80] (ring_new 2)))
    = [sample_frame 0 80, sample_frame 0 40, sample_frame 0 80]"
proof -
  define a b c where abc: "a = sample_frame 0 0" "b = sample_frame 0 40" "c = sample_frame 0 80"
  have f: "flags_contain (av_flags x) flag_key = False" "flags_contain (av_flags x) flag_discontinuity = False"
    if "x \<in> {a, b, c}" for x
    using that by (auto simp: abc sample_frame_def flags_contain_def flag_key_def flag_discontinuity_def)
  have n: "next_power_from (Suc 0) 2 = 2" by (simp add: next_power_from.simps)
  have p: "pushed [a, b, c] (ring_new 2) = \<lparr>rg_slots = [\<lparr>sl_frame = Some c, sl_version = 2\<rparr>, \<lparr>sl_frame = Some b, sl_version = 1\<rparr>],
      rg_write_pos = 3, rg_idr_list = []\<rparr>"
  proof -
    have two: "replicate 2 x = [x, x]" for x :: ring_slot by (simp add: numeral_2_eq_2)
    have "ring_new 2 = \<lparr>rg_slots = [\<lparr>sl_frame = None, sl_version = 0\<rparr>, \<lparr>sl_frame = None, sl_version = 0\<rparr>],
        rg_write_pos = 0, rg_idr_list = []\<rparr>"
      by (simp add: ring_new_def n two Let_def)
    then show ?thesis by (simp add: pushed_def ring_push_def f Let_def)
  qed
  have u: "[0..<3] = [0, Suc 0, 2]" by (simp add: upt_rec)
  let ?r = "\<lparr>rg_slots = [\<lparr>sl_frame = Some c, sl_version = 2\<rparr>, \<lparr>sl_frame = Some b, sl_version = 1\<rparr>],
      rg_write_pos = 3, rg_idr_list = []\<rparr>"
  have rd: "ring_read ?r 0 = Some (c, 2)" "ring_read ?r (Suc 0) = Some (b, 1)" "ring_read ?r 2 = Some (c, 2)"
    by (simp_all add: ring_read_def slot_at_def numeral_2_eq_2)
  show ?thesis
    unfolding abc [symmetric] p
    by (simp add: bootstrap_frames_def clamp_start_by_max_age_def clamp_start_by_discontinuity_def
        clamp_start_by_random_access_def prune_idr_nodes_def u f rd [simplified] List.map_filter_simps Let_def)
qed

end
