(* ===== verification/Rust_Strings.thy ===== *)
theory Rust_Strings
  imports Prelude
begin

text \<open>
  The string functions of Rust's standard library that several protocols use. Strings are their UTF-8 bytes,
  one character each; the separators searched for are ASCII, so searching bytes and characters agree.
\<close>

section \<open>Searching and splitting\<close>

fun split_once :: "string \<Rightarrow> string \<Rightarrow> (string \<times> string) option" where
  "split_once pat s =
     (if take (length pat) s = pat then Some ([], drop (length pat) s)
      else case s of [] \<Rightarrow> None | c # cs \<Rightarrow> map_option (\<lambda>(a, b). (c # a, b)) (split_once pat cs))"

declare split_once.simps [simp del]

fun rsplit_once :: "char \<Rightarrow> string \<Rightarrow> (string \<times> string) option" where
  "rsplit_once d [] = None"
| "rsplit_once d (c # cs) =
     (case rsplit_once d cs of
        Some (a, b) \<Rightarrow> Some (c # a, b)
      | None \<Rightarrow> if c = d then Some ([], cs) else None)"

lemma split_once_char:
  "split_once [d] s = (if d \<in> set s then Some (takeWhile (\<lambda>c. c \<noteq> d) s, tl (dropWhile (\<lambda>c. c \<noteq> d) s)) else None)"
  by (induction s) (auto simp: split_once.simps [of "[d]"])

lemma split_once_char_append: "d \<notin> set a \<Longrightarrow> split_once [d] (a @ d # b) = Some (a, b)"
  by (induction a) (auto simp: split_once.simps [of "[d]"])

lemma split_once_char_Some: "split_once [d] s = Some (a, b) \<longleftrightarrow> s = a @ d # b \<and> d \<notin> set a"
  by (induction s arbitrary: a b) (auto simp: split_once.simps [of "[d]"] Cons_eq_append_conv split: if_splits)

lemma rsplit_once_None: "rsplit_once d s = None \<longleftrightarrow> d \<notin> set s"
  by (induction s) (auto split: option.splits prod.splits)

lemma rsplit_once_Some: "rsplit_once d s = Some (a, b) \<longleftrightarrow> s = a @ d # b \<and> d \<notin> set b"
proof (induction s arbitrary: a)
  case (Cons c s)
  show ?case
  proof (cases "rsplit_once d s")
    case None
    then have "d \<notin> set s" by (simp add: rsplit_once_None)
    with None show ?thesis by (cases a) auto
  next
    case (Some ab)
    obtain a' b' where ab: "ab = (a', b')" by (cases ab)
    from Some ab have "d \<in> set s" using rsplit_once_None [of d s] by auto
    with Some ab Cons.IH show ?thesis by (cases a) auto
  qed
qed simp

section \<open>Letters\<close>

definition ascii_lower :: "char \<Rightarrow> char" where
  "ascii_lower c = (let n = of_char c :: nat in if 65 \<le> n \<and> n \<le> 90 then char_of (n + 32) else c)"

definition eq_ignore_ascii_case :: "string \<Rightarrow> string \<Rightarrow> bool" where
  "eq_ignore_ascii_case a b \<longleftrightarrow> map ascii_lower a = map ascii_lower b"

section \<open>Decimal numbers\<close>

definition digit_value :: "char \<Rightarrow> nat" where "digit_value c = of_char c - 48"

definition is_ascii_digit :: "char \<Rightarrow> bool" where
  "is_ascii_digit c \<longleftrightarrow> 48 \<le> (of_char c :: nat) \<and> (of_char c :: nat) \<le> 57"

definition decimal_value :: "string \<Rightarrow> nat" where
  "decimal_value s = foldl (\<lambda>n c. 10 * n + digit_value c) 0 s"

text \<open>\<^verbatim>\<open>{}\<close> of an unsigned integer.\<close>

definition digit_char :: "nat \<Rightarrow> char" where "digit_char n = char_of (48 + n)"

fun decimal :: "nat \<Rightarrow> string" where
  "decimal n = (if n < 10 then [digit_char n] else decimal (n div 10) @ [digit_char (n mod 10)])"

declare decimal.simps [simp del]

lemma digit_char [simp]:
  "n < 10 \<Longrightarrow> digit_value (digit_char n) = n" "n < 10 \<Longrightarrow> is_ascii_digit (digit_char n)"
  by (simp_all add: digit_value_def digit_char_def is_ascii_digit_def of_char_of)

lemma decimal_value_snoc: "decimal_value (s @ [c]) = 10 * decimal_value s + digit_value c"
  by (simp add: decimal_value_def)

lemma decimal_props: "decimal n \<noteq> [] \<and> list_all is_ascii_digit (decimal n) \<and> decimal_value (decimal n) = n"
proof (induction n rule: decimal.induct)
  case (1 n)
  show ?case
  proof (cases "n < 10")
    case True
    then show ?thesis by (subst (1 2 3) decimal.simps) (simp add: decimal_value_def)
  next
    case False
    then show ?thesis using 1
      by (subst (1 2 3) decimal.simps) (simp add: decimal_value_snoc)
  qed
qed

lemma not_digit: "\<not> is_ascii_digit (CHR ''+'')" "\<not> is_ascii_digit (CHR '':'')" "\<not> is_ascii_digit (CHR ''/'')"
  by (simp_all add: is_ascii_digit_def)

text \<open>\<^verbatim>\<open>str::parse\<close> for an unsigned integer of \<open>n\<close> bits: an optional plus sign, then digits, in range.\<close>

definition parse_uint :: "nat \<Rightarrow> string \<Rightarrow> nat option" where
  "parse_uint n s =
     (let ds = (case s of c # cs \<Rightarrow> if c = CHR ''+'' then cs else s | [] \<Rightarrow> []) in
      if ds \<noteq> [] \<and> list_all is_ascii_digit ds \<and> decimal_value ds < 2 ^ n
      then Some (decimal_value ds) else None)"

lemma decimal_head: "\<exists>c cs. decimal k = c # cs \<and> is_ascii_digit c \<and> c \<noteq> CHR ''+''"
proof -
  obtain c cs where d: "decimal k = c # cs" using decimal_props [of k] by (cases "decimal k") auto
  have "is_ascii_digit c" using decimal_props [of k] by (simp add: d)
  then show ?thesis using d not_digit(1) by metis
qed

lemma parse_uint_decimal [simp]: "k < 2 ^ n \<Longrightarrow> parse_uint n (decimal k) = Some k"
  using decimal_head [of k] decimal_props [of k] by (auto simp: parse_uint_def)

lemma decimal_inject [simp]: "decimal a = decimal b \<longleftrightarrow> a = b"
  by (metis decimal_props)

end
