(* ===== verification/Rust_Text.thy ===== *)
theory Rust_Text
  imports Rust_Strings
begin

text \<open>
  Text functions of Rust's standard library: white space, trimming, splitting, case-insensitive comparison,
  hexadecimal and padded numbers. As in \<open>Rust_Strings\<close>, text is its UTF-8 bytes, one character each.
\<close>

section \<open>White space\<close>

text \<open>The characters with the Unicode property White_Space.\<close>

definition ascii_spaces :: "char list" where
  "ascii_spaces = map char_of [9, 10, 11, 12, 13, 32 :: nat]"

definition wide_spaces :: "string list" where
  "wide_spaces = map (map char_of)
     ([[0xC2, 0x85], [0xC2, 0xA0], [0xE1, 0x9A, 0x80]]
      @ map (\<lambda>b. [0xE2, 0x80, b]) [0x80, 0x81, 0x82, 0x83, 0x84, 0x85, 0x86, 0x87, 0x88, 0x89, 0x8A, 0xA8, 0xA9, 0xAF]
      @ [[0xE2, 0x81, 0x9F], [0xE3, 0x80, 0x80 :: nat]])"

definition white_spaces :: "string list" where
  "white_spaces = map (\<lambda>c. [c]) ascii_spaces @ wide_spaces"

definition strip_any :: "string list \<Rightarrow> string \<Rightarrow> string option" where
  "strip_any ws s = map_option (\<lambda>w. drop (length w) s) (find (\<lambda>w. w \<noteq> [] \<and> take (length w) s = w) ws)"

lemma strip_any_shorter: "strip_any ws s = Some s' \<Longrightarrow> length s' < length s"
  by (cases s) (auto simp: strip_any_def find_Some_iff)

function trim_with :: "string list \<Rightarrow> string \<Rightarrow> string" where
  "trim_with ws s = (case strip_any ws s of None \<Rightarrow> s | Some s' \<Rightarrow> trim_with ws s')"
  by pat_completeness auto
termination by (relation "measure (\<lambda>(ws, s). length s)") (auto dest: strip_any_shorter)

declare trim_with.simps [simp del]

definition trim_start :: "string \<Rightarrow> string" where "trim_start s = trim_with white_spaces s"
definition trim_end :: "string \<Rightarrow> string" where "trim_end s = rev (trim_with (map rev white_spaces) (rev s))"
definition trim :: "string \<Rightarrow> string" where "trim s = trim_end (trim_start s)"

lemma trim_with_length: "length (trim_with ws s) \<le> length s"
proof (induction ws s rule: trim_with.induct)
  case (1 ws s)
  then show ?case by (subst trim_with.simps) (force split: option.split dest: strip_any_shorter)
qed

lemma trim_start_length: "length (trim_start s) \<le> length s"
  by (simp add: trim_start_def trim_with_length)

text \<open>On ASCII text only six characters count.\<close>

definition ascii :: "string \<Rightarrow> bool" where "ascii s \<longleftrightarrow> list_all (\<lambda>c. (of_char c :: nat) < 128) s"

definition is_space :: "char \<Rightarrow> bool" where "is_space c \<longleftrightarrow> c \<in> set ascii_spaces"

lemma is_space_iff: "is_space c \<longleftrightarrow> (of_char c :: nat) \<in> {9, 10, 11, 12, 13, 32}"
proof -
  have "c = char_of n \<longleftrightarrow> of_char c = n" if "n < 256" for n :: nat
    using that by (metis char_of_char of_char_of mod_less)
  then show ?thesis by (simp add: is_space_def ascii_spaces_def)
qed

lemma ascii_simps [simp]:
  "ascii []" "ascii (c # s) \<longleftrightarrow> (of_char c :: nat) < 128 \<and> ascii s" "ascii (s @ t) \<longleftrightarrow> ascii s \<and> ascii t"
  "ascii (rev s) \<longleftrightarrow> ascii s"
  by (auto simp: ascii_def list_all_iff)

lemma ascii_dropWhile: "ascii s \<Longrightarrow> ascii (dropWhile P s)"
  by (auto simp: ascii_def list_all_iff dest: set_dropWhileD)

lemma ascii_takeWhile: "ascii s \<Longrightarrow> ascii (takeWhile P s)"
  by (auto simp: ascii_def list_all_iff dest: set_takeWhileD)

lemma strip_any_single:
  "strip_any (map (\<lambda>c. [c]) cs) s = (case s of [] \<Rightarrow> None | c # r \<Rightarrow> if c \<in> set cs then Some r else None)"
  by (induction cs) (auto simp: strip_any_def split: list.splits)

lemma strip_any_append:
  "strip_any (ws @ ws') s = (case strip_any ws s of None \<Rightarrow> strip_any ws' s | Some r \<Rightarrow> Some r)"
  by (induction ws) (auto simp: strip_any_def)

lemma strip_any_wide:
  assumes "ascii s" "\<forall>w \<in> set ws. w \<noteq> [] \<and> \<not> ascii [hd w]"
  shows "strip_any ws s = None"
proof -
  have "take (length w) s \<noteq> w" if "w \<in> set ws" for w
  proof -
    have "w \<noteq> []" "\<not> ascii [hd w]" using that assms(2) by blast+
    with assms(1) show ?thesis by (cases w; cases s) auto
  qed
  then show ?thesis by (auto simp: strip_any_def find_None_iff)
qed

lemma wide_spaces_wide:
  "\<forall>w \<in> set wide_spaces. w \<noteq> [] \<and> \<not> ascii [hd w]"
  "\<forall>w \<in> set (map rev wide_spaces). w \<noteq> [] \<and> \<not> ascii [hd w]"
  by (simp_all add: wide_spaces_def ascii_def)

lemma strip_any_ascii:
  assumes "ascii s"
  shows "strip_any white_spaces s = (case s of [] \<Rightarrow> None | c # cs \<Rightarrow> if is_space c then Some cs else None)"
    "strip_any (map rev white_spaces) s = (case s of [] \<Rightarrow> None | c # cs \<Rightarrow> if is_space c then Some cs else None)"
proof -
  have "map rev white_spaces = map (\<lambda>c. [c]) ascii_spaces @ map rev wide_spaces"
    by (simp add: white_spaces_def comp_def)
  then show "strip_any white_spaces s = (case s of [] \<Rightarrow> None | c # cs \<Rightarrow> if is_space c then Some cs else None)"
    "strip_any (map rev white_spaces) s = (case s of [] \<Rightarrow> None | c # cs \<Rightarrow> if is_space c then Some cs else None)"
    using strip_any_wide [OF assms wide_spaces_wide(1)] strip_any_wide [OF assms wide_spaces_wide(2)]
    by (cases s; simp add: white_spaces_def strip_any_append strip_any_single is_space_def del: map_map)+
qed

lemma trim_with_ascii:
  "ascii s \<Longrightarrow> trim_with white_spaces s = dropWhile is_space s"
  "ascii s \<Longrightarrow> trim_with (map rev white_spaces) s = dropWhile is_space s"
  by (induction s) (simp_all add: trim_with.simps [of white_spaces] trim_with.simps [of "map rev white_spaces"] strip_any_ascii)

lemma trim_ascii:
  assumes "ascii s"
  shows "trim_start s = dropWhile is_space s"
    "trim_end s = rev (dropWhile is_space (rev s))"
    "trim s = rev (dropWhile is_space (rev (dropWhile is_space s)))"
  using assms by (simp_all add: trim_start_def trim_end_def trim_def trim_with_ascii ascii_dropWhile)

text \<open>Text with nothing to trim.\<close>

definition trimmed :: "string \<Rightarrow> bool" where
  "trimmed s \<longleftrightarrow> ascii s \<and> (s \<noteq> [] \<longrightarrow> \<not> is_space (hd s) \<and> \<not> is_space (last s))"

lemma trimmed_ascii: "trimmed s \<Longrightarrow> ascii s"
  by (simp add: trimmed_def)

lemma dropWhile_hd: "s = [] \<or> \<not> P (hd s) \<Longrightarrow> dropWhile P s = s"
  by (cases s) auto

lemma trim_trimmed [simp]: "trimmed s \<Longrightarrow> trim s = s"
  using dropWhile_hd [of s is_space] dropWhile_hd [of "rev s" is_space]
  by (auto simp: trimmed_def trim_ascii hd_rev)

lemma trim_start_trimmed [simp]: "trimmed s \<Longrightarrow> trim_start s = s"
  using dropWhile_hd [of s is_space] by (auto simp: trimmed_def trim_ascii)

lemma is_space_blank [simp]: "is_space (CHR '' '')" "(of_char (CHR '' '') :: nat) < 128"
  by (simp_all add: is_space_iff)

text \<open>Text, ASCII or not, that \<^verbatim>\<open>trim\<close> leaves as it is, also behind a blank.\<close>

lemma strip_any_blank [simp]: "strip_any white_spaces (CHR '' '' # s) = Some s"
  by (simp add: white_spaces_def strip_any_append strip_any_single is_space_blank(1) [unfolded is_space_def])

lemma trim_end_length: "length (trim_end s) \<le> length s"
  using trim_with_length [of _ "rev s"] by (simp add: trim_end_def)

lemma trim_with_suffix: "\<exists>a. s = a @ trim_with ws s"
proof (induction s rule: length_induct)
  case (1 s)
  show ?case
  proof (cases "strip_any ws s")
    case (Some s')
    from strip_any_shorter [OF this] 1 obtain a where "s' = a @ trim_with ws s'" by blast
    moreover from Some obtain n where "s' = drop n s" by (auto simp: strip_any_def)
    ultimately show ?thesis using Some
      by (metis append_assoc append_take_drop_id option.simps(5) trim_with.simps)
  qed (simp add: trim_with.simps)
qed

lemma trim_start_suffix: "\<exists>a. s = a @ trim_start s"
  unfolding trim_start_def by (rule trim_with_suffix)

lemma trim_end_prefix: "\<exists>a. s = trim_end s @ a"
proof -
  obtain a where "rev s = a @ trim_with (map rev white_spaces) (rev s)" using trim_with_suffix by blast
  then have "s = trim_end s @ rev a" by (metis rev_append rev_rev_ident trim_end_def)
  then show ?thesis by blast
qed

lemma strip_any_ascii_head:
  assumes "(of_char c :: nat) < 128"
  shows "strip_any white_spaces (c # s) = (if is_space c then Some s else None)"
proof -
  have "take (length w) (c # s) \<noteq> w" if "w \<in> set wide_spaces" for w
  proof -
    have "w \<noteq> []" "\<not> ascii [hd w]" using that wide_spaces_wide(1) by blast+
    with assms show ?thesis by (cases w) auto
  qed
  then have "strip_any wide_spaces (c # s) = None" by (auto simp: strip_any_def find_None_iff)
  then show ?thesis by (simp add: white_spaces_def strip_any_append strip_any_single is_space_def)
qed

lemma trim_start_head: "(of_char c :: nat) < 128 \<Longrightarrow> \<not> is_space c \<Longrightarrow> trim_start (c # s) = c # s"
  by (simp add: trim_start_def trim_with.simps [of _ "c # s"] strip_any_ascii_head)

text \<open>Trimming twice is trimming once; an ASCII character that is no space stops it on both sides.\<close>

lemma trim_with_stops: "strip_any ws (trim_with ws s) = None"
  by (induction ws s rule: trim_with.induct) (subst trim_with.simps, auto split: option.split)

lemma trim_with_idle_iff: "trim_with ws s = s \<longleftrightarrow> strip_any ws s = None"
  using trim_with_stops [of ws s] by (auto simp: trim_with.simps [of ws s])

lemma take_length_iff: "take (length w) s = w \<longleftrightarrow> (\<exists>r. s = w @ r)"
  by (auto intro: exI [of _ "drop (length w) s"]) (metis append_take_drop_id)

lemma strip_any_prefix: "strip_any ws (s @ t) = None \<Longrightarrow> strip_any ws s = None"
  by (auto simp: strip_any_def find_None_iff take_length_iff)

lemma trim_trim [simp]: "trim (trim s) = trim s"
proof -
  let ?t = "trim_start s"
  have t: "strip_any white_spaces ?t = None" by (simp add: trim_start_def trim_with_stops)
  obtain a where "?t = trim_end ?t @ a" using trim_end_prefix by blast
  with t have "strip_any white_spaces (trim_end ?t) = None" by (metis strip_any_prefix)
  then have "trim_start (trim_end ?t) = trim_end ?t" by (simp add: trim_start_def trim_with_idle_iff)
  moreover have "trim_end (trim_end ?t) = trim_end ?t"
    by (simp add: trim_end_def trim_with_idle_iff trim_with_stops)
  ultimately show ?thesis by (simp add: trim_def)
qed

lemma spaces_plain:
  "(of_char c :: nat) < 128 \<Longrightarrow> \<not> is_space c \<Longrightarrow> w \<in> set white_spaces \<Longrightarrow> c \<notin> set w"
  by (auto simp: white_spaces_def is_space_def wide_spaces_def of_char_of)

lemma strip_any_stop:
  assumes c: "\<forall>w \<in> set ws. c \<notin> set w"
  shows "strip_any ws (s @ c # t) = map_option (\<lambda>r. r @ c # t) (strip_any ws s)"
proof -
  have *: "take (length w) (s @ c # t) = w \<longleftrightarrow> take (length w) s = w" if "w \<in> set ws" for w
  proof
    assume "take (length w) (s @ c # t) = w"
    then obtain r where "s @ c # t = w @ r" unfolding take_length_iff by blast
    then obtain us where "s = w @ us \<or> s @ us = w \<and> c # t = us @ r" by (auto simp: append_eq_append_conv2)
    moreover have "c \<notin> set us" if "s @ us = w" for us using c \<open>w \<in> set ws\<close> that by auto
    ultimately show "take (length w) s = w" by (cases us) auto
  next
    assume "take (length w) s = w"
    then show "take (length w) (s @ c # t) = w" unfolding take_length_iff by auto
  qed
  have "find (\<lambda>w. w \<noteq> [] \<and> take (length w) (s @ c # t) = w) ws = find (\<lambda>w. w \<noteq> [] \<and> take (length w) s = w) ws"
    by (rule find_cong [OF refl]) (use * in blast)
  moreover have "length w \<le> length s" if "find (\<lambda>w. w \<noteq> [] \<and> take (length w) s = w) ws = Some w" for w
    using that by (auto simp: find_Some_iff take_length_iff)
  ultimately show ?thesis by (cases "find (\<lambda>w. w \<noteq> [] \<and> take (length w) s = w) ws") (auto simp: strip_any_def)
qed

lemma trim_with_stop:
  "\<forall>w \<in> set ws. c \<notin> set w \<Longrightarrow> trim_with ws (s @ c # t) = trim_with ws s @ c # t"
proof (induction ws s rule: trim_with.induct)
  case (1 ws s)
  show ?case
  proof (cases "strip_any ws s")
    case None
    then show ?thesis
      by (simp add: trim_with.simps [of ws s] trim_with.simps [of ws "s @ c # t"] strip_any_stop [OF 1(2)])
  next
    case (Some s')
    with 1 show ?thesis
      by (simp add: trim_with.simps [of ws s] trim_with.simps [of ws "s @ c # t"] strip_any_stop [OF 1(2)])
  qed
qed

lemma trim_around:
  assumes "(of_char c :: nat) < 128" "\<not> is_space c"
  shows "trim_start (s @ c # t) = trim_start s @ c # t" "trim_end (s @ c # t) = s @ c # trim_end t"
    "trim (s @ c # t) = trim_start s @ c # trim_end t"
proof -
  have c: "\<forall>w \<in> set white_spaces. c \<notin> set w" "\<forall>w \<in> set (map rev white_spaces). c \<notin> set w"
    using spaces_plain [OF assms] by auto
  show s: "trim_start (s @ c # t) = trim_start s @ c # t" for s
    by (simp add: trim_start_def trim_with_stop [OF c(1)])
  show e: "trim_end (s @ c # t) = s @ c # trim_end t" for s
    by (simp add: trim_end_def trim_with_stop [OF c(2)])
  show "trim (s @ c # t) = trim_start s @ c # trim_end t" by (simp add: trim_def s e)
qed

text \<open>The first character of a trimmed text that begins with a letter.\<close>

lemma trim_head:
  assumes "(of_char c :: nat) < 128" "\<not> is_space c"
  shows "trim (c # s) = [] \<or> hd (trim (c # s)) = c"
proof -
  obtain a where "c # s = trim_end (c # s) @ a" using trim_end_prefix by blast
  with assms show ?thesis by (cases "trim_end (c # s)") (auto simp: trim_def trim_start_head)
qed

text \<open>A word with a blank behind it, trimmed, is the word or still has a blank.\<close>

lemma trim_word_blank:
  assumes "ascii w" "w \<noteq> []" "\<not> list_ex is_space w" "ascii s"
  shows "trim (w @ CHR '' '' # s) = w \<or> CHR '' '' \<in> set (trim (w @ CHR '' '' # s))"
proof -
  have hd: "\<not> is_space (hd w)" "\<not> is_space (last w)" using assms by (auto simp: list_ex_iff)
  have "trim (w @ CHR '' '' # s) = rev (dropWhile is_space (rev s @ CHR '' '' # rev w))"
    using assms hd by (cases w) (simp_all add: trim_ascii)
  moreover have "dropWhile is_space (rev w) = rev w" using hd assms(2) by (intro dropWhile_hd) (simp add: hd_rev)
  moreover have "dropWhile is_space (rev s @ t) = dropWhile is_space (rev s) @ t" if "\<not> list_all is_space s" for t
    using that by (auto simp: list_all_iff dropWhile_append)
  moreover have "dropWhile is_space (rev s @ t) = dropWhile is_space t" if "list_all is_space s" for t
    using that by (intro dropWhile_append2) (simp add: list_all_iff)
  ultimately show ?thesis by (cases "list_all is_space s") simp_all
qed

lemma trim_idle:
  assumes "trim s = s"
  shows "trim_start s = s" "trim (CHR '' '' # s) = s"
proof -
  obtain a where a: "s = a @ trim_start s" using trim_start_suffix by blast
  have "length s \<le> length (trim_start s)" using trim_end_length [of "trim_start s"] assms by (simp add: trim_def)
  moreover have "length s = length a + length (trim_start s)" by (subst a) simp
  ultimately show s: "trim_start s = s" using a by simp
  then have "trim_start (CHR '' '' # s) = s" by (simp add: trim_start_def trim_with.simps [of _ "CHR '' '' # s"])
  with s assms show "trim (CHR '' '' # s) = s" by (simp add: trim_def)
qed

lemma trim_blank_before [simp]: "trimmed s \<Longrightarrow> trim (CHR '' '' # s) = s"
  by (simp add: trim_idle(2))

section \<open>Splitting\<close>

text \<open>\<^verbatim>\<open>str::split\<close> with a pattern that is not empty, and \<^verbatim>\<open>split_whitespace\<close>.\<close>

lemma split_once_shorter: "pat \<noteq> [] \<Longrightarrow> split_once pat s = Some (a, b) \<Longrightarrow> length b < length s"
proof (induction s arbitrary: a)
  case Nil
  then show ?case by (simp add: split_once.simps [of pat])
next
  case (Cons c s)
  show ?case
  proof (cases "take (length pat) (c # s) = pat")
    case True
    with Cons.prems show ?thesis by (cases pat) (auto simp: split_once.simps [of _ "c # s"])
  next
    case False
    with Cons.prems Cons.IH show ?thesis by (force simp: split_once.simps [of pat "c # s"])
  qed
qed

function split_str :: "string \<Rightarrow> string \<Rightarrow> string list" where
  "split_str pat s =
     (if pat = [] then [s] else case split_once pat s of None \<Rightarrow> [s] | Some (a, b) \<Rightarrow> a # split_str pat b)"
  by pat_completeness auto
termination by (relation "measure (\<lambda>(pat, s). length s)") (auto dest: split_once_shorter)

declare split_str.simps [simp del]

lemma split_str_not_Nil [simp]: "split_str pat s \<noteq> []"
  by (simp add: split_str.simps [of pat s] split: option.split)

text \<open>\<^verbatim>\<open>join\<close>.\<close>

fun join :: "string \<Rightarrow> string list \<Rightarrow> string" where
  "join sep [] = []"
| "join sep [x] = x"
| "join sep (x # y # xs) = x @ sep @ join sep (y # xs)"

text \<open>A pattern whose first character does not occur in the text before it.\<close>

lemma split_once_at:
  "p \<notin> set a \<Longrightarrow> split_once (p # ps) (a @ p # ps @ s) = Some (a, s)"
  by (induction a) (auto simp: split_once.simps [of "p # ps"])

lemma split_once_absent: "p \<notin> set s \<Longrightarrow> split_once (p # ps) s = None"
  by (induction s) (auto simp: split_once.simps [of "p # ps"])

lemma split_str_at: "p \<notin> set a \<Longrightarrow> split_str (p # ps) (a @ p # ps @ s) = a # split_str (p # ps) s"
  by (simp add: split_str.simps [of "p # ps" "a @ p # ps @ s"] split_once_at)

lemma split_str_absent: "p \<notin> set s \<Longrightarrow> split_str (p # ps) s = [s]"
  by (simp add: split_str.simps [of "p # ps" s] split_once_absent)

lemma split_join:
  "xs \<noteq> [] \<Longrightarrow> \<forall>x \<in> set xs. p \<notin> set x \<Longrightarrow> split_str (p # ps) (join (p # ps) xs) = xs"
  by (induction "p # ps" xs rule: join.induct) (simp_all add: split_str_absent split_str_at)

function break_space :: "string \<Rightarrow> string \<times> string" where
  "break_space s =
     (case strip_any white_spaces s of
        Some _ \<Rightarrow> ([], s)
      | None \<Rightarrow> (case s of [] \<Rightarrow> ([], []) | c # cs \<Rightarrow> (case break_space cs of (a, b) \<Rightarrow> (c # a, b))))"
  by pat_completeness auto
termination by (relation "measure length") auto

declare break_space.simps [simp del]

lemma break_space_length: "length (snd (break_space s)) \<le> length s"
proof (induction s)
  case (Cons c s)
  then show ?case by (subst break_space.simps) (auto split: option.split prod.split)
qed (simp add: break_space.simps split: option.split)

function split_whitespace :: "string \<Rightarrow> string list" where
  "split_whitespace s =
     (case trim_start s of
        [] \<Rightarrow> []
      | c # cs \<Rightarrow> (case break_space cs of (a, b) \<Rightarrow> (c # a) # split_whitespace b))"
  by pat_completeness auto
termination
proof (relation "measure length")
  fix s c cs a b
  assume t: "trim_start s = c # cs" "(a, b) = break_space cs"
  have "length b \<le> length cs" using break_space_length [of cs] t(2) by (cases "break_space cs") simp
  moreover have "Suc (length cs) \<le> length s" using trim_start_length [of s] t(1) by simp
  ultimately show "(b, s) \<in> measure length" by simp
qed simp

declare split_whitespace.simps [simp del]

lemma break_space_word:
  "ascii a \<Longrightarrow> \<not> list_ex is_space a \<Longrightarrow> ascii s \<Longrightarrow> s = [] \<or> is_space (hd s) \<Longrightarrow> break_space (a @ s) = (a, s)"
proof (induction a)
  case Nil
  then show ?case by (cases s) (auto simp: break_space.simps strip_any_ascii split: option.split)
next
  case (Cons c a)
  then show ?case by (subst break_space.simps) (auto simp: strip_any_ascii split: list.split)
qed

lemma split_whitespace_word:
  assumes "ascii w" "w \<noteq> []" "\<not> list_ex is_space w" "ascii s" "s = [] \<or> is_space (hd s)"
  shows "split_whitespace (w @ s) = w # split_whitespace s"
proof -
  obtain c cs where w: "w = c # cs" using assms(2) by (cases w) auto
  have "trim_start (w @ s) = w @ s" using assms by (simp add: trim_ascii w)
  moreover have "break_space (cs @ s) = (cs, s)" using assms by (intro break_space_word) (auto simp: w)
  ultimately show ?thesis by (subst split_whitespace.simps) (simp add: w)
qed

lemma split_whitespace_blank: "ascii s \<Longrightarrow> split_whitespace (CHR '' '' # s) = split_whitespace s"
  using split_whitespace.simps [of "CHR '' '' # s"] split_whitespace.simps [of s] by (simp add: trim_ascii)

lemma split_whitespace_Nil [simp]: "split_whitespace [] = []"
  by (simp add: split_whitespace.simps trim_ascii)

section \<open>Letters and numbers\<close>

definition starts_with_str :: "string \<Rightarrow> string \<Rightarrow> bool" where
  "starts_with_str pat s \<longleftrightarrow> take (length pat) s = pat"

definition strip_prefix :: "string \<Rightarrow> string \<Rightarrow> string option" where
  "strip_prefix pat s = (if starts_with_str pat s then Some (drop (length pat) s) else None)"

lemma strip_prefix_append [simp]: "strip_prefix pat (pat @ s) = Some s"
  by (simp add: strip_prefix_def starts_with_str_def)

lemma starts_with_str_iff: "starts_with_str pat s \<longleftrightarrow> (\<exists>r. s = pat @ r)"
  by (auto simp: starts_with_str_def intro: exI [of _ "drop (length pat) s"]) (metis append_take_drop_id)

text \<open>A number padded with zeros, \<^verbatim>\<open>{:02}\<close>.\<close>

definition pad2 :: "nat \<Rightarrow> string" where
  "pad2 n = (if n < 10 then CHR ''0'' # decimal n else decimal n)"

lemma digits_ascii: "list_all is_ascii_digit s \<Longrightarrow> ascii s \<and> \<not> list_ex is_space s"
  by (induction s) (auto simp: is_ascii_digit_def is_space_iff)

lemma decimal_ascii [simp]: "ascii (decimal n)" "decimal n \<noteq> []"
  using decimal_props [of n] digits_ascii by auto

lemma digits_trimmed: "list_all is_ascii_digit s \<Longrightarrow> trimmed s"
  using digits_ascii [of s] by (auto simp: trimmed_def list_ex_iff)

lemma decimal_trimmed [simp]: "trimmed (decimal n)"
  using decimal_props [of n] digits_trimmed by blast

lemma decimal_char: "d \<in> set (decimal n) \<Longrightarrow> is_ascii_digit d"
  using decimal_props [of n] by (auto simp: list_all_iff)

lemma not_in_decimal: "\<not> is_ascii_digit c \<Longrightarrow> c \<notin> set (decimal n)"
  using decimal_char by blast

section \<open>Hexadecimal numbers\<close>

text \<open>\<^verbatim>\<open>from_str_radix(_, 16)\<close>: an optional plus sign, then hexadecimal digits of either case, in range.\<close>

definition hex_digit :: "char \<Rightarrow> nat option" where
  "hex_digit c =
     (let n = of_char c :: nat in
      if 48 \<le> n \<and> n \<le> 57 then Some (n - 48)
      else if 65 \<le> n \<and> n \<le> 70 then Some (n - 55)
      else if 97 \<le> n \<and> n \<le> 102 then Some (n - 87)
      else None)"

definition hex_value :: "string \<Rightarrow> nat" where
  "hex_value s = foldl (\<lambda>n c. 16 * n + the (hex_digit c)) 0 s"

definition parse_hex :: "nat \<Rightarrow> string \<Rightarrow> nat option" where
  "parse_hex n s =
     (let ds = (case s of c # cs \<Rightarrow> if c = CHR ''+'' then cs else s | [] \<Rightarrow> []) in
      if ds \<noteq> [] \<and> list_all (\<lambda>c. hex_digit c \<noteq> None) ds \<and> hex_value ds < 2 ^ n
      then Some (hex_value ds) else None)"

text \<open>\<^verbatim>\<open>{:0kX}\<close> of a number below \<open>16 ^ k\<close>.\<close>

definition hex_char :: "nat \<Rightarrow> char" where
  "hex_char n = (if n < 10 then char_of (48 + n) else char_of (55 + n))"

fun hex_pad :: "nat \<Rightarrow> nat \<Rightarrow> string" where
  "hex_pad 0 n = []"
| "hex_pad (Suc k) n = hex_pad k (n div 16) @ [hex_char (n mod 16)]"

lemma hex_char [simp]: "n < 16 \<Longrightarrow> hex_digit (hex_char n) = Some n"
  by (auto simp: hex_digit_def hex_char_def of_char_of)

lemma hex_pad_digits: "c \<in> set (hex_pad k n) \<Longrightarrow> \<exists>m < 16. c = hex_char m"
proof (induction k arbitrary: n)
  case (Suc k)
  then consider "c \<in> set (hex_pad k (n div 16))" | "c = hex_char (n mod 16)" by auto
  then show ?case
  proof cases
    case 2
    have "n mod 16 < 16" by simp
    with 2 show ?thesis by blast
  qed (rule Suc.IH)
qed simp

lemma hex_value_pad: "hex_value (hex_pad k n) = n mod 16 ^ k"
proof (induction k arbitrary: n)
  case (Suc k)
  have "hex_value (hex_pad (Suc k) n) = 16 * hex_value (hex_pad k (n div 16)) + n mod 16"
    by (simp add: hex_value_def)
  also have "\<dots> = n mod 16 ^ Suc k" by (simp add: Suc mod_mult2_eq)
  finally show ?case .
qed (simp add: hex_value_def)

lemma hex_pad_code:
  assumes "c \<in> set (hex_pad k n)"
  shows "48 \<le> (of_char c :: nat) \<and> (of_char c :: nat) \<le> 57 \<or> 65 \<le> (of_char c :: nat) \<and> (of_char c :: nat) \<le> 70"
proof -
  obtain m where m: "m < 16" "c = hex_char m" using hex_pad_digits [OF assms] by blast
  then have "of_char c = (if m < 10 then 48 + m else 55 + m :: nat)" by (simp add: hex_char_def of_char_of)
  with m(1) show ?thesis by (cases "m < 10") simp_all
qed

lemma hex_pad_trimmed: "trimmed (hex_pad k n)"
proof -
  have *: "(of_char c :: nat) < 128 \<and> \<not> is_space c" if "c \<in> set (hex_pad k n)" for c
    using hex_pad_code [OF that] by (auto simp: is_space_iff)
  then show ?thesis
    by (cases "hex_pad k n = []") (simp_all add: trimmed_def ascii_def list_all_iff)
qed

lemma not_in_hex_pad:
  "\<not> (48 \<le> (of_char c :: nat) \<and> (of_char c :: nat) \<le> 57 \<or> 65 \<le> (of_char c :: nat) \<and> (of_char c :: nat) \<le> 70)
     \<Longrightarrow> c \<notin> set (hex_pad k n)"
  using hex_pad_code by blast

lemma parse_hex_pad:
  assumes k: "0 < k" "n < 16 ^ k" "n < 2 ^ b"
  shows "parse_hex b (hex_pad k n) = Some n"
proof -
  have p: "CHR ''+'' \<notin> set (hex_pad k n)" by (rule not_in_hex_pad) simp
  have ne: "hex_pad k n \<noteq> []" using k(1) by (cases k) simp_all
  then have "(case hex_pad k n of [] \<Rightarrow> [] | c # cs \<Rightarrow> if c = CHR ''+'' then cs else hex_pad k n) = hex_pad k n"
    using p by (auto split: list.split)
  moreover have "hex_digit c \<noteq> None" if "c \<in> set (hex_pad k n)" for c
    using hex_pad_digits [OF that] by auto
  then have "list_all (\<lambda>c. hex_digit c \<noteq> None) (hex_pad k n)" by (simp only: list_all_iff) blast
  moreover have "hex_value (hex_pad k n) = n" using k(2) by (simp add: hex_value_pad)
  ultimately show ?thesis unfolding parse_hex_def Let_def using ne k(3) by simp
qed

end
