(* ===== verification/Media_Ids.thy ===== *)
theory Media_Ids
  imports Rust_Text
begin

text \<open>
  The names of streams: the stream keys of the engine (\<^verbatim>\<open>src/crates/sdk/cheetah-sdk/src/ids.rs\<close>) and the media keys
  of the control plane (\<^verbatim>\<open>src/crates/sdk/cheetah-media-api/src/ids.rs\<close>), and the bridge between them. An
  invalid-argument error is its message.
\<close>

datatype media_schema = Sch_Rtsp | Sch_Rtmp | Sch_Http_Flv | Sch_Hls | Sch_Webrtc | Sch_Ts | Sch_Fmp4 | Sch_Srt | Sch_Rtp

definition schema_parse :: "string \<Rightarrow> string + media_schema" where
  "schema_parse s =
     (let l = map ascii_lower s in
      if l = ''rtsp'' then Inr Sch_Rtsp
      else if l = ''rtmp'' then Inr Sch_Rtmp
      else if l \<in> {''http-flv'', ''http_flv'', ''flv''} then Inr Sch_Http_Flv
      else if l = ''hls'' then Inr Sch_Hls
      else if l \<in> {''webrtc'', ''rtc''} then Inr Sch_Webrtc
      else if l = ''ts'' then Inr Sch_Ts
      else if l = ''fmp4'' then Inr Sch_Fmp4
      else if l = ''srt'' then Inr Sch_Srt
      else if l = ''rtp'' then Inr Sch_Rtp
      else Inl (''unknown schema: '' @ l))"

fun schema_show :: "media_schema \<Rightarrow> string" where
  "schema_show Sch_Rtsp = ''rtsp''"
| "schema_show Sch_Rtmp = ''rtmp''"
| "schema_show Sch_Http_Flv = ''http-flv''"
| "schema_show Sch_Hls = ''hls''"
| "schema_show Sch_Webrtc = ''webrtc''"
| "schema_show Sch_Ts = ''ts''"
| "schema_show Sch_Fmp4 = ''fmp4''"
| "schema_show Sch_Srt = ''srt''"
| "schema_show Sch_Rtp = ''rtp''"

definition default_vhost :: string where
  "default_vhost = ''__defaultVhost__''"

text \<open>\<^verbatim>\<open>VhostName::new\<close>, \<^verbatim>\<open>AppName::new\<close>, \<^verbatim>\<open>StreamName::new\<close>, with the name of the field in the message.\<close>

definition name_new :: "string \<Rightarrow> string \<Rightarrow> string + string" where
  "name_new what s =
     (if s = [] then Inl (what @ '' must be non-empty'')
      else if CHR ''/'' \<in> set s \<or> CHR 0x5C \<in> set s then Inl (what @ '' must not contain path separators'')
      else Inr s)"

record media_key =
  mk_vhost :: string
  mk_app :: string
  mk_stream :: string
  mk_schema :: "media_schema option"

definition media_key_new :: "string \<Rightarrow> string \<Rightarrow> string \<Rightarrow> media_schema option \<Rightarrow> string + media_key" where
  "media_key_new vhost app stream schema =
     sbind (name_new ''vhost'' vhost) (\<lambda>v. sbind (name_new ''app'' app) (\<lambda>a. sbind (name_new ''stream'' stream) (\<lambda>s.
       Inr \<lparr>mk_vhost = v, mk_app = a, mk_stream = s, mk_schema = schema\<rparr>)))"

definition with_default_vhost :: "string \<Rightarrow> string \<Rightarrow> media_schema option \<Rightarrow> string + media_key" where
  "with_default_vhost app stream schema = media_key_new default_vhost app stream schema"

definition without_schema :: "media_key \<Rightarrow> media_key" where
  "without_schema k = k\<lparr>mk_schema := None\<rparr>"

definition to_canonical :: "media_key \<Rightarrow> string" where
  "to_canonical k =
     mk_vhost k @ ''/'' @ mk_app k @ ''/'' @ mk_stream k
     @ (case mk_schema k of None \<Rightarrow> [] | Some s \<Rightarrow> ''?schema='' @ schema_show s)"

record stream_key =
  sy_namespace :: string
  sy_path :: string

definition stream_key_show :: "stream_key \<Rightarrow> string" where
  "stream_key_show k = sy_namespace k @ ''/'' @ sy_path k"

definition to_namespace_path :: "media_key \<Rightarrow> string \<times> string" where
  "to_namespace_path k =
     (if mk_vhost k = default_vhost then mk_app k else mk_vhost k @ ''#'' @ mk_app k, mk_stream k)"

text \<open>\<^verbatim>\<open>splitn(2, '#')\<close> has two parts when there is a \<open>#\<close>.\<close>

definition from_namespace_path :: "string \<Rightarrow> string \<Rightarrow> string + media_key" where
  "from_namespace_path namespace path =
     (case split_once ''#'' namespace of
        Some (v, a) \<Rightarrow> media_key_new v a path None
      | None \<Rightarrow> with_default_vhost namespace path None)"

text \<open>The media key of a stream in the events of the engine, whatever its key is.\<close>

definition media_key_for :: "stream_key \<Rightarrow> media_key" where
  "media_key_for k =
     (case from_namespace_path (sy_namespace k) (sy_path k) of
        Inr mk \<Rightarrow> mk
      | Inl _ \<Rightarrow> \<lparr>mk_vhost = default_vhost, mk_app = sy_namespace k, mk_stream = sy_path k, mk_schema = None\<rparr>)"

section \<open>The bridge\<close>

definition name_ok :: "string \<Rightarrow> bool" where
  "name_ok s \<longleftrightarrow> s \<noteq> [] \<and> CHR ''/'' \<notin> set s \<and> CHR 0x5C \<notin> set s"

lemma name_new_ok: "name_new what s = Inr t \<longleftrightarrow> name_ok s \<and> t = s"
  by (auto simp: name_new_def name_ok_def)

lemma default_vhost_ok: "name_ok default_vhost" "CHR ''#'' \<notin> set default_vhost"
  by (simp_all add: name_ok_def default_vhost_def)

lemma media_key_new_ok:
  "media_key_new v a s schema = Inr k \<longleftrightarrow>
     name_ok v \<and> name_ok a \<and> name_ok s \<and> k = \<lparr>mk_vhost = v, mk_app = a, mk_stream = s, mk_schema = schema\<rparr>"
  by (auto simp: media_key_new_def sbind_eq_Inr_iff name_new_ok)

text \<open>
  The bridge is reversible for the keys without a \<open>#\<close> in the virtual host, and none in the application of the
  default host.
\<close>

lemma bridge_roundtrip:
  assumes "media_key_new v a s schema = Inr k" and "CHR ''#'' \<notin> set v"
    and "v = default_vhost \<Longrightarrow> CHR ''#'' \<notin> set a"
  shows "from_namespace_path (fst (to_namespace_path k)) (snd (to_namespace_path k)) = Inr (without_schema k)"
proof -
  have k: "name_ok v" "name_ok a" "name_ok s" "k = \<lparr>mk_vhost = v, mk_app = a, mk_stream = s, mk_schema = schema\<rparr>"
    using assms(1) unfolding media_key_new_ok by auto
  have n: "\<And>v a s. name_ok v \<Longrightarrow> name_ok a \<Longrightarrow> name_ok s \<Longrightarrow>
      media_key_new v a s None = Inr \<lparr>mk_vhost = v, mk_app = a, mk_stream = s, mk_schema = None\<rparr>"
    unfolding media_key_new_ok by simp
  show ?thesis
  proof (cases "v = default_vhost")
    case True
    then show ?thesis using assms(3) k n default_vhost_ok
      by (simp add: to_namespace_path_def from_namespace_path_def with_default_vhost_def without_schema_def split_once_absent)
  next
    case False
    then show ?thesis using assms(2) k n split_once_char_append [of "CHR ''#''" v a]
      by (simp add: to_namespace_path_def from_namespace_path_def without_schema_def)
  qed
qed

text \<open>A key with a \<open>#\<close> in its application comes back as another one, and two keys share one stream.\<close>

lemma bridge_confuses_keys:
  "\<exists>k l. media_key_new default_vhost ''a#b'' ''s'' None = Inr k \<and> media_key_new ''a'' ''b'' ''s'' None = Inr l
    \<and> k \<noteq> l \<and> to_namespace_path k = to_namespace_path l"
proof -
  have n: "name_ok ''a#b''" "name_ok ''a''" "name_ok ''b''" "name_ok ''s''" "''a'' \<noteq> default_vhost"
    by (simp_all add: name_ok_def default_vhost_def)
  show ?thesis
    unfolding media_key_new_ok using n default_vhost_ok(1) by (simp add: to_namespace_path_def)
qed

end
