(* ===== verification/Engine_Streams.thy ===== *)
theory Engine_Streams
  imports Engine_Dispatch Media_Ids
begin

text \<open>
  The stream manager of the engine (\<^verbatim>\<open>src/crates/system/cheetah-engine/src/stream.rs\<close>): streams by key, the lease
  of the one publisher of a stream, its subscribers, the events on both buses, and the handles given out. An
  entry is shared by the map and by handles, so entries live in a store under their stream id, which is never
  used twice; the map of streams is an association list. Counters do not wrap in any run. Each operation is atomic;
  \<open>acquire_publisher\<close>, \<open>push_frame\<close> and \<open>subscribe\<close> are composed of two steps each, which can also be interleaved.
  The channels of tokio are parameters: \<open>ops\<close> for the queues of frames, \<open>jobs\<close> for those of the pool.
\<close>

section \<open>State\<close>

datatype sdk_error =
  Sdk_Not_Found string | Sdk_Already_Exists string | Sdk_Invalid_Argument string | Sdk_Conflict string
| Sdk_Unavailable string | Sdk_Internal string

datatype stream_event_kind = Publisher_Opened | Subscriber_Opened | Subscriber_Closed | Stream_Closed | Frame_Dropped

record stream_event =
  ev_stream_key :: string
  ev_kind :: stream_event_kind
  ev_stream_id :: "nat option"
  ev_subscriber_id :: "nat option"
  ev_dispatch_result :: "dispatch_result option"
  ev_message :: "string option"

datatype online_state = Online | Offline | Online_Unknown

datatype media_close_reason =
  Close_Normal | Close_Timeout | Close_Kicked | Close_Idle | Close_Error | Close_Unsupported | Close_Other string

text \<open>Media events with the media key and the session id of their header; its random id and its time are left out.\<close>

datatype media_event =
  Media_Published media_key string string "string option"
| Media_Unpublished media_key string media_close_reason
| Media_Online_Changed media_key online_state "media_schema option"

record publisher_options =
  po_announce_tracks :: bool
  po_protocol :: string
  po_remote_endpoint :: "string option"

record 'c stream_entry =
  se_stream_id :: nat
  se_ring :: ring_buffer
  se_dispatcher :: "'c dispatcher"
  se_tracks :: "track_info list"
  se_lane :: "nat option"
  se_active_lease :: nat
  se_keyframe_requests :: nat
  se_last_no_subscriber_micros :: nat
  se_protocol :: string
  se_remote_endpoint :: "string option"
  se_published :: bool
  se_online :: bool

definition stream_entry_new :: "nat \<Rightarrow> nat \<Rightarrow> nat option \<Rightarrow> 'c stream_entry" where
  "stream_entry_new stream_id ring_capacity lane =
     \<lparr>se_stream_id = stream_id, se_ring = ring_new ring_capacity, se_dispatcher = dispatcher_new, se_tracks = [],
      se_lane = lane, se_active_lease = 0, se_keyframe_requests = 0, se_last_no_subscriber_micros = 0,
      se_protocol = [], se_remote_endpoint = None, se_published = False, se_online = False\<rparr>"

text \<open>
  The shared pool, where there is one, is its lanes: the channel of jobs of each worker, an entry and a frame
  each. Its workers live as long as the manager.
\<close>

record ('c, 'q) manager =
  mg_ring_capacity :: nat
  mg_pool :: "'q list option"
  mg_next_stream_id :: nat
  mg_next_lease_id :: nat
  mg_streams :: "(stream_key \<times> nat) list"
  mg_entries :: "nat \<Rightarrow> 'c stream_entry option"
  mg_event_bus :: "stream_event list option"
  mg_media_event_bus :: "media_event list option"

definition manager_new :: "(nat \<times> av_frame, 'q) chan_ops \<Rightarrow> nat option \<Rightarrow> nat \<Rightarrow> ('c, 'q) manager" where
  "manager_new jobs workers ring_capacity =
     \<lparr>mg_ring_capacity = max ring_capacity 128, mg_pool = map_option (\<lambda>n. replicate (max n 1) (chan_new jobs 2048)) workers,
      mg_next_stream_id = 0, mg_next_lease_id = 0, mg_streams = [], mg_entries = (\<lambda>_. None),
      mg_event_bus = None, mg_media_event_bus = None\<rparr>"

definition set_event_bus :: "('c, 'q) manager \<Rightarrow> ('c, 'q) manager" where
  "set_event_bus m = m\<lparr>mg_event_bus := Some []\<rparr>"

definition set_media_event_bus :: "('c, 'q) manager \<Rightarrow> ('c, 'q) manager" where
  "set_media_event_bus m = m\<lparr>mg_media_event_bus := Some []\<rparr>"

text \<open>An entry is written back; entries are never removed from the store.\<close>

definition put_entry :: "nat \<Rightarrow> 'c stream_entry \<Rightarrow> ('c, 'q) manager \<Rightarrow> ('c, 'q) manager" where
  "put_entry eid e m = m\<lparr>mg_entries := (mg_entries m)(eid \<mapsto> e)\<rparr>"

definition entry_at :: "('c, 'q) manager \<Rightarrow> nat \<Rightarrow> 'c stream_entry" where
  "entry_at m eid = (case mg_entries m eid of Some e \<Rightarrow> e | None \<Rightarrow> stream_entry_new eid (mg_ring_capacity m) None)"

section \<open>Events\<close>

definition publish_stream_event ::
  "stream_key \<Rightarrow> stream_event_kind \<Rightarrow> nat option \<Rightarrow> nat option \<Rightarrow> dispatch_result option \<Rightarrow> string option \<Rightarrow> ('c, 'q) manager \<Rightarrow> ('c, 'q) manager"
where
  "publish_stream_event key kind stream_id subscriber_id result message m =
     m\<lparr>mg_event_bus := map_option (\<lambda>l. l @ [\<lparr>ev_stream_key = stream_key_show key, ev_kind = kind,
        ev_stream_id = stream_id, ev_subscriber_id = subscriber_id, ev_dispatch_result = result, ev_message = message\<rparr>])
        (mg_event_bus m)\<rparr>"

definition publish_media_event :: "media_event \<Rightarrow> ('c, 'q) manager \<Rightarrow> ('c, 'q) manager" where
  "publish_media_event e m = m\<lparr>mg_media_event_bus := map_option (\<lambda>l. l @ [e]) (mg_media_event_bus m)\<rparr>"

definition schema_for :: "'c stream_entry \<Rightarrow> media_key \<Rightarrow> media_schema option" where
  "schema_for e mk =
     (case mk_schema mk of
        Some s \<Rightarrow> Some s
      | None \<Rightarrow> (case schema_parse (se_protocol e) of Inr s \<Rightarrow> Some s | Inl _ \<Rightarrow> None))"

definition publish_stream_published :: "stream_key \<Rightarrow> nat \<Rightarrow> ('c, 'q) manager \<Rightarrow> ('c, 'q) manager" where
  "publish_stream_published key eid m =
     (let e = entry_at m eid in
      if se_published e then m
      else
        let mk = media_key_for key; session_id = decimal (se_stream_id e);
            m = put_entry eid (e\<lparr>se_published := True\<rparr>) m;
            m = publish_media_event (Media_Published mk session_id (se_protocol e) (se_remote_endpoint e)) m in
        if se_online e then m
        else publish_media_event (Media_Online_Changed mk Online (schema_for e mk))
               (put_entry eid (e\<lparr>se_published := True, se_online := True\<rparr>) m))"

definition publish_stream_unpublished :: "stream_key \<Rightarrow> nat \<Rightarrow> media_close_reason \<Rightarrow> ('c, 'q) manager \<Rightarrow> ('c, 'q) manager" where
  "publish_stream_unpublished key eid reason m =
     (let e = entry_at m eid; mk = media_key_for key; session_id = decimal (se_stream_id e);
          m = put_entry eid (e\<lparr>se_published := False\<rparr>) m;
          m = (if se_published e then publish_media_event (Media_Unpublished mk session_id reason) m else m);
          m = put_entry eid (e\<lparr>se_published := False, se_online := False\<rparr>) m in
      if se_online e then publish_media_event (Media_Online_Changed mk Offline (schema_for e mk)) m else m)"

section \<open>Streams and leases\<close>

definition get_or_create_stream :: "stream_key \<Rightarrow> ('c, 'q) manager \<Rightarrow> ('c, 'q) manager \<times> nat" where
  "get_or_create_stream key m =
     (case map_of (mg_streams m) key of
        Some eid \<Rightarrow> (m, eid)
      | None \<Rightarrow>
          let eid = mg_next_stream_id m + 1;
              lane = map_option (\<lambda>lanes. eid mod length lanes) (mg_pool m);
              e = stream_entry_new eid (mg_ring_capacity m) lane in
          (put_entry eid e (m\<lparr>mg_next_stream_id := eid, mg_streams := mg_streams m @ [(key, eid)]\<rparr>), eid))"

definition remove_stream :: "stream_key \<Rightarrow> ('c, 'q) manager \<Rightarrow> ('c, 'q) manager" where
  "remove_stream key m = m\<lparr>mg_streams := filter (\<lambda>(k, _). k \<noteq> key) (mg_streams m)\<rparr>"

text \<open>\<open>now\<close> is the time in microseconds since the epoch.\<close>

definition cleanup_if_idle :: "nat \<Rightarrow> stream_key \<Rightarrow> ('c, 'q) manager \<Rightarrow> ('c, 'q) manager" where
  "cleanup_if_idle now key m =
     (case map_of (mg_streams m) key of
        None \<Rightarrow> m
      | Some eid \<Rightarrow>
          let e = entry_at m eid; no_publisher = (se_active_lease e = 0);
              no_subscribers = (subscriber_count (se_dispatcher e) = 0);
              m = (if no_subscribers \<and> \<not> no_publisher
                   then put_entry eid (e\<lparr>se_last_no_subscriber_micros := now\<rparr>) m else m) in
          if no_publisher \<and> no_subscribers then remove_stream key m else m)"

definition release_lease :: "stream_key \<Rightarrow> nat \<Rightarrow> ('c, 'q) manager \<Rightarrow> ('c, 'q) manager \<times> (sdk_error + unit)" where
  "release_lease key lease_id m =
     (case map_of (mg_streams m) key of
        None \<Rightarrow> (m, Inl (Sdk_Not_Found (''stream '' @ stream_key_show key)))
      | Some eid \<Rightarrow>
          let e = entry_at m eid in
          if se_active_lease e \<noteq> lease_id
          then (m, Inl (Sdk_Conflict (''publisher lease mismatch for stream '' @ stream_key_show key)))
          else
            let m = put_entry eid (e\<lparr>se_active_lease := 0, se_dispatcher := clear_subscribers (se_dispatcher e)\<rparr>) m;
                m = publish_stream_unpublished key eid Close_Normal m;
                m = remove_stream key m in
            (publish_stream_event key Stream_Closed (Some (se_stream_id e)) None None None m, Inr ()))"

section \<open>Publishers\<close>

record publish_lease =
  pl_stream_id :: nat
  pl_stream_key :: stream_key
  pl_lease_id :: nat

record publisher_handle =
  ph_stream_key :: stream_key
  ph_entry :: nat
  ph_lease_id :: nat
  ph_closed :: bool

text \<open>The second step of \<^verbatim>\<open>acquire_publisher\<close>, on the entry that \<open>get_or_create_stream\<close> has returned.\<close>

definition acquire_on ::
  "stream_key \<Rightarrow> publisher_options \<Rightarrow> nat \<Rightarrow> ('c, 'q) manager \<Rightarrow> ('c, 'q) manager \<times> (sdk_error + publish_lease \<times> publisher_handle)"
where
  "acquire_on key options eid m =
     (let lease_id = mg_next_lease_id m + 1; m = m\<lparr>mg_next_lease_id := lease_id\<rparr>; e = entry_at m eid in
      if se_active_lease e \<noteq> 0
      then (m, Inl (Sdk_Conflict (''stream '' @ stream_key_show key @ '' already has an active publisher'')))
      else
        let m = put_entry eid (e\<lparr>se_active_lease := lease_id, se_protocol := po_protocol options,
                  se_remote_endpoint := po_remote_endpoint options\<rparr>) m;
            m = publish_stream_event key Publisher_Opened (Some (se_stream_id e)) None None None m in
        (m, Inr (\<lparr>pl_stream_id = se_stream_id e, pl_stream_key = key, pl_lease_id = lease_id\<rparr>,
                 \<lparr>ph_stream_key = key, ph_entry = eid, ph_lease_id = lease_id, ph_closed = False\<rparr>)))"

definition acquire_publisher ::
  "stream_key \<Rightarrow> publisher_options \<Rightarrow> ('c, 'q) manager \<Rightarrow> ('c, 'q) manager \<times> (sdk_error + publish_lease \<times> publisher_handle)"
where
  "acquire_publisher key options m = (case get_or_create_stream key m of (m, eid) \<Rightarrow> acquire_on key options eid m)"

definition release_publisher :: "publish_lease \<Rightarrow> ('c, 'q) manager \<Rightarrow> ('c, 'q) manager \<times> (sdk_error + unit)" where
  "release_publisher l m = release_lease (pl_stream_key l) (pl_lease_id l) m"

definition ensure_active :: "publisher_handle \<Rightarrow> ('c, 'q) manager \<Rightarrow> bool" where
  "ensure_active h m \<longleftrightarrow> \<not> ph_closed h \<and> se_active_lease (entry_at m (ph_entry h)) = ph_lease_id h"

definition update_tracks :: "publisher_handle \<Rightarrow> track_info list \<Rightarrow> ('c, 'q) manager \<Rightarrow> ('c, 'q) manager \<times> (sdk_error + unit)" where
  "update_tracks h tracks m =
     (if \<not> ensure_active h m
      then (m, Inl (Sdk_Unavailable (''publisher already closed for '' @ stream_key_show (ph_stream_key h))))
      else
        let e = entry_at m (ph_entry h); m = put_entry (ph_entry h) (e\<lparr>se_tracks := tracks\<rparr>) m;
            m = (if tracks \<noteq> [] then publish_stream_published (ph_stream_key h) (ph_entry h) m else m) in
        (m, Inr ()))"

text \<open>The two steps of \<^verbatim>\<open>push_frame\<close> after the check: the frame enters the ring, then it is dispatched.\<close>

definition push_to_ring :: "publisher_handle \<Rightarrow> av_frame \<Rightarrow> ('c, 'q) manager \<Rightarrow> ('c, 'q) manager" where
  "push_to_ring h frame m =
     (let e = entry_at m (ph_entry h) in put_entry (ph_entry h) (e\<lparr>se_ring := fst (ring_push frame (se_ring e))\<rparr>) m)"

definition pool_enqueue ::
  "(nat \<times> av_frame, 'q) chan_ops \<Rightarrow> nat \<Rightarrow> nat \<times> av_frame \<Rightarrow> 'q list \<Rightarrow> 'q list \<times> dispatch_result" where
  "pool_enqueue jobs lane job lanes =
     (let idx = lane mod length lanes in
      case try_send jobs job (lanes ! idx) of
        (q, Sent) \<Rightarrow> (lanes[idx := q], Accepted)
      | (q, Full) \<Rightarrow> (lanes[idx := q], Dropped_By_Policy)
      | (q, Closed) \<Rightarrow> (lanes[idx := q], Rejected_Closed))"

definition dispatch_on ::
  "(av_frame, 'c) chan_ops \<Rightarrow> nat \<Rightarrow> av_frame \<Rightarrow> ('c, 'q) manager \<Rightarrow> ('c, 'q) manager \<times> dispatch_result" where
  "dispatch_on ops eid frame m =
     (let e = entry_at m eid; (d, result) = dispatch_frame ops frame (se_dispatcher e) in
      (put_entry eid (e\<lparr>se_dispatcher := d\<rparr>) m, result))"

definition dispatch ::
  "(av_frame, 'c) chan_ops \<Rightarrow> (nat \<times> av_frame, 'q) chan_ops \<Rightarrow> nat \<Rightarrow> av_frame \<Rightarrow> ('c, 'q) manager \<Rightarrow> ('c, 'q) manager \<times> dispatch_result" where
  "dispatch ops jobs eid frame m =
     (case (se_lane (entry_at m eid), mg_pool m) of
        (Some lane, Some lanes) \<Rightarrow>
          (case pool_enqueue jobs lane (eid, frame) lanes of (lanes', result) \<Rightarrow> (m\<lparr>mg_pool := Some lanes'\<rparr>, result))
      | _ \<Rightarrow> dispatch_on ops eid frame m)"

definition push_dispatch ::
  "(av_frame, 'c) chan_ops \<Rightarrow> (nat \<times> av_frame, 'q) chan_ops \<Rightarrow> publisher_handle \<Rightarrow> av_frame \<Rightarrow> ('c, 'q) manager \<Rightarrow> ('c, 'q) manager \<times> dispatch_result" where
  "push_dispatch ops jobs h frame m =
     (case dispatch ops jobs (ph_entry h) frame m of (m, result) \<Rightarrow>
        (if result = Dropped_By_Policy
         then publish_stream_event (ph_stream_key h) Frame_Dropped (Some (se_stream_id (entry_at m (ph_entry h)))) None
                (Some result) (Some ''backpressure'') m
         else m, result))"

definition push_frame ::
  "(av_frame, 'c) chan_ops \<Rightarrow> (nat \<times> av_frame, 'q) chan_ops \<Rightarrow> publisher_handle \<Rightarrow> av_frame \<Rightarrow> ('c, 'q) manager \<Rightarrow> ('c, 'q) manager \<times> (sdk_error + dispatch_result)" where
  "push_frame ops jobs h frame m =
     (if \<not> ensure_active h m then (m, Inr Rejected_Closed)
      else case push_dispatch ops jobs h frame (push_to_ring h frame m) of (m, result) \<Rightarrow> (m, Inr result))"

text \<open>A worker of the pool takes the next job of its lane.\<close>

definition worker_step ::
  "(av_frame, 'c) chan_ops \<Rightarrow> (nat \<times> av_frame, 'q) chan_ops \<Rightarrow> nat \<Rightarrow> ('c, 'q) manager \<Rightarrow> ('c, 'q) manager" where
  "worker_step ops jobs lane m =
     (case mg_pool m of
        None \<Rightarrow> m
      | Some lanes \<Rightarrow>
          if length lanes \<le> lane then m
          else case chan_recv jobs (lanes ! lane) of
            None \<Rightarrow> m
          | Some ((eid, frame), q) \<Rightarrow> fst (dispatch_on ops eid frame (m\<lparr>mg_pool := Some (lanes[lane := q])\<rparr>)))"

text \<open>\<^verbatim>\<open>close\<close>, and the drop of the handle.\<close>

definition publisher_close :: "publisher_handle \<Rightarrow> ('c, 'q) manager \<Rightarrow> ('c, 'q) manager \<times> publisher_handle" where
  "publisher_close h m =
     (if ph_closed h then (m, h)
      else (fst (release_lease (ph_stream_key h) (ph_lease_id h) m), h\<lparr>ph_closed := True\<rparr>))"

definition take_keyframe_requests :: "publisher_handle \<Rightarrow> ('c, 'q) manager \<Rightarrow> ('c, 'q) manager \<times> nat" where
  "take_keyframe_requests h m =
     (let e = entry_at m (ph_entry h) in
      (put_entry (ph_entry h) (e\<lparr>se_keyframe_requests := 0\<rparr>) m, se_keyframe_requests e))"

section \<open>Subscribers\<close>

record subscriber_handle =
  sh_stream_key :: stream_key
  sh_stream_id :: nat
  sh_id :: nat
  sh_closed :: bool

text \<open>The first step of \<^verbatim>\<open>subscribe\<close>: the checks and the registration.\<close>

definition subscribe_open ::
  "(av_frame, 'c) chan_ops \<Rightarrow> stream_key \<Rightarrow> subscriber_options \<Rightarrow> ('c, 'q) manager \<Rightarrow> ('c, 'q) manager \<times> (sdk_error + subscriber_handle)" where
  "subscribe_open ops key options m =
     (if so_queue_capacity options = 0
      then (m, Inl (Sdk_Invalid_Argument ''subscriber queue_capacity must be greater than zero''))
      else if bp_max_bootstrap_frames (so_bootstrap_policy options) > so_queue_capacity options
      then (m, Inl (Sdk_Invalid_Argument (''subscriber queue_capacity ('' @ decimal (so_queue_capacity options)
              @ '') must be >= bootstrap max frames ('' @ decimal (bp_max_bootstrap_frames (so_bootstrap_policy options)) @ '')'')))
      else
        case map_of (mg_streams m) key of
          None \<Rightarrow> (m, Inl (Sdk_Not_Found (''stream '' @ stream_key_show key)))
        | Some eid \<Rightarrow>
            let e = entry_at m eid; (d, sub_id) = add_subscriber ops options (se_dispatcher e);
                m = put_entry eid (e\<lparr>se_dispatcher := d\<rparr>) m;
                m = publish_stream_event key Subscriber_Opened (Some (se_stream_id e)) (Some sub_id) None None m in
            (m, Inr \<lparr>sh_stream_key = key, sh_stream_id = eid, sh_id = sub_id, sh_closed = False\<rparr>))"

fun send_until_error ::
  "(av_frame, 'c) chan_ops \<Rightarrow> av_frame list \<Rightarrow> 'c \<Rightarrow> 'c" where
  "send_until_error ops [] c = c"
| "send_until_error ops (f # fs) c = (case try_send ops f c of (c', Sent) \<Rightarrow> send_until_error ops fs c' | (c', _) \<Rightarrow> c')"

text \<open>The second step: the frames of the ring go to the queue of the new subscriber.\<close>

definition subscribe_bootstrap ::
  "(av_frame, 'c) chan_ops \<Rightarrow> subscriber_options \<Rightarrow> subscriber_handle \<Rightarrow> ('c, 'q) manager \<Rightarrow> ('c, 'q) manager" where
  "subscribe_bootstrap ops options s m =
     (let eid = sh_stream_id s; e = entry_at m eid;
          (ring, frames) = bootstrap_frames (so_bootstrap_policy options) (se_ring e);
          d = se_dispatcher e;
          d = d\<lparr>dp_channels := (case dp_channels d (sh_id s) of
                   None \<Rightarrow> dp_channels d
                 | Some c \<Rightarrow> (dp_channels d)(sh_id s \<mapsto> send_until_error ops frames c))\<rparr> in
      put_entry eid (e\<lparr>se_ring := ring, se_dispatcher := d\<rparr>) m)"

definition subscribe ::
  "(av_frame, 'c) chan_ops \<Rightarrow> stream_key \<Rightarrow> subscriber_options \<Rightarrow> ('c, 'q) manager \<Rightarrow> ('c, 'q) manager \<times> (sdk_error + subscriber_handle)" where
  "subscribe ops key options m =
     (case subscribe_open ops key options m of
        (m, Inl e) \<Rightarrow> (m, Inl e)
      | (m, Inr s) \<Rightarrow> (subscribe_bootstrap ops options s m, Inr s))"

text \<open>\<^verbatim>\<open>close_inner\<close>, of \<^verbatim>\<open>close\<close>; the drop of the handle also ends its receiver.\<close>

definition subscriber_close :: "nat \<Rightarrow> subscriber_handle \<Rightarrow> ('c, 'q) manager \<Rightarrow> ('c, 'q) manager \<times> subscriber_handle" where
  "subscriber_close now s m =
     (if sh_closed s then (m, s)
      else
        let eid = sh_stream_id s; e = entry_at m eid;
            m = put_entry eid (e\<lparr>se_dispatcher := remove_subscribers [sh_id s] (se_dispatcher e)\<rparr>) m;
            m = publish_stream_event (sh_stream_key s) Subscriber_Closed (Some eid) (Some (sh_id s)) None None m in
        (cleanup_if_idle now (sh_stream_key s) m, s\<lparr>sh_closed := True\<rparr>))"

definition subscriber_drop ::
  "(av_frame, 'c) chan_ops \<Rightarrow> nat \<Rightarrow> subscriber_handle \<Rightarrow> ('c, 'q) manager \<Rightarrow> ('c, 'q) manager \<times> subscriber_handle" where
  "subscriber_drop ops now s m =
     (case subscriber_close now s m of (m, s) \<Rightarrow>
        let eid = sh_stream_id s; e = entry_at m eid; d = se_dispatcher e in
        (put_entry eid (e\<lparr>se_dispatcher := d\<lparr>dp_channels :=
            (case dp_channels d (sh_id s) of None \<Rightarrow> dp_channels d | Some c \<Rightarrow> (dp_channels d)(sh_id s \<mapsto> chan_close ops c))\<rparr>\<rparr>) m, s))"

text \<open>
  \<^verbatim>\<open>recv\<close>: the next frame; the end once the handle is closed, or the queue is empty and the dispatcher has
  dropped the sender; otherwise it waits.
\<close>

datatype recv_result = Got av_frame | End_Of_Stream | Waiting

definition recv ::
  "(av_frame, 'c) chan_ops \<Rightarrow> subscriber_handle \<Rightarrow> ('c, 'q) manager \<Rightarrow> ('c, 'q) manager \<times> recv_result" where
  "recv ops s m =
     (if sh_closed s then (m, End_Of_Stream)
      else
        let eid = sh_stream_id s; e = entry_at m eid; d = se_dispatcher e in
        case dp_channels d (sh_id s) of
          None \<Rightarrow> (m, End_Of_Stream)
        | Some c \<Rightarrow>
            (case chan_recv ops c of
               Some (f, c') \<Rightarrow> (put_entry eid (e\<lparr>se_dispatcher := d\<lparr>dp_channels := (dp_channels d)(sh_id s \<mapsto> c')\<rparr>\<rparr>) m, Got f)
             | None \<Rightarrow> (m, if sh_id s \<in> ds_id ` set (dp_subscribers d) then Waiting else End_Of_Stream)))"

section \<open>Queries\<close>

record stream_snapshot =
  sn_stream_id :: nat
  sn_key :: stream_key
  sn_publisher_active :: bool
  sn_subscriber_count :: nat
  sn_tracks :: "track_info list"

definition snapshot_for :: "('c, 'q) manager \<Rightarrow> stream_key \<Rightarrow> nat \<Rightarrow> stream_snapshot" where
  "snapshot_for m key eid =
     (let e = entry_at m eid in
      \<lparr>sn_stream_id = se_stream_id e, sn_key = key, sn_publisher_active = (se_active_lease e \<noteq> 0),
       sn_subscriber_count = subscriber_count (se_dispatcher e), sn_tracks = se_tracks e\<rparr>)"

definition list_streams :: "('c, 'q) manager \<Rightarrow> stream_snapshot list" where
  "list_streams m = map (\<lambda>(key, eid). snapshot_for m key eid) (mg_streams m)"

definition get_stream :: "('c, 'q) manager \<Rightarrow> stream_key \<Rightarrow> stream_snapshot option" where
  "get_stream m key = map_option (snapshot_for m key) (map_of (mg_streams m) key)"

definition request_keyframe :: "stream_key \<Rightarrow> ('c, 'q) manager \<Rightarrow> ('c, 'q) manager \<times> (sdk_error + unit)" where
  "request_keyframe key m =
     (case map_of (mg_streams m) key of
        None \<Rightarrow> (m, Inl (Sdk_Not_Found (''stream '' @ stream_key_show key @ '' not found'')))
      | Some eid \<Rightarrow>
          let e = entry_at m eid in (put_entry eid (e\<lparr>se_keyframe_requests := se_keyframe_requests e + 1\<rparr>) m, Inr ()))"

end
