(* ===== verification/Engine_Streams_Properties.thy ===== *)
theory Engine_Streams_Properties
  imports Engine_Streams Engine_Dispatch_Properties
begin

text \<open>
  The stream manager over any run of its operations (\<^verbatim>\<open>src/crates/system/cheetah-engine/src/stream.rs\<close>): who may
  publish, what a handle whose lease has ended can still do, the media events of a stream, and the end of its
  subscribers. Most operations are calm: they change rings, queues and counters, but neither the streams, nor the
  leases, nor what has been published.
\<close>

section \<open>Runs\<close>

text \<open>
  A run has the manager and the publisher handles it has given out. \<open>push_frame\<close>, \<open>subscribe\<close> and their two steps
  occur, so other operations may come between the steps. A lease is never zero.
\<close>

type_synonym ('c, 'q) engine = "('c, 'q) manager \<times> publisher_handle list"

inductive engine_step :: "(av_frame, 'c) chan_ops \<Rightarrow> (nat \<times> av_frame, 'q) chan_ops \<Rightarrow> ('c, 'q) engine \<Rightarrow> ('c, 'q) engine \<Rightarrow> bool"
  for ops :: "(av_frame, 'c) chan_ops" and jobs :: "(nat \<times> av_frame, 'q) chan_ops"
where
  acquired: "acquire_publisher key po m = (m', Inr (l, h)) \<Longrightarrow> engine_step ops jobs (m, hs) (m', hs @ [h])"
| refused: "acquire_publisher key po m = (m', Inl err) \<Longrightarrow> engine_step ops jobs (m, hs) (m', hs)"
| released: "pl_lease_id l \<noteq> 0 \<Longrightarrow> engine_step ops jobs (m, hs) (fst (release_publisher l m), hs)"
| tracked: "h \<in> set hs \<Longrightarrow> engine_step ops jobs (m, hs) (fst (update_tracks h ts m), hs)"
| pushed: "h \<in> set hs \<Longrightarrow> engine_step ops jobs (m, hs) (fst (push_frame ops jobs h f m), hs)"
| push_ringed: "h \<in> set hs \<Longrightarrow> engine_step ops jobs (m, hs) (push_to_ring h f m, hs)"
| push_dispatched: "h \<in> set hs \<Longrightarrow> engine_step ops jobs (m, hs) (fst (push_dispatch ops jobs h f m), hs)"
| closed: "i < length hs \<Longrightarrow> publisher_close (hs ! i) m = (m', h') \<Longrightarrow> engine_step ops jobs (m, hs) (m', hs[i := h'])"
| requests_taken: "h \<in> set hs \<Longrightarrow> engine_step ops jobs (m, hs) (fst (take_keyframe_requests h m), hs)"
| worked: "engine_step ops jobs (m, hs) (worker_step ops jobs lane m, hs)"
| subscribed: "engine_step ops jobs (m, hs) (fst (subscribe ops key so m), hs)"
| sub_opened: "engine_step ops jobs (m, hs) (fst (subscribe_open ops key so m), hs)"
| sub_bootstrapped: "engine_step ops jobs (m, hs) (subscribe_bootstrap ops so s m, hs)"
| sub_closed: "engine_step ops jobs (m, hs) (fst (subscriber_close now s m), hs)"
| sub_dropped: "engine_step ops jobs (m, hs) (fst (subscriber_drop ops now s m), hs)"
| received: "engine_step ops jobs (m, hs) (fst (recv ops s m), hs)"
| requested: "engine_step ops jobs (m, hs) (fst (request_keyframe key m), hs)"

inductive engine_run :: "(av_frame, 'c) chan_ops \<Rightarrow> (nat \<times> av_frame, 'q) chan_ops \<Rightarrow> ('c, 'q) engine \<Rightarrow> ('c, 'q) engine \<Rightarrow> bool"
  for ops :: "(av_frame, 'c) chan_ops" and jobs :: "(nat \<times> av_frame, 'q) chan_ops"
where
  engine_here: "engine_run ops jobs x x"
| engine_more: "engine_run ops jobs x y \<Longrightarrow> engine_step ops jobs y z \<Longrightarrow> engine_run ops jobs x z"

definition engine_start :: "(nat \<times> av_frame, 'q) chan_ops \<Rightarrow> nat option \<Rightarrow> nat \<Rightarrow> ('c, 'q) engine" where
  "engine_start jobs workers cap = (set_media_event_bus (manager_new jobs workers cap), [])"

section \<open>Calm operations\<close>

abbreviation lease_at :: "('c, 'q) manager \<Rightarrow> nat \<Rightarrow> nat" where
  "lease_at m i \<equiv> se_active_lease (entry_at m i)"

definition core_of :: "'c stream_entry \<Rightarrow> nat \<times> nat \<times> bool \<times> bool" where
  "core_of e = (se_stream_id e, se_active_lease e, se_published e, se_online e)"

definition frame_of :: "('c, 'q) manager \<Rightarrow> nat \<times> nat \<times> (stream_key \<times> nat) list \<times> media_event list option \<times> (nat \<Rightarrow> nat \<times> nat \<times> bool \<times> bool)" where
  "frame_of m = (mg_next_stream_id m, mg_next_lease_id m, mg_streams m, mg_media_event_bus m, \<lambda>i. core_of (entry_at m i))"

named_theorems calm

lemma entry_at_put: "entry_at (put_entry i e m) j = (if j = i then e else entry_at m j)"
  by (simp add: entry_at_def put_entry_def cong del: option.case_cong_weak)

lemma put_entry_fields [simp]:
  "mg_next_stream_id (put_entry i e m) = mg_next_stream_id m" "mg_next_lease_id (put_entry i e m) = mg_next_lease_id m"
  "mg_streams (put_entry i e m) = mg_streams m" "mg_media_event_bus (put_entry i e m) = mg_media_event_bus m"
  "mg_ring_capacity (put_entry i e m) = mg_ring_capacity m" "mg_pool (put_entry i e m) = mg_pool m"
  by (simp_all add: put_entry_def)

lemma put_entry_calm [calm]:
  assumes "core_of e = core_of (entry_at m i)"
  shows "frame_of (put_entry i e m) = frame_of m"
  using assms by (auto simp: frame_of_def entry_at_put fun_eq_iff)

lemma publish_stream_event_calm [calm]: "frame_of (publish_stream_event k kd i j r t m) = frame_of m"
  by (simp add: frame_of_def publish_stream_event_def entry_at_def cong del: option.case_cong_weak)

lemma pool_calm [calm]: "frame_of (m\<lparr>mg_pool := p\<rparr>) = frame_of m"
  by (simp add: frame_of_def entry_at_def cong del: option.case_cong_weak)

lemma core_of_updates [simp]:
  "core_of (e\<lparr>se_ring := r\<rparr>) = core_of e" "core_of (e\<lparr>se_dispatcher := d\<rparr>) = core_of e"
  "core_of (e\<lparr>se_tracks := t\<rparr>) = core_of e" "core_of (e\<lparr>se_keyframe_requests := n\<rparr>) = core_of e"
  "core_of (e\<lparr>se_last_no_subscriber_micros := n\<rparr>) = core_of e"
  by (simp_all add: core_of_def)

lemma dispatch_calm [calm]: "frame_of (fst (dispatch_on ops i f m)) = frame_of m" "frame_of (fst (dispatch ops jobs i f m)) = frame_of m"
proof -
  show on: "frame_of (fst (dispatch_on ops i f m)) = frame_of m" for m
    by (simp add: dispatch_on_def Let_def calm split: prod.splits)
  show "frame_of (fst (dispatch ops jobs i f m)) = frame_of m"
    by (auto simp: dispatch_def on pool_calm split: option.splits prod.splits)
qed

lemma push_calm [calm]:
  "frame_of (push_to_ring h f m) = frame_of m"
  "frame_of (fst (push_dispatch ops jobs h f m)) = frame_of m"
  "frame_of (fst (push_frame ops jobs h f m)) = frame_of m"
proof -
  show ring: "frame_of (push_to_ring h f m) = frame_of m"
    by (simp add: push_to_ring_def Let_def calm)
  have "frame_of (fst (push_dispatch ops jobs h f m)) = frame_of (fst (dispatch ops jobs (ph_entry h) f m))" for m
    by (simp add: push_dispatch_def publish_stream_event_calm split: prod.split)
  then show disp: "frame_of (fst (push_dispatch ops jobs h f m)) = frame_of m" for m by (simp add: calm)
  show "frame_of (fst (push_frame ops jobs h f m)) = frame_of m"
    using disp [of "push_to_ring h f m"] by (auto simp: push_frame_def ring split: prod.splits)
qed

lemma worker_calm [calm]: "frame_of (worker_step ops jobs lane m) = frame_of m"
  by (auto simp: worker_step_def calm split: option.splits list.splits)

lemma subscribe_calm [calm]:
  "frame_of (fst (subscribe_open ops key so m)) = frame_of m"
  "frame_of (subscribe_bootstrap ops so s m) = frame_of m"
  "frame_of (fst (subscribe ops key so m)) = frame_of m"
proof -
  show o: "frame_of (fst (subscribe_open ops key so m)) = frame_of m"
    by (auto simp: subscribe_open_def Let_def calm split: option.splits prod.splits)
  show b: "frame_of (subscribe_bootstrap ops so s m) = frame_of m" for m s
    by (simp add: subscribe_bootstrap_def Let_def calm split: prod.splits)
  show "frame_of (fst (subscribe ops key so m)) = frame_of m"
    using o by (auto simp: subscribe_def b split: prod.splits sum.splits)
qed

lemma handles_calm [calm]:
  "frame_of (fst (take_keyframe_requests h m)) = frame_of m" "frame_of (fst (request_keyframe key m)) = frame_of m"
  "frame_of (fst (recv ops s m)) = frame_of m"
  by (auto simp: take_keyframe_requests_def request_keyframe_def recv_def Let_def calm split: option.splits list.splits)


section \<open>The invariant\<close>

text \<open>The publishing events of a stream in order, by its session id: \<open>True\<close> for published, \<open>False\<close> for unpublished.\<close>

fun session_event :: "nat \<Rightarrow> media_event \<Rightarrow> bool list" where
  "session_event i (Media_Published mk s p r) = (if s = decimal i then [True] else [])"
| "session_event i (Media_Unpublished mk s r) = (if s = decimal i then [False] else [])"
| "session_event i (Media_Online_Changed mk st sc) = []"

definition session_events :: "nat \<Rightarrow> ('c, 'q) manager \<Rightarrow> bool list" where
  "session_events i m = (case mg_media_event_bus m of None \<Rightarrow> [] | Some l \<Rightarrow> concat (map (session_event i) l))"

definition events_fit :: "('c, 'q) manager \<Rightarrow> nat \<Rightarrow> bool" where
  "events_fit m i \<longleftrightarrow>
     session_events i m \<in>
       (if se_published (entry_at m i) then {[True]}
        else if i \<in> snd ` set (mg_streams m) \<or> mg_next_stream_id m < i then {[]} else {[], [True, False]})"

definition lease_ok :: "('c, 'q) manager \<Rightarrow> nat \<Rightarrow> bool" where
  "lease_ok m i \<longleftrightarrow>
     se_stream_id (entry_at m i) = i \<and> lease_at m i \<le> mg_next_lease_id m
     \<and> (lease_at m i \<noteq> 0 \<longrightarrow> i \<in> snd ` set (mg_streams m) \<and> (\<forall>j. lease_at m j = lease_at m i \<longrightarrow> j = i))
     \<and> (se_published (entry_at m i) \<longrightarrow> lease_at m i \<noteq> 0)
     \<and> se_online (entry_at m i) = se_published (entry_at m i)"

definition streams_ok :: "('c, 'q) manager \<Rightarrow> bool" where
  "streams_ok m \<longleftrightarrow>
     distinct (map fst (mg_streams m)) \<and> distinct (map snd (mg_streams m))
     \<and> (\<forall>i\<in>snd ` set (mg_streams m). i \<le> mg_next_stream_id m) \<and> mg_media_event_bus m \<noteq> None"

definition manager_ok :: "('c, 'q) manager \<Rightarrow> bool" where
  "manager_ok m \<longleftrightarrow> streams_ok m \<and> (\<forall>i. lease_ok m i \<and> events_fit m i)"

text \<open>What is true of every handle that was given out: its lease is no other entry's, and while it has it, its stream is in the map.\<close>

definition handle_ok :: "('c, 'q) manager \<Rightarrow> publisher_handle \<Rightarrow> bool" where
  "handle_ok m h \<longleftrightarrow>
     0 < ph_lease_id h \<and> ph_lease_id h \<le> mg_next_lease_id m
     \<and> (\<forall>i. lease_at m i = ph_lease_id h \<longrightarrow> i = ph_entry h \<and> map_of (mg_streams m) (ph_stream_key h) = Some i)"

definition engine_ok :: "('c, 'q) engine \<Rightarrow> bool" where
  "engine_ok x \<longleftrightarrow> manager_ok (fst x) \<and> (\<forall>h\<in>set (snd x). handle_ok (fst x) h) \<and> distinct (map ph_lease_id (snd x))"

text \<open>An operation keeps the invariant, and no lease that has ended begins again.\<close>

definition keeps :: "('c, 'q) manager \<Rightarrow> ('c, 'q) manager \<Rightarrow> bool" where
  "keeps m m' \<longleftrightarrow>
     manager_ok m' \<and> mg_next_lease_id m \<le> mg_next_lease_id m'
     \<and> (\<forall>h. handle_ok m h \<longrightarrow> handle_ok m' h
            \<and> (lease_at m (ph_entry h) \<noteq> ph_lease_id h \<longrightarrow> lease_at m' (ph_entry h) \<noteq> ph_lease_id h))"

lemma frame_ofD:
  assumes "frame_of m' = frame_of m"
  shows "mg_next_stream_id m' = mg_next_stream_id m" "mg_next_lease_id m' = mg_next_lease_id m"
    "mg_streams m' = mg_streams m" "mg_media_event_bus m' = mg_media_event_bus m"
    "lease_at m' i = lease_at m i" "se_stream_id (entry_at m' i) = se_stream_id (entry_at m i)"
    "se_published (entry_at m' i) = se_published (entry_at m i)" "se_online (entry_at m' i) = se_online (entry_at m i)"
    "session_events i m' = session_events i m"
proof -
  show b: "mg_media_event_bus m' = mg_media_event_bus m" and "mg_next_stream_id m' = mg_next_stream_id m"
    "mg_next_lease_id m' = mg_next_lease_id m" "mg_streams m' = mg_streams m"
    using assms by (simp_all add: frame_of_def)
  have "core_of (entry_at m' i) = core_of (entry_at m i)"
    using assms by (simp add: frame_of_def fun_eq_iff)
  then show "lease_at m' i = lease_at m i" "se_stream_id (entry_at m' i) = se_stream_id (entry_at m i)"
    "se_published (entry_at m' i) = se_published (entry_at m i)" "se_online (entry_at m' i) = se_online (entry_at m i)"
    by (simp_all add: core_of_def)
  from b show "session_events i m' = session_events i m" by (simp add: session_events_def)
qed

lemma calm_ok:
  assumes "frame_of m' = frame_of m"
  shows "manager_ok m' = manager_ok m" "handle_ok m' h = handle_ok m h"
  by (simp_all add: manager_ok_def streams_ok_def lease_ok_def events_fit_def handle_ok_def frame_ofD [OF assms])

lemma calm_keeps:
  assumes "manager_ok m" and "frame_of m' = frame_of m"
  shows "keeps m m'"
  using assms(1) by (simp add: keeps_def calm_ok [OF assms(2)] frame_ofD [OF assms(2)])

lemma keepsD:
  assumes "keeps m m'"
  shows "manager_ok m'" "mg_next_lease_id m \<le> mg_next_lease_id m'" "handle_ok m h \<Longrightarrow> handle_ok m' h"
    "handle_ok m h \<Longrightarrow> lease_at m (ph_entry h) \<noteq> ph_lease_id h \<Longrightarrow> lease_at m' (ph_entry h) \<noteq> ph_lease_id h"
  using assms unfolding keeps_def by blast+

lemma keeps_trans:
  assumes "keeps m m'" and "keeps m' m''"
  shows "keeps m m''"
  unfolding keeps_def
proof (intro conjI allI impI)
  show "manager_ok m''" by (rule keepsD(1) [OF assms(2)])
  show "mg_next_lease_id m \<le> mg_next_lease_id m''"
    by (rule le_trans [OF keepsD(2) [OF assms(1)] keepsD(2) [OF assms(2)]])
  fix h assume h: "handle_ok m h"
  show "handle_ok m'' h" by (rule keepsD(3) [OF assms(2) keepsD(3) [OF assms(1) h]])
  assume "lease_at m (ph_entry h) \<noteq> ph_lease_id h"
  then show "lease_at m'' (ph_entry h) \<noteq> ph_lease_id h"
    by (rule keepsD(4) [OF assms(2) keepsD(3) [OF assms(1) h] keepsD(4) [OF assms(1) h]])
qed

lemma handle_okD:
  assumes "handle_ok m h"
  shows "0 < ph_lease_id h" "ph_lease_id h \<le> mg_next_lease_id m"
    "lease_at m i = ph_lease_id h \<Longrightarrow> i = ph_entry h"
    "lease_at m i = ph_lease_id h \<Longrightarrow> map_of (mg_streams m) (ph_stream_key h) = Some i"
  using assms unfolding handle_ok_def by blast+

lemma keeps_calm_right: "keeps m m' \<Longrightarrow> frame_of m'' = frame_of m' \<Longrightarrow> keeps m m''"
  using calm_keeps keeps_trans keeps_def by blast

lemma manager_okD:
  assumes "manager_ok m"
  shows "distinct (map fst (mg_streams m))" "distinct (map snd (mg_streams m))"
    "i \<in> snd ` set (mg_streams m) \<Longrightarrow> i \<le> mg_next_stream_id m" "mg_media_event_bus m \<noteq> None"
  using assms by (auto simp: manager_ok_def streams_ok_def)

lemma lease_okD:
  assumes "manager_ok m"
  shows "se_stream_id (entry_at m i) = i" "lease_at m i \<le> mg_next_lease_id m"
    "lease_at m i \<noteq> 0 \<Longrightarrow> i \<in> snd ` set (mg_streams m)"
    "lease_at m i \<noteq> 0 \<Longrightarrow> lease_at m j = lease_at m i \<Longrightarrow> j = i"
    "se_published (entry_at m i) \<Longrightarrow> lease_at m i \<noteq> 0"
    "se_online (entry_at m i) = se_published (entry_at m i)"
    "events_fit m i" "lease_ok m i"
proof -
  have l: "lease_ok m j \<and> events_fit m j" for j using assms by (simp add: manager_ok_def)
  from l [of i] show "se_stream_id (entry_at m i) = i" "lease_at m i \<le> mg_next_lease_id m"
    "lease_at m i \<noteq> 0 \<Longrightarrow> i \<in> snd ` set (mg_streams m)"
    "lease_at m i \<noteq> 0 \<Longrightarrow> lease_at m j = lease_at m i \<Longrightarrow> j = i"
    "se_published (entry_at m i) \<Longrightarrow> lease_at m i \<noteq> 0"
    "se_online (entry_at m i) = se_published (entry_at m i)"
    "events_fit m i" "lease_ok m i"
    by (simp_all add: lease_ok_def)
qed

section \<open>Streams come and go\<close>

text \<open>A manager whose entries and events are those of another one.\<close>

lemma entry_at_streams [simp]:
  "entry_at (m\<lparr>mg_streams := l\<rparr>) i = entry_at m i" "session_events i (m\<lparr>mg_streams := l\<rparr>) = session_events i m"
  "entry_at (m\<lparr>mg_next_stream_id := n\<rparr>) i = entry_at m i" "session_events i (m\<lparr>mg_next_stream_id := n\<rparr>) = session_events i m"
  "entry_at (m\<lparr>mg_next_lease_id := n\<rparr>) i = entry_at m i" "session_events i (m\<lparr>mg_next_lease_id := n\<rparr>) = session_events i m"
  by (simp_all add: entry_at_def session_events_def cong del: option.case_cong_weak)

lemma map_of_filter_other: "map_of (filter (\<lambda>(k, _). k \<noteq> key) l) k' = (if k' = key then None else map_of l k')"
  by (induction l) auto

lemma distinct_filter_map: "distinct (map f l) \<Longrightarrow> distinct (map f (filter P l))"
  by (induction l) auto

lemma filter_streams_snd:
  assumes "distinct (map fst l)" and "distinct (map snd l)" and "map_of l key = Some i"
  shows "snd ` set (filter (\<lambda>(k, _). k \<noteq> key) l) = snd ` set l - {i}"
proof -
  have i: "(key, i) \<in> set l" using assms(1,3) by (simp add: map_of_eq_Some_iff)
  have "j \<noteq> i \<longleftrightarrow> k \<noteq> key" if "(k, j) \<in> set l" for k j
    using that i assms(1,2) by (metis eq_key_imp_eq_value distinct_map fst_conv inj_onD snd_conv)
  then have eq: "(case x of (k, _) \<Rightarrow> k \<noteq> key) \<longleftrightarrow> snd x \<noteq> i" if "x \<in> set l" for x
    using that by (cases x) auto
  show ?thesis
  proof (rule set_eqI)
    fix j show "j \<in> snd ` set (filter (\<lambda>(k, _). k \<noteq> key) l) \<longleftrightarrow> j \<in> snd ` set l - {i}"
      using eq unfolding image_iff set_filter Diff_iff mem_Collect_eq by blast
  qed
qed

lemma events_fit_same:
  assumes "session_events i m' = session_events i m" and "se_published (entry_at m' i) = se_published (entry_at m i)"
    and "mg_streams m' = mg_streams m" and "mg_next_stream_id m' = mg_next_stream_id m"
  shows "events_fit m' i = events_fit m i"
  by (simp only: events_fit_def assms)

lemma idle_remove_keeps:
  assumes ok: "manager_ok m" and k: "map_of (mg_streams m) key = Some i" and idle: "lease_at m i = 0"
  shows "keeps m (remove_stream key m)"
proof -
  note d = manager_okD [OF ok]
  note l = lease_okD [OF ok]
  let ?m = "remove_stream key m"
  have s: "mg_streams ?m = filter (\<lambda>(k, _). k \<noteq> key) (mg_streams m)" by (simp add: remove_stream_def)
  have n: "mg_next_stream_id ?m = mg_next_stream_id m" "mg_next_lease_id ?m = mg_next_lease_id m"
      "mg_media_event_bus ?m = mg_media_event_bus m" "entry_at ?m j = entry_at m j" "session_events j ?m = session_events j m" for j
    by (simp_all add: remove_stream_def)
  have ins: "snd ` set (mg_streams ?m) = snd ` set (mg_streams m) - {i}"
    unfolding s by (rule filter_streams_snd [OF d(1,2) k])
  have "streams_ok ?m"
    using d by (auto simp: streams_ok_def n s distinct_filter_map)
  moreover have "lease_ok ?m j" for j
    using l(1-6) [of j] idle unfolding lease_ok_def n ins by blast
  moreover have "events_fit ?m j" for j
    using l(7) [of j] by (auto simp: events_fit_def n ins split: if_splits)
  ultimately have ok': "manager_ok ?m" by (simp add: manager_ok_def)
  have "handle_ok ?m h" if h: "handle_ok m h" for h
  proof -
    have "map_of (mg_streams ?m) (ph_stream_key h) = Some j" if j: "lease_at m j = ph_lease_id h" for j
    proof -
      have "j \<noteq> i" using j idle handle_okD(1) [OF h] by auto
      with handle_okD(4) [OF h j] k show ?thesis by (auto simp: s map_of_filter_other)
    qed
    then show ?thesis using handle_okD(1-3) [OF h] unfolding handle_ok_def n by blast
  qed
  with ok' show ?thesis by (simp add: keeps_def n)
qed

lemma cleanup_keeps:
  assumes ok: "manager_ok m"
  shows "keeps m (cleanup_if_idle now key m)"
proof (cases "map_of (mg_streams m) key")
  case None
  with ok show ?thesis by (simp add: cleanup_if_idle_def calm_keeps)
next
  case (Some i)
  let ?e = "entry_at m i"
  have "frame_of (put_entry i (?e\<lparr>se_last_no_subscriber_micros := now\<rparr>) m) = frame_of m" by (simp add: calm)
  with ok Some idle_remove_keeps [OF ok Some] show ?thesis
    by (auto simp: cleanup_if_idle_def Let_def intro: calm_keeps)
qed

text \<open>A new stream has a new id, so nothing is known of its entry.\<close>

lemma create_keeps:
  fixes m :: "('c, 'q) manager"
  assumes ok: "manager_ok m" and g: "get_or_create_stream key m = (m', i)"
  shows "keeps m m' \<and> map_of (mg_streams m') key = Some i \<and> mg_next_lease_id m' = mg_next_lease_id m"
proof (cases "map_of (mg_streams m) key")
  case (Some j)
  with g ok show ?thesis by (simp add: get_or_create_stream_def calm_keeps)
next
  case None
  note d = manager_okD [OF ok]
  note l = lease_okD [OF ok]
  define n where "n = mg_next_stream_id m + 1"
  define e :: "'c stream_entry" where "e = stream_entry_new n (mg_ring_capacity m) (map_option (\<lambda>lanes. n mod length lanes) (mg_pool m))"
  have "get_or_create_stream key m = (put_entry n e (m\<lparr>mg_next_stream_id := n, mg_streams := mg_streams m @ [(key, n)]\<rparr>), n)"
    using None unfolding n_def e_def get_or_create_stream_def Let_def by simp
  with g have i: "i = n" and m': "m' = put_entry n e (m\<lparr>mg_next_stream_id := n, mg_streams := mg_streams m @ [(key, n)]\<rparr>)"
    by (metis prod.inject)+
  have fresh: "n \<notin> snd ` set (mg_streams m)" using d(3) [of n] by (auto simp: n_def)
  have zero: "lease_at m n = 0" "\<not> se_published (entry_at m n)" using l(3,5) [of n] fresh by blast+
  have none: "session_events n m = []"
    using l(7) [of n] zero fresh by (simp add: events_fit_def n_def)
  have core: "core_of (entry_at m' j) = core_of (entry_at m j)" for j
    using l(1,6) [of n] zero by (simp add: m' entry_at_put e_def core_of_def stream_entry_new_def)
  then have same: "lease_at m' j = lease_at m j" "se_published (entry_at m' j) = se_published (entry_at m j)"
      "se_stream_id (entry_at m' j) = se_stream_id (entry_at m j)" "se_online (entry_at m' j) = se_online (entry_at m j)" for j
    by (simp_all add: core_of_def)
  have n': "mg_streams m' = mg_streams m @ [(key, n)]" "mg_next_stream_id m' = n" "mg_next_lease_id m' = mg_next_lease_id m"
      "mg_media_event_bus m' = mg_media_event_bus m" "session_events j m' = session_events j m" for j
    by (simp_all add: m' session_events_def)
  have key: "key \<notin> fst ` set (mg_streams m)" using None by (simp add: map_of_eq_None_iff)
  have "streams_ok m'"
    using d key fresh d(3) by (fastforce simp: streams_ok_def n' n_def)
  moreover have "lease_ok m' j" for j
    using l(8) [of j] by (auto simp: lease_ok_def same n')
  moreover have "events_fit m' j" for j
    using l(7) [of j] none by (auto simp: events_fit_def same n' n_def split: if_splits)
  ultimately have ok': "manager_ok m'" by (simp add: manager_ok_def)
  have lookup: "map_of (mg_streams m') k' = (if k' = key then Some n else map_of (mg_streams m) k')" for k'
    using None by (auto simp: n' map_add_def split: option.split)
  have "handle_ok m' h" if h: "handle_ok m h" for h
    using handle_okD [OF h] None by (fastforce simp: handle_ok_def n' same lookup)
  with ok' lookup show ?thesis by (simp add: keeps_def n' same i)
qed

section \<open>Leases begin and end\<close>

lemma acquire_keeps:
  assumes ok: "manager_ok m" and a: "acquire_publisher key po m = (m', r)"
  shows "keeps m m'"
    and "r = Inr (l, h) \<Longrightarrow> handle_ok m' h \<and> ph_lease_id h = mg_next_lease_id m + 1"
proof -
  obtain m1 i where g: "get_or_create_stream key m = (m1, i)" by (metis surj_pair)
  from create_keeps [OF ok g] have k1: "keeps m m1" and key: "map_of (mg_streams m1) key = Some i"
    and n1: "mg_next_lease_id m1 = mg_next_lease_id m" by simp_all
  note ok1 = keepsD(1) [OF k1]
  note d = manager_okD [OF ok1]
  note l = lease_okD [OF ok1]
  define n where "n = mg_next_lease_id m1 + 1"
  let ?m2 = "m1\<lparr>mg_next_lease_id := n\<rparr>"
  have a': "acquire_on key po i m1 = (m', r)" using a g by (simp add: acquire_publisher_def)
  have i_in: "i \<in> snd ` set (mg_streams m1)" using key by (force dest: map_of_SomeD)
  have raise: "keeps m1 ?m2"
  proof -
    have "lease_ok ?m2 j" for j using l(1-6) [of j] l(2) [of j] unfolding lease_ok_def n_def by auto
    moreover have "events_fit ?m2 j" for j using l(7) [of j] events_fit_same [of j ?m2 m1] by simp
    ultimately have "manager_ok ?m2" using d by (auto simp: manager_ok_def streams_ok_def)
    moreover have "handle_ok ?m2 h" if "handle_ok m1 h" for h
      using handle_okD [OF that] by (simp add: handle_ok_def n_def)
    ultimately show ?thesis by (simp add: keeps_def n_def)
  qed
  have "keeps m m' \<and> (\<forall>l h. r = Inr (l, h) \<longrightarrow> handle_ok m' h \<and> ph_lease_id h = n)"
  proof (cases "lease_at m1 i = 0")
    case False
    with a' have "m' = ?m2" "\<And>x. r \<noteq> Inr x" by (auto simp add: acquire_on_def Let_def n_def)
    with keeps_trans [OF k1 raise] show ?thesis by simp
  next
    case True
    define e where "e = (entry_at ?m2 i)\<lparr>se_active_lease := n, se_protocol := po_protocol po, se_remote_endpoint := po_remote_endpoint po\<rparr>"
    let ?m3 = "put_entry i e ?m2"
    have m': "frame_of m' = frame_of ?m3" and r: "r = Inr (l, h) \<Longrightarrow> h = \<lparr>ph_stream_key = key, ph_entry = i, ph_lease_id = n, ph_closed = False\<rparr>" for l h
      using a' True by (auto simp: acquire_on_def Let_def n_def e_def calm)
    have at: "lease_at ?m3 j = (if j = i then n else lease_at m1 j)" "se_published (entry_at ?m3 j) = se_published (entry_at m1 j)"
      "se_stream_id (entry_at ?m3 j) = se_stream_id (entry_at m1 j)" "se_online (entry_at ?m3 j) = se_online (entry_at m1 j)"
      "session_events j ?m3 = session_events j m1" for j
      by (simp_all add: entry_at_put e_def session_events_def)
    have new: "lease_at m1 j \<noteq> n" for j using l(2) [of j] by (simp add: n_def)
    have "lease_ok ?m3 j" for j
      using l(1-6) [of j] l(4) [of j] i_in new unfolding lease_ok_def at by (cases "j = i") (auto simp: n_def)
    moreover have "events_fit ?m3 j" for j using l(7) [of j] events_fit_same [of j ?m3 m1] by (simp add: at)
    ultimately have ok3: "manager_ok ?m3" using d by (auto simp: manager_ok_def streams_ok_def)
    have below: "ph_lease_id h < n" if "handle_ok m1 h" for h using handle_okD(2) [OF that] by (simp add: n_def)
    have "handle_ok ?m3 h" if "handle_ok m1 h" for h
      using handle_okD [OF that] below [OF that] by (auto simp: handle_ok_def at)
    then have "keeps m1 ?m3"
      using ok3 below by (auto simp: keeps_def at) (simp add: n_def)
    then have "keeps m m'" by (rule keeps_calm_right [OF keeps_trans [OF k1] m'])
    moreover have "handle_ok m' h \<and> ph_lease_id h = n" if h: "r = Inr (l, h)" for l h
    proof -
      have "j = i" if "lease_at ?m3 j = n" for j using that new [of j] by (auto simp: at split: if_splits)
      with key have "handle_ok ?m3 h" by (auto simp: r [OF h] handle_ok_def n_def)
      then show ?thesis by (simp add: calm_ok [OF m'] r [OF h])
    qed
    ultimately show ?thesis by blast
  qed
  then show "keeps m m'" and "r = Inr (l, h) \<Longrightarrow> handle_ok m' h \<and> ph_lease_id h = mg_next_lease_id m + 1"
    by (simp_all add: n_def n1)
qed

lemma media_event_simps [simp]:
  "entry_at (publish_media_event ev m) j = entry_at m j"
  "mg_streams (publish_media_event ev m) = mg_streams m"
  "mg_next_stream_id (publish_media_event ev m) = mg_next_stream_id m"
  "mg_next_lease_id (publish_media_event ev m) = mg_next_lease_id m"
  "mg_media_event_bus (publish_media_event ev m) = None \<longleftrightarrow> mg_media_event_bus m = None"
  "mg_media_event_bus m \<noteq> None \<Longrightarrow> session_events j (publish_media_event ev m) = session_events j m @ session_event j ev"
  "session_events j (put_entry i e m) = session_events j m"
  by (auto simp: publish_media_event_def entry_at_def session_events_def cong del: option.case_cong_weak)

lemma publish_keeps:
  assumes ok: "manager_ok m" and lease: "lease_at m i \<noteq> 0"
  shows "keeps m (publish_stream_published key i m)"
proof (cases "se_published (entry_at m i)")
  case True
  with ok show ?thesis by (simp add: publish_stream_published_def calm_keeps)
next
  case False
  note d = manager_okD [OF ok]
  note l = lease_okD [OF ok]
  let ?m = "publish_stream_published key i m"
  have off: "\<not> se_online (entry_at m i)" using False l(6) by simp
  have at: "lease_at ?m j = lease_at m j" "se_published (entry_at ?m j) = (j = i \<or> se_published (entry_at m j))"
      "se_stream_id (entry_at ?m j) = se_stream_id (entry_at m j)" "se_online (entry_at ?m j) = (j = i \<or> se_online (entry_at m j))"
      "session_events j ?m = session_events j m @ (if j = i then [True] else [])" for j
    using d(4) False off l(1) [of i] by (auto simp: publish_stream_published_def Let_def entry_at_put)
  have f: "mg_streams ?m = mg_streams m" "mg_next_stream_id ?m = mg_next_stream_id m" "mg_next_lease_id ?m = mg_next_lease_id m"
      "mg_media_event_bus ?m \<noteq> None"
    using d(4) False off by (simp_all add: publish_stream_published_def Let_def)
  have "lease_ok ?m j" for j
    using l(1-6) [of j] l(4) [of j] lease unfolding lease_ok_def at f by auto
  moreover have "events_fit ?m j" for j
  proof (cases "j = i")
    case True
    with l(7) [of i] l(3) [of i] lease False show ?thesis by (simp add: events_fit_def at f)
  next
    case False
    with l(7) [of j] events_fit_same [of j ?m m] show ?thesis by (simp add: at f)
  qed
  ultimately have "manager_ok ?m" using d f by (auto simp: manager_ok_def streams_ok_def)
  moreover have "handle_ok ?m h = handle_ok m h" for h by (simp add: handle_ok_def at f)
  ultimately show ?thesis by (simp add: keeps_def at f)
qed

text \<open>The end of a lease: a stream that leaves the map never comes back, so its events are complete.\<close>

lemma release_keeps:
  assumes ok: "manager_ok m" and id: "lease_id \<noteq> 0" and r: "release_lease key lease_id m = (m', r)"
  shows "keeps m m'"
    and "r = Inr () \<Longrightarrow> \<exists>i. map_of (mg_streams m) key = Some i \<and> lease_at m i = lease_id \<and> lease_at m' i = 0"
    and "r \<noteq> Inr () \<Longrightarrow> m' = m"
proof -
  have "(keeps m m' \<and> r = Inr () \<and> (\<exists>i. map_of (mg_streams m) key = Some i \<and> lease_at m i = lease_id \<and> lease_at m' i = 0)) \<or> (m' = m \<and> r \<noteq> Inr ())"
  proof (cases "\<exists>i. map_of (mg_streams m) key = Some i \<and> lease_at m i = lease_id")
    case False
    with r show ?thesis by (auto simp: release_lease_def Let_def split: option.splits)
  next
    case True
    then obtain i where key: "map_of (mg_streams m) key = Some i" and lease: "lease_at m i = lease_id" by blast
    note d = manager_okD [OF ok]
    note l = lease_okD [OF ok]
    define e where "e = (entry_at m i)\<lparr>se_active_lease := 0, se_dispatcher := clear_subscribers (se_dispatcher (entry_at m i))\<rparr>"
    define m1 where "m1 = publish_stream_unpublished key i Close_Normal (put_entry i e m)"
    have m': "frame_of m' = frame_of (remove_stream key m1)" and rr: "r = Inr ()"
      using r key lease by (auto simp: release_lease_def Let_def m1_def e_def calm)
    have at1: "lease_at m1 j = (if j = i then 0 else lease_at m j)"
        "se_published (entry_at m1 j) = (j \<noteq> i \<and> se_published (entry_at m j))"
        "se_stream_id (entry_at m1 j) = se_stream_id (entry_at m j)"
        "se_online (entry_at m1 j) = (j \<noteq> i \<and> se_online (entry_at m j))"
        "session_events j m1 = session_events j m @ (if j = i \<and> se_published (entry_at m i) then [False] else [])" for j
      using d(4) l(1) [of i] by (auto simp: m1_def e_def publish_stream_unpublished_def Let_def entry_at_put)
    have f1: "mg_streams m1 = mg_streams m" "mg_next_stream_id m1 = mg_next_stream_id m"
        "mg_next_lease_id m1 = mg_next_lease_id m" "mg_media_event_bus m1 \<noteq> None"
      using d(4) by (simp_all add: m1_def publish_stream_unpublished_def Let_def del: not_None_eq)
    let ?m = "remove_stream key m1"
    have s: "mg_streams ?m = filter (\<lambda>(k, _). k \<noteq> key) (mg_streams m)" by (simp add: remove_stream_def f1)
    have at: "mg_next_stream_id ?m = mg_next_stream_id m" "mg_next_lease_id ?m = mg_next_lease_id m"
        "mg_media_event_bus ?m \<noteq> None" "entry_at ?m j = entry_at m1 j" "session_events j ?m = session_events j m1" for j
      using f1 by (simp_all add: remove_stream_def)
    have ins: "snd ` set (mg_streams ?m) = snd ` set (mg_streams m) - {i}"
      unfolding s by (rule filter_streams_snd [OF d(1,2) key])
    have i_in: "i \<in> snd ` set (mg_streams m)" using key by (force dest: map_of_SomeD)
    have "streams_ok ?m"
      using d at by (auto simp: streams_ok_def s distinct_filter_map)
    moreover have "lease_ok ?m j" for j
      using l(1-6) [of j] unfolding lease_ok_def at at1 ins by (cases "j = i") auto
    moreover have "events_fit ?m j" for j
      using l(7) [of j] i_in d(3) [OF i_in] by (cases "j = i") (auto simp: events_fit_def at at1 ins split: if_splits)
    ultimately have ok': "manager_ok ?m" by (simp add: manager_ok_def)
    have "handle_ok ?m h" if h: "handle_ok m h" for h
    proof -
      have "map_of (mg_streams ?m) (ph_stream_key h) = Some j" if j: "j \<noteq> i" "lease_at m j = ph_lease_id h" for j
        using handle_okD(4) [OF h j(2)] j(1) key by (auto simp: s map_of_filter_other)
      then show ?thesis using handle_okD(1-3) [OF h] by (auto simp: handle_ok_def at at1)
    qed
    then have "keeps m ?m" using ok' handle_okD(1) by (fastforce simp: keeps_def at at1)
    then have "keeps m m'" by (rule keeps_calm_right [OF _ m'])
    moreover have "lease_at m' i = 0" by (simp add: frame_ofD [OF m'] at at1)
    ultimately show ?thesis using key lease rr by blast
  qed
  then show "keeps m m'" and "r = Inr () \<Longrightarrow> \<exists>i. map_of (mg_streams m) key = Some i \<and> lease_at m i = lease_id \<and> lease_at m' i = 0"
    and "r \<noteq> Inr () \<Longrightarrow> m' = m"
    using ok calm_keeps [OF ok, of m] by auto
qed

lemma update_tracks_keeps:
  assumes ok: "manager_ok m" and h: "handle_ok m h"
  shows "keeps m (fst (update_tracks h ts m))"
proof (cases "ensure_active h m")
  case False
  with ok show ?thesis by (simp add: update_tracks_def calm_keeps)
next
  case True
  let ?m = "put_entry (ph_entry h) ((entry_at m (ph_entry h))\<lparr>se_tracks := ts\<rparr>) m"
  have f: "frame_of ?m = frame_of m" by (simp add: calm)
  have "lease_at ?m (ph_entry h) \<noteq> 0"
    using True handle_okD(1) [OF h] by (simp add: frame_ofD [OF f] ensure_active_def)
  then have "keeps ?m (publish_stream_published (ph_stream_key h) (ph_entry h) ?m)"
    using ok by (intro publish_keeps) (simp_all add: calm_ok [OF f])
  with True keeps_trans [OF calm_keeps [OF ok f]] calm_keeps [OF ok f] show ?thesis
    by (auto simp: update_tracks_def Let_def)
qed

lemma close_keeps:
  assumes ok: "manager_ok m" and h: "handle_ok m h" and c: "publisher_close h m = (m', h')"
  shows "keeps m m' \<and> ph_lease_id h' = ph_lease_id h \<and> ph_entry h' = ph_entry h \<and> ph_stream_key h' = ph_stream_key h
    \<and> (ph_closed h \<longrightarrow> ph_closed h')"
proof (cases "ph_closed h")
  case True
  with c ok show ?thesis by (auto simp: publisher_close_def calm_keeps)
next
  case False
  obtain m1 r where r: "release_lease (ph_stream_key h) (ph_lease_id h) m = (m1, r)" by (metis surj_pair)
  have "keeps m m1" using handle_okD(1) [OF h] by (intro release_keeps(1) [OF ok _ r]) simp
  with c False r show ?thesis by (auto simp: publisher_close_def)
qed

lemma subscriber_keeps:
  assumes ok: "manager_ok m"
  shows "keeps m (fst (subscriber_close now s m))" and "keeps m (fst (subscriber_drop ops now s m))"
proof -
  show c: "keeps m (fst (subscriber_close now s m))"
  proof (cases "sh_closed s")
    case True
    with ok show ?thesis by (simp add: subscriber_close_def calm_keeps)
  next
    case False
    let ?i = "sh_stream_id s"
    define m1 where "m1 = publish_stream_event (sh_stream_key s) Subscriber_Closed (Some ?i) (Some (sh_id s)) None None
      (put_entry ?i ((entry_at m ?i)\<lparr>se_dispatcher := remove_subscribers [sh_id s] (se_dispatcher (entry_at m ?i))\<rparr>) m)"
    have f: "frame_of m1 = frame_of m" by (simp add: m1_def calm)
    have "keeps m1 (cleanup_if_idle now (sh_stream_key s) m1)"
      using ok by (intro cleanup_keeps) (simp add: calm_ok [OF f])
    with keeps_trans [OF calm_keeps [OF ok f]] False show ?thesis
      by (simp add: subscriber_close_def Let_def m1_def)
  qed
  have "frame_of (fst (subscriber_drop ops now s m)) = frame_of (fst (subscriber_close now s m))"
    by (simp add: subscriber_drop_def Let_def calm split: prod.splits)
  then show "keeps m (fst (subscriber_drop ops now s m))" by (rule keeps_calm_right [OF c])
qed

section \<open>Runs keep the invariant\<close>

text \<open>A handle is used by one stream only; a handle list only grows, and closing is all that happens to a handle.\<close>

definition later :: "('c, 'q) engine \<Rightarrow> ('c, 'q) engine \<Rightarrow> bool" where
  "later x y \<longleftrightarrow>
     engine_ok y \<and> length (snd x) \<le> length (snd y)
     \<and> (\<forall>i < length (snd x). ph_lease_id (snd y ! i) = ph_lease_id (snd x ! i)
          \<and> (\<not> ensure_active (snd x ! i) (fst x) \<longrightarrow> \<not> ensure_active (snd y ! i) (fst y)))"

lemma later_same:
  assumes "engine_ok (m, hs)" and "keeps m m'"
  shows "later (m, hs) (m', hs)"
proof -
  have ok: "handle_ok m h" if "h \<in> set hs" for h using assms(1) that by (simp add: engine_ok_def)
  have "engine_ok (m', hs)" using assms keepsD(1,3) [OF assms(2)] ok by (simp add: engine_ok_def)
  moreover have "\<not> ensure_active (hs ! i) m'" if "i < length hs" "\<not> ensure_active (hs ! i) m" for i
    using that keepsD(4) [OF assms(2) ok [OF nth_mem]] by (auto simp: ensure_active_def)
  ultimately show ?thesis by (simp add: later_def)
qed

lemma step_later:
  assumes "engine_step ops jobs x y" and "engine_ok x"
  shows "later x y"
  using assms
proof (induction rule: engine_step.induct)
  case (acquired key po m m' l h hs)
  have ok: "manager_ok m" using acquired by (simp add: engine_ok_def)
  note k = acquire_keeps [OF ok acquired(1)]
  have k1: "keeps m m'" by (rule k(1))
  have h: "handle_ok m' h" "ph_lease_id h = mg_next_lease_id m + 1" using k(2) [of l h] by simp_all
  from later_same [OF acquired(2) k1] have same: "later (m, hs) (m', hs)" .
  have "ph_lease_id h \<notin> ph_lease_id ` set hs"
    using acquired(2) handle_okD(2) h(2) by (fastforce simp: engine_ok_def)
  with same h(1) show ?case by (auto simp: later_def engine_ok_def nth_append)
next
  case (refused key po m m' err hs)
  then show ?case using acquire_keeps(1) by (intro later_same) (auto simp: engine_ok_def)
next
  case (released l m hs)
  obtain m' r where r: "release_lease (pl_stream_key l) (pl_lease_id l) m = (m', r)" by (metis surj_pair)
  have "keeps m m'" using released by (intro release_keeps(1) [OF _ _ r]) (simp_all add: engine_ok_def)
  with released r show ?case by (intro later_same) (simp_all add: release_publisher_def)
next
  case (tracked h hs m ts)
  then show ?case by (intro later_same update_tracks_keeps) (auto simp: engine_ok_def)
next
  case (closed i hs m m' h')
  have ok: "manager_ok m" "handle_ok m (hs ! i)" using closed by (auto simp: engine_ok_def)
  note c = close_keeps [OF ok closed(2)]
  have k: "keeps m m'" using c by blast
  note same = later_same [OF closed(3) k]
  have leases: "map ph_lease_id (hs[i := h']) = map ph_lease_id hs"
    using c closed(1) by (metis length_map list_update_id map_update nth_map)
  have "handle_ok m' h'"
    using keepsD(3) [OF k ok(2)] c by (simp add: handle_ok_def)
  with same c closed(1) leases show ?case
    by (auto simp: later_def engine_ok_def nth_list_update ensure_active_def dest!: set_update_subset_insert [THEN subsetD])
next
  case (sub_closed now s m hs)
  then show ?case by (intro later_same subscriber_keeps) (auto simp: engine_ok_def)
next
  case (sub_dropped now s m hs)
  then show ?case by (intro later_same subscriber_keeps) (auto simp: engine_ok_def)
qed (auto intro!: later_same calm_keeps simp: engine_ok_def calm)

lemma later_refl: "engine_ok x \<Longrightarrow> later x x"
  by (simp add: later_def)

lemma later_trans:
  assumes "later x y" and "later y z"
  shows "later x z"
  using assms unfolding later_def by (auto intro: le_trans)

lemma run_later:
  assumes "engine_run ops jobs x y" and "engine_ok x"
  shows "later x y"
  using assms
proof (induction rule: engine_run.induct)
  case (engine_more x y z)
  then have "later x y" by simp
  moreover have "later y z" using engine_more by (intro step_later) (simp_all add: later_def)
  ultimately show ?case by (rule later_trans)
qed (rule later_refl)

lemma start_ok: "engine_ok (engine_start jobs workers cap)"
  by (simp add: engine_ok_def engine_start_def manager_ok_def streams_ok_def lease_ok_def events_fit_def set_media_event_bus_def
      manager_new_def entry_at_def stream_entry_new_def session_events_def)

lemma run_ok:
  assumes "engine_run ops jobs (engine_start jobs workers cap) x"
  shows "engine_ok x"
  using run_later [OF assms start_ok] by (simp add: later_def)

section \<open>One publisher for each stream\<close>

text \<open>
  C19: A stream never has two publishers. In any run of the manager, with the two steps of a push and of a
  subscription interleaved with anything else, but \<^verbatim>\<open>acquire_publisher\<close> and the release of a lease each as one step,
  two handles that were given out for the same stream key and are both active are the same handle; and the stream
  is then in the map, shown with an active publisher and the id of the entry the handle writes to.
\<close>

theorem one_publisher_per_stream:
  assumes "engine_run ops jobs (engine_start jobs workers cap) (m, hs)" and "i < length hs" and "j < length hs"
    and "ensure_active (hs ! i) m" and "ensure_active (hs ! j) m" and "ph_stream_key (hs ! i) = ph_stream_key (hs ! j)"
  shows "i = j
    \<and> (\<exists>s. get_stream m (ph_stream_key (hs ! i)) = Some s \<and> sn_publisher_active s \<and> sn_stream_id s = ph_entry (hs ! i))"
proof -
  from run_ok [OF assms(1)] have ok: "manager_ok m" "\<forall>h\<in>set hs. handle_ok m h" "distinct (map ph_lease_id hs)"
    by (simp_all add: engine_ok_def)
  have at: "map_of (mg_streams m) (ph_stream_key (hs ! k)) = Some (ph_entry (hs ! k))" "lease_at m (ph_entry (hs ! k)) = ph_lease_id (hs ! k)"
    "0 < ph_lease_id (hs ! k)" if "k < length hs" "ensure_active (hs ! k) m" for k
    using ok(2) that handle_okD(1,4) [of m "hs ! k"] by (auto simp: ensure_active_def)
  have "ph_lease_id (hs ! i) = ph_lease_id (hs ! j)"
    using at(1,2) [OF assms(2,4)] at(1,2) [OF assms(3,5)] assms(6) by simp
  with ok(3) assms(2,3) have "i = j" by (simp add: distinct_conv_nth) metis
  with at [OF assms(2,4)] lease_okD(1) [OF ok(1), of "ph_entry (hs ! i)"] show ?thesis
    by (simp add: get_stream_def snapshot_for_def Let_def)
qed

definition sample_key :: stream_key where
  "sample_key = \<lparr>sy_namespace = ''live'', sy_path = ''a''\<rparr>"

definition sample_publisher :: publisher_options where
  "sample_publisher = \<lparr>po_announce_tracks = True, po_protocol = ''rtmp'', po_remote_endpoint = None\<rparr>"

definition sample_handle :: "nat \<Rightarrow> nat \<Rightarrow> publisher_handle" where
  "sample_handle i n = \<lparr>ph_stream_key = sample_key, ph_entry = i, ph_lease_id = n, ph_closed = False\<rparr>"

lemmas sample_eval = acquire_publisher_def acquire_on_def get_or_create_stream_def engine_start_def set_media_event_bus_def
  manager_new_def Let_def entry_at_def put_entry_def stream_entry_new_def sample_handle_def publish_stream_event_def
  ensure_active_def release_publisher_def release_lease_def remove_stream_def publish_stream_unpublished_def

type_synonym sample = "(av_frame channel, (nat \<times> av_frame) channel) manager"

definition sample_manager :: sample where
  "sample_manager = fst (acquire_publisher sample_key sample_publisher (fst (engine_start fifo None 0)))"

lemma sample_acquired: "engine_run fifo fifo (engine_start fifo None 0) (sample_manager, [sample_handle 1 1])"
proof (rule engine_more [OF engine_here])
  let ?m = "fst (engine_start fifo None 0)"
  have "acquire_publisher sample_key sample_publisher ?m =
      (sample_manager, Inr (\<lparr>pl_stream_id = 1, pl_stream_key = sample_key, pl_lease_id = 1\<rparr>, sample_handle 1 1))"
    unfolding sample_manager_def
    by (simp add: sample_eval)
  from engine_step.acquired [OF this, of fifo fifo "[]"]
  show "engine_step fifo fifo (engine_start fifo None 0) (sample_manager, [sample_handle 1 1])"
    by (simp add: engine_start_def)
qed

lemma sample_active: "ensure_active (sample_handle 1 1) sample_manager"
  by (simp add: sample_manager_def sample_eval)

theorem one_publisher_per_stream_witness:
  "\<exists>s. get_stream sample_manager sample_key = Some s \<and> sn_publisher_active s \<and> sn_stream_id s = 1"
  using one_publisher_per_stream [OF sample_acquired, of 0 0] sample_active by (auto simp: sample_handle_def)

section \<open>Handles whose lease has ended\<close>

text \<open>
  C31: A handle whose lease has ended stays without effect on frames, tracks and leases. In any such run, once a
  publisher handle is not active, because it was closed or its lease was released, then in every later state, also
  when another publisher has taken the same stream key, it is still not active, a push is answered with RejectedClosed,
  and a push, an update of the tracks and a close, also the one of its drop, leave the manager as it is. (It can still
  take the requests for key frames of its old entry.)
\<close>

theorem stale_handle_inert:
  assumes "engine_run ops jobs (engine_start jobs workers cap) (m, hs)" and "i < length hs" and "\<not> ensure_active (hs ! i) m"
    and "engine_run ops jobs (m, hs) (m', hs')"
  shows "\<not> ensure_active (hs' ! i) m' \<and> push_frame ops jobs (hs' ! i) f m' = (m', Inr Rejected_Closed)
    \<and> fst (update_tracks (hs' ! i) ts m') = m' \<and> fst (publisher_close (hs' ! i) m') = m'"
proof -
  let ?h = "hs' ! i"
  have l: "later (m, hs) (m', hs')" by (rule run_later [OF assms(4) run_ok [OF assms(1)]])
  with assms(2,3) have stale: "\<not> ensure_active ?h m'" and len: "i < length hs'" and ok: "engine_ok (m', hs')"
    by (auto simp: later_def)
  then have mok: "manager_ok m'" and hok: "handle_ok m' ?h" by (simp_all add: engine_ok_def)
  have "fst (publisher_close ?h m') = m'"
  proof (cases "ph_closed ?h")
    case False
    with stale have ended: "lease_at m' (ph_entry ?h) \<noteq> ph_lease_id ?h" by (simp add: ensure_active_def)
    obtain m1 r where r: "release_lease (ph_stream_key ?h) (ph_lease_id ?h) m' = (m1, r)" by (metis surj_pair)
    have id: "ph_lease_id ?h \<noteq> 0" using handle_okD(1) [OF hok] by simp
    have "r \<noteq> Inr ()"
    proof
      assume "r = Inr ()"
      with release_keeps(2) [OF mok id r] obtain k where "lease_at m' k = ph_lease_id ?h" by blast
      with handle_okD(3) [OF hok] ended show False by metis
    qed
    with release_keeps(3) [OF mok id r] r False show ?thesis by (simp add: publisher_close_def)
  qed (simp add: publisher_close_def)
  with stale show ?thesis by (simp add: push_frame_def update_tracks_def)
qed

text \<open>A publisher is replaced by another one on the same key; the old handle, not closed, is inert.\<close>

definition replaced_manager :: sample where
  "replaced_manager =
     fst (acquire_publisher sample_key sample_publisher
       (fst (release_publisher \<lparr>pl_stream_id = 1, pl_stream_key = sample_key, pl_lease_id = 1\<rparr> sample_manager)))"

theorem stale_handle_inert_witness:
  "ensure_active (sample_handle 2 2) replaced_manager
   \<and> fst (publisher_close (sample_handle 1 1) replaced_manager) = replaced_manager"
proof -
  let ?l = "\<lparr>pl_stream_id = 1, pl_stream_key = sample_key, pl_lease_id = 1\<rparr>"
  let ?m = "fst (release_publisher ?l sample_manager)"
  have r1: "engine_run fifo fifo (engine_start fifo None 0) (?m, [sample_handle 1 1])"
    by (rule engine_more [OF sample_acquired released]) simp
  have r2: "acquire_publisher sample_key sample_publisher ?m =
      (replaced_manager, Inr (\<lparr>pl_stream_id = 2, pl_stream_key = sample_key, pl_lease_id = 2\<rparr>, sample_handle 2 2))"
    and act: "ensure_active (sample_handle 2 2) replaced_manager" and old: "\<not> ensure_active (sample_handle 1 1) ?m"
    unfolding replaced_manager_def sample_manager_def by (simp_all add: sample_eval)
  have "engine_run fifo fifo (?m, [sample_handle 1 1]) (replaced_manager, [sample_handle 1 1, sample_handle 2 2])"
    using engine_step.acquired [OF r2, of fifo fifo "[sample_handle 1 1]"] by (intro engine_more [OF engine_here]) simp
  from stale_handle_inert [OF r1 _ _ this, of 0] old act show ?thesis by simp
qed

section \<open>The media events of a stream\<close>

text \<open>
  A stream is announced once and its end is announced once, in this order. In any run, the media events with the
  session id of a stream are none, one StreamPublished, or one StreamPublished and then one StreamUnpublished; after
  StreamPublished alone the stream is listed with an active publisher, and a stream that is still listed has
  not been announced as ended.
\<close>

lemma media_events_once:
  assumes "engine_run ops jobs (engine_start jobs workers cap) (m, hs)"
  shows "session_events i m \<in> {[], [True], [True, False]}
    \<and> (session_events i m = [True] \<longleftrightarrow> se_published (entry_at m i))
    \<and> (session_events i m = [True] \<longrightarrow> (\<exists>s\<in>set (list_streams m). sn_stream_id s = i \<and> sn_publisher_active s))
    \<and> (session_events i m = [True, False] \<longrightarrow> (\<forall>s\<in>set (list_streams m). sn_stream_id s \<noteq> i))"
proof -
  from run_ok [OF assms] have ok: "manager_ok m" by (simp add: engine_ok_def)
  note l = lease_okD [OF ok]
  have listed: "(\<exists>s\<in>set (list_streams m). sn_stream_id s = j \<and> P (sn_publisher_active s)) \<longleftrightarrow> j \<in> snd ` set (mg_streams m) \<and> P (lease_at m j \<noteq> 0)" for P j
    using l(1) by (force simp: list_streams_def snapshot_for_def Let_def)
  have ev: "session_events i m \<in> {[], [True], [True, False]}" "session_events i m = [True] \<longleftrightarrow> se_published (entry_at m i)"
    "session_events i m = [True, False] \<longrightarrow> i \<notin> snd ` set (mg_streams m)"
    using l(7) [of i] by (auto simp: events_fit_def split: if_splits)
  have "\<exists>s\<in>set (list_streams m). sn_stream_id s = i \<and> sn_publisher_active s" if "session_events i m = [True]"
    using that ev(2) l(3,5) [of i] listed [of i "\<lambda>b. b"] by blast
  moreover have "\<forall>s\<in>set (list_streams m). sn_stream_id s \<noteq> i" if "session_events i m = [True, False]"
    using that ev(3) listed [of i "\<lambda>b. True"] by blast
  ultimately show ?thesis using ev by blast
qed

lemma media_events_once_witness:
  "\<forall>t. session_events 1 (fst (update_tracks (sample_handle 1 1) [t] sample_manager)) = [True]"
proof
  fix t
  let ?m = "fst (update_tracks (sample_handle 1 1) [t] sample_manager)"
  have r: "engine_run fifo fifo (engine_start fifo None 0) (?m, [sample_handle 1 1])"
    by (rule engine_more [OF sample_acquired tracked]) simp
  have "se_published (entry_at ?m 1)"
    using sample_active
    by (simp add: update_tracks_def Let_def publish_stream_published_def entry_at_put sample_handle_def)
  with media_events_once [OF r, of 1] show "session_events 1 ?m = [True]" by blast
qed

section \<open>The end of a stream for its subscribers\<close>

text \<open>
  What a subscriber receives in at most \<open>n\<close> calls, up to the first call that has no frame; and what a channel still
  has to give, as its own operations tell.
\<close>

fun receive_all ::
  "(av_frame, 'c) chan_ops \<Rightarrow> nat \<Rightarrow> subscriber_handle \<Rightarrow> ('c, 'q) manager \<Rightarrow> av_frame list \<times> recv_result" where
  "receive_all ops 0 s m = ([], Waiting)"
| "receive_all ops (Suc n) s m =
     (case recv ops s m of
        (m', Got f) \<Rightarrow> (case receive_all ops n s m' of (fs, r) \<Rightarrow> (f # fs, r))
      | (m', r) \<Rightarrow> ([], r))"

fun chan_holds :: "('a, 'c) chan_ops \<Rightarrow> 'c \<Rightarrow> 'a list \<Rightarrow> bool" where
  "chan_holds ops c [] \<longleftrightarrow> chan_recv ops c = None"
| "chan_holds ops c (f # fs) \<longleftrightarrow> (case chan_recv ops c of None \<Rightarrow> False | Some (g, c') \<Rightarrow> g = f \<and> chan_holds ops c' fs)"

lemma receive_all_unsubscribed:
  assumes "\<not> sh_closed s" and "dp_subscribers (se_dispatcher (entry_at m (sh_stream_id s))) = []"
    and "dp_channels (se_dispatcher (entry_at m (sh_stream_id s))) (sh_id s) = Some c" and "chan_holds ops c fs"
  shows "receive_all ops (Suc (length fs)) s m = (fs, End_Of_Stream)"
  using assms(2-4)
proof (induction fs arbitrary: c m)
  case Nil
  then show ?case using assms(1) by (simp add: recv_def Let_def)
next
  case (Cons f fs)
  obtain c' where c': "chan_recv ops c = Some (f, c')" "chan_holds ops c' fs"
    using Cons.prems(3) by (auto split: option.splits)
  let ?i = "sh_stream_id s" let ?d = "se_dispatcher (entry_at m (sh_stream_id s))"
  let ?m = "put_entry ?i ((entry_at m ?i)\<lparr>se_dispatcher := ?d\<lparr>dp_channels := (dp_channels ?d)(sh_id s \<mapsto> c')\<rparr>\<rparr>) m"
  have r: "recv ops s m = (?m, Got f)" using Cons.prems c'(1) assms(1) by (simp add: recv_def Let_def)
  have "receive_all ops (Suc (length fs)) s ?m = (fs, End_Of_Stream)"
    using Cons.IH [of ?m c'] Cons.prems c'(2) by (simp add: entry_at_put)
  then show ?case using r by (simp del: receive_all.simps(2) add: receive_all.simps(2) [of ops "Suc (length fs)"])
qed

text \<open>
  When a publisher's lease is released, its subscribers come to an end and lose nothing. A subscriber of the
  stream, whatever its channel still holds, receives exactly these frames and then the end of the stream, after as
  many calls of recv as there are frames and one more; it never waits for a frame that cannot come.
\<close>

lemma released_stream_drains:
  assumes "release_lease key lease_id m = (m', Inr ())" and "map_of (mg_streams m) key = Some (sh_stream_id s)"
    and "\<not> sh_closed s" and "dp_channels (se_dispatcher (entry_at m (sh_stream_id s))) (sh_id s) = Some c"
    and "chan_holds ops c fs"
  shows "receive_all ops (Suc (length fs)) s m' = (fs, End_Of_Stream)"
proof (rule receive_all_unsubscribed [OF assms(3) _ _ assms(5)])
  let ?d = "se_dispatcher (entry_at m' (sh_stream_id s))"
  have "?d = clear_subscribers (se_dispatcher (entry_at m (sh_stream_id s)))"
    using assms(1,2)
    by (auto simp: release_lease_def Let_def publish_stream_event_def remove_stream_def publish_stream_unpublished_def
        publish_media_event_def entry_at_def put_entry_def split: if_splits)
  with assms(4) show "dp_subscribers ?d = []" "dp_channels ?d (sh_id s) = Some c"
    by (simp_all add: clear_subscribers_def)
qed

section \<open>Interleavings\<close>

text \<open>
  The steps of an operation are not one: between \<open>get_or_create_stream\<close> and the claim of the lease, the publisher of
  that stream may release it. The new publisher then holds a lease of an entry that is no longer in the map, and
  another one can open the same key: two active publishers, and the frames of the first reach nobody.
\<close>

lemma acquire_after_release_orphans:
  "let m1 = sample_manager;
       (m2, i) = get_or_create_stream sample_key m1;
       m3 = fst (release_lease sample_key 1 m2);
       m4 = fst (acquire_on sample_key sample_publisher i m3);
       m5 = fst (acquire_publisher sample_key sample_publisher m4) in
   i = 1 \<and> ensure_active (sample_handle 1 2) m5 \<and> ensure_active (sample_handle 2 3) m5
   \<and> map_of (mg_streams m5) sample_key = Some 2"
  by code_simp

text \<open>
  A subscription between the two steps of a push finds the frame in the ring and gets it again when it is dispatched.
\<close>

lemma subscribe_within_push_duplicates:
  "let h = sample_handle 1 1;
       m1 = push_to_ring h (flagged 1) sample_manager;
       m2 = fst (subscribe fifo sample_key subscriber_options_default m1);
       m3 = fst (push_dispatch fifo fifo h (flagged 1) m2) in
   map_option ch_queue (dp_channels (se_dispatcher (entry_at m3 1)) 1) = Some [flagged 1, flagged 1]"
  by code_simp

text \<open>The frames of the ring pass no media filter: a subscriber without video gets the video frames of the ring.\<close>

lemma bootstrap_ignores_filter:
  "let m1 = push_to_ring (sample_handle 1 1) (flagged 1) sample_manager;
       so = subscriber_options_default\<lparr>so_media_filter := \<lparr>mf_enable_video = False, mf_enable_audio = True\<rparr>\<rparr>;
       m2 = fst (subscribe fifo sample_key so m1);
       m3 = fst (push_dispatch fifo fifo (sample_handle 1 1) (flagged 1) m2) in
   av_media_kind (flagged 1) = Video
   \<and> map_option ch_queue (dp_channels (se_dispatcher (entry_at m3 1)) 1) = Some [flagged 1]"
  by code_simp

end
