(* ===== verification/Float64.thy ===== *)
theory Float64
  imports Prelude
begin

text \<open>
  What the RTMP core uses of \<^verbatim>\<open>f64\<close>: the IEEE-754 double is its 64 bits, a finite one has the exact
  value \<open>f64_units b / 2 ^ 1074\<close>, and the casts \<^verbatim>\<open>as i64\<close>, \<^verbatim>\<open>as u32\<close> and \<^verbatim>\<open>as f64\<close> follow the Rust
  reference (truncation towards zero with saturation, NaN to zero; round to nearest, ties to even).
  An \<^verbatim>\<open>i64\<close> is an \<open>int\<close> in its range.
\<close>

section \<open>Fields and values\<close>

definition f64_exponent :: "u64 \<Rightarrow> nat" where "f64_exponent b = unat b div 2 ^ 52 mod 2048"
definition f64_fraction :: "u64 \<Rightarrow> nat" where "f64_fraction b = unat b mod 2 ^ 52"
definition f64_negative :: "u64 \<Rightarrow> bool" where "f64_negative b \<longleftrightarrow> 2 ^ 63 \<le> unat b"

definition f64_is_finite :: "u64 \<Rightarrow> bool" where "f64_is_finite b \<longleftrightarrow> f64_exponent b \<noteq> 2047"
definition f64_is_nan :: "u64 \<Rightarrow> bool" where
  "f64_is_nan b \<longleftrightarrow> f64_exponent b = 2047 \<and> f64_fraction b \<noteq> 0"

definition f64_units :: "u64 \<Rightarrow> int" where
  "f64_units b =
     (if f64_negative b then -1 else 1)
     * (if f64_exponent b = 0 then int (f64_fraction b)
        else int (f64_fraction b + 2 ^ 52) * 2 ^ (f64_exponent b - 1))"

definition f64_one :: int where "f64_one = 2 ^ 1074"

section \<open>Casts\<close>

definition i64_max :: int where "i64_max = 2 ^ 63 - 1"
definition i64_min :: int where "i64_min = - (2 ^ 63)"

definition i64_clamp :: "int \<Rightarrow> int" where "i64_clamp n = max i64_min (min i64_max n)"

text \<open>Truncation towards zero of \<open>n / d\<close>.\<close>

definition trunc_div :: "int \<Rightarrow> int \<Rightarrow> int" where
  "trunc_div n d = (if 0 \<le> n then n div d else - ((- n) div d))"

definition f64_as_i64 :: "u64 \<Rightarrow> int" where
  "f64_as_i64 b =
     (if f64_is_nan b then 0
      else if f64_is_finite b then i64_clamp (trunc_div (f64_units b) f64_one)
      else if f64_negative b then i64_min else i64_max)"

definition f64_as_u32 :: "u64 \<Rightarrow> u32" where
  "f64_as_u32 b =
     (if f64_is_nan b then 0
      else if f64_is_finite b
      then of_int (max 0 (min (2 ^ 32 - 1) (trunc_div (f64_units b) f64_one)))
      else if f64_negative b then 0 else - 1)"

fun bit_len :: "nat \<Rightarrow> nat" where
  "bit_len n = (if n = 0 then 0 else Suc (bit_len (n div 2)))"

declare bit_len.simps [simp del]

text \<open>
  The magnitude of \<open>n > 0\<close>: shifted so that it has 53 bits (rounded to nearest, ties to even, when
  bits are lost); a carry out of the fraction increments the exponent by itself.
\<close>

definition f64_magnitude :: "nat \<Rightarrow> nat" where
  "f64_magnitude n =
     (let e = bit_len n - 1 in
      if e \<le> 52 then (e + 1023) * 2 ^ 52 + (n * 2 ^ (52 - e) - 2 ^ 52)
      else
        (let s = e - 52; q = n div 2 ^ s; r = n mod 2 ^ s; half = 2 ^ (s - 1);
             up = (if half < r \<or> half = r \<and> odd q then 1 else 0)
         in (e + 1023) * 2 ^ 52 + (q - 2 ^ 52) + up))"

definition i64_as_f64 :: "int \<Rightarrow> u64" where
  "i64_as_f64 n =
     (if n = 0 then 0
      else of_nat ((if n < 0 then 2 ^ 63 else 0) + f64_magnitude (nat \<bar>n\<bar>)))"

section \<open>Comparisons\<close>

definition f64_ge_zero :: "u64 \<Rightarrow> bool" where
  "f64_ge_zero b \<longleftrightarrow>
     \<not> f64_is_nan b \<and> (if f64_is_finite b then 0 \<le> f64_units b else \<not> f64_negative b)"

definition f64_is_zero :: "u64 \<Rightarrow> bool" where
  "f64_is_zero b \<longleftrightarrow> f64_is_finite b \<and> f64_units b = 0"

text \<open>
  The rounding helper of \<^verbatim>\<open>command.rs\<close>. The difference \<^verbatim>\<open>value - truncated as f64\<close> is compared with
  \<open>\<plusminus>0.5\<close> only; rounding it to a double is monotone and keeps \<open>\<plusminus>0.5\<close>, so the exact difference (in units
  of \<open>2 ^ -1074\<close>) decides the comparisons. For an infinite value the difference is that infinity.
\<close>

definition round_f64_to_i64 :: "u64 \<Rightarrow> int" where
  "round_f64_to_i64 v =
     (let truncated = f64_as_i64 v;
          fractional = f64_units v - f64_units (i64_as_f64 truncated)
      in if f64_is_nan v then truncated
         else if \<not> f64_is_finite v then truncated
         else if f64_ge_zero v then
           (if f64_one \<le> 2 * fractional then i64_clamp (truncated + 1) else truncated)
         else if 2 * fractional \<le> - f64_one then i64_clamp (truncated - 1)
         else truncated)"

section \<open>Exact integers\<close>

lemma bit_len_bounds:
  assumes "0 < n"
  shows "0 < bit_len n" and "2 ^ (bit_len n - 1) \<le> n" and "n < 2 ^ bit_len n"
proof -
  have "0 < bit_len n \<and> 2 ^ (bit_len n - 1) \<le> n \<and> n < 2 ^ bit_len n"
    using assms
  proof (induction n rule: bit_len.induct)
    case (1 n)
    show ?case
    proof (cases "n div 2 = 0")
      case True
      with 1 have "n = 1" by simp
      then show ?thesis by (simp add: bit_len.simps [of "Suc 0"] bit_len.simps [of 0])
    next
      case False
      with 1 have ih: "0 < bit_len (n div 2)" "2 ^ (bit_len (n div 2) - 1) \<le> n div 2"
        "n div 2 < 2 ^ bit_len (n div 2)" by simp_all
      have b: "bit_len n = Suc (bit_len (n div 2))" using 1 by (simp add: bit_len.simps [of n])
      obtain k where k: "bit_len (n div 2) = Suc k" using ih(1) gr0_conv_Suc by blast
      have "2 * 2 ^ k \<le> n" "n < 2 * (2 * 2 ^ k)" using ih(2,3) unfolding k by simp_all
      then show ?thesis by (simp add: b k)
    qed
  qed
  then show "0 < bit_len n" "2 ^ (bit_len n - 1) \<le> n" "n < 2 ^ bit_len n" by simp_all
qed

lemma f64_fields:
  fixes neg :: bool
  assumes "E < 2048" and "f < 2 ^ 52"
  defines "b \<equiv> of_nat ((if neg then 2 ^ 63 else 0) + (E * 2 ^ 52 + f)) :: u64"
  shows "f64_exponent b = E" and "f64_fraction b = f" and "f64_negative b = neg"
proof -
  have "E * 2 ^ 52 + f < 2048 * 2 ^ 52" using assms(1,2) by simp
  then have lt: "(if neg then 2 ^ 63 else 0) + (E * 2 ^ 52 + f) < 2 ^ 64" by simp
  then have u: "unat b = (if neg then 2 ^ 63 else 0) + (E * 2 ^ 52 + f)"
    unfolding b_def by (subst unat_of_nat) (simp only: len_num1 len_bit0 mod_less mult_2, simp)
  have c: "(if neg then 2 ^ 63 else (0 :: nat)) = (if neg then 2048 else 0) * 2 ^ 52" by simp
  define H where "H = (if neg then 2048 else 0) + E"
  have "unat b = H * 2 ^ 52 + f"
    unfolding u c H_def by (simp add: algebra_simps)
  then have "unat b div 2 ^ 52 = H" "unat b mod 2 ^ 52 = f"
    using assms(2) by simp_all
  then show "f64_exponent b = E" "f64_fraction b = f"
    using assms(1) by (simp_all add: f64_exponent_def f64_fraction_def H_def)
  show "f64_negative b = neg"
    using assms(1,2) unfolding f64_negative_def u by simp
qed

lemma f64_magnitude_exact:
  assumes "0 < n" and "n < 2 ^ 53"
  obtains E f where "f64_magnitude n = E * 2 ^ 52 + f" "E < 2047" "0 < E" "f < 2 ^ 52"
    "(f + 2 ^ 52) * 2 ^ (E - 1) = n * 2 ^ 1074"
proof -
  let ?e = "bit_len n - 1"
  note b = bit_len_bounds [OF assms(1)]
  have "(2::nat) ^ ?e < 2 ^ 53" using b(2) assms(2) by linarith
  then have "?e < 53" by (rule power_less_imp_less_exp [rotated]) simp
  then have e: "?e \<le> 52" by simp
  have hi: "n < 2 * 2 ^ ?e" using b(1,3) by (cases "bit_len n") simp_all
  have p: "(2::nat) ^ ?e * 2 ^ (52 - ?e) = 2 ^ 52" using e by (simp flip: power_add)
  have lo: "2 ^ 52 \<le> n * 2 ^ (52 - ?e)" using b(2) p by (metis mult_le_mono1)
  have "n * 2 ^ (52 - ?e) < (2 * 2 ^ ?e) * 2 ^ (52 - ?e)" using hi by simp
  then have up: "n * 2 ^ (52 - ?e) < 2 * 2 ^ 52" using p by (simp only: mult.assoc)
  have "(n * 2 ^ (52 - ?e) - 2 ^ 52 + 2 ^ 52) * 2 ^ (?e + 1023 - 1) = n * (2 ^ (52 - ?e) * 2 ^ (?e + 1022))"
    using lo by simp
  also have "\<dots> = n * 2 ^ 1074" using e by (simp flip: power_add)
  finally have v: "(n * 2 ^ (52 - ?e) - 2 ^ 52 + 2 ^ 52) * 2 ^ (?e + 1023 - 1) = n * 2 ^ 1074" .
  show thesis
  proof (rule that)
    show "f64_magnitude n = (?e + 1023) * 2 ^ 52 + (n * 2 ^ (52 - ?e) - 2 ^ 52)"
      using e by (simp add: f64_magnitude_def Let_def)
    show "n * 2 ^ (52 - ?e) - 2 ^ 52 < 2 ^ 52" using lo up by linarith
    show "(n * 2 ^ (52 - ?e) - 2 ^ 52 + 2 ^ 52) * 2 ^ (?e + 1023 - 1) = n * 2 ^ 1074" by (rule v)
  qed (use e in auto)
qed

lemma i64_as_f64_exact:
  assumes "\<bar>n\<bar> < 2 ^ 53"
  shows "f64_is_finite (i64_as_f64 n)" and "f64_units (i64_as_f64 n) = n * f64_one"
proof -
  have "f64_is_finite (i64_as_f64 n) \<and> f64_units (i64_as_f64 n) = n * f64_one"
  proof (cases "n = 0")
    case True
    then show ?thesis
      by (simp add: i64_as_f64_def f64_is_finite_def f64_exponent_def f64_units_def f64_fraction_def)
  next
    case False
    have "0 < nat \<bar>n\<bar>" "nat \<bar>n\<bar> < 2 ^ 53" using False assms by auto
    then obtain E f where m: "f64_magnitude (nat \<bar>n\<bar>) = E * 2 ^ 52 + f" and E: "E < 2047" "0 < E"
      and f: "f < 2 ^ 52" and v: "(f + 2 ^ 52) * 2 ^ (E - 1) = nat \<bar>n\<bar> * 2 ^ 1074"
      by (rule f64_magnitude_exact)
    have "int ((f + 2 ^ 52) * 2 ^ (E - 1)) = \<bar>n\<bar> * 2 ^ 1074" unfolding v by simp
    then have v': "int (f + 2 ^ 52) * 2 ^ (E - 1) = \<bar>n\<bar> * f64_one" by (simp add: f64_one_def)
    have "E < 2048" using E by simp
    note fl = f64_fields [OF this f, of "n < 0"]
    have b: "i64_as_f64 n = of_nat ((if n < 0 then 2 ^ 63 else 0) + (E * 2 ^ 52 + f))"
      using False by (simp only: i64_as_f64_def m if_False)
    show ?thesis
      unfolding b f64_is_finite_def f64_units_def fl using E v'
      by (auto simp: abs_if)
  qed
  then show "f64_is_finite (i64_as_f64 n)" "f64_units (i64_as_f64 n) = n * f64_one" by simp_all
qed

lemma f64_one_pos [simp]: "0 < f64_one" "\<not> f64_one \<le> 0" "f64_one \<noteq> 0"
  by (simp_all add: f64_one_def)

lemma trunc_div_exact [simp]: "trunc_div (n * f64_one) f64_one = n"
  by (simp add: trunc_div_def zero_le_mult_iff order.strict_implies_order flip: mult_minus_left)

lemma i64_clamp_small [simp]: "\<bar>n\<bar> < 2 ^ 53 \<Longrightarrow> i64_clamp n = n"
  by (simp add: i64_clamp_def i64_max_def i64_min_def)

lemma f64_finite_not_nan: "f64_is_finite b \<Longrightarrow> \<not> f64_is_nan b"
  by (simp add: f64_is_finite_def f64_is_nan_def)

lemma f64_as_i64_exact: "\<bar>n\<bar> < 2 ^ 53 \<Longrightarrow> f64_as_i64 (i64_as_f64 n) = n"
  by (simp add: f64_as_i64_def i64_as_f64_exact f64_finite_not_nan)

lemma round_f64_to_i64_exact: "\<bar>n\<bar> < 2 ^ 53 \<Longrightarrow> round_f64_to_i64 (i64_as_f64 n) = n"
  by (simp add: round_f64_to_i64_def f64_as_i64_exact i64_as_f64_exact f64_finite_not_nan Let_def)

end
