(* ===== verification/Rtcp_Packet.thy ===== *)
theory Rtcp_Packet
  imports Rtmp_Bytes
begin

text \<open>
  RTCP compound packets, \<^verbatim>\<open>src/crates/protocols/rtp/core/src/rtcp/\<close>: sender and receiver reports, source
  descriptions, goodbyes, application packets and packets of unknown types, their encoders and parsers.
\<close>

section \<open>Lossy text\<close>

text \<open>
  \<^verbatim>\<open>String::from_utf8_lossy\<close>: valid sequences are kept, each maximal prefix of a sequence that cannot be
  continued becomes U+FFFD. \<open>utf8_prefix\<close> is the number of bytes of a well-formed sequence at the front,
  or of the bad prefix.
\<close>

definition second_ok :: "u8 \<Rightarrow> u8 \<Rightarrow> bool" where
  "second_ok a b =
     (if a = 0xE0 then 0xA0 \<le> b \<and> b \<le> 0xBF
      else if a = 0xED then 0x80 \<le> b \<and> b \<le> 0x9F
      else if a = 0xF0 then 0x90 \<le> b \<and> b \<le> 0xBF
      else if a = 0xF4 then 0x80 \<le> b \<and> b \<le> 0x8F
      else utf8_cont b)"

definition utf8_width :: "u8 \<Rightarrow> nat" where
  "utf8_width a =
     (if a \<le> 0x7F then 1 else if 0xC2 \<le> a \<and> a \<le> 0xDF then 2
      else if 0xE0 \<le> a \<and> a \<le> 0xEF then 3 else if 0xF0 \<le> a \<and> a \<le> 0xF4 then 4 else 0)"

definition utf8_prefix :: "u8 \<Rightarrow> bytes \<Rightarrow> bool \<times> nat" where
  "utf8_prefix a r =
     (let w = utf8_width a in
      if w = 1 then (True, 1)
      else if w = 0 then (False, 1)
      else case r of
        [] \<Rightarrow> (False, 1)
      | b # r1 \<Rightarrow>
          if \<not> second_ok a b then (False, 1)
          else if w = 2 then (True, 2)
          else case r1 of
            [] \<Rightarrow> (False, 2)
          | c # r2 \<Rightarrow>
              if \<not> utf8_cont c then (False, 2)
              else if w = 3 then (True, 3)
              else case r2 of
                [] \<Rightarrow> (False, 3)
              | d # r3 \<Rightarrow> if utf8_cont d then (True, 4) else (False, 3))"

definition replacement_char :: bytes where
  "replacement_char = [0xEF, 0xBF, 0xBD]"

lemma utf8_prefix_pos: "utf8_prefix a r = (ok, n) \<Longrightarrow> 0 < n"
  by (auto simp: utf8_prefix_def Let_def split: if_splits list.splits)

function utf8_lossy :: "bytes \<Rightarrow> bytes" where
  "utf8_lossy [] = []"
| "utf8_lossy (a # r) =
     (case utf8_prefix a r of (ok, n) \<Rightarrow>
        (if ok then take n (a # r) else replacement_char) @ utf8_lossy (drop n (a # r)))"
  by pat_completeness auto
termination by (relation "measure length") (auto dest!: utf8_prefix_pos [OF sym])

declare utf8_lossy.simps(2) [simp del]

lemma second_ok_width:
  "0xC2 \<le> a \<Longrightarrow> a \<le> 0xDF \<Longrightarrow> second_ok a b = utf8_cont b"
  "0xE0 \<le> a \<Longrightarrow> a \<le> 0xEF \<Longrightarrow> second_ok a b =
     (if a = 0xE0 then 0xA0 \<le> b \<and> b \<le> 0xBF else if a = 0xED then 0x80 \<le> b \<and> b \<le> 0x9F else utf8_cont b)"
  "0xF0 \<le> a \<Longrightarrow> a \<le> 0xF4 \<Longrightarrow> second_ok a b =
     (if a = 0xF0 then 0x90 \<le> b \<and> b \<le> 0xBF else if a = 0xF4 then 0x80 \<le> b \<and> b \<le> 0x8F else utf8_cont b)"
  by (auto simp: second_ok_def)

lemma utf8_lossy_valid: "utf8_valid bs \<Longrightarrow> utf8_lossy bs = bs"
proof (induction bs rule: utf8_valid.induct)
  case (2 a r)
  from 2(5) consider "a \<le> 0x7F" "utf8_valid r"
    | b r1 where "\<not> a \<le> 0x7F" "0xC2 \<le> a" "a \<le> 0xDF" "r = b # r1" "utf8_cont b" "utf8_valid r1"
    | b c r2 where "\<not> a \<le> 0x7F" "\<not> (0xC2 \<le> a \<and> a \<le> 0xDF)" "0xE0 \<le> a" "a \<le> 0xEF"
        "r = b # c # r2" "second_ok a b" "utf8_cont c" "utf8_valid r2"
    | b c d r3 where "\<not> a \<le> 0x7F" "\<not> (0xC2 \<le> a \<and> a \<le> 0xDF)" "\<not> (0xE0 \<le> a \<and> a \<le> 0xEF)" "0xF0 \<le> a" "a \<le> 0xF4"
        "r = b # c # d # r3" "second_ok a b" "utf8_cont c" "utf8_cont d" "utf8_valid r3"
    by (auto simp: utf8_valid.simps(2) [of a] second_ok_width split: if_splits list.splits)
  then show ?case
  proof cases
    case 1
    then have "utf8_prefix a r = (True, 1)" by (simp add: utf8_prefix_def utf8_width_def)
    with 1 "2.IH"(1) show ?thesis by (simp add: utf8_lossy.simps(2) [of a])
  next
    case (2 b r1)
    then have "utf8_width a = 2" "second_ok a b" by (simp_all add: utf8_width_def second_ok_width)
    with 2 have "utf8_prefix a r = (True, 2)" by (simp add: utf8_prefix_def)
    with 2 "2.IH"(2) show ?thesis by (simp add: utf8_lossy.simps(2) [of a])
  next
    case (3 b c r2)
    then have "utf8_width a = 3" by (auto simp: utf8_width_def)
    with 3 have "utf8_prefix a r = (True, 3)" by (simp add: utf8_prefix_def)
    with 3 "2.IH"(3) show ?thesis by (simp add: utf8_lossy.simps(2) [of a])
  next
    case (4 b c d r3)
    then have "utf8_width a = 4" by (auto simp: utf8_width_def)
    with 4 have "utf8_prefix a r = (True, 4)" by (simp add: utf8_prefix_def)
    with 4 "2.IH"(4) show ?thesis by (simp add: utf8_lossy.simps(2) [of a])
  qed
qed simp

definition lossy_string :: "bytes \<Rightarrow> string" where
  "lossy_string bs = string_of_bytes (utf8_lossy bs)"

lemma lossy_string_of_string [simp]: "valid_string s \<Longrightarrow> lossy_string (bytes_of_string s) = s"
  by (simp add: lossy_string_def valid_string_def utf8_lossy_valid)

section \<open>Types\<close>

datatype rtcp_parse_error =
  RtcpTooShort | RtcpTruncated u8 | RtcpInvalidVersion u8 | RtcpInvalidSdes | RtcpInvalidPadding u8 u8

datatype rtcp_encode_error =
  SdesItemTooLong nat | ByeReasonTooLong nat | TooManyReportBlocks nat | TooManySdesChunks nat
| TooManyByeSsrcs nat | UnalignedPayload nat

datatype rtcp_packet_type = PtSenderReport | PtReceiverReport | PtSourceDescription | PtBye | PtApp

definition rtcp_packet_type_id :: "rtcp_packet_type \<Rightarrow> u8" where
  "rtcp_packet_type_id t = (case t of PtSenderReport \<Rightarrow> 200 | PtReceiverReport \<Rightarrow> 201
     | PtSourceDescription \<Rightarrow> 202 | PtBye \<Rightarrow> 203 | PtApp \<Rightarrow> 204)"

definition rtcp_packet_type_from_u8 :: "u8 \<Rightarrow> rtcp_packet_type option" where
  "rtcp_packet_type_from_u8 v =
     (if v = 200 then Some PtSenderReport else if v = 201 then Some PtReceiverReport
      else if v = 202 then Some PtSourceDescription else if v = 203 then Some PtBye
      else if v = 204 then Some PtApp else None)"

record rtcp_report_block =
  rb_ssrc :: u32
  rb_fraction_lost :: u8
  rb_cumulative_lost :: i32
  rb_highest_seq :: u32
  rb_jitter :: u32
  rb_last_sr :: u32
  rb_delay_since_last_sr :: u32

record rtcp_sender_report =
  sr_ssrc :: u32
  sr_ntp_timestamp :: u64
  sr_rtp_timestamp :: u32
  sr_packets_sent :: u32
  sr_octets_sent :: u32
  sr_report_blocks :: "rtcp_report_block list"

record rtcp_receiver_report =
  rr_ssrc :: u32
  rr_report_blocks :: "rtcp_report_block list"

datatype rtcp_sdes_item_type =
  SdesEnd | SdesCName | SdesName | SdesEmail | SdesPhone | SdesLocation | SdesTool | SdesNote | SdesPriv
| SdesUnknown u8

record rtcp_sdes_item =
  si_item_type :: rtcp_sdes_item_type
  si_text :: string

record rtcp_sdes_chunk =
  sc_ssrc :: u32
  sc_items :: "rtcp_sdes_item list"

record rtcp_bye =
  bye_ssrcs :: "u32 list"
  bye_reason :: "string option"

record rtcp_app_packet =
  app_subtype :: u8
  app_ssrc :: u32
  app_name :: bytes
  app_payload :: bytes

datatype rtcp_packet =
  RtcpSenderReport rtcp_sender_report
| RtcpReceiverReport rtcp_receiver_report
| RtcpSourceDescription "rtcp_sdes_chunk list"
| RtcpBye rtcp_bye
| RtcpApp rtcp_app_packet
| RtcpUnknown u8 u8 bytes

definition sdes_item_type_from_u8 :: "u8 \<Rightarrow> rtcp_sdes_item_type" where
  "sdes_item_type_from_u8 v =
     (if v = 0 then SdesEnd else if v = 1 then SdesCName else if v = 2 then SdesName
      else if v = 3 then SdesEmail else if v = 4 then SdesPhone else if v = 5 then SdesLocation
      else if v = 6 then SdesTool else if v = 7 then SdesNote else if v = 8 then SdesPriv else SdesUnknown v)"

definition sdes_item_type_as_u8 :: "rtcp_sdes_item_type \<Rightarrow> u8" where
  "sdes_item_type_as_u8 t = (case t of SdesEnd \<Rightarrow> 0 | SdesCName \<Rightarrow> 1 | SdesName \<Rightarrow> 2 | SdesEmail \<Rightarrow> 3
     | SdesPhone \<Rightarrow> 4 | SdesLocation \<Rightarrow> 5 | SdesTool \<Rightarrow> 6 | SdesNote \<Rightarrow> 7 | SdesPriv \<Rightarrow> 8 | SdesUnknown v \<Rightarrow> v)"

section \<open>Helpers\<close>

definition sign_extend_24 :: "u32 \<Rightarrow> i32" where
  "sign_extend_24 value =
     (let v = value AND 0x00ffffff in if v AND 0x00800000 \<noteq> 0 then v OR 0xff000000 else v)"

definition padding_to_4 :: "nat \<Rightarrow> nat" where
  "padding_to_4 len = (let rem = len mod 4 in if rem = 0 then 0 else 4 - rem)"

text \<open>The first \<open>n\<close> bytes as a big-endian number, and the rest: \<^verbatim>\<open>get_u8\<close> to \<^verbatim>\<open>get_u64\<close>, after a length check.\<close>

definition get_be :: "nat \<Rightarrow> bytes \<Rightarrow> 'a::len word \<times> bytes" where
  "get_be n buf = (from_be (take n buf), drop n buf)"

text \<open>The common first word of a packet.\<close>

definition rtcp_header :: "u8 \<Rightarrow> u8 \<Rightarrow> nat \<Rightarrow> bytes" where
  "rtcp_header count pt total_len =
     [0x80 OR count, pt] @ to_be 2 (of_nat (total_len div 4 - 1) :: u16)"

section \<open>Reports\<close>

definition report_block_parse :: "bytes \<Rightarrow> rtcp_parse_error + (rtcp_report_block \<times> bytes)" where
  "report_block_parse buf =
     (if length buf < 24 then Inl RtcpTooShort
      else
        let (ssrc, b) = get_be 4 buf; (fl_and_cl, b) = get_be 4 b; (highest_seq, b) = get_be 4 b;
            (jitter, b) = get_be 4 b; (last_sr, b) = get_be 4 b; (delay, b) = get_be 4 b
        in Inr (\<lparr>rb_ssrc = ssrc, rb_fraction_lost = ucast (drop_bit 24 (fl_and_cl :: u32)),
                 rb_cumulative_lost = sign_extend_24 (fl_and_cl AND 0x00ffffff), rb_highest_seq = highest_seq,
                 rb_jitter = jitter, rb_last_sr = last_sr, rb_delay_since_last_sr = delay\<rparr>, b))"

definition report_block_encode :: "rtcp_report_block \<Rightarrow> bytes" where
  "report_block_encode b =
     to_be 4 (rb_ssrc b)
     @ to_be 4 ((push_bit 24 (ucast (rb_fraction_lost b)) OR (rb_cumulative_lost b AND 0x00ffffff)) :: u32)
     @ to_be 4 (rb_highest_seq b) @ to_be 4 (rb_jitter b) @ to_be 4 (rb_last_sr b)
     @ to_be 4 (rb_delay_since_last_sr b)"

fun report_blocks_parse :: "nat \<Rightarrow> bytes \<Rightarrow> rtcp_parse_error + (rtcp_report_block list \<times> bytes)" where
  "report_blocks_parse 0 buf = Inr ([], buf)"
| "report_blocks_parse (Suc n) buf =
     sbind (report_block_parse buf) (\<lambda>(block, buf).
       sbind (report_blocks_parse n buf) (\<lambda>(blocks, buf). Inr (block # blocks, buf)))"

definition sender_report_encode :: "rtcp_sender_report \<Rightarrow> rtcp_encode_error + bytes" where
  "sender_report_encode p =
     (let block_count = length (sr_report_blocks p) in
      if block_count > 31 then Inl (TooManyReportBlocks block_count)
      else Inr (rtcp_header (of_nat block_count) (rtcp_packet_type_id PtSenderReport) (4 + 24 + block_count * 24)
        @ to_be 4 (sr_ssrc p) @ to_be 8 (sr_ntp_timestamp p) @ to_be 4 (sr_rtp_timestamp p)
        @ to_be 4 (sr_packets_sent p) @ to_be 4 (sr_octets_sent p)
        @ concat (map report_block_encode (sr_report_blocks p))))"

definition sender_report_parse :: "bytes \<Rightarrow> u8 \<Rightarrow> rtcp_parse_error + rtcp_sender_report" where
  "sender_report_parse buf count =
     (if length buf < 24 then Inl (RtcpTruncated (rtcp_packet_type_id PtSenderReport))
      else
        let (ssrc, b) = get_be 4 buf; (ntp, b) = get_be 8 b; (rtp, b) = get_be 4 b;
            (packets, b) = get_be 4 b; (octets, b) = get_be 4 b
        in sbind (report_blocks_parse (unat count) b) (\<lambda>(blocks, _).
             Inr \<lparr>sr_ssrc = ssrc, sr_ntp_timestamp = ntp, sr_rtp_timestamp = rtp, sr_packets_sent = packets,
                  sr_octets_sent = octets, sr_report_blocks = blocks\<rparr>))"

definition receiver_report_encode :: "rtcp_receiver_report \<Rightarrow> rtcp_encode_error + bytes" where
  "receiver_report_encode p =
     (let block_count = length (rr_report_blocks p) in
      if block_count > 31 then Inl (TooManyReportBlocks block_count)
      else Inr (rtcp_header (of_nat block_count) (rtcp_packet_type_id PtReceiverReport) (4 + 4 + block_count * 24)
        @ to_be 4 (rr_ssrc p) @ concat (map report_block_encode (rr_report_blocks p))))"

definition receiver_report_parse :: "bytes \<Rightarrow> u8 \<Rightarrow> rtcp_parse_error + rtcp_receiver_report" where
  "receiver_report_parse buf count =
     (if length buf < 4 then Inl (RtcpTruncated (rtcp_packet_type_id PtReceiverReport))
      else
        let (ssrc, b) = get_be 4 buf
        in sbind (report_blocks_parse (unat count) b) (\<lambda>(blocks, _).
             Inr \<lparr>rr_ssrc = ssrc, rr_report_blocks = blocks\<rparr>))"

section \<open>Source descriptions\<close>

definition sdes_items_len :: "rtcp_sdes_item list \<Rightarrow> nat" where
  "sdes_items_len items = sum_list (map (\<lambda>i. 2 + length (si_text i)) items)"

definition encoded_chunks_len :: "rtcp_sdes_chunk list \<Rightarrow> nat" where
  "encoded_chunks_len chunks =
     sum_list (map (\<lambda>c. let used = 4 + sdes_items_len (sc_items c) + 1 in used + padding_to_4 used) chunks)"

fun sdes_items_encode :: "rtcp_sdes_item list \<Rightarrow> rtcp_encode_error + bytes" where
  "sdes_items_encode [] = Inr []"
| "sdes_items_encode (i # is) =
     (let text_len = length (si_text i) in
      if text_len > 255 then Inl (SdesItemTooLong text_len)
      else sbind (sdes_items_encode is) (\<lambda>rest.
        Inr ([sdes_item_type_as_u8 (si_item_type i), of_nat text_len] @ bytes_of_string (si_text i) @ rest)))"

definition sdes_chunk_encode :: "rtcp_sdes_chunk \<Rightarrow> rtcp_encode_error + bytes" where
  "sdes_chunk_encode c =
     sbind (sdes_items_encode (sc_items c)) (\<lambda>items.
       let used = 1 + sdes_items_len (sc_items c); pad = padding_to_4 used
       in Inr (to_be 4 (sc_ssrc c) @ items @ [0] @ replicate pad 0))"

fun sdes_chunks_encode :: "rtcp_sdes_chunk list \<Rightarrow> rtcp_encode_error + bytes" where
  "sdes_chunks_encode [] = Inr []"
| "sdes_chunks_encode (c # cs) =
     sbind (sdes_chunk_encode c) (\<lambda>x. sbind (sdes_chunks_encode cs) (\<lambda>y. Inr (x @ y)))"

definition source_description_encode :: "rtcp_sdes_chunk list \<Rightarrow> rtcp_encode_error + bytes" where
  "source_description_encode chunks =
     (let chunk_count = length chunks in
      if chunk_count > 31 then Inl (TooManySdesChunks chunk_count)
      else sbind (sdes_chunks_encode chunks) (\<lambda>body.
        Inr (rtcp_header (of_nat chunk_count) (rtcp_packet_type_id PtSourceDescription)
               (4 + encoded_chunks_len chunks) @ body)))"

text \<open>The inner loop of the parser: items up to the end marker and its padding.\<close>

fun sdes_items_parse :: "nat \<Rightarrow> bytes \<Rightarrow> rtcp_parse_error + (rtcp_sdes_item list \<times> bytes)" where
  "sdes_items_parse chunk_consumed [] = Inl RtcpInvalidSdes"
| "sdes_items_parse chunk_consumed (item_type # buf) =
     (if item_type = 0 then
        (let over = (chunk_consumed + 1) mod 4; pad = (if over = 0 then 0 else 4 - over)
         in if length buf < pad then Inl RtcpInvalidSdes else Inr ([], drop pad buf))
      else case buf of
        [] \<Rightarrow> Inl RtcpInvalidSdes
      | len # buf \<Rightarrow>
          if length buf < unat len then Inl RtcpInvalidSdes
          else sbind (sdes_items_parse (chunk_consumed + 2 + unat len) (drop (unat len) buf)) (\<lambda>(items, rest).
            Inr (\<lparr>si_item_type = sdes_item_type_from_u8 item_type,
                  si_text = lossy_string (take (unat len) buf)\<rparr> # items, rest)))"

fun sdes_chunks_parse :: "nat \<Rightarrow> bytes \<Rightarrow> rtcp_parse_error + rtcp_sdes_chunk list" where
  "sdes_chunks_parse 0 buf = Inr []"
| "sdes_chunks_parse (Suc n) buf =
     (if length buf < 4 then Inl (RtcpTruncated (rtcp_packet_type_id PtSourceDescription))
      else
        let (ssrc, buf) = get_be 4 buf
        in sbind (sdes_items_parse 4 buf) (\<lambda>(items, buf).
             sbind (sdes_chunks_parse n buf) (\<lambda>chunks. Inr (\<lparr>sc_ssrc = ssrc, sc_items = items\<rparr> # chunks))))"

definition source_description_parse :: "bytes \<Rightarrow> u8 \<Rightarrow> rtcp_parse_error + rtcp_sdes_chunk list" where
  "source_description_parse buf count = sdes_chunks_parse (unat count) buf"

section \<open>Goodbye and application packets\<close>

definition bye_encode :: "rtcp_bye \<Rightarrow> rtcp_encode_error + bytes" where
  "bye_encode p =
     (let reason_len = (case bye_reason p of None \<Rightarrow> 0 | Some r \<Rightarrow> length r) in
      if reason_len > 255 then Inl (ByeReasonTooLong reason_len)
      else
        let ssrc_count = length (bye_ssrcs p) in
        if ssrc_count > 31 then Inl (TooManyByeSsrcs ssrc_count)
        else
          let reason_subfield = (if reason_len > 0 then 1 + reason_len + padding_to_4 (1 + reason_len) else 0);
              total_len = 4 + ssrc_count * 4 + reason_subfield
          in Inr (rtcp_header (of_nat ssrc_count) (rtcp_packet_type_id PtBye) total_len
               @ concat (map (to_be 4) (bye_ssrcs p))
               @ (case bye_reason p of
                    None \<Rightarrow> []
                  | Some reason \<Rightarrow>
                      [of_nat reason_len] @ bytes_of_string reason @ replicate (padding_to_4 (1 + reason_len)) 0)))"

fun bye_ssrcs_parse :: "nat \<Rightarrow> bytes \<Rightarrow> rtcp_parse_error + (u32 list \<times> bytes)" where
  "bye_ssrcs_parse 0 buf = Inr ([], buf)"
| "bye_ssrcs_parse (Suc n) buf =
     (if length buf < 4 then Inl (RtcpTruncated (rtcp_packet_type_id PtBye))
      else
        let (ssrc, buf) = get_be 4 buf
        in sbind (bye_ssrcs_parse n buf) (\<lambda>(ssrcs, buf). Inr (ssrc # ssrcs, buf)))"

definition bye_parse :: "bytes \<Rightarrow> u8 \<Rightarrow> rtcp_parse_error + rtcp_bye" where
  "bye_parse buf count =
     sbind (bye_ssrcs_parse (unat count) buf) (\<lambda>(ssrcs, buf).
       case buf of
         [] \<Rightarrow> Inr \<lparr>bye_ssrcs = ssrcs, bye_reason = None\<rparr>
       | len # buf \<Rightarrow>
           if length buf < unat len then Inl (RtcpTruncated (rtcp_packet_type_id PtBye))
           else Inr \<lparr>bye_ssrcs = ssrcs, bye_reason = Some (lossy_string (take (unat len) buf))\<rparr>)"

definition app_encode :: "rtcp_app_packet \<Rightarrow> rtcp_encode_error + bytes" where
  "app_encode p =
     (let payload_len = length (app_payload p) in
      if payload_len mod 4 \<noteq> 0 then Inl (UnalignedPayload payload_len)
      else Inr (rtcp_header (app_subtype p AND 0x1f) (rtcp_packet_type_id PtApp) (4 + 4 + 4 + payload_len)
        @ to_be 4 (app_ssrc p) @ app_name p @ app_payload p))"

definition app_parse :: "bytes \<Rightarrow> u8 \<Rightarrow> rtcp_parse_error + rtcp_app_packet" where
  "app_parse buf subtype =
     (if length buf < 8 then Inl (RtcpTruncated (rtcp_packet_type_id PtApp))
      else
        let (ssrc, buf) = get_be 4 buf
        in Inr \<lparr>app_subtype = subtype, app_ssrc = ssrc, app_name = take 4 buf, app_payload = drop 4 buf\<rparr>)"

section \<open>Compound packets\<close>

definition rtcp_packet_encode :: "rtcp_packet \<Rightarrow> rtcp_encode_error + bytes" where
  "rtcp_packet_encode p =
     (case p of
        RtcpSenderReport p \<Rightarrow> sender_report_encode p
      | RtcpReceiverReport p \<Rightarrow> receiver_report_encode p
      | RtcpSourceDescription chunks \<Rightarrow> source_description_encode chunks
      | RtcpBye p \<Rightarrow> bye_encode p
      | RtcpApp p \<Rightarrow> app_encode p
      | RtcpUnknown pt count payload \<Rightarrow>
          let payload_len = length payload in
          if payload_len mod 4 \<noteq> 0 then Inl (UnalignedPayload payload_len)
          else Inr (rtcp_header (count AND 0x1f) pt (4 + payload_len) @ payload))"

definition rtcp_parse_body :: "u8 \<Rightarrow> u8 \<Rightarrow> bytes \<Rightarrow> rtcp_parse_error + rtcp_packet" where
  "rtcp_parse_body pt count buf =
     (case rtcp_packet_type_from_u8 pt of
        Some PtSenderReport \<Rightarrow> map_sum id RtcpSenderReport (sender_report_parse buf count)
      | Some PtReceiverReport \<Rightarrow> map_sum id RtcpReceiverReport (receiver_report_parse buf count)
      | Some PtSourceDescription \<Rightarrow> map_sum id RtcpSourceDescription (source_description_parse buf count)
      | Some PtBye \<Rightarrow> map_sum id RtcpBye (bye_parse buf count)
      | Some PtApp \<Rightarrow> map_sum id RtcpApp (app_parse buf count)
      | None \<Rightarrow> Inr (RtcpUnknown pt count buf))"

text \<open>The body without its padding, whose length is its last byte.\<close>

definition strip_padding :: "u8 \<Rightarrow> bytes \<Rightarrow> rtcp_parse_error + bytes" where
  "strip_padding pt body =
     (if body = [] then Inl (RtcpInvalidPadding pt 0)
      else
        let pad_count = body ! (length body - 1)
        in if pad_count = 0 \<or> unat pad_count > length body then Inl (RtcpInvalidPadding pt pad_count)
           else Inr (take (length body - unat pad_count) body))"

function rtcp_compound_parse :: "bytes \<Rightarrow> rtcp_parse_error + rtcp_packet list" where
  "rtcp_compound_parse buf =
     (if buf = [] then Inr []
      else if length buf < 4 then Inl RtcpTooShort
      else
        let byte0 = buf ! 0; version = drop_bit 6 byte0; padding = drop_bit 5 byte0 AND 0x01;
            count = byte0 AND 0x1f; pt = buf ! 1;
            len = unat (from_be (take 2 (drop 2 buf)) :: u16) * 4; buf = drop 4 buf
        in if version \<noteq> 2 then Inl (RtcpInvalidVersion version)
           else if length buf < len then Inl (RtcpTruncated pt)
           else
             sbind (if padding \<noteq> 0 then strip_padding pt (take len buf) else Inr (take len buf)) (\<lambda>body.
             sbind (rtcp_parse_body pt count body) (\<lambda>packet.
             sbind (rtcp_compound_parse (drop len buf)) (\<lambda>packets. Inr (packet # packets)))))"
  by pat_completeness auto
termination by (relation "measure length") auto

declare rtcp_compound_parse.simps [simp del]

fun rtcp_compound_encode :: "rtcp_packet list \<Rightarrow> rtcp_encode_error + bytes" where
  "rtcp_compound_encode [] = Inr []"
| "rtcp_compound_encode (p # ps) =
     sbind (rtcp_packet_encode p) (\<lambda>x. sbind (rtcp_compound_encode ps) (\<lambda>y. Inr (x @ y)))"

end
