(* ===== verification/Rtcp_Properties.thy ===== *)
theory Rtcp_Properties
  imports Rtcp_Packet
begin

text \<open>The round trip of RTCP compound packets, and where the encoder leaves it.\<close>

section \<open>Words\<close>

lemma get_be_to_be [simp]:
  "get_be 4 (to_be 4 (v :: u32) @ r) = (v, r)"
  "get_be 8 (to_be 8 (w :: u64) @ r) = (w, r)"
  by (simp_all add: get_be_def)

lemma mask_24: "(0x00ffffff :: u32) = mask 24"
  by (simp add: mask_eq_exp_minus_1)

lemma lost_fields:
  fixes f :: u8 and c :: u32
  shows "ucast (drop_bit 24 (push_bit 24 (ucast f) OR (c AND 0x00ffffff) :: u32)) = f"
    "(push_bit 24 (ucast f) OR (c AND 0x00ffffff) :: u32) AND 0x00ffffff = c AND 0x00ffffff"
  unfolding mask_24 by (rule bit_eqI; auto simp: bit_simps)+

lemma sign_extend_24_alt:
  "sign_extend_24 v = (if bit v 23 then (v AND mask 24) OR NOT (mask 24) else v AND mask 24)"
proof -
  have "(0x00800000 :: u32) = 2 ^ 23" "(0xff000000 :: u32) = NOT (mask 24)"
    by (simp_all add: mask_eq_exp_minus_1)
  moreover have "bit (v AND mask 24) 23 = bit v 23" by (simp add: bit_simps)
  ultimately show ?thesis
    unfolding sign_extend_24_def mask_24 Let_def by (simp only: and_exp_eq_0_iff_not_bit simp_thms)
qed

lemma sign_extend_24_id:
  fixes c :: i32
  assumes "- 8388608 \<le> sint c" and "sint c < 8388608"
  shows "sign_extend_24 (c AND 0x00ffffff) = c"
proof -
  define k where "k = sint c"
  have c: "c = word_of_int k" by (simp add: k_def)
  have high: "bit k n = (k < 0)" if "23 \<le> n" for n
  proof -
    have small: "\<not> bit m n" if "0 \<le> m" "m < 2 ^ 23" for m :: int
    proof -
      have "take_bit 23 m = m" using that by (simp add: take_bit_int_eq_self)
      then show ?thesis using \<open>23 \<le> n\<close> by (metis bit_take_bit_iff not_less)
    qed
    show ?thesis
    proof (cases "k < 0")
      case True
      then have "\<not> bit (NOT k) n" using assms by (intro small) (simp_all add: k_def not_int_def)
      with True show ?thesis by (simp add: bit_not_int_iff)
    next
      case False
      with assms show ?thesis using small [of k] by (simp add: k_def)
    qed
  qed
  have bits: "bit c n = (if n < 23 then bit k n else k < 0)" if "n < 32" for n
    using that high [of n] by (simp add: c bit_simps)
  show ?thesis
    unfolding sign_extend_24_alt mask_24
    by (rule bit_eqI) (auto simp: bit_simps bits)
qed

definition report_block_ok :: "rtcp_report_block \<Rightarrow> bool" where
  "report_block_ok b \<longleftrightarrow> - 8388608 \<le> sint (rb_cumulative_lost b) \<and> sint (rb_cumulative_lost b) < 8388608"

lemma length_report_block_encode [simp]: "length (report_block_encode b) = 24"
  by (simp add: report_block_encode_def)

lemma report_block_roundtrip:
  assumes "report_block_ok b"
  shows "report_block_parse (report_block_encode b @ r) = Inr (b, r)"
proof -
  define w :: u32 where "w = push_bit 24 (ucast (rb_fraction_lost b)) OR (rb_cumulative_lost b AND 0x00ffffff)"
  note w = lost_fields [of "rb_fraction_lost b" "rb_cumulative_lost b", folded w_def]
  have "\<not> length (report_block_encode b @ r) < 24" by simp
  then show ?thesis
    using assms unfolding report_block_encode_def w_def [symmetric]
    by (simp add: report_block_parse_def w sign_extend_24_id report_block_ok_def)
qed

lemma report_blocks_roundtrip:
  "list_all report_block_ok bs \<Longrightarrow>
     report_blocks_parse (length bs) (concat (map report_block_encode bs) @ r) = Inr (bs, r)"
  by (induction bs) (simp_all add: report_block_roundtrip)

section \<open>The common header\<close>

lemma small_count:
  fixes c :: u8
  assumes "c < 32"
  shows "drop_bit 6 (0x80 OR c) = 2 \<and> drop_bit 5 (0x80 OR c) AND 1 = 0 \<and> (0x80 OR c) AND 0x1f = c \<and> c AND 0x1f = c"
proof -
  have "\<forall>n \<in> set [0..<32]. drop_bit 6 (0x80 OR of_nat n :: u8) = 2 \<and> drop_bit 5 (0x80 OR of_nat n :: u8) AND 1 = 0
    \<and> (0x80 OR of_nat n :: u8) AND 0x1f = of_nat n \<and> (of_nat n :: u8) AND 0x1f = of_nat n"
    by (simp add: upt_rec)
  moreover have "unat c \<in> set [0..<32]" using assms by (simp add: word_less_nat_alt)
  ultimately show ?thesis by fastforce
qed

text \<open>A packet image: its first word and a body of whole words that fits the length field.\<close>

definition rtcp_image :: "u8 \<Rightarrow> u8 \<Rightarrow> bytes \<Rightarrow> bytes" where
  "rtcp_image count pt body = rtcp_header count pt (4 + length body) @ body"

lemma compound_parse_image:
  assumes "count < 32" and "length body mod 4 = 0" and "length body < 262144"
  shows "rtcp_compound_parse (rtcp_image count pt body @ rest) =
    sbind (rtcp_parse_body pt count body) (\<lambda>p. sbind (rtcp_compound_parse rest) (\<lambda>ps. Inr (p # ps)))"
proof -
  let ?n = "length body div 4"
  have n: "length body = ?n * 4" "?n < 65536" using assms(2,3) by auto
  have l: "(4 + length body) div 4 - 1 = ?n" by simp
  have u: "unat (of_nat ?n :: u16) = ?n" using n(2) by (simp add: unat_of_nat)
  let ?w = "to_be 2 (of_nat ?n :: u16)"
  define b0 where "b0 = 0x80 OR count"
  note b0 = small_count [OF assms(1), folded b0_def]
  have raw: "rtcp_image count pt body @ rest = b0 # pt # ?w @ body @ rest"
    unfolding rtcp_image_def rtcp_header_def l b0_def by simp
  have t: "take 2 (drop 2 (b0 # pt # ?w @ body @ rest)) = ?w"
    "drop 4 (b0 # pt # ?w @ body @ rest) = body @ rest"
    by simp_all
  show ?thesis
    unfolding raw
    by (subst rtcp_compound_parse.simps) (simp only: t Let_def word_be_simps u n(1) [symmetric], simp add: b0)
qed

section \<open>Source descriptions\<close>

lemma padding_to_4_mod: "(n + padding_to_4 n) mod 4 = 0" "padding_to_4 (4 + n) = padding_to_4 n"
proof -
  have "n mod 4 < 4" by simp
  then consider "n mod 4 = 0" | "n mod 4 = 1" | "n mod 4 = 2" | "n mod 4 = 3" by linarith
  then show "(n + padding_to_4 n) mod 4 = 0"
    by cases (simp_all add: padding_to_4_def, presburger+)
qed (simp add: padding_to_4_def)

definition sdes_item_ok :: "rtcp_sdes_item \<Rightarrow> bool" where
  "sdes_item_ok i \<longleftrightarrow> sdes_item_type_from_u8 (sdes_item_type_as_u8 (si_item_type i)) = si_item_type i
     \<and> si_item_type i \<noteq> SdesEnd \<and> valid_string (si_text i) \<and> length (si_text i) \<le> 255"

definition sdes_chunk_ok :: "rtcp_sdes_chunk \<Rightarrow> bool" where
  "sdes_chunk_ok c \<longleftrightarrow> list_all sdes_item_ok (sc_items c)"

lemma sdes_item_type_zero: "sdes_item_type_as_u8 t = 0 \<Longrightarrow> sdes_item_type_from_u8 (sdes_item_type_as_u8 t) = SdesEnd"
  by (simp add: sdes_item_type_from_u8_def)

lemma sdes_items_roundtrip:
  assumes "list_all sdes_item_ok items"
  shows "\<exists>out. sdes_items_encode items = Inr out \<and> length out = sdes_items_len items
    \<and> (\<forall>c r. sdes_items_parse c (out @ 0 # replicate (padding_to_4 (c + sdes_items_len items + 1)) 0 @ r) = Inr (items, r))"
  using assms
proof (induction items)
  case Nil
  show ?case by (auto simp: sdes_items_len_def padding_to_4_def Let_def)
next
  case (Cons i ys)
  then obtain out where out: "sdes_items_encode ys = Inr out" "length out = sdes_items_len ys"
    "\<And>c r. sdes_items_parse c (out @ 0 # replicate (padding_to_4 (c + sdes_items_len ys + 1)) 0 @ r) = Inr (ys, r)"
    by auto
  let ?t = "sdes_item_type_as_u8 (si_item_type i)" and ?s = "bytes_of_string (si_text i)" and ?n = "length (si_text i)"
  have ok: "sdes_item_type_from_u8 ?t = si_item_type i" "?t \<noteq> 0" "valid_string (si_text i)" "?n \<le> 255"
    using Cons.prems sdes_item_type_zero [of "si_item_type i"] by (auto simp: sdes_item_ok_def)
  have n: "unat (of_nat ?n :: u8) = ?n" using ok(4) by simp
  have len: "sdes_items_len (i # ys) = 2 + ?n + sdes_items_len ys" by (simp add: sdes_items_len_def)
  have "sdes_items_parse c ((?t # of_nat ?n # ?s @ out) @ 0 # replicate (padding_to_4 (c + sdes_items_len (i # ys) + 1)) 0 @ r)
    = Inr (i # ys, r)" for c r
  proof -
    let ?r = "out @ 0 # replicate (padding_to_4 (c + 2 + ?n + sdes_items_len ys + 1)) 0 @ r"
    have "take ?n (?s @ ?r) = ?s" "drop ?n (?s @ ?r) = ?r" by simp_all
    then show ?thesis
      using out(3) [of "c + 2 + ?n" r] ok n by (simp add: len add.assoc)
  qed
  with out ok len show ?case by (auto simp: Let_def)
qed

lemma sdes_chunks_roundtrip:
  assumes "list_all sdes_chunk_ok chunks"
  shows "\<exists>out. sdes_chunks_encode chunks = Inr out \<and> length out = encoded_chunks_len chunks
    \<and> length out mod 4 = 0 \<and> sdes_chunks_parse (length chunks) out = Inr chunks"
  using assms
proof (induction chunks)
  case Nil
  show ?case by (simp add: encoded_chunks_len_def)
next
  case (Cons c cs)
  from Cons obtain out where out: "sdes_chunks_encode cs = Inr out" "length out = encoded_chunks_len cs"
    "length out mod 4 = 0" "sdes_chunks_parse (length cs) out = Inr cs" by auto
  let ?l = "sdes_items_len (sc_items c)"
  from Cons.prems have "list_all sdes_item_ok (sc_items c)" by (simp add: sdes_chunk_ok_def)
  from sdes_items_roundtrip [OF this] obtain io where
    io: "sdes_items_encode (sc_items c) = Inr io" "length io = ?l"
    "\<And>k r. sdes_items_parse k (io @ 0 # replicate (padding_to_4 (k + ?l + 1)) 0 @ r) = Inr (sc_items c, r)" by blast
  define pad where "pad = padding_to_4 (1 + ?l)"
  have p: "padding_to_4 (4 + ?l + 1) = pad" using padding_to_4_mod(2) [of "1 + ?l"] by (simp add: pad_def)
  have pm: "(4 + ?l + 1 + pad) mod 4 = 0" using padding_to_4_mod(1) [of "4 + ?l + 1"] unfolding p .
  let ?c = "to_be 4 (sc_ssrc c) @ io @ [0] @ replicate pad 0"
  have enc: "sdes_chunk_encode c = Inr ?c" by (simp add: sdes_chunk_encode_def io(1) pad_def Let_def)
  have lc: "length ?c = 4 + ?l + 1 + pad" by (simp add: io(2))
  have len: "encoded_chunks_len (c # cs) = length (?c @ out)"
    using p by (simp add: encoded_chunks_len_def Let_def out(2) io(2))
  have "length (?c @ out) mod 4 = 0" using pm out(3) unfolding length_append [of ?c] lc by presburger
  moreover have "sdes_chunks_parse (length (c # cs)) (?c @ out) = Inr (c # cs)"
    using io(3) [of 4 out] out(4) unfolding p by simp
  ultimately show ?case using enc out(1) len by (intro exI [of _ "?c @ out"]) (simp only: sdes_chunks_encode.simps sbind_Inr)
qed

section \<open>Packets\<close>

definition rtcp_packet_ok :: "rtcp_packet \<Rightarrow> bool" where
  "rtcp_packet_ok p \<longleftrightarrow>
     (case p of
        RtcpSenderReport r \<Rightarrow> length (sr_report_blocks r) \<le> 31 \<and> list_all report_block_ok (sr_report_blocks r)
      | RtcpReceiverReport r \<Rightarrow> length (rr_report_blocks r) \<le> 31 \<and> list_all report_block_ok (rr_report_blocks r)
      | RtcpSourceDescription cs \<Rightarrow> length cs \<le> 31 \<and> list_all sdes_chunk_ok cs \<and> encoded_chunks_len cs < 262144
      | RtcpBye b \<Rightarrow> length (bye_ssrcs b) \<le> 31
          \<and> (case bye_reason b of None \<Rightarrow> True | Some r \<Rightarrow> r \<noteq> [] \<and> length r \<le> 255 \<and> valid_string r)
      | RtcpApp a \<Rightarrow> app_subtype a < 32 \<and> length (app_name a) = 4 \<and> length (app_payload a) mod 4 = 0
          \<and> length (app_payload a) < 262136
      | RtcpUnknown pt count payload \<Rightarrow> rtcp_packet_type_from_u8 pt = None \<and> count < 32
          \<and> length payload mod 4 = 0 \<and> length payload < 262144)"

lemma count_of_nat: "n \<le> 31 \<Longrightarrow> of_nat n < (32 :: u8) \<and> unat (of_nat n :: u8) = n"
  by (simp add: word_less_nat_alt)

definition has_image :: "rtcp_packet \<Rightarrow> bool" where
  "has_image p \<longleftrightarrow> (\<exists>count pt body. rtcp_packet_encode p = Inr (rtcp_image count pt body) \<and> count < 32
    \<and> length body mod 4 = 0 \<and> length body < 262144 \<and> rtcp_parse_body pt count body = Inr p)"

lemma has_imageI:
  "rtcp_parse_body pt count body = Inr p \<Longrightarrow> rtcp_packet_encode p = Inr (rtcp_image count pt body) \<Longrightarrow>
   length body mod 4 = 0 \<Longrightarrow> length body < 262144 \<Longrightarrow> count < 32 \<Longrightarrow> has_image p"
  unfolding has_image_def by (intro exI conjI)

lemma rtcp_packet_image:
  assumes "rtcp_packet_ok p"
  shows "has_image p"
proof (cases p)
  case (RtcpSenderReport r)
  let ?bs = "sr_report_blocks r" and ?pt = "rtcp_packet_type_id PtSenderReport"
  let ?body = "to_be 4 (sr_ssrc r) @ to_be 8 (sr_ntp_timestamp r) @ to_be 4 (sr_rtp_timestamp r)
    @ to_be 4 (sr_packets_sent r) @ to_be 4 (sr_octets_sent r) @ concat (map report_block_encode ?bs)"
  have ok: "length ?bs \<le> 31" "list_all report_block_ok ?bs" using assms RtcpSenderReport by (simp_all add: rtcp_packet_ok_def)
  have l: "length ?body = 24 + length ?bs * 24" by (simp add: length_concat comp_def sum_list_triv)
  have "\<not> length ?body < 24" by simp
  then have "rtcp_parse_body ?pt (of_nat (length ?bs)) ?body = Inr p"
    using report_blocks_roundtrip [OF ok(2), of "[]"] count_of_nat [OF ok(1)]
    by (simp add: RtcpSenderReport rtcp_parse_body_def rtcp_packet_type_from_u8_def rtcp_packet_type_id_def
        sender_report_parse_def)
  moreover have "rtcp_packet_encode p = Inr (rtcp_image (of_nat (length ?bs)) ?pt ?body)"
    using ok(1) unfolding rtcp_image_def l by (simp add: RtcpSenderReport rtcp_packet_encode_def sender_report_encode_def Let_def)
  moreover have "length ?body mod 4 = 0" "length ?body < 262144" unfolding l using ok(1) by presburger+
  ultimately show ?thesis using count_of_nat [OF ok(1)] by (rule has_imageI [OF _ _ _ _ conjunct1])
next
  case (RtcpReceiverReport r)
  let ?bs = "rr_report_blocks r" and ?pt = "rtcp_packet_type_id PtReceiverReport"
  let ?body = "to_be 4 (rr_ssrc r) @ concat (map report_block_encode ?bs)"
  have ok: "length ?bs \<le> 31" "list_all report_block_ok ?bs" using assms RtcpReceiverReport by (simp_all add: rtcp_packet_ok_def)
  have l: "length ?body = 4 + length ?bs * 24" by (simp add: length_concat comp_def sum_list_triv)
  have "rtcp_parse_body ?pt (of_nat (length ?bs)) ?body = Inr p"
    using report_blocks_roundtrip [OF ok(2), of "[]"] count_of_nat [OF ok(1)]
    by (simp add: RtcpReceiverReport rtcp_parse_body_def rtcp_packet_type_from_u8_def rtcp_packet_type_id_def
        receiver_report_parse_def)
  moreover have "rtcp_packet_encode p = Inr (rtcp_image (of_nat (length ?bs)) ?pt ?body)"
    using ok(1) unfolding rtcp_image_def l by (simp add: RtcpReceiverReport rtcp_packet_encode_def receiver_report_encode_def Let_def)
  moreover have "length ?body mod 4 = 0" "length ?body < 262144" unfolding l using ok(1) by presburger+
  ultimately show ?thesis using count_of_nat [OF ok(1)] by (rule has_imageI [OF _ _ _ _ conjunct1])
next
  case (RtcpSourceDescription cs)
  let ?pt = "rtcp_packet_type_id PtSourceDescription"
  have ok: "length cs \<le> 31" "list_all sdes_chunk_ok cs" "encoded_chunks_len cs < 262144"
    using assms RtcpSourceDescription by (simp_all add: rtcp_packet_ok_def)
  from sdes_chunks_roundtrip [OF ok(2)] obtain out where
    out: "sdes_chunks_encode cs = Inr out" "length out = encoded_chunks_len cs" "length out mod 4 = 0"
    "sdes_chunks_parse (length cs) out = Inr cs" by (elim exE conjE) (rule that)
  have "rtcp_parse_body ?pt (of_nat (length cs)) out = Inr p"
  proof -
    have u: "unat (of_nat (length cs) :: u8) = length cs" using count_of_nat [OF ok(1)] by (rule conjunct2)
    have "source_description_parse out (of_nat (length cs)) = Inr cs"
      unfolding source_description_parse_def u by (rule out(4))
    then show ?thesis
      by (simp add: RtcpSourceDescription rtcp_parse_body_def rtcp_packet_type_from_u8_def rtcp_packet_type_id_def)
  qed
  moreover have "rtcp_packet_encode p = Inr (rtcp_image (of_nat (length cs)) ?pt out)"
    using ok(1) out(1,2) by (simp add: rtcp_image_def RtcpSourceDescription rtcp_packet_encode_def source_description_encode_def)
  moreover note out(3)
  moreover have "length out < 262144" using ok(3) out(2) by simp
  ultimately show ?thesis using count_of_nat [OF ok(1)] by (rule has_imageI [OF _ _ _ _ conjunct1])
next
  case (RtcpBye b)
  let ?pt = "rtcp_packet_type_id PtBye" and ?n = "length (bye_ssrcs b)" and ?ss = "concat (map (to_be 4) (bye_ssrcs b))"
  define tail where "tail = (case bye_reason b of None \<Rightarrow> []
    | Some r \<Rightarrow> [of_nat (length r)] @ bytes_of_string r @ replicate (padding_to_4 (1 + length r)) 0)"
  have ok: "?n \<le> 31" "\<And>r. bye_reason b = Some r \<Longrightarrow> r \<noteq> [] \<and> length r \<le> 255 \<and> valid_string r"
    using assms RtcpBye by (auto simp: rtcp_packet_ok_def)
  have ssrcs: "bye_ssrcs_parse (length ss) (concat (map (to_be 4) ss) @ r) = Inr (ss, r)" for ss r
    by (induction ss) simp_all
  have ls: "length ?ss = ?n * 4" by (simp add: length_concat comp_def sum_list_triv)
  have "rtcp_parse_body ?pt (of_nat ?n) (?ss @ tail) = Inr p"
    using count_of_nat [OF ok(1)] ssrcs [of "bye_ssrcs b" tail] ok(2)
    by (cases "bye_reason b") (simp_all add: RtcpBye tail_def rtcp_parse_body_def rtcp_packet_type_from_u8_def
        rtcp_packet_type_id_def bye_parse_def)
  moreover have "rtcp_packet_encode p = Inr (rtcp_image (of_nat ?n) ?pt (?ss @ tail))"
    using ok by (cases "bye_reason b") (auto simp: RtcpBye tail_def rtcp_packet_encode_def bye_encode_def
        rtcp_image_def ls Let_def algebra_simps)
  moreover have "length (?ss @ tail) mod 4 = 0" "length (?ss @ tail) < 262144"
  proof -
    have "length tail mod 4 = 0 \<and> length tail < 400"
    proof (cases "bye_reason b")
      case (Some r)
      then have "length tail = 1 + length r + padding_to_4 (1 + length r)" by (simp add: tail_def)
      moreover have "padding_to_4 (1 + length r) < 4" by (simp add: padding_to_4_def Let_def)
      ultimately show ?thesis using padding_to_4_mod(1) [of "1 + length r"] ok(2) [OF Some] by simp
    qed (simp add: tail_def)
    then show "length (?ss @ tail) mod 4 = 0" "length (?ss @ tail) < 262144"
      unfolding length_append ls using ok(1) by presburger+
  qed
  ultimately show ?thesis using count_of_nat [OF ok(1)] by (rule has_imageI [OF _ _ _ _ conjunct1])
next
  case (RtcpApp a)
  let ?pt = "rtcp_packet_type_id PtApp" and ?body = "to_be 4 (app_ssrc a) @ app_name a @ app_payload a"
  have ok: "app_subtype a < 32" "length (app_name a) = 4" "length (app_payload a) mod 4 = 0" "length (app_payload a) < 262136"
    using assms RtcpApp by (simp_all add: rtcp_packet_ok_def)
  have l: "length ?body = 8 + length (app_payload a)" using ok(2) by simp
  then have "\<not> length ?body < 8" by simp
  then have "rtcp_parse_body ?pt (app_subtype a) ?body = Inr p"
    using ok(2) by (simp add: RtcpApp rtcp_parse_body_def rtcp_packet_type_from_u8_def rtcp_packet_type_id_def app_parse_def)
  moreover have "rtcp_packet_encode p = Inr (rtcp_image (app_subtype a) ?pt ?body)"
    using ok(1,3) small_count [OF ok(1)] unfolding rtcp_image_def l
    by (simp add: RtcpApp rtcp_packet_encode_def app_encode_def)
  moreover have "length ?body mod 4 = 0" "length ?body < 262144" unfolding l using ok(3,4) by presburger+
  ultimately show ?thesis using ok(1) by (rule has_imageI)
next
  case (RtcpUnknown pt count payload)
  then have ok: "rtcp_packet_type_from_u8 pt = None" "count < 32" "length payload mod 4 = 0" "length payload < 262144"
    using assms by (simp_all add: rtcp_packet_ok_def)
  have "rtcp_packet_encode p = Inr (rtcp_image count pt payload)"
    using ok small_count [OF ok(2)] by (simp add: RtcpUnknown rtcp_packet_encode_def rtcp_image_def)
  moreover have "rtcp_parse_body pt count payload = Inr p" using ok by (simp add: RtcpUnknown rtcp_parse_body_def)
  then show ?thesis by (rule has_imageI [OF _ _ ok(3,4,2)]) fact
qed

lemma compound_encode_parse:
  assumes "list_all rtcp_packet_ok ps"
  shows "\<exists>out. rtcp_compound_encode ps = Inr out \<and> rtcp_compound_parse out = Inr ps"
  using assms
proof (induction ps)
  case Nil
  show ?case by (simp add: rtcp_compound_parse.simps)
next
  case (Cons p ps)
  then obtain out where out: "rtcp_compound_encode ps = Inr out" "rtcp_compound_parse out = Inr ps" by auto
  from rtcp_packet_image [of p, unfolded has_image_def] Cons.prems obtain count pt body where
    b: "rtcp_packet_encode p = Inr (rtcp_image count pt body)" "count < 32" "length body mod 4 = 0"
    "length body < 262144" "rtcp_parse_body pt count body = Inr p" by auto
  from compound_parse_image [OF b(2-4), of pt out] b(1,5) out show ?case by simp
qed

text \<open>
  C35: RTCP compound packets round trip: whatever mix of reports, descriptions, goodbyes, application and
  unknown packets whose counts, texts and lengths fit the wire format (and whose texts are UTF-8) is
  encoded, the parser returns exactly these packets, in order.
\<close>

theorem rtcp_compound_roundtrip:
  assumes "list_all rtcp_packet_ok ps"
  shows "\<exists>out. rtcp_compound_encode ps = Inr out \<and> rtcp_compound_parse out = Inr ps"
  using assms by (rule compound_encode_parse)

theorem rtcp_compound_roundtrip_witness:
  "\<exists>out. rtcp_compound_encode [RtcpReceiverReport \<lparr>rr_ssrc = 7, rr_report_blocks = [\<lparr>rb_ssrc = 9, rb_fraction_lost = 3,
       rb_cumulative_lost = - 5, rb_highest_seq = 65536, rb_jitter = 4, rb_last_sr = 1, rb_delay_since_last_sr = 2\<rparr>]\<rparr>,
     RtcpSourceDescription [\<lparr>sc_ssrc = 7, sc_items = [\<lparr>si_item_type = SdesCName, si_text = ''cam''\<rparr>]\<rparr>],
     RtcpBye \<lparr>bye_ssrcs = [7], bye_reason = Some ''done''\<rparr>] = Inr out
   \<and> rtcp_compound_parse out = Inr [RtcpReceiverReport \<lparr>rr_ssrc = 7, rr_report_blocks = [\<lparr>rb_ssrc = 9, rb_fraction_lost = 3,
       rb_cumulative_lost = - 5, rb_highest_seq = 65536, rb_jitter = 4, rb_last_sr = 1, rb_delay_since_last_sr = 2\<rparr>]\<rparr>,
     RtcpSourceDescription [\<lparr>sc_ssrc = 7, sc_items = [\<lparr>si_item_type = SdesCName, si_text = ''cam''\<rparr>]\<rparr>],
     RtcpBye \<lparr>bye_ssrcs = [7], bye_reason = Some ''done''\<rparr>]"
  by (rule rtcp_compound_roundtrip)
    (simp add: rtcp_packet_ok_def report_block_ok_def sdes_chunk_ok_def sdes_item_ok_def encoded_chunks_len_def
      sdes_items_len_def padding_to_4_def sdes_item_type_as_u8_def sdes_item_type_from_u8_def valid_string_def
      bytes_of_string_def utf8_valid.simps(2))

text \<open>
  A goodbye with an empty reason is encoded with four bytes more than its length field says, so the
  compound packet it is part of is rejected by the parser, as a packet of version 0.
\<close>

lemma empty_bye_reason_breaks_compound:
  assumes "length ssrcs \<le> 31" and "rtcp_compound_encode ps = Inr rest"
  shows "\<exists>out. rtcp_compound_encode (RtcpBye \<lparr>bye_ssrcs = ssrcs, bye_reason = Some ''''\<rparr> # ps) = Inr out
    \<and> rtcp_compound_parse out = Inl (RtcpInvalidVersion 0)"
proof -
  let ?pt = "rtcp_packet_type_id PtBye" and ?ss = "concat (map (to_be 4) ssrcs)"
  have pad: "padding_to_4 (Suc 0) = 3" by (simp add: padding_to_4_def)
  have ls: "length ?ss = length ssrcs * 4" by (simp add: length_concat comp_def sum_list_triv)
  have "rtcp_packet_encode (RtcpBye \<lparr>bye_ssrcs = ssrcs, bye_reason = Some ''''\<rparr>) =
      Inr (rtcp_image (of_nat (length ssrcs)) ?pt ?ss @ [0, 0, 0, 0])"
    using assms(1) by (simp add: rtcp_packet_encode_def bye_encode_def rtcp_image_def ls pad numeral_3_eq_3 Let_def
        algebra_simps bytes_of_string_def)
  moreover have "rtcp_compound_parse ([0, 0, 0, 0] @ rest) = Inl (RtcpInvalidVersion 0)"
    by (subst rtcp_compound_parse.simps) (simp add: Let_def)
  moreover have "bye_ssrcs_parse (length ss) (concat (map (to_be 4) ss)) = Inr (ss, [])" for ss :: "u32 list"
    by (induction ss) simp_all
  then have "rtcp_parse_body ?pt (of_nat (length ssrcs)) ?ss = Inr (RtcpBye \<lparr>bye_ssrcs = ssrcs, bye_reason = None\<rparr>)"
    using count_of_nat [OF assms(1)]
    by (simp add: rtcp_parse_body_def rtcp_packet_type_from_u8_def rtcp_packet_type_id_def bye_parse_def)
  moreover have "length ?ss mod 4 = 0" "length ?ss < 262144" using ls assms(1) by simp_all
  ultimately show ?thesis
    using compound_parse_image [of "of_nat (length ssrcs)" ?ss ?pt "[0, 0, 0, 0] @ rest"] count_of_nat [OF assms(1)] assms(2)
    by simp
qed

lemma empty_bye_reason_breaks_compound_witness:
  "\<exists>out. rtcp_compound_encode [RtcpBye \<lparr>bye_ssrcs = [7], bye_reason = Some ''''\<rparr>] = Inr out
    \<and> rtcp_compound_parse out = Inl (RtcpInvalidVersion 0)"
  by (rule empty_bye_reason_breaks_compound) simp_all

end
