(* ===== verification/Rtp_Sequence.thy ===== *)
theory Rtp_Sequence
  imports Prelude
begin

text \<open>
  16-bit RTP sequence numbers extended to 64 bits: the unwrapper of \<^verbatim>\<open>rtp_reorder.rs\<close> and the reference it
  meets, the nearest number with the given low bits. Extended numbers are \<open>nat\<close>: they grow by less than
  2^15 + 1 with each packet, so the 64 bits of the code are out of reach of any run.
\<close>

lemma u16_65536 [simp]: "(65536 :: u16) = 0"
  using word_of_nat_eq_0_iff [where 'a = 16, of 65536] by simp

lemma unat_of_nat_u16 [simp]: "unat (of_nat n :: u16) = n mod 65536"
  by (simp add: unat_of_nat)

lemma div_mod_65536: "int t = int (t div 65536) * 65536 + int (t mod 65536)"
  using div_mult_mod_eq [of t 65536] by (metis of_nat_add of_nat_mult of_nat_numeral)

lemma div_65536_near:
  assumes "e \<le> t" and "t < e + (32768 :: nat)"
  shows "t div 65536 = e div 65536 \<or> t div 65536 = e div 65536 + 1"
proof -
  have "e div 65536 \<le> t div 65536" using assms(1) by (rule div_le_mono)
  moreover have "t div 65536 \<le> (e + 65536) div 65536" using assms(2) by (intro div_le_mono) simp
  ultimately show ?thesis by auto
qed

section \<open>The nearest extension\<close>

definition sequence_period :: int where "sequence_period = 65536"
definition half_sequence_period :: int where "half_sequence_period = 32768"

definition nearest_extension :: "nat \<Rightarrow> u16 \<Rightarrow> int \<times> int" where
  "nearest_extension expected raw =
     (let e = int expected;
          base = int (expected div 65536) * sequence_period + int (unat raw)
      in foldl (\<lambda>(best, best_diff) k.
           let candidate = base + k * sequence_period; diff = \<bar>candidate - e\<bar>
           in if diff < best_diff then (candidate, diff) else (best, best_diff))
         (base, \<bar>base - e\<bar>) [- 1, 1])"

text \<open>
  What both users of the extension do with it: a number that is half a period or more away, or behind
  the expected one, becomes a number just below the expected one, which the caller takes for late.
\<close>

definition extend_from :: "nat \<Rightarrow> u16 \<Rightarrow> nat" where
  "extend_from expected raw =
     (let (best, best_diff) = nearest_extension expected raw in
      if best_diff \<ge> half_sequence_period then expected - 1
      else if best < int expected then expected - 1
      else nat best)"

lemma extend_from_forward:
  assumes "e \<le> t" and "t < e + 32768"
  shows "extend_from e (of_nat t) = t"
proof -
  let ?r = "t mod 65536"
  let ?base = "int (e div 65536) * 65536 + int ?r"
  have r: "unat (of_nat t :: u16) = ?r" by simp
  note d = div_mod_65536 [of t] and q = div_65536_near [OF assms]
  show ?thesis
  proof (cases "t div 65536 = e div 65536")
    case True
    then have b: "?base = int t" using d by simp
    show ?thesis
      using assms
      by (simp add: extend_from_def nearest_extension_def r Let_def sequence_period_def half_sequence_period_def b)
  next
    case False
    with q have b: "?base = int t - 65536" using d by simp
    show ?thesis
      using assms
      by (simp add: extend_from_def nearest_extension_def r Let_def sequence_period_def half_sequence_period_def b)
  qed
qed

lemma extend_from_cases:
  assumes "0 < e"
  shows "extend_from e raw = e - 1
    \<or> (e \<le> extend_from e raw \<and> extend_from e raw < e + 32768 \<and> of_nat (extend_from e raw) = raw)"
proof -
  let ?base = "int (e div 65536) * 65536 + int (unat raw)"
  obtain best diff where n: "nearest_extension e raw = (best, diff)" by fastforce
  have "diff = \<bar>best - int e\<bar> \<and> (\<exists>k. best = ?base + k * 65536)"
    using n by (auto simp: nearest_extension_def Let_def sequence_period_def split: if_splits
        intro: exI [of _ 0] exI [of _ "- 1"] exI [of _ 1])
  then obtain k where k: "diff = \<bar>best - int e\<bar>" "best = ?base + k * 65536" by blast
  show ?thesis
  proof (cases "diff \<ge> 32768 \<or> best < int e")
    case True
    with n show ?thesis by (auto simp: extend_from_def half_sequence_period_def)
  next
    case False
    then have x: "extend_from e raw = nat best" using n by (auto simp: extend_from_def half_sequence_period_def)
    have "of_int best = (raw :: u16)"
    proof -
      have z: "(of_int (m * 65536) :: u16) = 0" for m
        by simp
      have "best = (int (e div 65536) + k) * 65536 + int (unat raw)" by (simp add: k(2) algebra_simps)
      then have "of_int best = (of_int ((int (e div 65536) + k) * 65536) :: u16) + of_int (int (unat raw))"
        by (simp only: of_int_add)
      then show ?thesis unfolding z by simp
    qed
    moreover have "(of_nat (nat best) :: u16) = of_int best" using False by simp
    moreover have "e \<le> nat best" "nat best < e + 32768" using False k(1) by linarith+
    ultimately show ?thesis using x by simp
  qed
qed

section \<open>The unwrapper\<close>

record sequence_unwrapper =
  su_expected :: "nat option"
  su_max :: "nat option"

definition sequence_unwrapper_new :: sequence_unwrapper where
  "sequence_unwrapper_new = \<lparr>su_expected = None, su_max = None\<rparr>"

definition unwrapper_extend :: "sequence_unwrapper \<Rightarrow> u16 \<Rightarrow> sequence_unwrapper \<times> nat" where
  "unwrapper_extend u raw =
     (case su_expected u of
        None \<Rightarrow> (u\<lparr>su_expected := Some (unat raw + 1), su_max := Some (unat raw)\<rparr>, unat raw)
      | Some expected \<Rightarrow>
          (let (best, best_diff) = nearest_extension expected raw in
           if best_diff \<ge> half_sequence_period then (u, expected - 1)
           else if best < int expected then (u, expected - 1)
           else
             let extended = nat best;
                 u1 = (if (case su_max u of None \<Rightarrow> True | Some m \<Rightarrow> extended > m)
                       then u\<lparr>su_max := Some extended\<rparr> else u)
             in (u1\<lparr>su_expected := Some (extended + 1)\<rparr>, extended)))"

fun unwrap_all :: "sequence_unwrapper \<Rightarrow> u16 list \<Rightarrow> nat list" where
  "unwrap_all u [] = []"
| "unwrap_all u (r # rs) = (let (u1, n) = unwrapper_extend u r in n # unwrap_all u1 rs)"

text \<open>
  The reference: a receiver that knows the true numbers. A packet is \<open>timely\<close> when it is ahead of all
  packets before it, by less than half a period; a packet behind them is late and reported as the
  highest number so far.
\<close>

definition timely :: "nat \<Rightarrow> nat \<Rightarrow> bool" where
  "timely highest t \<longleftrightarrow> highest < t \<and> t \<le> highest + 32768"

definition late :: "nat \<Rightarrow> nat \<Rightarrow> bool" where
  "late highest t \<longleftrightarrow> t \<le> highest \<and> highest < t + 32768"

fun true_numbers :: "nat \<Rightarrow> nat list \<Rightarrow> nat list" where
  "true_numbers highest [] = []"
| "true_numbers highest (t # ts) = max highest t # true_numbers (max highest t) ts"

fun arrivals_ok :: "nat \<Rightarrow> nat list \<Rightarrow> bool" where
  "arrivals_ok highest [] = True"
| "arrivals_ok highest (t # ts) = ((timely highest t \<or> late highest t) \<and> arrivals_ok (max highest t) ts)"

lemma extend_from_late:
  assumes "t < e" and "e \<le> t + 32768"
  shows "extend_from e (of_nat t) = e - 1"
proof -
  have "0 < e" using assms by simp
  from extend_from_cases [OF this, of "of_nat t"] show ?thesis
  proof
    assume a: "e \<le> extend_from e (of_nat t) \<and> extend_from e (of_nat t) < e + 32768
      \<and> of_nat (extend_from e (of_nat t)) = (of_nat t :: u16)"
    let ?x = "extend_from e (of_nat t)"
    have "unat (of_nat ?x :: u16) = unat (of_nat t :: u16)" using a by (simp only:)
    then have "?x mod 65536 = t mod 65536" by simp
    moreover have "t < ?x" "?x < t + 65536" using a assms by auto
    ultimately have "65536 dvd ?x - t" "0 < ?x - t" "?x - t < 65536"
      by (simp_all only: mod_eq_dvd_iff_nat [OF less_imp_le])
    then show ?thesis by (meson nat_dvd_not_less)
  qed
qed

lemma unwrapper_extend_Some:
  assumes "su_expected u = Some e" and "su_max u = Some (e - 1)" and "0 < e"
  shows "\<exists>u'. unwrapper_extend u raw = (u', extend_from e raw)
    \<and> su_expected u' = Some (max e (extend_from e raw + 1)) \<and> su_max u' = Some (max e (extend_from e raw + 1) - 1)"
proof -
  obtain best diff where n: "nearest_extension e raw = (best, diff)" by fastforce
  show ?thesis
    using assms n by (auto simp: unwrapper_extend_def extend_from_def Let_def max_def)
qed

text \<open>The unwrapper that has seen \<open>h\<close> as its highest true number; one more packet.\<close>

definition seen_highest :: "nat \<Rightarrow> sequence_unwrapper \<Rightarrow> bool" where
  "seen_highest h u \<longleftrightarrow> su_expected u = Some (h + 1) \<and> su_max u = Some h"

lemma unwrapper_extend_new:
  assumes "t < 65536"
  shows "\<exists>u. unwrapper_extend sequence_unwrapper_new (of_nat t) = (u, t) \<and> seen_highest t u"
  using assms by (simp add: unwrapper_extend_def sequence_unwrapper_new_def seen_highest_def)

lemma unwrapper_extend_true:
  assumes "seen_highest h u" and "timely h t \<or> late h t"
  shows "\<exists>u'. unwrapper_extend u (of_nat t) = (u', max h t) \<and> seen_highest (max h t) u'"
proof -
  have "extend_from (h + 1) (of_nat t) = max h t"
  proof (cases "timely h t")
    case True
    then show ?thesis using extend_from_forward [of "h + 1" t] by (auto simp: timely_def max_def)
  next
    case False
    with assms(2) have "late h t" by simp
    then show ?thesis using extend_from_late [of t "h + 1"] by (auto simp: late_def max_def)
  qed
  with unwrapper_extend_Some [of u "h + 1" "of_nat t"] assms(1) show ?thesis
    by (auto simp: seen_highest_def max_def split: if_splits)
qed

text \<open>
  The unwrapper agrees with a receiver that knows the true sequence numbers, across any number of
  wrap-arounds: when every packet after the first is less than half a period ahead of, or behind, the
  highest number so far, the unwrapper returns for each packet the highest true number up to and
  including it, which is its own number when it is not late.
\<close>

lemma unwrapper_tracks_true_numbers:
  assumes "t < 65536" and "arrivals_ok t ts"
  shows "unwrap_all sequence_unwrapper_new (map of_nat (t # ts)) = t # true_numbers t ts"
proof -
  have *: "unwrap_all u (map of_nat ts) = true_numbers h ts" if "seen_highest h u" "arrivals_ok h ts" for u h
    using that
  proof (induction ts arbitrary: u h)
    case (Cons t ts)
    with unwrapper_extend_true [of h u t] obtain u' where
      "unwrapper_extend u (of_nat t) = (u', max h t)" "seen_highest (max h t) u'" by auto
    with Cons.IH [of "max h t" u'] Cons.prems(2) show ?case by simp
  qed simp
  from unwrapper_extend_new [OF assms(1)] obtain u where
    "unwrapper_extend sequence_unwrapper_new (of_nat t) = (u, t)" "seen_highest t u" by blast
  with * [of t u] assms(2) show ?thesis by simp
qed

lemma unwrapper_tracks_true_numbers_witness:
  "unwrap_all sequence_unwrapper_new [65534, 65535, 1, 0, 2] = [65534, 65535, 65537, 65537, 65538]"
proof -
  have m: "map of_nat [65534, 65535, 65537, 65536, 65538] = ([65534, 65535, 1, 0, 2] :: u16 list)"
    by simp
  have "arrivals_ok 65534 [65535, 65537, 65536, 65538]" by (simp add: timely_def late_def)
  from unwrapper_tracks_true_numbers [OF _ this] show ?thesis unfolding m by simp
qed

end
