(* ===== verification/Rtp_Packet.thy ===== *)
theory Rtp_Packet
  imports Prelude "HOL-Library.Multiset"
begin

text \<open>
  \<^verbatim>\<open>rtp.rs\<close>: RTP headers and packets, the clock conversion, packetisation and its inverse on packets in
  any order, the payload probe and the TCP framings.
\<close>

section \<open>Header and packet\<close>

record rtp_header =
  rh_version :: u8
  rh_payload_type :: u8
  rh_sequence_number :: u16
  rh_timestamp :: u32
  rh_ssrc :: u32
  rh_marker :: bool

definition has_padding :: "bytes \<Rightarrow> bool" where
  "has_padding raw \<longleftrightarrow> (raw ! 0) AND 0x20 \<noteq> 0"

definition rtp_header_parse :: "bytes \<Rightarrow> (rtp_header \<times> nat) option" where
  "rtp_header_parse raw =
     (if length raw < 12 then None
      else
        let version = drop_bit 6 (raw ! 0);
            has_extension = ((raw ! 0) AND 0x10 \<noteq> 0);
            csrc_count = unat ((raw ! 0) AND 0x0f);
            marker = ((raw ! 1) AND 0x80 \<noteq> 0);
            payload_type = (raw ! 1) AND 0x7f;
            sequence_number = from_be [raw ! 2, raw ! 3];
            timestamp = from_be [raw ! 4, raw ! 5, raw ! 6, raw ! 7];
            ssrc = from_be [raw ! 8, raw ! 9, raw ! 10, raw ! 11];
            offset = 12 + csrc_count * 4;
            header = \<lparr>rh_version = version, rh_payload_type = payload_type, rh_sequence_number = sequence_number,
                      rh_timestamp = timestamp, rh_ssrc = ssrc, rh_marker = marker\<rparr>;
            finish = (\<lambda>offset. if has_padding raw \<and> length raw \<le> offset then None else Some (header, offset))
        in if length raw < offset then None
           else if has_extension then
             (if length raw < offset + 4 then None
              else
                let ext_len_words = unat (from_be [raw ! (offset + 2), raw ! (offset + 3)] :: u16);
                    offset = offset + (4 + ext_len_words * 4)
                in if length raw < offset then None else finish offset)
           else finish offset)"

definition rtp_header_encode :: "rtp_header \<Rightarrow> bytes" where
  "rtp_header_encode h =
     [push_bit 6 (rh_version h AND 0x03),
      push_bit 7 (if rh_marker h then 1 else 0) OR (rh_payload_type h AND 0x7f)]
     @ to_be 2 (rh_sequence_number h) @ to_be 4 (rh_timestamp h) @ to_be 4 (rh_ssrc h)"

record rtp_packet =
  rp_header :: rtp_header
  rp_payload :: bytes

definition rtp_packet_parse :: "bytes \<Rightarrow> rtp_packet option" where
  "rtp_packet_parse raw =
     (case rtp_header_parse raw of
        None \<Rightarrow> None
      | Some (header, header_len) \<Rightarrow>
          (case (if has_padding raw
                 then (if raw = [] then None
                       else let pad_len = unat (last raw)
                            in if pad_len \<le> length raw then Some (length raw - pad_len) else None)
                 else Some (length raw)) of
             None \<Rightarrow> None
           | Some payload_end \<Rightarrow>
               if payload_end < header_len then None
               else Some \<lparr>rp_header = header, rp_payload = drop header_len (take payload_end raw)\<rparr>))"

definition rtp_packet_encode :: "rtp_packet \<Rightarrow> bytes" where
  "rtp_packet_encode p = rtp_header_encode (rp_header p) @ rp_payload p"

text \<open>Headers whose version and payload type fit their 2 and 7 bits.\<close>

definition rtp_header_ok :: "rtp_header \<Rightarrow> bool" where
  "rtp_header_ok h \<longleftrightarrow> rh_version h < 4 \<and> rh_payload_type h < 128"

lemma length_rtp_header_encode [simp]: "length (rtp_header_encode h) = 12"
  by (simp add: rtp_header_encode_def)

lemma length_rtp_packet_encode: "length (rtp_packet_encode p) = 12 + length (rp_payload p)"
  by (simp add: rtp_packet_encode_def)

lemma list4: "length xs = 4 \<Longrightarrow> [xs ! 0, xs ! 1, xs ! 2, xs ! 3] = xs"
  by (auto simp: numeral_eq_Suc length_Suc_conv)

lemma list2: "length xs = 2 \<Longrightarrow> [xs ! 0, xs ! 1] = xs"
  by (auto simp: numeral_eq_Suc length_Suc_conv)

lemma u8_small_cases:
  fixes v :: u8
  assumes "v < 4"
  shows "v = 0 \<or> v = 1 \<or> v = 2 \<or> v = 3"
proof -
  have "unat v < 4" using assms by (simp add: word_less_nat_alt)
  then have "unat v = unat (0 :: u8) \<or> unat v = unat (1 :: u8) \<or> unat v = unat (2 :: u8) \<or> unat v = unat (3 :: u8)"
    by simp arith
  then show ?thesis by (simp only: word_unat_eq_iff)
qed

lemma version_bits:
  fixes v :: u8
  assumes "v < 4"
  shows "drop_bit 6 (push_bit 6 (v AND 3)) = v" "push_bit 6 (v AND 3) AND 0x20 = 0"
    "push_bit 6 (v AND 3) AND 0x10 = 0" "push_bit 6 (v AND 3) AND 0x0f = 0"
  using u8_small_cases [OF assms] by auto

lemma payload_type_bits:
  fixes v m :: u8
  assumes "v < 128" and "m \<in> {0, 1}"
  shows "(push_bit 7 m OR (v AND 0x7f)) AND 0x7f = v" "((push_bit 7 m OR (v AND 0x7f)) AND 0x80 \<noteq> 0) = (m = 1)"
proof -
  have m7: "(0x7f :: u8) = mask 7" by (simp add: mask_eq_exp_minus_1)
  have v: "v AND 0x7f = v"
    using assms(1) unfolding m7 take_bit_eq_mask [symmetric] word_less_nat_alt
    by (simp add: word_unat_eq_iff unsigned_take_bit_eq take_bit_eq_mod unat_mod_distrib)
  have v80: "v AND 0x80 = 0"
  proof -
    have "v AND 0x80 = v AND (0x7f AND 0x80)" by (metis v and.assoc)
    then show ?thesis by simp
  qed
  show "(push_bit 7 m OR (v AND 0x7f)) AND 0x7f = v" "((push_bit 7 m OR (v AND 0x7f)) AND 0x80 \<noteq> 0) = (m = 1)"
    using assms(2) v v80 by (auto simp: bit.conj_disj_distrib2)
qed

lemma rtp_header_roundtrip:
  assumes "rtp_header_ok h"
  shows "rtp_header_parse (rtp_header_encode h @ rest) = Some (h, 12)"
    and "\<not> has_padding (rtp_header_encode h @ rest)"
proof -
  let ?raw = "rtp_header_encode h @ rest"
  define b0 where "b0 = push_bit 6 (rh_version h AND 3)"
  let ?m = "if rh_marker h then 1 else 0 :: u8"
  define b1 where "b1 = push_bit 7 ?m OR (rh_payload_type h AND 0x7f)"
  obtain s0 s1 where s: "to_be 2 (rh_sequence_number h) = [s0, s1]"
    using list2 [of "to_be 2 (rh_sequence_number h)"] by (metis length_to_be)
  obtain t0 t1 t2 t3 where t: "to_be 4 (rh_timestamp h) = [t0, t1, t2, t3]"
    using list4 [of "to_be 4 (rh_timestamp h)"] by (metis length_to_be)
  obtain c0 c1 c2 c3 where c: "to_be 4 (rh_ssrc h) = [c0, c1, c2, c3]"
    using list4 [of "to_be 4 (rh_ssrc h)"] by (metis length_to_be)
  have raw: "?raw = [b0, b1, s0, s1, t0, t1, t2, t3, c0, c1, c2, c3] @ rest"
    by (simp add: rtp_header_encode_def s t c b0_def b1_def)
  have w: "from_be [s0, s1] = rh_sequence_number h" "from_be [t0, t1, t2, t3] = rh_timestamp h"
    "from_be [c0, c1, c2, c3] = rh_ssrc h"
    by (simp_all flip: s t c)
  have v: "rh_version h < 4" "rh_payload_type h < 128" using assms by (simp_all add: rtp_header_ok_def)
  note b0 = version_bits [OF v(1), folded b0_def]
  have b1: "b1 AND 0x7f = rh_payload_type h" "(b1 AND 0x80 \<noteq> 0) = rh_marker h"
    using payload_type_bits [OF v(2), of ?m, folded b1_def] by (simp_all split: if_splits)
  show np: "\<not> has_padding ?raw" unfolding raw by (simp add: has_padding_def b0)
  show "rtp_header_parse ?raw = Some (h, 12)"
    using np unfolding raw by (simp add: rtp_header_parse_def Let_def b0 b1 w)
qed

lemma rtp_packet_parse_encode:
  assumes "rtp_header_ok (rp_header p)"
  shows "rtp_packet_parse (rtp_packet_encode p) = Some p"
  using rtp_header_roundtrip [OF assms]
  by (simp add: rtp_packet_parse_def rtp_packet_encode_def)

lemma rtp_header_parse_bounds:
  assumes "rtp_header_parse raw = Some (h, n)"
  shows "12 \<le> n \<and> n \<le> length raw \<and> (has_padding raw \<longrightarrow> n < length raw)"
  using assms by (auto simp: rtp_header_parse_def Let_def split: if_splits)

text \<open>
  What the parser returns lies in the input: the header takes at least 12 bytes, and the input is the
  header bytes, the payload and the padding, whose length is the last byte when the padding bit is set.
\<close>

lemma rtp_packet_parse_parts:
  assumes "rtp_packet_parse raw = Some p"
  shows "\<exists>n header padding. rtp_header_parse raw = Some (rp_header p, n) \<and> 12 \<le> n \<and> length header = n
    \<and> raw = header @ rp_payload p @ padding
    \<and> length padding = (if has_padding raw then unat (last raw) else 0)"
proof -
  let ?pad = "if has_padding raw then unat (last raw) else 0"
  obtain h n where h: "rtp_header_parse raw = Some (h, n)"
    and pad: "?pad \<le> length raw" "n \<le> length raw - ?pad"
    and p: "p = \<lparr>rp_header = h, rp_payload = drop n (take (length raw - ?pad) raw)\<rparr>"
    using assms by (auto simp: rtp_packet_parse_def Let_def split: option.splits if_splits)
  let ?stop = "length raw - ?pad"
  have "take n (take ?stop raw) @ drop n (take ?stop raw) @ drop ?stop raw = raw"
    by (metis append_assoc append_take_drop_id)
  then have "raw = take n raw @ rp_payload p @ drop ?stop raw" using pad(2) p by (simp add: min_absorb1)
  with h p pad rtp_header_parse_bounds [OF h] show ?thesis
    by (intro exI [of _ n] exI [of _ "take n raw"] exI [of _ "drop ?stop raw"]) simp
qed

lemma rtp_packet_parse_parts_witness:
  "\<exists>n header padding. rtp_header_parse ([0xA0, 7, 7, 7, 7, 7, 7, 7, 7, 7, 7, 7, 7, 2, 2] :: bytes) = Some (rp_header
      \<lparr>rp_header = \<lparr>rh_version = 2, rh_payload_type = 7, rh_sequence_number = 0x707, rh_timestamp = 0x7070707,
        rh_ssrc = 0x7070707, rh_marker = False\<rparr>, rp_payload = [7]\<rparr>, n) \<and> 12 \<le> n \<and> length header = n
    \<and> ([0xA0, 7, 7, 7, 7, 7, 7, 7, 7, 7, 7, 7, 7, 2, 2] :: bytes) = header @ rp_payload
      \<lparr>rp_header = \<lparr>rh_version = 2, rh_payload_type = 7, rh_sequence_number = 0x707, rh_timestamp = 0x7070707,
        rh_ssrc = 0x7070707, rh_marker = False\<rparr>, rp_payload = [7]\<rparr> @ padding
    \<and> length padding = (if has_padding ([0xA0, 7, 7, 7, 7, 7, 7, 7, 7, 7, 7, 7, 7, 2, 2] :: bytes)
        then unat (last ([0xA0, 7, 7, 7, 7, 7, 7, 7, 7, 7, 7, 7, 7, 2, 2] :: bytes)) else 0)"
  by (rule rtp_packet_parse_parts)
    (simp add: rtp_packet_parse_def rtp_header_parse_def has_padding_def Let_def from_be_def be_to_nat_def)

section \<open>The clock\<close>

text \<open>\<^verbatim>\<open>i64\<close> and \<^verbatim>\<open>i128\<close> values are \<open>int\<close>: the products stay below 2^52 and 2^95; \<^verbatim>\<open>as u32\<close> is \<open>of_int\<close>.\<close>

definition ticks_to_micros :: "u32 \<Rightarrow> u32 \<Rightarrow> int" where
  "ticks_to_micros rate ticks =
     (if rate = 0 then 0 else (int (unat ticks) * 1000000) div int (unat rate))"

definition micros_to_ticks :: "u32 \<Rightarrow> int \<Rightarrow> u32" where
  "micros_to_ticks rate micros =
     (if rate = 0 \<or> micros \<le> 0 then 0 else of_int ((micros * int (unat rate)) div 1000000))"

lemma div_mul_bounds:
  fixes m r :: int
  assumes "0 < r" "r \<le> 1000000"
  shows "(m * 1000000 div r) * r div 1000000 \<le> m" "m - 1 \<le> (m * 1000000 div r) * r div 1000000"
proof -
  let ?q = "m * 1000000 div r"
  have q: "?q * r \<le> m * 1000000" "m * 1000000 - r < ?q * r"
    using assms(1) div_mult_mod_eq [of "m * 1000000" r] pos_mod_bound [OF assms(1), of "m * 1000000"]
      pos_mod_sign [OF assms(1), of "m * 1000000"] by linarith+
  show "?q * r div 1000000 \<le> m" using zdiv_mono1 [OF q(1), of 1000000] by simp
  have "(m - 1) * 1000000 \<le> ?q * r" using q(2) assms(2) by simp
  from zdiv_mono1 [OF this, of 1000000] show "m - 1 \<le> ?q * r div 1000000" by simp
qed

text \<open>
  Converting a timestamp to microseconds and back loses at most one tick, and never gains one, for
  every clock rate up to 1 MHz.
\<close>

lemma clock_roundtrip:
  assumes "0 < rate" and "unat rate \<le> 1000000"
  shows "micros_to_ticks rate (ticks_to_micros rate ticks) = ticks
    \<or> (0 < ticks \<and> micros_to_ticks rate (ticks_to_micros rate ticks) = ticks - 1)"
proof -
  define m r where "m = int (unat ticks)" and "r = int (unat rate)"
  have r: "0 < r" "r \<le> 1000000" "rate \<noteq> 0"
    using assms by (auto simp: r_def word_less_nat_alt simp del: of_nat_unat)
  let ?t = "(m * 1000000 div r) * r div 1000000"
  have tm: "ticks_to_micros rate ticks = m * 1000000 div r"
    using r(3) by (simp add: ticks_to_micros_def m_def r_def)
  have m: "0 \<le> m" "of_int m = ticks" "0 < m \<Longrightarrow> 0 < ticks" by (simp_all add: m_def word_less_def)
  then have "0 \<le> m * 1000000 div r" using r by (simp add: pos_imp_zdiv_nonneg_iff)
  then have t: "micros_to_ticks rate (ticks_to_micros rate ticks) = of_int ?t"
    using r(3) unfolding tm by (auto simp: micros_to_ticks_def r_def)
  have "0 \<le> ?t" using r m(1) by (simp add: pos_imp_zdiv_nonneg_iff)
  with div_mul_bounds [OF r(1,2), of m] have "?t = m \<or> (0 < m \<and> ?t = m - 1)" by linarith
  then show ?thesis
  proof
    assume "?t = m"
    then show ?thesis unfolding t by (simp only: m(2)) simp
  next
    assume a: "0 < m \<and> ?t = m - 1"
    then have "of_int ?t = ticks - 1" by (simp only: of_int_diff m(2)) simp
    with a m(3) t show ?thesis by simp
  qed
qed

section \<open>Packetisation\<close>

function packetize_from :: "nat \<Rightarrow> rtp_header \<Rightarrow> u16 \<Rightarrow> bytes \<Rightarrow> rtp_packet list" where
  "packetize_from payload_mtu header seq cursor =
     (if cursor = [] \<or> payload_mtu = 0 then []
      else
        let take_len = min (length cursor) payload_mtu;
            chunk = take take_len cursor;
            cursor = drop take_len cursor;
            header = header\<lparr>rh_sequence_number := seq, rh_marker := (cursor = [])\<rparr>
        in \<lparr>rp_header = header, rp_payload = chunk\<rparr> # packetize_from payload_mtu header (seq + 1) cursor)"
  by pat_completeness auto
termination by (relation "measure (\<lambda>(_, _, _, cursor). length cursor)") auto

declare packetize_from.simps [simp del]

definition packetize_payload :: "bytes \<Rightarrow> nat \<Rightarrow> rtp_header \<Rightarrow> rtp_packet list" where
  "packetize_payload payload mtu header =
     packetize_from (max (mtu - 12) 1) header (rh_sequence_number header) payload"

function packetize_g711_from :: "nat \<Rightarrow> rtp_header \<Rightarrow> u16 \<Rightarrow> u32 \<Rightarrow> bytes \<Rightarrow> rtp_packet list" where
  "packetize_g711_from chunk_bytes header seq ts cursor =
     (if cursor = [] \<or> chunk_bytes = 0 then []
      else
        let take_len = min (length cursor) chunk_bytes;
            chunk = take take_len cursor;
            cursor = drop take_len cursor;
            header = header\<lparr>rh_sequence_number := seq, rh_timestamp := ts, rh_marker := False\<rparr>
        in \<lparr>rp_header = header, rp_payload = chunk\<rparr>
           # packetize_g711_from chunk_bytes header (seq + 1) (ts + of_nat take_len) cursor)"
  by pat_completeness auto
termination by (relation "measure (\<lambda>(_, _, _, _, cursor). length cursor)") auto

declare packetize_g711_from.simps [simp del]

definition packetize_g711 :: "bytes \<Rightarrow> u32 \<Rightarrow> u32 \<Rightarrow> rtp_header \<Rightarrow> rtp_packet list" where
  "packetize_g711 payload sample_rate packet_duration_ms header =
     (if payload = [] then []
      else
        let dur_ms = max (unat packet_duration_ms) 1;
            samples_per_packet = unat sample_rate * dur_ms div 1000;
            chunk_bytes = min (max samples_per_packet 1) 1400
        in packetize_g711_from chunk_bytes header (rh_sequence_number header) (rh_timestamp header) payload)"

text \<open>The loop of \<^verbatim>\<open>depacketize_payload\<close> over neighbours: the largest gap and the index before it.\<close>

definition largest_gap :: "u16 list \<Rightarrow> nat \<times> nat" where
  "largest_gap seqs =
     foldl (\<lambda>(largest, split_after) idx.
         let gap = unat (seqs ! Suc idx - seqs ! idx)
         in if gap > largest then (gap, idx) else (largest, split_after))
       (0, length seqs - 1) [0..<length seqs - 1]"

definition rtp_seq :: "rtp_packet \<Rightarrow> u16" where
  "rtp_seq p = rh_sequence_number (rp_header p)"

definition depacketize_payload :: "rtp_packet list \<Rightarrow> bytes" where
  "depacketize_payload packets =
     (if packets = [] then []
      else
        let packets = sort_key rtp_seq packets;
            packets =
              (if length packets > 1 then
                 let (largest, split_after) = largest_gap (map rtp_seq packets);
                     first = unat (rtp_seq (hd packets));
                     last = unat (rtp_seq (packets ! (length packets - 1)));
                     wrap_gap = 65535 + 1 + first - last;
                     split_after = (if wrap_gap > largest then length packets - 1 else split_after);
                     start = (split_after + 1) mod length packets
                 in if start \<noteq> 0 then rotate start packets else packets
               else packets)
        in concat (map rp_payload packets))"

text \<open>Consecutive sequence numbers from \<open>s\<close>.\<close>

definition seqs_from :: "u16 \<Rightarrow> nat \<Rightarrow> u16 list" where
  "seqs_from s n = map (\<lambda>i. s + of_nat i) [0..<n]"

lemma seqs_from_0 [simp]: "seqs_from s 0 = []"
  by (simp add: seqs_from_def)

lemma seqs_from_Suc: "seqs_from s (Suc n) = s # seqs_from (s + 1) n"
  by (simp add: seqs_from_def upt_conv_Cons del: upt_Suc) (simp add: map_Suc_upt [symmetric] comp_def algebra_simps del: upt_Suc map_Suc_upt)

lemma length_seqs_from [simp]: "length (seqs_from s n) = n"
  by (simp add: seqs_from_def)

lemma nth_seqs_from [simp]: "i < n \<Longrightarrow> seqs_from s n ! i = s + of_nat i"
  by (simp add: seqs_from_def)

lemma packetize_from_Nil [simp]: "packetize_from m h seq [] = []"
  by (simp add: packetize_from.simps)

lemma packetize_from_step:
  assumes "cursor \<noteq> []" and "0 < m"
  shows "packetize_from m h seq cursor =
    \<lparr>rp_header = h\<lparr>rh_sequence_number := seq, rh_marker := (drop m cursor = [])\<rparr>, rp_payload = take m cursor\<rparr>
    # packetize_from m (h\<lparr>rh_sequence_number := seq, rh_marker := (drop m cursor = [])\<rparr>) (seq + 1) (drop m cursor)"
proof -
  have "take (min (length cursor) m) cursor = take m cursor" "drop (min (length cursor) m) cursor = drop m cursor"
    by (simp_all add: min_def)
  with assms show ?thesis by (subst packetize_from.simps) (simp only: Let_def simp_thms if_False neq0_conv, simp)
qed

lemma packetize_induct [consumes 1, case_names Nil Cons]:
  assumes "0 < m" and "\<And>h seq. P h seq []"
    and "\<And>h seq cursor. cursor \<noteq> [] \<Longrightarrow>
      P (h\<lparr>rh_sequence_number := seq, rh_marker := (drop m cursor = [])\<rparr>) (seq + 1) (drop m cursor) \<Longrightarrow> P h seq cursor"
  shows "P h seq (cursor :: bytes)"
proof (induction "length cursor" arbitrary: h seq cursor rule: less_induct)
  case less
  show ?case
  proof (cases "cursor = []")
    case False
    with assms(1) have "length (drop m cursor) < length cursor" by simp
    then show ?thesis by (rule assms(3) [OF False less])
  qed (simp add: assms(2))
qed

lemma packetize_from_spec:
  assumes "0 < m"
  shows "concat (map rp_payload (packetize_from m h seq payload)) = payload
    \<and> map rtp_seq (packetize_from m h seq payload) = seqs_from seq (length (packetize_from m h seq payload))
    \<and> (\<forall>p \<in> set (packetize_from m h seq payload). rp_payload p \<noteq> [] \<and> length (rp_payload p) \<le> m
        \<and> rh_timestamp (rp_header p) = rh_timestamp h)"
  using assms
proof (induction h seq payload rule: packetize_induct)
  case (Cons h seq cursor)
  then show ?case
    unfolding packetize_from_step [OF Cons(1) assms] by (simp add: seqs_from_Suc rtp_seq_def assms)
qed simp

lemma packetize_from_markers:
  assumes "0 < m" and "payload \<noteq> []"
  shows "\<exists>l. map (\<lambda>p. rh_marker (rp_header p)) (packetize_from m h seq payload) = replicate l False @ [True]"
  using assms
proof (induction h seq payload rule: packetize_induct)
  case (Cons h seq cursor)
  show ?case
  proof (cases "drop m cursor = []")
    case True
    then show ?thesis unfolding packetize_from_step [OF Cons(1) assms(1)] by (intro exI [of _ 0]) simp
  next
    case False
    with Cons.IH obtain l where l: "map (\<lambda>p. rh_marker (rp_header p))
        (packetize_from m (h\<lparr>rh_sequence_number := seq, rh_marker := (drop m cursor = [])\<rparr>) (seq + 1) (drop m cursor)) =
      replicate l False @ [True]" by blast
    from False show ?thesis
      unfolding packetize_from_step [OF Cons(1) assms(1)] list.map l by (intro exI [of _ "Suc l"]) simp
  qed
qed simp

section \<open>Depacketisation\<close>

lemma unat_seq: "unat (s + of_nat i :: u16) = (unat s + i) mod 65536"
  by (simp add: unat_word_ariths unat_of_nat mod_simps)

lemma gap_fold_ones:
  fixes g :: "nat \<Rightarrow> nat"
  assumes "\<forall>i < m. g i = 1"
  shows "foldl (\<lambda>(l, a) i. if g i > l then (g i, i) else (l, a)) (0, d) [0..<m] = (if m = 0 then (0, d) else (1, 0))"
  using assms by (induction m) auto

lemma gap_fold_one_large:
  fixes g :: "nat \<Rightarrow> nat"
  assumes "\<forall>i < m. g i = (if i = k then G else 1)" and "1 < G" and "k < m"
  shows "foldl (\<lambda>(l, a) i. if g i > l then (g i, i) else (l, a)) (0, d) [0..<m] = (G, k)"
  using assms
proof (induction m)
  case (Suc m)
  show ?case
  proof (cases "k = m")
    case True
    then have "\<forall>i < m. g i = 1" using Suc.prems(1) by simp
    from gap_fold_ones [OF this, of d] True Suc.prems(1,2) show ?thesis by simp
  next
    case False
    with Suc show ?thesis by simp
  qed
qed simp

lemma largest_gap_seqs_from:
  assumes "1 < n"
  shows "largest_gap (seqs_from s n) = (1, 0)"
proof -
  have "\<forall>i < n - 1. unat (seqs_from s n ! Suc i - seqs_from s n ! i) = 1" using assms by simp
  from gap_fold_ones [OF this, of "n - 1"] assms show ?thesis by (simp add: largest_gap_def Let_def)
qed

lemma largest_gap_wrapped:
  assumes "0 < k" and "k < unat s" and "0 < m" and "unat s + m = 65536"
  shows "largest_gap (seqs_from 0 k @ seqs_from s m) = (unat s - (k - 1), k - 1)"
proof -
  let ?L = "seqs_from 0 k @ seqs_from s m"
  have *: "unat (?L ! Suc i - ?L ! i) = (if i = k - 1 then unat s - (k - 1) else 1)" if i: "i < k + m - 1" for i
  proof -
    consider "Suc i < k" | "Suc i = k" | "k \<le> i" by linarith
    then show ?thesis
    proof cases
      case 1
      then have "i \<noteq> k - 1" by simp
      with 1 show ?thesis by (simp add: nth_append)
    next
      case 2
      have "?L ! Suc i - ?L ! i = s - of_nat i" using 2 assms by (simp add: nth_append del: of_nat_Suc)
      also have "unat (s - of_nat i :: u16) = unat s - i"
      proof -
        have "unat (of_nat i :: u16) = i" using assms 2 by (simp add: unat_of_nat)
        with assms(2) 2 show ?thesis by (subst unat_sub) (simp_all add: word_le_nat_alt)
      qed
      finally show ?thesis using 2 by auto
    next
      case 3
      then have "?L ! Suc i - ?L ! i = 1" using i by (simp add: nth_append Suc_diff_le)
      then show ?thesis using 3 assms(1) by auto
    qed
  qed
  have "\<forall>i < length ?L - 1. unat (?L ! Suc i - ?L ! i) = (if i = k - 1 then unat s - (k - 1) else 1)"
    using * by simp
  from gap_fold_one_large [OF this, of "length ?L - 1"] assms show ?thesis
    by (simp only: largest_gap_def Let_def) simp
qed

lemma sort_key_unique:
  assumes "mset qs = mset rs" and "distinct (map rtp_seq rs)" and "sorted (map rtp_seq rs)"
  shows "sort_key rtp_seq qs = rs"
proof -
  have "inj_on rtp_seq (set qs)"
    using assms(2) mset_eq_setD [OF assms(1)] by (simp add: distinct_map)
  then show ?thesis using assms by (intro sort_key_inj_key_eq) auto
qed

lemma distinct_seqs_from: "n \<le> 65536 \<Longrightarrow> distinct (seqs_from s n)"
proof (simp add: seqs_from_def distinct_map, rule inj_onI)
  fix i j assume n: "n \<le> 65536" and ij: "i \<in> {0..<n}" "j \<in> {0..<n}" "s + of_nat i = s + of_nat j"
  then have "unat (of_nat i :: u16) = unat (of_nat j :: u16)" by simp
  then show "i = j" using n ij by (simp add: unat_of_nat)
qed

lemma sorted_seqs_from: "unat s + n \<le> 65536 \<Longrightarrow> sorted (seqs_from s n)"
  by (auto simp: sorted_iff_nth_mono word_le_nat_alt unat_seq)

text \<open>Packets numbered from \<open>s\<close> on come out in order, also when the numbers wrap around.\<close>

lemma depacketize_permutation:
  assumes ps: "map rtp_seq ps = seqs_from s (length ps)" and n: "length ps \<le> 65535" and qs: "mset qs = mset ps"
  shows "depacketize_payload qs = concat (map rp_payload ps)"
proof -
  let ?n = "length ps" and ?S = "unat s"
  have S: "?S < 65536" using unat_less [of s] by simp
  have ln: "length qs = ?n" using qs by (rule mset_eq_length)
  have dist: "distinct (map rtp_seq ps)" unfolding ps using n by (intro distinct_seqs_from) simp
  have key: "rtp_seq (ps ! i) = s + of_nat i" if "i < ?n" for i
    using that arg_cong [OF ps, of "\<lambda>l. l ! i"] by simp
  consider "?n = 0" | "?n = 1" | (plain) "1 < ?n" "?S + ?n \<le> 65536" | (wrap) "1 < ?n" "65536 < ?S + ?n" by linarith
  then show ?thesis
  proof cases
    assume "?n = 0"
    with ln show ?thesis by (simp add: depacketize_payload_def)
  next
    assume 1: "?n = 1"
    have "sort_key rtp_seq qs = ps"
      using 1 by (intro sort_key_unique [OF qs dist]) (auto simp: length_Suc_conv)
    with 1 ln show ?thesis by (auto simp: depacketize_payload_def)
  next
    case plain
    have sort: "sort_key rtp_seq qs = ps"
      using sorted_seqs_from [OF plain(2)] ps by (intro sort_key_unique [OF qs dist]) simp
    have first: "unat (rtp_seq (hd ps)) = ?S" using key [of 0] plain(1) by (simp add: hd_conv_nth flip: length_greater_0_conv)
    have last: "unat (rtp_seq (ps ! (?n - 1))) = ?S + ?n - 1" using key [of "?n - 1"] plain by (simp add: unat_seq del: of_nat_diff)
    have "Suc (?n - Suc 0) = ?n" using plain(1) by simp
    then have "Suc (?n - Suc 0) mod ?n = 0" by (simp only: mod_self)
    moreover have "qs \<noteq> []" using ln plain(1) by auto
    ultimately show ?thesis
      using first last plain n largest_gap_seqs_from [OF plain(1), of s]
      by (simp add: depacketize_payload_def sort ps Let_def)
  next
    case wrap
    define m where "m = 65536 - ?S"
    define k where "k = ?n - m"
    have m: "0 < m" "m < ?n" "?S + m = 65536" using S wrap(2) by (auto simp: m_def)
    have k: "0 < k" "k < ?S" "k + m = ?n" using m n by (auto simp: k_def)
    let ?rs = "drop m ps @ take m ps"
    have t: "map rtp_seq (take m ps) = seqs_from s m" unfolding take_map [symmetric] ps
      using m by (simp add: seqs_from_def take_map)
    have d: "map rtp_seq (drop m ps) = seqs_from 0 k"
    proof (rule nth_equalityI)
      fix i assume "i < length (map rtp_seq (drop m ps))"
      then have i: "m + i < ?n" "i < k" using k m by auto
      have "(of_nat m :: u16) = - s"
      proof -
        have "s + of_nat m = of_nat (?S + m)" by simp
        also have "\<dots> = 0" unfolding m(3) by simp
        finally show ?thesis by (simp add: eq_neg_iff_add_eq_0 add.commute)
      qed
      then have "s + of_nat (m + i) = of_nat i" by simp
      with key [OF i(1)] i m show "map rtp_seq (drop m ps) ! i = seqs_from 0 k ! i" by simp
    qed (use k in simp)
    have L: "map rtp_seq ?rs = seqs_from 0 k @ seqs_from s m" using t d by simp
    have "sorted (map rtp_seq ?rs)"
      unfolding L using sorted_seqs_from [of 0 k] sorted_seqs_from [of s m] m k
      by (auto simp: sorted_append seqs_from_def word_le_nat_alt unat_seq unat_of_nat)
    moreover have "distinct (map rtp_seq ?rs)" using dist by (metis append_take_drop_id distinct_append inf_commute map_append set_append)
    moreover have "mset ps = mset ?rs" by (metis append_take_drop_id mset_append union_commute)
    ultimately have sort: "sort_key rtp_seq qs = ?rs" using qs by (intro sort_key_unique) simp_all
    have "hd ?rs = ?rs ! 0" using m by (intro hd_conv_nth) auto
    then have first: "unat (rtp_seq (hd ?rs)) = 0"
      using arg_cong [OF L, of "\<lambda>l. l ! 0"] k m by (simp add: nth_append)
    have last: "unat (rtp_seq (?rs ! (?n - 1))) = 65535"
    proof -
      have i: "\<not> ?n - 1 < k" "?n - 1 - k = m - 1" "m - 1 < m" "?n - 1 < length ?rs" using k m by auto
      have "rtp_seq (?rs ! (?n - 1)) = map rtp_seq ?rs ! (?n - 1)" by (rule nth_map [OF i(4), symmetric])
      also have "\<dots> = s + of_nat (m - 1)"
        unfolding L nth_append length_seqs_from if_not_P [OF i(1)] i(2) by (rule nth_seqs_from [OF i(3)])
      finally show ?thesis using m by (simp only: unat_seq) simp
    qed
    have "qs \<noteq> []" using ln wrap(1) by auto
    have "k mod ?n = k" using k m by simp
    have "rotate k ?rs = ps"
      using k m by (simp add: rotate_drop_take)
    show ?thesis
      using \<open>qs \<noteq> []\<close> first last wrap(1) k m largest_gap_wrapped [OF k(1,2) m(1,3)] \<open>rotate k ?rs = ps\<close>
      by (simp add: depacketize_payload_def sort L Let_def del: map_append)
  qed
qed

text \<open>
  C29: the fragments of a payload give it back in whatever order they arrive: every permutation of the
  packets made by the packetizer, up to 65535 of them and from any first sequence number, is put in order
  again, across a wrap-around, and gives the payload.
\<close>

theorem depacketize_packetize:
  assumes "mset qs = mset (packetize_payload payload mtu header)"
    and "length (packetize_payload payload mtu header) \<le> 65535"
  shows "depacketize_payload qs = payload"
  using packetize_from_spec [of "max (mtu - 12) 1" header "rh_sequence_number header" payload] assms
    depacketize_permutation [of "packetize_payload payload mtu header" "rh_sequence_number header" qs]
  by (simp add: packetize_payload_def)

theorem depacketize_packetize_witness:
  "depacketize_payload (rev (packetize_payload [1, 2, 3, 4, 5] 14
     \<lparr>rh_version = 2, rh_payload_type = 96, rh_sequence_number = 65535, rh_timestamp = 0, rh_ssrc = 0, rh_marker = False\<rparr>))
   = [1, 2, 3, 4, 5]"
  by (rule depacketize_packetize [where mtu = 14 and header = "\<lparr>rh_version = 2, rh_payload_type = 96,
        rh_sequence_number = 65535, rh_timestamp = 0, rh_ssrc = 0, rh_marker = False\<rparr>"])
    (simp_all add: packetize_payload_def packetize_from_step)

text \<open>
  The packetizer cuts a payload into pieces that are not empty and fit the packet size (at least one
  byte is sent), which give the payload back in order, with consecutive sequence numbers from the header's
  on, the header's timestamp, and the marker on the last packet only.
\<close>

lemma packetize_payload_spec:
  "concat (map rp_payload (packetize_payload payload mtu h)) = payload
   \<and> map rtp_seq (packetize_payload payload mtu h) =
       seqs_from (rh_sequence_number h) (length (packetize_payload payload mtu h))
   \<and> list_all (\<lambda>p. rp_payload p \<noteq> [] \<and> length (rp_payload p) \<le> max (mtu - 12) 1
       \<and> rh_timestamp (rp_header p) = rh_timestamp h) (packetize_payload payload mtu h)
   \<and> map (\<lambda>p. rh_marker (rp_header p)) (packetize_payload payload mtu h) =
       (if payload = [] then [] else replicate (length (packetize_payload payload mtu h) - 1) False @ [True])"
proof -
  let ?ps = "packetize_payload payload mtu h" and ?m = "max (mtu - 12) 1"
  have m: "0 < ?m" by simp
  note spec = packetize_from_spec [OF m, of h "rh_sequence_number h" payload, folded packetize_payload_def]
  have "map (\<lambda>p. rh_marker (rp_header p)) ?ps =
      (if payload = [] then [] else replicate (length ?ps - 1) False @ [True])"
  proof (cases "payload = []")
    case False
    from packetize_from_markers [OF m False, of h "rh_sequence_number h", folded packetize_payload_def] obtain l where
      l: "map (\<lambda>p. rh_marker (rp_header p)) ?ps = replicate l False @ [True]" by blast
    from arg_cong [OF l, of length] have "length ?ps = Suc l" by simp
    with l False show ?thesis by simp
  qed (simp add: packetize_payload_def)
  with spec show ?thesis by (simp add: list_all_iff)
qed

lemma packetize_g711_from_spec:
  assumes "0 < m"
  shows "concat (map rp_payload (packetize_g711_from m h seq ts payload)) = payload"
  using assms
proof (induction m h seq ts payload rule: packetize_g711_from.induct)
  case (1 m h seq ts cursor)
  then show ?case
    by (subst packetize_g711_from.simps) (simp add: Let_def)
qed

section \<open>Probing a payload\<close>

datatype rtp_payload_mode = Ps | Ts | Es | Ehome | Xhb | Jtt1078 | RawAudio | RawVideo | UnknownMode

fun position :: "('a \<Rightarrow> bool) \<Rightarrow> 'a list \<Rightarrow> nat option" where
  "position f [] = None"
| "position f (x # xs) = (if f x then Some 0 else map_option Suc (position f xs))"

definition probe_rtp_payload :: "bytes \<Rightarrow> rtp_payload_mode" where
  "probe_rtp_payload payload =
     (if payload = [] then UnknownMode
      else if length payload \<ge> 4 \<and> payload ! 0 = 0x30 \<and> payload ! 1 = 0x31 \<and> payload ! 2 = 0x63 \<and> payload ! 3 = 0x64
      then Jtt1078
      else if length payload \<ge> 256 \<and> payload ! 0 = 0x01 \<and> payload ! 1 = 0x00
        \<and> (payload ! 2 = 0x01 \<or> payload ! 2 = 0x02)
      then Ehome
      else if length payload \<ge> 4 \<and> payload ! 0 = 0x00 \<and> payload ! 1 = 0x00 \<and> payload ! 2 = 0x01 \<and> payload ! 3 = 0xBA
      then Ps
      else if payload ! 0 = 0x47
        \<and> (length payload \<ge> 376 \<and> payload ! 188 = 0x47 \<or> length payload \<le> 188 \<or> 188 dvd length payload)
      then Ts
      else
        (case position (\<lambda>b. b = 0x47) payload of
           Some pos \<Rightarrow> if pos < 12 \<and> pos + 188 \<le> length payload then Ts else UnknownMode
         | None \<Rightarrow> UnknownMode))"

section \<open>Framing over TCP\<close>

definition parse_tcp_rtp_frame :: "bytes \<Rightarrow> (rtp_packet \<times> nat) option" where
  "parse_tcp_rtp_frame raw =
     (if length raw < 2 then None
      else
        let len = unat (from_be [raw ! 0, raw ! 1] :: u16)
        in if length raw < 2 + len then None
           else map_option (\<lambda>packet. (packet, 2 + len)) (rtp_packet_parse (drop 2 (take (2 + len) raw))))"

definition encode_tcp_rtp_frame :: "rtp_packet \<Rightarrow> bytes" where
  "encode_tcp_rtp_frame packet =
     (let encoded = rtp_packet_encode packet in to_be 2 (of_nat (length encoded) :: u16) @ encoded)"

definition encode_tcp_rtcp_frame :: "bytes \<Rightarrow> bytes" where
  "encode_tcp_rtcp_frame data = to_be 2 (of_nat (length data) :: u16) @ data"

datatype rtp_tcp_framing = TwoByte | Interleaved4Byte | AutoDetect

definition dollar :: u8 where "dollar = 0x24"

definition parse_interleaved_rtp_frame :: "bytes \<Rightarrow> (rtp_packet \<times> u8 \<times> nat) option" where
  "parse_interleaved_rtp_frame raw =
     (if length raw < 4 then None
      else if raw ! 0 \<noteq> dollar then None
      else
        let channel = raw ! 1;
            len = unat (from_be [raw ! 2, raw ! 3] :: u16)
        in if length raw < 4 + len then None
           else map_option (\<lambda>packet. (packet, channel, 4 + len)) (rtp_packet_parse (drop 4 (take (4 + len) raw))))"

definition encode_interleaved_rtp_frame :: "rtp_packet \<Rightarrow> u8 \<Rightarrow> bytes" where
  "encode_interleaved_rtp_frame packet channel =
     (let encoded = rtp_packet_encode packet
      in [dollar, channel] @ to_be 2 (of_nat (length encoded) :: u16) @ encoded)"

record parsed_tcp_rtp_frame =
  pf_packet :: rtp_packet
  pf_consumed :: nat
  pf_channel :: "u8 option"
  pf_framing :: rtp_tcp_framing

definition two_byte_frame :: "bytes \<Rightarrow> parsed_tcp_rtp_frame option" where
  "two_byte_frame raw = map_option (\<lambda>(packet, consumed).
     \<lparr>pf_packet = packet, pf_consumed = consumed, pf_channel = None, pf_framing = TwoByte\<rparr>) (parse_tcp_rtp_frame raw)"

definition interleaved_frame :: "bytes \<Rightarrow> parsed_tcp_rtp_frame option" where
  "interleaved_frame raw = map_option (\<lambda>(packet, channel, consumed).
     \<lparr>pf_packet = packet, pf_consumed = consumed, pf_channel = Some channel, pf_framing = Interleaved4Byte\<rparr>)
     (parse_interleaved_rtp_frame raw)"

definition parse_tcp_rtp_frame_with :: "bytes \<Rightarrow> rtp_tcp_framing \<Rightarrow> parsed_tcp_rtp_frame option" where
  "parse_tcp_rtp_frame_with raw mode =
     (case mode of
        TwoByte \<Rightarrow> two_byte_frame raw
      | Interleaved4Byte \<Rightarrow> interleaved_frame raw
      | AutoDetect \<Rightarrow>
          if get_at raw 0 = Some dollar then
            (case interleaved_frame raw of Some f \<Rightarrow> Some f | None \<Rightarrow> two_byte_frame raw)
          else two_byte_frame raw)"

lemma from_be_u16_pair:
  assumes "n < 65536"
  shows "\<exists>a b. to_be 2 (of_nat n :: u16) = [a, b] \<and> from_be [a, b] = (of_nat n :: u16) \<and> unat (of_nat n :: u16) = n"
proof -
  obtain a b where ab: "to_be 2 (of_nat n :: u16) = [a, b]"
    using list2 [of "to_be 2 (of_nat n :: u16)"] by (metis length_to_be)
  have "from_be [a, b] = (of_nat n :: u16)" by (simp flip: ab)
  with ab assms show ?thesis by (simp add: unat_of_nat)
qed

lemma drop_take_middle:
  assumes "length a = k" and "length e = n"
  shows "drop k (take (k + n) (a @ e @ rest)) = e"
  using assms by simp

lemma two_byte_roundtrip:
  assumes "rtp_header_ok (rp_header p)" and "length (rp_payload p) + 12 < 65536"
  shows "parse_tcp_rtp_frame (encode_tcp_rtp_frame p @ rest) = Some (p, 14 + length (rp_payload p))"
proof -
  let ?n = "length (rtp_packet_encode p)"
  have n: "?n = 12 + length (rp_payload p)" "?n < 65536" using assms(2) by (simp_all add: length_rtp_packet_encode)
  from from_be_u16_pair [OF n(2)] obtain a b where
    ab: "to_be 2 (of_nat ?n :: u16) = [a, b]" "from_be [a, b] = (of_nat ?n :: u16)" "unat (of_nat ?n :: u16) = ?n" by blast
  have e: "encode_tcp_rtp_frame p @ rest = a # b # rtp_packet_encode p @ rest"
    by (simp add: encode_tcp_rtp_frame_def ab(1))
  have "drop 2 (take (2 + ?n) (a # b # rtp_packet_encode p @ rest)) = rtp_packet_encode p" by simp
  then show ?thesis
    unfolding e using ab(2,3) rtp_packet_parse_encode [OF assms(1)] n(1)
    by (simp add: parse_tcp_rtp_frame_def)
qed

lemma interleaved_roundtrip:
  assumes "rtp_header_ok (rp_header p)" and "length (rp_payload p) + 12 < 65536"
  shows "parse_interleaved_rtp_frame (encode_interleaved_rtp_frame p channel @ rest) =
    Some (p, channel, 16 + length (rp_payload p))"
proof -
  let ?n = "length (rtp_packet_encode p)"
  have n: "?n = 12 + length (rp_payload p)" "?n < 65536" using assms(2) by (simp_all add: length_rtp_packet_encode)
  from from_be_u16_pair [OF n(2)] obtain a b where
    ab: "to_be 2 (of_nat ?n :: u16) = [a, b]" "from_be [a, b] = (of_nat ?n :: u16)" "unat (of_nat ?n :: u16) = ?n" by blast
  have e: "encode_interleaved_rtp_frame p channel @ rest = dollar # channel # a # b # rtp_packet_encode p @ rest"
    by (simp add: encode_interleaved_rtp_frame_def ab(1))
  have "drop 4 (take (4 + ?n) (dollar # channel # a # b # rtp_packet_encode p @ rest)) = rtp_packet_encode p"
    using drop_take_middle [of "[dollar, channel, a, b]" 4 "rtp_packet_encode p" ?n rest] by simp
  then show ?thesis
    unfolding e using ab(2,3) rtp_packet_parse_encode [OF assms(1)] n(1)
    by (simp add: parse_interleaved_rtp_frame_def)
qed

lemma to_be_2_first:
  assumes "n < 65536"
  shows "to_be 2 (of_nat n :: u16) ! 0 = of_nat (n div 256)"
proof -
  have "unat (of_nat n :: u16) = n" using assms by (simp add: unat_of_nat)
  then show ?thesis by (simp only: to_be_def numeral_2_eq_2 nat_to_be.simps append_Nil append_Cons nth_Cons_0)
qed

text \<open>
  Framing over TCP round trips: followed by any bytes, a packet in two-byte or in interleaved framing is
  parsed back with its length, in the mode of its framing, and in automatic mode too, for the two-byte
  framing unless the high byte of the length is a dollar sign; packets of 65536 bytes and more do not fit
  the length field.
\<close>

lemma tcp_framing_roundtrip:
  assumes "rtp_header_ok (rp_header p)" and "length (rp_payload p) + 12 < 65536"
  shows "parse_tcp_rtp_frame_with (encode_tcp_rtp_frame p @ rest) TwoByte = Some \<lparr>pf_packet = p,
      pf_consumed = length (encode_tcp_rtp_frame p), pf_channel = None, pf_framing = TwoByte\<rparr>
    \<and> (\<forall>mode. mode \<noteq> TwoByte \<longrightarrow>
      parse_tcp_rtp_frame_with (encode_interleaved_rtp_frame p channel @ rest) mode = Some \<lparr>pf_packet = p,
        pf_consumed = length (encode_interleaved_rtp_frame p channel), pf_channel = Some channel,
        pf_framing = Interleaved4Byte\<rparr>)
    \<and> ((length (rp_payload p) + 12) div 256 \<noteq> 36 \<longrightarrow>
      parse_tcp_rtp_frame_with (encode_tcp_rtp_frame p @ rest) AutoDetect = Some \<lparr>pf_packet = p,
        pf_consumed = length (encode_tcp_rtp_frame p), pf_channel = None, pf_framing = TwoByte\<rparr>)"
proof -
  let ?two = "Some \<lparr>pf_packet = p, pf_consumed = length (encode_tcp_rtp_frame p), pf_channel = None, pf_framing = TwoByte\<rparr>"
  let ?inter = "Some \<lparr>pf_packet = p, pf_consumed = length (encode_interleaved_rtp_frame p channel),
    pf_channel = Some channel, pf_framing = Interleaved4Byte\<rparr>"
  have two: "two_byte_frame (encode_tcp_rtp_frame p @ rest) = ?two"
    using two_byte_roundtrip [OF assms]
    by (simp add: two_byte_frame_def encode_tcp_rtp_frame_def Let_def length_rtp_packet_encode)
  have inter: "interleaved_frame (encode_interleaved_rtp_frame p channel @ rest) = ?inter"
    using interleaved_roundtrip [OF assms]
    by (simp add: interleaved_frame_def encode_interleaved_rtp_frame_def Let_def length_rtp_packet_encode)
  have first: "get_at (encode_interleaved_rtp_frame p channel @ rest) 0 = Some dollar"
    by (simp add: encode_interleaved_rtp_frame_def Let_def)
  have "get_at (encode_tcp_rtp_frame p @ rest) 0 \<noteq> Some dollar" if "(length (rp_payload p) + 12) div 256 \<noteq> 36"
  proof
    let ?n = "length (rtp_packet_encode p)"
    have n: "?n = length (rp_payload p) + 12" "?n < 65536" using assms(2) by (simp_all add: length_rtp_packet_encode)
    assume "get_at (encode_tcp_rtp_frame p @ rest) 0 = Some dollar"
    then have "to_be 2 (of_nat ?n :: u16) ! 0 = dollar"
      by (simp add: get_at_def encode_tcp_rtp_frame_def Let_def nth_append del: of_nat_add)
    then have "unat (of_nat (?n div 256) :: u8) = unat dollar" by (simp only: to_be_2_first [OF n(2)])
    then show False using n that by (simp add: dollar_def)
  qed
  with two inter first show ?thesis
    by (auto simp: parse_tcp_rtp_frame_with_def split: rtp_tcp_framing.split)
qed

lemma tcp_framing_roundtrip_witness:
  "parse_tcp_rtp_frame_with (encode_interleaved_rtp_frame \<lparr>rp_header = \<lparr>rh_version = 2, rh_payload_type = 96,
      rh_sequence_number = 65535, rh_timestamp = 0, rh_ssrc = 0, rh_marker = True\<rparr>, rp_payload = [1, 2]\<rparr> 3 @ [0x24, 0]) AutoDetect =
   Some \<lparr>pf_packet = \<lparr>rp_header = \<lparr>rh_version = 2, rh_payload_type = 96,
      rh_sequence_number = 65535, rh_timestamp = 0, rh_ssrc = 0, rh_marker = True\<rparr>, rp_payload = [1, 2]\<rparr>,
     pf_consumed = 18, pf_channel = Some 3, pf_framing = Interleaved4Byte\<rparr>"
  using tcp_framing_roundtrip [of "\<lparr>rp_header = \<lparr>rh_version = 2, rh_payload_type = 96,
      rh_sequence_number = 65535, rh_timestamp = 0, rh_ssrc = 0, rh_marker = True\<rparr>, rp_payload = [1, 2]\<rparr>" "[0x24, 0]" 3]
  by (simp add: rtp_header_ok_def encode_interleaved_rtp_frame_def length_rtp_packet_encode)

text \<open>
  Automatic detection misreads a long interleaved frame that has arrived in part: with 9218 bytes or
  more of a frame on channel 0 whose length is 16384 to 16639, the rest still on its way, the parser does
  not ask for more bytes but takes the bytes after the channel for a packet in two-byte framing.
\<close>

lemma auto_detect_misreads_partial_frame:
  assumes "16384 \<le> length (rp_payload p) + 12" and "length (rp_payload p) + 12 < 16640"
    and "9218 \<le> m" and "m < length (encode_interleaved_rtp_frame p 0)"
  shows "interleaved_frame (take m (encode_interleaved_rtp_frame p 0)) = None
    \<and> map_option pf_consumed (parse_tcp_rtp_frame_with (take m (encode_interleaved_rtp_frame p 0)) AutoDetect) = Some 9218"
proof -
  let ?n = "length (rtp_packet_encode p)" and ?raw = "take m (encode_interleaved_rtp_frame p 0)"
  have n: "?n = length (rp_payload p) + 12" "?n < 65536" using assms(2) by (simp_all add: length_rtp_packet_encode)
  from from_be_u16_pair [OF n(2)] obtain a b where
    ab: "to_be 2 (of_nat ?n :: u16) = [a, b]" "from_be [a, b] = (of_nat ?n :: u16)" "unat (of_nat ?n :: u16) = ?n" by blast
  have a: "a = 0x40"
  proof -
    have "?n div 256 = 64" using assms(1,2) n(1) by auto
    then show ?thesis using to_be_2_first [OF n(2)] unfolding ab by simp
  qed
  have e: "encode_interleaved_rtp_frame p 0 = dollar # 0 # a # b # rtp_packet_encode p"
    by (simp add: encode_interleaved_rtp_frame_def ab(1))
  obtain k where k: "m = k + 4" "9214 \<le> k" "k < ?n" using assms(3,4) by (intro that [of "m - 4"]) (auto simp: e)
  let ?body = "take k (rtp_packet_encode p)"
  have raw: "?raw = dollar # 0 # a # b # ?body" unfolding e k(1) by (simp add: numeral_eq_Suc)
  have none: "interleaved_frame ?raw = None"
    unfolding raw using ab(2,3) k by (simp add: interleaved_frame_def parse_interleaved_rtp_frame_def)
  define f where "f = a # b # take 9214 ?body"
  have lf: "length f = 9216" using k by (simp add: f_def)
  have "?raw = [dollar, 0] @ f @ drop 9214 ?body" unfolding raw f_def by (simp del: take_take)
  then have d: "drop 2 (take (2 + 9216) ?raw) = f" using lf by (simp only:) (rule drop_take_middle, simp_all)
  have f0: "f ! 0 = 0x40" by (simp add: f_def a)
  then have "\<not> has_padding f" by (simp add: has_padding_def)
  then obtain h where "rtp_header_parse f = Some (h, 12)"
    using f0 lf by (simp add: rtp_header_parse_def Let_def)
  then obtain q where q: "rtp_packet_parse f = Some q"
    using \<open>\<not> has_padding f\<close> lf by (simp add: rtp_packet_parse_def)
  have len: "unat (from_be [?raw ! 0, ?raw ! 1] :: u16) = 9216" "\<not> length ?raw < 2 + 9216" "\<not> length ?raw < 2"
    unfolding raw using k by (simp_all add: from_be_def be_to_nat_def dollar_def)
  have "parse_tcp_rtp_frame ?raw = Some (q, 2 + 9216)"
    unfolding parse_tcp_rtp_frame_def Let_def len(1) d q if_not_P [OF len(2)] if_not_P [OF len(3)] by simp
  then have "two_byte_frame ?raw = Some \<lparr>pf_packet = q, pf_consumed = 9218, pf_channel = None, pf_framing = TwoByte\<rparr>"
    by (simp add: two_byte_frame_def)
  moreover have "get_at ?raw 0 = Some dollar" unfolding raw by simp
  ultimately show ?thesis using none by (simp add: parse_tcp_rtp_frame_with_def)
qed

lemma auto_detect_misreads_partial_frame_witness:
  "interleaved_frame (take 10000 (encode_interleaved_rtp_frame \<lparr>rp_header = \<lparr>rh_version = 2, rh_payload_type = 96,
      rh_sequence_number = 1, rh_timestamp = 0, rh_ssrc = 0, rh_marker = True\<rparr>, rp_payload = replicate 16400 7\<rparr> 0)) = None
    \<and> map_option pf_consumed (parse_tcp_rtp_frame_with (take 10000 (encode_interleaved_rtp_frame
      \<lparr>rp_header = \<lparr>rh_version = 2, rh_payload_type = 96,
      rh_sequence_number = 1, rh_timestamp = 0, rh_ssrc = 0, rh_marker = True\<rparr>, rp_payload = replicate 16400 7\<rparr> 0)) AutoDetect) = Some 9218"
  by (rule auto_detect_misreads_partial_frame)
    (simp_all add: encode_interleaved_rtp_frame_def Let_def length_rtp_packet_encode)

end
