(* ===== verification/Rtcp_Report.thy ===== *)
theory Rtcp_Report
  imports Rtcp_Properties Rtp_Sequence Codec_Time_Properties Rtp_Packet
begin

text \<open>
  RTCP reports from the state of a session, \<^verbatim>\<open>src/crates/protocols/rtp/core/src/rtcp_report.rs\<close>: loss, jitter,
  delay, and the map from RTP timestamps to wall-clock and media time. \<^verbatim>\<open>u64\<close> values are \<open>nat\<close>s; where the
  arithmetic of the code can pass 2^64 it wraps, as in a release build.
\<close>

definition default_clock_rate_hz :: "rtp_payload_mode \<Rightarrow> nat" where
  "default_clock_rate_hz mode = (case mode of RawAudio \<Rightarrow> 8000 | _ \<Rightarrow> 90000)"

definition ntp_unix_epoch_diff :: nat where "ntp_unix_epoch_diff = 2208988800"
definition fraction_per_ms :: nat where "fraction_per_ms = 2 ^ 32 div 1000"

definition ms_to_ntp_timestamp :: "nat \<Rightarrow> nat" where
  "ms_to_ntp_timestamp now_ms =
     (let seconds = now_ms div 1000 + ntp_unix_epoch_diff; fraction = (now_ms mod 1000) * fraction_per_ms
      in (seconds * 2 ^ 32) mod 2 ^ 64 OR fraction)"

definition ntp_to_unix_micros :: "nat \<Rightarrow> int" where
  "ntp_to_unix_micros ntp =
     (let seconds = ntp div 2 ^ 32 - ntp_unix_epoch_diff; fraction = ntp mod 2 ^ 32
      in wrap_i64 (int (min (seconds * 1000000 + fraction * 1000000 div 2 ^ 32) (2 ^ 64 - 1))))"

definition rtp_to_media_micros :: "nat \<Rightarrow> nat \<Rightarrow> int" where
  "rtp_to_media_micros unwrapped_rtp clock_rate_hz =
     wrap_i64 (int (unwrapped_rtp * 1000000 div max clock_rate_hz 1))"

definition ntp_middle_32 :: "nat \<Rightarrow> u32" where
  "ntp_middle_32 ntp = of_nat (ntp div 2 ^ 16 mod 2 ^ 32)"

record rtcp_report_state =
  rs_seq :: sequence_unwrapper
  rs_base_seq :: "nat option"
  rs_expected_prior :: nat
  rs_received_prior :: nat
  rs_packets_received :: nat
  rs_last_sr_ntp :: nat
  rs_last_sr_rtp :: u32
  rs_last_sr_unwrapped :: nat
  rs_media_offset_us :: "int option"
  rs_last_sr_received_ms :: nat
  rs_jitter :: int
  rs_last_transit :: "nat option"
  rs_clock_rate_hz :: nat
  rs_last_sent_rtp_timestamp :: u32
  rs_timestamp_unwrapper :: wrap_unwrapper
  rs_wall_clock_offset_ms :: nat

definition rtcp_report_state_new :: "nat \<Rightarrow> nat \<Rightarrow> rtcp_report_state" where
  "rtcp_report_state_new clock_rate_hz wall_clock_offset_ms =
     \<lparr>rs_seq = sequence_unwrapper_new, rs_base_seq = None, rs_expected_prior = 0, rs_received_prior = 0,
      rs_packets_received = 0, rs_last_sr_ntp = 0, rs_last_sr_rtp = 0, rs_last_sr_unwrapped = 0,
      rs_media_offset_us = None, rs_last_sr_received_ms = 0, rs_jitter = 0, rs_last_transit = None,
      rs_clock_rate_hz = clock_rate_hz, rs_last_sent_rtp_timestamp = 0,
      rs_timestamp_unwrapper = the (wrap_unwrapper_new 32), rs_wall_clock_offset_ms = wall_clock_offset_ms\<rparr>"

definition report_on_sent :: "rtcp_report_state \<Rightarrow> u32 \<Rightarrow> rtcp_report_state" where
  "report_on_sent s rtp_timestamp = s\<lparr>rs_last_sent_rtp_timestamp := rtp_timestamp\<rparr>"

definition report_set_clock_rate_hz :: "rtcp_report_state \<Rightarrow> nat \<Rightarrow> rtcp_report_state" where
  "report_set_clock_rate_hz s rate =
     (if rate \<noteq> rs_clock_rate_hz s then s\<lparr>rs_last_transit := None, rs_clock_rate_hz := rate\<rparr>
      else s\<lparr>rs_clock_rate_hz := rate\<rparr>)"

definition report_set_wall_clock_offset_ms :: "rtcp_report_state \<Rightarrow> nat \<Rightarrow> rtcp_report_state" where
  "report_set_wall_clock_offset_ms s offset_ms = s\<lparr>rs_wall_clock_offset_ms := offset_ms\<rparr>"

definition report_on_packet :: "rtcp_report_state \<Rightarrow> u16 \<Rightarrow> u32 \<Rightarrow> nat \<Rightarrow> rtcp_report_state" where
  "report_on_packet s seq rtp_timestamp now_ms =
     (case unwrapper_extend (rs_seq s) seq of (u, extended) \<Rightarrow>
        let s = s\<lparr>rs_seq := u,
                  rs_base_seq := (case rs_base_seq s of None \<Rightarrow> Some extended | Some b \<Rightarrow> Some b),
                  rs_packets_received := rs_packets_received s + 1\<rparr>
        in if rs_clock_rate_hz s = 0 then s
           else
             let arrival = (now_ms * rs_clock_rate_hz s) mod 2 ^ 64 div 1000;
                 transit = nat ((int arrival - int (unat rtp_timestamp)) mod 2 ^ 64);
                 jitter = (case rs_last_transit s of
                             None \<Rightarrow> rs_jitter s
                           | Some prev \<Rightarrow>
                               let abs_d = \<bar>sint (of_nat transit - of_nat prev :: u32)\<bar>
                               in max (rs_jitter s + (abs_d - rs_jitter s) sdiv 16) 0)
             in s\<lparr>rs_jitter := jitter, rs_last_transit := Some transit\<rparr>)"

definition report_on_sender_report :: "rtcp_report_state \<Rightarrow> nat \<Rightarrow> u32 \<Rightarrow> nat \<Rightarrow> rtcp_report_state" where
  "report_on_sender_report s ntp rtp now_ms =
     (case wrap_unwrap (rs_timestamp_unwrapper s) (unat rtp) of (u, unwrapped) \<Rightarrow>
        s\<lparr>rs_last_sr_ntp := ntp, rs_last_sr_rtp := rtp, rs_last_sr_received_ms := now_ms,
          rs_timestamp_unwrapper := u, rs_last_sr_unwrapped := unwrapped,
          rs_media_offset_us :=
            Some (wrap_i64 (ntp_to_unix_micros ntp - rtp_to_media_micros unwrapped (rs_clock_rate_hz s)))\<rparr>)"

definition map_rtp_to_ntp_and_media :: "rtcp_report_state \<Rightarrow> u32 \<Rightarrow> (nat \<times> int) option" where
  "map_rtp_to_ntp_and_media s rtp =
     (case rs_media_offset_us s of
        None \<Rightarrow> None
      | Some offset_us \<Rightarrow>
          let delta = sint (rtp - rs_last_sr_rtp s);
              rate = int (max (rs_clock_rate_hz s) 1);
              delta_media_us = (delta * 1000000) sdiv rate;
              media_us = wrap_i64 (rtp_to_media_micros (rs_last_sr_unwrapped s) (rs_clock_rate_hz s)
                           + wrap_i64 delta_media_us + offset_us);
              ntp_delta = (delta * 2 ^ 32) sdiv rate;
              ntp = nat ((int (rs_last_sr_ntp s) + ntp_delta) mod 2 ^ 64)
          in Some (ntp, media_us))"

text \<open>\<^verbatim>\<open>clamp(-(1 << 23), (1 << 23) - 1)\<close>.\<close>

definition clamp_24 :: "int \<Rightarrow> int" where
  "clamp_24 x = max (- (2 ^ 23)) (min (2 ^ 23 - 1) x)"

definition report_block :: "rtcp_report_state \<Rightarrow> u32 \<Rightarrow> nat \<Rightarrow> rtcp_report_state \<times> rtcp_report_block option" where
  "report_block s peer_ssrc now_ms =
     (case su_max (rs_seq s) of
        None \<Rightarrow> (s, None)
      | Some max_seq \<Rightarrow>
          let base = (case rs_base_seq s of Some b \<Rightarrow> b | None \<Rightarrow> max_seq);
              expected = max_seq - base + 1;
              received = rs_packets_received s;
              expected_interval = expected - rs_expected_prior s;
              received_interval = received - rs_received_prior s;
              lost_interval = expected_interval - received_interval;
              fraction_lost = (if expected_interval > 0 then min (lost_interval * 256 div expected_interval) 255 else 0);
              cumulative = clamp_24 (int expected - int received);
              highest_seq = push_bit 16 (of_nat (max_seq div 65536) :: u32) OR of_nat (max_seq mod 65536);
              delay = (if rs_last_sr_received_ms s > 0
                       then min ((now_ms - rs_last_sr_received_ms s) * 65536 mod 2 ^ 64 div 1000) (2 ^ 32 - 1) else 0)
          in (s\<lparr>rs_expected_prior := expected, rs_received_prior := received\<rparr>,
              Some \<lparr>rb_ssrc = peer_ssrc, rb_fraction_lost = of_nat fraction_lost, rb_cumulative_lost = of_int cumulative,
                rb_highest_seq = highest_seq, rb_jitter = of_int (rs_jitter s), rb_last_sr = ntp_middle_32 (rs_last_sr_ntp s),
                rb_delay_since_last_sr = of_nat delay\<rparr>))"

definition sender_report :: "rtcp_report_state \<Rightarrow> u32 \<Rightarrow> u32 \<Rightarrow> u32 \<Rightarrow> nat \<Rightarrow> rtcp_report_block option \<Rightarrow> rtcp_sender_report" where
  "sender_report s ssrc packets_sent octets_sent now_ms block =
     \<lparr>sr_ssrc = ssrc,
      sr_ntp_timestamp = of_nat (ms_to_ntp_timestamp (min (now_ms + rs_wall_clock_offset_ms s) (2 ^ 64 - 1))),
      sr_rtp_timestamp = rs_last_sent_rtp_timestamp s, sr_packets_sent = packets_sent, sr_octets_sent = octets_sent,
      sr_report_blocks = (case block of None \<Rightarrow> [] | Some b \<Rightarrow> [b])\<rparr>"

definition receiver_report :: "u32 \<Rightarrow> rtcp_report_block \<Rightarrow> rtcp_receiver_report" where
  "receiver_report ssrc block = \<lparr>rr_ssrc = ssrc, rr_report_blocks = [block]\<rparr>"


section \<open>Loss\<close>

text \<open>Packets arrive, then a report is made; and again. Packets are (number, timestamp, arrival time).\<close>

fun report_arrivals :: "rtcp_report_state \<Rightarrow> (u16 \<times> u32 \<times> nat) list \<Rightarrow> rtcp_report_state" where
  "report_arrivals s [] = s"
| "report_arrivals s ((seq, ts, now) # ps) = report_arrivals (report_on_packet s seq ts now) ps"

fun report_rounds ::
  "rtcp_report_state \<Rightarrow> u32 \<Rightarrow> ((u16 \<times> u32 \<times> nat) list \<times> nat) list \<Rightarrow> rtcp_report_block option list" where
  "report_rounds s peer [] = []"
| "report_rounds s peer ((ps, now) # rounds) =
     (let (s, block) = report_block (report_arrivals s ps) peer now in block # report_rounds s peer rounds)"

text \<open>The reference counts true numbers: the first one, the highest so far, what was expected and received.\<close>

record loss_figures =
  lf_highest :: nat
  lf_fraction :: nat
  lf_lost :: int

definition losses_at :: "nat \<Rightarrow> nat \<Rightarrow> nat \<Rightarrow> nat \<Rightarrow> nat \<Rightarrow> loss_figures" where
  "losses_at first highest expected_before received_before received =
     (let expected = highest - first + 1;
          interval = expected - expected_before;
          lost = interval - (received - received_before)
      in \<lparr>lf_highest = highest, lf_fraction = (if interval > 0 then min (lost * 256 div interval) 255 else 0),
          lf_lost = int expected - int received\<rparr>)"

fun true_losses :: "nat \<Rightarrow> nat \<Rightarrow> nat \<Rightarrow> nat \<Rightarrow> nat list list \<Rightarrow> loss_figures list" where
  "true_losses first highest expected received [] = []"
| "true_losses first highest expected received (ts # rounds) =
     (let highest' = foldl max highest ts; received' = received + length ts
      in losses_at first highest' expected received received'
         # true_losses first highest' (highest' - first + 1) received' rounds)"

definition block_shows :: "rtcp_report_block option \<Rightarrow> loss_figures \<Rightarrow> bool" where
  "block_shows block f \<longleftrightarrow>
     (case block of
        None \<Rightarrow> False
      | Some b \<Rightarrow> rb_highest_seq b = of_nat (lf_highest f) \<and> unat (rb_fraction_lost b) = lf_fraction f
          \<and> sint (rb_cumulative_lost b) = clamp_24 (lf_lost f))"

text \<open>The state after the packets up to now.\<close>

definition report_seen :: "nat \<Rightarrow> nat \<Rightarrow> nat \<Rightarrow> nat \<Rightarrow> nat \<Rightarrow> rtcp_report_state \<Rightarrow> bool" where
  "report_seen first highest expected reported received s \<longleftrightarrow>
     rs_base_seq s = Some first \<and> seen_highest highest (rs_seq s) \<and> rs_expected_prior s = expected
     \<and> rs_received_prior s = reported \<and> rs_packets_received s = received \<and> first \<le> highest"

lemma report_on_packet_frame:
  "rs_seq (report_on_packet s seq ts now) = fst (unwrapper_extend (rs_seq s) seq)"
  "rs_base_seq (report_on_packet s seq ts now) =
     Some (case rs_base_seq s of None \<Rightarrow> snd (unwrapper_extend (rs_seq s) seq) | Some b \<Rightarrow> b)"
  "rs_packets_received (report_on_packet s seq ts now) = rs_packets_received s + 1"
  "rs_expected_prior (report_on_packet s seq ts now) = rs_expected_prior s"
  "rs_received_prior (report_on_packet s seq ts now) = rs_received_prior s"
  by (simp_all add: report_on_packet_def Let_def split: prod.splits option.splits)

lemma report_seen_packet:
  assumes "report_seen f h e q r s" and "timely h t \<or> late h t"
  shows "report_seen f (max h t) e q (r + 1) (report_on_packet s (of_nat t) ts now)"
  using assms(1) unwrapper_extend_true [of h "rs_seq s" t] assms(2)
  by (auto simp: report_seen_def report_on_packet_frame)

lemma report_seen_arrivals:
  assumes "report_seen f h e q r s" and "arrivals_ok h (map fst ts)"
  shows "report_seen f (foldl max h (map fst ts)) e q (r + length ts)
    (report_arrivals s (map (\<lambda>(t, x). (of_nat t, x)) ts))"
  using assms
proof (induction ts arbitrary: h r s)
  case (Cons p ts)
  obtain t stamp now where p: "p = (t, stamp, now)" by (cases p)
  from report_seen_packet [OF Cons.prems(1), of t stamp now] Cons.prems(2) p
  have "report_seen f (max h t) e q (r + 1) (report_on_packet s (of_nat t) stamp now)" by simp
  from Cons.IH [OF this] Cons.prems(2) p show ?case by simp
qed simp

lemma arrivals_ok_append:
  "arrivals_ok h (xs @ ys) \<longleftrightarrow> arrivals_ok h xs \<and> arrivals_ok (foldl max h xs) ys"
  by (induction xs arbitrary: h) auto

lemma highest_seq_word: "push_bit 16 (of_nat (m div 65536) :: u32) OR of_nat (m mod 65536) = of_nat m"
proof -
  let ?q = "of_nat (m div 65536) :: u32"
  have r: "(of_nat (m mod 65536) :: u32) = take_bit 16 (of_nat m)"
    using of_nat_take_bit [of 16 m, where 'a = u32] by (simp add: take_bit_eq_mod)
  have "push_bit 16 ?q AND take_bit 16 (of_nat m) = 0"
    by (rule bit_word_eqI) (auto simp: bit_simps)
  then have "push_bit 16 ?q OR of_nat (m mod 65536) = push_bit 16 ?q + of_nat (m mod 65536)"
    unfolding r by (rule disjunctive_add_eq_or [symmetric])
  also have "\<dots> = of_nat (m div 65536 * 65536 + m mod 65536)"
    by (simp only: of_nat_add of_nat_mult push_bit_eq_mult) simp
  finally show ?thesis by simp
qed

lemma clamp_sint: "sint (of_int (clamp_24 x) :: i32) = clamp_24 x"
proof -
  have "- (2 ^ 31) \<le> clamp_24 x" "clamp_24 x < 2 ^ 31" by (auto simp: clamp_24_def)
  then show ?thesis by (simp add: signed_of_int signed_take_bit_int_eq_self)
qed

lemma report_block_seen:
  assumes "report_seen f h e q r s"
  shows "\<exists>s' b. report_block s peer now = (s', Some b) \<and> report_seen f h (h - f + 1) r r s'
    \<and> block_shows (Some b) (losses_at f h e q r)"
proof -
  have s: "su_max (rs_seq s) = Some h" "rs_base_seq s = Some f" "rs_expected_prior s = e" "rs_received_prior s = q"
    "rs_packets_received s = r" "seen_highest h (rs_seq s)" "f \<le> h"
    using assms by (simp_all add: report_seen_def seen_highest_def)
  have u8: "unat (of_nat (min n 255) :: u8) = min n 255" for n by (simp add: unat_of_nat)
  define x n where "x = h - f + 1" and "n = x - e"
  have l: "losses_at f h e q r = \<lparr>lf_highest = h,
      lf_fraction = (if n > 0 then min ((n - (r - q)) * 256 div n) 255 else 0), lf_lost = int x - int r\<rparr>"
    by (simp only: losses_at_def Let_def x_def n_def)
  show ?thesis
    unfolding x_def [symmetric] n_def [symmetric] l
    by (simp only: report_block_def s(1-5) Let_def option.case x_def [symmetric] n_def [symmetric] prod.inject
        highest_seq_word)
      (simp add: block_shows_def report_seen_def s clamp_sint u8)
qed

text \<open>
  C34: the loss figures sent to the peer are those of true numbers: packets arrive in rounds, the first one
  with a 16-bit number, each of the others at most half a period ahead of the highest number so far, or less than
  half a period behind it. Then the report after each round carries the highest true number modulo 2^32, the
  numbers of the round less the packets received in it, as a share of the former in 256ths (0 when more were
  received, at most 255), and all numbers so far less all packets received, clamped to 24 bits: what a receiver that
  saw the unbounded numbers would report. As in RFC 3550 a duplicate counts as received.
\<close>

theorem loss_reports_true:
  assumes "t < 65536" and "arrivals_ok t (map fst (ts @ concat (map fst rounds)))"
  shows "list_all2 block_shows
    (report_rounds (rtcp_report_state_new rate offset) peer
       (map (\<lambda>(ps, now). (map (\<lambda>(t, x). (of_nat t, x)) ps, now)) (((t, x) # ts, now) # rounds)))
    (true_losses t t 0 0 ((t # map fst ts) # map (map fst \<circ> fst) rounds))"
proof -
  have run: "list_all2 block_shows
      (report_rounds s peer (map (\<lambda>(ps, now). (map (\<lambda>(t, x). (of_nat t, x)) ps, now)) rounds))
      (true_losses t h e r (map (map fst \<circ> fst) rounds))"
    if "report_seen t h e r r s" "arrivals_ok h (map fst (concat (map fst rounds)))" for h e r s
    using that
  proof (induction rounds arbitrary: h e r s)
    case (Cons p rounds)
    obtain us now where p: "p = (us, now)" by fastforce
    let ?h = "foldl max h (map fst us)" and ?s = "report_arrivals s (map (\<lambda>(t, x). (of_nat t, x)) us)"
    have ok: "arrivals_ok h (map fst us)" "arrivals_ok ?h (map fst (concat (map fst rounds)))"
      using Cons.prems(2) by (simp_all add: p arrivals_ok_append)
    from report_block_seen [OF report_seen_arrivals [OF Cons.prems(1) ok(1)], of peer now] obtain s' b where
      b: "report_block ?s peer now = (s', Some b)" "report_seen t ?h (?h - t + 1) (r + length us) (r + length us) s'"
      "block_shows (Some b) (losses_at t ?h e r (r + length us))" by (elim exE conjE) (rule that)
    from Cons.IH [OF b(2) ok(2)] b(1,3) show ?case by (simp add: p Let_def)
  qed simp
  let ?s = "rtcp_report_state_new rate offset"
  let ?s1 = "report_on_packet ?s (of_nat t) (fst x) (snd x)"
  have "report_seen t t 0 0 1 ?s1"
    using unwrapper_extend_new [OF assms(1)]
    by (auto simp: report_seen_def report_on_packet_frame rtcp_report_state_new_def)
  from report_seen_arrivals [OF this, of ts] assms(2)
  have "report_seen t (foldl max t (map fst ts)) 0 0 (1 + length ts)
      (report_arrivals ?s1 (map (\<lambda>(t, x). (of_nat t, x)) ts))" (is "report_seen t ?h 0 0 _ ?s2")
    by (simp add: arrivals_ok_append)
  from report_block_seen [OF this, of peer now] obtain s' b where
    b: "report_block ?s2 peer now = (s', Some b)" "report_seen t ?h (?h - t + 1) (1 + length ts) (1 + length ts) s'"
    "block_shows (Some b) (losses_at t ?h 0 0 (1 + length ts))" by (elim exE conjE) (rule that)
  from run [OF b(2)] assms(2) b(1,3) show ?thesis
    by (cases x) (simp add: Let_def arrivals_ok_append)
qed

theorem loss_reports_true_witness:
  "list_all2 block_shows
    (report_rounds (rtcp_report_state_new 90000 0) 7
       [([(65534, 0, 1000), (1, 3000, 1040)], 2000), ([(0, 2000, 2010), (3, 6000, 2050)], 3000)])
    [\<lparr>lf_highest = 65537, lf_fraction = 128, lf_lost = 2\<rparr>, \<lparr>lf_highest = 65539, lf_fraction = 0, lf_lost = 2\<rparr>]"
proof -
  have "arrivals_ok 65534 (map fst ([(65537, 3000, 1040)] @ concat (map fst [([(65536 :: nat, 2000 :: u32, 2010 :: nat), (65539, 6000, 2050)], 3000 :: nat)])))"
    by (simp add: timely_def late_def)
  moreover have "(of_nat 65534 :: u16) = 65534" "(of_nat 65537 :: u16) = 1" "(of_nat 65536 :: u16) = 0"
    "(of_nat 65539 :: u16) = 3" by simp_all
  ultimately show ?thesis
    using loss_reports_true [of 65534 "[(65537, 3000, 1040)]" "[([(65536, 2000, 2010), (65539, 6000, 2050)], 3000)]"
      90000 0 7 "(0, 1000)" 2000]
    by (simp only: list.map prod.case) (simp add: losses_at_def del: report_rounds.simps)
qed


section \<open>Reports on the wire, and time\<close>

lemma report_block_wire:
  "report_block s peer now = (s', Some b) \<Longrightarrow> report_block_ok b"
proof -
  assume a: "report_block s peer now = (s', Some b)"
  then obtain x where "rb_cumulative_lost b = of_int (clamp_24 x)"
    by (auto simp: report_block_def Let_def split: option.splits)
  then have "sint (rb_cumulative_lost b) = clamp_24 x" by (simp only: clamp_sint)
  then show ?thesis by (simp add: report_block_ok_def clamp_24_def)
qed

text \<open>What \<^verbatim>\<open>process_tick\<close> sends is what the peer reads.\<close>

lemma reports_reach_the_peer:
  assumes "report_block s peer now = (s', Some b)"
  shows "\<exists>out. rtcp_compound_encode [RtcpSenderReport (sender_report s' ssrc ps os now (Some b))] = Inr out
      \<and> rtcp_compound_parse out = Inr [RtcpSenderReport (sender_report s' ssrc ps os now (Some b))]"
    "\<exists>out. rtcp_compound_encode [RtcpReceiverReport (receiver_report ssrc b)] = Inr out
      \<and> rtcp_compound_parse out = Inr [RtcpReceiverReport (receiver_report ssrc b)]"
  by (rule compound_encode_parse, simp add: rtcp_packet_ok_def sender_report_def receiver_report_def
      report_block_wire [OF assms])+

lemma ntp_to_unix_micros_range: "i64_range (ntp_to_unix_micros ntp)"
  by (simp add: ntp_to_unix_micros_def Let_def)

text \<open>
  A timestamp \<open>d\<close> ticks from the one of the last sender report is mapped to the NTP time of that report
  and \<open>d / rate\<close> seconds, in units of 2^-32 seconds, whatever the wrap-around between them; the timestamp of
  the report itself is mapped to its exact time.
\<close>

lemma sender_report_maps_time:
  assumes "ntp < 2 ^ 64" and "- (2 ^ 31) \<le> d" and "d < 2 ^ 31"
  shows "map_option fst (map_rtp_to_ntp_and_media (report_on_sender_report s ntp rtp now) (rtp + of_int d)) =
      Some (nat ((int ntp + (d * 2 ^ 32) sdiv int (max (rs_clock_rate_hz s) 1)) mod 2 ^ 64))"
    "map_rtp_to_ntp_and_media (report_on_sender_report s ntp rtp now) rtp = Some (ntp, ntp_to_unix_micros ntp)"
proof -
  have d: "sint (of_int d :: u32) = d"
    using assms(2,3) by (simp add: signed_of_int signed_take_bit_int_eq_self)
  show "map_option fst (map_rtp_to_ntp_and_media (report_on_sender_report s ntp rtp now) (rtp + of_int d)) =
      Some (nat ((int ntp + (d * 2 ^ 32) sdiv int (max (rs_clock_rate_hz s) 1)) mod 2 ^ 64))"
    by (simp add: map_rtp_to_ntp_and_media_def report_on_sender_report_def Let_def d split: prod.splits)
  have w: "wrap_i64 (x + wrap_i64 (y - x)) = wrap_i64 y" for x y
    by (simp add: wrap_i64_def mod_simps)
  have z: "wrap_i64 0 = 0" by (simp add: wrap_i64_def)
  show "map_rtp_to_ntp_and_media (report_on_sender_report s ntp rtp now) rtp = Some (ntp, ntp_to_unix_micros ntp)"
    using assms(1)
    by (simp add: map_rtp_to_ntp_and_media_def report_on_sender_report_def Let_def w z wrap_i64_id
        ntp_to_unix_micros_range split: prod.splits)
qed

end
