(* ===== verification/Rtmp_Amf3.thy ===== *)
theory Rtmp_Amf3
  imports Amf_Parser Float64
begin

text \<open>
  \<^verbatim>\<open>amf3.rs\<close>: AMF3 values, the decoder with its reference tables, and the encoder (which writes every
  value in full and no references). A \<^verbatim>\<open>Pair\<close> is a HOL pair; an \<^verbatim>\<open>f64\<close> is its 64 bits; a date is an \<open>int\<close>
  of milliseconds. The encoder's result is \<open>None\<close> where the Rust code panics on an integer outside the
  29-bit range.
\<close>

section \<open>Values\<close>

datatype amf3_value =
    A3Undefined
  | A3Null
  | A3Boolean bool
  | A3Integer i32
  | A3Double u64
  | A3String string
  | A3XmlDocument string
  | A3Date int
  | A3Array "(string \<times> amf3_value) list" "amf3_value list"
  | A3Object "string option" nat "(string \<times> amf3_value) list"
  | A3Xml string
  | A3ByteArray bytes
  | A3IntVector bool "i32 list"
  | A3UintVector bool "u32 list"
  | A3DoubleVector bool "u64 list"
  | A3ObjectVector "string option" bool "amf3_value list"
  | A3Dictionary bool "(amf3_value \<times> amf3_value) list"

section \<open>Decoder state\<close>

record amf3_trait =
  tr_class_name :: "string option"
  tr_is_dynamic :: bool
  tr_fields :: "string list"

record amf3_decoder =
  a3_complexes :: "amf3_value list"
  a3_strings :: "string list"
  a3_traits :: "amf3_trait list"
  a3_decoding :: "nat set"

definition amf3_decoder_new :: amf3_decoder where
  "amf3_decoder_new = \<lparr>a3_complexes = [], a3_strings = [], a3_traits = [], a3_decoding = {}\<rparr>"

datatype size_or_index = Size nat | Index nat

type_synonym 'a parser3 = "(amf3_decoder, 'a) parser"

section \<open>Primitive readers\<close>

fun decode_u29_loop :: "nat \<Rightarrow> u32 \<Rightarrow> bytes \<Rightarrow> u32 read" where
  "decode_u29_loop 0 n buf = sbind (read_u8 buf) (\<lambda>(b, r). Inr (push_bit 8 n OR ucast b, r))"
| "decode_u29_loop (Suc k) n buf =
     sbind (read_u8 buf) (\<lambda>(b, r).
       let n' = push_bit 7 n OR (ucast b AND 0x7F) in
       if (ucast b :: u32) AND 0x80 = 0 then Inr (n', r) else decode_u29_loop k n' r)"

definition decode_u29 :: "bytes \<Rightarrow> u32 read" where
  "decode_u29 buf = decode_u29_loop 3 0 buf"

definition decode_size_or_index :: "bytes \<Rightarrow> size_or_index read" where
  "decode_size_or_index buf =
     sbind (decode_u29 buf) (\<lambda>(u29, r).
       let value = unat u29 div 2 in
       Inr (if even (unat u29) then Index value else Size value, r))"

definition amf3_decode_utf8 :: "string parser3" where
  "amf3_decode_utf8 st buf =
     pbind (pread decode_size_or_index st buf) (\<lambda>si st buf.
       case si of
         Size len \<Rightarrow>
           pbind (pread (read_utf8 len) st buf) (\<lambda>s st buf.
             pret s (if s \<noteq> [] then st\<lparr>a3_strings := a3_strings st @ [s]\<rparr> else st) buf)
       | Index idx \<Rightarrow>
           (case get_at (a3_strings st) idx of
              Some s \<Rightarrow> pret s st buf
            | None \<Rightarrow> pfail InvalidData st buf))"

definition amf3_decode_complex_type :: "(nat \<Rightarrow> amf3_value parser3) \<Rightarrow> amf3_value parser3" where
  "amf3_decode_complex_type f st buf =
     pbind (pread decode_size_or_index st buf) (\<lambda>si st buf.
       case si of
         Index idx \<Rightarrow>
           (case get_at (a3_complexes st) idx of
              None \<Rightarrow> pfail InvalidData st buf
            | Some v \<Rightarrow>
                if idx \<in> a3_decoding st then pfail Unsupported st buf else pret v st buf)
       | Size len \<Rightarrow>
           (let idx = length (a3_complexes st) in
            pbind (f len (st\<lparr>a3_complexes := a3_complexes st @ [A3Null],
                             a3_decoding := insert idx (a3_decoding st)\<rparr>) buf) (\<lambda>v st buf.
              pret v (st\<lparr>a3_decoding := a3_decoding st - {idx},
                         a3_complexes := (a3_complexes st)[idx := v]\<rparr>) buf)))"

text \<open>The loop of \<^verbatim>\<open>decode_pairs\<close>, bounded by its first argument; \<open>dv\<close> decodes a value.\<close>

fun amf3_decode_pairs :: "nat \<Rightarrow> amf3_value parser3 \<Rightarrow> (string \<times> amf3_value) list parser3" where
  "amf3_decode_pairs 0 dv st buf = None"
| "amf3_decode_pairs (Suc n) dv st buf =
     pbind (amf3_decode_utf8 st buf) (\<lambda>key st buf.
       if key = [] then pret [] st buf
       else pbind (dv st buf) (\<lambda>v st buf.
              pbind (amf3_decode_pairs n dv st buf) (\<lambda>ps st buf. pret ((key, v) # ps) st buf)))"

definition amf3_decode_trait :: "nat \<Rightarrow> amf3_trait parser3" where
  "amf3_decode_trait u28 st buf =
     (if even u28 then
        (case get_at (a3_traits st) (u28 div 2) of
           Some t \<Rightarrow> pret t st buf
         | None \<Rightarrow> pfail InvalidData st buf)
      else if odd (u28 div 2) then pfail Unsupported st buf
      else
        pbind (amf3_decode_utf8 st buf) (\<lambda>class_name st buf.
        pbind (prepeat (u28 div 8) amf3_decode_utf8 st buf) (\<lambda>fields st buf.
        let t = \<lparr>tr_class_name = (if class_name = [] then None else Some class_name),
                 tr_is_dynamic = odd (u28 div 4), tr_fields = fields\<rparr>
        in pret t (st\<lparr>a3_traits := a3_traits st @ [t]\<rparr>) buf)))"

section \<open>Values by kind\<close>

definition amf3_decode_integer :: "amf3_value parser3" where
  "amf3_decode_integer st buf =
     pbind (pread decode_u29 st buf) (\<lambda>n st buf.
       pret (A3Integer (if 0x10000000 \<le> sint n then n - 0x20000000 else n)) st buf)"

definition amf3_decode_double :: "amf3_value parser3" where
  "amf3_decode_double st buf = pbind (pread read_f64 st buf) (\<lambda>n st buf. pret (A3Double n) st buf)"

definition amf3_decode_string :: "amf3_value parser3" where
  "amf3_decode_string st buf = pbind (amf3_decode_utf8 st buf) (\<lambda>s st buf. pret (A3String s) st buf)"

definition amf3_decode_xml_document :: "amf3_value parser3" where
  "amf3_decode_xml_document st buf =
     amf3_decode_complex_type (\<lambda>len st buf.
       pbind (pread (read_utf8 len) st buf) (\<lambda>s st buf. pret (A3XmlDocument s) st buf)) st buf"

definition amf3_decode_date :: "amf3_value parser3" where
  "amf3_decode_date st buf =
     amf3_decode_complex_type (\<lambda>_ st buf.
       pbind (pread read_f64 st buf) (\<lambda>millis st buf.
         if \<not> f64_is_finite millis then pfail InvalidData st buf
         else pret (A3Date (if f64_is_zero millis then 0 else f64_as_i64 millis)) st buf)) st buf"

definition amf3_decode_array ::
  "amf3_value parser3 \<Rightarrow> (string \<times> amf3_value) list parser3 \<Rightarrow> amf3_value parser3" where
  "amf3_decode_array dv dp st buf =
     amf3_decode_complex_type (\<lambda>count st buf.
       pbind (dp st buf) (\<lambda>assoc st buf.
       pbind (prepeat count dv st buf) (\<lambda>dense st buf. pret (A3Array assoc dense) st buf))) st buf"

definition amf3_decode_object ::
  "amf3_value parser3 \<Rightarrow> (string \<times> amf3_value) list parser3 \<Rightarrow> amf3_value parser3" where
  "amf3_decode_object dv dp st buf =
     amf3_decode_complex_type (\<lambda>u28 st buf.
       pbind (amf3_decode_trait u28 st buf) (\<lambda>t st buf.
       pbind (pkeyed (tr_fields t) dv st buf) (\<lambda>sealed st buf.
       pbind (if tr_is_dynamic t then dp st buf else pret [] st buf) (\<lambda>dynamic st buf.
         pret (A3Object (tr_class_name t) (length (tr_fields t)) (sealed @ dynamic)) st buf)))) st buf"

definition amf3_decode_xml :: "amf3_value parser3" where
  "amf3_decode_xml st buf =
     amf3_decode_complex_type (\<lambda>len st buf.
       pbind (pread (read_utf8 len) st buf) (\<lambda>s st buf. pret (A3Xml s) st buf)) st buf"

definition amf3_decode_byte_array :: "amf3_value parser3" where
  "amf3_decode_byte_array st buf =
     amf3_decode_complex_type (\<lambda>len st buf.
       pbind (pread (read_bytes len) st buf) (\<lambda>bs st buf. pret (A3ByteArray bs) st buf)) st buf"

definition amf3_decode_int_vector :: "amf3_value parser3" where
  "amf3_decode_int_vector st buf =
     amf3_decode_complex_type (\<lambda>count st buf.
       pbind (pread read_u8 st buf) (\<lambda>fixed st buf.
       pbind (prepeat count (\<lambda>s b. pread read_i32 s b) st buf) (\<lambda>es st buf.
         pret (A3IntVector (fixed \<noteq> 0) es) st buf))) st buf"

definition amf3_decode_uint_vector :: "amf3_value parser3" where
  "amf3_decode_uint_vector st buf =
     amf3_decode_complex_type (\<lambda>count st buf.
       pbind (pread read_u8 st buf) (\<lambda>fixed st buf.
       pbind (prepeat count (\<lambda>s b. pread read_u32 s b) st buf) (\<lambda>es st buf.
         pret (A3UintVector (fixed \<noteq> 0) es) st buf))) st buf"

definition amf3_decode_double_vector :: "amf3_value parser3" where
  "amf3_decode_double_vector st buf =
     amf3_decode_complex_type (\<lambda>count st buf.
       pbind (pread read_u8 st buf) (\<lambda>fixed st buf.
       pbind (prepeat count (\<lambda>s b. pread read_f64 s b) st buf) (\<lambda>es st buf.
         pret (A3DoubleVector (fixed \<noteq> 0) es) st buf))) st buf"

definition amf3_decode_object_vector :: "amf3_value parser3 \<Rightarrow> amf3_value parser3" where
  "amf3_decode_object_vector dv st buf =
     amf3_decode_complex_type (\<lambda>count st buf.
       pbind (pread read_u8 st buf) (\<lambda>fixed st buf.
       pbind (amf3_decode_utf8 st buf) (\<lambda>class_name st buf.
       pbind (prepeat count dv st buf) (\<lambda>es st buf.
         pret (A3ObjectVector (if class_name = ''*'' then None else Some class_name) (fixed \<noteq> 0) es)
           st buf)))) st buf"

definition amf3_decode_dictionary :: "amf3_value parser3 \<Rightarrow> amf3_value parser3" where
  "amf3_decode_dictionary dv st buf =
     amf3_decode_complex_type (\<lambda>count st buf.
       pbind (pread read_u8 st buf) (\<lambda>weak st buf.
       pbind (prepeat count (\<lambda>st buf. pbind (dv st buf) (\<lambda>k st buf.
                pbind (dv st buf) (\<lambda>v st buf. pret (k, v) st buf))) st buf) (\<lambda>es st buf.
         pret (A3Dictionary (weak = 1) es) st buf))) st buf"

text \<open>The \<^verbatim>\<open>match\<close> on the marker; \<open>dv\<close> decodes a value and \<open>dp\<close> a list of pairs.\<close>

definition amf3_dispatch ::
  "amf3_value parser3 \<Rightarrow> (string \<times> amf3_value) list parser3 \<Rightarrow> u8 \<Rightarrow> amf3_value parser3" where
  "amf3_dispatch dv dp marker st buf =
     (if marker = 0x00 then pret A3Undefined st buf
      else if marker = 0x01 then pret A3Null st buf
      else if marker = 0x02 then pret (A3Boolean False) st buf
      else if marker = 0x03 then pret (A3Boolean True) st buf
      else if marker = 0x04 then amf3_decode_integer st buf
      else if marker = 0x05 then amf3_decode_double st buf
      else if marker = 0x06 then amf3_decode_string st buf
      else if marker = 0x07 then amf3_decode_xml_document st buf
      else if marker = 0x08 then amf3_decode_date st buf
      else if marker = 0x09 then amf3_decode_array dv dp st buf
      else if marker = 0x0A then amf3_decode_object dv dp st buf
      else if marker = 0x0B then amf3_decode_xml st buf
      else if marker = 0x0C then amf3_decode_byte_array st buf
      else if marker = 0x0D then amf3_decode_int_vector st buf
      else if marker = 0x0E then amf3_decode_uint_vector st buf
      else if marker = 0x0F then amf3_decode_double_vector st buf
      else if marker = 0x10 then amf3_decode_object_vector dv st buf
      else if marker = 0x11 then amf3_decode_dictionary dv st buf
      else pfail InvalidData st buf)"

text \<open>
  \<^verbatim>\<open>decode_value\<close>, with the recursion bound as first argument. \<^verbatim>\<open>Amf3Value::decode\<close> uses a bound larger
  than the number of bytes, which is enough (see \<open>amf3_decode_total\<close>).
\<close>

fun amf3_decode_value :: "nat \<Rightarrow> amf3_value parser3" where
  "amf3_decode_value 0 st buf = None"
| "amf3_decode_value (Suc n) st buf =
     pbind (pread read_u8 st buf) (\<lambda>marker st buf.
       amf3_dispatch (amf3_decode_value n) (amf3_decode_pairs n (amf3_decode_value n)) marker st buf)"

declare amf3_decode_value.simps(2) [simp del]

definition amf3_decode :: "bytes \<Rightarrow> (error_kind + nat \<times> amf3_value) option" where
  "amf3_decode buf =
     (case amf3_decode_value (Suc (length buf)) amf3_decoder_new buf of
        None \<Rightarrow> None
      | Some (Inl e) \<Rightarrow> Some (Inl e)
      | Some (Inr (v, _, r)) \<Rightarrow> Some (Inr (length buf - length r, v)))"

section \<open>Encoder\<close>

definition ocat :: "bytes option list \<Rightarrow> bytes option" where
  "ocat xs = map_option concat (those xs)"

definition amf3_encode_u29 :: "u32 \<Rightarrow> bytes" where
  "amf3_encode_u29 u29 =
     (if u29 < 0x80 then [ucast u29]
      else if u29 < 0x4000 then [ucast (drop_bit 7 u29 OR 0x80), ucast (u29 AND 0x7F)]
      else if u29 < 0x200000 then
        [ucast (drop_bit 14 u29 OR 0x80), ucast (drop_bit 7 u29 OR 0x80), ucast (u29 AND 0x7F)]
      else
        [ucast (drop_bit 22 u29 OR 0x80), ucast (drop_bit 15 u29 OR 0x80),
         ucast (drop_bit 8 u29 OR 0x80), ucast (u29 AND 0xFF)])"

definition amf3_encode_size :: "nat \<Rightarrow> bytes" where
  "amf3_encode_size n = amf3_encode_u29 (of_nat (2 * n + 1))"

definition amf3_encode_utf8 :: "string \<Rightarrow> bytes" where
  "amf3_encode_utf8 s = amf3_encode_size (length s) @ bytes_of_string s"

definition amf3_encode_integer :: "i32 \<Rightarrow> bytes option" where
  "amf3_encode_integer i =
     (if - 0x10000000 \<le> sint i \<and> sint i < 0x10000000
      then Some ([0x04] @ amf3_encode_u29 (if 0 \<le> sint i then i else 0x20000000 + i))
      else None)"

definition amf3_encode_trait :: "string option \<Rightarrow> nat \<Rightarrow> (string \<times> amf3_value) list \<Rightarrow> bytes" where
  "amf3_encode_trait class_name sealed_count entries =
     (let is_dynamic = (if sealed_count < length entries then 1 else 0);
          u28 = 8 * sealed_count + 4 * is_dynamic + 1
      in amf3_encode_size u28
         @ amf3_encode_utf8 (case class_name of None \<Rightarrow> [] | Some s \<Rightarrow> s)
         @ concat (map (\<lambda>e. amf3_encode_utf8 (fst e)) (take sealed_count entries)))"

definition flag_byte :: "bool \<Rightarrow> u8" where "flag_byte b = (if b then 1 else 0)"

fun amf3_encode :: "amf3_value \<Rightarrow> bytes option" where
  "amf3_encode A3Undefined = Some [0x00]"
| "amf3_encode A3Null = Some [0x01]"
| "amf3_encode (A3Boolean b) = Some [if b then 0x03 else 0x02]"
| "amf3_encode (A3Integer i) = amf3_encode_integer i"
| "amf3_encode (A3Double d) = Some ([0x05] @ write_f64 d)"
| "amf3_encode (A3String s) = Some ([0x06] @ amf3_encode_utf8 s)"
| "amf3_encode (A3XmlDocument s) = Some ([0x07] @ amf3_encode_utf8 s)"
| "amf3_encode (A3Date ms) = Some ([0x08] @ amf3_encode_size 0 @ write_f64 (i64_as_f64 ms))"
| "amf3_encode (A3Array assoc dense) =
     ocat ([Some ([0x09] @ amf3_encode_size (length dense))]
           @ map (\<lambda>e. ocat [Some (amf3_encode_utf8 (fst e)), amf3_encode (snd e)]) assoc
           @ [Some (amf3_encode_utf8 [])]
           @ map amf3_encode dense)"
| "amf3_encode (A3Object class_name sealed_count entries) =
     ocat ([Some ([0x0A] @ amf3_encode_trait class_name sealed_count entries)]
           @ take sealed_count (map (\<lambda>e. amf3_encode (snd e)) entries)
           @ (if sealed_count < length entries
              then drop sealed_count
                     (map (\<lambda>e. ocat [Some (amf3_encode_utf8 (fst e)), amf3_encode (snd e)]) entries)
                   @ [Some (amf3_encode_utf8 [])]
              else []))"
| "amf3_encode (A3Xml s) = Some ([0x0B] @ amf3_encode_utf8 s)"
| "amf3_encode (A3ByteArray bs) = Some ([0x0C] @ amf3_encode_size (length bs) @ bs)"
| "amf3_encode (A3IntVector fixed es) =
     Some ([0x0D] @ amf3_encode_size (length es) @ [flag_byte fixed] @ concat (map write_i32 es))"
| "amf3_encode (A3UintVector fixed es) =
     Some ([0x0E] @ amf3_encode_size (length es) @ [flag_byte fixed] @ concat (map write_u32 es))"
| "amf3_encode (A3DoubleVector fixed es) =
     Some ([0x0F] @ amf3_encode_size (length es) @ [flag_byte fixed] @ concat (map write_f64 es))"
| "amf3_encode (A3ObjectVector class_name fixed es) =
     ocat ([Some ([0x10] @ amf3_encode_size (length es) @ [flag_byte fixed]
                  @ amf3_encode_utf8 (case class_name of None \<Rightarrow> ''*'' | Some s \<Rightarrow> s))]
           @ map amf3_encode es)"
| "amf3_encode (A3Dictionary weak es) =
     ocat ([Some ([0x11] @ amf3_encode_size (length es) @ [flag_byte weak])]
           @ map (\<lambda>e. ocat [amf3_encode (fst e), amf3_encode (snd e)]) es)"

section \<open>The bound is enough\<close>

lemma decode_u29_loop_shorter: "decode_u29_loop k n b = Inr (v, r) \<Longrightarrow> length r < length b"
  by (induction k arbitrary: n b)
    (fastforce simp: sbind_eq_Inr_iff Let_def dest: read_length(1) split: if_splits)+

lemma decode_u29_shorter: "decode_u29 b = Inr (v, r) \<Longrightarrow> length r < length b"
  by (simp add: decode_u29_def decode_u29_loop_shorter)

lemma decode_size_or_index_shorter: "decode_size_or_index b = Inr (v, r) \<Longrightarrow> length r < length b"
  by (auto simp: decode_size_or_index_def sbind_eq_Inr_iff Let_def dest: decode_u29_shorter)

lemma pgood_option_case [pgood_intros]:
  "pgood n p \<Longrightarrow> (\<And>v. pgood n (q v)) \<Longrightarrow>
     pgood n (\<lambda>s b. case f s of None \<Rightarrow> p s b | Some v \<Rightarrow> q v s b)"
  by (auto simp: pgood_def split: option.splits)

lemma pgood_if_state [pgood_intros]:
  "pgood n p \<Longrightarrow> pgood n q \<Longrightarrow> pgood n (\<lambda>s b. if c s then p s b else q s b)"
  by (auto simp: pgood_def)

lemma pgood_size_case [pgood_intros]:
  "(\<And>k. pgood n (p k)) \<Longrightarrow> (\<And>k. pgood n (q k)) \<Longrightarrow>
     pgood n (\<lambda>s b. case si of Size k \<Rightarrow> p k s b | Index k \<Rightarrow> q k s b)"
  by (cases si) simp_all

lemma pgood_soi [pgood_intros]: "pgood n (\<lambda>s b. pread decode_size_or_index s b)"
  and pgood_u29 [pgood_intros]: "pgood n (\<lambda>s b. pread decode_u29 s b)"
  by (rule pgood_pread; force dest: decode_size_or_index_shorter decode_u29_shorter)+

lemma pstrict_soi: "pstrict n (\<lambda>s b. pread decode_size_or_index s b)"
  by (rule pstrict_pread) (rule decode_size_or_index_shorter)

lemma amf3_decode_utf8_tail:
  "pgood n (\<lambda>st buf. case si of
         Size len \<Rightarrow>
           pbind (pread (read_utf8 len) st buf) (\<lambda>s st buf.
             pret s (if s \<noteq> [] then st\<lparr>a3_strings := a3_strings st @ [s]\<rparr> else st) buf)
       | Index idx \<Rightarrow>
           (case get_at (a3_strings st) idx of
              Some s \<Rightarrow> pret s st buf
            | None \<Rightarrow> pfail InvalidData st buf))"
  by (intro pgood_intros)

lemma pstrict_amf3_decode_utf8: "pstrict n amf3_decode_utf8"
proof (cases n)
  case (Suc m)
  show ?thesis
    unfolding amf3_decode_utf8_def [abs_def] Suc
    by (intro pstrict_bind pstrict_soi amf3_decode_utf8_tail)
qed (simp add: pstrict_def)

lemma pgood_amf3_decode_utf8 [pgood_intros]: "pgood n amf3_decode_utf8"
  by (rule pstrict_pgood [OF pstrict_amf3_decode_utf8])

lemma pgood_amf3_complex [pgood_intros]:
  assumes "\<And>k. pgood n (f k)"
  shows "pgood n (\<lambda>s b. amf3_decode_complex_type f s b)"
proof -
  have "pgood n (\<lambda>st buf. let idx = length (a3_complexes st) in
            pbind (f k (st\<lparr>a3_complexes := a3_complexes st @ [A3Null],
                             a3_decoding := insert idx (a3_decoding st)\<rparr>) buf) (\<lambda>v st buf.
              pret v (st\<lparr>a3_decoding := a3_decoding st - {idx},
                         a3_complexes := (a3_complexes st)[idx := v]\<rparr>) buf))" for k
    unfolding pgood_def Let_def
  proof (intro allI impI)
    fix s :: amf3_decoder and b :: bytes
    assume l: "length b < n"
    let ?s = "s\<lparr>a3_complexes := a3_complexes s @ [A3Null],
                 a3_decoding := insert (length (a3_complexes s)) (a3_decoding s)\<rparr>"
    show "pbind (f k ?s b) (\<lambda>v st buf.
              pret v (st\<lparr>a3_decoding := a3_decoding st - {length (a3_complexes s)},
                         a3_complexes := (a3_complexes st)[length (a3_complexes s) := v]\<rparr>) buf) \<noteq> None \<and>
      (\<forall>v s' b'. pbind (f k ?s b) (\<lambda>v st buf.
              pret v (st\<lparr>a3_decoding := a3_decoding st - {length (a3_complexes s)},
                         a3_complexes := (a3_complexes st)[length (a3_complexes s) := v]\<rparr>) buf)
           = Some (Inr (v, s', b')) \<longrightarrow> length b' \<le> length b)"
      using pgoodD [OF assms l, of k ?s]
      by (cases "f k ?s b" rule: presult_cases) (auto simp: pret_def)
  qed
  then show ?thesis
    unfolding amf3_decode_complex_type_def by (intro pgood_intros)
qed

lemma pgood_amf3_pairs [pgood_intros]:
  assumes "pgood n dv" and "n \<le> k"
  shows "pgood n (amf3_decode_pairs k dv)"
  using assms
proof (induction k arbitrary: n)
  case (Suc k)
  show ?case
  proof (cases n)
    case 0
    then show ?thesis by (simp add: pgood_def)
  next
    case (Suc m)
    then have 1: "pgood m dv" "m \<le> k" using Suc.prems by (auto intro: pgood_mono)
    have 2: "pgood m (amf3_decode_pairs k dv)" by (rule Suc.IH [OF 1])
    have "pstrict n (\<lambda>st buf. pbind (amf3_decode_utf8 st buf) (\<lambda>key st buf.
       if key = [] then pret [] st buf
       else pbind (dv st buf) (\<lambda>v st buf.
              pbind (amf3_decode_pairs k dv st buf) (\<lambda>ps st buf. pret ((key, v) # ps) st buf))))"
      unfolding Suc by (rule pstrict_bind [OF pstrict_amf3_decode_utf8]) (intro pgood_intros 1 2)
    then show ?thesis by (intro pstrict_pgood) simp
  qed
qed (simp add: pgood_def)

lemma pgood_amf3_trait [pgood_intros]: "pgood n (\<lambda>s b. amf3_decode_trait k s b)"
  unfolding amf3_decode_trait_def Let_def by (intro pgood_intros)

lemma pgood_amf3_kinds [pgood_intros]:
  "pgood n (\<lambda>s b. amf3_decode_integer s b)" "pgood n (\<lambda>s b. amf3_decode_double s b)"
  "pgood n (\<lambda>s b. amf3_decode_string s b)" "pgood n (\<lambda>s b. amf3_decode_xml_document s b)"
  "pgood n (\<lambda>s b. amf3_decode_date s b)" "pgood n (\<lambda>s b. amf3_decode_xml s b)"
  "pgood n (\<lambda>s b. amf3_decode_byte_array s b)" "pgood n (\<lambda>s b. amf3_decode_int_vector s b)"
  "pgood n (\<lambda>s b. amf3_decode_uint_vector s b)" "pgood n (\<lambda>s b. amf3_decode_double_vector s b)"
  unfolding amf3_decode_integer_def amf3_decode_double_def amf3_decode_string_def
    amf3_decode_xml_document_def amf3_decode_date_def amf3_decode_xml_def amf3_decode_byte_array_def
    amf3_decode_int_vector_def amf3_decode_uint_vector_def amf3_decode_double_vector_def
  by (intro pgood_intros)+

lemma pgood_amf3_nested [pgood_intros]:
  assumes "pgood n dv" and "pgood n dp"
  shows "pgood n (\<lambda>s b. amf3_decode_array dv dp s b)" "pgood n (\<lambda>s b. amf3_decode_object dv dp s b)"
    and "pgood n (\<lambda>s b. amf3_decode_object_vector dv s b)"
    and "pgood n (\<lambda>s b. amf3_decode_dictionary dv s b)"
  unfolding amf3_decode_array_def amf3_decode_object_def amf3_decode_object_vector_def
    amf3_decode_dictionary_def
  by (intro pgood_intros assms)+

lemma pstrict_amf3_decode_value: "pstrict n (amf3_decode_value n)"
proof (induction n)
  case (Suc n)
  then have 1: "pgood n (amf3_decode_value n)" by (rule pstrict_pgood)
  then have 2: "pgood n (amf3_decode_pairs n (amf3_decode_value n))" by (rule pgood_amf3_pairs) simp
  show ?case
    unfolding amf3_decode_value.simps(2) [abs_def] amf3_dispatch_def
    by (rule pstrict_bind [OF pstrict_reads(1)]) (intro pgood_intros pgood_amf3_nested [OF 1 2])
qed (simp add: pstrict_def)

lemma amf3_decode_total:
  "\<exists>r. amf3_decode b = Some r \<and> (\<forall>n v. r = Inr (n, v) \<longrightarrow> 0 < n \<and> n \<le> length b)"
proof -
  let ?r = "amf3_decode_value (Suc (length b)) amf3_decoder_new b"
  have l: "length b < Suc (length b)" by simp
  note d = pstrictD [OF pstrict_amf3_decode_value l]
  show ?thesis
  proof (cases ?r rule: presult_cases)
    case (3 v st r)
    with d(2) [OF 3] show ?thesis by (simp add: amf3_decode_def)
  qed (use d(1) [of amf3_decoder_new] in \<open>simp_all add: amf3_decode_def\<close>)
qed

end
