(* ===== verification/Rtmp_Amf3_Roundtrip.thy ===== *)
theory Rtmp_Amf3_Roundtrip
  imports Rtmp_Amf3
begin

text \<open>
  What the AMF3 encoder writes, the AMF3 decoder reads back, for the values an encoder can represent
  (\<open>amf3_wf\<close>): strings and sizes within 28 bits, integers within 29 bits, dates within 53 bits, non-empty
  dynamic member names, and class names that do not collide with the markers for "none".
\<close>

section \<open>Variable-length integers\<close>

lemma unat_bit_bound:
  assumes "unat (u :: 'a::len word) < 2 ^ k" and "bit u n"
  shows "n < k"
proof -
  have t: "take_bit k (unat u) = unat u" using assms(1) by (simp add: take_bit_nat_eq_self)
  have "bit (unat u) n"
    using assms(2) bit_imp_le_length [OF assms(2)] by (simp add: bit_unsigned_iff)
  then show ?thesis using t by (metis bit_take_bit_iff)
qed

lemma bit_masks:
  "bit (0x80 :: u32) n \<longleftrightarrow> n = 7" "bit (0x7F :: u32) n \<longleftrightarrow> n < 7" "bit (0xFF :: u32) n \<longleftrightarrow> n < 8"
proof -
  have m: "(0x7F :: u32) = mask 7" "(0xFF :: u32) = mask 8" by (simp_all add: mask_eq_exp_minus_1)
  show "bit (0x7F :: u32) n \<longleftrightarrow> n < 7" "bit (0xFF :: u32) n \<longleftrightarrow> n < 8"
    unfolding m by (auto simp: bit_mask_iff)
  show "bit (0x80 :: u32) n \<longleftrightarrow> n = 7"
    using bit_exp_iff [of 7 n, where 'a = u32] by (auto simp: possible_bit_word)
qed

text \<open>The groups of seven bits of a number, with the continuation bit \<open>c\<close> set, join to the number.\<close>

lemma u29_flags:
  fixes c m7 u :: u32
  assumes c: "\<And>n. bit c n \<longleftrightarrow> n = 7" and m7: "\<And>n. bit m7 n \<longleftrightarrow> n < 7"
  shows "ucast (ucast (u AND m7) :: u8) AND c = 0" and "ucast (ucast (u OR c) :: u8) AND c = c"
  by (rule bit_word_eqI; auto simp: bit_simps c m7)+

lemma u29_join1:
  fixes c m7 u :: u32
  assumes c: "\<And>n. bit c n \<longleftrightarrow> n = 7" and m7: "\<And>n. bit m7 n \<longleftrightarrow> n < 7" and b: "\<And>n. bit u n \<Longrightarrow> n < 7"
  shows "ucast (ucast u :: u8) AND c = 0" and "push_bit 7 0 OR (ucast (ucast u :: u8) AND m7) = u"
  by (rule bit_word_eqI; auto simp: bit_simps c m7 dest: b)+

lemma u29_group:
  fixes c m7 m8 x :: u32
  assumes c: "\<And>n. bit c n \<longleftrightarrow> n = 7" and m7: "\<And>n. bit m7 n \<longleftrightarrow> n < 7" and m8: "\<And>n. bit m8 n \<longleftrightarrow> n < 8"
  shows "push_bit 7 (drop_bit 7 x) OR (ucast (ucast (x OR c) :: u8) AND m7) = x"
    and "push_bit 7 (drop_bit 7 x) OR (ucast (ucast (x AND m7) :: u8) AND m7) = x"
    and "push_bit 8 (drop_bit 8 x) OR ucast (ucast (x AND m8) :: u8) = x"
  by (rule bit_word_eqI; auto simp: bit_simps c m7 m8 not_less cong: conj_cong)+

lemma u29_first:
  fixes c m7 x :: u32
  assumes c: "\<And>n. bit c n \<longleftrightarrow> n = 7" and m7: "\<And>n. bit m7 n \<longleftrightarrow> n < 7" and b: "\<And>n. bit x n \<Longrightarrow> n < 7"
  shows "push_bit 7 0 OR (ucast (ucast (x OR c) :: u8) AND m7) = x"
  by (rule bit_word_eqI; auto simp: bit_simps c m7 dest: b)

lemma drop_bit_small:
  fixes u :: u32
  assumes "unat u < 2 ^ (k + 7)" and "bit (drop_bit k u) n"
  shows "n < 7"
  using unat_bit_bound [OF assms(1), of "k + n"] assms(2) by (simp add: bit_drop_bit_eq)

lemma drop_bits:
  fixes u :: u32
  shows "drop_bit 14 u = drop_bit 7 (drop_bit 7 u)" "drop_bit 15 u = drop_bit 7 (drop_bit 8 u)"
    "drop_bit 22 u = drop_bit 7 (drop_bit 7 (drop_bit 8 u))"
  by simp_all

lemma u29_join2:
  fixes u :: u32
  assumes "unat u < 2 ^ 14"
  shows "push_bit 7 (push_bit 7 0 OR (ucast (ucast (drop_bit 7 u OR 0x80) :: u8) AND 0x7F))
        OR (ucast (ucast (u AND 0x7F) :: u8) AND 0x7F) = u"
proof -
  have "push_bit 7 0 OR (ucast (ucast (drop_bit 7 u OR 0x80) :: u8) AND 0x7F) = drop_bit 7 u"
    by (rule u29_first [OF bit_masks(1,2)], rule drop_bit_small [of u 7]) (use assms in simp_all)
  then show ?thesis
    by (simp only: u29_group [OF bit_masks])
qed

lemma u29_join3:
  fixes u :: u32
  assumes "unat u < 2 ^ 21"
  shows "push_bit 7 (push_bit 7 (push_bit 7 0 OR (ucast (ucast (drop_bit 14 u OR 0x80) :: u8) AND 0x7F))
          OR (ucast (ucast (drop_bit 7 u OR 0x80) :: u8) AND 0x7F))
        OR (ucast (ucast (u AND 0x7F) :: u8) AND 0x7F) = u"
proof -
  have "push_bit 7 0 OR (ucast (ucast (drop_bit 14 u OR 0x80) :: u8) AND 0x7F) = drop_bit 14 u"
    by (rule u29_first [OF bit_masks(1,2)], rule drop_bit_small [of u 14]) (use assms in simp_all)
  then show ?thesis
    by (simp only: drop_bits u29_group [OF bit_masks])
qed

lemma u29_join4:
  fixes u :: u32
  assumes "unat u < 2 ^ 29"
  shows "push_bit 8 (push_bit 7 (push_bit 7 (push_bit 7 0
            OR (ucast (ucast (drop_bit 22 u OR 0x80) :: u8) AND 0x7F))
          OR (ucast (ucast (drop_bit 15 u OR 0x80) :: u8) AND 0x7F))
          OR (ucast (ucast (drop_bit 8 u OR 0x80) :: u8) AND 0x7F))
        OR ucast (ucast (u AND 0xFF) :: u8) = u"
proof -
  have "push_bit 7 0 OR (ucast (ucast (drop_bit 22 u OR 0x80) :: u8) AND 0x7F) = drop_bit 22 u"
    by (rule u29_first [OF bit_masks(1,2)], rule drop_bit_small [of u 22]) (use assms in simp_all)
  then show ?thesis
    by (simp only: drop_bits u29_group [OF bit_masks])
qed

lemma decode_u29_step:
  "decode_u29_loop (Suc k) n (b # r) =
     (if (ucast b :: u32) AND 0x80 = 0 then Inr (push_bit 7 n OR (ucast b AND 0x7F), r)
      else decode_u29_loop k (push_bit 7 n OR (ucast b AND 0x7F)) r)"
  by (simp add: Let_def)

lemma decode_u29_last: "decode_u29_loop 0 n (b # r) = Inr (push_bit 8 n OR ucast b, r)"
  by simp

lemma decode_encode_u29:
  assumes "unat u < 2 ^ 29"
  shows "decode_u29 (amf3_encode_u29 u @ r) = Inr (u, r)"
proof -
  note lt = word_less_nat_alt
  consider (1) "unat u < 2 ^ 7" | (2) "\<not> unat u < 2 ^ 7" "unat u < 2 ^ 14"
    | (3) "\<not> unat u < 2 ^ 14" "unat u < 2 ^ 21" | (4) "\<not> unat u < 2 ^ 21" by blast
  then show ?thesis
  proof cases
    case 1
    have "amf3_encode_u29 u = [ucast u]" using 1 by (simp add: amf3_encode_u29_def lt)
    with u29_join1 [OF bit_masks(1,2) unat_bit_bound [OF 1]] show ?thesis
      by (simp add: decode_u29_def numeral_3_eq_3 decode_u29_step del: decode_u29_loop.simps)
  next
    case 2
    have "amf3_encode_u29 u = [ucast (drop_bit 7 u OR 0x80), ucast (u AND 0x7F)]"
      using 2 by (simp add: amf3_encode_u29_def lt)
    with u29_join2 [OF 2(2)] u29_flags [OF bit_masks(1,2)] show ?thesis
      by (simp only: decode_u29_def numeral_3_eq_3 decode_u29_step append_Cons) simp
  next
    case 3
    have "amf3_encode_u29 u =
        [ucast (drop_bit 14 u OR 0x80), ucast (drop_bit 7 u OR 0x80), ucast (u AND 0x7F)]"
      using 3 by (simp add: amf3_encode_u29_def lt)
    with u29_join3 [OF 3(2)] u29_flags [OF bit_masks(1,2)] show ?thesis
      by (simp only: decode_u29_def numeral_3_eq_3 decode_u29_step append_Cons) simp
  next
    case 4
    have "amf3_encode_u29 u = [ucast (drop_bit 22 u OR 0x80), ucast (drop_bit 15 u OR 0x80),
         ucast (drop_bit 8 u OR 0x80), ucast (u AND 0xFF)]"
      using 4 by (simp add: amf3_encode_u29_def lt)
    with u29_join4 [OF assms] u29_flags [OF bit_masks(1,2)] show ?thesis
      by (simp only: decode_u29_def numeral_3_eq_3 decode_u29_step decode_u29_last append_Cons) simp
  qed
qed

section \<open>Sizes, strings and complex values\<close>

definition amf3_size_ok :: "nat \<Rightarrow> bool" where "amf3_size_ok n \<longleftrightarrow> n < 0x10000000"

definition amf3_str_ok :: "string \<Rightarrow> bool" where
  "amf3_str_ok s \<longleftrightarrow> valid_string s \<and> amf3_size_ok (length s)"

lemma decode_encode_size:
  assumes "amf3_size_ok n"
  shows "decode_size_or_index (amf3_encode_size n @ r) = Inr (Size n, r)"
proof -
  have u: "unat (of_nat (2 * n + 1) :: u32) = 2 * n + 1"
    using assms by (subst unat_of_nat) (simp add: amf3_size_ok_def)
  have "unat (of_nat (2 * n + 1) :: u32) < 2 ^ 29" unfolding u using assms by (simp add: amf3_size_ok_def)
  from decode_encode_u29 [OF this] show ?thesis
    unfolding decode_size_or_index_def amf3_encode_size_def by (simp only: sbind_Inr prod.case Let_def u) simp
qed

lemma length_encode_size: "0 < length (amf3_encode_size n)"
  by (simp add: amf3_encode_size_def amf3_encode_u29_def)

lemma length_encode_utf8: "0 < length (amf3_encode_utf8 s)"
  using length_encode_size by (simp add: amf3_encode_utf8_def)

lemma preads_size_case:
  "preads (p n) w v \<Longrightarrow> amf3_size_ok n \<Longrightarrow>
     preads (\<lambda>s b. pbind (pread decode_size_or_index s b)
        (\<lambda>si s b. case si of Size k \<Rightarrow> p k s b | Index k \<Rightarrow> q k s b)) (amf3_encode_size n @ w) v"
  by (rule preads_bind [OF preads_pread [where v = "Size n"], where k = "\<lambda>si s b. case si of Size k \<Rightarrow> p k s b | Index k \<Rightarrow> q k s b"])
    (simp_all add: decode_encode_size)

lemma preads_utf8:
  assumes "amf3_str_ok s"
  shows "preads amf3_decode_utf8 (amf3_encode_utf8 s) s"
proof -
  have "preads (\<lambda>st buf. pbind (pread (read_utf8 (length s)) st buf) (\<lambda>s st buf.
      pret s (if s \<noteq> [] then st\<lparr>a3_strings := a3_strings st @ [s]\<rparr> else st) buf)) (bytes_of_string s @ []) s"
    by (rule preads_bind [OF preads_pread]) (use assms in \<open>auto simp: amf3_str_ok_def intro: preads_pret\<close>)
  then show ?thesis
    using assms unfolding amf3_decode_utf8_def [abs_def] amf3_encode_utf8_def amf3_str_ok_def
    by (intro preads_size_case) simp_all
qed

lemma preads_complex:
  assumes "preads (f n) w v" and "amf3_size_ok n"
  shows "preads (\<lambda>s b. amf3_decode_complex_type f s b) (amf3_encode_size n @ w) v"
proof -
  have "preads (\<lambda>st buf. let idx = length (a3_complexes st) in
            pbind (f n (st\<lparr>a3_complexes := a3_complexes st @ [A3Null],
                             a3_decoding := insert idx (a3_decoding st)\<rparr>) buf) (\<lambda>v st buf.
              pret v (st\<lparr>a3_decoding := a3_decoding st - {idx},
                         a3_complexes := (a3_complexes st)[idx := v]\<rparr>) buf)) w v"
  proof (rule preadsI)
    fix st :: amf3_decoder and r
    from assms(1) obtain s' where
      "f n (st\<lparr>a3_complexes := a3_complexes st @ [A3Null],
               a3_decoding := insert (length (a3_complexes st)) (a3_decoding st)\<rparr>) (w @ r) = Some (Inr (v, s', r))"
      unfolding preads_def by blast
    then show "\<exists>s'. (let idx = length (a3_complexes st) in
            pbind (f n (st\<lparr>a3_complexes := a3_complexes st @ [A3Null],
                             a3_decoding := insert idx (a3_decoding st)\<rparr>) (w @ r)) (\<lambda>v st buf.
              pret v (st\<lparr>a3_decoding := a3_decoding st - {idx},
                         a3_complexes := (a3_complexes st)[idx := v]\<rparr>) buf)) = Some (Inr (v, s', r))"
      by (simp add: Let_def pret_def)
  qed
  then show ?thesis
    unfolding amf3_decode_complex_type_def using assms(2)
    by (rule preads_size_case [where p = "\<lambda>len st buf. let idx = length (a3_complexes st) in
            pbind (f len (st\<lparr>a3_complexes := a3_complexes st @ [A3Null],
                             a3_decoding := insert idx (a3_decoding st)\<rparr>) buf) (\<lambda>v st buf.
              pret v (st\<lparr>a3_decoding := a3_decoding st - {idx},
                         a3_complexes := (a3_complexes st)[idx := v]\<rparr>) buf)"])
qed

definition pair_bytes :: "string \<Rightarrow> bytes \<Rightarrow> bytes" where
  "pair_bytes k w = amf3_encode_utf8 k @ w"

lemma preads_pairs:
  assumes "\<forall>e \<in> set es. amf3_str_ok (fst e) \<and> fst e \<noteq> [] \<and> preads dv (W (snd e)) (snd e)"
    and "length es < n"
  shows "preads (amf3_decode_pairs n dv)
    (concat (map (\<lambda>e. pair_bytes (fst e) (W (snd e))) es) @ amf3_encode_utf8 []) es"
  using assms
proof (induction es arbitrary: n)
  case Nil
  then obtain m where n: "n = Suc m" by (cases n) auto
  have ok: "amf3_str_ok []" by (simp add: amf3_str_ok_def valid_string_def amf3_size_ok_def bytes_of_string_def)
  have "preads (\<lambda>st buf. pbind (amf3_decode_utf8 st buf) (\<lambda>key st buf.
       if key = [] then pret [] st buf
       else pbind (dv st buf) (\<lambda>v st buf.
              pbind (amf3_decode_pairs m dv st buf) (\<lambda>ps st buf. pret ((key, v) # ps) st buf))))
      (amf3_encode_utf8 [] @ []) []"
    by (rule preads_bind [OF preads_utf8 [OF ok]]) (simp add: preads_pret)
  then show ?case by (simp add: n)
next
  case (Cons e es)
  then obtain m where n: "n = Suc m" "length es < m" by (cases n) auto
  obtain k v where e: "e = (k, v)" by fastforce
  have ih: "preads (amf3_decode_pairs m dv)
      (concat (map (\<lambda>e. pair_bytes (fst e) (W (snd e))) es) @ amf3_encode_utf8 []) es"
    using Cons.IH [of m] Cons.prems(1) n(2) by simp
  have k: "amf3_str_ok k" "k \<noteq> []" "preads dv (W v) v" using Cons.prems(1) e by auto
  have "preads (\<lambda>st buf. if k = [] then pret [] st buf
       else pbind (dv st buf) (\<lambda>v st buf.
              pbind (amf3_decode_pairs m dv st buf) (\<lambda>ps st buf. pret ((k, v) # ps) st buf)))
      (W v @ (concat (map (\<lambda>e. pair_bytes (fst e) (W (snd e))) es) @ amf3_encode_utf8 []) @ []) ((k, v) # es)"
    unfolding if_not_P [OF k(2)] by (intro preads_bind [OF k(3)] preads_bind [OF ih] preads_pret)
  then have "preads (\<lambda>st buf. pbind (amf3_decode_utf8 st buf) (\<lambda>key st buf.
       if key = [] then pret [] st buf
       else pbind (dv st buf) (\<lambda>v st buf.
              pbind (amf3_decode_pairs m dv st buf) (\<lambda>ps st buf. pret ((key, v) # ps) st buf))))
      (amf3_encode_utf8 k @ W v @ (concat (map (\<lambda>e. pair_bytes (fst e) (W (snd e))) es) @ amf3_encode_utf8 []) @ [])
      ((k, v) # es)"
    by (rule preads_bind [OF preads_utf8 [OF k(1)]])
  then show ?case by (simp add: n e pair_bytes_def)
qed

section \<open>Values\<close>

fun amf3_wf :: "amf3_value \<Rightarrow> bool" where
  "amf3_wf (A3Integer i) \<longleftrightarrow> - 0x10000000 \<le> sint i \<and> sint i < 0x10000000"
| "amf3_wf (A3String s) \<longleftrightarrow> amf3_str_ok s"
| "amf3_wf (A3XmlDocument s) \<longleftrightarrow> amf3_str_ok s"
| "amf3_wf (A3Date ms) \<longleftrightarrow> \<bar>ms\<bar> < 2 ^ 53"
| "amf3_wf (A3Array assoc dense) \<longleftrightarrow>
     amf3_size_ok (length dense)
     \<and> (\<forall>e \<in> set assoc. amf3_str_ok (fst e) \<and> fst e \<noteq> [] \<and> amf3_wf (snd e))
     \<and> (\<forall>v \<in> set dense. amf3_wf v)"
| "amf3_wf (A3Object class_name sealed_count entries) \<longleftrightarrow>
     sealed_count \<le> length entries \<and> amf3_size_ok (8 * sealed_count + 5)
     \<and> class_name \<noteq> Some [] \<and> (case class_name of None \<Rightarrow> True | Some s \<Rightarrow> amf3_str_ok s)
     \<and> (\<forall>e \<in> set entries. amf3_str_ok (fst e) \<and> amf3_wf (snd e))
     \<and> (\<forall>e \<in> set (drop sealed_count entries). fst e \<noteq> [])"
| "amf3_wf (A3Xml s) \<longleftrightarrow> amf3_str_ok s"
| "amf3_wf (A3ByteArray bs) \<longleftrightarrow> amf3_size_ok (length bs)"
| "amf3_wf (A3IntVector _ es) \<longleftrightarrow> amf3_size_ok (length es)"
| "amf3_wf (A3UintVector _ es) \<longleftrightarrow> amf3_size_ok (length es)"
| "amf3_wf (A3DoubleVector _ es) \<longleftrightarrow> amf3_size_ok (length es)"
| "amf3_wf (A3ObjectVector class_name _ es) \<longleftrightarrow>
     amf3_size_ok (length es)
     \<and> class_name \<noteq> Some ''*'' \<and> (case class_name of None \<Rightarrow> True | Some s \<Rightarrow> amf3_str_ok s)
     \<and> (\<forall>v \<in> set es. amf3_wf v)"
| "amf3_wf (A3Dictionary _ es) \<longleftrightarrow>
     amf3_size_ok (length es) \<and> (\<forall>e \<in> set es. amf3_wf (fst e) \<and> amf3_wf (snd e))"
| "amf3_wf _ \<longleftrightarrow> True"

definition W3 :: "amf3_value \<Rightarrow> bytes" where "W3 v = the (amf3_encode v)"

definition readable3 :: "amf3_value \<Rightarrow> bool" where
  "readable3 v \<longleftrightarrow>
     amf3_encode v = Some (W3 v) \<and> (\<forall>n. length (W3 v) < n \<longrightarrow> preads (amf3_decode_value n) (W3 v) v)"

lemma ocat_Some: "(\<And>x. x \<in> set xs \<Longrightarrow> x \<noteq> None) \<Longrightarrow> ocat xs = Some (concat (map the xs))"
proof (induction xs)
  case (Cons x xs)
  then obtain w where "x = Some w" by (meson list.set_intros(1) not_Some_eq)
  with Cons show ?case by (auto simp: ocat_def)
qed (simp add: ocat_def)

lemma preads_value:
  assumes "preads (\<lambda>s b. amf3_dispatch (amf3_decode_value n) (amf3_decode_pairs n (amf3_decode_value n)) m s b) w v"
  shows "preads (amf3_decode_value (Suc n)) (m # w) v"
proof -
  have "preads (\<lambda>s b. pbind (pread read_u8 s b) (\<lambda>marker st buf.
      amf3_dispatch (amf3_decode_value n) (amf3_decode_pairs n (amf3_decode_value n)) marker st buf)) ([m] @ w) v"
    by (rule preads_bind [where ?v1.0 = m]) (simp_all add: preads_pread assms)
  then show ?thesis by (simp add: amf3_decode_value.simps(2) [abs_def])
qed

lemma readable3I:
  assumes "amf3_encode v = Some (m # w)"
    and "\<And>n. length w < n \<Longrightarrow>
      preads (\<lambda>s b. amf3_dispatch (amf3_decode_value n) (amf3_decode_pairs n (amf3_decode_value n)) m s b) w v"
  shows "readable3 v"
  unfolding readable3_def
proof (intro conjI allI impI)
  show "amf3_encode v = Some (W3 v)" using assms(1) by (simp add: W3_def)
  fix n assume "length (W3 v) < n"
  then obtain k where "n = Suc k" "length w < k" using assms(1) by (cases n) (auto simp: W3_def)
  then show "preads (amf3_decode_value n) (W3 v) v"
    using preads_value [OF assms(2)] assms(1) by (simp add: W3_def)
qed

lemma readable3D: "readable3 v \<Longrightarrow> length (W3 v) < n \<Longrightarrow> preads (amf3_decode_value n) (W3 v) v"
  by (simp add: readable3_def)

text \<open>The scalar kinds.\<close>

lemma readable3_integer:
  assumes "- 0x10000000 \<le> sint i" and "sint i < 0x10000000"
  shows "readable3 (A3Integer i)"
proof -
  define u where "u = (if 0 \<le> sint i then i else 0x20000000 + i)"
  have i: "sint i = (if unat i < 2147483648 then int (unat i) else int (unat i) - 4294967296)"
    by (rule sint_u32)
  have ilt: "unat i < 4294967296" using unat_less [of i] by simp
  have u: "unat u = (if 0 \<le> sint i then unat i else unat i + 536870912 - 4294967296)"
  proof (cases "0 \<le> sint i")
    case False
    then have "\<not> unat i < 2147483648" using i by (auto split: if_splits)
    moreover have "4026531840 \<le> unat i"
      using assms(1) i calculation by (simp del: of_nat_unat)
    ultimately have "(536870912 + unat i) mod 4294967296 = unat i + 536870912 - 4294967296"
      using ilt by (subst mod_if) (simp add: le_mod_geq)
    then show ?thesis using False by (simp add: u_def unat_word_ariths)
  qed (simp add: u_def)
  have lt: "unat u < 2 ^ 29"
    using assms ilt unfolding u by (auto simp: i simp del: of_nat_unat split: if_splits)
  have dec: "(if 0x10000000 \<le> sint u then u - 0x20000000 else u) = i"
  proof (cases "0 \<le> sint i")
    case True
    with u have "sint u = sint i" by (simp add: u_def)
    with True assms show ?thesis by (simp add: u_def)
  next
    case False
    with i have "4026531840 \<le> unat i" using assms(1) by (auto simp del: of_nat_unat split: if_splits)
    then have "0x10000000 \<le> sint u"
      using u False lt unfolding sint_u32 [of u] by (simp del: of_nat_unat)
    with False show ?thesis by (simp add: u_def)
  qed
  have "preads (\<lambda>s b. amf3_decode_integer s b) (amf3_encode_u29 u) (A3Integer i)"
    unfolding amf3_decode_integer_def
    using preads_map [OF preads_pread [OF decode_encode_u29 [OF lt]],
        where f = "\<lambda>n. A3Integer (if 0x10000000 \<le> sint n then n - 0x20000000 else n)"]
    by (simp only: dec)
  then show ?thesis
    using assms by (intro readable3I [where m = "0x04" and w = "amf3_encode_u29 u"])
      (simp_all add: amf3_encode_integer_def u_def amf3_dispatch_def)
qed

lemma preads_complex_map:
  assumes "preads (p n) w x" and "amf3_size_ok n"
  shows "preads (\<lambda>s b. amf3_decode_complex_type
           (\<lambda>k s b. pbind (p k s b) (\<lambda>x s b. pret (f x) s b)) s b) (amf3_encode_size n @ w) (f x)"
  by (rule preads_complex [where f = "\<lambda>k s b. pbind (p k s b) (\<lambda>x s b. pret (f x) s b)"])
    (intro preads_map assms)+

lemma preads_utf8_bytes:
  "amf3_str_ok s \<Longrightarrow> preads (\<lambda>st b. pread (read_utf8 (length s)) st b) (bytes_of_string s) s"
  by (rule preads_pread) (simp add: amf3_str_ok_def)

lemma readable3_strings:
  assumes "amf3_str_ok s"
  shows "readable3 (A3String s)" "readable3 (A3XmlDocument s)" "readable3 (A3Xml s)"
proof -
  have k: "amf3_size_ok (length s)" using assms by (simp add: amf3_str_ok_def)
  show "readable3 (A3String s)"
    by (rule readable3I [where m = "0x06" and w = "amf3_encode_utf8 s"])
      (simp_all add: amf3_dispatch_def amf3_decode_string_def preads_map [OF preads_utf8 [OF assms]])
  show "readable3 (A3XmlDocument s)"
    by (rule readable3I [where m = "0x07" and w = "amf3_encode_utf8 s"])
      (simp_all add: amf3_dispatch_def amf3_decode_xml_document_def amf3_encode_utf8_def
        preads_complex_map [where p = "\<lambda>k st b. pread (read_utf8 k) st b", OF preads_utf8_bytes [OF assms] k])
  show "readable3 (A3Xml s)"
    by (rule readable3I [where m = "0x0B" and w = "amf3_encode_utf8 s"])
      (simp_all add: amf3_dispatch_def amf3_decode_xml_def amf3_encode_utf8_def
        preads_complex_map [where p = "\<lambda>k st b. pread (read_utf8 k) st b", OF preads_utf8_bytes [OF assms] k])
qed

lemma readable3_simple:
  "readable3 A3Undefined" "readable3 A3Null" "readable3 (A3Boolean b)" "readable3 (A3Double d)"
proof -
  show "readable3 A3Undefined"
    by (rule readable3I [where m = "0x00" and w = "[]"]) (simp_all add: amf3_dispatch_def preads_pret)
  show "readable3 A3Null"
    by (rule readable3I [where m = "0x01" and w = "[]"]) (simp_all add: amf3_dispatch_def preads_pret)
  show "readable3 (A3Boolean b)"
    by (rule readable3I [where m = "if b then 0x03 else 0x02" and w = "[]"])
      (simp_all add: amf3_dispatch_def preads_pret)
  show "readable3 (A3Double d)"
    by (rule readable3I [where m = "0x05" and w = "write_f64 d"])
      (simp_all add: amf3_dispatch_def amf3_decode_double_def preads_map [OF preads_pread])
qed

lemma readable3_date:
  assumes "\<bar>ms\<bar> < 2 ^ 53"
  shows "readable3 (A3Date ms)"
proof -
  let ?d = "i64_as_f64 ms"
  have v: "(if f64_is_zero ?d then 0 else f64_as_i64 ?d) = ms"
    using assms by (auto simp: f64_as_i64_exact f64_is_zero_def i64_as_f64_exact)
  have "preads (\<lambda>st buf. pbind (pread read_f64 st buf) (\<lambda>millis st buf.
         if \<not> f64_is_finite millis then pfail InvalidData st buf
         else pret (A3Date (if f64_is_zero millis then 0 else f64_as_i64 millis)) st buf))
       (write_f64 ?d @ []) (A3Date ms)"
    by (rule preads_bind [where ?v1.0 = ?d])
      (use assms v in \<open>simp_all add: preads_pread preads_pret i64_as_f64_exact\<close>)
  then have "preads (\<lambda>s b. amf3_decode_date s b) (amf3_encode_size 0 @ write_f64 ?d) (A3Date ms)"
    unfolding amf3_decode_date_def by (intro preads_complex) (simp_all add: amf3_size_ok_def)
  then show ?thesis
    by (intro readable3I [where m = "0x08" and w = "amf3_encode_size 0 @ write_f64 ?d"])
      (simp_all add: amf3_dispatch_def)
qed

lemma flag_byte_simps [simp]: "(flag_byte b \<noteq> 0) = b" "(flag_byte b = 1) = b"
  by (simp_all add: flag_byte_def)

text \<open>The typed vectors share their layout: size, flag, elements.\<close>

lemma preads_vector:
  assumes "amf3_size_ok (length es)" and "\<And>e r. rd (wr e @ r) = Inr (e, r)"
  shows "preads (\<lambda>s b. amf3_decode_complex_type (\<lambda>count st buf.
       pbind (pread read_u8 st buf) (\<lambda>fixed st buf.
       pbind (prepeat count (\<lambda>s b. pread rd s b) st buf) (\<lambda>es st buf.
         pret (con (fixed \<noteq> 0) es) st buf))) s b)
    (amf3_encode_size (length es) @ [flag_byte fixed] @ concat (map wr es)) (con fixed es)"
proof (rule preads_complex [OF _ assms(1)])
  have "preads (\<lambda>st buf. pbind (prepeat (length es) (\<lambda>s b. pread rd s b) st buf) (\<lambda>es st buf.
         pret (con (flag_byte fixed \<noteq> 0) es) st buf)) (concat (map wr es)) (con (flag_byte fixed \<noteq> 0) es)"
    by (intro preads_map preads_repeat_map preads_pread assms(2))
  then show "preads (\<lambda>st buf. pbind (pread read_u8 st buf) (\<lambda>fixed st buf.
       pbind (prepeat (length es) (\<lambda>s b. pread rd s b) st buf) (\<lambda>es st buf.
         pret (con (fixed \<noteq> 0) es) st buf))) ([flag_byte fixed] @ concat (map wr es)) (con fixed es)"
    by (intro preads_bind [where ?v1.0 = "flag_byte fixed"] preads_pread) simp_all
qed

lemma readable3_vectors:
  "amf3_size_ok (length is) \<Longrightarrow> readable3 (A3IntVector f is)"
  "amf3_size_ok (length us) \<Longrightarrow> readable3 (A3UintVector f us)"
  "amf3_size_ok (length ds) \<Longrightarrow> readable3 (A3DoubleVector f ds)"
  "amf3_size_ok (length bs) \<Longrightarrow> readable3 (A3ByteArray bs)"
proof -
  assume "amf3_size_ok (length is)"
  from preads_vector [OF this, of read_i32 write_i32 A3IntVector f] show "readable3 (A3IntVector f is)"
    by (intro readable3I [where m = "0x0D"]) (simp_all add: amf3_dispatch_def amf3_decode_int_vector_def)
next
  assume "amf3_size_ok (length us)"
  from preads_vector [OF this, of read_u32 write_u32 A3UintVector f] show "readable3 (A3UintVector f us)"
    by (intro readable3I [where m = "0x0E"]) (simp_all add: amf3_dispatch_def amf3_decode_uint_vector_def)
next
  assume "amf3_size_ok (length ds)"
  from preads_vector [OF this, of read_f64 write_f64 A3DoubleVector f] show "readable3 (A3DoubleVector f ds)"
    by (intro readable3I [where m = "0x0F"]) (simp_all add: amf3_dispatch_def amf3_decode_double_vector_def)
next
  assume k: "amf3_size_ok (length bs)"
  have "preads (\<lambda>st b. pread (read_bytes (length bs)) st b) bs bs" by (rule preads_pread) simp
  from preads_complex_map [where p = "\<lambda>k st b. pread (read_bytes k) st b" and f = A3ByteArray, OF this k]
  show "readable3 (A3ByteArray bs)"
    by (intro readable3I [where m = "0x0C"]) (simp_all add: amf3_dispatch_def amf3_decode_byte_array_def)
qed

text \<open>The kinds that contain values.\<close>

lemma readable3_encode: "readable3 v \<Longrightarrow> amf3_encode v = Some (W3 v)"
  by (simp add: readable3_def)

lemma readable3_members:
  assumes "\<And>v. v \<in> set vs \<Longrightarrow> readable3 v" and "length (concat (map W3 vs)) < n"
  shows "preads (\<lambda>s b. prepeat (length vs) (amf3_decode_value n) s b) (concat (map W3 vs)) vs"
proof (rule preads_repeat_map, rule readable3D)
  fix v assume v: "v \<in> set vs"
  then have "length (W3 v) \<le> length (concat (map W3 vs))" by (intro length_concat_member) simp
  with assms v show "readable3 v" "length (W3 v) < n" by auto
qed

lemma readable3_pairs:
  assumes "\<And>e. e \<in> set es \<Longrightarrow> amf3_str_ok (fst e) \<and> fst e \<noteq> [] \<and> readable3 (snd e)"
    and "length (concat (map (\<lambda>e. pair_bytes (fst e) (W3 (snd e))) es)) < n"
  shows "preads (amf3_decode_pairs n (amf3_decode_value n))
    (concat (map (\<lambda>e. pair_bytes (fst e) (W3 (snd e))) es) @ amf3_encode_utf8 []) es"
proof (rule preads_pairs)
  show "\<forall>e \<in> set es. amf3_str_ok (fst e) \<and> fst e \<noteq> [] \<and> preads (amf3_decode_value n) (W3 (snd e)) (snd e)"
  proof
    fix e assume e: "e \<in> set es"
    then have "length (pair_bytes (fst e) (W3 (snd e))) \<le> length (concat (map (\<lambda>e. pair_bytes (fst e) (W3 (snd e))) es))"
      by (intro length_concat_member) simp
    then have "length (W3 (snd e)) < n" using assms(2) by (simp add: pair_bytes_def)
    with assms(1) [OF e] show "amf3_str_ok (fst e) \<and> fst e \<noteq> [] \<and> preads (amf3_decode_value n) (W3 (snd e)) (snd e)"
      by (simp add: readable3D)
  qed
  have "length (map (\<lambda>e. pair_bytes (fst e) (W3 (snd e))) es) \<le> length (concat (map (\<lambda>e. pair_bytes (fst e) (W3 (snd e))) es))"
    using length_encode_utf8 by (intro length_le_concat) (auto simp: pair_bytes_def)
  with assms(2) show "length es < n" by simp
qed

lemma readable3_array:
  assumes "amf3_size_ok (length dense)"
    and a: "\<And>e. e \<in> set assoc \<Longrightarrow> amf3_str_ok (fst e) \<and> fst e \<noteq> [] \<and> readable3 (snd e)"
    and d: "\<And>v. v \<in> set dense \<Longrightarrow> readable3 v"
  shows "readable3 (A3Array assoc dense)"
proof -
  let ?a = "concat (map (\<lambda>e. pair_bytes (fst e) (W3 (snd e))) assoc)"
  let ?w = "amf3_encode_size (length dense) @ (?a @ amf3_encode_utf8 []) @ concat (map W3 dense)"
  have ma: "map (\<lambda>e. ocat [Some (amf3_encode_utf8 (fst e)), amf3_encode (snd e)]) assoc
      = map (\<lambda>e. Some (pair_bytes (fst e) (W3 (snd e)))) assoc"
    using a by (auto simp: ocat_def pair_bytes_def readable3_encode)
  have md: "map amf3_encode dense = map (\<lambda>v. Some (W3 v)) dense"
    using d by (auto simp: readable3_encode)
  show ?thesis
  proof (rule readable3I [where m = "0x09" and w = ?w])
    show "amf3_encode (A3Array assoc dense) = Some (0x09 # ?w)"
      unfolding amf3_encode.simps ma md by (subst ocat_Some) (auto simp: o_def)
    fix n assume l: "length ?w < n"
    have la: "length ?a < n" and ld: "length (concat (map W3 dense)) < n" using l by simp_all
    have p1: "preads (amf3_decode_pairs n (amf3_decode_value n)) (?a @ amf3_encode_utf8 []) assoc"
      by (rule readable3_pairs [OF a la])
    have p2: "preads (\<lambda>s b. pbind (prepeat (length dense) (amf3_decode_value n) s b)
        (\<lambda>vs s b. pret (A3Array assoc vs) s b)) (concat (map W3 dense)) (A3Array assoc dense)"
      by (rule preads_map [OF readable3_members [OF d ld]])
    have "preads (\<lambda>s b. amf3_decode_array (amf3_decode_value n) (amf3_decode_pairs n (amf3_decode_value n)) s b)
        ?w (A3Array assoc dense)"
      unfolding amf3_decode_array_def
      by (rule preads_complex, rule preads_bind, rule p1, rule p2, rule assms(1))
    then show "preads (\<lambda>s b. amf3_dispatch (amf3_decode_value n) (amf3_decode_pairs n (amf3_decode_value n)) 0x09 s b)
        ?w (A3Array assoc dense)" by (simp add: amf3_dispatch_def)
  qed
qed

lemma readable3_object_vector:
  assumes "amf3_size_ok (length es)" and cn: "class_name \<noteq> Some ''*''"
    and ck: "amf3_str_ok (case class_name of None \<Rightarrow> ''*'' | Some s \<Rightarrow> s)"
    and d: "\<And>v. v \<in> set es \<Longrightarrow> readable3 v"
  shows "readable3 (A3ObjectVector class_name fixed es)"
proof -
  define c where "c = (case class_name of None \<Rightarrow> ''*'' | Some s \<Rightarrow> s)"
  let ?w = "amf3_encode_size (length es) @ [flag_byte fixed] @ amf3_encode_utf8 c @ concat (map W3 es)"
  have md: "map amf3_encode es = map (\<lambda>v. Some (W3 v)) es"
    using d by (auto simp: readable3_encode)
  have c: "(if c = ''*'' then None else Some c) = class_name"
    using cn by (cases class_name) (auto simp: c_def)
  have ck': "amf3_str_ok c" using ck by (simp add: c_def)
  show ?thesis
  proof (rule readable3I [where m = "0x10" and w = ?w])
    show "amf3_encode (A3ObjectVector class_name fixed es) = Some (0x10 # ?w)"
      unfolding amf3_encode.simps md c_def [symmetric] by (subst ocat_Some) (auto simp: o_def)
    fix n assume l: "length ?w < n"
    let ?con = "\<lambda>es. A3ObjectVector (if c = ''*'' then None else Some c) (flag_byte fixed \<noteq> 0) es"
    have "length (concat (map W3 es)) < n" using l by simp
    from preads_map [OF readable3_members [OF d this], where f = ?con]
    have e: "preads (\<lambda>st buf. pbind (prepeat (length es) (amf3_decode_value n) st buf)
        (\<lambda>es st buf. pret (?con es) st buf)) (concat (map W3 es)) (A3ObjectVector class_name fixed es)"
      by (simp only: c flag_byte_simps)
    have "preads (\<lambda>s b. amf3_decode_object_vector (amf3_decode_value n) s b) ?w (A3ObjectVector class_name fixed es)"
      unfolding amf3_decode_object_vector_def
      by (rule preads_complex, rule preads_bind [where ?v1.0 = "flag_byte fixed"], rule preads_pread, simp,
          rule preads_bind, rule preads_utf8 [OF ck'], rule e, rule assms(1))
    then show "preads (\<lambda>s b. amf3_dispatch (amf3_decode_value n) (amf3_decode_pairs n (amf3_decode_value n)) 0x10 s b)
        ?w (A3ObjectVector class_name fixed es)" by (simp add: amf3_dispatch_def)
  qed
qed

lemma readable3_dictionary:
  assumes "amf3_size_ok (length es)"
    and d: "\<And>e. e \<in> set es \<Longrightarrow> readable3 (fst e) \<and> readable3 (snd e)"
  shows "readable3 (A3Dictionary weak es)"
proof -
  let ?W = "\<lambda>e. W3 (fst e) @ W3 (snd e)"
  let ?w = "amf3_encode_size (length es) @ [flag_byte weak] @ concat (map ?W es)"
  have md: "map (\<lambda>e. ocat [amf3_encode (fst e), amf3_encode (snd e)]) es = map (\<lambda>e. Some (?W e)) es"
    using d by (auto simp: readable3_encode ocat_def)
  show ?thesis
  proof (rule readable3I [where m = "0x11" and w = ?w])
    show "amf3_encode (A3Dictionary weak es) = Some (0x11 # ?w)"
      unfolding amf3_encode.simps md by (subst ocat_Some) (auto simp: o_def)
    fix n assume l: "length ?w < n"
    let ?p = "\<lambda>st buf. pbind (amf3_decode_value n st buf) (\<lambda>k st buf.
                pbind (amf3_decode_value n st buf) (\<lambda>v st buf. pret (k, v) st buf))"
    have m: "preads ?p (?W e) e" if e: "e \<in> set es" for e
    proof -
      have "length (?W e) \<le> length (concat (map ?W es))" using e by (intro length_concat_member) auto
      with l have "length (W3 (fst e)) < n" "length (W3 (snd e)) < n" by auto
      with d [OF e] have "preads (amf3_decode_value n) (W3 (fst e)) (fst e)"
        "preads (amf3_decode_value n) (W3 (snd e)) (snd e)" by (auto intro: readable3D)
      then have "preads ?p (?W e) (fst e, snd e)"
        by (intro preads_bind) (assumption, rule preads_map [where f = "\<lambda>v. (fst e, v)"])
      then show ?thesis by simp
    qed
    have "preads (\<lambda>st buf. pbind (prepeat (length es) ?p st buf) (\<lambda>es st buf.
         pret (A3Dictionary (flag_byte weak = 1) es) st buf)) (concat (map ?W es)) (A3Dictionary (flag_byte weak = 1) es)"
      by (rule preads_map [OF preads_repeat_map [OF m]])
    then have e: "preads (\<lambda>st buf. pbind (prepeat (length es) ?p st buf) (\<lambda>es st buf.
         pret (A3Dictionary (flag_byte weak = 1) es) st buf)) (concat (map ?W es)) (A3Dictionary weak es)"
      by (simp only: flag_byte_simps)
    have "preads (\<lambda>s b. amf3_decode_dictionary (amf3_decode_value n) s b) ?w (A3Dictionary weak es)"
      unfolding amf3_decode_dictionary_def
      by (rule preads_complex, rule preads_bind [where ?v1.0 = "flag_byte weak"], rule preads_pread, simp,
          rule e, rule assms(1))
    then show "preads (\<lambda>s b. amf3_dispatch (amf3_decode_value n) (amf3_decode_pairs n (amf3_decode_value n)) 0x11 s b)
        ?w (A3Dictionary weak es)" by (simp add: amf3_dispatch_def)
  qed
qed

lemma preads_trait:
  assumes "\<And>k. k \<in> set fs \<Longrightarrow> amf3_str_ok k" and "amf3_str_ok cn"
  shows "preads (\<lambda>s b. amf3_decode_trait (8 * length fs + 4 * (if dyn then 1 else 0) + 1) s b)
    (amf3_encode_utf8 cn @ concat (map amf3_encode_utf8 fs))
    \<lparr>tr_class_name = (if cn = [] then None else Some cn), tr_is_dynamic = dyn, tr_fields = fs\<rparr>"
proof -
  let ?u = "8 * length fs + 4 * (if dyn then 1 else 0) + 1 :: nat"
  have u: "odd ?u" "even (?u div 2)" "?u div 8 = length fs" "odd (?u div 4) = dyn"
    by (cases dyn; presburger)+
  let ?t = "\<lparr>tr_class_name = (if cn = [] then None else Some cn), tr_is_dynamic = dyn, tr_fields = fs\<rparr>"
  have f: "preads (\<lambda>s b. prepeat (length fs) amf3_decode_utf8 s b) (concat (map amf3_encode_utf8 fs)) fs"
    by (rule preads_repeat_map) (simp add: preads_utf8 assms)
  have "preads (\<lambda>st buf. pbind (amf3_decode_utf8 st buf) (\<lambda>class_name st buf.
        pbind (prepeat (length fs) amf3_decode_utf8 st buf) (\<lambda>fs st buf.
        pret \<lparr>tr_class_name = (if class_name = [] then None else Some class_name),
                 tr_is_dynamic = dyn, tr_fields = fs\<rparr>
          (st\<lparr>a3_traits := a3_traits st @ [\<lparr>tr_class_name = (if class_name = [] then None else Some class_name),
                 tr_is_dynamic = dyn, tr_fields = fs\<rparr>]\<rparr>) buf)))
     (amf3_encode_utf8 cn @ concat (map amf3_encode_utf8 fs) @ []) ?t"
    by (rule preads_bind, rule preads_utf8 [OF assms(2)], rule preads_bind, rule f, rule preads_pret)
  then show ?thesis
    unfolding amf3_decode_trait_def using u by (simp only: Let_def) simp
qed

lemma readable3_object:
  assumes sc: "sealed_count \<le> length entries" and ok: "amf3_size_ok (8 * sealed_count + 5)"
    and cn: "class_name \<noteq> Some []" "case class_name of None \<Rightarrow> True | Some s \<Rightarrow> amf3_str_ok s"
    and e: "\<And>e. e \<in> set entries \<Longrightarrow> amf3_str_ok (fst e) \<and> readable3 (snd e)"
    and ne: "\<And>e. e \<in> set (drop sealed_count entries) \<Longrightarrow> fst e \<noteq> []"
  shows "readable3 (A3Object class_name sealed_count entries)"
proof -
  define c where "c = (case class_name of None \<Rightarrow> [] | Some s \<Rightarrow> s)"
  define ss ds where "ss = take sealed_count entries" and "ds = drop sealed_count entries"
  define dyn where "dyn \<longleftrightarrow> sealed_count < length entries"
  let ?u = "8 * length ss + 4 * (if dyn then 1 else 0) + 1 :: nat"
  let ?keys = "concat (map amf3_encode_utf8 (map fst ss))"
  let ?vals = "concat (map (\<lambda>e. W3 (snd e)) ss)"
  let ?dw = "if dyn then concat (map (\<lambda>e. pair_bytes (fst e) (W3 (snd e))) ds) @ amf3_encode_utf8 [] else []"
  let ?w = "amf3_encode_size ?u @ (amf3_encode_utf8 c @ ?keys) @ ?vals @ ?dw @ []"
  have ck: "amf3_str_ok c"
    using cn(2) by (cases class_name)
      (auto simp: c_def amf3_str_ok_def amf3_size_ok_def valid_string_def bytes_of_string_def)
  have cc: "(if c = [] then None else Some c) = class_name" using cn(1) by (cases class_name) (auto simp: c_def)
  have ls: "length ss = sealed_count" and app: "ss @ ds = entries" using sc by (simp_all add: ss_def ds_def)
  have sin: "e \<in> set entries" if "e \<in> set ss \<or> e \<in> set ds" for e
    using that app by auto
  have es: "take sealed_count (map (\<lambda>e. amf3_encode (snd e)) entries) = map (\<lambda>e. Some (W3 (snd e))) ss"
    using e sin by (auto simp: take_map ss_def [symmetric] readable3_encode)
  have ed: "drop sealed_count (map (\<lambda>e. ocat [Some (amf3_encode_utf8 (fst e)), amf3_encode (snd e)]) entries)
      = map (\<lambda>e. Some (pair_bytes (fst e) (W3 (snd e)))) ds"
    using e sin by (auto simp: drop_map ds_def [symmetric] readable3_encode ocat_def pair_bytes_def)
  show ?thesis
  proof (rule readable3I [where m = "0x0A" and w = ?w])
    have tr: "amf3_encode_trait class_name sealed_count entries = amf3_encode_size ?u @ amf3_encode_utf8 c @ ?keys"
      by (simp add: amf3_encode_trait_def Let_def dyn_def ls flip: ss_def c_def) (simp add: ss_def o_def)
    show "amf3_encode (A3Object class_name sealed_count entries) = Some (0x0A # ?w)"
      unfolding amf3_encode.simps es ed tr dyn_def [symmetric]
      by (subst ocat_Some) (auto simp: o_def)
    fix n assume l: "length ?w < n"
    have uk: "amf3_size_ok ?u" using ok ls by (auto simp: amf3_size_ok_def)
    let ?t = "\<lparr>tr_class_name = class_name, tr_is_dynamic = dyn, tr_fields = map fst ss\<rparr>"
    have t: "preads (\<lambda>s b. amf3_decode_trait ?u s b) (amf3_encode_utf8 c @ ?keys) ?t"
      using preads_trait [of "map fst ss" c dyn] ck e sin by (simp add: cc) fastforce
    have v: "preads (\<lambda>s b. pkeyed (map fst ss) (amf3_decode_value n) s b) ?vals ss"
    proof (rule preads_keyed_map, rule readable3D)
      fix x assume x: "x \<in> set ss"
      then have "length (W3 (snd x)) \<le> length ?vals" by (intro length_concat_member) auto
      with l e sin x show "readable3 (snd x)" "length (W3 (snd x)) < n" by auto
    qed
    have d: "preads (\<lambda>st buf. if dyn then amf3_decode_pairs n (amf3_decode_value n) st buf else pret [] st buf) ?dw ds"
    proof (cases dyn)
      case True
      have "preads (amf3_decode_pairs n (amf3_decode_value n))
          (concat (map (\<lambda>e. pair_bytes (fst e) (W3 (snd e))) ds) @ amf3_encode_utf8 []) ds"
        by (rule readable3_pairs) (use True l e sin ne in \<open>auto simp: ds_def\<close>)
      with True show ?thesis by simp
    next
      case False
      then have "ds = []" by (simp add: dyn_def ds_def)
      with False show ?thesis by (simp add: preads_pret)
    qed
    have f: "preads (\<lambda>st buf. pret (A3Object (tr_class_name ?t) (length (tr_fields ?t)) (ss @ ds)) st buf) []
        (A3Object class_name sealed_count entries)"
      using preads_pret(2) [of "A3Object class_name sealed_count entries"] by (simp add: ls app)
    have "preads (\<lambda>s b. amf3_decode_object (amf3_decode_value n) (amf3_decode_pairs n (amf3_decode_value n)) s b)
        ?w (A3Object class_name sealed_count entries)"
      unfolding amf3_decode_object_def
      by (rule preads_complex [OF _ uk], rule preads_bind, rule t, rule preads_bind, unfold amf3_trait.simps,
          rule v, rule preads_bind, rule d) (use f in simp)
    then show "preads (\<lambda>s b. amf3_dispatch (amf3_decode_value n) (amf3_decode_pairs n (amf3_decode_value n)) 0x0A s b)
        ?w (A3Object class_name sealed_count entries)" by (simp add: amf3_dispatch_def)
  qed
qed

lemma star_ok: "amf3_str_ok ''*''"
  by (simp add: amf3_str_ok_def amf3_size_ok_def valid_string_def bytes_of_string_def utf8_valid.simps(2))

lemma amf3_wf_readable: "amf3_wf v \<Longrightarrow> readable3 v"
proof (induction v rule: amf3_wf.induct)
  case (5 assoc dense)
  then show ?case by (intro readable3_array) auto
next
  case (6 class_name sealed_count entries)
  then show ?case by (intro readable3_object) auto
next
  case (12 class_name f es)
  then show ?case by (intro readable3_object_vector) (auto simp: star_ok split: option.splits)
next
  case (13 f es)
  then show ?case by (intro readable3_dictionary) auto
qed (auto intro: readable3_integer readable3_strings readable3_date readable3_vectors readable3_simple)

lemma amf3_decode_encode:
  assumes "amf3_wf v"
  shows "\<exists>w. amf3_encode v = Some w \<and> amf3_decode (w @ r) = Some (Inr (length w, v))"
proof -
  from amf3_wf_readable [OF assms] have e: "amf3_encode v = Some (W3 v)"
    and p: "preads (amf3_decode_value (Suc (length (W3 v @ r)))) (W3 v) v"
    by (auto simp: readable3_def)
  from p obtain s' where "amf3_decode_value (Suc (length (W3 v @ r))) amf3_decoder_new (W3 v @ r) = Some (Inr (v, s', r))"
    unfolding preads_def by blast
  with e show ?thesis by (simp add: amf3_decode_def)
qed

end
