(* ===== verification/Rtmp_Amf0.thy ===== *)
theory Rtmp_Amf0
  imports Rtmp_Amf3_Roundtrip
begin

text \<open>
  \<^verbatim>\<open>amf0.rs\<close>: AMF0 values, the decoder with its reference table and the encoder. The encoder remembers
  the addresses of the complex values it has written and emits a reference when it meets an address
  again; an address is modelled by the position of the value in the tree being encoded (the path of
  child indices from the root), so that equal values at different places are different, as in the Rust
  code. That the reference branch is never taken on a tree is a theorem (\<open>amf0_encode_plain\<close>).
\<close>

section \<open>Values\<close>

datatype amf0_value =
    A0Number u64
  | A0Boolean bool
  | A0String string
  | A0Object "string option" "(string \<times> amf0_value) list"
  | A0Null
  | A0Undefined
  | A0EcmaArray "(string \<times> amf0_value) list"
  | A0Array "amf0_value list"
  | A0Date int
  | A0XmlDocument string
  | A0AvmPlus amf3_value

fun amf0_as_str :: "amf0_value \<Rightarrow> string option" where
  "amf0_as_str (A0String v) = Some v"
| "amf0_as_str _ = None"

fun amf0_as_f64 :: "amf0_value \<Rightarrow> u64 option" where
  "amf0_as_f64 (A0Number v) = Some v"
| "amf0_as_f64 _ = None"

fun amf0_as_object_entries :: "amf0_value \<Rightarrow> (string \<times> amf0_value) list option" where
  "amf0_as_object_entries (A0Object _ entries) = Some entries"
| "amf0_as_object_entries (A0EcmaArray entries) = Some entries"
| "amf0_as_object_entries _ = None"

definition amf0_object :: "(string \<times> amf0_value) list \<Rightarrow> amf0_value" where
  "amf0_object entries = A0Object None entries"

definition amf0_empty_object :: amf0_value where
  "amf0_empty_object = A0Object None []"

definition amf0_ecma_array :: "(string \<times> amf0_value) list \<Rightarrow> amf0_value" where
  "amf0_ecma_array entries = A0EcmaArray entries"

section \<open>Decoder\<close>

record amf0_decoder =
  a0_complexes :: "amf0_value list"
  a0_decoding :: "nat set"

definition amf0_decoder_new :: amf0_decoder where
  "amf0_decoder_new = \<lparr>a0_complexes = [], a0_decoding = {}\<rparr>"

type_synonym 'a parser0 = "(amf0_decoder, 'a) parser"

definition amf0_decode_complex_type :: "amf0_value parser0 \<Rightarrow> amf0_value parser0" where
  "amf0_decode_complex_type f st buf =
     (let idx = length (a0_complexes st) in
      pbind (f (st\<lparr>a0_complexes := a0_complexes st @ [A0Null],
                   a0_decoding := insert idx (a0_decoding st)\<rparr>) buf) (\<lambda>v st buf.
        pret v (st\<lparr>a0_decoding := a0_decoding st - {idx},
                   a0_complexes := (a0_complexes st)[idx := v]\<rparr>) buf))"

definition amf0_decode_avmplus :: "amf0_value parser0" where
  "amf0_decode_avmplus st buf =
     (case amf3_decode buf of
        None \<Rightarrow> None
      | Some (Inl e) \<Rightarrow> Some (Inl e)
      | Some (Inr (bytes_read, v)) \<Rightarrow> pret (A0AvmPlus v) st (drop bytes_read buf))"

definition amf0_decode_xml_document :: "amf0_value parser0" where
  "amf0_decode_xml_document st buf =
     pbind (pread read_u32 st buf) (\<lambda>len st buf.
     pbind (pread (read_utf8 (unat len)) st buf) (\<lambda>s st buf. pret (A0XmlDocument s) st buf))"

definition amf0_decode_number :: "amf0_value parser0" where
  "amf0_decode_number st buf = pbind (pread read_f64 st buf) (\<lambda>n st buf. pret (A0Number n) st buf)"

definition amf0_decode_boolean :: "amf0_value parser0" where
  "amf0_decode_boolean st buf =
     pbind (pread read_u8 st buf) (\<lambda>b st buf. pret (A0Boolean (b \<noteq> 0)) st buf)"

definition amf0_decode_string :: "amf0_value parser0" where
  "amf0_decode_string st buf =
     pbind (pread read_u16 st buf) (\<lambda>len st buf.
     pbind (pread (read_utf8 (unat len)) st buf) (\<lambda>s st buf. pret (A0String s) st buf))"

definition amf0_decode_long_string :: "amf0_value parser0" where
  "amf0_decode_long_string st buf =
     pbind (pread read_u32 st buf) (\<lambda>len st buf.
     pbind (pread (read_utf8 (unat len)) st buf) (\<lambda>s st buf. pret (A0String s) st buf))"

definition amf0_decode_date :: "amf0_value parser0" where
  "amf0_decode_date st buf =
     amf0_decode_complex_type (\<lambda>st buf.
       pbind (pread read_f64 st buf) (\<lambda>millis st buf.
       pbind (pread read_u16 st buf) (\<lambda>_ st buf.
         if \<not> f64_is_finite millis then pfail InvalidData st buf
         else pret (A0Date (if f64_is_zero millis then 0 else f64_as_i64 millis)) st buf))) st buf"

definition amf0_decode_reference :: "amf0_value parser0" where
  "amf0_decode_reference st buf =
     pbind (pread read_u16 st buf) (\<lambda>index st buf.
       case get_at (a0_complexes st) (unat index) of
         None \<Rightarrow> pfail InvalidData st buf
       | Some v \<Rightarrow>
           if unat index \<in> a0_decoding st then pfail Unsupported st buf else pret v st buf)"

text \<open>The loop of \<^verbatim>\<open>decode_pairs\<close>, bounded by its first argument; \<open>dv\<close> decodes a value.\<close>

fun amf0_decode_pairs :: "nat \<Rightarrow> amf0_value parser0 \<Rightarrow> (string \<times> amf0_value) list parser0" where
  "amf0_decode_pairs 0 dv st buf = None"
| "amf0_decode_pairs (Suc n) dv st buf =
     pbind (pread read_u16 st buf) (\<lambda>key_len st buf.
     pbind (pread (read_utf8 (unat key_len)) st buf) (\<lambda>key st buf.
       if get_at buf 0 = Some 0x09 then
         pbind (pread read_u8 st buf) (\<lambda>_ st buf. pret [] st buf)
       else
         pbind (dv st buf) (\<lambda>v st buf.
         pbind (amf0_decode_pairs n dv st buf) (\<lambda>ps st buf. pret ((key, v) # ps) st buf))))"

definition amf0_decode_object :: "(string \<times> amf0_value) list parser0 \<Rightarrow> amf0_value parser0" where
  "amf0_decode_object dp st buf =
     amf0_decode_complex_type (\<lambda>st buf.
       pbind (dp st buf) (\<lambda>entries st buf. pret (A0Object None entries) st buf)) st buf"

definition amf0_decode_ecma_array :: "(string \<times> amf0_value) list parser0 \<Rightarrow> amf0_value parser0" where
  "amf0_decode_ecma_array dp st buf =
     amf0_decode_complex_type (\<lambda>st buf.
       pbind (pread read_u32 st buf) (\<lambda>_ st buf.
       pbind (dp st buf) (\<lambda>entries st buf. pret (A0EcmaArray entries) st buf))) st buf"

definition amf0_decode_strict_array :: "amf0_value parser0 \<Rightarrow> amf0_value parser0" where
  "amf0_decode_strict_array dv st buf =
     amf0_decode_complex_type (\<lambda>st buf.
       pbind (pread read_u32 st buf) (\<lambda>count st buf.
       pbind (prepeat (unat count) dv st buf) (\<lambda>entries st buf. pret (A0Array entries) st buf))) st buf"

definition amf0_decode_typed_object :: "(string \<times> amf0_value) list parser0 \<Rightarrow> amf0_value parser0" where
  "amf0_decode_typed_object dp st buf =
     amf0_decode_complex_type (\<lambda>st buf.
       pbind (pread read_u16 st buf) (\<lambda>len st buf.
       pbind (pread (read_utf8 (unat len)) st buf) (\<lambda>class_name st buf.
       pbind (dp st buf) (\<lambda>entries st buf. pret (A0Object (Some class_name) entries) st buf)))) st buf"

text \<open>The \<^verbatim>\<open>match\<close> on the marker.\<close>

definition amf0_dispatch ::
  "amf0_value parser0 \<Rightarrow> (string \<times> amf0_value) list parser0 \<Rightarrow> u8 \<Rightarrow> amf0_value parser0" where
  "amf0_dispatch dv dp marker st buf =
     (if marker = 0x00 then amf0_decode_number st buf
      else if marker = 0x01 then amf0_decode_boolean st buf
      else if marker = 0x02 then amf0_decode_string st buf
      else if marker = 0x03 then amf0_decode_object dp st buf
      else if marker = 0x05 then pret A0Null st buf
      else if marker = 0x06 then pret A0Undefined st buf
      else if marker = 0x07 then amf0_decode_reference st buf
      else if marker = 0x08 then amf0_decode_ecma_array dp st buf
      else if marker = 0x0A then amf0_decode_strict_array dv st buf
      else if marker = 0x0B then amf0_decode_date st buf
      else if marker = 0x0C then amf0_decode_long_string st buf
      else if marker = 0x0F then amf0_decode_xml_document st buf
      else if marker = 0x10 then amf0_decode_typed_object dp st buf
      else if marker = 0x11 then amf0_decode_avmplus st buf
      else if marker = 0x04 \<or> marker = 0x0E \<or> marker = 0x0D then pfail Unsupported st buf
      else pfail InvalidData st buf)"

fun amf0_decode_value :: "nat \<Rightarrow> amf0_value parser0" where
  "amf0_decode_value 0 st buf = None"
| "amf0_decode_value (Suc n) st buf =
     pbind (pread read_u8 st buf) (\<lambda>marker st buf.
       amf0_dispatch (amf0_decode_value n) (amf0_decode_pairs n (amf0_decode_value n)) marker st buf)"

declare amf0_decode_value.simps(2) [simp del]

definition amf0_decode :: "bytes \<Rightarrow> (error_kind + nat \<times> amf0_value) option" where
  "amf0_decode buf =
     (case amf0_decode_value (Suc (length buf)) amf0_decoder_new buf of
        None \<Rightarrow> None
      | Some (Inl e) \<Rightarrow> Some (Inl e)
      | Some (Inr (v, _, r)) \<Rightarrow> Some (Inr (length buf - length r, v)))"

section \<open>Encoder\<close>

type_synonym address = "nat list"

fun position :: "'a \<Rightarrow> 'a list \<Rightarrow> nat option" where
  "position x [] = None"
| "position x (y # ys) = (if x = y then Some 0 else map_option Suc (position x ys))"

definition amf0_encode_complex ::
  "address \<Rightarrow> (address list \<Rightarrow> bytes option \<times> address list) \<Rightarrow> address list
     \<Rightarrow> bytes option \<times> address list" where
  "amf0_encode_complex ptr f complexes =
     (case position ptr complexes of
        Some idx \<Rightarrow>
          if idx \<le> 65535 then (Some (write_u8 0x07 @ write_u16 (of_nat idx)), complexes)
          else f complexes
      | None \<Rightarrow> if length complexes > 65535 then f complexes else f (complexes @ [ptr]))"

definition amf0_encode_number :: "u64 \<Rightarrow> bytes" where
  "amf0_encode_number n = write_u8 0x00 @ write_f64 n"

definition amf0_encode_boolean :: "bool \<Rightarrow> bytes" where
  "amf0_encode_boolean b = write_u8 0x01 @ write_u8 (if b then 1 else 0)"

definition amf0_encode_string :: "string \<Rightarrow> bytes" where
  "amf0_encode_string s =
     (if length s \<le> 0xFFFF then write_u8 0x02 @ write_u16 (of_nat (length s))
      else write_u8 0x0C @ write_u32 (of_nat (length s))) @ bytes_of_string s"

definition amf0_encode_xml_document :: "string \<Rightarrow> bytes" where
  "amf0_encode_xml_document xml = write_u8 0x0F @ write_u32 (of_nat (length xml)) @ bytes_of_string xml"

definition amf0_encode_date :: "int \<Rightarrow> bytes" where
  "amf0_encode_date ms = write_u8 0x0B @ write_f64 (i64_as_f64 ms) @ write_u16 0"

definition amf0_encode_avmplus :: "amf3_value \<Rightarrow> bytes option" where
  "amf0_encode_avmplus v = ocat [Some (write_u8 0x11), amf3_encode v]"

definition amf0_encode_key :: "string \<Rightarrow> bytes" where
  "amf0_encode_key k = write_u16 (of_nat (length k)) @ bytes_of_string k"

definition amf0_object_head :: "string option \<Rightarrow> bytes" where
  "amf0_object_head class_name =
     (case class_name of
        Some c \<Rightarrow> write_u8 0x10 @ write_u16 (of_nat (length c)) @ bytes_of_string c
      | None \<Rightarrow> write_u8 0x03)"

definition prefix_bytes :: "bytes \<Rightarrow> bytes option \<times> 's \<Rightarrow> bytes option \<times> 's" where
  "prefix_bytes b r = (ocat [Some b, fst r], snd r)"

fun amf0_encode_value :: "address \<Rightarrow> amf0_value \<Rightarrow> address list \<Rightarrow> bytes option \<times> address list"
  and amf0_encode_values :: "address \<Rightarrow> nat \<Rightarrow> amf0_value list \<Rightarrow> address list \<Rightarrow> bytes option \<times> address list"
  and amf0_encode_pairs ::
    "address \<Rightarrow> nat \<Rightarrow> (string \<times> amf0_value) list \<Rightarrow> address list \<Rightarrow> bytes option \<times> address list"
where
  "amf0_encode_value ptr (A0Object class_name entries) cs =
     amf0_encode_complex ptr (\<lambda>cs.
       prefix_bytes (amf0_object_head class_name) (amf0_encode_pairs ptr 0 entries cs)) cs"
| "amf0_encode_value ptr (A0EcmaArray entries) cs =
     amf0_encode_complex ptr (\<lambda>cs.
       prefix_bytes (write_u8 0x08 @ write_u32 (of_nat (length entries)))
         (amf0_encode_pairs ptr 0 entries cs)) cs"
| "amf0_encode_value ptr (A0Array entries) cs =
     amf0_encode_complex ptr (\<lambda>cs.
       prefix_bytes (write_u8 0x0A @ write_u32 (of_nat (length entries)))
         (amf0_encode_values ptr 0 entries cs)) cs"
| "amf0_encode_value ptr (A0Date ms) cs =
     amf0_encode_complex ptr (\<lambda>cs. (Some (amf0_encode_date ms), cs)) cs"
| "amf0_encode_value ptr (A0Number n) cs = (Some (amf0_encode_number n), cs)"
| "amf0_encode_value ptr (A0Boolean b) cs = (Some (amf0_encode_boolean b), cs)"
| "amf0_encode_value ptr (A0String s) cs = (Some (amf0_encode_string s), cs)"
| "amf0_encode_value ptr A0Null cs = (Some (write_u8 0x05), cs)"
| "amf0_encode_value ptr A0Undefined cs = (Some (write_u8 0x06), cs)"
| "amf0_encode_value ptr (A0XmlDocument s) cs = (Some (amf0_encode_xml_document s), cs)"
| "amf0_encode_value ptr (A0AvmPlus v) cs = (amf0_encode_avmplus v, cs)"
| "amf0_encode_values ptr i [] cs = (Some [], cs)"
| "amf0_encode_values ptr i (v # vs) cs =
     (let (b, cs1) = amf0_encode_value (ptr @ [i]) v cs;
          (bs, cs2) = amf0_encode_values ptr (Suc i) vs cs1
      in (ocat [b, bs], cs2))"
| "amf0_encode_pairs ptr i [] cs = (Some (write_u16 0 @ write_u8 0x09), cs)"
| "amf0_encode_pairs ptr i ((k, v) # ps) cs =
     (let (b, cs1) = amf0_encode_value (ptr @ [i]) v cs;
          (bs, cs2) = amf0_encode_pairs ptr (Suc i) ps cs1
      in (ocat [Some (amf0_encode_key k), b, bs], cs2))"

definition amf0_encode :: "amf0_value \<Rightarrow> bytes option" where
  "amf0_encode v = fst (amf0_encode_value [] v [])"

text \<open>\<^verbatim>\<open>encode_all\<close>: one encoder for a slice of values; their addresses are the slice positions.\<close>

definition amf0_encode_all :: "amf0_value list \<Rightarrow> bytes option" where
  "amf0_encode_all vs = fst (amf0_encode_values [] 0 vs [])"

text \<open>\<^verbatim>\<open>decode_all\<close>, up to the translation of its errors.\<close>

function amf0_decode_all :: "bytes \<Rightarrow> (error_kind + amf0_value list) option" where
  "amf0_decode_all buf =
     (if buf = [] then Some (Inr [])
      else (case amf0_decode buf of
              None \<Rightarrow> None
            | Some (Inl e) \<Rightarrow> Some (Inl e)
            | Some (Inr (n, v)) \<Rightarrow>
                if 0 < n then
                  (case amf0_decode_all (drop n buf) of
                     None \<Rightarrow> None
                   | Some (Inl e) \<Rightarrow> Some (Inl e)
                   | Some (Inr vs) \<Rightarrow> Some (Inr (v # vs)))
                else None))"
  by pat_completeness auto
termination
  by (relation "measure length") auto

declare amf0_decode_all.simps [simp del]

end
