(* ===== verification/Rtmp_Amf0_Roundtrip.thy ===== *)
theory Rtmp_Amf0_Roundtrip
  imports Rtmp_Amf0
begin

text \<open>
  The AMF0 decoder always returns and consumes at least one byte; the AMF0 encoder never emits a
  reference; and what it writes is read back.
\<close>

section \<open>The bound is enough\<close>

lemma pgood_amf0_complex [pgood_intros]:
  assumes "pgood n f"
  shows "pgood n (\<lambda>s b. amf0_decode_complex_type f s b)"
  unfolding pgood_def amf0_decode_complex_type_def Let_def
proof (intro allI impI)
  fix s :: amf0_decoder and b :: bytes
  assume l: "length b < n"
  let ?i = "length (a0_complexes s)"
  let ?s = "s\<lparr>a0_complexes := a0_complexes s @ [A0Null], a0_decoding := insert ?i (a0_decoding s)\<rparr>"
  let ?k = "\<lambda>v st buf. pret v (st\<lparr>a0_decoding := a0_decoding st - {?i},
      a0_complexes := (a0_complexes st)[?i := v]\<rparr>) buf"
  show "pbind (f ?s b) ?k \<noteq> None \<and> (\<forall>v s' b'. pbind (f ?s b) ?k = Some (Inr (v, s', b')) \<longrightarrow> length b' \<le> length b)"
    using pgoodD [OF assms l, of ?s] by (cases "f ?s b" rule: presult_cases) (auto simp: pret_def)
qed

lemma pgood_amf0_avmplus [pgood_intros]: "pgood n (\<lambda>s b. amf0_decode_avmplus s b)"
  unfolding pgood_def amf0_decode_avmplus_def
proof (intro allI impI)
  fix s :: amf0_decoder and b :: bytes
  obtain r where "amf3_decode b = Some r" using amf3_decode_total by blast
  then show "(case amf3_decode b of None \<Rightarrow> None | Some (Inl e) \<Rightarrow> Some (Inl e)
      | Some (Inr (bytes_read, v)) \<Rightarrow> pret (A0AvmPlus v) s (drop bytes_read b)) \<noteq> None \<and>
    (\<forall>v s' b'. (case amf3_decode b of None \<Rightarrow> None | Some (Inl e) \<Rightarrow> Some (Inl e)
      | Some (Inr (bytes_read, v)) \<Rightarrow> pret (A0AvmPlus v) s (drop bytes_read b)) = Some (Inr (v, s', b')) \<longrightarrow>
      length b' \<le> length b)"
    by (cases r) (auto simp: pret_def)
qed

lemma pgood_amf0_kinds [pgood_intros]:
  "pgood n (\<lambda>s b. amf0_decode_xml_document s b)" "pgood n (\<lambda>s b. amf0_decode_number s b)"
  "pgood n (\<lambda>s b. amf0_decode_boolean s b)" "pgood n (\<lambda>s b. amf0_decode_string s b)"
  "pgood n (\<lambda>s b. amf0_decode_long_string s b)" "pgood n (\<lambda>s b. amf0_decode_date s b)"
  "pgood n (\<lambda>s b. amf0_decode_reference s b)"
  unfolding amf0_decode_xml_document_def amf0_decode_number_def amf0_decode_boolean_def
    amf0_decode_string_def amf0_decode_long_string_def amf0_decode_date_def amf0_decode_reference_def
  by (intro pgood_intros)+

lemma pgood_if_bytes [pgood_intros]:
  "pgood n p \<Longrightarrow> pgood n q \<Longrightarrow> pgood n (\<lambda>s b. if c b then p s b else q s b)"
  by (auto simp: pgood_def)

lemma pgood_amf0_pairs:
  assumes "pgood n dv" and "n \<le> k"
  shows "pgood n (amf0_decode_pairs k dv)"
  using assms
proof (induction k arbitrary: n)
  case (Suc k)
  show ?case
  proof (cases n)
    case 0
    then show ?thesis by (simp add: pgood_def)
  next
    case (Suc m)
    then have 1: "pgood m dv" "m \<le> k" using Suc.prems by (auto intro: pgood_mono)
    have 2: "pgood m (amf0_decode_pairs k dv)" by (rule Suc.IH [OF 1])
    have "pstrict n (\<lambda>st buf. pbind (pread read_u16 st buf) (\<lambda>key_len st buf.
     pbind (pread (read_utf8 (unat key_len)) st buf) (\<lambda>key st buf.
       if get_at buf 0 = Some 0x09 then
         pbind (pread read_u8 st buf) (\<lambda>_ st buf. pret [] st buf)
       else
         pbind (dv st buf) (\<lambda>v st buf.
         pbind (amf0_decode_pairs k dv st buf) (\<lambda>ps st buf. pret ((key, v) # ps) st buf)))))"
      unfolding Suc by (rule pstrict_bind [OF pstrict_reads(2)]) (intro pgood_intros 1 2)
    then show ?thesis by (intro pstrict_pgood) simp
  qed
qed (simp add: pgood_def)

lemma pgood_amf0_nested:
  assumes "pgood n dv" and "pgood n dp"
  shows "pgood n (\<lambda>s b. amf0_decode_object dp s b)" "pgood n (\<lambda>s b. amf0_decode_ecma_array dp s b)"
    and "pgood n (\<lambda>s b. amf0_decode_strict_array dv s b)" "pgood n (\<lambda>s b. amf0_decode_typed_object dp s b)"
  unfolding amf0_decode_object_def amf0_decode_ecma_array_def amf0_decode_strict_array_def
    amf0_decode_typed_object_def
  by (intro pgood_intros assms)+

lemma pstrict_amf0_decode_value: "pstrict n (amf0_decode_value n)"
proof (induction n)
  case (Suc n)
  then have 1: "pgood n (amf0_decode_value n)" by (rule pstrict_pgood)
  then have 2: "pgood n (amf0_decode_pairs n (amf0_decode_value n))" by (rule pgood_amf0_pairs) simp
  show ?case
    unfolding amf0_decode_value.simps(2) [abs_def] amf0_dispatch_def
    by (rule pstrict_bind [OF pstrict_reads(1)]) (intro pgood_intros pgood_amf0_nested [OF 1 2])
qed (simp add: pstrict_def)

lemma amf0_decode_total:
  "\<exists>r. amf0_decode b = Some r \<and> (\<forall>n v. r = Inr (n, v) \<longrightarrow> 0 < n \<and> n \<le> length b)"
proof -
  let ?r = "amf0_decode_value (Suc (length b)) amf0_decoder_new b"
  have l: "length b < Suc (length b)" by simp
  note d = pstrictD [OF pstrict_amf0_decode_value l]
  show ?thesis
  proof (cases ?r rule: presult_cases)
    case (3 v st r)
    with d(2) [OF 3] show ?thesis by (simp add: amf0_decode_def)
  qed (use d(1) [of amf0_decoder_new] in \<open>simp_all add: amf0_decode_def\<close>)
qed

lemma amf0_decode_all_total: "\<exists>r. amf0_decode_all b = Some r"
proof (induction b rule: amf0_decode_all.induct)
  case (1 b)
  obtain r where r: "amf0_decode b = Some r" "\<And>n v. r = Inr (n, v) \<Longrightarrow> 0 < n \<and> n \<le> length b"
    using amf0_decode_total by blast
  show ?case
  proof (cases r)
    case (Inl e)
    with r show ?thesis by (simp add: amf0_decode_all.simps [of b])
  next
    case (Inr nv)
    obtain n v where nv: "nv = (n, v)" by fastforce
    show ?thesis
    proof (cases "b = []")
      case False
      have n: "0 < n" using r(2) Inr nv by simp
      have e: "amf0_decode b = Some (Inr (n, v))" using r(1) Inr nv by simp
      obtain q where q: "amf0_decode_all (drop n b) = Some q"
        using 1 [OF False e refl refl n] by blast
      show ?thesis
        using False e q n by (simp add: amf0_decode_all.simps [of b] split: sum.splits)
    qed (simp add: amf0_decode_all.simps)
  qed
qed

section \<open>No references\<close>

text \<open>The encoding without the reference table.\<close>

fun amf0_plain :: "amf0_value \<Rightarrow> bytes option" where
  "amf0_plain (A0Object class_name entries) =
     ocat ([Some (amf0_object_head class_name)]
       @ map (\<lambda>e. ocat [Some (amf0_encode_key (fst e)), amf0_plain (snd e)]) entries
       @ [Some (write_u16 0 @ write_u8 0x09)])"
| "amf0_plain (A0EcmaArray entries) =
     ocat ([Some (write_u8 0x08 @ write_u32 (of_nat (length entries)))]
       @ map (\<lambda>e. ocat [Some (amf0_encode_key (fst e)), amf0_plain (snd e)]) entries
       @ [Some (write_u16 0 @ write_u8 0x09)])"
| "amf0_plain (A0Array entries) =
     ocat (Some (write_u8 0x0A @ write_u32 (of_nat (length entries))) # map amf0_plain entries)"
| "amf0_plain (A0Date ms) = Some (amf0_encode_date ms)"
| "amf0_plain (A0Number n) = Some (amf0_encode_number n)"
| "amf0_plain (A0Boolean b) = Some (amf0_encode_boolean b)"
| "amf0_plain (A0String s) = Some (amf0_encode_string s)"
| "amf0_plain A0Null = Some (write_u8 0x05)"
| "amf0_plain A0Undefined = Some (write_u8 0x06)"
| "amf0_plain (A0XmlDocument s) = Some (amf0_encode_xml_document s)"
| "amf0_plain (A0AvmPlus v) = amf0_encode_avmplus v"

lemma ocat_Nil [simp]: "ocat [] = Some []"
  by (simp add: ocat_def)

lemma ocat_Cons: "ocat (x # xs) = (case x of None \<Rightarrow> None | Some w \<Rightarrow> map_option (\<lambda>ws. w @ ws) (ocat xs))"
  by (auto simp: ocat_def option.map_comp o_def split: option.splits)

lemma ocat_append: "ocat (xs @ ys) = (case ocat xs of None \<Rightarrow> None | Some w \<Rightarrow> map_option (\<lambda>ws. w @ ws) (ocat ys))"
  by (induction xs; cases "ocat ys") (auto simp: ocat_Cons split: option.splits)

lemma ocat_flat: "ocat (ocat xs # ys) = ocat (xs @ ys)"
  by (simp add: ocat_Cons ocat_append)

lemma ocat_single [simp]: "ocat [x] = x"
  by (simp add: ocat_Cons split: option.splits)

lemma ocat_nested: "ocat [x, ocat ys] = ocat (x # ys)"
  and ocat_nested_pair: "ocat [x, y, ocat ys] = ocat (ocat [x, y] # ys)"
  by (cases x; cases y; cases "ocat ys"; simp add: ocat_Cons)+

text \<open>
  \<open>below p q\<close>: the address \<open>q\<close> lies in the subtree at \<open>p\<close>. While the subtree at \<open>p\<close> is encoded, the table
  only gains addresses in it; before, it had none.
\<close>

definition below :: "address \<Rightarrow> address \<Rightarrow> bool" where
  "below p q \<longleftrightarrow> (\<exists>r. q = p @ r)"

definition gains :: "address list \<Rightarrow> address list \<Rightarrow> (address \<Rightarrow> bool) \<Rightarrow> bool" where
  "gains cs cs' P \<longleftrightarrow> (\<forall>q \<in> set cs'. q \<in> set cs \<or> P q)"

lemma position_None: "x \<notin> set xs \<Longrightarrow> position x xs = None"
  by (induction xs) auto

lemma amf0_encode_complex_fresh:
  assumes "p \<notin> set cs"
    and "\<And>cs'. set cs' \<subseteq> insert p (set cs) \<Longrightarrow> fst (f cs') = w \<and> gains cs' (snd (f cs')) P" and "P p"
  shows "fst (amf0_encode_complex p f cs) = w \<and> gains cs (snd (amf0_encode_complex p f cs)) P"
  using assms(2) [of cs] assms(2) [of "cs @ [p]"] assms(3)
  by (auto simp: amf0_encode_complex_def position_None [OF assms(1)] gains_def)

lemma below_child: "below (p @ [i]) q \<Longrightarrow> below p q"
  and below_child_neq: "\<not> below (p @ [i]) p"
  and below_siblings: "below (p @ [i]) q \<Longrightarrow> below (p @ [j]) q \<Longrightarrow> i = j"
  and below_refl: "below p p"
  by (auto simp: below_def)

lemma amf0_encode_plain:
  "(\<forall>q \<in> set cs. \<not> below ptr q) \<Longrightarrow>
     fst (amf0_encode_value ptr v cs) = amf0_plain v
     \<and> gains cs (snd (amf0_encode_value ptr v cs)) (below ptr)"
  "(\<forall>q \<in> set cs. \<forall>j \<ge> i. \<not> below (ptr @ [j]) q) \<Longrightarrow>
     fst (amf0_encode_values ptr i vs cs) = ocat (map amf0_plain vs)
     \<and> gains cs (snd (amf0_encode_values ptr i vs cs)) (\<lambda>q. \<exists>j \<ge> i. below (ptr @ [j]) q)"
  "(\<forall>q \<in> set cs. \<forall>j \<ge> i. \<not> below (ptr @ [j]) q) \<Longrightarrow>
     fst (amf0_encode_pairs ptr i ps cs) =
       ocat (map (\<lambda>e. ocat [Some (amf0_encode_key (fst e)), amf0_plain (snd e)]) ps
             @ [Some (write_u16 0 @ write_u8 0x09)])
     \<and> gains cs (snd (amf0_encode_pairs ptr i ps cs)) (\<lambda>q. \<exists>j \<ge> i. below (ptr @ [j]) q)"
proof (induction ptr v cs and ptr i vs cs and ptr i ps cs
    rule: amf0_encode_value_amf0_encode_values_amf0_encode_pairs.induct)
  case (1 ptr class_name entries cs)
  have np: "ptr \<notin> set cs" using 1(2) below_refl by blast
  show ?case
    unfolding amf0_encode_value.simps
  proof (rule amf0_encode_complex_fresh [OF np _ below_refl])
    fix cs' assume "set cs' \<subseteq> insert ptr (set cs)"
    then have "\<forall>q \<in> set cs'. \<forall>j \<ge> 0. \<not> below (ptr @ [j]) q"
      using 1(2) below_child below_child_neq by blast
    from 1(1) [OF this] show "fst (prefix_bytes (amf0_object_head class_name) (amf0_encode_pairs ptr 0 entries cs'))
        = amf0_plain (A0Object class_name entries)
      \<and> gains cs' (snd (prefix_bytes (amf0_object_head class_name) (amf0_encode_pairs ptr 0 entries cs'))) (below ptr)"
      by (auto simp: prefix_bytes_def ocat_nested gains_def dest: below_child)
  qed
next
  case (2 ptr entries cs)
  have np: "ptr \<notin> set cs" using 2(2) below_refl by blast
  show ?case
    unfolding amf0_encode_value.simps
  proof (rule amf0_encode_complex_fresh [OF np _ below_refl])
    fix cs' assume "set cs' \<subseteq> insert ptr (set cs)"
    then have "\<forall>q \<in> set cs'. \<forall>j \<ge> 0. \<not> below (ptr @ [j]) q"
      using 2(2) below_child below_child_neq by blast
    from 2(1) [OF this] show "fst (prefix_bytes (write_u8 0x08 @ write_u32 (of_nat (length entries)))
        (amf0_encode_pairs ptr 0 entries cs')) = amf0_plain (A0EcmaArray entries)
      \<and> gains cs' (snd (prefix_bytes (write_u8 0x08 @ write_u32 (of_nat (length entries)))
        (amf0_encode_pairs ptr 0 entries cs'))) (below ptr)"
      by (auto simp: prefix_bytes_def ocat_nested gains_def dest: below_child)
  qed
next
  case (3 ptr entries cs)
  have np: "ptr \<notin> set cs" using 3(2) below_refl by blast
  show ?case
    unfolding amf0_encode_value.simps
  proof (rule amf0_encode_complex_fresh [OF np _ below_refl])
    fix cs' assume "set cs' \<subseteq> insert ptr (set cs)"
    then have "\<forall>q \<in> set cs'. \<forall>j \<ge> 0. \<not> below (ptr @ [j]) q"
      using 3(2) below_child below_child_neq by blast
    from 3(1) [OF this] show "fst (prefix_bytes (write_u8 0x0A @ write_u32 (of_nat (length entries)))
        (amf0_encode_values ptr 0 entries cs')) = amf0_plain (A0Array entries)
      \<and> gains cs' (snd (prefix_bytes (write_u8 0x0A @ write_u32 (of_nat (length entries)))
        (amf0_encode_values ptr 0 entries cs'))) (below ptr)"
      by (auto simp: prefix_bytes_def ocat_nested gains_def dest: below_child)
  qed
next
  case (4 ptr ms cs)
  have np: "ptr \<notin> set cs" using 4 below_refl by blast
  show ?case
    unfolding amf0_encode_value.simps
    by (rule amf0_encode_complex_fresh [OF np _ below_refl]) (simp add: gains_def)
next
  case (13 ptr i v vs cs)
  obtain b cs1 where e1: "amf0_encode_value (ptr @ [i]) v cs = (b, cs1)" by fastforce
  obtain bs cs2 where e2: "amf0_encode_values ptr (Suc i) vs cs1 = (bs, cs2)" by fastforce
  from 13(1) 13(3) e1 have h1: "b = amf0_plain v" "gains cs cs1 (below (ptr @ [i]))" by auto
  have "\<forall>q \<in> set cs1. \<forall>j \<ge> Suc i. \<not> below (ptr @ [j]) q"
    using h1(2) 13(3) below_siblings unfolding gains_def by (metis Suc_leD Suc_n_not_le_n)
  with 13(2) [OF e1 [symmetric] refl] e2
  have "bs = ocat (map amf0_plain vs)" "gains cs1 cs2 (\<lambda>q. \<exists>j \<ge> Suc i. below (ptr @ [j]) q)" by auto
  with e1 e2 h1 show ?case
    by (simp add: ocat_nested gains_def) (meson Suc_leD order_refl)
next
  case (15 ptr i k v ps cs)
  obtain b cs1 where e1: "amf0_encode_value (ptr @ [i]) v cs = (b, cs1)" by fastforce
  obtain bs cs2 where e2: "amf0_encode_pairs ptr (Suc i) ps cs1 = (bs, cs2)" by fastforce
  from 15(1) 15(3) e1 have h1: "b = amf0_plain v" "gains cs cs1 (below (ptr @ [i]))" by auto
  have "\<forall>q \<in> set cs1. \<forall>j \<ge> Suc i. \<not> below (ptr @ [j]) q"
    using h1(2) 15(3) below_siblings unfolding gains_def by (metis Suc_leD Suc_n_not_le_n)
  with 15(2) [OF e1 [symmetric] refl] e2
  have h2: "bs = ocat (map (\<lambda>e. ocat [Some (amf0_encode_key (fst e)), amf0_plain (snd e)]) ps
             @ [Some (write_u16 0 @ write_u8 0x09)])"
    "gains cs1 cs2 (\<lambda>q. \<exists>j \<ge> Suc i. below (ptr @ [j]) q)" by auto
  have "gains cs cs2 (\<lambda>q. \<exists>j \<ge> i. below (ptr @ [j]) q)"
    using h1(2) h2(2) unfolding gains_def by (meson Suc_leD order_refl)
  with e1 e2 h1 h2(1) show ?case
    by (simp add: ocat_nested_pair)
qed (auto simp: gains_def)

lemma amf0_encode_eq_plain: "amf0_encode v = amf0_plain v"
  using amf0_encode_plain(1) [of "[]" "[]" v] by (simp add: amf0_encode_def)

lemma amf0_encode_all_eq_plain: "amf0_encode_all vs = ocat (map amf0_plain vs)"
  using amf0_encode_plain(2) [of "[]" 0 "[]" vs] by (simp add: amf0_encode_all_def)

section \<open>Reading back\<close>

definition key_ok :: "string \<Rightarrow> bool" where
  "key_ok s \<longleftrightarrow> valid_string s \<and> length s \<le> 0xFFFF"

definition text_ok :: "string \<Rightarrow> bool" where
  "text_ok s \<longleftrightarrow> valid_string s \<and> length s < 2 ^ 32"

fun amf0_wf :: "amf0_value \<Rightarrow> bool" where
  "amf0_wf (A0String s) \<longleftrightarrow> text_ok s"
| "amf0_wf (A0XmlDocument s) \<longleftrightarrow> text_ok s"
| "amf0_wf (A0Date ms) \<longleftrightarrow> \<bar>ms\<bar> < 2 ^ 53"
| "amf0_wf (A0Object class_name entries) \<longleftrightarrow>
     (case class_name of None \<Rightarrow> True | Some c \<Rightarrow> key_ok c)
     \<and> (\<forall>e \<in> set entries. key_ok (fst e) \<and> amf0_wf (snd e))"
| "amf0_wf (A0EcmaArray entries) \<longleftrightarrow> (\<forall>e \<in> set entries. key_ok (fst e) \<and> amf0_wf (snd e))"
| "amf0_wf (A0Array entries) \<longleftrightarrow> length entries < 2 ^ 32 \<and> (\<forall>v \<in> set entries. amf0_wf v)"
| "amf0_wf (A0AvmPlus v) \<longleftrightarrow> amf3_wf v"
| "amf0_wf _ \<longleftrightarrow> True"

definition W0 :: "amf0_value \<Rightarrow> bytes" where "W0 v = the (amf0_plain v)"

definition readable0 :: "amf0_value \<Rightarrow> bool" where
  "readable0 v \<longleftrightarrow>
     amf0_plain v = Some (W0 v) \<and> W0 v \<noteq> [] \<and> hd (W0 v) \<noteq> 0x09
     \<and> (\<forall>n. length (W0 v) < n \<longrightarrow> preads (amf0_decode_value n) (W0 v) v)"

lemma preads_value0:
  assumes "preads (\<lambda>s b. amf0_dispatch (amf0_decode_value n) (amf0_decode_pairs n (amf0_decode_value n)) m s b) w v"
  shows "preads (amf0_decode_value (Suc n)) (m # w) v"
proof -
  have "preads (\<lambda>s b. pbind (pread read_u8 s b) (\<lambda>marker st buf.
      amf0_dispatch (amf0_decode_value n) (amf0_decode_pairs n (amf0_decode_value n)) marker st buf)) ([m] @ w) v"
    by (rule preads_bind [where ?v1.0 = m]) (simp_all add: preads_pread assms)
  then show ?thesis by (simp add: amf0_decode_value.simps(2) [abs_def])
qed

lemma readable0I:
  assumes "amf0_plain v = Some (m # w)" and "m \<noteq> 0x09"
    and "\<And>n. length w < n \<Longrightarrow>
      preads (\<lambda>s b. amf0_dispatch (amf0_decode_value n) (amf0_decode_pairs n (amf0_decode_value n)) m s b) w v"
  shows "readable0 v"
  unfolding readable0_def
proof (intro conjI allI impI)
  show "amf0_plain v = Some (W0 v)" "W0 v \<noteq> []" "hd (W0 v) \<noteq> 0x09" using assms(1,2) by (simp_all add: W0_def)
  fix n assume "length (W0 v) < n"
  then obtain k where "n = Suc k" "length w < k" using assms(1) by (cases n) (auto simp: W0_def)
  then show "preads (amf0_decode_value n) (W0 v) v"
    using preads_value0 [OF assms(3)] assms(1) by (simp add: W0_def)
qed

lemma readable0D:
  "readable0 v \<Longrightarrow> length (W0 v) < n \<Longrightarrow> preads (amf0_decode_value n) (W0 v) v"
  "readable0 v \<Longrightarrow> amf0_plain v = Some (W0 v)"
  by (simp_all add: readable0_def)

lemma unat_of_nat_len:
  "n \<le> 0xFFFF \<Longrightarrow> unat (of_nat n :: u16) = n"
  "n < 2 ^ 32 \<Longrightarrow> unat (of_nat n :: u32) = n"
  by (simp_all add: unat_of_nat)

lemma preads_text:
  assumes "valid_string s" and "\<And>r. rd (w @ r) = Inr (n, r)" and "unat n = length s"
  shows "preads (\<lambda>st buf. pbind (pread rd st buf) (\<lambda>len st buf.
     pbind (pread (read_utf8 (unat len)) st buf) (\<lambda>s st buf. pret (f s) st buf)))
     (w @ bytes_of_string s) (f s)"
  by (rule preads_bind [where ?v1.0 = n], rule preads_pread, rule assms(2), rule preads_map,
      rule preads_pread) (use assms in simp)

lemma preads_complex0:
  assumes "preads f w v"
  shows "preads (\<lambda>s b. amf0_decode_complex_type f s b) w v"
proof (rule preadsI)
  fix st :: amf0_decoder and r
  from assms obtain s' where
    "f (st\<lparr>a0_complexes := a0_complexes st @ [A0Null],
           a0_decoding := insert (length (a0_complexes st)) (a0_decoding st)\<rparr>) (w @ r) = Some (Inr (v, s', r))"
    unfolding preads_def by blast
  then show "\<exists>s'. amf0_decode_complex_type f st (w @ r) = Some (Inr (v, s', r))"
    by (simp add: amf0_decode_complex_type_def Let_def pret_def)
qed

lemma readable0_scalars:
  "readable0 (A0Number x)" "readable0 (A0Boolean b)" "readable0 A0Null" "readable0 A0Undefined"
proof -
  show "readable0 (A0Number x)"
    by (rule readable0I [where m = "0x00" and w = "write_f64 x"])
      (simp_all add: amf0_encode_number_def amf0_dispatch_def amf0_decode_number_def write_u8_def
        preads_map [OF preads_pread])
  have r: "preads (\<lambda>s buf. pread read_u8 s buf) [x] x" for x by (rule preads_pread) simp
  have "preads (\<lambda>s buf. amf0_decode_boolean s buf) [if b then 1 else 0] (A0Boolean b)"
    unfolding amf0_decode_boolean_def
    using preads_map [OF r [of 1], where f = "\<lambda>x. A0Boolean (x \<noteq> 0)"]
      preads_map [OF r [of 0], where f = "\<lambda>x. A0Boolean (x \<noteq> 0)"] by (cases b) simp_all
  then show "readable0 (A0Boolean b)"
    by (intro readable0I [where m = "0x01" and w = "[if b then 1 else 0]"])
      (simp_all add: amf0_encode_boolean_def amf0_dispatch_def write_u8_def)
  show "readable0 A0Null"
    by (rule readable0I [where m = "0x05" and w = "[]"]) (simp_all add: amf0_dispatch_def preads_pret write_u8_def)
  show "readable0 A0Undefined"
    by (rule readable0I [where m = "0x06" and w = "[]"]) (simp_all add: amf0_dispatch_def preads_pret write_u8_def)
qed

lemma readable0_strings:
  assumes "text_ok s"
  shows "readable0 (A0String s)" "readable0 (A0XmlDocument s)"
proof -
  have v: "valid_string s" and l: "unat (of_nat (length s) :: u32) = length s"
    using assms by (simp_all add: text_ok_def unat_of_nat_len)
  note long = preads_text [OF v read_u32_write l]
  show "readable0 (A0XmlDocument s)"
    by (rule readable0I [where m = "0x0F" and w = "write_u32 (of_nat (length s)) @ bytes_of_string s"])
      (simp_all add: amf0_encode_xml_document_def amf0_dispatch_def amf0_decode_xml_document_def
        write_u8_def long)
  show "readable0 (A0String s)"
  proof (cases "length s \<le> 0xFFFF")
    case True
    note short = preads_text [OF v read_u16_write unat_of_nat_len(1) [OF True]]
    show ?thesis
      by (rule readable0I [where m = "0x02" and w = "write_u16 (of_nat (length s)) @ bytes_of_string s"])
        (use True in \<open>simp_all add: amf0_encode_string_def amf0_dispatch_def amf0_decode_string_def
          write_u8_def short\<close>)
  next
    case False
    then show ?thesis
      by (intro readable0I [where m = "0x0C" and w = "write_u32 (of_nat (length s)) @ bytes_of_string s"])
        (simp_all add: amf0_encode_string_def amf0_dispatch_def amf0_decode_long_string_def
          write_u8_def long)
  qed
qed

lemma readable0_date:
  assumes "\<bar>ms\<bar> < 2 ^ 53"
  shows "readable0 (A0Date ms)"
proof -
  let ?d = "i64_as_f64 ms"
  let ?w = "write_f64 ?d @ write_u16 0 @ []"
  have v: "(if f64_is_zero ?d then 0 else f64_as_i64 ?d) = ms"
    using assms by (auto simp: f64_as_i64_exact f64_is_zero_def i64_as_f64_exact)
  have z: "preads (\<lambda>st buf. pread read_u16 st buf) (write_u16 0) 0" by (rule preads_pread) simp
  have "preads (\<lambda>st buf. pbind (pread read_u16 st buf) (\<lambda>_ st buf.
         if \<not> f64_is_finite ?d then pfail InvalidData st buf
         else pret (A0Date (if f64_is_zero ?d then 0 else f64_as_i64 ?d)) st buf)) (write_u16 0 @ []) (A0Date ms)"
    by (rule preads_bind [OF z]) (use assms v in \<open>simp_all add: preads_pret i64_as_f64_exact\<close>)
  then have "preads (\<lambda>s b. amf0_decode_date s b) ?w (A0Date ms)"
    unfolding amf0_decode_date_def
    by (intro preads_complex0, intro preads_bind [where ?v1.0 = ?d]) (simp_all add: preads_pread)
  then show ?thesis
    by (intro readable0I [where m = "0x0B" and w = ?w])
      (simp_all add: amf0_encode_date_def amf0_dispatch_def write_u8_def)
qed

lemma readable0_avmplus:
  assumes "amf3_wf v"
  shows "readable0 (A0AvmPlus v)"
proof -
  obtain w where e: "amf3_encode v = Some w" and d: "\<And>r. amf3_decode (w @ r) = Some (Inr (length w, v))"
    using amf3_decode_encode [OF assms] by (metis option.inject)
  have "preads (\<lambda>s b. amf0_decode_avmplus s b) w (A0AvmPlus v)"
    by (rule preadsI) (simp add: amf0_decode_avmplus_def d pret_def)
  then show ?thesis
    by (intro readable0I [where m = "0x11" and w = w])
      (simp_all add: amf0_encode_avmplus_def ocat_Cons e amf0_dispatch_def write_u8_def)
qed

definition pair0_bytes :: "string \<times> amf0_value \<Rightarrow> bytes" where
  "pair0_bytes e = amf0_encode_key (fst e) @ W0 (snd e)"

definition pairs0_bytes :: "(string \<times> amf0_value) list \<Rightarrow> bytes" where
  "pairs0_bytes es = concat (map pair0_bytes es) @ write_u16 0 @ write_u8 0x09"

text \<open>A key is read back before anything; what the loop then does is its continuation \<open>k\<close>.\<close>

lemma preads_key:
  assumes "key_ok s" and "preads (k s) w v"
  shows "preads (\<lambda>st buf. pbind (pread read_u16 st buf) (\<lambda>len st buf.
     pbind (pread (read_utf8 (unat len)) st buf) (\<lambda>s st buf. k s st buf))) (amf0_encode_key s @ w) v"
proof -
  have n: "unat (of_nat (length s) :: u16) = length s" using assms(1) by (simp add: key_ok_def unat_of_nat_len)
  have u: "preads (\<lambda>st buf. pread read_u16 st buf) (write_u16 (of_nat (length s))) (of_nat (length s))"
    by (rule preads_pread) simp
  have t: "preads (\<lambda>st buf. pread (read_utf8 (length s)) st buf) (bytes_of_string s) s"
    by (rule preads_pread) (use assms(1) in \<open>simp add: key_ok_def\<close>)
  have "preads (\<lambda>st buf. pbind (pread (read_utf8 (unat (of_nat (length s) :: u16))) st buf)
      (\<lambda>s st buf. k s st buf)) (bytes_of_string s @ w) v"
    unfolding n by (rule preads_bind [where k = k, OF t assms(2)])
  from preads_bind [where k = "\<lambda>len st buf. pbind (pread (read_utf8 (unat len)) st buf) (\<lambda>s st buf. k s st buf)", OF u this]
  show ?thesis by (simp add: amf0_encode_key_def)
qed

lemma key_ok_Nil [simp]: "key_ok []"
  by (simp add: key_ok_def valid_string_def bytes_of_string_def)

lemma preads_nonempty_if:
  assumes "preads q w v" and "w \<noteq> []" and "hd w \<noteq> x"
  shows "preads (\<lambda>st buf. if get_at buf 0 = Some x then p st buf else q st buf) w v"
proof -
  have "get_at (w @ r) 0 \<noteq> Some x" for r using assms(2,3) by (cases w) auto
  with assms(1) show ?thesis by (simp add: preads_def)
qed

lemma preads_pairs0:
  assumes "\<forall>e \<in> set es. key_ok (fst e) \<and> W0 (snd e) \<noteq> [] \<and> hd (W0 (snd e)) \<noteq> 0x09 \<and> preads dv (W0 (snd e)) (snd e)"
    and "length es < n"
  shows "preads (amf0_decode_pairs n dv) (pairs0_bytes es) es"
  using assms
proof (induction es arbitrary: n)
  case Nil
  then obtain m where n: "n = Suc m" by (cases n) auto
  have e: "write_u16 0 = amf0_encode_key []" by (simp add: amf0_encode_key_def bytes_of_string_def)
  have "preads (\<lambda>st buf. if get_at buf 0 = Some 0x09 then
         pbind (pread read_u8 st buf) (\<lambda>_ st buf. pret [] st buf)
       else pbind (dv st buf) (\<lambda>v st buf.
         pbind (amf0_decode_pairs m dv st buf) (\<lambda>ps st buf. pret (([], v) # ps) st buf))) (write_u8 0x09) []"
    by (rule preadsI) (simp add: write_u8_def pread_def pret_def)
  from preads_key [where k = "\<lambda>s st buf. if get_at buf 0 = Some 0x09 then
         pbind (pread read_u8 st buf) (\<lambda>_ st buf. pret [] st buf)
       else pbind (dv st buf) (\<lambda>v st buf.
         pbind (amf0_decode_pairs m dv st buf) (\<lambda>ps st buf. pret ((s, v) # ps) st buf))", OF key_ok_Nil this] show ?case
    by (simp add: n pairs0_bytes_def e)
next
  case (Cons e es)
  then obtain m where n: "n = Suc m" "length es < m" by (cases n) auto
  obtain k v where e: "e = (k, v)" by fastforce
  have ih: "preads (amf0_decode_pairs m dv) (pairs0_bytes es) es"
    using Cons.IH [of m] Cons.prems(1) n(2) by simp
  have k: "key_ok k" "W0 v \<noteq> []" "hd (W0 v) \<noteq> 0x09" "preads dv (W0 v) v" using Cons.prems(1) e by auto
  have "preads (\<lambda>st buf. pbind (dv st buf) (\<lambda>v st buf.
         pbind (amf0_decode_pairs m dv st buf) (\<lambda>ps st buf. pret ((k, v) # ps) st buf)))
      (W0 v @ pairs0_bytes es @ []) ((k, v) # es)"
    by (intro preads_bind [OF k(4)] preads_bind [OF ih] preads_pret)
  then have "preads (\<lambda>st buf. if get_at buf 0 = Some 0x09 then
         pbind (pread read_u8 st buf) (\<lambda>_ st buf. pret [] st buf)
       else pbind (dv st buf) (\<lambda>v st buf.
         pbind (amf0_decode_pairs m dv st buf) (\<lambda>ps st buf. pret ((k, v) # ps) st buf)))
      (W0 v @ pairs0_bytes es @ []) ((k, v) # es)"
    by (rule preads_nonempty_if) (use k in simp_all)
  from preads_key [where k = "\<lambda>s st buf. if get_at buf 0 = Some 0x09 then
         pbind (pread read_u8 st buf) (\<lambda>_ st buf. pret [] st buf)
       else pbind (dv st buf) (\<lambda>v st buf.
         pbind (amf0_decode_pairs m dv st buf) (\<lambda>ps st buf. pret ((s, v) # ps) st buf))", OF k(1) this] show ?case
    by (simp add: n e pairs0_bytes_def pair0_bytes_def)
qed

lemma readable0_pairs:
  assumes "\<And>e. e \<in> set es \<Longrightarrow> key_ok (fst e) \<and> readable0 (snd e)" and "length (pairs0_bytes es) < n"
  shows "preads (amf0_decode_pairs n (amf0_decode_value n)) (pairs0_bytes es) es"
proof (rule preads_pairs0)
  have l: "length (concat (map pair0_bytes es)) < n" using assms(2) by (simp add: pairs0_bytes_def)
  show "\<forall>e \<in> set es. key_ok (fst e) \<and> W0 (snd e) \<noteq> [] \<and> hd (W0 (snd e)) \<noteq> 0x09
      \<and> preads (amf0_decode_value n) (W0 (snd e)) (snd e)"
  proof
    fix e assume e: "e \<in> set es"
    then have "length (pair0_bytes e) \<le> length (concat (map pair0_bytes es))"
      by (intro length_concat_member) simp
    then have "length (W0 (snd e)) < n" using l by (simp add: pair0_bytes_def)
    with assms(1) [OF e] show "key_ok (fst e) \<and> W0 (snd e) \<noteq> [] \<and> hd (W0 (snd e)) \<noteq> 0x09
      \<and> preads (amf0_decode_value n) (W0 (snd e)) (snd e)"
      by (simp add: readable0_def)
  qed
  have "length (map pair0_bytes es) \<le> length (concat (map pair0_bytes es))"
    by (intro length_le_concat) (auto simp: pair0_bytes_def amf0_encode_key_def write_defs nat_to_be_numeral to_be_def)
  with l show "length es < n" by simp
qed

lemma amf0_plain_pairs:
  assumes "\<And>e. e \<in> set es \<Longrightarrow> readable0 (snd e)"
  shows "ocat ([Some h] @ map (\<lambda>e. ocat [Some (amf0_encode_key (fst e)), amf0_plain (snd e)]) es
       @ [Some (write_u16 0 @ write_u8 0x09)]) = Some (h @ pairs0_bytes es)"
proof -
  have m: "map (\<lambda>e. ocat [Some (amf0_encode_key (fst e)), amf0_plain (snd e)]) es = map (\<lambda>e. Some (pair0_bytes e)) es"
    using assms by (auto simp: ocat_Cons pair0_bytes_def readable0D(2))
  have c: "ocat (map (\<lambda>e. Some (f e)) es) = Some (concat (map f es))" for f :: "string \<times> amf0_value \<Rightarrow> bytes"
    by (induction es) (simp_all add: ocat_Cons)
  show ?thesis unfolding m by (simp add: ocat_Cons ocat_append c pairs0_bytes_def)
qed

lemma readable0_ecma_array:
  assumes "\<And>e. e \<in> set es \<Longrightarrow> key_ok (fst e) \<and> readable0 (snd e)"
  shows "readable0 (A0EcmaArray es)"
proof (rule readable0I [where m = "0x08" and w = "write_u32 (of_nat (length es)) @ pairs0_bytes es"])
  show "amf0_plain (A0EcmaArray es) = Some (0x08 # write_u32 (of_nat (length es)) @ pairs0_bytes es)"
    using amf0_plain_pairs [of es] assms by (simp add: write_u8_def)
  fix n assume "length (write_u32 (of_nat (length es)) @ pairs0_bytes es) < n"
  then have p: "preads (amf0_decode_pairs n (amf0_decode_value n)) (pairs0_bytes es) es"
    by (intro readable0_pairs assms) simp_all
  have "preads (\<lambda>s b. amf0_decode_ecma_array (amf0_decode_pairs n (amf0_decode_value n)) s b)
      (write_u32 (of_nat (length es)) @ pairs0_bytes es) (A0EcmaArray es)"
    unfolding amf0_decode_ecma_array_def
    by (rule preads_complex0, rule preads_bind, rule preads_pread, rule read_u32_write, rule preads_map, rule p)
  then show "preads (\<lambda>s b. amf0_dispatch (amf0_decode_value n) (amf0_decode_pairs n (amf0_decode_value n)) 0x08 s b)
      (write_u32 (of_nat (length es)) @ pairs0_bytes es) (A0EcmaArray es)"
    by (simp add: amf0_dispatch_def)
qed simp

lemma readable0_array:
  assumes "length es < 2 ^ 32" and "\<And>v. v \<in> set es \<Longrightarrow> readable0 v"
  shows "readable0 (A0Array es)"
proof (rule readable0I [where m = "0x0A" and w = "write_u32 (of_nat (length es)) @ concat (map W0 es)"])
  have "ocat (map amf0_plain es) = Some (concat (map W0 es))"
    using assms(2) by (induction es) (simp_all add: ocat_Cons readable0D(2))
  then show "amf0_plain (A0Array es) = Some (0x0A # write_u32 (of_nat (length es)) @ concat (map W0 es))"
    by (simp add: ocat_Cons write_u8_def)
  fix n assume l: "length (write_u32 (of_nat (length es)) @ concat (map W0 es)) < n"
  have "preads (\<lambda>s b. prepeat (length es) (amf0_decode_value n) s b) (concat (map W0 es)) es"
  proof (rule preads_repeat_map, rule readable0D(1))
    fix v assume v: "v \<in> set es"
    then have "length (W0 v) \<le> length (concat (map W0 es))" by (intro length_concat_member) simp
    with l show "length (W0 v) < n" by simp
    from v show "readable0 v" by (rule assms(2))
  qed
  then have p: "preads (\<lambda>s b. prepeat (unat (of_nat (length es) :: u32)) (amf0_decode_value n) s b) (concat (map W0 es)) es"
    using assms(1) by (simp add: unat_of_nat_len)
  have "preads (\<lambda>s b. amf0_decode_strict_array (amf0_decode_value n) s b)
      (write_u32 (of_nat (length es)) @ concat (map W0 es)) (A0Array es)"
    unfolding amf0_decode_strict_array_def
    by (rule preads_complex0, rule preads_bind, rule preads_pread, rule read_u32_write, rule preads_map, rule p)
  then show "preads (\<lambda>s b. amf0_dispatch (amf0_decode_value n) (amf0_decode_pairs n (amf0_decode_value n)) 0x0A s b)
      (write_u32 (of_nat (length es)) @ concat (map W0 es)) (A0Array es)"
    by (simp add: amf0_dispatch_def)
qed simp

lemma readable0_object:
  assumes "\<And>e. e \<in> set es \<Longrightarrow> key_ok (fst e) \<and> readable0 (snd e)"
  shows "readable0 (A0Object None es)"
proof (rule readable0I [where m = "0x03" and w = "pairs0_bytes es"])
  show "amf0_plain (A0Object None es) = Some (0x03 # pairs0_bytes es)"
    using amf0_plain_pairs [of es] assms by (simp add: amf0_object_head_def write_u8_def)
  fix n assume "length (pairs0_bytes es) < n"
  then have p: "preads (amf0_decode_pairs n (amf0_decode_value n)) (pairs0_bytes es) es"
    by (intro readable0_pairs assms) simp_all
  have "preads (\<lambda>s b. amf0_decode_object (amf0_decode_pairs n (amf0_decode_value n)) s b) (pairs0_bytes es) (A0Object None es)"
    unfolding amf0_decode_object_def by (rule preads_complex0, rule preads_map, rule p)
  then show "preads (\<lambda>s b. amf0_dispatch (amf0_decode_value n) (amf0_decode_pairs n (amf0_decode_value n)) 0x03 s b)
      (pairs0_bytes es) (A0Object None es)"
    by (simp add: amf0_dispatch_def)
qed simp

lemma readable0_typed_object:
  assumes "key_ok c" and "\<And>e. e \<in> set es \<Longrightarrow> key_ok (fst e) \<and> readable0 (snd e)"
  shows "readable0 (A0Object (Some c) es)"
proof (rule readable0I [where m = "0x10" and w = "amf0_encode_key c @ pairs0_bytes es"])
  show "amf0_plain (A0Object (Some c) es) = Some (0x10 # amf0_encode_key c @ pairs0_bytes es)"
    using amf0_plain_pairs [of es] assms by (simp add: amf0_object_head_def write_u8_def amf0_encode_key_def)
  fix n assume "length (amf0_encode_key c @ pairs0_bytes es) < n"
  then have p: "preads (amf0_decode_pairs n (amf0_decode_value n)) (pairs0_bytes es) es"
    by (intro readable0_pairs assms) simp_all
  have "preads (\<lambda>s b. amf0_decode_typed_object (amf0_decode_pairs n (amf0_decode_value n)) s b)
      (amf0_encode_key c @ pairs0_bytes es) (A0Object (Some c) es)"
    unfolding amf0_decode_typed_object_def
    by (rule preads_complex0, rule preads_key [OF assms(1)], rule preads_map, rule p)
  then show "preads (\<lambda>s b. amf0_dispatch (amf0_decode_value n) (amf0_decode_pairs n (amf0_decode_value n)) 0x10 s b)
      (amf0_encode_key c @ pairs0_bytes es) (A0Object (Some c) es)"
    by (simp add: amf0_dispatch_def)
qed simp

lemma amf0_wf_readable: "amf0_wf v \<Longrightarrow> readable0 v"
proof (induction v rule: amf0_wf.induct)
  case (4 class_name entries)
  then show ?case by (cases class_name) (auto intro!: readable0_object readable0_typed_object)
next
  case (5 entries)
  then show ?case by (intro readable0_ecma_array) auto
next
  case (6 entries)
  then show ?case by (intro readable0_array) auto
qed (auto intro: readable0_strings readable0_date readable0_avmplus readable0_scalars)

lemma amf0_decode_W0:
  assumes "amf0_wf v"
  shows "amf0_decode (W0 v @ r) = Some (Inr (length (W0 v), v))"
proof -
  have "preads (amf0_decode_value (Suc (length (W0 v @ r)))) (W0 v) v"
    using amf0_wf_readable [OF assms] by (simp add: readable0_def)
  then obtain s' where "amf0_decode_value (Suc (length (W0 v @ r))) amf0_decoder_new (W0 v @ r) = Some (Inr (v, s', r))"
    unfolding preads_def by blast
  then show ?thesis by (simp add: amf0_decode_def)
qed

lemma amf0_decode_encode:
  assumes "amf0_wf v"
  shows "\<exists>w. amf0_encode v = Some w \<and> amf0_decode (w @ r) = Some (Inr (length w, v))"
  using amf0_decode_W0 [OF assms] amf0_wf_readable [OF assms]
  by (simp add: amf0_encode_eq_plain readable0D(2))

lemma amf0_decode_all_concat:
  "(\<And>v. v \<in> set vs \<Longrightarrow> amf0_wf v) \<Longrightarrow> amf0_decode_all (concat (map W0 vs)) = Some (Inr vs)"
proof (induction vs)
  case (Cons v vs)
  have "W0 v \<noteq> []" using amf0_wf_readable [of v] Cons.prems by (simp add: readable0_def)
  with Cons show ?case
    by (subst amf0_decode_all.simps) (simp add: amf0_decode_W0)
qed (simp add: amf0_decode_all.simps)

lemma amf0_encode_all_W0:
  "(\<And>v. v \<in> set vs \<Longrightarrow> amf0_wf v) \<Longrightarrow> amf0_encode_all vs = Some (concat (map W0 vs))"
  unfolding amf0_encode_all_eq_plain
  by (induction vs) (simp_all add: ocat_Cons readable0D(2) amf0_wf_readable)

lemma amf0_decode_all_encode_all:
  "(\<And>v. v \<in> set vs \<Longrightarrow> amf0_wf v) \<Longrightarrow>
     \<exists>w. amf0_encode_all vs = Some w \<and> amf0_decode_all w = Some (Inr vs)"
  by (simp add: amf0_encode_all_W0 amf0_decode_all_concat)

end
