(* ===== verification/Rtmp_Amf.thy ===== *)
theory Rtmp_Amf
  imports Rtmp_Amf0_Roundtrip
begin

text \<open>
  \<^verbatim>\<open>amf.rs\<close>: values of either AMF version. The decoders of \<open>Rtmp_Amf0\<close> and \<open>Rtmp_Amf3\<close> carry a recursion
  bound that is never reached (\<open>amf0_decode_total\<close>, \<open>amf3_decode_total\<close>); \<open>amf_decode\<close> drops it. The encoder
  returns \<open>None\<close> where the Rust encoder panics (an AMF3 integer outside 29 bits). A borrowed
  \<^verbatim>\<open>AmfValueRef\<close> is the value it borrows.
\<close>

section \<open>Values of either version\<close>

datatype amf_version = Amf0 | Amf3

datatype amf_value = VAmf0 amf0_value | VAmf3 amf3_value

fun amf_decode :: "bytes \<Rightarrow> amf_version \<Rightarrow> error_kind + nat \<times> amf_value" where
  "amf_decode b Amf0 = map_sum id (map_prod id VAmf0) (the (amf0_decode b))"
| "amf_decode b Amf3 = map_sum id (map_prod id VAmf3) (the (amf3_decode b))"

fun amf_encode :: "amf_value \<Rightarrow> bytes option" where
  "amf_encode (VAmf0 x) = amf0_encode x"
| "amf_encode (VAmf3 x) = amf3_encode x"

definition amf0_object_value :: "(string \<times> amf0_value) list \<Rightarrow> amf_value" where
  "amf0_object_value entries = VAmf0 (A0Object None entries)"

fun amf_from_str :: "amf_version \<Rightarrow> string \<Rightarrow> amf_value" where
  "amf_from_str Amf0 s = VAmf0 (A0String s)"
| "amf_from_str Amf3 s = VAmf3 (A3String s)"

fun amf_from_f64 :: "amf_version \<Rightarrow> u64 \<Rightarrow> amf_value" where
  "amf_from_f64 Amf0 x = VAmf0 (A0Number x)"
| "amf_from_f64 Amf3 x = VAmf3 (A3Double x)"

section \<open>Accessors\<close>

text \<open>\<^verbatim>\<open>entries.iter().rfind(|pair| pair.key == key)\<close>: the last entry with the key.\<close>

definition rfind_entry :: "(string \<times> 'v) list \<Rightarrow> string \<Rightarrow> 'v option" where
  "rfind_entry entries key = map_option snd (find (\<lambda>e. fst e = key) (rev entries))"

fun expect_object_member :: "amf_value \<Rightarrow> string \<Rightarrow> error_kind + amf_value" where
  "expect_object_member (VAmf0 (A0Object _ entries)) key =
     ok_or InvalidData (map_option VAmf0 (rfind_entry entries key))"
| "expect_object_member (VAmf3 (A3Object _ _ entries)) key =
     ok_or InvalidData (map_option VAmf3 (rfind_entry entries key))"
| "expect_object_member _ key = Inl InvalidData"

fun expect_str :: "amf_value \<Rightarrow> error_kind + string" where
  "expect_str (VAmf0 (A0String s)) = Inr s"
| "expect_str (VAmf3 (A3String s)) = Inr s"
| "expect_str _ = Inl InvalidData"

fun expect_number :: "amf_value \<Rightarrow> error_kind + u64" where
  "expect_number (VAmf0 (A0Number n)) = Inr n"
| "expect_number (VAmf3 (A3Integer n)) = Inr (i64_as_f64 (sint n))"
| "expect_number (VAmf3 (A3Double n)) = Inr n"
| "expect_number _ = Inl InvalidData"

section \<open>Decoding and encoding\<close>

fun amf_version_of :: "amf_value \<Rightarrow> amf_version" where
  "amf_version_of (VAmf0 _) = Amf0"
| "amf_version_of (VAmf3 _) = Amf3"

fun amf_wf :: "amf_value \<Rightarrow> bool" where
  "amf_wf (VAmf0 v) = amf0_wf v"
| "amf_wf (VAmf3 v) = amf3_wf v"

text \<open>A decoder with the bound dropped: it advances inside its input.\<close>

lemma amf_decode_progress:
  assumes "amf_decode b ver = Inr (n, v)"
  shows "0 < n \<and> n \<le> length b \<and> amf_version_of v = ver"
proof (cases ver)
  case Amf0
  obtain r where "amf0_decode b = Some r" "\<And>n v. r = Inr (n, v) \<Longrightarrow> 0 < n \<and> n \<le> length b"
    using amf0_decode_total by blast
  with assms Amf0 show ?thesis by (cases r) auto
next
  case Amf3
  obtain r where "amf3_decode b = Some r" "\<And>n v. r = Inr (n, v) \<Longrightarrow> 0 < n \<and> n \<le> length b"
    using amf3_decode_total by blast
  with assms Amf3 show ?thesis by (cases r) auto
qed

lemma amf_decode_encode:
  assumes "amf_wf v"
  obtains w where "amf_encode v = Some w" "w \<noteq> []"
    "\<And>r. amf_decode (w @ r) (amf_version_of v) = Inr (length w, v)"
proof -
  have ne: "w \<noteq> []" if "amf_decode (w @ []) (amf_version_of v) = Inr (length w, v)" for w
    using amf_decode_progress [OF that] by auto
  show thesis
  proof (cases v)
    case (VAmf0 x)
    then have "amf0_wf x" using assms by simp
    then obtain w where "amf0_encode x = Some w" "\<And>r. amf0_decode (w @ r) = Some (Inr (length w, x))"
      using amf0_decode_encode by (metis option.inject)
    moreover from this(2) [of "[]"] have "amf0_decode w = Some (Inr (length w, x))" by simp
    ultimately show ?thesis using VAmf0 that [of w] ne [of w] by simp
  next
    case (VAmf3 x)
    then have "amf3_wf x" using assms by simp
    then obtain w where "amf3_encode x = Some w" "\<And>r. amf3_decode (w @ r) = Some (Inr (length w, x))"
      using amf3_decode_encode by (metis option.inject)
    moreover from this(2) [of "[]"] have "amf3_decode w = Some (Inr (length w, x))" by simp
    ultimately show ?thesis using VAmf3 that [of w] ne [of w] by simp
  qed
qed

section \<open>Sequences of values\<close>

text \<open>
  \<^verbatim>\<open>decode_amf_values\<close> (in \<^verbatim>\<open>message/decoder.rs\<close>, and with another error type in \<^verbatim>\<open>core/command/inbound.rs\<close>):
  decode until the buffer is empty.
\<close>

function decode_amf_values :: "amf_version \<Rightarrow> bytes \<Rightarrow> error_kind + amf_value list" where
  "decode_amf_values ver buf =
     (if buf = [] then Inr []
      else sbind (amf_decode buf ver) (\<lambda>(size, v).
             sbind (decode_amf_values ver (drop size buf)) (\<lambda>vs. Inr (v # vs))))"
  by pat_completeness auto
termination
  by (relation "measure (\<lambda>(ver, buf). length buf)") (auto dest: amf_decode_progress)

declare decode_amf_values.simps [simp del]

definition encode_amf_values :: "amf_value list \<Rightarrow> bytes option" where
  "encode_amf_values vs = ocat (map amf_encode vs)"

lemma decode_amf_values_Nil [simp]: "decode_amf_values ver [] = Inr []"
  by (simp add: decode_amf_values.simps)

lemma encode_amf_values_simps [simp]:
  "encode_amf_values [] = Some []"
  "encode_amf_values (v # vs) =
     (case amf_encode v of None \<Rightarrow> None | Some w \<Rightarrow> map_option (\<lambda>ws. w @ ws) (encode_amf_values vs))"
  by (simp_all only: encode_amf_values_def list.map ocat_Cons ocat_Nil)

lemma decode_amf_values_first:
  assumes "amf_wf v" and "amf_encode v = Some w" and "amf_version_of v = ver"
  shows "amf_decode (w @ r) ver = Inr (length w, v)" and "w \<noteq> []"
  using assms by (auto elim: amf_decode_encode)

lemma decode_encode_amf_values:
  assumes "\<forall>v \<in> set vs. amf_wf v \<and> amf_version_of v = ver"
  obtains w where "encode_amf_values vs = Some w" "decode_amf_values ver w = Inr vs"
  using assms
proof (induction vs arbitrary: thesis)
  case (Cons v vs)
  from Cons.IH Cons.prems(2) obtain ws where
    ws: "encode_amf_values vs = Some ws" "decode_amf_values ver ws = Inr vs" by auto
  from Cons.prems(2) have v: "amf_wf v" "amf_version_of v = ver" by auto
  then obtain w where w: "amf_encode v = Some w" "w \<noteq> []" "\<And>r. amf_decode (w @ r) ver = Inr (length w, v)"
    by (metis amf_decode_encode)
  have "decode_amf_values ver (w @ ws) = Inr (v # vs)"
    using w ws(2) by (subst decode_amf_values.simps) simp
  with Cons.prems(1) w(1) ws(1) show thesis by simp
qed simp

section \<open>Properties\<close>

text \<open>
  AMF3 round trip: every AMF3 value an encoder can represent (29-bit integers, sizes below 2^28,
  UTF-8 strings, dates exactly representable in a double, non-empty dynamic member names, class names
  that are not a marker for "no class") is encoded without panicking, and the decoder reads it back
  from the front of any input, consuming exactly its encoding. The thirteen kinds of values, the
  traits of objects, and the string, object and trait reference tables of the decoder take part.
\<close>

lemma amf3_roundtrip:
  assumes "amf3_wf v"
  shows "\<exists>w. amf3_encode v = Some w \<and> amf3_decode (w @ r) = Some (Inr (length w, v))"
  by (rule amf3_decode_encode [OF assms])

lemma amf_ascii_ok:
  "amf3_str_ok ''a''" "amf3_str_ok ''b''" "key_ok ''a''" "text_ok ''a''"
  by (simp_all add: amf3_str_ok_def key_ok_def text_ok_def valid_string_def bytes_of_string_def utf8_valid.simps(2)
      amf3_size_ok_def)

lemma amf3_roundtrip_witness:
  "\<exists>w. amf3_encode (A3Object (Some ''a'') 1 [(''a'', A3Integer 300), (''b'', A3Array [] [A3Null, A3Date 5])]) = Some w
     \<and> amf3_decode (w @ [1, 2]) =
         Some (Inr (length w, A3Object (Some ''a'') 1 [(''a'', A3Integer 300), (''b'', A3Array [] [A3Null, A3Date 5])]))"
  by (rule amf3_roundtrip) (simp add: amf_ascii_ok amf3_size_ok_def sint_u32)

text \<open>
  C28: AMF0 sequences round trip: \<^verbatim>\<open>encode_all\<close> of a list of representable values (objects with and
  without a class, arrays, dates, AMF3 values behind the AVM+ marker, to any depth) does not panic and
  \<^verbatim>\<open>decode_all\<close> of its output is the list.
\<close>

theorem amf0_stream_roundtrip:
  assumes "\<forall>v \<in> set vs. amf0_wf v"
  shows "\<exists>w. amf0_encode_all vs = Some w \<and> amf0_decode_all w = Some (Inr vs)"
  using assms by (intro amf0_decode_all_encode_all) simp

theorem amf0_stream_roundtrip_witness:
  "\<exists>w. amf0_encode_all [A0String ''a'', A0Number 0, A0Object None [(''a'', A0Array [A0Null, A0Date 7])]] = Some w
     \<and> amf0_decode_all w =
         Some (Inr [A0String ''a'', A0Number 0, A0Object None [(''a'', A0Array [A0Null, A0Date 7])]])"
  by (rule amf0_stream_roundtrip) (simp add: amf_ascii_ok)

text \<open>
  C37: the AMF decoders return on every input, for both versions, and a value they return was read from
  a non-empty prefix of the input; so the loops over AMF values in the code end on every input.
\<close>

theorem amf_decoders_total:
  "\<exists>r0 r3 ra. amf0_decode b = Some r0 \<and> amf3_decode b = Some r3 \<and> amf0_decode_all b = Some ra
     \<and> (case r0 of Inl _ \<Rightarrow> True | Inr (n, v) \<Rightarrow> 0 < n \<and> n \<le> length b)
     \<and> (case r3 of Inl _ \<Rightarrow> True | Inr (n, v) \<Rightarrow> 0 < n \<and> n \<le> length b)"
proof -
  obtain r0 r3 ra where "amf0_decode b = Some r0" "amf3_decode b = Some r3" "amf0_decode_all b = Some ra"
    "\<And>n v. r0 = Inr (n, v) \<Longrightarrow> 0 < n \<and> n \<le> length b" "\<And>n v. r3 = Inr (n, v) \<Longrightarrow> 0 < n \<and> n \<le> length b"
    using amf0_decode_total [of b] amf3_decode_total [of b] amf0_decode_all_total [of b] by blast
  then show ?thesis by (auto split: sum.splits)
qed

text \<open>
  The AMF0 encoder with its table of already written addresses writes the same bytes as the
  encoding without a table: within one value or one list of values it never emits a reference marker.
\<close>

lemma amf0_encoder_emits_no_references:
  "amf0_encode v = amf0_plain v \<and> amf0_encode_all vs = ocat (map amf0_plain vs)"
  by (simp add: amf0_encode_eq_plain amf0_encode_all_eq_plain)

end
