(* ===== verification/Rtmp_Chunk_Types.thy ===== *)
theory Rtmp_Chunk_Types
  imports Rtmp_Bytes
begin

text \<open>
  The data of the chunk layer: \<^verbatim>\<open>chunk/mod.rs\<close> (stream ids, header formats, chunk sizes, chunks), the
  message types of \<^verbatim>\<open>message/mod.rs\<close> and the timestamp arithmetic of \<^verbatim>\<open>media.rs\<close>. The two newtypes whose
  constructors check a range are typedefs, so their range is a fact about the type, as it is in the
  Rust code, where the field is private.
\<close>

section \<open>Timestamps and message stream ids\<close>

type_synonym rtmp_timestamp = u32
type_synonym rtmp_message_stream_id = u32

definition timestamp_wrapping_add :: "rtmp_timestamp \<Rightarrow> rtmp_timestamp \<Rightarrow> rtmp_timestamp" where
  "timestamp_wrapping_add a b = a + b"

definition timestamp_checked_sub :: "rtmp_timestamp \<Rightarrow> rtmp_timestamp \<Rightarrow> rtmp_timestamp option" where
  "timestamp_checked_sub a b = checked_sub a b"

section \<open>Chunk stream ids\<close>

typedef rtmp_chunk_stream_id = "{i :: u32. 2 \<le> i \<and> i \<le> 65599}"
  morphisms csid_get Csid
  by (rule exI [of _ 2]) simp

lemma csid_get_range: "2 \<le> csid_get c" "csid_get c \<le> 65599"
  using csid_get [of c] by simp_all

lemma csid_get_Csid [simp]: "2 \<le> i \<Longrightarrow> i \<le> 65599 \<Longrightarrow> csid_get (Csid i) = i"
  by (simp add: Csid_inverse)

lemma Csid_eq_iff [simp]:
  "2 \<le> i \<Longrightarrow> i \<le> 65599 \<Longrightarrow> 2 \<le> j \<Longrightarrow> j \<le> 65599 \<Longrightarrow> Csid i = Csid j \<longleftrightarrow> i = j"
  by (simp add: Csid_inject)

definition csid_new :: "u32 \<Rightarrow> rtmp_chunk_stream_id option" where
  "csid_new i = (if 2 \<le> i \<and> i \<le> 65599 then Some (Csid i) else None)"

definition csid_from_message_stream_id :: "rtmp_message_stream_id \<Rightarrow> rtmp_chunk_stream_id" where
  "csid_from_message_stream_id m = Csid (min (saturating_add m 2) 65599)"

lemma csid_new_get [simp]: "csid_new (csid_get c) = Some c"
  using csid_get_range [of c] by (simp add: csid_new_def csid_get_inverse)

lemma csid_new_Some_iff: "csid_new i = Some c \<longleftrightarrow> csid_get c = i"
  using csid_get_range [of c] by (auto simp: csid_new_def csid_get_inverse)

lemma csid_from_message_stream_id_get:
  "csid_get (csid_from_message_stream_id m) = min (saturating_add m 2) 65599"
proof -
  have "2 \<le> saturating_add m 2"
  proof (cases "unat m + 2 < 2 ^ 32")
    case True
    then have "unat (m + 2) = unat m + 2" by (simp add: unat_word_ariths)
    then show ?thesis using True by (simp add: saturating_add_def word_le_nat_alt)
  qed (simp add: saturating_add_def)
  then show ?thesis by (simp add: csid_from_message_stream_id_def)
qed

instantiation rtmp_chunk_stream_id :: linorder
begin

definition less_eq_rtmp_chunk_stream_id :: "rtmp_chunk_stream_id \<Rightarrow> rtmp_chunk_stream_id \<Rightarrow> bool"
  where "less_eq_rtmp_chunk_stream_id a b \<longleftrightarrow> csid_get a \<le> csid_get b"

definition less_rtmp_chunk_stream_id :: "rtmp_chunk_stream_id \<Rightarrow> rtmp_chunk_stream_id \<Rightarrow> bool"
  where "less_rtmp_chunk_stream_id a b \<longleftrightarrow> csid_get a < csid_get b"

instance
  by standard
    (auto simp: less_eq_rtmp_chunk_stream_id_def less_rtmp_chunk_stream_id_def
        simp flip: csid_get_inject)

end

section \<open>Header formats and chunk sizes\<close>

datatype message_header_format = F0 | F1 | F2 | F3

fun format_id :: "message_header_format \<Rightarrow> u8" where
  "format_id F0 = 0"
| "format_id F1 = 1"
| "format_id F2 = 2"
| "format_id F3 = 3"

typedef rtmp_chunk_size = "{n :: nat. 1 \<le> n \<and> n \<le> 65536}"
  morphisms chunk_size_get Chunk_size
  by (rule exI [of _ 1]) simp

lemma chunk_size_range: "1 \<le> chunk_size_get s" "chunk_size_get s \<le> 65536"
  using chunk_size_get [of s] by simp_all

lemma chunk_size_pos [simp]: "0 < chunk_size_get s"
  using chunk_size_range [of s] by simp

lemma chunk_size_get_Chunk_size [simp]:
  "1 \<le> n \<Longrightarrow> n \<le> 65536 \<Longrightarrow> chunk_size_get (Chunk_size n) = n"
  by (simp add: Chunk_size_inverse)

definition chunk_size_new :: "nat \<Rightarrow> rtmp_chunk_size option" where
  "chunk_size_new n = (if 1 \<le> n \<and> n \<le> 65536 then Some (Chunk_size n) else None)"

definition chunk_size_saturating_new :: "nat \<Rightarrow> rtmp_chunk_size" where
  "chunk_size_saturating_new n = Chunk_size (max 1 (min 65536 n))"

definition chunk_size_default :: rtmp_chunk_size where
  "chunk_size_default = Chunk_size 128"

lemma chunk_size_get_saturating_new [simp]:
  "chunk_size_get (chunk_size_saturating_new n) = max 1 (min 65536 n)"
  by (simp add: chunk_size_saturating_new_def)

lemma chunk_size_get_default [simp]: "chunk_size_get chunk_size_default = 128"
  by (simp add: chunk_size_default_def)

lemma chunk_size_saturating_new_get [simp]: "chunk_size_saturating_new (chunk_size_get s) = s"
proof -
  have "max 1 (min 65536 (chunk_size_get s)) = chunk_size_get s"
    using chunk_size_range [of s] by simp
  then show ?thesis by (simp only: chunk_size_saturating_new_def chunk_size_get_inverse)
qed

instantiation rtmp_chunk_size :: linorder
begin

definition less_eq_rtmp_chunk_size :: "rtmp_chunk_size \<Rightarrow> rtmp_chunk_size \<Rightarrow> bool"
  where "less_eq_rtmp_chunk_size a b \<longleftrightarrow> chunk_size_get a \<le> chunk_size_get b"

definition less_rtmp_chunk_size :: "rtmp_chunk_size \<Rightarrow> rtmp_chunk_size \<Rightarrow> bool"
  where "less_rtmp_chunk_size a b \<longleftrightarrow> chunk_size_get a < chunk_size_get b"

instance
  by standard (auto simp: less_eq_rtmp_chunk_size_def less_rtmp_chunk_size_def chunk_size_get_inject)

end

section \<open>Message types\<close>

datatype rtmp_message_type =
    MtSetChunkSize | MtAbort | MtAck | MtUserControl | MtWinAckSize | MtSetPeerBandwidth
  | MtAudio | MtVideo
  | MtDataAmf3 | MtCommandAmf3 | MtDataAmf0 | MtCommandAmf0
  | MtAggregate

fun message_type_id :: "rtmp_message_type \<Rightarrow> u8" where
  "message_type_id MtSetChunkSize = 1"
| "message_type_id MtAbort = 2"
| "message_type_id MtAck = 3"
| "message_type_id MtUserControl = 4"
| "message_type_id MtWinAckSize = 5"
| "message_type_id MtSetPeerBandwidth = 6"
| "message_type_id MtAudio = 8"
| "message_type_id MtVideo = 9"
| "message_type_id MtDataAmf3 = 15"
| "message_type_id MtCommandAmf3 = 17"
| "message_type_id MtDataAmf0 = 18"
| "message_type_id MtCommandAmf0 = 20"
| "message_type_id MtAggregate = 22"

definition from_type_id :: "u8 \<Rightarrow> error_kind + rtmp_message_type" where
  "from_type_id t =
     (if t = 1 then Inr MtSetChunkSize
      else if t = 2 then Inr MtAbort
      else if t = 3 then Inr MtAck
      else if t = 4 then Inr MtUserControl
      else if t = 5 then Inr MtWinAckSize
      else if t = 6 then Inr MtSetPeerBandwidth
      else if t = 8 then Inr MtAudio
      else if t = 9 then Inr MtVideo
      else if t = 15 then Inr MtDataAmf3
      else if t = 17 then Inr MtCommandAmf3
      else if t = 18 then Inr MtDataAmf0
      else if t = 20 then Inr MtCommandAmf0
      else if t = 22 then Inr MtAggregate
      else Inl InvalidData)"

lemma from_type_id_id [simp]: "from_type_id (message_type_id t) = Inr t"
  by (cases t) (simp_all add: from_type_id_def)

lemma from_type_id_Inr: "from_type_id i = Inr t \<Longrightarrow> message_type_id t = i"
  by (auto simp: from_type_id_def split: if_splits)

lemma from_type_id_Inl: "from_type_id i = Inl e \<Longrightarrow> e = InvalidData"
  by (auto simp: from_type_id_def split: if_splits)

section \<open>Chunks\<close>

record rtmp_chunk =
  chunk_stream_id :: rtmp_chunk_stream_id
  message_stream_id :: rtmp_message_stream_id
  message_type :: rtmp_message_type
  timestamp :: rtmp_timestamp
  payload :: bytes

end
