(* ===== verification/Stream_Decoder.thy ===== *)
theory Stream_Decoder
  imports Rtmp_Bytes
begin

text \<open>
  The contract of an incremental decoder and of the loop that drives it. A decoder step looks at the
  unconsumed bytes and either consumes a non-empty prefix (perhaps producing an item), or fails; one
  distinguished error means "more bytes are needed". The locale \<open>incremental_decoder\<close> states what a
  driver relies on, and shows once that the driver's results do not depend on how the bytes were cut
  into network reads. \<open>drain\<close> is the driver loop with its buffer as a list; \<open>pump\<close> is the same loop over
  a receive buffer, and \<open>buffered_decoder\<close> combines both contracts.
\<close>

section \<open>The driver loop\<close>

text \<open>
  \<open>drain dec s b\<close> runs \<open>dec\<close> until it fails and returns the last state, the error (\<open>None\<close> when a step
  claims to have consumed nothing or more than there is), the items in order, and the bytes left.
\<close>

function drain ::
  "('s \<Rightarrow> bytes \<Rightarrow> 's \<times> ('e + nat \<times> 'c option)) \<Rightarrow> 's \<Rightarrow> bytes \<Rightarrow> 's \<times> 'e option \<times> 'c list \<times> bytes"
where
  "drain dec s b =
     (case dec s b of
        (s', Inl e) \<Rightarrow> (s', Some e, [], b)
      | (s', Inr (n, c)) \<Rightarrow>
          if 0 < n \<and> n \<le> length b
          then (case drain dec s' (drop n b) of
                  (s'', e, cs, r) \<Rightarrow> (s'', e, (case c of None \<Rightarrow> cs | Some x \<Rightarrow> x # cs), r))
          else (s', None, [], b))"
  by pat_completeness auto
termination
  by (relation "measure (\<lambda>(dec, s, b). length b)") auto

declare drain.simps [simp del]

text \<open>Feeding the bytes piece by piece, stopping at the first error other than \<open>need\<close>.\<close>

fun drain_pieces ::
  "('s \<Rightarrow> bytes \<Rightarrow> 's \<times> ('e + nat \<times> 'c option)) \<Rightarrow> 'e \<Rightarrow> 's \<Rightarrow> bytes \<Rightarrow> bytes list
     \<Rightarrow> 's \<times> 'e option \<times> 'c list \<times> bytes"
where
  "drain_pieces dec need s r [] = (s, Some need, [], r)"
| "drain_pieces dec need s r (p # ps) =
     (case drain dec s (r @ p) of
        (s1, e, cs, r1) \<Rightarrow>
          if e = Some need
          then (case drain_pieces dec need s1 r1 ps of (s2, e2, cs2, r2) \<Rightarrow> (s2, e2, cs @ cs2, r2))
          else (s1, e, cs, r1 @ concat ps))"

text \<open>The loop over a receive buffer: read its content, step, advance it.\<close>

function pump ::
  "('b \<Rightarrow> bytes) \<Rightarrow> ('b \<Rightarrow> nat \<Rightarrow> 'b) \<Rightarrow> ('s \<Rightarrow> bytes \<Rightarrow> 's \<times> ('e + nat \<times> 'c option)) \<Rightarrow> 's \<Rightarrow> 'b
     \<Rightarrow> 's \<times> 'e option \<times> 'c list \<times> 'b"
where
  "pump get adv dec s b =
     (case dec s (get b) of
        (s', Inl e) \<Rightarrow> (s', Some e, [], b)
      | (s', Inr (n, c)) \<Rightarrow>
          if length (get (adv b n)) < length (get b)
          then (case pump get adv dec s' (adv b n) of
                  (s'', e, cs, r) \<Rightarrow> (s'', e, (case c of None \<Rightarrow> cs | Some x \<Rightarrow> x # cs), r))
          else (s', None, [], b))"
  by pat_completeness auto
termination
  by (relation "measure (\<lambda>(get, adv, dec, s, b). length (get b))") auto

declare pump.simps [simp del]

text \<open>\<open>yields dec s w c s'\<close>: decoding consumes exactly \<open>w\<close> and the last of its steps delivers the item \<open>c\<close>.\<close>

inductive yields ::
  "('s \<Rightarrow> bytes \<Rightarrow> 's \<times> ('e + nat \<times> 'c option)) \<Rightarrow> 's \<Rightarrow> bytes \<Rightarrow> 'c \<Rightarrow> 's \<Rightarrow> bool"
  for dec :: "'s \<Rightarrow> bytes \<Rightarrow> 's \<times> ('e + nat \<times> 'c option)"
where
  last: "dec s w = (s', Inr (length w, Some c)) \<Longrightarrow> yields dec s w c s'"
| more: "dec s w = (s1, Inr (length w, None)) \<Longrightarrow> yields dec s1 w' c s' \<Longrightarrow> yields dec s (w @ w') c s'"

section \<open>The contract\<close>

locale incremental_decoder =
  fixes dec :: "'s \<Rightarrow> bytes \<Rightarrow> 's \<times> ('e + nat \<times> 'c option)"
    and need :: 'e
  assumes progress: "dec s b = (s', Inr (n, c)) \<Longrightarrow> 0 < n \<and> n \<le> length b"
    and stable_ok: "dec s b = (s', Inr (n, c)) \<Longrightarrow> dec s (b @ x) = (s', Inr (n, c))"
    and stable_err: "dec s b = (s', Inl e) \<Longrightarrow> e \<noteq> need \<Longrightarrow> dec s (b @ x) = (s', Inl e)"
    and resume: "dec s b = (s', Inl need) \<Longrightarrow> dec s' (b @ x) = dec s (b @ x)"
begin

lemma drain_same_step: "dec s b = dec t b \<Longrightarrow> drain dec s b = drain dec t b"
  by (simp add: drain.simps [of dec s] drain.simps [of dec t])

lemma drain_Inl: "dec s b = (s', Inl e) \<Longrightarrow> drain dec s b = (s', Some e, [], b)"
  by (simp add: drain.simps)

lemma drain_Inr:
  assumes "dec s b = (s', Inr (n, c))"
  shows "drain dec s b =
    (case drain dec s' (drop n b) of
       (s'', e, cs, r) \<Rightarrow> (s'', e, (case c of None \<Rightarrow> cs | Some x \<Rightarrow> x # cs), r))"
  using assms progress [OF assms] by (simp add: drain.simps [of dec s b])

lemma yields_drain:
  "yields dec s w c s' \<Longrightarrow>
     drain dec s (w @ x) = (case drain dec s' x of (t, e, cs, r) \<Rightarrow> (t, e, c # cs, r))"
proof (induction rule: yields.induct)
  case (last s w s' c)
  from drain_Inr [OF stable_ok [OF this, of x]] show ?case by simp
next
  case (more s w s1 w' c s')
  from drain_Inr [OF stable_ok [OF more.hyps(1), of "w' @ x"]] more.IH show ?case
    by (simp split: prod.splits)
qed

text \<open>The loop always ends with an error of the decoder (in particular it ends).\<close>

lemma drain_ends: "\<exists>s' e cs r. drain dec s b = (s', Some e, cs, r)"
proof (induction "length b" arbitrary: s b rule: less_induct)
  case less
  obtain s' res where d: "dec s b = (s', res)" by fastforce
  show ?case
  proof (cases res)
    case (Inr nc)
    obtain n c where "nc = (n, c)" by fastforce
    with d Inr have d': "dec s b = (s', Inr (n, c))" by simp
    from progress [OF d'] less [of "drop n b" s']
    obtain s'' e cs r where "drain dec s' (drop n b) = (s'', Some e, cs, r)" by auto
    with drain_Inr [OF d'] show ?thesis by simp
  qed (use d in \<open>simp add: drain_Inl\<close>)
qed

lemma drain_append:
  "drain dec s (a @ b) =
     (case drain dec s a of
        (s1, e, cs, r) \<Rightarrow>
          if e = Some need
          then (case drain dec s1 (r @ b) of (s2, e2, cs2, r2) \<Rightarrow> (s2, e2, cs @ cs2, r2))
          else (s1, e, cs, r @ b))"
proof (induction "length a" arbitrary: s a rule: less_induct)
  case less
  obtain s' res where d: "dec s a = (s', res)" by fastforce
  show ?case
  proof (cases res)
    case (Inl e)
    show ?thesis
    proof (cases "e = need")
      case True
      with d Inl have "dec s (a @ b) = dec s' (a @ b)" by (simp add: resume)
      then have "drain dec s (a @ b) = drain dec s' (a @ b)" by (rule drain_same_step)
      with d Inl True show ?thesis by (simp add: drain_Inl split: prod.splits)
    next
      case False
      with d Inl have "dec s (a @ b) = (s', Inl e)" by (simp add: stable_err)
      with d Inl False show ?thesis by (simp add: drain_Inl)
    qed
  next
    case (Inr nc)
    obtain n c where "nc = (n, c)" by fastforce
    with d Inr have d': "dec s a = (s', Inr (n, c))" by simp
    note p = progress [OF d'] and ab = stable_ok [OF d', of b]
    have "drain dec s' (drop n a @ b) =
      (case drain dec s' (drop n a) of (s1, e, cs, r) \<Rightarrow>
         if e = Some need
         then (case drain dec s1 (r @ b) of (s2, e2, cs2, r2) \<Rightarrow> (s2, e2, cs @ cs2, r2))
         else (s1, e, cs, r @ b))"
      by (rule less) (use p in simp)
    then show ?thesis
      using p by (simp add: drain_Inr [OF d'] drain_Inr [OF ab] split: prod.splits option.splits)
  qed
qed

text \<open>A state in which more bytes are needed is a fixed point of the loop.\<close>

lemma drain_settled:
  "drain dec s b = (s1, Some need, cs, r) \<Longrightarrow> drain dec s1 r = (s1, Some need, [], r)"
proof (induction "length b" arbitrary: s b cs rule: less_induct)
  case less
  obtain s' res where d: "dec s b = (s', res)" by fastforce
  show ?case
  proof (cases res)
    case (Inl e)
    with d less.prems have "dec s b = (s1, Inl need)" and "r = b" by (auto simp: drain_Inl)
    with resume [of s b s1 "[]"] show ?thesis by (simp add: drain_Inl)
  next
    case (Inr nc)
    obtain n c where "nc = (n, c)" by fastforce
    with d Inr have d': "dec s b = (s', Inr (n, c))" by simp
    with less.prems obtain cs' where "drain dec s' (drop n b) = (s1, Some need, cs', r)"
      by (auto simp: drain_Inr [OF d'] split: prod.splits)
    with less.hyps [of "drop n b" s'] progress [OF d'] show ?thesis by auto
  qed
qed

theorem drain_pieces_concat:
  assumes "drain dec s r = (s, Some need, [], r)"
  shows "drain_pieces dec need s r ps = drain dec s (r @ concat ps)"
  using assms
proof (induction ps arbitrary: s r)
  case (Cons p ps)
  obtain s1 e cs r1 where d: "drain dec s (r @ p) = (s1, e, cs, r1)"
    by (metis prod_cases4)
  show ?case
  proof (cases "e = Some need")
    case True
    with d have "drain dec s1 r1 = (s1, Some need, [], r1)" by (auto intro: drain_settled)
    from Cons.IH [OF this] True d show ?thesis
      using drain_append [of s "r @ p" "concat ps"] by (simp split: prod.splits)
  next
    case False
    with d show ?thesis using drain_append [of s "r @ p" "concat ps"] by simp
  qed
qed simp

end

section \<open>A decoder behind a receive buffer\<close>

locale buffered_decoder = byte_buffer + incremental_decoder
begin

lemma pump_drain:
  assumes "invar b"
  shows "\<exists>b'. invar b' \<and> pump get advance dec s b =
    (case drain dec s (get b) of (s', e, cs, r) \<Rightarrow> (s', e, cs, b')) \<and>
    get b' = snd (snd (snd (drain dec s (get b))))"
  using assms
proof (induction "length (get b)" arbitrary: s b rule: less_induct)
  case less
  obtain s' res where d: "dec s (get b) = (s', res)" by fastforce
  show ?case
  proof (cases res)
    case (Inl e)
    with d less.prems show ?thesis by (auto simp: drain_Inl pump.simps [of get advance dec s b])
  next
    case (Inr nc)
    obtain n c where "nc = (n, c)" by fastforce
    with d Inr have d': "dec s (get b) = (s', Inr (n, c))" by simp
    note p = progress [OF d']
    have g: "get (advance b n) = drop n (get b)" "invar (advance b n)"
      using p less.prems by (auto simp: get_advance invar_advance)
    have l: "length (get (advance b n)) < length (get b)" using p by (simp add: g)
    from less.hyps [OF l g(2), of s'] obtain b' where
      "invar b'" "pump get advance dec s' (advance b n) =
         (case drain dec s' (drop n (get b)) of (s', e, cs, r) \<Rightarrow> (s', e, cs, b'))"
      "get b' = snd (snd (snd (drain dec s' (drop n (get b)))))"
      by (auto simp: g)
    with d' l show ?thesis
      by (auto simp: pump.simps [of get advance dec s b] drain_Inr [OF d'] split: prod.splits)
  qed
qed

end

end
