(* ===== verification/Rtmp_Chunk_Decoder.thy ===== *)
theory Rtmp_Chunk_Decoder
  imports Rtmp_Chunk_Types Stream_Decoder
begin

text \<open>
  \<^verbatim>\<open>chunk/decoder.rs\<close>: the decoder keeps, per chunk stream, the last header and the payload collected so
  far. A step decodes one chunk from the front of the receive buffer. It returns its state also on an
  error, as the Rust code does: the stream entry it was working on is written back with whatever the
  header parser had already changed.
\<close>

section \<open>State\<close>

definition max_message_size :: nat where "max_message_size = 8 * 1024 * 1024"

record dec_stream =
  ds_timestamp :: rtmp_timestamp
  ds_timestamp_delta :: rtmp_timestamp
  ds_message_type :: rtmp_message_type
  ds_message_stream_id :: rtmp_message_stream_id
  ds_message_size :: nat
  ds_acc_payload :: bytes
  ds_enable_f3_extended_timestamp :: bool

definition dec_stream_new :: dec_stream where
  "dec_stream_new =
     \<lparr>ds_timestamp = 0, ds_timestamp_delta = 0, ds_message_type = MtSetChunkSize,
      ds_message_stream_id = 0, ds_message_size = 0, ds_acc_payload = [],
      ds_enable_f3_extended_timestamp = False\<rparr>"

record chunk_decoder =
  cd_chunk_size :: rtmp_chunk_size
  cd_chunk_streams :: "rtmp_chunk_stream_id \<rightharpoonup> dec_stream"

definition chunk_decoder_default :: chunk_decoder where
  "chunk_decoder_default = \<lparr>cd_chunk_size = chunk_size_default, cd_chunk_streams = Map.empty\<rparr>"

definition chunk_decoder_set_chunk_size :: "chunk_decoder \<Rightarrow> rtmp_chunk_size \<Rightarrow> chunk_decoder" where
  "chunk_decoder_set_chunk_size d sz = d\<lparr>cd_chunk_size := sz\<rparr>"

definition chunk_decoder_reset_chunk_stream ::
  "chunk_decoder \<Rightarrow> rtmp_chunk_stream_id \<Rightarrow> chunk_decoder" where
  "chunk_decoder_reset_chunk_stream d c =
     d\<lparr>cd_chunk_streams := (cd_chunk_streams d)(c := None)\<rparr>"

section \<open>Headers\<close>

definition format_of_bits :: "u8 \<Rightarrow> message_header_format" where
  "format_of_bits f = (if f = 0 then F0 else if f = 1 then F1 else if f = 2 then F2 else F3)"

lemma format_of_bits_id [simp]: "format_of_bits (format_id f) = f"
  by (cases f) (simp_all add: format_of_bits_def)

definition decode_chunk_basic_header :: "bytes \<Rightarrow> (message_header_format \<times> rtmp_chunk_stream_id) read"
where
  "decode_chunk_basic_header buf =
     sbind (read_u8 buf) (\<lambda>(first_byte, b1).
       let format = format_of_bits (drop_bit 6 first_byte);
           id_bits = first_byte AND 0x3F
       in sbind
            (if id_bits = 0 then
               sbind (read_u8 b1) (\<lambda>(v, b2). Inr (ucast v + 64, b2))
             else if id_bits = 1 then
               sbind (read_u16 b1) (\<lambda>(v, b2). Inr (ucast (swap_bytes 2 v) + 64, b2))
             else Inr (ucast id_bits, b1))
            (\<lambda>(i, b2).
              sbind (ok_or InvalidData (csid_new i)) (\<lambda>c. Inr ((format, c), b2))))"

text \<open>The extended timestamp is read exactly when the 24-bit field was 0xFFFFFF.\<close>

definition read_timestamp :: "bool \<Rightarrow> u32 \<Rightarrow> bytes \<Rightarrow> rtmp_timestamp read" where
  "read_timestamp is_extended t buf = (if is_extended then read_u32 buf else Inr (t, buf))"

fun decode_message_header :: "message_header_format \<Rightarrow> dec_stream \<Rightarrow> (dec_stream, unit) sread" where
  "decode_message_header F0 st buf =
     (let st0 = st\<lparr>ds_acc_payload := []\<rparr> in
      on_read read_u24 buf st0 (\<lambda>ts b1.
      on_read read_u24 b1 st0 (\<lambda>msize b2.
      if unat msize > max_message_size then (st0, Inl InvalidData) else
      on_read read_u8 b2 st0 (\<lambda>mtype b3.
      on_read read_u32 b3 st0 (\<lambda>msid b4.
      let is_extended = (ts = 0xFFFFFF);
          st1 = st0\<lparr>ds_enable_f3_extended_timestamp := is_extended\<rparr> in
      on_read (read_timestamp is_extended ts) b4 st1 (\<lambda>delta b5.
      let st2 = st1\<lparr>ds_timestamp_delta := delta, ds_timestamp := 0, ds_message_size := unat msize\<rparr> in
      case from_type_id mtype of
        Inl e \<Rightarrow> (st2, Inl e)
      | Inr mt \<Rightarrow> (st2\<lparr>ds_message_type := mt, ds_message_stream_id := swap_bytes 4 msid\<rparr>,
                   Inr ((), b5))))))))"
| "decode_message_header F1 st buf =
     on_read read_u24 buf st (\<lambda>ts b1.
     on_read read_u24 b1 st (\<lambda>msize b2.
     if unat msize > max_message_size then (st, Inl InvalidData) else
     on_read read_u8 b2 st (\<lambda>mtype b3.
     let is_extended = (ts = 0xFFFFFF);
         st1 = st\<lparr>ds_enable_f3_extended_timestamp := is_extended\<rparr> in
     on_read (read_timestamp is_extended ts) b3 st1 (\<lambda>delta b4.
     let st2 = st1\<lparr>ds_timestamp_delta := delta, ds_message_size := unat msize,
                   ds_acc_payload := []\<rparr> in
     case from_type_id mtype of
       Inl e \<Rightarrow> (st2, Inl e)
     | Inr mt \<Rightarrow> (st2\<lparr>ds_message_type := mt\<rparr>, Inr ((), b4))))))"
| "decode_message_header F2 st buf =
     on_read read_u24 buf st (\<lambda>ts b1.
     let is_extended = (ts = 0xFFFFFF);
         st1 = st\<lparr>ds_enable_f3_extended_timestamp := is_extended\<rparr> in
     on_read (read_timestamp is_extended ts) b1 st1 (\<lambda>delta b2.
     (st1\<lparr>ds_timestamp_delta := delta\<rparr>, Inr ((), b2))))"
| "decode_message_header F3 st buf =
     (if ds_enable_f3_extended_timestamp st then
        on_read read_u32 buf st (\<lambda>delta b1. (st\<lparr>ds_timestamp_delta := delta\<rparr>, Inr ((), b1)))
      else (st, Inr ((), buf)))"

section \<open>Payload and the decoding step\<close>

definition decode_message_payload ::
  "rtmp_chunk_size \<Rightarrow> dec_stream \<Rightarrow> (dec_stream, bytes option) sread"
where
  "decode_message_payload cs st buf =
     (if ds_message_size st < length (ds_acc_payload st) then (st, Inl InvalidData) else
      (let remaining = ds_message_size st - length (ds_acc_payload st) in
       on_read (read_bytes (min remaining (chunk_size_get cs))) buf st (\<lambda>p b1.
       let acc = ds_acc_payload st @ p in
       if length acc = ds_message_size st
       then (st\<lparr>ds_timestamp := timestamp_wrapping_add (ds_timestamp st) (ds_timestamp_delta st),
                ds_acc_payload := []\<rparr>, Inr (Some acc, b1))
       else (st\<lparr>ds_acc_payload := acc\<rparr>, Inr (None, b1)))))"

definition decode_body ::
  "rtmp_chunk_size \<Rightarrow> message_header_format \<Rightarrow> dec_stream \<Rightarrow> (dec_stream, bytes option) sread"
where
  "decode_body cs format st buf =
     (case decode_message_header format st buf of
        (st1, Inl e) \<Rightarrow> (st1, Inl e)
      | (st1, Inr (_, b1)) \<Rightarrow> decode_message_payload cs st1 b1)"

definition chunk_decode ::
  "chunk_decoder \<Rightarrow> bytes \<Rightarrow> chunk_decoder \<times> (error_kind + nat \<times> rtmp_chunk option)"
where
  "chunk_decode d buf =
     (case decode_chunk_basic_header buf of
        Inl e \<Rightarrow> (d, Inl e)
      | Inr ((format, c), b1) \<Rightarrow>
          (case (case cd_chunk_streams d c of
                   Some st \<Rightarrow> Some st
                 | None \<Rightarrow> if format = F0 then Some dec_stream_new else None) of
             None \<Rightarrow> (d, Inl InvalidData)
           | Some st \<Rightarrow>
               (case decode_body (cd_chunk_size d) format st b1 of
                  (st', res) \<Rightarrow>
                    (let d' = d\<lparr>cd_chunk_streams := (cd_chunk_streams d)(c \<mapsto> st')\<rparr> in
                     case res of
                       Inl e \<Rightarrow> (d', Inl e)
                     | Inr (maybe_payload, b2) \<Rightarrow>
                         (d', Inr (length buf - length b2,
                                   map_option
                                     (\<lambda>p. \<lparr>chunk_stream_id = c,
                                           message_stream_id = ds_message_stream_id st',
                                           message_type = ds_message_type st',
                                           timestamp = ds_timestamp st',
                                           payload = p\<rparr>) maybe_payload))))))"

section \<open>The decoder is an incremental decoder\<close>

lemma read_timestamp_eq: "read_timestamp e t = (\<lambda>b. if e then read_u32 b else Inr (t, b))"
  by (rule ext) (simp add: read_timestamp_def)

lemma pstable_read_timestamp [stable_intros]: "pstable (read_timestamp e t)"
  unfolding read_timestamp_eq by (intro stable_intros)

lemma pstable_decode_chunk_basic_header: "pstable decode_chunk_basic_header"
  unfolding decode_chunk_basic_header_def Let_def by (intro stable_intros)

lemma decode_chunk_basic_header_shorter:
  "decode_chunk_basic_header b = Inr (fc, r) \<Longrightarrow> length r < length b"
  by (auto simp: decode_chunk_basic_header_def sbind_eq_Inr_iff Let_def dest!: read_length(1,2)
      split: if_splits)

lemma sstable_decode_message_header: "sstable (\<lambda>b. decode_message_header f st b)"
  by (cases f; simp only: decode_message_header.simps Let_def; intro stable_intros)

lemma sstable_decode_message_payload: "sstable (\<lambda>b. decode_message_payload cs st b)"
  unfolding decode_message_payload_def Let_def by (intro stable_intros)

text \<open>Re-reading a header that was already applied changes nothing.\<close>

lemma decode_message_header_again:
  assumes "decode_message_header f st b = (st', Inr ((), r))"
  shows "decode_message_header f st' b = (st', Inr ((), r))"
  using assms
  by (cases f) (auto simp: Let_def on_read_def read_timestamp_def split: sum.splits if_splits)

lemma decode_message_header_resume:
  assumes "decode_message_header f st b = (st', Inl InsufficientBuffer)"
  shows "decode_message_header f st' (b @ x) = decode_message_header f st (b @ x)"
proof (cases f)
  case F0
  with assms show ?thesis
    by (auto simp: Let_def on_read_append stable_intros elim!: on_read_insufficient
        cong: if_cong sum.case_cong split: if_splits sum.splits)
next
  case F1
  with assms show ?thesis
    by (auto simp: Let_def on_read_append stable_intros elim!: on_read_insufficient
        cong: if_cong sum.case_cong split: if_splits sum.splits)
next
  case F2
  with assms show ?thesis
    by (auto simp: Let_def on_read_append stable_intros elim!: on_read_insufficient)
next
  case F3
  with assms show ?thesis
    by (auto elim!: on_read_insufficient split: if_splits)
qed


lemma sstable_decode_body: "sstable (\<lambda>b. decode_body cs f st b)"
  unfolding decode_body_def
  by (intro stable_intros sstable_decode_message_header sstable_decode_message_payload)

lemma decode_message_payload_insufficient:
  "decode_message_payload cs st b = (st', Inl InsufficientBuffer) \<Longrightarrow> st' = st"
  by (auto simp: decode_message_payload_def Let_def elim!: on_read_insufficient split: if_splits)

lemma decode_body_resume:
  assumes "decode_body cs f st b = (st', Inl InsufficientBuffer)"
  shows "decode_body cs f st' (b @ x) = decode_body cs f st (b @ x)"
proof -
  from assms consider "decode_message_header f st b = (st', Inl InsufficientBuffer)"
    | st1 r where "decode_message_header f st b = (st1, Inr ((), r))"
        "decode_message_payload cs st1 r = (st', Inl InsufficientBuffer)"
    by (auto simp: decode_body_def split: prod.splits sum.splits)
  then show ?thesis
  proof cases
    case 1
    then show ?thesis by (simp add: decode_body_def decode_message_header_resume)
  next
    case 2
    then have "st' = st1" by (simp add: decode_message_payload_insufficient)
    moreover have "decode_message_header f st1 (b @ x) = (st1, Inr ((), r @ x))"
      and "decode_message_header f st (b @ x) = (st1, Inr ((), r @ x))"
      using stableD(1) [OF sstable_decode_message_header] 2(1) decode_message_header_again by blast+
    ultimately show ?thesis by (simp add: decode_body_def)
  qed
qed

definition stream_for ::
  "chunk_decoder \<Rightarrow> message_header_format \<Rightarrow> rtmp_chunk_stream_id \<Rightarrow> dec_stream option" where
  "stream_for d f c =
     (case cd_chunk_streams d c of
        Some st \<Rightarrow> Some st
      | None \<Rightarrow> if f = F0 then Some dec_stream_new else None)"

lemma stream_for_upd [simp]:
  "stream_for (d\<lparr>cd_chunk_streams := (cd_chunk_streams d)(c \<mapsto> st)\<rparr>) f c = Some st"
  by (simp add: stream_for_def)

definition finish_chunk ::
  "chunk_decoder \<Rightarrow> rtmp_chunk_stream_id \<Rightarrow> nat \<Rightarrow> dec_stream \<times> bytes option read
     \<Rightarrow> chunk_decoder \<times> (error_kind + nat \<times> rtmp_chunk option)"
where
  "finish_chunk d c len =
     (\<lambda>(st', res).
       (d\<lparr>cd_chunk_streams := (cd_chunk_streams d)(c \<mapsto> st')\<rparr>,
        case res of
          Inl e \<Rightarrow> Inl e
        | Inr (maybe_payload, b2) \<Rightarrow>
            Inr (len - length b2,
                 map_option
                   (\<lambda>p. \<lparr>chunk_stream_id = c, message_stream_id = ds_message_stream_id st',
                         message_type = ds_message_type st', timestamp = ds_timestamp st',
                         payload = p\<rparr>) maybe_payload)))"

lemma chunk_decode_alt:
  "chunk_decode d buf =
     (case decode_chunk_basic_header buf of
        Inl e \<Rightarrow> (d, Inl e)
      | Inr ((f, c), b1) \<Rightarrow>
          (case stream_for d f c of
             None \<Rightarrow> (d, Inl InvalidData)
           | Some st \<Rightarrow> finish_chunk d c (length buf) (decode_body (cd_chunk_size d) f st b1)))"
  by (simp add: chunk_decode_def finish_chunk_def stream_for_def Let_def
      split: sum.splits option.splits prod.splits)

lemma finish_chunk_upd:
  "finish_chunk (d\<lparr>cd_chunk_streams := (cd_chunk_streams d)(c \<mapsto> st)\<rparr>) c n r = finish_chunk d c n r"
  by (simp add: finish_chunk_def split: prod.splits)

interpretation cdec: incremental_decoder chunk_decode InsufficientBuffer
proof unfold_locales
  fix d b d' n c
  assume "chunk_decode d b = (d', Inr (n, c))"
  then obtain f cid b1 st st' mp b2
    where h: "decode_chunk_basic_header b = Inr ((f, cid), b1)"
      and s: "stream_for d f cid = Some st"
      and bd: "decode_body (cd_chunk_size d) f st b1 = (st', Inr (mp, b2))"
      and r: "(d', Inr (n, c)) = finish_chunk d cid (length b) (st', Inr (mp, b2))"
    by (auto simp: chunk_decode_alt finish_chunk_def split: sum.splits option.splits prod.splits)
  note l = decode_chunk_basic_header_shorter [OF h] stableD(2) [OF sstable_decode_body bd]
  from l r show "0 < n \<and> n \<le> length b" by (auto simp: finish_chunk_def)
  fix x
  from pstableD(1) [OF pstable_decode_chunk_basic_header h] stableD(1) [OF sstable_decode_body bd] s r
  show "chunk_decode d (b @ x) = (d', Inr (n, c))"
    using l by (simp add: chunk_decode_alt finish_chunk_def)
next
  fix d b d' e x
  assume a: "chunk_decode d b = (d', Inl e)" and e: "e \<noteq> InsufficientBuffer"
  show "chunk_decode d (b @ x) = (d', Inl e)"
  proof (cases "decode_chunk_basic_header b")
    case (Inl e')
    with a e pstableD(3) [OF pstable_decode_chunk_basic_header Inl] show ?thesis
      by (auto simp: chunk_decode_alt)
  next
    case (Inr y)
    obtain f cid b1 where "y = ((f, cid), b1)" by (metis prod.collapse)
    with Inr have h: "decode_chunk_basic_header b = Inr ((f, cid), b1)" by simp
    note hx = pstableD(1) [OF pstable_decode_chunk_basic_header h, of x]
    show ?thesis
    proof (cases "stream_for d f cid")
      case (Some st)
      with a h obtain st' where "decode_body (cd_chunk_size d) f st b1 = (st', Inl e)"
        and "(d', Inl e) = finish_chunk d cid (length b) (st', Inl e)"
        by (auto simp: chunk_decode_alt finish_chunk_def split: sum.splits prod.splits)
      with hx Some stableD(3) [OF sstable_decode_body _ e] show ?thesis
        by (simp add: chunk_decode_alt finish_chunk_def)
    qed (use a h hx in \<open>simp add: chunk_decode_alt\<close>)
  qed
next
  fix d b d' x
  assume a: "chunk_decode d b = (d', Inl InsufficientBuffer)"
  show "chunk_decode d' (b @ x) = chunk_decode d (b @ x)"
  proof (cases "decode_chunk_basic_header b")
    case (Inl e)
    with a show ?thesis by (simp add: chunk_decode_alt)
  next
    case (Inr y)
    obtain f cid b1 where "y = ((f, cid), b1)" by (metis prod.collapse)
    with Inr have h: "decode_chunk_basic_header b = Inr ((f, cid), b1)" by simp
    note hx = pstableD(1) [OF pstable_decode_chunk_basic_header h, of x]
    from a h obtain st st' where s: "stream_for d f cid = Some st"
      and bd: "decode_body (cd_chunk_size d) f st b1 = (st', Inl InsufficientBuffer)"
      and d': "d' = d\<lparr>cd_chunk_streams := (cd_chunk_streams d)(cid \<mapsto> st')\<rparr>"
      by (auto simp: chunk_decode_alt finish_chunk_def split: sum.splits option.splits prod.splits)
    from hx s decode_body_resume [OF bd, of x] show ?thesis
      by (simp add: chunk_decode_alt finish_chunk_upd d')
  qed
qed

section \<open>Bounded reassembly\<close>

text \<open>
  What the decoder keeps per chunk stream: never more payload than the announced message size, and
  never an announced size above 8 MiB.
\<close>

definition dec_stream_inv :: "dec_stream \<Rightarrow> bool" where
  "dec_stream_inv st \<longleftrightarrow>
     length (ds_acc_payload st) \<le> ds_message_size st \<and> ds_message_size st \<le> max_message_size"

definition chunk_decoder_inv :: "chunk_decoder \<Rightarrow> bool" where
  "chunk_decoder_inv d \<longleftrightarrow> (\<forall>c st. cd_chunk_streams d c = Some st \<longrightarrow> dec_stream_inv st)"

lemma chunk_decoder_inv_simps [simp]:
  "chunk_decoder_inv chunk_decoder_default"
  "chunk_decoder_inv d \<Longrightarrow> chunk_decoder_inv (chunk_decoder_set_chunk_size d sz)"
  "chunk_decoder_inv d \<Longrightarrow> chunk_decoder_inv (chunk_decoder_reset_chunk_stream d c)"
  by (auto simp: chunk_decoder_inv_def chunk_decoder_default_def chunk_decoder_set_chunk_size_def
      chunk_decoder_reset_chunk_stream_def)

lemma decode_message_header_inv:
  "dec_stream_inv st \<Longrightarrow> decode_message_header f st b = (st', r) \<Longrightarrow> dec_stream_inv st'"
  by (cases f) (auto simp: dec_stream_inv_def Let_def on_read_def split: sum.splits if_splits)

lemma decode_message_payload_inv:
  "dec_stream_inv st \<Longrightarrow> decode_message_payload cs st b = (st', r) \<Longrightarrow> dec_stream_inv st'"
  by (auto simp: dec_stream_inv_def decode_message_payload_def Let_def on_read_def read_defs
      split: sum.splits if_splits)

lemma decode_body_inv:
  "dec_stream_inv st \<Longrightarrow> decode_body cs f st b = (st', r) \<Longrightarrow> dec_stream_inv st'"
  by (auto simp: decode_body_def split: prod.splits sum.splits
      dest: decode_message_header_inv decode_message_payload_inv)

lemma stream_for_inv: "chunk_decoder_inv d \<Longrightarrow> stream_for d f c = Some st \<Longrightarrow> dec_stream_inv st"
  by (auto simp: stream_for_def chunk_decoder_inv_def dec_stream_new_def dec_stream_inv_def
      split: option.splits if_splits)

lemma chunk_decode_preserves_inv:
  assumes "chunk_decoder_inv d" and "chunk_decode d b = (d', r)"
  shows "chunk_decoder_inv d'"
  using assms stream_for_inv [OF assms(1)] decode_body_inv
  by (fastforce simp: chunk_decode_alt finish_chunk_def chunk_decoder_inv_def
      split: sum.splits option.splits prod.splits if_splits)

text \<open>Under the invariant the payload reader never reports a surplus, only missing bytes.\<close>

lemma decode_message_payload_errors:
  "dec_stream_inv st \<Longrightarrow> decode_message_payload cs st b = (st', Inl e) \<Longrightarrow> e = InsufficientBuffer"
  by (auto simp: dec_stream_inv_def decode_message_payload_def Let_def on_read_def read_defs
      split: if_splits)

lemma decode_message_payload_Some:
  "dec_stream_inv st \<Longrightarrow> decode_message_payload cs st b = (st', Inr (Some p, r)) \<Longrightarrow>
     length p = ds_message_size st \<and> ds_acc_payload st' = []"
  by (auto simp: decode_message_payload_def Let_def on_read_def split: sum.splits if_splits)

end
