(* ===== verification/Rtmp_Chunk_Encoder.thy ===== *)
theory Rtmp_Chunk_Encoder
  imports Rtmp_Chunk_Types
begin

text \<open>
  \<^verbatim>\<open>chunk/encoder.rs\<close>: the encoder keeps, per chunk stream, what it last sent, and picks the most compact
  header for the next message. Each operation returns the new state and the bytes it appends.
\<close>

section \<open>State\<close>

record enc_stream =
  es_chunk_stream_id :: rtmp_chunk_stream_id
  es_timestamp :: rtmp_timestamp
  es_timestamp_delta :: rtmp_timestamp
  es_message_type :: rtmp_message_type
  es_message_stream_id :: rtmp_message_stream_id
  es_message_size :: nat
  es_format :: message_header_format
  es_enable_f3_extended_timestamp :: bool

record chunk_encoder =
  ce_chunk_size :: rtmp_chunk_size
  ce_chunk_streams :: "rtmp_chunk_stream_id \<rightharpoonup> enc_stream"

definition chunk_encoder_default :: chunk_encoder where
  "chunk_encoder_default = \<lparr>ce_chunk_size = chunk_size_default, ce_chunk_streams = Map.empty\<rparr>"

definition chunk_encoder_set_chunk_size :: "chunk_encoder \<Rightarrow> rtmp_chunk_size \<Rightarrow> chunk_encoder" where
  "chunk_encoder_set_chunk_size enc sz = enc\<lparr>ce_chunk_size := sz\<rparr>"

section \<open>Headers\<close>

definition encode_chunk_basic_header :: "message_header_format \<Rightarrow> rtmp_chunk_stream_id \<Rightarrow> bytes" where
  "encode_chunk_basic_header format c =
     (let fmt = format_id format; i = csid_get c in
      if i < 64 then write_u8 (push_bit 6 fmt OR ucast i)
      else if i < 320 then write_u8 (push_bit 6 fmt) @ write_u8 (ucast (i - 64))
      else write_u8 (push_bit 6 fmt OR 1) @ write_u16 (swap_bytes 2 (ucast (i - 64))))"

text \<open>The 24-bit timestamp field, and the 32-bit extension that follows the header when it is 0xFFFFFF.\<close>

definition write_timestamp_field :: "rtmp_timestamp \<Rightarrow> bytes" where
  "write_timestamp_field t = (if 0xFFFFFF \<le> t then write_u24 0xFFFFFF else write_u24 t)"

definition write_extended_timestamp :: "rtmp_timestamp \<Rightarrow> bytes" where
  "write_extended_timestamp t = (if 0xFFFFFF \<le> t then write_u32 t else [])"

fun encode_message_header :: "message_header_format \<Rightarrow> enc_stream \<Rightarrow> enc_stream \<times> bytes" where
  "encode_message_header F0 st =
     (let t = es_timestamp st in
      (st\<lparr>es_enable_f3_extended_timestamp := (0xFFFFFF \<le> t), es_timestamp_delta := t\<rparr>,
       write_timestamp_field t @ write_u24 (of_nat (es_message_size st))
       @ write_u8 (message_type_id (es_message_type st))
       @ write_u32 (swap_bytes 4 (es_message_stream_id st)) @ write_extended_timestamp t))"
| "encode_message_header F1 st =
     (let t = es_timestamp_delta st in
      (st\<lparr>es_enable_f3_extended_timestamp := (0xFFFFFF \<le> t)\<rparr>,
       write_timestamp_field t @ write_u24 (of_nat (es_message_size st))
       @ write_u8 (message_type_id (es_message_type st)) @ write_extended_timestamp t))"
| "encode_message_header F2 st =
     (let t = es_timestamp_delta st in
      (st\<lparr>es_enable_f3_extended_timestamp := (0xFFFFFF \<le> t)\<rparr>,
       write_timestamp_field t @ write_extended_timestamp t))"
| "encode_message_header F3 st =
     (st, if es_enable_f3_extended_timestamp st then write_u32 (es_timestamp_delta st) else [])"

section \<open>Fragmentation\<close>

text \<open>
  The \<^verbatim>\<open>while\<close> loop of \<^verbatim>\<open>encode_message\<close>; \<open>rest\<close> is the part of the payload not yet written. One fragment
  is written even for an empty payload, and every fragment after the first has format F3.
\<close>

function encode_message_loop ::
  "rtmp_chunk_size \<Rightarrow> message_header_format \<Rightarrow> enc_stream \<Rightarrow> bool \<Rightarrow> bytes \<Rightarrow> enc_stream \<times> bytes"
where
  "encode_message_loop cs format st first rest =
     (if first \<or> rest \<noteq> [] then
        (let basic = encode_chunk_basic_header format (es_chunk_stream_id st);
             (st1, header) = encode_message_header format st;
             n = min (length rest) (chunk_size_get cs);
             (st2, tail) = encode_message_loop cs F3 st1 False (drop n rest)
         in (st2, basic @ header @ take n rest @ tail))
      else (st, []))"
  by pat_completeness auto
termination
  by (relation "measure (\<lambda>(cs, format, st, first, rest). length rest + of_bool first)")
    (auto simp: min_def)

declare encode_message_loop.simps [simp del]

definition encode_message :: "chunk_encoder \<Rightarrow> enc_stream \<Rightarrow> bytes \<Rightarrow> enc_stream \<times> bytes" where
  "encode_message enc st message_payload =
     encode_message_loop (ce_chunk_size enc) (es_format st) st True message_payload"

section \<open>Choosing the header\<close>

definition choose_format :: "enc_stream \<Rightarrow> enc_stream \<Rightarrow> message_header_format" where
  "choose_format st prev =
     (if es_message_stream_id st = es_message_stream_id prev then
        (if es_message_type st = es_message_type prev
            \<and> es_message_size st = es_message_size prev then
           (if es_timestamp_delta st = es_timestamp_delta prev then F3 else F2)
         else F1)
      else F0)"

definition resolve_chunk_stream :: "chunk_encoder \<Rightarrow> rtmp_chunk \<Rightarrow> enc_stream" where
  "resolve_chunk_stream enc chunk =
     (let st = \<lparr>es_chunk_stream_id = chunk_stream_id chunk,
                es_timestamp = timestamp chunk,
                es_timestamp_delta = timestamp chunk,
                es_message_type = message_type chunk,
                es_message_stream_id = message_stream_id chunk,
                es_message_size = length (payload chunk),
                es_format = F0,
                es_enable_f3_extended_timestamp = False\<rparr>
      in case ce_chunk_streams enc (chunk_stream_id chunk) of
           None \<Rightarrow> st
         | Some prev \<Rightarrow>
             (let st1 = st\<lparr>es_enable_f3_extended_timestamp :=
                             es_enable_f3_extended_timestamp prev\<rparr>
              in case timestamp_checked_sub (es_timestamp st1) (es_timestamp prev) of
                   None \<Rightarrow> st1
                 | Some delta \<Rightarrow>
                     (let st2 = st1\<lparr>es_timestamp_delta := delta\<rparr>
                      in st2\<lparr>es_format := choose_format st2 prev\<rparr>)))"

definition chunk_encode :: "chunk_encoder \<Rightarrow> rtmp_chunk \<Rightarrow> chunk_encoder \<times> bytes" where
  "chunk_encode enc chunk =
     (let st = resolve_chunk_stream enc chunk;
          (st', bs) = encode_message enc st (payload chunk)
      in (enc\<lparr>ce_chunk_streams := (ce_chunk_streams enc)(chunk_stream_id chunk \<mapsto> st')\<rparr>, bs))"

fun chunk_encode_all :: "chunk_encoder \<Rightarrow> rtmp_chunk list \<Rightarrow> chunk_encoder \<times> bytes" where
  "chunk_encode_all enc [] = (enc, [])"
| "chunk_encode_all enc (c # cs) =
     (let (enc1, b1) = chunk_encode enc c; (enc2, b2) = chunk_encode_all enc1 cs in (enc2, b1 @ b2))"

section \<open>Frame facts\<close>

lemma encode_message_header_frame [simp]:
  "encode_message_header f st = (st', h) \<Longrightarrow>
     es_chunk_stream_id st' = es_chunk_stream_id st \<and> es_timestamp st' = es_timestamp st
     \<and> es_message_type st' = es_message_type st
     \<and> es_message_stream_id st' = es_message_stream_id st
     \<and> es_message_size st' = es_message_size st"
  by (cases f) (auto simp: Let_def)

lemma encode_message_loop_F3:
  "encode_message_loop cs F3 st False rest =
     (if rest \<noteq> [] then
        (let n = min (length rest) (chunk_size_get cs)
         in (st, encode_chunk_basic_header F3 (es_chunk_stream_id st)
                 @ (if es_enable_f3_extended_timestamp st then write_u32 (es_timestamp_delta st)
                    else [])
                 @ take n rest @ snd (encode_message_loop cs F3 st False (drop n rest))))
      else (st, []))"
proof (induction "length rest" arbitrary: rest rule: less_induct)
  case less
  let ?n = "min (length rest) (chunk_size_get cs)"
  have "rest \<noteq> [] \<Longrightarrow> fst (encode_message_loop cs F3 st False (drop ?n rest)) = st"
    using less [of "drop ?n rest"] by (simp add: Let_def)
  then show ?case
    by (subst encode_message_loop.simps) (simp add: Let_def case_prod_beta)
qed

lemma encode_message_loop_F3_state [simp]: "fst (encode_message_loop cs F3 st False rest) = st"
  by (subst encode_message_loop_F3) (simp add: Let_def)

lemma encode_message_loop_first:
  "encode_message_loop cs f st True rest =
     (let (st1, header) = encode_message_header f st;
          n = min (length rest) (chunk_size_get cs)
      in (st1, encode_chunk_basic_header f (es_chunk_stream_id st) @ header @ take n rest
               @ snd (encode_message_loop cs F3 st1 False (drop n rest))))"
  by (subst encode_message_loop.simps) (simp add: Let_def case_prod_beta)

end
