(* ===== verification/Rtmp_Chunk_Roundtrip.thy ===== *)
theory Rtmp_Chunk_Roundtrip
  imports Rtmp_Chunk_Encoder Rtmp_Chunk_Decoder
begin

text \<open>
  The chunk encoder and the chunk decoder are inverse to each other: whatever messages are sent, on
  whatever chunk streams and with whatever chunk size, the decoder returns exactly these messages in
  order. The proof carries a relation between the two per-stream states through every fragment.
\<close>

section \<open>Basic headers\<close>

lemma format_id_drop:
  assumes "v < (64 :: u8)"
  shows "drop_bit 6 (push_bit 6 (format_id f) OR v) = format_id f"
    and "(push_bit 6 (format_id f) OR v) AND 0x3F = v"
proof -
  have m: "(0x3F :: u8) = mask 6" by (simp add: mask_eq_exp_minus_1)
  have "unat v < 64" using assms by (simp add: word_less_nat_alt)
  then have v: "take_bit 6 v = v"
    by (simp add: word_unat_eq_iff unsigned_take_bit_eq take_bit_eq_mod unat_mod_distrib)
  then have dv: "drop_bit 6 v = 0" by (metis drop_bit_take_bit diff_self_eq_0 take_bit_0)
  have "drop_bit 6 (push_bit 6 (format_id f)) = format_id f"
    by (cases f) simp_all
  then show "drop_bit 6 (push_bit 6 (format_id f) OR v) = format_id f"
    by (simp add: drop_bit_or dv)
  have "take_bit 6 (push_bit 6 (format_id f)) = 0"
    by (simp add: take_bit_push_bit)
  with v show "(push_bit 6 (format_id f) OR v) AND 0x3F = v"
    by (simp add: m take_bit_or flip: take_bit_eq_mask)
qed

lemma ucast_roundtrip:
  "unat (i :: u32) < 256 \<Longrightarrow> ucast (ucast i :: u8) = i"
  "unat (i :: u32) < 65536 \<Longrightarrow> ucast (ucast i :: u16) = i"
  by (simp_all add: word_unat_eq_iff unsigned_ucast_eq take_bit_eq_mod unat_mod_distrib)

lemma decode_basic_header_one:
  assumes "drop_bit 6 b = format_id f" and "b AND 0x3F = v" and "v \<noteq> 0" and "v \<noteq> 1"
    and "ucast v = csid_get c"
  shows "decode_chunk_basic_header (b # r) = Inr ((f, c), r)"
  using assms by (simp add: decode_chunk_basic_header_def Let_def)

lemma decode_encode_basic_header:
  "decode_chunk_basic_header (encode_chunk_basic_header f c @ r) = Inr ((f, c), r)"
proof -
  let ?i = "csid_get c"
  have i: "2 \<le> unat ?i" "unat ?i \<le> 65599"
    using csid_get_range [of c] by (simp_all add: word_le_nat_alt)
  consider (one) "unat ?i < 64" | (two) "64 \<le> unat ?i" "unat ?i < 320" | (three) "320 \<le> unat ?i"
    by linarith
  then show ?thesis
  proof cases
    case one
    let ?v = "ucast ?i :: u8"
    have u: "unat ?v = unat ?i" using one by (simp add: unsigned_ucast_eq take_bit_eq_mod)
    then have v: "?v < 64" "?v \<noteq> 0" "?v \<noteq> 1"
      using one i by (auto simp: word_less_nat_alt simp flip: word_unat_eq_iff)
    have "encode_chunk_basic_header f c = [push_bit 6 (format_id f) OR ?v]"
      using one by (simp add: encode_chunk_basic_header_def Let_def word_less_nat_alt write_u8_def)
    with decode_basic_header_one [OF format_id_drop [OF v(1)] v(2,3)] show ?thesis
      using one by (simp add: ucast_roundtrip)
  next
    case two
    have "unat (?i - 64) = unat ?i - 64" using two by (simp add: unat_sub word_le_nat_alt)
    then have "ucast (ucast (?i - 64) :: u8) + 64 = ?i" using two by (simp add: ucast_roundtrip)
    then show ?thesis
      using two format_id_drop [of 0 f]
      by (simp add: encode_chunk_basic_header_def decode_chunk_basic_header_def Let_def
          word_less_nat_alt write_u8_def)
  next
    case three
    have "unat (?i - 64) = unat ?i - 64" using three by (simp add: unat_sub word_le_nat_alt)
    then have "ucast (ucast (?i - 64) :: u16) + 64 = ?i" using three i by (simp add: ucast_roundtrip)
    then show ?thesis
      using three format_id_drop [of 1 f]
      by (simp add: encode_chunk_basic_header_def decode_chunk_basic_header_def Let_def
          word_less_nat_alt write_u8_def)
  qed
qed


section \<open>Message headers\<close>

text \<open>
  \<open>in_flight e d acc\<close>: in the middle of a message the decoder agrees with the encoder on every header
  field and has collected \<open>acc\<close>; its timestamp is still one delta behind. \<open>stream_sync e d\<close>: between
  messages they agree on everything.
\<close>

definition in_flight :: "enc_stream \<Rightarrow> dec_stream \<Rightarrow> bytes \<Rightarrow> bool" where
  "in_flight e d acc \<longleftrightarrow>
     ds_message_type d = es_message_type e \<and> ds_message_stream_id d = es_message_stream_id e
     \<and> ds_message_size d = es_message_size e
     \<and> ds_enable_f3_extended_timestamp d = es_enable_f3_extended_timestamp e
     \<and> ds_timestamp_delta d = es_timestamp_delta e
     \<and> ds_timestamp d + ds_timestamp_delta d = es_timestamp e \<and> ds_acc_payload d = acc"

definition stream_sync :: "enc_stream \<Rightarrow> dec_stream \<Rightarrow> bool" where
  "stream_sync e d \<longleftrightarrow>
     ds_message_type d = es_message_type e \<and> ds_message_stream_id d = es_message_stream_id e
     \<and> ds_message_size d = es_message_size e
     \<and> ds_enable_f3_extended_timestamp d = es_enable_f3_extended_timestamp e
     \<and> ds_timestamp_delta d = es_timestamp_delta e
     \<and> ds_timestamp d = es_timestamp e \<and> ds_acc_payload d = []"

lemma write_timestamp_field_eq:
  "write_timestamp_field t = write_u24 (if 0xFFFFFF \<le> t then 0xFFFFFF else t)"
  by (simp add: write_timestamp_field_def)

lemma read_timestamp_field [simp]:
  "read_u24 (write_timestamp_field t @ r) = Inr (if 0xFFFFFF \<le> t then 0xFFFFFF else t, r)"
  unfolding write_timestamp_field_eq
  by (rule read_u24_write) (auto simp: word_le_nat_alt not_le)

lemma timestamp_field_extended [simp]:
  "(if 0xFFFFFF \<le> t then 0xFFFFFF else t) = (0xFFFFFF :: u32) \<longleftrightarrow> 0xFFFFFF \<le> t"
  by auto

lemma read_extended_timestamp [simp]:
  "read_timestamp (0xFFFFFF \<le> t) (if 0xFFFFFF \<le> t then 0xFFFFFF else t)
     (write_extended_timestamp t @ r) = Inr (t, r)"
  by (simp add: read_timestamp_def write_extended_timestamp_def)

lemma read_message_size [simp]:
  "n \<le> max_message_size \<Longrightarrow> read_u24 (write_u24 (of_nat n) @ r) = Inr (of_nat n, r)"
  by (rule read_u24_write) (simp add: unat_of_nat max_message_size_def)

lemma unat_message_size [simp]: "n \<le> max_message_size \<Longrightarrow> unat (of_nat n :: u32) = n"
  by (simp add: unat_of_nat max_message_size_def)

text \<open>What the decoder must already know for a header of a given format.\<close>

definition header_pre :: "message_header_format \<Rightarrow> enc_stream \<Rightarrow> dec_stream \<Rightarrow> bool" where
  "header_pre f st d \<longleftrightarrow>
     (f \<noteq> F0 \<longrightarrow>
        ds_message_stream_id d = es_message_stream_id st
        \<and> ds_timestamp d + es_timestamp_delta st = es_timestamp st)
     \<and> (f = F2 \<or> f = F3 \<longrightarrow>
        ds_message_type d = es_message_type st \<and> ds_message_size d = es_message_size st
        \<and> ds_acc_payload d = [])
     \<and> (f = F3 \<longrightarrow>
        ds_timestamp_delta d = es_timestamp_delta st
        \<and> ds_enable_f3_extended_timestamp d = es_enable_f3_extended_timestamp st)"

lemma decode_encode_header:
  assumes "header_pre f st d" and "es_message_size st \<le> max_message_size"
    and "encode_message_header f st = (st1, h)"
  shows "\<exists>d1. decode_message_header f d (h @ r) = (d1, Inr ((), r)) \<and> in_flight st1 d1 []"
  using assms
  by (cases f) (auto simp: header_pre_def Let_def on_read_Inr in_flight_def write_u8_def)

lemma decode_encode_header_F3:
  assumes "in_flight st d acc"
  shows "decode_message_header F3 d (snd (encode_message_header F3 st) @ r) = (d, Inr ((), r))"
  using assms by (auto simp: on_read_Inr in_flight_def)

section \<open>Fragments\<close>

definition chunk_of :: "enc_stream \<Rightarrow> bytes \<Rightarrow> rtmp_chunk" where
  "chunk_of st p =
     \<lparr>chunk_stream_id = es_chunk_stream_id st, message_stream_id = es_message_stream_id st,
      message_type = es_message_type st, timestamp = es_timestamp st, payload = p\<rparr>"

definition settle :: "enc_stream \<Rightarrow> dec_stream \<Rightarrow> dec_stream" where
  "settle st d = d\<lparr>ds_timestamp := es_timestamp st, ds_acc_payload := []\<rparr>"

lemma decode_fragment:
  assumes "in_flight st d acc" and "length acc + length rest = es_message_size st"
    and n: "n = min (length rest) (chunk_size_get (cd_chunk_size dd))"
    and s: "stream_for dd f (es_chunk_stream_id st) = Some d0"
    and h: "decode_message_header f d0 (h @ take n rest @ x) = (d, Inr ((), take n rest @ x))"
  shows "chunk_decode dd (encode_chunk_basic_header f (es_chunk_stream_id st) @ h @ take n rest @ x) =
    (dd\<lparr>cd_chunk_streams := (cd_chunk_streams dd)(es_chunk_stream_id st \<mapsto>
          if n = length rest then settle st d else d\<lparr>ds_acc_payload := acc @ take n rest\<rparr>)\<rparr>,
     Inr (length (encode_chunk_basic_header f (es_chunk_stream_id st) @ h @ take n rest),
          if n = length rest then Some (chunk_of st (acc @ rest)) else None))"
proof -
  have m: "min (ds_message_size d - length (ds_acc_payload d)) (chunk_size_get (cd_chunk_size dd)) = n"
    and l: "length (take n rest) = n" and le: "\<not> ds_message_size d < length (ds_acc_payload d)"
    and e: "length acc + n = es_message_size st \<longleftrightarrow> n = length rest"
    using assms(1,2) n by (auto simp: in_flight_def)
  have "decode_message_payload (cd_chunk_size dd) d (take n rest @ x) =
    (if n = length rest then settle st d else d\<lparr>ds_acc_payload := acc @ take n rest\<rparr>,
     Inr (if n = length rest then Some (acc @ rest) else None, x))"
    using m l le e assms(1)
    by (auto simp: decode_message_payload_def Let_def on_read_Inr in_flight_def settle_def
        timestamp_wrapping_add_def)
  then show ?thesis
    using assms(1) by (simp add: chunk_decode_alt decode_encode_basic_header s h decode_body_def
        finish_chunk_def chunk_of_def settle_def in_flight_def)
qed

lemma yields_fragments:
  assumes "cd_chunk_streams dd (es_chunk_stream_id st) = Some d" and "in_flight st d acc"
    and "length acc + length rest = es_message_size st" and "rest \<noteq> []"
  shows "yields chunk_decode dd
           (snd (encode_message_loop (cd_chunk_size dd) F3 st False rest)) (chunk_of st (acc @ rest))
           (dd\<lparr>cd_chunk_streams := (cd_chunk_streams dd)(es_chunk_stream_id st \<mapsto> settle st d)\<rparr>)"
  using assms
proof (induction "length rest" arbitrary: rest acc d dd rule: less_induct)
  case less
  let ?n = "min (length rest) (chunk_size_get (cd_chunk_size dd))"
  let ?c = "es_chunk_stream_id st"
  let ?h = "snd (encode_message_header F3 st)"
  let ?w = "encode_chunk_basic_header F3 ?c @ ?h @ take ?n rest"
  let ?tail = "snd (encode_message_loop (cd_chunk_size dd) F3 st False (drop ?n rest))"
  have w: "snd (encode_message_loop (cd_chunk_size dd) F3 st False rest) = ?w @ ?tail"
    using less.prems(4) by (subst encode_message_loop_F3) (simp add: Let_def)
  have s: "stream_for dd F3 ?c = Some d" using less.prems(1) by (simp add: stream_for_def)
  note step = decode_fragment [OF less.prems(2,3) refl s decode_encode_header_F3 [OF less.prems(2)],
      of "[]", unfolded append_Nil2]
  show ?case
  proof (cases "?n = length rest")
    case True
    then have tl: "?tail = []" by (subst encode_message_loop_F3) simp
    show ?thesis
      unfolding w tl append_Nil2 by (rule yields.last) (use True step in simp)
  next
    case False
    let ?d = "d\<lparr>ds_acc_payload := acc @ take ?n rest\<rparr>"
    let ?dd = "dd\<lparr>cd_chunk_streams := (cd_chunk_streams dd)(?c \<mapsto> ?d)\<rparr>"
    have r: "drop ?n rest \<noteq> []" "length (drop ?n rest) < length rest"
      using False less.prems(4) by (auto simp: min_def split: if_splits)
    have f: "in_flight st ?d (acc @ take ?n rest)"
      using less.prems(2) by (auto simp: in_flight_def)
    have same: "settle st ?d = settle st d" by (simp add: settle_def)
    have ih: "yields chunk_decode ?dd ?tail (chunk_of st (acc @ rest))
        (dd\<lparr>cd_chunk_streams := (cd_chunk_streams dd)(?c \<mapsto> settle st d)\<rparr>)"
      using less.hyps [OF r(2) _ f _ r(1), of ?dd] less.prems(3) by (simp add: same)
    have "chunk_decode dd ?w = (?dd, Inr (length ?w, None))"
      using step by (simp only: False if_False)
    from yields.more [of chunk_decode, OF this ih] show ?thesis unfolding w .
  qed
qed

section \<open>Whole messages\<close>

definition chunk_synced :: "chunk_encoder \<Rightarrow> chunk_decoder \<Rightarrow> bool" where
  "chunk_synced enc dd \<longleftrightarrow>
     cd_chunk_size dd = ce_chunk_size enc
     \<and> (\<forall>c e. ce_chunk_streams enc c = Some e \<longrightarrow>
           (\<exists>d. cd_chunk_streams dd c = Some d \<and> stream_sync e d))"

lemma chunk_synced_default [simp]: "chunk_synced chunk_encoder_default chunk_decoder_default"
  by (simp add: chunk_synced_def chunk_encoder_default_def chunk_decoder_default_def)

lemma chunk_synced_set_chunk_size [simp]:
  "chunk_synced enc dd \<Longrightarrow>
     chunk_synced (chunk_encoder_set_chunk_size enc sz) (chunk_decoder_set_chunk_size dd sz)"
  by (simp add: chunk_synced_def chunk_encoder_set_chunk_size_def chunk_decoder_set_chunk_size_def)

lemma resolve_chunk_stream_fields [simp]:
  "es_chunk_stream_id (resolve_chunk_stream enc ch) = chunk_stream_id ch"
  "es_message_size (resolve_chunk_stream enc ch) = length (payload ch)"
  "es_timestamp (resolve_chunk_stream enc ch) = timestamp ch"
  "es_message_type (resolve_chunk_stream enc ch) = message_type ch"
  "es_message_stream_id (resolve_chunk_stream enc ch) = message_stream_id ch"
  by (simp_all add: resolve_chunk_stream_def Let_def split: option.splits)

lemma resolve_header_pre:
  fixes ch :: rtmp_chunk
  assumes "chunk_synced enc dd"
  defines "st \<equiv> resolve_chunk_stream enc ch"
  shows "\<exists>d. stream_for dd (es_format st) (chunk_stream_id ch) = Some d \<and> header_pre (es_format st) st d"
proof (cases "ce_chunk_streams enc (chunk_stream_id ch)")
  case None
  then have "es_format st = F0" by (simp add: st_def resolve_chunk_stream_def)
  then show ?thesis by (auto simp: stream_for_def header_pre_def split: option.splits)
next
  case (Some prev)
  with assms(1) obtain d where d: "cd_chunk_streams dd (chunk_stream_id ch) = Some d"
    and sy: "stream_sync prev d" by (auto simp: chunk_synced_def)
  have "header_pre (es_format st) st d"
  proof (cases "checked_sub (timestamp ch) (es_timestamp prev)")
    case None
    with Some have "es_format st = F0"
      by (simp add: st_def resolve_chunk_stream_def Let_def timestamp_checked_sub_def)
    then show ?thesis by (simp add: header_pre_def)
  next
    case (Some delta)
    from checked_sub_Some [OF Some] sy Some \<open>ce_chunk_streams enc _ = Some prev\<close> show ?thesis
      by (auto simp: st_def resolve_chunk_stream_def Let_def timestamp_checked_sub_def
          header_pre_def stream_sync_def choose_format_def)
  qed
  with d show ?thesis by (auto simp: stream_for_def)
qed

lemma settle_sync: "in_flight st d acc \<Longrightarrow> stream_sync st (settle st d)"
  by (auto simp: in_flight_def stream_sync_def settle_def)

lemma yields_chunk_encode:
  assumes sy: "chunk_synced enc dd" and len: "length (payload ch) \<le> max_message_size"
    and enc: "chunk_encode enc ch = (enc', bs)"
  shows "\<exists>dd'. chunk_synced enc' dd' \<and> yields chunk_decode dd bs ch dd'"
proof -
  define st where "st = resolve_chunk_stream enc ch"
  let ?f = "es_format st" and ?c = "chunk_stream_id ch" and ?cs = "ce_chunk_size enc"
  let ?n = "min (length (payload ch)) (chunk_size_get ?cs)"
  obtain st1 h where eh: "encode_message_header ?f st = (st1, h)" by fastforce
  note fr = encode_message_header_frame [OF eh, unfolded st_def resolve_chunk_stream_fields,
      folded st_def]
  from resolve_header_pre [OF sy, of ch] obtain d0 where
    d0: "stream_for dd ?f ?c = Some d0" and hp: "header_pre ?f st d0" by (auto simp: st_def)
  have "es_message_size st \<le> max_message_size" using len by (simp add: st_def)
  note hdr = decode_encode_header [OF hp this eh]
  obtain d where d: "\<And>r. decode_message_header ?f d0 (h @ r) = (d, Inr ((), r))"
    and fl: "in_flight st1 d []"
  proof -
    from hdr [of "[]"] obtain d where d: "decode_message_header ?f d0 h = (d, Inr ((), []))"
      and fl: "in_flight st1 d []" by auto
    from stableD(1) [OF sstable_decode_message_header d] have
      "decode_message_header ?f d0 (h @ r) = (d, Inr ((), r))" for r by simp
    with fl that show thesis by blast
  qed
  let ?tail = "snd (encode_message_loop ?cs F3 st1 False (drop ?n (payload ch)))"
  have bs: "bs = encode_chunk_basic_header ?f ?c @ h @ take ?n (payload ch) @ ?tail"
    and enc': "enc' = enc\<lparr>ce_chunk_streams := (ce_chunk_streams enc)(?c \<mapsto> st1)\<rparr>"
    using enc eh
    by (auto simp: chunk_encode_def encode_message_def encode_message_loop_first Let_def st_def)
  let ?dd = "dd\<lparr>cd_chunk_streams := (cd_chunk_streams dd)(?c \<mapsto> settle st1 d)\<rparr>"
  have "chunk_synced enc' ?dd"
    using sy settle_sync [OF fl] by (auto simp: chunk_synced_def enc')
  moreover have "yields chunk_decode dd bs ch ?dd"
  proof -
    have cs: "cd_chunk_size dd = ?cs" using sy by (simp add: chunk_synced_def)
    have ch: "chunk_of st1 (payload ch) = ch" using fr by (simp add: chunk_of_def)
    have c: "es_chunk_stream_id st1 = ?c" using fr by simp
    have step: "chunk_decode dd (encode_chunk_basic_header ?f ?c @ h @ take ?n (payload ch)) =
      (dd\<lparr>cd_chunk_streams := (cd_chunk_streams dd)(?c \<mapsto>
          if ?n = length (payload ch) then settle st1 d
          else d\<lparr>ds_acc_payload := take ?n (payload ch)\<rparr>)\<rparr>,
       Inr (length (encode_chunk_basic_header ?f ?c @ h @ take ?n (payload ch)),
            if ?n = length (payload ch) then Some ch else None))"
      using decode_fragment [OF fl, of "payload ch" ?n dd ?f d0 h "[]"] d0 d fr
      by (simp add: cs c ch)
    let ?w = "encode_chunk_basic_header ?f ?c @ h @ take ?n (payload ch)"
    have bsx: "bs = ?w @ ?tail" by (simp add: bs)
    show ?thesis
    proof (cases "?n = length (payload ch)")
      case True
      then have tl: "?tail = []" by (subst encode_message_loop_F3) simp
      show ?thesis
        unfolding bsx tl append_Nil2 by (rule yields.last) (use step in \<open>simp only: True if_True refl\<close>)
    next
      case False
      let ?d = "d\<lparr>ds_acc_payload := take ?n (payload ch)\<rparr>"
      let ?dm = "dd\<lparr>cd_chunk_streams := (cd_chunk_streams dd)(?c \<mapsto> ?d)\<rparr>"
      have rest: "drop ?n (payload ch) \<noteq> []" using False by (auto simp: min_def split: if_splits)
      have fl': "in_flight st1 ?d (take ?n (payload ch))" using fl by (auto simp: in_flight_def)
      have "settle st1 ?d = settle st1 d" by (simp add: settle_def)
      with yields_fragments [of ?dm st1 ?d, OF _ fl' _ rest] fr cs ch
      have ih: "yields chunk_decode ?dm ?tail ch ?dd"
        by simp
      have "chunk_decode dd ?w = (?dm, Inr (length ?w, None))"
        using step by (simp only: False if_False)
      from yields.more [of chunk_decode, OF this ih] show ?thesis unfolding bsx .
    qed
  qed
  ultimately show ?thesis by blast
qed

lemma drain_chunk_encode:
  assumes "chunk_synced enc dd" and "length (payload ch) \<le> max_message_size"
    and "chunk_encode enc ch = (enc', bs)"
  shows "\<exists>dd'. chunk_synced enc' dd' \<and>
    (\<forall>x. drain chunk_decode dd (bs @ x) =
       (case drain chunk_decode dd' x of (s, e, cs, r) \<Rightarrow> (s, e, ch # cs, r)))"
  using yields_chunk_encode [OF assms] by (auto simp: cdec.yields_drain)

lemma drain_chunk_encode_all:
  assumes "chunk_synced enc dd" and "\<forall>ch \<in> set chs. length (payload ch) \<le> max_message_size"
    and "chunk_encode_all enc chs = (enc', bs)"
  shows "\<exists>dd'. chunk_synced enc' dd' \<and>
    (\<forall>x. drain chunk_decode dd (bs @ x) =
       (case drain chunk_decode dd' x of (s, e, cs, r) \<Rightarrow> (s, e, chs @ cs, r)))"
  using assms
proof (induction chs arbitrary: enc dd bs)
  case (Cons ch chs)
  obtain enc1 b1 where 1: "chunk_encode enc ch = (enc1, b1)" by fastforce
  obtain b2 where 2: "chunk_encode_all enc1 chs = (enc', b2)" and bs: "bs = b1 @ b2"
    using Cons.prems(3) 1 by (auto split: prod.splits)
  from drain_chunk_encode [OF Cons.prems(1) _ 1] Cons.prems(2) obtain d1 where
    d1: "chunk_synced enc1 d1" "\<And>x. drain chunk_decode dd (b1 @ x) =
       (case drain chunk_decode d1 x of (s, e, cs, r) \<Rightarrow> (s, e, ch # cs, r))" by auto
  from Cons.IH [OF d1(1) _ 2] Cons.prems(2) obtain d2 where
    d2: "chunk_synced enc' d2" "\<And>x. drain chunk_decode d1 (b2 @ x) =
       (case drain chunk_decode d2 x of (s, e, cs, r) \<Rightarrow> (s, e, chs @ cs, r))" by auto
  show ?case
    by (rule exI [of _ d2]) (auto simp: bs d1(2) d2 split: prod.splits)
qed (auto split: prod.splits)

lemma drain_Nil [simp]: "drain chunk_decode dd [] = (dd, Some InsufficientBuffer, [], [])"
  by (rule cdec.drain_Inl)
    (simp add: chunk_decode_alt decode_chunk_basic_header_def read_u8_def check_buffer_size_def)

end
