(* ===== verification/Rtmp_Chunk_Properties.thy ===== *)
theory Rtmp_Chunk_Properties
  imports Rtmp_Chunk_Roundtrip
begin

text \<open>
  The properties of the chunk layer: what a peer that reads the output of the encoder sees, that the
  cutting of the byte stream into network reads is invisible, and that the decoder keeps a bounded
  amount of payload per chunk stream whatever the peer sends.
\<close>

section \<open>The decoder behind the receive buffer\<close>

interpretation chunk_rx:
  buffered_decoder buf_default buf_get buf_feed buf_advance buf_invar chunk_decode InsufficientBuffer
  by unfold_locales

lemma chunk_drain_settled: "drain chunk_decode d [] = (d, Some InsufficientBuffer, [], [])"
  by (rule drain_Nil)

section \<open>Reachable decoders\<close>

text \<open>Everything the connection does with its chunk decoder, in any order.\<close>

inductive chunk_decoder_reach :: "chunk_decoder \<Rightarrow> bool" where
  init: "chunk_decoder_reach chunk_decoder_default"
| decode: "chunk_decoder_reach d \<Longrightarrow> chunk_decode d b = (d', r) \<Longrightarrow> chunk_decoder_reach d'"
| set_chunk_size: "chunk_decoder_reach d \<Longrightarrow> chunk_decoder_reach (chunk_decoder_set_chunk_size d sz)"
| reset: "chunk_decoder_reach d \<Longrightarrow> chunk_decoder_reach (chunk_decoder_reset_chunk_stream d c)"

lemma chunk_decoder_reach_inv: "chunk_decoder_reach d \<Longrightarrow> chunk_decoder_inv d"
  by (induction rule: chunk_decoder_reach.induct) (auto intro: chunk_decode_preserves_inv)

lemma chunk_decode_payload_bound:
  assumes "chunk_decoder_inv d" and "chunk_decode d b = (d', Inr (n, Some ch))"
  shows "length (payload ch) \<le> max_message_size"
proof -
  from assms(2) obtain f c b1 st st1 st' b2 p b3 where
    st: "stream_for d f c = Some st" and hd: "decode_message_header f st b1 = (st1, Inr ((), b2))"
    and pl: "decode_message_payload (cd_chunk_size d) st1 b2 = (st', Inr (Some p, b3))"
    and p: "payload ch = p"
    by (auto simp: chunk_decode_alt finish_chunk_def decode_body_def
        split: sum.splits option.splits prod.splits)
  have inv: "dec_stream_inv st1"
    by (rule decode_message_header_inv [OF stream_for_inv [OF assms(1) st] hd])
  from decode_message_payload_Some [OF inv pl] inv p show ?thesis
    by (simp add: dec_stream_inv_def)
qed

section \<open>Properties\<close>

text \<open>
  C9: whatever list of messages is sent through the chunk encoder (any chunk streams, types,
  timestamps and stream ids, payloads up to the protocol maximum of 8 MiB), and however the bytes are
  cut into network reads, the chunk decoder returns exactly these messages, in order, with nothing
  left over.
\<close>

theorem chunk_stream_roundtrip:
  assumes "\<forall>ch \<in> set chs. length (payload ch) \<le> max_message_size"
    and "concat pieces = snd (chunk_encode_all chunk_encoder_default chs)"
  shows "\<exists>d. drain_pieces chunk_decode InsufficientBuffer chunk_decoder_default [] pieces =
             (d, Some InsufficientBuffer, chs, [])"
proof -
  obtain enc' bs where e: "chunk_encode_all chunk_encoder_default chs = (enc', bs)" by fastforce
  from drain_chunk_encode_all [OF chunk_synced_default assms(1) e] obtain d where
    "drain chunk_decode chunk_decoder_default (bs @ []) =
       (case drain chunk_decode d [] of (s, e, cs, r) \<Rightarrow> (s, e, chs @ cs, r))" by blast
  then show ?thesis
    using cdec.drain_pieces_concat [OF chunk_drain_settled, of chunk_decoder_default pieces] assms(2) e
    by (simp add: chunk_drain_settled)
qed

theorem chunk_stream_roundtrip_witness:
  "\<exists>d. drain_pieces chunk_decode InsufficientBuffer chunk_decoder_default []
     [take 5 (snd (chunk_encode_all chunk_encoder_default
        [\<lparr>chunk_stream_id = Csid 3, message_stream_id = 1, message_type = MtAudio, timestamp = 7, payload = [1, 2]\<rparr>,
         \<lparr>chunk_stream_id = Csid 3, message_stream_id = 1, message_type = MtAudio, timestamp = 9, payload = [3]\<rparr>])),
      drop 5 (snd (chunk_encode_all chunk_encoder_default
        [\<lparr>chunk_stream_id = Csid 3, message_stream_id = 1, message_type = MtAudio, timestamp = 7, payload = [1, 2]\<rparr>,
         \<lparr>chunk_stream_id = Csid 3, message_stream_id = 1, message_type = MtAudio, timestamp = 9, payload = [3]\<rparr>]))] =
     (d, Some InsufficientBuffer,
      [\<lparr>chunk_stream_id = Csid 3, message_stream_id = 1, message_type = MtAudio, timestamp = 7, payload = [1, 2]\<rparr>,
       \<lparr>chunk_stream_id = Csid 3, message_stream_id = 1, message_type = MtAudio, timestamp = 9, payload = [3]\<rparr>], [])"
  by (rule chunk_stream_roundtrip) (auto simp: max_message_size_def simp del: chunk_encode_all.simps)

text \<open>
  C20: the chunk decoder's answer on arbitrary, also malformed, input depends only on the bytes received
  and not on how they were cut into pieces: running it whenever a piece arrives gives the same state,
  messages, error and left-over bytes as running it once on everything.
\<close>

theorem chunk_decode_fragmentation_independent:
  "drain_pieces chunk_decode InsufficientBuffer d [] ps = drain chunk_decode d (concat ps)"
  using cdec.drain_pieces_concat [OF chunk_drain_settled, of d ps] by simp

text \<open>
  Feeding the receive buffer with any pieces and then running the decoding loop over it (decode at
  the unconsumed bytes, advance by what was consumed) gives the result of decoding the concatenation,
  and leaves exactly the undecoded bytes in the buffer, whatever compaction the buffer did.
\<close>

lemma chunk_receive_buffer_refines_list:
  "\<exists>b. buf_invar b
     \<and> pump buf_get buf_advance chunk_decode d (foldl buf_feed buf_default ps) =
         (case drain chunk_decode d (concat ps) of (s, e, cs, r) \<Rightarrow> (s, e, cs, b))
     \<and> buf_get b = snd (snd (snd (drain chunk_decode d (concat ps))))"
  using chunk_rx.pump_drain [OF rbuf.invar_feeds [OF rbuf.invar_empty], of d ps]
  by (simp add: rbuf.get_feeds [OF rbuf.invar_empty] rbuf.get_empty)

text \<open>
  C21: in every state the decoder can reach, whatever bytes, chunk-size changes and aborts came before,
  each chunk stream holds no more payload than its announced message size, that size is at most 8 MiB,
  and a decoding step delivers no larger message and consumes between one byte and all of its input.
\<close>

theorem chunk_decoder_bounded:
  assumes "chunk_decoder_reach d"
  shows "(\<forall>c st. cd_chunk_streams d c = Some st \<longrightarrow>
            length (ds_acc_payload st) \<le> ds_message_size st \<and> ds_message_size st \<le> 8388608)
     \<and> (\<forall>b d' n c. chunk_decode d b = (d', Inr (n, c)) \<longrightarrow>
            0 < n \<and> n \<le> length b \<and> (\<forall>ch. c = Some ch \<longrightarrow> length (payload ch) \<le> 8388608))"
proof -
  note inv = chunk_decoder_reach_inv [OF assms]
  have m: "max_message_size = 8388608" by (simp add: max_message_size_def)
  from inv cdec.progress chunk_decode_payload_bound [OF inv] show ?thesis
    by (fastforce simp: chunk_decoder_inv_def dec_stream_inv_def m)
qed

lemma chunk_decode_one_chunk:
  "chunk_decode chunk_decoder_default [3, 0, 0, 5, 0, 0, 1, 8, 1, 0, 0, 0, 7] =
    (\<lparr>cd_chunk_size = chunk_size_default,
      cd_chunk_streams = [Csid 3 \<mapsto>
        \<lparr>ds_timestamp = 5, ds_timestamp_delta = 5, ds_message_type = MtAudio,
         ds_message_stream_id = 1, ds_message_size = 1, ds_acc_payload = [],
         ds_enable_f3_extended_timestamp = False\<rparr>]\<rparr>,
     Inr (13, Some \<lparr>chunk_stream_id = Csid 3, message_stream_id = 1, message_type = MtAudio,
                     timestamp = 5, payload = [7]\<rparr>))"
  by (simp add: chunk_decode_def decode_chunk_basic_header_def format_of_bits_def csid_new_def
      chunk_decoder_default_def dec_stream_new_def decode_body_def decode_message_payload_def
      on_read_def read_defs from_be_def be_to_nat_def max_message_size_def from_type_id_def
      read_timestamp_def swap_bytes_def to_be_def nat_to_be_numeral timestamp_wrapping_add_def Let_def)

theorem chunk_decoder_bounded_witness:
  "\<exists>d n ch. chunk_decode chunk_decoder_default [3, 0, 0, 5, 0, 0, 1, 8, 1, 0, 0, 0, 7] = (d, Inr (n, Some ch))
     \<and> 0 < n \<and> n \<le> 13 \<and> length (payload ch) \<le> 8388608"
  using chunk_decoder_bounded [OF chunk_decoder_reach.init] chunk_decode_one_chunk by fastforce

text \<open>
  The basic header (format and chunk stream id, in one, two or three bytes) round-trips for every
  representable chunk stream id, whatever follows it.
\<close>

lemma basic_header_roundtrip:
  "decode_chunk_basic_header (encode_chunk_basic_header f c @ rest) = Inr ((f, c), rest)"
  by (rule decode_encode_basic_header)

end
