(* ===== verification/Rtmp_User_Control.thy ===== *)
theory Rtmp_User_Control
  imports Rtmp_Chunk_Types
begin

text \<open>
  \<^verbatim>\<open>user_control.rs\<close>: the nine user control events, their wire image (a 16-bit event type and a 32-bit
  argument, two for \<open>SetBufferLength\<close>) and their parser, which ignores bytes after the event.
\<close>

datatype rtmp_user_control_event =
    StreamBegin rtmp_message_stream_id
  | StreamEof rtmp_message_stream_id
  | StreamDry rtmp_message_stream_id
  | SetBufferLength rtmp_message_stream_id u32
  | StreamIsRecorded rtmp_message_stream_id
  | PingRequest rtmp_timestamp
  | PingResponse rtmp_timestamp
  | BufferEmpty rtmp_message_stream_id
  | BufferReady rtmp_message_stream_id

fun user_control_event_name :: "rtmp_user_control_event \<Rightarrow> string" where
  "user_control_event_name (StreamBegin _) = ''StreamBegin''"
| "user_control_event_name (StreamEof _) = ''StreamEof''"
| "user_control_event_name (StreamDry _) = ''StreamDry''"
| "user_control_event_name (SetBufferLength _ _) = ''SetBufferLength''"
| "user_control_event_name (StreamIsRecorded _) = ''StreamIsRecorded''"
| "user_control_event_name (PingRequest _) = ''PingRequest''"
| "user_control_event_name (PingResponse _) = ''PingResponse''"
| "user_control_event_name (BufferEmpty _) = ''BufferEmpty''"
| "user_control_event_name (BufferReady _) = ''BufferReady''"

fun user_control_encode :: "rtmp_user_control_event \<Rightarrow> bytes" where
  "user_control_encode (StreamBegin stream_id) = write_u16 0 @ write_u32 stream_id"
| "user_control_encode (StreamEof stream_id) = write_u16 1 @ write_u32 stream_id"
| "user_control_encode (StreamDry stream_id) = write_u16 2 @ write_u32 stream_id"
| "user_control_encode (SetBufferLength stream_id len) =
     write_u16 3 @ write_u32 stream_id @ write_u32 len"
| "user_control_encode (StreamIsRecorded stream_id) = write_u16 4 @ write_u32 stream_id"
| "user_control_encode (PingRequest t) = write_u16 6 @ write_u32 t"
| "user_control_encode (PingResponse t) = write_u16 7 @ write_u32 t"
| "user_control_encode (BufferEmpty stream_id) = write_u16 31 @ write_u32 stream_id"
| "user_control_encode (BufferReady stream_id) = write_u16 32 @ write_u32 stream_id"

definition user_control_decode :: "bytes \<Rightarrow> error_kind + rtmp_user_control_event" where
  "user_control_decode buf =
     sbind (read_u16 buf) (\<lambda>(event_type, b).
       if event_type = 0 then sbind (read_u32 b) (\<lambda>(i, _). Inr (StreamBegin i))
       else if event_type = 1 then sbind (read_u32 b) (\<lambda>(i, _). Inr (StreamEof i))
       else if event_type = 2 then sbind (read_u32 b) (\<lambda>(i, _). Inr (StreamDry i))
       else if event_type = 3 then
         sbind (read_u32 b) (\<lambda>(i, b').
           sbind (read_u32 b') (\<lambda>(len, _). Inr (SetBufferLength i len)))
       else if event_type = 4 then sbind (read_u32 b) (\<lambda>(i, _). Inr (StreamIsRecorded i))
       else if event_type = 6 then sbind (read_u32 b) (\<lambda>(t, _). Inr (PingRequest t))
       else if event_type = 7 then sbind (read_u32 b) (\<lambda>(t, _). Inr (PingResponse t))
       else if event_type = 31 then sbind (read_u32 b) (\<lambda>(i, _). Inr (BufferEmpty i))
       else if event_type = 32 then sbind (read_u32 b) (\<lambda>(i, _). Inr (BufferReady i))
       else Inl InvalidData)"

lemma user_control_decode_encode [simp]:
  "user_control_decode (user_control_encode ev @ rest) = Inr ev"
  by (cases ev) (simp_all add: user_control_decode_def)

lemma user_control_decode_encode_exact [simp]: "user_control_decode (user_control_encode ev) = Inr ev"
  using user_control_decode_encode [of ev "[]"] by simp

text \<open>The parser accepts exactly the wire images: what it accepts starts with the image of the event.\<close>

lemma write_u16_read: "read_u16 b = Inr (v, r) \<Longrightarrow> b = write_u16 v @ r"
  and write_u32_read: "read_u32 b = Inr (w, r) \<Longrightarrow> b = write_u32 w @ r"
  by (auto simp: read_defs write_defs to_be_from_be min_def split: if_splits)

lemma user_control_decode_image:
  "user_control_decode b = Inr ev \<Longrightarrow> \<exists>rest. b = user_control_encode ev @ rest"
  by (auto simp: user_control_decode_def sbind_eq_Inr_iff dest!: write_u16_read write_u32_read
      split: if_splits)

text \<open>
  Every user control event round-trips, and conversely whatever the parser accepts is the wire
  image of the event it returns, followed by ignored bytes; nothing else is accepted.
\<close>

lemma user_control_codec:
  "user_control_decode b = Inr ev \<longleftrightarrow> (\<exists>rest. b = user_control_encode ev @ rest)"
  using user_control_decode_image by auto

end
