(* ===== verification/Rtmp_Media.thy ===== *)
theory Rtmp_Media
  imports Rtmp_Chunk_Types Codec_Ids
begin

text \<open>
  \<^verbatim>\<open>media.rs\<close>: audio and video frames and their one-byte FLV headers, the AVC decoder configuration
  record, and the parsers that classify incoming (also enhanced-RTMP and multi-track) video payloads.
  Its readers report a short buffer as \<open>InvalidData\<close>.
\<close>

section \<open>Frames\<close>

datatype avc_packet_type = SequenceHeader | NalUnit | EndOfSequence

fun avc_packet_type_id :: "avc_packet_type \<Rightarrow> u8" where
  "avc_packet_type_id SequenceHeader = 0"
| "avc_packet_type_id NalUnit = 1"
| "avc_packet_type_id EndOfSequence = 2"

datatype video_frame_type =
  KeyFrame | InterFrame | DisposableInterFrame | GeneratedKeyFrame | VideoInfoOrCommandFrame

fun video_frame_type_id :: "video_frame_type \<Rightarrow> u8" where
  "video_frame_type_id KeyFrame = 1"
| "video_frame_type_id InterFrame = 2"
| "video_frame_type_id DisposableInterFrame = 3"
| "video_frame_type_id GeneratedKeyFrame = 4"
| "video_frame_type_id VideoInfoOrCommandFrame = 5"

datatype video_codec =
  Jpeg | H263 | ScreenVideo | Vp6 | Vp6WithAlpha | ScreenVideoV2 | Avc | UnknownVideo u8

fun video_codec_raw_id :: "video_codec \<Rightarrow> u8" where
  "video_codec_raw_id Jpeg = 1"
| "video_codec_raw_id H263 = 2"
| "video_codec_raw_id ScreenVideo = 3"
| "video_codec_raw_id Vp6 = 4"
| "video_codec_raw_id Vp6WithAlpha = 5"
| "video_codec_raw_id ScreenVideoV2 = 6"
| "video_codec_raw_id Avc = 7"
| "video_codec_raw_id (UnknownVideo i) = i"

datatype audio_format =
    Adpcm | Mp3 | LinearPcmLittleEndian | Nellymoser16khzMono | Nellymoser8KhzMono | Nellymoser
  | G711AlawLogarithmicPcm | G711MuLawLogarithmicPcm | Aac | Speex | Mp3_8khz | DeviceSpecificSound
  | UnknownAudio u8

fun audio_format_raw_id :: "audio_format \<Rightarrow> u8" where
  "audio_format_raw_id Adpcm = 1"
| "audio_format_raw_id Mp3 = 2"
| "audio_format_raw_id LinearPcmLittleEndian = 3"
| "audio_format_raw_id Nellymoser16khzMono = 4"
| "audio_format_raw_id Nellymoser8KhzMono = 5"
| "audio_format_raw_id Nellymoser = 6"
| "audio_format_raw_id G711AlawLogarithmicPcm = 7"
| "audio_format_raw_id G711MuLawLogarithmicPcm = 8"
| "audio_format_raw_id Aac = 10"
| "audio_format_raw_id Speex = 11"
| "audio_format_raw_id Mp3_8khz = 14"
| "audio_format_raw_id DeviceSpecificSound = 15"
| "audio_format_raw_id (UnknownAudio i) = i"

datatype audio_sample_rate = Khz5 | Khz11 | Khz22 | Khz44

fun audio_sample_rate_id :: "audio_sample_rate \<Rightarrow> u8" where
  "audio_sample_rate_id Khz5 = 0"
| "audio_sample_rate_id Khz11 = 1"
| "audio_sample_rate_id Khz22 = 2"
| "audio_sample_rate_id Khz44 = 3"

record audio_frame =
  af_timestamp :: rtmp_timestamp
  af_format :: audio_format
  af_sample_rate :: audio_sample_rate
  af_is_8bit_sample :: bool
  af_is_stereo :: bool
  af_is_aac_sequence_header :: bool
  af_data :: bytes

record video_frame =
  vf_timestamp :: rtmp_timestamp
  vf_composition_timestamp_offset :: i32
  vf_frame_type :: video_frame_type
  vf_codec :: video_codec
  vf_avc_packet_type :: "avc_packet_type option"
  vf_data :: bytes

datatype media_frame = MediaAudio audio_frame | MediaVideo video_frame

definition is_keyframe :: "video_frame \<Rightarrow> bool" where
  "is_keyframe f \<longleftrightarrow> vf_frame_type f = KeyFrame"

section \<open>Readers of this module\<close>

definition check_len :: "nat \<Rightarrow> nat \<Rightarrow> error_kind + unit" where
  "check_len required actual = (if actual < required then Inl InvalidData else Inr ())"

definition media_read_u8 :: "bytes \<Rightarrow> u8 read" where
  "media_read_u8 r = sbind (check_len 1 (length r)) (\<lambda>_. Inr (r ! 0, drop 1 r))"

definition media_read_i24 :: "bytes \<Rightarrow> i32 read" where
  "media_read_i24 r =
     sbind (check_len 3 (length r)) (\<lambda>_.
       Inr (from_be [if r ! 0 AND 0x80 \<noteq> 0 then 0xFF else 0, r ! 0, r ! 1, r ! 2], drop 3 r))"

definition media_write_i24 :: "i32 \<Rightarrow> bytes" where
  "media_write_i24 v = take 3 (drop 1 (to_be 4 v))"

section \<open>Audio frames\<close>

definition encode_audio_frame :: "audio_frame \<Rightarrow> bytes" where
  "encode_audio_frame f =
     [push_bit 4 (audio_format_raw_id (af_format f))
      OR push_bit 2 (audio_sample_rate_id (af_sample_rate f))
      OR push_bit 1 (of_bool (af_is_8bit_sample f)) OR of_bool (af_is_stereo f)]
     @ (if af_format f = Aac then [if af_is_aac_sequence_header f then 0 else 1] else [])
     @ af_data f"

definition audio_format_of_bits :: "u8 \<Rightarrow> audio_format" where
  "audio_format_of_bits b =
     (if b = 1 then Adpcm else if b = 2 then Mp3 else if b = 3 then LinearPcmLittleEndian
      else if b = 4 then Nellymoser16khzMono else if b = 5 then Nellymoser8KhzMono
      else if b = 6 then Nellymoser else if b = 7 then G711AlawLogarithmicPcm
      else if b = 8 then G711MuLawLogarithmicPcm else if b = 10 then Aac else if b = 11 then Speex
      else if b = 14 then Mp3_8khz else if b = 15 then DeviceSpecificSound else UnknownAudio b)"

definition audio_sample_rate_of_bits :: "u8 \<Rightarrow> audio_sample_rate" where
  "audio_sample_rate_of_bits b =
     (if b = 0 then Khz5 else if b = 1 then Khz11 else if b = 2 then Khz22 else Khz44)"

definition decode_audio_frame :: "bytes \<Rightarrow> rtmp_timestamp \<Rightarrow> error_kind + audio_frame" where
  "decode_audio_frame buf ts =
     sbind (media_read_u8 buf) (\<lambda>(header, r1).
       let format = audio_format_of_bits (drop_bit 4 header AND 0x0F) in
       sbind (if format = Aac then sbind (media_read_u8 r1) (\<lambda>(t, r2). Inr (t = 0, r2))
              else Inr (False, r1)) (\<lambda>(is_aac_sequence_header, r2).
         Inr \<lparr>af_timestamp = ts, af_format = format,
              af_sample_rate = audio_sample_rate_of_bits (drop_bit 2 header AND 0x03),
              af_is_8bit_sample = (header AND 0x02 \<noteq> 0), af_is_stereo = (header AND 0x01 \<noteq> 0),
              af_is_aac_sequence_header = is_aac_sequence_header, af_data = r2\<rparr>))"

section \<open>Video frames\<close>

definition encode_video_frame :: "video_frame \<Rightarrow> bytes" where
  "encode_video_frame f =
     [push_bit 4 (video_frame_type_id (vf_frame_type f)) OR video_codec_raw_id (vf_codec f)]
     @ (case vf_avc_packet_type f of
          None \<Rightarrow> []
        | Some t \<Rightarrow> [avc_packet_type_id t] @ media_write_i24 (vf_composition_timestamp_offset f))
     @ vf_data f"

definition video_frame_type_of_bits :: "u8 \<Rightarrow> error_kind + video_frame_type" where
  "video_frame_type_of_bits b =
     (if b = 1 then Inr KeyFrame else if b = 2 then Inr InterFrame
      else if b = 3 then Inr DisposableInterFrame else if b = 4 then Inr GeneratedKeyFrame
      else if b = 5 then Inr VideoInfoOrCommandFrame else Inl InvalidData)"

definition video_codec_of_bits :: "u8 \<Rightarrow> video_codec" where
  "video_codec_of_bits b =
     (if b = 1 then Jpeg else if b = 2 then H263 else if b = 3 then ScreenVideo else if b = 4 then Vp6
      else if b = 5 then Vp6WithAlpha else if b = 6 then ScreenVideoV2 else if b = 7 then Avc
      else UnknownVideo b)"

definition avc_packet_type_of_byte :: "u8 \<Rightarrow> error_kind + avc_packet_type" where
  "avc_packet_type_of_byte b =
     (if b = 0 then Inr SequenceHeader else if b = 1 then Inr NalUnit
      else if b = 2 then Inr EndOfSequence else Inl InvalidData)"

definition decode_video_frame :: "bytes \<Rightarrow> rtmp_timestamp \<Rightarrow> error_kind + video_frame" where
  "decode_video_frame buf ts =
     sbind (media_read_u8 buf) (\<lambda>(frame_type_codec, r1).
     sbind (video_frame_type_of_bits (drop_bit 4 frame_type_codec AND 0x0F)) (\<lambda>frame_type.
     let codec = video_codec_of_bits (frame_type_codec AND 0x0F) in
     sbind
       (if codec = Avc \<and> frame_type \<noteq> VideoInfoOrCommandFrame then
          sbind (media_read_u8 r1) (\<lambda>(b, r2).
          sbind (avc_packet_type_of_byte b) (\<lambda>t.
          sbind (media_read_i24 r2) (\<lambda>(off, r3). Inr (Some t, off, r3))))
        else Inr (None, 0, r1)) (\<lambda>(avc_packet_type, off, r).
     Inr \<lparr>vf_timestamp = ts, vf_composition_timestamp_offset = off, vf_frame_type = frame_type,
          vf_codec = codec, vf_avc_packet_type = avc_packet_type, vf_data = r\<rparr>)))"

section \<open>The AVC decoder configuration record\<close>

record avc_sequence_header =
  avc_profile_indication :: u8
  profile_compatibility :: u8
  avc_level_indication :: u8
  length_size_minus_one :: u8
  sps_list :: "bytes list"
  pps_list :: "bytes list"

text \<open>The loop over the SPS (and, later, PPS) entries; \<open>data\<close> is what follows the current offset.\<close>

fun avc_read_entries :: "nat \<Rightarrow> bytes \<Rightarrow> error_kind + bytes list \<times> bytes" where
  "avc_read_entries 0 data = Inr ([], data)"
| "avc_read_entries (Suc n) data =
     (if length data < 2 then Inl InvalidData else
      (let len = unat (from_be (take 2 data) :: u16); r = drop 2 data in
       if 4096 < len then Inl InvalidData
       else if length r < len then Inl InvalidData
       else sbind (avc_read_entries n (drop len r)) (\<lambda>(es, r'). Inr (take len r # es, r'))))"

definition avc_from_bytes :: "bytes \<Rightarrow> error_kind + avc_sequence_header" where
  "avc_from_bytes data =
     (if length data < 7 then Inl InvalidData
      else if data ! 0 \<noteq> 1 then Inl Unsupported
      else
        (let num_sps = unat (data ! 5 AND 0x1F) in
         if num_sps > 31 then Inl InvalidData
         else if num_sps = 0 then Inl InvalidData
         else sbind (avc_read_entries num_sps (drop 6 data)) (\<lambda>(spss, r).
           if r = [] then Inl InvalidData
           else
             (let num_pps = unat (r ! 0) in
              if num_pps > 255 then Inl InvalidData
              else if num_pps = 0 then Inl InvalidData
              else sbind (avc_read_entries num_pps (drop 1 r)) (\<lambda>(ppss, _).
                Inr \<lparr>avc_profile_indication = data ! 1, profile_compatibility = data ! 2,
                     avc_level_indication = data ! 3, length_size_minus_one = data ! 4 AND 0x03,
                     sps_list = spss, pps_list = ppss\<rparr>)))))"

definition avc_write_entries :: "bytes list \<Rightarrow> bytes" where
  "avc_write_entries es = concat (map (\<lambda>e. to_be 2 (of_nat (length e) :: u16) @ e) es)"

definition avc_to_bytes :: "avc_sequence_header \<Rightarrow> error_kind + bytes" where
  "avc_to_bytes h =
     (if sps_list h = [] then Inl InvalidData
      else if pps_list h = [] then Inl InvalidData
      else if length (sps_list h) > 31 then Inl InvalidData
      else if length (pps_list h) > 255 then Inl InvalidData
      else if \<exists>sps \<in> set (sps_list h). length sps > 4096 then Inl InvalidData
      else if \<exists>pps \<in> set (pps_list h). length pps > 4096 then Inl InvalidData
      else Inr
        ([1, avc_profile_indication h, profile_compatibility h, avc_level_indication h,
          0xFC OR (length_size_minus_one h AND 0x03)]
         @ [0xE0 OR of_nat (length (sps_list h))] @ avc_write_entries (sps_list h)
         @ [of_nat (length (pps_list h))] @ avc_write_entries (pps_list h)))"

section \<open>Multi-track video\<close>

datatype multi_track_type = OneTrack | ManyTracks | ManyTracksManyCodecs

record multi_track_entry =
  mt_track_id :: u8
  mt_codec :: codec_id
  mt_packet_type :: u8
  mt_data_offset :: nat
  mt_data_len :: nat

record video_multi_track_header =
  mth_frame_type :: u8
  mth_multi_track_type :: multi_track_type
  mth_tracks :: "multi_track_entry list"

function many_tracks :: "bytes \<Rightarrow> codec_id \<Rightarrow> nat \<Rightarrow> multi_track_entry list" where
  "many_tracks pay base_codec pos =
     (if pos + 5 \<le> length pay then
        (let len = unat (from_be [0, pay ! (pos + 2), pay ! (pos + 3), pay ! (pos + 4)] :: u32);
             p = pos + 5
         in if p + len > length pay then []
            else \<lparr>mt_track_id = pay ! pos, mt_codec = base_codec,
                  mt_packet_type = pay ! (pos + 1), mt_data_offset = p, mt_data_len = len\<rparr>
                 # many_tracks pay base_codec (p + len))
      else [])"
  by pat_completeness auto
termination
  by (relation "measure (\<lambda>(pay, c, pos). length pay - pos)") auto

function many_tracks_many_codecs :: "bytes \<Rightarrow> nat \<Rightarrow> multi_track_entry list" where
  "many_tracks_many_codecs pay pos =
     (if pos + 9 \<le> length pay then
        (let fcc = from_be [pay ! (pos + 1), pay ! (pos + 2), pay ! (pos + 3),
                            pay ! (pos + 4)];
             len = unat (from_be [0, pay ! (pos + 6), pay ! (pos + 7), pay ! (pos + 8)] :: u32);
             p = pos + 9
         in if p + len > length pay then []
            else \<lparr>mt_track_id = pay ! pos,
                  mt_codec = (case codec_from_rtmp_fourcc fcc of Some c \<Rightarrow> c | None \<Rightarrow> UnknownCodec),
                  mt_packet_type = pay ! (pos + 5), mt_data_offset = p, mt_data_len = len\<rparr>
                 # many_tracks_many_codecs pay (p + len))
      else [])"
  by pat_completeness auto
termination
  by (relation "measure (\<lambda>(pay, pos). length pay - pos)") auto

declare many_tracks.simps [simp del] many_tracks_many_codecs.simps [simp del]

definition multi_track_type_of_byte :: "u8 \<Rightarrow> multi_track_type option" where
  "multi_track_type_of_byte b =
     (if b = 0 then Some OneTrack else if b = 1 then Some ManyTracks
      else if b = 2 then Some ManyTracksManyCodecs else None)"

definition parse_video_multi_track :: "bytes \<Rightarrow> video_multi_track_header option" where
  "parse_video_multi_track pay =
     (if length pay < 6 then None
      else if drop_bit 4 (pay ! 0) AND 8 = 0 then None
      else if pay ! 0 AND 0x0f \<noteq> 5 then None
      else
        (let fcc = from_be [pay ! 1, pay ! 2, pay ! 3, pay ! 4];
             base_codec = (case codec_from_rtmp_fourcc fcc of Some c \<Rightarrow> c | None \<Rightarrow> UnknownCodec)
         in case multi_track_type_of_byte (pay ! 5) of
              None \<Rightarrow> None
            | Some ty \<Rightarrow>
                Some \<lparr>mth_frame_type = drop_bit 4 (pay ! 0) AND 7, mth_multi_track_type = ty,
                      mth_tracks =
                        (case ty of
                           OneTrack \<Rightarrow>
                             [\<lparr>mt_track_id = 0, mt_codec = base_codec, mt_packet_type = 1,
                               mt_data_offset = 6, mt_data_len = length pay - 6\<rparr>]
                         | ManyTracks \<Rightarrow> many_tracks pay base_codec 6
                         | ManyTracksManyCodecs \<Rightarrow> many_tracks_many_codecs pay 6)\<rparr>))"

section \<open>Video ingress headers\<close>

record video_ingress_header =
  vih_frame_type :: u8
  vih_codec :: codec_id
  vih_packet_type :: u8
  vih_cts :: i32
  vih_payload_offset :: nat

fun parse_leb128_loop :: "bytes \<Rightarrow> nat \<Rightarrow> u64 \<Rightarrow> nat \<Rightarrow> (u64 \<times> nat) option" where
  "parse_leb128_loop [] idx v shift = None"
| "parse_leb128_loop (b # bs) idx v shift =
     (let v' = v OR push_bit shift (ucast (b AND 0x7f)) in
      if b AND 0x80 = 0 then Some (v', idx + 1) else parse_leb128_loop bs (idx + 1) v' (shift + 7))"

definition parse_leb128 :: "bytes \<Rightarrow> (u64 \<times> nat) option" where
  "parse_leb128 data = parse_leb128_loop (take 8 data) 0 0 0"

definition looks_like_av1_payload :: "bytes \<Rightarrow> bool" where
  "looks_like_av1_payload pay =
     (let header = pay ! 0 in
      if header AND 0x80 \<noteq> 0 \<or> header AND 0x01 \<noteq> 0 then False
      else if drop_bit 3 header AND 0x0f = 0 then False
      else
        (let has_extension = (header AND 0x04 \<noteq> 0); has_size_field = (header AND 0x02 \<noteq> 0) in
         if has_extension \<and> length pay \<le> 1 then False
         else
           (let pos = (if has_extension then 2 else 1) in
            if \<not> has_size_field then True
            else (case parse_leb128 (drop pos pay) of
                    None \<Rightarrow> False
                  | Some (sz, size_len) \<Rightarrow> unat sz \<le> length pay - (pos + size_len)))))"

definition looks_like_vp8_payload :: "bytes \<Rightarrow> bool" where
  "looks_like_vp8_payload pay =
     (if length pay < 3 then False
      else
        (let frame_tag = pay ! 0 in
         if drop_bit 1 frame_tag AND 0x07 > 3 then False
         else if frame_tag AND 0x01 = 0 then
           (if length pay < 6 then False
            else pay ! 3 = 0x9d \<and> pay ! 4 = 0x01 \<and> pay ! 5 = 0x2a)
         else True))"

definition looks_like_vp9_payload :: "bytes \<Rightarrow> bool" where
  "looks_like_vp9_payload pay =
     (if pay = [] then False
      else
        (let header = pay ! 0 in
         if drop_bit 6 header \<noteq> 2 then False
         else if drop_bit 5 header AND 1 = 0 then \<not> (header AND 0x10 \<noteq> 0)
         else \<not> (drop_bit 4 header AND 1 = 1 \<and> header AND 0x08 \<noteq> 0)))"

definition looks_like_video_payload :: "codec_id \<Rightarrow> bytes \<Rightarrow> bool" where
  "looks_like_video_payload codec pay =
     (if pay = [] then False
      else (case codec of
              AV1 \<Rightarrow> looks_like_av1_payload pay
            | VP8 \<Rightarrow> looks_like_vp8_payload pay
            | VP9 \<Rightarrow> looks_like_vp9_payload pay
            | H265 \<Rightarrow> True
            | H266 \<Rightarrow> True
            | _ \<Rightarrow> False))"

definition should_parse_enhanced_cts :: "codec_id \<Rightarrow> bytes \<Rightarrow> bool" where
  "should_parse_enhanced_cts codec pay =
     (if length pay < 8 then False
      else
        (let with_cts_looks_valid = looks_like_video_payload codec (drop 8 pay);
             without_cts_looks_valid = looks_like_video_payload codec (drop 5 pay)
         in case codec of
              H264 \<Rightarrow> True
            | H265 \<Rightarrow> True
            | H266 \<Rightarrow> True
            | VP9 \<Rightarrow> with_cts_looks_valid \<and> \<not> without_cts_looks_valid
            | AV1 \<Rightarrow> with_cts_looks_valid \<and> \<not> without_cts_looks_valid
            | VP8 \<Rightarrow> with_cts_looks_valid \<or> \<not> without_cts_looks_valid
            | _ \<Rightarrow> False))"

definition signed_i24 :: "u8 \<Rightarrow> u8 \<Rightarrow> u8 \<Rightarrow> i32" where
  "signed_i24 a b c =
     (let raw = push_bit 16 (ucast a) OR push_bit 8 (ucast b) OR ucast c in
      if raw AND 0x800000 \<noteq> 0 then raw OR NOT 0xFFFFFF else raw)"

definition parse_enhanced_ingress_header :: "bytes \<Rightarrow> video_ingress_header option" where
  "parse_enhanced_ingress_header pay =
     (if length pay < 5 then None
      else
        (let frame_type = drop_bit 4 (pay ! 0) AND 7;
             packet_type = pay ! 0 AND 0x0f;
             fcc = from_be [pay ! 1, pay ! 2, pay ! 3, pay ! 4];
             codec = (case codec_from_rtmp_fourcc fcc of Some c \<Rightarrow> c | None \<Rightarrow> UnknownCodec);
             header = (\<lambda>cts off. \<lparr>vih_frame_type = frame_type, vih_codec = codec,
                                  vih_packet_type = packet_type, vih_cts = cts,
                                  vih_payload_offset = off\<rparr>)
         in if packet_type = 0 then Some (header 0 5)
            else if packet_type = 1 then
              (if should_parse_enhanced_cts codec pay
               then Some (header (signed_i24 (pay ! 5) (pay ! 6) (pay ! 7)) 8)
               else Some (header 0 5))
            else if packet_type = 3 then Some (header 0 5)
            else if packet_type = 5 then Some (header 0 5)
            else if codec \<in> {AV1, VP8, VP9, UnknownCodec} then Some (header 0 5)
            else None))"

definition parse_video_ingress_header_with_mode ::
  "bytes \<Rightarrow> domestic_codec_mode \<Rightarrow> video_ingress_header option" where
  "parse_video_ingress_header_with_mode pay mode =
     (if length pay < 2 then None
      else if drop_bit 4 (pay ! 0) AND 8 \<noteq> 0 then parse_enhanced_ingress_header pay
      else
        (let codec = (case codec_from_rtmp_codec_id_with_mode Video (pay ! 0 AND 0x0f) mode of
                        Some c \<Rightarrow> c | None \<Rightarrow> UnknownCodec);
             packet_type = pay ! 1;
             header = (\<lambda>cts off. \<lparr>vih_frame_type = drop_bit 4 (pay ! 0), vih_codec = codec,
                                  vih_packet_type = packet_type, vih_cts = cts,
                                  vih_payload_offset = off\<rparr>)
         in if packet_type = 0 then (if length pay < 5 then None else Some (header 0 5))
            else if packet_type = 1 then
              (if length pay < 5 then None
               else Some (header (signed_i24 (pay ! 2) (pay ! 3) (pay ! 4)) 5))
            else if packet_type = 3 then Some (header 0 2)
            else if codec = UnknownCodec then Some (header 0 2)
            else None))"

definition parse_video_ingress_header :: "bytes \<Rightarrow> video_ingress_header option" where
  "parse_video_ingress_header pay = parse_video_ingress_header_with_mode pay Standard"

end
