(* ===== verification/Rtmp_Media_Properties.thy ===== *)
theory Rtmp_Media_Properties
  imports Rtmp_Media
begin

text \<open>
  Round trips and bounds of the media codecs: frames, the AVC configuration record, and the offsets
  that the ingress parsers hand to their callers.
\<close>

section \<open>Header bytes\<close>

lemma u8_cases:
  fixes b :: u8
  assumes "\<And>n. n < 256 \<Longrightarrow> P (of_nat n)"
  shows "P b"
proof -
  have "unat b < 256" using unat_less [of b] by simp
  from assms [OF this] show ?thesis by simp
qed

lemma nibbles: "push_bit 4 (drop_bit 4 b AND 0x0F) OR (b AND 0x0F) = (b :: u8)"
proof -
  have m: "(0x0F :: u8) = mask 4" by (simp add: mask_eq_exp_minus_1)
  show ?thesis
    unfolding m by (rule bit_word_eqI) (auto simp: bit_simps)
qed

lemma nibble_join:
  assumes "unat (h :: u8) < 16" and "unat l < 16"
  shows "drop_bit 4 (push_bit 4 h OR l) AND 0x0F = h" and "(push_bit 4 h OR l) AND 0x0F = l"
proof -
  have m: "(0x0F :: u8) = mask 4" by (simp add: mask_eq_exp_minus_1)
  have t: "take_bit 4 v = v" if "unat v < 16" for v :: u8
    using that by (simp add: word_unat_eq_iff unsigned_take_bit_eq take_bit_eq_mod unat_mod_distrib)
  have b: "n < 4" if "bit v n" "unat v < 16" for v :: u8 and n
    using t [OF that(2)] that(1) by (metis bit_take_bit_iff)
  show "drop_bit 4 (push_bit 4 h OR l) AND 0x0F = h"
    unfolding m using b assms by (intro bit_word_eqI) (force simp: bit_simps)
  show "(push_bit 4 h OR l) AND 0x0F = l"
    unfolding m using b assms by (intro bit_word_eqI) (force simp: bit_simps)
qed


lemma low_nibble_fields:
  "drop_bit 2 h AND 0x03 = drop_bit 2 (h AND 0x0F) AND (0x03 :: u8)"
  "h AND 0x02 = (h AND 0x0F) AND (0x02 :: u8)"
  "h AND 0x01 = (h AND 0x0F) AND (0x01 :: u8)"
proof -
  have m: "(0x0F :: u8) = mask 4" "(0x03 :: u8) = mask 2" by (simp_all add: mask_eq_exp_minus_1)
  show "drop_bit 2 h AND 0x03 = drop_bit 2 (h AND 0x0F) AND (0x03 :: u8)"
    unfolding m by (rule bit_word_eqI) (auto simp: bit_simps)
qed (simp_all add: and.assoc)

section \<open>Audio frames\<close>

definition audio_frame_wf :: "audio_frame \<Rightarrow> bool" where
  "audio_frame_wf f \<longleftrightarrow>
     (case af_format f of UnknownAudio i \<Rightarrow> i \<in> {0, 9, 12, 13} | _ \<Rightarrow> True)
     \<and> (af_is_aac_sequence_header f \<longrightarrow> af_format f = Aac)"

lemma audio_format_roundtrip:
  "(case a of UnknownAudio i \<Rightarrow> i \<in> {0, 9, 12, 13} | _ \<Rightarrow> True) \<Longrightarrow>
     unat (audio_format_raw_id a) < 16 \<and> audio_format_of_bits (audio_format_raw_id a) = a"
  by (cases a) (auto simp: audio_format_of_bits_def)

lemma audio_header_fields:
  fixes f :: audio_frame
  assumes "audio_frame_wf f"
  defines "h \<equiv> push_bit 4 (audio_format_raw_id (af_format f))
      OR push_bit 2 (audio_sample_rate_id (af_sample_rate f))
      OR push_bit 1 (of_bool (af_is_8bit_sample f)) OR of_bool (af_is_stereo f)"
  shows "audio_format_of_bits (drop_bit 4 h AND 0x0F) = af_format f"
    and "audio_sample_rate_of_bits (drop_bit 2 h AND 0x03) = af_sample_rate f"
    and "(h AND 0x02 \<noteq> 0) = af_is_8bit_sample f" and "(h AND 0x01 \<noteq> 0) = af_is_stereo f"
proof -
  let ?l = "push_bit 2 (audio_sample_rate_id (af_sample_rate f))
      OR push_bit 1 (of_bool (af_is_8bit_sample f)) OR of_bool (af_is_stereo f) :: u8"
  have l: "unat ?l < 16"
    by (cases "af_sample_rate f"; cases "af_is_8bit_sample f"; cases "af_is_stereo f") simp_all
  from assms(1) have a: "unat (audio_format_raw_id (af_format f)) < 16"
    "audio_format_of_bits (audio_format_raw_id (af_format f)) = af_format f"
    using audio_format_roundtrip by (auto simp: audio_frame_wf_def)
  have hl: "h AND 0x0F = ?l" and hh: "drop_bit 4 h AND 0x0F = audio_format_raw_id (af_format f)"
    using nibble_join [OF a(1) l] by (simp_all add: h_def or.assoc)
  show "audio_format_of_bits (drop_bit 4 h AND 0x0F) = af_format f" by (simp add: hh a)
  show "audio_sample_rate_of_bits (drop_bit 2 h AND 0x03) = af_sample_rate f"
    unfolding low_nibble_fields(1) [of h] hl
    by (cases "af_sample_rate f"; cases "af_is_8bit_sample f"; cases "af_is_stereo f")
      (simp_all add: audio_sample_rate_of_bits_def)
  show "(h AND 0x02 \<noteq> 0) = af_is_8bit_sample f" "(h AND 0x01 \<noteq> 0) = af_is_stereo f"
    unfolding low_nibble_fields(2,3) [of h] hl
    by (cases "af_sample_rate f"; cases "af_is_8bit_sample f"; cases "af_is_stereo f"; simp)+
qed

lemma media_read_u8_Cons [simp]: "media_read_u8 (b # r) = Inr (b, r)"
  by (simp add: media_read_u8_def check_len_def)

lemma decode_encode_audio:
  assumes "audio_frame_wf f"
  shows "decode_audio_frame (encode_audio_frame f) (af_timestamp f) = Inr f"
  using audio_header_fields [OF assms] assms
  by (auto simp: decode_audio_frame_def encode_audio_frame_def Let_def audio_frame_wf_def
      simp del: push_bit_of_Suc_0 intro!: audio_frame.equality)

section \<open>Video frames\<close>

definition video_frame_wf :: "video_frame \<Rightarrow> bool" where
  "video_frame_wf f \<longleftrightarrow>
     (case vf_codec f of UnknownVideo i \<Rightarrow> i = 0 \<or> 8 \<le> i \<and> i \<le> 15 | _ \<Rightarrow> True)
     \<and> (vf_avc_packet_type f \<noteq> None \<longleftrightarrow>
          vf_codec f = Avc \<and> vf_frame_type f \<noteq> VideoInfoOrCommandFrame)
     \<and> (if vf_avc_packet_type f = None then vf_composition_timestamp_offset f = 0
        else - 0x800000 \<le> sint (vf_composition_timestamp_offset f)
             \<and> sint (vf_composition_timestamp_offset f) < 0x800000)"

lemma video_frame_type_roundtrip:
  "unat (video_frame_type_id t) < 16" "video_frame_type_of_bits (video_frame_type_id t) = Inr t"
  by (cases t; simp add: video_frame_type_of_bits_def)+

lemma video_frame_type_image: "video_frame_type_of_bits b = Inr t \<Longrightarrow> video_frame_type_id t = b"
  by (auto simp: video_frame_type_of_bits_def split: if_splits)

lemma video_codec_roundtrip:
  "(case c of UnknownVideo i \<Rightarrow> i = 0 \<or> 8 \<le> i \<and> i \<le> 15 | _ \<Rightarrow> True) \<Longrightarrow>
     unat (video_codec_raw_id c) < 16 \<and> video_codec_of_bits (video_codec_raw_id c) = c"
  by (cases c) (auto simp: video_codec_of_bits_def word_le_nat_alt)

lemma video_codec_image: "video_codec_raw_id (video_codec_of_bits b) = b"
  by (auto simp: video_codec_of_bits_def)

lemma video_codec_of_bits_wf:
  assumes "b \<le> 15"
  shows "(case video_codec_of_bits b of UnknownVideo i \<Rightarrow> i = 0 \<or> 8 \<le> i \<and> i \<le> 15 | _ \<Rightarrow> True)"
proof (cases "8 \<le> b")
  case True
  with assms show ?thesis by (simp add: video_codec_of_bits_def)
next
  case False
  then have "unat b < 8" by (simp add: word_le_nat_alt)
  then have "unat b = 0 \<or> unat b = 1 \<or> unat b = 2 \<or> unat b = 3 \<or> unat b = 4 \<or> unat b = 5
    \<or> unat b = 6 \<or> unat b = 7" by linarith
  then have "b \<in> {0, 1, 2, 3, 4, 5, 6, 7}" by (simp add: word_unat_eq_iff)
  then show ?thesis by (auto simp: video_codec_of_bits_def)
qed

lemma avc_packet_type_roundtrip [simp]: "avc_packet_type_of_byte (avc_packet_type_id t) = Inr t"
  by (cases t) (simp_all add: avc_packet_type_of_byte_def)

lemma avc_packet_type_image: "avc_packet_type_of_byte b = Inr t \<Longrightarrow> avc_packet_type_id t = b"
  by (auto simp: avc_packet_type_of_byte_def split: if_splits)


lemma sign_bit_u8: "(a :: u8) AND 0x80 \<noteq> 0 \<longleftrightarrow> 128 \<le> unat a"
proof -
  have "a AND 0x80 \<noteq> 0 \<longleftrightarrow> bit a 7"
    using and_exp_eq_0_iff_not_bit [of a 7] by simp
  also have "\<dots> \<longleftrightarrow> odd (unat a div 2 ^ 7)"
    using bit_unsigned_iff [of a 7, where 'a = nat] by (simp add: bit_iff_odd)
  finally show ?thesis
    using unat_less [of a] by (auto simp: odd_iff_mod_2_eq_one)
qed

lemma u32_bytes:
  obtains t a b c where "to_be 4 (v :: u32) = [t, a, b, c]" "v = from_be [t, a, b, c]"
    "unat v = unat t * 16777216 + unat a * 65536 + unat b * 256 + unat c"
proof -
  have "length (to_be 4 v) = Suc (Suc (Suc (Suc 0)))" by simp
  then obtain t a b c where t: "to_be 4 v = [t, a, b, c]"
    by (auto simp del: length_to_be simp: length_Suc_conv)
  have f: "v = from_be [t, a, b, c]" using t word_be_simps(1) [of v] by simp
  have "be_to_nat (to_be 4 v) = unat v"
    using unat_u32_less [of v] by (simp add: to_be_def be_to_nat_to_be)
  then have "unat v = unat t * 16777216 + unat a * 65536 + unat b * 256 + unat c"
    by (simp add: t be_to_nat_def)
  with t f that show thesis by blast
qed

definition i24 :: "u8 \<Rightarrow> u8 \<Rightarrow> u8 \<Rightarrow> i32" where
  "i24 a b c = from_be [if a AND 0x80 \<noteq> 0 then 0xFF else 0, a, b, c]"

lemma unat_u8_le: "unat (b :: u8) \<le> 255"
  using unat_less [of b] by simp

lemma i24_value:
  "sint (i24 a b c) =
     int (unat a) * 65536 + int (unat b) * 256 + int (unat c) - (if 128 \<le> unat a then 16777216 else 0)"
proof -
  let ?n = "unat a * 65536 + unat b * 256 + unat c"
  have bnd: "unat a \<le> 255" "unat b \<le> 255" "unat c \<le> 255" by (rule unat_u8_le)+
  have u: "unat (i24 a b c) = (if 128 \<le> unat a then 255 * 16777216 + ?n else ?n)"
    using bnd by (simp add: i24_def from_be_def be_to_nat_def sign_bit_u8 unat_of_nat
        del: of_nat_unat of_nat_add of_nat_mult)
  show ?thesis
    unfolding sint_u32 u using bnd by (simp del: of_nat_unat)
qed

lemma i24_range: "- 0x800000 \<le> sint (i24 a b c)" "sint (i24 a b c) < 0x800000"
  using unat_u8_le [of a] unat_u8_le [of b] unat_u8_le [of c] by (auto simp: i24_value simp del: of_nat_unat)

lemma i24_image:
  assumes "- 0x800000 \<le> sint (v :: i32)" "sint v < 0x800000"
  obtains a b c where "media_write_i24 v = [a, b, c]" "i24 a b c = v"
proof -
  obtain t a b c where t: "to_be 4 v = [t, a, b, c]" "v = from_be [t, a, b, c]"
    "unat v = unat t * 16777216 + unat a * 65536 + unat b * 256 + unat c"
    by (rule u32_bytes)
  have bnd: "unat a \<le> 255" "unat b \<le> 255" "unat c \<le> 255" "unat t \<le> 255" by (rule unat_u8_le)+
  have "unat t = (if 128 \<le> unat a then 255 else 0)"
    using assms bnd t(3) by (auto simp: sint_u32 simp del: of_nat_unat split: if_splits)
  then have "t = (if 128 \<le> unat a then 0xFF else 0)" by (simp add: word_unat_eq_iff)
  with t that show thesis by (simp add: media_write_i24_def i24_def sign_bit_u8)
qed

lemma media_read_i24_Cons [simp]: "media_read_i24 (a # b # c # r) = Inr (i24 a b c, r)"
  by (simp add: media_read_i24_def check_len_def i24_def)

lemma decode_encode_video:
  assumes "video_frame_wf f"
  shows "decode_video_frame (encode_video_frame f) (vf_timestamp f) = Inr f"
proof -
  have c: "unat (video_codec_raw_id (vf_codec f)) < 16"
    "video_codec_of_bits (video_codec_raw_id (vf_codec f)) = vf_codec f"
    using assms video_codec_roundtrip by (auto simp: video_frame_wf_def)
  note n = nibble_join [OF video_frame_type_roundtrip(1) [of "vf_frame_type f"] c(1)]
  show ?thesis
  proof (cases "vf_avc_packet_type f")
    case None
    with assms c n show ?thesis
      by (auto simp: decode_video_frame_def encode_video_frame_def Let_def video_frame_wf_def
          video_frame_type_roundtrip intro!: video_frame.equality)
  next
    case (Some t)
    with assms obtain x y z where "media_write_i24 (vf_composition_timestamp_offset f) = [x, y, z]"
      "i24 x y z = vf_composition_timestamp_offset f"
      by (auto simp: video_frame_wf_def elim: i24_image)
    with Some assms c n show ?thesis
      by (auto simp: decode_video_frame_def encode_video_frame_def Let_def video_frame_wf_def
          video_frame_type_roundtrip intro!: video_frame.equality)
  qed
qed

text \<open>What the video parser accepts is the image of the frame it returns.\<close>

lemma media_read_u8_Inr: "media_read_u8 b = Inr (v, r) \<Longrightarrow> b = v # r"
  by (cases b) (auto simp: media_read_u8_def check_len_def split: if_splits)

lemma media_read_i24_Inr:
  assumes "media_read_i24 b = Inr (v, r)"
  obtains x y z where "b = x # y # z # r" "v = i24 x y z"
proof -
  from assms have l: "3 \<le> length b" by (auto simp: media_read_i24_def check_len_def split: if_splits)
  then obtain x y z r' where b: "b = x # y # z # r'"
    by (auto simp: numeral_3_eq_3 Suc_le_length_iff)
  with assms that show thesis by simp
qed

lemma media_write_i24_i24 [simp]: "media_write_i24 (i24 a b c) = [a, b, c]"
  by (simp add: media_write_i24_def i24_def to_be_from_be)

lemma encode_decode_video:
  assumes "decode_video_frame buf ts = Inr f"
  shows "encode_video_frame f = buf \<and> video_frame_wf f \<and> vf_timestamp f = ts"
proof -
  from assms obtain h r1 ft where b: "buf = h # r1"
    and ft: "video_frame_type_of_bits (drop_bit 4 h AND 0x0F) = Inr ft"
    by (auto simp: decode_video_frame_def sbind_eq_Inr_iff dest!: media_read_u8_Inr)
  let ?c = "video_codec_of_bits (h AND 0x0F)"
  have h: "push_bit 4 (video_frame_type_id ft) OR video_codec_raw_id ?c = h"
    using nibbles [of h] video_frame_type_image [OF ft] video_codec_image by simp
  have "h AND 0x0F \<le> 15" by (simp add: word_and_le1)
  then have wc: "(case ?c of UnknownVideo i \<Rightarrow> i = 0 \<or> 8 \<le> i \<and> i \<le> 15 | _ \<Rightarrow> True)"
    by (rule video_codec_of_bits_wf)
  show ?thesis
  proof (cases "?c = Avc \<and> ft \<noteq> VideoInfoOrCommandFrame")
    case True
    with assms b ft obtain tb t x y z r where "r1 = tb # x # y # z # r"
      "avc_packet_type_of_byte tb = Inr t"
      "f = \<lparr>vf_timestamp = ts, vf_composition_timestamp_offset = i24 x y z, vf_frame_type = ft,
            vf_codec = ?c, vf_avc_packet_type = Some t, vf_data = r\<rparr>"
      by (auto simp: decode_video_frame_def Let_def sbind_eq_Inr_iff
          dest!: media_read_u8_Inr elim!: media_read_i24_Inr)
    with b h True i24_range [of x y z] avc_packet_type_image [of tb t] show ?thesis
      by (simp add: encode_video_frame_def video_frame_wf_def)
  next
    case False
    with assms b ft h wc show ?thesis
      by (auto simp: decode_video_frame_def Let_def encode_video_frame_def video_frame_wf_def)
  qed
qed

section \<open>The AVC decoder configuration record\<close>

lemma avc_read_write_entries:
  assumes "\<forall>e \<in> set es. length e \<le> 4096"
  shows "avc_read_entries (length es) (avc_write_entries es @ r) = Inr (es, r)"
  using assms
proof (induction es)
  case (Cons e es)
  have l: "unat (of_nat (length e) :: u16) = length e"
    using Cons.prems by (simp add: unat_of_nat)
  have b: "from_be (to_be 2 (of_nat (length e) :: u16)) = (of_nat (length e) :: u16)"
    by (rule word_be_simps)
  show ?case
    using Cons by (simp add: avc_write_entries_def Let_def b l)
qed (simp add: avc_write_entries_def)

lemma avc_read_entries_bounds:
  "avc_read_entries n data = Inr (es, r) \<Longrightarrow> length es = n \<and> (\<forall>e \<in> set es. length e \<le> 4096)"
  by (induction n arbitrary: data es)
    (fastforce simp: Let_def sbind_eq_Inr_iff split: if_splits)+

lemma avc_count_byte:
  "n \<le> 31 \<Longrightarrow> unat ((0xE0 OR of_nat n) AND 0x1F :: u8) = n"
proof -
  assume n: "n \<le> 31"
  have m: "(0x1F :: u8) = mask 5" by (simp add: mask_eq_exp_minus_1)
  have "(0xE0 OR of_nat n) AND 0x1F = (of_nat n AND 0x1F :: u8)"
    by (simp add: bit.conj_disj_distrib2)
  also have "\<dots> = of_nat n"
    using n unfolding m
    by (simp add: word_unat_eq_iff unsigned_take_bit_eq take_bit_eq_mod unat_mod_distrib unat_of_nat
        flip: take_bit_eq_mask)
  finally show ?thesis using n by (simp add: unat_of_nat)
qed

lemma avc_to_bytes_roundtrip:
  assumes "avc_to_bytes h = Inr b" and "unat (length_size_minus_one h) \<le> 3"
  shows "avc_from_bytes (b @ x) = Inr h"
proof -
  have ls: "(0xFC OR (length_size_minus_one h AND 0x03)) AND 0x03 = length_size_minus_one h"
  proof -
    have m: "(0x03 :: u8) = mask 2" by (simp add: mask_eq_exp_minus_1)
    have "(0xFC OR (length_size_minus_one h AND 0x03)) AND 0x03 = length_size_minus_one h AND 0x03"
      by (simp add: bit.conj_disj_distrib2 and.assoc)
    also have "\<dots> = length_size_minus_one h"
      using assms(2) unfolding m
      by (simp add: word_unat_eq_iff unsigned_take_bit_eq take_bit_eq_mod unat_mod_distrib
          flip: take_bit_eq_mask)
    finally show ?thesis .
  qed
  let ?s = "sps_list h" and ?p = "pps_list h"
  from assms(1) have c: "?s \<noteq> []" "?p \<noteq> []" "length ?s \<le> 31" "length ?p \<le> 255"
    "\<forall>e \<in> set ?s. length e \<le> 4096" "\<forall>e \<in> set ?p. length e \<le> 4096"
    and b: "b = [1, avc_profile_indication h, profile_compatibility h, avc_level_indication h,
          0xFC OR (length_size_minus_one h AND 0x03)]
         @ [0xE0 OR of_nat (length ?s)] @ avc_write_entries ?s
         @ [of_nat (length ?p)] @ avc_write_entries ?p"
    by (auto simp: avc_to_bytes_def not_less split: if_splits)
  have p: "unat (of_nat (length ?p) :: u8) = length ?p" using c by (simp add: unat_of_nat)
  have l: "7 \<le> length (b @ x)" by (simp add: b)
  have rs: "avc_read_entries (length ?s) (drop 6 (b @ x)) =
      Inr (?s, [of_nat (length ?p)] @ avc_write_entries ?p @ x)"
    using avc_read_write_entries [OF c(5), of "[of_nat (length ?p)] @ avc_write_entries ?p @ x"]
    by (simp add: b)
  show ?thesis
    using l rs c avc_read_write_entries [OF c(6), of x] ls p avc_count_byte [OF c(3)]
    by (simp add: avc_from_bytes_def Let_def nth_append b)
qed


lemma avc_from_bytes_wf:
  assumes "avc_from_bytes b = Inr h"
  shows "\<exists>b'. avc_to_bytes h = Inr b'" and "unat (length_size_minus_one h) \<le> 3"
proof -
  from assms obtain r ppss r' where
    s: "avc_read_entries (unat (b ! 5 AND 0x1F)) (drop 6 b) = Inr (sps_list h, r)"
    and p: "avc_read_entries (unat (r ! 0)) (drop 1 r) = Inr (pps_list h, r')"
    and n: "unat (b ! 5 AND 0x1F) \<noteq> 0" "unat (r ! 0) \<noteq> 0"
    and l: "length_size_minus_one h = b ! 4 AND 0x03"
    and m: "unat (b ! 5 AND 0x1F) \<le> 31"
    by (auto simp: avc_from_bytes_def Let_def sbind_eq_Inr_iff split: if_splits)
  have "unat (r ! 0) \<le> 255" by (rule unat_u8_le)
  with avc_read_entries_bounds [OF s] avc_read_entries_bounds [OF p] n m
  show "\<exists>b'. avc_to_bytes h = Inr b'"
    by (auto simp: avc_to_bytes_def not_less)
  have "b ! 4 AND 0x03 \<le> 3" by (simp add: word_and_le1)
  then show "unat (length_size_minus_one h) \<le> 3" by (simp add: l word_le_nat_alt)
qed

section \<open>Bounds of the ingress parsers\<close>

definition track_in_bounds :: "nat \<Rightarrow> multi_track_entry \<Rightarrow> bool" where
  "track_in_bounds n e \<longleftrightarrow> mt_data_offset e + mt_data_len e \<le> n"

text \<open>Consecutive tracks do not overlap.\<close>

fun tracks_ordered :: "nat \<Rightarrow> multi_track_entry list \<Rightarrow> bool" where
  "tracks_ordered pos [] = True"
| "tracks_ordered pos (e # es) =
     (pos \<le> mt_data_offset e \<and> tracks_ordered (mt_data_offset e + mt_data_len e) es)"

lemma many_tracks_bounds:
  "tracks_ordered pos (many_tracks pay c pos) \<and> list_all (track_in_bounds (length pay)) (many_tracks pay c pos)"
  by (induction pay c pos rule: many_tracks.induct)
    (subst (1 2) many_tracks.simps, auto simp: Let_def track_in_bounds_def [abs_def])

lemma many_tracks_many_codecs_bounds:
  "tracks_ordered pos (many_tracks_many_codecs pay pos)
   \<and> list_all (track_in_bounds (length pay)) (many_tracks_many_codecs pay pos)"
  by (induction pay pos rule: many_tracks_many_codecs.induct)
    (subst (1 2) many_tracks_many_codecs.simps, auto simp: Let_def track_in_bounds_def [abs_def])

lemma ucast_u8_bit: "bit (ucast (a :: u8) :: 32 word) n \<Longrightarrow> n < 8"
  using bit_imp_le_length [of a n] by (simp add: bit_simps)

lemma signed_i24_eq: "signed_i24 a b c = i24 a b c"
proof -
  let ?raw = "push_bit 16 (ucast a) OR push_bit 8 (ucast b) OR ucast c :: 32 word"
  let ?n = "unat a * 65536 + unat b * 256 + unat c"
  have bnd: "unat a \<le> 255" "unat b \<le> 255" "unat c \<le> 255" by (rule unat_u8_le)+
  have "?raw = push_bit 16 (ucast a) + push_bit 8 (ucast b) + ucast c"
    by (subst disjunctive_add_eq_or,
        (rule bit_word_eqI, use ucast_u8_bit in \<open>force simp: bit_simps\<close>))+
      (simp add: or.assoc)
  then have raw: "?raw = of_nat ?n" by (simp add: push_bit_eq_mult)
  have u: "unat ?raw = ?n" unfolding raw using bnd by (simp add: unat_of_nat del: of_nat_unat of_nat_add of_nat_mult)
  have s: "?raw AND 0x800000 \<noteq> 0 \<longleftrightarrow> 128 \<le> unat a"
  proof -
    have "?raw AND 0x800000 \<noteq> 0 \<longleftrightarrow> bit a 7"
      using and_exp_eq_0_iff_not_bit [of ?raw 23] bit_imp_le_length [of b 15] bit_imp_le_length [of c 23]
      by (simp add: bit_simps) blast
    also have "\<dots> \<longleftrightarrow> a AND 0x80 \<noteq> 0" using and_exp_eq_0_iff_not_bit [of a 7] by simp
    finally show ?thesis by (simp only: sign_bit_u8)
  qed
  have hi: "?raw OR NOT 0xFFFFFF = of_nat (4278190080 + ?n)"
  proof -
    have "?raw AND NOT 0xFFFFFF = 0"
    proof (rule bit_word_eqI)
      have m: "(0xFFFFFF :: 32 word) = mask 24" by (simp add: mask_eq_exp_minus_1)
      show "bit (?raw AND NOT 0xFFFFFF) k = bit 0 k" for k
        unfolding m using ucast_u8_bit by (force simp: bit_simps)
    qed
    then have "?raw OR NOT 0xFFFFFF = ?raw + NOT 0xFFFFFF" by (rule disjunctive_add_eq_or [symmetric])
    moreover have "NOT 0xFFFFFF = (of_nat 4278190080 :: 32 word)"
    proof -
      have "(of_nat 4278190080 :: 32 word) + 0x1000000 = of_nat (2 ^ 32)" by simp
      also have "\<dots> = 0" by (subst word_of_nat_eq_0_iff) simp
      finally show ?thesis by (simp add: eq_neg_iff_add_eq_0)
    qed
    ultimately show ?thesis unfolding raw by (simp only: of_nat_add add.commute)
  qed
  have "i24 a b c = of_nat (if 128 \<le> unat a then 4278190080 + ?n else ?n)"
    unfolding i24_def from_be_def
    by (rule arg_cong [where f = of_nat]) (simp add: be_to_nat_def sign_bit_u8)
  then show ?thesis
    unfolding signed_i24_def Let_def s hi by (simp only: raw if_distrib [of of_nat])
qed

section \<open>Properties\<close>

text \<open>
  A well-formed audio or video frame (a codec id that fits its four-bit field and is not one of
  the named ones, AAC and AVC packet types only where the format has them, a composition offset in
  24 bits) is recovered from its encoding.
\<close>

lemma media_frame_roundtrip:
  "(audio_frame_wf a \<longrightarrow> decode_audio_frame (encode_audio_frame a) (af_timestamp a) = Inr a)
   \<and> (video_frame_wf v \<longrightarrow> decode_video_frame (encode_video_frame v) (vf_timestamp v) = Inr v)"
  by (simp add: decode_encode_audio decode_encode_video)

lemma media_frame_roundtrip_witness:
  "decode_audio_frame (encode_audio_frame
     \<lparr>af_timestamp = 5, af_format = Aac, af_sample_rate = Khz44, af_is_8bit_sample = False,
      af_is_stereo = True, af_is_aac_sequence_header = True, af_data = [18, 16]\<rparr>) 5 =
   Inr \<lparr>af_timestamp = 5, af_format = Aac, af_sample_rate = Khz44, af_is_8bit_sample = False,
      af_is_stereo = True, af_is_aac_sequence_header = True, af_data = [18, 16]\<rparr>
   \<and> decode_video_frame (encode_video_frame
     \<lparr>vf_timestamp = 5, vf_composition_timestamp_offset = 40, vf_frame_type = KeyFrame,
      vf_codec = Avc, vf_avc_packet_type = Some NalUnit, vf_data = [1]\<rparr>) 5 =
   Inr \<lparr>vf_timestamp = 5, vf_composition_timestamp_offset = 40, vf_frame_type = KeyFrame,
      vf_codec = Avc, vf_avc_packet_type = Some NalUnit, vf_data = [1]\<rparr>"
  using media_frame_roundtrip
    [of "\<lparr>af_timestamp = 5, af_format = Aac, af_sample_rate = Khz44, af_is_8bit_sample = False,
      af_is_stereo = True, af_is_aac_sequence_header = True, af_data = [18, 16]\<rparr>"
     "\<lparr>vf_timestamp = 5, vf_composition_timestamp_offset = 40, vf_frame_type = KeyFrame,
      vf_codec = Avc, vf_avc_packet_type = Some NalUnit, vf_data = [1]\<rparr>"]
  by (simp add: audio_frame_wf_def video_frame_wf_def sint_u32)

text \<open>
  The video parser accepts exactly the encodings of well-formed frames: it returns a frame for a
  byte string if and only if the string is the encoding of that frame.
\<close>

lemma video_frame_parser_exact:
  "decode_video_frame buf ts = Inr f
     \<longleftrightarrow> encode_video_frame f = buf \<and> video_frame_wf f \<and> vf_timestamp f = ts"
  using encode_decode_video [of buf ts f] decode_encode_video [of f] by auto

text \<open>
  The AVC decoder configuration record round-trips: what \<^verbatim>\<open>to_bytes\<close> writes, \<^verbatim>\<open>from_bytes\<close> reads
  back (and it ignores what follows), and every record that was parsed can be written again and is
  then parsed as the same record.
\<close>

lemma avc_sequence_header_roundtrip:
  "(avc_to_bytes h = Inr b \<and> length_size_minus_one h \<le> 3 \<longrightarrow> avc_from_bytes (b @ x) = Inr h)
   \<and> (avc_from_bytes b = Inr h \<longrightarrow>
        (\<exists>b'. avc_to_bytes h = Inr b' \<and> avc_from_bytes (b' @ x) = Inr h))"
  using avc_to_bytes_roundtrip [of h] avc_from_bytes_wf [of b h] by (auto simp: word_le_nat_alt)

lemma avc_sequence_header_roundtrip_witness:
  "avc_from_bytes [1, 66, 0, 30, 0xFF, 0xE1, 0, 1, 0x67, 1, 0, 2, 0x68, 9] =
     Inr \<lparr>avc_profile_indication = 66, profile_compatibility = 0, avc_level_indication = 30,
          length_size_minus_one = 3, sps_list = [[0x67]], pps_list = [[0x68, 9]]\<rparr>"
proof -
  have "avc_to_bytes \<lparr>avc_profile_indication = 66, profile_compatibility = 0, avc_level_indication = 30,
          length_size_minus_one = 3, sps_list = [[0x67]], pps_list = [[0x68, 9]]\<rparr> =
     Inr [1, 66, 0, 30, 0xFF, 0xE1, 0, 1, 0x67, 1, 0, 2, 0x68, 9]"
    by (simp add: avc_to_bytes_def avc_write_entries_def to_be_def nat_to_be_numeral)
  then show ?thesis
    using avc_sequence_header_roundtrip [where x = "[]" and b = "[1, 66, 0, 30, 0xFF, 0xE1, 0, 1, 0x67, 1, 0, 2, 0x68, 9]"]
    by fastforce
qed

text \<open>
  C40: the ranges the video ingress parsers hand out lie inside the payload: the payload offset of an
  ingress header, and the offset and length of every track of a multi-track packet, whose ranges are
  also disjoint and in order; the composition offset is a 24-bit signed value.
\<close>

theorem video_ingress_bounds:
  "(parse_video_ingress_header_with_mode pay mode = Some h \<longrightarrow>
      vih_payload_offset h \<le> length pay
      \<and> - 0x800000 \<le> sint (vih_cts h) \<and> sint (vih_cts h) < 0x800000)
   \<and> (parse_video_multi_track pay = Some m \<longrightarrow>
      tracks_ordered 6 (mth_tracks m)
      \<and> (\<forall>e \<in> set (mth_tracks m). mt_data_offset e + mt_data_len e \<le> length pay))"
proof (intro conjI impI)
  assume "parse_video_ingress_header_with_mode pay mode = Some h"
  then show "vih_payload_offset h \<le> length pay" "- 0x800000 \<le> sint (vih_cts h)"
    "sint (vih_cts h) < 0x800000"
    using i24_range
    by (auto simp: parse_video_ingress_header_with_mode_def parse_enhanced_ingress_header_def
        should_parse_enhanced_cts_def Let_def signed_i24_eq split: if_splits)
next
  assume p: "parse_video_multi_track pay = Some m"
  from p many_tracks_bounds many_tracks_many_codecs_bounds show "tracks_ordered 6 (mth_tracks m)"
    by (auto simp: parse_video_multi_track_def Let_def split: if_splits option.splits multi_track_type.splits)
  from p many_tracks_bounds many_tracks_many_codecs_bounds
  show "\<forall>e \<in> set (mth_tracks m). mt_data_offset e + mt_data_len e \<le> length pay"
    by (auto simp: parse_video_multi_track_def Let_def list_all_iff track_in_bounds_def
        split: if_splits option.splits multi_track_type.splits)
qed

theorem video_ingress_bounds_witness:
  "parse_video_ingress_header [0x17, 1, 0, 0, 0x28, 9] \<noteq> None
   \<and> vih_payload_offset (the (parse_video_ingress_header [0x17, 1, 0, 0, 0x28, 9])) \<le> 6"
proof -
  have p: "parse_video_ingress_header [0x17, 1, 0, 0, 0x28, 9] =
    Some \<lparr>vih_frame_type = 1, vih_codec = H264, vih_packet_type = 1,
          vih_cts = signed_i24 0 0 0x28, vih_payload_offset = 5\<rparr>"
    by (simp add: parse_video_ingress_header_def parse_video_ingress_header_with_mode_def Let_def)
  show ?thesis
    using video_ingress_bounds [of "[0x17, 1, 0, 0, 0x28, 9]" Standard] p
    by (simp add: parse_video_ingress_header_def)
qed

end
