(* ===== verification/Rtmp_Message.thy ===== *)
theory Rtmp_Message
  imports Rtmp_Amf Rtmp_User_Control Rtmp_Media_Properties Rtmp_Chunk_Properties
begin

text \<open>
  The message layer: \<^verbatim>\<open>message/mod.rs\<close> (messages), \<^verbatim>\<open>message/encoder.rs\<close> (a message becomes the payload of a
  chunk-layer message, and a chunk-size message changes the encoder after it has been sent) and
  \<^verbatim>\<open>message/decoder.rs\<close> (the reverse, over a receive buffer). \<open>None\<close> from the encoder is the panic of the
  AMF3 integer encoder.
\<close>

section \<open>Messages\<close>

record rtmp_message_header =
  mh_stream_id :: rtmp_message_stream_id
  mh_timestamp :: rtmp_timestamp

definition pcm_header :: rtmp_message_header where
  "pcm_header = \<lparr>mh_stream_id = 0, mh_timestamp = 0\<rparr>"

datatype set_peer_bandwidth_limit_type = Hard | Soft | Dynamic

fun limit_type_id :: "set_peer_bandwidth_limit_type \<Rightarrow> u8" where
  "limit_type_id Hard = 0"
| "limit_type_id Soft = 1"
| "limit_type_id Dynamic = 2"

datatype rtmp_message =
    MSetChunkSize rtmp_message_header rtmp_chunk_size
  | MAbort rtmp_message_header rtmp_chunk_stream_id
  | MAck rtmp_message_header u32
  | MWinAckSize rtmp_message_header u32
  | MSetPeerBandwidth rtmp_message_header u32 set_peer_bandwidth_limit_type
  | MUserControl rtmp_message_header rtmp_user_control_event
  | MAudio rtmp_message_header audio_frame bytes
  | MVideo rtmp_message_header video_frame bytes
  | MCommand rtmp_message_header amf_version string int amf_value "amf_value list"
  | MData rtmp_message_header amf_version "amf_value list"

fun message_header :: "rtmp_message \<Rightarrow> rtmp_message_header" where
  "message_header (MSetChunkSize h _) = h"
| "message_header (MAbort h _) = h"
| "message_header (MAck h _) = h"
| "message_header (MWinAckSize h _) = h"
| "message_header (MSetPeerBandwidth h _ _) = h"
| "message_header (MUserControl h _) = h"
| "message_header (MAudio h _ _) = h"
| "message_header (MVideo h _ _) = h"
| "message_header (MCommand h _ _ _ _ _) = h"
| "message_header (MData h _ _) = h"

text \<open>\<^verbatim>\<open>RtmpMessage::frame\<close> panics (\<open>None\<close>) on a message that is not media.\<close>

fun message_frame :: "rtmp_message \<Rightarrow> media_frame option" where
  "message_frame (MAudio _ f _) = Some (MediaAudio f)"
| "message_frame (MVideo _ f _) = Some (MediaVideo f)"
| "message_frame _ = None"

fun message_type_of :: "rtmp_message \<Rightarrow> rtmp_message_type" where
  "message_type_of (MSetChunkSize _ _) = MtSetChunkSize"
| "message_type_of (MAbort _ _) = MtAbort"
| "message_type_of (MAck _ _) = MtAck"
| "message_type_of (MWinAckSize _ _) = MtWinAckSize"
| "message_type_of (MSetPeerBandwidth _ _ _) = MtSetPeerBandwidth"
| "message_type_of (MUserControl _ _) = MtUserControl"
| "message_type_of (MAudio _ _ _) = MtAudio"
| "message_type_of (MVideo _ _ _) = MtVideo"
| "message_type_of (MCommand _ Amf0 _ _ _ _) = MtCommandAmf0"
| "message_type_of (MCommand _ Amf3 _ _ _ _) = MtCommandAmf3"
| "message_type_of (MData _ Amf0 _) = MtDataAmf0"
| "message_type_of (MData _ Amf3 _) = MtDataAmf3"

definition stream_begin :: "rtmp_message_stream_id \<Rightarrow> rtmp_message" where
  "stream_begin stream_id = MUserControl pcm_header (StreamBegin stream_id)"

definition win_ack_size :: "u32 \<Rightarrow> rtmp_message" where
  "win_ack_size sz = MWinAckSize pcm_header sz"

definition set_peer_bandwidth :: "u32 \<Rightarrow> rtmp_message" where
  "set_peer_bandwidth sz = MSetPeerBandwidth pcm_header sz Hard"

definition ack :: "u32 \<Rightarrow> rtmp_message" where
  "ack total_bytes_received = MAck pcm_header total_bytes_received"

definition set_chunk_size :: "rtmp_chunk_size \<Rightarrow> rtmp_message" where
  "set_chunk_size sz = MSetChunkSize pcm_header sz"

section \<open>Encoder\<close>

definition encode_command ::
  "amf_version \<Rightarrow> string \<Rightarrow> int \<Rightarrow> amf_value \<Rightarrow> amf_value list \<Rightarrow> bytes option" where
  "encode_command ver name transaction_id obj args =
     ocat (amf_encode (amf_from_str ver name)
       # amf_encode (amf_from_f64 ver (i64_as_f64 transaction_id))
       # amf_encode obj # map amf_encode args)"

fun encode_message_payload :: "rtmp_message \<Rightarrow> bytes option" where
  "encode_message_payload (MSetChunkSize _ sz) = Some (write_u32 (of_nat (chunk_size_get sz)))"
| "encode_message_payload (MAbort _ c) = Some (write_u32 (csid_get c))"
| "encode_message_payload (MAck _ n) = Some (write_u32 n)"
| "encode_message_payload (MWinAckSize _ sz) = Some (write_u32 sz)"
| "encode_message_payload (MSetPeerBandwidth _ sz t) = Some (write_u32 sz @ write_u8 (limit_type_id t))"
| "encode_message_payload (MAudio _ f _) = Some (encode_audio_frame f)"
| "encode_message_payload (MVideo _ f _) = Some (encode_video_frame f)"
| "encode_message_payload (MData _ _ vs) = encode_amf_values vs"
| "encode_message_payload (MUserControl _ ev) = Some (user_control_encode ev)"
| "encode_message_payload (MCommand _ ver name txn obj args) = encode_command ver name txn obj args"

definition message_to_chunk :: "rtmp_chunk_stream_id \<Rightarrow> rtmp_message \<Rightarrow> rtmp_chunk option" where
  "message_to_chunk c m =
     map_option (\<lambda>p. \<lparr>chunk_stream_id = c, message_stream_id = mh_stream_id (message_header m),
                      message_type = message_type_of m, timestamp = mh_timestamp (message_header m),
                      payload = p\<rparr>) (encode_message_payload m)"

record message_encoder =
  me_chunk_encoder :: chunk_encoder

definition message_encoder_default :: message_encoder where
  "message_encoder_default = \<lparr>me_chunk_encoder = chunk_encoder_default\<rparr>"

definition message_encoder_set_chunk_size :: "message_encoder \<Rightarrow> rtmp_chunk_size \<Rightarrow> message_encoder" where
  "message_encoder_set_chunk_size enc sz =
     enc\<lparr>me_chunk_encoder := chunk_encoder_set_chunk_size (me_chunk_encoder enc) sz\<rparr>"

definition encode_raw_chunk :: "message_encoder \<Rightarrow> rtmp_chunk \<Rightarrow> message_encoder \<times> bytes" where
  "encode_raw_chunk enc ch =
     (let (ce, bs) = chunk_encode (me_chunk_encoder enc) ch in (enc\<lparr>me_chunk_encoder := ce\<rparr>, bs))"

definition message_encode ::
  "message_encoder \<Rightarrow> rtmp_chunk_stream_id \<Rightarrow> rtmp_message \<Rightarrow> (message_encoder \<times> bytes) option" where
  "message_encode enc c m =
     (let new_chunk_size = (case m of MSetChunkSize _ sz \<Rightarrow> Some sz | _ \<Rightarrow> None) in
      case message_to_chunk c m of
        None \<Rightarrow> None
      | Some ch \<Rightarrow>
          (let (enc1, bs) = encode_raw_chunk enc ch in
           Some (case new_chunk_size of
                   None \<Rightarrow> enc1
                 | Some sz \<Rightarrow> message_encoder_set_chunk_size enc1 sz, bs)))"

section \<open>Decoder\<close>

definition decode_command ::
  "amf_version \<Rightarrow> rtmp_message_header \<Rightarrow> bytes \<Rightarrow> error_kind + rtmp_message" where
  "decode_command ver0 h p =
     (let (ver, buf) = (if ver0 = Amf3 \<and> get_at p 0 = Some 0 then (Amf0, drop 1 p) else (ver0, p)) in
      sbind (amf_decode buf ver) (\<lambda>(size1, name_value).
      sbind (expect_str name_value) (\<lambda>name.
      let buf1 = drop size1 buf in
      sbind (amf_decode buf1 ver) (\<lambda>(size2, txn_value).
      sbind (expect_number txn_value) (\<lambda>txn.
      let buf2 = drop size2 buf1 in
      sbind (amf_decode buf2 ver) (\<lambda>(size3, obj).
      let buf3 = drop size3 buf2 in
      sbind (decode_amf_values ver buf3) (\<lambda>args.
        Inr (MCommand h ver name (round_f64_to_i64 txn) obj args))))))))"

definition limit_type_of_byte :: "u8 \<Rightarrow> error_kind + set_peer_bandwidth_limit_type" where
  "limit_type_of_byte t =
     (if t = 0 then Inr Hard else if t = 1 then Inr Soft else if t = 2 then Inr Dynamic
      else Inl InvalidData)"

definition chunk_header :: "rtmp_chunk \<Rightarrow> rtmp_message_header" where
  "chunk_header ch = \<lparr>mh_stream_id = message_stream_id ch, mh_timestamp = timestamp ch\<rparr>"

definition decode_rtmp_chunk_to_message :: "rtmp_chunk \<Rightarrow> error_kind + rtmp_message" where
  "decode_rtmp_chunk_to_message ch =
     (let h = chunk_header ch; p = payload ch in
      case message_type ch of
        MtSetChunkSize \<Rightarrow>
          sbind (read_u32 p) (\<lambda>(sz, _). Inr (MSetChunkSize h (chunk_size_saturating_new (unat sz))))
      | MtAbort \<Rightarrow>
          sbind (read_u32 p) (\<lambda>(i, _). sbind (ok_or InvalidData (csid_new i)) (\<lambda>c. Inr (MAbort h c)))
      | MtAck \<Rightarrow> sbind (read_u32 p) (\<lambda>(n, _). Inr (MAck h n))
      | MtWinAckSize \<Rightarrow> sbind (read_u32 p) (\<lambda>(sz, _). Inr (MWinAckSize h sz))
      | MtSetPeerBandwidth \<Rightarrow>
          sbind (read_u32 p) (\<lambda>(sz, p1). sbind (read_u8 p1) (\<lambda>(t, _).
            sbind (limit_type_of_byte t) (\<lambda>lt. Inr (MSetPeerBandwidth h sz lt))))
      | MtUserControl \<Rightarrow> sbind (user_control_decode p) (\<lambda>ev. Inr (MUserControl h ev))
      | MtAudio \<Rightarrow> sbind (decode_audio_frame p (mh_timestamp h)) (\<lambda>f. Inr (MAudio h f p))
      | MtVideo \<Rightarrow> sbind (decode_video_frame p (mh_timestamp h)) (\<lambda>f. Inr (MVideo h f p))
      | MtDataAmf0 \<Rightarrow> sbind (decode_amf_values Amf0 p) (\<lambda>vs. Inr (MData h Amf0 vs))
      | MtDataAmf3 \<Rightarrow> sbind (decode_amf_values Amf3 p) (\<lambda>vs. Inr (MData h Amf3 vs))
      | MtCommandAmf0 \<Rightarrow> decode_command Amf0 h p
      | MtCommandAmf3 \<Rightarrow> decode_command Amf3 h p
      | MtAggregate \<Rightarrow> Inr (MData h Amf0 []))"

record message_decoder =
  md_chunk_decoder :: chunk_decoder
  md_buf :: buf

definition message_decoder_default :: message_decoder where
  "message_decoder_default = \<lparr>md_chunk_decoder = chunk_decoder_default, md_buf = buf_default\<rparr>"

definition feed_buf :: "message_decoder \<Rightarrow> bytes \<Rightarrow> message_decoder" where
  "feed_buf s x = s\<lparr>md_buf := buf_feed (md_buf s) x\<rparr>"

text \<open>What a decoded message changes in the chunk decoder.\<close>

fun apply_control :: "rtmp_message \<Rightarrow> chunk_decoder \<Rightarrow> chunk_decoder" where
  "apply_control (MSetChunkSize _ sz) d = chunk_decoder_set_chunk_size d sz"
| "apply_control (MAbort _ c) d = chunk_decoder_reset_chunk_stream d c"
| "apply_control _ d = d"

lemma buf_advance_shrinks:
  "0 < n \<Longrightarrow> n \<le> length (buf_get b) \<Longrightarrow> length (buf_get (buf_advance b n)) < length (buf_get b)"
  by (auto simp: buf_get_def buf_advance_def Let_def)

text \<open>The \<^verbatim>\<open>loop\<close> of \<^verbatim>\<open>RtmpMessageDecoder::decode\<close>; it ends because a chunk step consumes bytes.\<close>

function message_decode :: "message_decoder \<Rightarrow> message_decoder \<times> (error_kind + rtmp_message option)" where
  "message_decode s =
     (case chunk_decode (md_chunk_decoder s) (buf_get (md_buf s)) of
        (d, Inl e) \<Rightarrow>
          (s\<lparr>md_chunk_decoder := d\<rparr>, if e = InsufficientBuffer then Inr None else Inl e)
      | (d, Inr (n, maybe_chunk)) \<Rightarrow>
          (let s1 = s\<lparr>md_chunk_decoder := d, md_buf := buf_advance (md_buf s) n\<rparr> in
           case maybe_chunk of
             None \<Rightarrow> message_decode s1
           | Some ch \<Rightarrow>
               (case decode_rtmp_chunk_to_message ch of
                  Inl e \<Rightarrow> (s1, Inl e)
                | Inr m \<Rightarrow> (s1\<lparr>md_chunk_decoder := apply_control m d\<rparr>, Inr (Some m)))))"
  by pat_completeness auto
termination
  by (relation "measure (\<lambda>s. length (buf_get (md_buf s)))")
    (auto dest!: cdec.progress [OF sym] simp: buf_advance_shrinks)

declare message_decode.simps [simp del]

end
