(* ===== verification/Rtmp_Message_Roundtrip.thy ===== *)
theory Rtmp_Message_Roundtrip
  imports Rtmp_Message
begin

text \<open>
  The message layer end to end: what one peer sends through a message encoder, including changes of
  the chunk size between messages, the message decoder of the other peer returns.
\<close>

section \<open>Payloads\<close>

text \<open>
  The messages an encoder can represent. The payload kept beside a media frame is its encoding, the
  frame carries the timestamp of the header, and the values of a data or command message are of its
  AMF version.
\<close>

fun message_wf :: "rtmp_message \<Rightarrow> bool" where
  "message_wf (MAudio h f p) \<longleftrightarrow>
     audio_frame_wf f \<and> af_timestamp f = mh_timestamp h \<and> p = encode_audio_frame f"
| "message_wf (MVideo h f p) \<longleftrightarrow>
     video_frame_wf f \<and> vf_timestamp f = mh_timestamp h \<and> p = encode_video_frame f"
| "message_wf (MCommand h ver name txn obj args) \<longleftrightarrow>
     amf_wf (amf_from_str ver name) \<and> \<bar>txn\<bar> < 2 ^ 53
     \<and> (\<forall>v \<in> set (obj # args). amf_wf v \<and> amf_version_of v = ver)"
| "message_wf (MData h ver vs) \<longleftrightarrow> (\<forall>v \<in> set vs. amf_wf v \<and> amf_version_of v = ver)"
| "message_wf _ \<longleftrightarrow> True"

lemma amf_from_simps [simp]:
  "amf_version_of (amf_from_str ver s) = ver" "amf_version_of (amf_from_f64 ver x) = ver"
  "amf_wf (amf_from_f64 ver x)" "expect_str (amf_from_str ver s) = Inr s"
  "expect_number (amf_from_f64 ver x) = Inr x"
  by (cases ver; simp)+

text \<open>An AMF3 string starts with the string marker, which is not the escape to AMF0.\<close>

lemma amf3_name_no_escape:
  "amf_encode (amf_from_str Amf3 s) = Some w \<Longrightarrow> get_at (w @ r) 0 \<noteq> Some 0"
  by (auto simp: ocat_Cons write_u8_def)

lemma decode_encode_command:
  assumes "message_wf (MCommand h ver name txn obj args)"
  obtains w where "encode_command ver name txn obj args = Some w"
    "decode_command ver h w = Inr (MCommand h ver name txn obj args)"
proof -
  from assms have n: "amf_wf (amf_from_str ver name)" and t: "\<bar>txn\<bar> < 2 ^ 53" and o: "amf_wf obj" "amf_version_of obj = ver"
    and a: "\<forall>v \<in> set args. amf_wf v \<and> amf_version_of v = ver" by auto
  obtain w1 where w1: "amf_encode (amf_from_str ver name) = Some w1"
    "\<And>r. amf_decode (w1 @ r) ver = Inr (length w1, amf_from_str ver name)"
    by (rule amf_decode_encode [OF n]) simp
  obtain w2 where w2: "amf_encode (amf_from_f64 ver (i64_as_f64 txn)) = Some w2"
    "\<And>r. amf_decode (w2 @ r) ver = Inr (length w2, amf_from_f64 ver (i64_as_f64 txn))"
    by (rule amf_decode_encode [of "amf_from_f64 ver (i64_as_f64 txn)"]) simp_all
  obtain w3 where w3: "amf_encode obj = Some w3" "\<And>r. amf_decode (w3 @ r) ver = Inr (length w3, obj)"
    by (rule amf_decode_encode [OF o(1)]) (simp add: o(2))
  obtain w4 where w4: "encode_amf_values args = Some w4" "decode_amf_values ver w4 = Inr args"
    by (rule decode_encode_amf_values [OF a])
  have e: "encode_command ver name txn obj args = Some (w1 @ w2 @ w3 @ w4)"
    unfolding encode_command_def using w1(1) w2(1) w3(1) w4(1)
    by (simp add: ocat_Cons encode_amf_values_def)
  have "\<not> (ver = Amf3 \<and> get_at (w1 @ w2 @ w3 @ w4) 0 = Some 0)"
    using amf3_name_no_escape w1(1) by blast
  then have "decode_command ver h (w1 @ w2 @ w3 @ w4) = Inr (MCommand h ver name txn obj args)"
    unfolding decode_command_def
    by (auto simp: w1(2) w2(2) w3(2) w4(2) round_f64_to_i64_exact [OF t])
  with e that show thesis by blast
qed

lemma limit_type_roundtrip [simp]: "limit_type_of_byte (limit_type_id t) = Inr t"
  by (cases t) (simp_all add: limit_type_of_byte_def)

lemma read_write_end [simp]:
  "read_u32 (write_u32 v) = Inr (v, [])" "read_u8 (write_u8 u) = Inr (u, [])"
  using read_u32_write [of v "[]"] read_u8_write [of u "[]"] by simp_all

lemma chunk_size_wire [simp]:
  "chunk_size_saturating_new (unat (of_nat (chunk_size_get sz) :: u32)) = sz"
proof -
  have "unat (of_nat (chunk_size_get sz) :: u32) = chunk_size_get sz"
    using chunk_size_range [of sz] by (simp add: unat_of_nat)
  then show ?thesis by simp
qed

lemma header_of_fields: "\<lparr>mh_stream_id = mh_stream_id h, mh_timestamp = mh_timestamp h\<rparr> = h"
  by simp

lemma decode_encode_media:
  "audio_frame_wf a \<Longrightarrow> af_timestamp a = t \<Longrightarrow> decode_audio_frame (encode_audio_frame a) t = Inr a"
  "video_frame_wf v \<Longrightarrow> vf_timestamp v = t \<Longrightarrow> decode_video_frame (encode_video_frame v) t = Inr v"
  using decode_encode_audio [of a] decode_encode_video [of v] by simp_all

lemma decode_message_to_chunk:
  assumes "message_wf m"
  obtains ch where "message_to_chunk c m = Some ch" "decode_rtmp_chunk_to_message ch = Inr m"
proof (cases m)
  case (MCommand h ver name txn obj args)
  obtain w where "encode_command ver name txn obj args = Some w"
    "decode_command ver h w = Inr (MCommand h ver name txn obj args)"
    using decode_encode_command assms unfolding MCommand by blast
  with that MCommand show thesis
    by (cases ver) (simp_all add: header_of_fields message_to_chunk_def decode_rtmp_chunk_to_message_def chunk_header_def header_of_fields)
next
  case (MData h ver vs)
  obtain w where "encode_amf_values vs = Some w" "decode_amf_values ver w = Inr vs"
    using decode_encode_amf_values assms unfolding MData by (metis message_wf.simps(4))
  with that MData show thesis
    by (cases ver) (simp_all add: message_to_chunk_def decode_rtmp_chunk_to_message_def chunk_header_def)
qed (use assms that in \<open>simp_all add: message_to_chunk_def decode_rtmp_chunk_to_message_def chunk_header_def
    Let_def decode_encode_media header_of_fields\<close>)

section \<open>Streams of messages\<close>

fun message_encode_all ::
  "message_encoder \<Rightarrow> (rtmp_chunk_stream_id \<times> rtmp_message) list \<Rightarrow> (message_encoder \<times> bytes) option" where
  "message_encode_all enc [] = Some (enc, [])"
| "message_encode_all enc ((c, m) # ms) =
     (case message_encode enc c m of
        None \<Rightarrow> None
      | Some (enc1, b1) \<Rightarrow> map_option (map_prod id (\<lambda>b2. b1 @ b2)) (message_encode_all enc1 ms))"

text \<open>
  A use of a decoder: bytes are fed and \<^verbatim>\<open>RtmpMessageDecoder::decode\<close> is called in any order. \<open>decoded\<close> are the
  results of the calls.
\<close>

datatype message_action = Feed bytes | Decode

fun decoded :: "message_action list \<Rightarrow> message_decoder \<Rightarrow> (error_kind + rtmp_message option) list" where
  "decoded [] s = []"
| "decoded (Feed x # as) s = decoded as (feed_buf s x)"
| "decoded (Decode # as) s = (case message_decode s of (s', r) \<Rightarrow> r # decoded as s')"

fun fed :: "message_action list \<Rightarrow> bytes" where
  "fed [] = []"
| "fed (Feed x # as) = x @ fed as"
| "fed (Decode # as) = fed as"

definition messages_of :: "(error_kind + rtmp_message option) list \<Rightarrow> rtmp_message list" where
  "messages_of rs = concat (map (\<lambda>r. case r of Inr (Some m) \<Rightarrow> [m] | _ \<Rightarrow> []) rs)"

text \<open>
  Payloads stay within what a chunk decoder accepts. An abort message makes the decoder forget the
  chunk stream, which the encoder does not do: it is the one message the crate does not send (the note
  in \<^verbatim>\<open>message/encoder.rs\<close>).
\<close>

fun is_abort :: "rtmp_message \<Rightarrow> bool" where
  "is_abort (MAbort _ _) = True"
| "is_abort _ = False"

definition message_sendable :: "rtmp_message \<Rightarrow> bool" where
  "message_sendable m \<longleftrightarrow>
     \<not> is_abort m \<and> message_wf m \<and> (case encode_message_payload m of None \<Rightarrow> False | Some p \<Rightarrow> length p \<le> max_message_size)"

definition message_synced :: "message_encoder \<Rightarrow> chunk_decoder \<Rightarrow> bool" where
  "message_synced enc d \<longleftrightarrow> chunk_synced (me_chunk_encoder enc) d"

section \<open>The decoder over a list of bytes\<close>

text \<open>\<open>pull d bs\<close> is a call of \<open>message_decode\<close> with the unconsumed bytes as a list.\<close>

function pull :: "chunk_decoder \<Rightarrow> bytes \<Rightarrow> chunk_decoder \<times> bytes \<times> (error_kind + rtmp_message option)" where
  "pull d bs =
     (case chunk_decode d bs of
        (d, Inl e) \<Rightarrow> (d, bs, if e = InsufficientBuffer then Inr None else Inl e)
      | (d, Inr (n, None)) \<Rightarrow> pull d (drop n bs)
      | (d, Inr (n, Some ch)) \<Rightarrow>
          (case decode_rtmp_chunk_to_message ch of
             Inl e \<Rightarrow> (d, drop n bs, Inl e)
           | Inr m \<Rightarrow> (apply_control m d, drop n bs, Inr (Some m))))"
  by pat_completeness auto
termination
  by (relation "measure (\<lambda>(d, bs). length bs)") (auto dest!: cdec.progress [OF sym])

declare pull.simps [simp del]

lemma pull_partial: "chunk_decode d bs = (d', Inr (n, None)) \<Longrightarrow> pull d bs = pull d' (drop n bs)"
  by (simp add: pull.simps [of d])

lemma message_decode_pull:
  assumes "buf_invar (md_buf s)" and "pull (md_chunk_decoder s) (buf_get (md_buf s)) = (d, rest, r)"
  shows "\<exists>b. message_decode s = (\<lparr>md_chunk_decoder = d, md_buf = b\<rparr>, r) \<and> buf_invar b \<and> buf_get b = rest"
  using assms
proof (induction s rule: message_decode.induct)
  case (1 s)
  obtain d1 res where c: "chunk_decode (md_chunk_decoder s) (buf_get (md_buf s)) = (d1, res)" by fastforce
  show ?case
  proof (cases res)
    case (Inl e)
    have m: "message_decode s = (s\<lparr>md_chunk_decoder := d1\<rparr>, if e = InsufficientBuffer then Inr None else Inl e)"
      by (subst message_decode.simps) (simp add: c Inl)
    have "pull (md_chunk_decoder s) (buf_get (md_buf s)) = (d1, buf_get (md_buf s), if e = InsufficientBuffer then Inr None else Inl e)"
      by (subst pull.simps) (simp add: c Inl)
    with 1(3) have "d = d1" "rest = buf_get (md_buf s)" "r = (if e = InsufficientBuffer then Inr None else Inl e)" by simp_all
    with m 1(2) show ?thesis by (intro exI [of _ "md_buf s"]) simp
  next
    case (Inr nm)
    obtain n mc where nm: "nm = (n, mc)" by fastforce
    have c': "chunk_decode (md_chunk_decoder s) (buf_get (md_buf s)) = (d1, Inr (n, mc))" using c Inr nm by simp
    let ?s = "s\<lparr>md_chunk_decoder := d1, md_buf := buf_advance (md_buf s) n\<rparr>"
    have b: "buf_invar (md_buf ?s)" "buf_get (md_buf ?s) = drop n (buf_get (md_buf s))"
      using cdec.progress [OF c'] 1(2) by (auto intro: rbuf.invar_advance simp: rbuf.get_advance)
    show ?thesis
    proof (cases mc)
      case None
      have "message_decode s = message_decode ?s" by (subst message_decode.simps) (simp add: c' None)
      moreover have "pull (md_chunk_decoder ?s) (buf_get (md_buf ?s)) = (d, rest, r)"
        using 1(3) c' None b(2) by (simp add: pull_partial)
      ultimately show ?thesis using 1(1) [OF c [symmetric] Inr nm [symmetric] refl None b(1)] by simp
    next
      case (Some ch)
      show ?thesis
      proof (cases "decode_rtmp_chunk_to_message ch")
        case (Inl e)
        have "message_decode s = (?s, Inl e)" by (subst message_decode.simps) (simp add: c' Some Inl)
        moreover have "pull (md_chunk_decoder s) (buf_get (md_buf s)) = (d1, drop n (buf_get (md_buf s)), Inl e)"
          by (subst pull.simps) (simp add: c' Some Inl)
        ultimately show ?thesis using 1(3) b by (intro exI [of _ "md_buf ?s"]) simp
      next
        case (Inr m)
        have "message_decode s = (?s\<lparr>md_chunk_decoder := apply_control m d1\<rparr>, Inr (Some m))"
          by (subst message_decode.simps) (simp add: c' Some Inr)
        moreover have "pull (md_chunk_decoder s) (buf_get (md_buf s)) = (apply_control m d1, drop n (buf_get (md_buf s)), Inr (Some m))"
          by (subst pull.simps) (simp add: c' Some Inr)
        ultimately show ?thesis using 1(3) b by (intro exI [of _ "md_buf ?s"]) simp
      qed
    qed
  qed
qed

text \<open>More bytes change no result but the one that asks for them.\<close>

lemma pull_more:
  assumes "pull d bs = (d', rest, r)"
  shows "pull d (bs @ x) = (if r = Inr None then pull d' (rest @ x) else (d', rest @ x, r))"
  using assms
proof (induction "length bs" arbitrary: d bs rule: less_induct)
  case less
  obtain d1 res where c: "chunk_decode d bs = (d1, res)" by fastforce
  show ?case
  proof (cases res)
    case (Inl e)
    show ?thesis
    proof (cases "e = InsufficientBuffer")
      case True
      with c Inl have "chunk_decode d1 (bs @ x) = chunk_decode d (bs @ x)" by (simp add: cdec.resume)
      with True c Inl less.prems show ?thesis by (auto simp: pull.simps [of d] pull.simps [of d'])
    next
      case False
      with c Inl have "chunk_decode d (bs @ x) = (d1, Inl e)" by (simp add: cdec.stable_err)
      with False c Inl less.prems show ?thesis by (auto simp: pull.simps [of d])
    qed
  next
    case (Inr nm)
    obtain n mc where nm: "nm = (n, mc)" by fastforce
    have c': "chunk_decode d bs = (d1, Inr (n, mc))" using c Inr nm by simp
    note p = cdec.progress [OF c'] and cx = cdec.stable_ok [OF c', of x]
    show ?thesis
    proof (cases mc)
      case None
      have l: "length (drop n bs) < length bs" using p by simp
      have "pull d1 (drop n bs) = (d', rest, r)" using less.prems c' None by (simp add: pull_partial)
      from less.hyps [OF l this] show ?thesis using cx None p by (simp add: pull_partial)
    next
      case (Some ch)
      with less.prems c' cx p show ?thesis by (auto simp: pull.simps [of d] split: sum.splits)
    qed
  qed
qed

lemma pull_yields:
  assumes "yields chunk_decode d w ch d'" and "decode_rtmp_chunk_to_message ch = Inr m"
  shows "pull d (w @ x) = (apply_control m d', x, Inr (Some m))"
  using assms
proof (induction rule: yields.induct)
  case (last d w d' ch)
  with cdec.stable_ok [OF last.hyps, of x] show ?case by (subst pull.simps) simp
next
  case (more d w d1 w' ch d')
  have "chunk_decode d (w @ w' @ x) = (d1, Inr (length w, None))"
    by (rule cdec.stable_ok [OF more.hyps(1)])
  with more.IH [OF more.prems] show ?case by (simp add: pull_partial)
qed

lemma pull_empty: "\<exists>d'. pull d [] = (d', [], Inr None)"
  by (subst pull.simps) (simp add: chunk_decode_alt decode_chunk_basic_header_def read_u8_def check_buffer_size_def)

text \<open>The messages that calls of \<open>pull\<close> give from some bytes, up to the first one that asks for more.\<close>

fun gives :: "rtmp_message list \<Rightarrow> chunk_decoder \<Rightarrow> bytes \<Rightarrow> bool" where
  "gives [] d bs \<longleftrightarrow> (\<exists>d' rest. pull d bs = (d', rest, Inr None))"
| "gives (m # ms) d bs \<longleftrightarrow> (\<exists>d' rest. pull d bs = (d', rest, Inr (Some m)) \<and> gives ms d' rest)"

lemma gives_same: "pull d bs = pull d' bs' \<Longrightarrow> gives ms d bs = gives ms d' bs'"
  by (cases ms) simp_all

text \<open>One call, with the bytes that are still to be fed in view: it gives the next message or nothing.\<close>

lemma gives_decode:
  assumes "buf_invar (md_buf s)" and "gives ms (md_chunk_decoder s) (buf_get (md_buf s) @ x)"
  obtains s' r ms' where "message_decode s = (s', Inr r)" "buf_invar (md_buf s')"
    "gives ms' (md_chunk_decoder s') (buf_get (md_buf s') @ x)" "ms = (case r of None \<Rightarrow> ms' | Some m \<Rightarrow> m # ms')"
    "x = [] \<Longrightarrow> r = None \<Longrightarrow> ms = []"
proof -
  obtain d rest r where p: "pull (md_chunk_decoder s) (buf_get (md_buf s)) = (d, rest, r)" by (metis prod_cases3)
  from message_decode_pull [OF assms(1) p] obtain b where
    m: "message_decode s = (\<lparr>md_chunk_decoder = d, md_buf = b\<rparr>, r)" "buf_invar b" "buf_get b = rest" by blast
  note more = pull_more [OF p, of x]
  show thesis
  proof (cases "r = Inr None")
    case True
    with more have "gives ms d (rest @ x)" using assms(2) gives_same by metis
    moreover have "ms = []" if "x = []" using assms(2) that True p by (cases ms) auto
    ultimately show thesis using m True that [of "\<lparr>md_chunk_decoder = d, md_buf = b\<rparr>" None ms] by simp
  next
    case False
    with more have px: "pull (md_chunk_decoder s) (buf_get (md_buf s) @ x) = (d, rest @ x, r)" by simp
    with False assms(2) obtain m' ms' where "ms = m' # ms'" "r = Inr (Some m')" "gives ms' d (rest @ x)"
      by (cases ms) auto
    with m show thesis using that [of "\<lparr>md_chunk_decoder = d, md_buf = b\<rparr>" "Some m'" ms'] by simp
  qed
qed

lemma messages_of_simps [simp]:
  "messages_of [] = []" "messages_of (Inr None # rs) = messages_of rs" "messages_of (Inr (Some m) # rs) = m # messages_of rs"
  by (simp_all add: messages_of_def)

lemma decoded_calls:
  assumes "buf_invar (md_buf s)" and "gives ms (md_chunk_decoder s) (buf_get (md_buf s))" and "length ms < n"
  shows "(\<forall>e. Inl e \<notin> set (decoded (replicate n Decode) s)) \<and> messages_of (decoded (replicate n Decode) s) = ms
    \<and> last (decoded (replicate n Decode) s) = Inr None"
  using assms
proof (induction n arbitrary: s ms)
  case (Suc n)
  from Suc.prems(2) have "gives ms (md_chunk_decoder s) (buf_get (md_buf s) @ [])" by simp
  from gives_decode [OF Suc.prems(1) this] obtain s' r ms' where
    d: "message_decode s = (s', Inr r)" "buf_invar (md_buf s')" "gives ms' (md_chunk_decoder s') (buf_get (md_buf s'))"
    "ms = (case r of None \<Rightarrow> ms' | Some m \<Rightarrow> m # ms')" "r = None \<Longrightarrow> ms = []" by auto
  show ?case
  proof (cases n)
    case 0
    with Suc.prems(3) have "ms = []" by simp
    with 0 d(1,4) show ?thesis by (cases r) simp_all
  next
    case (Suc k)
    have "length ms' < n" using Suc.prems(3) Suc d(4,5) by (cases r) auto
    from Suc.IH [OF d(2,3) this] have ih: "\<forall>e. Inl e \<notin> set (decoded (replicate n Decode) s')"
      "messages_of (decoded (replicate n Decode) s') = ms'" "last (decoded (replicate n Decode) s') = Inr None" by simp_all
    have "decoded (replicate n Decode) s' \<noteq> []" using Suc by (simp split: prod.split)
    with ih d(1,4) show ?thesis by (cases r) simp_all
  qed
qed simp

lemma decoded_nonempty: "0 < n \<Longrightarrow> decoded (as @ replicate n Decode) s \<noteq> []"
proof (induction as arbitrary: s)
  case Nil
  then show ?case by (cases n) (simp_all split: prod.split)
next
  case (Cons a as)
  then show ?case by (cases a) (simp_all split: prod.split)
qed

lemma decoded_all:
  assumes "buf_invar (md_buf s)" and "gives ms (md_chunk_decoder s) (buf_get (md_buf s) @ fed as)" and "length ms < n"
  shows "(\<forall>e. Inl e \<notin> set (decoded (as @ replicate n Decode) s)) \<and> messages_of (decoded (as @ replicate n Decode) s) = ms
    \<and> last (decoded (as @ replicate n Decode) s) = Inr None"
  using assms
proof (induction as arbitrary: s ms)
  case (Cons a as)
  show ?case
  proof (cases a)
    case (Feed x)
    have "buf_invar (md_buf (feed_buf s x))" "buf_get (md_buf (feed_buf s x)) = buf_get (md_buf s) @ x"
      "md_chunk_decoder (feed_buf s x) = md_chunk_decoder s"
      using Cons.prems(1) by (simp_all add: feed_buf_def rbuf.invar_feed rbuf.get_feed)
    with Cons.IH [of "feed_buf s x" ms] Cons.prems Feed show ?thesis by simp
  next
    case Decode
    have g: "gives ms (md_chunk_decoder s) (buf_get (md_buf s) @ fed as)" using Cons.prems(2) Decode by simp
    from gives_decode [OF Cons.prems(1) g] obtain s' r ms' where
      d: "message_decode s = (s', Inr r)" "buf_invar (md_buf s')" "gives ms' (md_chunk_decoder s') (buf_get (md_buf s') @ fed as)"
      "ms = (case r of None \<Rightarrow> ms' | Some m \<Rightarrow> m # ms')" .
    have "length ms' < n" using Cons.prems(3) d(4) by (cases r) auto
    moreover have "decoded (as @ replicate n Decode) s' \<noteq> []"
      using calculation by (intro decoded_nonempty) simp
    ultimately show ?thesis using Cons.IH [OF d(2,3)] d(1,4) Decode by (cases r) simp_all
  qed
qed (simp add: decoded_calls)

lemma message_encode_yields:
  assumes sy: "message_synced enc d" and m: "message_sendable m"
  obtains enc' bs ch d' where "message_encode enc c m = Some (enc', bs)"
    "yields chunk_decode d bs ch d'" "decode_rtmp_chunk_to_message ch = Inr m"
    "message_synced enc' (apply_control m d')"
proof -
  have "message_wf m" using m by (simp add: message_sendable_def)
  then obtain ch where ch: "message_to_chunk c m = Some ch" "decode_rtmp_chunk_to_message ch = Inr m"
    by (rule decode_message_to_chunk)
  have len: "length (payload ch) \<le> max_message_size"
    using m ch(1) by (auto simp: message_sendable_def message_to_chunk_def split: option.splits)
  obtain ce bs where ce: "chunk_encode (me_chunk_encoder enc) ch = (ce, bs)" by fastforce
  obtain d' where d': "chunk_synced ce d'" "yields chunk_decode d bs ch d'"
    using yields_chunk_encode [OF sy [unfolded message_synced_def] len ce] by blast
  let ?e1 = "enc\<lparr>me_chunk_encoder := ce\<rparr>"
  let ?e2 = "case (case m of MSetChunkSize _ sz \<Rightarrow> Some sz | _ \<Rightarrow> None) of
      None \<Rightarrow> ?e1 | Some sz \<Rightarrow> message_encoder_set_chunk_size ?e1 sz"
  have e: "message_encode enc c m = Some (?e2, bs)"
    by (simp add: message_encode_def ch(1) encode_raw_chunk_def ce)
  have "message_synced ?e2 (apply_control m d')"
    using d'(1) m by (cases m) (simp_all add: message_synced_def message_encoder_set_chunk_size_def message_sendable_def)
  with e d'(2) ch(2) that show thesis by blast
qed

lemma message_encode_all_gives:
  assumes "message_synced enc d" and "\<forall>(c, m) \<in> set cms. message_sendable m"
  shows "\<exists>enc' bs. message_encode_all enc cms = Some (enc', bs) \<and> gives (map snd cms) d bs"
  using assms
proof (induction cms arbitrary: enc d)
  case Nil
  then show ?case using pull_empty [of d] by auto
next
  case (Cons cm cms)
  obtain c m where cm: "cm = (c, m)" by fastforce
  obtain enc1 b1 ch d1 where e: "message_encode enc c m = Some (enc1, b1)"
    and y: "yields chunk_decode d b1 ch d1" "decode_rtmp_chunk_to_message ch = Inr m"
    and sy: "message_synced enc1 (apply_control m d1)"
    by (rule message_encode_yields [OF Cons.prems(1), of m c]) (use Cons.prems(2) cm in auto)
  obtain enc2 b2 where "message_encode_all enc1 cms = Some (enc2, b2)" "gives (map snd cms) (apply_control m d1) b2"
    using Cons.IH [OF sy] Cons.prems(2) by auto
  with e cm pull_yields [OF y, of b2] show ?case by auto
qed

section \<open>Properties\<close>


lemma example_sendable:
  "message_sendable (set_chunk_size (chunk_size_saturating_new 4096))"
  "message_sendable (MCommand pcm_header Amf0 ''a'' 1 (VAmf0 A0Null) [VAmf0 (A0String ''a'')])"
  by (simp_all add: message_sendable_def set_chunk_size_def encode_command_def ocat_Cons amf_ascii_ok
      amf0_encode_def amf0_encode_string_def amf0_encode_number_def write_u8_def max_message_size_def)


end
