(* ===== verification/Rtmp_Command.thy ===== *)
theory Rtmp_Command
  imports Rtmp_Message_Roundtrip Rust_Strings
begin

text \<open>
  \<^verbatim>\<open>command.rs\<close>: the RTMP commands, their translation into command messages and back. An \<^verbatim>\<open>i64\<close>
  transaction id is an \<open>int\<close>; the constructors of the fixed replies (\<^verbatim>\<open>accept\<close>, \<^verbatim>\<open>publish_start\<close> and so
  on) are here as well.
\<close>

section \<open>Strings\<close>

text \<open>
  \<^verbatim>\<open>to_ascii_lowercase\<close>, and substring search. \<^verbatim>\<open>to_lowercase\<close> differs from the former outside ASCII only,
  and no character outside ASCII has a lower-case image with one of the letters of "error" in it.
\<close>

definition to_ascii_lowercase :: "string \<Rightarrow> string" where
  "to_ascii_lowercase s = map ascii_lower s"

definition str_contains :: "string \<Rightarrow> string \<Rightarrow> bool" where
  "str_contains s pat \<longleftrightarrow> list_ex (\<lambda>i. take (length pat) (drop i s) = pat) [0..<Suc (length s)]"

section \<open>Transaction ids\<close>

type_synonym transaction_id = int

definition transaction_on_status :: transaction_id where "transaction_on_status = 0"
definition transaction_connect :: transaction_id where "transaction_connect = 1"
definition transaction_non_reserved_start :: transaction_id where "transaction_non_reserved_start = 2"

definition transaction_from_f64 :: "u64 \<Rightarrow> transaction_id" where
  "transaction_from_f64 x = round_f64_to_i64 x"

text \<open>\<^verbatim>\<open>increment\<close> overflows (\<open>None\<close>) at \<^verbatim>\<open>i64::MAX\<close>.\<close>

definition transaction_increment :: "transaction_id \<Rightarrow> transaction_id option" where
  "transaction_increment t = (if t < i64_max then Some (t + 1) else None)"

section \<open>Commands\<close>

record connect_command =
  cc_app :: string
  cc_flash_ver :: string
  cc_tc_url :: string

record create_stream_command =
  cs_transaction_id :: transaction_id

record publish_command =
  pc_transaction_id :: transaction_id
  pc_stream_name :: string

record play_command =
  pl_transaction_id :: transaction_id
  pl_stream_name :: string
  pl_start :: u64

record delete_stream_command =
  dc_transaction_id :: transaction_id
  dc_stream_id :: rtmp_message_stream_id

record get_stream_length_command =
  gc_transaction_id :: transaction_id
  gc_stream_name :: string

record result_command =
  rc_transaction_id :: transaction_id
  rc_properties :: amf_value
  rc_information :: amf_value

record on_status_command =
  oc_level :: string
  oc_code :: string
  oc_description :: "string option"
  oc_details :: "string option"

datatype rtmp_command =
    CConnect connect_command
  | CCreateStream create_stream_command
  | CPublish publish_command
  | CPlay play_command
  | CDeleteStream delete_stream_command
  | CGetStreamLength get_stream_length_command
  | CResult result_command
  | COnStatus on_status_command
  | CIgnore string amf_value "amf_value list"

fun command_name :: "rtmp_command \<Rightarrow> string" where
  "command_name (CConnect _) = ''connect''"
| "command_name (CCreateStream _) = ''createStream''"
| "command_name (CPublish _) = ''publish''"
| "command_name (CPlay _) = ''play''"
| "command_name (CDeleteStream _) = ''deleteStream''"
| "command_name (CGetStreamLength _) = ''getStreamLength''"
| "command_name (CResult _) = ''_result''"
| "command_name (COnStatus _) = ''onStatus''"
| "command_name (CIgnore name _ _) = name"

definition opt_entry :: "string \<Rightarrow> string option \<Rightarrow> (string \<times> amf0_value) list" where
  "opt_entry k x = (case x of None \<Rightarrow> [] | Some s \<Rightarrow> [(k, A0String s)])"

fun into_message :: "rtmp_command \<Rightarrow> rtmp_message_header \<Rightarrow> error_kind + rtmp_message" where
  "into_message (CIgnore _ _ _) h = Inl InvalidState"
| "into_message (COnStatus cmd) h =
     Inr (MCommand h Amf0 ''onStatus'' transaction_on_status (VAmf0 A0Null)
       [amf0_object_value
         ([(''level'', A0String (oc_level cmd)), (''code'', A0String (oc_code cmd))]
          @ opt_entry ''description'' (oc_description cmd) @ opt_entry ''details'' (oc_details cmd))])"
| "into_message (CConnect cmd) h =
     Inr (MCommand h Amf0 ''connect'' transaction_connect
       (amf0_object_value
         [(''app'', A0String (cc_app cmd)), (''flashVer'', A0String (cc_flash_ver cmd)),
          (''tcUrl'', A0String (cc_tc_url cmd))]) [])"
| "into_message (CCreateStream cmd) h =
     Inr (MCommand h Amf0 ''createStream'' (cs_transaction_id cmd) (VAmf0 A0Null) [])"
| "into_message (CPublish cmd) h =
     Inr (MCommand h Amf0 ''publish'' (pc_transaction_id cmd) (VAmf0 A0Null)
       [VAmf0 (A0String (pc_stream_name cmd)), VAmf0 (A0String ''live'')])"
| "into_message (CPlay cmd) h =
     Inr (MCommand h Amf0 ''play'' (pl_transaction_id cmd) (VAmf0 A0Null)
       [VAmf0 (A0String (pl_stream_name cmd)), VAmf0 (A0Number (pl_start cmd))])"
| "into_message (CDeleteStream cmd) h =
     Inr (MCommand h Amf0 ''deleteStream'' (dc_transaction_id cmd) (VAmf0 A0Null)
       [VAmf0 (A0Number (i64_as_f64 (int (unat (dc_stream_id cmd)))))])"
| "into_message (CGetStreamLength cmd) h =
     Inr (MCommand h Amf0 ''getStreamLength'' (gc_transaction_id cmd) (VAmf0 A0Null)
       [VAmf0 (A0String (gc_stream_name cmd))])"
| "into_message (CResult cmd) h =
     Inr (MCommand h Amf0 ''_result'' (rc_transaction_id cmd) (rc_properties cmd) [rc_information cmd])"

definition into_pcm_message :: "rtmp_command \<Rightarrow> error_kind + rtmp_message" where
  "into_pcm_message cmd = into_message cmd pcm_header"

section \<open>Parsing a command\<close>

text \<open>\<^verbatim>\<open>args.get(i).ok_or(..)?\<close>, and an optional string member of an object.\<close>

definition arg_at :: "amf_value list \<Rightarrow> nat \<Rightarrow> error_kind + amf_value" where
  "arg_at args i = ok_or InvalidData (get_at args i)"

definition opt_member_str :: "amf_value \<Rightarrow> string \<Rightarrow> string option" where
  "opt_member_str obj key =
     (case expect_object_member obj key of
        Inl _ \<Rightarrow> None
      | Inr v \<Rightarrow> (case expect_str v of Inl _ \<Rightarrow> None | Inr s \<Rightarrow> Some s))"

definition connect_from_message :: "transaction_id \<Rightarrow> amf_value \<Rightarrow> error_kind + connect_command" where
  "connect_from_message txn obj =
     (if txn \<noteq> transaction_connect then Inl InvalidData
      else
        sbind (expect_object_member obj ''app'') (\<lambda>v. sbind (expect_str v) (\<lambda>app.
        let flash_ver = (case opt_member_str obj ''flashVer'' of Some s \<Rightarrow> s | None \<Rightarrow> ''FMLE/3.0'') in
        sbind (expect_object_member obj ''tcUrl'') (\<lambda>v. sbind (expect_str v) (\<lambda>tc_url.
          Inr \<lparr>cc_app = app, cc_flash_ver = flash_ver, cc_tc_url = tc_url\<rparr>)))))"

definition publish_from_message ::
  "transaction_id \<Rightarrow> amf_value \<Rightarrow> amf_value list \<Rightarrow> error_kind + publish_command" where
  "publish_from_message txn obj args =
     sbind (arg_at args 0) (\<lambda>v. sbind (expect_str v) (\<lambda>stream_name.
     sbind (arg_at args 1) (\<lambda>v. sbind (expect_str v) (\<lambda>publish_type.
       if publish_type \<noteq> ''live'' then Inl Unsupported
       else Inr \<lparr>pc_transaction_id = txn, pc_stream_name = stream_name\<rparr>))))"

definition play_from_message ::
  "transaction_id \<Rightarrow> amf_value \<Rightarrow> amf_value list \<Rightarrow> error_kind + play_command" where
  "play_from_message txn obj args =
     sbind (arg_at args 0) (\<lambda>v. sbind (expect_str v) (\<lambda>stream_name.
     sbind (arg_at args 1) (\<lambda>v. sbind (expect_number v) (\<lambda>start.
       Inr \<lparr>pl_transaction_id = txn, pl_stream_name = stream_name, pl_start = start\<rparr>))))"

text \<open>\<^verbatim>\<open>round_f64_to_i64(stream_id).max(0) as u32\<close>: the cast keeps the low 32 bits.\<close>

definition delete_stream_from_message ::
  "transaction_id \<Rightarrow> amf_value \<Rightarrow> amf_value list \<Rightarrow> error_kind + delete_stream_command" where
  "delete_stream_from_message txn obj args =
     sbind (arg_at args 0) (\<lambda>v. sbind (expect_number v) (\<lambda>stream_id.
       Inr \<lparr>dc_transaction_id = txn, dc_stream_id = of_int (max (round_f64_to_i64 stream_id) 0)\<rparr>))"

definition get_stream_length_from_message ::
  "transaction_id \<Rightarrow> amf_value \<Rightarrow> amf_value list \<Rightarrow> error_kind + get_stream_length_command" where
  "get_stream_length_from_message txn obj args =
     sbind (arg_at args 0) (\<lambda>v. sbind (expect_str v) (\<lambda>stream_name.
       Inr \<lparr>gc_transaction_id = txn, gc_stream_name = stream_name\<rparr>))"

definition result_from_message ::
  "transaction_id \<Rightarrow> amf_value \<Rightarrow> amf_value list \<Rightarrow> error_kind + result_command" where
  "result_from_message txn obj args =
     sbind (arg_at args 0) (\<lambda>information.
       Inr \<lparr>rc_transaction_id = txn, rc_properties = obj, rc_information = information\<rparr>)"

definition on_status_from_message ::
  "transaction_id \<Rightarrow> amf_value \<Rightarrow> amf_value list \<Rightarrow> error_kind + on_status_command" where
  "on_status_from_message txn obj args =
     sbind (arg_at args 0) (\<lambda>status_obj.
     sbind (expect_object_member status_obj ''level'') (\<lambda>v. sbind (expect_str v) (\<lambda>level.
     sbind (expect_object_member status_obj ''code'') (\<lambda>v. sbind (expect_str v) (\<lambda>code.
       Inr \<lparr>oc_level = level, oc_code = code,
            oc_description = opt_member_str status_obj ''description'',
            oc_details = opt_member_str status_obj ''details''\<rparr>)))))"

definition command_from_message ::
  "string \<Rightarrow> transaction_id \<Rightarrow> amf_value \<Rightarrow> amf_value list \<Rightarrow> error_kind + rtmp_command" where
  "command_from_message name txn obj args =
     (if name = ''connect'' then map_sum id CConnect (connect_from_message txn obj)
      else if name = ''createStream'' then Inr (CCreateStream \<lparr>cs_transaction_id = txn\<rparr>)
      else if name = ''publish'' then map_sum id CPublish (publish_from_message txn obj args)
      else if name = ''play'' then map_sum id CPlay (play_from_message txn obj args)
      else if name = ''deleteStream'' then map_sum id CDeleteStream (delete_stream_from_message txn obj args)
      else if name = ''getStreamLength''
        then map_sum id CGetStreamLength (get_stream_length_from_message txn obj args)
      else if name = ''_result'' \<or> name = ''_error''
        then map_sum id CResult (result_from_message txn obj args)
      else if name = ''onStatus'' then map_sum id COnStatus (on_status_from_message txn obj args)
      else Inr (CIgnore name obj args))"

section \<open>Fixed replies\<close>

definition f64_0 :: u64 where "f64_0 = 0"
definition f64_1 :: u64 where "f64_1 = i64_as_f64 1"
definition f64_255 :: u64 where "f64_255 = i64_as_f64 255"

definition connect_accept :: "connect_command \<Rightarrow> error_kind + rtmp_message" where
  "connect_accept cmd =
     into_pcm_message (CResult
       \<lparr>rc_transaction_id = transaction_connect,
        rc_properties = amf0_object_value
          [(''fmsVer'', A0String ''FMS/4,5,0,297''), (''capabilities'', A0Number f64_255),
           (''mode'', A0Number f64_1)],
        rc_information = amf0_object_value
          [(''level'', A0String ''status''), (''code'', A0String ''NetConnection.Connect.Success''),
           (''description'', A0String ''Connection succeeded.''), (''objectEncoding'', A0Number f64_0)]\<rparr>)"

definition publish_accept :: "transaction_id \<Rightarrow> rtmp_message_stream_id \<Rightarrow> error_kind + rtmp_message" where
  "publish_accept txn stream_id =
     into_message (CResult
       \<lparr>rc_transaction_id = txn, rc_properties = amf0_object_value [],
        rc_information = amf0_object_value
          [(''level'', A0String ''status''), (''code'', A0String ''NetStream.Publish.Start''),
           (''description'', A0String ''Publish succeeded.'')]\<rparr>)
       \<lparr>mh_stream_id = stream_id, mh_timestamp = 0\<rparr>"

definition play_accept :: "transaction_id \<Rightarrow> rtmp_message_stream_id \<Rightarrow> error_kind + rtmp_message" where
  "play_accept txn stream_id =
     into_message (CResult
       \<lparr>rc_transaction_id = txn, rc_properties = amf0_object_value [],
        rc_information = amf0_object_value
          [(''level'', A0String ''status''), (''code'', A0String ''NetStream.Play.Start''),
           (''description'', A0String ''Play succeeded.'')]\<rparr>)
       \<lparr>mh_stream_id = stream_id, mh_timestamp = 0\<rparr>"

definition get_stream_length_result :: "transaction_id \<Rightarrow> u64 \<Rightarrow> result_command" where
  "get_stream_length_result txn len =
     \<lparr>rc_transaction_id = txn, rc_properties = VAmf0 A0Null, rc_information = VAmf0 (A0Number len)\<rparr>"

definition create_stream_result :: "transaction_id \<Rightarrow> rtmp_message_stream_id \<Rightarrow> result_command" where
  "create_stream_result txn stream_id =
     \<lparr>rc_transaction_id = txn, rc_properties = VAmf0 A0Null,
      rc_information = VAmf0 (A0Number (i64_as_f64 (int (unat stream_id))))\<rparr>"

definition is_error :: "result_command \<Rightarrow> bool" where
  "is_error cmd =
     (case sbind (expect_object_member (rc_information cmd) ''code'') expect_str of
        Inl _ \<Rightarrow> False
      | Inr code \<Rightarrow> str_contains (to_ascii_lowercase code) ''error'')"

definition is_publish_start :: "on_status_command \<Rightarrow> bool" where
  "is_publish_start cmd \<longleftrightarrow> oc_code cmd = ''NetStream.Publish.Start''"

definition is_play_start :: "on_status_command \<Rightarrow> bool" where
  "is_play_start cmd \<longleftrightarrow> oc_code cmd = ''NetStream.Play.Start''"

definition publish_start :: on_status_command where
  "publish_start = \<lparr>oc_level = ''status'', oc_code = ''NetStream.Publish.Start'',
     oc_description = Some ''Publish succeeded.'', oc_details = None\<rparr>"

definition play_start :: on_status_command where
  "play_start = \<lparr>oc_level = ''status'', oc_code = ''NetStream.Play.Start'',
     oc_description = Some ''Play succeeded.'', oc_details = None\<rparr>"

definition publish_bad_name :: "string \<Rightarrow> on_status_command" where
  "publish_bad_name reason = \<lparr>oc_level = ''error'', oc_code = ''NetStream.Publish.BadName'',
     oc_description = Some ''Stream name already in use.'', oc_details = Some reason\<rparr>"

definition play_stream_not_found :: "string \<Rightarrow> on_status_command" where
  "play_stream_not_found reason = \<lparr>oc_level = ''error'', oc_code = ''NetStream.Play.StreamNotFound'',
     oc_description = Some ''Stream not found.'', oc_details = Some reason\<rparr>"

section \<open>Round trip\<close>

lemma u32_f64_exact: "round_f64_to_i64 (i64_as_f64 (int (unat (u :: u32)))) = int (unat u)"
  using uint_lt2p [of u] by (intro round_f64_to_i64_exact) simp

lemma rfind_entry_simps [simp]:
  "rfind_entry [] k = None"
  "rfind_entry (es @ [(k', v)]) k = (if k' = k then Some v else rfind_entry es k)"
  by (simp_all add: rfind_entry_def)

text \<open>
  C38: every command the crate sends is understood by its own parser: translating a command into a
  message and parsing that message by name, transaction id, object and arguments gives the command
  back. The one command that cannot be sent is the placeholder for ignored ones, which is an error.
\<close>

theorem command_message_roundtrip:
  "(\<exists>name txn obj args. into_message cmd h = Inr (MCommand h Amf0 name txn obj args)
      \<and> name = command_name cmd \<and> command_from_message name txn obj args = Inr cmd)
   \<or> (into_message cmd h = Inl InvalidState \<and> (\<exists>name obj args. cmd = CIgnore name obj args))"
proof (cases cmd)
  case (CDeleteStream x)
  then show ?thesis
    by (simp add: command_from_message_def delete_stream_from_message_def arg_at_def u32_f64_exact [simplified])
next
  case (COnStatus x)
  then show ?thesis
    by (cases "oc_description x"; cases "oc_details x")
      (simp_all add: command_from_message_def on_status_from_message_def arg_at_def opt_member_str_def
        opt_entry_def rfind_entry_def amf0_object_value_def)
qed (simp_all add: command_from_message_def connect_from_message_def publish_from_message_def
    play_from_message_def get_stream_length_from_message_def result_from_message_def arg_at_def
    opt_member_str_def rfind_entry_def amf0_object_value_def)

end
