(* ===== verification/Rtmp_Handshake.thy ===== *)
theory Rtmp_Handshake
  imports Rtmp_Bytes
begin

text \<open>
  \<^verbatim>\<open>handshake.rs\<close>: the server and client handshake machines, in the default build (feature
  \<^verbatim>\<open>complex-handshake\<close> off). A machine returns its state also on an error, because the bytes of the
  offending packet have then been taken from its buffer. The locale \<open>feeder\<close> is the contract both
  machines give their owner: the cutting of the input into reads does not matter.
\<close>

section \<open>Packets\<close>

definition rtmp_version :: u8 where "rtmp_version = 3"
definition handshake_packet_size :: nat where "handshake_packet_size = 1536"

record handshake_options =
  ho_app_version :: bytes
  ho_timestamp :: u32
  ho_random_data :: bytes

definition handshake_options_default :: handshake_options where
  "handshake_options_default =
     \<lparr>ho_app_version = [0, 0, 0, 0], ho_timestamp = 0,
      ho_random_data = replicate (handshake_packet_size - 8) 0\<rparr>"

definition phase1_packet :: "handshake_options \<Rightarrow> bytes" where
  "phase1_packet opts =
     write_u32 (ho_timestamp opts) @ write_u32 (from_be (ho_app_version opts)) @ ho_random_data opts"

datatype server_handshake_mode = ServerStrict | LenientSeededS1
datatype client_handshake_mode = ClientStrict | ClientLenient
datatype handshake_phase = P0 | P1 | P2 | Complete

section \<open>The seeded S1 packet\<close>

definition seed_absorb :: "u64 \<Rightarrow> u8 \<Rightarrow> u64" where
  "seed_absorb seed b =
     word_rotl 13 (seed XOR (ucast b + 0x9e3779b97f4a7c15)) * 0xbf58476d1ce4e5b9"

definition seed_next :: "u64 \<Rightarrow> u64" where
  "seed_next seed =
     (let s1 = seed XOR push_bit 13 seed;
          s2 = s1 XOR drop_bit 7 s1
      in s2 XOR push_bit 17 s2)"

fun seed_stream :: "nat \<Rightarrow> u64 \<Rightarrow> bytes" where
  "seed_stream 0 seed = []"
| "seed_stream (Suc n) seed = (let s = seed_next seed in ucast s # seed_stream n s)"

definition build_lenient_seeded_s1 :: "bytes \<Rightarrow> bytes" where
  "build_lenient_seeded_s1 c1 =
     replicate 8 0
     @ seed_stream (handshake_packet_size - 8) (foldl seed_absorb 0x9e3779b97f4a7c15 (take 128 c1))"

section \<open>The server\<close>

record server_handshake =
  sh_options :: handshake_options
  sh_mode :: server_handshake_mode
  sh_phase :: handshake_phase
  sh_recv_buf :: bytes
  sh_send_buf :: bytes
  sh_s1_packet :: bytes

definition server_handshake_new :: "server_handshake_mode \<Rightarrow> server_handshake" where
  "server_handshake_new mode =
     \<lparr>sh_options = handshake_options_default, sh_mode = mode, sh_phase = P0, sh_recv_buf = [],
      sh_send_buf = [], sh_s1_packet = []\<rparr>"

definition server_handle_phase_p2 :: "server_handshake \<Rightarrow> server_handshake \<times> (error_kind + unit)" where
  "server_handle_phase_p2 s =
     (if length (sh_recv_buf s) < handshake_packet_size then (s, Inr ()) else
      (let c2_packet = take handshake_packet_size (sh_recv_buf s);
           s1 = s\<lparr>sh_recv_buf := drop handshake_packet_size (sh_recv_buf s)\<rparr>
       in if sh_mode s1 = ServerStrict \<and> sh_s1_packet s1 \<noteq> c2_packet
          then (s1, Inl InvalidData)
          else (s1\<lparr>sh_phase := Complete\<rparr>, Inr ())))"

definition server_handle_phase_p1 :: "server_handshake \<Rightarrow> server_handshake \<times> (error_kind + unit)" where
  "server_handle_phase_p1 s =
     (if length (sh_recv_buf s) < handshake_packet_size then (s, Inr ()) else
      (let c1_packet = take handshake_packet_size (sh_recv_buf s);
           s1 = s\<lparr>sh_recv_buf := drop handshake_packet_size (sh_recv_buf s)\<rparr>;
           s1_packet = (case sh_mode s1 of
                          ServerStrict \<Rightarrow> phase1_packet (sh_options s1)
                        | LenientSeededS1 \<Rightarrow> build_lenient_seeded_s1 c1_packet)
       in server_handle_phase_p2
            (s1\<lparr>sh_s1_packet := s1_packet,
                sh_send_buf := sh_send_buf s1 @ s1_packet @ c1_packet,
                sh_phase := P2\<rparr>)))"

definition server_handle_phase_p0 :: "server_handshake \<Rightarrow> server_handshake \<times> (error_kind + unit)" where
  "server_handle_phase_p0 s =
     (case sh_recv_buf s of
        [] \<Rightarrow> (s, Inr ())
      | client_rtmp_version # rest \<Rightarrow>
          (let s1 = s\<lparr>sh_recv_buf := rest\<rparr> in
           if client_rtmp_version \<noteq> rtmp_version then (s1, Inl InvalidData)
           else server_handle_phase_p1
                  (s1\<lparr>sh_send_buf := sh_send_buf s1 @ write_u8 rtmp_version, sh_phase := P1\<rparr>)))"

definition server_handle_recv_buf :: "server_handshake \<Rightarrow> server_handshake \<times> (error_kind + unit)" where
  "server_handle_recv_buf s =
     (case sh_phase s of
        P0 \<Rightarrow> server_handle_phase_p0 s
      | P1 \<Rightarrow> server_handle_phase_p1 s
      | P2 \<Rightarrow> server_handle_phase_p2 s
      | Complete \<Rightarrow> (s, Inr ()))"

definition server_feed_recv_buf ::
  "server_handshake \<Rightarrow> bytes \<Rightarrow> server_handshake \<times> (error_kind + unit)" where
  "server_feed_recv_buf s b = server_handle_recv_buf (s\<lparr>sh_recv_buf := sh_recv_buf s @ b\<rparr>)"

definition server_take_recv_buf :: "server_handshake \<Rightarrow> server_handshake \<times> bytes" where
  "server_take_recv_buf s = (s\<lparr>sh_recv_buf := []\<rparr>, sh_recv_buf s)"

definition server_advance_send_buf :: "server_handshake \<Rightarrow> nat \<Rightarrow> server_handshake" where
  "server_advance_send_buf s n =
     s\<lparr>sh_send_buf := drop (min n (length (sh_send_buf s))) (sh_send_buf s)\<rparr>"

definition server_is_recv_complete :: "server_handshake \<Rightarrow> bool" where
  "server_is_recv_complete s \<longleftrightarrow> sh_phase s = Complete"

definition server_is_send_complete :: "server_handshake \<Rightarrow> bool" where
  "server_is_send_complete s \<longleftrightarrow> sh_phase s = Complete \<and> sh_send_buf s = []"

section \<open>The client\<close>

record client_handshake =
  ch_options :: handshake_options
  ch_mode :: client_handshake_mode
  ch_phase :: handshake_phase
  ch_recv_buf :: bytes
  ch_send_buf :: bytes

definition client_handshake_new :: "client_handshake_mode \<Rightarrow> client_handshake" where
  "client_handshake_new mode =
     \<lparr>ch_options = handshake_options_default, ch_mode = mode, ch_phase = P0, ch_recv_buf = [],
      ch_send_buf = [rtmp_version] @ phase1_packet handshake_options_default\<rparr>"

definition client_handle_phase_p1 :: "client_handshake \<Rightarrow> client_handshake \<times> (error_kind + unit)" where
  "client_handle_phase_p1 s =
     (if length (ch_recv_buf s) < handshake_packet_size * 2 then (s, Inr ()) else
      (let s1_packet = take handshake_packet_size (ch_recv_buf s);
           s2_packet = take handshake_packet_size (drop handshake_packet_size (ch_recv_buf s));
           s1 = s\<lparr>ch_recv_buf := drop (handshake_packet_size * 2) (ch_recv_buf s)\<rparr>
       in if ch_mode s1 = ClientStrict \<and> s2_packet \<noteq> phase1_packet (ch_options s1)
          then (s1, Inl InvalidData)
          else (s1\<lparr>ch_send_buf := ch_send_buf s1 @ s1_packet, ch_phase := Complete\<rparr>, Inr ())))"

definition client_handle_phase_p0 :: "client_handshake \<Rightarrow> client_handshake \<times> (error_kind + unit)" where
  "client_handle_phase_p0 s =
     (case ch_recv_buf s of
        [] \<Rightarrow> (s, Inr ())
      | server_rtmp_version # rest \<Rightarrow>
          (let s1 = s\<lparr>ch_recv_buf := rest\<rparr> in
           if server_rtmp_version \<noteq> rtmp_version then (s1, Inl InvalidData)
           else client_handle_phase_p1 (s1\<lparr>ch_phase := P1\<rparr>)))"

definition client_handle_recv_buf :: "client_handshake \<Rightarrow> client_handshake \<times> (error_kind + unit)" where
  "client_handle_recv_buf s =
     (case ch_phase s of
        P0 \<Rightarrow> client_handle_phase_p0 s
      | P1 \<Rightarrow> client_handle_phase_p1 s
      | P2 \<Rightarrow> (s, Inr ())
      | Complete \<Rightarrow> (s, Inr ()))"

definition client_feed_recv_buf ::
  "client_handshake \<Rightarrow> bytes \<Rightarrow> client_handshake \<times> (error_kind + unit)" where
  "client_feed_recv_buf s b = client_handle_recv_buf (s\<lparr>ch_recv_buf := ch_recv_buf s @ b\<rparr>)"

definition client_take_recv_buf :: "client_handshake \<Rightarrow> client_handshake \<times> bytes" where
  "client_take_recv_buf s = (s\<lparr>ch_recv_buf := []\<rparr>, ch_recv_buf s)"

definition client_advance_send_buf :: "client_handshake \<Rightarrow> nat \<Rightarrow> client_handshake" where
  "client_advance_send_buf s n =
     s\<lparr>ch_send_buf := drop (min n (length (ch_send_buf s))) (ch_send_buf s)\<rparr>"

definition client_is_recv_complete :: "client_handshake \<Rightarrow> bool" where
  "client_is_recv_complete s \<longleftrightarrow> ch_phase s = Complete"

definition client_is_send_complete :: "client_handshake \<Rightarrow> bool" where
  "client_is_send_complete s \<longleftrightarrow> ch_phase s = Complete \<and> ch_send_buf s = []"

section \<open>Feeding in pieces\<close>

text \<open>The owner feeds what it reads and gives up at the first error.\<close>

fun feed_all ::
  "('s \<Rightarrow> bytes \<Rightarrow> 's \<times> (error_kind + unit)) \<Rightarrow> 's \<Rightarrow> bytes list \<Rightarrow> 's \<times> (error_kind + unit)" where
  "feed_all feed s [] = (s, Inr ())"
| "feed_all feed s (p # ps) =
     (case feed s p of (s', Inl e) \<Rightarrow> (s', Inl e) | (s', Inr _) \<Rightarrow> feed_all feed s' ps)"

locale feeder =
  fixes feed :: "'s \<Rightarrow> bytes \<Rightarrow> 's \<times> (error_kind + unit)"
  assumes feed_ok: "feed s a = (s', Inr ()) \<Longrightarrow> feed s' b = feed s (a @ b)"
    and feed_err: "feed s a = (s', Inl e) \<Longrightarrow> snd (feed s (a @ b)) = Inl e"
begin

lemma feed_all_concat:
  "snd (feed_all feed s (p # ps)) = snd (feed s (concat (p # ps)))
   \<and> (snd (feed s (concat (p # ps))) = Inr () \<longrightarrow> feed_all feed s (p # ps) = feed s (concat (p # ps)))"
proof (induction ps arbitrary: s p)
  case Nil
  show ?case by (auto split: prod.splits sum.splits)
next
  case (Cons q ps)
  obtain s' r where f: "feed s p = (s', r)" by fastforce
  show ?case
  proof (cases r)
    case (Inl e)
    with f feed_err [of s p s' e "q @ concat ps"] show ?thesis by simp
  next
    case (Inr u)
    with f have "feed s' (concat (q # ps)) = feed s (p @ concat (q # ps))" by (simp add: feed_ok)
    with Cons [of s' q] f Inr show ?thesis by simp
  qed
qed

end

lemma length_phase1_packet [simp]: "length (phase1_packet handshake_options_default) = handshake_packet_size"
  by (simp add: phase1_packet_def handshake_options_default_def handshake_packet_size_def)

lemma length_seed_stream [simp]: "length (seed_stream n s) = n"
  by (induction n arbitrary: s) (auto simp: Let_def)

lemma length_build_lenient_seeded_s1 [simp]:
  "length (build_lenient_seeded_s1 c1) = handshake_packet_size"
  by (simp add: build_lenient_seeded_s1_def handshake_packet_size_def)

text \<open>Each phase handler, run on a longer buffer, continues where the shorter run stopped.\<close>

definition server_more :: "server_handshake \<Rightarrow> bytes \<Rightarrow> server_handshake" where
  "server_more s b = s\<lparr>sh_recv_buf := sh_recv_buf s @ b\<rparr>"

definition client_more :: "client_handshake \<Rightarrow> bytes \<Rightarrow> client_handshake" where
  "client_more s b = s\<lparr>ch_recv_buf := ch_recv_buf s @ b\<rparr>"

lemma server_phase_p2_ok:
  "sh_phase s = P2 \<Longrightarrow> server_handle_phase_p2 s = (s', Inr ()) \<Longrightarrow>
     server_handle_recv_buf (server_more s' b) = server_handle_phase_p2 (server_more s b)"
  by (auto simp: server_handle_recv_buf_def server_handle_phase_p2_def server_more_def Let_def
      split: if_splits)

lemma server_phase_p2_err:
  "server_handle_phase_p2 s = (s', Inl e) \<Longrightarrow> snd (server_handle_phase_p2 (server_more s b)) = Inl e"
  by (auto simp: server_handle_phase_p2_def server_more_def Let_def split: if_splits)

definition server_send_s1_s2 :: "server_handshake \<Rightarrow> server_handshake" where
  "server_send_s1_s2 s =
     (let c1_packet = take handshake_packet_size (sh_recv_buf s);
          s1 = s\<lparr>sh_recv_buf := drop handshake_packet_size (sh_recv_buf s)\<rparr>;
          s1_packet = (case sh_mode s1 of
                         ServerStrict \<Rightarrow> phase1_packet (sh_options s1)
                       | LenientSeededS1 \<Rightarrow> build_lenient_seeded_s1 c1_packet)
      in s1\<lparr>sh_s1_packet := s1_packet, sh_send_buf := sh_send_buf s1 @ s1_packet @ c1_packet,
            sh_phase := P2\<rparr>)"

lemma server_handle_phase_p1_alt:
  "server_handle_phase_p1 s =
     (if length (sh_recv_buf s) < handshake_packet_size then (s, Inr ())
      else server_handle_phase_p2 (server_send_s1_s2 s))"
  by (simp add: server_handle_phase_p1_def server_send_s1_s2_def Let_def)

lemma server_send_s1_s2_more:
  "handshake_packet_size \<le> length (sh_recv_buf s) \<Longrightarrow>
     server_send_s1_s2 (server_more s b) = server_more (server_send_s1_s2 s) b"
  by (simp add: server_send_s1_s2_def server_more_def Let_def split: server_handshake_mode.splits)

lemma server_send_s1_s2_phase [simp]: "sh_phase (server_send_s1_s2 s) = P2"
  by (simp add: server_send_s1_s2_def Let_def)

lemma length_server_more [simp]: "length (sh_recv_buf (server_more s b)) = length (sh_recv_buf s) + length b"
  by (simp add: server_more_def)

lemma server_more_phase [simp]: "sh_phase (server_more s b) = sh_phase s"
  by (simp add: server_more_def)

lemma server_phase_p1_ok:
  assumes "sh_phase s = P1" "server_handle_phase_p1 s = (s', Inr ())"
  shows "server_handle_recv_buf (server_more s' b) = server_handle_phase_p1 (server_more s b)"
proof (cases "length (sh_recv_buf s) < handshake_packet_size")
  case True
  with assms show ?thesis
    by (auto simp: server_handle_phase_p1_alt server_handle_recv_buf_def)
next
  case False
  with assms server_phase_p2_ok [of "server_send_s1_s2 s" s' b] show ?thesis
    by (simp add: server_handle_phase_p1_alt server_send_s1_s2_more)
qed

lemma server_phase_p1_err:
  "server_handle_phase_p1 s = (s', Inl e) \<Longrightarrow> snd (server_handle_phase_p1 (server_more s b)) = Inl e"
  by (auto simp: server_handle_phase_p1_alt server_send_s1_s2_more server_phase_p2_err split: if_splits)

lemma server_handle_phase_p0_Cons:
  "sh_recv_buf s = v # r \<Longrightarrow>
     server_handle_phase_p0 s =
       (if v \<noteq> rtmp_version then (s\<lparr>sh_recv_buf := r\<rparr>, Inl InvalidData)
        else server_handle_phase_p1
          (s\<lparr>sh_send_buf := sh_send_buf s @ [rtmp_version], sh_phase := P1, sh_recv_buf := r\<rparr>))"
  by (auto simp: server_handle_phase_p0_def write_u8_def
      intro!: arg_cong [where f = server_handle_phase_p1])

lemma server_phase_p0_ok:
  assumes "sh_phase s = P0" "server_handle_phase_p0 s = (s', Inr ())"
  shows "server_handle_recv_buf (server_more s' b) = server_handle_phase_p0 (server_more s b)"
proof (cases "sh_recv_buf s")
  case Nil
  with assms show ?thesis by (auto simp: server_handle_phase_p0_def server_handle_recv_buf_def)
next
  case (Cons v r)
  let ?t = "s\<lparr>sh_send_buf := sh_send_buf s @ [rtmp_version], sh_phase := P1, sh_recv_buf := r\<rparr>"
  from Cons assms(2) have v: "v = rtmp_version" and t: "server_handle_phase_p1 ?t = (s', Inr ())"
    by (auto simp: server_handle_phase_p0_Cons split: if_splits)
  have "server_handle_phase_p0 (server_more s b) = server_handle_phase_p1 (server_more ?t b)"
    using Cons v by (subst server_handle_phase_p0_Cons [where r = "r @ b"]) (auto simp: server_more_def)
  with server_phase_p1_ok [OF _ t, of b] show ?thesis by simp
qed

lemma server_phase_p0_err:
  assumes "server_handle_phase_p0 s = (s', Inl e)"
  shows "snd (server_handle_phase_p0 (server_more s b)) = Inl e"
proof (cases "sh_recv_buf s")
  case (Cons v r)
  let ?t = "s\<lparr>sh_send_buf := sh_send_buf s @ [rtmp_version], sh_phase := P1, sh_recv_buf := r\<rparr>"
  have m: "server_handle_phase_p0 (server_more s b) =
    (if v \<noteq> rtmp_version then (s\<lparr>sh_recv_buf := r @ b\<rparr>, Inl InvalidData)
     else server_handle_phase_p1 (server_more ?t b))"
    using Cons
    by (subst server_handle_phase_p0_Cons [where r = "r @ b" and v = v]) (auto simp: server_more_def)
  show ?thesis
    using assms server_phase_p1_err [of ?t s' e b] unfolding m
    by (auto simp: server_handle_phase_p0_Cons [OF Cons] split: if_splits)
qed (use assms in \<open>simp add: server_handle_phase_p0_def\<close>)

lemma server_handle_ok:
  "server_handle_recv_buf s = (s', Inr ()) \<Longrightarrow>
     server_handle_recv_buf (server_more s' b) = server_handle_recv_buf (server_more s b)"
  using server_phase_p0_ok [of s s' b] server_phase_p1_ok [of s s' b] server_phase_p2_ok [of s s' b]
  by (cases "sh_phase s") (simp_all add: server_handle_recv_buf_def [of s]
      server_handle_recv_buf_def [of "server_more s b"])

interpretation sfeed: feeder server_feed_recv_buf
proof unfold_locales
  fix s a s' b
  assume "server_feed_recv_buf s a = (s', Inr ())"
  then show "server_feed_recv_buf s' b = server_feed_recv_buf s (a @ b)"
    using server_handle_ok [of "server_more s a" s' b]
    by (simp add: server_feed_recv_buf_def server_more_def)
next
  fix s a s' e b
  assume "server_feed_recv_buf s a = (s', Inl e)"
  then have "snd (server_handle_recv_buf (server_more (server_more s a) b)) = Inl e"
    using server_phase_p0_err [of "server_more s a" s' e b] server_phase_p1_err [of "server_more s a" s' e b]
      server_phase_p2_err [of "server_more s a" s' e b]
    by (cases "sh_phase s") (simp_all add: server_feed_recv_buf_def server_handle_recv_buf_def
        flip: server_more_def)
  then show "snd (server_feed_recv_buf s (a @ b)) = Inl e"
    by (simp add: server_feed_recv_buf_def server_more_def)
qed

lemma client_more_phase [simp]: "ch_phase (client_more s b) = ch_phase s"
  by (simp add: client_more_def)

lemma client_phase_p1_ok:
  "ch_phase s = P1 \<Longrightarrow> client_handle_phase_p1 s = (s', Inr ()) \<Longrightarrow>
     client_handle_recv_buf (client_more s' b) = client_handle_phase_p1 (client_more s b)"
  by (auto simp: client_handle_recv_buf_def client_handle_phase_p1_def client_more_def Let_def
      split: if_splits)

lemma client_phase_p1_err:
  "client_handle_phase_p1 s = (s', Inl e) \<Longrightarrow> snd (client_handle_phase_p1 (client_more s b)) = Inl e"
  by (auto simp: client_handle_phase_p1_def client_more_def Let_def split: if_splits)

lemma client_handle_phase_p0_Cons:
  "ch_recv_buf s = v # r \<Longrightarrow>
     client_handle_phase_p0 s =
       (if v \<noteq> rtmp_version then (s\<lparr>ch_recv_buf := r\<rparr>, Inl InvalidData)
        else client_handle_phase_p1 (s\<lparr>ch_phase := P1, ch_recv_buf := r\<rparr>))"
  by (auto simp: client_handle_phase_p0_def intro!: arg_cong [where f = client_handle_phase_p1])

lemma client_phase_p0_ok:
  assumes "ch_phase s = P0" "client_handle_phase_p0 s = (s', Inr ())"
  shows "client_handle_recv_buf (client_more s' b) = client_handle_phase_p0 (client_more s b)"
proof (cases "ch_recv_buf s")
  case Nil
  with assms show ?thesis
    by (auto simp: client_handle_phase_p0_def client_handle_recv_buf_def client_more_def)
next
  case (Cons v r)
  let ?t = "s\<lparr>ch_phase := P1, ch_recv_buf := r\<rparr>"
  from Cons assms(2) have v: "v = rtmp_version" and t: "client_handle_phase_p1 ?t = (s', Inr ())"
    by (auto simp: client_handle_phase_p0_Cons split: if_splits)
  have "client_handle_phase_p0 (client_more s b) = client_handle_phase_p1 (client_more ?t b)"
    using Cons v by (subst client_handle_phase_p0_Cons [where r = "r @ b"]) (auto simp: client_more_def)
  with client_phase_p1_ok [OF _ t, of b] show ?thesis by simp
qed

lemma client_phase_p0_err:
  assumes "client_handle_phase_p0 s = (s', Inl e)"
  shows "snd (client_handle_phase_p0 (client_more s b)) = Inl e"
proof (cases "ch_recv_buf s")
  case (Cons v r)
  let ?t = "s\<lparr>ch_phase := P1, ch_recv_buf := r\<rparr>"
  have m: "client_handle_phase_p0 (client_more s b) =
    (if v \<noteq> rtmp_version then (s\<lparr>ch_recv_buf := r @ b\<rparr>, Inl InvalidData)
     else client_handle_phase_p1 (client_more ?t b))"
    using Cons
    by (subst client_handle_phase_p0_Cons [where r = "r @ b" and v = v]) (auto simp: client_more_def)
  show ?thesis
    using assms client_phase_p1_err [of ?t s' e b] unfolding m
    by (auto simp: client_handle_phase_p0_Cons [OF Cons] split: if_splits)
qed (use assms in \<open>simp add: client_handle_phase_p0_def\<close>)

lemma client_handle_ok:
  "client_handle_recv_buf s = (s', Inr ()) \<Longrightarrow>
     client_handle_recv_buf (client_more s' b) = client_handle_recv_buf (client_more s b)"
  using client_phase_p0_ok [of s s' b] client_phase_p1_ok [of s s' b]
  by (cases "ch_phase s") (auto simp: client_handle_recv_buf_def [of s]
      client_handle_recv_buf_def [of "client_more s b"])

interpretation cfeed: feeder client_feed_recv_buf
proof unfold_locales
  fix s a s' b
  assume "client_feed_recv_buf s a = (s', Inr ())"
  then show "client_feed_recv_buf s' b = client_feed_recv_buf s (a @ b)"
    using client_handle_ok [of "client_more s a" s' b]
    by (simp add: client_feed_recv_buf_def client_more_def)
next
  fix s a s' e b
  assume "client_feed_recv_buf s a = (s', Inl e)"
  then have "snd (client_handle_recv_buf (client_more (client_more s a) b)) = Inl e"
    using client_phase_p0_err [of "client_more s a" s' e b] client_phase_p1_err [of "client_more s a" s' e b]
    by (cases "ch_phase s") (auto simp: client_feed_recv_buf_def client_handle_recv_buf_def client_more_def)
  then show "snd (client_feed_recv_buf s (a @ b)) = Inl e"
    by (simp add: client_feed_recv_buf_def client_more_def)
qed

section \<open>Properties\<close>

definition server_s1_packet :: "server_handshake_mode \<Rightarrow> bytes \<Rightarrow> bytes" where
  "server_s1_packet mode c1 =
     (case mode of
        ServerStrict \<Rightarrow> phase1_packet handshake_options_default
      | LenientSeededS1 \<Rightarrow> build_lenient_seeded_s1 c1)"

lemma length_server_s1_packet [simp]: "length (server_s1_packet mode c1) = handshake_packet_size"
  by (cases mode) (simp_all add: server_s1_packet_def)

lemma server_feed_c0_c1:
  assumes "length c1 = handshake_packet_size"
  shows "server_feed_recv_buf (server_handshake_new mode) (rtmp_version # c1 @ r) =
    server_handle_phase_p2
      \<lparr>sh_options = handshake_options_default, sh_mode = mode, sh_phase = P2, sh_recv_buf = r,
       sh_send_buf = rtmp_version # server_s1_packet mode c1 @ c1,
       sh_s1_packet = server_s1_packet mode c1\<rparr>"
  using assms
  by (simp add: server_feed_recv_buf_def server_handle_recv_buf_def server_handshake_new_def
      server_handle_phase_p0_Cons server_handle_phase_p1_def server_s1_packet_def Let_def
      cong: server_handshake_mode.case_cong)

lemma client_feed_s0_s1_s2:
  assumes "length s1 = handshake_packet_size" "s2 = phase1_packet handshake_options_default"
  shows "client_feed_recv_buf (client_handshake_new mode) (rtmp_version # s1 @ s2 @ r) =
    (\<lparr>ch_options = handshake_options_default, ch_mode = mode, ch_phase = Complete, ch_recv_buf = r,
      ch_send_buf = rtmp_version # phase1_packet handshake_options_default @ s1\<rparr>, Inr ())"
proof -
  have "drop (handshake_packet_size * 2) (s1 @ s2 @ r) = r"
    and "take handshake_packet_size (s1 @ s2 @ r) = s1"
    and "take handshake_packet_size (drop handshake_packet_size (s1 @ s2 @ r)) = s2"
    using assms by simp_all
  then show ?thesis
    using assms by (simp add: client_feed_recv_buf_def client_handle_recv_buf_def
        client_handshake_new_def client_handle_phase_p0_Cons client_handle_phase_p1_def Let_def)
qed

text \<open>
  C39: a client and a server of any modes complete the handshake with each other: the server answers
  C0 and C1 with S0, S1 and S2, the client accepts them and answers with C2, the server accepts C2,
  and bytes that the client sent after C2 are left, unread and complete, for the chunk layer.
\<close>

theorem handshake_completes:
  "\<exists>sv1 cl1 sv2.
     server_feed_recv_buf (server_handshake_new sm) (ch_send_buf (client_handshake_new cm)) = (sv1, Inr ())
     \<and> client_feed_recv_buf (client_advance_send_buf (client_handshake_new cm) 1537) (sh_send_buf sv1)
         = (cl1, Inr ())
     \<and> client_is_recv_complete cl1 \<and> ch_recv_buf cl1 = []
     \<and> server_feed_recv_buf (server_advance_send_buf sv1 3073) (ch_send_buf cl1 @ x) = (sv2, Inr ())
     \<and> server_is_send_complete sv2 \<and> server_take_recv_buf sv2 = (sv2\<lparr>sh_recv_buf := []\<rparr>, x)"
proof -
  let ?p = "phase1_packet handshake_options_default"
  let ?s1 = "server_s1_packet sm ?p"
  let ?sv1 = "\<lparr>sh_options = handshake_options_default, sh_mode = sm, sh_phase = P2, sh_recv_buf = [],
     sh_send_buf = rtmp_version # ?s1 @ ?p, sh_s1_packet = ?s1\<rparr>"
  have a: "server_feed_recv_buf (server_handshake_new sm) (ch_send_buf (client_handshake_new cm)) =
      (?sv1, Inr ())"
    using server_feed_c0_c1 [of ?p sm "[]"]
    by (simp add: client_handshake_new_def server_handle_phase_p2_def handshake_packet_size_def)
  have z: "drop (Suc handshake_packet_size) (rtmp_version # ?p) = []"
    "drop (Suc (handshake_packet_size * 2)) (rtmp_version # ?s1 @ ?p) = []" by simp_all
  have n: "(1537::nat) = Suc handshake_packet_size" "(3073::nat) = Suc (handshake_packet_size * 2)"
    by (simp_all add: handshake_packet_size_def)
  let ?cl0 = "\<lparr>ch_options = handshake_options_default, ch_mode = cm, ch_phase = P0, ch_recv_buf = [],
     ch_send_buf = []\<rparr>"
  have c0: "client_advance_send_buf (client_handshake_new cm) 1537 = ?cl0"
    by (simp add: client_advance_send_buf_def client_handshake_new_def n)
  have b: "client_feed_recv_buf ?cl0 (rtmp_version # ?s1 @ ?p) =
     (?cl0\<lparr>ch_phase := Complete, ch_send_buf := ?s1\<rparr>, Inr ())"
    by (simp add: client_feed_recv_buf_def client_handle_recv_buf_def client_handle_phase_p0_Cons
        client_handle_phase_p1_def Let_def)
  have c: "server_feed_recv_buf (server_advance_send_buf ?sv1 3073) (?s1 @ x) =
     (?sv1\<lparr>sh_phase := Complete, sh_recv_buf := x, sh_send_buf := []\<rparr>, Inr ())"
    by (simp add: server_feed_recv_buf_def server_advance_send_buf_def server_handle_recv_buf_def
        server_handle_phase_p2_def n Let_def)
  show ?thesis
    using a b c by (simp add: c0 client_is_recv_complete_def server_is_send_complete_def
        server_take_recv_buf_def)
qed

text \<open>
  How the peer's bytes were cut into reads is invisible to both handshake machines: feeding the
  pieces one by one fails exactly when, and with the error with which, feeding their concatenation
  fails, and on success ends in the same state with the same bytes to send and the same left-over.
\<close>

lemma handshake_fragmentation_independent:
  "snd (feed_all server_feed_recv_buf s (p # ps)) = snd (server_feed_recv_buf s (concat (p # ps)))
   \<and> (snd (server_feed_recv_buf s (concat (p # ps))) = Inr () \<longrightarrow>
        feed_all server_feed_recv_buf s (p # ps) = server_feed_recv_buf s (concat (p # ps)))
   \<and> snd (feed_all client_feed_recv_buf c (p # ps)) = snd (client_feed_recv_buf c (concat (p # ps)))
   \<and> (snd (client_feed_recv_buf c (concat (p # ps))) = Inr () \<longrightarrow>
        feed_all client_feed_recv_buf c (p # ps) = client_feed_recv_buf c (concat (p # ps)))"
  using sfeed.feed_all_concat [of s p ps] cfeed.feed_all_concat [of c p ps] by blast

lemma handshake_fragmentation_independent_witness:
  "feed_all server_feed_recv_buf (server_handshake_new ServerStrict) [[3], [0, 0]] =
     server_feed_recv_buf (server_handshake_new ServerStrict) [3, 0, 0]"
proof -
  have "snd (server_feed_recv_buf (server_handshake_new ServerStrict) [3, 0, 0]) = Inr ()"
    by (simp add: server_feed_recv_buf_def server_handle_recv_buf_def server_handshake_new_def
        server_handle_phase_p0_Cons server_handle_phase_p1_def rtmp_version_def
        handshake_packet_size_def)
  then show ?thesis
    using handshake_fragmentation_independent
      [of "server_handshake_new ServerStrict" "[3]" "[[0, 0]]" "client_handshake_new ClientStrict"]
    by simp
qed

lemma split_handshake:
  assumes "Suc (handshake_packet_size * 2) \<le> length b"
  obtains v c1 c2 r where "b = v # c1 @ c2 @ r" "length c1 = handshake_packet_size"
    "length c2 = handshake_packet_size"
proof
  show "b = hd b # take handshake_packet_size (tl b)
      @ take handshake_packet_size (drop handshake_packet_size (tl b))
      @ drop handshake_packet_size (drop handshake_packet_size (tl b))"
    using assms by (metis append_take_drop_id hd_Cons_tl le_zero_eq list.size(3) nat.distinct(1))
qed (use assms in auto)

lemma server_short_not_complete:
  assumes "length b < Suc (handshake_packet_size * 2)"
  shows "sh_phase (fst (server_feed_recv_buf (server_handshake_new mode) b)) \<noteq> Complete"
proof (cases b)
  case (Cons v r)
  show ?thesis
  proof (cases "length r < handshake_packet_size")
    case True
    with Cons show ?thesis
      by (simp add: server_feed_recv_buf_def server_handle_recv_buf_def server_handshake_new_def
          server_handle_phase_p0_Cons server_handle_phase_p1_def)
  next
    case False
    then obtain c1 r2 where r: "r = c1 @ r2" and l: "length c1 = handshake_packet_size"
      by (meson linorder_not_less list_len_ge_split)
    show ?thesis
    proof (cases "v = rtmp_version")
      case True
      with server_feed_c0_c1 [OF l, of mode r2] Cons r l assms show ?thesis
        by (simp add: server_handle_phase_p2_def)
    qed (use Cons in \<open>simp add: server_feed_recv_buf_def server_handle_recv_buf_def
        server_handshake_new_def server_handle_phase_p0_Cons\<close>)
  qed
qed (simp add: server_feed_recv_buf_def server_handle_recv_buf_def server_handshake_new_def
    server_handle_phase_p0_def)

text \<open>
  C23: a strict server completes the handshake on a byte stream exactly when it has version byte 3, a
  first packet of 1536 bytes, and a second one equal to the S1 packet the server sent; it then has
  consumed exactly these 3073 bytes.
\<close>

theorem strict_server_completes_iff:
  "(\<exists>s. server_feed_recv_buf (server_handshake_new ServerStrict) b = (s, Inr ())
      \<and> server_is_recv_complete s \<and> sh_recv_buf s = rest)
   \<longleftrightarrow> (\<exists>c1. length c1 = 1536
          \<and> b = [3] @ c1 @ phase1_packet handshake_options_default @ rest)"
  (is "?L \<longleftrightarrow> ?R")
proof
  have n: "(1536::nat) = handshake_packet_size" by (simp add: handshake_packet_size_def)
  {
    assume ?R
    then obtain c1 where l: "length c1 = handshake_packet_size"
      and b: "b = rtmp_version # c1 @ phase1_packet handshake_options_default @ rest"
      by (auto simp: n rtmp_version_def)
    then show ?L
      by (simp add: server_feed_c0_c1 server_handle_phase_p2_def server_s1_packet_def Let_def
          server_is_recv_complete_def)
  next
    assume ?L
    then obtain s where f: "server_feed_recv_buf (server_handshake_new ServerStrict) b = (s, Inr ())"
      and c: "sh_phase s = Complete" and rs: "sh_recv_buf s = rest"
      by (auto simp: server_is_recv_complete_def)
    with server_short_not_complete [of b ServerStrict]
    have "Suc (handshake_packet_size * 2) \<le> length b" by fastforce
    then obtain v c1 c2 r where b: "b = v # c1 @ c2 @ r" and l: "length c1 = handshake_packet_size"
      "length c2 = handshake_packet_size" by (rule split_handshake)
    have v: "v = 3"
      using f b by (auto simp: server_feed_recv_buf_def server_handle_recv_buf_def
          server_handshake_new_def server_handle_phase_p0_Cons rtmp_version_def split: if_splits)
    with f b l rs server_feed_c0_c1 [of c1 ServerStrict "c2 @ r"] show ?R
      by (auto simp: server_handle_phase_p2_def server_s1_packet_def Let_def n
          rtmp_version_def split: if_splits)
  }
qed

end
