(* ===== verification/Rtmp_Core_State.thy ===== *)
theory Rtmp_Core_State
  imports Rtmp_Command Rtmp_Handshake
begin

text \<open>
  The state, inputs and outputs of the connection core (\<^verbatim>\<open>core.rs\<close>), and the shape of its methods.
  A method of \<^verbatim>\<open>RtmpCore\<close> that takes \<^verbatim>\<open>&mut self\<close> and \<^verbatim>\<open>out\<close> is a function from the state to the new
  state, the outputs it pushes and its result; the outer \<open>None\<close> is a panic. Texts built with \<^verbatim>\<open>format!\<close>
  from debug representations are represented by what they are built from.
\<close>

section \<open>Events, outputs and errors\<close>

datatype rtmp_media_type = RmAudio | RmVideo | RmData

datatype rtmp_client_state = Connected | MediaStreamCreated | Publishing | Playing

datatype event_detail =
    Text string
  | UnhandledTransaction int
  | UnauthenticatedMedia u32
  | ClientIgnored rtmp_command
  | ClientDecodeFailed error_kind
  | DebugUserControl rtmp_user_control_event
  | DebugMessage rtmp_message

datatype rtmp_event =
    EvConnected string string
  | EvPublishRequested u32 string string string
  | EvPlayRequested u32 string string string
  | EvStreamCreated u32
  | EvCommandIgnored string event_detail
  | EvMessageIgnored string event_detail
  | EvUserControlIgnored string event_detail
  | EvAckReceived u32
  | EvLocalAckWindowUpdated u32
  | EvPeerAckWindowUpdated u32
  | EvClientStateChanged rtmp_client_state
  | EvClientDisconnectRequested string
  | EvMetadata u32 "amf_value list"
  | EvNotify u32 string "amf_value list"
  | EvMediaData u32 u32 rtmp_media_type bytes
  | EvSeekRequested u32 u64
  | EvPauseRequested u32 bool u64
  | EvReceiveVideo u32 bool
  | EvReceiveAudio u32 bool
  | EvStreamClosed u32
  | EvPeerClosed

datatype core_output =
    Write bytes
  | Event rtmp_event
  | SetTimer u64 u64
  | CancelTimer u64

datatype core_error =
    ErrChunk error_kind
  | ErrOutboundCsid u32
  | ErrAmf0 error_kind
  | ErrInvalidHandshakeVersion u8
  | ErrHandshake error_kind
  | ErrClientHandshakeBytes

datatype core_command =
    SetWindowAckSize u32
  | SetPeerBandwidth u32
  | SetChunkSize u32
  | SendAck u32
  | SendPingResponse rtmp_timestamp
  | ClientConnect string string string
  | ClientCreateStream u64
  | ClientPublish u32 u64 string
  | ClientPlay u32 u64 string u64
  | ClientSeek u32 u64
  | ClientPause u32 bool u64
  | ClientHandleWireCommand u32 string transaction_id amf_value "amf_value list"
  | ClientObserveAck u32
  | ClientObserveWinAckSize u32
  | ClientHandleSetPeerBandwidth u32 u32
  | ClientObserveMediaData u32 u32 rtmp_media_type bytes
  | ClientHandleUserControl rtmp_user_control_event
  | ClientHandleUnhandledMessage rtmp_message
  | AcceptPublish u32
  | RejectPublish u32 string
  | AcceptPlay u32
  | AcceptPlayConfigured u32 bool bool
  | RejectPlay u32 string
  | SendMetadata u32 u32 bytes
  | SendAudio u32 u32 bytes
  | SendVideo u32 u32 bytes
  | SendNotify u32 u32 bytes
  | CloseStream u32
  | CloseConnection

datatype core_input = Bytes bytes | Timeout u64 | Command core_command

section \<open>State\<close>

datatype handshake_state = Handshaking | WaitC2 | Ready | Closed

datatype client_pending_action = PendingPublish | PendingPlay

datatype handshake_role = RoleServer server_handshake | RoleClient

record pending_publish_media =
  pm_stream_id :: u32
  pm_timestamp_ms :: u32
  pm_media_type :: rtmp_media_type
  pm_payload :: bytes
  pm_is_sequence_header :: bool

definition max_pending_publish_media_events :: nat where "max_pending_publish_media_events = 256"
definition max_pending_publish_media_bytes :: nat where
  "max_pending_publish_media_bytes = 8 * 1024 * 1024"

record rtmp_core =
  co_state :: handshake_state
  co_in_chunk_size :: nat
  co_out_chunk_size :: nat
  co_decoder :: chunk_decoder
  co_encoder :: message_encoder
  co_input_buf :: buf
  co_handshake :: handshake_role
  co_connected_app :: "string option"
  co_connected_tc_url :: "string option"
  co_peer_ack_window_size :: u64
  co_local_ack_window_size :: u32
  co_last_peer_bandwidth_limit_type :: set_peer_bandwidth_limit_type
  co_total_bytes_received :: u64
  co_last_ack_sent :: u64
  co_active_publish :: "u32 option"
  co_pending_publish :: "u32 option"
  co_pending_media :: "pending_publish_media list"
  co_pending_media_bytes :: nat
  co_next_stream_id :: u32
  co_client_create_stream_transaction_id :: "int option"
  co_client_pending_action :: "client_pending_action option"

definition core_new :: rtmp_core where
  "core_new =
     \<lparr>co_state = Handshaking, co_in_chunk_size = 128, co_out_chunk_size = 60000,
      co_decoder = chunk_decoder_default,
      co_encoder = message_encoder_set_chunk_size message_encoder_default (chunk_size_saturating_new 60000),
      co_input_buf = buf_default,
      co_handshake = RoleServer (server_handshake_new LenientSeededS1),
      co_connected_app = None, co_connected_tc_url = None,
      co_peer_ack_window_size = - 1, co_local_ack_window_size = 5000000,
      co_last_peer_bandwidth_limit_type = Soft,
      co_total_bytes_received = 0, co_last_ack_sent = 0,
      co_active_publish = None, co_pending_publish = None,
      co_pending_media = [], co_pending_media_bytes = 0, co_next_stream_id = 1,
      co_client_create_stream_transaction_id = None, co_client_pending_action = None\<rparr>"

definition core_new_client :: rtmp_core where
  "core_new_client = core_new\<lparr>co_state := Ready, co_handshake := RoleClient\<rparr>"

section \<open>Methods\<close>

type_synonym 'a core_m = "rtmp_core \<Rightarrow> (rtmp_core \<times> core_output list \<times> (core_error + 'a)) option"

definition cret :: "'a \<Rightarrow> 'a core_m" where "cret v c = Some (c, [], Inr v)"
definition cfail :: "core_error \<Rightarrow> 'a core_m" where "cfail e c = Some (c, [], Inl e)"
definition cpanic :: "'a core_m" where "cpanic c = None"
definition cemit :: "core_output \<Rightarrow> unit core_m" where "cemit o1 c = Some (c, [o1], Inr ())"
definition cupd :: "(rtmp_core \<Rightarrow> rtmp_core) \<Rightarrow> unit core_m" where "cupd f c = Some (f c, [], Inr ())"

definition cbind :: "'a core_m \<Rightarrow> ('a \<Rightarrow> 'b core_m) \<Rightarrow> 'b core_m" where
  "cbind m k c =
     (case m c of
        None \<Rightarrow> None
      | Some (c1, o1, Inl e) \<Rightarrow> Some (c1, o1, Inl e)
      | Some (c1, o1, Inr v) \<Rightarrow>
          (case k v c1 of None \<Rightarrow> None | Some (c2, o2, r) \<Rightarrow> Some (c2, o1 @ o2, r)))"

definition cseq :: "'a core_m \<Rightarrow> 'b core_m \<Rightarrow> 'b core_m" where "cseq m k = cbind m (\<lambda>_. k)"

text \<open>Reading the state, \<^verbatim>\<open>?\<close> on a result of another kind, and \<^verbatim>\<open>let _ = m\<close>.\<close>

definition cwith :: "(rtmp_core \<Rightarrow> 'a core_m) \<Rightarrow> 'a core_m" where "cwith f c = f c c"

definition clift :: "(error_kind \<Rightarrow> core_error) \<Rightarrow> error_kind + 'a \<Rightarrow> 'a core_m" where
  "clift f r = (case r of Inl e \<Rightarrow> cfail (f e) | Inr v \<Rightarrow> cret v)"

definition cignore :: "'a core_m \<Rightarrow> unit core_m" where
  "cignore m c = (case m c of None \<Rightarrow> None | Some (c1, o1, _) \<Rightarrow> Some (c1, o1, Inr ()))"

definition cevent :: "rtmp_event \<Rightarrow> unit core_m" where "cevent ev = cemit (Event ev)"

text \<open>\<^verbatim>\<open>for x in xs { f(x)?; }\<close>\<close>

fun cfor :: "('x \<Rightarrow> unit core_m) \<Rightarrow> 'x list \<Rightarrow> unit core_m" where
  "cfor f [] = cret ()"
| "cfor f (x # xs) = cseq (f x) (cfor f xs)"

lemma cfor_cong [fundef_cong]:
  "xs = ys \<Longrightarrow> (\<And>x. x \<in> set ys \<Longrightarrow> f x = g x) \<Longrightarrow> cfor f xs = cfor g ys"
  by (induction ys arbitrary: xs) auto

section \<open>What a method does to the state and the outputs\<close>

text \<open>
  A reflexive relation between the state before, the outputs and the state after that composes along
  sequences holds of a composed method when it holds of its parts.
\<close>

definition crel :: "(rtmp_core \<Rightarrow> core_output list \<Rightarrow> rtmp_core \<Rightarrow> bool) \<Rightarrow> 'a core_m \<Rightarrow> bool" where
  "crel R m \<longleftrightarrow> (\<forall>c c' os r. m c = Some (c', os, r) \<longrightarrow> R c os c')"

lemma crelI: "(\<And>c c' os r. m c = Some (c', os, r) \<Longrightarrow> R c os c') \<Longrightarrow> crel R m"
  and crelD: "crel R m \<Longrightarrow> m c = Some (c', os, r) \<Longrightarrow> R c os c'"
  by (auto simp: crel_def)

named_theorems crel_intros \<open>closure rules for relations along methods\<close>

locale effect_relation =
  fixes R :: "rtmp_core \<Rightarrow> core_output list \<Rightarrow> rtmp_core \<Rightarrow> bool"
  assumes refl: "R c [] c"
    and comp: "R c o1 c1 \<Longrightarrow> R c1 o2 c2 \<Longrightarrow> R c (o1 @ o2) c2"
begin

lemma cret: "crel R (cret v)" and cfail: "crel R (cfail e)" and cpanic: "crel R cpanic"
  by (auto simp: crel_def cret_def cfail_def cpanic_def refl)

lemma cbind:
  assumes m: "crel R m" and k: "\<And>v. crel R (k v)"
  shows "crel R (cbind m k)"
proof (rule crelI)
  fix c c' os r
  assume b: "cbind m k c = Some (c', os, r)"
  then obtain c1 o1 r1 where 1: "m c = Some (c1, o1, r1)"
    by (auto simp: cbind_def split: option.splits)
  show "R c os c'"
  proof (cases r1)
    case (Inl e)
    with 1 b crelD [OF m 1] show ?thesis by (simp add: cbind_def)
  next
    case (Inr v)
    with 1 b obtain o2 where 2: "k v c1 = Some (c', o2, r)" and os: "os = o1 @ o2"
      by (auto simp: cbind_def split: option.splits)
    from comp [OF crelD [OF m 1] crelD [OF k 2]] os show ?thesis by simp
  qed
qed

lemma cseq: "crel R m \<Longrightarrow> crel R k \<Longrightarrow> crel R (cseq m k)"
  unfolding cseq_def by (rule cbind)

lemma cwith: "(\<And>c. crel R (f c)) \<Longrightarrow> crel R (cwith f)"
  by (auto simp: crel_def cwith_def)

lemma clift: "crel R (clift f r)"
  by (cases r) (simp_all add: clift_def cret cfail)

lemma cignore: "crel R m \<Longrightarrow> crel R (cignore m)"
  by (auto simp: crel_def cignore_def split: option.splits)

lemma cfor: "(\<And>x. x \<in> set xs \<Longrightarrow> crel R (f x)) \<Longrightarrow> crel R (cfor f xs)"
  by (induction xs) (simp_all add: cret cseq)

lemma cif: "(P \<Longrightarrow> crel R m) \<Longrightarrow> (\<not> P \<Longrightarrow> crel R k) \<Longrightarrow> crel R (if P then m else k)"
  by simp

lemma coption: "crel R m \<Longrightarrow> (\<And>v. crel R (f v)) \<Longrightarrow> crel R (case x of None \<Rightarrow> m | Some v \<Rightarrow> f v)"
  by (cases x) simp_all

lemma csum: "(\<And>e. crel R (m e)) \<Longrightarrow> (\<And>v. crel R (f v)) \<Longrightarrow> crel R (case x of Inl e \<Rightarrow> m e | Inr v \<Rightarrow> f v)"
  by (cases x) simp_all

lemmas closed = cret cfail cpanic cbind cseq cwith clift cignore cfor cif coption csum

end

end
