(* ===== verification/Rtmp_Core_Media.thy ===== *)
theory Rtmp_Core_Media
  imports Rtmp_Core_State
begin

text \<open>
  \<^verbatim>\<open>core/media.rs\<close>: media of a publisher that is not yet authorised waits in a bounded queue; authorised
  media becomes an event; other media is dropped. The byte counter is an unbounded \<open>nat\<close>: it counts
  bytes held in memory, so the saturation of the Rust counter is out of reach.
\<close>

section \<open>Sequence headers\<close>

definition is_sequence_header :: "rtmp_media_type \<Rightarrow> bytes \<Rightarrow> bool" where
  "is_sequence_header media_type p =
     (case get_at p 0 of
        None \<Rightarrow> False
      | Some first \<Rightarrow>
          (case media_type of
             RmVideo \<Rightarrow>
               if first AND 0x80 \<noteq> 0 then get_at p 5 = Some 0
               else (if first AND 0x0F \<in> {7, 12, 13, 14} then get_at p 1 = Some 0 else False)
           | RmAudio \<Rightarrow> if drop_bit 4 first = 10 then get_at p 1 = Some 0 else False
           | RmData \<Rightarrow> False))"

section \<open>The queue\<close>

text \<open>\<^verbatim>\<open>rposition\<close>: the last index whose element satisfies the predicate.\<close>

fun rposition :: "('a \<Rightarrow> bool) \<Rightarrow> 'a list \<Rightarrow> nat option" where
  "rposition P [] = None"
| "rposition P (x # xs) =
     (case rposition P xs of Some i \<Rightarrow> Some (Suc i) | None \<Rightarrow> if P x then Some 0 else None)"

definition remove_at :: "nat \<Rightarrow> 'a list \<Rightarrow> 'a list" where
  "remove_at i xs = take i xs @ drop (Suc i) xs"

lemma rposition_Some:
  "rposition P xs = Some i \<Longrightarrow> i < length xs \<and> P (xs ! i) \<and> (\<forall>j. i < j \<and> j < length xs \<longrightarrow> \<not> P (xs ! j))"
proof (induction xs arbitrary: i)
  case (Cons x xs)
  show ?case
  proof (cases "rposition P xs")
    case (Some k)
    with Cons show ?thesis by (auto simp: nth_Cons split: nat.splits)
  next
    case None
    have "rposition P ys = None \<Longrightarrow> y \<in> set ys \<Longrightarrow> \<not> P y" for ys :: "'a list" and y
      by (induction ys) (auto split: option.splits if_splits)
    with None Cons.prems show ?thesis by (auto simp: nth_Cons split: if_splits nat.splits)
  qed
qed simp

lemma rposition_None: "rposition P xs = None \<longleftrightarrow> (\<forall>x \<in> set xs. \<not> P x)"
  by (induction xs) (auto split: option.splits)

text \<open>The eviction loop, on the queue and its byte counter.\<close>

function evict :: "nat \<Rightarrow> pending_publish_media list \<Rightarrow> nat \<Rightarrow> pending_publish_media list \<times> nat" where
  "evict payload_len q n =
     (if length q \<ge> max_pending_publish_media_events
         \<or> n + payload_len > max_pending_publish_media_bytes
      then (case rposition (\<lambda>x. \<not> pm_is_sequence_header x) q of
              None \<Rightarrow> (q, n)
            | Some i \<Rightarrow> evict payload_len (remove_at i q) (n - length (pm_payload (q ! i))))
      else (q, n))"
  by pat_completeness auto
termination
  by (relation "measure (\<lambda>(l, q, n). length q)") (auto simp: remove_at_def dest: rposition_Some)

declare evict.simps [simp del]

definition push_pending_publish_media ::
  "u32 \<Rightarrow> u32 \<Rightarrow> rtmp_media_type \<Rightarrow> bytes \<Rightarrow> bool \<Rightarrow> unit core_m" where
  "push_pending_publish_media stream_id timestamp_ms media_type p seq_header =
     (if length p > max_pending_publish_media_bytes then cret ()
      else cupd (\<lambda>c.
        (case evict (length p) (co_pending_media c) (co_pending_media_bytes c) of
           (q, n) \<Rightarrow>
             c\<lparr>co_pending_media := q @ [\<lparr>pm_stream_id = stream_id, pm_timestamp_ms = timestamp_ms,
                 pm_media_type = media_type, pm_payload = p, pm_is_sequence_header = seq_header\<rparr>],
               co_pending_media_bytes := n + length p\<rparr>)))"

definition handle_media_input :: "u32 \<Rightarrow> u32 \<Rightarrow> rtmp_media_type \<Rightarrow> bytes \<Rightarrow> unit core_m" where
  "handle_media_input stream_id timestamp_ms media_type p =
     cwith (\<lambda>c.
       if co_active_publish c = Some stream_id then
         cevent (EvMediaData stream_id timestamp_ms media_type p)
       else if co_pending_publish c = Some stream_id then
         push_pending_publish_media stream_id timestamp_ms media_type p (is_sequence_header media_type p)
       else cevent (EvMessageIgnored ''MediaData'' (UnauthenticatedMedia stream_id)))"

text \<open>\<^verbatim>\<open>while let Some(media) = self.pending_media.pop_front()\<close>: one event per entry, in order.\<close>

definition pending_event :: "pending_publish_media \<Rightarrow> core_output" where
  "pending_event x =
     Event (EvMediaData (pm_stream_id x) (pm_timestamp_ms x) (pm_media_type x) (pm_payload x))"

definition drained_bytes :: "nat \<Rightarrow> pending_publish_media list \<Rightarrow> nat" where
  "drained_bytes n q = foldl (\<lambda>n x. n - length (pm_payload x)) n q"

definition flush_pending_publish_media :: "u32 \<Rightarrow> unit core_m" where
  "flush_pending_publish_media stream_id c =
     (if co_pending_publish c \<noteq> Some stream_id then Some (c, [], Inr ())
      else Some (c\<lparr>co_pending_media := [],
                   co_pending_media_bytes := drained_bytes (co_pending_media_bytes c) (co_pending_media c),
                   co_pending_publish := None\<rparr>,
                 map pending_event (co_pending_media c), Inr ()))"

definition clear_pending_publish :: "unit core_m" where
  "clear_pending_publish =
     cupd (\<lambda>c. c\<lparr>co_pending_publish := None, co_pending_media := [], co_pending_media_bytes := 0\<rparr>)"

section \<open>The queue invariant\<close>

definition pending_bytes :: "pending_publish_media list \<Rightarrow> nat" where
  "pending_bytes q = sum_list (map (\<lambda>x. length (pm_payload x)) q)"

text \<open>
  The byte counter is the number of bytes queued; entries exist only while a publish request is
  pending and belong to it; and the entries that are not sequence headers respect both bounds: beyond
  them the queue holds sequence headers only (and the entry pushed last).
\<close>

definition queue_bounded :: "pending_publish_media list \<Rightarrow> bool" where
  "queue_bounded q \<longleftrightarrow>
     (length q \<le> max_pending_publish_media_events \<and> pending_bytes q \<le> max_pending_publish_media_bytes)
     \<or> (\<forall>x \<in> set (butlast q). pm_is_sequence_header x)"

definition pending_inv :: "rtmp_core \<Rightarrow> bool" where
  "pending_inv c \<longleftrightarrow>
     co_pending_media_bytes c = pending_bytes (co_pending_media c)
     \<and> (\<forall>x \<in> set (co_pending_media c). co_pending_publish c = Some (pm_stream_id x)
           \<and> length (pm_payload x) \<le> max_pending_publish_media_bytes)
     \<and> queue_bounded (co_pending_media c)"

lemma pending_bytes_simps [simp]:
  "pending_bytes [] = 0" "pending_bytes (x # q) = length (pm_payload x) + pending_bytes q"
  "pending_bytes (q @ q') = pending_bytes q + pending_bytes q'"
  by (simp_all add: pending_bytes_def)

lemma pending_bytes_remove_at:
  "i < length q \<Longrightarrow> pending_bytes (remove_at i q) = pending_bytes q - length (pm_payload (q ! i))"
  by (subst (2) id_take_nth_drop [of i q]) (simp_all add: remove_at_def)

lemma set_remove_at: "set (remove_at i q) \<subseteq> set q"
  by (auto simp: remove_at_def dest: in_set_takeD in_set_dropD)

lemma evict_spec:
  assumes "evict l q n = (q', n')" and "n = pending_bytes q"
  shows "n' = pending_bytes q' \<and> set q' \<subseteq> set q
     \<and> (\<forall>x \<in> set q. pm_is_sequence_header x \<longrightarrow> x \<in> set q')
     \<and> ((length q' < max_pending_publish_media_events
           \<and> pending_bytes q' + l \<le> max_pending_publish_media_bytes)
        \<or> (\<forall>x \<in> set q'. pm_is_sequence_header x))"
  using assms
proof (induction l q n arbitrary: q' n' rule: evict.induct)
  case (1 l q n)
  show ?case
  proof (cases "length q \<ge> max_pending_publish_media_events \<or> n + l > max_pending_publish_media_bytes")
    case False
    with 1(2,3) show ?thesis by (subst (asm) evict.simps) auto
  next
    case True
    show ?thesis
    proof (cases "rposition (\<lambda>x. \<not> pm_is_sequence_header x) q")
      case None
      then have a: "\<forall>x \<in> set q. pm_is_sequence_header x" by (simp add: rposition_None)
      have "(q, n) = (q', n')" using 1(2) True None by (subst (asm) evict.simps) simp
      with a 1(3) show ?thesis by auto
    next
      case (Some i)
      note i = rposition_Some [OF Some]
      have e: "evict l (remove_at i q) (n - length (pm_payload (q ! i))) = (q', n')"
        using 1(2) True Some by (subst (asm) evict.simps) simp
      have b: "n - length (pm_payload (q ! i)) = pending_bytes (remove_at i q)"
        using 1(3) i by (simp add: pending_bytes_remove_at)
      have keep: "x \<in> set (remove_at i q)" if "x \<in> set q" "pm_is_sequence_header x" for x
      proof -
        have "q = take i q @ q ! i # drop (Suc i) q" using i by (simp add: id_take_nth_drop)
        then have "x \<in> set (take i q) \<or> x = q ! i \<or> x \<in> set (drop (Suc i) q)"
          using that(1) by (metis Un_iff set_ConsD set_append)
        with that(2) i show ?thesis by (auto simp: remove_at_def)
      qed
      from 1(1) [OF True Some e b] keep set_remove_at [of i q] show ?thesis by blast
    qed
  qed
qed

lemma drained_bytes_all: "drained_bytes (pending_bytes q) q = 0"
proof -
  have "drained_bytes (pending_bytes q + k) q = k" for k
  proof (induction q arbitrary: k)
    case (Cons x q)
    show ?case using Cons.IH [of k] by (simp add: drained_bytes_def add.assoc)
  qed (simp add: drained_bytes_def)
  from this [of 0] show ?thesis by simp
qed

lemma queue_bounded_Nil [simp]: "queue_bounded []"
  by (simp add: queue_bounded_def)

lemma pending_inv_empty [simp]:
  "co_pending_media c = [] \<Longrightarrow> co_pending_media_bytes c = 0 \<Longrightarrow> pending_inv c"
  by (simp add: pending_inv_def queue_bounded_def max_pending_publish_media_events_def
      max_pending_publish_media_bytes_def)

lemma push_pending_inv:
  assumes "pending_inv c" and "co_pending_publish c = Some sid"
    and "push_pending_publish_media sid ts mt p b c = Some (c', os, r)"
  shows "pending_inv c'"
proof (cases "length p > max_pending_publish_media_bytes")
  case True
  with assms show ?thesis by (simp add: push_pending_publish_media_def cret_def)
next
  case False
  obtain q n where e: "evict (length p) (co_pending_media c) (co_pending_media_bytes c) = (q, n)" by fastforce
  have "co_pending_media_bytes c = pending_bytes (co_pending_media c)" using assms(1) by (simp add: pending_inv_def)
  note s = evict_spec [OF e this]
  from assms(3) False e s have c': "c' = c\<lparr>co_pending_media := q @ [\<lparr>pm_stream_id = sid, pm_timestamp_ms = ts,
      pm_media_type = mt, pm_payload = p, pm_is_sequence_header = b\<rparr>],
      co_pending_media_bytes := pending_bytes q + length p\<rparr>"
    by (simp add: push_pending_publish_media_def cupd_def)
  have "queue_bounded (co_pending_media c')"
    using s unfolding c' queue_bounded_def by (auto simp: butlast_append)
  with assms(1,2) s False show ?thesis
    by (auto simp: pending_inv_def c')
qed

lemma flush_pending_inv: "flush_pending_publish_media sid c = Some (c', os, r) \<Longrightarrow> pending_inv c \<Longrightarrow> pending_inv c'"
  and clear_pending_inv: "clear_pending_publish c = Some (c', os, r) \<Longrightarrow> pending_inv c'"
  by (auto simp: flush_pending_publish_media_def clear_pending_publish_def cupd_def pending_inv_def
      drained_bytes_all queue_bounded_def max_pending_publish_media_events_def
      max_pending_publish_media_bytes_def split: if_splits)

end
