(* ===== verification/Rtmp_Core_Outbound.thy ===== *)
theory Rtmp_Core_Outbound
  imports Rtmp_Core_Media
begin

text \<open>
  \<^verbatim>\<open>core/command/wire_writer.rs\<close> and \<^verbatim>\<open>core/command/outbound.rs\<close>: what the core writes to the peer, the
  commands of the local application, and the replies a client receives.
\<close>

section \<open>The wire writer\<close>

definition cchunk :: "rtmp_chunk \<Rightarrow> unit core_m" where
  "cchunk ch c =
     (let (enc, wire) = encode_raw_chunk (co_encoder c) ch
      in Some (c\<lparr>co_encoder := enc\<rparr>, [Write wire], Inr ()))"

definition send_message :: "u32 \<Rightarrow> u32 \<Rightarrow> u8 \<Rightarrow> u32 \<Rightarrow> bytes \<Rightarrow> unit core_m" where
  "send_message csid ts type_id stream_id p =
     (case csid_new csid of
        None \<Rightarrow> cfail (ErrOutboundCsid csid)
      | Some chunk_csid \<Rightarrow>
          cbind (clift ErrChunk (from_type_id type_id)) (\<lambda>t.
            cchunk \<lparr>chunk_stream_id = chunk_csid, message_stream_id = stream_id, message_type = t,
                     timestamp = ts, payload = p\<rparr>))"

definition send_user_control :: "u16 \<Rightarrow> u32 \<Rightarrow> unit core_m" where
  "send_user_control event_type v = send_message 2 0 4 0 (write_u16 event_type @ write_u32 v)"

definition send_rtmp_message :: "u32 \<Rightarrow> rtmp_message \<Rightarrow> unit core_m" where
  "send_rtmp_message csid m =
     (case csid_new csid of
        None \<Rightarrow> cpanic
      | Some chunk_csid \<Rightarrow>
          (\<lambda>c. case message_encode (co_encoder c) chunk_csid m of
                  None \<Rightarrow> None
                | Some (enc, wire) \<Rightarrow> Some (c\<lparr>co_encoder := enc\<rparr>, [Write wire], Inr ())))"

text \<open>\<^verbatim>\<open>crate::amf0::encode_all(&[..])\<close> as the payload of a message.\<close>

definition send_amf0 :: "u32 \<Rightarrow> u8 \<Rightarrow> u32 \<Rightarrow> amf0_value list \<Rightarrow> unit core_m" where
  "send_amf0 csid type_id stream_id vs =
     (case amf0_encode_all vs of
        None \<Rightarrow> cpanic
      | Some p \<Rightarrow> send_message csid 0 type_id stream_id p)"

text \<open>\<^verbatim>\<open>command.into_message(header).map_err(Amf0)?\<close>, then send it.\<close>

definition send_command :: "u32 \<Rightarrow> rtmp_message_header \<Rightarrow> rtmp_command \<Rightarrow> unit core_m" where
  "send_command csid h cmd = cbind (clift ErrAmf0 (into_message cmd h)) (send_rtmp_message csid)"

definition stream_header :: "u32 \<Rightarrow> rtmp_message_header" where
  "stream_header stream_id = \<lparr>mh_stream_id = stream_id, mh_timestamp = 0\<rparr>"

section \<open>Requests and replies\<close>

definition send_connect_request :: "string \<Rightarrow> string \<Rightarrow> string \<Rightarrow> unit core_m" where
  "send_connect_request app flash_ver tc_url =
     send_command 3 pcm_header
       (CConnect \<lparr>cc_app = app, cc_flash_ver = flash_ver, cc_tc_url = tc_url\<rparr>)"

definition send_create_stream_request :: "transaction_id \<Rightarrow> unit core_m" where
  "send_create_stream_request txn = send_command 3 pcm_header (CCreateStream \<lparr>cs_transaction_id = txn\<rparr>)"

definition send_publish_request :: "u32 \<Rightarrow> u64 \<Rightarrow> string \<Rightarrow> unit core_m" where
  "send_publish_request stream_id txn stream_name =
     send_command 8 (stream_header stream_id)
       (CPublish \<lparr>pc_transaction_id = transaction_from_f64 txn, pc_stream_name = stream_name\<rparr>)"

definition send_play_request :: "u32 \<Rightarrow> u64 \<Rightarrow> string \<Rightarrow> u64 \<Rightarrow> unit core_m" where
  "send_play_request stream_id txn stream_name start =
     send_command 8 (stream_header stream_id)
       (CPlay \<lparr>pl_transaction_id = transaction_from_f64 txn, pl_stream_name = stream_name, pl_start = start\<rparr>)"

definition send_window_ack_size :: "unit core_m" where
  "send_window_ack_size = send_rtmp_message 2 (win_ack_size 5000000)"

definition send_set_peer_bandwidth :: "unit core_m" where
  "send_set_peer_bandwidth = send_rtmp_message 2 (set_peer_bandwidth 5000000)"

definition send_set_chunk_size :: "u32 \<Rightarrow> unit core_m" where
  "send_set_chunk_size sz0 =
     (let sz = chunk_size_saturating_new (unat sz0) in
      cseq (cupd (\<lambda>c. c\<lparr>co_out_chunk_size := chunk_size_get sz\<rparr>))
        (send_rtmp_message 2 (set_chunk_size sz)))"

definition send_connect_result :: "u64 \<Rightarrow> unit core_m" where
  "send_connect_result txn =
     send_command 3 pcm_header (CResult
       \<lparr>rc_transaction_id = transaction_from_f64 txn,
        rc_properties = amf0_object_value
          [(''fmsVer'', A0String ''FMS/4,5,0,297''), (''capabilities'', A0Number f64_255),
           (''mode'', A0Number f64_1)],
        rc_information = amf0_object_value
          [(''level'', A0String ''status''), (''code'', A0String ''NetConnection.Connect.Success''),
           (''description'', A0String ''Connection succeeded.''), (''objectEncoding'', A0Number f64_0)]\<rparr>)"

definition send_create_stream_result :: "u64 \<Rightarrow> u32 \<Rightarrow> unit core_m" where
  "send_create_stream_result txn stream_id =
     send_command 3 pcm_header (CResult (create_stream_result (transaction_from_f64 txn) stream_id))"

text \<open>\<^verbatim>\<open>allocate_stream_id\<close>: 32-bit ids, restarting at 1 after the last.\<close>

definition allocate_stream_id :: "u32 core_m" where
  "allocate_stream_id c =
     Some (c\<lparr>co_next_stream_id :=
             (case checked_add (co_next_stream_id c) 1 of Some n \<Rightarrow> n | None \<Rightarrow> 1)\<rparr>,
           [], Inr (max (co_next_stream_id c) 1))"

definition send_on_status :: "u32 \<Rightarrow> string \<Rightarrow> string \<Rightarrow> string \<Rightarrow> unit core_m" where
  "send_on_status stream_id level code description =
     send_command 5 (stream_header stream_id)
       (COnStatus \<lparr>oc_level = level, oc_code = code, oc_description = Some description, oc_details = None\<rparr>)"

definition send_rtmp_sample_access :: "u32 \<Rightarrow> unit core_m" where
  "send_rtmp_sample_access stream_id =
     send_rtmp_message 6 (MData (stream_header stream_id) Amf0
       [VAmf0 (A0String ''|RtmpSampleAccess''), VAmf0 (A0Boolean True), VAmf0 (A0Boolean True)])"

definition cwhen :: "bool \<Rightarrow> unit core_m \<Rightarrow> unit core_m" where
  "cwhen b m = (if b then m else cret ())"

definition send_accept_play :: "u32 \<Rightarrow> bool \<Rightarrow> bool \<Rightarrow> unit core_m" where
  "send_accept_play stream_id emit_play_status emit_sample_access =
     cseq (send_user_control 0 stream_id)
    (cseq (cwhen emit_play_status
       (cseq (send_on_status stream_id ''status'' ''NetStream.Play.Reset'' ''Resetting and playing stream.'')
             (send_on_status stream_id ''status'' ''NetStream.Play.Start'' ''Started playing.'')))
     (cwhen emit_sample_access (send_rtmp_sample_access stream_id)))"

definition send_seek_request :: "u32 \<Rightarrow> u64 \<Rightarrow> unit core_m" where
  "send_seek_request stream_id millis =
     send_amf0 8 20 stream_id [A0String ''seek'', A0Number f64_0, A0Null, A0Number millis]"

definition send_pause_request :: "u32 \<Rightarrow> bool \<Rightarrow> u64 \<Rightarrow> unit core_m" where
  "send_pause_request stream_id pause millis =
     send_amf0 8 20 stream_id
       [A0String ''pause'', A0Number f64_0, A0Null, A0Boolean pause, A0Number millis]"

definition send_null_result :: "u64 \<Rightarrow> unit core_m" where
  "send_null_result txn = cignore (send_amf0 3 20 0 [A0String ''_result'', A0Number txn, A0Null])"

definition send_on_bw_done :: "unit core_m" where
  "send_on_bw_done = cignore (send_amf0 3 20 0 [A0String ''onBWDone'', A0Number f64_0, A0Null])"

section \<open>Replies received by a client\<close>

definition client_state_changed :: "rtmp_client_state \<Rightarrow> unit core_m" where
  "client_state_changed s = cevent (EvClientStateChanged s)"

definition emit_result_received :: "result_command \<Rightarrow> unit core_m" where
  "emit_result_received result = cwith (\<lambda>c.
     let txn = rc_transaction_id result;
         description = (case opt_member_str (rc_properties result) ''description'' of
                          Some s \<Rightarrow> Some s
                        | None \<Rightarrow> opt_member_str (rc_information result) ''description'')
     in if is_error result then
          cseq (cupd (\<lambda>c. c\<lparr>co_client_create_stream_transaction_id := None, co_client_pending_action := None\<rparr>))
            (cevent (EvClientDisconnectRequested
              (''Command response error: '' @ (case description of Some s \<Rightarrow> s | None \<Rightarrow> ''Unknown error''))))
        else if txn = transaction_connect then client_state_changed Connected
        else if co_client_create_stream_transaction_id c = Some txn then
          cseq (cupd (\<lambda>c. c\<lparr>co_client_create_stream_transaction_id := None\<rparr>))
            (client_state_changed MediaStreamCreated)
        else cevent (EvCommandIgnored ''_result'' (UnhandledTransaction txn)))"

definition emit_on_status_received :: "on_status_command \<Rightarrow> unit core_m" where
  "emit_on_status_received status = cwith (\<lambda>c.
     let clear = cupd (\<lambda>c. c\<lparr>co_client_pending_action := None\<rparr>) in
     if oc_code status = ''NetStream.Publish.Start'' \<and> co_client_pending_action c = Some PendingPublish then
       cseq clear (client_state_changed Publishing)
     else if oc_code status = ''NetStream.Play.Start'' \<and> co_client_pending_action c = Some PendingPlay then
       cseq clear (client_state_changed Playing)
     else if oc_level status = ''error'' then
       cseq clear (cevent (EvClientDisconnectRequested
         (''OnStatus error: '' @ oc_code status
          @ (case oc_description status of None \<Rightarrow> [] | Some desc \<Rightarrow> '' - '' @ desc)
          @ (case oc_details status of None \<Rightarrow> [] | Some detail \<Rightarrow> '' ('' @ detail @ '')''))))
     else cevent (EvCommandIgnored ''onStatus''
            (Text (''level='' @ oc_level status @ '', code='' @ oc_code status))))"

section \<open>Commands of the application\<close>

fun message_type_debug :: "rtmp_message_type \<Rightarrow> string" where
  "message_type_debug MtSetChunkSize = ''SetChunkSize''"
| "message_type_debug MtAbort = ''Abort''"
| "message_type_debug MtAck = ''Ack''"
| "message_type_debug MtUserControl = ''UserControl''"
| "message_type_debug MtWinAckSize = ''WinAckSize''"
| "message_type_debug MtSetPeerBandwidth = ''SetPeerBandwidth''"
| "message_type_debug MtAudio = ''Audio''"
| "message_type_debug MtVideo = ''Video''"
| "message_type_debug MtDataAmf3 = ''DataAmf3''"
| "message_type_debug MtCommandAmf3 = ''CommandAmf3''"
| "message_type_debug MtDataAmf0 = ''DataAmf0''"
| "message_type_debug MtCommandAmf0 = ''CommandAmf0''"
| "message_type_debug MtAggregate = ''Aggregate''"

fun on_command :: "core_command \<Rightarrow> unit core_m" where
  "on_command (SetWindowAckSize sz) = send_rtmp_message 2 (win_ack_size sz)"
| "on_command (SetPeerBandwidth sz) = send_rtmp_message 2 (set_peer_bandwidth sz)"
| "on_command (SetChunkSize sz) = send_set_chunk_size sz"
| "on_command (SendAck sequence_number) = send_rtmp_message 2 (ack sequence_number)"
| "on_command (SendPingResponse t) = send_rtmp_message 2 (MUserControl pcm_header (PingResponse t))"
| "on_command (ClientConnect app flash_ver tc_url) = send_connect_request app flash_ver tc_url"
| "on_command (ClientCreateStream txn0) =
     (let txn = transaction_from_f64 txn0 in
      cseq (cupd (\<lambda>c. c\<lparr>co_client_create_stream_transaction_id := Some txn\<rparr>))
        (send_create_stream_request txn))"
| "on_command (ClientPublish stream_id txn stream_name) =
     cseq (cupd (\<lambda>c. c\<lparr>co_client_pending_action := Some PendingPublish\<rparr>))
       (send_publish_request stream_id txn stream_name)"
| "on_command (ClientPlay stream_id txn stream_name start) =
     cseq (cupd (\<lambda>c. c\<lparr>co_client_pending_action := Some PendingPlay\<rparr>))
       (send_play_request stream_id txn stream_name start)"
| "on_command (ClientSeek stream_id millis) = send_seek_request stream_id millis"
| "on_command (ClientPause stream_id pause millis) = send_pause_request stream_id pause millis"
| "on_command (ClientHandleWireCommand _ name txn obj args) =
     (case command_from_message name txn obj args of
        Inr (CResult result) \<Rightarrow> emit_result_received result
      | Inr (COnStatus status) \<Rightarrow> emit_on_status_received status
      | Inr command \<Rightarrow> cevent (EvCommandIgnored name (ClientIgnored command))
      | Inl error \<Rightarrow> cevent (EvCommandIgnored name (ClientDecodeFailed error)))"
| "on_command (ClientObserveAck sequence_number) = cevent (EvAckReceived sequence_number)"
| "on_command (ClientObserveWinAckSize sz) =
     cseq (cupd (\<lambda>c. c\<lparr>co_peer_ack_window_size := ucast sz\<rparr>)) (cevent (EvPeerAckWindowUpdated sz))"
| "on_command (ClientHandleSetPeerBandwidth sz response_window_size) =
     cseq (send_rtmp_message 2 (win_ack_size response_window_size)) (cevent (EvLocalAckWindowUpdated sz))"
| "on_command (ClientObserveMediaData stream_id timestamp_ms media_type p) =
     cevent (EvMediaData stream_id timestamp_ms media_type p)"
| "on_command (ClientHandleUserControl ev) =
     (case ev of
        PingRequest t \<Rightarrow> send_rtmp_message 2 (MUserControl pcm_header (PingResponse t))
      | _ \<Rightarrow> cevent (EvUserControlIgnored (user_control_event_name ev) (DebugUserControl ev)))"
| "on_command (ClientHandleUnhandledMessage msg) =
     cevent (EvMessageIgnored (message_type_debug (message_type_of msg)) (DebugMessage msg))"
| "on_command (AcceptPublish stream_id) =
     cseq (cupd (\<lambda>c. c\<lparr>co_active_publish := Some stream_id\<rparr>))
    (cseq (flush_pending_publish_media stream_id)
       (send_on_status stream_id ''status'' ''NetStream.Publish.Start'' ''Start publishing.''))"
| "on_command (RejectPublish stream_id description) =
     cseq (cwith (\<lambda>c. cwhen (co_pending_publish c = Some stream_id) clear_pending_publish))
       (send_on_status stream_id ''error'' ''NetStream.Publish.BadName'' description)"
| "on_command (AcceptPlay stream_id) = send_accept_play stream_id True True"
| "on_command (AcceptPlayConfigured stream_id emit_play_status emit_sample_access) =
     send_accept_play stream_id emit_play_status emit_sample_access"
| "on_command (RejectPlay stream_id description) =
     send_on_status stream_id ''error'' ''NetStream.Play.StreamNotFound'' description"
| "on_command (SendMetadata stream_id timestamp_ms p) = send_message 6 timestamp_ms 18 stream_id p"
| "on_command (SendAudio stream_id timestamp_ms p) = send_message 4 timestamp_ms 8 stream_id p"
| "on_command (SendVideo stream_id timestamp_ms p) = send_message 6 timestamp_ms 9 stream_id p"
| "on_command (SendNotify stream_id timestamp_ms p) = send_message 6 timestamp_ms 18 stream_id p"
| "on_command (CloseStream stream_id) = send_user_control 1 stream_id"
| "on_command CloseConnection =
     cseq (cupd (\<lambda>c. c\<lparr>co_state := Closed, co_active_publish := None\<rparr>))
    (cseq clear_pending_publish
    (cseq (cupd (\<lambda>c. c\<lparr>co_client_create_stream_transaction_id := None, co_client_pending_action := None\<rparr>))
       (cevent EvPeerClosed)))"

end
