(* ===== verification/Rtmp_Core_Inbound.thy ===== *)
theory Rtmp_Core_Inbound
  imports Rtmp_Core_Outbound
begin

text \<open>
  \<^verbatim>\<open>core/command/inbound.rs\<close>: data and command messages from the peer. Command names are matched
  without regard to ASCII case; a command that the structured parser refuses is handled by its name
  with defaults for what is missing.
\<close>

section \<open>Values\<close>

fun amf_string :: "amf_value \<Rightarrow> string option" where
  "amf_string (VAmf0 (A0String s)) = Some s"
| "amf_string (VAmf3 (A3String s)) = Some s"
| "amf_string _ = None"

fun amf_number :: "amf_value \<Rightarrow> u64 option" where
  "amf_number (VAmf0 (A0Number v)) = Some v"
| "amf_number (VAmf3 (A3Integer v)) = Some (i64_as_f64 (sint v))"
| "amf_number (VAmf3 (A3Double v)) = Some v"
| "amf_number _ = None"

fun amf_bool :: "amf_value \<Rightarrow> bool option" where
  "amf_bool (VAmf0 (A0Boolean v)) = Some v"
| "amf_bool (VAmf0 (A0Number v)) = Some (\<not> f64_is_zero v)"
| "amf_bool (VAmf3 (A3Boolean v)) = Some v"
| "amf_bool _ = None"

definition opt_bind :: "'a option \<Rightarrow> ('a \<Rightarrow> 'b option) \<Rightarrow> 'b option" where
  "opt_bind x f = (case x of None \<Rightarrow> None | Some v \<Rightarrow> f v)"

definition unwrap_or :: "'a option \<Rightarrow> 'a \<Rightarrow> 'a" where
  "unwrap_or x d = (case x of None \<Rightarrow> d | Some v \<Rightarrow> v)"

definition amf_string_at :: "amf_value list \<Rightarrow> nat \<Rightarrow> string option" where
  "amf_string_at args i = opt_bind (get_at args i) amf_string"

fun object_member_string :: "amf_value \<Rightarrow> string \<Rightarrow> string option" where
  "object_member_string (VAmf0 (A0Object _ entries)) key =
     opt_bind (rfind_entry entries key) (\<lambda>v. amf_string (VAmf0 v))"
| "object_member_string (VAmf0 (A0EcmaArray entries)) key =
     opt_bind (rfind_entry entries key) (\<lambda>v. amf_string (VAmf0 v))"
| "object_member_string (VAmf3 (A3Object _ _ entries)) key =
     opt_bind (rfind_entry entries key) (\<lambda>v. amf_string (VAmf3 v))"
| "object_member_string _ key = None"

definition command_target_stream_id :: "amf_value list \<Rightarrow> u32 option" where
  "command_target_stream_id args =
     opt_bind (get_at args 0) (\<lambda>v. opt_bind (amf_number v) (\<lambda>stream_id.
       if \<not> f64_is_finite stream_id \<or> f64_units stream_id \<le> 0
          \<or> f64_units stream_id > (2 ^ 32 - 1) * f64_one
       then None else Some (f64_as_u32 stream_id)))"

section \<open>Decoding\<close>

definition normalize_amf_payload :: "bytes \<Rightarrow> amf_version \<Rightarrow> bytes \<times> amf_version" where
  "normalize_amf_payload p ver =
     (if ver = Amf3 \<and> get_at p 0 = Some 0 then (drop 1 p, Amf0) else (p, ver))"

definition core_decode_amf_values :: "bytes \<Rightarrow> amf_version \<Rightarrow> error_kind + amf_value list" where
  "core_decode_amf_values p ver =
     (let (p1, ver1) = normalize_amf_payload p ver in decode_amf_values ver1 p1)"

record decoded_command =
  dcm_name :: string
  dcm_transaction_id :: transaction_id
  dcm_transaction_id_raw :: u64
  dcm_object :: amf_value
  dcm_args :: "amf_value list"

definition core_decode_command :: "bytes \<Rightarrow> amf_version \<Rightarrow> error_kind + decoded_command option" where
  "core_decode_command p ver0 =
     (if p = [] then Inr None
      else
        let (buf, ver) = normalize_amf_payload p ver0 in
        sbind (amf_decode buf ver) (\<lambda>(n, name_value).
        let name = unwrap_or (amf_string name_value) []; buf1 = drop n buf in
        sbind (if buf1 = [] then Inr (f64_0, buf1)
               else sbind (amf_decode buf1 ver) (\<lambda>(n, t).
                      Inr (unwrap_or (amf_number t) f64_0, drop n buf1))) (\<lambda>(txn_raw, buf2).
        sbind (if buf2 = [] then Inr (VAmf0 A0Null, buf2)
               else sbind (amf_decode buf2 ver) (\<lambda>(n, obj). Inr (obj, drop n buf2))) (\<lambda>(obj, buf3).
        sbind (decode_amf_values ver buf3) (\<lambda>args.
          Inr (Some \<lparr>dcm_name = name, dcm_transaction_id = transaction_from_f64 txn_raw,
                     dcm_transaction_id_raw = txn_raw, dcm_object = obj, dcm_args = args\<rparr>))))))"

definition canonical_command_name :: "string \<Rightarrow> string option" where
  "canonical_command_name name_lower =
     (if name_lower = ''connect'' then Some ''connect''
      else if name_lower = ''createstream'' then Some ''createStream''
      else if name_lower = ''publish'' then Some ''publish''
      else if name_lower = ''play'' then Some ''play''
      else if name_lower = ''deletestream'' then Some ''deleteStream''
      else if name_lower = ''getstreamlength'' then Some ''getStreamLength''
      else if name_lower = ''_result'' then Some ''_result''
      else if name_lower = ''_error'' then Some ''_error''
      else if name_lower = ''onstatus'' then Some ''onStatus''
      else None)"

section \<open>Data messages\<close>

definition emit_notify_event :: "u32 \<Rightarrow> amf_value list \<Rightarrow> rtmp_event option" where
  "emit_notify_event msid vs =
     (if vs = [] then None
      else
        let first = unwrap_or (amf_string_at vs 0) [];
            notify = Some (EvNotify msid first vs);
            metadata = Some (EvMetadata msid vs)
        in if eq_ignore_ascii_case first ''@setDataFrame'' then
             (case amf_string_at vs 1 of
                Some v \<Rightarrow> if eq_ignore_ascii_case v ''onMetaData'' then metadata else notify
              | None \<Rightarrow> notify)
           else if eq_ignore_ascii_case first ''onMetaData'' then metadata
           else notify)"

definition on_notify_message :: "amf_version \<Rightarrow> u32 \<Rightarrow> bytes \<Rightarrow> error_kind + rtmp_event option" where
  "on_notify_message ver msid p =
     sbind (core_decode_amf_values p ver) (\<lambda>vs. Inr (emit_notify_event msid vs))"

section \<open>Handlers\<close>

definition app_and_tc_url :: "rtmp_core \<Rightarrow> string \<times> string" where
  "app_and_tc_url c =
     (let app = unwrap_or (co_connected_app c) ''live''
      in (app, unwrap_or (co_connected_tc_url c) (''rtmp:///'' @ app)))"

definition start_pending_publish :: "u32 \<Rightarrow> string \<Rightarrow> unit core_m" where
  "start_pending_publish msid stream_name =
     cseq (cupd (\<lambda>c. c\<lparr>co_active_publish := None, co_pending_publish := Some msid,
                       co_pending_media := [], co_pending_media_bytes := 0\<rparr>))
       (cwith (\<lambda>c. let (app, tc_url) = app_and_tc_url c in
          cevent (EvPublishRequested msid app tc_url stream_name)))"

definition emit_play_requested :: "u32 \<Rightarrow> string \<Rightarrow> unit core_m" where
  "emit_play_requested msid stream_name =
     cwith (\<lambda>c. let (app, tc_url) = app_and_tc_url c in
       cevent (EvPlayRequested msid app tc_url stream_name))"

definition close_stream :: "u32 \<Rightarrow> unit core_m" where
  "close_stream stream_id =
     cseq (cupd (\<lambda>c. if co_active_publish c = Some stream_id then c\<lparr>co_active_publish := None\<rparr> else c))
    (cseq (cwith (\<lambda>c. cwhen (co_pending_publish c = Some stream_id) clear_pending_publish))
       (cevent (EvStreamClosed stream_id)))"

definition handle_connect_command :: "string \<Rightarrow> string \<Rightarrow> u64 \<Rightarrow> unit core_m" where
  "handle_connect_command app tc_url txn_raw =
     cseq (cupd (\<lambda>c. c\<lparr>co_connected_app := Some app, co_connected_tc_url := Some tc_url\<rparr>))
    (cseq (send_connect_result txn_raw)
    (cseq send_on_bw_done
       (cevent (EvConnected app tc_url))))"

definition handle_create_stream_command :: "u64 \<Rightarrow> unit core_m" where
  "handle_create_stream_command txn_raw =
     cbind allocate_stream_id (\<lambda>stream_id.
       cseq (send_create_stream_result txn_raw stream_id) (cevent (EvStreamCreated stream_id)))"

definition handle_get_stream_length_command :: "transaction_id \<Rightarrow> unit core_m" where
  "handle_get_stream_length_command txn =
     send_command 3 pcm_header (CResult (get_stream_length_result txn f64_0))"

definition handle_publish_command :: "u32 \<Rightarrow> string \<Rightarrow> unit core_m" where
  "handle_publish_command msid stream_name = start_pending_publish msid stream_name"

definition handle_play_command :: "u32 \<Rightarrow> string \<Rightarrow> unit core_m" where
  "handle_play_command msid stream_name = emit_play_requested msid stream_name"

definition handle_delete_stream_command :: "u32 \<Rightarrow> unit core_m" where
  "handle_delete_stream_command stream_id = close_stream stream_id"

definition handle_unstructured_command :: "decoded_command \<Rightarrow> u32 \<Rightarrow> unit core_m" where
  "handle_unstructured_command command msid =
     (let name = to_ascii_lowercase (dcm_name command);
          args = dcm_args command;
          txn_raw = dcm_transaction_id_raw command
      in if name = ''connect'' then
           handle_connect_command (unwrap_or (object_member_string (dcm_object command) ''app'') ''live'')
             (unwrap_or (object_member_string (dcm_object command) ''tcUrl'') []) txn_raw
         else if name = ''createstream'' then handle_create_stream_command txn_raw
         else if name = ''getstreamlength'' then
           handle_get_stream_length_command (dcm_transaction_id command)
         else if name = ''publish'' then
           handle_publish_command msid (unwrap_or (amf_string_at args 0) [])
         else if name = ''play'' \<or> name = ''play2'' then
           handle_play_command msid (unwrap_or (amf_string_at args 0) [])
         else if name = ''deletestream'' \<or> name = ''closestream'' then
           handle_delete_stream_command (unwrap_or (command_target_stream_id args) msid)
         else if name = ''fcpublish'' \<or> name = ''fcunpublish'' \<or> name = ''releasestream''
                 \<or> name = ''_checkbw'' then
           cseq (send_null_result txn_raw)
             (cevent (EvCommandIgnored (dcm_name command) (Text ''side-band command acknowledged'')))
         else if name = ''seek'' then
           cseq (send_null_result txn_raw)
             (cevent (EvSeekRequested msid
                (unwrap_or (opt_bind (get_at args 0) amf_number) f64_0)))
         else if name = ''pause'' then
           cseq (send_null_result txn_raw)
             (cevent (EvPauseRequested msid
                (unwrap_or (opt_bind (get_at args 0) amf_bool) True)
                (unwrap_or (opt_bind (get_at args 1) amf_number) f64_0)))
         else if name = ''receivevideo'' then
           cevent (EvReceiveVideo msid (unwrap_or (opt_bind (get_at args 0) amf_bool) True))
         else if name = ''receiveaudio'' then
           cevent (EvReceiveAudio msid (unwrap_or (opt_bind (get_at args 0) amf_bool) True))
         else cevent (EvCommandIgnored (dcm_name command) (Text ''unsupported command ignored'')))"

definition parse_command :: "decoded_command \<Rightarrow> rtmp_command option" where
  "parse_command command =
     opt_bind (canonical_command_name (to_ascii_lowercase (dcm_name command))) (\<lambda>name.
       case command_from_message name (dcm_transaction_id command) (dcm_object command) (dcm_args command) of
         Inl _ \<Rightarrow> None
       | Inr cmd \<Rightarrow> Some cmd)"

definition on_decoded_command :: "u32 \<Rightarrow> decoded_command \<Rightarrow> unit core_m" where
  "on_decoded_command msid command =
     (case parse_command command of
        Some (CConnect connect) \<Rightarrow>
          handle_connect_command (cc_app connect) (cc_tc_url connect) (dcm_transaction_id_raw command)
      | Some (CCreateStream create_stream) \<Rightarrow>
          handle_create_stream_command (i64_as_f64 (cs_transaction_id create_stream))
      | Some (CGetStreamLength get_stream_length) \<Rightarrow>
          handle_get_stream_length_command (gc_transaction_id get_stream_length)
      | Some (CPublish publish) \<Rightarrow> handle_publish_command msid (pc_stream_name publish)
      | Some (CPlay play) \<Rightarrow> handle_play_command msid (pl_stream_name play)
      | Some (CDeleteStream delete_stream) \<Rightarrow>
          handle_delete_stream_command
            (if dc_stream_id delete_stream = 0 then msid else dc_stream_id delete_stream)
      | Some (CResult result) \<Rightarrow> emit_result_received result
      | Some (COnStatus status) \<Rightarrow> emit_on_status_received status
      | _ \<Rightarrow> handle_unstructured_command command msid)"

definition on_command_message :: "amf_version \<Rightarrow> u32 \<Rightarrow> bytes \<Rightarrow> unit core_m" where
  "on_command_message ver msid p =
     cbind (clift ErrAmf0 (core_decode_command p ver)) (\<lambda>maybe_command.
       case maybe_command of
         None \<Rightarrow> cret ()
       | Some command \<Rightarrow> on_decoded_command msid command)"

end
