(* ===== verification/Rtmp_Core_Messages.thy ===== *)
theory Rtmp_Core_Messages
  imports Rtmp_Core_Inbound
begin

text \<open>
  The message dispatch of \<^verbatim>\<open>core.rs\<close>: control messages, aggregates (which may nest) and the handlers of
  the other messages; and the locale \<open>message_effects\<close>, which shows a relation between states and
  outputs for the whole dispatch from the primitive effects of its handlers.
\<close>

section \<open>Control messages\<close>

fun on_control :: "rtmp_message \<Rightarrow> unit core_m" where
  "on_control (MSetChunkSize _ sz) =
     cupd (\<lambda>c. c\<lparr>co_in_chunk_size := chunk_size_get sz,
                 co_decoder := chunk_decoder_set_chunk_size (co_decoder c) sz\<rparr>)"
| "on_control (MAck _ sequence_number) = cevent (EvAckReceived sequence_number)"
| "on_control (MWinAckSize _ sz) =
     cseq (cupd (\<lambda>c. c\<lparr>co_peer_ack_window_size := ucast sz\<rparr>)) (cevent (EvPeerAckWindowUpdated sz))"
| "on_control (MUserControl _ (PingRequest t)) =
     send_message 2 0 (message_type_id MtUserControl) 0 (user_control_encode (PingResponse t))"
| "on_control (MSetPeerBandwidth _ sz limit_type) = cwith (\<lambda>c.
     let effective_type = (case limit_type of
                             Dynamic \<Rightarrow> co_last_peer_bandwidth_limit_type c
                           | other \<Rightarrow> other);
         response_size = (case effective_type of Hard \<Rightarrow> sz | Soft \<Rightarrow> sz | Dynamic \<Rightarrow> sz)
     in cseq (cupd (\<lambda>c. c\<lparr>co_last_peer_bandwidth_limit_type := limit_type,
                          co_local_ack_window_size := response_size\<rparr>))
       (cseq (cevent (EvLocalAckWindowUpdated sz))
          (send_message 2 0 (message_type_id MtWinAckSize) 0 (to_be 4 response_size))))"
| "on_control (MAbort _ csid) =
     cupd (\<lambda>c. c\<lparr>co_decoder := chunk_decoder_reset_chunk_stream (co_decoder c) csid\<rparr>)"
| "on_control _ = cret ()"

definition handle_control_message :: "rtmp_chunk \<Rightarrow> unit core_m" where
  "handle_control_message ch = cbind (clift ErrChunk (decode_rtmp_chunk_to_message ch)) on_control"

section \<open>Aggregates\<close>

text \<open>
  The loop of \<^verbatim>\<open>on_aggregate_message\<close> up to its calls: the sub-messages of an aggregate, in order. It
  does not look at the state of the core.
\<close>

function aggregate_sub_messages :: "rtmp_chunk \<Rightarrow> bytes \<Rightarrow> rtmp_chunk list" where
  "aggregate_sub_messages msg rest =
     (if length rest < 11 then []
      else
        let sub_type = rest ! 0;
            sub_length = unat (from_be [0, rest ! 1, rest ! 2, rest ! 3] :: u32);
            sub_timestamp = from_be [rest ! 7, rest ! 4, rest ! 5, rest ! 6] :: u32;
            r1 = drop 11 rest
        in if sub_length > length r1 then []
           else
             let sub_payload = take sub_length r1;
                 r2 = drop sub_length r1;
                 r3 = (if 4 \<le> length r2 then drop 4 r2 else r2);
                 more = aggregate_sub_messages msg r3
             in (case from_type_id sub_type of
                   Inl _ \<Rightarrow> more
                 | Inr t \<Rightarrow>
                     msg\<lparr>message_type := t, timestamp := timestamp msg + sub_timestamp,
                         payload := sub_payload\<rparr> # more))"
  by pat_completeness auto
termination
  by (relation "measure (\<lambda>(msg, rest). length rest)") auto

declare aggregate_sub_messages.simps [simp del]

lemma aggregate_sub_messages_shorter:
  "sub \<in> set (aggregate_sub_messages msg rest) \<Longrightarrow> length (payload sub) < length rest"
proof (induction "length rest" arbitrary: rest rule: less_induct)
  case less
  have ih: "sub \<in> set (aggregate_sub_messages msg (drop k rest)) \<Longrightarrow> 0 < k \<Longrightarrow> k \<le> length rest
      \<Longrightarrow> length (payload sub) < length rest" for k
    using less.hyps [of "drop k rest"] by simp
  show ?case
  proof (cases "length rest < 11")
    case True
    with less.prems show ?thesis by (subst (asm) aggregate_sub_messages.simps) simp
  next
    case False
    with less.prems show ?thesis
      by (subst (asm) aggregate_sub_messages.simps)
        (auto simp: Let_def split: if_splits sum.splits dest!: ih)
  qed
qed

section \<open>Messages\<close>

definition on_data_amf3 :: "rtmp_chunk \<Rightarrow> unit core_m" where
  "on_data_amf3 msg =
     (case on_notify_message Amf3 (message_stream_id msg) (payload msg) of
        Inr (Some ev) \<Rightarrow> cevent ev
      | Inr None \<Rightarrow> handle_media_input (message_stream_id msg) (timestamp msg) RmData (payload msg)
      | Inl _ \<Rightarrow> cret ())"

definition on_data_amf0 :: "rtmp_chunk \<Rightarrow> unit core_m" where
  "on_data_amf0 msg =
     cbind (clift ErrAmf0 (on_notify_message Amf0 (message_stream_id msg) (payload msg))) (\<lambda>maybe_event.
       case maybe_event of
         Some ev \<Rightarrow> cevent ev
       | None \<Rightarrow> handle_media_input (message_stream_id msg) (timestamp msg) RmData (payload msg))"

text \<open>\<^verbatim>\<open>if let Err(err) = .. { if !matches!(err, Amf0(_)) { return Err(err) } }\<close>\<close>

definition ignore_amf0_error :: "unit core_m \<Rightarrow> unit core_m" where
  "ignore_amf0_error m c =
     (case m c of
        Some (c1, o1, Inl (ErrAmf0 _)) \<Rightarrow> Some (c1, o1, Inr ())
      | r \<Rightarrow> r)"

function on_message :: "rtmp_chunk \<Rightarrow> unit core_m" where
  "on_message msg =
     (case message_type msg of
        MtAudio \<Rightarrow> handle_media_input (message_stream_id msg) (timestamp msg) RmAudio (payload msg)
      | MtVideo \<Rightarrow> handle_media_input (message_stream_id msg) (timestamp msg) RmVideo (payload msg)
      | MtDataAmf3 \<Rightarrow> on_data_amf3 msg
      | MtDataAmf0 \<Rightarrow> on_data_amf0 msg
      | MtCommandAmf0 \<Rightarrow> on_command_message Amf0 (message_stream_id msg) (payload msg)
      | MtCommandAmf3 \<Rightarrow>
          ignore_amf0_error (on_command_message Amf3 (message_stream_id msg) (payload msg))
      | MtAggregate \<Rightarrow> cfor on_message (aggregate_sub_messages msg (payload msg))
      | _ \<Rightarrow> handle_control_message msg)"
  by pat_completeness auto
termination
  by (relation "measure (\<lambda>msg. length (payload msg))") (auto dest: aggregate_sub_messages_shorter)

declare on_message.simps [simp del]

section \<open>Effects of the dispatch\<close>

fun is_media_event :: "rtmp_event \<Rightarrow> bool" where
  "is_media_event (EvMediaData _ _ _ _) = True"
| "is_media_event _ = False"

text \<open>The fields that only the handlers named below, or none, change.\<close>

definition same_session :: "rtmp_core \<Rightarrow> rtmp_core \<Rightarrow> bool" where
  "same_session c c' \<longleftrightarrow>
     co_state c' = co_state c \<and> co_input_buf c' = co_input_buf c \<and> co_handshake c' = co_handshake c
     \<and> co_total_bytes_received c' = co_total_bytes_received c \<and> co_last_ack_sent c' = co_last_ack_sent c
     \<and> co_out_chunk_size c' = co_out_chunk_size c"

definition same_publish :: "rtmp_core \<Rightarrow> rtmp_core \<Rightarrow> bool" where
  "same_publish c c' \<longleftrightarrow>
     co_active_publish c' = co_active_publish c \<and> co_pending_publish c' = co_pending_publish c
     \<and> co_pending_media c' = co_pending_media c \<and> co_pending_media_bytes c' = co_pending_media_bytes c"

locale message_effects = effect_relation +
  assumes silent: "same_session c c' \<Longrightarrow> same_publish c c' \<Longrightarrow> co_encoder c' = co_encoder c \<Longrightarrow> R c [] c'"
    and event: "\<not> is_media_event ev \<Longrightarrow> R c [Event ev] c"
    and written: "encode_raw_chunk (co_encoder c) ch = (enc, w) \<Longrightarrow> R c [Write w] (c\<lparr>co_encoder := enc\<rparr>)"
    and request: "R c [] (c\<lparr>co_active_publish := None, co_pending_publish := Some sid,
                            co_pending_media := [], co_pending_media_bytes := 0\<rparr>)"
    and deactivate: "R c [] (c\<lparr>co_active_publish := None\<rparr>)"
    and abandon: "R c [] (c\<lparr>co_pending_publish := None, co_pending_media := [], co_pending_media_bytes := 0\<rparr>)"
    and deliver: "co_active_publish c = Some sid \<Longrightarrow> R c [Event (EvMediaData sid ts mt p)] c"
    and enqueue: "co_active_publish c \<noteq> Some sid \<Longrightarrow> co_pending_publish c = Some sid \<Longrightarrow>
      push_pending_publish_media sid ts mt p b c = Some (c', os, r) \<Longrightarrow> R c os c'"
begin

lemma upd: "(\<And>c. same_session c (f c) \<and> same_publish c (f c) \<and> co_encoder (f c) = co_encoder c) \<Longrightarrow> crel R (cupd f)"
  by (rule crelI) (auto simp: cupd_def intro: silent)

lemma cevent: "\<not> is_media_event ev \<Longrightarrow> crel R (cevent ev)"
  by (rule crelI) (auto simp: cevent_def cemit_def intro: event)

lemma cchunk: "crel R (cchunk ch)"
  by (rule crelI) (auto simp: cchunk_def Let_def split: prod.splits intro: written)

lemma send_message: "crel R (send_message csid ts t sid p)"
  unfolding send_message_def by (intro closed cchunk)

lemma send_amf0: "crel R (send_amf0 csid t sid vs)"
  unfolding send_amf0_def by (intro closed send_message)

lemma send_rtmp_message:
  assumes "\<And>h sz. m \<noteq> MSetChunkSize h sz"
  shows "crel R (send_rtmp_message csid m)"
proof (rule crelI)
  fix c c' os r
  assume a: "send_rtmp_message csid m c = Some (c', os, r)"
  then obtain cs enc w where e: "message_encode (co_encoder c) cs m = Some (enc, w)"
    and c': "c' = c\<lparr>co_encoder := enc\<rparr>" "os = [Write w]"
    by (auto simp: send_rtmp_message_def cpanic_def split: option.splits)
  from e assms obtain ch where "encode_raw_chunk (co_encoder c) ch = (enc, w)"
    by (cases m) (auto simp: message_encode_def Let_def split: option.splits prod.splits)
  then show "R c os c'" unfolding c' by (rule written)
qed

lemma into_message_no_chunk_size: "into_message cmd h = Inr m \<Longrightarrow> m \<noteq> MSetChunkSize h' sz"
  by (cases cmd) auto

lemma send_command: "crel R (send_command csid h cmd)"
proof (cases "into_message cmd h")
  case (Inl e)
  then have "send_command csid h cmd = cfail (ErrAmf0 e)"
    by (intro ext) (simp add: send_command_def clift_def cbind_def cfail_def)
  then show ?thesis by (simp add: cfail)
next
  case (Inr m)
  then have "crel R (send_rtmp_message csid m)"
    by (intro send_rtmp_message) (auto dest: into_message_no_chunk_size)
  moreover have "send_command csid h cmd = send_rtmp_message csid m"
    by (rule ext) (simp add: send_command_def Inr clift_def cbind_def cret_def split: option.splits)
  ultimately show ?thesis by simp
qed

lemma fields [simp]:
  "same_session c c" "same_publish c c"
  by (simp_all add: same_session_def same_publish_def)

lemma media_input: "crel R (handle_media_input sid ts mt p)"
proof (rule crelI)
  fix c c' os r
  assume "handle_media_input sid ts mt p c = Some (c', os, r)"
  then show "R c os c'"
    by (auto simp: handle_media_input_def cwith_def cevent_def cemit_def split: if_splits
        intro: deliver enqueue event)
qed

lemma cwhen: "crel R m \<Longrightarrow> crel R (cwhen b m)"
  by (simp add: cwhen_def cret)

lemma abandon_pending: "crel R clear_pending_publish"
  by (rule crelI) (auto simp: clear_pending_publish_def cupd_def intro: abandon)

lemma close: "crel R (close_stream sid)"
proof -
  have "crel R (cupd (\<lambda>c. if co_active_publish c = Some sid then c\<lparr>co_active_publish := None\<rparr> else c))"
    by (rule crelI) (auto simp: cupd_def intro: deactivate refl)
  then show ?thesis
    unfolding close_stream_def by (intro closed cwhen abandon_pending cevent) simp_all
qed

lemma start_publish: "crel R (start_pending_publish sid name)"
proof -
  have "crel R (cupd (\<lambda>c. c\<lparr>co_active_publish := None, co_pending_publish := Some sid,
      co_pending_media := [], co_pending_media_bytes := 0\<rparr>))"
    by (rule crelI) (auto simp: cupd_def intro: request)
  then show ?thesis
    unfolding start_pending_publish_def Let_def case_prod_beta by (intro closed cevent) simp_all
qed

lemma replies:
  "crel R (emit_result_received result)" "crel R (emit_on_status_received status)"
  unfolding emit_result_received_def emit_on_status_received_def Let_def client_state_changed_def
  by (intro closed cevent upd; simp add: same_session_def same_publish_def)+

lemma allocate: "crel R allocate_stream_id"
  by (rule crelI) (auto simp: allocate_stream_id_def same_session_def same_publish_def intro!: silent)

lemma command_handlers:
  "crel R (handle_connect_command app tc_url txn)" "crel R (handle_create_stream_command txn)"
  "crel R (handle_get_stream_length_command t)" "crel R (handle_publish_command sid name)"
  "crel R (handle_play_command sid name)" "crel R (handle_delete_stream_command sid)"
  "crel R (send_null_result txn)"
proof -
  show "crel R (send_null_result txn)"
    unfolding send_null_result_def by (intro closed send_amf0)
  show "crel R (handle_connect_command app tc_url txn)"
    unfolding handle_connect_command_def send_connect_result_def send_on_bw_done_def
    by (intro closed upd send_command send_amf0 cevent; simp add: same_session_def same_publish_def)
  show "crel R (handle_create_stream_command txn)"
    unfolding handle_create_stream_command_def send_create_stream_result_def
    by (intro closed allocate send_command cevent) simp
  show "crel R (handle_get_stream_length_command t)"
    unfolding handle_get_stream_length_command_def by (rule send_command)
  show "crel R (handle_publish_command sid name)" unfolding handle_publish_command_def by (rule start_publish)
  show "crel R (handle_play_command sid name)"
    unfolding handle_play_command_def emit_play_requested_def Let_def case_prod_beta
    by (intro closed cevent) simp
  show "crel R (handle_delete_stream_command sid)" unfolding handle_delete_stream_command_def by (rule close)
qed

lemma unstructured: "crel R (handle_unstructured_command command sid)"
  unfolding handle_unstructured_command_def Let_def
  by (intro cif cseq command_handlers cevent) simp_all

lemma decoded: "crel R (on_decoded_command sid command)"
  unfolding on_decoded_command_def
  by (cases "parse_command command") (auto simp: unstructured command_handlers replies split: rtmp_command.splits)

lemma command_message: "crel R (on_command_message ver sid p)"
  unfolding on_command_message_def by (intro closed decoded)

lemma control: "crel R (handle_control_message ch)"
proof -
  have "crel R (on_control m)" for m
    by (cases m rule: on_control.cases)
      (auto simp: cret send_message same_session_def same_publish_def Let_def
        intro!: cevent upd cseq cwith)
  then show ?thesis unfolding handle_control_message_def by (intro cbind clift)
qed

lemma ignoring_amf0: "crel R m \<Longrightarrow> crel R (ignore_amf0_error m)"
  by (auto simp: crel_def ignore_amf0_error_def split: option.splits sum.splits core_error.splits)

lemma notify_not_media: "emit_notify_event sid vs = Some ev \<Longrightarrow> \<not> is_media_event ev"
  by (auto simp: emit_notify_event_def Let_def split: if_splits option.splits)

lemma notify_message_not_media: "on_notify_message ver sid p = Inr (Some ev) \<Longrightarrow> \<not> is_media_event ev"
  by (auto simp: on_notify_message_def sbind_eq_Inr_iff dest: notify_not_media)

lemma data_messages: "crel R (on_data_amf3 msg)" "crel R (on_data_amf0 msg)"
proof -
  show "crel R (on_data_amf3 msg)"
    unfolding on_data_amf3_def
    by (auto simp: cret media_input split: sum.splits option.splits
        intro!: cevent dest: notify_message_not_media)
  show "crel R (on_data_amf0 msg)"
    by (cases "on_notify_message Amf0 (message_stream_id msg) (payload msg)")
      (auto simp: on_data_amf0_def crel_def clift_def cfail_def cret_def cbind_def refl
        dest: notify_message_not_media crelD [OF media_input] crelD [OF cevent]
        split: option.splits sum.splits)
qed

lemma message: "crel R (on_message msg)"
proof (induction msg rule: on_message.induct)
  case (1 msg)
  show ?case
    by (subst on_message.simps)
      (auto simp: media_input data_messages command_message control 1 split: rtmp_message_type.splits
        intro!: ignoring_amf0 cfor)
qed

end

end
