(* ===== verification/Rtmp_Core.thy ===== *)
theory Rtmp_Core
  imports Rtmp_Core_Messages
begin

text \<open>
  \<^verbatim>\<open>core.rs\<close> and \<^verbatim>\<open>core/handshake.rs\<close>: the input handler of the connection core. Bytes go through the
  handshake first, then through the receive buffer, the chunk decoder and the message dispatch.
\<close>

section \<open>Messages leave the connection state alone\<close>

interpretation session: message_effects "\<lambda>c os c'. same_session c c'"
  by unfold_locales
    (auto simp: same_session_def push_pending_publish_media_def cret_def cupd_def split: if_splits prod.splits)

lemma on_message_input_buf:
  "on_message msg c = Some (c', os, r) \<Longrightarrow> co_input_buf c' = co_input_buf c"
  using crelD [OF session.message] by (auto simp: same_session_def)

section \<open>Bytes after the handshake\<close>

definition add_outputs ::
  "core_output list \<Rightarrow> (rtmp_core \<times> core_output list \<times> 'r) option \<Rightarrow> (rtmp_core \<times> core_output list \<times> 'r) option" where
  "add_outputs os x = map_option (\<lambda>(c, os', r). (c, os @ os', r)) x"

lemma add_outputs_simps [simp]:
  "add_outputs os None = None" "add_outputs os (Some (c, os', r)) = Some (c, os @ os', r)"
  by (simp_all add: add_outputs_def)

text \<open>The decoding loop; it ends because a decoding step consumes bytes and a message adds none.\<close>

function process_loop :: "unit core_m" where
  "process_loop c =
     (case chunk_decode (co_decoder c) (buf_get (co_input_buf c)) of
        (d, Inl e) \<Rightarrow>
          Some (c\<lparr>co_decoder := d\<rparr>, [], if e = InsufficientBuffer then Inr () else Inl (ErrChunk e))
      | (d, Inr (consumed, maybe_chunk)) \<Rightarrow>
          (let c1 = c\<lparr>co_decoder := d, co_input_buf := buf_advance (co_input_buf c) consumed\<rparr> in
           case maybe_chunk of
             None \<Rightarrow> process_loop c1
           | Some ch \<Rightarrow>
               (case on_message ch c1 of
                  None \<Rightarrow> None
                | Some (c2, os, Inl e) \<Rightarrow> Some (c2, os, Inl e)
                | Some (c2, os, Inr _) \<Rightarrow> add_outputs os (process_loop c2))))"
  by pat_completeness auto
termination
  by (relation "measure (\<lambda>c. length (buf_get (co_input_buf c)))")
    (auto dest!: cdec.progress [OF sym] on_message_input_buf [OF sym] on_message_input_buf
      simp: buf_advance_shrinks)

declare process_loop.simps [simp del]

text \<open>Feeding the receive buffer and decoding what it holds, the last part of \<^verbatim>\<open>process_ready_bytes\<close>.\<close>

definition receive :: "bytes \<Rightarrow> unit core_m" where
  "receive bs = cseq (cupd (\<lambda>c. c\<lparr>co_input_buf := buf_feed (co_input_buf c) bs\<rparr>)) process_loop"

text \<open>
  \<^verbatim>\<open>total_bytes_received\<close> counts modulo 2^64 and the difference to \<^verbatim>\<open>last_ack_sent\<close> is taken modulo
  2^64 as well, as in a release build; the acknowledged value is its low 32 bits.
\<close>

definition process_ready_bytes :: "bytes \<Rightarrow> unit core_m" where
  "process_ready_bytes bs =
     cseq (cupd (\<lambda>c. c\<lparr>co_total_bytes_received := co_total_bytes_received c + of_nat (length bs)\<rparr>))
    (cseq (cwith (\<lambda>c.
       cwhen (co_total_bytes_received c - co_last_ack_sent c > co_peer_ack_window_size c div 2)
         (cseq (cupd (\<lambda>c. c\<lparr>co_last_ack_sent := co_total_bytes_received c\<rparr>))
            (send_message 2 0 (message_type_id MtAck) 0
              (to_be 4 (ucast (co_total_bytes_received c AND 0xFFFFFFFF) :: u32))))))
       (receive bs))"

section \<open>Handshake\<close>

definition finish_handshake :: "server_handshake \<Rightarrow> unit core_m" where
  "finish_handshake h =
     (let (h1, remaining) = server_take_recv_buf h in
      cseq (cupd (\<lambda>c. c\<lparr>co_handshake := RoleServer h1, co_state := Ready\<rparr>))
     (cseq (cwith (\<lambda>c. send_set_chunk_size (of_nat (co_out_chunk_size c))))
     (cseq send_window_ack_size
     (cseq send_set_peer_bandwidth
        (cwhen (remaining \<noteq> []) (process_ready_bytes remaining))))))"

definition flush_handshake :: "server_handshake \<Rightarrow> unit core_m" where
  "flush_handshake h =
     (let pending = sh_send_buf h in
      if pending \<noteq> [] then
        cseq (cupd (\<lambda>c. c\<lparr>co_handshake := RoleServer (server_advance_send_buf h (length pending))\<rparr>))
       (cseq (cemit (Write pending))
          (cupd (\<lambda>c. if co_state c = Handshaking then c\<lparr>co_state := WaitC2\<rparr> else c)))
      else cupd (\<lambda>c. c\<lparr>co_handshake := RoleServer h\<rparr>))"

definition feed_handshake :: "server_handshake \<Rightarrow> bytes \<Rightarrow> unit core_m" where
  "feed_handshake h bs =
     (case server_feed_recv_buf h bs of
        (h1, Inl e) \<Rightarrow>
          cseq (cupd (\<lambda>c. c\<lparr>co_handshake := RoleServer h1, co_state := Closed\<rparr>)) (cfail (ErrHandshake e))
      | (h1, Inr _) \<Rightarrow>
          cseq (flush_handshake h1)
            (cwith (\<lambda>c. case co_handshake c of
               RoleServer h2 \<Rightarrow> cwhen (server_is_recv_complete h2) (finish_handshake h2)
             | RoleClient \<Rightarrow> cret ())))"

definition try_handshake :: "bytes \<Rightarrow> unit core_m" where
  "try_handshake bs = cwith (\<lambda>c.
     case co_handshake c of
       RoleClient \<Rightarrow> cseq (cupd (\<lambda>c. c\<lparr>co_state := Closed\<rparr>)) (cfail ErrClientHandshakeBytes)
     | RoleServer h \<Rightarrow>
         if co_state c = Handshaking \<and> bs \<noteq> [] \<and> hd bs \<noteq> 3
         then cseq (cupd (\<lambda>c. c\<lparr>co_state := Closed\<rparr>)) (cfail (ErrInvalidHandshakeVersion (hd bs)))
         else feed_handshake h bs)"

section \<open>Inputs\<close>

definition on_bytes :: "bytes \<Rightarrow> unit core_m" where
  "on_bytes bs = cwith (\<lambda>c.
     case co_state c of
       Closed \<Rightarrow> cret ()
     | Ready \<Rightarrow> process_ready_bytes bs
     | _ \<Rightarrow> try_handshake bs)"

text \<open>An error drops the outputs collected so far (\<^verbatim>\<open>?\<close> before \<^verbatim>\<open>Ok(out)\<close>); the state keeps its changes.\<close>

definition handle_input :: "core_input \<Rightarrow> rtmp_core \<Rightarrow> (rtmp_core \<times> (core_error + core_output list)) option" where
  "handle_input input c =
     map_option (\<lambda>(c', os, r). (c', case r of Inl e \<Rightarrow> Inl e | Inr _ \<Rightarrow> Inr os))
       (case input of
          Bytes bs \<Rightarrow> on_bytes bs c
        | Timeout _ \<Rightarrow> cret () c
        | Command cmd \<Rightarrow> on_command cmd c)"

section \<open>Effects of bytes\<close>

text \<open>
  What holds of the message dispatch holds of the decoding loop when it is insensitive to the receive
  buffer and the decoder, and of the bytes after the handshake when the byte counters do not matter to
  it either.
\<close>

locale loop_effects = message_effects +
  assumes buffers: "R c [] (c\<lparr>co_decoder := d, co_input_buf := b\<rparr>)"
begin

lemma loop: "crel R process_loop"
proof (rule crelI)
  fix c c' os r
  show "process_loop c = Some (c', os, r) \<Longrightarrow> R c os c'"
  proof (induction c arbitrary: c' os r rule: process_loop.induct)
    case (1 c)
    obtain d res where d: "chunk_decode (co_decoder c) (buf_get (co_input_buf c)) = (d, res)" by fastforce
    show ?case
    proof (cases res)
      case (Inl e)
      with 1(3) d show ?thesis
        by (subst (asm) process_loop.simps) (use buffers [where c = c and d = d and b = "co_input_buf c"] in auto)
    next
      case (Inr nm)
      obtain n mc where nm: "nm = (n, mc)" by fastforce
      let ?c1 = "c\<lparr>co_decoder := d, co_input_buf := buf_advance (co_input_buf c) n\<rparr>"
      have b: "R c [] ?c1" by (rule buffers)
      note res = d [symmetric] Inr [unfolded nm]
      show ?thesis
      proof (cases mc)
        case None
        from 1(3) d Inr nm None have "process_loop ?c1 = Some (c', os, r)"
          by (subst (asm) process_loop.simps) simp
        from 1(1) [OF res HOL.refl HOL.refl None this] comp [OF b] show ?thesis by fastforce
      next
        case (Some ch)
        from 1(3) d Inr nm Some obtain c2 o1 r1 where m: "on_message ch ?c1 = Some (c2, o1, r1)"
          by (subst (asm) process_loop.simps) (auto split: option.splits)
        have m': "R c o1 c2" using comp [OF b crelD [OF message m]] by simp
        show ?thesis
        proof (cases r1)
          case (Inl e)
          with 1(3) d \<open>res = Inr nm\<close> nm Some m m' show ?thesis by (subst (asm) process_loop.simps) simp
        next
          case (Inr u)
          with 1(3) d \<open>res = Inr nm\<close> nm Some m obtain o2 where
            l: "process_loop c2 = Some (c', o2, r)" and os: "os = o1 @ o2"
            by (subst (asm) process_loop.simps) (auto simp: add_outputs_def)
          from 1(2) [OF res HOL.refl HOL.refl Some m HOL.refl HOL.refl Inr l] comp [OF m'] os
          show ?thesis by simp
        qed
      qed
    qed
  qed
qed

end

locale byte_effects = loop_effects +
  assumes counters: "same_publish c c' \<Longrightarrow> co_encoder c' = co_encoder c \<Longrightarrow> co_state c' = co_state c
      \<Longrightarrow> co_handshake c' = co_handshake c \<Longrightarrow> co_out_chunk_size c' = co_out_chunk_size c \<Longrightarrow> R c [] c'"
begin

lemma counter_upd:
  "(\<And>c. same_publish c (f c) \<and> co_encoder (f c) = co_encoder c \<and> co_state (f c) = co_state c
      \<and> co_handshake (f c) = co_handshake c \<and> co_out_chunk_size (f c) = co_out_chunk_size c) \<Longrightarrow> crel R (cupd f)"
  by (rule crelI) (auto simp: cupd_def intro: counters)

lemma ready_bytes: "crel R (process_ready_bytes bs)"
  unfolding process_ready_bytes_def receive_def
  by (intro closed cwhen send_message loop counter_upd) (simp_all add: same_publish_def)

end

text \<open>
  And of all bytes in any state (and of the commands but two), when the handshake states do not matter to it either and a change of
  the outgoing chunk size is one of its steps.
\<close>

fun plain_command :: "core_command \<Rightarrow> bool" where
  "plain_command (AcceptPublish _) = False"
| "plain_command (ClientObserveMediaData _ _ _ _) = False"
| "plain_command _ = True"

locale input_effects = byte_effects +
  assumes states: "same_publish c c' \<Longrightarrow> co_encoder c' = co_encoder c \<Longrightarrow> R c [] c'"
    and handshake_write: "R c [Write w] c"
    and chunk_size: "message_encode (co_encoder c) cs (MSetChunkSize h sz) = Some (enc, w) \<Longrightarrow>
      R c [Write w] (c\<lparr>co_encoder := enc\<rparr>)"
begin

lemma upd_states: "(\<And>c. same_publish c (f c) \<and> co_encoder (f c) = co_encoder c) \<Longrightarrow> crel R (cupd f)"
  by (rule crelI) (auto simp: cupd_def intro: states)

lemma set_chunk: "crel R (send_set_chunk_size sz)"
proof -
  have "crel R (send_rtmp_message csid (set_chunk_size z))" for csid z
    by (rule crelI)
      (auto simp: send_rtmp_message_def set_chunk_size_def cpanic_def split: option.splits intro: chunk_size)
  then show ?thesis
    unfolding send_set_chunk_size_def Let_def by (intro closed upd_states) (simp_all add: same_publish_def)
qed

lemma finish: "crel R (finish_handshake h)"
  unfolding finish_handshake_def Let_def case_prod_beta send_window_ack_size_def send_set_peer_bandwidth_def
  by (intro closed cwhen upd_states set_chunk send_rtmp_message ready_bytes)
    (simp_all add: same_publish_def win_ack_size_def set_peer_bandwidth_def)

lemma feed: "crel R (feed_handshake h bs)"
proof -
  have w: "crel R (cemit (Write w))" for w
    by (rule crelI) (auto simp: cemit_def intro: handshake_write)
  have "crel R (flush_handshake h)" for h
    unfolding flush_handshake_def Let_def
    by (intro closed upd_states w) (simp_all add: same_publish_def)
  then show ?thesis
    unfolding feed_handshake_def
    by (auto split: prod.splits sum.splits handshake_role.splits
        intro!: cseq cwith cwhen finish upd_states cfail cret simp: same_publish_def)
qed

lemma bytes: "crel R (on_bytes bs)"
  unfolding on_bytes_def try_handshake_def
  by (intro cwith) (auto split: handshake_state.splits handshake_role.splits
      intro!: cret ready_bytes cseq cwith upd_states cfail feed simp: same_publish_def)

text \<open>The application's commands, but the one that accepts a publisher and the one that passes media on.\<close>

lemma accept_play: "crel R (send_accept_play sid b1 b2)"
  unfolding send_accept_play_def send_user_control_def send_on_status_def send_rtmp_sample_access_def
  by (intro cseq cwhen send_message send_command send_rtmp_message) simp

lemma close_connection: "crel R (cupd (\<lambda>c. c\<lparr>co_state := Closed, co_active_publish := None\<rparr>))"
proof (rule crelI)
  fix c c' os r
  assume "cupd (\<lambda>c. c\<lparr>co_state := Closed, co_active_publish := None\<rparr>) c = Some (c', os, r)"
  then have "os = []" and c': "c' = c\<lparr>co_active_publish := None, co_state := Closed\<rparr>"
    by (auto simp: cupd_def)
  moreover have "R (c\<lparr>co_active_publish := None\<rparr>) [] c'"
    unfolding c' by (rule states) (simp_all add: same_publish_def)
  ultimately show "R c os c'" using comp [OF deactivate] by fastforce
qed

lemma send_messages:
  "crel R (send_rtmp_message csid (win_ack_size sz))" "crel R (send_rtmp_message csid (set_peer_bandwidth sz))"
  "crel R (send_rtmp_message csid (ack sz))" "crel R (send_rtmp_message csid (MUserControl h ev))"
  by (rule send_rtmp_message; simp add: win_ack_size_def set_peer_bandwidth_def ack_def)+

lemmas senders = send_messages set_chunk send_command send_amf0 send_message accept_play
  send_connect_request_def send_create_stream_request_def send_publish_request_def send_play_request_def
  send_seek_request_def send_pause_request_def send_user_control_def send_on_status_def

lemma command: "plain_command cmd \<Longrightarrow> crel R (on_command cmd)"
  by (cases cmd rule: on_command.cases)
    (auto simp: senders replies Let_def same_publish_def abandon_pending
      split: rtmp_user_control_event.splits sum.splits rtmp_command.splits
      intro!: cseq cwith cwhen cevent upd_states close_connection)

end

end
