(* ===== verification/Rtmp_Core_Total.thy ===== *)
theory Rtmp_Core_Total
  imports Rtmp_Core
begin

text \<open>
  The connection core never panics: every method returns, with a value or an error, in every state.
  What could panic is the encoding of a message the core builds itself and the chunk stream ids it is
  written on; neither does.
\<close>

definition never_panics :: "'a core_m \<Rightarrow> bool" where
  "never_panics m \<longleftrightarrow> (\<forall>c. m c \<noteq> None)"

named_theorems total_rules \<open>methods that return in every state\<close>

lemma total_basic [total_rules]:
  "never_panics (cret v)" "never_panics (cfail e)" "never_panics (cemit x)" "never_panics (cupd f)" "never_panics (cevent ev)" "never_panics (clift g r)"
  by (auto simp: never_panics_def cret_def cfail_def cemit_def cupd_def cevent_def clift_def split: sum.splits)

lemma total_cbind [total_rules]: "never_panics m \<Longrightarrow> (\<And>v. never_panics (k v)) \<Longrightarrow> never_panics (cbind m k)"
proof -
  assume m: "never_panics m" and k: "\<And>v. never_panics (k v)"
  have "cbind m k c \<noteq> None" for c
  proof -
    obtain c1 o1 r where 1: "m c = Some (c1, o1, r)" using m [unfolded never_panics_def, rule_format, of c] by auto
    have "k v c1 \<noteq> None" for v using k [of v] by (simp add: never_panics_def)
    with 1 show ?thesis by (cases r) (auto simp: cbind_def split: option.splits)
  qed
  then show ?thesis by (simp add: never_panics_def)
qed

lemma total_cseq [total_rules]: "never_panics m \<Longrightarrow> never_panics k \<Longrightarrow> never_panics (cseq m k)"
  unfolding cseq_def by (rule total_cbind)

lemma total_cwith [total_rules]: "(\<And>c. never_panics (f c)) \<Longrightarrow> never_panics (cwith f)"
  by (auto simp: never_panics_def cwith_def)

lemma total_cignore [total_rules]: "never_panics m \<Longrightarrow> never_panics (cignore m)"
  by (auto simp: never_panics_def cignore_def split: option.splits)

lemma total_cwhen [total_rules]: "never_panics m \<Longrightarrow> never_panics (cwhen b m)"
  by (simp add: cwhen_def total_basic)

lemma total_if [total_rules]: "(b \<Longrightarrow> never_panics m) \<Longrightarrow> (\<not> b \<Longrightarrow> never_panics k) \<Longrightarrow> never_panics (if b then m else k)"
  by simp

lemma total_cfor: "(\<And>x. x \<in> set xs \<Longrightarrow> never_panics (f x)) \<Longrightarrow> never_panics (cfor f xs)"
  by (induction xs) (simp_all add: total_basic total_cseq)

section \<open>What is written encodes\<close>

lemma total_send_message [total_rules]: "never_panics (send_message csid ts t sid p)"
proof -
  have "never_panics (cchunk ch)" for ch
    by (simp add: never_panics_def cchunk_def split: prod.splits)
  then show ?thesis
    by (auto simp: send_message_def split: option.splits intro: total_rules)
qed

text \<open>AMF0 values without an embedded AMF3 value always encode.\<close>

fun avm_free :: "amf0_value \<Rightarrow> bool" where
  "avm_free (A0Object _ entries) = (\<forall>e \<in> set entries. avm_free (snd e))"
| "avm_free (A0EcmaArray entries) = (\<forall>e \<in> set entries. avm_free (snd e))"
| "avm_free (A0Array entries) = (\<forall>v \<in> set entries. avm_free v)"
| "avm_free (A0AvmPlus _) = False"
| "avm_free _ = True"

lemma ocat_defined [simp]: "(\<exists>w. ocat xs = Some w) \<longleftrightarrow> (\<forall>x \<in> set xs. \<exists>w. x = Some w)"
proof (induction xs)
  case (Cons x xs)
  then show ?case by (cases x) (auto simp: ocat_Cons)
qed simp

lemma avm_free_plain: "avm_free v \<Longrightarrow> \<exists>w. amf0_plain v = Some w"
  by (induction v rule: avm_free.induct) auto

lemma avm_free_encode:
  "avm_free v \<Longrightarrow> \<exists>w. amf0_encode v = Some w" "\<forall>v \<in> set vs. avm_free v \<Longrightarrow> \<exists>w. amf0_encode_all vs = Some w"
  by (auto simp: amf0_encode_eq_plain amf0_encode_all_eq_plain avm_free_plain)

lemma total_send_amf0 [total_rules]: "\<forall>v \<in> set vs. avm_free v \<Longrightarrow> never_panics (send_amf0 csid t sid vs)"
  using avm_free_encode(2) [of vs] by (auto simp: send_amf0_def split: option.splits intro: total_rules)

fun value_avm_free :: "amf_value \<Rightarrow> bool" where
  "value_avm_free (VAmf0 v) = avm_free v"
| "value_avm_free (VAmf3 _) = False"

fun message_avm_free :: "rtmp_message \<Rightarrow> bool" where
  "message_avm_free (MCommand _ ver _ _ obj args) = (ver = Amf0 \<and> value_avm_free obj \<and> (\<forall>v \<in> set args. value_avm_free v))"
| "message_avm_free (MData _ _ vs) = (\<forall>v \<in> set vs. value_avm_free v)"
| "message_avm_free _ = True"

lemma value_avm_free_encode: "value_avm_free v \<Longrightarrow> \<exists>w. amf_encode v = Some w"
  by (cases v) (use avm_free_encode(1) in auto)

lemma message_avm_free_encode:
  assumes "message_avm_free m"
  shows "message_encode enc c m \<noteq> None"
proof -
  have "\<exists>w. encode_message_payload m = Some w"
    using assms
    by (cases m rule: message_avm_free.cases)
      (auto simp: encode_command_def encode_amf_values_def value_avm_free_encode avm_free_encode(1))
  then show ?thesis
    by (auto simp: message_encode_def message_to_chunk_def Let_def split: option.splits prod.splits)
qed

lemma total_send_rtmp_message [total_rules]:
  assumes "csid \<in> {2, 3, 5, 6, 8}" and "message_avm_free m"
  shows "never_panics (send_rtmp_message csid m)"
proof -
  have "csid_new csid \<noteq> None" using assms(1) by (auto simp: csid_new_def)
  then show ?thesis
    using message_avm_free_encode [OF assms(2)]
    by (auto simp: never_panics_def send_rtmp_message_def split: option.splits)
qed

lemma opt_entry_avm_free [simp]: "\<forall>e \<in> set (opt_entry k x). avm_free (snd e)"
  by (auto simp: opt_entry_def split: option.splits)

fun command_avm_free :: "rtmp_command \<Rightarrow> bool" where
  "command_avm_free (CResult cmd) = (value_avm_free (rc_properties cmd) \<and> value_avm_free (rc_information cmd))"
| "command_avm_free _ = True"

lemma total_send_command [total_rules]:
  assumes "csid \<in> {2, 3, 5, 6, 8}" and "command_avm_free cmd"
  shows "never_panics (send_command csid h cmd)"
proof (cases "into_message cmd h")
  case (Inl e)
  then show ?thesis
    by (simp add: never_panics_def send_command_def clift_def cbind_def cfail_def)
next
  case (Inr m)
  have "message_avm_free m"
    using assms(2) Inr by (cases cmd) (auto simp: amf0_object_value_def ball_Un)
  then have "never_panics (send_rtmp_message csid m)" using assms(1) by (intro total_rules)
  then show ?thesis
    by (simp add: never_panics_def send_command_def Inr clift_def cbind_def cret_def split: option.splits)
qed

section \<open>Messages and commands\<close>

lemmas send_defs =
  send_connect_request_def send_create_stream_request_def send_publish_request_def
  send_play_request_def send_window_ack_size_def send_set_peer_bandwidth_def send_connect_result_def
  send_create_stream_result_def send_on_status_def send_rtmp_sample_access_def send_accept_play_def
  send_seek_request_def send_pause_request_def send_null_result_def send_on_bw_done_def
  send_user_control_def client_state_changed_def

lemma message_avm_free_control [simp]:
  "message_avm_free (win_ack_size sz)" "message_avm_free (set_peer_bandwidth sz)"
  "message_avm_free (ack n)" "message_avm_free (set_chunk_size z)"
  by (simp_all add: win_ack_size_def set_peer_bandwidth_def ack_def set_chunk_size_def)

lemma total_senders [total_rules]:
  "never_panics (send_connect_request app fv tc)" "never_panics (send_create_stream_request txn)"
  "never_panics (send_publish_request sid t name)" "never_panics (send_play_request sid t name start)"
  "never_panics send_window_ack_size" "never_panics send_set_peer_bandwidth" "never_panics (send_connect_result t)"
  "never_panics (send_create_stream_result t sid)" "never_panics (send_on_status sid level code desc)"
  "never_panics (send_rtmp_sample_access sid)" "never_panics (send_accept_play sid b1 b2)"
  "never_panics (send_seek_request sid ms)" "never_panics (send_pause_request sid p ms)"
  "never_panics (send_null_result t)" "never_panics send_on_bw_done" "never_panics (send_user_control et v)"
  "never_panics (send_set_chunk_size n)"
  unfolding send_defs send_set_chunk_size_def Let_def
  by (intro total_rules; simp add: amf0_object_value_def create_stream_result_def)+

lemma total_media [total_rules]:
  "never_panics (handle_media_input sid ts mt p)" "never_panics (flush_pending_publish_media sid)"
  "never_panics clear_pending_publish" "never_panics allocate_stream_id"
  unfolding handle_media_input_def push_pending_publish_media_def clear_pending_publish_def
  by (intro total_rules | simp add: never_panics_def flush_pending_publish_media_def allocate_stream_id_def)+

lemma total_replies [total_rules]: "never_panics (emit_result_received result)" "never_panics (emit_on_status_received status)"
  unfolding emit_result_received_def emit_on_status_received_def Let_def client_state_changed_def
  by (intro total_rules)+

lemma total_on_command: "never_panics (on_command cmd)"
  by (cases cmd rule: on_command.cases)
    (auto simp: Let_def split: rtmp_user_control_event.splits sum.splits rtmp_command.splits
      intro!: total_rules)

lemma total_inbound [total_rules]:
  "never_panics (close_stream sid)" "never_panics (start_pending_publish sid name)"
  "never_panics (emit_play_requested sid name)" "never_panics (handle_connect_command app tc txn)"
  "never_panics (handle_create_stream_command txn)" "never_panics (handle_get_stream_length_command t)"
  unfolding close_stream_def start_pending_publish_def emit_play_requested_def
    handle_connect_command_def handle_create_stream_command_def handle_get_stream_length_command_def
    Let_def case_prod_beta
  by (intro total_rules; simp add: get_stream_length_result_def)+

lemma total_unstructured [total_rules]: "never_panics (handle_unstructured_command command sid)"
  unfolding handle_unstructured_command_def Let_def handle_publish_command_def handle_play_command_def
    handle_delete_stream_command_def
  by (intro total_rules)

lemma total_on_command_message [total_rules]: "never_panics (on_command_message ver sid p)"
proof -
  have "never_panics (on_decoded_command sid command)" for command
    by (cases "parse_command command")
      (auto simp: on_decoded_command_def handle_publish_command_def handle_play_command_def
        handle_delete_stream_command_def split: rtmp_command.splits intro!: total_rules)
  then show ?thesis
    unfolding on_command_message_def by (auto split: option.splits intro!: total_rules)
qed

lemma total_control [total_rules]: "never_panics (handle_control_message ch)"
proof -
  have "never_panics (on_control m)" for m
    by (cases m rule: on_control.cases) (auto simp: Let_def intro!: total_rules)
  then show ?thesis unfolding handle_control_message_def by (intro total_rules)
qed

lemma total_ignore_amf0_error [total_rules]: "never_panics m \<Longrightarrow> never_panics (ignore_amf0_error m)"
  by (auto simp: never_panics_def ignore_amf0_error_def split: option.splits sum.splits core_error.splits)

lemma total_data [total_rules]: "never_panics (on_data_amf3 msg)" "never_panics (on_data_amf0 msg)"
  unfolding on_data_amf3_def on_data_amf0_def
  by (auto split: sum.splits option.splits intro!: total_rules)

lemma total_on_message: "never_panics (on_message msg)"
proof (induction msg rule: on_message.induct)
  case (1 msg)
  show ?case
    by (subst on_message.simps) (auto split: rtmp_message_type.splits intro!: total_rules total_cfor 1)
qed

section \<open>Bytes\<close>

lemma total_process_loop [total_rules]: "never_panics process_loop"
proof -
  have "process_loop c \<noteq> None" for c
  proof (induction c rule: process_loop.induct)
    case (1 c)
    have m: "on_message ch c1 \<noteq> None" for ch c1
      using total_on_message [of ch] by (simp add: never_panics_def)
    obtain d res where d: "chunk_decode (co_decoder c) (buf_get (co_input_buf c)) = (d, res)" by fastforce
    show ?case
    proof (cases res)
      case (Inl e)
      with d show ?thesis by (subst process_loop.simps) simp
    next
      case (Inr nm)
      obtain n mc where nm: "nm = (n, mc)" by fastforce
      let ?c1 = "c\<lparr>co_decoder := d, co_input_buf := buf_advance (co_input_buf c) n\<rparr>"
      note step = d [symmetric] Inr [unfolded nm] HOL.refl HOL.refl
      show ?thesis
      proof (cases mc)
        case None
        with d Inr nm 1(1) [OF step] show ?thesis by (subst process_loop.simps) simp
      next
        case (Some ch)
        obtain c2 o1 r1 where o: "on_message ch ?c1 = Some (c2, o1, r1)" using m [of ch ?c1] by auto
        show ?thesis
        proof (cases r1)
          case (Inl e)
          with d \<open>res = Inr nm\<close> nm Some o show ?thesis by (subst process_loop.simps) simp
        next
          case (Inr u)
          from 1(2) [OF step Some o HOL.refl HOL.refl Inr] d \<open>res = Inr nm\<close> nm Some o Inr
          show ?thesis by (subst process_loop.simps) (auto simp: add_outputs_def)
        qed
      qed
    qed
  qed
  then show ?thesis by (simp add: never_panics_def)
qed

lemma total_ready [total_rules]: "never_panics (process_ready_bytes bs)"
  unfolding process_ready_bytes_def receive_def by (intro total_rules)

lemma total_handshake [total_rules]: "never_panics (try_handshake bs)"
proof -
  have "never_panics (finish_handshake h)" "never_panics (flush_handshake h)" for h
    unfolding finish_handshake_def flush_handshake_def Let_def case_prod_beta by (intro total_rules)+
  then have "never_panics (feed_handshake h bs)" for h
    by (auto simp: feed_handshake_def split: prod.splits sum.splits handshake_role.splits intro!: total_rules)
  then show ?thesis
    unfolding try_handshake_def by (auto split: handshake_role.splits intro!: total_rules)
qed

lemma total_on_bytes: "never_panics (on_bytes bs)"
  unfolding on_bytes_def by (auto split: handshake_state.splits intro!: total_rules)

text \<open>
  C10: the core never panics: every input, whatever its bytes, is handled in every state, with outputs or
  with an error.
\<close>

theorem handle_input_total: "\<exists>c' r. handle_input i c = Some (c', r)"
  using total_on_bytes total_on_command [of cmd for cmd]
  by (cases i) (auto simp: handle_input_def never_panics_def cret_def)

end
