(* ===== verification/Rtmp_Core_Status.thy ===== *)
theory Rtmp_Core_Status
  imports Rtmp_Core_Total
begin

text \<open>
  The life of a connection: its state only moves forward, from the handshake to \<open>Ready\<close> to \<open>Closed\<close>; and the
  acknowledgements it sends while \<open>Ready\<close>.
\<close>

lemma handle_input_ok:
  "handle_input i c = Some (c', Inr os) \<longleftrightarrow>
     (case i of Bytes bs \<Rightarrow> on_bytes bs c | Timeout _ \<Rightarrow> cret () c | Command cmd \<Rightarrow> on_command cmd c)
     = Some (c', os, Inr ())"
proof -
  have "(case r of Inl e \<Rightarrow> Inl e | Inr _ \<Rightarrow> Inr x) = (Inr y :: core_error + core_output list)
      \<longleftrightarrow> r = Inr () \<and> x = y" for r :: "core_error + unit" and x y
    by (cases r) auto
  then show ?thesis by (auto simp: handle_input_def)
qed

section \<open>Forward only\<close>

fun rank :: "handshake_state \<Rightarrow> nat" where
  "rank Handshaking = 0" | "rank WaitC2 = 1" | "rank Ready = 2" | "rank Closed = 3"

lemma rank_not_closed: "s \<noteq> Closed \<Longrightarrow> rank s \<le> 2"
  by (cases s) auto

text \<open>No message and no byte after the handshake changes the state.\<close>

interpretation status: byte_effects "\<lambda>c os c'. co_state c' = co_state c"
  by unfold_locales
    (auto simp: same_session_def push_pending_publish_media_def cret_def cupd_def split: if_splits prod.splits)

lemma status_set_chunk: "crel (\<lambda>c os c'. co_state c' = co_state c) (send_set_chunk_size sz)"
proof -
  have "crel (\<lambda>c os c'. co_state c' = co_state c) (send_rtmp_message csid m)" for csid m
    by (rule crelI) (auto simp: send_rtmp_message_def cpanic_def cfail_def split: option.splits)
  then show ?thesis
    unfolding send_set_chunk_size_def Let_def by (intro status.closed) (auto simp: crel_def cupd_def)
qed

lemma status_flush: "crel (\<lambda>c os c'. co_state c' = co_state c) (flush_pending_publish_media sid)"
  by (rule crelI) (auto simp: flush_pending_publish_media_def split: if_splits)

lemma status_command:
  "cmd \<noteq> CloseConnection \<Longrightarrow> crel (\<lambda>c os c'. co_state c' = co_state c) (on_command cmd)"
proof -
  have upd: "(\<And>c. co_state (f c) = co_state c) \<Longrightarrow> crel (\<lambda>c os c'. co_state c' = co_state c) (cupd f)" for f
    by (auto simp: crel_def cupd_def)
  have ev: "crel (\<lambda>c os c'. co_state c' = co_state c) (cevent ev)" for ev
    by (auto simp: crel_def cevent_def cemit_def)
  have msg: "crel (\<lambda>c os c'. co_state c' = co_state c) (send_rtmp_message csid m)" for csid m
    by (rule crelI) (auto simp: send_rtmp_message_def cpanic_def cfail_def split: option.splits)
  show "cmd \<noteq> CloseConnection \<Longrightarrow> ?thesis"
    by (cases cmd rule: on_command.cases)
      (auto simp: Let_def msg ev send_defs status_set_chunk status_flush
        split: rtmp_user_control_event.splits sum.splits rtmp_command.splits
        intro!: status.cseq status.cwith status.cwhen status.send_command status.send_amf0
          status.send_message status.replies status.abandon_pending upd)
qed

lemma closes: "on_command CloseConnection c = Some (c', os, r) \<Longrightarrow> co_state c' = Closed \<and> co_active_publish c' = None \<and> os = [Event EvPeerClosed]"
  by (auto simp: cseq_def cbind_def cupd_def clear_pending_publish_def cevent_def cemit_def)

text \<open>Moving on without closing.\<close>

definition advances :: "rtmp_core \<Rightarrow> core_output list \<Rightarrow> rtmp_core \<Rightarrow> bool" where
  "advances c os c' \<longleftrightarrow> co_state c \<noteq> Closed \<longrightarrow> co_state c' \<noteq> Closed \<and> rank (co_state c) \<le> rank (co_state c')"

interpretation adv: effect_relation advances
  by unfold_locales (auto simp: advances_def)

lemma advI: "(\<And>c. advances c [] (f c)) \<Longrightarrow> crel advances (cupd f)"
  by (rule crelI) (auto simp: cupd_def)

lemma adv_steady: "crel (\<lambda>c os c'. co_state c' = co_state c) m \<Longrightarrow> crel advances m"
  by (auto simp: crel_def advances_def)

lemma adv_feed: 
  assumes "feed_handshake h bs c = Some (c', os, r)" and "co_state c \<noteq> Closed"
  shows "rank (co_state c) \<le> rank (co_state c')"
proof -
  obtain h1 res where f: "server_feed_recv_buf h bs = (h1, res)" by fastforce
  have fin: "crel advances (finish_handshake h)" for h
    unfolding finish_handshake_def Let_def case_prod_beta send_window_ack_size_def send_set_peer_bandwidth_def
    by (intro adv.closed advI adv_steady [OF status_set_chunk] adv_steady [OF status.send_rtmp_message]
        adv_steady [OF status.ready_bytes] adv_steady [OF status.cwhen]
        status.ready_bytes)
      (auto simp: win_ack_size_def set_peer_bandwidth_def advances_def rank_not_closed)
  have flush: "crel advances (flush_handshake h)" for h
    unfolding flush_handshake_def Let_def
    by (intro adv.closed advI) (auto simp: advances_def crel_def cemit_def)
  show ?thesis
  proof (cases res)
    case (Inl e)
    with f assms show ?thesis
      by (cases "co_state c") (auto simp: feed_handshake_def cseq_def cbind_def cupd_def cfail_def)
  next
    case (Inr u)
    have "crel advances (feed_handshake h bs)"
      unfolding feed_handshake_def f Inr
      by (auto split: handshake_role.splits simp: cwhen_def adv.cret intro!: adv.cseq adv.cwith flush fin)
    from crelD [OF this assms(1)] assms(2) show ?thesis by (simp add: advances_def)
  qed
qed

text \<open>
  C27: the connection only moves forward: handling any input leaves the state or moves it towards \<open>Ready\<close>
  and \<open>Closed\<close>.
\<close>

theorem connection_moves_forward:
  assumes "handle_input i c = Some (c', r)"
  shows "rank (co_state c) \<le> rank (co_state c')"
proof (cases i)
  case (Timeout t)
  with assms show ?thesis by (auto simp: handle_input_def cret_def)
next
  case (Command cmd)
  with assms obtain os r0 where 1: "on_command cmd c = Some (c', os, r0)"
    by (auto simp: handle_input_def)
  show ?thesis
  proof (cases "cmd = CloseConnection")
    case True
    with closes 1 have "co_state c' = Closed" by blast
    then show ?thesis by (cases "co_state c") auto
  next
    case False
    from crelD [OF status_command [OF this] 1] show ?thesis by simp
  qed
next
  case (Bytes bs)
  with assms obtain os r0 where 1: "on_bytes bs c = Some (c', os, r0)"
    by (auto simp: handle_input_def)
  show ?thesis
  proof (cases "co_state c")
    case Closed
    with 1 show ?thesis by (simp add: on_bytes_def cwith_def cret_def)
  next
    case Ready
    with 1 have "process_ready_bytes bs c = Some (c', os, r0)" by (simp add: on_bytes_def cwith_def)
    from crelD [OF status.ready_bytes this] show ?thesis by simp
  next
    case Handshaking
    then show ?thesis by simp
  next
    case WaitC2
    with 1 have "try_handshake bs c = Some (c', os, r0)" by (simp add: on_bytes_def cwith_def)
    with WaitC2 show ?thesis
      by (auto simp: try_handshake_def cwith_def cseq_def cbind_def cupd_def cfail_def
          split: handshake_role.splits dest!: adv_feed)
  qed
qed

section \<open>Acknowledgements\<close>

interpretation count: loop_effects
  "\<lambda>c os c'. co_total_bytes_received c' = co_total_bytes_received c \<and> co_last_ack_sent c' = co_last_ack_sent c"
  by unfold_locales
    (auto simp: same_session_def push_pending_publish_media_def cret_def cupd_def split: if_splits prod.splits)

definition ack_chunk :: "u64 \<Rightarrow> rtmp_chunk" where
  "ack_chunk n =
     \<lparr>chunk_stream_id = Csid 2, message_stream_id = 0, message_type = MtAck, timestamp = 0,
      payload = to_be 4 (ucast n :: u32)\<rparr>"

lemma ucast_low_32: "ucast ((n :: u64) AND 0xFFFFFFFF) = (ucast n :: u32)"
proof -
  have "(0xFFFFFFFF :: u64) = mask 32" by (simp add: mask_eq_exp_minus_1)
  then show ?thesis unfolding \<open>0xFFFFFFFF = mask 32\<close> by (intro bit_word_eqI) (auto simp: bit_simps)
qed

lemma send_ack:
  "send_message 2 0 3 0 (to_be 4 (ucast (n AND 0xFFFFFFFF) :: u32)) c =
     (let (enc, w) = encode_raw_chunk (co_encoder c) (ack_chunk n) in Some (c\<lparr>co_encoder := enc\<rparr>, [Write w], Inr ()))"
  by (simp add: send_message_def csid_new_def from_type_id_def clift_def cbind_def cret_def cchunk_def
      ack_chunk_def ucast_low_32 split: prod.splits)

text \<open>
  C26: in the \<open>Ready\<close> state every byte is counted, modulo 2^64, and when more than half of the peer's window is
  unacknowledged the first thing written is an Acknowledgement of the low 32 bits of the count; otherwise
  none is written before the messages are handled.
\<close>

theorem ready_bytes_acknowledged:
  assumes "handle_input (Bytes bs) c = Some (c', Inr os)" and "co_state c = Ready"
  shows "let n = co_total_bytes_received c + of_nat (length bs) in
    co_total_bytes_received c' = n
    \<and> (if n - co_last_ack_sent c > co_peer_ack_window_size c div 2
       then co_last_ack_sent c' = n
         \<and> (\<exists>os'. os = Write (snd (encode_raw_chunk (co_encoder c) (ack_chunk n))) # os')
       else co_last_ack_sent c' = co_last_ack_sent c)"
proof -
  define n where "n = co_total_bytes_received c + of_nat (length bs)"
  from assms(1,2) have run: "process_ready_bytes bs c = Some (c', os, Inr ())"
    by (simp add: handle_input_ok on_bytes_def cwith_def)
  let ?c1 = "c\<lparr>co_total_bytes_received := n\<rparr>"
  obtain enc w where e: "encode_raw_chunk (co_encoder c) (ack_chunk n) = (enc, w)" by fastforce
  let ?due = "n - co_last_ack_sent c > co_peer_ack_window_size c div 2"
  let ?c2 = "if ?due then ?c1\<lparr>co_last_ack_sent := n, co_encoder := enc\<rparr> else ?c1"
  from run e obtain c3 os' where c3: "c3 = ?c2\<lparr>co_input_buf := buf_feed (co_input_buf c) bs\<rparr>"
    and loop: "process_loop c3 = Some (c', os', Inr ())" and os: "os = (if ?due then [Write w] else []) @ os'"
    unfolding process_ready_bytes_def receive_def
    by (cases ?due)
      (auto simp: cseq_def cbind_def cupd_def cwith_def cwhen_def cret_def send_ack n_def split: option.splits)
  from crelD [OF count.loop loop] e os show ?thesis
    unfolding n_def [symmetric] Let_def by (simp add: c3)
qed

lemma lone_byte:
  assumes "buf_get (co_input_buf c) = [0]"
  shows "process_loop c = Some (c, [], Inr ())"
proof -
  have "chunk_decode d [0] = (d, Inl InsufficientBuffer)" for d
    by (simp add: chunk_decode_def decode_chunk_basic_header_def read_u8_def check_buffer_size_def
        sbind_def Let_def)
  with assms show ?thesis by (subst process_loop.simps) simp
qed

theorem ready_bytes_acknowledged_witness:
  "\<exists>c' os'. handle_input (Bytes [0]) (core_new_client\<lparr>co_peer_ack_window_size := 0\<rparr>) =
       Some (c', Inr (Write (snd (encode_raw_chunk (co_encoder core_new_client) (ack_chunk 1))) # os'))
     \<and> co_last_ack_sent c' = 1"
proof -
  let ?c = "core_new_client\<lparr>co_peer_ack_window_size := 0\<rparr>"
  have r: "co_state ?c = Ready" "buf_get (co_input_buf ?c) = []" by (simp_all add: core_new_client_def core_new_def buf_defs)
  have b: "buf_get (buf_feed buf_default [0]) = [0]" by (simp add: buf_defs)
  obtain c' res where h: "handle_input (Bytes [0]) ?c = Some (c', res)" using handle_input_total by blast
  have "\<exists>os. res = Inr os"
    using h send_ack [of 1 "?c\<lparr>co_total_bytes_received := 1, co_last_ack_sent := 1\<rparr>"] b
    by (auto simp: handle_input_def on_bytes_def cwith_def r process_ready_bytes_def receive_def cseq_def cbind_def cupd_def
        cwhen_def core_new_client_def core_new_def lone_byte split: prod.splits)
  then obtain os where "handle_input (Bytes [0]) ?c = Some (c', Inr os)" using h by blast
  from ready_bytes_acknowledged [OF this r(1)] this show ?thesis
    by (auto simp: core_new_client_def core_new_def)
qed

theorem connection_moves_forward_witness:
  "\<exists>c' r. handle_input (Command CloseConnection) core_new = Some (c', r)
     \<and> rank (co_state core_new) \<le> rank (co_state c') \<and> co_state c' = Closed"
proof -
  obtain c' os r where 1: "on_command CloseConnection core_new = Some (c', os, r)"
    by (auto simp: cseq_def cbind_def cupd_def clear_pending_publish_def cevent_def cemit_def)
  then have h: "handle_input (Command CloseConnection) core_new = Some (c', case r of Inl e \<Rightarrow> Inl e | Inr _ \<Rightarrow> Inr os)"
    by (simp add: handle_input_def)
  from connection_moves_forward [OF h] closes [OF 1] h show ?thesis by blast
qed

end
