(* ===== verification/Rtmp_Core_Properties.thy ===== *)
theory Rtmp_Core_Properties
  imports Rtmp_Core_Total "HOL-Library.Sublist"
begin

text \<open>
  The properties of the connection core: it never panics, media reaches the application only after the
  publisher was accepted, media waiting for that decision is bounded and delivered in order, a closed
  connection stays closed, and bytes received are acknowledged.
\<close>

section \<open>Runs\<close>

fun core_run :: "rtmp_core \<Rightarrow> core_input list \<Rightarrow> (rtmp_core \<times> (core_error + core_output list) list) option" where
  "core_run c [] = Some (c, [])"
| "core_run c (i # is) =
     (case handle_input i c of
        None \<Rightarrow> None
      | Some (c1, r) \<Rightarrow> map_option (\<lambda>(c2, rs). (c2, r # rs)) (core_run c1 is))"

definition run_input :: "core_input \<Rightarrow> unit core_m" where
  "run_input i = (case i of Bytes bs \<Rightarrow> on_bytes bs | Timeout _ \<Rightarrow> cret () | Command cmd \<Rightarrow> on_command cmd)"

lemma handle_input_Some:
  assumes "handle_input i c = Some (c', r)"
  obtains os r0 where "run_input i c = Some (c', os, r0)" "\<And>os'. r = Inr os' \<Longrightarrow> os' = os"
proof -
  have "handle_input i c = map_option (\<lambda>(c', os, r). (c', case r of Inl e \<Rightarrow> Inl e | Inr _ \<Rightarrow> Inr os)) (run_input i c)"
    by (simp add: handle_input_def run_input_def split: core_input.splits)
  with assms obtain os r0 where "run_input i c = Some (c', os, r0)" "r = (case r0 of Inl e \<Rightarrow> Inl e | Inr _ \<Rightarrow> Inr os)"
    by auto
  then show thesis by (intro that) (auto split: sum.splits)
qed

section \<open>Media only after acceptance\<close>

definition media_of :: "core_output list \<Rightarrow> u32 set" where
  "media_of os = {sid. \<exists>ts mt p. Event (EvMediaData sid ts mt p) \<in> set os}"

definition gated :: "rtmp_core \<Rightarrow> core_output list \<Rightarrow> rtmp_core \<Rightarrow> bool" where
  "gated c os c' \<longleftrightarrow>
     media_of os \<subseteq> set_option (co_active_publish c)
     \<and> set_option (co_active_publish c') \<subseteq> set_option (co_active_publish c)"

lemma media_of_simps [simp]:
  "media_of [] = {}" "media_of (os @ os') = media_of os \<union> media_of os'"
  "media_of [Write w] = {}" "media_of [Event (EvMediaData sid ts mt p)] = {sid}"
  by (auto simp: media_of_def)

lemma media_of_other: "\<not> is_media_event ev \<Longrightarrow> media_of [Event ev] = {}"
  by (auto simp: media_of_def)

interpretation gate: input_effects gated
  by unfold_locales
    (auto simp: gated_def same_publish_def media_of_other push_pending_publish_media_def cret_def cupd_def
      split: if_splits prod.splits)

section \<open>The waiting queue\<close>

lemma pending_inv_cong: "same_publish c c' \<Longrightarrow> pending_inv c' = pending_inv c"
  and pending_inv_simps [simp]: "pending_inv (c\<lparr>co_encoder := enc\<rparr>) = pending_inv c"
    "pending_inv (c\<lparr>co_active_publish := a\<rparr>) = pending_inv c"
    "pending_inv (c\<lparr>co_decoder := d, co_input_buf := b\<rparr>) = pending_inv c"
  by (simp_all add: pending_inv_def same_publish_def)

interpretation queue: input_effects "\<lambda>c os c'. pending_inv c \<longrightarrow> pending_inv c'"
  by unfold_locales (auto simp: pending_inv_cong intro: push_pending_inv)

text \<open>A command written to the peer changes the encoder only.\<close>

lemma send_command_frame:
  assumes "send_command csid h cmd c = Some (c', os, r)"
  obtains enc where "c' = c\<lparr>co_encoder := enc\<rparr>" "\<forall>x \<in> set os. \<exists>w. x = Write w"
proof -
  have "\<exists>enc. c' = c\<lparr>co_encoder := enc\<rparr> \<and> (\<forall>x \<in> set os. \<exists>w. x = Write w)"
  proof (cases "into_message cmd h")
    case (Inl e)
    with assms have "c' = c\<lparr>co_encoder := co_encoder c\<rparr>" "os = []"
      by (auto simp: send_command_def clift_def cbind_def cfail_def)
    then show ?thesis by (intro exI [of _ "co_encoder c"]) simp
  next
    case (Inr m)
    with assms have "send_rtmp_message csid m c = Some (c', os, r)"
      by (simp add: send_command_def clift_def cbind_def cret_def split: option.splits prod.splits)
    then show ?thesis
      by (auto simp: send_rtmp_message_def cpanic_def cfail_def split: option.splits prod.splits)
  qed
  then show thesis using that by blast
qed

lemma accept_publish_parts:
  assumes "on_command (AcceptPublish sid) c = Some (c', os, r)"
  obtains w enc where
    "os = (if co_pending_publish c = Some sid then map pending_event (co_pending_media c) else []) @ w"
    "\<forall>x \<in> set w. \<exists>b. x = Write b"
    "c' = (if co_pending_publish c = Some sid
           then c\<lparr>co_active_publish := Some sid, co_pending_publish := None, co_pending_media := [],
                  co_pending_media_bytes := drained_bytes (co_pending_media_bytes c) (co_pending_media c)\<rparr>
           else c\<lparr>co_active_publish := Some sid\<rparr>)\<lparr>co_encoder := enc\<rparr>"
proof -
  let ?c1 = "c\<lparr>co_active_publish := Some sid\<rparr>"
  let ?c2 = "if co_pending_publish c = Some sid
           then c\<lparr>co_active_publish := Some sid, co_pending_publish := None, co_pending_media := [],
                  co_pending_media_bytes := drained_bytes (co_pending_media_bytes c) (co_pending_media c)\<rparr>
           else c\<lparr>co_active_publish := Some sid\<rparr>"
  let ?os = "if co_pending_publish c = Some sid then map pending_event (co_pending_media c) else []"
  have f: "flush_pending_publish_media sid ?c1 = Some (?c2, ?os, Inr ())"
    by (simp add: flush_pending_publish_media_def)
  from assms obtain w where
    w: "send_on_status sid ''status'' ''NetStream.Publish.Start'' ''Start publishing.'' ?c2 = Some (c', w, r)"
    and os: "os = ?os @ w"
    by (simp add: cseq_def cbind_def cupd_def f split: option.splits prod.splits)
  from w [unfolded send_on_status_def] obtain enc where
    "c' = ?c2\<lparr>co_encoder := enc\<rparr>" "\<forall>x \<in> set w. \<exists>b. x = Write b"
    by (rule send_command_frame)
  with os show thesis by (intro that)
qed

lemma media_of_writes [simp]: "\<forall>x \<in> set w. \<exists>b. x = Write b \<Longrightarrow> media_of w = {}"
  by (auto simp: media_of_def)

lemma media_of_pending: "media_of (map pending_event q) = pm_stream_id ` set q"
  by (force simp: media_of_def pending_event_def)

text \<open>
  The specification of admission: the stream that the application accepted last, until it closes the
  connection; and the media that the application passes through itself.
\<close>

fun admit :: "u32 option \<Rightarrow> core_input \<Rightarrow> u32 option" where
  "admit a (Command (AcceptPublish sid)) = Some sid"
| "admit a (Command CloseConnection) = None"
| "admit a _ = a"

definition observes :: "core_input \<Rightarrow> u32 set" where
  "observes i = {sid. \<exists>ts mt p. i = Command (ClientObserveMediaData sid ts mt p)}"

lemma admit_other:
  "(\<And>sid. i \<noteq> Command (AcceptPublish sid)) \<Longrightarrow> i \<noteq> Command CloseConnection \<Longrightarrow> admit a i = a"
  by (cases "(a, i)" rule: admit.cases) auto

lemma run_input_gated:
  assumes "run_input i c = Some (c', os, r)" and inv: "pending_inv c"
  shows "pending_inv c' \<and> media_of os \<subseteq> set_option (admit (co_active_publish c) i) \<union> observes i
    \<and> set_option (co_active_publish c') \<subseteq> set_option (admit (co_active_publish c) i)"
proof -
  consider (accept) sid where "i = Command (AcceptPublish sid)" | (close) "i = Command CloseConnection"
    | (observe) sid ts mt p where "i = Command (ClientObserveMediaData sid ts mt p)"
    | (other) "\<And>sid. i \<noteq> Command (AcceptPublish sid)" "i \<noteq> Command CloseConnection"
        "\<And>sid ts mt p. i \<noteq> Command (ClientObserveMediaData sid ts mt p)" by blast
  then show ?thesis
  proof cases
    case accept
    with assms(1) have "on_command (AcceptPublish sid) c = Some (c', os, r)" by (simp add: run_input_def)
    then show ?thesis
    proof (rule accept_publish_parts)
      fix w enc
      let ?p = "co_pending_publish c = Some sid"
      assume os: "os = (if ?p then map pending_event (co_pending_media c) else []) @ w"
        and w: "\<forall>x \<in> set w. \<exists>b. x = Write b"
        and c': "c' = (if ?p
          then c\<lparr>co_active_publish := Some sid, co_pending_publish := None, co_pending_media := [],
                 co_pending_media_bytes := drained_bytes (co_pending_media_bytes c) (co_pending_media c)\<rparr>
          else c\<lparr>co_active_publish := Some sid\<rparr>)\<lparr>co_encoder := enc\<rparr>"
      have "pm_stream_id ` set (co_pending_media c) \<subseteq> {sid}" if ?p
        using inv that by (auto simp: pending_inv_def)
      then have "media_of os \<subseteq> {sid}"
        using os w by (auto simp: media_of_pending)
      moreover have "pending_inv c'"
        using inv by (auto simp: c' pending_inv_def drained_bytes_all)
      moreover have "co_active_publish c' = Some sid" by (simp add: c')
      ultimately show ?thesis by (auto simp: accept)
    qed
  next
    case close
    with assms show ?thesis
      by (auto simp: run_input_def cseq_def cbind_def cupd_def clear_pending_publish_def cevent_def
          cemit_def media_of_def)
  next
    case observe
    with assms show ?thesis
      by (auto simp: run_input_def cevent_def cemit_def observes_def)
  next
    case other
    have plain: "plain_command cmd" if "i = Command cmd" for cmd
      using that other by (cases cmd) auto
    have "crel gated (run_input i)"
      by (cases i) (auto simp: run_input_def gate.bytes gate.cret plain intro!: gate.command)
    moreover have "crel (\<lambda>c os c'. pending_inv c \<longrightarrow> pending_inv c') (run_input i)"
      by (cases i) (auto simp: run_input_def queue.bytes queue.cret plain intro!: queue.command)
    ultimately show ?thesis
      using assms admit_other [OF other(1,2)] by (auto simp: gated_def dest!: crelD)
  qed
qed

lemma core_run_gated:
  assumes "core_run c is = Some (c', rs)" and "pending_inv c"
    and "set_option (co_active_publish c) \<subseteq> set_option a"
  shows "pending_inv c' \<and> length rs = length is
    \<and> (\<forall>k os. k < length is \<longrightarrow> rs ! k = Inr os \<longrightarrow>
          media_of os \<subseteq> set_option (foldl admit a (take (Suc k) is)) \<union> observes (is ! k))
    \<and> set_option (co_active_publish c') \<subseteq> set_option (foldl admit a is)"
  using assms
proof (induction "is" arbitrary: c a rs)
  case (Cons i "is")
  from Cons.prems(1) obtain c1 r rs' where h: "handle_input i c = Some (c1, r)"
    and run: "core_run c1 is = Some (c', rs')" and rs: "rs = r # rs'"
    by (auto split: option.splits prod.splits)
  from h obtain os0 r0 where i: "run_input i c = Some (c1, os0, r0)" and r: "\<And>os'. r = Inr os' \<Longrightarrow> os' = os0"
    by (rule handle_input_Some) blast
  have sub: "set_option (admit x i) \<subseteq> set_option (admit y i)" if "set_option x \<subseteq> set_option y" for x y
    using that by (cases "(x, i)" rule: admit.cases) auto
  note g = run_input_gated [OF i Cons.prems(2)] and s = sub [OF Cons.prems(3)]
  from g s have a1: "set_option (co_active_publish c1) \<subseteq> set_option (admit a i)" by blast
  note IH = Cons.IH [OF run _ a1] g
  show ?case
  proof (intro conjI allI impI)
    fix k os
    assume k: "k < length (i # is)" and "rs ! k = Inr os"
    then show "media_of os \<subseteq> set_option (foldl admit a (take (Suc k) (i # is))) \<union> observes ((i # is) ! k)"
      using IH g s r rs by (cases k) (auto simp del: admit.simps)
  qed (use IH rs in auto)
qed simp

text \<open>
  C1: media reaches the application only for a stream that it admitted: when handling the k-th input of
  any run produces a media event for a stream, then that stream is the one accepted last among the
  inputs so far, with no closing of the connection since, or the application passed this media in itself.
\<close>

theorem media_only_after_acceptance:
  assumes "core_run core_new is = Some (c, rs)" and "k < length is" and "rs ! k = Inr os"
    and "Event (EvMediaData sid ts mt p) \<in> set os"
  shows "foldl admit None (take (Suc k) is) = Some sid
    \<or> (\<exists>ts mt p. is ! k = Command (ClientObserveMediaData sid ts mt p))"
proof -
  have "pending_inv core_new" "set_option (co_active_publish core_new) \<subseteq> set_option None"
    by (simp_all add: core_new_def)
  from core_run_gated [OF assms(1) this] assms(2,3) have
    "media_of os \<subseteq> set_option (foldl admit None (take (Suc k) is)) \<union> observes (is ! k)" by blast
  moreover have "sid \<in> media_of os" using assms(4) by (auto simp: media_of_def)
  ultimately show ?thesis by (auto simp: observes_def)
qed

text \<open>
  C22: in every state that a run of the core reaches, the queue of media waiting for a decision belongs
  to the pending publish request, its byte counter is exact, and it holds at most 256 entries and 8 MiB
  unless all its entries but the last are sequence headers; every single entry is at most 8 MiB.
\<close>

theorem pending_media_bounded:
  assumes "core_run core_new is = Some (c, rs)"
  shows "co_pending_media_bytes c = (\<Sum>x \<leftarrow> co_pending_media c. length (pm_payload x))
    \<and> (\<forall>x \<in> set (co_pending_media c). co_pending_publish c = Some (pm_stream_id x)
         \<and> length (pm_payload x) \<le> 8 * 1024 * 1024)
    \<and> (length (co_pending_media c) \<le> 256 \<and> co_pending_media_bytes c \<le> 8 * 1024 * 1024
       \<or> (\<forall>x \<in> set (butlast (co_pending_media c)). pm_is_sequence_header x))"
proof -
  have "pending_inv core_new" "set_option (co_active_publish core_new) \<subseteq> set_option None"
    by (simp_all add: core_new_def)
  from core_run_gated [OF assms this] have "pending_inv c" by blast
  then show ?thesis
    by (auto simp: pending_inv_def queue_bounded_def pending_bytes_def max_pending_publish_media_events_def
        max_pending_publish_media_bytes_def)
qed

theorem media_only_after_acceptance_witness:
  "\<exists>c os. core_run core_new [Command (ClientObserveMediaData 1 0 RmData [])] = Some (c, [Inr os])
     \<and> Event (EvMediaData 1 0 RmData []) \<in> set os
     \<and> (case foldl admit None (take 1 [Command (ClientObserveMediaData 1 0 RmData [])]) of
          Some sid \<Rightarrow> sid = 1
        | None \<Rightarrow> (\<exists>ts mt p. Command (ClientObserveMediaData 1 0 RmData []) = Command (ClientObserveMediaData 1 ts mt p)))"
proof -
  let ?i = "Command (ClientObserveMediaData 1 0 RmData [])"
  have run: "core_run core_new [?i] = Some (core_new, [Inr [Event (EvMediaData 1 0 RmData [])]])"
    by (simp add: handle_input_def cevent_def cemit_def)
  from media_only_after_acceptance [OF run, of 0 "[Event (EvMediaData 1 0 RmData [])]" 1 0 RmData "[]"] run
  show ?thesis by auto
qed

theorem pending_media_bounded_witness:
  "\<exists>c rs. core_run core_new [Timeout 0, Command CloseConnection] = Some (c, rs)
     \<and> co_pending_media_bytes c = (\<Sum>x \<leftarrow> co_pending_media c. length (pm_payload x))"
proof -
  obtain c rs where run: "core_run core_new [Timeout 0, Command CloseConnection] = Some (c, rs)"
    by (auto simp: handle_input_def cret_def cseq_def cbind_def cupd_def clear_pending_publish_def cevent_def cemit_def)
  from pending_media_bounded [OF run] run show ?thesis by blast
qed

section \<open>No media is lost while it waits\<close>

lemma subseq_remove_at: "subseq (remove_at i q) q"
proof -
  have "subseq (drop 1 (drop i q)) (drop i q)"
    by (intro suffix_imp_subseq suffix_drop)
  from list_emb_append_mono [OF subseq_order.order_refl this, of "take i q"] show ?thesis
    by (simp add: remove_at_def)
qed

lemma evict_subseq: "evict l q n = (q', n') \<Longrightarrow> subseq q' q"
proof (induction l q n arbitrary: q' n' rule: evict.induct)
  case (1 l q n)
  let ?over = "length q \<ge> max_pending_publish_media_events \<or> n + l > max_pending_publish_media_bytes"
  show ?case
  proof (cases "?over \<and> rposition (\<lambda>x. \<not> pm_is_sequence_header x) q \<noteq> None")
    case False
    then have "evict l q n = (q, n)" by (subst evict.simps) auto
    with 1(2) show ?thesis by simp
  next
    case True
    then obtain i where i: "rposition (\<lambda>x. \<not> pm_is_sequence_header x) q = Some i" by auto
    with True 1(2) have "evict l (remove_at i q) (n - length (pm_payload (q ! i))) = (q', n')"
      by (subst (asm) evict.simps) simp
    from 1(1) [OF _ i this] True show ?thesis by (blast intro: subseq_order.trans subseq_remove_at)
  qed
qed

text \<open>
  When media arrives for the pending publish request, it is queued last; room for it is made by
  dropping other entries only when it does not fit, and sequence headers are never dropped.
\<close>

lemma queued_media_keeps_sequence_headers:
  assumes "co_active_publish c \<noteq> Some sid" and "co_pending_publish c = Some sid" and "pending_inv c"
    and "length p \<le> 8 * 1024 * 1024"
  shows "\<exists>c' q. handle_media_input sid ts mt p c = Some (c', [], Inr ())
    \<and> co_pending_media c' = q @ [\<lparr>pm_stream_id = sid, pm_timestamp_ms = ts, pm_media_type = mt, pm_payload = p,
        pm_is_sequence_header = is_sequence_header mt p\<rparr>]
    \<and> subseq q (co_pending_media c)
    \<and> (\<forall>x \<in> set (co_pending_media c). pm_is_sequence_header x \<longrightarrow> x \<in> set q)
    \<and> (length (co_pending_media c) < 256 \<and> co_pending_media_bytes c + length p \<le> 8 * 1024 * 1024
       \<longrightarrow> q = co_pending_media c)"
proof -
  obtain q n where e: "evict (length p) (co_pending_media c) (co_pending_media_bytes c) = (q, n)" by fastforce
  have b: "co_pending_media_bytes c = pending_bytes (co_pending_media c)" using assms(3) by (simp add: pending_inv_def)
  have "subseq q (co_pending_media c)"
    using evict_subseq [OF e] .
  moreover have "length (co_pending_media c) < 256 \<and> co_pending_media_bytes c + length p \<le> 8 * 1024 * 1024
      \<longrightarrow> q = co_pending_media c"
    using e by (auto simp: evict.simps max_pending_publish_media_events_def max_pending_publish_media_bytes_def)
  ultimately show ?thesis
    using assms e evict_spec [OF e b]
    by (auto simp: handle_media_input_def cwith_def push_pending_publish_media_def cupd_def
        max_pending_publish_media_bytes_def)
qed

definition pending_entry :: "u32 \<Rightarrow> u32 \<times> rtmp_media_type \<times> bytes \<Rightarrow> pending_publish_media" where
  "pending_entry sid m = (case m of (ts, mt, p) \<Rightarrow>
     \<lparr>pm_stream_id = sid, pm_timestamp_ms = ts, pm_media_type = mt, pm_payload = p,
      pm_is_sequence_header = is_sequence_header mt p\<rparr>)"

lemma media_fits:
  assumes "co_pending_publish c = Some sid" and "co_active_publish c \<noteq> Some sid"
    and "co_pending_media_bytes c = pending_bytes (co_pending_media c)"
    and "length (co_pending_media c) + length ms \<le> 256"
    and "pending_bytes (co_pending_media c @ map (pending_entry sid) ms) \<le> 8 * 1024 * 1024"
  shows "cfor (\<lambda>(ts, mt, p). handle_media_input sid ts mt p) ms c =
    Some (c\<lparr>co_pending_media := co_pending_media c @ map (pending_entry sid) ms,
            co_pending_media_bytes := pending_bytes (co_pending_media c @ map (pending_entry sid) ms)\<rparr>, [], Inr ())"
  using assms
proof (induction ms arbitrary: c)
  case Nil
  then show ?case by (cases c) (simp add: cret_def)
next
  case (Cons m ms)
  obtain ts mt p where m: "m = (ts, mt, p)" by (cases m)
  let ?c1 = "c\<lparr>co_pending_media := co_pending_media c @ [pending_entry sid m],
      co_pending_media_bytes := pending_bytes (co_pending_media c @ [pending_entry sid m])\<rparr>"
  have l: "length p \<le> 8 * 1024 * 1024" using Cons.prems(5) by (simp add: m pending_entry_def)
  have "handle_media_input sid ts mt p c = Some (?c1, [], Inr ())"
    using Cons.prems(1-5) l
    by (simp add: handle_media_input_def cwith_def push_pending_publish_media_def cupd_def evict.simps m
        pending_entry_def max_pending_publish_media_events_def max_pending_publish_media_bytes_def)
  moreover have "cfor (\<lambda>(ts, mt, p). handle_media_input sid ts mt p) ms ?c1 =
    Some (?c1\<lparr>co_pending_media := co_pending_media ?c1 @ map (pending_entry sid) ms,
            co_pending_media_bytes := pending_bytes (co_pending_media ?c1 @ map (pending_entry sid) ms)\<rparr>, [], Inr ())"
    by (rule Cons.IH) (use Cons.prems in auto)
  ultimately show ?case by (simp add: m cseq_def cbind_def)
qed

lemma send_on_status_writes:
  "\<exists>enc w. send_on_status sid level code desc c = Some (c\<lparr>co_encoder := enc\<rparr>, [Write w], Inr ())"
proof -
  let ?cmd = "COnStatus \<lparr>oc_level = level, oc_code = code, oc_description = Some desc, oc_details = None\<rparr>"
  obtain m where m: "into_message ?cmd (stream_header sid) = Inr m" "message_avm_free m"
    by (simp add: amf0_object_value_def ball_Un)
  then show ?thesis
    using message_avm_free_encode [OF m(2), of "co_encoder c" "Csid 5"]
    by (auto simp: send_on_status_def send_command_def clift_def cbind_def cret_def send_rtmp_message_def csid_new_def
        simp del: into_message.simps split: option.splits)
qed

lemma accept_publish_pending:
  assumes "co_pending_publish c = Some sid"
  obtains c2 w where
    "handle_input (Command (AcceptPublish sid)) c = Some (c2, Inr (map pending_event (co_pending_media c) @ [Write w]))"
    "co_active_publish c2 = Some sid" "co_pending_publish c2 = None" "co_pending_media c2 = []"
proof -
  let ?c = "c\<lparr>co_active_publish := Some sid, co_pending_media := [],
      co_pending_media_bytes := drained_bytes (co_pending_media_bytes c) (co_pending_media c), co_pending_publish := None\<rparr>"
  obtain enc w where s: "send_on_status sid ''status'' ''NetStream.Publish.Start'' ''Start publishing.'' ?c =
      Some (?c\<lparr>co_encoder := enc\<rparr>, [Write w], Inr ())"
    using send_on_status_writes by blast
  have "on_command (AcceptPublish sid) c =
      Some (?c\<lparr>co_encoder := enc\<rparr>, map pending_event (co_pending_media c) @ [Write w], Inr ())"
    using assms s
    by (simp add: cseq_def cbind_def cupd_def flush_pending_publish_media_def)
  then show thesis by (intro that [of "?c\<lparr>co_encoder := enc\<rparr>" w]) (simp_all add: handle_input_def)
qed

text \<open>
  C15: the media a publisher sends while its request is pending, at most 256 messages of at most 8 MiB in
  all, produces nothing until the application accepts the publisher; then all of it is delivered, in
  order and unchanged, before the reply is written, and the stream is active with nothing pending.
\<close>

theorem waiting_media_delivered_in_order:
  assumes "co_pending_publish c = Some sid" and "co_active_publish c \<noteq> Some sid"
    and "co_pending_media c = []" and "co_pending_media_bytes c = 0"
    and "length ms \<le> 256" and "(\<Sum>(ts, mt, p) \<leftarrow> ms. length p) \<le> 8 * 1024 * 1024"
  shows "\<exists>c1 c2 w. cfor (\<lambda>(ts, mt, p). handle_media_input sid ts mt p) ms c = Some (c1, [], Inr ())
    \<and> handle_input (Command (AcceptPublish sid)) c1 =
        Some (c2, Inr (map (\<lambda>(ts, mt, p). Event (EvMediaData sid ts mt p)) ms @ [Write w]))
    \<and> co_active_publish c2 = Some sid \<and> co_pending_publish c2 = None \<and> co_pending_media c2 = []"
proof -
  have sum: "pending_bytes (map (pending_entry sid) ms) = (\<Sum>(ts, mt, p) \<leftarrow> ms. length p)"
    by (induction ms) (auto simp: pending_entry_def)
  let ?c1 = "c\<lparr>co_pending_media := co_pending_media c @ map (pending_entry sid) ms,
            co_pending_media_bytes := pending_bytes (co_pending_media c @ map (pending_entry sid) ms)\<rparr>"
  have 1: "cfor (\<lambda>(ts, mt, p). handle_media_input sid ts mt p) ms c = Some (?c1, [], Inr ())"
    by (rule media_fits) (use assms sum in simp_all)
  have "co_pending_publish ?c1 = Some sid" using assms(1) by simp
  then obtain c2 w where 2: "handle_input (Command (AcceptPublish sid)) ?c1 =
      Some (c2, Inr (map pending_event (co_pending_media ?c1) @ [Write w]))"
    "co_active_publish c2 = Some sid" "co_pending_publish c2 = None" "co_pending_media c2 = []"
    by (rule accept_publish_pending)
  have "map pending_event (co_pending_media ?c1) = map (\<lambda>(ts, mt, p). Event (EvMediaData sid ts mt p)) ms"
    using assms(3) by (auto simp: pending_event_def pending_entry_def)
  with 1 2 show ?thesis by metis
qed

definition example_publisher :: rtmp_core where
  "example_publisher = core_new_client\<lparr>co_pending_publish := Some 7\<rparr>"

lemma example_publisher_fields [simp]:
  "co_pending_publish example_publisher = Some 7" "co_active_publish example_publisher = None"
  "co_pending_media example_publisher = []" "co_pending_media_bytes example_publisher = 0"
  by (simp_all add: example_publisher_def core_new_client_def core_new_def)

lemma queued_media_keeps_sequence_headers_witness:
  "\<exists>c'. handle_media_input 7 40 RmAudio [0xAF, 0] example_publisher = Some (c', [], Inr ())
     \<and> length (co_pending_media c') = 1"
  using queued_media_keeps_sequence_headers [of example_publisher 7 "[0xAF, 0]" 40 RmAudio] by auto

theorem waiting_media_delivered_in_order_witness:
  "\<exists>c1 c2 w. cfor (\<lambda>(ts, mt, p). handle_media_input 7 ts mt p) [(0, RmVideo, [0x17, 0]), (40, RmAudio, [0xAF, 1])]
       example_publisher = Some (c1, [], Inr ())
     \<and> handle_input (Command (AcceptPublish 7)) c1 = Some (c2,
         Inr [Event (EvMediaData 7 0 RmVideo [0x17, 0]), Event (EvMediaData 7 40 RmAudio [0xAF, 1]), Write w])"
  using waiting_media_delivered_in_order
    [of example_publisher 7 "[(0, RmVideo, [0x17, 0]), (40, RmAudio, [0xAF, 1])]"] by auto

end
