(* ===== verification/Rtmp_Core_Handshake.thy ===== *)
theory Rtmp_Core_Handshake
  imports Rtmp_Core_Status Rtmp_Core_Properties Rtmp_Message_Roundtrip
begin

text \<open>
  The server core and the handshake machine it owns: however a client cuts its handshake into reads,
  the core writes what the machine writes and, once C2 is complete, its first three control messages.
\<close>

section \<open>The machine, with its send buffer emptied after every read\<close>

definition server_machine :: "bytes \<Rightarrow> server_handshake \<times> (error_kind + unit)" where
  "server_machine p = server_feed_recv_buf (server_handshake_new LenientSeededS1) p"

definition sent_before :: "bytes \<Rightarrow> server_handshake \<times> 'r \<Rightarrow> server_handshake \<times> 'r" where
  "sent_before x sr = (fst sr\<lparr>sh_send_buf := x @ sh_send_buf (fst sr)\<rparr>, snd sr)"

lemma p2_sent_before:
  "server_handle_phase_p2 (s\<lparr>sh_send_buf := x @ sh_send_buf s\<rparr>) = sent_before x (server_handle_phase_p2 s)"
  by (simp add: server_handle_phase_p2_def sent_before_def Let_def)

lemma p1_sent_before:
  "server_handle_phase_p1 (s\<lparr>sh_send_buf := x @ sh_send_buf s\<rparr>) = sent_before x (server_handle_phase_p1 s)"
proof -
  have "server_send_s1_s2 (s\<lparr>sh_send_buf := x @ sh_send_buf s\<rparr>) =
      (server_send_s1_s2 s)\<lparr>sh_send_buf := x @ sh_send_buf (server_send_s1_s2 s)\<rparr>"
    by (simp add: server_send_s1_s2_def Let_def split: server_handshake_mode.splits)
  then show ?thesis
    by (simp add: server_handle_phase_p1_alt p2_sent_before) (simp add: sent_before_def)
qed

lemma p0_sent_before:
  "server_handle_phase_p0 (s\<lparr>sh_send_buf := x @ sh_send_buf s\<rparr>) = sent_before x (server_handle_phase_p0 s)"
proof (cases "sh_recv_buf s")
  case Nil
  then show ?thesis by (simp add: server_handle_phase_p0_def sent_before_def)
next
  case (Cons v r)
  with p1_sent_before [where x = x and s = "s\<lparr>sh_send_buf := sh_send_buf s @ [rtmp_version], sh_phase := P1, sh_recv_buf := r\<rparr>"]
  show ?thesis
    by (cases s) (simp add: server_handle_phase_p0_Cons [where v = v and r = r] sent_before_def)
qed

lemma server_feed_sent_before:
  "server_feed_recv_buf s b = sent_before (sh_send_buf s) (server_feed_recv_buf (s\<lparr>sh_send_buf := []\<rparr>) b)"
proof -
  let ?s = "s\<lparr>sh_send_buf := [], sh_recv_buf := sh_recv_buf s @ b\<rparr>"
  show ?thesis
    using p0_sent_before [where s = ?s and x = "sh_send_buf s"] p1_sent_before [where s = ?s and x = "sh_send_buf s"]
      p2_sent_before [where s = ?s and x = "sh_send_buf s"]
    by (cases "sh_phase s") (simp_all add: server_feed_recv_buf_def server_handle_recv_buf_def sent_before_def)
qed

lemma server_machine_step:
  assumes "server_machine p = (h, Inr ())" and "server_machine (p @ b) = (h', Inr ())"
  obtains w where "server_feed_recv_buf (h\<lparr>sh_send_buf := []\<rparr>) b = (h'\<lparr>sh_send_buf := w\<rparr>, Inr ())"
    "sh_send_buf h' = sh_send_buf h @ w"
proof -
  obtain s r where f: "server_feed_recv_buf (h\<lparr>sh_send_buf := []\<rparr>) b = (s, r)" by fastforce
  have "server_feed_recv_buf h b = (h', Inr ())"
    using sfeed.feed_ok [where a = p and b = b] assms by (simp add: server_machine_def)
  with f server_feed_sent_before [of h b] show thesis
    by (intro that [of "sh_send_buf s"]) (auto simp: sent_before_def)
qed

section \<open>The core during the handshake\<close>

text \<open>After the bytes \<open>p\<close>, not yet complete, the core has written all that the machine has sent.\<close>

definition written :: "core_output list \<Rightarrow> bytes" where
  "written os = concat (map (\<lambda>x. case x of Write w \<Rightarrow> w | _ \<Rightarrow> []) os)"

definition handshaking_after :: "bytes \<Rightarrow> rtmp_core \<Rightarrow> bool" where
  "handshaking_after p c \<longleftrightarrow>
     (\<exists>h. server_machine p = (h, Inr ()) \<and> sh_phase h \<noteq> Complete
        \<and> c = core_new\<lparr>co_handshake := RoleServer (h\<lparr>sh_send_buf := []\<rparr>),
                       co_state := (if p = [] then Handshaking else WaitC2)\<rparr>)"

lemma server_machine_first:
  assumes "server_machine p = (h, Inr ())" and "p \<noteq> []"
  shows "hd p = 3" and "sh_send_buf h \<noteq> []"
proof -
  obtain v r where p: "p = v # r" using assms(2) by (cases p) auto
  let ?s = "\<lparr>sh_options = handshake_options_default, sh_mode = LenientSeededS1, sh_phase = P1, sh_recv_buf = r,
    sh_send_buf = [], sh_s1_packet = []\<rparr>"
  have m: "server_machine p =
      (if v \<noteq> 3 then (server_handshake_new LenientSeededS1\<lparr>sh_recv_buf := r\<rparr>, Inl InvalidData)
       else sent_before [3] (server_handle_phase_p1 ?s))"
    using p1_sent_before [where s = ?s and x = "[3]"]
    by (simp add: server_machine_def server_feed_recv_buf_def server_handle_recv_buf_def server_handshake_new_def
        p server_handle_phase_p0_Cons rtmp_version_def)
  with assms(1) p show "hd p = 3" by (auto split: if_splits)
  from m assms(1) show "sh_send_buf h \<noteq> []" by (auto simp: sent_before_def split: if_splits)
qed

lemma server_machine_Nil: "server_machine [] = (server_handshake_new LenientSeededS1, Inr ())"
  by (simp add: server_machine_def server_feed_recv_buf_def server_handle_recv_buf_def
      server_handle_phase_p0_def server_handshake_new_def)

lemma handshake_bytes:
  assumes c: "handshaking_after p c" and m: "server_machine (p @ b) = (h', Inr ())"
  obtains w c1 where "c1 = c\<lparr>co_handshake := RoleServer (h'\<lparr>sh_send_buf := []\<rparr>),
      co_state := (if p @ b = [] then Handshaking else WaitC2)\<rparr>"
    "sh_send_buf h' = sh_send_buf (fst (server_machine p)) @ w"
    "on_bytes b c = add_outputs (if w = [] then [] else [Write w])
       (cwhen (sh_phase h' = Complete) (finish_handshake (h'\<lparr>sh_send_buf := []\<rparr>)) c1)"
proof -
  from c obtain h where h: "server_machine p = (h, Inr ())" "sh_phase h \<noteq> Complete"
    and ceq: "c = core_new\<lparr>co_handshake := RoleServer (h\<lparr>sh_send_buf := []\<rparr>),
                       co_state := (if p = [] then Handshaking else WaitC2)\<rparr>"
    by (auto simp: handshaking_after_def)
  from server_machine_step [OF h(1) m] obtain w where
    f: "server_feed_recv_buf (h\<lparr>sh_send_buf := []\<rparr>) b = (h'\<lparr>sh_send_buf := w\<rparr>, Inr ())"
    and w: "sh_send_buf h' = sh_send_buf h @ w" by blast
  let ?c1 = "c\<lparr>co_handshake := RoleServer (h'\<lparr>sh_send_buf := []\<rparr>),
      co_state := (if p @ b = [] then Handshaking else WaitC2)\<rparr>"
  have w_Nil: "w = [] \<longrightarrow> p = [] \<longrightarrow> b = []"
    using server_machine_first(2) [OF m] server_machine_Nil w h
    by (cases "b = []") (auto simp: server_handshake_new_def)
  have w_Cons: "p = [] \<longrightarrow> b = [] \<longrightarrow> w = []"
    using m w h server_machine_Nil by (auto simp: server_handshake_new_def)
  have flush: "flush_handshake (h'\<lparr>sh_send_buf := w\<rparr>) c = Some (?c1, if w = [] then [] else [Write w], Inr ())"
  proof (cases "w = []")
    case True
    with w_Nil have "co_state c = (if p @ b = [] then Handshaking else WaitC2)" by (auto simp: ceq)
    with True show ?thesis by (cases c) (simp add: flush_handshake_def cupd_def)
  next
    case False
    with w_Cons have "co_state c = Handshaking \<or> co_state c = WaitC2" "\<not> (p = [] \<and> b = [])"
      by (auto simp: ceq)
    with False show ?thesis
      by (cases c) (auto simp: flush_handshake_def cseq_def cbind_def cupd_def cemit_def server_advance_send_buf_def)
  qed
  have "on_bytes b c = feed_handshake (h\<lparr>sh_send_buf := []\<rparr>) b c"
    using server_machine_first(1) [OF m]
    by (auto simp: on_bytes_def cwith_def try_handshake_def ceq)
  also have "\<dots> = add_outputs (if w = [] then [] else [Write w])
       (cwhen (sh_phase h' = Complete) (finish_handshake (h'\<lparr>sh_send_buf := []\<rparr>)) ?c1)"
    using f flush
    by (simp add: feed_handshake_def cseq_def cbind_def cwith_def server_is_recv_complete_def add_outputs_def map_option_case
        split: option.splits prod.splits)
  finally have o: "on_bytes b c = add_outputs (if w = [] then [] else [Write w])
       (cwhen (sh_phase h' = Complete) (finish_handshake (h'\<lparr>sh_send_buf := []\<rparr>)) ?c1)" .
  show thesis by (rule that [OF HOL.refl _ o]) (simp add: w h)
qed

lemma server_machine_prefix:
  "server_machine (p @ q) = (h, Inr ()) \<Longrightarrow> \<exists>h'. server_machine p = (h', Inr ())"
  using sfeed.feed_err [of "server_handshake_new LenientSeededS1" p _ _ q]
  by (cases "server_machine p"; cases "snd (server_machine p)") (auto simp: server_machine_def)

lemma server_machine_short:
  "server_machine p = (h, r) \<Longrightarrow> length p < 3073 \<Longrightarrow> sh_phase h \<noteq> Complete"
  using server_short_not_complete [of p LenientSeededS1]
  by (auto simp: server_machine_def handshake_packet_size_def)

definition only_writes :: "core_output list \<Rightarrow> bool" where
  "only_writes os \<longleftrightarrow> (\<forall>x \<in> set os. \<exists>w. x = Write w)"

lemma written_simps [simp]:
  "written [] = []" "written (Write w # os) = w @ written os" "written (os @ os') = written os @ written os'"
  by (simp_all add: written_def)

lemma only_writes_simps [simp]:
  "only_writes []" "only_writes (Write w # os) = only_writes os"
  "only_writes (os @ os') \<longleftrightarrow> only_writes os \<and> only_writes os'"
  by (auto simp: only_writes_def)

lemma handshake_run:
  assumes "handshaking_after p c" and "server_machine (p @ concat ps @ q) = (h, Inr ())"
    and "length (p @ concat ps) < 3073"
  shows "\<exists>c' oss. core_run c (map Bytes ps) = Some (c', map Inr oss) \<and> handshaking_after (p @ concat ps) c'
     \<and> sh_send_buf (fst (server_machine (p @ concat ps))) = sh_send_buf (fst (server_machine p)) @ written (concat oss)
     \<and> only_writes (concat oss)"
  using assms
proof (induction ps arbitrary: p c)
  case (Cons b ps)
  from server_machine_prefix [of "p @ b" "concat ps @ q"] Cons.prems(2)
  obtain h' where m: "server_machine (p @ b) = (h', Inr ())" by auto
  have n: "sh_phase h' \<noteq> Complete" using server_machine_short [OF m] Cons.prems(3) by simp
  obtain w c1 where
    c1: "c1 = c\<lparr>co_handshake := RoleServer (h'\<lparr>sh_send_buf := []\<rparr>), co_state := (if p @ b = [] then Handshaking else WaitC2)\<rparr>"
    and w: "sh_send_buf h' = sh_send_buf (fst (server_machine p)) @ w"
    and o': "on_bytes b c = add_outputs (if w = [] then [] else [Write w])
       (cwhen (sh_phase h' = Complete) (finish_handshake (h'\<lparr>sh_send_buf := []\<rparr>)) c1)"
    by (rule handshake_bytes [OF Cons.prems(1) m])
  have o: "on_bytes b c = Some (c1, if w = [] then [] else [Write w], Inr ())"
    using o' n by (simp add: cwhen_def cret_def)
  have "handshaking_after (p @ b) c1"
    using Cons.prems(1) m n by (auto simp: handshaking_after_def c1)
  from Cons.IH [OF this] Cons.prems(2,3) obtain c' oss where
    "core_run c1 (map Bytes ps) = Some (c', map Inr oss)" "handshaking_after ((p @ b) @ concat ps) c'"
    "sh_send_buf (fst (server_machine ((p @ b) @ concat ps))) = sh_send_buf (fst (server_machine (p @ b))) @ written (concat oss)"
    "only_writes (concat oss)" by auto
  with o w m show ?case
    by (intro exI [of _ c'] exI [of _ "(if w = [] then [] else [Write w]) # oss"]) (simp add: handle_input_def)
qed simp

section \<open>The complete handshake\<close>

definition opening_messages :: "(rtmp_chunk_stream_id \<times> rtmp_message) list" where
  "opening_messages =
     [(Csid 2, set_chunk_size (chunk_size_saturating_new 60000)), (Csid 2, win_ack_size 5000000),
      (Csid 2, set_peer_bandwidth 5000000)]"

lemma finish_handshake_opens:
  assumes "sh_recv_buf h = []" and "co_out_chunk_size c = 60000"
  shows "\<exists>c' os enc. finish_handshake h c = Some (c', os, Inr ()) \<and> co_state c' = Ready \<and> only_writes os
    \<and> message_encode_all (co_encoder c) opening_messages = Some (enc, written os)
    \<and> c' = c\<lparr>co_handshake := RoleServer h, co_state := Ready, co_encoder := enc\<rparr>"
proof -
  have enc: "\<exists>e w. message_encode e0 (Csid 2) m = Some (e, w)" if "message_avm_free m" for e0 m
    using message_avm_free_encode [OF that, of e0 "Csid 2"] by auto
  obtain e1 w1 where 1: "message_encode (co_encoder c) (Csid 2) (set_chunk_size (chunk_size_saturating_new 60000)) = Some (e1, w1)"
    using enc [OF message_avm_free_control(4)] by blast
  obtain e2 w2 where 2: "message_encode e1 (Csid 2) (win_ack_size 5000000) = Some (e2, w2)"
    using enc [OF message_avm_free_control(1)] by blast
  obtain e3 w3 where 3: "message_encode e2 (Csid 2) (set_peer_bandwidth 5000000) = Some (e3, w3)"
    using enc [OF message_avm_free_control(2)] by blast
  have h: "h\<lparr>sh_recv_buf := []\<rparr> = h" using assms(1) by (cases h) simp
  have s: "chunk_size_get (chunk_size_saturating_new 60000) = 60000"
    by simp
  have "finish_handshake h c = Some (c\<lparr>co_handshake := RoleServer h, co_state := Ready, co_encoder := e3\<rparr>,
      [Write w1, Write w2, Write w3], Inr ())"
    using assms 1 2 3 s
    by (cases c) (simp add: finish_handshake_def server_take_recv_buf_def h cseq_def cbind_def cupd_def cwith_def
        cwhen_def cret_def send_set_chunk_size_def send_window_ack_size_def send_set_peer_bandwidth_def
        send_rtmp_message_def csid_new_def)
  with 1 2 3 show ?thesis by (simp add: opening_messages_def)
qed

text \<open>
  C11: a client that sends version 3, a C1 and a C2 of 1536 bytes each, cut into reads in any way, brings
  the server core from its start to \<open>Ready\<close> without an error; the core answers, over these reads, with
  S0, S1 and S2 and then with exactly Set Chunk Size 60000, Window Acknowledgement Size and Set Peer
  Bandwidth, and with nothing else.
\<close>

theorem server_core_handshake:
  assumes "length c1 = 1536" and "length c2 = 1536" and "concat ps @ p = [3] @ c1 @ c2" and "p \<noteq> []"
  shows "\<exists>c oss enc w. core_run core_new (map Bytes (ps @ [p])) = Some (c, map Inr oss) \<and> co_state c = Ready
    \<and> only_writes (concat oss)
    \<and> message_encode_all (co_encoder core_new) opening_messages = Some (enc, w)
    \<and> written (concat oss) = [3] @ build_lenient_seeded_s1 c1 @ c1 @ w"
proof -
  let ?T = "rtmp_version # c1 @ c2"
  let ?h = "\<lparr>sh_options = handshake_options_default, sh_mode = LenientSeededS1, sh_phase = Complete, sh_recv_buf = [],
       sh_send_buf = rtmp_version # build_lenient_seeded_s1 c1 @ c1, sh_s1_packet = build_lenient_seeded_s1 c1\<rparr>"
  have T: "server_machine ?T = (?h, Inr ())"
    using assms(1,2) server_feed_c0_c1 [of c1 LenientSeededS1 c2]
    by (simp add: server_machine_def handshake_packet_size_def server_s1_packet_def server_handle_phase_p2_def)
  have cp: "concat ps @ p = ?T" using assms(3) by (simp add: rtmp_version_def)
  have len: "length (concat ps) < 3073"
    using arg_cong [OF cp, of length] assms(1,2,4) by (cases p) auto
  have start: "handshaking_after [] core_new"
    by (simp add: handshaking_after_def server_machine_Nil core_new_def server_handshake_new_def)
  from handshake_run [OF start, of ps p ?h] T cp len obtain c0 oss where
    run: "core_run core_new (map Bytes ps) = Some (c0, map Inr oss)" and a: "handshaking_after (concat ps) c0"
    and s: "sh_send_buf (fst (server_machine (concat ps))) = written (concat oss)" and ow: "only_writes (concat oss)"
    by (auto simp: server_machine_Nil server_handshake_new_def)
  have m: "server_machine (concat ps @ p) = (?h, Inr ())" using T cp by simp
  obtain w c1' where
    c1': "c1' = c0\<lparr>co_handshake := RoleServer (?h\<lparr>sh_send_buf := []\<rparr>),
      co_state := (if concat ps @ p = [] then Handshaking else WaitC2)\<rparr>"
    and w: "sh_send_buf ?h = sh_send_buf (fst (server_machine (concat ps))) @ w"
    and o: "on_bytes p c0 = add_outputs (if w = [] then [] else [Write w])
      (cwhen (sh_phase ?h = Complete) (finish_handshake (?h\<lparr>sh_send_buf := []\<rparr>)) c1')"
    by (rule handshake_bytes [OF a m])
  have f: "co_encoder c1' = co_encoder core_new" "co_out_chunk_size c1' = 60000"
    using a by (auto simp: c1' handshaking_after_def core_new_def)
  from finish_handshake_opens [OF _ f(2), of "?h\<lparr>sh_send_buf := []\<rparr>"] f(1) obtain c' os enc where
    fin: "finish_handshake (?h\<lparr>sh_send_buf := []\<rparr>) c1' = Some (c', os, Inr ())" "co_state c' = Ready" "only_writes os"
    "message_encode_all (co_encoder core_new) opening_messages = Some (enc, written os)" by auto
  have app: "core_run c (xs @ [x]) = Some (c2, rs @ [r])"
    if "core_run c xs = Some (c1, rs)" "handle_input x c1 = Some (c2, r)" for c c1 c2 xs x rs r
    using that by (induction xs arbitrary: c rs) (auto split: option.splits prod.splits)
  let ?os = "(if w = [] then [] else [Write w]) @ os"
  have "handle_input (Bytes p) c0 = Some (c', Inr ?os)"
    using o fin(1) by (simp add: handle_input_def cwhen_def)
  from app [OF run this] fin(2-4) ow w s show ?thesis
    by (intro exI [of _ c'] exI [of _ "oss @ [?os]"] exI [of _ enc] exI [of _ "written os"])
      (auto simp: rtmp_version_def)
qed

theorem server_core_handshake_witness:
  "\<exists>c oss enc w. core_run core_new [Bytes [3], Bytes (replicate 1536 7 @ replicate 1536 9)] = Some (c, map Inr oss)
     \<and> co_state c = Ready
     \<and> message_encode_all (co_encoder core_new) opening_messages = Some (enc, w)
     \<and> written (concat oss) = [3] @ build_lenient_seeded_s1 (replicate 1536 7) @ replicate 1536 7 @ w"
proof -
  have n: "length (replicate 1536 (7 :: u8)) = 1536" "length (replicate 1536 (9 :: u8)) = 1536"
    "concat [[3]] @ replicate 1536 7 @ replicate 1536 9 = [3] @ replicate 1536 (7 :: u8) @ replicate 1536 9"
    "replicate 1536 (7 :: u8) @ replicate 1536 9 \<noteq> []"
    by (simp_all only: length_replicate concat.simps append.simps append_Nil2) (simp del: replicate.simps)
  from server_core_handshake [OF n] show ?thesis
    by (simp only: list.map append.simps) blast
qed

end
