(* ===== verification/Rtmp_Core_Reads.thy ===== *)
theory Rtmp_Core_Reads
  imports Rtmp_Core_Status
begin

text \<open>
  How the peer's bytes are cut into reads does not matter to the decoding loop of the connection core after the
  handshake: feeding them piece by piece gives the outputs, the result and, up to the offset inside the receive
  buffer, the state of feeding them in one go. The handlers of messages are blind to the buffer. The byte count and
  the acknowledgements that precede the loop are not part of this.
\<close>

section \<open>Blind to the receive buffer\<close>

definition rebuf :: "buf \<Rightarrow> (rtmp_core \<times> core_output list \<times> 'r) option \<Rightarrow> (rtmp_core \<times> core_output list \<times> 'r) option" where
  "rebuf b x = map_option (\<lambda>(c, os, r). (c\<lparr>co_input_buf := b\<rparr>, os, r)) x"

lemma rebuf_simps [simp]:
  "rebuf b None = None" "rebuf b (Some (c, os, r)) = Some (c\<lparr>co_input_buf := b\<rparr>, os, r)"
  by (simp_all add: rebuf_def)

definition blind :: "'a core_m \<Rightarrow> bool" where
  "blind m \<longleftrightarrow> (\<forall>c b. m (c\<lparr>co_input_buf := b\<rparr>) = rebuf b (m c))"

named_theorems blind_rules \<open>methods that do not look at the receive buffer\<close>

lemma blindD: "blind m \<Longrightarrow> m (c\<lparr>co_input_buf := b\<rparr>) = rebuf b (m c)"
  by (simp add: blind_def)

lemma blind_basic [blind_rules]:
  "blind (cret v)" "blind (cfail e)" "blind cpanic" "blind (cemit x)" "blind (cevent ev)" "blind (clift g r)"
  by (auto simp: blind_def cret_def cfail_def cpanic_def cemit_def cevent_def clift_def split: sum.splits)

lemma blind_cupd [blind_rules]:
  "(\<And>c b. f (c\<lparr>co_input_buf := b\<rparr>) = (f c)\<lparr>co_input_buf := b\<rparr>) \<Longrightarrow> blind (cupd f)"
  by (simp add: blind_def cupd_def)

lemma blind_cbind [blind_rules]:
  assumes m: "blind m" and k: "\<And>v. blind (k v)"
  shows "blind (cbind m k)"
  unfolding blind_def
proof (intro allI)
  fix c b
  show "cbind m k (c\<lparr>co_input_buf := b\<rparr>) = rebuf b (cbind m k c)"
  proof (cases "m c")
    case None
    then show ?thesis using blindD [OF m, of b c] by (simp add: cbind_def)
  next
    case (Some x)
    obtain c1 o1 r where x: "x = (c1, o1, r)" by (cases x)
    show ?thesis
    proof (cases r)
      case (Inl e)
      then show ?thesis using blindD [OF m, of b c] Some x by (simp add: cbind_def)
    next
      case (Inr v)
      then show ?thesis
        using blindD [OF m, of b c] Some x blindD [OF k, of v b c1]
        by (cases "k v c1") (auto simp: cbind_def)
    qed
  qed
qed

lemma blind_cseq [blind_rules]: "blind m \<Longrightarrow> blind k \<Longrightarrow> blind (cseq m k)"
  unfolding cseq_def by (rule blind_cbind)

lemma blind_cwith [blind_rules]:
  assumes "\<And>c. blind (f c)" and "\<And>c b. f (c\<lparr>co_input_buf := b\<rparr>) = f c"
  shows "blind (cwith f)"
  using blindD [OF assms(1)] by (simp add: blind_def cwith_def assms(2))

lemma blind_cignore [blind_rules]: "blind m \<Longrightarrow> blind (cignore m)"
  by (auto simp: blind_def cignore_def split: option.splits)

lemma blind_cwhen [blind_rules]: "blind m \<Longrightarrow> blind (cwhen b m)"
  by (simp add: cwhen_def blind_basic)

lemma blind_if [blind_rules]: "(P \<Longrightarrow> blind m) \<Longrightarrow> (\<not> P \<Longrightarrow> blind k) \<Longrightarrow> blind (if P then m else k)"
  by simp

lemma blind_cfor: "(\<And>x. x \<in> set xs \<Longrightarrow> blind (f x)) \<Longrightarrow> blind (cfor f xs)"
  by (induction xs) (simp_all add: blind_basic blind_cseq)

section \<open>The handlers\<close>

lemma blind_writers [blind_rules]:
  "blind (send_message csid ts t sid p)" "blind (send_rtmp_message csid m)" "blind (send_amf0 csid t sid vs)"
  "blind (send_command csid h cmd)"
proof -
  have "blind (cchunk ch)" for ch
    by (auto simp: blind_def cchunk_def split: prod.splits)
  then show m: "blind (send_message csid ts t sid p)" for csid ts t sid p
    by (auto simp: send_message_def split: option.splits intro: blind_rules)
  show r: "blind (send_rtmp_message csid m)" for csid m
    by (auto simp: send_rtmp_message_def blind_def cpanic_def split: option.splits prod.splits)
  show "blind (send_amf0 csid t sid vs)"
    by (auto simp: send_amf0_def m split: option.splits intro: blind_rules)
  show "blind (send_command csid h cmd)"
    unfolding send_command_def by (intro blind_rules r)
qed

lemma blind_media [blind_rules]:
  "blind (handle_media_input sid ts mt p)" "blind clear_pending_publish" "blind allocate_stream_id"
  unfolding handle_media_input_def push_pending_publish_media_def clear_pending_publish_def
  by (intro blind_rules; simp split: prod.splits)
    (intro blind_rules; simp | simp add: blind_def allocate_stream_id_def)+

lemma blind_replies [blind_rules]: "blind (emit_result_received result)" "blind (emit_on_status_received status)"
  unfolding emit_result_received_def emit_on_status_received_def Let_def client_state_changed_def
  by (intro blind_rules; simp)+

lemma blind_inbound [blind_rules]:
  "blind (close_stream sid)" "blind (start_pending_publish sid name)"
  "blind (emit_play_requested sid name)" "blind (handle_connect_command app tc txn)"
  "blind (handle_create_stream_command txn)" "blind (handle_get_stream_length_command t)"
  "blind (send_null_result txn)"
proof -
  have a: "app_and_tc_url (c\<lparr>co_input_buf := b\<rparr>) = app_and_tc_url c" for c b
    by (simp add: app_and_tc_url_def)
  show "blind (close_stream sid)" "blind (start_pending_publish sid name)"
    "blind (emit_play_requested sid name)" "blind (handle_connect_command app tc txn)"
    "blind (handle_create_stream_command txn)" "blind (handle_get_stream_length_command t)"
    "blind (send_null_result txn)"
    unfolding close_stream_def start_pending_publish_def emit_play_requested_def send_null_result_def
      handle_connect_command_def handle_create_stream_command_def handle_get_stream_length_command_def
      send_connect_result_def send_on_bw_done_def send_create_stream_result_def Let_def case_prod_beta
    by (intro blind_rules; simp add: a)+
qed

lemma blind_command_message [blind_rules]: "blind (on_command_message ver sid p)"
proof -
  have "blind (handle_unstructured_command command sid)" for command
    unfolding handle_unstructured_command_def Let_def handle_publish_command_def handle_play_command_def
      handle_delete_stream_command_def
    by (intro blind_rules)
  then have "blind (on_decoded_command sid command)" for command
    by (cases "parse_command command")
      (auto simp: on_decoded_command_def handle_publish_command_def handle_play_command_def
        handle_delete_stream_command_def split: rtmp_command.splits intro!: blind_rules)
  then show ?thesis
    unfolding on_command_message_def by (auto split: option.splits intro!: blind_rules)
qed

lemma blind_control [blind_rules]: "blind (handle_control_message ch)"
proof -
  have "blind (on_control m)" for m
    by (cases m rule: on_control.cases)
      (auto simp: Let_def cong: set_peer_bandwidth_limit_type.case_cong intro!: blind_rules)
  then show ?thesis unfolding handle_control_message_def by (intro blind_rules)
qed

lemma blind_ignore_amf0_error [blind_rules]: "blind m \<Longrightarrow> blind (ignore_amf0_error m)"
  unfolding blind_def ignore_amf0_error_def
  by (auto split: option.splits sum.splits core_error.splits)

lemma blind_data [blind_rules]: "blind (on_data_amf3 msg)" "blind (on_data_amf0 msg)"
  unfolding on_data_amf3_def on_data_amf0_def
  by (auto split: sum.splits option.splits intro!: blind_rules)

lemma blind_on_message: "blind (on_message msg)"
proof (induction msg rule: on_message.induct)
  case (1 msg)
  show ?case
    by (subst on_message.simps) (auto split: rtmp_message_type.splits intro!: blind_rules blind_cfor 1)
qed

section \<open>The decoding loop over a list of bytes\<close>

text \<open>
  \<open>read_loop c bs\<close> is the decoding loop with the unconsumed bytes as a list beside a core whose own
  buffer is out of the picture.
\<close>

function read_loop :: "rtmp_core \<Rightarrow> bytes \<Rightarrow> rtmp_core \<times> core_output list \<times> (core_error + unit) \<times> bytes" where
  "read_loop c bs =
     (case chunk_decode (co_decoder c) bs of
        (d, Inl e) \<Rightarrow>
          (c\<lparr>co_decoder := d\<rparr>, [], if e = InsufficientBuffer then Inr () else Inl (ErrChunk e), bs)
      | (d, Inr (n, maybe_chunk)) \<Rightarrow>
          (let c1 = c\<lparr>co_decoder := d\<rparr>; rest = drop n bs in
           case maybe_chunk of
             None \<Rightarrow> read_loop c1 rest
           | Some ch \<Rightarrow>
               (case on_message ch c1 of
                  None \<Rightarrow> (c1, [], Inr (), rest)
                | Some (c2, os, Inl e) \<Rightarrow> (c2, os, Inl e, rest)
                | Some (c2, os, Inr _) \<Rightarrow>
                    (case read_loop c2 rest of (c3, os', r, rest') \<Rightarrow> (c3, os @ os', r, rest')))))"
  by pat_completeness auto
termination
  by (relation "measure (\<lambda>(c, bs). length bs)") (auto dest!: cdec.progress [OF sym])

declare read_loop.simps [simp del]

lemma on_message_some: obtains c' os r where "on_message ch c = Some (c', os, r)"
  using total_on_message [of ch, unfolded never_panics_def, rule_format, of c] by auto

definition prepend :: "core_output list \<Rightarrow> 'c \<times> core_output list \<times> 'r \<times> 'b \<Rightarrow> 'c \<times> core_output list \<times> 'r \<times> 'b" where
  "prepend os x = (case x of (c, os', r) \<Rightarrow> (c, os @ os', r))"

lemma prepend_simps [simp]: "prepend os (c, os', r, b) = (c, os @ os', r, b)" "prepend [] x = x"
  by (auto simp: prepend_def split: prod.splits)

lemma prepend_prepend [simp]: "prepend o1 (prepend o2 x) = prepend (o1 @ o2) x"
  by (auto simp: prepend_def split: prod.splits)

text \<open>The three steps of the loop.\<close>

lemma read_loop_error:
  "chunk_decode (co_decoder c) bs = (d, Inl e) \<Longrightarrow>
     read_loop c bs = (c\<lparr>co_decoder := d\<rparr>, [], if e = InsufficientBuffer then Inr () else Inl (ErrChunk e), bs)"
  by (simp add: read_loop.simps)

lemma read_loop_partial:
  "chunk_decode (co_decoder c) bs = (d, Inr (n, None)) \<Longrightarrow>
     read_loop c bs = read_loop (c\<lparr>co_decoder := d\<rparr>) (drop n bs)"
  by (simp add: read_loop.simps [of c bs] Let_def)

lemma read_loop_message:
  "chunk_decode (co_decoder c) bs = (d, Inr (n, Some ch)) \<Longrightarrow>
     on_message ch (c\<lparr>co_decoder := d\<rparr>) = Some (c2, os, r) \<Longrightarrow>
     read_loop c bs = (case r of Inl e \<Rightarrow> (c2, os, Inl e, drop n bs) | Inr _ \<Rightarrow> prepend os (read_loop c2 (drop n bs)))"
  by (cases r) (auto simp: read_loop.simps [of c bs] Let_def prepend_def split: prod.splits)

lemma read_loop_append:
  "read_loop c (a @ b) =
     (case read_loop c a of
        (c1, o1, Inl e, r1) \<Rightarrow> (c1, o1, Inl e, r1 @ b)
      | (c1, o1, Inr _, r1) \<Rightarrow> prepend o1 (read_loop c1 (r1 @ b)))"
proof (induction "length a" arbitrary: c a rule: less_induct)
  case less
  obtain d res where d: "chunk_decode (co_decoder c) a = (d, res)" by fastforce
  show ?case
  proof (cases res)
    case (Inl e)
    show ?thesis
    proof (cases "e = InsufficientBuffer")
      case True
      have "chunk_decode d (a @ b) = chunk_decode (co_decoder c) (a @ b)"
        by (rule cdec.resume) (use d Inl True in simp)
      then have "read_loop (c\<lparr>co_decoder := d\<rparr>) (a @ b) = read_loop c (a @ b)"
        by (simp add: read_loop.simps [of c "a @ b"] read_loop.simps [of "c\<lparr>co_decoder := d\<rparr>" "a @ b"])
      with d Inl True show ?thesis by (simp add: read_loop_error)
    next
      case False
      with d Inl have "chunk_decode (co_decoder c) (a @ b) = (d, Inl e)" by (intro cdec.stable_err) auto
      with d Inl False show ?thesis by (simp add: read_loop_error)
    qed
  next
    case (Inr nm)
    obtain n mc where nm: "nm = (n, mc)" by fastforce
    with d Inr have d': "chunk_decode (co_decoder c) a = (d, Inr (n, mc))" by simp
    note p = cdec.progress [OF d'] and ab = cdec.stable_ok [OF d', of b]
    have n: "drop n (a @ b) = drop n a @ b" "length (drop n a) < length a" using p by auto
    show ?thesis
    proof (cases mc)
      case None
      with d' ab n less [of "drop n a" "c\<lparr>co_decoder := d\<rparr>"] show ?thesis by (simp add: read_loop_partial)
    next
      case (Some ch)
      obtain c2 os r where m: "on_message ch (c\<lparr>co_decoder := d\<rparr>) = Some (c2, os, r)" by (rule on_message_some)
      show ?thesis
      proof (cases r)
        case (Inl e)
        with d' ab n m Some show ?thesis by (simp add: read_loop_message)
      next
        case (Inr u)
        with d' ab n m Some less [of "drop n a" c2] show ?thesis
          by (simp add: read_loop_message) (auto simp: prepend_def split: prod.splits sum.splits)
      qed
    qed
  qed
qed

text \<open>The loop of the core is this loop over the content of its buffer.\<close>

lemma swap_buf: "c\<lparr>co_input_buf := b, co_decoder := d\<rparr> = c\<lparr>co_decoder := d, co_input_buf := b\<rparr>"
  by (cases c) simp

lemma read_loop_blind:
  "read_loop (c\<lparr>co_input_buf := b\<rparr>) bs = (case read_loop c bs of (c', x) \<Rightarrow> (c'\<lparr>co_input_buf := b\<rparr>, x))"
proof (induction "length bs" arbitrary: c bs rule: less_induct)
  case less
  obtain d res where d: "chunk_decode (co_decoder c) bs = (d, res)" by fastforce
  show ?case
  proof (cases res)
    case (Inl e)
    with d show ?thesis by (simp add: read_loop_error)
  next
    case (Inr nm)
    obtain n mc where nm: "nm = (n, mc)" by fastforce
    with d Inr have d': "chunk_decode (co_decoder c) bs = (d, Inr (n, mc))" by simp
    have db: "chunk_decode (co_decoder (c\<lparr>co_input_buf := b\<rparr>)) bs = (d, Inr (n, mc))" using d' by simp
    have l: "length (drop n bs) < length bs" using cdec.progress [OF d'] by simp
    show ?thesis
    proof (cases mc)
      case None
      with d' db less [OF l, of "c\<lparr>co_decoder := d\<rparr>"] show ?thesis by (simp add: read_loop_partial swap_buf)
    next
      case (Some ch)
      obtain c2 os r where m: "on_message ch (c\<lparr>co_decoder := d\<rparr>) = Some (c2, os, r)" by (rule on_message_some)
      have mb: "on_message ch (c\<lparr>co_input_buf := b, co_decoder := d\<rparr>) = Some (c2\<lparr>co_input_buf := b\<rparr>, os, r)"
        using blindD [OF blind_on_message, of ch b "c\<lparr>co_decoder := d\<rparr>"] m by (simp add: swap_buf)
      show ?thesis
        using d' db m mb Some less [OF l, of c2]
        by (cases r) (simp_all add: read_loop_message prepend_def split: prod.splits)
    qed
  qed
qed

lemma process_loop_read_loop:
  assumes "buf_invar (co_input_buf c)" and "read_loop c (buf_get (co_input_buf c)) = (c', os, r, rest)"
  shows "\<exists>b'. buf_invar b' \<and> buf_get b' = rest \<and> process_loop c = Some (c'\<lparr>co_input_buf := b'\<rparr>, os, r)"
  using assms
proof (induction "length (buf_get (co_input_buf c))" arbitrary: c os c' rule: less_induct)
  case less
  let ?b = "co_input_buf c"
  obtain d res where d: "chunk_decode (co_decoder c) (buf_get ?b) = (d, res)" by fastforce
  show ?case
  proof (cases res)
    case (Inl e)
    with d less.prems show ?thesis
      by (intro exI [of _ ?b]) (cases c, auto simp: read_loop_error process_loop.simps)
  next
    case (Inr nm)
    obtain n mc where nm: "nm = (n, mc)" by fastforce
    with d Inr have d': "chunk_decode (co_decoder c) (buf_get ?b) = (d, Inr (n, mc))" by simp
    let ?b1 = "buf_advance ?b n" and ?c0 = "c\<lparr>co_decoder := d\<rparr>"
    let ?c1 = "c\<lparr>co_decoder := d, co_input_buf := ?b1\<rparr>"
    note p = cdec.progress [OF d']
    have b1: "buf_invar ?b1" "buf_get ?b1 = drop n (buf_get ?b)"
      using p less.prems(1) by (auto intro: rbuf.invar_advance simp: rbuf.get_advance)
    have l: "length (drop n (buf_get ?b)) < length (buf_get ?b)" using p by simp
    show ?thesis
    proof (cases mc)
      case None
      have pl: "process_loop c = process_loop ?c1" using d' None by (simp add: process_loop.simps [of c])
      have "read_loop ?c0 (drop n (buf_get ?b)) = (c', os, r, rest)"
        using less.prems(2) d' None by (simp add: read_loop_partial)
      then have rl: "read_loop ?c1 (buf_get (co_input_buf ?c1)) = (c'\<lparr>co_input_buf := ?b1\<rparr>, os, r, rest)"
        using read_loop_blind [of ?b1 ?c0 "drop n (buf_get ?b)"] b1 by simp
      show ?thesis using less.hyps [of ?c1, OF _ _ rl] l b1 pl by auto
    next
      case (Some ch)
      obtain c2 o1 r1 where m: "on_message ch ?c0 = Some (c2, o1, r1)" by (rule on_message_some)
      have mb: "on_message ch ?c1 = Some (c2\<lparr>co_input_buf := ?b1\<rparr>, o1, r1)"
        using blindD [OF blind_on_message, of ch ?b1 ?c0] m by simp
      show ?thesis
      proof (cases r1)
        case (Inl e)
        with d' Some m mb less.prems(2) b1 show ?thesis
          by (intro exI [of _ ?b1]) (auto simp: read_loop_message process_loop.simps [of c])
      next
        case (Inr u)
        obtain c3 o2 r3 rest3 where rl2: "read_loop c2 (drop n (buf_get ?b)) = (c3, o2, r3, rest3)"
          by (metis prod_cases4)
        with d' Some m Inr less.prems(2) have eq: "c3 = c'" "os = o1 @ o2" "r3 = r" "rest3 = rest"
          by (auto simp: read_loop_message)
        have rl: "read_loop (c2\<lparr>co_input_buf := ?b1\<rparr>) (buf_get (co_input_buf (c2\<lparr>co_input_buf := ?b1\<rparr>))) = (c'\<lparr>co_input_buf := ?b1\<rparr>, o2, r, rest)"
          using read_loop_blind [of ?b1 c2 "drop n (buf_get ?b)"] rl2 b1 eq by simp
        have pl: "process_loop c = add_outputs o1 (process_loop (c2\<lparr>co_input_buf := ?b1\<rparr>))"
          using d' Some mb Inr by (simp add: process_loop.simps [of c])
        show ?thesis using less.hyps [of "c2\<lparr>co_input_buf := ?b1\<rparr>", OF _ _ rl] l b1 pl eq by auto
      qed
    qed
  qed
qed

section \<open>Pieces\<close>

lemma receive_read_loop:
  assumes "buf_invar (co_input_buf c)" and "read_loop c (buf_get (co_input_buf c) @ p) = (c', os, r, rest)"
  shows "\<exists>b'. buf_invar b' \<and> buf_get b' = rest \<and> receive p c = Some (c'\<lparr>co_input_buf := b'\<rparr>, os, r)"
proof -
  let ?b = "buf_feed (co_input_buf c) p"
  have b: "buf_invar ?b" "buf_get ?b = buf_get (co_input_buf c) @ p"
    using assms(1) by (simp_all add: rbuf.invar_feed rbuf.get_feed)
  have "read_loop (c\<lparr>co_input_buf := ?b\<rparr>) (buf_get (co_input_buf (c\<lparr>co_input_buf := ?b\<rparr>))) = (c'\<lparr>co_input_buf := ?b\<rparr>, os, r, rest)"
    using read_loop_blind [of ?b c "buf_get (co_input_buf c) @ p"] assms(2) b by simp
  from process_loop_read_loop [OF _ this] b obtain b' where
    "buf_invar b'" "buf_get b' = rest" "process_loop (c\<lparr>co_input_buf := ?b\<rparr>) = Some (c'\<lparr>co_input_buf := b'\<rparr>, os, r)"
    by auto
  then show ?thesis by (auto simp: receive_def cseq_def cbind_def cupd_def split: option.splits)
qed

lemma receive_pieces:
  assumes "buf_invar (co_input_buf c)"
    and "read_loop c (buf_get (co_input_buf c) @ concat (p # ps)) = (c', os, r, rest)"
  shows "\<exists>b'. cfor receive (p # ps) c = Some (c'\<lparr>co_input_buf := b'\<rparr>, os, r) \<and> (r = Inr () \<longrightarrow> buf_invar b' \<and> buf_get b' = rest)"
  using assms
proof (induction ps arbitrary: c p os c')
  case Nil
  from Nil.prems(2) have "read_loop c (buf_get (co_input_buf c) @ p) = (c', os, r, rest)" by simp
  from receive_read_loop [OF Nil.prems(1) this] show ?case
    by (cases r) (auto simp: cseq_def cbind_def cret_def)
next
  case (Cons q ps)
  obtain c1 o1 r1 rest1 where 1: "read_loop c (buf_get (co_input_buf c) @ p) = (c1, o1, r1, rest1)"
    by (metis prod_cases4)
  from receive_read_loop [OF Cons.prems(1) 1] obtain b1 where
    b1: "buf_invar b1" "buf_get b1 = rest1" "receive p c = Some (c1\<lparr>co_input_buf := b1\<rparr>, o1, r1)" by blast
  have app: "(case (c1, o1, r1, rest1) of
        (c1, o1, Inl e, r1) \<Rightarrow> (c1, o1, Inl e, r1 @ concat (q # ps))
      | (c1, o1, Inr _, r1) \<Rightarrow> prepend o1 (read_loop c1 (r1 @ concat (q # ps)))) = (c', os, r, rest)"
    using read_loop_append [of c "buf_get (co_input_buf c) @ p" "concat (q # ps)"] Cons.prems(2) 1 by simp
  show ?case
  proof (cases r1)
    case (Inl e)
    with app b1 show ?thesis by (auto simp: cseq_def cbind_def)
  next
    case (Inr u)
    obtain c2 o2 r2 rest2 where 2: "read_loop c1 (rest1 @ concat (q # ps)) = (c2, o2, r2, rest2)"
      by (metis prod_cases4)
    with app Inr have eq: "c2 = c'" "os = o1 @ o2" "r2 = r" "rest2 = rest" by simp_all
    let ?c1 = "c1\<lparr>co_input_buf := b1\<rparr>"
    have "read_loop ?c1 (buf_get (co_input_buf ?c1) @ concat (q # ps)) = (c'\<lparr>co_input_buf := b1\<rparr>, o2, r, rest)"
      using read_loop_blind [of b1 c1 "rest1 @ concat (q # ps)"] 2 b1 eq by simp
    from Cons.IH [OF _ this] b1 obtain b' where
      "cfor receive (q # ps) ?c1 = Some (c'\<lparr>co_input_buf := b'\<rparr>, o2, r)"
      "r = Inr () \<longrightarrow> buf_invar b' \<and> buf_get b' = rest" by auto
    with b1 Inr eq show ?thesis
      by (intro exI [of _ b']) (simp add: cseq_def cbind_def)
  qed
qed

text \<open>
  C12: in which reads the peer's bytes arrive after the handshake does not matter to what is decoded from them. In
  the last part of \<^verbatim>\<open>process_ready_bytes\<close>, which feeds the receive buffer and handles every message it holds, two
  ways of cutting the same bytes collect the same outputs in the same order, end with the same result (the same error
  included), and leave the same state, in which the receive buffer holds the same unconsumed bytes (unless there was
  an error). The claim leaves out the first part of \<^verbatim>\<open>process_ready_bytes\<close>, whose byte count and acknowledgements do
  depend on the reads, and what the caller gets after an error, where the outputs of the failing read are dropped.
\<close>

theorem core_reads_do_not_matter:
  assumes "buf_invar (co_input_buf c)" and "concat (p # ps) = concat (q # qs)"
  shows "\<exists>c' os r b1 b2. cfor receive (p # ps) c = Some (c'\<lparr>co_input_buf := b1\<rparr>, os, r)
    \<and> cfor receive (q # qs) c = Some (c'\<lparr>co_input_buf := b2\<rparr>, os, r)
    \<and> (r = Inr () \<longrightarrow> buf_get b1 = buf_get b2)"
proof -
  obtain c' os r rest where rl: "read_loop c (buf_get (co_input_buf c) @ concat (p # ps)) = (c', os, r, rest)"
    by (metis prod_cases4)
  from receive_pieces [OF assms(1) rl] obtain b1 where
    1: "cfor receive (p # ps) c = Some (c'\<lparr>co_input_buf := b1\<rparr>, os, r)" "r = Inr () \<longrightarrow> buf_get b1 = rest" by blast
  from receive_pieces [OF assms(1) rl [unfolded assms(2)]] obtain b2 where
    2: "cfor receive (q # qs) c = Some (c'\<lparr>co_input_buf := b2\<rparr>, os, r)" "r = Inr () \<longrightarrow> buf_get b2 = rest" by blast
  show ?thesis
    by (intro exI [of _ c'] exI [of _ os] exI [of _ r] exI [of _ b1] exI [of _ b2]) (use 1 2 in simp)
qed

theorem core_reads_do_not_matter_witness:
  "\<exists>c' os r b1 b2. cfor receive [[3], [0, 0], [0]] core_new_client = Some (c'\<lparr>co_input_buf := b1\<rparr>, os, r)
    \<and> cfor receive [[3, 0], [0, 0]] core_new_client = Some (c'\<lparr>co_input_buf := b2\<rparr>, os, r)"
proof -
  have "buf_invar (co_input_buf core_new_client)" by (simp add: core_new_client_def core_new_def buf_defs)
  from core_reads_do_not_matter [OF this, of "[3]" "[[0, 0], [0]]" "[3, 0]" "[[0, 0]]"] show ?thesis by auto
qed

end
