(* ===== verification/Rtmp_Url.thy ===== *)
theory Rtmp_Url
  imports Rtmp_Bytes Rust_Strings
begin

text \<open>
  \<^verbatim>\<open>url.rs\<close>: addresses of the form \<^verbatim>\<open>rtmp[s]://host[:port]/app/stream_name\<close>. Strings are their UTF-8 bytes;
  the separators are ASCII, so searching bytes and searching characters agree.
\<close>

section \<open>Port numbers\<close>

text \<open>\<^verbatim>\<open>str::parse::<u16>\<close>: an optional plus sign, then digits, in range.\<close>

definition parse_u16 :: "string \<Rightarrow> u16 option" where
  "parse_u16 s =
     (let ds = (case s of c # cs \<Rightarrow> if c = CHR ''+'' then cs else s | [] \<Rightarrow> []) in
      if ds \<noteq> [] \<and> list_all is_ascii_digit ds \<and> decimal_value ds < 2 ^ 16
      then Some (of_nat (decimal_value ds)) else None)"

lemma parse_decimal: "parse_u16 (decimal (unat p)) = Some p"
proof -
  obtain c cs where d: "decimal (unat p) = c # cs" using decimal_props [of "unat p"] by (cases "decimal (unat p)") auto
  have "is_ascii_digit c" using decimal_props [of "unat p"] by (simp add: d)
  then have "c \<noteq> CHR ''+''" using not_digit(1) by metis
  moreover have "unat p < 2 ^ 16" using unsigned_less [of p] by simp
  ultimately show ?thesis using decimal_props [of "unat p"] by (simp add: parse_u16_def d)
qed

section \<open>Parsing\<close>

record rtmp_url =
  url_host :: string
  url_port :: u16
  url_app :: string
  url_stream_name :: string
  url_tls :: bool

text \<open>The host and the text of the port, when there is one.\<close>

definition split_host_port :: "string \<Rightarrow> error_kind + string \<times> string option" where
  "split_host_port host_port =
     (if take 1 host_port = ''['' then
        (case split_once '']'' host_port of
           None \<Rightarrow> Inl InvalidInput
         | Some (a, remainder) \<Rightarrow>
             let host = a @ '']'' in
             if remainder = [] then Inr (host, None)
             else if hd remainder = CHR '':'' then Inr (host, Some (tl remainder))
             else Inl InvalidInput)
      else if length (filter (\<lambda>c. c = CHR '':'') host_port) > 1 then Inl InvalidInput
      else
        (case rsplit_once (CHR '':'') host_port of
           Some (host, potential_port) \<Rightarrow>
             if list_all is_ascii_digit potential_port then Inr (host, Some potential_port)
             else Inl InvalidInput
         | None \<Rightarrow> Inr (host_port, None)))"

definition parse_host_port :: "string \<Rightarrow> bool \<Rightarrow> error_kind + string \<times> u16" where
  "parse_host_port host_port tls =
     sbind (split_host_port host_port) (\<lambda>(host, port_str).
       case port_str of
         Some port_s \<Rightarrow> (case parse_u16 port_s of None \<Rightarrow> Inl InvalidInput | Some p \<Rightarrow> Inr (host, p))
       | None \<Rightarrow> Inr (host, if tls then 443 else 1935))"

definition parse_scheme_and_host_port :: "string \<Rightarrow> error_kind + bool \<times> string \<times> u16 \<times> string" where
  "parse_scheme_and_host_port s =
     sbind (ok_or InvalidInput (split_once ''://'' s)) (\<lambda>(scheme, rest).
     sbind (if scheme = ''rtmp'' then Inr False else if scheme = ''rtmps'' then Inr True
            else Inl InvalidInput) (\<lambda>tls.
     sbind (ok_or InvalidInput (split_once ''/'' rest)) (\<lambda>(host_port, path).
     sbind (parse_host_port host_port tls) (\<lambda>(host, port).
       if host = [] then Inl InvalidInput else Inr (tls, host, port, path)))))"

definition url_parse :: "string \<Rightarrow> error_kind + rtmp_url" where
  "url_parse s =
     sbind (parse_scheme_and_host_port s) (\<lambda>(tls, host, port, path).
     sbind (ok_or InvalidInput (rsplit_once (CHR ''/'') path)) (\<lambda>(app, stream_name).
       if app = [] then Inl InvalidInput
       else if stream_name = [] then Inl InvalidInput
       else Inr \<lparr>url_host = host, url_port = port, url_app = app, url_stream_name = stream_name,
                 url_tls = tls\<rparr>))"

definition url_parse_with_stream_name :: "string \<Rightarrow> string \<Rightarrow> error_kind + rtmp_url" where
  "url_parse_with_stream_name s stream_name =
     sbind (parse_scheme_and_host_port s) (\<lambda>(tls, host, port, app).
       if app = [] then Inl InvalidInput
       else if stream_name = [] then Inl InvalidInput
       else Inr \<lparr>url_host = host, url_port = port, url_app = app, url_stream_name = stream_name,
                 url_tls = tls\<rparr>)"

definition url_display :: "rtmp_url \<Rightarrow> string" where
  "url_display u =
     (if url_tls u then ''rtmps'' else ''rtmp'') @ ''://'' @ url_host u @ '':'' @ decimal (unat (url_port u))
     @ ''/'' @ url_app u @ ''/'' @ url_stream_name u"

section \<open>Well-formed addresses\<close>

text \<open>A host is either in brackets, with no other closing bracket, or free of colons.\<close>

definition host_wf :: "string \<Rightarrow> bool" where
  "host_wf host \<longleftrightarrow>
     host \<noteq> [] \<and> CHR ''/'' \<notin> set host
     \<and> (if hd host = CHR ''['' then last host = CHR '']'' \<and> CHR '']'' \<notin> set (butlast host)
        else CHR '':'' \<notin> set host)"

definition url_wf :: "rtmp_url \<Rightarrow> bool" where
  "url_wf u \<longleftrightarrow> host_wf (url_host u) \<and> url_app u \<noteq> [] \<and> url_stream_name u \<noteq> []
     \<and> CHR ''/'' \<notin> set (url_stream_name u)"

lemma filter_absent: "d \<notin> set x \<Longrightarrow> filter (\<lambda>c. c = d) x = []"
  by (auto simp: filter_empty_conv)

lemma split_host_port_wf:
  assumes "host_wf host" and "list_all is_ascii_digit ds"
  shows "split_host_port (host @ '':'' @ ds) = Inr (host, Some ds)"
proof (cases "hd host = CHR ''[''")
  case True
  with assms(1) have h: "host = butlast host @ '']''" "CHR '']'' \<notin> set (butlast host)" "take 1 host = ''[''"
    by (auto simp: host_wf_def take_Suc) (metis append_butlast_last_id)
  have t: "take 1 (host @ '':'' @ ds) = ''[''" using h(3) assms(1) by (cases host) (auto simp: host_wf_def)
  have "host @ '':'' @ ds = butlast host @ CHR '']'' # '':'' @ ds" by (subst h(1)) simp
  then have "split_once '']'' (host @ '':'' @ ds) = Some (butlast host, '':'' @ ds)"
    using split_once_char_append [OF h(2)] by metis
  then show ?thesis using t h(1) by (simp add: split_host_port_def)
next
  case False
  have nc: "CHR '':'' \<notin> set ds" using assms(2) not_digit(2) by (auto simp: list_all_iff)
  have nh: "CHR '':'' \<notin> set host" using assms(1) False by (auto simp: host_wf_def)
  have t: "take 1 (host @ '':'' @ ds) \<noteq> ''[''" using False assms(1) by (cases host) (auto simp: host_wf_def)
  have f: "filter (\<lambda>c. c = CHR '':'') (host @ '':'' @ ds) = '':''"
    by (simp add: filter_absent [OF nc] filter_absent [OF nh])
  have r: "rsplit_once (CHR '':'') (host @ '':'' @ ds) = Some (host, ds)"
    using nc by (simp add: rsplit_once_Some)
  show ?thesis using t f r assms(2) by (simp add: split_host_port_def)
qed

lemma split_host_port_Inr:
  assumes "split_host_port hp = Inr (host, p)" and "host \<noteq> []" and "CHR ''/'' \<notin> set hp"
  shows "host_wf host"
proof (cases "take 1 hp = ''[''")
  case True
  then obtain a r where s: "split_once '']'' hp = Some (a, r)" and host: "host = a @ '']''"
    using assms(1) by (auto simp: split_host_port_def Let_def split: option.splits if_splits)
  from s have hp: "hp = a @ CHR '']'' # r" and a: "CHR '']'' \<notin> set a" by (auto simp: split_once_char_Some)
  have "hd host = CHR ''[''" using True by (cases a) (auto simp: hp host)
  with a host assms(3) hp show ?thesis by (auto simp: host_wf_def)
next
  case False
  have one: "length (filter (\<lambda>c. c = CHR '':'') hp) \<le> 1"
    using assms(1) False by (auto simp: split_host_port_def split: if_splits)
  show ?thesis
  proof (cases "rsplit_once (CHR '':'') hp")
    case None
    with assms False one have "host = hp" by (simp add: split_host_port_def)
    moreover have "CHR '':'' \<notin> set hp" using None by (simp add: rsplit_once_None)
    moreover have "hd hp \<noteq> CHR ''[''" using False assms(2) \<open>host = hp\<close> by (cases hp) auto
    ultimately show ?thesis using assms(2,3) by (simp add: host_wf_def)
  next
    case (Some ab)
    obtain a b where ab: "ab = (a, b)" by (cases ab)
    with Some have "hp = a @ CHR '':'' # b" by (simp add: rsplit_once_Some)
    moreover have "a = host"
      using Some ab assms(1) False one by (auto simp: split_host_port_def split: if_split_asm)
    ultimately have hp: "hp = host @ CHR '':'' # b" by simp
    with one have "filter (\<lambda>c. c = CHR '':'') host = []" by simp
    then have "CHR '':'' \<notin> set host" by (auto simp: filter_empty_conv)
    with hp assms(2,3) False show ?thesis by (cases host) (auto simp: host_wf_def)
  qed
qed

lemma split_once_scheme:
  "split_once ''://'' (''rtmp://'' @ s) = Some (''rtmp'', s)"
  "split_once ''://'' (''rtmps://'' @ s) = Some (''rtmps'', s)"
  by (simp_all add: split_once.simps [of "''://''"])

lemma url_parse_display: "url_wf u \<Longrightarrow> url_parse (url_display u) = Inr u"
proof -
  assume wf: "url_wf u"
  let ?hp = "url_host u @ '':'' @ decimal (unat (url_port u))"
  let ?path = "url_app u @ CHR ''/'' # url_stream_name u"
  have "CHR ''/'' \<notin> set (decimal (unat (url_port u)))"
    using decimal_props [of "unat (url_port u)"] not_digit(3) by (auto simp: list_all_iff)
  then have "CHR ''/'' \<notin> set ?hp" using wf by (auto simp: url_wf_def host_wf_def)
  then have h: "split_once ''/'' (?hp @ CHR ''/'' # ?path) = Some (?hp, ?path)"
    by (rule split_once_char_append)
  have p: "parse_host_port ?hp (url_tls u) = Inr (url_host u, url_port u)"
    using wf decimal_props [of "unat (url_port u)"] split_host_port_wf [of "url_host u" "decimal (unat (url_port u))"]
    by (simp add: parse_host_port_def url_wf_def parse_decimal)
  have "split_once ''://'' (url_display u) =
      Some (if url_tls u then ''rtmps'' else ''rtmp'', ?hp @ CHR ''/'' # ?path)"
    using split_once_scheme [of "?hp @ CHR ''/'' # ?path"] by (simp add: url_display_def)
  then have "parse_scheme_and_host_port (url_display u) = Inr (url_tls u, url_host u, url_port u, ?path)"
    using h p wf by (cases "url_tls u") (simp_all add: parse_scheme_and_host_port_def ok_or_def url_wf_def host_wf_def)
  moreover have "rsplit_once (CHR ''/'') ?path = Some (url_app u, url_stream_name u)"
    using wf by (simp add: rsplit_once_Some url_wf_def)
  ultimately show ?thesis using wf by (simp add: url_parse_def ok_or_def url_wf_def)
qed

lemma ok_or_Inr: "ok_or e x = Inr v \<longleftrightarrow> x = Some v"
  by (cases x) (simp_all add: ok_or_def)

lemma url_parse_wf:
  assumes "url_parse s = Inr u"
  shows "url_wf u"
proof -
  from assms obtain path where
    p: "parse_scheme_and_host_port s = Inr (url_tls u, url_host u, url_port u, path)"
    and r: "rsplit_once (CHR ''/'') path = Some (url_app u, url_stream_name u)"
    and ne: "url_app u \<noteq> []" "url_stream_name u \<noteq> []"
    by (auto simp: url_parse_def sbind_eq_Inr_iff ok_or_Inr split: if_split_asm)
  from p obtain rest hp where
    hp: "split_once ''/'' rest = Some (hp, path)" and h: "parse_host_port hp (url_tls u) = Inr (url_host u, url_port u)"
    and nh: "url_host u \<noteq> []"
    unfolding parse_scheme_and_host_port_def sbind_eq_Inr_iff ok_or_Inr split_paired_Ex case_prod_conv
    by (elim exE conjE) (simp only: sum.inject prod.inject sum.distinct simp_thms split: if_split_asm; blast)
  from h obtain q where "split_host_port hp = Inr (url_host u, q)"
    by (auto simp: parse_host_port_def sbind_eq_Inr_iff split: option.splits)
  moreover have "CHR ''/'' \<notin> set hp" using hp by (simp add: split_once_char_Some)
  ultimately have "host_wf (url_host u)" using nh by (intro split_host_port_Inr)
  with r ne show ?thesis by (simp add: url_wf_def rsplit_once_Some)
qed

text \<open>
  The address parser and \<^verbatim>\<open>Display\<close> are inverse: exactly the well-formed addresses are recovered from
  their text, and whatever text the parser accepts, the address it returns is well-formed, so that
  displaying and parsing it again changes nothing.
\<close>

lemma url_roundtrip:
  "(url_wf u \<longleftrightarrow> url_parse (url_display u) = Inr u)
   \<and> (url_parse s = Inr v \<longrightarrow> url_wf v \<and> url_parse (url_display v) = Inr v)"
  using url_parse_display url_parse_wf by blast

lemma url_roundtrip_witness:
  "\<exists>v. url_parse ''rtmps://[::1]/live/a/b'' = Inr v \<and> url_port v = 443 \<and> url_app v = ''live/a''
     \<and> url_parse (url_display v) = Inr v"
proof -
  let ?v = "\<lparr>url_host = ''[::1]'', url_port = 443, url_app = ''live/a'', url_stream_name = ''b'', url_tls = True\<rparr>"
  have p: "url_parse ''rtmps://[::1]/live/a/b'' = Inr ?v" by code_simp
  with url_roundtrip [of ?v "''rtmps://[::1]/live/a/b''" ?v] show ?thesis by simp
qed

end
