(* ===== verification/Rtp_Ehome.thy ===== *)
theory Rtp_Ehome
  imports Stream_Decoder
begin

text \<open>
  The decoder of the Hikvision Ehome2 TCP stream, \<^verbatim>\<open>EhomeDecoder\<close> in
  \<^verbatim>\<open>src/crates/foundation/cheetah-codec/src/rtp.rs\<close>: an optional preamble of 256 bytes, an SSRC packet, a
  codec packet, media packets. A panic (an index out of range) is \<open>None\<close>.
\<close>

record ehome_codec_info =
  ec_payload_type :: string
  ec_video_codec :: "string option"
  ec_audio_codec :: "string option"
  ec_channels :: u8
  ec_sample_bit :: u8
  ec_sample_rate :: u32

text \<open>The SSRC string has one character per byte, below 256; it is kept as its bytes.\<close>

datatype ehome_output =
  HandshakeSsrc bytes
| HandshakeCodec ehome_codec_info
| MediaPayload bytes

record ehome_decoder =
  ed_packet_seq :: nat
  ed_ssrc :: "bytes option"
  ed_codec_info :: "ehome_codec_info option"
  ed_is_ehome2 :: bool
  ed_first_packet :: bool

definition ehome_new :: ehome_decoder where
  "ehome_new = \<lparr>ed_packet_seq = 0, ed_ssrc = None, ed_codec_info = None, ed_is_ehome2 = False, ed_first_packet = True\<rparr>"

text \<open>What the first bytes say: the decoder and the buffer to go on with, or wait for more.\<close>

definition ehome_preamble :: "ehome_decoder \<Rightarrow> bytes \<Rightarrow> ehome_decoder \<times> bytes \<times> bool" where
  "ehome_preamble d buf =
     (if \<not> ed_first_packet d then (d, buf, True)
      else if length buf < 3 then
        (if buf \<noteq> [] \<and> buf ! 0 \<noteq> 1 \<or> length buf \<ge> 2 \<and> buf ! 1 \<noteq> 0 then (d\<lparr>ed_first_packet := False\<rparr>, buf, True)
         else (d, buf, False))
      else if buf ! 0 = 1 \<and> buf ! 1 = 0 \<and> (buf ! 2 = 1 \<or> buf ! 2 = 2) then
        (if length buf < 256 then (d, buf, False)
         else (d\<lparr>ed_is_ehome2 := True, ed_first_packet := False\<rparr>, drop 256 buf, True))
      else (d\<lparr>ed_first_packet := False\<rparr>, buf, True))"

definition le16 :: "u8 \<Rightarrow> u8 \<Rightarrow> nat" where "le16 a b = unat a + 256 * unat b"
definition be16 :: "u8 \<Rightarrow> u8 \<Rightarrow> nat" where "be16 a b = 256 * unat a + unat b"

text \<open>A field holds one of the codes, in either byte order.\<close>

definition either_order :: "u8 \<Rightarrow> u8 \<Rightarrow> nat list \<Rightarrow> bool" where
  "either_order a b codes \<longleftrightarrow> (le16 a b \<in> set codes \<or> be16 a b \<in> set codes)"

text \<open>The codec packet reads the bytes 12 to 21.\<close>

definition ehome_codec_of :: "bytes \<Rightarrow> ehome_codec_info option" where
  "ehome_codec_of p =
     (if length p \<le> 21 then None
      else
        let payload_type = (if p ! 12 = 2 then ''ps'' else ''nalu'');
            video = (if either_order (p ! 14) (p ! 15) [0x0100, 0x0001] then Some ''h264''
                     else if either_order (p ! 14) (p ! 15) [0x0005, 0x0500] then Some ''h265'' else None);
            audio = (if either_order (p ! 16) (p ! 17) [0x7111, 0x1171] then Some ''g711a''
                     else if either_order (p ! 16) (p ! 17) [0x7110, 0x1071] then Some ''g711u''
                     else if either_order (p ! 16) (p ! 17) [0x2001, 0x0120] then Some ''aac'' else None);
            le = le16 (p ! 20) (p ! 21);
            rate = (if le > 0 \<and> le < 96000 then le else be16 (p ! 20) (p ! 21))
        in Some \<lparr>ec_payload_type = payload_type, ec_video_codec = video, ec_audio_codec = audio,
             ec_channels = p ! 18, ec_sample_bit = p ! 19, ec_sample_rate = of_nat rate\<rparr>)"

text \<open>One complete packet.\<close>

definition ehome_packet :: "ehome_decoder \<Rightarrow> bytes \<Rightarrow> (ehome_decoder \<times> ehome_output list) option" where
  "ehome_packet d p =
     (if ed_packet_seq d = 0 then
        let ssrc = takeWhile (\<lambda>b. b \<noteq> 0) p
        in Some (d\<lparr>ed_packet_seq := 1, ed_ssrc := Some ssrc\<rparr>, [HandshakeSsrc ssrc])
      else if ed_packet_seq d = 1 then
        let d = d\<lparr>ed_packet_seq := 2\<rparr>
        in if length p \<ge> 20 then
             map_option (\<lambda>codec. (d\<lparr>ed_codec_info := Some codec\<rparr>, [HandshakeCodec codec])) (ehome_codec_of p)
           else Some (d, [])
      else if length p > 4 then Some (d, [MediaPayload (drop 4 p)])
      else Some (d, []))"

function ehome_loop :: "ehome_decoder \<Rightarrow> bytes \<Rightarrow> (ehome_decoder \<times> bytes \<times> ehome_output list) option" where
  "ehome_loop d buf =
     (if length buf < 4 then Some (d, buf, [])
      else
        let total_len = 4 + be16 (buf ! 2) (buf ! 3)
        in if length buf < total_len then Some (d, buf, [])
           else
             (case ehome_packet d (take (total_len - 4) (drop 4 buf)) of
                None \<Rightarrow> None
              | Some (d, out) \<Rightarrow> map_option (\<lambda>(d, rest, outs). (d, rest, out @ outs)) (ehome_loop d (drop total_len buf))))"
  by pat_completeness auto
termination
  by (relation "measure (\<lambda>(d, buf). length buf)") auto

declare ehome_loop.simps [simp del]

definition ehome_decode :: "ehome_decoder \<Rightarrow> bytes \<Rightarrow> (ehome_decoder \<times> bytes \<times> ehome_output list) option" where
  "ehome_decode d buf =
     (case ehome_preamble d buf of
        (d, buf, False) \<Rightarrow> Some (d, buf, [])
      | (d, buf, True) \<Rightarrow> ehome_loop d buf)"


section \<open>As an incremental decoder\<close>

text \<open>One step of the decoder: the preamble, or one packet. The errors are "more bytes" and the panic.\<close>

datatype ehome_stop = EhomeWait | EhomePanic

definition ehome_step :: "ehome_decoder \<Rightarrow> bytes \<Rightarrow> ehome_decoder \<times> (ehome_stop + nat \<times> ehome_output list option)" where
  "ehome_step d buf =
     (case ehome_preamble d buf of
        (d, buf', False) \<Rightarrow> (d, Inl EhomeWait)
      | (d, buf', True) \<Rightarrow>
          if length buf' < length buf then (d, Inr (256, None))
          else if length buf < 4 \<or> length buf < 4 + be16 (buf ! 2) (buf ! 3) then (d, Inl EhomeWait)
          else
            (case ehome_packet d (take (be16 (buf ! 2) (buf ! 3)) (drop 4 buf)) of
               None \<Rightarrow> (d, Inl EhomePanic)
             | Some (d, out) \<Rightarrow> (d, Inr (4 + be16 (buf ! 2) (buf ! 3), Some out))))"

lemma ehome_preamble_started [simp]: "\<not> ed_first_packet d \<Longrightarrow> ehome_preamble d buf = (d, buf, True)"
  by (simp add: ehome_preamble_def)

lemma ehome_preamble_cases:
  obtains (go) d' where "ehome_preamble d buf = (d', buf, True)" "\<not> ed_first_packet d'"
      "\<And>x. ehome_preamble d (buf @ x) = (d', buf @ x, True)"
  | (skip) d' where "ehome_preamble d buf = (d', drop 256 buf, True)" "\<not> ed_first_packet d'" "256 \<le> length buf"
      "\<And>x. ehome_preamble d (buf @ x) = (d', drop 256 (buf @ x), True)"
  | (wait) "ehome_preamble d buf = (d, buf, False)"
proof -
  consider "\<not> ed_first_packet d"
    | "ed_first_packet d" "length buf < 3" "buf \<noteq> [] \<and> buf ! 0 \<noteq> 1 \<or> length buf \<ge> 2 \<and> buf ! 1 \<noteq> 0"
    | "ed_first_packet d" "length buf < 3" "\<not> (buf \<noteq> [] \<and> buf ! 0 \<noteq> 1 \<or> length buf \<ge> 2 \<and> buf ! 1 \<noteq> 0)"
    | "ed_first_packet d" "3 \<le> length buf" "buf ! 0 = 1 \<and> buf ! 1 = 0 \<and> (buf ! 2 = 1 \<or> buf ! 2 = 2)" "length buf < 256"
    | "ed_first_packet d" "256 \<le> length buf" "buf ! 0 = 1 \<and> buf ! 1 = 0 \<and> (buf ! 2 = 1 \<or> buf ! 2 = 2)"
    | "ed_first_packet d" "3 \<le> length buf" "\<not> (buf ! 0 = 1 \<and> buf ! 1 = 0 \<and> (buf ! 2 = 1 \<or> buf ! 2 = 2))"
    by linarith
  then show thesis
  proof cases
    case 2
    then have "ehome_preamble d (buf @ x) = (d\<lparr>ed_first_packet := False\<rparr>, buf @ x, True)" for x
      by (cases buf) (auto simp: ehome_preamble_def nth_append Suc_le_eq split: if_splits)
    from this [of "[]"] this show thesis by (intro go [of "d\<lparr>ed_first_packet := False\<rparr>"]) simp_all
  next
    case 5
    then have "buf \<noteq> []" by auto
    with 5 show thesis
      by (intro skip [of "d\<lparr>ed_is_ehome2 := True, ed_first_packet := False\<rparr>"])
        (simp_all add: ehome_preamble_def nth_append)
  next
    case 6
    then show thesis
      by (intro go [of "d\<lparr>ed_first_packet := False\<rparr>"]) (auto simp: ehome_preamble_def nth_append)
  qed (auto simp: ehome_preamble_def intro: go wait)
qed

interpretation ehome: incremental_decoder ehome_step EhomeWait
proof
  show "0 < n \<and> n \<le> length b" if "ehome_step s b = (s', Inr (n, c))" for s b s' n c
    using that
    by (cases rule: ehome_preamble_cases [of s b]) (auto simp: ehome_step_def split: if_splits option.splits)
  show "ehome_step s (b @ x) = (s', Inr (n, c))" if "ehome_step s b = (s', Inr (n, c))" for s b s' n c x
    using that
    by (cases rule: ehome_preamble_cases [of s b])
      (auto simp: ehome_step_def nth_append split: if_splits option.splits)
  show "ehome_step s (b @ x) = (s', Inl e)" if "ehome_step s b = (s', Inl e)" "e \<noteq> EhomeWait" for s b s' e x
    using that
    by (cases rule: ehome_preamble_cases [of s b])
      (auto simp: ehome_step_def nth_append split: if_splits option.splits)
  show "ehome_step s' (b @ x) = ehome_step s (b @ x)" if "ehome_step s b = (s', Inl EhomeWait)" for s b s' x
    using that
    by (cases rule: ehome_preamble_cases [of s b])
      (auto simp: ehome_step_def nth_append split: if_splits option.splits)
qed


lemma ehome_loop_drain:
  assumes "\<not> ed_first_packet d"
  shows "ehome_loop d buf =
    (case drain ehome_step d buf of
       (d', e, cs, r) \<Rightarrow> if e = Some EhomeWait then Some (d', r, concat cs) else None)"
  using assms
proof (induction d buf rule: ehome_loop.induct)
  case (1 d buf)
  let ?n = "be16 (buf ! 2) (buf ! 3)"
  show ?case
  proof (cases "length buf < 4 \<or> length buf < 4 + ?n")
    case True
    then have "ehome_step d buf = (d, Inl EhomeWait)" using 1(2) by (auto simp: ehome_step_def)
    moreover have "ehome_loop d buf = Some (d, buf, [])"
      by (subst ehome_loop.simps) (use True in \<open>auto simp: Let_def\<close>)
    ultimately show ?thesis by (simp add: ehome.drain_Inl)
  next
    case c: False
    show ?thesis
    proof (cases "ehome_packet d (take ?n (drop 4 buf))")
      case None
      then have "ehome_step d buf = (d, Inl EhomePanic)" using 1(2) c by (auto simp: ehome_step_def)
      moreover have "ehome_loop d buf = None"
      by (subst ehome_loop.simps) (use c None in \<open>simp add: Let_def\<close>)
    ultimately show ?thesis by (simp add: ehome.drain_Inl)
    next
      case (Some r)
      obtain d' out where r: "r = (d', out)" by fastforce
      with Some have st: "ehome_step d buf = (d', Inr (4 + ?n, Some out))" using 1(2) c by (auto simp: ehome_step_def)
      have "\<not> ed_first_packet d'"
        using Some r 1(2) by (auto simp: ehome_packet_def Let_def split: if_splits)
      note nf = this
      have ih: "ehome_loop d' (drop (4 + ?n) buf) =
        (case drain ehome_step d' (drop (4 + ?n) buf) of
           (d', e, cs, r) \<Rightarrow> if e = Some EhomeWait then Some (d', r, concat cs) else None)"
        by (rule 1(1) [of "4 + ?n" "(d', out)" d' out]) (use c Some r nf in simp_all)
      have "ehome_loop d buf = map_option (\<lambda>(d, rest, outs). (d, rest, out @ outs)) (ehome_loop d' (drop (4 + ?n) buf))"
        by (subst ehome_loop.simps) (use c Some r in \<open>simp add: Let_def\<close>)
      with ih show ?thesis by (simp add: ehome.drain_Inr [OF st] split: prod.splits)
    qed
  qed
qed

lemma ehome_decode_drain:
  "ehome_decode d buf =
    (case drain ehome_step d buf of
       (d', e, cs, r) \<Rightarrow> if e = Some EhomeWait then Some (d', r, concat cs) else None)"
proof (cases rule: ehome_preamble_cases [of d buf])
  case (go d')
  from go(1,2) have "ehome_step d buf = ehome_step d' buf" by (simp add: ehome_step_def)
  from ehome.drain_same_step [OF this] go(1) ehome_loop_drain [OF go(2), of buf] show ?thesis
    by (simp add: ehome_decode_def)
next
  case (skip d')
  from skip(1,3) have "ehome_step d buf = (d', Inr (256, None))" by (simp add: ehome_step_def)
  from ehome.drain_Inr [OF this] skip ehome_loop_drain [OF skip(2), of "drop 256 buf"] show ?thesis
    by (simp add: ehome_decode_def split: prod.splits)
next
  case wait
  then have "ehome_step d buf = (d, Inl EhomeWait)" by (simp add: ehome_step_def)
  with wait show ?thesis by (simp add: ehome_decode_def ehome.drain_Inl)
qed

section \<open>Properties\<close>

text \<open>The caller's loop: a buffer the received pieces are appended to, decoded after each.\<close>

fun ehome_decode_pieces ::
  "ehome_decoder \<Rightarrow> bytes \<Rightarrow> bytes list \<Rightarrow> (ehome_decoder \<times> bytes \<times> ehome_output list) option" where
  "ehome_decode_pieces d rest [] = Some (d, rest, [])"
| "ehome_decode_pieces d rest (p # ps) =
     (case ehome_decode d (rest @ p) of
        None \<Rightarrow> None
      | Some (d, rest, outs) \<Rightarrow>
          map_option (\<lambda>(d, rest, outs'). (d, rest, outs @ outs')) (ehome_decode_pieces d rest ps))"

lemma ehome_decode_pieces_drain:
  "ehome_decode_pieces d rest ps =
    (case drain_pieces ehome_step EhomeWait d rest ps of
       (d', e, cs, r) \<Rightarrow> if e = Some EhomeWait then Some (d', r, concat cs) else None)"
  by (induction ps arbitrary: d rest) (auto simp: ehome_decode_drain split: prod.splits)

text \<open>
  C36: an Ehome stream may be cut anywhere: a decoder that is fed the stream in pieces, keeping what it left
  over, returns the packets, the last state and the rest that it returns for the whole stream at once, and
  panics exactly if it would then.
\<close>

theorem ehome_pieces_equal_whole:
  "ehome_decode_pieces ehome_new [] ps = ehome_decode ehome_new (concat ps)"
proof -
  have "drain ehome_step ehome_new [] = (ehome_new, Some EhomeWait, [], [])"
    by (rule ehome.drain_Inl) (simp add: ehome_step_def ehome_preamble_def ehome_new_def)
  from ehome.drain_pieces_concat [OF this, of ps] show ?thesis
    by (simp add: ehome_decode_pieces_drain ehome_decode_drain)
qed

text \<open>
  A codec packet of 20 or 21 bytes stops the program: the length is checked against 20, the sample rate
  is read from the bytes 20 and 21. Every other packet is decoded.
\<close>

lemma ehome_packet_panics_iff:
  "ehome_packet d p = None \<longleftrightarrow> ed_packet_seq d = 1 \<and> length p \<in> {20, 21}"
  by (auto simp: ehome_packet_def ehome_codec_of_def Let_def)

lemma ehome_codec_packet_panics:
  "ehome_decode ehome_new ([0, 0, 0, 1, 0x37, 0, 0, 0, 20] @ replicate 20 7) = None"
proof -
  let ?q = "[0, 0, 0, 20] @ replicate 20 (7 :: u8)"
  define d where "d = ehome_new\<lparr>ed_first_packet := False\<rparr>"
  have "ehome_loop (d\<lparr>ed_packet_seq := 1, ed_ssrc := Some [0x37]\<rparr>) ?q = None"
    by (subst ehome_loop.simps) (simp add: be16_def ehome_packet_def ehome_codec_of_def)
  moreover have "ehome_packet d [0x37] = Some (d\<lparr>ed_packet_seq := 1, ed_ssrc := Some [0x37]\<rparr>, [HandshakeSsrc [0x37]])"
    by (simp add: d_def ehome_new_def ehome_packet_def Let_def)
  ultimately have "ehome_loop d ([0, 0, 0, 1, 0x37] @ ?q) = None"
    by (subst ehome_loop.simps) (simp add: be16_def)
  then show ?thesis by (simp add: ehome_decode_def ehome_preamble_def ehome_new_def d_def)
qed

end
