(* ===== verification/Rtp_Pt.thy ===== *)
theory Rtp_Pt
  imports Rtp_Packet Codec_Track
begin

text \<open>
  \<^verbatim>\<open>src/crates/foundation/cheetah-codec/src/rtp_pt.rs\<close>: from an RTP payload type, and the payload when the type
  says nothing, to the way the payload is read.
\<close>

record rtp_payload_profile =
  pr_mode :: rtp_payload_mode
  pr_clock_rate_hz :: nat
  pr_codec :: "codec_id option"

datatype rtp_pt_resolve_source =
  PtBinding rtp_payload_profile
| PtStatic rtp_payload_profile
| PtEncapsulation rtp_payload_profile
| PtWeak rtp_payload_profile
| PtUnknown

fun pt_source_profile :: "rtp_pt_resolve_source \<Rightarrow> rtp_payload_profile option" where
  "pt_source_profile (PtBinding p) = Some p"
| "pt_source_profile (PtStatic p) = Some p"
| "pt_source_profile (PtEncapsulation p) = Some p"
| "pt_source_profile (PtWeak p) = Some p"
| "pt_source_profile PtUnknown = None"

definition payload_profile_new :: "rtp_payload_mode \<Rightarrow> nat \<Rightarrow> rtp_payload_profile" where
  "payload_profile_new mode clock_rate_hz = \<lparr>pr_mode = mode, pr_clock_rate_hz = clock_rate_hz, pr_codec = None\<rparr>"

definition with_codec :: "rtp_payload_profile \<Rightarrow> codec_id option \<Rightarrow> rtp_payload_profile" where
  "with_codec p codec = p\<lparr>pr_codec := codec\<rparr>"

definition starts_with :: "'a list \<Rightarrow> 'a list \<Rightarrow> bool" where
  "starts_with p xs \<longleftrightarrow> take (length p) xs = p"

definition strip_start_code :: "bytes \<Rightarrow> bytes" where
  "strip_start_code payload =
     (if starts_with [0, 0, 0, 1] payload then drop 4 payload
      else if starts_with [0, 0, 1] payload then drop 3 payload else payload)"

definition probe_es_codec :: "bytes \<Rightarrow> codec_id option" where
  "probe_es_codec payload =
     (let unit = strip_start_code payload in
      if unit = [] then None
      else if unit ! 0 AND 0x80 = 0 \<and> unit ! 0 AND 0x1f \<in> {5, 7, 8} then Some H264
      else if length unit \<ge> 2 then
        let h265_type = drop_bit 1 (unit ! 0) AND 0x3f;
            tid = unit ! 1 AND 0x07;
            layer_id = push_bit 5 (unit ! 0 AND 0x01) OR drop_bit 3 (unit ! 1);
            is_vcl_irap = (16 \<le> h265_type \<and> h265_type \<le> 21)
        in if unit ! 0 AND 0x80 = 0 \<and> layer_id = 0 \<and> (1 \<le> tid \<and> tid \<le> 8)
              \<and> (h265_type \<in> {32, 33, 34} \<or> is_vcl_irap)
           then (if \<not> is_vcl_irap \<or> length unit < 3 \<or> unit ! 2 AND 0x80 \<noteq> 0 then Some H265 else None)
           else None
      else None)"

definition default_clock_rate_for_mode :: "rtp_payload_mode \<Rightarrow> nat" where
  "default_clock_rate_for_mode mode = (if mode = RawAudio then 8000 else 90000)"

definition static_profile :: "u8 \<Rightarrow> rtp_payload_profile option" where
  "static_profile pt =
     (if pt \<in> {0, 3, 4, 8, 9, 12, 13, 15, 18} then Some (payload_profile_new RawAudio 8000)
      else if pt \<in> {10, 11} then Some (payload_profile_new RawAudio 44100)
      else if pt \<in> {31, 32, 34} then Some (payload_profile_new Es 90000)
      else if pt = 33 then Some (payload_profile_new Ts 90000)
      else None)"

definition weak_sniff_profile :: "bytes \<Rightarrow> rtp_payload_profile option" where
  "weak_sniff_profile payload =
     (if payload = [] then None
      else if length payload \<ge> 5 \<and> starts_with [0, 0, 0, 1] payload \<and> payload ! 4 < 0x80
         \<or> length payload \<ge> 4 \<and> starts_with [0, 0, 1] payload \<and> payload ! 3 < 0x80
      then Some (with_codec (payload_profile_new Es 90000) (probe_es_codec payload))
      else if length payload \<ge> 2 \<and> payload ! 0 = 0xFF \<and> payload ! 1 AND 0xF0 = 0xF0
      then Some (payload_profile_new RawAudio 90000)
      else None)"

type_synonym rtp_pt_resolver = "u8 \<rightharpoonup> rtp_payload_profile"

definition pt_bind :: "rtp_pt_resolver \<Rightarrow> u8 \<Rightarrow> rtp_payload_profile \<Rightarrow> rtp_pt_resolver" where
  "pt_bind r payload_type profile = r(payload_type \<mapsto> profile)"

definition resolve_with_source :: "rtp_pt_resolver \<Rightarrow> u8 \<Rightarrow> bytes \<Rightarrow> rtp_pt_resolve_source" where
  "resolve_with_source r payload_type payload =
     (case r payload_type of
        Some profile \<Rightarrow> PtBinding profile
      | None \<Rightarrow>
          case static_profile payload_type of
            Some profile \<Rightarrow> PtStatic profile
          | None \<Rightarrow>
              let mode = probe_rtp_payload payload
              in if mode \<noteq> UnknownMode
                 then PtEncapsulation (with_codec (payload_profile_new mode (default_clock_rate_for_mode mode))
                        (if mode = Es then probe_es_codec payload else None))
                 else (case weak_sniff_profile payload of Some profile \<Rightarrow> PtWeak profile | None \<Rightarrow> PtUnknown))"

definition pt_resolve :: "rtp_pt_resolver \<Rightarrow> u8 \<Rightarrow> bytes \<Rightarrow> rtp_payload_profile option" where
  "pt_resolve r payload_type payload = pt_source_profile (resolve_with_source r payload_type payload)"

text \<open>A resolved profile always names a mode, so a session that takes it is no longer unresolved.\<close>

lemma resolved_mode_known:
  assumes "\<And>pt p. r pt = Some p \<Longrightarrow> pr_mode p \<noteq> UnknownMode" and "pt_resolve r pt payload = Some p"
  shows "pr_mode p \<noteq> UnknownMode"
proof -
  have s: "static_profile pt = Some q \<Longrightarrow> pr_mode q \<noteq> UnknownMode" for q
    by (auto simp: static_profile_def payload_profile_new_def split: if_splits)
  have w: "weak_sniff_profile payload = Some q \<Longrightarrow> pr_mode q \<noteq> UnknownMode" for q
    by (auto simp: weak_sniff_profile_def payload_profile_new_def with_codec_def split: if_splits)
  show ?thesis
    using assms s w
    by (auto simp: pt_resolve_def resolve_with_source_def Let_def with_codec_def payload_profile_new_def
        split: option.splits if_splits)
qed

end
