(* ===== verification/Rtp_Reorder.thy ===== *)
theory Rtp_Reorder
  imports Rtp_Sequence "HOL-Library.Multiset"
begin

text \<open>
  \<^verbatim>\<open>rtp_reorder.rs\<close>, the reorder buffer: packets ahead of the expected number wait, packets behind it are
  dropped, and waiting packets are released when the gap closes, when too many wait or when one has
  waited too long. Arrival times are \<open>nat\<close>: the code only compares and subtracts them (saturating).
\<close>

section \<open>The buffer\<close>

record reorder_settings =
  rs_max_packets :: nat
  rs_max_delay_ms :: nat

definition reorder_settings_default :: reorder_settings where
  "reorder_settings_default = \<lparr>rs_max_packets = 2, rs_max_delay_ms = 40\<rparr>"

record 'a pending_packet =
  pp_sequence_number :: nat
  pp_arrival_ms :: nat
  pp_packet :: 'a

record 'a reorder_buffer =
  rb_settings :: reorder_settings
  rb_expected_seq :: "nat option"
  rb_pending :: "'a pending_packet list"

definition reorder_new :: "reorder_settings \<Rightarrow> 'a reorder_buffer" where
  "reorder_new settings = \<lparr>rb_settings = settings, rb_expected_seq = None, rb_pending = []\<rparr>"

definition reorder_reset :: "'a reorder_buffer \<Rightarrow> 'a reorder_buffer" where
  "reorder_reset b = b\<lparr>rb_expected_seq := None, rb_pending := []\<rparr>"

definition extend_sequence :: "'a reorder_buffer \<Rightarrow> u16 \<Rightarrow> nat" where
  "extend_sequence b raw =
     (case rb_expected_seq b of None \<Rightarrow> unat raw | Some expected \<Rightarrow> extend_from expected raw)"

text \<open>\<^verbatim>\<open>position\<close> and \<^verbatim>\<open>remove\<close> together.\<close>

fun remove_pending :: "nat \<Rightarrow> 'a pending_packet list \<Rightarrow> ('a \<times> 'a pending_packet list) option" where
  "remove_pending seq [] = None"
| "remove_pending seq (p # ps) =
     (if pp_sequence_number p = seq then Some (pp_packet p, ps)
      else map_option (\<lambda>(x, ps'). (x, p # ps')) (remove_pending seq ps))"

lemma remove_pending_length: "remove_pending seq ps = Some (x, ps') \<Longrightarrow> length ps = Suc (length ps')"
  by (induction ps arbitrary: ps') (auto split: if_splits)

text \<open>The loop of \<^verbatim>\<open>drain_contiguous\<close>: the packets released, the next expected number, what waits still.\<close>

function drain_contiguous :: "nat \<Rightarrow> 'a pending_packet list \<Rightarrow> 'a list \<times> nat \<times> 'a pending_packet list" where
  "drain_contiguous expected ps =
     (case remove_pending expected ps of
        None \<Rightarrow> ([], expected, ps)
      | Some (x, ps') \<Rightarrow>
          (case drain_contiguous (expected + 1) ps' of (out, e, rest) \<Rightarrow> (x # out, e, rest)))"
  by pat_completeness auto
termination
  by (relation "measure (\<lambda>(e, ps). length ps)") (auto dest: remove_pending_length)

declare drain_contiguous.simps [simp del]

text \<open>\<^verbatim>\<open>min_by_key\<close>: the first index with the smallest key.\<close>

fun min_index :: "nat list \<Rightarrow> nat option" where
  "min_index [] = None"
| "min_index (k # ks) =
     (case min_index ks of None \<Rightarrow> Some 0 | Some i \<Rightarrow> if ks ! i < k then Some (Suc i) else Some 0)"

definition force_release_closest :: "'a reorder_buffer \<Rightarrow> nat \<Rightarrow> 'a reorder_buffer \<times> 'a list" where
  "force_release_closest b expected =
     (case min_index (map (\<lambda>p. pp_sequence_number p - expected) (rb_pending b)) of
        None \<Rightarrow> (b, [])
      | Some index \<Rightarrow>
          (let first_pending = rb_pending b ! index;
               rest = take index (rb_pending b) @ drop (Suc index) (rb_pending b)
           in case drain_contiguous (pp_sequence_number first_pending + 1) rest of
                (out, e, ps) \<Rightarrow>
                  (b\<lparr>rb_expected_seq := Some e, rb_pending := ps\<rparr>, pp_packet first_pending # out)))"

definition absolute_pending_cap :: nat where "absolute_pending_cap = 64"

definition reorder_push :: "'a reorder_buffer \<Rightarrow> u16 \<Rightarrow> nat \<Rightarrow> 'a \<Rightarrow> 'a reorder_buffer \<times> 'a list" where
  "reorder_push b sequence_number arrival_ms packet =
     (let seq = extend_sequence b sequence_number in
      case rb_expected_seq b of
        None \<Rightarrow> (b\<lparr>rb_expected_seq := Some (seq + 1)\<rparr>, [packet])
      | Some expected \<Rightarrow>
          if seq < expected then (b, [])
          else if seq = expected then
            (case drain_contiguous (expected + 1) (rb_pending b) of
               (out, e, ps) \<Rightarrow> (b\<lparr>rb_expected_seq := Some e, rb_pending := ps\<rparr>, packet # out))
          else
            let b1 = (if \<exists>p \<in> set (rb_pending b). pp_sequence_number p = seq then b
                      else b\<lparr>rb_pending := rb_pending b @
                             [\<lparr>pp_sequence_number = seq, pp_arrival_ms = arrival_ms, pp_packet = packet\<rparr>]\<rparr>);
                s = rb_settings b1
            in if rs_max_packets s > 0 \<and> length (rb_pending b1) > rs_max_packets s
               then force_release_closest b1 expected
               else if rs_max_delay_ms s > 0
                       \<and> (\<exists>p \<in> set (rb_pending b1). arrival_ms - pp_arrival_ms p \<ge> rs_max_delay_ms s)
               then force_release_closest b1 expected
               else if length (rb_pending b1) > absolute_pending_cap
               then force_release_closest b1 expected
               else (b1, []))"

fun reorder_push_all :: "'a reorder_buffer \<Rightarrow> (u16 \<times> nat \<times> 'a) list \<Rightarrow> 'a reorder_buffer \<times> 'a list" where
  "reorder_push_all b [] = (b, [])"
| "reorder_push_all b ((s, t, x) # xs) =
     (let (b1, out1) = reorder_push b s t x; (b2, out2) = reorder_push_all b1 xs in (b2, out1 @ out2))"

section \<open>What waits and what is released\<close>

text \<open>
  \<open>releases e ns e'\<close>: released numbers ascend from the expected number \<open>e\<close>, with gaps of less than half a
  period, and leave \<open>e'\<close> as the expected number.
\<close>

fun releases :: "nat \<Rightarrow> nat list \<Rightarrow> nat \<Rightarrow> bool" where
  "releases e [] e' = (e' = e)"
| "releases e (n # ns) e' = (e \<le> n \<and> n < e + 32768 \<and> releases (n + 1) ns e')"

lemma releases_append: "releases e ns e1 \<Longrightarrow> releases e1 ms e2 \<Longrightarrow> releases e (ns @ ms) e2"
  by (induction ns arbitrary: e) auto

text \<open>
  The packets carry their 16-bit number here. Waiting packets are ahead of the expected number, by less
  than half a period, and have different numbers.
\<close>

definition pending_ok :: "nat \<Rightarrow> (u16 \<times> 'a) pending_packet list \<Rightarrow> bool" where
  "pending_ok e ps \<longleftrightarrow>
     distinct (map pp_sequence_number ps)
     \<and> (\<forall>p \<in> set ps. e \<le> pp_sequence_number p \<and> pp_sequence_number p < e + 32768
          \<and> of_nat (pp_sequence_number p) = fst (pp_packet p))"

definition reorder_inv :: "(u16 \<times> 'a) reorder_buffer \<Rightarrow> bool" where
  "reorder_inv b \<longleftrightarrow>
     (case rb_expected_seq b of
        None \<Rightarrow> rb_pending b = []
      | Some e \<Rightarrow> 0 < e \<and> pending_ok e (rb_pending b) \<and> (\<forall>p \<in> set (rb_pending b). pp_sequence_number p \<noteq> e))
     \<and> length (rb_pending b) \<le> 64
     \<and> (rs_max_packets (rb_settings b) > 0 \<longrightarrow> length (rb_pending b) \<le> rs_max_packets (rb_settings b))"

lemma remove_pending_Some:
  "remove_pending seq ps = Some (x, ps') \<Longrightarrow>
     \<exists>a p b. ps = a @ p # b \<and> ps' = a @ b \<and> pp_sequence_number p = seq \<and> pp_packet p = x"
proof (induction ps arbitrary: ps')
  case (Cons p ps)
  show ?case
  proof (cases "pp_sequence_number p = seq")
    case True
    with Cons.prems show ?thesis by (intro exI [of _ "[]"]) auto
  next
    case False
    with Cons.prems obtain ps1 where "remove_pending seq ps = Some (x, ps1)" "ps' = p # ps1" by auto
    with Cons.IH obtain a q b where "ps = a @ q # b" "ps1 = a @ b" "pp_sequence_number q = seq" "pp_packet q = x"
      by blast
    with \<open>ps' = p # ps1\<close> show ?thesis by (intro exI [of _ "p # a"]) auto
  qed
qed simp

lemma remove_pending_None: "remove_pending seq ps = None \<longleftrightarrow> (\<forall>p \<in> set ps. pp_sequence_number p \<noteq> seq)"
  by (induction ps) (auto split: option.splits)

lemma drain_contiguous_spec:
  assumes "pending_ok e ps" and "drain_contiguous e ps = (out, e', ps')"
  shows "\<exists>ns. releases e ns e' \<and> map of_nat ns = map fst out
    \<and> pending_ok e' ps' \<and> (\<forall>p \<in> set ps'. pp_sequence_number p \<noteq> e')
    \<and> mset (map pp_packet ps) = mset out + mset (map pp_packet ps') \<and> e \<le> e'"
  using assms
proof (induction e ps arbitrary: out e' ps' rule: drain_contiguous.induct)
  case (1 e ps)
  show ?case
  proof (cases "remove_pending e ps")
    case None
    with 1(3) have "out = []" "e' = e" "ps' = ps" by (auto simp: drain_contiguous.simps [of e ps])
    with 1(2) None show ?thesis by (intro exI [of _ "[]"]) (auto simp: remove_pending_None)
  next
    case (Some y)
    obtain x ps1 where y: "y = (x, ps1)" by (cases y)
    with Some have r: "remove_pending e ps = Some (x, ps1)" by simp
    then obtain a p b where ps: "ps = a @ p # b" "ps1 = a @ b" "pp_sequence_number p = e" "pp_packet p = x"
      by (metis remove_pending_Some)
    obtain out1 where d: "drain_contiguous (e + 1) ps1 = (out1, e', ps')" and out: "out = x # out1"
      using 1(3) r by (auto simp: drain_contiguous.simps [of e ps] split: prod.splits)
    have ok: "pending_ok (e + 1) ps1"
      unfolding pending_ok_def
    proof (intro conjI ballI)
      show "distinct (map pp_sequence_number ps1)" using 1(2) ps by (auto simp: pending_ok_def)
    next
      fix q assume q: "q \<in> set ps1"
      then have "q \<in> set ps" "pp_sequence_number q \<noteq> e"
        using 1(2) ps by (auto simp: pending_ok_def) (metis imageI)+
      then show "e + 1 \<le> pp_sequence_number q" "pp_sequence_number q < e + 1 + 32768"
        "of_nat (pp_sequence_number q) = fst (pp_packet q)"
        using 1(2) by (auto simp: pending_ok_def Suc_le_eq le_neq_implies_less less_Suc_eq)
    qed
    from 1(1) [OF r refl ok d] obtain ns where
      ns: "releases (e + 1) ns e'" "map of_nat ns = map fst out1" "pending_ok e' ps'"
      "\<forall>p \<in> set ps'. pp_sequence_number p \<noteq> e'" "mset (map pp_packet ps1) = mset out1 + mset (map pp_packet ps')"
      "e + 1 \<le> e'" by blast
    have "of_nat e = fst x" using 1(2) ps by (auto simp: pending_ok_def)
    with ns out ps show ?thesis by (intro exI [of _ "e # ns"]) auto
  qed
qed

lemma min_index_props:
  "min_index ks = Some i \<Longrightarrow> i < length ks \<and> (\<forall>k \<in> set ks. ks ! i \<le> k)"
  "min_index ks = None \<longleftrightarrow> ks = []"
proof -
  have some: "min_index (k # ks) \<noteq> None" for k ks by (simp split: option.split)
  then show "min_index ks = None \<longleftrightarrow> ks = []" by (cases ks) (simp_all del: min_index.simps(2))
  show "min_index ks = Some i \<Longrightarrow> i < length ks \<and> (\<forall>k \<in> set ks. ks ! i \<le> k)"
  proof (induction ks arbitrary: i)
    case (Cons k ks)
    show ?case
    proof (cases "min_index ks")
      case None
      then have "ks = []" using some by (cases ks) (simp_all del: min_index.simps(2))
      with Cons.prems show ?thesis by auto
    next
      case (Some j)
      with Cons show ?thesis by (fastforce split: if_splits)
    qed
  qed simp
qed

lemma force_release_spec:
  assumes "pending_ok e (rb_pending b)" and "rb_pending b \<noteq> []" and "0 < e"
    and "force_release_closest b e = (b', out)"
  shows "\<exists>ns e'. releases e ns e' \<and> map of_nat ns = map fst out \<and> rb_expected_seq b' = Some e' \<and> 0 < e'
    \<and> pending_ok e' (rb_pending b') \<and> (\<forall>p \<in> set (rb_pending b'). pp_sequence_number p \<noteq> e')
    \<and> mset (map pp_packet (rb_pending b)) = mset out + mset (map pp_packet (rb_pending b'))
    \<and> rb_settings b' = rb_settings b \<and> length (rb_pending b') < length (rb_pending b)"
proof -
  let ?ps = "rb_pending b"
  let ?ks = "map (\<lambda>p. pp_sequence_number p - e) ?ps"
  obtain i where i: "min_index ?ks = Some i"
    using assms(2) min_index_props(2) [of ?ks] by (cases "min_index ?ks") auto
  from min_index_props(1) [OF i] have il: "i < length ?ps" and min: "\<forall>p \<in> set ?ps. pp_sequence_number (?ps ! i) - e \<le> pp_sequence_number p - e"
    by auto
  let ?f = "?ps ! i" and ?a = "take i ?ps" and ?b = "drop (Suc i) ?ps"
  have ps: "?ps = ?a @ ?f # ?b" using il by (rule id_take_nth_drop)
  obtain out1 e' ps' where d: "drain_contiguous (pp_sequence_number ?f + 1) (?a @ ?b) = (out1, e', ps')"
    by (metis prod_cases3)
  have b': "b' = b\<lparr>rb_expected_seq := Some e', rb_pending := ps'\<rparr>" and out: "out = pp_packet ?f # out1"
    using assms(4) i d by (auto simp: force_release_closest_def Let_def)
  have f: "e \<le> pp_sequence_number ?f" "pp_sequence_number ?f < e + 32768" "of_nat (pp_sequence_number ?f) = fst (pp_packet ?f)"
    using assms(1) nth_mem [OF il] by (auto simp: pending_ok_def)
  have "distinct (map pp_sequence_number (?a @ ?f # ?b))" using assms(1) ps by (simp add: pending_ok_def)
  then have dist: "distinct (map pp_sequence_number (?a @ ?b))" "\<forall>q \<in> set (?a @ ?b). pp_sequence_number q \<noteq> pp_sequence_number ?f"
    by (auto simp del: append_take_drop_id) (metis imageI)+
  have "pending_ok (pp_sequence_number ?f + 1) (?a @ ?b)"
    unfolding pending_ok_def
  proof (intro conjI ballI)
    fix q assume q: "q \<in> set (?a @ ?b)"
    then have qs: "q \<in> set ?ps" using ps by (metis Un_iff list.set_intros(2) set_append)
    with assms(1) have b: "e \<le> pp_sequence_number q" "pp_sequence_number q < e + 32768"
      "of_nat (pp_sequence_number q) = fst (pp_packet q)" by (auto simp: pending_ok_def)
    have "pp_sequence_number ?f \<le> pp_sequence_number q" using min qs b(1) f(1) by fastforce
    with dist(2) q have "pp_sequence_number ?f < pp_sequence_number q" by fastforce
    with b f(1) show "pp_sequence_number ?f + 1 \<le> pp_sequence_number q"
      "pp_sequence_number q < pp_sequence_number ?f + 1 + 32768" "of_nat (pp_sequence_number q) = fst (pp_packet q)"
      by auto
  qed (rule dist(1))
  from drain_contiguous_spec [OF this d] obtain ns where
    ns: "releases (pp_sequence_number ?f + 1) ns e'" "map of_nat ns = map fst out1" "pending_ok e' ps'"
    "\<forall>p \<in> set ps'. pp_sequence_number p \<noteq> e'" "mset (map pp_packet (?a @ ?b)) = mset out1 + mset (map pp_packet ps')"
    "pp_sequence_number ?f + 1 \<le> e'" by blast
  have m: "mset (map pp_packet ?ps) = add_mset (pp_packet ?f) (mset (map pp_packet (?a @ ?b)))"
    by (subst ps) simp
  then have "size (mset (map pp_packet ?ps)) = size (add_mset (pp_packet ?f) (mset out1 + mset (map pp_packet ps')))"
    using ns(5) by simp
  then have "length ps' < length ?ps" by simp
  with ns f m b' out show ?thesis
    by (intro exI [of _ "pp_sequence_number ?f # ns"] exI [of _ e']) auto
qed

lemma reorder_push_spec:
  assumes inv: "reorder_inv b" and e: "rb_expected_seq b = Some e"
    and push: "reorder_push b (fst x) arr x = (b', out)"
  shows "reorder_inv b' \<and> rb_settings b' = rb_settings b
    \<and> (\<exists>ns e'. releases e ns e' \<and> map of_nat ns = map fst out \<and> rb_expected_seq b' = Some e')
    \<and> mset out + mset (map pp_packet (rb_pending b')) \<subseteq># add_mset x (mset (map pp_packet (rb_pending b)))"
proof -
  let ?ps = "rb_pending b" and ?seq = "extend_from e (fst x)"
  have ok: "0 < e" "pending_ok e ?ps" "\<forall>p \<in> set ?ps. pp_sequence_number p \<noteq> e"
    "length ?ps \<le> 64" "rs_max_packets (rb_settings b) > 0 \<longrightarrow> length ?ps \<le> rs_max_packets (rb_settings b)"
    using inv e by (simp_all add: reorder_inv_def)
  consider (late) "?seq < e" | (hit) "?seq = e" "of_nat e = fst x"
    | (ahead) "e < ?seq" "?seq < e + 32768" "of_nat ?seq = fst x"
    using extend_from_cases [OF ok(1), of "fst x"] ok(1) by fastforce
  then show ?thesis
  proof cases
    case late
    with push e have "b' = b" "out = []" by (auto simp: reorder_push_def extend_sequence_def Let_def)
    with inv e show ?thesis by (auto intro!: exI [of _ "[]"])
  next
    case hit
    obtain out1 e' ps' where d: "drain_contiguous (e + 1) ?ps = (out1, e', ps')" by (metis prod_cases3)
    have b': "b' = b\<lparr>rb_expected_seq := Some e', rb_pending := ps'\<rparr>" and out: "out = x # out1"
      using push e hit(1) d by (auto simp: reorder_push_def extend_sequence_def Let_def)
    have "pending_ok (e + 1) ?ps" using ok(2,3) by (auto simp: pending_ok_def Suc_le_eq le_neq_implies_less less_Suc_eq)
    from drain_contiguous_spec [OF this d] obtain ns where
      ns: "releases (e + 1) ns e'" "map of_nat ns = map fst out1" "pending_ok e' ps'"
      "\<forall>p \<in> set ps'. pp_sequence_number p \<noteq> e'" "mset (map pp_packet ?ps) = mset out1 + mset (map pp_packet ps')"
      "e + 1 \<le> e'" by blast
    from arg_cong [OF ns(5), of size] have "length ps' \<le> length ?ps" by simp
    with ok(4,5) have "reorder_inv b'" using ns by (auto simp: reorder_inv_def b')
    moreover have "releases e (e # ns) e'" "map of_nat (e # ns) = map fst out" using ns out hit(2) by auto
    ultimately show ?thesis using ns(5) out by (auto simp: b' simp del: releases.simps map_eq_Cons_conv)
  next
    case ahead
    let ?b1 = "if \<exists>p \<in> set ?ps. pp_sequence_number p = ?seq then b
       else b\<lparr>rb_pending := ?ps @ [\<lparr>pp_sequence_number = ?seq, pp_arrival_ms = arr, pp_packet = x\<rparr>]\<rparr>"
    define b1 where "b1 = ?b1"
    have b1: "pending_ok e (rb_pending b1)" "rb_settings b1 = rb_settings b" "rb_expected_seq b1 = Some e"
      "length (rb_pending b1) \<le> Suc (length ?ps)"
      "\<forall>p \<in> set (rb_pending b1). pp_sequence_number p \<noteq> e"
      "mset (map pp_packet (rb_pending b1)) \<subseteq># add_mset x (mset (map pp_packet ?ps))"
      using ok ahead e by (auto simp: b1_def pending_ok_def)
    let ?s = "rb_settings b"
    let ?over = "rs_max_packets ?s > 0 \<and> length (rb_pending b1) > rs_max_packets ?s"
    let ?old = "rs_max_delay_ms ?s > 0 \<and> (\<exists>p \<in> set (rb_pending b1). arr - pp_arrival_ms p \<ge> rs_max_delay_ms ?s)"
    have r: "(if ?over then force_release_closest b1 e else if ?old then force_release_closest b1 e
      else if length (rb_pending b1) > 64 then force_release_closest b1 e else (b1, [])) = (b', out)"
      using push ahead(1)
      by (simp only: reorder_push_def extend_sequence_def Let_def e option.case absolute_pending_cap_def
          b1_def [symmetric] b1(2) if_False less_imp_neq [symmetric] less_not_sym simp_thms)
    let ?any = "?over \<or> ?old \<or> length (rb_pending b1) > 64"
    have "(if ?any then force_release_closest b1 e else (b1, [])) = (b', out)" using r by presburger
    then have r2: "?any \<Longrightarrow> force_release_closest b1 e = (b', out)" "\<not> ?any \<Longrightarrow> b1 = b' \<and> [] = out"
      by (simp_all only: if_True if_False prod.inject not_False_eq_True simp_thms)
    have ne: "rb_pending b1 \<noteq> []" if ?any using that by auto
    consider (force) "force_release_closest b1 e = (b', out)" "rb_pending b1 \<noteq> []"
      | (wait) "b' = b1" "out = []" "length (rb_pending b1) \<le> 64"
          "rs_max_packets ?s > 0 \<longrightarrow> length (rb_pending b1) \<le> rs_max_packets ?s"
    proof (cases ?any)
      case True
      with r2(1) ne show thesis by (intro force) blast+
    next
      case False
      with r2(2) show thesis by (intro wait) auto
    qed
    then show ?thesis
    proof cases
      case force
      from force_release_spec [OF b1(1) force(2) ok(1) force(1)] obtain ns e' where
        r: "releases e ns e'" "map of_nat ns = map fst out" "rb_expected_seq b' = Some e'" "0 < e'"
        "pending_ok e' (rb_pending b')" "\<forall>p \<in> set (rb_pending b'). pp_sequence_number p \<noteq> e'"
        "mset (map pp_packet (rb_pending b1)) = mset out + mset (map pp_packet (rb_pending b'))"
        "rb_settings b' = rb_settings b1" "length (rb_pending b') < length (rb_pending b1)" by blast
      then have "reorder_inv b'" using ok(4,5) b1(2,4) by (auto simp: reorder_inv_def)
      with r b1(2,6) show ?thesis by auto
    next
      case wait
      with b1 ok(1) have "reorder_inv b'" by (simp add: reorder_inv_def)
      with wait b1 show ?thesis by (auto intro!: exI [of _ "[]"])
    qed
  qed
qed

lemma reorder_push_all_spec:
  assumes "reorder_inv b" and "rb_expected_seq b = Some e"
    and "reorder_push_all b (map (\<lambda>(t, x). (fst x, t, x)) xs) = (b', out)"
  shows "reorder_inv b' \<and> rb_settings b' = rb_settings b
    \<and> (\<exists>ns e'. releases e ns e' \<and> map of_nat ns = map fst out)
    \<and> mset out + mset (map pp_packet (rb_pending b')) \<subseteq># mset (map snd xs) + mset (map pp_packet (rb_pending b))"
  using assms
proof (induction xs arbitrary: b e out)
  case (Cons y xs)
  obtain t x where y: "y = (t, x)" by (cases y)
  obtain b1 out1 where 1: "reorder_push b (fst x) t x = (b1, out1)" by fastforce
  obtain out2 where 2: "reorder_push_all b1 (map (\<lambda>(t, x). (fst x, t, x)) xs) = (b', out2)" and out: "out = out1 @ out2"
    using Cons.prems(3) 1 by (auto simp: y split: prod.splits)
  from reorder_push_spec [OF Cons.prems(1,2) 1] obtain ns e1 where
    p: "reorder_inv b1" "rb_settings b1 = rb_settings b" "releases e ns e1" "map of_nat ns = map fst out1"
    "rb_expected_seq b1 = Some e1"
    "mset out1 + mset (map pp_packet (rb_pending b1)) \<subseteq># add_mset x (mset (map pp_packet (rb_pending b)))" by blast
  from Cons.IH [OF p(1,5) 2] obtain ms e2 where
    q: "reorder_inv b'" "rb_settings b' = rb_settings b1" "releases e1 ms e2" "map of_nat ms = map fst out2"
    "mset out2 + mset (map pp_packet (rb_pending b')) \<subseteq># mset (map snd xs) + mset (map pp_packet (rb_pending b1))"
    by blast
  have "mset out + mset (map pp_packet (rb_pending b')) \<subseteq># mset out1 + (mset (map snd xs) + mset (map pp_packet (rb_pending b1)))"
    using subset_mset.add_left_mono [OF q(5), of "mset out1"] by (simp add: out add.assoc)
  also have "\<dots> \<subseteq># mset (map snd xs) + add_mset x (mset (map pp_packet (rb_pending b)))"
    using subset_mset.add_left_mono [OF p(6), of "mset (map snd xs)"] by (simp add: ac_simps)
  finally have "mset out + mset (map pp_packet (rb_pending b')) \<subseteq># mset (map snd (y # xs)) + mset (map pp_packet (rb_pending b))"
    by (simp add: y)
  moreover have "releases e (ns @ ms) e2" "map of_nat (ns @ ms) = map fst out"
    using releases_append [OF p(3) q(3)] p(4) q(4) by (simp_all add: out)
  ultimately show ?case using p q by metis
qed auto

lemma releases_successively:
  "releases e ns e' \<Longrightarrow> successively (\<lambda>m n. m < n \<and> n \<le> m + 32768) ns"
  by (induction ns arbitrary: e) (auto simp: successively_Cons neq_Nil_conv)

lemma forward_distance:
  assumes "m < n" and "n \<le> m + 32768"
  shows "0 < unat (of_nat n - of_nat m :: u16) \<and> unat (of_nat n - of_nat m :: u16) \<le> 32768"
proof -
  have "(of_nat n - of_nat m :: u16) = of_nat (n - m)" using assms(1) by (simp add: of_nat_diff)
  then have "unat (of_nat n - of_nat m :: u16) = (n - m) mod 65536" by (simp only: unat_of_nat_u16)
  moreover have "(n - m) mod 65536 = n - m" using assms(2) by simp
  ultimately show ?thesis using assms by simp
qed

lemma successively_of_nat:
  assumes "map of_nat ns = map fst out" and "successively (\<lambda>m n. m < n \<and> n \<le> m + 32768) ns"
  shows "successively (\<lambda>p q. 0 < unat (fst q - fst p :: u16) \<and> unat (fst q - fst p) \<le> 32768) out"
proof -
  have "successively (\<lambda>m n. 0 < unat (of_nat n - of_nat m :: u16) \<and> unat (of_nat n - of_nat m :: u16) \<le> 32768) ns"
    using assms(2) by (rule successively_mono) (use forward_distance in blast)
  then have "successively (\<lambda>a b. 0 < unat (b - a :: u16) \<and> unat (b - a) \<le> 32768) (map of_nat ns)"
    by (simp add: successively_map)
  then show ?thesis unfolding assms(1) by (simp add: successively_map)
qed

text \<open>
  C30: whatever packets arrive, in whatever order and at whatever times, the reorder buffer releases no
  packet twice and none that did not arrive, each released packet is ahead of the one released before it
  by at most half the sequence space, and never more than 64 packets, nor more than the configured
  number, wait.
\<close>

theorem reorder_output_ascending:
  assumes "reorder_push_all (reorder_new settings) (map (\<lambda>(t, x). (fst x, t, x)) xs) = (b, out)"
  shows "mset out + mset (map pp_packet (rb_pending b)) \<subseteq># mset (map snd xs)
    \<and> successively (\<lambda>p q. 0 < unat (fst q - fst p :: u16) \<and> unat (fst q - fst p) \<le> 32768) out
    \<and> length (rb_pending b) \<le> 64
    \<and> (rs_max_packets settings > 0 \<longrightarrow> length (rb_pending b) \<le> rs_max_packets settings)"
proof (cases xs)
  case Nil
  with assms show ?thesis by (auto simp: reorder_new_def)
next
  case (Cons y ys)
  obtain t x where y: "y = (t, x)" by (cases y)
  let ?b1 = "reorder_new settings\<lparr>rb_expected_seq := Some (unat (fst x) + 1)\<rparr>"
  obtain out1 where out: "out = x # out1"
    and 1: "reorder_push_all ?b1 (map (\<lambda>(t, x). (fst x, t, x)) ys) = (b, out1)"
    using assms by (auto simp: Cons y reorder_push_def extend_sequence_def reorder_new_def Let_def split: prod.splits)
  have "reorder_inv ?b1" by (simp add: reorder_inv_def reorder_new_def pending_ok_def)
  from reorder_push_all_spec [OF this _ 1] obtain ns e' where
    p: "reorder_inv b" "rb_settings b = settings" "releases (unat (fst x) + 1) ns e'" "map of_nat ns = map fst out1"
    "mset out1 + mset (map pp_packet (rb_pending b)) \<subseteq># mset (map snd ys)"
    by (auto simp: reorder_new_def)
  let ?ns = "unat (fst x) # ns"
  have "releases (unat (fst x)) ?ns e'" using p(3) by simp
  from successively_of_nat [OF _ releases_successively [OF this], of out] p(4)
  have "successively (\<lambda>p q. 0 < unat (fst q - fst p :: u16) \<and> unat (fst q - fst p) \<le> 32768) out"
    by (simp add: out)
  with p show ?thesis by (auto simp: out Cons y reorder_inv_def split: option.splits)
qed

theorem reorder_output_ascending_witness:
  "case reorder_push_all (reorder_new reorder_settings_default)
     (map (\<lambda>(t, x). (fst x, t, x)) [(0, (10, ''a'')), (1, (12, ''c'')), (2, (12, ''x'')), (3, (11, ''b''))])
   of (b, out) \<Rightarrow> mset out + mset (map pp_packet (rb_pending b))
     \<subseteq># mset [(10, ''a''), (12, ''c''), (12, ''x''), (11, ''b'')] \<and> length (rb_pending b) \<le> 64"
  using reorder_output_ascending
    [of reorder_settings_default "[(0, (10, ''a'')), (1, (12, ''c'')), (2, (12, ''x'')), (3, (11, ''b''))]"]
  by (simp split: prod.splits del: reorder_push_all.simps list.map mset.simps) simp

section \<open>A reordered stream is put back in order\<close>

text \<open>
  Arrivals are pairs of a time and a true sequence number. A packet can be waited for when at most
  \<open>max_packets\<close> packets with larger numbers overtook it, by less than half a period, and it arrives less
  than \<open>max_delay_ms\<close> after each of them; 0 switches a limit off, and 64 packets is the limit in any case.
\<close>

definition can_wait :: "reorder_settings \<Rightarrow> (nat \<times> nat) list \<Rightarrow> nat \<times> nat \<Rightarrow> bool" where
  "can_wait settings earlier = (\<lambda>(t, n).
     let overtook = filter (\<lambda>(_, n'). n < n') earlier in
     length overtook \<le> 64
     \<and> (rs_max_packets settings > 0 \<longrightarrow> length overtook \<le> rs_max_packets settings)
     \<and> (\<forall>(t', n') \<in> set overtook. n' < n + 32768 \<and> (rs_max_delay_ms settings > 0 \<longrightarrow> t - t' < rs_max_delay_ms settings)))"

fun all_can_wait :: "reorder_settings \<Rightarrow> (nat \<times> nat) list \<Rightarrow> (nat \<times> nat) list \<Rightarrow> bool" where
  "all_can_wait settings earlier [] = True"
| "all_can_wait settings earlier (y # ys) = (can_wait settings earlier y \<and> all_can_wait settings (earlier @ [y]) ys)"

lemma all_can_wait_at: "all_can_wait settings earlier (ys @ y # zs) \<Longrightarrow> can_wait settings (earlier @ ys) y"
proof (induction ys arbitrary: earlier)
  case (Cons x ys)
  then show ?case using Cons.IH [of "earlier @ [x]"] by simp
qed simp

definition waiting :: "(nat \<Rightarrow> 'a) \<Rightarrow> (nat \<times> nat) list \<Rightarrow> 'a pending_packet list" where
  "waiting f = map (\<lambda>(t, n). \<lparr>pp_sequence_number = n, pp_arrival_ms = t, pp_packet = f n\<rparr>)"

lemma waiting_simps [simp]:
  "waiting f [] = []" "waiting f (xs @ ys) = waiting f xs @ waiting f ys"
  "waiting f ((t, n) # xs) = \<lparr>pp_sequence_number = n, pp_arrival_ms = t, pp_packet = f n\<rparr> # waiting f xs"
  "length (waiting f xs) = length xs"
  "set (waiting f xs) = (\<lambda>(t, n). \<lparr>pp_sequence_number = n, pp_arrival_ms = t, pp_packet = f n\<rparr>) ` set xs"
  by (simp_all add: waiting_def)

lemma waiting_all: "(\<forall>(t, n) \<in> set xs. P t) \<longleftrightarrow> (\<forall>p \<in> set (waiting f xs). P (pp_arrival_ms p))"
  by auto

lemma remove_waiting:
  assumes "distinct (map snd xs)"
  shows "remove_pending e (waiting f (filter (\<lambda>(_, n). e \<le> n) xs)) =
    (if e \<in> snd ` set xs then Some (f e, waiting f (filter (\<lambda>(_, n). Suc e \<le> n) xs)) else None)"
  using assms
proof (induction xs)
  case (Cons y ys)
  obtain t n where y: "y = (t, n)" by (cases y)
  have "filter (\<lambda>(_, m). e \<le> m) ys = filter (\<lambda>(_, m). Suc e \<le> m) ys" if "e \<notin> snd ` set ys"
    using that by (intro filter_cong) (auto simp: Suc_le_eq le_less image_iff)
  with Cons show ?case by (auto simp: y)
qed simp

lemma drain_waiting:
  assumes "distinct (map snd xs)"
  shows "\<exists>e'. drain_contiguous e (waiting f (filter (\<lambda>(_, n). e \<le> n) xs)) =
      (map f [e..<e'], e', waiting f (filter (\<lambda>(_, n). e' < n) xs))
    \<and> e \<le> e' \<and> {e..<e'} \<subseteq> snd ` set xs \<and> e' \<notin> snd ` set xs"
proof (induction "length (filter (\<lambda>(_, n). e \<le> n) xs)" arbitrary: e rule: less_induct)
  case less
  let ?w = "\<lambda>e. waiting f (filter (\<lambda>(_, n). e \<le> n) xs)"
  note r = remove_waiting [OF assms, of e f]
  show ?case
  proof (cases "e \<in> snd ` set xs")
    case False
    then have "filter (\<lambda>(_, n). e \<le> n) xs = filter (\<lambda>(_, n). e < n) xs"
      by (intro filter_cong) (auto simp: le_less image_iff)
    with False r show ?thesis
      by (intro exI [of _ e]) (simp add: drain_contiguous.simps [of e])
  next
    case True
    with r have r: "remove_pending e (?w e) = Some (f e, ?w (Suc e))" by simp
    from remove_pending_length [OF r] have "length (filter (\<lambda>(_, n). Suc e \<le> n) xs) < length (filter (\<lambda>(_, n). e \<le> n) xs)"
      by simp
    from less [OF this] obtain e' where e':
      "drain_contiguous (Suc e) (?w (Suc e)) = (map f [Suc e..<e'], e', waiting f (filter (\<lambda>(_, n). e' < n) xs))"
      "Suc e \<le> e'" "{Suc e..<e'} \<subseteq> snd ` set xs" "e' \<notin> snd ` set xs" by blast
    have "[e..<e'] = e # [Suc e..<e']" using e'(2) by (simp add: upt_rec)
    moreover have "{e..<e'} = insert e {Suc e..<e'}" using e'(2) by auto
    ultimately show ?thesis using e' r True
      by (intro exI [of _ e']) (simp add: drain_contiguous.simps [of e "?w e"])
  qed
qed

definition in_progress :: "reorder_settings \<Rightarrow> nat \<Rightarrow> (nat \<Rightarrow> 'a) \<Rightarrow> (nat \<times> nat) list \<Rightarrow> nat \<Rightarrow> 'a reorder_buffer \<Rightarrow> bool" where
  "in_progress settings s f earlier e b \<longleftrightarrow>
     b = \<lparr>rb_settings = settings, rb_expected_seq = Some e, rb_pending = waiting f (filter (\<lambda>(_, n). e < n) earlier)\<rparr>
     \<and> s < e \<and> {s..<e} \<subseteq> snd ` set earlier \<and> e \<notin> snd ` set earlier"

lemma push_in_progress:
  assumes inv: "in_progress settings s f earlier e b"
    and d: "distinct (map snd (earlier @ (t, n) # later))"
    and sorted: "sorted (map fst (earlier @ (t, n) # later))"
    and fits: "all_can_wait settings earlier ((t, n) # later)"
    and all: "snd ` set (earlier @ (t, n) # later) = {s..<l}"
  shows "\<exists>b' e'. reorder_push b (of_nat n) t (f n) = (b', map f [e..<e'])
    \<and> in_progress settings s f (earlier @ [(t, n)]) e' b' \<and> e \<le> e'"
proof -
  have b: "b = \<lparr>rb_settings = settings, rb_expected_seq = Some e, rb_pending = waiting f (filter (\<lambda>(_, n). e < n) earlier)\<rparr>"
    and e: "s < e" "{s..<e} \<subseteq> snd ` set earlier" "e \<notin> snd ` set earlier"
    using inv by (simp_all add: in_progress_def)
  have n: "n \<notin> snd ` set earlier" using d by auto
  have "s \<le> n" "n < l" using all by (auto simp: set_eq_iff)
  with n e(2) have "e \<le> n" by (meson atLeastLessThan_iff not_le subsetD)
  show ?thesis
  proof (cases "n = e")
    case True
    have dn: "distinct (map snd (earlier @ [(t, n)]))" using d by auto
    have f1: "filter (\<lambda>(_, m). Suc e \<le> m) (earlier @ [(t, n)]) = filter (\<lambda>(_, m). e < m) earlier"
      using True by (auto simp: Suc_le_eq)
    from drain_waiting [OF dn, of "Suc e" f, unfolded f1] obtain e' where
      e': "drain_contiguous (Suc e) (waiting f (filter (\<lambda>(_, m). e < m) earlier)) =
        (map f [Suc e..<e'], e', waiting f (filter (\<lambda>(_, m). e' < m) (earlier @ [(t, n)])))"
      "Suc e \<le> e'" "{Suc e..<e'} \<subseteq> snd ` set (earlier @ [(t, n)])" "e' \<notin> snd ` set (earlier @ [(t, n)])" by blast
    have "{s..<e'} = {s..<e} \<union> {e} \<union> {Suc e..<e'}" using e'(2) e(1) by auto
    with e(2) e'(3) True have "{s..<e'} \<subseteq> snd ` set (earlier @ [(t, n)])" by auto
    moreover have "[e..<e'] = e # [Suc e..<e']" using e'(2) by (simp add: upt_rec)
    moreover have "extend_from e (of_nat e) = e" by (rule extend_from_forward) simp_all
    ultimately show ?thesis using e' e True
      by (intro exI [of _ "\<lparr>rb_settings = settings, rb_expected_seq = Some e',
            rb_pending = waiting f (filter (\<lambda>(_, m). e' < m) (earlier @ [(t, n)]))\<rparr>"] exI [of _ e'])
        (simp add: reorder_push_def extend_sequence_def b in_progress_def)
  next
    case False
    with \<open>e \<le> n\<close> have en: "e < n" by simp
    with \<open>n < l\<close> e(1) have "e \<in> {s..<l}" by simp
    with all e(3) en have "e \<in> snd ` set later" by (auto simp: set_eq_iff)
    then obtain te l1 l2 where later: "later = l1 @ (te, e) # l2"
      by (metis imageE prod.collapse split_list)
    from all_can_wait_at [of settings earlier "(t, n) # l1" "(te, e)" l2] fits later
    have cw: "can_wait settings (earlier @ (t, n) # l1) (te, e)" by simp
    let ?w = "filter (\<lambda>(_, m). e < m) (earlier @ [(t, n)])"
    have te: "t \<le> te" using sorted by (auto simp: later sorted_append)
    from cw en have w: "length ?w \<le> 64" "rs_max_packets settings > 0 \<Longrightarrow> length ?w \<le> rs_max_packets settings"
      by (auto simp: can_wait_def)
    have ext: "n < e + 32768" using cw en by (auto simp: can_wait_def)
    have old: "\<forall>(t', n') \<in> set ?w. t - t' < rs_max_delay_ms settings" if "rs_max_delay_ms settings > 0"
    proof safe
      fix t' n' assume "(t', n') \<in> set ?w"
      with cw that en have "te - t' < rs_max_delay_ms settings" by (auto simp: can_wait_def)
      with te show "t - t' < rs_max_delay_ms settings" by linarith
    qed
    have fresh: "\<not> (\<exists>p \<in> set (rb_pending b). pp_sequence_number p = n)"
    proof -
      have "m \<noteq> n" if "(a, m) \<in> set earlier" for a m using n imageI [OF that, of snd] by auto
      then show ?thesis by (auto simp: b)
    qed
    have x: "extend_from e (of_nat n) = n" using \<open>e \<le> n\<close> ext by (rule extend_from_forward)
    let ?b1 = "b\<lparr>rb_pending := waiting f ?w\<rparr>"
    have w1: "waiting f ?w = rb_pending b @ [\<lparr>pp_sequence_number = n, pp_arrival_ms = t, pp_packet = f n\<rparr>]"
      using en by (simp add: b)
    have nold: "\<not> (rs_max_delay_ms settings > 0 \<and> (\<exists>p \<in> set (waiting f ?w). t - pp_arrival_ms p \<ge> rs_max_delay_ms settings))"
      using old unfolding waiting_all [of _ _ f] by (meson not_le)
    have b1: "b\<lparr>rb_pending := rb_pending b @ [\<lparr>pp_sequence_number = n, pp_arrival_ms = t, pp_packet = f n\<rparr>]\<rparr> = ?b1"
      by (simp only: w1)
    have p1: "rb_pending ?b1 = waiting f ?w" "rb_settings ?b1 = settings" "rb_expected_seq b = Some e"
      by (simp_all add: b)
    have cap: "\<not> length (waiting f ?w) > 64" "\<not> (rs_max_packets settings > 0 \<and> length (waiting f ?w) > rs_max_packets settings)"
      using w by (simp_all only: waiting_simps) linarith+
    have "reorder_push b (of_nat n) t (f n) = (?b1, [])"
      unfolding reorder_push_def extend_sequence_def p1(3) option.case x Let_def if_not_P [OF fresh] b1 p1(1,2)
        absolute_pending_cap_def if_not_P [OF nold] if_not_P [OF cap(1)] if_not_P [OF cap(2)]
      using en by simp
    moreover have "in_progress settings s f (earlier @ [(t, n)]) e ?b1"
      using e en by (auto simp: in_progress_def b)
    ultimately show ?thesis by (intro exI [of _ ?b1] exI [of _ e]) simp
  qed
qed

lemma push_all_in_progress:
  assumes "in_progress settings s f earlier e b"
    and "distinct (map snd (earlier @ later))" and "sorted (map fst (earlier @ later))"
    and "all_can_wait settings earlier later" and "snd ` set (earlier @ later) = {s..<l}"
  shows "\<exists>b' e'. reorder_push_all b (map (\<lambda>(t, n). (of_nat n, t, f n)) later) = (b', map f [e..<e'])
    \<and> in_progress settings s f (earlier @ later) e' b' \<and> e \<le> e'"
  using assms
proof (induction later arbitrary: earlier e b)
  case Nil
  then show ?case by auto
next
  case (Cons y ys)
  obtain t n where y: "y = (t, n)" by (cases y)
  from push_in_progress [OF Cons.prems [unfolded y]] obtain b1 e1 where
    1: "reorder_push b (of_nat n) t (f n) = (b1, map f [e..<e1])"
    "in_progress settings s f (earlier @ [(t, n)]) e1 b1" "e \<le> e1" by blast
  have a: "(earlier @ [(t, n)]) @ ys = earlier @ y # ys" by (simp add: y)
  from Cons.prems(4) have fits: "all_can_wait settings (earlier @ [(t, n)]) ys" by (simp add: y)
  from Cons.IH [OF 1(2) _ _ fits, unfolded a, OF Cons.prems(2,3,5)] obtain b2 e2 where
    2: "reorder_push_all b1 (map (\<lambda>(t, n). (of_nat n, t, f n)) ys) = (b2, map f [e1..<e2])"
    "in_progress settings s f (earlier @ y # ys) e2 b2" "e1 \<le> e2" by blast
  have "[e..<e1] @ [e1..<e2] = [e..<e2]" using 1(3) 2(3) by (metis le_Suc_ex upt_add_eq_append)
  then have "map f [e..<e1] @ map f [e1..<e2] = map f [e..<e2]" by (metis map_append)
  with 1 2 show ?case by (intro exI [of _ b2] exI [of _ e2]) (simp add: y)
qed

text \<open>
  C4: the reorder buffer restores the order of a stream whose lowest number arrives first: when the first packet
  has number \<open>s\<close>, the others have the numbers from \<open>s + 1\<close> up to \<open>l - 1\<close>, each once and in any arrival order, and each
  packet is overtaken by so few others, and arrives so soon after them, that it can be waited for, the released
  packets are all packets of the stream in the order of their numbers, across wrap-arounds, and nothing waits in
  the end. (A packet numbered below the first arrival is late and lost: the buffer starts with the first arrival.)
\<close>

theorem reorder_restores_order:
  assumes "s < 65536" and "distinct (s # map snd later)" and "insert s (snd ` set later) = {s..<l}"
    and "sorted (t # map fst later)" and "all_can_wait settings [(t, s)] later"
  shows "reorder_push_all (reorder_new settings) (map (\<lambda>(t, n). (of_nat n, t, f n)) ((t, s) # later)) =
    (\<lparr>rb_settings = settings, rb_expected_seq = Some l, rb_pending = []\<rparr>, map f [s..<l])"
proof -
  let ?b = "\<lparr>rb_settings = settings, rb_expected_seq = Some (Suc s), rb_pending = []\<rparr>"
  have "in_progress settings s f [(t, s)] (Suc s) ?b" by (auto simp: in_progress_def)
  from push_all_in_progress [OF this, of later l] assms obtain b e where
    p: "reorder_push_all ?b (map (\<lambda>(t, n). (of_nat n, t, f n)) later) = (b, map f [Suc s..<e])"
    "in_progress settings s f ((t, s) # later) e b" "Suc s \<le> e" by auto
  have all: "snd ` set ((t, s) # later) = {s..<l}" using assms(3) by simp
  have "{s..<e} \<subseteq> {s..<l}" "e \<notin> {s..<l}" using p(2) unfolding in_progress_def all by blast+
  moreover have "s < e" using p(3) by simp
  ultimately have "e = l" by auto
  moreover have "filter (\<lambda>(_, n). l < n) ((t, s) # later) = []"
  proof -
    have "\<not> l < n" if "(a, n) \<in> set ((t, s) # later)" for a n
      using imageI [OF that, of snd] unfolding all by simp
    then show ?thesis unfolding filter_empty_conv by blast
  qed
  ultimately have "b = \<lparr>rb_settings = settings, rb_expected_seq = Some l, rb_pending = []\<rparr>"
    using p(2) by (simp only: in_progress_def waiting_simps)
  moreover have "reorder_push (reorder_new settings) (of_nat s) t (f s) = (?b, [f s])"
    using assms(1) by (simp add: reorder_push_def extend_sequence_def reorder_new_def Let_def)
  moreover have "[s..<l] = s # [Suc s..<l]" using p(3) \<open>e = l\<close> by (simp add: upt_rec)
  ultimately show ?thesis using p(1) \<open>e = l\<close> by simp
qed

theorem reorder_restores_order_witness:
  "snd (reorder_push_all (reorder_new reorder_settings_default)
     [(65534, 0, 65534), (0, 5, 65536), (65535, 9, 65535), (1, 20, 65537 :: nat)]) =
   [65534, 65535, 65536, 65537]"
proof -
  have "distinct (65534 # map snd [(5 :: nat, 65536), (9, 65535), (20, 65537 :: nat)])"
    "insert 65534 (snd ` set [(5 :: nat, 65536), (9, 65535), (20, 65537)]) = {65534..<65538 :: nat}"
    "sorted (0 # map fst [(5 :: nat, 65536 :: nat), (9, 65535), (20, 65537)])"
    "all_can_wait reorder_settings_default [(0, 65534)] [(5, 65536), (9, 65535), (20, 65537)]"
    by (auto simp: can_wait_def reorder_settings_default_def)
  from reorder_restores_order [OF _ this, of "\<lambda>n. n"]
  have "reorder_push_all (reorder_new reorder_settings_default)
      [(65534, 0, 65534 :: nat), (of_nat 65536, 5, 65536), (65535, 9, 65535), (of_nat 65537, 20, 65537)] =
    (\<lparr>rb_settings = reorder_settings_default, rb_expected_seq = Some 65538, rb_pending = []\<rparr>,
     [65534, 65535, 65536, 65537])"
    by (simp add: upt_rec del: reorder_push_all.simps)
  moreover have "of_nat 65536 = (0 :: u16)" "of_nat 65537 = (1 :: u16)" by simp_all
  ultimately show ?thesis by (simp only: snd_conv)
qed

end
