(* ===== verification/Rtp_Session_State.thy ===== *)
theory Rtp_Session_State
  imports Rtp_Reorder Rtp_Pt Rtp_Ehome Rtcp_Report Rust_Strings "HOL-Library.AList"
begin

text \<open>
  The state of the RTP core, \<^verbatim>\<open>src/crates/protocols/rtp/core/src\<close>: the types of \<^verbatim>\<open>types.rs\<close> and \<^verbatim>\<open>error.rs\<close>, the
  sessions of \<^verbatim>\<open>session/state.rs\<close> and the core of \<^verbatim>\<open>session.rs\<close>. The session table is an association list, one
  entry per key; the order in which a \<^verbatim>\<open>HashMap\<close> is iterated is an argument of the steps that iterate. The
  two demuxers are parameters: their states \<open>'t\<close> and \<open>'p\<close> and the operations in \<open>demux_ops\<close>.
\<close>

section \<open>Types\<close>

type_synonym session_key = string

datatype socket_addr = SocketV4 u32 u16 | SocketV6 "128 word" u16 u32 u32

datatype rtp_transport_mode = RecvOnly | SendOnly | SendRecv

datatype rtp_session_state = StInactive | StReceiving | StSending | StSendRecv | StTalk | StClosed

datatype rtp_connection_type = UdpActive | UdpPassive | TcpActive | TcpPassive | VoiceTalk

datatype rtp_track_filter = AllTracks | OnlyAudio | OnlyVideo

datatype rtp_source_policy = StrictSource | AllowValidatedRebind

datatype close_reason =
  CloseStopped | CloseIdleTimeout | CloseRrTimeout | CloseBye
| CloseUnresolvablePayloadType u8 u8 u8
| ClosePayloadModeOscillation rtp_payload_mode rtp_payload_mode
| CloseConnectionClosed

record rtp_server_spec =
  ss_session_key :: session_key
  ss_ssrc :: "u32 option"
  ss_payload_mode :: rtp_payload_mode
  ss_transport_mode :: rtp_transport_mode
  ss_packet_duration_ms :: "u32 option"
  ss_connection_type :: "rtp_connection_type option"
  ss_source_policy :: "rtp_source_policy option"
  ss_track_filter :: rtp_track_filter

record rtp_client_spec =
  cs_session_key :: session_key
  cs_destination :: socket_addr
  cs_ssrc :: u32
  cs_payload_mode :: rtp_payload_mode
  cs_transport_mode :: rtp_transport_mode
  cs_packet_duration_ms :: "u32 option"
  cs_tcp_conn_id :: "nat option"
  cs_connection_type :: "rtp_connection_type option"
  cs_source_policy :: "rtp_source_policy option"
  cs_track_filter :: rtp_track_filter

record rtp_datagram =
  dgm_source :: socket_addr
  dgm_data :: bytes
  dgm_received_at_ms :: nat

record rtp_tcp_chunk =
  tc_conn_id :: nat
  tc_data :: bytes
  tc_received_at_ms :: nat

datatype rtp_core_event =
  SessionCreated session_key u32 rtp_payload_mode rtp_transport_mode
| SessionUpdated session_key u64 "u32 option" "u8 option" "bool option" "rtp_source_policy option"
| FormatChanged session_key u8 rtp_payload_mode rtp_payload_mode
| SourceChanged session_key socket_addr socket_addr
| SessionUpdateFailed session_key string
| SessionStateChanged session_key rtp_session_state rtp_session_state
| SessionClosed session_key close_reason
| TrackFound session_key "track_info list"
| FrameEvent session_key av_frame "socket_addr option"

datatype rtp_core_diagnostic =
  DiagInvalidRtpVersion u8
| DiagRtpHeaderError
| DiagEmptyPayload u32
| DiagUnknownPayload u32
| DiagSequenceGap u32 u16 u16
| DiagSourceSpoofed u32 socket_addr socket_addr
| DiagOversizedPayload u32 nat nat
| DiagSendFailed session_key string

datatype rtp_core_output =
  SendUdp session_key socket_addr bytes
| SendTcp nat session_key bytes
| SendRtcp session_key "socket_addr option" socket_addr "nat option" bytes
| OutEvent rtp_core_event
| OutDiagnostic rtp_core_diagnostic
| CloseSession session_key
| CloseTcpConnection nat

datatype rtp_core_command =
  CreateServer rtp_server_spec
| CreateClient rtp_client_spec
| SendFrame session_key av_frame
| StopSession session_key
| UpdateSession session_key u64 "u32 option" "u8 option" "bool option" "rtp_source_policy option"
| PauseCheck session_key bool
| ReportSendFailure session_key string

datatype rtp_core_input =
  UdpPacket rtp_datagram
| TcpBytes rtp_tcp_chunk
| TcpConnectionClosed nat nat
| RtcpInput rtp_datagram
| Tick nat
| Command rtp_core_command

section \<open>Demuxers\<close>

datatype ts_demux_event = TsTrackFound track_info | TsFrame av_frame | TsOther
datatype ps_demux_event = PsTrackInfo "track_info list" | PsFrame av_frame | PsOther

record ('t, 'p) demux_ops =
  dx_ts_new :: 't
  dx_ts_push :: "'t \<Rightarrow> bytes \<Rightarrow> 't \<times> ts_demux_event list"
  dx_ps_new :: 'p
  dx_ps_push :: "'p \<Rightarrow> bytes \<Rightarrow> 'p \<times> ps_demux_event list"

datatype ('t, 'p) session_demuxer = DemuxPending | DemuxTs 't | DemuxPs 'p | DemuxBypass

section \<open>Sessions\<close>

record ('t, 'p) rtp_session =
  se_session_key :: session_key
  se_ssrc :: u32
  se_payload_type :: "u8 option"
  se_payload_mode :: rtp_payload_mode
  se_egress_payload_mode :: rtp_payload_mode
  se_transport_mode :: rtp_transport_mode
  se_state :: rtp_session_state
  se_track_filter :: rtp_track_filter
  se_egress_track_filter :: rtp_track_filter
  se_demuxer :: "('t, 'p) session_demuxer"
  se_last_seq :: "u16 option"
  se_last_received_seq :: "u16 option"
  se_reorder :: "(rtp_packet \<times> nat \<times> socket_addr option) reorder_buffer"
  se_pt_probe_attempts :: u8
  se_pt_pending_profile :: "rtp_payload_profile option"
  se_pt_pending_confirm_count :: u8
  se_pt_change_unknown_count :: u8
  se_pt_format_change_count :: u8
  se_source_addr :: "socket_addr option"
  se_source_policy :: rtp_source_policy
  se_source_spoof_count :: u32
  se_source_rebind_count :: u32
  se_rtcp_source_addr :: "socket_addr option"
  se_last_activity_ms :: nat
  se_destination :: "socket_addr option"
  se_tcp_conn_id :: "nat option"
  se_next_seq :: u16
  se_next_timestamp :: "u32 option"
  se_packet_duration_ms :: "u32 option"
  se_peer_ssrc :: u32
  se_packets_received :: u32
  se_bytes_received :: u32
  se_packets_sent :: u32
  se_bytes_sent :: u32
  se_last_rtcp_report_ms :: nat
  se_last_rr_received_ms :: nat
  se_check_paused :: bool
  se_max_rtp_len_observed :: nat
  se_generation :: u64
  se_updated_at_ms :: nat
  se_last_error :: "string option"
  se_rtcp :: rtcp_report_state

text \<open>
  The literal of a new session, with the fields that differ between the four places that create one as
  arguments.
\<close>

definition fresh_session ::
  "session_key \<Rightarrow> u32 \<Rightarrow> rtp_payload_mode \<Rightarrow> rtp_transport_mode \<Rightarrow> rtp_track_filter \<Rightarrow> rtp_source_policy
    \<Rightarrow> socket_addr option \<Rightarrow> socket_addr option \<Rightarrow> nat option \<Rightarrow> u16 \<Rightarrow> u32 option \<Rightarrow> nat \<Rightarrow> ('t, 'p) rtp_session" where
  "fresh_session key ssrc mode transport shown policy source dest conn next_seq duration offset =
     \<lparr>se_session_key = key, se_ssrc = ssrc, se_payload_type = None, se_payload_mode = mode,
      se_egress_payload_mode = mode, se_transport_mode = transport, se_state = StInactive, se_track_filter = shown,
      se_egress_track_filter = shown, se_demuxer = DemuxPending, se_last_seq = None, se_last_received_seq = None,
      se_reorder = reorder_new reorder_settings_default, se_pt_probe_attempts = 0, se_pt_pending_profile = None,
      se_pt_pending_confirm_count = 0, se_pt_change_unknown_count = 0, se_pt_format_change_count = 0,
      se_source_addr = source, se_source_policy = policy, se_source_spoof_count = 0, se_source_rebind_count = 0,
      se_rtcp_source_addr = None, se_last_activity_ms = 0, se_destination = dest, se_tcp_conn_id = conn,
      se_next_seq = next_seq, se_next_timestamp = None, se_packet_duration_ms = duration, se_peer_ssrc = ssrc,
      se_packets_received = 0, se_bytes_received = 0, se_packets_sent = 0, se_bytes_sent = 0,
      se_last_rtcp_report_ms = 0, se_last_rr_received_ms = 0, se_check_paused = False, se_max_rtp_len_observed = 0,
      se_generation = 1, se_updated_at_ms = 0, se_last_error = None,
      se_rtcp = rtcp_report_state_new (default_clock_rate_hz mode) offset\<rparr>"

definition rand_ssrc :: "u32 \<Rightarrow> u32" where "rand_ssrc drawn = drawn AND 0x7FFFFFFF"

definition payload_mode_from_payload_type :: "u8 \<Rightarrow> rtp_payload_mode" where
  "payload_mode_from_payload_type pt =
     (if pt = 0 \<or> pt = 8 then RawAudio else if pt = 33 then Ts else if 96 \<le> pt \<and> pt \<le> 99 then Es else Ps)"

fun track_filter_allows_track :: "rtp_track_filter \<Rightarrow> media_kind \<Rightarrow> bool" where
  "track_filter_allows_track AllTracks kind = True"
| "track_filter_allows_track OnlyAudio kind = (kind = Audio)"
| "track_filter_allows_track OnlyVideo kind = (kind = Video)"

definition state_after_ingress :: "rtp_transport_mode \<Rightarrow> rtp_session_state \<Rightarrow> rtp_session_state option" where
  "state_after_ingress mode current =
     (if mode = SendRecv \<and> current = StTalk then None
      else if mode = RecvOnly \<and> current \<in> {StInactive, StReceiving} then Some StReceiving
      else if mode = SendRecv \<and> current \<in> {StInactive, StReceiving, StSending} then Some StSendRecv
      else None)"

definition state_after_egress :: "rtp_transport_mode \<Rightarrow> rtp_session_state \<Rightarrow> bool \<Rightarrow> rtp_session_state option" where
  "state_after_egress mode current is_talk =
     (if is_talk then (if current = StTalk then None else Some StTalk)
      else if mode = SendOnly \<and> current \<in> {StInactive, StSending} then Some StSending
      else if mode = SendRecv \<and> current \<in> {StInactive, StReceiving, StSending} then Some StSendRecv
      else None)"

definition commit_payload_profile :: "('t, 'p) rtp_session \<Rightarrow> u8 \<Rightarrow> rtp_payload_profile \<Rightarrow> ('t, 'p) rtp_session" where
  "commit_payload_profile s pt profile =
     s\<lparr>se_payload_type := Some pt, se_payload_mode := pr_mode profile, se_egress_payload_mode := pr_mode profile,
       se_demuxer := DemuxPending, se_pt_change_unknown_count := 0,
       se_rtcp := report_set_clock_rate_hz (se_rtcp s) (default_clock_rate_hz (pr_mode profile))\<rparr>"

definition transition_to ::
  "('t, 'p) rtp_session \<Rightarrow> rtp_session_state \<Rightarrow> ('t, 'p) rtp_session \<times> rtp_session_state option" where
  "transition_to s new_state =
     (if se_state s = new_state \<or> se_state s = StClosed then (s, None)
      else (s\<lparr>se_state := new_state\<rparr>, Some (se_state s)))"

text \<open>The transition and the event it is announced with.\<close>

definition announce_transition ::
  "session_key \<Rightarrow> ('t, 'p) rtp_session \<Rightarrow> rtp_session_state \<Rightarrow> ('t, 'p) rtp_session \<times> rtp_core_output list" where
  "announce_transition key s new_state =
     (case transition_to s new_state of
        (s, None) \<Rightarrow> (s, [])
      | (s, Some old) \<Rightarrow> (s, [OutEvent (SessionStateChanged key old new_state)]))"

section \<open>The core\<close>

record ('t, 'p) rtp_core =
  rc_sessions :: "(session_key \<times> ('t, 'p) rtp_session) list"
  rc_ssrc_to_session :: "u32 \<rightharpoonup> session_key"
  rc_tcp_conn_to_session :: "nat \<rightharpoonup> session_key"
  rc_ehome_decoders :: "nat \<rightharpoonup> ehome_decoder"
  rc_pt_resolver :: rtp_pt_resolver
  rc_max_sessions :: nat
  rc_session_idle_timeout_ms :: nat
  rc_max_pt_probe_packets :: u8
  rc_pt_lock_confidence :: u8
  rc_max_pt_format_changes :: u8
  rc_max_tolerated_unknown_pt_packets :: u8
  rc_source_rebind_idle_window_ms :: nat
  rc_max_source_rebinds :: u32
  rc_rtcp_report_interval_ms :: nat
  rc_wall_clock_offset_ms :: nat
  rc_now_ms :: nat
  rc_tcp_framing :: rtp_tcp_framing
  rc_max_rtp_len_cap :: nat

definition rtp_core_new :: "nat \<Rightarrow> nat \<Rightarrow> ('t, 'p) rtp_core" where
  "rtp_core_new max_sessions session_idle_timeout_ms =
     \<lparr>rc_sessions = [], rc_ssrc_to_session = Map.empty, rc_tcp_conn_to_session = Map.empty,
      rc_ehome_decoders = Map.empty, rc_pt_resolver = Map.empty, rc_max_sessions = max_sessions,
      rc_session_idle_timeout_ms = session_idle_timeout_ms, rc_max_pt_probe_packets = 8, rc_pt_lock_confidence = 2,
      rc_max_pt_format_changes = 3, rc_max_tolerated_unknown_pt_packets = 255,
      rc_source_rebind_idle_window_ms = 1000, rc_max_source_rebinds = 10, rc_rtcp_report_interval_ms = 5000,
      rc_wall_clock_offset_ms = 0, rc_now_ms = 0, rc_tcp_framing = AutoDetect, rc_max_rtp_len_cap = 65536\<rparr>"

abbreviation get_session :: "('t, 'p) rtp_core \<Rightarrow> session_key \<rightharpoonup> ('t, 'p) rtp_session" where
  "get_session c \<equiv> map_of (rc_sessions c)"

definition put_session :: "('t, 'p) rtp_core \<Rightarrow> session_key \<Rightarrow> ('t, 'p) rtp_session \<Rightarrow> ('t, 'p) rtp_core" where
  "put_session c key s = c\<lparr>rc_sessions := AList.update key s (rc_sessions c)\<rparr>"

definition set_tcp_framing :: "('t, 'p) rtp_core \<Rightarrow> rtp_tcp_framing \<Rightarrow> ('t, 'p) rtp_core" where
  "set_tcp_framing c framing = c\<lparr>rc_tcp_framing := framing\<rparr>"

definition set_rtcp_report_interval_ms :: "('t, 'p) rtp_core \<Rightarrow> nat \<Rightarrow> ('t, 'p) rtp_core" where
  "set_rtcp_report_interval_ms c ms = c\<lparr>rc_rtcp_report_interval_ms := max ms 1\<rparr>"

definition set_wall_clock_offset_ms :: "('t, 'p) rtp_core \<Rightarrow> nat \<Rightarrow> ('t, 'p) rtp_core" where
  "set_wall_clock_offset_ms c offset_ms =
     c\<lparr>rc_wall_clock_offset_ms := offset_ms,
       rc_sessions := map (\<lambda>(k, s). (k, s\<lparr>se_rtcp := report_set_wall_clock_offset_ms (se_rtcp s) offset_ms\<rparr>))
         (rc_sessions c)\<rparr>"

definition set_max_rtp_len_cap :: "('t, 'p) rtp_core \<Rightarrow> nat \<Rightarrow> ('t, 'p) rtp_core" where
  "set_max_rtp_len_cap c cap = c\<lparr>rc_max_rtp_len_cap := max cap 1500\<rparr>"

definition set_pt_lock_confidence :: "('t, 'p) rtp_core \<Rightarrow> u8 \<Rightarrow> ('t, 'p) rtp_core" where
  "set_pt_lock_confidence c confidence = c\<lparr>rc_pt_lock_confidence := max confidence 1\<rparr>"

definition set_max_tolerated_unknown_pt_packets :: "('t, 'p) rtp_core \<Rightarrow> u8 \<Rightarrow> ('t, 'p) rtp_core" where
  "set_max_tolerated_unknown_pt_packets c m = c\<lparr>rc_max_tolerated_unknown_pt_packets := max m 1\<rparr>"

definition set_source_rebind_idle_window_ms :: "('t, 'p) rtp_core \<Rightarrow> nat \<Rightarrow> ('t, 'p) rtp_core" where
  "set_source_rebind_idle_window_ms c ms = c\<lparr>rc_source_rebind_idle_window_ms := max ms 1\<rparr>"

definition set_max_source_rebinds :: "('t, 'p) rtp_core \<Rightarrow> u32 \<Rightarrow> ('t, 'p) rtp_core" where
  "set_max_source_rebinds c m = c\<lparr>rc_max_source_rebinds := max m 1\<rparr>"

end
