(* ===== verification/Rtp_Session_Rtp.thy ===== *)
theory Rtp_Session_Rtp
  imports Rtp_Session_State
begin

text \<open>
  RTP packets in the RTP core, \<^verbatim>\<open>session/rtp.rs\<close>, and the end of a session, \<^verbatim>\<open>close_session\<close> of
  \<^verbatim>\<open>session/command.rs\<close>. Every step returns the new core and the outputs it pushed.
\<close>

type_synonym ('t, 'p) rtp_result = "('t, 'p) rtp_core \<times> rtp_core_output list"

definition close_session :: "('t, 'p) rtp_core \<Rightarrow> session_key \<Rightarrow> close_reason \<Rightarrow> ('t, 'p) rtp_result" where
  "close_session c key reason =
     (case get_session c key of
        None \<Rightarrow> (c, [])
      | Some s \<Rightarrow>
          let c = c\<lparr>rc_sessions := AList.delete key (rc_sessions c),
                    rc_ssrc_to_session := (rc_ssrc_to_session c)(se_ssrc s := None)\<rparr>;
              c = (case se_tcp_conn_id s of
                     None \<Rightarrow> c
                   | Some conn \<Rightarrow> c\<lparr>rc_tcp_conn_to_session := (rc_tcp_conn_to_session c)(conn := None),
                                   rc_ehome_decoders := (rc_ehome_decoders c)(conn := None)\<rparr>)
          in (c, [CloseSession key, OutEvent (SessionClosed key reason)]))"

section \<open>The payload mode\<close>

text \<open>A session whose mode is unknown: binding, static table, then a bounded number of guesses.\<close>

definition probe_mode :: "('t, 'p) rtp_core \<Rightarrow> ('t, 'p) rtp_session \<Rightarrow> rtp_packet \<Rightarrow> ('t, 'p) rtp_session" where
  "probe_mode c s rtp =
     (let pt = rh_payload_type (rp_header rtp);
          s = (if se_pt_probe_attempts s < rc_max_pt_probe_packets c then
                 let s = s\<lparr>se_pt_probe_attempts := se_pt_probe_attempts s + 1\<rparr>;
                     sure = (\<lambda>profile. commit_payload_profile
                       (s\<lparr>se_pt_pending_profile := Some profile, se_pt_pending_confirm_count := rc_pt_lock_confidence c\<rparr>)
                       pt profile)
                 in case resolve_with_source (rc_pt_resolver c) pt (rp_payload rtp) of
                      PtBinding profile \<Rightarrow> sure profile
                    | PtStatic profile \<Rightarrow> sure profile
                    | PtEncapsulation profile \<Rightarrow> sure profile
                    | PtWeak profile \<Rightarrow>
                        let s = (if se_pt_pending_profile s = Some profile
                                 then s\<lparr>se_pt_pending_confirm_count := se_pt_pending_confirm_count s + 1\<rparr>
                                 else s\<lparr>se_pt_pending_profile := Some profile, se_pt_pending_confirm_count := 1\<rparr>)
                        in if se_pt_pending_confirm_count s \<ge> rc_pt_lock_confidence c
                           then commit_payload_profile s pt profile else s
                    | PtUnknown \<Rightarrow> s\<lparr>se_pt_pending_profile := None, se_pt_pending_confirm_count := 0\<rparr>
               else s)
      in if se_payload_mode s = UnknownMode \<and> se_pt_probe_attempts s \<ge> rc_max_pt_probe_packets c
         then s\<lparr>se_payload_mode := Ps, se_egress_payload_mode := Ps, se_demuxer := DemuxPending,
                se_rtcp := report_set_clock_rate_hz (se_rtcp s) (default_clock_rate_hz Ps)\<rparr>
         else s)"

datatype pt_verdict = PtAccept "rtp_core_event option" | PtSkipDemuxer | PtClose close_reason

text \<open>A session whose mode is known: the payload type of the packet may differ from the one recorded.\<close>

definition locked_mode ::
  "('t, 'p) rtp_core \<Rightarrow> session_key \<Rightarrow> ('t, 'p) rtp_session \<Rightarrow> rtp_packet \<Rightarrow> ('t, 'p) rtp_session \<times> pt_verdict" where
  "locked_mode c key s rtp =
     (let new_pt = rh_payload_type (rp_header rtp) in
      case se_payload_type s of
        None \<Rightarrow> (s\<lparr>se_payload_type := Some new_pt\<rparr>, PtAccept None)
      | Some current_pt \<Rightarrow>
          if new_pt = current_pt then (s\<lparr>se_pt_change_unknown_count := 0\<rparr>, PtAccept None)
          else
            let sure = (\<lambda>profile.
                  let s = s\<lparr>se_pt_change_unknown_count := 0\<rparr>
                  in if pr_mode profile \<noteq> se_payload_mode s then
                       let s = s\<lparr>se_pt_format_change_count := se_pt_format_change_count s + 1\<rparr>
                       in if se_pt_format_change_count s > rc_max_pt_format_changes c
                          then (s, PtClose (ClosePayloadModeOscillation (se_payload_mode s) (pr_mode profile)))
                          else (commit_payload_profile s new_pt profile,
                                PtAccept (Some (FormatChanged key new_pt (se_payload_mode s) (pr_mode profile))))
                     else (s\<lparr>se_payload_type := Some new_pt\<rparr>, PtAccept None));
                unsure =
                  (let s = s\<lparr>se_pt_change_unknown_count := se_pt_change_unknown_count s + 1\<rparr>
                   in if se_pt_change_unknown_count s \<ge> rc_max_tolerated_unknown_pt_packets c
                      then (s, PtClose (CloseUnresolvablePayloadType current_pt new_pt (se_pt_change_unknown_count s)))
                      else (s, PtSkipDemuxer))
            in case resolve_with_source (rc_pt_resolver c) new_pt (rp_payload rtp) of
                 PtBinding profile \<Rightarrow> sure profile
               | PtStatic profile \<Rightarrow> sure profile
               | PtEncapsulation profile \<Rightarrow> sure profile
               | PtWeak _ \<Rightarrow> unsure
               | PtUnknown \<Rightarrow> unsure)"

definition resolve_session_mode ::
  "('t, 'p) rtp_core \<Rightarrow> session_key \<Rightarrow> ('t, 'p) rtp_session \<Rightarrow> rtp_packet \<Rightarrow> ('t, 'p) rtp_session \<times> pt_verdict" where
  "resolve_session_mode c key s rtp =
     (if se_payload_mode s = UnknownMode then (probe_mode c s rtp, PtAccept None) else locked_mode c key s rtp)"

section \<open>Demuxing\<close>

definition track_event :: "session_key \<Rightarrow> rtp_track_filter \<Rightarrow> track_info \<Rightarrow> rtp_core_output list" where
  "track_event key allowed track =
     (if track_filter_allows_track allowed (ti_media_kind track) then [OutEvent (TrackFound key [track])] else [])"

definition tracks_event :: "session_key \<Rightarrow> rtp_track_filter \<Rightarrow> track_info list \<Rightarrow> rtp_core_output list" where
  "tracks_event key allowed tracks =
     (let filtered = List.filter (\<lambda>t. track_filter_allows_track allowed (ti_media_kind t)) tracks
      in if filtered \<noteq> [] then [OutEvent (TrackFound key filtered)] else [])"

definition frame_event ::
  "session_key \<Rightarrow> rtp_track_filter \<Rightarrow> socket_addr option \<Rightarrow> av_frame \<Rightarrow> rtp_core_output list" where
  "frame_event key allowed source frame =
     (if track_filter_allows_track allowed (av_media_kind frame) then [OutEvent (FrameEvent key frame source)] else [])"

definition ts_events ::
  "session_key \<Rightarrow> rtp_track_filter \<Rightarrow> socket_addr option \<Rightarrow> ts_demux_event list \<Rightarrow> rtp_core_output list" where
  "ts_events key allowed source evs = concat (map (\<lambda>ev. case ev of
       TsTrackFound track \<Rightarrow> track_event key allowed track
     | TsFrame frame \<Rightarrow> frame_event key allowed source frame
     | TsOther \<Rightarrow> []) evs)"

definition ps_events ::
  "session_key \<Rightarrow> rtp_track_filter \<Rightarrow> socket_addr option \<Rightarrow> ps_demux_event list \<Rightarrow> rtp_core_output list" where
  "ps_events key allowed source evs = concat (map (\<lambda>ev. case ev of
       PsTrackInfo tracks \<Rightarrow> tracks_event key allowed tracks
     | PsFrame frame \<Rightarrow> frame_event key allowed source frame
     | PsOther \<Rightarrow> []) evs)"

definition build_demuxer :: "('t, 'p) demux_ops \<Rightarrow> rtp_payload_mode \<Rightarrow> ('t, 'p) session_demuxer" where
  "build_demuxer ops mode = (case mode of Ts \<Rightarrow> DemuxTs (dx_ts_new ops) | Ps \<Rightarrow> DemuxPs (dx_ps_new ops) | _ \<Rightarrow> DemuxBypass)"

definition demux_payload ::
  "('t, 'p) demux_ops \<Rightarrow> session_key \<Rightarrow> ('t, 'p) rtp_session \<Rightarrow> bytes \<Rightarrow> socket_addr option
    \<Rightarrow> ('t, 'p) rtp_session \<times> rtp_core_output list" where
  "demux_payload ops key s payload source =
     (let demuxer = (case se_demuxer s of DemuxPending \<Rightarrow> build_demuxer ops (se_payload_mode s) | d \<Rightarrow> d)
      in case demuxer of
           DemuxTs d \<Rightarrow>
             (case dx_ts_push ops d payload of
                (d, evs) \<Rightarrow> (s\<lparr>se_demuxer := DemuxTs d\<rparr>, ts_events key (se_track_filter s) source evs))
         | DemuxPs d \<Rightarrow>
             (case dx_ps_push ops d payload of
                (d, evs) \<Rightarrow> (s\<lparr>se_demuxer := DemuxPs d\<rparr>, ps_events key (se_track_filter s) source evs))
         | _ \<Rightarrow> (s\<lparr>se_demuxer := demuxer\<rparr>, []))"

section \<open>One packet\<close>

text \<open>The learner of the largest payload, the state change and the sequence check.\<close>

definition learn_rtp_len ::
  "('t, 'p) rtp_core \<Rightarrow> ('t, 'p) rtp_session \<Rightarrow> u32 \<Rightarrow> nat \<Rightarrow> ('t, 'p) rtp_session \<times> rtp_core_output list" where
  "learn_rtp_len c s ssrc len =
     (if len > se_max_rtp_len_observed s
      then (s\<lparr>se_max_rtp_len_observed := min len (rc_max_rtp_len_cap c)\<rparr>,
            if len > rc_max_rtp_len_cap c
            then [OutDiagnostic (DiagOversizedPayload ssrc len (rc_max_rtp_len_cap c))] else [])
      else (s, []))"

definition ingress_state ::
  "session_key \<Rightarrow> ('t, 'p) rtp_session \<Rightarrow> bool \<Rightarrow> ('t, 'p) rtp_session \<times> rtp_core_output list" where
  "ingress_state key s created =
     (case state_after_ingress (se_transport_mode s) (se_state s) of
        None \<Rightarrow> (s, [])
      | Some new_state \<Rightarrow> if created then (s\<lparr>se_state := new_state\<rparr>, []) else announce_transition key s new_state)"

definition sequence_gap :: "u32 \<Rightarrow> u16 option \<Rightarrow> u16 \<Rightarrow> rtp_core_output list" where
  "sequence_gap ssrc last_seq seq =
     (case last_seq of
        None \<Rightarrow> []
      | Some prev \<Rightarrow> if seq \<noteq> prev + 1 then [OutDiagnostic (DiagSequenceGap ssrc (prev + 1) seq)] else [])"

text \<open>The accounting of a packet; the first of a new session announces it.\<close>

definition account_packet ::
  "('t, 'p) rtp_core \<Rightarrow> session_key \<Rightarrow> ('t, 'p) rtp_session \<Rightarrow> rtp_packet \<Rightarrow> nat \<Rightarrow> bool
    \<Rightarrow> ('t, 'p) rtp_session \<times> rtp_core_output list" where
  "account_packet c key s rtp received_at_ms created =
     (let h = rp_header rtp; ssrc = rh_ssrc h; seq = rh_sequence_number h; len = length (rp_payload rtp);
          s = s\<lparr>se_packets_received := se_packets_received s + 1,
                se_bytes_received := se_bytes_received s + of_nat len,
                se_last_activity_ms := max (se_last_activity_ms s) received_at_ms,
                se_rtcp := report_on_packet (se_rtcp s) seq (rh_timestamp h) received_at_ms\<rparr>;
          (s, oversized) = learn_rtp_len c s ssrc len;
          announced = (if created then [OutEvent (SessionCreated key ssrc (se_payload_mode s) (se_transport_mode s))] else []);
          (s, changed) = ingress_state key s created
      in (s\<lparr>se_last_seq := Some seq\<rparr>, oversized @ announced @ changed @ sequence_gap ssrc (se_last_seq s) seq))"

definition adopt_tcp_conn ::
  "('t, 'p) rtp_core \<Rightarrow> session_key \<Rightarrow> ('t, 'p) rtp_session \<Rightarrow> nat option \<Rightarrow> ('t, 'p) rtp_core" where
  "adopt_tcp_conn c key s tcp_conn_id =
     (case (se_tcp_conn_id s, tcp_conn_id) of
        (None, Some conn) \<Rightarrow>
          put_session (c\<lparr>rc_tcp_conn_to_session := (rc_tcp_conn_to_session c)(conn \<mapsto> key)\<rparr>) key
            (s\<lparr>se_tcp_conn_id := Some conn\<rparr>)
      | _ \<Rightarrow> put_session c key s)"

definition process_single_rtp_packet ::
  "('t, 'p) demux_ops \<Rightarrow> ('t, 'p) rtp_core \<Rightarrow> session_key \<Rightarrow> rtp_packet \<Rightarrow> nat option \<Rightarrow> socket_addr option \<Rightarrow> nat \<Rightarrow> bool
    \<Rightarrow> ('t, 'p) rtp_result \<times> close_reason option" where
  "process_single_rtp_packet ops c key rtp tcp_conn_id source received_at_ms created =
     (case get_session c key of
        None \<Rightarrow> ((c, []), None)
      | Some s \<Rightarrow>
          (case resolve_session_mode c key s rtp of
             (s, PtClose reason) \<Rightarrow> ((put_session c key s, []), Some reason)
           | (s, PtSkipDemuxer) \<Rightarrow>
               (case account_packet c key s rtp received_at_ms created of
                  (s, outs) \<Rightarrow> ((put_session c key s, outs), None))
           | (s, PtAccept change) \<Rightarrow>
               (case account_packet c key s rtp received_at_ms created of
                  (s, outs) \<Rightarrow>
                    (case demux_payload ops key s (rp_payload rtp) source of
                       (s, media) \<Rightarrow>
                         ((adopt_tcp_conn c key s tcp_conn_id,
                           (case change of None \<Rightarrow> [] | Some ev \<Rightarrow> [OutEvent ev]) @ outs @ media), None)))))"

text \<open>The packets the reorder buffer released, until one of them ends the session.\<close>

fun process_released ::
  "('t, 'p) demux_ops \<Rightarrow> ('t, 'p) rtp_core \<Rightarrow> session_key \<Rightarrow> nat option \<Rightarrow> bool
    \<Rightarrow> (rtp_packet \<times> nat \<times> socket_addr option) list \<Rightarrow> ('t, 'p) rtp_result" where
  "process_released ops c key tcp_conn_id created [] = (c, [])"
| "process_released ops c key tcp_conn_id created ((rtp, at, source) # rest) =
     (case process_single_rtp_packet ops c key rtp tcp_conn_id source at created of
        ((c, outs), Some reason) \<Rightarrow> (case close_session c key reason of (c, outs') \<Rightarrow> (c, outs @ outs'))
      | ((c, outs), None) \<Rightarrow>
          if get_session c key = None then (c, outs)
          else (case process_released ops c key tcp_conn_id False rest of (c, outs') \<Rightarrow> (c, outs @ outs')))"

section \<open>Admission\<close>

definition plausible_seq_continuation :: "u16 option \<Rightarrow> u16 \<Rightarrow> bool" where
  "plausible_seq_continuation last_seq seq =
     (case last_seq of
        None \<Rightarrow> True
      | Some prev \<Rightarrow> if seq = prev then False else seq - prev \<le> 64 \<or> prev - seq > 64)"

text \<open>The session of a packet: the one its SSRC is mapped to, or a new one.\<close>

definition live_key :: "u32 \<Rightarrow> session_key" where
  "live_key ssrc = ''live/'' @ decimal (unat ssrc)"

definition auto_create_session ::
  "('t, 'p) rtp_core \<Rightarrow> rtp_packet \<Rightarrow> socket_addr option \<Rightarrow> nat option \<Rightarrow> ('t, 'p) rtp_core" where
  "auto_create_session c rtp source tcp_conn_id =
     (let ssrc = rh_ssrc (rp_header rtp); key = live_key ssrc; mode = probe_rtp_payload (rp_payload rtp);
          c = put_session c key (fresh_session key ssrc mode RecvOnly AllTracks AllowValidatedRebind source None tcp_conn_id
                0 None (rc_wall_clock_offset_ms c));
          c = c\<lparr>rc_ssrc_to_session := (rc_ssrc_to_session c)(ssrc \<mapsto> key)\<rparr>
      in case tcp_conn_id of
           None \<Rightarrow> c
         | Some conn \<Rightarrow> c\<lparr>rc_tcp_conn_to_session := (rc_tcp_conn_to_session c)(conn \<mapsto> key)\<rparr>)"

datatype admission = Admitted | Refused

text \<open>The source-address policy, before the packet reaches the reorder buffer.\<close>

definition check_source ::
  "('t, 'p) rtp_core \<Rightarrow> session_key \<Rightarrow> ('t, 'p) rtp_session \<Rightarrow> rtp_packet \<Rightarrow> socket_addr option \<Rightarrow> nat
    \<Rightarrow> ('t, 'p) rtp_session \<times> rtp_core_output list \<times> admission" where
  "check_source c key s rtp source received_at_ms =
     (case source of
        None \<Rightarrow> (s, [], Admitted)
      | Some src \<Rightarrow>
          let seq = rh_sequence_number (rp_header rtp); ssrc = rh_ssrc (rp_header rtp);
              accept = (\<lambda>s outs. (s\<lparr>se_last_activity_ms := received_at_ms, se_last_received_seq := Some seq\<rparr>, outs, Admitted));
              spoof = (\<lambda>bound. (s\<lparr>se_source_spoof_count := se_source_spoof_count s + 1\<rparr>,
                         [OutDiagnostic (DiagSourceSpoofed ssrc bound src)], Refused))
          in case se_source_addr s of
               None \<Rightarrow> accept (s\<lparr>se_source_addr := Some src\<rparr>) []
             | Some bound \<Rightarrow>
                 if bound = src then accept s []
                 else
                   (case se_source_policy s of
                      StrictSource \<Rightarrow> spoof bound
                    | AllowValidatedRebind \<Rightarrow>
                        if received_at_ms - se_last_activity_ms s \<ge> rc_source_rebind_idle_window_ms c
                           \<and> plausible_seq_continuation (se_last_received_seq s) seq
                           \<and> se_source_rebind_count s < rc_max_source_rebinds c
                        then
                          let s = s\<lparr>se_source_rebind_count := se_source_rebind_count s + 1, se_source_addr := Some src\<rparr>;
                              s = (if se_transport_mode s \<in> {SendOnly, SendRecv} then s\<lparr>se_destination := Some src\<rparr> else s)
                          in accept (s\<lparr>se_reorder := reorder_reset (se_reorder s), se_last_seq := None\<rparr>)
                               [OutEvent (SourceChanged key bound src)]
                        else spoof bound))"

definition admit_packet ::
  "('t, 'p) demux_ops \<Rightarrow> ('t, 'p) rtp_core \<Rightarrow> session_key \<Rightarrow> rtp_packet \<Rightarrow> socket_addr option \<Rightarrow> nat option \<Rightarrow> nat \<Rightarrow> bool
    \<Rightarrow> ('t, 'p) rtp_result" where
  "admit_packet ops c key rtp source tcp_conn_id received_at_ms created =
     (case get_session c key of
        None \<Rightarrow> (c, [])
      | Some s \<Rightarrow>
          (case check_source c key s rtp source received_at_ms of
             (s, outs, Refused) \<Rightarrow> (put_session c key s, outs)
           | (s, outs, Admitted) \<Rightarrow>
               (case reorder_push (se_reorder s) (rh_sequence_number (rp_header rtp)) received_at_ms
                   (rtp, received_at_ms, source) of
                  (b, released) \<Rightarrow>
                    (case process_released ops (put_session c key (s\<lparr>se_reorder := b\<rparr>)) key tcp_conn_id created released of
                       (c, outs') \<Rightarrow> (c, outs @ outs')))))"

definition feed_rtp_packet ::
  "('t, 'p) demux_ops \<Rightarrow> ('t, 'p) rtp_core \<Rightarrow> rtp_packet \<Rightarrow> socket_addr option \<Rightarrow> nat option \<Rightarrow> nat \<Rightarrow> ('t, 'p) rtp_result" where
  "feed_rtp_packet ops c rtp source tcp_conn_id received_at_ms =
     (let ssrc = rh_ssrc (rp_header rtp) in
      if rh_version (rp_header rtp) \<noteq> 2 then (c, [OutDiagnostic (DiagInvalidRtpVersion (rh_version (rp_header rtp)))])
      else if rp_payload rtp = [] then (c, [OutDiagnostic (DiagEmptyPayload ssrc)])
      else
        case rc_ssrc_to_session c ssrc of
          Some key \<Rightarrow> admit_packet ops c key rtp source tcp_conn_id received_at_ms False
        | None \<Rightarrow>
            if length (rc_sessions c) \<ge> rc_max_sessions c then (c, [OutDiagnostic (DiagUnknownPayload ssrc)])
            else admit_packet ops (auto_create_session c rtp source tcp_conn_id) (live_key ssrc) rtp source tcp_conn_id
                   received_at_ms True)"

definition process_udp_packet :: "('t, 'p) demux_ops \<Rightarrow> ('t, 'p) rtp_core \<Rightarrow> rtp_datagram \<Rightarrow> ('t, 'p) rtp_result" where
  "process_udp_packet ops c d =
     (case rtp_packet_parse (dgm_data d) of
        None \<Rightarrow>
          (c, if dgm_data d \<noteq> [] \<and> drop_bit 6 (dgm_data d ! 0) \<noteq> 2
              then [OutDiagnostic (DiagInvalidRtpVersion (drop_bit 6 (dgm_data d ! 0)))]
              else [OutDiagnostic DiagRtpHeaderError])
      | Some rtp \<Rightarrow> feed_rtp_packet ops c rtp (Some (dgm_source d)) None (dgm_received_at_ms d))"

end
