(* ===== verification/Rtp_Session_Core.thy ===== *)
theory Rtp_Session_Core
  imports Rtp_Session_Rtp
begin

text \<open>
  Commands, TCP bytes, RTCP packets and ticks of the RTP core (\<^verbatim>\<open>session/command.rs\<close>, \<^verbatim>\<open>session/tcp.rs\<close>,
  \<^verbatim>\<open>session/ingress.rs\<close>, \<^verbatim>\<open>session/tick.rs\<close>) and its entry point \<^verbatim>\<open>handle_input\<close>. \<open>env\<close> holds what the core
  cannot compute: the drawn random number, the order in which the session table is iterated, the demuxers.
\<close>

record ('t, 'p) core_env =
  env_random :: u32
  env_order :: "session_key list"
  env_demux :: "('t, 'p) demux_ops"

section \<open>Commands\<close>

definition create_server :: "('t, 'p) rtp_core \<Rightarrow> u32 \<Rightarrow> rtp_server_spec \<Rightarrow> ('t, 'p) rtp_result" where
  "create_server c random spec =
     (let key = ss_session_key spec in
      if get_session c key \<noteq> None then (c, [])
      else
        let ssrc = (case ss_ssrc spec of Some ssrc \<Rightarrow> ssrc | None \<Rightarrow> rand_ssrc random);
            policy = (case ss_source_policy spec of Some p \<Rightarrow> p | None \<Rightarrow> StrictSource);
            s = fresh_session key ssrc (ss_payload_mode spec) (ss_transport_mode spec) (ss_track_filter spec) policy
                  None None None 1 (ss_packet_duration_ms spec) (rc_wall_clock_offset_ms c);
            c = put_session c key s
        in (c\<lparr>rc_ssrc_to_session := (rc_ssrc_to_session c)(ssrc \<mapsto> key)\<rparr>,
            [OutEvent (SessionCreated key ssrc (ss_payload_mode spec) (ss_transport_mode spec))]))"

text \<open>A client command for a session that exists attaches a connection, or turns it into a voice talk.\<close>

definition attach_client ::
  "('t, 'p) rtp_core \<Rightarrow> rtp_client_spec \<Rightarrow> ('t, 'p) rtp_session \<Rightarrow> ('t, 'p) rtp_result" where
  "attach_client c spec s =
     (let key = cs_session_key spec;
          (c, s) = (case cs_tcp_conn_id spec of
                      None \<Rightarrow> (c, s)
                    | Some conn \<Rightarrow>
                        let c = (case se_tcp_conn_id s of
                                   None \<Rightarrow> c
                                 | Some old \<Rightarrow> c\<lparr>rc_tcp_conn_to_session := (rc_tcp_conn_to_session c)(old := None)\<rparr>)
                        in (c\<lparr>rc_tcp_conn_to_session := (rc_tcp_conn_to_session c)(conn \<mapsto> key)\<rparr>,
                            s\<lparr>se_tcp_conn_id := Some conn\<rparr>));
          s = (if se_destination s = None then s\<lparr>se_destination := Some (cs_destination spec)\<rparr> else s);
          (s, outs) =
            (if cs_connection_type spec = Some VoiceTalk then
               announce_transition key
                 (s\<lparr>se_transport_mode := cs_transport_mode spec, se_egress_track_filter := cs_track_filter spec,
                    se_egress_payload_mode := cs_payload_mode spec,
                    se_packet_duration_ms := cs_packet_duration_ms spec,
                    se_destination := Some (cs_destination spec)\<rparr>) StTalk
             else (s, []))
      in (put_session c key s, outs))"

definition create_client :: "('t, 'p) rtp_core \<Rightarrow> rtp_client_spec \<Rightarrow> ('t, 'p) rtp_result" where
  "create_client c spec =
     (let key = cs_session_key spec in
      case get_session c key of
        Some s \<Rightarrow> attach_client c spec s
      | None \<Rightarrow>
          let policy = (case cs_source_policy spec of Some p \<Rightarrow> p | None \<Rightarrow> StrictSource);
              s = fresh_session key (cs_ssrc spec) (cs_payload_mode spec) (cs_transport_mode spec) (cs_track_filter spec)
                    policy None (Some (cs_destination spec)) (cs_tcp_conn_id spec) 1 (cs_packet_duration_ms spec)
                    (rc_wall_clock_offset_ms c);
              c = put_session c key s;
              c = c\<lparr>rc_ssrc_to_session := (rc_ssrc_to_session c)(cs_ssrc spec \<mapsto> key)\<rparr>;
              c = (case cs_tcp_conn_id spec of
                     None \<Rightarrow> c
                   | Some conn \<Rightarrow> c\<lparr>rc_tcp_conn_to_session := (rc_tcp_conn_to_session c)(conn \<mapsto> key)\<rparr>)
          in (c, [OutEvent (SessionCreated key (cs_ssrc spec) (cs_payload_mode spec) (cs_transport_mode spec))]))"

text \<open>Frames to send.\<close>

definition egress_clock_rate :: "av_frame \<Rightarrow> u32" where
  "egress_clock_rate f =
     (if av_media_kind f = Video then 90000
      else if tb_den (av_timebase f) > 0 then tb_den (av_timebase f) else 8000)"

definition egress_payload_type :: "rtp_payload_mode \<Rightarrow> av_frame \<Rightarrow> u8" where
  "egress_payload_type mode f =
     (case mode of
        Ps \<Rightarrow> 96
      | Ts \<Rightarrow> 33
      | _ \<Rightarrow>
          (case av_media_kind f of
             Audio \<Rightarrow> (case av_codec f of G711U \<Rightarrow> 0 | G711A \<Rightarrow> 8 | MP3 \<Rightarrow> 14 | _ \<Rightarrow> 97)
           | Video \<Rightarrow> 96
           | _ \<Rightarrow> 97))"

definition send_packet_output :: "('t, 'p) rtp_session \<Rightarrow> rtp_packet \<Rightarrow> rtp_core_output list" where
  "send_packet_output s pkt =
     (case se_tcp_conn_id s of
        Some conn \<Rightarrow> [SendTcp conn (se_session_key s) (encode_tcp_rtp_frame pkt)]
      | None \<Rightarrow>
          (case se_destination s of
             Some dest \<Rightarrow> [SendUdp (se_session_key s) dest (rtp_packet_encode pkt)]
           | None \<Rightarrow> []))"

definition is_raw_audio :: "('t, 'p) rtp_session \<Rightarrow> av_frame \<Rightarrow> bool" where
  "is_raw_audio s f \<longleftrightarrow>
     se_egress_payload_mode s = RawAudio \<and> av_media_kind f = Audio \<and> av_codec f \<in> {G711U, G711A}"

text \<open>The RTP packets of a frame.\<close>

definition egress_timestamp :: "('t, 'p) rtp_session \<Rightarrow> av_frame \<Rightarrow> u32" where
  "egress_timestamp s f =
     (let ticks = micros_to_ticks (egress_clock_rate f) (av_pts_us f)
      in if is_raw_audio s f then (case se_next_timestamp s of Some t \<Rightarrow> t | None \<Rightarrow> ticks) else ticks)"

definition packetize_frame :: "('t, 'p) rtp_session \<Rightarrow> av_frame \<Rightarrow> rtp_packet list" where
  "packetize_frame s f =
     (let header = \<lparr>rh_version = 2, rh_payload_type = egress_payload_type (se_egress_payload_mode s) f,
                    rh_sequence_number = se_next_seq s, rh_timestamp = egress_timestamp s f, rh_ssrc = se_ssrc s,
                    rh_marker = False\<rparr>
      in if is_raw_audio s f
         then packetize_g711 (av_payload f) (egress_clock_rate f)
                (max (case se_packet_duration_ms s of Some d \<Rightarrow> d | None \<Rightarrow> 20) 1) header
         else packetize_payload (av_payload f) 1400 header)"

text \<open>The counters of a session after it sent packets, and its state.\<close>

definition record_sent :: "('t, 'p) rtp_session \<Rightarrow> av_frame \<Rightarrow> rtp_packet list \<Rightarrow> ('t, 'p) rtp_session" where
  "record_sent s f packets =
     s\<lparr>se_rtcp := report_on_sent (se_rtcp s) (egress_timestamp s f),
       se_next_timestamp :=
         (if is_raw_audio s f \<and> packets \<noteq> []
          then Some (rh_timestamp (rp_header (last packets)) + of_nat (length (rp_payload (last packets))))
          else se_next_timestamp s),
       se_packets_sent := se_packets_sent s + of_nat (length packets),
       se_bytes_sent := se_bytes_sent s + of_nat (sum_list (map (length \<circ> rp_payload) packets)),
       se_next_seq := se_next_seq s + max (of_nat (length packets)) 1\<rparr>"

definition egress_state :: "session_key \<Rightarrow> ('t, 'p) rtp_session \<Rightarrow> ('t, 'p) rtp_session \<times> rtp_core_output list" where
  "egress_state key s =
     (case state_after_egress (se_transport_mode s) (se_state s) (se_state s = StTalk) of
        None \<Rightarrow> (s, [])
      | Some new_state \<Rightarrow> announce_transition key s new_state)"

definition send_frame :: "('t, 'p) rtp_core \<Rightarrow> session_key \<Rightarrow> av_frame \<Rightarrow> ('t, 'p) rtp_result" where
  "send_frame c key f =
     (case get_session c key of
        None \<Rightarrow> (c, [])
      | Some s \<Rightarrow>
          if se_transport_mode s = RecvOnly then (c, [])
          else if \<not> track_filter_allows_track (se_egress_track_filter s) (av_media_kind f) then (c, [])
          else if av_payload f = [] then (c, [])
          else
            let packets = packetize_frame s f;
                sent = concat (map (send_packet_output s) packets);
                (s, changed) = egress_state key (record_sent s f packets)
            in (put_session c key s, sent @ changed))"

text \<open>Updates.\<close>

definition update_ssrc ::
  "('t, 'p) rtp_core \<Rightarrow> session_key \<Rightarrow> ('t, 'p) rtp_session \<Rightarrow> u32 option
    \<Rightarrow> (u32 + ('t, 'p) rtp_core \<times> ('t, 'p) rtp_session \<times> u32 option)" where
  "update_ssrc c key s ssrc =
     (case ssrc of
        None \<Rightarrow> Inr (c, s, None)
      | Some new_ssrc \<Rightarrow>
          if new_ssrc = se_ssrc s then Inr (c, s, None)
          else if (case rc_ssrc_to_session c new_ssrc of None \<Rightarrow> False | Some existing \<Rightarrow> existing \<noteq> key) then Inl new_ssrc
          else Inr (c\<lparr>rc_ssrc_to_session := (rc_ssrc_to_session c)(se_ssrc s := None, new_ssrc \<mapsto> key)\<rparr>,
                    s\<lparr>se_ssrc := new_ssrc, se_peer_ssrc := new_ssrc\<rparr>, Some new_ssrc))"

definition update_payload_type :: "('t, 'p) rtp_session \<Rightarrow> u8 option \<Rightarrow> ('t, 'p) rtp_session \<times> bool" where
  "update_payload_type s payload_type =
     (case payload_type of
        None \<Rightarrow> (s, False)
      | Some pt \<Rightarrow>
          let (s, changed) = (if se_payload_type s \<noteq> Some pt then (s\<lparr>se_payload_type := Some pt\<rparr>, True) else (s, False));
              mode = payload_mode_from_payload_type pt
          in if se_payload_mode s \<noteq> mode
             then (s\<lparr>se_payload_mode := mode, se_egress_payload_mode := mode, se_demuxer := DemuxPending\<rparr>, True)
             else (s, changed))"

definition update_pause :: "('t, 'p) rtp_core \<Rightarrow> ('t, 'p) rtp_session \<Rightarrow> bool option \<Rightarrow> ('t, 'p) rtp_session \<times> bool option" where
  "update_pause c s pause_check =
     (case pause_check of
        None \<Rightarrow> (s, None)
      | Some paused \<Rightarrow>
          if se_check_paused s \<noteq> paused then
            let s = s\<lparr>se_check_paused := paused\<rparr>
            in (if paused then s else s\<lparr>se_last_activity_ms := rc_now_ms c, se_last_rr_received_ms := rc_now_ms c\<rparr>,
                Some paused)
          else (s, None))"

definition update_policy ::
  "('t, 'p) rtp_session \<Rightarrow> rtp_source_policy option \<Rightarrow> ('t, 'p) rtp_session \<times> rtp_source_policy option" where
  "update_policy s source_policy =
     (case source_policy of
        None \<Rightarrow> (s, None)
      | Some policy \<Rightarrow>
          if se_source_policy s \<noteq> policy then (s\<lparr>se_source_policy := policy\<rparr>, Some policy) else (s, None))"

definition handle_update_session ::
  "('t, 'p) rtp_core \<Rightarrow> session_key \<Rightarrow> u64 \<Rightarrow> u32 option \<Rightarrow> u8 option \<Rightarrow> bool option \<Rightarrow> rtp_source_policy option
    \<Rightarrow> ('t, 'p) rtp_result" where
  "handle_update_session c key expected_generation ssrc payload_type pause_check source_policy =
     (let failed = (\<lambda>reason. (c, [OutEvent (SessionUpdateFailed key reason)])) in
      case get_session c key of
        None \<Rightarrow> failed ''session not found''
      | Some s \<Rightarrow>
          if ssrc = None \<and> payload_type = None \<and> pause_check = None \<and> source_policy = None then failed ''empty patch''
          else if se_generation s \<noteq> expected_generation then failed ''generation mismatch''
          else
            (case update_ssrc c key s ssrc of
               Inl new_ssrc \<Rightarrow> failed (''ssrc '' @ decimal (unat new_ssrc) @ '' already in use'')
             | Inr (c, s, result_ssrc) \<Rightarrow>
                 let (s, pt_changed) = update_payload_type s payload_type;
                     (s, result_pause) = update_pause c s pause_check;
                     (s, result_policy) = update_policy s source_policy;
                     changed = (result_ssrc \<noteq> None \<or> pt_changed \<or> result_pause \<noteq> None \<or> result_policy \<noteq> None);
                     s = (if changed then s\<lparr>se_generation := se_generation s + 1, se_updated_at_ms := rc_now_ms c\<rparr> else s);
                     s = s\<lparr>se_last_error := None\<rparr>
                 in (put_session c key s,
                     [OutEvent (SessionUpdated key (se_generation s) result_ssrc payload_type result_pause result_policy)])))"

definition pause_check_session :: "('t, 'p) rtp_core \<Rightarrow> session_key \<Rightarrow> bool \<Rightarrow> ('t, 'p) rtp_core" where
  "pause_check_session c key paused =
     (case get_session c key of
        None \<Rightarrow> c
      | Some s \<Rightarrow>
          let s = s\<lparr>se_check_paused := paused\<rparr>
          in put_session c key
               (if paused then s else s\<lparr>se_last_activity_ms := rc_now_ms c, se_last_rr_received_ms := rc_now_ms c\<rparr>))"

definition process_command :: "('t, 'p) core_env \<Rightarrow> ('t, 'p) rtp_core \<Rightarrow> rtp_core_command \<Rightarrow> ('t, 'p) rtp_result" where
  "process_command env c cmd =
     (case cmd of
        CreateServer spec \<Rightarrow> create_server c (env_random env) spec
      | CreateClient spec \<Rightarrow> create_client c spec
      | SendFrame key f \<Rightarrow> send_frame c key f
      | UpdateSession key g ssrc pt pause policy \<Rightarrow> handle_update_session c key g ssrc pt pause policy
      | StopSession key \<Rightarrow> close_session c key CloseStopped
      | ReportSendFailure key reason \<Rightarrow>
          (case close_session c key CloseConnectionClosed of
             (c, outs) \<Rightarrow> (c, OutDiagnostic (DiagSendFailed key reason) # outs))
      | PauseCheck key paused \<Rightarrow> (pause_check_session c key paused, []))"

end
