(* ===== verification/Rtp_Session_Input.thy ===== *)
theory Rtp_Session_Input
  imports Rtp_Session_Core
begin

text \<open>
  TCP bytes (\<^verbatim>\<open>session/tcp.rs\<close>), RTCP packets (\<^verbatim>\<open>session/ingress.rs\<close>), ticks (\<^verbatim>\<open>session/tick.rs\<close>) and the entry
  point \<^verbatim>\<open>handle_input\<close> of the RTP core. A panic, which only the Ehome decoder can raise, is \<open>None\<close>.
\<close>

section \<open>Ehome\<close>

text \<open>The string of the handshake has one character per byte; in UTF-8 those from 128 on take two bytes.\<close>

definition latin1_utf8 :: "bytes \<Rightarrow> bytes" where
  "latin1_utf8 bs = concat (map (\<lambda>b. if b < 128 then [b] else [0xC0 OR drop_bit 6 b, 0x80 OR (b AND 0x3F)]) bs)"

definition ehome_ssrc :: "bytes \<Rightarrow> u32" where
  "ehome_ssrc ssrc =
     (let utf8 = latin1_utf8 ssrc in
      case parse_uint 32 (string_of_bytes utf8) of
        Some n \<Rightarrow> of_nat n
      | None \<Rightarrow> foldl (\<lambda>h b. h * 31 + ucast b) 0 utf8 AND 0x7FFFFFFF)"

definition ehome_key :: "bytes \<Rightarrow> session_key" where
  "ehome_key ssrc = ''live/'' @ string_of_bytes (latin1_utf8 ssrc)"

definition ehome_handshake_ssrc :: "('t, 'p) rtp_core \<Rightarrow> nat \<Rightarrow> bytes \<Rightarrow> ('t, 'p) rtp_result" where
  "ehome_handshake_ssrc c conn ssrc_str =
     (let ssrc = ehome_ssrc ssrc_str; key = ehome_key ssrc_str in
      if get_session c key \<noteq> None then (c, [])
      else
        let c = put_session c key (fresh_session key ssrc Ehome RecvOnly AllTracks AllowValidatedRebind None None (Some conn)
                  0 None (rc_wall_clock_offset_ms c))
        in (c\<lparr>rc_ssrc_to_session := (rc_ssrc_to_session c)(ssrc \<mapsto> key),
              rc_tcp_conn_to_session := (rc_tcp_conn_to_session c)(conn \<mapsto> key)\<rparr>,
            [OutEvent (SessionCreated key ssrc Ehome RecvOnly)]))"

definition ehome_tracks :: "ehome_codec_info \<Rightarrow> track_info list" where
  "ehome_tracks codec =
     (case ec_video_codec codec of
        None \<Rightarrow> []
      | Some video \<Rightarrow>
          [(track_info_new (TrackId 1) Video (if video = ''h265'' then H265 else H264) 90000)\<lparr>ti_readiness := Ready\<rparr>])
     @ (case ec_audio_codec codec of
          None \<Rightarrow> []
        | Some audio \<Rightarrow>
            [(track_info_new (TrackId 2) Audio
                (if audio = ''g711u'' then G711U else if audio = ''aac'' then AAC else G711A) (ec_sample_rate codec))
              \<lparr>ti_channels := Some (ec_channels codec), ti_sample_rate := Some (ec_sample_rate codec), ti_readiness := Ready\<rparr>])"

definition ehome_handshake_codec ::
  "('t, 'p) demux_ops \<Rightarrow> ('t, 'p) rtp_core \<Rightarrow> nat \<Rightarrow> ehome_codec_info \<Rightarrow> ('t, 'p) rtp_result" where
  "ehome_handshake_codec ops c conn codec =
     (case rc_tcp_conn_to_session c conn of
        None \<Rightarrow> (c, [])
      | Some key \<Rightarrow>
          (case get_session c key of
             None \<Rightarrow> (c, [])
           | Some s \<Rightarrow>
               (put_session c key (s\<lparr>se_demuxer :=
                  (if ec_payload_type codec = ''ps'' then DemuxPs (dx_ps_new ops) else DemuxBypass)\<rparr>),
                if ehome_tracks codec \<noteq> [] then [OutEvent (TrackFound key (ehome_tracks codec))] else [])))"

text \<open>The frame a media packet becomes without a demuxer: a key byte tells video.\<close>

definition ehome_frame :: "ehome_codec_info \<Rightarrow> u32 \<Rightarrow> bytes \<Rightarrow> av_frame" where
  "ehome_frame codec packets_received payload =
     (let first = payload ! 0;
          is_video = (ec_video_codec codec \<noteq> None \<and> payload \<noteq> []
            \<and> (first AND 0x1F = 5 \<or> first AND 0x1F = 1 \<or> drop_bit 1 first AND 0x3F = 19 \<or> drop_bit 1 first AND 0x3F = 1));
          pts = int (unat packets_received) * 40000;
          codec_id = (if is_video then (if ec_video_codec codec = Some ''h265'' then H265 else H264)
                      else if ec_audio_codec codec = Some ''g711u'' then G711U
                      else if ec_audio_codec codec = Some ''aac'' then AAC else G711A);
          frame = av_frame_new (TrackId (if is_video then 1 else 2)) (if is_video then Video else Audio) codec_id
                    (if is_video then CanonicalH26x else G711Packet) pts pts \<lparr>tb_num = 1, tb_den = 1000000\<rparr> payload
      in if is_video \<and> payload \<noteq> [] \<and> (first AND 0x1F = 5 \<or> drop_bit 1 first AND 0x3F = 19)
         then frame\<lparr>av_flags := av_flags frame OR flag_key\<rparr> else frame)"

definition ehome_media ::
  "('t, 'p) demux_ops \<Rightarrow> ('t, 'p) rtp_core \<Rightarrow> nat \<Rightarrow> bytes \<Rightarrow> ('t, 'p) rtp_result" where
  "ehome_media ops c conn payload =
     (case rc_tcp_conn_to_session c conn of
        None \<Rightarrow> (c, [])
      | Some key \<Rightarrow>
          (case get_session c key of
             None \<Rightarrow> (c, [])
           | Some s \<Rightarrow>
               let s = s\<lparr>se_packets_received := se_packets_received s + 1,
                         se_bytes_received := se_bytes_received s + of_nat (length payload)\<rparr>
               in case se_demuxer s of
                    DemuxPs d \<Rightarrow>
                      (case dx_ps_push ops d payload of
                         (d, evs) \<Rightarrow> (put_session c key (s\<lparr>se_demuxer := DemuxPs d\<rparr>),
                                      ps_events key (se_track_filter s) (se_source_addr s) evs))
                  | _ \<Rightarrow>
                      (put_session c key s,
                       case (case rc_ehome_decoders c conn of None \<Rightarrow> None | Some d \<Rightarrow> ed_codec_info d) of
                         None \<Rightarrow> []
                       | Some codec \<Rightarrow>
                           [OutEvent (FrameEvent key (ehome_frame codec (se_packets_received s) payload) (se_source_addr s))])))"

definition ehome_apply ::
  "('t, 'p) demux_ops \<Rightarrow> nat \<Rightarrow> ('t, 'p) rtp_core \<Rightarrow> ehome_output \<Rightarrow> ('t, 'p) rtp_result" where
  "ehome_apply ops conn c out =
     (case out of
        HandshakeSsrc ssrc \<Rightarrow> ehome_handshake_ssrc c conn ssrc
      | HandshakeCodec codec \<Rightarrow> ehome_handshake_codec ops c conn codec
      | MediaPayload payload \<Rightarrow> ehome_media ops c conn payload)"

text \<open>Steps in a row, their outputs appended.\<close>

fun each :: "('t, 'p) rtp_core \<Rightarrow> (('t, 'p) rtp_core \<Rightarrow> 'x \<Rightarrow> ('t, 'p) rtp_result) \<Rightarrow> 'x list \<Rightarrow> ('t, 'p) rtp_result" where
  "each c f [] = (c, [])"
| "each c f (x # xs) = (case f c x of (c, outs) \<Rightarrow> (case each c f xs of (c, outs') \<Rightarrow> (c, outs @ outs')))"

section \<open>TCP bytes\<close>

definition ehome_marker :: "bytes \<Rightarrow> bool" where
  "ehome_marker data \<longleftrightarrow> length data \<ge> 3 \<and> data ! 0 = 1 \<and> data ! 1 = 0 \<and> (data ! 2 = 1 \<or> data ! 2 = 2)"

definition process_ehome_bytes ::
  "('t, 'p) demux_ops \<Rightarrow> ('t, 'p) rtp_core \<Rightarrow> rtp_tcp_chunk \<Rightarrow> ('t, 'p) rtp_result option" where
  "process_ehome_bytes ops c chunk =
     (let conn = tc_conn_id chunk;
          d = (case rc_ehome_decoders c conn of Some d \<Rightarrow> d | None \<Rightarrow> ehome_new)
      in case ehome_decode d (tc_data chunk) of
           None \<Rightarrow> None
         | Some (d, rest, outs) \<Rightarrow>
             Some (each (c\<lparr>rc_ehome_decoders := (rc_ehome_decoders c)(conn \<mapsto> d)\<rparr>) (ehome_apply ops conn) outs))"

text \<open>
  The scan of \<^verbatim>\<open>offset\<close> in \<^verbatim>\<open>1..scan_window\<close> for the next frame of a known source, or for a pack header: what
  is found first, or nothing within the window.
\<close>

datatype tcp_recovery = RecoveredFrame nat parsed_tcp_rtp_frame | RecoveredPack nat | NotRecovered

definition recover_at :: "('t, 'p) rtp_core \<Rightarrow> bytes \<Rightarrow> nat \<Rightarrow> tcp_recovery option" where
  "recover_at c remaining offset =
     (case parse_tcp_rtp_frame_with (drop offset remaining) (rc_tcp_framing c) of
        Some parsed \<Rightarrow>
          if rc_ssrc_to_session c (rh_ssrc (rp_header (pf_packet parsed))) \<noteq> None
          then Some (RecoveredFrame offset parsed)
          else if starts_with [0, 0, 1, 0xBA] (drop offset remaining) then Some (RecoveredPack offset) else None
      | None \<Rightarrow> if starts_with [0, 0, 1, 0xBA] (drop offset remaining) then Some (RecoveredPack offset) else None)"

fun scan_offsets :: "('t, 'p) rtp_core \<Rightarrow> bytes \<Rightarrow> nat list \<Rightarrow> tcp_recovery" where
  "scan_offsets c remaining [] = NotRecovered"
| "scan_offsets c remaining (offset # rest) =
     (case recover_at c remaining offset of
        Some found \<Rightarrow> found
      | None \<Rightarrow> scan_offsets c remaining rest)"

definition scan_tcp :: "('t, 'p) rtp_core \<Rightarrow> bytes \<Rightarrow> tcp_recovery" where
  "scan_tcp c remaining = scan_offsets c remaining [1..<min (length remaining) 4096 - 2]"

lemma parsed_consumes: "parse_tcp_rtp_frame_with raw mode = Some f \<Longrightarrow> 0 < pf_consumed f"
  by (auto simp: parse_tcp_rtp_frame_with_def two_byte_frame_def interleaved_frame_def parse_tcp_rtp_frame_def
      parse_interleaved_rtp_frame_def Let_def split: rtp_tcp_framing.splits option.splits if_splits)

lemma parsed_in_input: "parse_tcp_rtp_frame_with raw mode = Some f \<Longrightarrow> raw \<noteq> []"
  by (auto simp: parse_tcp_rtp_frame_with_def two_byte_frame_def interleaved_frame_def parse_tcp_rtp_frame_def
      parse_interleaved_rtp_frame_def Let_def split: rtp_tcp_framing.splits option.splits if_splits)

lemma scan_offsets_found:
  "scan_offsets c remaining os = RecoveredFrame offset f \<Longrightarrow> offset \<in> set os"
  "scan_offsets c remaining os = RecoveredPack offset \<Longrightarrow> offset \<in> set os"
  by (induction os) (auto simp: recover_at_def split: option.splits if_splits)

function process_rtp_bytes ::
  "('t, 'p) demux_ops \<Rightarrow> ('t, 'p) rtp_core \<Rightarrow> nat \<Rightarrow> nat \<Rightarrow> bytes \<Rightarrow> ('t, 'p) rtp_result" where
  "process_rtp_bytes ops c conn at remaining =
     (if remaining = [] then (c, [])
      else
        case parse_tcp_rtp_frame_with remaining (rc_tcp_framing c) of
          Some parsed \<Rightarrow>
            (case feed_rtp_packet ops c (pf_packet parsed) None (Some conn) at of
               (c, outs) \<Rightarrow>
                 (case process_rtp_bytes ops c conn at (drop (pf_consumed parsed) remaining) of
                    (c, outs') \<Rightarrow> (c, outs @ outs')))
        | None \<Rightarrow>
            if length remaining < 2 then (c, [])
            else
              (case scan_tcp c remaining of
                 NotRecovered \<Rightarrow> (c, [])
               | RecoveredPack offset \<Rightarrow> process_rtp_bytes ops c conn at (drop offset remaining)
               | RecoveredFrame offset parsed \<Rightarrow>
                   let h = rp_header (pf_packet parsed) in
                   (case feed_rtp_packet ops c (pf_packet parsed) None (Some conn) at of
                      (c, outs) \<Rightarrow>
                        (case process_rtp_bytes ops c conn at (drop (offset + pf_consumed parsed) remaining) of
                           (c, outs') \<Rightarrow>
                             (c, OutDiagnostic (DiagSequenceGap (rh_ssrc h) 0 (rh_sequence_number h)) # outs @ outs')))))"
  by pat_completeness auto
termination
  by (relation "measure (\<lambda>(ops, c, conn, at, remaining). length remaining)")
    (auto simp: scan_tcp_def dest: parsed_consumes dest!: scan_offsets_found)

declare process_rtp_bytes.simps [simp del]

definition process_tcp_bytes ::
  "('t, 'p) demux_ops \<Rightarrow> ('t, 'p) rtp_core \<Rightarrow> rtp_tcp_chunk \<Rightarrow> ('t, 'p) rtp_result option" where
  "process_tcp_bytes ops c chunk =
     (if rc_ehome_decoders c (tc_conn_id chunk) \<noteq> None \<or> ehome_marker (tc_data chunk)
      then process_ehome_bytes ops c chunk
      else Some (process_rtp_bytes ops c (tc_conn_id chunk) (tc_received_at_ms chunk) (tc_data chunk)))"

definition process_tcp_connection_closed ::
  "('t, 'p) core_env \<Rightarrow> ('t, 'p) rtp_core \<Rightarrow> nat \<Rightarrow> ('t, 'p) rtp_result" where
  "process_tcp_connection_closed env c conn =
     (let on_conn = (\<lambda>modes key. case get_session c key of
              None \<Rightarrow> False
            | Some s \<Rightarrow> se_tcp_conn_id s = Some conn \<and> se_transport_mode s \<in> modes);
          keys = List.filter (on_conn {RecvOnly}) (env_order env);
          any_send_capable_remaining = list_ex (on_conn {SendOnly, SendRecv}) (env_order env)
      in case each c (\<lambda>c key. close_session c key CloseConnectionClosed) keys of
           (c, outs) \<Rightarrow>
             if any_send_capable_remaining then (c, outs)
             else (c\<lparr>rc_ehome_decoders := (rc_ehome_decoders c)(conn := None),
                     rc_tcp_conn_to_session := (rc_tcp_conn_to_session c)(conn := None)\<rparr>,
                   outs @ [CloseTcpConnection conn]))"

section \<open>RTCP packets\<close>

definition rtcp_sender_report_session ::
  "socket_addr \<Rightarrow> nat \<Rightarrow> rtcp_sender_report \<Rightarrow> ('t, 'p) rtp_session \<Rightarrow> ('t, 'p) rtp_session" where
  "rtcp_sender_report_session source now_ms sr s =
     (if se_peer_ssrc s = sr_ssrc sr
      then s\<lparr>se_rtcp_source_addr := Some source,
             se_rtcp := report_on_sender_report (se_rtcp s) (unat (sr_ntp_timestamp sr)) (sr_rtp_timestamp sr) now_ms,
             se_last_rr_received_ms := max now_ms 1\<rparr>
      else s)"

definition rtcp_report_block_core :: "socket_addr \<Rightarrow> ('t, 'p) rtp_core \<Rightarrow> rtcp_report_block \<Rightarrow> ('t, 'p) rtp_core" where
  "rtcp_report_block_core source c block =
     (case rc_ssrc_to_session c (rb_ssrc block) of
        None \<Rightarrow> c
      | Some key \<Rightarrow>
          (case get_session c key of
             None \<Rightarrow> c
           | Some s \<Rightarrow> put_session c key (s\<lparr>se_rtcp_source_addr := Some source, se_last_rr_received_ms := max (rc_now_ms c) 1\<rparr>)))"

definition bye_keys_of :: "('t, 'p) rtp_core \<Rightarrow> session_key list \<Rightarrow> u32 list \<Rightarrow> session_key list" where
  "bye_keys_of c order ssrcs = concat (map (\<lambda>ssrc. List.filter (\<lambda>key.
       case get_session c key of None \<Rightarrow> False | Some s \<Rightarrow> se_peer_ssrc s = ssrc \<or> se_ssrc s = ssrc) order) ssrcs)"

fun rtcp_packets_core ::
  "session_key list \<Rightarrow> socket_addr \<Rightarrow> ('t, 'p) rtp_core \<Rightarrow> rtcp_packet list \<Rightarrow> ('t, 'p) rtp_core \<times> session_key list" where
  "rtcp_packets_core order source c [] = (c, [])"
| "rtcp_packets_core order source c (p # ps) =
     (let (c, keys) =
        (case p of
           RtcpSenderReport sr \<Rightarrow>
             (c\<lparr>rc_sessions := map (\<lambda>(k, s). (k, rtcp_sender_report_session source (rc_now_ms c) sr s)) (rc_sessions c)\<rparr>, [])
         | RtcpReceiverReport rr \<Rightarrow> (foldl (rtcp_report_block_core source) c (rr_report_blocks rr), [])
         | RtcpBye bye \<Rightarrow> (c, bye_keys_of c order (bye_ssrcs bye))
         | _ \<Rightarrow> (c, []));
        (c, keys') = rtcp_packets_core order source c ps
      in (c, keys @ keys'))"

definition bye_session :: "socket_addr \<Rightarrow> ('t, 'p) rtp_core \<Rightarrow> session_key \<Rightarrow> ('t, 'p) rtp_result" where
  "bye_session source c key =
     (case get_session c key of
        None \<Rightarrow> close_session c key CloseBye
      | Some s \<Rightarrow> close_session (put_session c key (s\<lparr>se_rtcp_source_addr := Some source\<rparr>)) key CloseBye)"

definition process_rtcp_packet :: "('t, 'p) core_env \<Rightarrow> ('t, 'p) rtp_core \<Rightarrow> rtp_datagram \<Rightarrow> ('t, 'p) rtp_result" where
  "process_rtcp_packet env c d =
     (case rtcp_compound_parse (dgm_data d) of
        Inl _ \<Rightarrow> (c, [])
      | Inr packets \<Rightarrow>
          (case rtcp_packets_core (env_order env) (dgm_source d) c packets of
             (c, keys) \<Rightarrow> each c (bye_session (dgm_source d)) keys))"

section \<open>Ticks\<close>

definition idle_expired :: "('t, 'p) rtp_core \<Rightarrow> nat \<Rightarrow> ('t, 'p) rtp_session \<Rightarrow> bool" where
  "idle_expired c now_ms s \<longleftrightarrow>
     se_transport_mode s \<in> {RecvOnly, SendRecv} \<and> se_last_activity_ms s \<noteq> 0
     \<and> now_ms - se_last_activity_ms s > rc_session_idle_timeout_ms c"

text \<open>The timeouts: the session with its baselines set, and the reason to close it.\<close>

definition tick_timeouts ::
  "('t, 'p) rtp_core \<Rightarrow> nat \<Rightarrow> ('t, 'p) rtp_session \<Rightarrow> ('t, 'p) rtp_session \<times> close_reason option" where
  "tick_timeouts c now_ms s =
     (if se_check_paused s then (s, None)
      else if idle_expired c now_ms s then (s, Some CloseIdleTimeout)
      else
        let s = (if se_last_activity_ms s = 0 then s\<lparr>se_last_activity_ms := now_ms\<rparr> else s)
        in if se_transport_mode s \<in> {SendOnly, SendRecv} then
             (if se_last_rr_received_ms s = 0 then (s\<lparr>se_last_rr_received_ms := now_ms\<rparr>, None)
              else if now_ms - se_last_rr_received_ms s > rc_session_idle_timeout_ms c then (s, Some CloseRrTimeout)
              else (s, None))
           else (s, None))"

definition build_report ::
  "('t, 'p) rtp_session \<Rightarrow> nat \<Rightarrow> ('t, 'p) rtp_session \<times> rtcp_packet option" where
  "build_report s now_ms =
     (let has_received = (rs_packets_received (se_rtcp s) > 0) in
      if se_packets_sent s > 0 then
        (let (r, block) = (if has_received then report_block (se_rtcp s) (se_peer_ssrc s) now_ms else (se_rtcp s, None))
         in (s\<lparr>se_rtcp := r\<rparr>,
             Some (RtcpSenderReport (sender_report r (se_ssrc s) (se_packets_sent s) (se_bytes_sent s) now_ms block))))
      else if has_received then
        (let (r, block) = report_block (se_rtcp s) (se_peer_ssrc s) now_ms
         in (s\<lparr>se_rtcp := r\<rparr>, map_option (\<lambda>b. RtcpReceiverReport (receiver_report (se_ssrc s) b)) block))
      else (s, None))"

definition tick_report ::
  "('t, 'p) rtp_core \<Rightarrow> nat \<Rightarrow> ('t, 'p) rtp_session \<Rightarrow> ('t, 'p) rtp_session \<times> rtp_core_output list" where
  "tick_report c now_ms s =
     (let s = (if se_last_rtcp_report_ms s = 0 then s\<lparr>se_last_rtcp_report_ms := now_ms\<rparr> else s) in
      if now_ms - se_last_rtcp_report_ms s \<ge> rc_rtcp_report_interval_ms c then
        let s = s\<lparr>se_last_rtcp_report_ms := now_ms\<rparr>
        in case (case se_rtcp_source_addr s of
                   Some a \<Rightarrow> Some a
                 | None \<Rightarrow> (case se_destination s of Some a \<Rightarrow> Some a | None \<Rightarrow> se_source_addr s)) of
             None \<Rightarrow> (s, [])
           | Some dest \<Rightarrow>
               (case build_report s now_ms of
                  (s, None) \<Rightarrow> (s, [])
                | (s, Some packet) \<Rightarrow>
                    (case rtcp_compound_encode [packet] of
                       Inl _ \<Rightarrow> (s, [])
                     | Inr data \<Rightarrow>
                         (s, [SendRtcp (se_session_key s) (se_rtcp_source_addr s) dest (se_tcp_conn_id s) data])))
      else (s, []))"

fun tick_sessions ::
  "('t, 'p) rtp_core \<Rightarrow> nat \<Rightarrow> session_key list
    \<Rightarrow> ('t, 'p) rtp_core \<times> rtp_core_output list \<times> (session_key \<times> close_reason) list" where
  "tick_sessions c now_ms [] = (c, [], [])"
| "tick_sessions c now_ms (key # keys) =
     (case get_session c key of
        None \<Rightarrow> tick_sessions c now_ms keys
      | Some s \<Rightarrow>
          (case tick_timeouts c now_ms s of
             (s, Some reason) \<Rightarrow>
               (case tick_sessions (put_session c key s) now_ms keys of
                  (c, outs, gone) \<Rightarrow> (c, outs, (key, reason) # gone))
           | (s, None) \<Rightarrow>
               (case tick_report c now_ms s of
                  (s, sent) \<Rightarrow>
                    (case tick_sessions (put_session c key s) now_ms keys of
                       (c, outs, gone) \<Rightarrow> (c, sent @ outs, gone)))))"

definition process_tick :: "('t, 'p) core_env \<Rightarrow> ('t, 'p) rtp_core \<Rightarrow> nat \<Rightarrow> ('t, 'p) rtp_result" where
  "process_tick env c now_ms =
     (case tick_sessions (c\<lparr>rc_now_ms := now_ms\<rparr>) now_ms (env_order env) of
        (c, outs, gone) \<Rightarrow>
          (case each c (\<lambda>c (key, reason). close_session c key reason) gone of (c, outs') \<Rightarrow> (c, outs @ outs')))"

section \<open>The entry point\<close>

definition rtp_handle_input ::
  "('t, 'p) core_env \<Rightarrow> ('t, 'p) rtp_core \<Rightarrow> rtp_core_input \<Rightarrow> ('t, 'p) rtp_result option" where
  "rtp_handle_input env c input =
     (case input of
        UdpPacket d \<Rightarrow> Some (process_udp_packet (env_demux env) c d)
      | TcpBytes chunk \<Rightarrow> process_tcp_bytes (env_demux env) c chunk
      | TcpConnectionClosed conn _ \<Rightarrow> Some (process_tcp_connection_closed env c conn)
      | RtcpInput d \<Rightarrow> Some (process_rtcp_packet env c d)
      | Tick now_ms \<Rightarrow> Some (process_tick env c now_ms)
      | Command cmd \<Rightarrow> Some (process_command env c cmd))"

end
