(* ===== verification/Rtp_Session_Invariant.thy ===== *)
theory Rtp_Session_Invariant
  imports Rtp_Session_Input
begin

text \<open>
  The routing tables of the RTP core and the life of its sessions: the invariant that ties the tables to the
  sessions, and the protocol its outputs follow, shown together for every input that does not claim a
  source or a key another session has.
\<close>

section \<open>The invariant\<close>

definition session_keys :: "('t, 'p) rtp_core \<Rightarrow> session_key set" where
  "session_keys c = dom (get_session c)"

definition routes_exact :: "('t, 'p) rtp_core \<Rightarrow> bool" where
  "routes_exact c \<longleftrightarrow> (\<forall>ssrc key. rc_ssrc_to_session c ssrc = Some key
     \<longleftrightarrow> (\<exists>s. get_session c key = Some s \<and> se_ssrc s = ssrc))"

definition conns_exact :: "('t, 'p) rtp_core \<Rightarrow> bool" where
  "conns_exact c \<longleftrightarrow> (\<forall>conn key. rc_tcp_conn_to_session c conn = Some key
     \<longrightarrow> (\<exists>s. get_session c key = Some s \<and> se_tcp_conn_id s = Some conn))"

definition keys_exact :: "('t, 'p) rtp_core \<Rightarrow> bool" where
  "keys_exact c \<longleftrightarrow> distinct (map fst (rc_sessions c))
     \<and> (\<forall>key s. get_session c key = Some s \<longrightarrow> se_session_key s = key)
     \<and> (\<forall>ssrc s. get_session c (live_key ssrc) = Some s \<longrightarrow> se_ssrc s = ssrc)"

definition core_inv :: "('t, 'p) rtp_core \<Rightarrow> bool" where
  "core_inv c \<longleftrightarrow> routes_exact c \<and> conns_exact c \<and> keys_exact c"

lemma core_inv_cong:
  "rc_sessions c' = rc_sessions c \<Longrightarrow> rc_ssrc_to_session c' = rc_ssrc_to_session c
    \<Longrightarrow> rc_tcp_conn_to_session c' = rc_tcp_conn_to_session c \<Longrightarrow> core_inv c' = core_inv c"
  by (simp add: core_inv_def routes_exact_def conns_exact_def keys_exact_def)

lemma live_key_inject [simp]: "live_key a = live_key b \<longleftrightarrow> a = b"
  by (simp add: live_key_def word_unat_eq_iff)

text \<open>What a session is known by: a step on it leaves these alone.\<close>

definition same_id :: "('t, 'p) rtp_session \<Rightarrow> ('t, 'p) rtp_session \<Rightarrow> bool" where
  "same_id s s' \<longleftrightarrow> se_ssrc s' = se_ssrc s \<and> se_session_key s' = se_session_key s \<and> se_tcp_conn_id s' = se_tcp_conn_id s"

lemma same_id_refl [simp]: "same_id s s"
  by (simp add: same_id_def)

lemma same_id_trans: "same_id s s' \<Longrightarrow> same_id s' s'' \<Longrightarrow> same_id s s''"
  by (simp add: same_id_def)

lemma put_session_simps [simp]:
  "get_session (put_session c key s) = (get_session c)(key \<mapsto> s)"
  "rc_ssrc_to_session (put_session c key s) = rc_ssrc_to_session c"
  "rc_tcp_conn_to_session (put_session c key s) = rc_tcp_conn_to_session c"
  "rc_ehome_decoders (put_session c key s) = rc_ehome_decoders c"
  "rc_now_ms (put_session c key s) = rc_now_ms c"
  "rc_max_sessions (put_session c key s) = rc_max_sessions c"
  by (simp_all add: put_session_def update_conv')

lemma routes_exact_iff:
  "routes_exact c \<longleftrightarrow> (\<forall>n k. rc_ssrc_to_session c n = Some k \<longleftrightarrow> map_option se_ssrc (get_session c k) = Some n)"
  by (simp add: routes_exact_def)

lemma routes_exact_cong:
  assumes "rc_ssrc_to_session c' = rc_ssrc_to_session c"
    and "\<And>k. map_option se_ssrc (get_session c' k) = map_option se_ssrc (get_session c k)"
  shows "routes_exact c' = routes_exact c"
  by (simp only: routes_exact_iff assms)

lemma put_session_distinct:
  "distinct (map fst (rc_sessions c)) \<Longrightarrow> distinct (map fst (rc_sessions (put_session c key s)))"
  by (simp add: put_session_def distinct_update)

lemma put_session_inv:
  assumes "core_inv c" and "get_session c key = Some s" and "same_id s s'"
  shows "core_inv (put_session c key s')" "session_keys (put_session c key s') = session_keys c"
proof -
  define M where "M = get_session c"
  note inv = assms(1)[unfolded core_inv_def routes_exact_def conns_exact_def keys_exact_def, folded M_def]
  have M: "M key = Some s" using assms(2) by (simp add: M_def)
  have "routes_exact (put_session c key s')"
    unfolding routes_exact_def put_session_simps M_def [symmetric]
    using inv M assms(3) by (auto simp: same_id_def)
  moreover have "\<exists>t. (M(key \<mapsto> s')) k = Some t \<and> se_tcp_conn_id t = Some conn"
    if "rc_tcp_conn_to_session c conn = Some k" for conn k
  proof -
    from inv that obtain t where "M k = Some t" "se_tcp_conn_id t = Some conn" by blast
    with M assms(3) show ?thesis by (cases "k = key") (auto simp: same_id_def)
  qed
  then have "conns_exact (put_session c key s')"
    unfolding conns_exact_def put_session_simps M_def [symmetric] by blast
  moreover have "keys_exact (put_session c key s')"
    using put_session_distinct [of c key s'] inv M assms(3)
    unfolding keys_exact_def put_session_simps M_def [symmetric] by (simp add: same_id_def)
  ultimately show "core_inv (put_session c key s')" by (simp add: core_inv_def)
  show "session_keys (put_session c key s') = session_keys c"
    using assms(2) by (auto simp: session_keys_def)
qed

section \<open>The life of a session\<close>

fun output_key :: "rtp_core_output \<Rightarrow> session_key option" where
  "output_key (SendUdp key _ _) = Some key"
| "output_key (SendTcp _ key _) = Some key"
| "output_key (SendRtcp key _ _ _ _) = Some key"
| "output_key (CloseSession key) = Some key"
| "output_key (OutEvent ev) =
     (case ev of
        SessionUpdated key _ _ _ _ _ \<Rightarrow> Some key
      | FormatChanged key _ _ _ \<Rightarrow> Some key
      | SourceChanged key _ _ \<Rightarrow> Some key
      | SessionStateChanged key _ _ \<Rightarrow> Some key
      | TrackFound key _ \<Rightarrow> Some key
      | FrameEvent key _ _ \<Rightarrow> Some key
      | _ \<Rightarrow> None)"
| "output_key _ = None"

text \<open>
  The protocol: a session is created when it is not open and closed when it is; everything else that names a
  session (a failed update apart) comes while it is open. The result is the set of open sessions.
\<close>

fun lifecycle :: "session_key set \<Rightarrow> rtp_core_output list \<Rightarrow> session_key set option" where
  "lifecycle opened [] = Some opened"
| "lifecycle opened (o1 # os) =
     (case o1 of
        OutEvent (SessionCreated key _ _ _) \<Rightarrow> if key \<in> opened then None else lifecycle (insert key opened) os
      | OutEvent (SessionClosed key _) \<Rightarrow> if key \<in> opened then lifecycle (opened - {key}) os else None
      | _ \<Rightarrow> (case output_key o1 of
                 None \<Rightarrow> lifecycle opened os
               | Some key \<Rightarrow> if key \<in> opened then lifecycle opened os else None))"

lemma lifecycle_append:
  "lifecycle opened (xs @ ys) = (case lifecycle opened xs of None \<Rightarrow> None | Some opened' \<Rightarrow> lifecycle opened' ys)"
  by (induction xs arbitrary: opened) (auto split: rtp_core_output.splits rtp_core_event.splits option.splits)

text \<open>Outputs that only need their session to be open.\<close>

definition neutral :: "session_key \<Rightarrow> rtp_core_output \<Rightarrow> bool" where
  "neutral key o1 \<longleftrightarrow>
     (case o1 of
        OutEvent (SessionCreated _ _ _ _) \<Rightarrow> False
      | OutEvent (SessionClosed _ _) \<Rightarrow> False
      | _ \<Rightarrow> output_key o1 = None \<or> output_key o1 = Some key)"

lemma neutral_simps [simp]:
  "neutral key (OutDiagnostic d)"
  "neutral key (OutEvent (SessionStateChanged key a b))"
  "neutral key (OutEvent (SourceChanged key x y))"
  "neutral key (OutEvent (FormatChanged key pt m n))"
  "neutral key (OutEvent (TrackFound key ts))"
  "neutral key (OutEvent (FrameEvent key f src))"
  "neutral key (OutEvent (SessionUpdated key g r pt' q pol))"
  "neutral key (OutEvent (SessionUpdateFailed k reason))"
  "neutral key (SendUdp key dest data)"
  "neutral key (SendTcp conn key data)"
  "neutral key (SendRtcp key rd dest cn data)"
  by (simp_all add: neutral_def)

lemma lifecycle_neutral:
  assumes "list_all (neutral key) os" and "key \<in> opened"
  shows "lifecycle opened os = Some opened"
  using assms
  by (induction os) (auto simp: neutral_def split: rtp_core_output.splits rtp_core_event.splits option.splits)

text \<open>What every step does: it keeps the invariant, and its outputs lead from the open sessions to the new ones.\<close>

definition lives :: "session_key set \<Rightarrow> rtp_core_output list \<Rightarrow> ('t, 'p) rtp_core \<Rightarrow> bool" where
  "lives opened os c' \<longleftrightarrow> core_inv c' \<and> lifecycle opened os = Some (session_keys c')"

lemma lives_nil [simp]: "lives opened [] c \<longleftrightarrow> core_inv c \<and> opened = session_keys c"
  by (auto simp: lives_def)

lemma lives_append:
  "lives opened xs c1 \<Longrightarrow> lives (session_keys c1) ys c2 \<Longrightarrow> lives opened (xs @ ys) c2"
  by (simp add: lives_def lifecycle_append)

lemma lives_put:
  assumes "core_inv c" and "get_session c key = Some s" and "same_id s s'" and "list_all (neutral key) os"
  shows "lives (session_keys c) os (put_session c key s')"
  using put_session_inv [OF assms(1-3)] lifecycle_neutral [OF assms(4), of "session_keys c"] assms(2)
  by (auto simp: lives_def session_keys_def)

lemma keys_exact_put:
  assumes "keys_exact c" and "get_session c' = (get_session c)(key \<mapsto> s)" and "distinct (map fst (rc_sessions c'))"
    and "se_session_key s = key" and "\<And>n. live_key n = key \<Longrightarrow> se_ssrc s = n"
  shows "keys_exact c'"
  unfolding keys_exact_def assms(2)
proof (intro conjI allI impI)
  show "distinct (map fst (rc_sessions c'))" by (fact assms(3))
  show "se_session_key u = k" if "((get_session c)(key \<mapsto> s)) k = Some u" for k u
    using that assms(1,4) by (cases "k = key") (auto simp: keys_exact_def)
  show "se_ssrc u = n" if "((get_session c)(key \<mapsto> s)) (live_key n) = Some u" for n u
    using that assms(1,5) by (cases "live_key n = key") (auto simp: keys_exact_def)
qed

text \<open>A new session, announced or not.\<close>

lemma add_session_inv:
  assumes "core_inv c" and "get_session c key = None" and "rc_ssrc_to_session c (se_ssrc s) = None"
    and "se_session_key s = key" and "\<And>n. key = live_key n \<Longrightarrow> se_ssrc s = n"
    and c': "rc_sessions c' = rc_sessions (put_session c key s)"
      "rc_ssrc_to_session c' = (rc_ssrc_to_session c)(se_ssrc s \<mapsto> key)"
      "rc_tcp_conn_to_session c' = (case se_tcp_conn_id s of None \<Rightarrow> rc_tcp_conn_to_session c
         | Some conn \<Rightarrow> (rc_tcp_conn_to_session c)(conn \<mapsto> key))"
  shows "core_inv c'" "session_keys c' = insert key (session_keys c)"
proof -
  have g: "get_session c' = (get_session c)(key \<mapsto> s)"
    using put_session_simps(1) [of c key s] by (simp add: c'(1))
  have d: "distinct (map fst (rc_sessions c'))"
    using assms(1) put_session_distinct [of c key s] by (simp add: c'(1) core_inv_def keys_exact_def)
  have r: "rc_ssrc_to_session c n = Some k \<longleftrightarrow> (\<exists>s. get_session c k = Some s \<and> se_ssrc s = n)" for n k
    using assms(1) by (simp add: core_inv_def routes_exact_def)
  have "routes_exact c'"
    unfolding routes_exact_def c'(2) g
  proof (intro allI)
    fix n k
    have "get_session c k' = Some s' \<Longrightarrow> se_ssrc s' \<noteq> se_ssrc s" for k' s'
      using r [of "se_ssrc s" k'] assms(3) by auto
    then show "((rc_ssrc_to_session c)(se_ssrc s \<mapsto> key)) n = Some k \<longleftrightarrow>
        (\<exists>s'. ((get_session c)(key \<mapsto> s)) k = Some s' \<and> se_ssrc s' = n)"
      using r [of n k] assms(2) by auto
  qed
  moreover have "\<exists>t. ((get_session c)(key \<mapsto> s)) k = Some t \<and> se_tcp_conn_id t = Some conn"
    if "rc_tcp_conn_to_session c' conn = Some k" for conn k
  proof (cases "se_tcp_conn_id s = Some conn \<and> k = key")
    case False
    with that have "rc_tcp_conn_to_session c conn = Some k"
      by (auto simp: c'(3) split: option.splits if_splits)
    with assms(1) obtain t where "get_session c k = Some t" "se_tcp_conn_id t = Some conn"
      by (auto simp: core_inv_def conns_exact_def)
    then show ?thesis using assms(2) by auto
  qed simp
  then have "conns_exact c'" unfolding conns_exact_def g by blast
  moreover have "keys_exact c'"
    by (rule keys_exact_put [OF _ g d assms(4)]) (use assms(1,5) in \<open>auto simp: core_inv_def\<close>)
  ultimately show "core_inv c'" by (simp add: core_inv_def)
  show "session_keys c' = insert key (session_keys c)" by (simp add: session_keys_def g)
qed


section \<open>Closing\<close>

lemma close_session_lives:
  assumes inv: "core_inv c" and c': "close_session c key reason = (c', os)"
  shows "lives (session_keys c) os c'" "session_keys c' = session_keys c - {key}"
proof -
  have "lives (session_keys c) os c' \<and> session_keys c' = session_keys c - {key}"
  proof (cases "get_session c key")
    case None
    then have "c' = c \<and> os = []" using c' by (simp add: close_session_def)
    with inv None show ?thesis by (auto simp: session_keys_def)
  next
    case (Some s)
    define M where "M = get_session c"
    note i = inv[unfolded core_inv_def routes_exact_def conns_exact_def keys_exact_def, folded M_def]
    have M: "M key = Some s" using Some by (simp add: M_def)
    have f: "rc_sessions c' = AList.delete key (rc_sessions c)"
      "rc_ssrc_to_session c' = (rc_ssrc_to_session c)(se_ssrc s := None)"
      "rc_tcp_conn_to_session c' = (case se_tcp_conn_id s of None \<Rightarrow> rc_tcp_conn_to_session c
        | Some conn \<Rightarrow> (rc_tcp_conn_to_session c)(conn := None))"
      "os = [CloseSession key, OutEvent (SessionClosed key reason)]"
      using c' Some by (auto simp: close_session_def Let_def split: option.splits)
    have g: "get_session c' = M(key := None)" by (simp add: f(1) delete_conv' M_def)
    have d: "distinct (map fst (rc_sessions c'))" using i by (simp add: f(1) distinct_delete)
    have "((rc_ssrc_to_session c)(se_ssrc s := None)) n = Some k \<longleftrightarrow> (\<exists>t. (M(key := None)) k = Some t \<and> se_ssrc t = n)" for n k
    proof -
      have r: "rc_ssrc_to_session c n = Some k \<longleftrightarrow> (\<exists>t. M k = Some t \<and> se_ssrc t = n)" for n k using i by blast
      have "rc_ssrc_to_session c (se_ssrc s) = Some key" using r M by blast
      then show ?thesis using r [of n k] M by auto
    qed
    then have "routes_exact c'" unfolding routes_exact_def f(2) g by blast
    moreover have "\<exists>t. (M(key := None)) k = Some t \<and> se_tcp_conn_id t = Some conn"
      if "rc_tcp_conn_to_session c' conn = Some k" for conn k
    proof -
      from that have old: "rc_tcp_conn_to_session c conn = Some k" "se_tcp_conn_id s \<noteq> Some conn"
        by (auto simp: f(3) split: option.splits if_splits)
      with i obtain t where "M k = Some t" "se_tcp_conn_id t = Some conn" by blast
      with M old(2) show ?thesis by (cases "k = key") auto
    qed
    then have "conns_exact c'" unfolding conns_exact_def g by blast
    moreover have "keys_exact c'" unfolding keys_exact_def g using d i by auto
    ultimately have "core_inv c'" by (simp add: core_inv_def)
    moreover have k: "session_keys c' = session_keys c - {key}" by (auto simp: session_keys_def g M_def)
    moreover have "key \<in> session_keys c" using Some by (auto simp: session_keys_def)
    ultimately show ?thesis by (simp add: lives_def f(4))
  qed
  then show "lives (session_keys c) os c'" "session_keys c' = session_keys c - {key}" by simp_all
qed

text \<open>Steps in a row.\<close>

lemma lives_each:
  assumes "\<And>c x c' os. core_inv c \<Longrightarrow> x \<in> set xs \<Longrightarrow> f c x = (c', os) \<Longrightarrow> lives (session_keys c) os c'"
    and "core_inv c" and "each c f xs = (c', os)"
  shows "lives (session_keys c) os c'"
  using assms
proof (induction xs arbitrary: c os)
  case (Cons x xs)
  obtain c1 os1 where s: "f c x = (c1, os1)" by fastforce
  obtain os2 where e: "each c1 f xs = (c', os2)" "os = os1 @ os2"
    using Cons.prems(3) s by (auto split: prod.splits)
  have l: "lives (session_keys c) os1 c1" by (rule Cons.prems(1) [OF Cons.prems(2) _ s]) simp
  then have "core_inv c1" by (simp add: lives_def)
  have "lives (session_keys c1) os2 c'"
    by (rule Cons.IH [OF _ \<open>core_inv c1\<close> e(1)]) (rule Cons.prems(1), simp_all)
  with l show ?case unfolding e(2) by (rule lives_append)
qed simp

section \<open>Packets\<close>

lemma probe_mode_same_id: "same_id s (probe_mode c s rtp)"
  by (auto simp: probe_mode_def Let_def same_id_def commit_payload_profile_def
      split: rtp_pt_resolve_source.split)

lemma locked_mode_same_id: "locked_mode c key s rtp = (s', v) \<Longrightarrow> same_id s s'"
  by (auto simp: locked_mode_def Let_def same_id_def commit_payload_profile_def
      split: rtp_pt_resolve_source.splits option.splits if_splits)

lemma resolve_session_mode_same_id: "resolve_session_mode c key s rtp = (s', v) \<Longrightarrow> same_id s s'"
  by (auto simp: resolve_session_mode_def probe_mode_same_id locked_mode_same_id split: if_splits)

lemma resolve_session_mode_event:
  "resolve_session_mode c key s rtp = (s', PtAccept (Some ev)) \<Longrightarrow> neutral key (OutEvent ev)"
  by (auto simp: resolve_session_mode_def locked_mode_def Let_def
      split: rtp_pt_resolve_source.splits option.splits if_splits)

lemma resolve_session_mode_fresh:
  "se_payload_type s = None \<Longrightarrow> resolve_session_mode c key s rtp = (s', v) \<Longrightarrow> v = PtAccept None"
  by (auto simp: resolve_session_mode_def locked_mode_def Let_def split: if_splits)

lemma announce_transition_frame:
  "announce_transition key s st = (s', os) \<Longrightarrow> same_id s s' \<and> list_all (neutral key) os"
  by (auto simp: announce_transition_def transition_to_def same_id_def split: if_splits)

lemma ts_events_neutral: "list_all (neutral key) (ts_events key allowed src evs)"
  by (induction evs) (auto simp: ts_events_def track_event_def frame_event_def split: ts_demux_event.split)

lemma ps_events_neutral: "list_all (neutral key) (ps_events key allowed src evs)"
  by (induction evs)
    (auto simp: ps_events_def tracks_event_def frame_event_def Let_def split: ps_demux_event.split)

lemma demux_payload_frame:
  "demux_payload ops key s payload src = (s', os) \<Longrightarrow> same_id s s' \<and> list_all (neutral key) os"
  by (auto simp: demux_payload_def Let_def same_id_def ts_events_neutral ps_events_neutral
      split: session_demuxer.splits prod.splits)


text \<open>The accounting of a packet, of a session announced before and of one announced with it.\<close>

lemma learn_rtp_len_frame:
  "learn_rtp_len c s ssrc len = (s', os) \<Longrightarrow> same_id s s' \<and> list_all (neutral key) os"
  by (auto simp: learn_rtp_len_def same_id_def split: if_splits)

lemma ingress_state_frame:
  "ingress_state key s created = (s', os) \<Longrightarrow> same_id s s' \<and> list_all (neutral key) os \<and> (created \<longrightarrow> os = [])"
  by (auto simp: ingress_state_def same_id_def split: option.splits if_splits dest!: announce_transition_frame)

lemma sequence_gap_neutral: "list_all (neutral key) (sequence_gap ssrc last_seq seq)"
  by (simp add: sequence_gap_def split: option.split)

lemma account_packet_frame:
  assumes "account_packet c key s rtp at created = (s', os)"
  shows "same_id s s'" "\<not> created \<Longrightarrow> list_all (neutral key) os"
    "created \<Longrightarrow> key \<notin> opened \<Longrightarrow> lifecycle opened os = Some (insert key opened)"
proof -
  define h where "h = rp_header rtp"
  define s0 where "s0 = s\<lparr>se_packets_received := se_packets_received s + 1,
                se_bytes_received := se_bytes_received s + of_nat (length (rp_payload rtp)),
                se_last_activity_ms := max (se_last_activity_ms s) at,
                se_rtcp := report_on_packet (se_rtcp s) (rh_sequence_number h) (rh_timestamp h) at\<rparr>"
  obtain s1 diag where a: "learn_rtp_len c s0 (rh_ssrc h) (length (rp_payload rtp)) = (s1, diag)" by fastforce
  obtain s2 changed where b: "ingress_state key s1 created = (s2, changed)" by fastforce
  define gap where "gap = sequence_gap (rh_ssrc h) (se_last_seq s2) (rh_sequence_number h)"
  have r: "s' = s2\<lparr>se_last_seq := Some (rh_sequence_number h)\<rparr>"
    "os = diag @ (if created then [OutEvent (SessionCreated key (rh_ssrc h) (se_payload_mode s1) (se_transport_mode s1))]
       else []) @ changed @ gap"
    using assms a b by (auto simp: account_packet_def Let_def h_def [symmetric] s0_def [symmetric] gap_def)
  note f = learn_rtp_len_frame [OF a, of key] ingress_state_frame [OF b]
  show "same_id s s'" using f by (simp add: r same_id_def s0_def)
  show "\<not> created \<Longrightarrow> list_all (neutral key) os" using f by (simp add: r gap_def sequence_gap_neutral)
  have "lifecycle opened diag = Some opened"
    using a by (auto simp: learn_rtp_len_def split: if_splits)
  moreover have "lifecycle (insert key opened) gap = Some (insert key opened)"
    by (rule lifecycle_neutral [of key]) (simp_all add: gap_def sequence_gap_neutral)
  ultimately show "created \<Longrightarrow> key \<notin> opened \<Longrightarrow> lifecycle opened os = Some (insert key opened)"
    using f by (simp add: r lifecycle_append)
qed

end
