(* ===== verification/Rtp_Session_Lives.thy ===== *)
theory Rtp_Session_Lives
  imports Rtp_Session_Invariant
begin

text \<open>
  Every step of the RTP core keeps the routing invariant, and its outputs follow the life of the sessions.
\<close>

section \<open>RTP packets\<close>

text \<open>The sessions the outside knows of: while the first packet of a new one is processed, all but that one.\<close>

definition announced :: "session_key \<Rightarrow> bool \<Rightarrow> session_key set \<Rightarrow> session_key set" where
  "announced key created keys = (if created then keys - {key} else keys)"

lemma announced_simps [simp]: "announced key False keys = keys" "announced key True keys = keys - {key}"
  by (simp_all add: announced_def)

lemma lives_put_created:
  assumes inv: "core_inv c" and s: "get_session c key = Some s" and id: "same_id s s'"
    and os: "if created then lifecycle (session_keys c - {key}) os = Some (insert key (session_keys c - {key}))
      else list_all (neutral key) os"
  shows "lives (announced key created (session_keys c)) os (put_session c key s')"
proof (cases created)
  case True
  have "insert key (session_keys c - {key}) = session_keys c" using s by (auto simp: session_keys_def)
  with True os put_session_inv [OF inv s id] show ?thesis by (simp add: lives_def)
next
  case False
  with lives_put [OF inv s id] os show ?thesis by simp
qed

lemma adopt_tcp_conn_lives:
  assumes inv: "core_inv c" and s: "get_session c key = Some s" and id: "same_id s s'"
  shows "core_inv (adopt_tcp_conn c key s' conn_opt)" "session_keys (adopt_tcp_conn c key s' conn_opt) = session_keys c"
proof -
  have "core_inv (adopt_tcp_conn c key s' conn_opt) \<and> session_keys (adopt_tcp_conn c key s' conn_opt) = session_keys c"
  proof (cases "se_tcp_conn_id s' = None \<and> conn_opt \<noteq> None")
    case False
    then have "adopt_tcp_conn c key s' conn_opt = put_session c key s'"
      by (auto simp: adopt_tcp_conn_def split: option.splits)
    with put_session_inv [OF inv s id] show ?thesis by simp
  next
    case True
    then obtain conn where conn: "conn_opt = Some conn" "se_tcp_conn_id s' = None" by auto
    define t where "t = s'\<lparr>se_tcp_conn_id := Some conn\<rparr>"
    define c0 where "c0 = c\<lparr>rc_tcp_conn_to_session := (rc_tcp_conn_to_session c)(conn \<mapsto> key)\<rparr>"
    have a: "adopt_tcp_conn c key s' conn_opt = put_session c0 key t"
      using conn by (simp add: adopt_tcp_conn_def c0_def t_def)
    define M where "M = get_session c"
    note i = inv[unfolded core_inv_def routes_exact_def conns_exact_def keys_exact_def, folded M_def]
    have M: "M key = Some s" using s by (simp add: M_def)
    have g: "get_session (put_session c0 key t) = M(key \<mapsto> t)" by (simp add: c0_def M_def)
    have idt: "se_ssrc t = se_ssrc s" "se_session_key t = se_session_key s" "se_tcp_conn_id s = None"
      using id conn by (simp_all add: t_def same_id_def)
    have "routes_exact (put_session c0 key t) = routes_exact c"
      by (rule routes_exact_cong) (use M idt in \<open>auto simp: c0_def M_def\<close>)
    then have "routes_exact (put_session c0 key t)" using inv by (simp add: core_inv_def)
    moreover have "\<exists>u. (M(key \<mapsto> t)) k = Some u \<and> se_tcp_conn_id u = Some conn'"
      if "rc_tcp_conn_to_session (put_session c0 key t) conn' = Some k" for conn' k
    proof (cases "conn' = conn")
      case True
      with that have "k = key" by (simp add: c0_def)
      with True show ?thesis by (simp add: t_def)
    next
      case False
      with that have "rc_tcp_conn_to_session c conn' = Some k" by (simp add: c0_def)
      with i obtain u where "M k = Some u" "se_tcp_conn_id u = Some conn'" by blast
      with M idt(3) show ?thesis by (cases "k = key") auto
    qed
    then have "conns_exact (put_session c0 key t)" unfolding conns_exact_def g by blast
    moreover have "keys_exact (put_session c0 key t)"
      unfolding keys_exact_def g using put_session_distinct [of c0 key t] i M idt by (auto simp: c0_def)
    ultimately show ?thesis using M unfolding a by (auto simp: core_inv_def session_keys_def g) (simp_all add: M_def c0_def)
  qed
  then show "core_inv (adopt_tcp_conn c key s' conn_opt)" "session_keys (adopt_tcp_conn c key s' conn_opt) = session_keys c"
    by simp_all
qed

lemma process_single_lives:
  assumes inv: "core_inv c" and s: "get_session c key = Some s" and fresh: "created \<Longrightarrow> se_payload_type s = None"
    and r: "process_single_rtp_packet ops c key rtp conn src at created = ((c', os), verdict)"
  shows "lives (announced key created (session_keys c)) os c'" "key \<in> session_keys c'" "created \<Longrightarrow> verdict = None"
proof -
  obtain s1 v where v: "resolve_session_mode c key s rtp = (s1, v)" by fastforce
  obtain s2 outs where ac: "account_packet c key s1 rtp at created = (s2, outs)" by fastforce
  obtain s3 media where d: "demux_payload ops key s2 (rp_payload rtp) src = (s3, media)" by fastforce
  note id1 = resolve_session_mode_same_id [OF v]
  note f = account_packet_frame [OF ac]
  note id2 = same_id_trans [OF id1 f(1)]
  note id3 = same_id_trans [OF id2 demux_payload_frame [OF d, THEN conjunct1]]
  have key: "key \<in> session_keys c" using s by (auto simp: session_keys_def)
  have nv: "created \<Longrightarrow> v = PtAccept None" using resolve_session_mode_fresh [OF _ v] fresh by simp
  have os: "if created then lifecycle (session_keys c - {key}) outs = Some (insert key (session_keys c - {key}))
      else list_all (neutral key) outs"
    using f(2,3) by simp
  have *: "lives (announced key created (session_keys c)) os c' \<and> key \<in> session_keys c' \<and> (created \<longrightarrow> verdict = None)"
  proof (cases v)
    case (PtAccept change)
    have c': "c' = adopt_tcp_conn c key s3 conn"
      "os = (case change of None \<Rightarrow> [] | Some ev \<Rightarrow> [OutEvent ev]) @ outs @ media" "verdict = None"
      using r by (simp_all add: process_single_rtp_packet_def s v ac d PtAccept split: option.splits)
    note ad = adopt_tcp_conn_lives [OF inv s id3, of conn, folded c'(1)]
    have m: "lifecycle (session_keys c) media = Some (session_keys c)"
      using lifecycle_neutral [OF demux_payload_frame [OF d, THEN conjunct2] key] .
    have "lifecycle (announced key created (session_keys c)) os = Some (session_keys c)"
    proof (cases created)
      case True
      then have "change = None" using nv PtAccept by simp
      with True os m insert_Diff [OF key] show ?thesis by (simp add: c'(2) lifecycle_append)
    next
      case False
      have "list_all (neutral key) (case change of None \<Rightarrow> [] | Some ev \<Rightarrow> [OutEvent ev])"
        using resolve_session_mode_event [of c key s rtp s1] v PtAccept by (auto split: option.splits)
      with False os m lifecycle_neutral [of key _ "session_keys c"] key
      show ?thesis by (simp add: c'(2) lifecycle_append)
    qed
    with ad key c'(3) show ?thesis by (simp add: lives_def)
  next
    case PtSkipDemuxer
    have c': "c' = put_session c key s2" "os = outs" "verdict = None"
      using r by (simp_all add: process_single_rtp_packet_def s v ac PtSkipDemuxer)
    show ?thesis using lives_put_created [OF inv s id2 os] put_session_inv(2) [OF inv s id2] key by (simp add: c')
  next
    case (PtClose reason)
    have c': "c' = put_session c key s1" "os = []" using r by (simp_all add: process_single_rtp_packet_def s v PtClose)
    show ?thesis using nv PtClose put_session_inv [OF inv s id1] key by (cases created) (simp_all add: c')
  qed
  then show "lives (announced key created (session_keys c)) os c'" "key \<in> session_keys c'" "created \<Longrightarrow> verdict = None"
    by simp_all
qed

lemma process_released_old:
  assumes "core_inv c" and "key \<in> session_keys c"
    and "process_released ops c key conn False rel = (c', os)"
  shows "lives (session_keys c) os c'"
  using assms
proof (induction rel arbitrary: c os)
  case (Cons r rel)
  obtain rtp at src where r: "r = (rtp, at, src)" by (cases r) auto
  obtain c1 os1 v where p: "process_single_rtp_packet ops c key rtp conn src at False = ((c1, os1), v)"
    by (metis surj_pair)
  from Cons.prems(2) obtain s where s: "get_session c key = Some s" by (auto simp: session_keys_def)
  note l = process_single_lives [OF Cons.prems(1) s _ p, simplified]
  then have inv1: "core_inv c1" by (simp add: lives_def)
  show ?case
  proof (cases v)
    case (Some reason)
    obtain os2 where "close_session c1 key reason = (c', os2)" "os = os1 @ os2"
      using Cons.prems(3) p Some by (auto simp: r split: prod.splits)
    with close_session_lives(1) [OF inv1] l(1) show ?thesis by (auto intro: lives_append)
  next
    case None
    from l(2) have "get_session c1 key \<noteq> None" by (auto simp: session_keys_def)
    with None p Cons.prems(3) obtain os2 where
      "process_released ops c1 key conn False rel = (c', os2)" "os = os1 @ os2"
      by (auto simp: r split: prod.splits)
    with Cons.IH [OF inv1 l(2)] l(1) show ?thesis by (auto intro: lives_append)
  qed
qed simp

lemma process_released_first:
  assumes inv: "core_inv c" and s: "get_session c key = Some s" and fresh: "created \<Longrightarrow> se_payload_type s = None"
    and rel: "created \<Longrightarrow> \<exists>x. rel = [x]"
    and r: "process_released ops c key conn created rel = (c', os)"
  shows "lives (announced key created (session_keys c)) os c'"
proof (cases created)
  case True
  then obtain rtp at src where x: "rel = [(rtp, at, src)]" using rel by (metis prod_cases3)
  obtain c1 os1 v where p: "process_single_rtp_packet ops c key rtp conn src at True = ((c1, os1), v)"
    by (metis surj_pair)
  note l = process_single_lives [OF inv s _ p, simplified]
  from l(3) fresh True have "v = None" by simp
  with r p True have "c' = c1" "os = os1" by (auto simp: x split: if_splits)
  with l(1) fresh True show ?thesis by simp
next
  case False
  with r have "process_released ops c key conn False rel = (c', os)" by simp
  moreover have "key \<in> session_keys c" using s by (auto simp: session_keys_def)
  ultimately show ?thesis using process_released_old [OF inv] False by simp
qed

section \<open>Admission\<close>

lemma check_source_frame:
  "check_source c key s rtp src at = (s', os, verdict) \<Longrightarrow> same_id s s' \<and> list_all (neutral key) os"
  by (auto simp: check_source_def Let_def same_id_def split: option.splits rtp_source_policy.splits if_splits)

lemma check_source_fresh:
  assumes "check_source c key s rtp src at = (s', os, verdict)" and "se_source_addr s = src"
  shows "verdict = Admitted" "os = []" "se_payload_type s' = se_payload_type s" "se_reorder s' = se_reorder s"
  using assms by (auto simp: check_source_def Let_def split: option.splits)

lemma admit_packet_lives:
  assumes inv: "core_inv c" and s: "get_session c key = Some s"
    and fresh: "created \<Longrightarrow> se_payload_type s = None \<and> se_source_addr s = src
      \<and> se_reorder s = reorder_new reorder_settings_default"
    and r: "admit_packet ops c key rtp src conn at created = (c', os)"
  shows "lives (announced key created (session_keys c)) os c'"
proof -
  obtain s1 os1 v where k: "check_source c key s rtp src at = (s1, os1, v)" by (metis surj_pair)
  note f = check_source_frame [OF k]
  note fr = check_source_fresh [OF k]
  show ?thesis
  proof (cases v)
    case Refused
    with fr(1) fresh have "\<not> created" by auto
    with r s k Refused lives_put [OF inv s f[THEN conjunct1] f[THEN conjunct2]] show ?thesis
      by (simp add: admit_packet_def)
  next
    case Admitted
    obtain b rel where b: "reorder_push (se_reorder s1) (rh_sequence_number (rp_header rtp)) at (rtp, at, src) = (b, rel)"
      by fastforce
    define t where "t = s1\<lparr>se_reorder := b\<rparr>"
    have id: "same_id s t" using f by (simp add: t_def same_id_def)
    obtain os2 where os2: "process_released ops (put_session c key t) key conn created rel = (c', os2)" "os = os1 @ os2"
      using r by (simp add: admit_packet_def s k Admitted b t_def [symmetric] split: prod.splits)
    have one: "\<exists>x. rel = [x]" if created
      using b fr(4) fresh that by (auto simp: reorder_push_def reorder_new_def Let_def)
    have pt: "se_payload_type t = None" if created using fr(3) fresh that by (simp add: t_def)
    note put = put_session_inv [OF inv s id]
    have l: "lives (announced key created (session_keys c)) os2 c'"
      using process_released_first [OF put(1) _ pt one os2(1)] put(2) by simp
    show ?thesis
    proof (cases created)
      case True
      with fr(2) fresh l show ?thesis by (simp add: os2(2))
    next
      case False
      have "lifecycle (session_keys c) os1 = Some (session_keys c)"
        using lifecycle_neutral [OF f[THEN conjunct2], of "session_keys c"] s by (auto simp: session_keys_def)
      with False l show ?thesis by (simp add: os2(2) lives_def lifecycle_append)
    qed
  qed
qed

lemma auto_create_session_inv:
  assumes inv: "core_inv c" and free: "rc_ssrc_to_session c (rh_ssrc (rp_header rtp)) = None"
    and c1: "c1 = auto_create_session c rtp src conn" and key: "key = live_key (rh_ssrc (rp_header rtp))"
  shows "core_inv c1" "session_keys c1 - {key} = session_keys c"
    "\<exists>s. get_session c1 key = Some s \<and> se_payload_type s = None \<and> se_source_addr s = src
      \<and> se_reorder s = reorder_new reorder_settings_default"
proof -
  define s where "s = (fresh_session key (rh_ssrc (rp_header rtp)) (probe_rtp_payload (rp_payload rtp)) RecvOnly AllTracks
    AllowValidatedRebind src None conn 0 None (rc_wall_clock_offset_ms c) :: ('a, 'b) rtp_session)"
  have none: "get_session c key = None"
  proof (rule ccontr)
    assume "get_session c key \<noteq> None"
    then obtain t where t: "get_session c key = Some t" by auto
    with inv key have "se_ssrc t = rh_ssrc (rp_header rtp)" by (simp add: core_inv_def keys_exact_def)
    with inv t have "rc_ssrc_to_session c (rh_ssrc (rp_header rtp)) = Some key"
      by (auto simp: core_inv_def routes_exact_def)
    with free show False by simp
  qed
  have fields: "se_ssrc s = rh_ssrc (rp_header rtp)" "se_session_key s = key" "se_tcp_conn_id s = conn"
    "se_payload_type s = None" "se_source_addr s = src" "se_reorder s = reorder_new reorder_settings_default"
    by (simp_all add: s_def fresh_session_def)
  have c: "rc_sessions c1 = rc_sessions (put_session c key s)"
    "rc_ssrc_to_session c1 = (rc_ssrc_to_session c)(se_ssrc s \<mapsto> key)"
    "rc_tcp_conn_to_session c1 = (case se_tcp_conn_id s of None \<Rightarrow> rc_tcp_conn_to_session c
       | Some cn \<Rightarrow> (rc_tcp_conn_to_session c)(cn \<mapsto> key))"
    unfolding fields by (simp_all add: c1 auto_create_session_def Let_def key [symmetric] s_def put_session_def
        split: option.splits)
  have "key = live_key n \<Longrightarrow> se_ssrc s = n" for n by (simp add: fields(1) key)
  note a = add_session_inv [OF inv none _ fields(2) this c]
  then show "core_inv c1" using free by (simp add: fields(1))
  show "session_keys c1 - {key} = session_keys c"
    using a(2) free none by (auto simp: fields(1) session_keys_def)
  have "get_session c1 key = Some s" using put_session_simps(1) [of c key s] by (simp add: c(1))
  with fields show "\<exists>s. get_session c1 key = Some s \<and> se_payload_type s = None \<and> se_source_addr s = src
      \<and> se_reorder s = reorder_new reorder_settings_default" by blast
qed

lemma feed_rtp_packet_lives:
  assumes inv: "core_inv c" and r: "feed_rtp_packet ops c rtp src conn at = (c', os)"
  shows "lives (session_keys c) os c'"
proof -
  have d: "lives (session_keys c) [OutDiagnostic x] c" for x using inv by (simp add: lives_def)
  show ?thesis
  proof (cases "rh_version (rp_header rtp) \<noteq> 2 \<or> rp_payload rtp = []")
    case True
    with r d show ?thesis by (auto simp: feed_rtp_packet_def Let_def split: if_splits)
  next
    case ok: False
    show ?thesis
    proof (cases "rc_ssrc_to_session c (rh_ssrc (rp_header rtp))")
      case (Some key)
      then obtain s where s: "get_session c key = Some s" using inv by (auto simp: core_inv_def routes_exact_def)
      have "admit_packet ops c key rtp src conn at False = (c', os)"
        using r ok Some by (simp add: feed_rtp_packet_def Let_def)
      from admit_packet_lives [OF inv s _ this] show ?thesis by simp
    next
      case None
      define key where "key = live_key (rh_ssrc (rp_header rtp))"
      define c1 where "c1 = auto_create_session c rtp src conn"
      note a = auto_create_session_inv [OF inv None c1_def key_def]
      show ?thesis
      proof (cases "length (rc_sessions c) \<ge> rc_max_sessions c")
        case True
        with r ok None d show ?thesis by (auto simp: feed_rtp_packet_def Let_def)
      next
        case False
        with r ok None have "admit_packet ops c1 key rtp src conn at True = (c', os)"
          by (simp add: feed_rtp_packet_def Let_def c1_def key_def)
        moreover obtain s where "get_session c1 key = Some s" "se_payload_type s = None" "se_source_addr s = src"
          "se_reorder s = reorder_new reorder_settings_default" using a(3) by blast
        ultimately show ?thesis using admit_packet_lives [OF a(1), of key s True src] a(2) by simp
      qed
    qed
  qed
qed

lemma process_udp_packet_lives:
  "core_inv c \<Longrightarrow> process_udp_packet ops c d = (c', os) \<Longrightarrow> lives (session_keys c) os c'"
  by (auto simp: process_udp_packet_def lives_def dest: feed_rtp_packet_lives [unfolded lives_def] split: option.splits if_splits)

lemma process_rtp_bytes_lives:
  "core_inv c \<Longrightarrow> process_rtp_bytes ops c conn at remaining = (c', os) \<Longrightarrow> lives (session_keys c) os c'"
proof (induction ops c conn at remaining arbitrary: c' os rule: process_rtp_bytes.induct)
  case (1 ops c conn at remaining)
  note eq = "1.prems"(2)[unfolded process_rtp_bytes.simps [of ops c conn at remaining]]
  show ?case
  proof (cases "remaining = []")
    case True
    with eq "1.prems"(1) show ?thesis by simp
  next
    case ne: False
    show ?thesis
    proof (cases "parse_tcp_rtp_frame_with remaining (rc_tcp_framing c)")
      case (Some parsed)
      obtain c1 os1 where f: "feed_rtp_packet ops c (pf_packet parsed) None (Some conn) at = (c1, os1)" by fastforce
      obtain os2 where p: "process_rtp_bytes ops c1 conn at (drop (pf_consumed parsed) remaining) = (c', os2)"
        "os = os1 @ os2" using eq ne Some f by (auto split: prod.splits)
      note l = feed_rtp_packet_lives [OF "1.prems"(1) f]
      have "core_inv c1" using l by (simp add: lives_def)
      from "1.IH"(3) [OF ne Some f [symmetric] this p(1)] l show ?thesis
        by (simp add: p(2) lives_append)
    next
      case None
      show ?thesis
      proof (cases "length remaining < 2")
        case True
        with eq ne None "1.prems"(1) show ?thesis by simp
      next
        case long: False
        show ?thesis
        proof (cases "scan_tcp c remaining")
          case NotRecovered
          with eq ne None long "1.prems"(1) show ?thesis by simp
        next
          case (RecoveredPack offset)
          have "process_rtp_bytes ops c conn at (drop offset remaining) = (c', os)"
            using eq ne None long RecoveredPack by simp
          from "1.IH"(2) [OF ne None long RecoveredPack "1.prems"(1) this] show ?thesis .
        next
          case (RecoveredFrame offset parsed)
          obtain c1 os1 where f: "feed_rtp_packet ops c (pf_packet parsed) None (Some conn) at = (c1, os1)" by fastforce
          obtain os2 d where p: "process_rtp_bytes ops c1 conn at (drop (offset + pf_consumed parsed) remaining) = (c', os2)"
            "os = OutDiagnostic d # os1 @ os2"
            using eq ne None long RecoveredFrame f by (auto simp: Let_def split: prod.splits)
          note l = feed_rtp_packet_lives [OF "1.prems"(1) f]
          have "core_inv c1" using l by (simp add: lives_def)
          from "1.IH"(1) [OF ne None long RecoveredFrame refl f [symmetric] this p(1)] l
          show ?thesis by (simp add: p(2) lives_def lifecycle_append)
        qed
      qed
    qed
  qed
qed

end
