(* ===== verification/Rtp_Session_Steps.thy ===== *)
theory Rtp_Session_Steps
  imports Rtp_Session_Lives
begin

text \<open>
  The other inputs of the RTP core: Ehome, closed connections, RTCP, ticks and commands.
\<close>

text \<open>Steps that may change many sessions, none of them in what it is known by.\<close>

lemma core_inv_update:
  assumes inv: "core_inv c" and fsts: "distinct (map fst (rc_sessions c'))"
    and ssrcs: "rc_ssrc_to_session c' = rc_ssrc_to_session c"
    and conns: "rc_tcp_conn_to_session c' \<subseteq>\<^sub>m rc_tcp_conn_to_session c"
    and ids: "\<And>key. rel_option same_id (get_session c key) (get_session c' key)"
  shows "core_inv c'" "session_keys c' = session_keys c"
proof -
  have 1: "\<exists>s. get_session c key = Some s \<and> same_id s s'" if "get_session c' key = Some s'" for key s'
    using ids [of key] that by (auto simp: option_rel_Some2)
  have 2: "\<exists>s'. get_session c' key = Some s' \<and> same_id s s'" if "get_session c key = Some s" for key s
    using ids [of key] that by (auto simp: option_rel_Some1)
  have "map_option se_ssrc (get_session c' k) = map_option se_ssrc (get_session c k)" for k
    using ids [of k] by (cases "get_session c k") (auto simp: option_rel_Some1 same_id_def)
  then have "routes_exact c' = routes_exact c" by (rule routes_exact_cong [OF ssrcs])
  moreover have "conns_exact c'"
    unfolding conns_exact_def
  proof (intro allI impI)
    fix conn key
    assume "rc_tcp_conn_to_session c' conn = Some key"
    with conns have "rc_tcp_conn_to_session c conn = Some key" by (auto simp: map_le_def dom_def)
    with inv obtain s where "get_session c key = Some s" "se_tcp_conn_id s = Some conn"
      by (auto simp: core_inv_def conns_exact_def)
    then show "\<exists>s. get_session c' key = Some s \<and> se_tcp_conn_id s = Some conn"
      using 2 unfolding same_id_def by metis
  qed
  moreover have "keys_exact c'"
    unfolding keys_exact_def
  proof (intro conjI allI impI)
    show "distinct (map fst (rc_sessions c'))" by (fact fsts)
    show "se_session_key s = key" if "get_session c' key = Some s" for key s
      using 1 [OF that] inv by (auto simp: same_id_def core_inv_def keys_exact_def)
    show "se_ssrc s = n" if "get_session c' (live_key n) = Some s" for n s
      using 1 [OF that] inv by (auto simp: same_id_def core_inv_def keys_exact_def)
  qed
  ultimately show "core_inv c'" using inv by (simp add: core_inv_def)
  show "session_keys c' = session_keys c" using 1 2 unfolding session_keys_def by blast
qed

section \<open>Ehome\<close>

definition ehome_claims :: "('t, 'p) rtp_core \<Rightarrow> ehome_output \<Rightarrow> bool" where
  "ehome_claims c out =
     (case out of
        HandshakeSsrc ssrc \<Rightarrow>
          get_session c (ehome_key ssrc) \<noteq> None \<or> rc_ssrc_to_session c (ehome_ssrc ssrc) = None
      | _ \<Rightarrow> True)"

lemma ehome_key_live: "ehome_key bs = live_key n \<Longrightarrow> ehome_ssrc bs = n"
proof -
  assume "ehome_key bs = live_key n"
  then have "string_of_bytes (latin1_utf8 bs) = decimal (unat n)" by (simp add: ehome_key_def live_key_def)
  then have "parse_uint 32 (string_of_bytes (latin1_utf8 bs)) = Some (unat n)"
    using unsigned_less [of n, where ?'a = nat] by simp
  then show ?thesis by (simp add: ehome_ssrc_def Let_def)
qed

lemma ehome_apply_lives:
  assumes inv: "core_inv c" and ok: "ehome_claims c out" and r: "ehome_apply ops conn c out = (c', os)"
  shows "lives (session_keys c) os c'"
proof (cases out)
  case (HandshakeSsrc bs)
  define key where "key = ehome_key bs"
  show ?thesis
  proof (cases "get_session c key")
    case (Some s)
    with r inv show ?thesis by (simp add: ehome_apply_def HandshakeSsrc ehome_handshake_ssrc_def key_def Let_def)
  next
    case None
    define s where "s = (fresh_session key (ehome_ssrc bs) Ehome RecvOnly AllTracks AllowValidatedRebind None None (Some conn)
                  0 None (rc_wall_clock_offset_ms c) :: ('a, 'b) rtp_session)"
    have f: "se_ssrc s = ehome_ssrc bs" "se_session_key s = key" "se_tcp_conn_id s = Some conn"
      by (simp_all add: s_def fresh_session_def)
    have c': "rc_sessions c' = rc_sessions (put_session c key s)"
      "rc_ssrc_to_session c' = (rc_ssrc_to_session c)(se_ssrc s \<mapsto> key)"
      "rc_tcp_conn_to_session c' = (case se_tcp_conn_id s of None \<Rightarrow> rc_tcp_conn_to_session c
         | Some cn \<Rightarrow> (rc_tcp_conn_to_session c)(cn \<mapsto> key))"
      "os = [OutEvent (SessionCreated key (ehome_ssrc bs) Ehome RecvOnly)]"
    proof -
      have "ehome_handshake_ssrc c conn bs = (c', os)" using r by (simp add: ehome_apply_def HandshakeSsrc)
      note this[unfolded ehome_handshake_ssrc_def Let_def, folded key_def, folded s_def]
      with None show "rc_sessions c' = rc_sessions (put_session c key s)"
        "rc_ssrc_to_session c' = (rc_ssrc_to_session c)(se_ssrc s \<mapsto> key)"
        "rc_tcp_conn_to_session c' = (case se_tcp_conn_id s of None \<Rightarrow> rc_tcp_conn_to_session c
           | Some cn \<Rightarrow> (rc_tcp_conn_to_session c)(cn \<mapsto> key))"
        "os = [OutEvent (SessionCreated key (ehome_ssrc bs) Ehome RecvOnly)]"
        by (auto simp: f)
    qed
    have "rc_ssrc_to_session c (se_ssrc s) = None"
      using ok None by (simp add: ehome_claims_def HandshakeSsrc key_def f)
    from add_session_inv [OF inv None this f(2) _ c'(1-3)] have "core_inv c'" "session_keys c' = insert key (session_keys c)"
      using ehome_key_live [of bs] by (auto simp: f key_def)
    with None show ?thesis by (simp add: lives_def c'(4) session_keys_def domIff)
  qed
next
  case (HandshakeCodec codec)
  show ?thesis
  proof (cases "\<exists>key s. rc_tcp_conn_to_session c conn = Some key \<and> get_session c key = Some s")
    case False
    with r inv show ?thesis
      by (auto simp: ehome_apply_def HandshakeCodec ehome_handshake_codec_def split: option.splits)
  next
    case True
    then obtain key s where k: "rc_tcp_conn_to_session c conn = Some key" and s: "get_session c key = Some s" by blast
    obtain d where "c' = put_session c key (s\<lparr>se_demuxer := d\<rparr>)" "list_all (neutral key) os"
      using r k s by (auto simp: ehome_apply_def HandshakeCodec ehome_handshake_codec_def split: if_splits)
    with lives_put [OF inv s] show ?thesis by (simp add: same_id_def)
  qed
next
  case (MediaPayload payload)
  show ?thesis
  proof (cases "\<exists>key s. rc_tcp_conn_to_session c conn = Some key \<and> get_session c key = Some s")
    case False
    with r inv show ?thesis
      by (auto simp: ehome_apply_def MediaPayload ehome_media_def split: option.splits)
  next
    case True
    then obtain key s where k: "rc_tcp_conn_to_session c conn = Some key" and s: "get_session c key = Some s" by blast
    obtain s' where "c' = put_session c key s'" "same_id s s'" "list_all (neutral key) os"
      using r k s
      by (auto simp: ehome_apply_def MediaPayload ehome_media_def Let_def same_id_def ps_events_neutral
          split: session_demuxer.splits option.splits prod.splits)
    with lives_put [OF inv s] show ?thesis by simp
  qed
qed

fun ehome_free :: "('t, 'p) demux_ops \<Rightarrow> ('t, 'p) rtp_core \<Rightarrow> nat \<Rightarrow> ehome_output list \<Rightarrow> bool" where
  "ehome_free ops c conn [] \<longleftrightarrow> True"
| "ehome_free ops c conn (out # outs) \<longleftrightarrow> ehome_claims c out \<and> ehome_free ops (fst (ehome_apply ops conn c out)) conn outs"

lemma ehome_steps_live:
  "core_inv c \<Longrightarrow> ehome_free ops c conn outs \<Longrightarrow> each c (ehome_apply ops conn) outs = (c', os)
    \<Longrightarrow> lives (session_keys c) os c'"
proof (induction outs arbitrary: c os)
  case (Cons out outs)
  obtain c1 os1 where a: "ehome_apply ops conn c out = (c1, os1)" by fastforce
  obtain os2 where e: "each c1 (ehome_apply ops conn) outs = (c', os2)" "os = os1 @ os2"
    using Cons.prems(3) a by (auto split: prod.splits)
  have l: "lives (session_keys c) os1 c1" using ehome_apply_lives [OF Cons.prems(1) _ a] Cons.prems(2) by simp
  then have "core_inv c1" by (simp add: lives_def)
  from Cons.IH [OF this _ e(1)] Cons.prems(2) a have "lives (session_keys c1) os2 c'" by simp
  with l show ?case by (simp add: e(2) lives_append)
qed simp

section \<open>Closed connections\<close>

lemma process_tcp_connection_closed_lives:
  assumes inv: "core_inv c" and r: "process_tcp_connection_closed env c conn = (c', os)"
  shows "lives (session_keys c) os c'"
proof -
  define keys where "keys = List.filter (\<lambda>key. case get_session c key of None \<Rightarrow> False
    | Some s \<Rightarrow> se_tcp_conn_id s = Some conn \<and> se_transport_mode s \<in> {RecvOnly}) (env_order env)"
  obtain c1 os1 where e: "each c (\<lambda>c key. close_session c key CloseConnectionClosed) keys = (c1, os1)" by fastforce
  have l: "lives (session_keys c) os1 c1"
    by (rule lives_each [OF _ inv e]) (rule close_session_lives(1))
  have c': "(c' = c1 \<and> os = os1) \<or> (c' = c1\<lparr>rc_ehome_decoders := (rc_ehome_decoders c1)(conn := None),
      rc_tcp_conn_to_session := (rc_tcp_conn_to_session c1)(conn := None)\<rparr> \<and> os = os1 @ [CloseTcpConnection conn])"
    using r e by (auto simp: process_tcp_connection_closed_def Let_def keys_def split: if_splits)
  then show ?thesis
  proof
    assume c2: "c' = c1\<lparr>rc_ehome_decoders := (rc_ehome_decoders c1)(conn := None),
      rc_tcp_conn_to_session := (rc_tcp_conn_to_session c1)(conn := None)\<rparr> \<and> os = os1 @ [CloseTcpConnection conn]"
    have "core_inv c1" using l by (simp add: lives_def)
    then have "core_inv c'" "session_keys c' = session_keys c1"
      using core_inv_update [of c1 c'] c2
      by (auto simp: core_inv_def keys_exact_def map_le_def option.rel_refl)
    with l c2 show ?thesis by (simp add: lives_def lifecycle_append)
  qed (use l in simp)
qed

section \<open>RTCP\<close>

lemma same_id_rtcp_sender_report: "same_id s (rtcp_sender_report_session source now_ms sr s)"
  by (simp add: rtcp_sender_report_session_def same_id_def)

lemma map_of_map_snd: "map_of (map (\<lambda>(k, s). (k, f s)) xs) key = map_option f (map_of xs key)"
  by (induction xs) auto

lemma rtcp_report_block_core_inv:
  assumes "core_inv c"
  shows "core_inv (rtcp_report_block_core source c block)"
    "session_keys (rtcp_report_block_core source c block) = session_keys c"
  using assms put_session_inv [OF assms]
  by (auto simp: rtcp_report_block_core_def same_id_def split: option.split)

lemma rtcp_report_blocks_inv:
  "core_inv c \<Longrightarrow> core_inv (foldl (rtcp_report_block_core source) c blocks)
    \<and> session_keys (foldl (rtcp_report_block_core source) c blocks) = session_keys c"
  by (induction blocks arbitrary: c) (simp_all add: rtcp_report_block_core_inv)

lemma rtcp_packets_core_inv:
  "core_inv c \<Longrightarrow> rtcp_packets_core order source c ps = (c', keys) \<Longrightarrow> core_inv c' \<and> session_keys c' = session_keys c"
proof (induction ps arbitrary: c keys)
  case (Cons p ps)
  define c1 where "c1 = (case p of
      RtcpSenderReport sr \<Rightarrow>
        c\<lparr>rc_sessions := map (\<lambda>(k, s). (k, rtcp_sender_report_session source (rc_now_ms c) sr s)) (rc_sessions c)\<rparr>
    | RtcpReceiverReport rr \<Rightarrow> foldl (rtcp_report_block_core source) c (rr_report_blocks rr)
    | _ \<Rightarrow> c)"
  obtain keys' where k: "rtcp_packets_core order source c1 ps = (c', keys')"
    using Cons.prems(2) by (auto simp: c1_def split: rtcp_packet.splits prod.splits)
  have "core_inv c1 \<and> session_keys c1 = session_keys c"
  proof (cases p)
    case (RtcpSenderReport sr)
    have "rel_option same_id (get_session c key) (get_session c1 key)" for key
      by (cases "get_session c key")
        (simp_all add: c1_def RtcpSenderReport map_of_map_snd same_id_rtcp_sender_report)
    moreover have "map fst (rc_sessions c1) = map fst (rc_sessions c)"
      by (simp add: c1_def RtcpSenderReport comp_def case_prod_beta)
    moreover have "distinct (map fst (rc_sessions c))" using Cons.prems(1) by (simp add: core_inv_def keys_exact_def)
    moreover have "rc_ssrc_to_session c1 = rc_ssrc_to_session c" "rc_tcp_conn_to_session c1 = rc_tcp_conn_to_session c"
      by (simp_all add: c1_def RtcpSenderReport)
    ultimately show ?thesis
      using core_inv_update [OF Cons.prems(1), of c1] map_le_refl by metis
  qed (use Cons.prems(1) in \<open>simp_all add: c1_def rtcp_report_blocks_inv\<close>)
  with Cons.IH [OF _ k] show ?case by simp
qed simp

lemma bye_session_lives:
  assumes inv: "core_inv c" and r: "bye_session source c key = (c', os)"
  shows "lives (session_keys c) os c'"
proof (cases "get_session c key")
  case None
  with close_session_lives(1) [OF inv] r show ?thesis by (simp add: bye_session_def)
next
  case (Some s)
  define c1 where "c1 = put_session c key (s\<lparr>se_rtcp_source_addr := Some source\<rparr>)"
  have "core_inv c1" "session_keys c1 = session_keys c"
    using put_session_inv [OF inv Some] by (simp_all add: c1_def same_id_def)
  with close_session_lives(1) [of c1] r Some show ?thesis by (simp add: bye_session_def c1_def)
qed

lemma process_rtcp_packet_lives:
  assumes inv: "core_inv c" and r: "process_rtcp_packet env c d = (c', os)"
  shows "lives (session_keys c) os c'"
proof (cases "rtcp_compound_parse (dgm_data d)")
  case (Inl e)
  with inv r show ?thesis by (simp add: process_rtcp_packet_def)
next
  case (Inr packets)
  obtain c1 keys where k: "rtcp_packets_core (env_order env) (dgm_source d) c packets = (c1, keys)" by fastforce
  note i = rtcp_packets_core_inv [OF inv k]
  have "each c1 (bye_session (dgm_source d)) keys = (c', os)"
    using r by (simp add: process_rtcp_packet_def Inr k)
  with i lives_each [of keys "bye_session (dgm_source d)" c1] bye_session_lives show ?thesis by metis
qed

section \<open>Ticks\<close>

lemma tick_timeouts_same_id: "tick_timeouts c now_ms s = (s', reason) \<Longrightarrow> same_id s s'"
  by (auto simp: tick_timeouts_def Let_def same_id_def split: if_splits)

lemma build_report_same_id: "build_report s now_ms = (s', packet) \<Longrightarrow> same_id s s'"
  by (auto simp: build_report_def Let_def same_id_def split: if_splits prod.splits)

lemma tick_report_frame:
  assumes "tick_report c now_ms s = (s', os)"
  shows "same_id s s' \<and> list_all (neutral (se_session_key s)) os"
proof -
  have "se_session_key s2 = se_session_key s" "se_ssrc s2 = se_ssrc s" "se_tcp_conn_id s2 = se_tcp_conn_id s"
    if "build_report (s\<lparr>se_last_rtcp_report_ms := t\<rparr>) now_ms = (s2, p)" for t s2 p
    using build_report_same_id [OF that] by (simp_all add: same_id_def)
  then show ?thesis
    using assms
    by (auto simp: tick_report_def Let_def same_id_def split: if_splits option.splits prod.splits sum.splits)
qed

lemma tick_sessions_lives:
  "core_inv c \<Longrightarrow> tick_sessions c now_ms keys = (c', os, gone) \<Longrightarrow> lives (session_keys c) os c'"
proof (induction keys arbitrary: c os gone)
  case (Cons key keys)
  show ?case
  proof (cases "get_session c key")
    case None
    with Cons show ?thesis by simp
  next
    case s: (Some s)
    obtain s1 v where t: "tick_timeouts c now_ms s = (s1, v)" by fastforce
    note id1 = tick_timeouts_same_id [OF t]
    have key: "se_session_key s1 = key"
      using id1 s Cons.prems(1) by (simp add: same_id_def core_inv_def keys_exact_def)
    show ?thesis
    proof (cases v)
      case (Some reason)
      note p = put_session_inv [OF Cons.prems(1) s id1]
      obtain gone' where "tick_sessions (put_session c key s1) now_ms keys = (c', os, gone')"
        using Cons.prems(2) s t Some by (auto split: prod.splits)
      from Cons.IH [OF p(1) this] p(2) show ?thesis by simp
    next
      case None
      obtain s2 sent where rep: "tick_report c now_ms s1 = (s2, sent)" by fastforce
      note f = tick_report_frame [OF rep, unfolded key]
      have id2: "same_id s s2" using same_id_trans [OF id1] f by simp
      note l = lives_put [OF Cons.prems(1) s id2 f [THEN conjunct2]] put_session_inv(1) [OF Cons.prems(1) s id2]
      obtain os2 where "tick_sessions (put_session c key s2) now_ms keys = (c', os2, gone)" "os = sent @ os2"
        using Cons.prems(2) s t None rep by (auto split: prod.splits)
      with Cons.IH [OF l(2)] l(1) show ?thesis by (auto intro: lives_append)
    qed
  qed
qed simp

lemma process_tick_lives:
  assumes inv: "core_inv c" and r: "process_tick env c now_ms = (c', os)"
  shows "lives (session_keys c) os c'"
proof -
  define c0 where "c0 = c\<lparr>rc_now_ms := now_ms\<rparr>"
  have "core_inv c0 = core_inv c" by (rule core_inv_cong) (simp_all add: c0_def)
  with inv have c0: "core_inv c0" "session_keys c0 = session_keys c" by (simp_all add: c0_def session_keys_def)
  obtain c1 os1 gone where t: "tick_sessions c0 now_ms (env_order env) = (c1, os1, gone)" by (metis surj_pair)
  obtain os2 where e: "each c1 (\<lambda>c (key, reason). close_session c key reason) gone = (c', os2)" "os = os1 @ os2"
    using r t by (auto simp: process_tick_def c0_def split: prod.splits)
  note l = tick_sessions_lives [OF c0(1) t]
  have "core_inv c1" using l by (simp add: lives_def)
  have "lives (session_keys c1) os2 c'"
    by (rule lives_each [OF _ \<open>core_inv c1\<close> e(1)]) (auto intro: close_session_lives(1))
  with l show ?thesis unfolding e(2) c0(2) [symmetric] by (rule lives_append)
qed

section \<open>Commands\<close>

text \<open>The source whose automatic session a key is kept for.\<close>

definition reserved_for :: "session_key \<Rightarrow> u32 option" where
  "reserved_for key =
     (case parse_uint 32 (drop 5 key) of
        None \<Rightarrow> None
      | Some n \<Rightarrow> if key = live_key (of_nat n) then Some (of_nat n) else None)"

lemma reserved_for_live [simp]: "reserved_for (live_key n) = Some n"
  using unsigned_less [of n, where ?'a = nat] by (simp add: reserved_for_def live_key_def)

definition may_own :: "session_key \<Rightarrow> u32 \<Rightarrow> bool" where
  "may_own key ssrc \<longleftrightarrow> reserved_for key = None \<or> reserved_for key = Some ssrc"

lemma may_ownD: "may_own key ssrc \<Longrightarrow> key = live_key n \<Longrightarrow> ssrc = n"
  by (auto simp: may_own_def)

text \<open>
  A command creates no conflict: a new session has a source no session has and not the key kept for another
  source, and the source of a session with such a key does not change.
\<close>

definition claims_free :: "('t, 'p) rtp_core \<Rightarrow> session_key \<Rightarrow> u32 \<Rightarrow> bool" where
  "claims_free c key ssrc \<longleftrightarrow>
     get_session c key \<noteq> None \<or> (rc_ssrc_to_session c ssrc = None \<and> may_own key ssrc)"

fun command_free :: "('t, 'p) core_env \<Rightarrow> ('t, 'p) rtp_core \<Rightarrow> rtp_core_command \<Rightarrow> bool" where
  "command_free env c (CreateServer spec) =
     claims_free c (ss_session_key spec) (case ss_ssrc spec of Some ssrc \<Rightarrow> ssrc | None \<Rightarrow> rand_ssrc (env_random env))"
| "command_free env c (CreateClient spec) = claims_free c (cs_session_key spec) (cs_ssrc spec)"
| "command_free env c (UpdateSession key _ (Some ssrc) _ _ _) = may_own key ssrc"
| "command_free env c _ = True"

lemma fresh_session_id [simp]:
  "se_ssrc (fresh_session key ssrc mode tm tf pol src dest conn sq dur off) = ssrc"
  "se_session_key (fresh_session key ssrc mode tm tf pol src dest conn sq dur off) = key"
  "se_tcp_conn_id (fresh_session key ssrc mode tm tf pol src dest conn sq dur off) = conn"
  by (simp_all add: fresh_session_def)

lemma new_session_lives:
  assumes inv: "core_inv c" and none: "get_session c key = None" and free: "claims_free c key ssrc"
    and id: "se_ssrc s = ssrc" "se_session_key s = key"
    and c': "rc_sessions c' = rc_sessions (put_session c key s)"
      "rc_ssrc_to_session c' = (rc_ssrc_to_session c)(ssrc \<mapsto> key)"
      "rc_tcp_conn_to_session c' = (case se_tcp_conn_id s of None \<Rightarrow> rc_tcp_conn_to_session c
         | Some conn \<Rightarrow> (rc_tcp_conn_to_session c)(conn \<mapsto> key))"
  shows "lives (session_keys c) [OutEvent (SessionCreated key ssrc mode tm)] c'"
proof -
  have "rc_ssrc_to_session c (se_ssrc s) = None" "\<And>n. key = live_key n \<Longrightarrow> se_ssrc s = n"
    using free none by (auto simp: claims_free_def id dest: may_ownD)
  from add_session_inv [OF inv none this(1) id(2) this(2) c'(1) _ c'(3)] c'(2) none show ?thesis
    by (auto simp: lives_def id session_keys_def)
qed

lemma create_server_lives:
  assumes inv: "core_inv c" and free: "command_free env c (CreateServer spec)"
    and r: "create_server c (env_random env) spec = (c', os)"
  shows "lives (session_keys c) os c'"
proof (cases "get_session c (ss_session_key spec)")
  case (Some s)
  with r inv show ?thesis by (simp add: create_server_def Let_def)
next
  case None
  define ssrc where "ssrc = (case ss_ssrc spec of Some ssrc \<Rightarrow> ssrc | None \<Rightarrow> rand_ssrc (env_random env))"
  define s where "s = (fresh_session (ss_session_key spec) ssrc (ss_payload_mode spec) (ss_transport_mode spec)
    (ss_track_filter spec) (case ss_source_policy spec of Some p \<Rightarrow> p | None \<Rightarrow> StrictSource)
    None None None 1 (ss_packet_duration_ms spec) (rc_wall_clock_offset_ms c) :: ('a, 'b) rtp_session)"
  note r [unfolded create_server_def Let_def, folded ssrc_def, folded s_def]
  with None have "os = [OutEvent (SessionCreated (ss_session_key spec) ssrc (ss_payload_mode spec) (ss_transport_mode spec))]"
    "rc_sessions c' = rc_sessions (put_session c (ss_session_key spec) s)"
    "rc_ssrc_to_session c' = (rc_ssrc_to_session c)(ssrc \<mapsto> ss_session_key spec)"
    "rc_tcp_conn_to_session c' = rc_tcp_conn_to_session c" by auto
  with new_session_lives [OF inv None, of ssrc s] free show ?thesis by (simp add: s_def ssrc_def)
qed

lemma attach_client_lives:
  assumes inv: "core_inv c" and s: "get_session c (cs_session_key spec) = Some s" and r: "attach_client c spec s = (c', os)"
  shows "lives (session_keys c) os c'"
proof -
  define key where "key = cs_session_key spec"
  define c1 where "c1 = (case cs_tcp_conn_id spec of None \<Rightarrow> c | Some conn \<Rightarrow>
      let c = (case se_tcp_conn_id s of None \<Rightarrow> c
         | Some old \<Rightarrow> c\<lparr>rc_tcp_conn_to_session := (rc_tcp_conn_to_session c)(old := None)\<rparr>)
      in c\<lparr>rc_tcp_conn_to_session := (rc_tcp_conn_to_session c)(conn \<mapsto> key)\<rparr>)"
  define conn' where "conn' = (case cs_tcp_conn_id spec of None \<Rightarrow> se_tcp_conn_id s | Some conn \<Rightarrow> Some conn)"
  obtain t where t: "c' = put_session c1 key t" "se_ssrc t = se_ssrc s" "se_session_key t = se_session_key s"
    "se_tcp_conn_id t = conn'" "list_all (neutral key) os"
    using r by (auto simp: attach_client_def Let_def key_def [symmetric] c1_def conn'_def same_id_def
        split: option.splits if_splits prod.splits dest!: announce_transition_frame)

  have c1: "get_session c1 = get_session c" "rc_ssrc_to_session c1 = rc_ssrc_to_session c" "rc_sessions c1 = rc_sessions c"
    by (auto simp: c1_def Let_def split: option.splits)
  define M where "M = get_session c"
  note i = inv[unfolded core_inv_def conns_exact_def keys_exact_def, folded M_def]
  have M: "M key = Some s" using s by (simp add: M_def key_def)
  have g: "get_session c' = M(key \<mapsto> t)" by (simp add: t(1) c1(1) M_def)
  have "routes_exact c' = routes_exact c"
    by (rule routes_exact_cong) (use M t(2) in \<open>auto simp: t(1) c1 M_def\<close>)
  moreover have "\<exists>u. (M(key \<mapsto> t)) k = Some u \<and> se_tcp_conn_id u = Some x"
    if "rc_tcp_conn_to_session c' x = Some k" for x k
  proof (cases "k = key")
    case True
    have "rc_tcp_conn_to_session c x = Some key \<longrightarrow> se_tcp_conn_id s = Some x" using i M by fastforce
    with that True have "conn' = Some x"
      by (auto simp: t(1) c1_def conn'_def Let_def split: option.splits if_splits)
    with True t(4) show ?thesis by simp
  next
    case False
    with that have "rc_tcp_conn_to_session c x = Some k"
      by (auto simp: t(1) c1_def Let_def split: option.splits if_splits)
    with i False show ?thesis by auto
  qed
  then have "conns_exact c'" unfolding conns_exact_def g by blast
  moreover have "keys_exact c'"
    unfolding keys_exact_def g using i M t(2,3) put_session_distinct [of c1 key t] by (auto simp: t(1) c1)
  ultimately have "core_inv c'" using inv by (simp add: core_inv_def)
  moreover have "session_keys c' = session_keys c" "key \<in> session_keys c"
    using M by (auto simp: session_keys_def g) (simp_all add: M_def)
  ultimately show ?thesis using lifecycle_neutral [OF t(5)] by (simp add: lives_def)
qed

lemma create_client_lives:
  assumes inv: "core_inv c" and free: "command_free env c (CreateClient spec)"
    and r: "create_client c spec = (c', os)"
  shows "lives (session_keys c) os c'"
proof (cases "get_session c (cs_session_key spec)")
  case (Some s)
  with r attach_client_lives [OF inv Some] show ?thesis by (simp add: create_client_def Let_def)
next
  case None
  define s where "s = (fresh_session (cs_session_key spec) (cs_ssrc spec) (cs_payload_mode spec) (cs_transport_mode spec)
    (cs_track_filter spec) (case cs_source_policy spec of Some p \<Rightarrow> p | None \<Rightarrow> StrictSource)
    None (Some (cs_destination spec)) (cs_tcp_conn_id spec) 1 (cs_packet_duration_ms spec)
    (rc_wall_clock_offset_ms c) :: ('a, 'b) rtp_session)"
  note r [unfolded create_client_def Let_def, folded s_def]
  with None have c': "os = [OutEvent (SessionCreated (cs_session_key spec) (cs_ssrc spec) (cs_payload_mode spec) (cs_transport_mode spec))]"
    "rc_sessions c' = rc_sessions (put_session c (cs_session_key spec) s)"
    "rc_ssrc_to_session c' = (rc_ssrc_to_session c)(cs_ssrc spec \<mapsto> cs_session_key spec)"
    "rc_tcp_conn_to_session c' = (case cs_tcp_conn_id spec of None \<Rightarrow> rc_tcp_conn_to_session c
       | Some conn \<Rightarrow> (rc_tcp_conn_to_session c)(conn \<mapsto> cs_session_key spec))"
    by (auto split: option.splits)
  have f: "se_ssrc s = cs_ssrc spec" "se_session_key s = cs_session_key spec" "se_tcp_conn_id s = cs_tcp_conn_id spec"
    by (simp_all add: s_def)
  show ?thesis
    unfolding c'(1)
    by (rule new_session_lives [OF inv None _ f(1,2) c'(2,3)]) (use free in \<open>simp_all add: f(3) c'(4)\<close>)
qed

lemma send_frame_lives:
  assumes inv: "core_inv c" and r: "send_frame c key f = (c', os)"
  shows "lives (session_keys c) os c'"
proof (cases "get_session c key")
  case None
  with r inv show ?thesis by (simp add: send_frame_def)
next
  case s: (Some s)
  then have key: "se_session_key s = key" using inv by (simp add: core_inv_def keys_exact_def)
  have n: "list_all (neutral key) (concat (map (send_packet_output s) ps))" for ps
    using key by (induction ps) (auto simp: send_packet_output_def split: option.split)
  show ?thesis
  proof (cases "c' = c \<and> os = []")
    case True
    with inv show ?thesis by simp
  next
    case False
    define s0 where "s0 = record_sent s f (packetize_frame s f)"
    obtain s' changed where e: "egress_state key s0 = (s', changed)" by fastforce
    have "c' = put_session c key s'" "os = concat (map (send_packet_output s) (packetize_frame s f)) @ changed"
      using r s False e by (auto simp: send_frame_def Let_def s0_def split: if_splits)
    moreover have "same_id s s0" by (simp add: s0_def record_sent_def same_id_def)
    moreover have "same_id s0 s' \<and> list_all (neutral key) changed"
      using e by (auto simp: egress_state_def split: option.splits dest!: announce_transition_frame)
    ultimately show ?thesis using lives_put [OF inv s] same_id_trans n by fastforce
  qed
qed

text \<open>Updates.\<close>

lemma update_payload_type_same_id: "update_payload_type s pt = (s', b) \<Longrightarrow> same_id s s'"
  by (auto simp: update_payload_type_def Let_def same_id_def split: option.splits if_splits)

lemma update_pause_same_id: "update_pause c s p = (s', b) \<Longrightarrow> same_id s s'"
  by (auto simp: update_pause_def Let_def same_id_def split: option.splits if_splits)

lemma update_policy_same_id: "update_policy s p = (s', b) \<Longrightarrow> same_id s s'"
  by (auto simp: update_policy_def same_id_def split: option.splits if_splits)

lemma handle_update_session_lives:
  assumes inv: "core_inv c" and free: "command_free env c (UpdateSession key g ssrc pt pause policy)"
    and r: "handle_update_session c key g ssrc pt pause policy = (c', os)"
  shows "lives (session_keys c) os c'"
proof (cases "\<exists>reason. c' = c \<and> os = [OutEvent (SessionUpdateFailed key reason)]")
  case True
  with inv show ?thesis by (auto simp: lives_def)
next
  case False
  obtain s where s: "get_session c key = Some s"
    using r False by (auto simp: handle_update_session_def Let_def split: option.splits)
  obtain c1 s1 rs where u: "update_ssrc c key s ssrc = Inr (c1, s1, rs)"
    using r False s by (auto simp: handle_update_session_def Let_def split: if_splits sum.splits)
  obtain s2 b2 where u2: "update_payload_type s1 pt = (s2, b2)" by fastforce
  obtain s3 b3 where u3: "update_pause c1 s2 pause = (s3, b3)" by fastforce
  obtain s4 b4 where u4: "update_policy s3 policy = (s4, b4)" by fastforce
  obtain t where t: "c' = put_session c1 key t" "same_id s4 t" "list_all (neutral key) os"
    using r False s u u2 u3 u4
    by (auto simp: handle_update_session_def Let_def same_id_def split: if_splits)
  have id: "same_id s1 t"
    using update_payload_type_same_id [OF u2] update_pause_same_id [OF u3] update_policy_same_id [OF u4] t(2)
    by (simp add: same_id_def)
  show ?thesis
  proof (cases "c1 = c \<and> s1 = s")
    case True
    with lives_put [OF inv s _ t(3)] id t(1) show ?thesis by simp
  next
    case changed: False
    then obtain n where n: "ssrc = Some n" "n \<noteq> se_ssrc s" "rc_ssrc_to_session c n = None \<or> rc_ssrc_to_session c n = Some key"
      "c1 = c\<lparr>rc_ssrc_to_session := (rc_ssrc_to_session c)(se_ssrc s := None, n \<mapsto> key)\<rparr>" "se_ssrc s1 = n"
      "se_session_key s1 = se_session_key s" "se_tcp_conn_id s1 = se_tcp_conn_id s"
      using u by (auto simp: update_ssrc_def split: option.splits if_splits)
    define M where "M = get_session c"
    note i = inv[unfolded core_inv_def conns_exact_def keys_exact_def, folded M_def]
    have M: "M key = Some s" using s by (simp add: M_def)
    have g: "get_session c' = M(key \<mapsto> t)" by (simp add: t(1) n(4) M_def)
    have r: "rc_ssrc_to_session c x = Some k \<longleftrightarrow> (\<exists>u. M k = Some u \<and> se_ssrc u = x)" for x k
      using inv by (simp add: core_inv_def routes_exact_def M_def)
    have t': "se_ssrc t = n" "se_session_key t = se_session_key s" "se_tcp_conn_id t = se_tcp_conn_id s"
      using id n by (simp_all add: same_id_def)
    have old: "rc_ssrc_to_session c (se_ssrc s) = Some key" using r M by blast
    have new: "rc_ssrc_to_session c n = None" using r [of n key] n(2,3) M by auto
    have "rc_ssrc_to_session c' x = Some k \<longleftrightarrow> (\<exists>u. (M(key \<mapsto> t)) k = Some u \<and> se_ssrc u = x)" for x k
      using r [of x k] old new M n(2) by (auto simp: t(1) n(4) t')
    then have "routes_exact c'" unfolding routes_exact_def g by blast
    moreover have "\<exists>u. (M(key \<mapsto> t)) k = Some u \<and> se_tcp_conn_id u = Some x"
      if "rc_tcp_conn_to_session c' x = Some k" for x k
    proof -
      from that have "rc_tcp_conn_to_session c x = Some k" by (simp add: t(1) n(4))
      with i obtain u where "M k = Some u" "se_tcp_conn_id u = Some x" by blast
      with M t' show ?thesis by (cases "k = key") auto
    qed
    then have "conns_exact c'" unfolding conns_exact_def g by blast
    moreover have "may_own key n" using free by (simp add: n(1))
    then have own: "n = m" if "live_key m = key" for m using that by (blast intro: may_ownD)
    have d: "distinct (map fst (rc_sessions c'))" using put_session_distinct [of c1 key t] i by (simp add: t(1) n(4))
    have "keys_exact c'"
      by (rule keys_exact_put [OF _ g [unfolded M_def] d])
        (use inv own t' in \<open>auto simp: core_inv_def keys_exact_def s\<close>)
    ultimately have "core_inv c'" by (simp add: core_inv_def)
    moreover have "session_keys c' = session_keys c" "key \<in> session_keys c"
      using M by (auto simp: session_keys_def g) (simp_all add: M_def)
    ultimately show ?thesis using lifecycle_neutral [OF t(3)] by (simp add: lives_def)
  qed
qed

lemma process_command_lives:
  assumes inv: "core_inv c" and free: "command_free env c cmd" and r: "process_command env c cmd = (c', os)"
  shows "lives (session_keys c) os c'"
proof (cases cmd)
  case (CreateServer spec)
  with create_server_lives [OF inv] free r show ?thesis by (simp add: process_command_def)
next
  case (CreateClient spec)
  with create_client_lives [OF inv] free r show ?thesis by (simp add: process_command_def)
next
  case (SendFrame key f)
  with send_frame_lives [OF inv] r show ?thesis by (simp add: process_command_def)
next
  case (StopSession key)
  with close_session_lives(1) [OF inv] r show ?thesis by (simp add: process_command_def)
next
  case (UpdateSession key g ssrc pt pause policy)
  with handle_update_session_lives [OF inv] free r show ?thesis by (simp add: process_command_def)
next
  case (PauseCheck key paused)
  then have c': "c' = pause_check_session c key paused" "os = []" using r by (simp_all add: process_command_def)
  show ?thesis
  proof (cases "get_session c key")
    case None
    with inv show ?thesis by (simp add: c' pause_check_session_def)
  next
    case (Some s)
    have "same_id s (if paused then s\<lparr>se_check_paused := paused\<rparr> else s\<lparr>se_check_paused := paused,
        se_last_activity_ms := rc_now_ms c, se_last_rr_received_ms := rc_now_ms c\<rparr>)" by (simp add: same_id_def)
    from lives_put [OF inv Some this, of "[]"] show ?thesis by (simp add: c' pause_check_session_def Some Let_def)
  qed
next
  case (ReportSendFailure key reason)
  obtain c1 os1 where cl: "close_session c key CloseConnectionClosed = (c1, os1)" by fastforce
  with close_session_lives(1) [OF inv cl] r show ?thesis
    by (auto simp: process_command_def ReportSendFailure lives_def)
qed

section \<open>Every input\<close>

definition input_free :: "('t, 'p) core_env \<Rightarrow> ('t, 'p) rtp_core \<Rightarrow> rtp_core_input \<Rightarrow> bool" where
  "input_free env c input =
     (case input of
        TcpBytes chunk \<Rightarrow>
          if rc_ehome_decoders c (tc_conn_id chunk) \<noteq> None \<or> ehome_marker (tc_data chunk)
          then
            (case ehome_decode (case rc_ehome_decoders c (tc_conn_id chunk) of Some d \<Rightarrow> d | None \<Rightarrow> ehome_new) (tc_data chunk) of
               None \<Rightarrow> True
             | Some (d, rest, outs) \<Rightarrow>
                 ehome_free (env_demux env) (c\<lparr>rc_ehome_decoders := (rc_ehome_decoders c)(tc_conn_id chunk \<mapsto> d)\<rparr>)
                   (tc_conn_id chunk) outs)
          else True
      | Command cmd \<Rightarrow> command_free env c cmd
      | _ \<Rightarrow> True)"

lemma process_tcp_bytes_lives:
  assumes inv: "core_inv c" and free: "input_free env c (TcpBytes chunk)"
    and r: "process_tcp_bytes (env_demux env) c chunk = Some (c', os)"
  shows "lives (session_keys c) os c'"
proof (cases "rc_ehome_decoders c (tc_conn_id chunk) \<noteq> None \<or> ehome_marker (tc_data chunk)")
  case False
  with r process_rtp_bytes_lives [OF inv] show ?thesis by (simp add: process_tcp_bytes_def)
next
  case True
  define d0 where "d0 = (case rc_ehome_decoders c (tc_conn_id chunk) of Some d \<Rightarrow> d | None \<Rightarrow> ehome_new)"
  obtain d rest outs where e: "ehome_decode d0 (tc_data chunk) = Some (d, rest, outs)"
    using r True by (auto simp: process_tcp_bytes_def process_ehome_bytes_def Let_def d0_def split: option.splits)
  define c0 where "c0 = c\<lparr>rc_ehome_decoders := (rc_ehome_decoders c)(tc_conn_id chunk \<mapsto> d)\<rparr>"
  have "core_inv c0 = core_inv c" by (rule core_inv_cong) (simp_all add: c0_def)
  moreover have "session_keys c0 = session_keys c" by (simp add: c0_def session_keys_def)
  moreover have "each c0 (ehome_apply (env_demux env) (tc_conn_id chunk)) outs = (c', os)"
    using r True e by (simp add: process_tcp_bytes_def process_ehome_bytes_def Let_def d0_def [symmetric] c0_def)
  moreover have "ehome_free (env_demux env) c0 (tc_conn_id chunk) outs"
    using free True e by (simp add: input_free_def d0_def [symmetric] c0_def)
  ultimately show ?thesis using ehome_steps_live [of c0] inv by simp
qed

lemma rtp_handle_input_lives:
  assumes inv: "core_inv c" and free: "input_free env c input" and r: "rtp_handle_input env c input = Some (c', os)"
  shows "lives (session_keys c) os c'"
  using assms process_udp_packet_lives [OF inv] process_tcp_bytes_lives [OF inv] process_tcp_connection_closed_lives [OF inv]
    process_rtcp_packet_lives [OF inv] process_tick_lives [OF inv] process_command_lives [OF inv]
  by (cases input) (simp_all add: rtp_handle_input_def input_free_def)

end
