(* ===== verification/Rtp_Session_Properties.thy ===== *)
theory Rtp_Session_Properties
  imports Rtp_Session_Steps
begin

text \<open>
  What the RTP core promises over a run of inputs: exact routing tables and sessions that are created and
  closed in turn; what a tick closes and what an update changes; and the two ways the tables go wrong when a
  command claims a source or a key that is taken.
\<close>

section \<open>Runs\<close>

fun rtp_run ::
  "('t, 'p) rtp_core \<Rightarrow> (('t, 'p) core_env \<times> rtp_core_input) list \<Rightarrow> ('t, 'p) rtp_result option" where
  "rtp_run c [] = Some (c, [])"
| "rtp_run c ((env, input) # rest) =
     (case rtp_handle_input env c input of
        None \<Rightarrow> None
      | Some (c, outs) \<Rightarrow> (case rtp_run c rest of None \<Rightarrow> None | Some (c, outs') \<Rightarrow> Some (c, outs @ outs')))"

text \<open>No input of the run claims a source or a key that is taken.\<close>

fun run_free :: "('t, 'p) rtp_core \<Rightarrow> (('t, 'p) core_env \<times> rtp_core_input) list \<Rightarrow> bool" where
  "run_free c [] \<longleftrightarrow> True"
| "run_free c ((env, input) # rest) \<longleftrightarrow>
     input_free env c input
     \<and> (case rtp_handle_input env c input of None \<Rightarrow> True | Some (c, outs) \<Rightarrow> run_free c rest)"

lemma rtp_run_lives:
  "core_inv c \<Longrightarrow> run_free c steps \<Longrightarrow> rtp_run c steps = Some (c', os) \<Longrightarrow> lives (session_keys c) os c'"
proof (induction steps arbitrary: c os)
  case (Cons step steps)
  obtain env input where step: "step = (env, input)" by fastforce
  obtain c1 os1 where h: "rtp_handle_input env c input = Some (c1, os1)"
    using Cons.prems(3) by (auto simp: step split: option.splits)
  obtain os2 where r: "rtp_run c1 steps = Some (c', os2)" "os = os1 @ os2"
    using Cons.prems(3) h by (auto simp: step split: option.splits)
  have l: "lives (session_keys c) os1 c1"
    using rtp_handle_input_lives [OF Cons.prems(1) _ h] Cons.prems(2) by (simp add: step)
  then have "core_inv c1" by (simp add: lives_def)
  from Cons.IH [OF this _ r(1)] Cons.prems(2) h have "lives (session_keys c1) os2 c'" by (simp add: step)
  with l show ?case by (simp add: r(2) lives_append)
qed simp

lemma core_inv_new [simp]: "core_inv (rtp_core_new m t)"
  by (simp add: core_inv_def routes_exact_def conns_exact_def keys_exact_def rtp_core_new_def)

lemma session_keys_new [simp]: "session_keys (rtp_core_new m t) = {}"
  by (simp add: session_keys_def rtp_core_new_def)

text \<open>
  C2: After any run in which no input claims a source or a key that is taken, the core routes a packet by its
  SSRC to the one session that has it and a connection to a session on it; an SSRC that is not routed belongs to no session.
\<close>

theorem rtp_routes_exact:
  assumes "rtp_run (rtp_core_new m t) steps = Some (c, os)" and "run_free (rtp_core_new m t) steps"
  shows "(rc_ssrc_to_session c ssrc = Some key \<longleftrightarrow> (\<exists>s. get_session c key = Some s \<and> se_ssrc s = ssrc))
    \<and> (rc_tcp_conn_to_session c conn = Some key' \<longrightarrow> (\<exists>s. get_session c key' = Some s \<and> se_tcp_conn_id s = Some conn))"
  using rtp_run_lives [OF core_inv_new assms(2,1)]
  by (simp add: lives_def core_inv_def routes_exact_def conns_exact_def)

text \<open>A run of commands, for the witnesses.\<close>

definition server_on :: "session_key \<Rightarrow> u32 \<Rightarrow> rtp_core_input" where
  "server_on key ssrc = Command (CreateServer \<lparr>ss_session_key = key, ss_ssrc = Some ssrc, ss_payload_mode = Ps,
     ss_transport_mode = RecvOnly, ss_packet_duration_ms = None, ss_connection_type = None, ss_source_policy = None,
     ss_track_filter = AllTracks\<rparr>)"

definition client_on :: "session_key \<Rightarrow> u32 \<Rightarrow> nat option \<Rightarrow> rtp_core_input" where
  "client_on key ssrc conn = Command (CreateClient \<lparr>cs_session_key = key, cs_destination = SocketV4 1 2, cs_ssrc = ssrc,
     cs_payload_mode = Ps, cs_transport_mode = SendRecv, cs_packet_duration_ms = None, cs_tcp_conn_id = conn,
     cs_connection_type = None, cs_source_policy = None, cs_track_filter = AllTracks\<rparr>)"

definition idle_env :: "(unit, unit) core_env" where
  "idle_env = \<lparr>env_random = 1, env_order = [''a''], env_demux = \<lparr>dx_ts_new = (), dx_ts_push = (\<lambda>_ _. ((), [])),
     dx_ps_new = (), dx_ps_push = (\<lambda>_ _. ((), []))\<rparr>\<rparr>"

definition command_run :: "((unit, unit) core_env \<times> rtp_core_input) list" where
  "command_run = map (Pair idle_env)
     [server_on ''a'' 9, client_on ''b'' 10 (Some 3), Command (UpdateSession ''a'' 1 (Some 11) None None None),
      Command (StopSession ''b'')]"

lemma new_core_empty [simp]:
  "rc_sessions (rtp_core_new m t) = []" "rc_ssrc_to_session (rtp_core_new m t) = Map.empty"
  "rc_tcp_conn_to_session (rtp_core_new m t) = Map.empty"
  by (simp_all add: rtp_core_new_def)

lemma fresh_session_update [simp]:
  "se_generation (fresh_session key ssrc mode tm tf pol src dest conn sq dur off) = 1"
  "se_payload_type (fresh_session key ssrc mode tm tf pol src dest conn sq dur off) = None"
  by (simp_all add: fresh_session_def)

lemma command_run_outcome:
  "case rtp_run (rtp_core_new 8 1000) command_run of
     None \<Rightarrow> False
   | Some (c, os) \<Rightarrow>
       map_option se_ssrc (get_session c ''a'') = Some 11 \<and> get_session c ''b'' = None
       \<and> os = [OutEvent (SessionCreated ''a'' 9 Ps RecvOnly), OutEvent (SessionCreated ''b'' 10 Ps SendRecv),
             OutEvent (SessionUpdated ''a'' 2 (Some 11) None None None), CloseSession ''b'',
             OutEvent (SessionClosed ''b'' CloseStopped)]"
    (is ?thesis1)
  and command_run_free: "run_free (rtp_core_new 8 1000) command_run" (is ?thesis2)
proof -
  note steps = server_on_def client_on_def rtp_handle_input_def process_command_def input_free_def claims_free_def
    may_own_def reserved_for_def parse_uint_def
  define c0 where "c0 = (rtp_core_new 8 1000 :: (unit, unit) rtp_core)"
  have c0: "get_session c0 = Map.empty" "rc_ssrc_to_session c0 = Map.empty" "rc_tcp_conn_to_session c0 = Map.empty"
    by (simp_all add: c0_def)
  define c1 where "c1 = fst (the (rtp_handle_input idle_env c0 (server_on ''a'' 9)))"
  define s1 where "s1 = the (get_session c1 ''a'')"
  have 1: "rtp_handle_input idle_env c0 (server_on ''a'' 9) = Some (c1, [OutEvent (SessionCreated ''a'' 9 Ps RecvOnly)])"
    "get_session c1 = [''a'' \<mapsto> s1]" "rc_ssrc_to_session c1 = [9 \<mapsto> ''a'']" "se_ssrc s1 = 9" "se_generation s1 = 1"
    using c0 by (simp_all add: s1_def c1_def steps create_server_def Let_def)
  define c2 where "c2 = fst (the (rtp_handle_input idle_env c1 (client_on ''b'' 10 (Some 3))))"
  define s2 where "s2 = the (get_session c2 ''b'')"
  have 2: "rtp_handle_input idle_env c1 (client_on ''b'' 10 (Some 3)) = Some (c2, [OutEvent (SessionCreated ''b'' 10 Ps SendRecv)])"
    "get_session c2 = [''a'' \<mapsto> s1, ''b'' \<mapsto> s2]" "rc_ssrc_to_session c2 = [9 \<mapsto> ''a'', 10 \<mapsto> ''b'']" "se_ssrc s2 = 10"
    using 1(2,3) by (simp_all add: s2_def c2_def steps create_client_def Let_def)
  define update where "update = (UpdateSession ''a'' 1 (Some 11) None None None)"
  define c3 where "c3 = fst (the (rtp_handle_input idle_env c2 (Command update)))"
  define s3 where "s3 = the (get_session c3 ''a'')"
  have 3: "rtp_handle_input idle_env c2 (Command update) = Some (c3, [OutEvent (SessionUpdated ''a'' 2 (Some 11) None None None)])"
    "get_session c3 = [''a'' \<mapsto> s3, ''b'' \<mapsto> s2]" "se_ssrc s3 = 11"
    using 1(4,5) 2(2,3)
    by (simp_all add: s3_def c3_def update_def steps handle_update_session_def update_ssrc_def update_payload_type_def
        update_pause_def update_policy_def Let_def fun_upd_twist)
  define c4 where "c4 = fst (close_session c3 ''b'' CloseStopped)"
  have 4: "rtp_handle_input idle_env c3 (Command (StopSession ''b'')) =
      Some (c4, [CloseSession ''b'', OutEvent (SessionClosed ''b'' CloseStopped)])" "get_session c4 = [''a'' \<mapsto> s3]"
    using 3(2) by (auto simp: c4_def steps close_session_def delete_conv' Let_def split: option.splits)
  show ?thesis1 using 1(1) 2(1) 3(1) 4 3(3) by (simp add: command_run_def c0_def update_def)
  have "input_free idle_env c0 (server_on ''a'' 9)" "input_free idle_env c1 (client_on ''b'' 10 (Some 3))"
    "input_free idle_env c2 (Command update)" "input_free idle_env c3 (Command (StopSession ''b''))"
    using c0 1(2,3) by (simp_all add: steps update_def)
  then show ?thesis2
    using 1(1) 2(1) 3(1) 4(1) unfolding command_run_def c0_def [symmetric] update_def by simp
qed

theorem rtp_routes_exact_witness:
  "case rtp_run (rtp_core_new 8 1000) command_run of
     None \<Rightarrow> False
   | Some (c, os) \<Rightarrow>
       rc_ssrc_to_session c 11 = Some ''a'' \<and> rc_ssrc_to_session c 9 \<noteq> Some ''a'' \<and> rc_tcp_conn_to_session c 3 \<noteq> Some ''b''"
proof -
  obtain c os where r: "rtp_run (rtp_core_new 8 1000) command_run = Some (c, os)"
    and a: "map_option se_ssrc (get_session c ''a'') = Some 11" "get_session c ''b'' = None"
    using command_run_outcome by (auto split: option.splits)
  note x = rtp_routes_exact [OF r command_run_free]
  have "rc_ssrc_to_session c 11 = Some ''a''" using x [of 11 "''a''" 3 "''b''"] a(1) by auto
  moreover have "rc_ssrc_to_session c 9 \<noteq> Some ''a''" using x [of 9 "''a''" 3 "''b''"] a(1) by auto
  moreover have "rc_tcp_conn_to_session c 3 \<noteq> Some ''b''" using x [of 9 "''a''" 3 "''b''"] a(2) by auto
  ultimately show ?thesis by (simp add: r)
qed

text \<open>
  C13: After such a run, in which no input claims a key, a source or a connection that is taken, the outputs are a
  history of the sessions: each is created while it is not open and closed while it is open; the packets, the close
  orders and the events that say what happens in a session (updated, format, source, state, track, frame) name
  one that is open then; those left open are the sessions of the core. Exempt are the two reports of a request that
  came to nothing, SessionUpdateFailed and the diagnostic of a failed send: they repeat the key of the request,
  which may be of no session.
\<close>

theorem rtp_sessions_follow_lifecycle:
  assumes "rtp_run (rtp_core_new m t) steps = Some (c, os)" and "run_free (rtp_core_new m t) steps"
  shows "lifecycle {} os = Some (dom (get_session c))"
  using rtp_run_lives [OF core_inv_new assms(2,1)] unfolding lives_def session_keys_new by (simp add: session_keys_def)

theorem rtp_sessions_follow_lifecycle_witness:
  "case rtp_run (rtp_core_new 8 1000) command_run of
     None \<Rightarrow> False
   | Some (c, os) \<Rightarrow> length os = 5 \<and> lifecycle {} os = Some {''a''} \<and> dom (get_session c) = {''a''}"
proof -
  obtain c os where r: "rtp_run (rtp_core_new 8 1000) command_run = Some (c, os)" and "length os = 5"
    and os: "lifecycle {} os = Some {''a''}"
    using command_run_outcome by (auto split: option.splits)
  with rtp_sessions_follow_lifecycle [OF r command_run_free] show ?thesis by simp
qed

section \<open>Claims on what is taken\<close>

text \<open>
  A session may be created under the key \<^verbatim>\<open>live/<n>\<close> for another SSRC, or keep it while its SSRC is changed. The
  first packet of SSRC \<open>n\<close> then replaces it: nothing closes it, and its SSRC leads to the session of another.
\<close>

lemma auto_create_replaces_session:
  assumes "get_session c (live_key n) = Some s" and "se_ssrc s \<noteq> n" and "rc_ssrc_to_session c (se_ssrc s) = Some (live_key n)"
    and "rh_ssrc (rp_header rtp) = n"
  shows "map_option se_ssrc (get_session (auto_create_session c rtp src conn) (live_key n)) = Some n"
    "rc_ssrc_to_session (auto_create_session c rtp src conn) (se_ssrc s) = Some (live_key n)"
    "\<not> routes_exact (auto_create_session c rtp src conn)"
proof -
  define c1 where "c1 = auto_create_session c rtp src conn"
  define t where "t = (fresh_session (live_key n) n (probe_rtp_payload (rp_payload rtp)) RecvOnly AllTracks
    AllowValidatedRebind src None conn 0 None (rc_wall_clock_offset_ms c) :: ('a, 'b) rtp_session)"
  have "get_session c1 = (get_session c)(live_key n \<mapsto> t)"
    using put_session_simps(1) [of c "live_key n" t]
    by (simp add: c1_def auto_create_session_def Let_def assms(4) t_def split: option.split)
  then show 1: "map_option se_ssrc (get_session (auto_create_session c rtp src conn) (live_key n)) = Some n"
    by (simp add: c1_def t_def)
  have "rc_ssrc_to_session c1 = (rc_ssrc_to_session c)(n \<mapsto> live_key n)"
    by (simp add: c1_def auto_create_session_def Let_def assms(4) split: option.split)
  then show 2: "rc_ssrc_to_session (auto_create_session c rtp src conn) (se_ssrc s) = Some (live_key n)"
    using assms(3) by (simp add: c1_def)
  show "\<not> routes_exact (auto_create_session c rtp src conn)"
  proof
    assume "routes_exact (auto_create_session c rtp src conn)"
    with 2 have "map_option se_ssrc (get_session (auto_create_session c rtp src conn) (live_key n)) = Some (se_ssrc s)"
      unfolding routes_exact_iff by blast
    with 1 assms(2) show False by simp
  qed
qed

text \<open>A server command may claim the SSRC of a session; when its session is stopped, the other has no route.\<close>

lemma server_takes_route:
  assumes "get_session c key = Some s" and "key' \<noteq> key" and "get_session c key' = None"
    and "ss_session_key spec = key'" and "ss_ssrc spec = Some (se_ssrc s)"
    and "create_server c random spec = (c1, os1)" and "close_session c1 key' reason = (c2, os2)"
  shows "get_session c2 key = Some s" "rc_ssrc_to_session c2 (se_ssrc s) = None"
  using assms by (auto simp: create_server_def close_session_def Let_def put_session_def update_conv' delete_conv' fresh_session_def)

section \<open>Ticks\<close>

definition session_expired :: "('t, 'p) rtp_core \<Rightarrow> nat \<Rightarrow> ('t, 'p) rtp_session \<Rightarrow> bool" where
  "session_expired c now_ms s \<longleftrightarrow>
     \<not> se_check_paused s
     \<and> (idle_expired c now_ms s
        \<or> (se_transport_mode s \<noteq> RecvOnly \<and> se_last_rr_received_ms s \<noteq> 0
           \<and> now_ms - se_last_rr_received_ms s > rc_session_idle_timeout_ms c))"

lemma tick_timeouts_expired:
  "tick_timeouts c now_ms s = (s', reason) \<Longrightarrow> reason \<noteq> None \<longleftrightarrow> session_expired c now_ms s"
  by (cases "se_transport_mode s") (auto simp: tick_timeouts_def session_expired_def Let_def split: if_splits)

lemma session_expired_put [simp]: "session_expired (put_session c key s) = session_expired c"
  by (intro ext) (simp add: session_expired_def idle_expired_def put_session_def)

lemma tick_sessions_gone:
  "distinct keys \<Longrightarrow> tick_sessions c now_ms keys = (c', os, gone) \<Longrightarrow>
    fst ` set gone = {key \<in> set keys. \<exists>s. get_session c key = Some s \<and> session_expired c now_ms s}
    \<and> session_keys c' = session_keys c"
proof (induction keys arbitrary: c os gone)
  case (Cons key keys)
  show ?case
  proof (cases "get_session c key")
    case None
    with Cons show ?thesis by auto
  next
    case (Some s)
    obtain s1 v where t: "tick_timeouts c now_ms s = (s1, v)" by fastforce
    obtain s2 gone' os' where
      rest: "tick_sessions (put_session c key s2) now_ms keys = (c', os', gone')"
        "fst ` set gone = (if v = None then {} else {key}) \<union> fst ` set gone'"
      using Cons.prems(2) Some t by (cases v) (auto split: prod.splits)
    have "get_session (put_session c key s2) k = get_session c k" if "k \<in> set keys" for k
      using that Cons.prems(1) by auto
    with Cons.IH [OF _ rest(1)] Cons.prems(1) rest(2) Some tick_timeouts_expired [OF t]
    show ?thesis by (auto simp: session_keys_def)
  qed
qed simp

lemma close_session_keys: "session_keys (fst (close_session c key reason)) = session_keys c - {key}"
  by (cases "get_session c key") (auto simp: close_session_def session_keys_def delete_conv' Let_def split: option.split)

lemma close_each_keys:
  "each c (\<lambda>c (key, reason). close_session c key reason) gone = (c', os) \<Longrightarrow> session_keys c' = session_keys c - fst ` set gone"
proof (induction gone arbitrary: c os)
  case (Cons g gone)
  obtain key reason where g: "g = (key, reason)" by fastforce
  obtain c1 os1 where "close_session c key reason = (c1, os1)" by fastforce
  with Cons close_session_keys [of c key reason] show ?case by (auto simp: g split: prod.splits)
qed simp

text \<open>
  C24: A tick closes exactly the expired sessions.
\<close>

theorem tick_closes_expired:
  assumes "process_tick env c now_ms = (c', os)" and "distinct (env_order env)" and "set (env_order env) = dom (get_session c)"
  shows "dom (get_session c') = {key. \<exists>s. get_session c key = Some s \<and> \<not> session_expired c now_ms s}"
proof -
  obtain c1 os1 gone where t: "tick_sessions (c\<lparr>rc_now_ms := now_ms\<rparr>) now_ms (env_order env) = (c1, os1, gone)"
    by (metis surj_pair)
  obtain os2 where "each c1 (\<lambda>c (key, reason). close_session c key reason) gone = (c', os2)"
    using assms(1) t by (auto simp: process_tick_def split: prod.splits)
  note k = close_each_keys [OF this] tick_sessions_gone [OF assms(2) t]
  have "session_expired (c\<lparr>rc_now_ms := now_ms\<rparr>) = session_expired c"
    by (intro ext) (simp add: session_expired_def idle_expired_def)
  with k assms(3) show ?thesis unfolding session_keys_def by auto
qed

definition seen_session :: "session_key \<Rightarrow> u32 \<Rightarrow> nat \<Rightarrow> (unit, unit) rtp_session" where
  "seen_session key ssrc seen_at =
     fresh_session key ssrc Ps RecvOnly AllTracks StrictSource None None None 0 None 0\<lparr>se_last_activity_ms := seen_at\<rparr>"

theorem tick_closes_expired_witness:
  "let c = rtp_core_new 8 1000\<lparr>rc_sessions := [(''a'', seen_session ''a'' 9 20), (''b'', seen_session ''b'' 10 4500)]\<rparr>
   in dom (get_session (fst (process_tick (idle_env\<lparr>env_order := [''b'', ''a'']\<rparr>) c 5000))) = {''b''}"
proof -
  define c where "c = rtp_core_new 8 1000\<lparr>rc_sessions := [(''a'', seen_session ''a'' 9 20), (''b'', seen_session ''b'' 10 4500)]\<rparr>"
  define env where "env = idle_env\<lparr>env_order := [''b'', ''a'']\<rparr>"
  obtain c' os where t: "process_tick env c 5000 = (c', os)" by fastforce
  have "distinct (env_order env)" "set (env_order env) = dom (get_session c)" by (auto simp: env_def c_def)
  from tick_closes_expired [OF t this] have "dom (get_session c') = {''b''}"
    by (auto simp: c_def rtp_core_new_def session_expired_def idle_expired_def seen_session_def fresh_session_def)
  with t show ?thesis by (simp add: c_def [symmetric] env_def [symmetric])
qed

section \<open>Updates\<close>

text \<open>What an update may change of a session.\<close>

definition patched :: "('t, 'p) rtp_session \<Rightarrow> u32 \<times> u8 option \<times> rtp_payload_mode \<times> bool \<times> rtp_source_policy" where
  "patched s = (se_ssrc s, se_payload_type s, se_payload_mode s, se_check_paused s, se_source_policy s)"

lemma update_ssrc_patched:
  "update_ssrc c key s ssrc = Inr (c1, s1, r) \<Longrightarrow>
    se_generation s1 = se_generation s \<and> (r = None \<longrightarrow> c1 = c \<and> s1 = s) \<and> rc_sessions c1 = rc_sessions c"
  by (auto simp: update_ssrc_def split: option.splits if_splits)

lemma update_fields_patched:
  "update_payload_type s pt = (s1, b) \<Longrightarrow> se_generation s1 = se_generation s \<and> (\<not> b \<longrightarrow> s1 = s)"
  "update_pause c s pause = (s1, p) \<Longrightarrow> se_generation s1 = se_generation s \<and> (p = None \<longrightarrow> s1 = s)"
  "update_policy s policy = (s1, q) \<Longrightarrow> se_generation s1 = se_generation s \<and> (q = None \<longrightarrow> s1 = s)"
  by (auto simp: update_payload_type_def update_pause_def update_policy_def Let_def split: option.splits if_splits)

lemma handle_update_session_cases:
  assumes "handle_update_session c key g ssrc pt pause policy = (c', os)"
  obtains (failed) reason where "c' = c" "os = [OutEvent (SessionUpdateFailed key reason)]"
  | (done_) s s' r1 r2 r3 where "get_session c key = Some s" "se_generation s = g"
      "get_session c' = (get_session c)(key \<mapsto> s')" "se_generation s' = g \<and> patched s' = patched s \<or> se_generation s' = g + 1"
      "os = [OutEvent (SessionUpdated key (se_generation s') r1 pt r2 r3)]"
proof (cases "\<exists>reason. c' = c \<and> os = [OutEvent (SessionUpdateFailed key reason)]")
  case False
  obtain s where s: "get_session c key = Some s" "se_generation s = g"
    using assms False by (auto simp: handle_update_session_def Let_def split: option.splits if_splits)
  have ne: "\<not> (ssrc = None \<and> pt = None \<and> pause = None \<and> policy = None)"
  proof
    assume "ssrc = None \<and> pt = None \<and> pause = None \<and> policy = None"
    with assms s have "c' = c \<and> os = [OutEvent (SessionUpdateFailed key ''empty patch'')]"
      by (simp add: handle_update_session_def)
    with False show False by blast
  qed
  obtain c1 s1 rs where u: "update_ssrc c key s ssrc = Inr (c1, s1, rs)"
    using assms False s by (auto simp: handle_update_session_def Let_def split: if_splits sum.splits)
  obtain s2 b2 where u2: "update_payload_type s1 pt = (s2, b2)" by fastforce
  obtain s3 b3 where u3: "update_pause c1 s2 pause = (s3, b3)" by fastforce
  obtain s4 b4 where u4: "update_policy s3 policy = (s4, b4)" by fastforce
  note p = update_ssrc_patched [OF u] update_fields_patched(1) [OF u2] update_fields_patched(2) [OF u3]
    update_fields_patched(3) [OF u4]
  define changed where "changed = (rs \<noteq> None \<or> b2 \<or> b3 \<noteq> None \<or> b4 \<noteq> None)"
  define s' where "s' = (if changed then s4\<lparr>se_generation := se_generation s4 + 1, se_updated_at_ms := rc_now_ms c1\<rparr> else s4)
    \<lparr>se_last_error := None\<rparr>"
  have r: "c' = put_session c1 key s'" "os = [OutEvent (SessionUpdated key (se_generation s') rs pt b3 b4)]"
    using assms s ne u u2 u3 u4
    by (auto simp: handle_update_session_def Let_def s'_def changed_def simp del: not_None_eq split del: if_split)
  have "se_generation s' = g \<and> patched s' = patched s \<or> se_generation s' = g + 1"
    using p s(2) by (cases changed) (auto simp: s'_def changed_def patched_def)
  moreover have "get_session c' = (get_session c)(key \<mapsto> s')" using p by (simp add: r(1))
  ultimately show thesis using that(2) s r(2) by blast
qed (use that(1) in blast)

text \<open>
  C25: Of two updates made for the same generation the second fails, unless the first changed nothing.
\<close>

theorem update_generation_guards:
  assumes "handle_update_session c key g ssrc pt pause policy = (c1, os1)"
    and "handle_update_session c1 key g ssrc' pt' pause' policy' = (c2, os2)"
  shows "(\<exists>reason. c1 = c \<and> os1 = [OutEvent (SessionUpdateFailed key reason)])
    \<or> (\<exists>reason. c2 = c1 \<and> os2 = [OutEvent (SessionUpdateFailed key reason)])
    \<or> map_option patched (get_session c1 key) = map_option patched (get_session c key)"
  using assms(1)
proof (cases rule: handle_update_session_cases)
  case (done_ s s' r1 r2 r3)
  note first = done_
  from assms(2) show ?thesis
  proof (cases rule: handle_update_session_cases)
    case (done_ t t' q1 q2 q3)
    with first have "se_generation s' = g" by simp
    with first have "patched s' = patched s" by auto
    with first show ?thesis by simp
  qed simp
qed simp

theorem update_generation_guards_witness:
  "let c = rtp_core_new 8 1000\<lparr>rc_sessions := [(''a'', seen_session ''a'' 9 20)]\<rparr>;
       (c1, os1) = handle_update_session c ''a'' 1 None (Some 96) None None;
       (c2, os2) = handle_update_session c1 ''a'' 1 None (Some 97) None None
   in c2 = c1 \<and> (\<exists>reason. os2 = [OutEvent (SessionUpdateFailed ''a'' reason)])"
proof -
  define c where "c = rtp_core_new 8 1000\<lparr>rc_sessions := [(''a'', seen_session ''a'' 9 20)]\<rparr>"
  obtain c1 os1 where 1: "handle_update_session c ''a'' 1 None (Some 96) None None = (c1, os1)" by fastforce
  obtain c2 os2 where 2: "handle_update_session c1 ''a'' 1 None (Some 97) None None = (c2, os2)" by fastforce
  have "c1 = put_session c ''a'' (the (get_session c1 ''a''))" "map_option se_payload_type (get_session c1 ''a'') = Some (Some 96)"
    "os1 = [OutEvent (SessionUpdated ''a'' 2 None (Some 96) None None)]"
    using 1 by (auto simp: c_def seen_session_def handle_update_session_def update_ssrc_def update_payload_type_def
        update_pause_def update_policy_def Let_def split: if_splits)
  with update_generation_guards [OF 1 2] have "c2 = c1 \<and> (\<exists>reason. os2 = [OutEvent (SessionUpdateFailed ''a'' reason)])"
    by (auto simp: c_def seen_session_def patched_def)
  with 1 2 show ?thesis by (simp add: c_def [symmetric])
qed

section \<open>Sending\<close>

lemma packetize_from_length:
  assumes "0 < m"
  shows "payload \<noteq> [] \<Longrightarrow> length (packetize_from m h seq payload) * m < length payload + m"
    "payload \<noteq> [] \<Longrightarrow> packetize_from m h seq payload \<noteq> []"
proof -
  have "payload \<noteq> [] \<longrightarrow> length (packetize_from m h seq payload) * m < length payload + m
      \<and> packetize_from m h seq payload \<noteq> []"
    using assms
  proof (induction h seq payload rule: packetize_induct)
    case (Cons h seq cursor)
    show ?case
    proof (cases "drop m cursor = []")
      case True
      with Cons show ?thesis unfolding packetize_from_step [OF Cons(1) assms] by simp
    next
      case False
      with Cons show ?thesis unfolding packetize_from_step [OF Cons(1) assms] by simp
    qed
  qed simp
  then show "payload \<noteq> [] \<Longrightarrow> length (packetize_from m h seq payload) * m < length payload + m"
    "payload \<noteq> [] \<Longrightarrow> packetize_from m h seq payload \<noteq> []" by simp_all
qed

lemma packetize_g711_from_parts:
  assumes "0 < m"
  shows "concat (map rp_payload (packetize_g711_from m h seq ts payload)) = payload
    \<and> map rtp_seq (packetize_g711_from m h seq ts payload) = seqs_from seq (length (packetize_g711_from m h seq ts payload))
    \<and> (\<forall>p \<in> set (packetize_g711_from m h seq ts payload). rh_ssrc (rp_header p) = rh_ssrc h)
    \<and> length (packetize_g711_from m h seq ts payload) \<le> length payload
    \<and> (payload \<noteq> [] \<longrightarrow> packetize_g711_from m h seq ts payload \<noteq> [])"
  using assms
proof (induction m h seq ts payload rule: packetize_g711_from.induct)
  case (1 m h seq ts cursor)
  show ?case
  proof (cases "cursor = []")
    case True
    then show ?thesis by (simp add: packetize_g711_from.simps [of m h seq ts])
  next
    case False
    define k where "k = min (length cursor) m"
    define h' where "h' = h\<lparr>rh_sequence_number := seq, rh_timestamp := ts, rh_marker := False\<rparr>"
    have k: "0 < k" "k \<le> length cursor" using False "1.prems" by (auto simp: k_def)
    have eq: "packetize_g711_from m h seq ts cursor =
        \<lparr>rp_header = h', rp_payload = take k cursor\<rparr> # packetize_g711_from m h' (seq + 1) (ts + of_nat k) (drop k cursor)"
      using False "1.prems" by (subst packetize_g711_from.simps) (simp add: Let_def k_def h'_def)
    have "\<not> (cursor = [] \<or> m = 0)" using False "1.prems" by simp
    moreover have "Suc (length cursor - k) \<le> length cursor" "Suc 0 \<le> length cursor" using k by simp_all
    ultimately show ?thesis using "1.IH" [OF _ k_def refl refl h'_def "1.prems"] k
      unfolding eq by (auto simp: seqs_from_Suc rtp_seq_def h'_def)
  qed
qed

lemma packetize_from_ssrc:
  assumes "0 < m"
  shows "\<forall>p \<in> set (packetize_from m h seq payload). rh_ssrc (rp_header p) = rh_ssrc h"
  using assms
proof (induction h seq payload rule: packetize_induct)
  case (Cons h seq cursor)
  then show ?case unfolding packetize_from_step [OF Cons(1) assms] by simp
qed simp

definition frame_fits :: "av_frame \<Rightarrow> bool" where
  "frame_fits f \<longleftrightarrow> length (av_payload f) \<le> (if av_media_kind f = Audio then 65535 else 65535 * 1388)"

lemma packetize_frame_spec:
  assumes "av_payload f \<noteq> []"
  shows "concat (map rp_payload (packetize_frame s f)) = av_payload f"
    "map rtp_seq (packetize_frame s f) = seqs_from (se_next_seq s) (length (packetize_frame s f))"
    "\<forall>p \<in> set (packetize_frame s f). rh_ssrc (rp_header p) = se_ssrc s"
    "packetize_frame s f \<noteq> []" "frame_fits f \<Longrightarrow> length (packetize_frame s f) < 65536"
proof -
  define h where "h = \<lparr>rh_version = 2, rh_payload_type = egress_payload_type (se_egress_payload_mode s) f,
    rh_sequence_number = se_next_seq s, rh_timestamp = egress_timestamp s f, rh_ssrc = se_ssrc s, rh_marker = False\<rparr>"
  have "concat (map rp_payload (packetize_frame s f)) = av_payload f
    \<and> map rtp_seq (packetize_frame s f) = seqs_from (se_next_seq s) (length (packetize_frame s f))
    \<and> (\<forall>p \<in> set (packetize_frame s f). rh_ssrc (rp_header p) = se_ssrc s)
    \<and> packetize_frame s f \<noteq> [] \<and> (frame_fits f \<longrightarrow> length (packetize_frame s f) < 65536)"
  proof (cases "is_raw_audio s f")
    case True
    define m where "m = min (max (unat (egress_clock_rate f)
      * max (unat (max (case se_packet_duration_ms s of Some d \<Rightarrow> d | None \<Rightarrow> 20) 1)) 1 div 1000) 1) 1400"
    have m: "0 < m" "packetize_frame s f = packetize_g711_from m h (se_next_seq s) (egress_timestamp s f) (av_payload f)"
      using True assms by (simp_all add: packetize_frame_def packetize_g711_def Let_def h_def m_def)
    have "av_media_kind f = Audio" using True by (simp add: is_raw_audio_def)
    with packetize_g711_from_parts [OF m(1), of h "se_next_seq s" "egress_timestamp s f" "av_payload f"] assms
    show ?thesis by (auto simp: m(2) frame_fits_def h_def)
  next
    case False
    have p: "packetize_frame s f = packetize_from 1388 h (se_next_seq s) (av_payload f)"
      using False by (simp add: packetize_frame_def packetize_payload_def h_def)
    from packetize_from_spec [of 1388 h "se_next_seq s" "av_payload f"] packetize_from_length [of 1388 "av_payload f" h "se_next_seq s"]
      packetize_from_ssrc [of 1388 h "se_next_seq s" "av_payload f"] assms
    show ?thesis by (auto simp: p frame_fits_def h_def split: if_splits)
  qed
  then show "concat (map rp_payload (packetize_frame s f)) = av_payload f"
    "map rtp_seq (packetize_frame s f) = seqs_from (se_next_seq s) (length (packetize_frame s f))"
    "\<forall>p \<in> set (packetize_frame s f). rh_ssrc (rp_header p) = se_ssrc s"
    "packetize_frame s f \<noteq> []" "frame_fits f \<Longrightarrow> length (packetize_frame s f) < 65536" by simp_all
qed

text \<open>The datagrams sent for a session, and a session that sends by UDP.\<close>

definition sent_udp :: "session_key \<Rightarrow> rtp_core_output list \<Rightarrow> bytes list" where
  "sent_udp key os = concat (map (\<lambda>o1. case o1 of SendUdp k dest data \<Rightarrow> if k = key then [data] else [] | _ \<Rightarrow> []) os)"

definition sends_udp :: "session_key \<Rightarrow> ('t, 'p) rtp_session \<Rightarrow> bool" where
  "sends_udp key s \<longleftrightarrow> se_session_key s = key \<and> se_tcp_conn_id s = None \<and> se_destination s \<noteq> None
     \<and> se_transport_mode s \<noteq> RecvOnly"

lemma sent_udp_append [simp]: "sent_udp key (xs @ ys) = sent_udp key xs @ sent_udp key ys"
  by (simp add: sent_udp_def)

lemma sent_udp_packets:
  "sends_udp key s \<Longrightarrow> sent_udp key (concat (map (send_packet_output s) ps)) = map rtp_packet_encode ps"
  by (induction ps) (auto simp: sends_udp_def send_packet_output_def sent_udp_def)

lemma egress_state_frame:
  assumes "egress_state key s = (s', os)"
  shows "sent_udp key os = []" "sends_udp key' s' = sends_udp key' s" "se_ssrc s' = se_ssrc s"
    "se_next_seq s' = se_next_seq s" "se_egress_track_filter s' = se_egress_track_filter s"
  using assms
  by (auto simp: egress_state_def announce_transition_def transition_to_def sent_udp_def sends_udp_def
      split: option.splits if_splits)

lemma packet_count_word: "0 < n \<Longrightarrow> n < 65536 \<Longrightarrow> max (of_nat n) 1 = (of_nat n :: u16)"
  by (rule max_absorb1) (simp add: word_le_nat_alt unat_of_nat)

abbreviation frame_sent :: "('t, 'p) rtp_session \<Rightarrow> av_frame \<Rightarrow> bool" where
  "frame_sent s f \<equiv> track_filter_allows_track (se_egress_track_filter s) (av_media_kind f)"

lemma send_frame_sent:
  assumes r: "send_frame c key f = (c', os)" and s: "get_session c key = Some s" and u: "sends_udp key s" and fits: "frame_fits f"
  shows "\<exists>ps s'. sent_udp key os = map rtp_packet_encode ps \<and> map rtp_seq ps = seqs_from (se_next_seq s) (length ps)
    \<and> (\<forall>p \<in> set ps. rh_ssrc (rp_header p) = se_ssrc s)
    \<and> concat (map rp_payload ps) = (if frame_sent s f then av_payload f else [])
    \<and> get_session c' key = Some s' \<and> sends_udp key s' \<and> se_ssrc s' = se_ssrc s
    \<and> se_egress_track_filter s' = se_egress_track_filter s \<and> se_next_seq s' = se_next_seq s + of_nat (length ps)"
proof (cases "frame_sent s f \<and> av_payload f \<noteq> []")
  case False
  then have "c' = c" "os = []" using r s by (auto simp: send_frame_def split: if_splits)
  with False s u show ?thesis by (intro exI [of _ "[]"] exI [of _ s]) (auto simp: sent_udp_def)
next
  case True
  define ps where "ps = packetize_frame s f"
  obtain s' changed where e: "egress_state key (record_sent s f ps) = (s', changed)" by fastforce
  have c': "c' = put_session c key s'" "os = concat (map (send_packet_output s) ps) @ changed"
    using r s u True e by (simp_all add: send_frame_def sends_udp_def Let_def ps_def)
  note p = packetize_frame_spec [of f s, folded ps_def]
  note f = egress_state_frame [OF e]
  have "sends_udp key (record_sent s f ps)" using u by (simp add: sends_udp_def record_sent_def)
  moreover have "se_next_seq (record_sent s f ps) = se_next_seq s + of_nat (length ps)"
    using p(4,5) True fits packet_count_word [of "length ps"] by (simp add: record_sent_def)
  ultimately show ?thesis
    using p True f sent_udp_packets [OF u]
    by (intro exI [of _ ps] exI [of _ s']) (simp add: c' record_sent_def)
qed

lemma seqs_from_append: "seqs_from s (m + n) = seqs_from s m @ seqs_from (s + of_nat m) n"
  by (induction m arbitrary: s) (simp_all add: seqs_from_Suc algebra_simps)

text \<open>
  C14: Frames are given to a session with a destination, without a TCP connection and not receive-only, one
  SendFrame after another with no other input between, each of at most 65535 bytes when it is audio and of at most
  65535 times 1388 bytes otherwise. Those that its egress track filter lets through leave it complete and in order, the others
  not at all: the payloads of the packets sent are together those of the former, the packets carry the SSRC of
  the session, and they are numbered without a gap from its next sequence number on, across frames.
\<close>

theorem frames_sent_in_sequence:
  assumes "each c (\<lambda>c f. send_frame c key f) frames = (c', os)" and "get_session c key = Some s"
    and "sends_udp key s" and "list_all frame_fits frames"
  shows "\<exists>ps. sent_udp key os = map rtp_packet_encode ps \<and> map rtp_seq ps = seqs_from (se_next_seq s) (length ps)
    \<and> (\<forall>p \<in> set ps. rh_ssrc (rp_header p) = se_ssrc s)
    \<and> concat (map rp_payload ps) = concat (map av_payload (List.filter (frame_sent s) frames))"
  using assms
proof (induction frames arbitrary: c s os)
  case Nil
  then show ?case by (intro exI [of _ "[]"]) (simp add: sent_udp_def)
next
  case (Cons f frames)
  obtain c1 os1 where a: "send_frame c key f = (c1, os1)" by fastforce
  obtain os2 where e: "each c1 (\<lambda>c f. send_frame c key f) frames = (c', os2)" "os = os1 @ os2"
    using Cons.prems(1) a by (auto split: prod.splits)
  obtain ps s1 where 1: "sent_udp key os1 = map rtp_packet_encode ps" "map rtp_seq ps = seqs_from (se_next_seq s) (length ps)"
    "\<forall>p \<in> set ps. rh_ssrc (rp_header p) = se_ssrc s" "concat (map rp_payload ps) = (if frame_sent s f then av_payload f else [])"
    "get_session c1 key = Some s1" "sends_udp key s1" "se_ssrc s1 = se_ssrc s"
    "se_egress_track_filter s1 = se_egress_track_filter s" "se_next_seq s1 = se_next_seq s + of_nat (length ps)"
    using send_frame_sent [OF a Cons.prems(2,3)] Cons.prems(4) by auto
  obtain qs where 2: "sent_udp key os2 = map rtp_packet_encode qs" "map rtp_seq qs = seqs_from (se_next_seq s1) (length qs)"
    "\<forall>p \<in> set qs. rh_ssrc (rp_header p) = se_ssrc s1"
    "concat (map rp_payload qs) = concat (map av_payload (List.filter (frame_sent s1) frames))"
    using Cons.IH [OF e(1) 1(5,6)] Cons.prems(4) by auto
  show ?case
    using 1 2 by (intro exI [of _ "ps @ qs"]) (auto simp: e(2) seqs_from_append)
qed

theorem frames_sent_in_sequence_witness:
  "let s = fresh_session ''a'' 9 Ps SendOnly AllTracks StrictSource None (Some (SocketV4 1 2)) None 65535 None 0;
       c = (rtp_core_new 8 1000 :: (unit, unit) rtp_core)\<lparr>rc_sessions := [(''a'', s)]\<rparr>;
       frame = (\<lambda>payload. av_frame_new (TrackId 1) Video H264 CanonicalH26x 0 0 \<lparr>tb_num = 1, tb_den = 90000\<rparr> payload);
       (c', os) = each c (\<lambda>c f. send_frame c ''a'' f) [frame [1, 2, 3], frame [4, 5]]
   in \<exists>ps. sent_udp ''a'' os = map rtp_packet_encode ps \<and> concat (map rp_payload ps) = [1, 2, 3, 4, 5]
        \<and> map rtp_seq ps = seqs_from 65535 (length ps)"
proof -
  define s where "s = (fresh_session ''a'' 9 Ps SendOnly AllTracks StrictSource None (Some (SocketV4 1 2)) None 65535 None 0
    :: (unit, unit) rtp_session)"
  define c where "c = (rtp_core_new 8 1000 :: (unit, unit) rtp_core)\<lparr>rc_sessions := [(''a'', s)]\<rparr>"
  define frame where "frame = (\<lambda>payload. av_frame_new (TrackId 1) Video H264 CanonicalH26x 0 0 \<lparr>tb_num = 1, tb_den = 90000\<rparr> payload)"
  obtain c' os where e: "each c (\<lambda>c f. send_frame c ''a'' f) [frame [1, 2, 3], frame [4, 5]] = (c', os)" by fastforce
  have "get_session c ''a'' = Some s" "sends_udp ''a'' s" "list_all frame_fits [frame [1, 2, 3], frame [4, 5]]"
    by (simp_all add: c_def s_def sends_udp_def fresh_session_def frame_fits_def frame_def av_frame_new_def)
  from frames_sent_in_sequence [OF e this] show ?thesis
    unfolding Let_def s_def [symmetric] c_def [symmetric] frame_def [symmetric] e
    by (auto simp: s_def fresh_session_def frame_def av_frame_new_def)
qed

end
