(* ===== verification/Rtp_Time.thy ===== *)
theory Rtp_Time
  imports Codec_Time_Properties
begin

text \<open>
  The RTP timestamp normalizer at the end of \<^verbatim>\<open>src/crates/foundation/cheetah-codec/src/rtp.rs\<close>: the shared
  normalizer of \<open>Codec_Time\<close> over 32-bit timestamps of one clock rate, with microseconds as output.
\<close>

record rtp_timestamp_normalizer =
  rn_clock_rate :: u32
  rn_normalizer :: timestamp_normalizer

text \<open>\<open>None\<close> is the panic of \<open>normalizer_new\<close>.\<close>

definition rtp_timestamp_normalizer_new ::
  "u32 \<Rightarrow> (timestamp_normalizer_config_error + rtp_timestamp_normalizer) option" where
  "rtp_timestamp_normalizer_new clock_rate =
     (case normalizer_config_new \<lparr>tb_num = 1, tb_den = clock_rate\<rparr> \<lparr>tb_num = 1, tb_den = 1000000\<rparr> (Some 32) of
        Inl e \<Rightarrow> Some (Inl e)
      | Inr config \<Rightarrow>
          map_option (\<lambda>n. Inr \<lparr>rn_clock_rate = clock_rate, rn_normalizer = n\<rparr>) (normalizer_new config))"

definition rtp_normalize_with_duration ::
  "rtp_timestamp_normalizer \<Rightarrow> u32 \<Rightarrow> bool \<Rightarrow> int option
    \<Rightarrow> rtp_timestamp_normalizer \<times> (timestamp_normalize_error + timestamp_normalize_output)" where
  "rtp_normalize_with_duration r rtp_timestamp is_video frame_duration_ticks =
     (case normalize (rn_normalizer r)
         \<lparr>ni_mode = PtsOnly (Wrapped (unat rtp_timestamp)), ni_frame_duration = frame_duration_ticks,
          ni_fallback_step = Some 1, ni_is_video = is_video, ni_force_discontinuity = False\<rparr>
      of (n, out) \<Rightarrow> (r\<lparr>rn_normalizer := n\<rparr>, out))"

definition rtp_normalize ::
  "rtp_timestamp_normalizer \<Rightarrow> u32 \<Rightarrow> bool
    \<Rightarrow> rtp_timestamp_normalizer \<times> (timestamp_normalize_error + timestamp_normalize_output)" where
  "rtp_normalize r rtp_timestamp is_video = rtp_normalize_with_duration r rtp_timestamp is_video None"

definition rtp_timestamp_normalizer_reset :: "rtp_timestamp_normalizer \<Rightarrow> rtp_timestamp_normalizer" where
  "rtp_timestamp_normalizer_reset r = r\<lparr>rn_normalizer := normalizer_reset (rn_normalizer r)\<rparr>"

section \<open>Exact time\<close>

text \<open>Microseconds of a number of ticks, rounded down.\<close>

definition ticks_us :: "nat \<Rightarrow> int \<Rightarrow> int" where
  "ticks_us rate x = x * 1000000 div int rate"

lemma sdiv_nonneg: "0 \<le> (a :: int) \<Longrightarrow> 0 < b \<Longrightarrow> a sdiv b = a div b"
  by (cases "a = 0") (simp_all add: signed_divide_int_def)

lemma ticks_us_bounds:
  assumes "0 < rate" and "0 \<le> x" and "x < 2 ^ 43"
  shows "0 \<le> ticks_us rate x" "ticks_us rate x < 2 ^ 63"
proof -
  show "0 \<le> ticks_us rate x" using assms(1,2) by (simp add: ticks_us_def pos_imp_zdiv_nonneg_iff)
  have "x * 1000000 div int rate \<le> x * 1000000 div 1"
    using assms(1,2) by (intro zdiv_mono2) simp_all
  then show "ticks_us rate x < 2 ^ 63" using assms(3) by (simp add: ticks_us_def)
qed

text \<open>At most a million ticks a second: different ticks have different microseconds.\<close>

lemma ticks_us_less:
  assumes "0 < rate" and "rate \<le> 1000000" and "x < y"
  shows "ticks_us rate x < ticks_us rate y"
proof -
  have "x * 1000000 + int rate * 1 \<le> y * 1000000" using assms by linarith
  then have "(x * 1000000 + int rate * 1) div int rate \<le> ticks_us rate y"
    unfolding ticks_us_def using assms(1) by (intro zdiv_mono1) simp_all
  moreover have "(x * 1000000 + int rate * 1) div int rate = 1 + ticks_us rate x"
    unfolding ticks_us_def using assms(1) by (intro div_mult_self2) simp
  ultimately show ?thesis by simp
qed

text \<open>The configuration of the normalizer, and its conversion.\<close>

definition rtp_config :: "u32 \<Rightarrow> timestamp_normalizer_config" where
  "rtp_config rate =
     \<lparr>nc_input_timebase = \<lparr>tb_num = 1, tb_den = rate\<rparr>, nc_output_timebase = \<lparr>tb_num = 1, tb_den = 1000000\<rparr>,
      nc_wrap_bits = Some 32, nc_max_forward_gap_us = 2000000, nc_default_fallback_step = 1,
      nc_allow_negative_composition = True\<rparr>"

lemma out_micros: "0 \<le> x \<Longrightarrow> x < 2 ^ 63 \<Longrightarrow> to_micros \<lparr>tb_num = 1, tb_den = 1000000\<rparr> x = x"
  by (simp add: to_micros_def max_def word_le_nat_alt sdiv_nonneg wrap_i64_id i64_range_def i64_min_def i64_max_def)

lemma max_u32_1: "0 < rate \<Longrightarrow> max rate (1 :: u32) = rate"
  by (simp add: max_def) (metis inc_le not_le_imp_less word_gt_0 order_antisym_conv add.left_neutral)

lemma rtp_convert:
  assumes "0 < rate" and "0 \<le> x" and "x < 2 ^ 43" and "tn_config n = rtp_config rate"
  shows "convert_ticks n x = ticks_us (unat rate) x"
proof -
  have r: "0 < unat rate" using assms(1) by (simp add: unat_gt_0)
  note b = ticks_us_bounds [OF r assms(2,3)]
  have "to_micros \<lparr>tb_num = 1, tb_den = rate\<rparr> x = ticks_us (unat rate) x"
    using assms(2) b r unfolding ticks_us_def
    by (simp only: to_micros_def Let_def max_u32_1 [OF assms(1)] timebase.simps unsigned_1 of_nat_1 mult_1_right)
      (simp only: sdiv_nonneg mult_nonneg_nonneg zero_le_numeral of_nat_0_less_iff,
       rule wrap_i64_id, simp add: i64_range_def i64_min_def i64_max_def)
  then show ?thesis using b
    by (simp add: convert_ticks_def timebase_convert_def assms(4) rtp_config_def from_micros_def max_def sdiv_nonneg
        wrap_i64_id i64_range_def i64_min_def i64_max_def)
qed

text \<open>A presentation time later than all before it is its own decoding time.\<close>

lemma generate_ascending:
  assumes "dg_last_dts g = Some q" and "dg_last_source_pts g = Some q" and "\<not> dg_pts_reorder_seen g"
    and "0 \<le> q" and "q < p" and "p < 2 ^ 63"
  obtains g' out where "generate_from_pts_only g p fs None mg = (g', out)" "pg_dts out = p" "dg_last_dts g' = Some p"
    "dg_last_source_pts g' = Some p" "\<not> dg_pts_reorder_seen g'"
proof -
  have d: "sat_i64 (p - q) = p - q" "sat_i64 (q + (p - q)) = p" "p - q \<noteq> 0" "0 < p - q"
    using assms(4-6) by (simp_all add: sat_i64_def i64_min_def i64_max_def)
  obtain g' out where g: "generate_from_pts_only g p fs None mg = (g', out)" by fastforce
  moreover from g have "pg_dts out = p \<and> dg_last_dts g' = Some p \<and> dg_last_source_pts g' = Some p
      \<and> \<not> dg_pts_reorder_seen g'"
    unfolding generate_from_pts_only_def assms(1,2) Let_def option.case d(1)
    using assms(1-3) d by (auto split: if_splits)
  ultimately show thesis using that by blast
qed

section \<open>A run\<close>

text \<open>The state after the frame of true time \<open>s\<close>, counted in ticks; \<open>t0\<close> is the time of the first frame.\<close>

definition rtp_after :: "u32 \<Rightarrow> int \<Rightarrow> int \<Rightarrow> int \<Rightarrow> timestamp_normalizer \<Rightarrow> bool" where
  "rtp_after rate base t0 s n \<longleftrightarrow> tn_config n = rtp_config rate \<and> \<not> tn_pending_reset n
     \<and> (\<exists>u. tn_pts_unwrapper n = Some u \<and> counter_at 32 base s u)
     \<and> tn_epoch_offset n = Some (ticks_us (unat rate) (t0 - base))
     \<and> tn_last_dts n = Some (ticks_us (unat rate) (s - base) - ticks_us (unat rate) (t0 - base))
     \<and> dg_last_dts (tn_dts_generator n) = Some (ticks_us (unat rate) (s - base))
     \<and> dg_last_source_pts (tn_dts_generator n) = Some (ticks_us (unat rate) (s - base))
     \<and> \<not> dg_pts_reorder_seen (tn_dts_generator n)"

abbreviation rtp_input :: "nat \<Rightarrow> bool \<Rightarrow> timestamp_normalize_input" where
  "rtp_input raw v \<equiv> \<lparr>ni_mode = PtsOnly (Wrapped raw), ni_frame_duration = None, ni_fallback_step = Some 1,
     ni_is_video = v, ni_force_discontinuity = False\<rparr>"

abbreviation exact_time :: "timestamp_normalize_output \<Rightarrow> int \<Rightarrow> bool" where
  "exact_time out x \<equiv> no_pts out = x \<and> no_dts out = x \<and> no_pts_us out = x \<and> no_dts_us out = x"

lemma resolve_ticks_wrapped:
  assumes "0 < rate" and "tn_config n = rtp_config rate" and "tn_pts_unwrapper n = Some u"
    and "wrap_unwrap u raw = (u', nat x)" and "0 \<le> x" and "x < 2 ^ 43"
  shows "resolve_ticks n (Wrapped raw) False = (n\<lparr>tn_pts_unwrapper := Some u'\<rparr>, Inr (ticks_us (unat rate) x))"
proof -
  have "convert_ticks (n\<lparr>tn_pts_unwrapper := Some u'\<rparr>) x = ticks_us (unat rate) x"
    using rtp_convert [OF assms(1,5,6)] assms(2) by simp
  moreover have "\<not> int (nat x) > i64_max" "int (nat x) = x" using assms(5,6) by (simp_all add: i64_max_def)
  ultimately show ?thesis by (simp add: resolve_ticks_def assms(3,4))
qed

lemma normalize_pts_only:
  assumes res: "resolve_mode n (PtsOnly (Wrapped raw)) = (n\<lparr>tn_pts_unwrapper := w\<rparr>, Inr (None, Some p, None))"
    and c: "tn_config n = rtp_config rate"
    and ch: "\<And>fs mg al dis. \<exists>g' al' dis'. choose_dts (n\<lparr>tn_pts_unwrapper := w, tn_pending_reset := False\<rparr>) True None
        (Some p) fs None mg al dis
      = (n\<lparr>tn_pts_unwrapper := w, tn_pending_reset := False, tn_dts_generator := g'\<rparr>, p, al', dis') \<and> Q g'"
    and e: "e = (case tn_epoch_offset n of Some e \<Rightarrow> e | None \<Rightarrow> p)" "0 \<le> e" "e \<le> p" "p < 2 ^ 63"
    and q: "\<And>q. tn_last_dts n = Some q \<Longrightarrow> q < p - e"
  shows "\<exists>n' out. normalize n (rtp_input raw v) = (n', Inr out) \<and> exact_time out (p - e)
    \<and> tn_config n' = rtp_config rate \<and> \<not> tn_pending_reset n' \<and> tn_pts_unwrapper n' = w
    \<and> tn_epoch_offset n' = Some e \<and> tn_last_dts n' = Some (p - e) \<and> Q (tn_dts_generator n')"
proof -
  have d: "sat_i64 (p - e) = p - e" using e by (simp add: sat_i64_def i64_min_def i64_max_def)
  have out: "to_micros (nc_output_timebase (rtp_config rate)) (p - e) = p - e"
    using e by (simp add: rtp_config_def out_micros)
  have rep: "\<exists>al' dis'. repair_dts (rtp_config rate) (tn_last_dts n) (p - e) al dis = (p - e, al', dis')" for al dis
    using q by (cases "tn_last_dts n") (auto simp: repair_dts_def)
  have pt: "choose_pts (rtp_config rate) v (Some p) e (p - e) off al = (p - e, al)" for off al
    by (simp add: choose_pts_def d rtp_config_def)
  define fs where "fs = max (convert_ticks n (max 1 1)) (1 :: int)"
  define mg where "mg = max (from_micros (nc_output_timebase (rtp_config rate)) (nc_max_forward_gap_us (rtp_config rate))) 1"
  define al where "al = (if tn_pending_reset n then [ResetApplied] else [])"
  obtain g' al' dis' where ch': "choose_dts (n\<lparr>tn_pts_unwrapper := w, tn_pending_reset := False\<rparr>) True None
        (Some p) fs None mg al (tn_pending_reset n)
      = (n\<lparr>tn_pts_unwrapper := w, tn_pending_reset := False, tn_dts_generator := g'\<rparr>, p, al', dis')" "Q g'"
    using ch by blast
  obtain al2 dis2 where rep': "repair_dts (rtp_config rate) (tn_last_dts n) (p - e) al' dis' = (p - e, al2, dis2)"
    using rep by blast
  show ?thesis
    using ch'(2)
    by (simp add: normalize_def Let_def res c al_def [symmetric] mg_def [symmetric] fs_def [symmetric, simplified]
        ch'(1) e(1) [symmetric] d rep' pt out)
qed

lemma normalize_rtp_step:
  assumes rate: "0 < rate" "rate \<le> 1000000" and n: "rtp_after rate base t0 s n"
    and t: "base \<le> t0" "t0 \<le> s" "s < t" "t - base < 2 ^ 43" "small_step 32 s t"
  shows "\<exists>n' out. normalize n (rtp_input (nat (t mod 2 ^ 32)) v) = (n', Inr out) \<and> rtp_after rate base t0 t n'
    \<and> exact_time out (ticks_us (unat rate) (t - base) - ticks_us (unat rate) (t0 - base))"
proof -
  let ?C = "\<lambda>x. ticks_us (unat rate) (x - base)"
  have r: "0 < unat rate" "unat rate \<le> 1000000" using rate by (simp_all add: unat_gt_0 word_le_nat_alt)
  have lt: "?C s < ?C t" by (rule ticks_us_less [OF r]) (use t(3) in simp)
  have le: "?C t0 \<le> ?C s" using ticks_us_less [OF r, of "t0 - base" "s - base"] t(2) by (cases "t0 = s") auto
  have bt: "0 \<le> ?C t" "?C t < 2 ^ 63" using ticks_us_bounds [OF r(1), of "t - base"] t by simp_all
  have b0: "0 \<le> ?C t0" using ticks_us_bounds [OF r(1), of "t0 - base"] t by simp
  obtain u where u: "tn_pts_unwrapper n = Some u" "counter_at 32 base s u" using n by (auto simp: rtp_after_def)
  obtain u' where u': "wrap_unwrap u (nat (t mod 2 ^ 32)) = (u', nat (t - base))" "counter_at 32 base t u'"
    using wrap_unwrap_step [OF _ _ u(2) t(5)] t by auto
  have res: "resolve_mode n (PtsOnly (Wrapped (nat (t mod 2 ^ 32))))
      = (n\<lparr>tn_pts_unwrapper := Some u'\<rparr>, Inr (None, Some (?C t), None))"
    using resolve_ticks_wrapped [OF rate(1) _ u(1) u'(1)] n t by (simp add: resolve_mode_def rtp_after_def)
  define m where "m = n\<lparr>tn_pts_unwrapper := Some u', tn_pending_reset := False\<rparr>"
  have g: "dg_last_dts (tn_dts_generator m) = Some (?C s)" "dg_last_source_pts (tn_dts_generator m) = Some (?C s)"
    "\<not> dg_pts_reorder_seen (tn_dts_generator m)"
    using n by (simp_all add: m_def rtp_after_def)
  have ch: "\<exists>g' al' dis'. choose_dts m True None (Some (?C t)) fs None mg al dis
      = (m\<lparr>tn_dts_generator := g'\<rparr>, ?C t, al', dis') \<and> (dg_last_dts g' = Some (?C t)
        \<and> dg_last_source_pts g' = Some (?C t) \<and> \<not> dg_pts_reorder_seen g')" for fs mg al dis
    by (rule generate_ascending [OF g order_trans [OF b0 le] lt bt(2), of fs mg])
      (auto simp: choose_dts_def Let_def)
  have "\<exists>n' out. normalize n (rtp_input (nat (t mod 2 ^ 32)) v) = (n', Inr out) \<and> exact_time out (?C t - ?C t0)
    \<and> tn_config n' = rtp_config rate \<and> \<not> tn_pending_reset n' \<and> tn_pts_unwrapper n' = Some u'
    \<and> tn_epoch_offset n' = Some (?C t0) \<and> tn_last_dts n' = Some (?C t - ?C t0)
    \<and> (dg_last_dts (tn_dts_generator n') = Some (?C t)
        \<and> dg_last_source_pts (tn_dts_generator n') = Some (?C t) \<and> \<not> dg_pts_reorder_seen (tn_dts_generator n'))"
  proof (rule normalize_pts_only [OF res _ ch [unfolded m_def]])
    show "q < ?C t - ?C t0" if "tn_last_dts n = Some q" for q
      using that n lt by (simp add: rtp_after_def)
  qed (use n b0 le lt bt in \<open>simp_all add: rtp_after_def m_def\<close>)
  then show ?thesis using u'(2) by (simp add: rtp_after_def) blast
qed

lemma generate_first:
  assumes "dg_last_dts g = None" and "dg_last_source_pts g = None" and "\<not> dg_pts_reorder_seen g"
  obtains g' out where "generate_from_pts_only g p fs None mg = (g', out)" "pg_dts out = p" "dg_last_dts g' = Some p"
    "dg_last_source_pts g' = Some p" "\<not> dg_pts_reorder_seen g'"
proof -
  obtain g' out where g: "generate_from_pts_only g p fs None mg = (g', out)" by fastforce
  moreover from g have "pg_dts out = p \<and> dg_last_dts g' = Some p \<and> dg_last_source_pts g' = Some p
      \<and> \<not> dg_pts_reorder_seen g'"
    unfolding generate_from_pts_only_def assms(1,2) Let_def option.case using assms by auto
  ultimately show thesis using that by blast
qed

lemma normalize_rtp_first:
  assumes rate: "0 < rate" and n: "normalizer_new (rtp_config rate) = Some n"
  shows "\<exists>n' out. normalize n (rtp_input (nat (t mod 2 ^ 32)) v) = (n', Inr out)
    \<and> rtp_after rate (t - t mod 2 ^ 32) t t n' \<and> exact_time out 0"
proof -
  let ?C = "ticks_us (unat rate) (t mod 2 ^ 32)"
  have r: "0 < unat rate" using rate by (simp add: unat_gt_0)
  have "t mod 2 ^ 32 < (2 :: int) ^ 32" by simp
  then have t: "0 \<le> t mod 2 ^ 32" "t mod 2 ^ 32 < (2 :: int) ^ 43" by simp_all
  note b = ticks_us_bounds [OF r t]
  obtain u where u: "wrap_unwrapper_new 32 = Some u" "tn_pts_unwrapper n = Some u"
    and f: "tn_config n = rtp_config rate" "tn_epoch_offset n = None" "tn_last_dts n = None"
      "tn_dts_generator n = dts_generator_default"
    using n by (auto simp: normalizer_new_def rtp_config_def Let_def)
  from wrap_unwrap_first(3) [OF u(1), of t] obtain u' where
    u': "wrap_unwrap u (nat (t mod 2 ^ 32)) = (u', nat (t mod 2 ^ 32))" "counter_at 32 (t - t mod 2 ^ 32) t u'" by blast
  have res: "resolve_mode n (PtsOnly (Wrapped (nat (t mod 2 ^ 32))))
      = (n\<lparr>tn_pts_unwrapper := Some u'\<rparr>, Inr (None, Some ?C, None))"
    using resolve_ticks_wrapped [OF rate f(1) u(2) u'(1) t] by (simp add: resolve_mode_def)
  have g: "dg_last_dts (tn_dts_generator n) = None" "dg_last_source_pts (tn_dts_generator n) = None"
    "\<not> dg_pts_reorder_seen (tn_dts_generator n)" by (simp_all add: f(4) dts_generator_default_def)
  have ch: "\<exists>g' al' dis'. choose_dts (n\<lparr>tn_pts_unwrapper := Some u', tn_pending_reset := False\<rparr>) True None (Some ?C)
        fs None mg al dis
      = (n\<lparr>tn_pts_unwrapper := Some u', tn_pending_reset := False, tn_dts_generator := g'\<rparr>, ?C, al', dis')
      \<and> (dg_last_dts g' = Some ?C \<and> dg_last_source_pts g' = Some ?C \<and> \<not> dg_pts_reorder_seen g')" for fs mg al dis
    by (rule generate_first [OF g, of ?C fs mg]) (auto simp: choose_dts_def Let_def)
  have "\<exists>n' out. normalize n (rtp_input (nat (t mod 2 ^ 32)) v) = (n', Inr out) \<and> exact_time out (?C - ?C)
    \<and> tn_config n' = rtp_config rate \<and> \<not> tn_pending_reset n' \<and> tn_pts_unwrapper n' = Some u'
    \<and> tn_epoch_offset n' = Some ?C \<and> tn_last_dts n' = Some (?C - ?C)
    \<and> (dg_last_dts (tn_dts_generator n') = Some ?C
        \<and> dg_last_source_pts (tn_dts_generator n') = Some ?C \<and> \<not> dg_pts_reorder_seen (tn_dts_generator n'))"
    by (rule normalize_pts_only [OF res f(1) ch]) (use b f in simp_all)
  then show ?thesis using u'(2) by (simp add: rtp_after_def) blast
qed

text \<open>The presentation and decoding times of a run, in microseconds; a refused timestamp ends it.\<close>

fun rtp_times :: "rtp_timestamp_normalizer \<Rightarrow> bool \<Rightarrow> u32 list \<Rightarrow> (int \<times> int) list" where
  "rtp_times r v [] = []"
| "rtp_times r v (raw # raws) =
     (case rtp_normalize r raw v of
        (_, Inl _) \<Rightarrow> []
      | (r, Inr out) \<Rightarrow> (no_pts_us out, no_dts_us out) # rtp_times r v raws)"

definition advances :: "int \<Rightarrow> int \<Rightarrow> bool" where
  "advances s t \<longleftrightarrow> s < t \<and> t < s + 2 ^ 31"

lemma unat_word_of_int32: "unat (word_of_int t :: u32) = nat (t mod 2 ^ 32)"
  by (simp add: unat_eq_nat_uint uint_word_of_int)

lemma rtp_times_from:
  assumes rate: "0 < rate" "rate \<le> 1000000" and "rtp_after rate base t0 s (rn_normalizer r)"
    and "base \<le> t0" "t0 \<le> s" and "successively advances (s # ts)" and "\<forall>t\<in>set ts. t - base < 2 ^ 43"
  shows "rtp_times r v (map word_of_int ts) =
    map (\<lambda>t. let us = ticks_us (unat rate) (t - base) - ticks_us (unat rate) (t0 - base) in (us, us)) ts"
  using assms(3,5-)
proof (induction ts arbitrary: r s)
  case (Cons t ts)
  from Cons.prems have st: "s < t" "small_step 32 s t" "t - base < 2 ^ 43"
    by (simp_all add: advances_def small_step_def)
  from normalize_rtp_step [OF rate Cons.prems(1) assms(4) Cons.prems(2) st(1,3,2), of v] obtain n' out where
    n: "normalize (rn_normalizer r) (rtp_input (nat (t mod 2 ^ 32)) v) = (n', Inr out)" "rtp_after rate base t0 t n'"
      "exact_time out (ticks_us (unat rate) (t - base) - ticks_us (unat rate) (t0 - base))" by blast
  have "rtp_normalize r (word_of_int t) v = (r\<lparr>rn_normalizer := n'\<rparr>, Inr out)"
    unfolding rtp_normalize_def rtp_normalize_with_duration_def unat_word_of_int32 n(1) by simp
  with Cons.IH [of t "r\<lparr>rn_normalizer := n'\<rparr>"] Cons.prems st(1) n(2,3) show ?case by (simp add: Let_def)
qed simp

text \<open>
  Media time is exact across wrap-arounds: for frames of a stream of at most a million ticks a second
  whose true times go forward by less than half the 32-bit period, the presentation and the decoding time
  are its true time in microseconds less that of the first frame, whatever the 32-bit timestamps sent for
  them and however often they wrapped (over 2^42 ticks, more than a year at 90 kHz).
\<close>

lemma rtp_time_exact:
  assumes "rtp_timestamp_normalizer_new rate = Some (Inr r)" and "rate \<le> 1000000"
    and "successively advances (t0 # ts)" and "\<forall>t\<in>set ts. t < t0 + 2 ^ 42"
  shows "rtp_times r v (map word_of_int (t0 # ts)) =
    map (\<lambda>t. let us = ticks_us (unat rate) (t - t0 + t0 mod 2 ^ 32) - ticks_us (unat rate) (t0 mod 2 ^ 32) in (us, us))
      (t0 # ts)"
proof -
  let ?b = "t0 - t0 mod 2 ^ 32"
  have rate: "0 < rate" and n: "normalizer_new (rtp_config rate) = Some (rn_normalizer r)"
    using assms(1)
    by (auto simp: rtp_timestamp_normalizer_new_def normalizer_config_new_def rtp_config_def word_gt_0
        split: if_splits)
  from normalize_rtp_first [OF this, of t0 v] obtain n' out where
    f: "normalize (rn_normalizer r) (rtp_input (nat (t0 mod 2 ^ 32)) v) = (n', Inr out)" "rtp_after rate ?b t0 t0 n'"
      "exact_time out 0" by blast
  have "rtp_normalize r (word_of_int t0) v = (r\<lparr>rn_normalizer := n'\<rparr>, Inr out)"
    unfolding rtp_normalize_def rtp_normalize_with_duration_def unat_word_of_int32 f(1) by simp
  moreover have m: "0 \<le> t0 mod 2 ^ 32" "t0 mod 2 ^ 32 < (2 :: int) ^ 32" by simp_all
  have "rtp_times (r\<lparr>rn_normalizer := n'\<rparr>) v (map word_of_int ts)
      = map (\<lambda>t. let us = ticks_us (unat rate) (t - ?b) - ticks_us (unat rate) (t0 - ?b) in (us, us)) ts"
  proof (rule rtp_times_from [OF rate assms(2) _ _ order.refl assms(3)])
    show "\<forall>t\<in>set ts. t - ?b < 2 ^ 43" using assms(4) m by fastforce
  qed (use f(2) m in simp_all)
  ultimately show ?thesis using f(3) by (simp add: algebra_simps)
qed

lemma rtp_time_exact_witness:
  "case rtp_timestamp_normalizer_new 90000 of
     Some (Inr r) \<Rightarrow> rtp_times r True [4294965496, 1304, 4304] = [(0, 0), (34489, 34489), (67822, 67822)]
   | _ \<Rightarrow> False"
proof -
  obtain r where r: "rtp_timestamp_normalizer_new 90000 = Some (Inr r)"
    by (simp add: rtp_timestamp_normalizer_new_def normalizer_config_new_def normalizer_new_def
        wrap_unwrapper_new_def Let_def)
  have w: "map word_of_int [4294965496, 4294968600, 4294971600] = [4294965496, 1304, 4304 :: u32]" by simp
  from rtp_time_exact [OF r, of 4294965496 "[4294968600, 4294971600]" True]
  have "rtp_times r True [4294965496, 1304, 4304] = [(0, 0), (34489, 34489), (67822, 67822)]"
    unfolding w by (simp add: advances_def ticks_us_def word_le_nat_alt del: rtp_times.simps)
  then show ?thesis by (simp only: r option.case sum.case)
qed

end
