(* ===== verification/Rtsp_Transport.thy ===== *)
theory Rtsp_Transport
  imports Rtmp_Bytes Rust_Text
begin

text \<open>
  The Transport header (\<^verbatim>\<open>rtsp/core/src/core/transport.rs\<close>): parsing, writing, and the round trip. Fields that
  the text form can carry come back unchanged (\<open>transport_plain\<close>).
\<close>

section \<open>Parsing\<close>

datatype transport_error =
  Transport_Empty_Header | Transport_Invalid_Protocol | Transport_Invalid_Header_Value
| Transport_Invalid_Parameter string string | Transport_Missing_Paired_Value string string

record rtsp_transport =
  tr_protocol :: string
  tr_unicast :: bool
  tr_interleaved :: "(u8 \<times> u8) option"
  tr_client_port :: "(u16 \<times> u16) option"
  tr_server_port :: "(u16 \<times> u16) option"
  tr_ssrc :: "u32 option"
  tr_mode :: "string option"
  tr_destination :: "string option"
  tr_source :: "string option"
  tr_ttl :: "u8 option"
  tr_layers :: "u32 option"
  tr_port :: "(u16 \<times> u16) option"
  tr_append :: bool

definition transport_default :: rtsp_transport where
  "transport_default =
     \<lparr>tr_protocol = [], tr_unicast = False, tr_interleaved = None, tr_client_port = None, tr_server_port = None,
      tr_ssrc = None, tr_mode = None, tr_destination = None, tr_source = None, tr_ttl = None, tr_layers = None,
      tr_port = None, tr_append = False\<rparr>"

definition rtp_avp_tcp_interleaved :: "u8 \<Rightarrow> u8 \<Rightarrow> rtsp_transport" where
  "rtp_avp_tcp_interleaved rtp_channel rtcp_channel =
     transport_default\<lparr>tr_protocol := ''RTP/AVP/TCP'', tr_unicast := True,
       tr_interleaved := Some (rtp_channel, rtcp_channel)\<rparr>"

definition rtp_avp_udp :: "u16 \<Rightarrow> u16 \<Rightarrow> rtsp_transport" where
  "rtp_avp_udp client_rtp_port client_rtcp_port =
     transport_default\<lparr>tr_protocol := ''RTP/AVP'', tr_unicast := True,
       tr_client_port := Some (client_rtp_port, client_rtcp_port)\<rparr>"

definition invalid_header_char :: "char \<Rightarrow> bool" where
  "invalid_header_char c \<longleftrightarrow> (let n = of_char c :: nat in n < 0x20 \<and> n \<noteq> 9 \<or> n = 0x7F)"

definition contains_invalid_header_char :: "string \<Rightarrow> bool" where
  "contains_invalid_header_char s = list_ex invalid_header_char s"

definition is_ascii_alphanumeric :: "char \<Rightarrow> bool" where
  "is_ascii_alphanumeric c \<longleftrightarrow>
     (let n = of_char c :: nat in 48 \<le> n \<and> n \<le> 57 \<or> 65 \<le> n \<and> n \<le> 90 \<or> 97 \<le> n \<and> n \<le> 122)"

definition is_valid_transport_protocol :: "string \<Rightarrow> bool" where
  "is_valid_transport_protocol protocol \<longleftrightarrow>
     protocol \<noteq> [] \<and> list_all (\<lambda>c. is_ascii_alphanumeric c \<or> c \<in> set ''/._-+'') protocol"

definition parse_int :: "nat \<Rightarrow> string \<Rightarrow> string \<Rightarrow> transport_error + nat" where
  "parse_int bits parameter value =
     (case parse_uint bits (trim value) of
        Some n \<Rightarrow> Inr n
      | None \<Rightarrow> Inl (Transport_Invalid_Parameter parameter (trim value)))"

text \<open>\<^verbatim>\<open>parse_u8_pair\<close> and \<^verbatim>\<open>parse_u16_pair\<close>: two numbers, or one that is followed by its successor.\<close>

definition parse_pair :: "string \<Rightarrow> string \<Rightarrow> transport_error + ('a::len word \<times> 'a word)" where
  "parse_pair parameter value =
     (case split_once ''-'' value of
        Some (a, b) \<Rightarrow>
          sbind (parse_int LENGTH('a) parameter (trim a)) (\<lambda>x.
          sbind (parse_int LENGTH('a) parameter (trim b)) (\<lambda>y. Inr (of_nat x, of_nat y)))
      | None \<Rightarrow>
          sbind (parse_int LENGTH('a) parameter value) (\<lambda>x.
            if x + 1 < 2 ^ LENGTH('a) then Inr (of_nat x, of_nat x + 1)
            else Inl (Transport_Missing_Paired_Value parameter value)))"

definition parse_ssrc :: "string \<Rightarrow> transport_error + u32" where
  "parse_ssrc value =
     (let v = trim value;
          trimmed = (case strip_prefix ''0x'' v of Some r \<Rightarrow> r | None \<Rightarrow> v) in
      case parse_hex 32 trimmed of
        Some n \<Rightarrow> Inr (of_nat n)
      | None \<Rightarrow> Inl (Transport_Invalid_Parameter ''ssrc'' v))"

definition trim_quotes :: "string \<Rightarrow> string" where
  "trim_quotes s = rev (dropWhile (\<lambda>c. c = CHR 0x22) (rev (dropWhile (\<lambda>c. c = CHR 0x22) s)))"

definition transport_parameter :: "rtsp_transport \<Rightarrow> string \<Rightarrow> string \<Rightarrow> transport_error + rtsp_transport" where
  "transport_parameter t key value =
     (if eq_ignore_ascii_case key ''interleaved''
      then sbind (parse_pair ''interleaved'' value) (\<lambda>p. Inr (t\<lparr>tr_interleaved := Some p\<rparr>))
      else if eq_ignore_ascii_case key ''client_port''
      then sbind (parse_pair ''client_port'' value) (\<lambda>p. Inr (t\<lparr>tr_client_port := Some p\<rparr>))
      else if eq_ignore_ascii_case key ''server_port''
      then sbind (parse_pair ''server_port'' value) (\<lambda>p. Inr (t\<lparr>tr_server_port := Some p\<rparr>))
      else if eq_ignore_ascii_case key ''port''
      then sbind (parse_pair ''port'' value) (\<lambda>p. Inr (t\<lparr>tr_port := Some p\<rparr>))
      else if eq_ignore_ascii_case key ''ssrc'' then sbind (parse_ssrc value) (\<lambda>n. Inr (t\<lparr>tr_ssrc := Some n\<rparr>))
      else if eq_ignore_ascii_case key ''mode'' then Inr (t\<lparr>tr_mode := Some (trim_quotes value)\<rparr>)
      else if eq_ignore_ascii_case key ''destination'' then Inr (t\<lparr>tr_destination := Some value\<rparr>)
      else if eq_ignore_ascii_case key ''source'' then Inr (t\<lparr>tr_source := Some value\<rparr>)
      else if eq_ignore_ascii_case key ''ttl''
      then sbind (parse_int 8 ''ttl'' value) (\<lambda>n. Inr (t\<lparr>tr_ttl := Some (of_nat n)\<rparr>))
      else if eq_ignore_ascii_case key ''layers''
      then sbind (parse_int 32 ''layers'' value) (\<lambda>n. Inr (t\<lparr>tr_layers := Some (of_nat n)\<rparr>))
      else Inr t)"

definition transport_part :: "rtsp_transport \<Rightarrow> string \<Rightarrow> transport_error + rtsp_transport" where
  "transport_part t part =
     (if part = [] then Inr t
      else if eq_ignore_ascii_case part ''unicast'' then Inr (t\<lparr>tr_unicast := True\<rparr>)
      else if eq_ignore_ascii_case part ''multicast'' then Inr (t\<lparr>tr_unicast := False\<rparr>)
      else if eq_ignore_ascii_case part ''append'' then Inr (t\<lparr>tr_append := True\<rparr>)
      else if eq_ignore_ascii_case part ''destination'' then Inr (t\<lparr>tr_destination := Some []\<rparr>)
      else
        case split_once ''='' part of
          None \<Rightarrow> Inr t
        | Some (k, v) \<Rightarrow>
            let key = trim k; value = trim v in
            if key = [] \<or> contains_invalid_header_char key \<or> contains_invalid_header_char value
            then Inl Transport_Invalid_Header_Value
            else transport_parameter t key value)"

fun transport_parts :: "rtsp_transport \<Rightarrow> string list \<Rightarrow> transport_error + rtsp_transport" where
  "transport_parts t [] = Inr t"
| "transport_parts t (part # parts) = sbind (transport_part t part) (\<lambda>t'. transport_parts t' parts)"

definition transport_parse :: "string \<Rightarrow> transport_error + rtsp_transport" where
  "transport_parse text =
     (let v = trim text in
      if v = [] then Inl Transport_Empty_Header
      else if contains_invalid_header_char v then Inl Transport_Invalid_Header_Value
      else
        case map trim (split_str '';'' v) of
          [] \<Rightarrow> Inl Transport_Empty_Header
        | protocol # parts \<Rightarrow>
            if \<not> is_valid_transport_protocol protocol then Inl Transport_Invalid_Protocol
            else transport_parts (transport_default\<lparr>tr_protocol := protocol\<rparr>) parts)"

fun parse_transports :: "string list \<Rightarrow> transport_error + rtsp_transport list" where
  "parse_transports [] = Inr []"
| "parse_transports (part # parts) =
     (if part = [] then parse_transports parts
      else sbind (transport_parse part) (\<lambda>t. sbind (parse_transports parts) (\<lambda>ts. Inr (t # ts))))"

definition transport_parse_multiple :: "string \<Rightarrow> transport_error + rtsp_transport list" where
  "transport_parse_multiple text =
     (let v = trim text in
      if v = [] then Inl Transport_Empty_Header
      else if contains_invalid_header_char v then Inl Transport_Invalid_Header_Value
      else sbind (parse_transports (map trim (split_str '','' v))) (\<lambda>ts.
        if ts = [] then Inl Transport_Empty_Header else Inr ts))"

section \<open>Writing\<close>

definition opt_part :: "'a option \<Rightarrow> ('a \<Rightarrow> string) \<Rightarrow> string list" where
  "opt_part x f = (case x of None \<Rightarrow> [] | Some v \<Rightarrow> [f v])"

definition show_pair :: "string \<Rightarrow> 'a::len word \<times> 'a word \<Rightarrow> string" where
  "show_pair key p = key @ ''='' @ decimal (unat (fst p)) @ ''-'' @ decimal (unat (snd p))"

definition transport_header_parts :: "rtsp_transport \<Rightarrow> string list" where
  "transport_header_parts t =
     [tr_protocol t, if tr_unicast t then ''unicast'' else ''multicast'']
     @ opt_part (tr_destination t) (\<lambda>d. ''destination='' @ d)
     @ opt_part (tr_source t) (\<lambda>s. ''source='' @ s)
     @ opt_part (tr_interleaved t) (show_pair ''interleaved'')
     @ (if tr_append t then [''append''] else [])
     @ opt_part (tr_ttl t) (\<lambda>n. ''ttl='' @ decimal (unat n))
     @ opt_part (tr_layers t) (\<lambda>n. ''layers='' @ decimal (unat n))
     @ opt_part (tr_port t) (show_pair ''port'')
     @ opt_part (tr_client_port t) (show_pair ''client_port'')
     @ opt_part (tr_server_port t) (show_pair ''server_port'')
     @ opt_part (tr_ssrc t) (\<lambda>n. ''ssrc='' @ hex_pad 8 (unat n))
     @ opt_part (tr_mode t) (\<lambda>m. ''mode='' @ [CHR 0x22] @ m @ [CHR 0x22])"

definition transport_to_header :: "rtsp_transport \<Rightarrow> string" where
  "transport_to_header t = join '';'' (transport_header_parts t)"

section \<open>Round trip\<close>

definition plain_value :: "string \<Rightarrow> bool" where
  "plain_value v \<longleftrightarrow> trim v = v \<and> CHR '';'' \<notin> set v \<and> \<not> contains_invalid_header_char v"

definition transport_plain :: "rtsp_transport \<Rightarrow> bool" where
  "transport_plain t \<longleftrightarrow>
     is_valid_transport_protocol (tr_protocol t) \<and>
     (\<forall>d. tr_destination t = Some d \<longrightarrow> plain_value d) \<and> (\<forall>s. tr_source t = Some s \<longrightarrow> plain_value s) \<and>
     (\<forall>m. tr_mode t = Some m \<longrightarrow>
        CHR '';'' \<notin> set m \<and> \<not> contains_invalid_header_char m \<and> (m \<noteq> [] \<longrightarrow> hd m \<noteq> CHR 0x22 \<and> last m \<noteq> CHR 0x22))"

lemma eq_ignore_no_equals:
  assumes "CHR ''='' \<in> set part" "ascii_lower (CHR ''='') \<notin> set (map ascii_lower w)"
  shows "\<not> eq_ignore_ascii_case part w"
proof
  assume "eq_ignore_ascii_case part w"
  then have "map ascii_lower w = map ascii_lower part" by (simp add: eq_ignore_ascii_case_def)
  with assms show False by simp
qed

definition plain_key :: "string \<Rightarrow> bool" where
  "plain_key k \<longleftrightarrow> k \<noteq> [] \<and> CHR ''='' \<notin> set k \<and> CHR '';'' \<notin> set k \<and> trimmed k \<and> \<not> contains_invalid_header_char k"

lemma transport_part_parameter:
  assumes "plain_key k" "trim v = v" "\<not> contains_invalid_header_char v"
  shows "transport_part t (k @ ''='' @ v) = transport_parameter t k v"
proof -
  have "\<not> eq_ignore_ascii_case (k @ ''='' @ v) w" if "w \<in> {''unicast'', ''multicast'', ''append'', ''destination''}" for w
    by (rule eq_ignore_no_equals) (use that in \<open>auto simp: ascii_lower_def\<close>)
  moreover have "split_once ''='' (k @ ''='' @ v) = Some (k, v)"
    using assms(1) split_once_char_append [of "CHR ''=''" k v] by (simp add: plain_key_def)
  ultimately show ?thesis using assms by (simp add: transport_part_def plain_key_def)
qed

lemma transport_parts_append:
  "transport_parts t (xs @ ys) = sbind (transport_parts t xs) (\<lambda>t'. transport_parts t' ys)"
  by (induction xs arbitrary: t) (auto simp: sbind_def split: sum.splits)

lemma plain_keys:
  "plain_key ''destination''" "plain_key ''source''" "plain_key ''interleaved''" "plain_key ''ttl''"
  "plain_key ''layers''" "plain_key ''port''" "plain_key ''client_port''" "plain_key ''server_port''"
  "plain_key ''ssrc''" "plain_key ''mode''"
  by (simp_all add: plain_key_def trimmed_def is_space_iff contains_invalid_header_char_def invalid_header_char_def)

lemma decimal_no_invalid: "\<not> contains_invalid_header_char (decimal n)"
proof -
  have "\<not> invalid_header_char c" if "c \<in> set (decimal n)" for c
    using decimal_char [OF that] by (simp add: invalid_header_char_def is_ascii_digit_def Let_def)
  then show ?thesis by (auto simp: contains_invalid_header_char_def list_ex_iff)
qed

lemma hex_no_invalid: "\<not> contains_invalid_header_char (hex_pad k n)"
proof -
  have "\<not> invalid_header_char c" if "c \<in> set (hex_pad k n)" for c
    using hex_pad_code [OF that] by (auto simp: invalid_header_char_def Let_def)
  then show ?thesis by (auto simp: contains_invalid_header_char_def list_ex_iff)
qed

lemma contains_invalid_append [simp]:
  "contains_invalid_header_char (a @ b) \<longleftrightarrow> contains_invalid_header_char a \<or> contains_invalid_header_char b"
  "contains_invalid_header_char (c # b) \<longleftrightarrow> invalid_header_char c \<or> contains_invalid_header_char b"
  "\<not> contains_invalid_header_char []"
  by (auto simp: contains_invalid_header_char_def)

lemma parse_int_decimal: "n < 2 ^ b \<Longrightarrow> parse_int b p (decimal n) = Inr n"
  by (simp add: parse_int_def)

text \<open>Two numbers with a dash between them.\<close>

definition pair_text :: "'a::len word \<times> 'a word \<Rightarrow> string" where
  "pair_text p = decimal (unat (fst p)) @ ''-'' @ decimal (unat (snd p))"

lemma parse_pair_text: "parse_pair k (pair_text p) = Inr p"
proof -
  have "CHR ''-'' \<notin> set (decimal (unat (fst p)))" by (rule not_in_decimal) (simp add: is_ascii_digit_def)
  then have "split_once ''-'' (pair_text p) = Some (decimal (unat (fst p)), decimal (unat (snd p)))"
    using split_once_char_append [of "CHR ''-''"] by (simp add: pair_text_def)
  then show ?thesis by (cases p) (simp add: parse_pair_def parse_int_decimal unat_less)
qed

lemma trimmed_between:
  "trimmed a \<Longrightarrow> trimmed b \<Longrightarrow> a \<noteq> [] \<Longrightarrow> b \<noteq> [] \<Longrightarrow> (of_char c :: nat) < 128 \<Longrightarrow> trimmed (a @ c # b)"
  by (simp add: trimmed_def)

lemma pair_text_plain: "trimmed (pair_text p)" "\<not> contains_invalid_header_char (pair_text p)" "CHR '';'' \<notin> set (pair_text p)"
proof -
  show "trimmed (pair_text p)"
    using trimmed_between [of "decimal (unat (fst p))" "decimal (unat (snd p))" "CHR ''-''"] by (simp add: pair_text_def)
  show "\<not> contains_invalid_header_char (pair_text p)"
    by (simp add: pair_text_def decimal_no_invalid) (simp add: invalid_header_char_def)
  show "CHR '';'' \<notin> set (pair_text p)" by (simp add: pair_text_def not_in_decimal is_ascii_digit_def)
qed

lemma hex_pad_no_0x: "strip_prefix ''0x'' (hex_pad k n) = None"
proof -
  have "CHR ''x'' \<notin> set (hex_pad k n)" by (rule not_in_hex_pad) simp
  then show ?thesis by (auto simp: strip_prefix_def starts_with_str_iff)
qed

lemma parse_ssrc_hex: "parse_ssrc (hex_pad 8 (unat (n :: u32))) = Inr n"
proof -
  have "unat n < 2 ^ 32" using unat_less [of n] by simp
  then have "parse_hex 32 (hex_pad 8 (unat n)) = Some (unat n)" by (intro parse_hex_pad) simp_all
  then show ?thesis using hex_pad_trimmed [of 8 "unat n"] by (simp add: parse_ssrc_def hex_pad_no_0x)
qed

lemma trim_quotes_quoted:
  assumes "m \<noteq> [] \<longrightarrow> hd m \<noteq> CHR 0x22 \<and> last m \<noteq> CHR 0x22"
  shows "trim_quotes ([CHR 0x22] @ m @ [CHR 0x22]) = m"
proof (cases "m = []")
  case False
  then have "dropWhile (\<lambda>c. c = CHR 0x22) (m @ x) = m @ x" "dropWhile (\<lambda>c. c = CHR 0x22) (rev m) = rev m" for x
    using assms by (cases m; cases "rev m"; auto simp: hd_rev [symmetric])+
  then show ?thesis by (simp add: trim_quotes_def)
qed (simp add: trim_quotes_def)

lemma quoted_trim: "trim ([CHR 0x22] @ m @ [CHR 0x22]) = [CHR 0x22] @ m @ [CHR 0x22]"
proof -
  have c: "(of_char (CHR 0x22) :: nat) < 128" "\<not> is_space (CHR 0x22)" by (simp_all add: is_space_iff)
  have "trim_end [] = []" "trim_start [] = []" by (simp_all add: trim_ascii)
  then show ?thesis
    using trim_around(3) [OF c, of "[]" "m @ [CHR 0x22]"] trim_around(2) [OF c, of m "[]"] by simp
qed

lemma opt_part_parts:
  assumes "\<And>v. x = Some v \<Longrightarrow> transport_part t (f v) = Inr (upd v)"
  shows "transport_parts t (opt_part x f) = Inr (case x of None \<Rightarrow> t | Some v \<Rightarrow> upd v)"
  using assms by (cases x) (simp_all add: opt_part_def)

lemmas keyword_simps = transport_parameter_def eq_ignore_ascii_case_def ascii_lower_def

lemma field_parts:
  "transport_parts t (opt_part p (show_pair ''interleaved'')) =
     Inr (case p of None \<Rightarrow> t | Some v \<Rightarrow> t\<lparr>tr_interleaved := Some v\<rparr>)"
  "transport_parts t (opt_part q (show_pair ''port'')) = Inr (case q of None \<Rightarrow> t | Some v \<Rightarrow> t\<lparr>tr_port := Some v\<rparr>)"
  "transport_parts t (opt_part q (show_pair ''client_port'')) =
     Inr (case q of None \<Rightarrow> t | Some v \<Rightarrow> t\<lparr>tr_client_port := Some v\<rparr>)"
  "transport_parts t (opt_part q (show_pair ''server_port'')) =
     Inr (case q of None \<Rightarrow> t | Some v \<Rightarrow> t\<lparr>tr_server_port := Some v\<rparr>)"
proof -
  have s: "show_pair k v = k @ ''='' @ pair_text v" for k and v :: "'a::len word \<times> 'a word"
    by (simp add: show_pair_def pair_text_def)
  have p: "transport_part t (show_pair k v) = transport_parameter t k (pair_text v)" if "plain_key k"
    for k and v :: "'a::len word \<times> 'a word"
    unfolding s by (rule transport_part_parameter [OF that]) (simp_all add: pair_text_plain)
  show "transport_parts t (opt_part p (show_pair ''interleaved'')) =
     Inr (case p of None \<Rightarrow> t | Some v \<Rightarrow> t\<lparr>tr_interleaved := Some v\<rparr>)"
    by (rule opt_part_parts) (simp add: p plain_keys parse_pair_text keyword_simps)
  show "transport_parts t (opt_part q (show_pair ''port'')) = Inr (case q of None \<Rightarrow> t | Some v \<Rightarrow> t\<lparr>tr_port := Some v\<rparr>)"
    by (rule opt_part_parts) (simp add: p plain_keys parse_pair_text keyword_simps)
  show "transport_parts t (opt_part q (show_pair ''client_port'')) =
     Inr (case q of None \<Rightarrow> t | Some v \<Rightarrow> t\<lparr>tr_client_port := Some v\<rparr>)"
    by (rule opt_part_parts) (simp add: p plain_keys parse_pair_text keyword_simps)
  show "transport_parts t (opt_part q (show_pair ''server_port'')) =
     Inr (case q of None \<Rightarrow> t | Some v \<Rightarrow> t\<lparr>tr_server_port := Some v\<rparr>)"
    by (rule opt_part_parts) (simp add: p plain_keys parse_pair_text keyword_simps)
qed

lemma field_parts_plain:
  assumes "\<And>v. d = Some v \<Longrightarrow> plain_value v"
  shows "transport_parts t (opt_part d (\<lambda>d. ''destination='' @ d)) =
      Inr (case d of None \<Rightarrow> t | Some v \<Rightarrow> t\<lparr>tr_destination := Some v\<rparr>)"
    and "transport_parts t (opt_part d (\<lambda>s. ''source='' @ s)) =
      Inr (case d of None \<Rightarrow> t | Some v \<Rightarrow> t\<lparr>tr_source := Some v\<rparr>)"
proof -
  have p: "transport_part t (k @ ''='' @ v) = transport_parameter t k v" if "plain_key k" "d = Some v" for k v
    by (rule transport_part_parameter [OF that(1)]) (use assms [OF that(2)] in \<open>simp_all add: plain_value_def\<close>)
  show "transport_parts t (opt_part d (\<lambda>d. ''destination='' @ d)) =
      Inr (case d of None \<Rightarrow> t | Some v \<Rightarrow> t\<lparr>tr_destination := Some v\<rparr>)"
    by (rule opt_part_parts) (use p [OF plain_keys(1)] in \<open>simp add: keyword_simps\<close>)
  show "transport_parts t (opt_part d (\<lambda>s. ''source='' @ s)) =
      Inr (case d of None \<Rightarrow> t | Some v \<Rightarrow> t\<lparr>tr_source := Some v\<rparr>)"
    by (rule opt_part_parts) (use p [OF plain_keys(2)] in \<open>simp add: keyword_simps\<close>)
qed

lemma field_parts_numbers:
  "transport_parts t (opt_part l (\<lambda>n. ''ttl='' @ decimal (unat n))) =
     Inr (case l of None \<Rightarrow> t | Some v \<Rightarrow> t\<lparr>tr_ttl := Some v\<rparr>)"
  "transport_parts t (opt_part m (\<lambda>n. ''layers='' @ decimal (unat n))) =
     Inr (case m of None \<Rightarrow> t | Some v \<Rightarrow> t\<lparr>tr_layers := Some v\<rparr>)"
  "transport_parts t (opt_part m (\<lambda>n. ''ssrc='' @ hex_pad 8 (unat n))) =
     Inr (case m of None \<Rightarrow> t | Some v \<Rightarrow> t\<lparr>tr_ssrc := Some v\<rparr>)"
proof -
  have d: "transport_part t (k @ ''='' @ decimal n) = transport_parameter t k (decimal n)" if "plain_key k" for k n
    by (rule transport_part_parameter [OF that]) (simp_all add: decimal_no_invalid)
  have h: "transport_part t (k @ ''='' @ hex_pad 8 n) = transport_parameter t k (hex_pad 8 n)" if "plain_key k" for k n
    by (rule transport_part_parameter [OF that]) (simp_all add: hex_no_invalid hex_pad_trimmed)
  have i: "parse_int 8 k (decimal (unat a)) = Inr (unat a)" "parse_int 32 k (decimal (unat b)) = Inr (unat b)"
    for k and a :: u8 and b :: u32
    using unat_less [of a] unat_less [of b] by (simp_all add: parse_int_decimal)
  show "transport_parts t (opt_part l (\<lambda>n. ''ttl='' @ decimal (unat n))) =
     Inr (case l of None \<Rightarrow> t | Some v \<Rightarrow> t\<lparr>tr_ttl := Some v\<rparr>)"
    by (rule opt_part_parts)
      (use d [OF plain_keys(4)] in \<open>simp add: i keyword_simps\<close>)
  show "transport_parts t (opt_part m (\<lambda>n. ''layers='' @ decimal (unat n))) =
     Inr (case m of None \<Rightarrow> t | Some v \<Rightarrow> t\<lparr>tr_layers := Some v\<rparr>)"
    by (rule opt_part_parts)
      (use d [OF plain_keys(5)] in \<open>simp add: i keyword_simps\<close>)
  show "transport_parts t (opt_part m (\<lambda>n. ''ssrc='' @ hex_pad 8 (unat n))) =
     Inr (case m of None \<Rightarrow> t | Some v \<Rightarrow> t\<lparr>tr_ssrc := Some v\<rparr>)"
    by (rule opt_part_parts) (use h [OF plain_keys(9)] in \<open>simp add: parse_ssrc_hex keyword_simps\<close>)
qed

lemma field_parts_mode:
  assumes "\<And>m. x = Some m \<Longrightarrow> \<not> contains_invalid_header_char m \<and> (m \<noteq> [] \<longrightarrow> hd m \<noteq> CHR 0x22 \<and> last m \<noteq> CHR 0x22)"
  shows "transport_parts t (opt_part x (\<lambda>m. ''mode='' @ [CHR 0x22] @ m @ [CHR 0x22])) =
    Inr (case x of None \<Rightarrow> t | Some m \<Rightarrow> t\<lparr>tr_mode := Some m\<rparr>)"
proof (rule opt_part_parts)
  fix m
  assume m: "x = Some m"
  let ?q = "[CHR 0x22] @ m @ [CHR 0x22]"
  have "\<not> contains_invalid_header_char ?q" using assms [OF m] by (simp add: invalid_header_char_def)
  with transport_part_parameter [OF plain_keys(10) quoted_trim] trim_quotes_quoted assms [OF m]
  show "transport_part t (''mode='' @ ?q) = Inr (t\<lparr>tr_mode := Some m\<rparr>)"
    by (simp add: keyword_simps)
qed

lemma field_parts_flags:
  "transport_parts t [if b then ''unicast'' else ''multicast''] = Inr (t\<lparr>tr_unicast := b\<rparr>)"
  "transport_parts t (if b then [''append''] else []) = Inr (if b then t\<lparr>tr_append := True\<rparr> else t)"
  by (simp_all add: transport_part_def eq_ignore_ascii_case_def ascii_lower_def)

lemma set_option_field:
  "tr_interleaved t = None \<Longrightarrow> (case x0 of None \<Rightarrow> t | Some v \<Rightarrow> t\<lparr>tr_interleaved := Some v\<rparr>) = t\<lparr>tr_interleaved := x0\<rparr>"
  "tr_client_port t = None \<Longrightarrow> (case x1 of None \<Rightarrow> t | Some v \<Rightarrow> t\<lparr>tr_client_port := Some v\<rparr>) = t\<lparr>tr_client_port := x1\<rparr>"
  "tr_server_port t = None \<Longrightarrow> (case x2 of None \<Rightarrow> t | Some v \<Rightarrow> t\<lparr>tr_server_port := Some v\<rparr>) = t\<lparr>tr_server_port := x2\<rparr>"
  "tr_ssrc t = None \<Longrightarrow> (case x3 of None \<Rightarrow> t | Some v \<Rightarrow> t\<lparr>tr_ssrc := Some v\<rparr>) = t\<lparr>tr_ssrc := x3\<rparr>"
  "tr_mode t = None \<Longrightarrow> (case x4 of None \<Rightarrow> t | Some v \<Rightarrow> t\<lparr>tr_mode := Some v\<rparr>) = t\<lparr>tr_mode := x4\<rparr>"
  "tr_destination t = None \<Longrightarrow> (case x5 of None \<Rightarrow> t | Some v \<Rightarrow> t\<lparr>tr_destination := Some v\<rparr>) = t\<lparr>tr_destination := x5\<rparr>"
  "tr_source t = None \<Longrightarrow> (case x6 of None \<Rightarrow> t | Some v \<Rightarrow> t\<lparr>tr_source := Some v\<rparr>) = t\<lparr>tr_source := x6\<rparr>"
  "tr_ttl t = None \<Longrightarrow> (case x7 of None \<Rightarrow> t | Some v \<Rightarrow> t\<lparr>tr_ttl := Some v\<rparr>) = t\<lparr>tr_ttl := x7\<rparr>"
  "tr_layers t = None \<Longrightarrow> (case x8 of None \<Rightarrow> t | Some v \<Rightarrow> t\<lparr>tr_layers := Some v\<rparr>) = t\<lparr>tr_layers := x8\<rparr>"
  "tr_port t = None \<Longrightarrow> (case x9 of None \<Rightarrow> t | Some v \<Rightarrow> t\<lparr>tr_port := Some v\<rparr>) = t\<lparr>tr_port := x9\<rparr>"
  "\<not> tr_append t \<Longrightarrow> (if b then t\<lparr>tr_append := True\<rparr> else t) = t\<lparr>tr_append := b\<rparr>"
proof -
  show "tr_interleaved t = None \<Longrightarrow> (case x0 of None \<Rightarrow> t | Some v \<Rightarrow> t\<lparr>tr_interleaved := Some v\<rparr>) = t\<lparr>tr_interleaved := x0\<rparr>"
    by (cases x0; cases t) simp_all
  show "tr_client_port t = None \<Longrightarrow> (case x1 of None \<Rightarrow> t | Some v \<Rightarrow> t\<lparr>tr_client_port := Some v\<rparr>) = t\<lparr>tr_client_port := x1\<rparr>"
    by (cases x1; cases t) simp_all
  show "tr_server_port t = None \<Longrightarrow> (case x2 of None \<Rightarrow> t | Some v \<Rightarrow> t\<lparr>tr_server_port := Some v\<rparr>) = t\<lparr>tr_server_port := x2\<rparr>"
    by (cases x2; cases t) simp_all
  show "tr_ssrc t = None \<Longrightarrow> (case x3 of None \<Rightarrow> t | Some v \<Rightarrow> t\<lparr>tr_ssrc := Some v\<rparr>) = t\<lparr>tr_ssrc := x3\<rparr>"
    by (cases x3; cases t) simp_all
  show "tr_mode t = None \<Longrightarrow> (case x4 of None \<Rightarrow> t | Some v \<Rightarrow> t\<lparr>tr_mode := Some v\<rparr>) = t\<lparr>tr_mode := x4\<rparr>"
    by (cases x4; cases t) simp_all
  show "tr_destination t = None \<Longrightarrow> (case x5 of None \<Rightarrow> t | Some v \<Rightarrow> t\<lparr>tr_destination := Some v\<rparr>) = t\<lparr>tr_destination := x5\<rparr>"
    by (cases x5; cases t) simp_all
  show "tr_source t = None \<Longrightarrow> (case x6 of None \<Rightarrow> t | Some v \<Rightarrow> t\<lparr>tr_source := Some v\<rparr>) = t\<lparr>tr_source := x6\<rparr>"
    by (cases x6; cases t) simp_all
  show "tr_ttl t = None \<Longrightarrow> (case x7 of None \<Rightarrow> t | Some v \<Rightarrow> t\<lparr>tr_ttl := Some v\<rparr>) = t\<lparr>tr_ttl := x7\<rparr>"
    by (cases x7; cases t) simp_all
  show "tr_layers t = None \<Longrightarrow> (case x8 of None \<Rightarrow> t | Some v \<Rightarrow> t\<lparr>tr_layers := Some v\<rparr>) = t\<lparr>tr_layers := x8\<rparr>"
    by (cases x8; cases t) simp_all
  show "tr_port t = None \<Longrightarrow> (case x9 of None \<Rightarrow> t | Some v \<Rightarrow> t\<lparr>tr_port := Some v\<rparr>) = t\<lparr>tr_port := x9\<rparr>"
    by (cases x9; cases t) simp_all
  show "\<not> tr_append t \<Longrightarrow> (if b then t\<lparr>tr_append := True\<rparr> else t) = t\<lparr>tr_append := b\<rparr>"
    by (cases b; cases t) simp_all
qed

lemma transport_parts_header:
  assumes "transport_plain t"
  shows "transport_parts (transport_default\<lparr>tr_protocol := tr_protocol t\<rparr>) (tl (transport_header_parts t)) = Inr t"
proof -
  have "tl (transport_header_parts t) =
    [if tr_unicast t then ''unicast'' else ''multicast''] @ opt_part (tr_destination t) (\<lambda>d. ''destination='' @ d)
     @ opt_part (tr_source t) (\<lambda>s. ''source='' @ s)
     @ opt_part (tr_interleaved t) (show_pair ''interleaved'')
     @ (if tr_append t then [''append''] else [])
     @ opt_part (tr_ttl t) (\<lambda>n. ''ttl='' @ decimal (unat n))
     @ opt_part (tr_layers t) (\<lambda>n. ''layers='' @ decimal (unat n))
     @ opt_part (tr_port t) (show_pair ''port'')
     @ opt_part (tr_client_port t) (show_pair ''client_port'')
     @ opt_part (tr_server_port t) (show_pair ''server_port'')
     @ opt_part (tr_ssrc t) (\<lambda>n. ''ssrc='' @ hex_pad 8 (unat n))
     @ opt_part (tr_mode t) (\<lambda>m. ''mode='' @ [CHR 0x22] @ m @ [CHR 0x22])"
    unfolding transport_header_parts_def append_Cons append_Nil list.sel ..
  moreover have "\<And>v. tr_destination t = Some v \<Longrightarrow> plain_value v" "\<And>v. tr_source t = Some v \<Longrightarrow> plain_value v"
    "\<And>m. tr_mode t = Some m \<Longrightarrow> \<not> contains_invalid_header_char m \<and>
        (m \<noteq> [] \<longrightarrow> hd m \<noteq> CHR 0x22 \<and> last m \<noteq> CHR 0x22)"
    using assms by (simp_all add: transport_plain_def)
  note f = field_parts_plain(1) [OF this(1)] field_parts_plain(2) [OF this(2)] field_parts_mode [OF this(3)]
  ultimately show ?thesis
    by (simp only: transport_parts_append field_parts_flags f field_parts field_parts_numbers sbind_Inr)
      (simp add: set_option_field transport_default_def)
qed

text \<open>Every part of a header survives being joined and split again.\<close>

lemma trim_end_idle: "trim s = s \<Longrightarrow> trim_end s = s"
  using trim_idle(1) [of s] by (simp add: trim_def)

lemma plain_value_parameter:
  assumes "plain_key k" "plain_value v"
  shows "plain_value (k @ ''='' @ v)"
proof -
  have c: "(of_char (CHR ''='') :: nat) < 128" "\<not> is_space (CHR ''='')" by (simp_all add: is_space_iff)
  have "trim (k @ CHR ''='' # v) = trim_start k @ CHR ''='' # trim_end v" by (rule trim_around(3) [OF c])
  then have "trim (k @ ''='' @ v) = k @ ''='' @ v"
    using assms trim_end_idle [of v] by (simp add: plain_key_def plain_value_def)
  then show ?thesis using assms by (simp add: plain_key_def plain_value_def invalid_header_char_def)
qed

lemma plain_value_texts:
  "plain_value (decimal n)" "plain_value (hex_pad k n)" "plain_value (pair_text p)"
  by (simp_all add: plain_value_def decimal_no_invalid hex_no_invalid hex_pad_trimmed pair_text_plain
      not_in_decimal not_in_hex_pad is_ascii_digit_def)

lemma plain_value_words: "plain_value ''unicast''" "plain_value ''multicast''" "plain_value ''append''"
  by (simp_all add: plain_value_def trimmed_def is_space_iff contains_invalid_header_char_def invalid_header_char_def)

lemma plain_value_protocol:
  assumes "is_valid_transport_protocol p"
  shows "plain_value p" "trimmed p" "p \<noteq> []"
proof -
  have *: "(of_char c :: nat) < 128 \<and> \<not> is_space c \<and> c \<noteq> CHR '';'' \<and> \<not> invalid_header_char c" if "c \<in> set p" for c
    using assms that
    by (auto simp: is_valid_transport_protocol_def list_all_iff is_ascii_alphanumeric_def Let_def is_space_iff
        invalid_header_char_def)
  show "p \<noteq> []" using assms by (simp add: is_valid_transport_protocol_def)
  with * show t: "trimmed p" by (simp add: trimmed_def ascii_def list_all_iff)
  from t * show "plain_value p"
    by (auto simp: plain_value_def contains_invalid_header_char_def list_ex_iff)
qed

lemma opt_part_plain: "(\<And>v. x = Some v \<Longrightarrow> plain_value (f v)) \<Longrightarrow> \<forall>p \<in> set (opt_part x f). plain_value p"
  by (cases x) (simp_all add: opt_part_def)

lemma transport_header_parts_plain:
  assumes "transport_plain t"
  shows "\<forall>p \<in> set (transport_header_parts t). plain_value p"
proof -
  have pair: "\<forall>p \<in> set (opt_part x (show_pair k)). plain_value p" if "plain_key k" for k and x :: "('a::len word \<times> 'a word) option"
    using plain_value_parameter [OF that plain_value_texts(3)]
    by (intro opt_part_plain) (simp add: show_pair_def pair_text_def)
  have num: "\<forall>p \<in> set (opt_part x (\<lambda>n. k @ ''='' @ decimal (unat n))). plain_value p" if "plain_key k" for k
      and x :: "'a::len word option"
    by (intro opt_part_plain plain_value_parameter [OF that] plain_value_texts)
  have hex: "\<forall>p \<in> set (opt_part (tr_ssrc t) (\<lambda>n. ''ssrc='' @ hex_pad 8 (unat n))). plain_value p"
    using plain_value_parameter [OF plain_keys(9) plain_value_texts(2)] by (intro opt_part_plain) simp
  have dst: "\<forall>p \<in> set (opt_part (tr_destination t) (\<lambda>d. ''destination='' @ d)). plain_value p"
    using assms plain_value_parameter [OF plain_keys(1)] by (intro opt_part_plain) (simp add: transport_plain_def)
  have src: "\<forall>p \<in> set (opt_part (tr_source t) (\<lambda>s. ''source='' @ s)). plain_value p"
    using assms plain_value_parameter [OF plain_keys(2)] by (intro opt_part_plain) (simp add: transport_plain_def)
  have mode: "\<forall>p \<in> set (opt_part (tr_mode t) (\<lambda>m. ''mode='' @ [CHR 0x22] @ m @ [CHR 0x22])). plain_value p"
  proof (rule opt_part_plain)
    fix m
    assume "tr_mode t = Some m"
    then have "CHR '';'' \<notin> set m" "\<not> contains_invalid_header_char m" using assms by (simp_all add: transport_plain_def)
    then have "plain_value ([CHR 0x22] @ m @ [CHR 0x22])"
      using quoted_trim [of m] by (simp add: plain_value_def invalid_header_char_def)
    from plain_value_parameter [OF plain_keys(10) this] show "plain_value (''mode='' @ [CHR 0x22] @ m @ [CHR 0x22])" by simp
  qed
  have "is_valid_transport_protocol (tr_protocol t)" using assms by (simp add: transport_plain_def)
  note proto = plain_value_protocol(1) [OF this]
  have ttl: "\<forall>p \<in> set (opt_part (tr_ttl t) (\<lambda>n. ''ttl='' @ decimal (unat n))). plain_value p"
    using num [OF plain_keys(4), of "tr_ttl t"] by simp
  have layers: "\<forall>p \<in> set (opt_part (tr_layers t) (\<lambda>n. ''layers='' @ decimal (unat n))). plain_value p"
    using num [OF plain_keys(5), of "tr_layers t"] by simp
  show ?thesis
    unfolding transport_header_parts_def set_append ball_Un
    by (intro conjI dst src mode hex ttl layers pair plain_keys) (use proto plain_value_words in simp_all)
qed

lemma trim_end_join:
  "xs \<noteq> [] \<Longrightarrow> \<forall>x \<in> set xs. plain_value x \<Longrightarrow> trim_end (join '';'' xs) = join '';'' xs"
proof (induction "'';''" xs rule: join.induct)
  case (2 x)
  then show ?case by (simp add: plain_value_def trim_end_idle)
next
  case (3 x y xs)
  have c: "(of_char (CHR '';'') :: nat) < 128" "\<not> is_space (CHR '';'')" by (simp_all add: is_space_iff)
  from 3 show ?case by (simp add: trim_around(2) [OF c])
qed simp

lemma join_no_invalid:
  "\<forall>x \<in> set xs. plain_value x \<Longrightarrow> \<not> contains_invalid_header_char (join '';'' xs)"
  by (induction "'';''" xs rule: join.induct) (simp_all add: plain_value_def invalid_header_char_def)

lemma transport_header_parse:
  assumes "transport_plain t"
  shows "transport_parse (transport_to_header t) = Inr t"
proof -
  let ?ps = "transport_header_parts t" and ?h = "transport_to_header t"
  have pl: "\<forall>p \<in> set ?ps. plain_value p" by (rule transport_header_parts_plain [OF assms])
  have proto: "is_valid_transport_protocol (tr_protocol t)" using assms by (simp add: transport_plain_def)
  obtain q qs where ps: "?ps = tr_protocol t # q # qs" unfolding transport_header_parts_def by simp
  have c: "(of_char (CHR '';'') :: nat) < 128" "\<not> is_space (CHR '';'')" by (simp_all add: is_space_iff)
  have "?h = tr_protocol t @ CHR '';'' # join '';'' (q # qs)" by (simp add: transport_to_header_def ps)
  moreover have "trim_end (join '';'' (q # qs)) = join '';'' (q # qs)" by (rule trim_end_join) (use pl ps in auto)
  moreover have "trim_start (tr_protocol t) = tr_protocol t" using plain_value_protocol(2) [OF proto] by simp
  ultimately have trim: "trim ?h = ?h" by (simp only: trim_around(3) [OF c])
  have ne: "?h \<noteq> []" by (simp add: transport_to_header_def ps)
  have inv: "\<not> contains_invalid_header_char ?h" unfolding transport_to_header_def by (rule join_no_invalid [OF pl])
  have "split_str '';'' ?h = ?ps"
    unfolding transport_to_header_def by (rule split_join) (use pl ps in \<open>auto simp: plain_value_def\<close>)
  moreover have "map trim ?ps = ?ps" by (rule map_idI) (use pl in \<open>simp add: plain_value_def\<close>)
  ultimately have "map trim (split_str '';'' ?h) = tr_protocol t # q # qs" by (simp add: ps)
  then show ?thesis
    using transport_parts_header [OF assms] trim ne inv proto by (simp add: transport_parse_def ps)
qed

text \<open>
  A Transport header that the code writes is read back as the same transport, every field of it, when the
  protocol is one that the parser accepts and the free text in it (destination, source, mode) has no semicolon, no
  control character and, for the mode, no quotation mark at its ends.
\<close>

lemma transport_roundtrip:
  assumes "transport_plain t"
  shows "transport_parse (transport_to_header t) = Inr t"
  by (rule transport_header_parse [OF assms])

lemma transport_roundtrip_witness:
  "transport_parse (transport_to_header (rtp_avp_tcp_interleaved 0 1\<lparr>tr_mode := Some ''PLAY''\<rparr>)) =
     Inr (rtp_avp_tcp_interleaved 0 1\<lparr>tr_mode := Some ''PLAY''\<rparr>)"
  by (rule transport_roundtrip)
    (simp add: transport_plain_def rtp_avp_tcp_interleaved_def transport_default_def is_valid_transport_protocol_def
      is_ascii_alphanumeric_def contains_invalid_header_char_def invalid_header_char_def)

end
