(* ===== verification/Rtsp_Compat.thy ===== *)
theory Rtsp_Compat
  imports Rtsp_Transport
begin

text \<open>
  \<^verbatim>\<open>compat.rs\<close>: the places where the RTSP stack is lenient with other implementations.
\<close>

definition ascii_upper :: "char \<Rightarrow> char" where
  "ascii_upper c = (let n = of_char c :: nat in if 97 \<le> n \<and> n \<le> 122 then char_of (n - 32) else c)"

definition strip_suffix :: "string \<Rightarrow> string \<Rightarrow> string option" where
  "strip_suffix pat s = map_option rev (strip_prefix (rev pat) (rev s))"

definition strip_sdp_suffix :: "string \<Rightarrow> string" where
  "strip_sdp_suffix url =
     (case strip_suffix ''.sdp'' url of
        Some r \<Rightarrow> r
      | None \<Rightarrow> (case strip_suffix ''.SDP'' url of Some r \<Rightarrow> r | None \<Rightarrow> url))"

definition resolve_control_url :: "string \<Rightarrow> string \<Rightarrow> string" where
  "resolve_control_url base_url control =
     (let c = trim control in
      if c = ''*'' \<or> c = [] then base_url
      else if starts_with_str ''rtsp://'' c \<or> starts_with_str ''rtsps://'' c then c
      else
        let base = rev (dropWhile (\<lambda>x. x = CHR ''/'') (rev base_url));
            relative = dropWhile (\<lambda>x. x = CHR ''/'') c in
        base @ ''/'' @ relative)"

definition default_clock_rate :: "string \<Rightarrow> nat" where
  "default_clock_rate codec_name =
     (let upper = map ascii_upper codec_name in
      if upper \<in> set [''H264'', ''H265'', ''VP8'', ''VP9'', ''AV1'', ''MP2T'', ''JPEG'', ''MP4V-ES'', ''MPA''] then 90000
      else if upper \<in> set [''MPEG4-GENERIC'', ''MP4A-LATM''] then 44100
      else if upper = ''OPUS'' then 48000
      else if upper \<in> set [''PCMA'', ''PCMU'', ''G711A'', ''G711U'', ''G722'', ''G728'', ''G729'', ''TELEPHONE-EVENT''] then 8000
      else if upper = ''L16'' then 44100
      else 90000)"

definition normalize_range_now :: "string \<Rightarrow> string" where
  "normalize_range_now r =
     (if eq_ignore_ascii_case (trim r) ''npt=now-'' \<or> eq_ignore_ascii_case (trim r) ''npt = now-''
      then ''npt=0.000-'' else r)"

definition parse_redirect_location :: "(string \<times> string) list \<Rightarrow> string option" where
  "parse_redirect_location headers =
     (case find (\<lambda>(name, _). eq_ignore_ascii_case name ''location'') headers of
        None \<Rightarrow> None
      | Some (_, url) \<Rightarrow>
          if starts_with_str ''rtsp://'' url \<or> starts_with_str ''rtsps://'' url then Some url else None)"

definition normalize_transport :: "rtsp_transport \<Rightarrow> rtsp_transport" where
  "normalize_transport t =
     (let proto_upper = map ascii_upper (tr_protocol t);
          t1 = (if starts_with_str ''RTP/AVP'' proto_upper \<and> split_once ''MULTICAST'' proto_upper = None
                  \<and> tr_destination t = None \<and> tr_ttl t = None
                then t\<lparr>tr_unicast := True\<rparr> else t) in
      if proto_upper = ''RTP/AVP'' then t1\<lparr>tr_protocol := ''RTP/AVP''\<rparr>
      else if proto_upper = ''RTP/AVP/TCP'' then t1\<lparr>tr_protocol := ''RTP/AVP/TCP''\<rparr>
      else if proto_upper = ''RTP/AVP/UDP'' then t1\<lparr>tr_protocol := ''RTP/AVP''\<rparr>
      else t1)"

text \<open>
  A relative control URL is the base, one slash and the relative part, whatever slashes the two had where they
  meet; an absolute one replaces the base.
\<close>

lemma resolve_relative:
  assumes "trimmed c" "c \<noteq> []" "c \<noteq> ''*''" "hd c \<noteq> CHR ''/''" "base = [] \<or> last base \<noteq> CHR ''/''"
    "\<not> starts_with_str ''rtsp://'' c" "\<not> starts_with_str ''rtsps://'' c"
  shows "resolve_control_url (base @ replicate n (CHR ''/'')) c = base @ ''/'' @ c"
proof -
  have "dropWhile (\<lambda>x. x = CHR ''/'') (replicate n (CHR ''/'') @ rev base) = rev base"
    using assms(5) by (induction n) (auto intro: dropWhile_hd simp: hd_rev)
  moreover have "dropWhile (\<lambda>x. x = CHR ''/'') c = c" using assms(2,4) by (cases c) auto
  ultimately show ?thesis using assms by (simp add: resolve_control_url_def)
qed

text \<open>
  The comment on \<^verbatim>\<open>normalize_transport\<close> makes unicast the default when nothing is specified; a transport that asks
  for multicast without a destination or ttl is made unicast as well.
\<close>

lemma explicit_multicast_becomes_unicast:
  "\<exists>t. transport_parse ''RTP/AVP;multicast'' = Inr t \<and> \<not> tr_unicast t \<and> tr_unicast (normalize_transport t)"
proof -
  let ?t = "transport_default\<lparr>tr_protocol := ''RTP/AVP''\<rparr>"
  have p: "transport_plain ?t"
    by (simp add: transport_plain_def transport_default_def is_valid_transport_protocol_def is_ascii_alphanumeric_def)
  have h: "transport_to_header ?t = ''RTP/AVP;multicast''"
    by (simp add: transport_to_header_def transport_header_parts_def transport_default_def opt_part_def)
  have "transport_parse (transport_to_header ?t) = Inr ?t"
    by (rule transport_header_parse [OF p])
  then show ?thesis
    unfolding h
    by (auto simp: transport_default_def normalize_transport_def ascii_upper_def starts_with_str_def Let_def
        split_once_absent)
qed

end
