(* ===== verification/Rtsp_Message.thy ===== *)
theory Rtsp_Message
  imports Rtmp_Bytes Rust_Text
begin

text \<open>
  RTSP messages: \<^verbatim>\<open>rtsp/core/src/core/method.rs\<close>, \<^verbatim>\<open>limits.rs\<close> and \<^verbatim>\<open>message.rs\<close>. Text is its UTF-8 bytes, one
  character each; the receive buffer is a byte string, and a routine that splits a message off it returns
  the buffer that is left. Sizes are natural numbers below \<open>2 ^ 64\<close>.
\<close>

section \<open>Methods\<close>

datatype rtsp_method =
  Rtsp_Get | Rtsp_Post | Rtsp_Options | Rtsp_Describe | Rtsp_Announce | Rtsp_Setup | Rtsp_Play | Rtsp_Pause
| Rtsp_Teardown | Rtsp_Get_Parameter | Rtsp_Set_Parameter | Rtsp_Redirect | Rtsp_Record
| Rtsp_Extension string

fun method_str :: "rtsp_method \<Rightarrow> string" where
  "method_str Rtsp_Get = ''GET''"
| "method_str Rtsp_Post = ''POST''"
| "method_str Rtsp_Options = ''OPTIONS''"
| "method_str Rtsp_Describe = ''DESCRIBE''"
| "method_str Rtsp_Announce = ''ANNOUNCE''"
| "method_str Rtsp_Setup = ''SETUP''"
| "method_str Rtsp_Play = ''PLAY''"
| "method_str Rtsp_Pause = ''PAUSE''"
| "method_str Rtsp_Teardown = ''TEARDOWN''"
| "method_str Rtsp_Get_Parameter = ''GET_PARAMETER''"
| "method_str Rtsp_Set_Parameter = ''SET_PARAMETER''"
| "method_str Rtsp_Redirect = ''REDIRECT''"
| "method_str Rtsp_Record = ''RECORD''"
| "method_str (Rtsp_Extension value) = value"

definition method_parse :: "string \<Rightarrow> rtsp_method" where
  "method_parse value =
     (if value = ''GET'' then Rtsp_Get
      else if value = ''POST'' then Rtsp_Post
      else if value = ''OPTIONS'' then Rtsp_Options
      else if value = ''DESCRIBE'' then Rtsp_Describe
      else if value = ''ANNOUNCE'' then Rtsp_Announce
      else if value = ''SETUP'' then Rtsp_Setup
      else if value = ''PLAY'' then Rtsp_Play
      else if value = ''PAUSE'' then Rtsp_Pause
      else if value = ''TEARDOWN'' then Rtsp_Teardown
      else if value = ''GET_PARAMETER'' then Rtsp_Get_Parameter
      else if value = ''SET_PARAMETER'' then Rtsp_Set_Parameter
      else if value = ''REDIRECT'' then Rtsp_Redirect
      else if value = ''RECORD'' then Rtsp_Record
      else Rtsp_Extension value)"

lemma method_str_parse [simp]: "method_str (method_parse s) = s"
  by (simp add: method_parse_def)

section \<open>Errors and limits\<close>

datatype rtsp_error =
  Invalid_Utf8 | Invalid_Start_Line | Invalid_Content_Length | Invalid_Header_Line
| Invalid_Message_Field string | Unexpected_Response | Unexpected_Request
| Interleaved_Payload_Too_Large nat
| Interleaved_Limit (limit_max: nat) (limit_actual: nat)
| Buffer_Limit nat nat | Header_Count_Limit nat nat | Header_Line_Limit nat nat | Body_Limit nat nat

record rtsp_limits =
  max_buffer_size :: nat
  max_headers_count :: nat
  max_header_line_size :: nat
  max_body_size :: nat
  max_interleaved_frame_size :: nat
  validate_version :: bool

definition default_limits :: rtsp_limits where
  "default_limits =
     \<lparr>max_buffer_size = 1024 * 1024, max_headers_count = 64, max_header_line_size = 8 * 1024,
      max_body_size = 512 * 1024, max_interleaved_frame_size = 64 * 1024, validate_version = True\<rparr>"

definition validate_buffer_growth :: "rtsp_limits \<Rightarrow> nat \<Rightarrow> nat \<Rightarrow> rtsp_error + unit" where
  "validate_buffer_growth limits current_len incoming_len =
     (if current_len + incoming_len \<ge> 2 ^ 64 then Inl (Buffer_Limit (max_buffer_size limits) (2 ^ 64 - 1))
      else if current_len + incoming_len > max_buffer_size limits
      then Inl (Buffer_Limit (max_buffer_size limits) (current_len + incoming_len))
      else Inr ())"

section \<open>Header blocks\<close>

abbreviation crlf :: string where "crlf \<equiv> [CHR 0x0D, CHR 0x0A]"

definition from_utf8 :: "bytes \<Rightarrow> rtsp_error + string" where
  "from_utf8 bs = (if utf8_valid bs then Inr (string_of_bytes bs) else Inl Invalid_Utf8)"

definition split_header_line :: "string \<Rightarrow> (string \<times> string) option" where
  "split_header_line line = map_option (\<lambda>(name, value). (trim name, trim value)) (split_once '':'' line)"

fun scan_content_length :: "string list \<Rightarrow> rtsp_error + nat" where
  "scan_content_length [] = Inr 0"
| "scan_content_length (line # lines) =
     (case split_header_line line of
        None \<Rightarrow> scan_content_length lines
      | Some (name, value) \<Rightarrow>
          if eq_ignore_ascii_case name ''content-length'' then ok_or Invalid_Content_Length (parse_uint 64 value)
          else scan_content_length lines)"

definition parse_content_length :: "bytes \<Rightarrow> rtsp_error + nat" where
  "parse_content_length headers =
     sbind (from_utf8 headers) (\<lambda>text. scan_content_length (split_str crlf text))"

fun find_header_end :: "bytes \<Rightarrow> nat option" where
  "find_header_end raw =
     (if take 4 raw = [13, 10, 13, 10] then Some 0
      else case raw of [] \<Rightarrow> None | _ # r \<Rightarrow> map_option Suc (find_header_end r))"

declare find_header_end.simps [simp del]

section \<open>Messages\<close>

record rtsp_header =
  header_name :: string
  header_value :: string

record rtsp_request_message =
  req_method :: string
  req_uri :: string
  req_version :: string
  req_headers :: "rtsp_header list"
  req_body :: bytes

record rtsp_response_message =
  resp_version :: string
  resp_status_code :: u16
  resp_reason_phrase :: string
  resp_headers :: "rtsp_header list"
  resp_body :: bytes

record rtsp_request =
  rq_method :: rtsp_method
  rq_uri :: string
  rq_version :: string
  rq_headers :: "rtsp_header list"
  rq_body :: bytes
  rq_cseq :: "u32 option"
  rq_session :: "string option"

datatype parsed_message =
  Incomplete | Parsed_Request rtsp_request_message | Parsed_Response rtsp_response_message

definition lookup_header :: "rtsp_header list \<Rightarrow> string \<Rightarrow> string option" where
  "lookup_header headers name =
     map_option header_value (find (\<lambda>h. eq_ignore_ascii_case (header_name h) name) headers)"

subsection \<open>Parsing\<close>

text \<open>\<open>n\<close> is the number of headers parsed so far.\<close>

fun parse_headers :: "rtsp_limits \<Rightarrow> nat \<Rightarrow> string list \<Rightarrow> rtsp_error + rtsp_header list" where
  "parse_headers limits n [] = Inr []"
| "parse_headers limits n (line # lines) =
     (if line = [] then parse_headers limits n lines
      else if length line > max_header_line_size limits
      then Inl (Header_Line_Limit (max_header_line_size limits) (length line))
      else if n = max_headers_count limits then Inl (Header_Count_Limit (max_headers_count limits) (n + 1))
      else
        case split_header_line line of
          None \<Rightarrow> Inl Invalid_Header_Line
        | Some (name, value) \<Rightarrow>
            sbind (parse_headers limits (n + 1) lines) (\<lambda>hs.
              Inr (\<lparr>header_name = name, header_value = value\<rparr> # hs)))"

definition parse_request_start_line :: "string \<Rightarrow> rtsp_error + string \<times> string \<times> string" where
  "parse_request_start_line start_line =
     (case split_whitespace start_line of
        [meth, uri, version] \<Rightarrow> Inr (meth, uri, version)
      | _ \<Rightarrow> Inl Invalid_Start_Line)"

definition parse_response_start_line :: "string \<Rightarrow> rtsp_error + string \<times> u16 \<times> string" where
  "parse_response_start_line start_line =
     (case split_once '' '' start_line of
        None \<Rightarrow> Inl Invalid_Start_Line
      | Some (version, rest) \<Rightarrow>
          (case split_once '' '' (trim_start rest) of
             None \<Rightarrow> Inl Invalid_Start_Line
           | Some (status_code_text, reason_phrase) \<Rightarrow>
               if version = [] \<or> CHR 0x0D \<in> set reason_phrase \<or> CHR 0x0A \<in> set reason_phrase
               then Inl Invalid_Start_Line
               else sbind (ok_or Invalid_Start_Line (parse_uint 16 status_code_text)) (\<lambda>status_code.
                 Inr (version, of_nat status_code, reason_phrase))))"

definition parse_rtsp_message :: "rtsp_limits \<Rightarrow> bytes \<Rightarrow> rtsp_error + parsed_message" where
  "parse_rtsp_message limits message =
     (case find_header_end message of
        None \<Rightarrow> Inl Invalid_Start_Line
      | Some header_end \<Rightarrow>
          let body = drop (header_end + 4) message in
          sbind (from_utf8 (take header_end message)) (\<lambda>headers_str.
            case split_str crlf headers_str of
              [] \<Rightarrow> Inl Invalid_Start_Line
            | start_line # lines \<Rightarrow>
                sbind (parse_headers limits 0 lines) (\<lambda>headers.
                  if starts_with_str ''RTSP/'' start_line
                  then sbind (parse_response_start_line start_line) (\<lambda>(version, status_code, reason_phrase).
                    Inr (Parsed_Response
                      \<lparr>resp_version = version, resp_status_code = status_code, resp_reason_phrase = reason_phrase,
                       resp_headers = headers, resp_body = body\<rparr>))
                  else sbind (parse_request_start_line start_line) (\<lambda>(meth, uri, version).
                    Inr (Parsed_Request
                      \<lparr>req_method = meth, req_uri = uri, req_version = version, req_headers = headers,
                       req_body = body\<rparr>)))))"

text \<open>The message is taken off the buffer before it is parsed, so an error of the parser consumes it.\<close>

definition try_parse_message :: "rtsp_limits \<Rightarrow> bytes \<Rightarrow> bytes \<times> (rtsp_error + parsed_message)" where
  "try_parse_message limits buffer =
     (case find_header_end buffer of
        None \<Rightarrow> (buffer, Inr Incomplete)
      | Some header_end \<Rightarrow>
          let header_len = header_end + 4 in
          (case parse_content_length (take header_len buffer) of
             Inl e \<Rightarrow> (buffer, Inl e)
           | Inr content_length \<Rightarrow>
               if content_length > max_body_size limits
               then (buffer, Inl (Body_Limit (max_body_size limits) content_length))
               else if header_len + content_length \<ge> 2 ^ 64
               then (buffer, Inl (Buffer_Limit (max_buffer_size limits) (2 ^ 64 - 1)))
               else if length buffer < header_len + content_length then (buffer, Inr Incomplete)
               else (drop (header_len + content_length) buffer,
                     parse_rtsp_message limits (take (header_len + content_length) buffer))))"

subsection \<open>Decoders\<close>

record rtsp_decoder =
  dec_buffer :: bytes
  dec_limits :: rtsp_limits

definition decoder_new :: "rtsp_limits \<Rightarrow> rtsp_decoder" where
  "decoder_new limits = \<lparr>dec_buffer = [], dec_limits = limits\<rparr>"

definition decoder_feed :: "rtsp_decoder \<Rightarrow> bytes \<Rightarrow> rtsp_decoder \<times> (rtsp_error + unit)" where
  "decoder_feed d data =
     (case validate_buffer_growth (dec_limits d) (length (dec_buffer d)) (length data) of
        Inl e \<Rightarrow> (d, Inl e)
      | Inr _ \<Rightarrow> (d\<lparr>dec_buffer := dec_buffer d @ data\<rparr>, Inr ()))"

definition decode_request :: "rtsp_decoder \<Rightarrow> rtsp_decoder \<times> (rtsp_error + rtsp_request_message option)" where
  "decode_request d =
     (case try_parse_message (dec_limits d) (dec_buffer d) of (b, r) \<Rightarrow>
        (d\<lparr>dec_buffer := b\<rparr>,
         sbind r (\<lambda>m. case m of
           Incomplete \<Rightarrow> Inr None
         | Parsed_Request request \<Rightarrow> Inr (Some request)
         | Parsed_Response _ \<Rightarrow> Inl Unexpected_Response)))"

definition decode_response :: "rtsp_decoder \<Rightarrow> rtsp_decoder \<times> (rtsp_error + rtsp_response_message option)" where
  "decode_response d =
     (case try_parse_message (dec_limits d) (dec_buffer d) of (b, r) \<Rightarrow>
        (d\<lparr>dec_buffer := b\<rparr>,
         sbind r (\<lambda>m. case m of
           Incomplete \<Rightarrow> Inr None
         | Parsed_Request _ \<Rightarrow> Inl Unexpected_Request
         | Parsed_Response response \<Rightarrow> Inr (Some response))))"

definition into_rtsp_request :: "rtsp_request_message \<Rightarrow> rtsp_request" where
  "into_rtsp_request request =
     \<lparr>rq_method = method_parse (req_method request), rq_uri = req_uri request, rq_version = req_version request,
      rq_headers = req_headers request, rq_body = req_body request,
      rq_cseq = Option.bind (lookup_header (req_headers request) ''cseq'')
                  (\<lambda>v. map_option of_nat (parse_uint 32 v)),
      rq_session = lookup_header (req_headers request) ''session''\<rparr>"

subsection \<open>Encoding\<close>

definition no_line_break :: "string \<Rightarrow> bool" where
  "no_line_break s \<longleftrightarrow> CHR 0x0D \<notin> set s \<and> CHR 0x0A \<notin> set s"

definition validate_start_line_field :: "string \<Rightarrow> string \<Rightarrow> rtsp_error + unit" where
  "validate_start_line_field value field_name =
     (if value = [] \<or> \<not> no_line_break value then Inl (Invalid_Message_Field field_name) else Inr ())"

definition validate_header_name :: "string \<Rightarrow> rtsp_error + unit" where
  "validate_header_name name =
     (if name = [] \<or> \<not> no_line_break name \<or> CHR '':'' \<in> set name
      then Inl (Invalid_Message_Field ''header_name'') else Inr ())"

definition validate_header_value :: "string \<Rightarrow> rtsp_error + unit" where
  "validate_header_value value =
     (if \<not> no_line_break value then Inl (Invalid_Message_Field ''header_value'') else Inr ())"

definition validate_reason_phrase :: "string \<Rightarrow> rtsp_error + unit" where
  "validate_reason_phrase value =
     (if \<not> no_line_break value then Inl (Invalid_Message_Field ''reason_phrase'') else Inr ())"

text \<open>The header lines, and whether one of them is a Content-Length.\<close>

fun encode_headers :: "rtsp_header list \<Rightarrow> rtsp_error + string \<times> bool" where
  "encode_headers [] = Inr ([], False)"
| "encode_headers (h # hs) =
     sbind (validate_header_name (header_name h)) (\<lambda>_.
     sbind (validate_header_value (header_value h)) (\<lambda>_.
     sbind (encode_headers hs) (\<lambda>(text, has_content_length).
       Inr (header_name h @ '': '' @ header_value h @ crlf @ text,
            eq_ignore_ascii_case (header_name h) ''content-length'' \<or> has_content_length))))"

definition content_length_line :: "nat \<Rightarrow> string" where
  "content_length_line n = ''Content-Length: '' @ decimal n @ crlf"

definition encode_rtsp_request :: "rtsp_request_message \<Rightarrow> rtsp_error + bytes" where
  "encode_rtsp_request request =
     sbind (validate_start_line_field (req_method request) ''method'') (\<lambda>_.
     sbind (validate_start_line_field (req_uri request) ''uri'') (\<lambda>_.
     sbind (validate_start_line_field (req_version request) ''version'') (\<lambda>_.
     sbind (encode_headers (req_headers request)) (\<lambda>(text, has_content_length).
       Inr (bytes_of_string
              (req_method request @ '' '' @ req_uri request @ '' '' @ req_version request @ crlf @ text
               @ (if req_body request \<noteq> [] \<and> \<not> has_content_length
                  then content_length_line (length (req_body request)) else [])
               @ crlf) @ req_body request)))))"

definition encode_rtsp_response :: "rtsp_response_message \<Rightarrow> rtsp_error + bytes" where
  "encode_rtsp_response response =
     sbind (validate_start_line_field (resp_version response) ''version'') (\<lambda>_.
     sbind (validate_reason_phrase (resp_reason_phrase response)) (\<lambda>_.
     sbind (encode_headers (resp_headers response)) (\<lambda>(text, has_content_length).
       Inr (bytes_of_string
              (resp_version response @ '' '' @ decimal (unat (resp_status_code response)) @ '' ''
               @ resp_reason_phrase response @ crlf @ text
               @ (if \<not> has_content_length then content_length_line (length (resp_body response)) else [])
               @ crlf) @ resp_body response))))"

definition encode_rtsp_response_parts ::
  "u32 option \<Rightarrow> u16 \<Rightarrow> string \<Rightarrow> (string \<times> string) list \<Rightarrow> bytes \<Rightarrow> rtsp_error + bytes"
where
  "encode_rtsp_response_parts cseq status_code reason headers body =
     (let hs = map (\<lambda>(name, value). \<lparr>header_name = name, header_value = value\<rparr>) headers;
          has_cseq = list_ex (\<lambda>(name, _). eq_ignore_ascii_case name ''cseq'') headers;
          cseq_header = (if has_cseq then [] else case cseq of
            None \<Rightarrow> []
          | Some n \<Rightarrow> [\<lparr>header_name = ''CSeq'', header_value = decimal (unat n)\<rparr>]) in
      encode_rtsp_response
        \<lparr>resp_version = ''RTSP/1.0'', resp_status_code = status_code, resp_reason_phrase = reason,
         resp_headers = hs @ cseq_header, resp_body = body\<rparr>)"

end
