(* ===== verification/Rtsp_Core.thy ===== *)
theory Rtsp_Core
  imports Rtsp_Message Stream_Decoder
begin

text \<open>
  The RTSP core: session headers and interleaved frames (\<^verbatim>\<open>connection.rs\<close>, \<^verbatim>\<open>interleaved.rs\<close>) and the state
  machine \<^verbatim>\<open>RtspCore\<close> (\<^verbatim>\<open>mod.rs\<close>), which turns the bytes of a connection into requests and interleaved frames.
\<close>

section \<open>Session headers\<close>

datatype session_error =
  Empty_Header | Missing_Session_Id | Invalid_Session_Id string | Invalid_Timeout string | Invalid_Header_Value

record rtsp_session =
  session_id :: "string option"
  session_timeout :: "u32 option"

definition session_new :: rtsp_session where "session_new = \<lparr>session_id = None, session_timeout = None\<rparr>"

definition session_with_id :: "string \<Rightarrow> rtsp_session" where
  "session_with_id i = \<lparr>session_id = Some i, session_timeout = None\<rparr>"

definition normalize_session_id :: "string \<Rightarrow> session_error + string" where
  "normalize_session_id value =
     (let i = trim value in
      if i = [] then Inl Missing_Session_Id
      else if CHR '';'' \<in> set i \<or> \<not> no_line_break i then Inl (Invalid_Session_Id i)
      else Inr i)"

text \<open>The parts behind the first semicolon; the last timeout wins, anything else is skipped.\<close>

fun parse_session_parts :: "rtsp_session \<Rightarrow> string list \<Rightarrow> session_error + rtsp_session" where
  "parse_session_parts session [] = Inr session"
| "parse_session_parts session (part # parts) =
     (if part = [] then parse_session_parts session parts
      else if eq_ignore_ascii_case part ''timeout'' then Inl (Invalid_Timeout [])
      else
        case split_once ''='' part of
          None \<Rightarrow> parse_session_parts session parts
        | Some (key, value) \<Rightarrow>
            if \<not> eq_ignore_ascii_case (trim key) ''timeout'' then parse_session_parts session parts
            else if trim value = [] then Inl (Invalid_Timeout [])
            else
              case parse_uint 32 (trim value) of
                None \<Rightarrow> Inl (Invalid_Timeout (trim value))
              | Some timeout \<Rightarrow> parse_session_parts (session\<lparr>session_timeout := Some (of_nat timeout)\<rparr>) parts)"

definition session_parse :: "string \<Rightarrow> session_error + rtsp_session" where
  "session_parse text =
     (let v = trim text in
      if v = [] then Inl Empty_Header
      else if \<not> no_line_break v then Inl Invalid_Header_Value
      else
        case map trim (split_str '';'' v) of
          [] \<Rightarrow> Inl Empty_Header
        | i # parts \<Rightarrow>
            sbind (normalize_session_id i) (\<lambda>normalized_id.
              parse_session_parts \<lparr>session_id = Some normalized_id, session_timeout = None\<rparr> parts))"

definition session_to_header :: "rtsp_session \<Rightarrow> session_error + string option" where
  "session_to_header s =
     (case session_id s of
        None \<Rightarrow> Inr None
      | Some i \<Rightarrow>
          sbind (normalize_session_id i) (\<lambda>i.
            Inr (Some (case session_timeout s of
              Some timeout \<Rightarrow> i @ '';timeout='' @ decimal (unat timeout)
            | None \<Rightarrow> i))))"

section \<open>Interleaved frames\<close>

record frame_header =
  frame_channel :: u8
  frame_payload_len :: u16
  frame_total_len :: nat

definition parse_interleaved_frame :: "bytes \<Rightarrow> frame_header option" where
  "parse_interleaved_frame data =
     (if length data < 4 \<or> data ! 0 \<noteq> 0x24 then None
      else
        let payload_len = from_be (take 2 (drop 2 data)) :: u16 in
        Some \<lparr>frame_channel = data ! 1, frame_payload_len = payload_len, frame_total_len = 4 + unat payload_len\<rparr>)"

text \<open>\<^verbatim>\<open>PayloadTooLarge\<close> carries the limit and the actual size.\<close>

definition encode_interleaved_frame :: "u8 \<Rightarrow> bytes \<Rightarrow> (nat \<times> nat) + bytes" where
  "encode_interleaved_frame channel payload =
     (if length payload > 65535 then Inl (65535, length payload)
      else Inr ([0x24, channel] @ to_be 2 (of_nat (length payload) :: u16) @ payload))"

definition encode_frame :: "u8 \<Rightarrow> bytes \<Rightarrow> rtsp_error + bytes" where
  "encode_frame channel payload =
     (case encode_interleaved_frame channel payload of
        Inl (_, actual) \<Rightarrow> Inl (Interleaved_Payload_Too_Large actual)
      | Inr encoded \<Rightarrow> Inr encoded)"

definition try_parse_frame :: "bytes \<Rightarrow> nat \<Rightarrow> bytes \<times> (rtsp_error + (u8 \<times> bytes) option)" where
  "try_parse_frame buffer max_frame_size =
     (case parse_interleaved_frame buffer of
        None \<Rightarrow> (buffer, Inr None)
      | Some h \<Rightarrow>
          if unat (frame_payload_len h) > max_frame_size
          then (buffer, Inl (Interleaved_Limit max_frame_size (unat (frame_payload_len h))))
          else if length buffer < frame_total_len h then (buffer, Inr None)
          else
            let packet = take (frame_total_len h) buffer in
            (drop (frame_total_len h) buffer, Inr (Some (packet ! 1, drop 4 packet))))"

definition supported_methods :: "rtsp_method list" where
  "supported_methods =
     [Rtsp_Options, Rtsp_Describe, Rtsp_Announce, Rtsp_Setup, Rtsp_Play, Rtsp_Pause, Rtsp_Teardown,
      Rtsp_Get_Parameter, Rtsp_Set_Parameter, Rtsp_Redirect, Rtsp_Record]"

definition public_header_value :: string where
  "public_header_value = join '', '' (map method_str supported_methods)"

section \<open>The core\<close>

datatype rtsp_event =
  Ev_Request rtsp_request
| Ev_Interleaved u8 bytes
| Ev_Peer_Closed

datatype rtsp_command =
  Send_Response (cmd_cseq: "u32 option") (cmd_status: u16) (cmd_reason: string)
    (cmd_headers: "(string \<times> string) list") (cmd_body: bytes)
| Send_Interleaved u8 bytes
| Cmd_Close

datatype rtsp_input = In_Bytes bytes | In_Command rtsp_command | In_Peer_Closed
datatype rtsp_output = Out_Write bytes | Out_Event rtsp_event | Out_Close

record rtsp_core =
  core_buffer :: bytes
  core_closed :: bool
  core_limits :: rtsp_limits

definition rtsp_core_new :: "rtsp_limits \<Rightarrow> rtsp_core" where
  "rtsp_core_new limits = \<lparr>core_buffer = [], core_closed = False, core_limits = limits\<rparr>"

text \<open>
  The loop of \<^verbatim>\<open>drain_messages\<close>: the buffer left, the outputs in order and the error that ended it, if any. A
  step that leaves the buffer as long as it was ends the loop; the parsers take at least one byte (\<open>progress\<close>).
\<close>

function drain_messages :: "rtsp_limits \<Rightarrow> bytes \<Rightarrow> bytes \<times> rtsp_output list \<times> rtsp_error option" where
  "drain_messages limits buffer =
     (if buffer = [] then (buffer, [], None)
      else if buffer ! 0 = 0x24 then
        (case try_parse_frame buffer (max_interleaved_frame_size limits) of
           (b, Inl e) \<Rightarrow> (b, [], Some e)
         | (b, Inr None) \<Rightarrow> (b, [], None)
         | (b, Inr (Some (channel, payload))) \<Rightarrow>
             if length b < length buffer
             then (case drain_messages limits b of
                     (b', outs, e) \<Rightarrow> (b', Out_Event (Ev_Interleaved channel payload) # outs, e))
             else (b, [], None))
      else
        (case try_parse_message limits buffer of
           (b, Inl e) \<Rightarrow> (b, [], Some e)
         | (b, Inr Incomplete) \<Rightarrow> (b, [], None)
         | (b, Inr (Parsed_Request req)) \<Rightarrow>
             if length b < length buffer
             then (case drain_messages limits b of
                     (b', outs, e) \<Rightarrow> (b', Out_Event (Ev_Request (into_rtsp_request req)) # outs, e))
             else (b, [], None)
         | (b, Inr (Parsed_Response _)) \<Rightarrow>
             if length b < length buffer then drain_messages limits b else (b, [], None)))"
  by pat_completeness auto
termination by (relation "measure (\<lambda>(limits, buffer). length buffer)") auto

declare drain_messages.simps [simp del]

definition apply_command :: "rtsp_core \<Rightarrow> rtsp_command \<Rightarrow> rtsp_core \<times> (rtsp_error + rtsp_output list)" where
  "apply_command c command =
     (case command of
        Send_Response cseq status_code reason headers body \<Rightarrow>
          (c, sbind (encode_rtsp_response_parts cseq status_code reason headers body) (\<lambda>bs. Inr [Out_Write bs]))
      | Send_Interleaved channel payload \<Rightarrow>
          (c, sbind (encode_frame channel payload) (\<lambda>bs. Inr [Out_Write bs]))
      | Cmd_Close \<Rightarrow> (c\<lparr>core_closed := True\<rparr>, Inr [Out_Close]))"

text \<open>An error of the parser loses the outputs that the same read had already produced.\<close>

definition rtsp_handle_input :: "rtsp_core \<Rightarrow> rtsp_input \<Rightarrow> rtsp_core \<times> (rtsp_error + rtsp_output list)" where
  "rtsp_handle_input c input =
     (if core_closed c then (c, Inr [])
      else
        case input of
          In_Bytes bs \<Rightarrow>
            (case validate_buffer_growth (core_limits c) (length (core_buffer c)) (length bs) of
               Inl e \<Rightarrow> (c, Inl e)
             | Inr _ \<Rightarrow>
                 (case drain_messages (core_limits c) (core_buffer c @ bs) of
                    (b, outs, e) \<Rightarrow>
                      (c\<lparr>core_buffer := b\<rparr>, case e of None \<Rightarrow> Inr outs | Some e \<Rightarrow> Inl e)))
        | In_Command command \<Rightarrow> apply_command c command
        | In_Peer_Closed \<Rightarrow> (c\<lparr>core_closed := True\<rparr>, Inr [Out_Event Ev_Peer_Closed]))"

text \<open>A connection: the inputs one after the other, each with its result.\<close>

fun rtsp_run :: "rtsp_core \<Rightarrow> rtsp_input list \<Rightarrow> rtsp_core \<times> (rtsp_error + rtsp_output list) list" where
  "rtsp_run c [] = (c, [])"
| "rtsp_run c (i # ins) =
     (case rtsp_handle_input c i of (c1, r) \<Rightarrow> case rtsp_run c1 ins of (c2, rs) \<Rightarrow> (c2, r # rs))"

section \<open>The decoder behind the core\<close>

text \<open>
  One step of the loop as an incremental decoder: what it consumes and the event it yields, or the error;
  \<open>None\<close> as the error means that more bytes are needed.
\<close>

definition rtsp_step :: "rtsp_limits \<Rightarrow> unit \<Rightarrow> bytes \<Rightarrow> unit \<times> (rtsp_error option + nat \<times> rtsp_output option)" where
  "rtsp_step limits u b =
     (u,
      if b = [] then Inl None
      else if b ! 0 = 0x24 then
        (case try_parse_frame b (max_interleaved_frame_size limits) of
           (_, Inl e) \<Rightarrow> Inl (Some e)
         | (_, Inr None) \<Rightarrow> Inl None
         | (r, Inr (Some (channel, payload))) \<Rightarrow>
             Inr (length b - length r, Some (Out_Event (Ev_Interleaved channel payload))))
      else
        (case try_parse_message limits b of
           (_, Inl e) \<Rightarrow> Inl (Some e)
         | (_, Inr Incomplete) \<Rightarrow> Inl None
         | (r, Inr (Parsed_Request req)) \<Rightarrow>
             Inr (length b - length r, Some (Out_Event (Ev_Request (into_rtsp_request req))))
         | (r, Inr (Parsed_Response _)) \<Rightarrow> Inr (length b - length r, None)))"

lemma find_header_end_bound: "find_header_end b = Some n \<Longrightarrow> n + 4 \<le> length b"
proof (induction b arbitrary: n)
  case Nil
  then show ?case by (simp add: find_header_end.simps)
next
  case (Cons x b)
  show ?case
  proof (cases "take 4 (x # b) = [13, 10, 13, 10]")
    case True
    then have "length (take 4 (x # b)) = 4" by simp
    moreover have "n = 0" using True Cons.prems by (subst (asm) find_header_end.simps) simp
    ultimately show ?thesis by (simp add: min_def split: if_splits)
  next
    case False
    with Cons show ?thesis by (auto simp: find_header_end.simps [of "x # b"])
  qed
qed

lemma find_header_end_append: "find_header_end b = Some n \<Longrightarrow> find_header_end (b @ x) = Some n"
proof (induction b arbitrary: n)
  case Nil
  then show ?case by (simp add: find_header_end.simps)
next
  case (Cons c b)
  have *: "4 \<le> length (c # b)" using find_header_end_bound [OF Cons.prems] by simp
  then have "take 4 ((c # b) @ x) = take 4 (c # b)" by (subst take_append) simp
  with Cons show ?case
    by (auto simp: find_header_end.simps [of "c # b"] find_header_end.simps [of "c # b @ x"] split: if_splits)
qed

text \<open>A message that is complete, or an error, does not depend on the bytes behind it.\<close>

lemma try_parse_message_append:
  assumes "try_parse_message limits b = (r, res)" "res \<noteq> Inr Incomplete"
  shows "snd (try_parse_message limits (b @ x)) = res"
    "res = Inr m \<Longrightarrow> fst (try_parse_message limits (b @ x)) = r @ x"
proof -
  obtain n where n: "find_header_end b = Some n"
    using assms by (cases "find_header_end b") (auto simp: try_parse_message_def)
  note bound = find_header_end_bound [OF n] and app = find_header_end_append [OF n, of x]
  have t: "take (n + 4 + k) (b @ x) = take (n + 4 + k) b" "drop (n + 4 + k) (b @ x) = drop (n + 4 + k) b @ x"
    if "n + 4 + k \<le> length b" for k
    using that by simp_all
  have t0: "take (n + 4) (b @ x) = take (n + 4) b" using t(1) [of 0] bound by simp
  show "snd (try_parse_message limits (b @ x)) = res" "res = Inr m \<Longrightarrow> fst (try_parse_message limits (b @ x)) = r @ x"
    using assms t unfolding try_parse_message_def n app option.simps Let_def t0
    by (auto split: sum.splits if_splits)
qed

lemma parse_interleaved_append:
  "parse_interleaved_frame b = Some h \<Longrightarrow> parse_interleaved_frame (b @ x) = Some h"
  by (auto simp: parse_interleaved_frame_def nth_append Let_def split: if_splits)

lemma try_parse_frame_append:
  assumes "try_parse_frame b limit = (r, res)" "res \<noteq> Inr None"
  shows "snd (try_parse_frame (b @ x) limit) = res"
    "res = Inr f \<Longrightarrow> fst (try_parse_frame (b @ x) limit) = r @ x"
proof -
  obtain h where h: "parse_interleaved_frame b = Some h"
    using assms by (cases "parse_interleaved_frame b") (auto simp: try_parse_frame_def)
  have t: "4 \<le> frame_total_len h" using h by (auto simp: parse_interleaved_frame_def Let_def split: if_splits)
  show "snd (try_parse_frame (b @ x) limit) = res" "res = Inr f \<Longrightarrow> fst (try_parse_frame (b @ x) limit) = r @ x"
    using assms t h parse_interleaved_append [OF h, of x]
    by (auto simp: try_parse_frame_def Let_def split: if_splits)
qed

lemma try_parse_message_shorter:
  "try_parse_message limits b = (r, Inr m) \<Longrightarrow> m \<noteq> Incomplete \<Longrightarrow> length r < length b"
  using find_header_end_bound [of b]
  by (auto simp: try_parse_message_def Let_def split: option.splits sum.splits if_splits)

lemma try_parse_frame_shorter: "try_parse_frame b limit = (r, Inr (Some f)) \<Longrightarrow> length r < length b"
  by (auto simp: try_parse_frame_def parse_interleaved_frame_def Let_def split: option.splits if_splits)

lemma step_progress: "rtsp_step limits u b = (u', Inr (n, c)) \<Longrightarrow> 0 < n \<and> n \<le> length b"
  by (auto simp: rtsp_step_def split: if_splits prod.splits sum.splits option.splits parsed_message.splits
      dest!: try_parse_message_shorter try_parse_frame_shorter)

lemma step_ok_append:
  assumes "rtsp_step limits u b = (u', Inr (n, c))"
  shows "rtsp_step limits u (b @ x) = (u', Inr (n, c))"
proof (cases "b ! 0 = 0x24")
  case True
  obtain r res where p: "try_parse_frame b (max_interleaved_frame_size limits) = (r, res)" by fastforce
  with assms True obtain f where f: "res = Inr (Some f)"
    by (auto simp: rtsp_step_def split: if_splits sum.splits option.splits)
  from try_parse_frame_append [OF p, where x = x] f
  have "try_parse_frame (b @ x) (max_interleaved_frame_size limits) = (r @ x, res)" by (simp add: prod_eq_iff)
  with assms True p f show ?thesis
    by (auto simp: rtsp_step_def nth_append split: if_splits prod.splits)
next
  case False
  obtain r res where p: "try_parse_message limits b = (r, res)" by fastforce
  with assms False obtain m where m: "res = Inr m" "m \<noteq> Incomplete"
    by (auto simp: rtsp_step_def split: if_splits sum.splits parsed_message.splits)
  from try_parse_message_append [OF p, where x = x] m
  have "try_parse_message limits (b @ x) = (r @ x, res)" by (simp add: prod_eq_iff)
  with assms False p m show ?thesis
    by (auto simp: rtsp_step_def nth_append split: if_splits parsed_message.splits)
qed

lemma step_error_append:
  assumes "rtsp_step limits u b = (u', Inl (Some e))"
  shows "rtsp_step limits u (b @ x) = (u', Inl (Some e))"
proof (cases "b ! 0 = 0x24")
  case True
  obtain r res where p: "try_parse_frame b (max_interleaved_frame_size limits) = (r, res)" by fastforce
  with assms True have f: "res = Inl e"
    by (auto simp: rtsp_step_def split: if_splits sum.splits option.splits)
  obtain r' res' where q: "try_parse_frame (b @ x) (max_interleaved_frame_size limits) = (r', res')" by fastforce
  from try_parse_frame_append(1) [OF p, where x = x] f q have "res' = Inl e" by simp
  with assms True p f q show ?thesis
    by (auto simp: rtsp_step_def nth_append split: if_splits prod.splits)
next
  case False
  obtain r res where p: "try_parse_message limits b = (r, res)" by fastforce
  with assms False have m: "res = Inl e"
    by (auto simp: rtsp_step_def split: if_splits sum.splits parsed_message.splits)
  obtain r' res' where q: "try_parse_message limits (b @ x) = (r', res')" by fastforce
  from try_parse_message_append(1) [OF p, where x = x] m q have "res' = Inl e" by simp
  with assms False p m q show ?thesis
    by (auto simp: rtsp_step_def nth_append split: if_splits parsed_message.splits)
qed

interpretation rtsp: incremental_decoder "rtsp_step limits" "None :: rtsp_error option" for limits
proof
  fix u b x u' n c and e :: "rtsp_error option"
  show "rtsp_step limits u b = (u', Inr (n, c)) \<Longrightarrow> 0 < n \<and> n \<le> length b" by (rule step_progress)
  show "rtsp_step limits u b = (u', Inr (n, c)) \<Longrightarrow> rtsp_step limits u (b @ x) = (u', Inr (n, c))"
    by (rule step_ok_append)
  show "rtsp_step limits u b = (u', Inl e) \<Longrightarrow> e \<noteq> None \<Longrightarrow> rtsp_step limits u (b @ x) = (u', Inl e)"
    using step_error_append by auto
  show "rtsp_step limits u b = (u', Inl None) \<Longrightarrow> rtsp_step limits u' (b @ x) = rtsp_step limits u (b @ x)"
    by simp
qed

text \<open>\<open>drain_messages\<close> is the driver loop of that decoder.\<close>

lemma try_parse_message_rest: "try_parse_message limits b = (r, res) \<Longrightarrow> drop (length b - length r) b = r"
  by (auto simp: try_parse_message_def Let_def split: option.splits sum.splits if_splits)

lemma try_parse_frame_rest: "try_parse_frame b limit = (r, res) \<Longrightarrow> drop (length b - length r) b = r"
  by (auto simp: try_parse_frame_def Let_def split: option.splits if_splits)

lemma try_parse_message_incomplete: "try_parse_message limits b = (r, Inr Incomplete) \<Longrightarrow> r = b"
  using try_parse_message_append [of limits b r "Inr Incomplete"]
  by (auto simp: try_parse_message_def parse_rtsp_message_def Let_def sbind_def
      split: option.splits sum.splits if_splits list.splits prod.splits)

lemma try_parse_frame_incomplete: "try_parse_frame b limit = (r, Inr None) \<Longrightarrow> r = b"
  by (auto simp: try_parse_frame_def Let_def split: option.splits if_splits)

lemma drain_messages_Inl:
  "rtsp_step limits () b = ((), Inl e) \<Longrightarrow> \<exists>b'. drain_messages limits b = (b', [], e) \<and> (e = None \<longrightarrow> b' = b)"
  by (subst drain_messages.simps)
    (auto simp: rtsp_step_def split: if_splits prod.splits sum.splits option.splits parsed_message.splits
      dest: try_parse_message_incomplete try_parse_frame_incomplete)

lemma drain_messages_Inr:
  "rtsp_step limits () b = ((), Inr (n, c)) \<Longrightarrow>
     drain_messages limits b =
       (case drain_messages limits (drop n b) of (b', outs, e) \<Rightarrow>
          (b', (case c of None \<Rightarrow> outs | Some x \<Rightarrow> x # outs), e))"
  using try_parse_message_rest [of limits b] try_parse_frame_rest [of b]
  by (subst drain_messages.simps)
    (auto simp: rtsp_step_def split: if_splits prod.splits sum.splits option.splits parsed_message.splits
      dest: try_parse_message_shorter try_parse_frame_shorter)

lemma drain_messages_drain:
  "drain_messages limits b = (b', outs, e) \<Longrightarrow>
     \<exists>r. drain (rtsp_step limits) () b = ((), Some e, outs, r) \<and> (e = None \<longrightarrow> r = b')"
proof (induction "length b" arbitrary: b outs rule: less_induct)
  case less
  obtain res where s: "rtsp_step limits () b = ((), res)" by (cases "rtsp_step limits () b") simp
  show ?case
  proof (cases res)
    case (Inl e')
    with drain_messages_Inl [of limits b e'] s less.prems show ?thesis by (auto simp: rtsp.drain_Inl)
  next
    case (Inr nc)
    obtain n c where s': "rtsp_step limits () b = ((), Inr (n, c))" using s Inr by (cases nc) simp
    obtain outs' where o: "drain_messages limits (drop n b) = (b', outs', e)"
        "outs = (case c of None \<Rightarrow> outs' | Some x \<Rightarrow> x # outs')"
      using drain_messages_Inr [OF s'] less.prems by (auto split: prod.splits)
    have "length (drop n b) < length b" using step_progress [OF s'] by simp
    from less.hyps [OF this o(1)] o(2) show ?thesis by (auto simp: rtsp.drain_Inr [OF s'])
  qed
qed

end
