(* ===== verification/Rtsp_Message_Roundtrip.thy ===== *)
theory Rtsp_Message_Roundtrip
  imports Rtsp_Message
begin

text \<open>
  What \<^verbatim>\<open>encode_rtsp_request\<close> and \<^verbatim>\<open>encode_rtsp_response\<close> write, \<open>try_parse_message\<close> reads back: the framing of a
  header block is one lemma (\<open>try_parse_block\<close>), on which both round trips rest.
\<close>

section \<open>UTF-8\<close>

lemma utf8_valid_append: "utf8_valid a \<Longrightarrow> utf8_valid (a @ b) = utf8_valid b"
proof (induction a rule: utf8_valid.induct)
  case (2 a r)
  show ?case
    using "2.prems" "2.IH" by (auto simp: utf8_valid.simps(2) [of a] split: if_splits list.splits)
qed simp

lemma bytes_of_string_append [simp]: "bytes_of_string (s @ t) = bytes_of_string s @ bytes_of_string t"
  by (simp add: bytes_of_string_def)

lemma bytes_of_string_simps [simp]:
  "bytes_of_string [] = []" "bytes_of_string (c # s) = of_char c # bytes_of_string s"
  by (simp_all add: bytes_of_string_def)

lemma valid_string_append: "valid_string a \<Longrightarrow> valid_string (a @ b) = valid_string b"
  by (simp add: valid_string_def utf8_valid_append)

lemma valid_string_ascii: "ascii s \<Longrightarrow> valid_string s"
proof (induction s)
  case (Cons c s)
  then have "(of_char c :: u8) \<le> 0x7F" by (simp add: word_le_nat_alt)
  with Cons show ?case by (simp add: valid_string_def utf8_valid.simps)
qed (simp add: valid_string_def)

section \<open>Header blocks\<close>

definition header_block :: "string list \<Rightarrow> string" where
  "header_block ls = concat (map (\<lambda>l. l @ crlf) ls)"

definition header_line :: "rtsp_header \<Rightarrow> string" where
  "header_line h = header_name h @ '': '' @ header_value h"

definition plain_line :: "string \<Rightarrow> bool" where
  "plain_line l \<longleftrightarrow> l \<noteq> [] \<and> CHR 0x0D \<notin> set l \<and> valid_string l"

lemma header_block_simps [simp]:
  "header_block [] = []" "header_block (l # ls) = l @ crlf @ header_block ls"
  "header_block (ls @ ls') = header_block ls @ header_block ls'"
  by (simp_all add: header_block_def)

lemma crlf_bytes [simp]: "(of_char (CHR 0x0D) :: u8) = 13" "(of_char (CHR 0x0A) :: u8) = 10"
  by simp_all

lemma cr_byte: "(of_char c :: u8) = 13 \<longleftrightarrow> c = CHR 0x0D"
proof
  assume "(of_char c :: u8) = 13"
  then have "(of_char c :: nat) = unat (13 :: u8)" by (metis unat_of_char_u8)
  then have "(of_char c :: nat) = of_char (CHR 0x0D)" by simp
  then show "c = CHR 0x0D" by (simp only: of_char_eq_iff)
qed simp

lemma split_crlf: "CHR 0x0D \<notin> set a \<Longrightarrow> split_str crlf (a @ CHR 0x0D # CHR 0x0A # s) = a # split_str crlf s"
  using split_str_at [of "CHR 0x0D" a "[CHR 0x0A]" s] by simp

lemma valid_string_Cons [simp]: "(of_char c :: nat) < 128 \<Longrightarrow> valid_string (c # s) = valid_string s"
  using valid_string_append [OF valid_string_ascii, of "[c]" s] by simp

lemma valid_string_Nil [simp]: "valid_string []"
  by (simp add: valid_string_def)

lemma find_header_end_line:
  "13 \<notin> set a \<Longrightarrow> c \<noteq> 13 \<Longrightarrow>
     find_header_end (a @ 13 # 10 # c # r) = map_option ((+) (length a + 2)) (find_header_end (c # r))"
proof (induction a)
  case Nil
  then show ?case
    by (simp add: find_header_end.simps [of "13 # 10 # c # r"] find_header_end.simps [of "10 # c # r"]
        option.map_comp comp_def)
next
  case (Cons b a)
  then show ?case
    by (simp add: find_header_end.simps [of "b # a @ _"] option.map_comp comp_def)
qed

lemma find_header_end_here: "13 \<notin> set a \<Longrightarrow> find_header_end (a @ 13 # 10 # 13 # 10 # r) = Some (length a)"
  by (induction a) (auto simp: find_header_end.simps [of "_ # _"])

lemma find_header_end_block:
  assumes "ls \<noteq> []" "list_all plain_line ls"
  shows "find_header_end (bytes_of_string (header_block ls @ crlf) @ body) = Some (length (header_block ls) - 2)"
  using assms
proof (induction ls)
  case (Cons l ls)
  have l: "13 \<notin> set (bytes_of_string l)"
    using Cons.prems by (auto simp: plain_line_def bytes_of_string_def cr_byte)
  show ?case
  proof (cases ls)
    case Nil
    with find_header_end_here [OF l] show ?thesis by simp
  next
    case (Cons l2 ls')
    with Cons.prems obtain c cs where c: "l2 = c # cs" "c \<noteq> CHR 0x0D"
      by (cases l2) (auto simp: plain_line_def)
    then have "(of_char c :: u8) \<noteq> 13" by (simp add: cr_byte)
    from find_header_end_line [OF l this] Cons.IH Cons.prems Cons c show ?thesis by simp
  qed
qed simp

lemma split_header_block:
  "list_all plain_line ls \<Longrightarrow> split_str crlf (header_block ls @ s) = ls @ split_str crlf s"
  by (induction ls) (simp_all add: plain_line_def split_crlf)

lemma header_block_join: "ls \<noteq> [] \<Longrightarrow> header_block ls = join crlf ls @ crlf"
proof (induction crlf ls rule: join.induct)
  case (3 x y xs)
  then show ?case by simp
qed simp_all

lemma header_block_drop_last:
  assumes "ls \<noteq> []" "list_all plain_line ls"
  shows "split_str crlf (take (length (header_block ls) - 2) (header_block ls)) = ls"
  using assms split_join [of ls "CHR 0x0D" "[CHR 0x0A]"]
  by (simp add: header_block_join plain_line_def list_all_iff)

lemma header_block_valid: "list_all plain_line ls \<Longrightarrow> valid_string (header_block ls)"
  by (induction ls) (simp_all add: plain_line_def valid_string_append valid_string_ascii)

section \<open>Headers\<close>

text \<open>Headers that the text form keeps: trimmed, without line breaks, the name without a colon.\<close>

definition plain_header :: "rtsp_limits \<Rightarrow> rtsp_header \<Rightarrow> bool" where
  "plain_header limits h \<longleftrightarrow>
     header_name h \<noteq> [] \<and> no_line_break (header_name h) \<and> CHR '':'' \<notin> set (header_name h) \<and>
     trim (header_name h) = header_name h \<and> valid_string (header_name h) \<and>
     no_line_break (header_value h) \<and> trim (header_value h) = header_value h \<and> valid_string (header_value h) \<and>
     length (header_line h) \<le> max_header_line_size limits"

lemma plain_header_line: "plain_header limits h \<Longrightarrow> plain_line (header_line h)"
  by (auto simp: plain_header_def plain_line_def header_line_def no_line_break_def valid_string_append valid_string_ascii)

lemma split_plain_header:
  "plain_header limits h \<Longrightarrow> split_header_line (header_line h) = Some (header_name h, header_value h)"
  by (simp add: plain_header_def split_header_line_def header_line_def split_once_char_append trim_idle)

lemma parse_plain_headers:
  "list_all (plain_header limits) hs \<Longrightarrow> n + length hs \<le> max_headers_count limits \<Longrightarrow>
     parse_headers limits n (map header_line hs) = Inr hs"
proof (induction hs arbitrary: n)
  case (Cons h hs)
  have "header_line h \<noteq> []" by (simp add: header_line_def)
  moreover have "length (header_line h) \<le> max_header_line_size limits"
    using Cons.prems(1) by (simp add: plain_header_def)
  ultimately show ?case using Cons by (simp add: split_plain_header [of limits])
qed simp

text \<open>The length of the body that the headers announce.\<close>

definition announced_length :: "rtsp_header list \<Rightarrow> rtsp_error + nat" where
  "announced_length hs =
     (case lookup_header hs ''content-length'' of
        None \<Rightarrow> Inr 0
      | Some v \<Rightarrow> ok_or Invalid_Content_Length (parse_uint 64 v))"

lemma split_header_line_Nil [simp]: "split_header_line [] = None"
  by (simp add: split_header_line_def split_once_char)

lemma scan_plain_headers:
  "list_all (plain_header limits) hs \<Longrightarrow>
     scan_content_length (map header_line hs @ [[], []]) = announced_length hs"
  by (induction hs) (simp_all add: split_plain_header [of limits] announced_length_def lookup_header_def)

text \<open>A first line that is not taken for a Content-Length.\<close>

definition start_line :: "string \<Rightarrow> bool" where
  "start_line l \<longleftrightarrow> plain_line l \<and>
     (\<forall>name value. split_header_line l = Some (name, value) \<longrightarrow> \<not> eq_ignore_ascii_case name ''content-length'')"

lemma encode_plain_headers:
  "list_all (plain_header limits) hs \<Longrightarrow>
     encode_headers hs =
       Inr (header_block (map header_line hs), list_ex (\<lambda>h. eq_ignore_ascii_case (header_name h) ''content-length'') hs)"
  by (induction hs)
    (simp_all add: plain_header_def validate_header_name_def validate_header_value_def header_line_def)

section \<open>Framing\<close>

lemma parse_block_content_length:
  assumes "start_line l" "list_all (plain_header limits) hs"
  shows "parse_content_length (bytes_of_string (header_block (l # map header_line hs) @ crlf)) = announced_length hs"
proof -
  let ?ls = "l # map header_line hs"
  have p: "list_all plain_line ?ls"
    using assms plain_header_line by (auto simp: start_line_def list_all_iff)
  have v: "valid_string (header_block ?ls @ crlf)"
    by (simp only: valid_string_append [OF header_block_valid [OF p]]) simp
  have sp: "split_str crlf (header_block ?ls @ crlf) = ?ls @ [[], []]"
    using split_header_block [OF p, of crlf] split_crlf [of "[]" "[]"] by (simp add: split_str_absent)
  have "parse_content_length (bytes_of_string t) = scan_content_length (split_str crlf t)" if "valid_string t" for t
    using that by (simp add: parse_content_length_def from_utf8_def valid_string_def)
  from this [OF v] have "parse_content_length (bytes_of_string (header_block ?ls @ crlf)) =
      scan_content_length (?ls @ [[], []])"
    by (simp only: sp)
  also have "\<dots> = announced_length hs"
    using assms by (auto simp: start_line_def scan_plain_headers [of limits] split: option.split)
  finally show ?thesis .
qed

text \<open>A block with the body it announces is taken off the buffer and parsed line by line.\<close>

lemma try_parse_block:
  assumes l: "start_line l" and hs: "list_all (plain_header limits) hs" "length hs \<le> max_headers_count limits"
    and body: "announced_length hs = Inr (length body)" "length body \<le> max_body_size limits"
    and size: "length (header_block (l # map header_line hs)) + 2 + length body < 2 ^ 64"
  shows "try_parse_message limits
      (bytes_of_string (header_block (l # map header_line hs) @ crlf) @ body @ rest) =
    (rest,
     if starts_with_str ''RTSP/'' l
     then sbind (parse_response_start_line l) (\<lambda>(version, status_code, reason_phrase).
            Inr (Parsed_Response
              \<lparr>resp_version = version, resp_status_code = status_code, resp_reason_phrase = reason_phrase,
               resp_headers = hs, resp_body = body\<rparr>))
     else sbind (parse_request_start_line l) (\<lambda>(meth, uri, version).
            Inr (Parsed_Request
              \<lparr>req_method = meth, req_uri = uri, req_version = version, req_headers = hs, req_body = body\<rparr>)))"
proof -
  define ls where "ls = l # map header_line hs"
  define B where "B = header_block ls"
  define S where "S = bytes_of_string (B @ crlf)"
  define H where "H = take (length B - 2) B"
  have p: "list_all plain_line ls"
    using l hs plain_header_line by (auto simp: start_line_def list_all_iff ls_def)
  have ls: "ls \<noteq> []" by (simp add: ls_def)
  have B: "B = join crlf ls @ crlf" unfolding B_def by (rule header_block_join [OF ls])
  have H: "H = join crlf ls" by (simp add: H_def B)
  have fe: "find_header_end (S @ x) = Some (length B - 2)" for x
    unfolding B_def S_def by (rule find_header_end_block [OF ls p])
  have cl: "parse_content_length S = Inr (length body)"
    using parse_block_content_length [OF l hs(1)] body(1) unfolding S_def B_def ls_def by simp
  have h: "length B - 2 + 4 = length S" by (simp add: S_def B)
  have hb: "take (length B - 2) (S @ x) = bytes_of_string H" for x
    by (simp add: S_def H B)
  have "valid_string H"
    unfolding H using p ls
  proof (induction crlf ls rule: join.induct)
    case (3 x y xs)
    then show ?case by (simp add: plain_line_def valid_string_append)
  qed (simp_all add: plain_line_def)
  then have "from_utf8 (bytes_of_string H) = Inr H" by (simp add: from_utf8_def valid_string_def)
  moreover have "split_str crlf H = l # map header_line hs"
    using header_block_drop_last [OF ls p] unfolding H_def B_def by (simp only: ls_def)
  moreover have "parse_headers limits 0 (map header_line hs) = Inr hs"
    by (rule parse_plain_headers [OF hs(1)]) (simp add: hs(2))
  ultimately have parse: "parse_rtsp_message limits (S @ body) =
      (if starts_with_str ''RTSP/'' l
       then sbind (parse_response_start_line l) (\<lambda>(version, status_code, reason_phrase).
              Inr (Parsed_Response
                \<lparr>resp_version = version, resp_status_code = status_code, resp_reason_phrase = reason_phrase,
                 resp_headers = hs, resp_body = body\<rparr>))
       else sbind (parse_request_start_line l) (\<lambda>(meth, uri, version).
              Inr (Parsed_Request
                \<lparr>req_method = meth, req_uri = uri, req_version = version, req_headers = hs, req_body = body\<rparr>)))"
    unfolding parse_rtsp_message_def fe option.simps Let_def hb h by simp
  have "length S = length (header_block (l # map header_line hs)) + 2"
    by (simp add: S_def B_def ls_def)
  with size have "length S + length body < 2 ^ 64" by simp
  then show ?thesis
    unfolding ls_def [symmetric] B_def [symmetric] S_def [symmetric]
    unfolding try_parse_message_def fe option.simps Let_def h
    using cl parse body(2) by simp
qed

section \<open>Requests\<close>

definition word :: "string \<Rightarrow> bool" where
  "word w \<longleftrightarrow> ascii w \<and> w \<noteq> [] \<and> \<not> list_ex is_space w"

lemma word_no_line_break: "word w \<Longrightarrow> no_line_break w"
  by (auto simp: word_def no_line_break_def list_ex_iff is_space_iff)

lemma split_words: "word a \<Longrightarrow> word b \<Longrightarrow> word c \<Longrightarrow> split_whitespace (a @ '' '' @ b @ '' '' @ c) = [a, b, c]"
  using split_whitespace_word [of a "CHR '' '' # b @ CHR '' '' # c"] split_whitespace_word [of b "CHR '' '' # c"]
    split_whitespace_word [of c "[]"]
  by (simp add: word_def split_whitespace_blank)

lemma start_line_words:
  assumes "word a" "word b" "word c" "\<not> eq_ignore_ascii_case a ''content-length''" "CHR '':'' \<notin> set a"
  shows "start_line (a @ '' '' @ b @ '' '' @ c)"
proof -
  let ?l = "a @ '' '' @ b @ '' '' @ c"
  have l: "ascii ?l" using assms(1,2,3) by (simp add: word_def)
  have "plain_line ?l"
    using assms(1,2,3) word_no_line_break [of a] word_no_line_break [of b] word_no_line_break [of c]
      valid_string_ascii [OF l]
    by (simp add: plain_line_def no_line_break_def word_def)
  moreover have "\<not> eq_ignore_ascii_case (trim x) ''content-length''" if "split_once '':'' ?l = Some (x, y)" for x y
  proof -
    from that have "x = takeWhile (\<lambda>c. c \<noteq> CHR '':'') ?l" by (simp add: split_once_char split: if_splits)
    also have "\<dots> = a @ CHR '' '' # takeWhile (\<lambda>c. c \<noteq> CHR '':'') (b @ '' '' @ c)"
      by (subst takeWhile_append2) (use assms(5) in auto)
    finally obtain s where s: "x = a @ CHR '' '' # s" "ascii s"
      using l ascii_takeWhile [of "b @ '' '' @ c"] by simp
    have "trim x = a \<or> CHR '' '' \<in> set (trim x)" unfolding s(1)
      by (rule trim_word_blank) (use assms(1) s(2) in \<open>simp_all add: word_def\<close>)
    moreover have "CHR '' '' \<notin> set t" if "eq_ignore_ascii_case t ''content-length''" for t
    proof
      assume "CHR '' '' \<in> set t"
      then have "ascii_lower (CHR '' '') \<in> set (map ascii_lower t)" by simp
      also have "map ascii_lower t = map ascii_lower ''content-length''"
        using that by (simp only: eq_ignore_ascii_case_def)
      finally show False by (simp add: ascii_lower_def)
    qed
    ultimately show ?thesis using assms(4) by metis
  qed
  ultimately show ?thesis by (auto simp: start_line_def split_header_line_def)
qed

text \<open>The headers on the wire: the given ones and the Content-Length that the encoder adds.\<close>

definition framed_headers :: "bool \<Rightarrow> rtsp_header list \<Rightarrow> nat \<Rightarrow> rtsp_header list" where
  "framed_headers needed hs n =
     hs @ (if needed \<and> \<not> list_ex (\<lambda>h. eq_ignore_ascii_case (header_name h) ''content-length'') hs
           then [\<lparr>header_name = ''Content-Length'', header_value = decimal n\<rparr>] else [])"

text \<open>A message of which the text form keeps everything, within the limits.\<close>

definition plain_message :: "rtsp_limits \<Rightarrow> string \<Rightarrow> rtsp_header list \<Rightarrow> bytes \<Rightarrow> bool" where
  "plain_message limits l hs body \<longleftrightarrow>
     list_all (plain_header limits) hs \<and> length hs \<le> max_headers_count limits \<and>
     announced_length hs = Inr (length body) \<and> length body \<le> max_body_size limits \<and>
     length (header_block (l # map header_line hs)) + 2 + length body < 2 ^ 64"

lemma header_block_framed:
  "header_block (l # map header_line (framed_headers needed hs n)) @ crlf =
     l @ crlf @ header_block (map header_line hs)
       @ (if needed \<and> \<not> list_ex (\<lambda>h. eq_ignore_ascii_case (header_name h) ''content-length'') hs
          then content_length_line n else []) @ crlf"
  by (simp add: framed_headers_def header_line_def content_length_line_def)

text \<open>
  C17: A request whose text the wire form can carry is read back from what the encoder wrote, whatever bytes follow
  it: the start line consists of words, header names and values are trimmed and free of line breaks, and the limits
  are respected. What comes back is the request with the Content-Length header that the encoder adds to a body.
\<close>

theorem rtsp_request_roundtrip:
  fixes r :: rtsp_request_message
  defines "hs \<equiv> framed_headers (req_body r \<noteq> []) (req_headers r) (length (req_body r))"
  assumes words: "word (req_method r)" "word (req_uri r)" "word (req_version r)"
    and meth: "\<not> eq_ignore_ascii_case (req_method r) ''content-length''" "CHR '':'' \<notin> set (req_method r)"
      "\<not> starts_with_str ''RTSP/'' (req_method r)"
    and plain: "plain_message limits (req_method r @ '' '' @ req_uri r @ '' '' @ req_version r) hs (req_body r)"
  shows "\<exists>bs. encode_rtsp_request r = Inr bs \<and>
    (\<forall>rest. try_parse_message limits (bs @ rest) = (rest, Inr (Parsed_Request (r\<lparr>req_headers := hs\<rparr>))))"
proof -
  let ?l = "req_method r @ '' '' @ req_uri r @ '' '' @ req_version r"
  let ?bs = "bytes_of_string (header_block (?l # map header_line hs) @ crlf) @ req_body r"
  have v: "validate_start_line_field w f = Inr ()" if "word w" for w f
    using that word_no_line_break [OF that] by (simp add: validate_start_line_field_def word_def)
  have "list_all (plain_header limits) (req_headers r)"
    using plain by (simp add: plain_message_def hs_def framed_headers_def)
  then have "encode_rtsp_request r = Inr ?bs"
    unfolding hs_def header_block_framed
    by (simp add: encode_rtsp_request_def v words encode_plain_headers del: bytes_of_string_append)
  moreover have "try_parse_message limits (?bs @ rest) = (rest, Inr (Parsed_Request (r\<lparr>req_headers := hs\<rparr>)))" for rest
  proof -
    have "\<not> starts_with_str ''RTSP/'' ?l"
      using meth(3) by (auto simp: starts_with_str_def take_Cons' append_eq_Cons_conv numeral_eq_Suc)
    moreover have "parse_request_start_line ?l = Inr (req_method r, req_uri r, req_version r)"
      by (simp add: parse_request_start_line_def split_words [OF words, simplified])
    ultimately show ?thesis
      using try_parse_block [OF start_line_words [OF words meth(1,2)], of limits hs "req_body r" rest] plain
      by (simp add: plain_message_def)
  qed
  ultimately show ?thesis by blast
qed

section \<open>Responses\<close>

lemma start_line_response:
  assumes "starts_with_str ''RTSP/'' version" "plain_line version" "no_line_break reason" "valid_string reason"
  shows "start_line (version @ '' '' @ decimal n @ '' '' @ reason)"
proof -
  let ?l = "version @ '' '' @ decimal n @ '' '' @ reason"
  obtain v where v: "version = ''RTSP/'' @ v"
    using assms(1) by (auto simp: starts_with_str_iff)
  have "(of_char (ascii_lower (CHR ''R'')) :: nat) = 114" by (simp add: ascii_lower_def of_char_of)
  then have R: "ascii_lower (CHR ''R'') \<noteq> CHR ''c''" by auto
  have d: "CHR 0x0D \<notin> set (decimal n)"
    using decimal_char [of "CHR 0x0D" n] by (auto simp: is_ascii_digit_def)
  have "valid_string ?l"
    using assms(2,4) valid_string_ascii [of "decimal n"] by (simp add: plain_line_def valid_string_append)
  then have "plain_line ?l" using assms(2,3) d by (simp add: plain_line_def no_line_break_def)
  moreover have "\<not> eq_ignore_ascii_case (trim x) ''content-length''" if "split_once '':'' ?l = Some (x, y)" for x y
  proof -
    from that have "x = takeWhile (\<lambda>c. c \<noteq> CHR '':'') ?l" by (simp add: split_once_char split: if_splits)
    then obtain s where "x = CHR ''R'' # s" by (simp add: v)
    then have "trim x = [] \<or> hd (trim x) = CHR ''R''" by (simp add: trim_head is_space_iff)
    moreover have "ascii_lower (CHR ''c'') = CHR ''c''" by (simp add: ascii_lower_def)
    ultimately show ?thesis using R by (cases "trim x") (auto simp: eq_ignore_ascii_case_def)
  qed
  ultimately show ?thesis by (auto simp: start_line_def split_header_line_def)
qed

lemma parse_response_start_line_plain:
  assumes "version \<noteq> []" "CHR '' '' \<notin> set version" "no_line_break reason"
  shows "parse_response_start_line (version @ '' '' @ decimal (unat n) @ '' '' @ reason) = Inr (version, n, reason)"
proof -
  obtain c cs where c: "decimal (unat n) = c # cs" "is_ascii_digit c" using decimal_head by blast
  then have "trim_start (decimal (unat n) @ '' '' @ reason) = decimal (unat n) @ '' '' @ reason"
    by (simp add: trim_start_head is_ascii_digit_def is_space_iff)
  moreover have "CHR '' '' \<notin> set (decimal (unat n))"
    using decimal_char [of "CHR '' ''" "unat n"] by (auto simp: is_ascii_digit_def)
  moreover have "unat n < 2 ^ 16" using unat_less [of n] by simp
  ultimately show ?thesis
    using assms by (simp add: parse_response_start_line_def split_once_char_append no_line_break_def)
qed

lemma rtsp_response_roundtrip:
  fixes r :: rtsp_response_message
  defines "hs \<equiv> framed_headers True (resp_headers r) (length (resp_body r))"
  assumes version: "starts_with_str ''RTSP/'' (resp_version r)" "CHR '' '' \<notin> set (resp_version r)"
      "no_line_break (resp_version r)" "valid_string (resp_version r)"
    and reason: "no_line_break (resp_reason_phrase r)" "valid_string (resp_reason_phrase r)"
    and plain: "plain_message limits
      (resp_version r @ '' '' @ decimal (unat (resp_status_code r)) @ '' '' @ resp_reason_phrase r) hs (resp_body r)"
  shows "\<exists>bs. encode_rtsp_response r = Inr bs \<and>
    (\<forall>rest. try_parse_message limits (bs @ rest) = (rest, Inr (Parsed_Response (r\<lparr>resp_headers := hs\<rparr>))))"
proof -
  let ?l = "resp_version r @ '' '' @ decimal (unat (resp_status_code r)) @ '' '' @ resp_reason_phrase r"
  let ?bs = "bytes_of_string (header_block (?l # map header_line hs) @ crlf) @ resp_body r"
  have ne: "resp_version r \<noteq> []" using version(1) by (auto simp: starts_with_str_def)
  have "list_all (plain_header limits) (resp_headers r)"
    using plain by (simp add: plain_message_def hs_def framed_headers_def)
  then have "encode_rtsp_response r = Inr ?bs"
    unfolding hs_def header_block_framed
    using ne version(3) reason(1)
    by (simp add: encode_rtsp_response_def validate_start_line_field_def validate_reason_phrase_def
        encode_plain_headers del: bytes_of_string_append)
  moreover have "try_parse_message limits (?bs @ rest) = (rest, Inr (Parsed_Response (r\<lparr>resp_headers := hs\<rparr>)))" for rest
  proof -
    have "starts_with_str ''RTSP/'' ?l"
      using version(1) by (auto simp: starts_with_str_iff)
    moreover have "start_line ?l"
      by (rule start_line_response [OF version(1)]) (use ne version reason in \<open>simp_all add: plain_line_def no_line_break_def\<close>)
    ultimately show ?thesis
      using try_parse_block [of ?l limits hs "resp_body r" rest] plain
        parse_response_start_line_plain [OF ne version(2) reason(1), of "resp_status_code r"]
      by (simp add: plain_message_def)
  qed
  ultimately show ?thesis by blast
qed

end
