(* ===== verification/Rtsp_Core_Properties.thy ===== *)
theory Rtsp_Core_Properties
  imports Rtsp_Core Rtsp_Message_Roundtrip
begin

text \<open>
  What the RTSP core guarantees: reads may be cut anywhere, events and buffer stay within the limits, a closed core
  is silent; interleaved frames and session headers survive a round trip.
\<close>

section \<open>Reads\<close>

definition settled :: "rtsp_core \<Rightarrow> bool" where
  "settled c \<longleftrightarrow> drain_messages (core_limits c) (core_buffer c) = (core_buffer c, [], None)"

lemma settled_new [simp]: "settled (rtsp_core_new limits)"
  by (simp add: settled_def rtsp_core_new_def drain_messages.simps)

lemma core_new_simps [simp]:
  "core_buffer (rtsp_core_new limits) = []" "\<not> core_closed (rtsp_core_new limits)"
  "core_limits (rtsp_core_new limits) = limits"
  by (simp_all add: rtsp_core_new_def)

lemma growth_iff: "validate_buffer_growth limits a n = Inr u \<longleftrightarrow> a + n < 2 ^ 64 \<and> a + n \<le> max_buffer_size limits"
  by (auto simp: validate_buffer_growth_def)

lemma drain_messages_iff:
  "drain_messages limits b = (b', outs, None) \<longleftrightarrow> drain (rtsp_step limits) () b = ((), Some None, outs, b')"
proof
  assume "drain_messages limits b = (b', outs, None)"
  with drain_messages_drain show "drain (rtsp_step limits) () b = ((), Some None, outs, b')" by blast
next
  assume d: "drain (rtsp_step limits) () b = ((), Some None, outs, b')"
  obtain b2 o2 e2 where m: "drain_messages limits b = (b2, o2, e2)" by (cases "drain_messages limits b")
  from drain_messages_drain [OF m] d have "e2 = None" "o2 = outs" "b2 = b'" by auto
  with m show "drain_messages limits b = (b', outs, None)" by simp
qed

lemma read_ok_iff:
  assumes "\<not> core_closed c"
  shows "rtsp_handle_input c (In_Bytes bs) = (c', Inr outs) \<longleftrightarrow>
    length (core_buffer c) + length bs < 2 ^ 64 \<and>
    length (core_buffer c) + length bs \<le> max_buffer_size (core_limits c) \<and>
    (\<exists>b. drain (rtsp_step (core_limits c)) () (core_buffer c @ bs) = ((), Some None, outs, b) \<and>
         c' = c\<lparr>core_buffer := b\<rparr>)"
proof (cases "validate_buffer_growth (core_limits c) (length (core_buffer c)) (length bs)")
  case (Inl e)
  then have "\<not> (length (core_buffer c) + length bs < 2 ^ 64 \<and>
      length (core_buffer c) + length bs \<le> max_buffer_size (core_limits c))"
    by (auto simp: validate_buffer_growth_def split: if_splits)
  with Inl assms show ?thesis by (auto simp: rtsp_handle_input_def)
next
  case (Inr u)
  then have g: "length (core_buffer c) + length bs < 2 ^ 64"
      "length (core_buffer c) + length bs \<le> max_buffer_size (core_limits c)" by (auto simp: growth_iff)
  obtain b o2 e where m: "drain_messages (core_limits c) (core_buffer c @ bs) = (b, o2, e)"
    by (cases "drain_messages (core_limits c) (core_buffer c @ bs)")
  then have h: "rtsp_handle_input c (In_Bytes bs) =
      (c\<lparr>core_buffer := b\<rparr>, case e of None \<Rightarrow> Inr o2 | Some e \<Rightarrow> Inl e)"
    using Inr assms by (simp add: rtsp_handle_input_def)
  show ?thesis
  proof (cases e)
    case None
    with m have "drain (rtsp_step (core_limits c)) () (core_buffer c @ bs) = ((), Some None, o2, b)"
      by (simp add: drain_messages_iff)
    with h None g show ?thesis by auto
  next
    case (Some e')
    with m h g show ?thesis using drain_messages_iff [of "core_limits c" "core_buffer c @ bs"] by auto
  qed
qed

lemma drain_length: "drain (rtsp_step limits) () b = ((), e, outs, r) \<Longrightarrow> length r \<le> length b"
proof (induction "length b" arbitrary: b outs rule: less_induct)
  case less
  obtain res where s: "rtsp_step limits () b = ((), res)" by (cases "rtsp_step limits () b") simp
  show ?case
  proof (cases res)
    case (Inl e')
    with s less.prems show ?thesis by (auto simp: rtsp.drain_Inl)
  next
    case (Inr nc)
    obtain n c where s': "rtsp_step limits () b = ((), Inr (n, c))" using s Inr by (cases nc) simp
    with less.prems obtain outs' where "drain (rtsp_step limits) () (drop n b) = ((), e, outs', r)"
      by (auto simp: rtsp.drain_Inr [OF s'] split: prod.splits)
    with less.hyps [of "drop n b"] step_progress [OF s'] show ?thesis by fastforce
  qed
qed

text \<open>Reads that are accepted one by one amount to the one read of all their bytes.\<close>

lemma reads_drain:
  assumes "\<not> core_closed c" "settled c" "rtsp_run c (map In_Bytes ps) = (c', map Inr outss)"
  shows "drain (rtsp_step (core_limits c)) () (core_buffer c @ concat ps) =
      ((), Some None, concat outss, core_buffer c') \<and> c' = c\<lparr>core_buffer := core_buffer c'\<rparr>"
  using assms
proof (induction ps arbitrary: c outss)
  case Nil
  then show ?case by (auto simp: settled_def drain_messages_iff)
next
  case (Cons p ps)
  obtain c1 r where h: "rtsp_handle_input c (In_Bytes p) = (c1, r)" by fastforce
  obtain c2 rs where t: "rtsp_run c1 (map In_Bytes ps) = (c2, rs)" by fastforce
  from Cons.prems(3) h t obtain outs outss' where o: "r = Inr outs" "rs = map Inr outss'" "outss = outs # outss'" "c2 = c'"
    by (cases outss) auto
  from h o read_ok_iff [OF Cons.prems(1)] obtain b where
    d: "drain (rtsp_step (core_limits c)) () (core_buffer c @ p) = ((), Some None, outs, b)"
      and c1: "c1 = c\<lparr>core_buffer := b\<rparr>"
    by blast
  have "settled c1" "\<not> core_closed c1"
    using rtsp.drain_settled [OF d] Cons.prems(1) by (simp_all add: settled_def c1 drain_messages_iff)
  from Cons.IH [OF this(2,1)] t o
  have i: "drain (rtsp_step (core_limits c)) () (b @ concat ps) = ((), Some None, concat outss', core_buffer c')"
      "c' = c\<lparr>core_buffer := core_buffer c'\<rparr>"
    by (simp_all add: c1)
  show ?case
    using rtsp.drain_append [of "core_limits c" "()" "core_buffer c @ p" "concat ps"] d i o(3) by simp
qed

text \<open>Conversely, bytes that are accepted as one read are accepted however they are cut.\<close>

lemma reads_accepted:
  assumes "\<not> core_closed c" "settled c" "rtsp_handle_input c (In_Bytes (concat ps)) = (c', Inr outs)"
  shows "\<exists>outss. rtsp_run c (map In_Bytes ps) = (c', map Inr outss) \<and> concat outss = outs"
  using assms
proof (induction ps arbitrary: c outs)
  case Nil
  then have "drain (rtsp_step (core_limits c)) () (core_buffer c) = ((), Some None, outs, core_buffer c')"
      "c' = c\<lparr>core_buffer := core_buffer c'\<rparr>"
    by (auto simp: read_ok_iff)
  with Nil show ?case by (auto simp: settled_def drain_messages_iff)
next
  case (Cons p ps)
  let ?L = "core_limits c"
  from Cons.prems read_ok_iff [OF Cons.prems(1)] obtain b where
    sz: "length (core_buffer c) + length (p @ concat ps) < 2 ^ 64"
        "length (core_buffer c) + length (p @ concat ps) \<le> max_buffer_size ?L"
    and d: "drain (rtsp_step ?L) () ((core_buffer c @ p) @ concat ps) = ((), Some None, outs, b)"
    and c': "c' = c\<lparr>core_buffer := b\<rparr>"
    by auto
  obtain e outs1 r1 where d1: "drain (rtsp_step ?L) () (core_buffer c @ p) = ((), e, outs1, r1)"
    by (metis old.unit.exhaust prod_cases4)
  from d rtsp.drain_append [of ?L "()" "core_buffer c @ p" "concat ps"] d1
  obtain outs2 where e: "e = Some None"
      and d2: "drain (rtsp_step ?L) () (r1 @ concat ps) = ((), Some None, outs2, b)" and o: "outs = outs1 @ outs2"
    by (auto split: if_splits prod.splits)
  let ?c1 = "c\<lparr>core_buffer := r1\<rparr>"
  have h: "rtsp_handle_input c (In_Bytes p) = (?c1, Inr outs1)"
    using sz d1 e by (simp add: read_ok_iff [OF Cons.prems(1)])
  have s: "settled ?c1" "\<not> core_closed ?c1"
    using rtsp.drain_settled [OF d1 [unfolded e]] Cons.prems(1) by (simp_all add: settled_def drain_messages_iff)
  have "rtsp_handle_input ?c1 (In_Bytes (concat ps)) = (c', Inr outs2)"
    using sz d2 c' drain_length [OF d1] s(2) by (simp add: read_ok_iff)
  from Cons.IH [OF s(2,1) this] obtain outss where
    "rtsp_run ?c1 (map In_Bytes ps) = (c', map Inr outss)" "concat outss = outs2" by blast
  with h o have "rtsp_run c (map In_Bytes (p # ps)) = (c', map Inr (outs1 # outss)) \<and> concat (outs1 # outss) = outs"
    by simp
  then show ?case by blast
qed

text \<open>
  C3: The events of an RTSP connection do not depend on how its bytes are cut into reads: if the core accepts the
  bytes as one read, it accepts them in any pieces, ends in the same state and produces the same outputs in the
  same order.
\<close>

theorem rtsp_reads_independent:
  assumes "rtsp_handle_input (rtsp_core_new limits) (In_Bytes (concat ps)) = (c, Inr outs)"
  shows "\<exists>outss. rtsp_run (rtsp_core_new limits) (map In_Bytes ps) = (c, map Inr outss) \<and> concat outss = outs"
  by (rule reads_accepted [OF _ settled_new assms]) simp

text \<open>Two ways of cutting the same bytes that are both accepted agree, whatever the size of the whole.\<close>

lemma rtsp_cuts_agree:
  assumes "rtsp_run (rtsp_core_new limits) (map In_Bytes ps) = (c, map Inr outss)"
    and "rtsp_run (rtsp_core_new limits) (map In_Bytes qs) = (c', map Inr outss')" and "concat ps = concat qs"
  shows "c = c' \<and> concat outss = concat outss'"
  using reads_drain [OF _ settled_new, of limits ps c outss] reads_drain [OF _ settled_new, of limits qs c' outss'] assms
  by auto

text \<open>
  When a later message of the same read is in error, the frames before it are lost with it; cut differently, the
  same bytes deliver them.
\<close>

definition small_limits :: rtsp_limits where
  "small_limits = \<lparr>max_buffer_size = 100, max_headers_count = 4, max_header_line_size = 40, max_body_size = 10,
     max_interleaved_frame_size = 0, validate_version = True\<rparr>"

lemma rtsp_error_drops_outputs:
  "snd (rtsp_handle_input (rtsp_core_new small_limits) (In_Bytes [0x24, 0, 0, 0, 0x24, 0, 0, 1])) =
     Inl (Interleaved_Limit 0 1)"
  "snd (rtsp_run (rtsp_core_new small_limits) [In_Bytes [0x24, 0, 0, 0], In_Bytes [0x24, 0, 0, 1]]) =
     [Inr [Out_Event (Ev_Interleaved 0 [])], Inl (Interleaved_Limit 0 1)]"
  by (simp_all add: rtsp_handle_input_def rtsp_core_new_def small_limits_def validate_buffer_growth_def
      drain_messages.simps try_parse_frame_def parse_interleaved_frame_def from_be_def be_to_nat_def)

section \<open>Limits\<close>

text \<open>An event that respects the limits, and text that is what the parser may produce.\<close>

definition header_within :: "rtsp_limits \<Rightarrow> rtsp_header \<Rightarrow> bool" where
  "header_within limits h \<longleftrightarrow>
     length (header_name h) + 1 + length (header_value h) \<le> max_header_line_size limits \<and>
     CHR '':'' \<notin> set (header_name h)"

definition event_within :: "rtsp_limits \<Rightarrow> rtsp_event \<Rightarrow> bool" where
  "event_within limits ev \<longleftrightarrow>
     (case ev of
        Ev_Request rq \<Rightarrow>
          length (rq_headers rq) \<le> max_headers_count limits \<and> list_all (header_within limits) (rq_headers rq) \<and>
          length (rq_body rq) \<le> max_body_size limits \<and> rq_uri rq \<noteq> [] \<and> rq_version rq \<noteq> [] \<and>
          method_str (rq_method rq) \<noteq> []
      | Ev_Interleaved channel payload \<Rightarrow>
          length payload \<le> max_interleaved_frame_size limits \<and> length payload < 65536
      | Ev_Peer_Closed \<Rightarrow> True)"

definition output_within :: "rtsp_limits \<Rightarrow> rtsp_output \<Rightarrow> bool" where
  "output_within limits out \<longleftrightarrow> (case out of Out_Event ev \<Rightarrow> event_within limits ev | _ \<Rightarrow> True)"

lemma trim_length: "length (trim s) \<le> length s"
  using trim_end_length [of "trim_start s"] trim_start_length [of s] by (simp add: trim_def)

lemma trim_subset: "set (trim s) \<subseteq> set s"
proof -
  obtain a where a: "s = a @ trim_start s" using trim_start_suffix by blast
  obtain b where b: "trim_start s = trim s @ b" using trim_end_prefix [of "trim_start s"] by (auto simp: trim_def)
  have "set (trim s) \<subseteq> set (trim_start s)" by (subst b) simp
  also have "\<dots> \<subseteq> set s" by (subst (2) a) simp
  finally show ?thesis .
qed

lemma split_header_line_within:
  assumes "split_header_line line = Some (name, value)" "length line \<le> max_header_line_size limits"
  shows "header_within limits \<lparr>header_name = name, header_value = value\<rparr>"
proof -
  from assms(1) obtain a b where ab: "split_once '':'' line = Some (a, b)" "name = trim a" "value = trim b"
    by (auto simp: split_header_line_def)
  then have "line = a @ CHR '':'' # b" "CHR '':'' \<notin> set a" by (simp_all add: split_once_char_Some)
  with ab assms(2) trim_length [of a] trim_length [of b] trim_subset [of a] show ?thesis
    by (auto simp: header_within_def)
qed

lemma parse_headers_within:
  "parse_headers limits n lines = Inr hs \<Longrightarrow> n \<le> max_headers_count limits \<Longrightarrow>
     n + length hs \<le> max_headers_count limits \<and> list_all (header_within limits) hs"
proof (induction limits n lines arbitrary: hs rule: parse_headers.induct)
  case (2 limits n line lines)
  show ?case
  proof (cases "line = []")
    case True
    with 2 show ?thesis by simp
  next
    case False
    with "2.prems" obtain name val hs' where
      l: "length line \<le> max_header_line_size limits" "n \<noteq> max_headers_count limits"
        "split_header_line line = Some (name, val)" "parse_headers limits (n + 1) lines = Inr hs'"
        "hs = \<lparr>header_name = name, header_value = val\<rparr> # hs'"
      by (auto simp: sbind_eq_Inr_iff split: if_splits option.splits)
    with "2.IH"(2) [of "(name, val)" name val hs'] False "2.prems"(2) split_header_line_within [OF l(3,1)]
    show ?thesis by simp
  qed
qed simp

lemma split_whitespace_words: "w \<in> set (split_whitespace s) \<Longrightarrow> w \<noteq> []"
proof (induction s rule: split_whitespace.induct)
  case (1 s)
  show ?case
  proof (cases "trim_start s")
    case Nil
    with "1.prems" show ?thesis by (simp add: split_whitespace.simps)
  next
    case (Cons c cs)
    obtain a b where ab: "break_space cs = (a, b)" by fastforce
    from Cons ab have "split_whitespace s = (c # a) # split_whitespace b" by (subst split_whitespace.simps) simp
    with "1.prems" "1.IH" [OF Cons ab [symmetric]] show ?thesis by auto
  qed
qed

lemma parse_request_within:
  assumes "parse_rtsp_message limits m = Inr (Parsed_Request req)"
  shows "length (req_headers req) \<le> max_headers_count limits \<and> list_all (header_within limits) (req_headers req) \<and>
    req_uri req \<noteq> [] \<and> req_version req \<noteq> [] \<and> req_method req \<noteq> [] \<and>
    (\<exists>n. find_header_end m = Some n \<and> req_body req = drop (n + 4) m)"
proof -
  obtain n where n: "find_header_end m = Some n"
    using assms by (cases "find_header_end m") (auto simp: parse_rtsp_message_def)
  obtain v where v: "from_utf8 (take n m) = Inr v"
    using assms n by (auto simp: parse_rtsp_message_def Let_def sbind_eq_Inr_iff)
  obtain l lines where l: "split_str crlf v = l # lines" by (cases "split_str crlf v") auto
  from assms n v l obtain hs where h: "parse_headers limits 0 lines = Inr hs" "req_headers req = hs"
    and w: "parse_request_start_line l = Inr (req_method req, req_uri req, req_version req)"
    and b: "req_body req = drop (n + 4) m"
    by (auto simp: parse_rtsp_message_def Let_def sbind_eq_Inr_iff split: if_splits)
  from w have "split_whitespace l = [req_method req, req_uri req, req_version req]"
    by (auto simp: parse_request_start_line_def split: list.splits)
  then have "req_method req \<noteq> []" "req_uri req \<noteq> []" "req_version req \<noteq> []"
    using split_whitespace_words [of _ l] by auto
  with n h b parse_headers_within [OF h(1)] show ?thesis by simp
qed

lemma try_parse_request_within:
  assumes "try_parse_message limits b = (r, Inr (Parsed_Request req))"
  shows "event_within limits (Ev_Request (into_rtsp_request req))"
proof -
  obtain n where n: "find_header_end b = Some n"
    using assms by (cases "find_header_end b") (auto simp: try_parse_message_def)
  obtain k where "parse_content_length (take (n + 4) b) = Inr k"
    using assms n by (cases "parse_content_length (take (n + 4) b)") (auto simp: try_parse_message_def Let_def)
  with assms n have k: "find_header_end b = Some n" "k \<le> max_body_size limits" "n + 4 + k \<le> length b"
    "parse_rtsp_message limits (take (n + 4 + k) b) = Inr (Parsed_Request req)"
    by (auto simp: try_parse_message_def Let_def split: if_splits)
  from parse_request_within [OF k(4)] obtain n' where
    r: "length (req_headers req) \<le> max_headers_count limits" "list_all (header_within limits) (req_headers req)"
      "req_uri req \<noteq> []" "req_version req \<noteq> []" "req_method req \<noteq> []"
    and n': "find_header_end (take (n + 4 + k) b) = Some n'" "req_body req = drop (n' + 4) (take (n + 4 + k) b)"
    by blast
  from find_header_end_append [OF n'(1), of "drop (n + 4 + k) b"] k(1) have "n' = n" by simp
  with n'(2) k have "length (req_body req) \<le> max_body_size limits" by simp
  with r show ?thesis by (simp add: event_within_def into_rtsp_request_def)
qed

lemma try_parse_frame_within:
  "try_parse_frame b (max_interleaved_frame_size limits) = (r, Inr (Some (channel, payload))) \<Longrightarrow>
     event_within limits (Ev_Interleaved channel payload)"
  using unat_less [of "frame_payload_len (the (parse_interleaved_frame b))"]
  by (auto simp: try_parse_frame_def parse_interleaved_frame_def event_within_def Let_def split: option.splits if_splits)

lemma try_parse_message_rest_length: "try_parse_message limits b = (r, res) \<Longrightarrow> length r \<le> length b"
  using try_parse_message_rest [of limits b r res] by (metis diff_le_self length_drop)

lemma try_parse_frame_rest_length: "try_parse_frame b limit = (r, res) \<Longrightarrow> length r \<le> length b"
  using try_parse_frame_rest [of b limit r res] by (metis diff_le_self length_drop)

lemma drain_messages_within:
  "drain_messages limits b = (b', outs, e) \<Longrightarrow> list_all (output_within limits) outs \<and> length b' \<le> length b"
proof (induction limits b arbitrary: b' outs e rule: drain_messages.induct)
  case (1 limits b)
  let ?d = "drain_messages limits"
  consider "b = []"
    | r res where "b \<noteq> []" "b ! 0 = 0x24" "try_parse_frame b (max_interleaved_frame_size limits) = (r, res)"
    | r res where "b \<noteq> []" "b ! 0 \<noteq> 0x24" "try_parse_message limits b = (r, res)"
    by (metis surj_pair)
  then show ?case
  proof cases
    case 1
    with "1.prems" show ?thesis by (simp add: drain_messages.simps)
  next
    case 2
    show ?thesis
    proof (cases "\<exists>f. res = Inr (Some f)")
      case True
      then obtain ch pl where f: "res = Inr (Some (ch, pl))" by auto
      note sh = try_parse_frame_shorter [OF 2(3) [unfolded f]]
      obtain o1 where "?d r = (b', o1, e)" "outs = Out_Event (Ev_Interleaved ch pl) # o1"
        using "1.prems" 2 f sh by (subst (asm) drain_messages.simps) (auto split: prod.splits)
      with "1.IH"(1) [OF 2(1,2) 2(3) [symmetric] f refl refl sh] sh try_parse_frame_within [OF 2(3) [unfolded f]]
      show ?thesis by (auto simp: output_within_def)
    next
      case False
      with "1.prems" 2 try_parse_frame_rest_length [OF 2(3)] show ?thesis
        by (subst (asm) drain_messages.simps) (auto split: sum.splits option.splits)
    qed
  next
    case 3
    note le = try_parse_message_rest_length [OF 3(3)]
    show ?thesis
    proof (cases res)
      case (Inl e')
      with "1.prems" 3 le show ?thesis by (subst (asm) drain_messages.simps) auto
    next
      case (Inr m)
      note sh = try_parse_message_shorter [OF 3(3) [unfolded Inr]]
      show ?thesis
      proof (cases m)
        case Incomplete
        with "1.prems" 3 Inr le show ?thesis by (subst (asm) drain_messages.simps) auto
      next
        case (Parsed_Request req)
        obtain o1 where "?d r = (b', o1, e)" "outs = Out_Event (Ev_Request (into_rtsp_request req)) # o1"
          using "1.prems" 3 Inr Parsed_Request sh by (subst (asm) drain_messages.simps) (auto split: prod.splits)
        with "1.IH"(2) [OF 3(1,2) 3(3) [symmetric] Inr Parsed_Request] sh Parsed_Request
          try_parse_request_within [OF 3(3) [unfolded Inr Parsed_Request]]
        show ?thesis by (auto simp: output_within_def)
      next
        case (Parsed_Response resp)
        have "?d r = (b', outs, e)"
          using "1.prems" 3 Inr Parsed_Response sh by (subst (asm) drain_messages.simps) auto
        with "1.IH"(3) [OF 3(1,2) 3(3) [symmetric] Inr Parsed_Response] sh Parsed_Response
        show ?thesis by auto
      qed
    qed
  qed
qed

text \<open>
  C16: Whatever arrives on an RTSP connection, the receive buffer stays within \<^verbatim>\<open>max_buffer_size\<close>, and every event the
  core reports is well formed: a request has a method, a URI and a version, at most the allowed number of
  headers, none longer than a header line may be and no colon in its name, and a body within its limit; an
  interleaved payload is within its limit.
\<close>

theorem rtsp_events_within_limits:
  assumes "rtsp_run (rtsp_core_new limits) ins = (c, rs)"
  shows "length (core_buffer c) \<le> max_buffer_size limits \<and>
    (\<forall>outs. Inr outs \<in> set rs \<longrightarrow> list_all (output_within limits) outs)"
proof -
  have step: "length (core_buffer c1) \<le> max_buffer_size limits \<and> core_limits c1 = limits \<and>
      (\<forall>outs. r = Inr outs \<longrightarrow> list_all (output_within limits) outs)"
    if "rtsp_handle_input c0 i = (c1, r)" "length (core_buffer c0) \<le> max_buffer_size limits" "core_limits c0 = limits"
    for c0 i c1 r
    using that drain_messages_within [of limits]
    by (fastforce simp: rtsp_handle_input_def apply_command_def validate_buffer_growth_def output_within_def
        event_within_def sbind_eq_Inr_iff split: if_splits rtsp_input.splits rtsp_command.splits prod.splits option.splits)
  have "length (core_buffer c) \<le> max_buffer_size limits \<and>
      (\<forall>outs. Inr outs \<in> set rs \<longrightarrow> list_all (output_within limits) outs)"
    if "rtsp_run c0 ins = (c, rs)" "length (core_buffer c0) \<le> max_buffer_size limits" "core_limits c0 = limits" for c0
    using that
  proof (induction ins arbitrary: c0 rs)
    case (Cons i ins)
    obtain c1 r where h: "rtsp_handle_input c0 i = (c1, r)" by fastforce
    with Cons.prems(1) obtain rs' where r: "rtsp_run c1 ins = (c, rs')" "rs = r # rs'" by (auto split: prod.splits)
    note s = step [OF h Cons.prems(2,3)]
    from Cons.IH [OF r(1)] s r(2) show ?case by auto
  qed simp
  from this [OF assms] show ?thesis by simp
qed

section \<open>Round trips\<close>

lemma decimal_last: "is_ascii_digit (last (decimal n))"
  using decimal_char [of "last (decimal n)" n] by simp

lemma trimmed_timeout: "trimmed (''timeout='' @ decimal n)"
  using digits_ascii [of "[last (decimal n)]"] decimal_last [of n]
  by (auto simp: trimmed_def is_space_iff is_ascii_digit_def)

lemma trim_end_trimmed: "trimmed s \<Longrightarrow> trim_end s = s"
  using dropWhile_hd [of "rev s" is_space] by (auto simp: trimmed_def trim_ascii hd_rev)

lemma normalize_session_id_ok:
  "normalize_session_id i = Inr t \<longleftrightarrow> t = trim i \<and> t \<noteq> [] \<and> CHR '';'' \<notin> set t \<and> no_line_break t"
  by (auto simp: normalize_session_id_def Let_def)

lemma split_once_timeout: "split_once ''='' (''timeout='' @ v) = Some (''timeout'', v)"
  using split_once_char_append [of "CHR ''=''" "''timeout''" v] by simp

lemma parse_timeout_part:
  "parse_session_parts s [''timeout='' @ decimal (unat n)] = Inr (s\<lparr>session_timeout := Some n\<rparr>)"
proof -
  have "\<not> eq_ignore_ascii_case (''timeout='' @ decimal (unat n)) ''timeout''"
    by (auto simp: eq_ignore_ascii_case_def dest: arg_cong [of _ _ length])
  moreover have "trim ''timeout'' = ''timeout''" by (rule trim_trimmed) (simp add: trimmed_def is_space_iff)
  moreover have "unat n < 2 ^ 32" using unat_less [of n] by simp
  ultimately show ?thesis
    using split_once_timeout [of "decimal (unat n)"] by (simp add: eq_ignore_ascii_case_def)
qed

text \<open>
  A session header that the server writes is read back: \<^verbatim>\<open>parse\<close> of what \<^verbatim>\<open>to_header\<close> produced is the same
  session, with the id trimmed. No condition on the id is needed: ids that would not survive are rejected by
  \<^verbatim>\<open>to_header\<close> itself.
\<close>
lemma rtsp_session_roundtrip:
  assumes "session_to_header s = Inr (Some h)"
  shows "session_parse h = Inr (s\<lparr>session_id := map_option trim (session_id s)\<rparr>)"
proof -
  from assms obtain i t where i: "session_id s = Some i" and t: "normalize_session_id i = Inr t"
    and h: "h = (case session_timeout s of Some n \<Rightarrow> t @ '';timeout='' @ decimal (unat n) | None \<Rightarrow> t)"
    by (auto simp: session_to_header_def sbind_eq_Inr_iff split: option.splits)
  from t have t': "t = trim i" "t \<noteq> []" "CHR '';'' \<notin> set t" "no_line_break t"
    unfolding normalize_session_id_ok by blast+
  then have tt: "trim t = t" by simp
  with t' have norm: "normalize_session_id t = Inr t" by (simp add: normalize_session_id_ok)
  show ?thesis
  proof (cases "session_timeout s")
    case None
    then have "h = t" by (simp add: h)
    moreover have "s = \<lparr>session_id = Some i, session_timeout = None\<rparr>" using i None by simp
    ultimately show ?thesis
      using t' tt norm by (simp add: session_parse_def split_str_absent)
  next
    case (Some n)
    let ?p = "''timeout='' @ decimal (unat n)"
    have hh: "h = t @ CHR '';'' # ?p" by (simp add: h Some)
    have "trim h = trim_start t @ CHR '';'' # trim_end ?p"
      unfolding hh by (rule trim_around(3)) (simp_all add: is_space_iff)
    then have "trim h = h" using trim_idle(1) [OF tt] trim_end_trimmed [OF trimmed_timeout] by (simp add: hh)
    moreover have "split_str '';'' h = [t, ?p]"
    proof -
      have "CHR '';'' \<notin> set ?p" using decimal_char [of "CHR '';''" "unat n"] by (auto simp: is_ascii_digit_def)
      from split_str_absent [OF this, of "[]"] show ?thesis unfolding hh using split_str_at [OF t'(3), of "[]" ?p] by simp
    qed
    moreover have "no_line_break h"
      using t'(4) by (simp add: hh no_line_break_def not_in_decimal is_ascii_digit_def)
    moreover have "h \<noteq> []" by (simp add: hh)
    moreover have "trim ?p = ?p" by (rule trim_trimmed [OF trimmed_timeout])
    moreover have "s = \<lparr>session_id = Some i, session_timeout = Some n\<rparr>" using i Some by simp
    ultimately show ?thesis
      using t'(1) tt norm parse_timeout_part [of "\<lparr>session_id = Some t, session_timeout = None\<rparr>" n]
      by (simp add: session_parse_def)
  qed
qed

text \<open>
  An interleaved frame that the core writes is read back by the parser, whatever follows it, when the payload
  is within the limit of the reader; a longer payload than a frame can carry is refused by the writer.
\<close>
lemma rtsp_interleaved_roundtrip:
  shows "(length payload \<le> 65535 \<longrightarrow>
      (\<exists>bs. encode_frame channel payload = Inr bs \<and>
        (\<forall>rest limit. length payload \<le> limit \<longrightarrow>
          try_parse_frame (bs @ rest) limit = (rest, Inr (Some (channel, payload)))))) \<and>
    (length payload > 65535 \<longrightarrow> encode_frame channel payload = Inl (Interleaved_Payload_Too_Large (length payload)))"
proof -
  let ?n = "of_nat (length payload) :: u16"
  obtain x y where xy: "to_be 2 ?n = [x, y]"
    using length_to_be [of 2 ?n] by (metis (no_types) One_nat_def Suc_1 length_0_conv length_Suc_conv)
  have "from_be (to_be 2 ?n) = ?n" by (simp add: byte_simps)
  moreover have "unat ?n = length payload" if "length payload \<le> 65535"
    using that by (simp add: unat_of_nat)
  moreover have "drop (4 + k) (a # b # c # d # l) = drop k l" "take (4 + k) (a # b # c # d # l) = a # b # c # d # take k l"
    for k and a b c d :: u8 and l by (simp_all add: numeral_eq_Suc)
  ultimately show ?thesis
    by (auto simp: encode_frame_def encode_interleaved_frame_def try_parse_frame_def parse_interleaved_frame_def
        Let_def xy)
qed

section \<open>Witnesses\<close>

lemma two_frames:
  "rtsp_handle_input (rtsp_core_new small_limits) (In_Bytes (concat [[0x24, 1], [0, 0, 0x24], [2, 0, 0]])) =
     (rtsp_core_new small_limits, Inr [Out_Event (Ev_Interleaved 1 []), Out_Event (Ev_Interleaved 2 [])])"
  by (simp add: rtsp_handle_input_def rtsp_core_new_def small_limits_def validate_buffer_growth_def
      drain_messages.simps try_parse_frame_def parse_interleaved_frame_def from_be_def be_to_nat_def)

lemma rtsp_reads_independent_witness:
  "\<exists>outss. rtsp_run (rtsp_core_new small_limits) (map In_Bytes [[0x24, 1], [0, 0, 0x24], [2, 0, 0]]) =
      (rtsp_core_new small_limits, map Inr outss) \<and>
    concat outss = [Out_Event (Ev_Interleaved 1 []), Out_Event (Ev_Interleaved 2 [])]"
  by (rule rtsp_reads_independent [OF two_frames])

lemma rtsp_events_within_limits_witness:
  "list_all (output_within small_limits) [Out_Event (Ev_Interleaved 1 []), Out_Event (Ev_Interleaved 2 [])]"
proof -
  have "rtsp_run (rtsp_core_new small_limits) [In_Bytes (concat [[0x24, 1], [0, 0, 0x24], [2, 0, 0]])] =
    (rtsp_core_new small_limits, [Inr [Out_Event (Ev_Interleaved 1 []), Out_Event (Ev_Interleaved 2 [])]])"
    using two_frames by (simp del: concat.simps)
  from rtsp_events_within_limits [OF this] show ?thesis by simp
qed

lemma rtsp_session_roundtrip_witness:
  "session_parse ''abc;timeout=60'' = Inr \<lparr>session_id = Some ''abc'', session_timeout = Some 60\<rparr>"
proof -
  have t: "trim ''abc'' = ''abc''" by (rule trim_trimmed) (simp add: trimmed_def is_space_iff)
  have d: "decimal 60 = ''60''" by code_simp
  have "session_to_header \<lparr>session_id = Some ''abc'', session_timeout = Some 60\<rparr> = Inr (Some ''abc;timeout=60'')"
    by (simp add: session_to_header_def normalize_session_id_def t d no_line_break_def)
  from rtsp_session_roundtrip [OF this] show ?thesis by (simp add: t)
qed

lemma rtsp_interleaved_roundtrip_witness:
  "\<exists>bs. encode_frame 3 [7, 8] = Inr bs \<and> try_parse_frame (bs @ [9]) 2 = ([9], Inr (Some (3, [7, 8])))"
  using rtsp_interleaved_roundtrip [of "[7, 8]" 3] by auto

lemma rtsp_request_roundtrip_witness:
  "\<exists>bs. encode_rtsp_request
      \<lparr>req_method = ''OPTIONS'', req_uri = ''rtsp://h'', req_version = ''RTSP/1.0'',
       req_headers = [\<lparr>header_name = ''CSeq'', header_value = ''1''\<rparr>], req_body = [104, 105]\<rparr> = Inr bs \<and>
    try_parse_message small_limits bs =
      ([], Inr (Parsed_Request
        \<lparr>req_method = ''OPTIONS'', req_uri = ''rtsp://h'', req_version = ''RTSP/1.0'',
         req_headers = [\<lparr>header_name = ''CSeq'', header_value = ''1''\<rparr>,
           \<lparr>header_name = ''Content-Length'', header_value = ''2''\<rparr>], req_body = [104, 105]\<rparr>))"
proof -
  let ?r = "\<lparr>req_method = ''OPTIONS'', req_uri = ''rtsp://h'', req_version = ''RTSP/1.0'',
       req_headers = [\<lparr>header_name = ''CSeq'', header_value = ''1''\<rparr>], req_body = [104, 105 :: u8]\<rparr>"
  have d: "decimal 2 = ''2''" by code_simp
  have hs: "framed_headers (req_body ?r \<noteq> []) (req_headers ?r) (length (req_body ?r)) =
      [\<lparr>header_name = ''CSeq'', header_value = ''1''\<rparr>, \<lparr>header_name = ''Content-Length'', header_value = ''2''\<rparr>]"
    using d by (simp add: framed_headers_def eq_ignore_ascii_case_def numeral_2_eq_2)
  have p: "plain_header small_limits \<lparr>header_name = ''CSeq'', header_value = ''1''\<rparr>"
      "plain_header small_limits \<lparr>header_name = ''Content-Length'', header_value = ''2''\<rparr>"
    by (simp_all add: plain_header_def trimmed_def is_space_iff no_line_break_def header_line_def small_limits_def)
  have l: "announced_length [\<lparr>header_name = ''CSeq'', header_value = ''1''\<rparr>,
      \<lparr>header_name = ''Content-Length'', header_value = ''2''\<rparr>] = Inr 2"
  proof -
    have "lookup_header [\<lparr>header_name = ''CSeq'', header_value = ''1''\<rparr>,
        \<lparr>header_name = ''Content-Length'', header_value = ''2''\<rparr>] ''content-length'' = Some ''2''"
      by code_simp
    then show ?thesis using parse_uint_decimal [of 2 64] d by (simp add: announced_length_def)
  qed
  have "plain_message small_limits (req_method ?r @ '' '' @ req_uri ?r @ '' '' @ req_version ?r)
      (framed_headers (req_body ?r \<noteq> []) (req_headers ?r) (length (req_body ?r))) (req_body ?r)"
    unfolding hs using p l by (simp add: plain_message_def small_limits_def header_line_def)
  from rtsp_request_roundtrip [OF _ _ _ _ _ _ this] show ?thesis
    unfolding hs
    by (auto simp: word_def is_space_iff eq_ignore_ascii_case_def starts_with_str_def dest: spec [of _ "[]"])
qed

end
