(* ===== verification/Rtsp_Headers.thy ===== *)
theory Rtsp_Headers
  imports Rtsp_Transport
begin

text \<open>
  The RTP-Info header (\<^verbatim>\<open>rtp_info.rs\<close>) and the compatibility layer (\<^verbatim>\<open>compat.rs\<close>). A slice at a byte that is not the
  first of a character panics; that is \<open>None\<close>.
\<close>

section \<open>RTP-Info\<close>

datatype rtp_info_error =
  Rtp_Info_Empty_Header | Rtp_Info_Empty_Stream_Entry | Rtp_Info_Missing_Url | Rtp_Info_Invalid_Parameter string string

record rtp_info_stream =
  ri_url :: string
  ri_seq :: "u16 option"
  ri_rtptime :: "u32 option"

type_synonym rtp_info = "rtp_info_stream list"

definition rtp_info_stream_new :: "string \<Rightarrow> rtp_info_stream" where
  "rtp_info_stream_new url = \<lparr>ri_url = url, ri_seq = None, ri_rtptime = None\<rparr>"

definition with_seq :: "rtp_info_stream \<Rightarrow> u16 \<Rightarrow> rtp_info_stream" where
  "with_seq s n = s\<lparr>ri_seq := Some n\<rparr>"

definition with_rtptime :: "rtp_info_stream \<Rightarrow> u32 \<Rightarrow> rtp_info_stream" where
  "with_rtptime s n = s\<lparr>ri_rtptime := Some n\<rparr>"

definition find_by_url :: "rtp_info \<Rightarrow> string \<Rightarrow> rtp_info_stream option" where
  "find_by_url info url = find (\<lambda>s. ri_url s = url) info"

text \<open>Whether a byte index is between two characters of a text.\<close>

definition is_char_boundary :: "string \<Rightarrow> nat \<Rightarrow> bool" where
  "is_char_boundary s i \<longleftrightarrow>
     i = 0 \<or> i = length s \<or> i < length s \<and> \<not> (0x80 \<le> (of_char (s ! i) :: nat) \<and> (of_char (s ! i) :: nat) \<le> 0xBF)"

text \<open>\<open>piece\<close> is the text from the start of the current stream up to the character that is looked at.\<close>

fun split_streams :: "bool \<Rightarrow> string \<Rightarrow> string \<Rightarrow> string list option" where
  "split_streams in_url piece [] = Some (if piece = [] then [] else [piece])"
| "split_streams in_url piece (c # cs) =
     (if c = CHR ''='' \<and> \<not> in_url
      then split_streams (eq_ignore_ascii_case (trim piece) ''url'') (piece @ [c]) cs
      else if c = CHR '';'' \<and> in_url then split_streams False (piece @ [c]) cs
      else if c = CHR '','' \<and> in_url
      then
        let remaining = trim_start cs in
        if length remaining \<ge> 4
        then
          if \<not> is_char_boundary remaining 4 then None
          else if eq_ignore_ascii_case (take 4 remaining) ''url=''
          then map_option (\<lambda>ps. piece # ps) (split_streams False [] cs)
          else split_streams in_url (piece @ [c]) cs
        else split_streams in_url (piece @ [c]) cs
      else if c = CHR '','' then map_option (\<lambda>ps. piece # ps) (split_streams False [] cs)
      else split_streams in_url (piece @ [c]) cs)"

definition split_rtp_info_streams :: "string \<Rightarrow> string list option" where
  "split_rtp_info_streams value = split_streams False [] value"

text \<open>One field of a stream; the last of each kind counts.\<close>

definition stream_field ::
  "string option \<times> u16 option \<times> u32 option \<Rightarrow> string \<Rightarrow> rtp_info_error + string option \<times> u16 option \<times> u32 option"
where
  "stream_field s part =
     (case s of (url, seq, rtptime) \<Rightarrow>
        if part = [] then Inr s
        else
          case split_once ''='' part of
            None \<Rightarrow> Inr s
          | Some (k, v) \<Rightarrow>
              let key = trim k; field_value = trim v in
              if eq_ignore_ascii_case key ''url''
              then if field_value = [] then Inl Rtp_Info_Missing_Url else Inr (Some field_value, seq, rtptime)
              else if eq_ignore_ascii_case key ''seq''
              then (case parse_uint 16 field_value of
                      None \<Rightarrow> Inl (Rtp_Info_Invalid_Parameter ''seq'' field_value)
                    | Some n \<Rightarrow> Inr (url, Some (of_nat n), rtptime))
              else if eq_ignore_ascii_case key ''rtptime''
              then (case parse_uint 32 field_value of
                      None \<Rightarrow> Inl (Rtp_Info_Invalid_Parameter ''rtptime'' field_value)
                    | Some n \<Rightarrow> Inr (url, seq, Some (of_nat n)))
              else Inr s)"

fun stream_fields ::
  "string option \<times> u16 option \<times> u32 option \<Rightarrow> string list
     \<Rightarrow> rtp_info_error + string option \<times> u16 option \<times> u32 option"
where
  "stream_fields s [] = Inr s"
| "stream_fields s (part # parts) = sbind (stream_field s part) (\<lambda>s'. stream_fields s' parts)"

definition stream_parse :: "string \<Rightarrow> rtp_info_error + rtp_info_stream" where
  "stream_parse value =
     sbind (stream_fields (None, None, None) (map trim (split_str '';'' value))) (\<lambda>(url, seq, rtptime).
       case url of
         None \<Rightarrow> Inl Rtp_Info_Missing_Url
       | Some u \<Rightarrow> Inr \<lparr>ri_url = u, ri_seq = seq, ri_rtptime = rtptime\<rparr>)"

fun parse_streams :: "string list \<Rightarrow> rtp_info_error + rtp_info" where
  "parse_streams [] = Inr []"
| "parse_streams (v # vs) =
     (if trim v = [] then Inl Rtp_Info_Empty_Stream_Entry
      else sbind (stream_parse (trim v)) (\<lambda>s. sbind (parse_streams vs) (\<lambda>ss. Inr (s # ss))))"

definition rtp_info_parse :: "string \<Rightarrow> (rtp_info_error + rtp_info) option" where
  "rtp_info_parse header =
     (let value = trim header in
      if value = [] then Some (Inl Rtp_Info_Empty_Header)
      else map_option
        (\<lambda>vs. sbind (parse_streams vs) (\<lambda>ss. if ss = [] then Inl Rtp_Info_Empty_Header else Inr ss))
        (split_rtp_info_streams value))"

definition stream_to_string :: "rtp_info_stream \<Rightarrow> string" where
  "stream_to_string s =
     ''url='' @ ri_url s
     @ (case ri_seq s of None \<Rightarrow> [] | Some n \<Rightarrow> '';seq='' @ decimal (unat n))
     @ (case ri_rtptime s of None \<Rightarrow> [] | Some n \<Rightarrow> '';rtptime='' @ decimal (unat n))"

definition rtp_info_to_string :: "rtp_info \<Rightarrow> string" where
  "rtp_info_to_string info = join '','' (map stream_to_string info)"

subsection \<open>Panics\<close>

lemma char_boundary_ascii: "ascii s \<Longrightarrow> i \<le> length s \<Longrightarrow> is_char_boundary s i"
  by (cases "i < length s") (force simp: is_char_boundary_def ascii_def list_all_length)+

lemma split_streams_ascii: "ascii s \<Longrightarrow> split_streams b piece s \<noteq> None"
proof (induction s arbitrary: b piece)
  case (Cons c s)
  have "ascii (trim_start s)" using Cons.prems by (simp add: trim_ascii ascii_dropWhile)
  then have "4 \<le> length (trim_start s) \<Longrightarrow> is_char_boundary (trim_start s) 4" by (rule char_boundary_ascii)
  with Cons show ?case by (simp add: Let_def)
qed simp

lemma stream_field_url: "stream_field s part = Inr s' \<Longrightarrow> fst s \<noteq> Some [] \<Longrightarrow> fst s' \<noteq> Some []"
  by (auto simp: stream_field_def Let_def split: if_splits option.splits prod.splits)

lemma stream_fields_url: "stream_fields s ps = Inr s' \<Longrightarrow> fst s \<noteq> Some [] \<Longrightarrow> fst s' \<noteq> Some []"
proof (induction ps arbitrary: s)
  case (Cons p ps)
  then obtain t where "stream_field s p = Inr t" "stream_fields t ps = Inr s'" by (auto simp: sbind_eq_Inr_iff)
  with Cons stream_field_url show ?case by blast
qed simp

lemma ascii_trim: "ascii s \<Longrightarrow> ascii (trim s)"
  by (simp add: trim_ascii ascii_dropWhile)

text \<open>
  C18: Parsing an RTP-Info header never panics on ASCII text: it returns the streams or one of its errors, and an
  empty header is an error. On other text it can panic: a comma in a URL whose fourth byte behind it is inside a
  character makes the parser slice there (\<open>rtp_info_panics\<close>).
\<close>

theorem rtp_info_parse_total:
  assumes "ascii header"
  shows "\<exists>r. rtp_info_parse header = Some r \<and> (trim header = [] \<longrightarrow> r = Inl Rtp_Info_Empty_Header) \<and>
    (\<forall>ss. r = Inr ss \<longrightarrow> ss \<noteq> [] \<and> (\<forall>s \<in> set ss. ri_url s \<noteq> []))"
proof -
  have streams: "\<forall>s \<in> set ss. ri_url s \<noteq> []" if "parse_streams vs = Inr ss" for vs ss
    using that
  proof (induction vs arbitrary: ss)
    case (Cons v vs)
    then obtain s ss' where "stream_parse (trim v) = Inr s" "parse_streams vs = Inr ss'" "ss = s # ss'"
      by (auto simp: sbind_eq_Inr_iff split: if_splits)
    with Cons.IH show ?case
      by (auto simp: stream_parse_def sbind_eq_Inr_iff dest!: stream_fields_url split: option.splits)
  qed simp
  show ?thesis
  proof (cases "trim header = []")
    case False
    obtain vs where "split_rtp_info_streams (trim header) = Some vs"
      using split_streams_ascii [OF ascii_trim [OF assms], of False "[]"] by (auto simp: split_rtp_info_streams_def)
    with False streams show ?thesis
      by (auto simp: rtp_info_parse_def Let_def sbind_eq_Inr_iff split: if_splits)
  qed (simp add: rtp_info_parse_def)
qed

definition accented_url :: string where
  "accented_url = ''url=a,bcd'' @ [CHR 0xC3, CHR 0xA9] @ ''x''"

lemma rtp_info_panics: "valid_string accented_url \<and> rtp_info_parse accented_url = None"
proof -
  have u: "(of_char (CHR ''u'') :: nat) < 128" "\<not> is_space (CHR ''u'')" by (simp_all add: is_space_iff)
  have x: "(of_char (CHR ''x'') :: nat) < 128" "\<not> is_space (CHR ''x'')" by (simp_all add: is_space_iff)
  have b: "(of_char (CHR ''b'') :: nat) < 128" "\<not> is_space (CHR ''b'')" by (simp_all add: is_space_iff)
  have "trim_end [] = []" by (simp add: trim_ascii)
  then have "trim accented_url = accented_url"
    using trim_start_head [OF u, of "''rl=a,bcd'' @ [CHR 0xC3, CHR 0xA9] @ ''x''"]
      trim_around(2) [OF x, of "''url=a,bcd'' @ [CHR 0xC3, CHR 0xA9]" "[]"]
    by (simp add: accented_url_def trim_def)
  moreover have "trim ''url'' = ''url''" by (rule trim_trimmed) (simp add: trimmed_def is_space_iff)
  moreover have "trim_start (''bcd'' @ [CHR 0xC3, CHR 0xA9] @ ''x'') = ''bcd'' @ [CHR 0xC3, CHR 0xA9] @ ''x''"
    using trim_start_head [OF b] by simp
  ultimately have "rtp_info_parse accented_url = None"
    by (simp add: rtp_info_parse_def split_rtp_info_streams_def accented_url_def Let_def is_char_boundary_def
        eq_ignore_ascii_case_def)
  moreover have "valid_string accented_url"
    by (simp add: accented_url_def valid_string_def bytes_of_string_def utf8_valid.simps utf8_cont_def)
  ultimately show ?thesis by blast
qed

end
