(* ===== verification/Rtsp_Rtcp.thy ===== *)
theory Rtsp_Rtcp
  imports Rtcp_Packet
begin

text \<open>
  The RTCP packets of the RTSP core (\<^verbatim>\<open>rtsp/core/src/core/rtcp.rs\<close>), a second implementation beside the one of
  the RTP core: types, parser and builder, errors with the numbers they carry.
\<close>

section \<open>Types\<close>

datatype rs_rtcp_error =
  Rs_Unsupported_Version u8
| Rs_Insufficient_Data string nat nat
| Rs_Invalid_Padding u8 nat
| Rs_Too_Many_Report_Blocks nat | Rs_Too_Many_Sdes_Chunks nat | Rs_Too_Many_Bye_Sources nat
| Rs_Invalid_App_Subtype u8 | Rs_Cumulative_Lost_Out_Of_Range u32
| Rs_Sdes_Item_Too_Long u8 nat | Rs_Invalid_Sdes_Priv nat nat | Rs_Bye_Reason_Too_Long nat
| Rs_Sdes_Missing_Terminator nat | Rs_Packet_Too_Large nat | Rs_Payload_Not_Aligned nat

record rs_report_block =
  rk_ssrc :: u32
  rk_fraction_lost :: u8
  rk_cumulative_lost :: u32
  rk_highest_seq :: u32
  rk_jitter :: u32
  rk_last_sr :: u32
  rk_delay_since_sr :: u32

record rs_sender_report =
  rs_ssrc :: u32
  rs_ntp_timestamp :: u64
  rs_rtp_timestamp :: u32
  rs_packet_count :: u32
  rs_octet_count :: u32
  rs_reports :: "rs_report_block list"

record rs_receiver_report =
  rv_ssrc :: u32
  rv_reports :: "rs_report_block list"

datatype rs_sdes_item =
  Sdes_Cname string | Sdes_Name string | Sdes_Email string | Sdes_Phone string | Sdes_Loc string
| Sdes_Tool string | Sdes_Note string | Sdes_Priv string bytes | Sdes_Unknown u8 bytes

record rs_sdes_chunk =
  ch_ssrc :: u32
  ch_items :: "rs_sdes_item list"

record rs_bye =
  by_ssrcs :: "u32 list"
  by_reason :: "string option"

record rs_app =
  ap_subtype :: u8
  ap_ssrc :: u32
  ap_name :: bytes
  ap_data :: bytes

datatype rs_packet =
  Rs_Sender_Report rs_sender_report
| Rs_Receiver_Report rs_receiver_report
| Rs_Source_Description "rs_sdes_chunk list"
| Rs_Bye rs_bye
| Rs_App rs_app
| Rs_Unknown u8 u8 bytes

fun item_type :: "rs_sdes_item \<Rightarrow> u8" where
  "item_type (Sdes_Cname _) = 1"
| "item_type (Sdes_Name _) = 2"
| "item_type (Sdes_Email _) = 3"
| "item_type (Sdes_Phone _) = 4"
| "item_type (Sdes_Loc _) = 5"
| "item_type (Sdes_Tool _) = 6"
| "item_type (Sdes_Note _) = 7"
| "item_type (Sdes_Priv _ _) = 8"
| "item_type (Sdes_Unknown t _) = t"

section \<open>Parsing\<close>

definition rs_parse_report_block :: "bytes \<Rightarrow> rs_report_block" where
  "rs_parse_report_block data =
     (let fraction_and_lost = from_be (take 4 (drop 4 data)) :: u32 in
      \<lparr>rk_ssrc = from_be (take 4 data),
       rk_fraction_lost = ucast (drop_bit 24 fraction_and_lost),
       rk_cumulative_lost = fraction_and_lost AND 0x00FFFFFF,
       rk_highest_seq = from_be (take 4 (drop 8 data)), rk_jitter = from_be (take 4 (drop 12 data)),
       rk_last_sr = from_be (take 4 (drop 16 data)), rk_delay_since_sr = from_be (take 4 (drop 20 data))\<rparr>)"

fun split_reports :: "nat \<Rightarrow> bytes \<Rightarrow> rs_report_block list" where
  "split_reports 0 data = []"
| "split_reports (Suc n) data = rs_parse_report_block (take 24 data) # split_reports n (drop 24 data)"

definition rs_parse_report_blocks :: "bytes \<Rightarrow> nat \<Rightarrow> nat \<Rightarrow> rs_rtcp_error + rs_report_block list" where
  "rs_parse_report_blocks payload report_start_offset report_count =
     (let expected = report_start_offset + report_count * 24 in
      if length payload < expected
      then Inl (Rs_Insufficient_Data ''rtcp report blocks'' expected (length payload))
      else Inr (split_reports report_count (drop report_start_offset payload)))"

definition rs_parse_sender_report :: "bytes \<Rightarrow> u8 \<Rightarrow> rs_rtcp_error + rs_sender_report" where
  "rs_parse_sender_report payload report_count =
     sbind (rs_parse_report_blocks payload 24 (unat report_count)) (\<lambda>reports.
       Inr \<lparr>rs_ssrc = from_be (take 4 payload), rs_ntp_timestamp = from_be (take 8 (drop 4 payload)),
            rs_rtp_timestamp = from_be (take 4 (drop 12 payload)), rs_packet_count = from_be (take 4 (drop 16 payload)),
            rs_octet_count = from_be (take 4 (drop 20 payload)), rs_reports = reports\<rparr>)"

definition rs_parse_receiver_report :: "bytes \<Rightarrow> u8 \<Rightarrow> rs_rtcp_error + rs_receiver_report" where
  "rs_parse_receiver_report payload report_count =
     sbind (rs_parse_report_blocks payload 4 (unat report_count)) (\<lambda>reports.
       Inr \<lparr>rv_ssrc = from_be (take 4 payload), rv_reports = reports\<rparr>)"

definition parse_sdes_item :: "u8 \<Rightarrow> bytes \<Rightarrow> rs_rtcp_error + rs_sdes_item" where
  "parse_sdes_item t item_data =
     (if t = 1 then Inr (Sdes_Cname (lossy_string item_data))
      else if t = 2 then Inr (Sdes_Name (lossy_string item_data))
      else if t = 3 then Inr (Sdes_Email (lossy_string item_data))
      else if t = 4 then Inr (Sdes_Phone (lossy_string item_data))
      else if t = 5 then Inr (Sdes_Loc (lossy_string item_data))
      else if t = 6 then Inr (Sdes_Tool (lossy_string item_data))
      else if t = 7 then Inr (Sdes_Note (lossy_string item_data))
      else if t = 8 then
        (case item_data of
           [] \<Rightarrow> Inl (Rs_Invalid_Sdes_Priv 0 0)
         | p # r \<Rightarrow>
             if length item_data < 1 + unat p then Inl (Rs_Invalid_Sdes_Priv (length item_data) (unat p))
             else Inr (Sdes_Priv (lossy_string (take (unat p) r)) (drop (unat p) r)))
      else Inr (Sdes_Unknown t item_data))"

text \<open>
  The items of a chunk: \<open>n\<close> is the length of the payload, \<open>start\<close> the offset of the chunk in it, and the offset of
  the parser is \<open>n\<close> less what is left.
\<close>

fun parse_sdes_items ::
  "nat \<Rightarrow> nat \<Rightarrow> nat \<Rightarrow> bytes \<Rightarrow> rs_rtcp_error + (rs_sdes_item list \<times> bytes)"
where
  "parse_sdes_items n start idx [] = Inl (Rs_Sdes_Missing_Terminator idx)"
| "parse_sdes_items n start idx (t # r) =
     (let offset = n - length r in
      if t = 0 then
        (let padding = (4 - (offset - start) mod 4) mod 4 in
         if length r < padding then Inl (Rs_Insufficient_Data ''rtcp sdes chunk padding'' (offset + padding) n)
         else Inr ([], drop padding r))
      else
        case r of
          [] \<Rightarrow> Inl (Rs_Insufficient_Data ''rtcp sdes item length'' (offset + 1) n)
        | len # d \<Rightarrow>
            if length d < unat len
            then Inl (Rs_Insufficient_Data ''rtcp sdes item data'' (offset + 1 + unat len) n)
            else sbind (parse_sdes_item t (take (unat len) d)) (\<lambda>item.
              sbind (parse_sdes_items n start idx (drop (unat len) d)) (\<lambda>(items, rest).
                Inr (item # items, rest))))"

fun parse_sdes_chunks :: "nat \<Rightarrow> nat \<Rightarrow> nat \<Rightarrow> bytes \<Rightarrow> rs_rtcp_error + rs_sdes_chunk list" where
  "parse_sdes_chunks n idx 0 data = Inr []"
| "parse_sdes_chunks n idx (Suc k) data =
     (let offset = n - length data in
      if length data < 4 then Inl (Rs_Insufficient_Data ''rtcp sdes chunk ssrc'' (offset + 4) n)
      else sbind (parse_sdes_items n offset idx (drop 4 data)) (\<lambda>(items, rest).
        sbind (parse_sdes_chunks n (idx + 1) k rest) (\<lambda>chunks.
          Inr (\<lparr>ch_ssrc = from_be (take 4 data), ch_items = items\<rparr> # chunks))))"

definition parse_source_description :: "bytes \<Rightarrow> u8 \<Rightarrow> rs_rtcp_error + rs_sdes_chunk list" where
  "parse_source_description payload chunk_count =
     parse_sdes_chunks (length payload) 0 (unat chunk_count) payload"

fun split_ssrcs :: "nat \<Rightarrow> bytes \<Rightarrow> u32 list" where
  "split_ssrcs 0 data = []"
| "split_ssrcs (Suc n) data = from_be (take 4 data) # split_ssrcs n (drop 4 data)"

definition rs_parse_bye :: "bytes \<Rightarrow> u8 \<Rightarrow> rs_rtcp_error + rs_bye" where
  "rs_parse_bye payload source_count =
     (let required = unat source_count * 4 in
      if length payload < required
      then Inl (Rs_Insufficient_Data ''rtcp bye ssrc list'' required (length payload))
      else
        let ssrcs = split_ssrcs (unat source_count) payload in
        case drop required payload of
          [] \<Rightarrow> Inr \<lparr>by_ssrcs = ssrcs, by_reason = None\<rparr>
        | l # r \<Rightarrow>
            if length r + 1 < unat l + 1
            then Inl (Rs_Insufficient_Data ''rtcp bye reason'' (required + unat l + 1) (length payload))
            else Inr \<lparr>by_ssrcs = ssrcs, by_reason = Some (lossy_string (take (unat l) r))\<rparr>)"

definition rs_parse_app :: "bytes \<Rightarrow> u8 \<Rightarrow> rs_rtcp_error + rs_app" where
  "rs_parse_app payload subtype =
     (if length payload < 8 then Inl (Rs_Insufficient_Data ''rtcp app packet'' 8 (length payload))
      else Inr \<lparr>ap_subtype = subtype, ap_ssrc = from_be (take 4 payload), ap_name = take 4 (drop 4 payload),
                ap_data = drop 8 payload\<rparr>)"

definition rs_parse_body :: "u8 \<Rightarrow> u8 \<Rightarrow> bytes \<Rightarrow> rs_rtcp_error + rs_packet" where
  "rs_parse_body payload_type count payload =
     (if payload_type = 200 then sbind (rs_parse_sender_report payload count) (\<lambda>r. Inr (Rs_Sender_Report r))
      else if payload_type = 201 then sbind (rs_parse_receiver_report payload count) (\<lambda>r. Inr (Rs_Receiver_Report r))
      else if payload_type = 202 then sbind (parse_source_description payload count) (\<lambda>r. Inr (Rs_Source_Description r))
      else if payload_type = 203 then sbind (rs_parse_bye payload count) (\<lambda>r. Inr (Rs_Bye r))
      else if payload_type = 204 then sbind (rs_parse_app payload count) (\<lambda>r. Inr (Rs_App r))
      else Inr (Rs_Unknown payload_type count payload))"

text \<open>The payload without its padding.\<close>

definition rs_strip_padding :: "bytes \<Rightarrow> rs_rtcp_error + bytes" where
  "rs_strip_padding payload =
     (if payload = [] then Inl (Rs_Invalid_Padding 0 0)
      else
        let padding_size = last payload in
        if padding_size = 0 \<or> unat padding_size > length payload
        then Inl (Rs_Invalid_Padding padding_size (length payload))
        else Inr (take (length payload - unat padding_size) payload))"

definition rs_parse_one :: "bytes \<Rightarrow> rs_rtcp_error + (rs_packet \<times> nat)" where
  "rs_parse_one data =
     (let first = data ! 0; version = drop_bit 6 first in
      if version \<noteq> 2 then Inl (Rs_Unsupported_Version version)
      else
        let count = first AND 0x1F; payload_type = data ! 1;
            length_words = unat (from_be (take 2 (drop 2 data)) :: u16);
            packet_size = 4 + length_words * 4 in
        if length data < packet_size
        then Inl (Rs_Insufficient_Data ''rtcp packet payload'' packet_size (length data))
        else
          let payload = take (length_words * 4) (drop 4 data) in
          sbind (if first AND 0x20 \<noteq> 0 then rs_strip_padding payload else Inr payload) (\<lambda>p.
          sbind (rs_parse_body payload_type count p) (\<lambda>packet. Inr (packet, packet_size))))"

lemma rs_parse_one_consumes: "rs_parse_one data = Inr (p, n) \<Longrightarrow> 0 < n"
  by (auto simp: rs_parse_one_def Let_def sbind_eq_Inr_iff split: if_splits)

function rs_rtcp_parse :: "bytes \<Rightarrow> rs_rtcp_error + rs_packet list" where
  "rs_rtcp_parse data =
     (if length data < 4 then Inr []
      else
        case rs_parse_one data of
          Inl e \<Rightarrow> Inl e
        | Inr (packet, consumed) \<Rightarrow>
            sbind (rs_rtcp_parse (drop consumed data)) (\<lambda>packets. Inr (packet # packets)))"
  by pat_completeness auto
termination by (relation "measure length") (auto dest: rs_parse_one_consumes)

declare rs_rtcp_parse.simps [simp del]

section \<open>Building\<close>

definition write_packet_header :: "u8 \<Rightarrow> u8 \<Rightarrow> nat \<Rightarrow> rs_rtcp_error + bytes" where
  "write_packet_header payload_type count payload_bytes =
     (if payload_bytes mod 4 \<noteq> 0 then Inl (Rs_Payload_Not_Aligned payload_bytes)
      else
        let length_words = payload_bytes div 4 in
        if length_words > 65535 then Inl (Rs_Packet_Too_Large length_words)
        else Inr ([0x80 OR (count AND 0x1F), payload_type] @ to_be 2 (of_nat length_words :: u16)))"

definition write_report_block :: "rs_report_block \<Rightarrow> bytes" where
  "write_report_block r =
     to_be 4 (rk_ssrc r)
     @ to_be 4 (push_bit 24 (ucast (rk_fraction_lost r)) OR (rk_cumulative_lost r AND 0x00FFFFFF) :: u32)
     @ to_be 4 (rk_highest_seq r) @ to_be 4 (rk_jitter r) @ to_be 4 (rk_last_sr r) @ to_be 4 (rk_delay_since_sr r)"

fun write_report_blocks :: "rs_report_block list \<Rightarrow> rs_rtcp_error + bytes" where
  "write_report_blocks [] = Inr []"
| "write_report_blocks (r # rs) =
     (if rk_cumulative_lost r > 0x00FFFFFF then Inl (Rs_Cumulative_Lost_Out_Of_Range (rk_cumulative_lost r))
      else sbind (write_report_blocks rs) (\<lambda>bs. Inr (write_report_block r @ bs)))"

definition rs_build_sender_report :: "rs_sender_report \<Rightarrow> rs_rtcp_error + bytes" where
  "rs_build_sender_report sr =
     (let report_count = length (rs_reports sr) in
      if report_count > 31 then Inl (Rs_Too_Many_Report_Blocks report_count)
      else
        let length_words = 6 + report_count * 6 in
        if length_words > 65535 then Inl (Rs_Packet_Too_Large length_words)
        else
          sbind (write_packet_header 200 (of_nat report_count) (length_words * 4)) (\<lambda>header.
          sbind (write_report_blocks (rs_reports sr)) (\<lambda>blocks.
            Inr (header @ to_be 4 (rs_ssrc sr) @ to_be 8 (rs_ntp_timestamp sr) @ to_be 4 (rs_rtp_timestamp sr)
                 @ to_be 4 (rs_packet_count sr) @ to_be 4 (rs_octet_count sr) @ blocks))))"

definition rs_build_receiver_report :: "rs_receiver_report \<Rightarrow> rs_rtcp_error + bytes" where
  "rs_build_receiver_report rr =
     (let report_count = length (rv_reports rr) in
      if report_count > 31 then Inl (Rs_Too_Many_Report_Blocks report_count)
      else
        let length_words = 1 + report_count * 6 in
        if length_words > 65535 then Inl (Rs_Packet_Too_Large length_words)
        else
          sbind (write_packet_header 201 (of_nat report_count) (length_words * 4)) (\<lambda>header.
          sbind (write_report_blocks (rv_reports rr)) (\<lambda>blocks.
            Inr (header @ to_be 4 (rv_ssrc rr) @ blocks))))"

fun build_sdes_item_data :: "rs_sdes_item \<Rightarrow> rs_rtcp_error + bytes" where
  "build_sdes_item_data (Sdes_Priv prefix data) =
     (let len = 1 + length prefix + length data in
      if len > 255 then Inl (Rs_Sdes_Item_Too_Long 8 len)
      else Inr (of_nat (length prefix) # bytes_of_string prefix @ data))"
| "build_sdes_item_data (Sdes_Unknown _ data) = Inr data"
| "build_sdes_item_data (Sdes_Cname s) = Inr (bytes_of_string s)"
| "build_sdes_item_data (Sdes_Name s) = Inr (bytes_of_string s)"
| "build_sdes_item_data (Sdes_Email s) = Inr (bytes_of_string s)"
| "build_sdes_item_data (Sdes_Phone s) = Inr (bytes_of_string s)"
| "build_sdes_item_data (Sdes_Loc s) = Inr (bytes_of_string s)"
| "build_sdes_item_data (Sdes_Tool s) = Inr (bytes_of_string s)"
| "build_sdes_item_data (Sdes_Note s) = Inr (bytes_of_string s)"

fun build_sdes_items :: "rs_sdes_item list \<Rightarrow> rs_rtcp_error + bytes" where
  "build_sdes_items [] = Inr []"
| "build_sdes_items (item # items) =
     sbind (build_sdes_item_data item) (\<lambda>item_data.
       if length item_data > 255 then Inl (Rs_Sdes_Item_Too_Long (item_type item) (length item_data))
       else sbind (build_sdes_items items) (\<lambda>bs.
         Inr ([item_type item, of_nat (length item_data)] @ item_data @ bs)))"

text \<open>Zeros up to the next multiple of four.\<close>

definition pad4 :: "bytes \<Rightarrow> bytes" where
  "pad4 bs = bs @ replicate (padding_to_4 (length bs)) 0"

fun build_sdes_chunks :: "bytes \<Rightarrow> rs_sdes_chunk list \<Rightarrow> rs_rtcp_error + bytes" where
  "build_sdes_chunks payload [] = Inr payload"
| "build_sdes_chunks payload (chunk # chunks) =
     sbind (build_sdes_items (ch_items chunk)) (\<lambda>items.
       build_sdes_chunks (pad4 (payload @ to_be 4 (ch_ssrc chunk) @ items @ [0])) chunks)"

definition build_source_description :: "rs_sdes_chunk list \<Rightarrow> rs_rtcp_error + bytes" where
  "build_source_description chunks =
     (let chunk_count = length chunks in
      if chunk_count > 31 then Inl (Rs_Too_Many_Sdes_Chunks chunk_count)
      else sbind (build_sdes_chunks [] chunks) (\<lambda>payload.
        sbind (write_packet_header 202 (of_nat chunk_count) (length payload)) (\<lambda>header. Inr (header @ payload))))"

definition rs_build_bye :: "rs_bye \<Rightarrow> rs_rtcp_error + bytes" where
  "rs_build_bye bye =
     (let source_count = length (by_ssrcs bye) in
      if source_count > 31 then Inl (Rs_Too_Many_Bye_Sources source_count)
      else
        let ssrcs = concat (map (to_be 4) (by_ssrcs bye)) in
        sbind (case by_reason bye of
                 None \<Rightarrow> Inr ssrcs
               | Some reason \<Rightarrow>
                   if length reason > 255 then Inl (Rs_Bye_Reason_Too_Long (length reason))
                   else Inr (pad4 (ssrcs @ of_nat (length reason) # bytes_of_string reason))) (\<lambda>payload.
        sbind (write_packet_header 203 (of_nat source_count) (length payload)) (\<lambda>header. Inr (header @ payload))))"

definition rs_build_app :: "rs_app \<Rightarrow> rs_rtcp_error + bytes" where
  "rs_build_app app =
     (if ap_subtype app > 31 then Inl (Rs_Invalid_App_Subtype (ap_subtype app))
      else
        let payload = pad4 (to_be 4 (ap_ssrc app) @ ap_name app @ ap_data app) in
        sbind (write_packet_header 204 (ap_subtype app) (length payload)) (\<lambda>header. Inr (header @ payload)))"

fun rs_build_one :: "rs_packet \<Rightarrow> rs_rtcp_error + bytes" where
  "rs_build_one (Rs_Sender_Report sr) = rs_build_sender_report sr"
| "rs_build_one (Rs_Receiver_Report rr) = rs_build_receiver_report rr"
| "rs_build_one (Rs_Source_Description chunks) = build_source_description chunks"
| "rs_build_one (Rs_Bye bye) = rs_build_bye bye"
| "rs_build_one (Rs_App app) = rs_build_app app"
| "rs_build_one (Rs_Unknown payload_type count payload) =
     sbind (write_packet_header payload_type count (length payload)) (\<lambda>header. Inr (header @ payload))"

fun rs_rtcp_build :: "rs_packet list \<Rightarrow> rs_rtcp_error + bytes" where
  "rs_rtcp_build [] = Inr []"
| "rs_rtcp_build (p # ps) =
     sbind (rs_build_one p) (\<lambda>bs. sbind (rs_rtcp_build ps) (\<lambda>rest. Inr (bs @ rest)))"

end
