(* ===== verification/Rtsp_Rtcp_Fb.thy ===== *)
theory Rtsp_Rtcp_Fb
  imports Rtsp_Rtcp_Properties Rtp_Packet
begin

text \<open>
  RTCP feedback and extended reports of the RTSP core (\<^verbatim>\<open>rtsp/core/src/core/rtcp_fb.rs\<close>, \<^verbatim>\<open>rtcp_xr.rs\<close>): NACK, PLI
  and FIR, the packing of lost sequence numbers into NACK items, and the blocks of extended reports.
\<close>

section \<open>Feedback packets\<close>

record nack_item =
  ni_pid :: u16
  ni_blp :: u16

record rtcp_nack =
  nk_sender_ssrc :: u32
  nk_media_ssrc :: u32
  nk_items :: "nack_item list"

record rtcp_pli =
  pl_sender_ssrc :: u32
  pl_media_ssrc :: u32

record fir_entry =
  fe_ssrc :: u32
  fe_seq_nr :: u8

record rtcp_fir =
  fr_sender_ssrc :: u32
  fr_media_ssrc :: u32
  fr_fci :: "fir_entry list"

datatype rtcp_feedback = Fb_Nack rtcp_nack | Fb_Pli rtcp_pli | Fb_Fir rtcp_fir

definition lost_seqs :: "nack_item \<Rightarrow> u16 list" where
  "lost_seqs i =
     ni_pid i # map (\<lambda>b. ni_pid i + of_nat (Suc b)) (filter (\<lambda>b. ni_blp i AND push_bit b 1 \<noteq> 0) [0..<16])"

fun parse_nack_items :: "bytes \<Rightarrow> nack_item list" where
  "parse_nack_items (a # b # c # d # fci) =
     \<lparr>ni_pid = from_be [a, b], ni_blp = from_be [c, d]\<rparr> # parse_nack_items fci"
| "parse_nack_items _ = []"

fun parse_fir_entries :: "bytes \<Rightarrow> fir_entry list" where
  "parse_fir_entries (a # b # c # d # s # _ # _ # _ # fci) =
     \<lparr>fe_ssrc = from_be [a, b, c, d], fe_seq_nr = s\<rparr> # parse_fir_entries fci"
| "parse_fir_entries _ = []"

definition parse_rtcp_fb :: "u8 \<Rightarrow> u8 \<Rightarrow> bytes \<Rightarrow> rtcp_feedback option" where
  "parse_rtcp_fb pt fmt payload =
     (if length payload < 8 then None
      else
        let sender_ssrc = from_be (take 4 payload); media_ssrc = from_be (take 4 (drop 4 payload)); fci = drop 8 payload in
        if pt = 205 \<and> fmt = 1
        then Some (Fb_Nack \<lparr>nk_sender_ssrc = sender_ssrc, nk_media_ssrc = media_ssrc, nk_items = parse_nack_items fci\<rparr>)
        else if pt = 206 \<and> fmt = 1
        then Some (Fb_Pli \<lparr>pl_sender_ssrc = sender_ssrc, pl_media_ssrc = media_ssrc\<rparr>)
        else if pt = 206 \<and> fmt = 4
        then Some (Fb_Fir \<lparr>fr_sender_ssrc = sender_ssrc, fr_media_ssrc = media_ssrc, fr_fci = parse_fir_entries fci\<rparr>)
        else None)"

definition build_rtcp_nack :: "rtcp_nack \<Rightarrow> bytes" where
  "build_rtcp_nack n =
     (let length_words = (8 + length (nk_items n) * 4) div 4 in
      [0x80 OR 1, 205] @ to_be 2 (of_nat length_words :: u16) @ to_be 4 (nk_sender_ssrc n) @ to_be 4 (nk_media_ssrc n)
      @ concat (map (\<lambda>i. to_be 2 (ni_pid i) @ to_be 2 (ni_blp i)) (nk_items n)))"

definition build_rtcp_pli :: "rtcp_pli \<Rightarrow> bytes" where
  "build_rtcp_pli p =
     [0x80 OR 1, 206] @ to_be 2 (2 :: u16) @ to_be 4 (pl_sender_ssrc p) @ to_be 4 (pl_media_ssrc p)"

definition build_rtcp_fir :: "rtcp_fir \<Rightarrow> bytes" where
  "build_rtcp_fir f =
     (let length_words = (8 + length (fr_fci f) * 8) div 4 in
      [0x80 OR 4, 206] @ to_be 2 (of_nat length_words :: u16) @ to_be 4 (fr_sender_ssrc f) @ to_be 4 (fr_media_ssrc f)
      @ concat (map (\<lambda>e. to_be 4 (fe_ssrc e) @ [fe_seq_nr e, 0, 0, 0]) (fr_fci f)))"

section \<open>Packing lost sequence numbers\<close>

text \<open>The inner loop: the numbers at most 16 after \<open>pid\<close> go into the bit mask; what it stops at is left.\<close>

fun take_near :: "u16 \<Rightarrow> u16 \<Rightarrow> u16 list \<Rightarrow> u16 \<times> u16 list" where
  "take_near pid blp [] = (blp, [])"
| "take_near pid blp (s # ss) =
     (let diff = s - pid in
      if 1 \<le> diff \<and> diff \<le> 16 then take_near pid (blp OR push_bit (unat (diff - 1)) 1) ss
      else (blp, s # ss))"

lemma take_near_length: "take_near pid blp ss = (b, rest) \<Longrightarrow> length rest \<le> length ss"
  by (induction ss arbitrary: blp) (auto simp: Let_def split: if_splits, fastforce)

function pack_items :: "u16 list \<Rightarrow> nack_item list" where
  "pack_items [] = []"
| "pack_items (pid # ss) =
     (case take_near pid 0 ss of (blp, rest) \<Rightarrow> \<lparr>ni_pid = pid, ni_blp = blp\<rparr> # pack_items rest)"
  by pat_completeness auto
termination by (relation "measure length") (auto dest: take_near_length [OF sym] simp: less_Suc_eq_le)

text \<open>\<^verbatim>\<open>dedup\<close> removes equal neighbours.\<close>

definition nack_items_from_lost_seqs :: "u16 list \<Rightarrow> nack_item list" where
  "nack_items_from_lost_seqs lost = (if lost = [] then [] else pack_items (remdups_adj (sort lost)))"

section \<open>Extended reports\<close>

record dlrr_sub_block =
  db_ssrc :: u32
  db_last_rr :: u32
  db_delay_since_last_rr :: u32

record voip_metrics =
  vm_ssrc :: u32
  vm_loss_rate :: u8
  vm_discard_rate :: u8
  vm_burst_density :: u8
  vm_gap_density :: u8
  vm_burst_duration :: u16
  vm_gap_duration :: u16
  vm_round_trip_delay :: u16
  vm_end_system_delay :: u16
  vm_signal_level :: u8
  vm_noise_level :: u8
  vm_rerl :: u8
  vm_gmin :: u8
  vm_r_factor :: u8
  vm_ext_r_factor :: u8
  vm_mos_lq :: u8
  vm_mos_cq :: u8
  vm_jb_nominal :: u16
  vm_jb_maximum :: u16
  vm_jb_abs_max :: u16

datatype xr_block =
  Xr_Receiver_Reference_Time u64
| Xr_Dlrr "dlrr_sub_block list"
| Xr_Voip_Metrics voip_metrics
| Xr_Unknown u8 bytes

record rtcp_xr =
  xr_sender_ssrc :: u32
  xr_blocks :: "xr_block list"

definition u16_at :: "bytes \<Rightarrow> nat \<Rightarrow> u16" where "u16_at bs i = from_be (take 2 (drop i bs))"
definition u32_at :: "bytes \<Rightarrow> nat \<Rightarrow> u32" where "u32_at bs i = from_be (take 4 (drop i bs))"

function parse_dlrr :: "bytes \<Rightarrow> dlrr_sub_block list" where
  "parse_dlrr d =
     (if length d < 12 then []
      else \<lparr>db_ssrc = u32_at d 0, db_last_rr = u32_at d 4, db_delay_since_last_rr = u32_at d 8\<rparr> # parse_dlrr (drop 12 d))"
  by pat_completeness auto
termination by (relation "measure length") auto

declare parse_dlrr.simps [simp del]

definition parse_voip_metrics :: "bytes \<Rightarrow> voip_metrics" where
  "parse_voip_metrics d =
     \<lparr>vm_ssrc = u32_at d 0, vm_loss_rate = d ! 4, vm_discard_rate = d ! 5, vm_burst_density = d ! 6, vm_gap_density = d ! 7,
      vm_burst_duration = u16_at d 8, vm_gap_duration = u16_at d 10, vm_round_trip_delay = u16_at d 12,
      vm_end_system_delay = u16_at d 14, vm_signal_level = d ! 16, vm_noise_level = d ! 17, vm_rerl = d ! 18,
      vm_gmin = d ! 19, vm_r_factor = d ! 20, vm_ext_r_factor = d ! 21, vm_mos_lq = d ! 22, vm_mos_cq = d ! 23,
      vm_jb_nominal = u16_at d 24, vm_jb_maximum = u16_at d 26,
      vm_jb_abs_max = (if length d \<ge> 30 then u16_at d 28 else 0)\<rparr>"

definition parse_xr_block :: "u8 \<Rightarrow> bytes \<Rightarrow> xr_block" where
  "parse_xr_block block_type d =
     (if block_type = 4 \<and> length d \<ge> 8 then Xr_Receiver_Reference_Time (from_be (take 8 d))
      else if block_type = 5 then Xr_Dlrr (parse_dlrr d)
      else if block_type = 7 \<and> length d \<ge> 28 then Xr_Voip_Metrics (parse_voip_metrics d)
      else Xr_Unknown block_type d)"

function parse_xr_blocks :: "bytes \<Rightarrow> xr_block list" where
  "parse_xr_blocks left =
     (if length left < 4 then []
      else
        let block_type = left ! 0; block_data_len = unat (u16_at left 2) * 4; r = drop 4 left in
        if length r < block_data_len then []
        else parse_xr_block block_type (take block_data_len r) # parse_xr_blocks (drop block_data_len r))"
  by pat_completeness auto
termination by (relation "measure length") auto

declare parse_xr_blocks.simps [simp del]

definition parse_rtcp_xr :: "bytes \<Rightarrow> rtcp_xr option" where
  "parse_rtcp_xr payload =
     (if length payload < 4 then None
      else Some \<lparr>xr_sender_ssrc = u32_at payload 0, xr_blocks = parse_xr_blocks (drop 4 payload)\<rparr>)"

definition build_rtcp_xr_receiver_reference_time :: "u32 \<Rightarrow> u64 \<Rightarrow> bytes" where
  "build_rtcp_xr_receiver_reference_time sender_ssrc ntp_timestamp =
     [0x80, 207] @ to_be 2 (3 :: u16) @ to_be 4 sender_ssrc @ [4, 0] @ to_be 2 (2 :: u16) @ to_be 8 ntp_timestamp"

section \<open>The numbers of a NACK\<close>

lemma lost_seqs_bits:
  "lost_seqs i = ni_pid i # map (\<lambda>b. ni_pid i + of_nat (Suc b)) (filter (bit (ni_blp i)) [0..<16])"
proof -
  have "(v AND push_bit b 1 \<noteq> 0) = bit (v :: u16) b" for v b
    by (simp add: push_bit_eq_mult and_exp_eq_0_iff_not_bit)
  then show ?thesis by (simp add: lost_seqs_def)
qed

lemma unat_diff_u16:
  fixes s pid :: u16
  assumes "pid < s"
  shows "unat (s - pid) = unat s - unat pid" "unat (s - pid - 1) = unat s - unat pid - 1"
proof -
  show d: "unat (s - pid) = unat s - unat pid" using assms by (intro unat_sub) simp
  have "1 \<le> s - pid" using assms d by (simp add: word_le_nat_alt word_less_nat_alt)
  then show "unat (s - pid - 1) = unat s - unat pid - 1" using unat_sub [of 1 "s - pid"] d by simp
qed

abbreviation seq_offset :: "u16 \<Rightarrow> u16 \<Rightarrow> nat" where
  "seq_offset pid s \<equiv> unat s - unat pid - 1"

lemma seq_offset_back: "pid < s \<Longrightarrow> pid + of_nat (Suc (seq_offset pid s)) = (s :: u16)"
  by (simp add: of_nat_diff word_less_nat_alt)

lemma bit_push_one: "k < 16 \<Longrightarrow> bit (push_bit k 1 :: u16) n \<longleftrightarrow> n = k"
  unfolding bit_push_bit_iff bit_1_iff by auto

lemma take_near_spec:
  assumes "sorted_wrt (<) (pid # ss)" and "take_near pid blp ss = (b, rest)"
  shows "\<exists>near. ss = near @ rest \<and> (\<forall>s \<in> set near. seq_offset pid s < 16)
    \<and> (\<forall>n. bit b n = (bit blp n \<or> n \<in> seq_offset pid ` set near))
    \<and> (rest \<noteq> [] \<longrightarrow> unat pid + 17 \<le> unat (hd rest))"
  using assms
proof (induction ss arbitrary: blp)
  case Nil
  then show ?case by (intro exI [of _ "[]"]) simp
next
  case (Cons s ss)
  have lt: "pid < s" using Cons.prems(1) by auto
  note u = unat_diff_u16 [OF lt]
  have us: "unat pid < unat s" using lt by (simp add: word_less_nat_alt)
  have d: "1 \<le> s - pid" using us u(1) by (simp add: word_le_nat_alt)
  show ?case
  proof (cases "s - pid \<le> 16")
    case False
    then have "unat pid + 17 \<le> unat s" using u(1) us by (simp add: word_le_nat_alt)
    with False Cons.prems(2) show ?thesis by (intro exI [of _ "[]"]) (auto simp: Let_def)
  next
    case True
    let ?k = "seq_offset pid s"
    have k: "?k < 16" using True u(1) us by (simp add: word_le_nat_alt)
    from Cons.prems(2) True d have t: "take_near pid (blp OR push_bit ?k 1) ss = (b, rest)"
      by (simp add: Let_def u(2) del: push_bit_of_1)
    have "sorted_wrt (<) (pid # ss)" using Cons.prems(1) by auto
    from Cons.IH [OF this t] obtain near where
      n: "ss = near @ rest" "\<forall>s \<in> set near. seq_offset pid s < 16"
      "\<And>n. bit b n = (bit (blp OR push_bit ?k 1) n \<or> n \<in> seq_offset pid ` set near)"
      "rest \<noteq> [] \<longrightarrow> unat pid + 17 \<le> unat (hd rest)" by blast
    have "bit b n = (bit blp n \<or> n \<in> seq_offset pid ` set (s # near))" for n
      unfolding n(3) bit_or_iff bit_push_one [OF k] by auto
    with n k show ?thesis by (intro exI [of _ "s # near"]) simp
  qed
qed

lemma lost_seqs_near:
  assumes "sorted_wrt (<) (pid # near)" and "\<forall>s \<in> set near. seq_offset pid s < 16"
    and "\<And>n. bit b n = (n \<in> seq_offset pid ` set near)"
  shows "lost_seqs \<lparr>ni_pid = pid, ni_blp = b\<rparr> = pid # near"
proof -
  let ?ks = "map (seq_offset pid) near"
  have "sorted_wrt (<) ?ks"
    unfolding sorted_wrt_map
    by (rule sorted_wrt_mono_rel [of near "(<)"])
      (use assms(1) in \<open>auto simp: word_less_nat_alt\<close>)
  then have ks: "sorted ?ks" "distinct ?ks" by (simp_all add: strict_sorted_iff)
  have fs: "sorted (filter (bit b) [0..<16])" "distinct (filter (bit b) [0..<16])"
    by (simp_all add: sorted_wrt_filter)
  have "set (filter (bit b) [0..<16]) = set ?ks" using assms(2,3) by auto
  then have e: "filter (bit b) [0..<16] = ?ks" using ks fs by (intro sorted_distinct_set_unique)
  have "map (\<lambda>k. pid + of_nat (Suc k)) ?ks = near"
    unfolding map_map by (rule map_idI) (use assms(1) seq_offset_back in \<open>auto simp del: of_nat_Suc\<close>)
  then show ?thesis by (simp add: lost_seqs_bits e del: of_nat_Suc map_map)
qed

lemma pack_items_spec:
  "sorted_wrt (<) ss \<Longrightarrow> concat (map lost_seqs (pack_items ss)) = ss
     \<and> (ss \<noteq> [] \<longrightarrow> unat (hd ss) + 17 * (length (pack_items ss) - 1) \<le> 65535)"
proof (induction ss rule: pack_items.induct)
  case 1
  show ?case by simp
next
  case (2 pid ss)
  obtain b rest where t: "take_near pid 0 ss = (b, rest)" by fastforce
  from take_near_spec [OF 2(2) t] obtain near where
    n: "ss = near @ rest" "\<forall>s \<in> set near. seq_offset pid s < 16" "\<And>n. bit b n = (n \<in> seq_offset pid ` set near)"
    "rest \<noteq> [] \<longrightarrow> unat pid + 17 \<le> unat (hd rest)" by auto
  have s: "sorted_wrt (<) (pid # near)" "sorted_wrt (<) rest"
    using 2(2) by (simp_all add: n(1) sorted_wrt_append)
  note IH = 2(1) [OF t [symmetric] s(2)]
  have bound: "unat pid + 17 * length (pack_items rest) \<le> 65535"
  proof (cases rest)
    case Nil
    then show ?thesis using unsigned_less [of pid, where ?'a = nat] by simp
  next
    case (Cons r rs)
    then have "0 < length (pack_items rest)" by (simp split: prod.split)
    moreover from IH Cons have "unat r + 17 * (length (pack_items rest) - 1) \<le> 65535" by simp
    ultimately show ?thesis using n(4) Cons by (simp del: pack_items.simps)
  qed
  have "pack_items (pid # ss) = \<lparr>ni_pid = pid, ni_blp = b\<rparr> # pack_items rest" by (simp add: t)
  with IH lost_seqs_near [OF s(1) n(2,3)] bound show ?case by (simp add: n(1) del: pack_items.simps)
qed

lemma nack_sorted:
  "sorted_wrt (<) (remdups_adj (sort lost))" "remdups_adj (sort lost) = sorted_list_of_set (set (lost :: u16 list))"
proof -
  have "sorted (remdups_adj (sort lost))" by simp
  moreover have "sorted xs \<Longrightarrow> distinct (remdups_adj xs)" for xs :: "u16 list"
    by (induction xs rule: remdups_adj.induct) auto
  ultimately have "sorted (remdups_adj (sort lost))" "distinct (remdups_adj (sort lost))" by simp_all
  then show "sorted_wrt (<) (remdups_adj (sort lost))" "remdups_adj (sort lost) = sorted_list_of_set (set lost)"
    by (simp_all add: strict_sorted_iff sorted_distinct_set_unique)
qed

lemma nack_items_cover: "concat (map lost_seqs (nack_items_from_lost_seqs lost)) = sorted_list_of_set (set lost)"
  using pack_items_spec [OF nack_sorted(1), of lost] by (simp add: nack_items_from_lost_seqs_def nack_sorted(2))

lemma nack_items_few: "length (nack_items_from_lost_seqs lost) \<le> 3856"
proof -
  let ?ss = "remdups_adj (sort lost)"
  have "?ss \<noteq> [] \<Longrightarrow> 17 * (length (pack_items ?ss) - 1) \<le> 65535" using pack_items_spec [OF nack_sorted(1), of lost] by simp
  then show ?thesis by (cases "?ss = []") (auto simp: nack_items_from_lost_seqs_def)
qed

section \<open>Feedback on the wire\<close>

definition nack_body :: "rtcp_nack \<Rightarrow> bytes" where
  "nack_body n = to_be 4 (nk_sender_ssrc n) @ to_be 4 (nk_media_ssrc n)
     @ concat (map (\<lambda>i. to_be 2 (ni_pid i) @ to_be 2 (ni_blp i)) (nk_items n))"

lemma length_nack_body: "length (nack_body n) = (2 + length (nk_items n)) * 4"
  by (simp add: nack_body_def length_concat comp_def sum_list_triv)

lemma parse_nack_items_back:
  "parse_nack_items (concat (map (\<lambda>i. to_be 2 (ni_pid i) @ to_be 2 (ni_blp i)) is)) = is"
proof (induction "is")
  case Nil
  then show ?case by simp
next
  case (Cons i ys)
  obtain a b where ab: "to_be 2 (ni_pid i) = [a, b]" using list2 [of "to_be 2 (ni_pid i)"] by (metis length_to_be)
  obtain c d where cd: "to_be 2 (ni_blp i) = [c, d]" using list2 [of "to_be 2 (ni_blp i)"] by (metis length_to_be)
  have "from_be [a, b] = ni_pid i" "from_be [c, d] = ni_blp i"
    unfolding ab [symmetric] cd [symmetric] by (simp_all only: word_be_simps)
  with Cons show ?case by (simp add: ab cd)
qed

lemma nack_wire:
  assumes "length (nk_items n) \<le> 65533"
  shows "rs_rtcp_parse (build_rtcp_nack n) = Inr [Rs_Unknown 205 1 (nack_body n)]"
    and "parse_rtcp_fb 205 1 (nack_body n) = Some (Fb_Nack n)"
proof -
  have l: "length (nack_body n) div 4 = (8 + length (nk_items n) * 4) div 4" by (simp add: length_nack_body)
  have "build_rtcp_nack n = rs_image 1 205 (nack_body n) @ []"
    unfolding build_rtcp_nack_def rs_image_def Let_def l [symmetric] by (simp add: nack_body_def)
  moreover have "length (nack_body n) mod 4 = 0" "length (nack_body n) < 262144"
    unfolding length_nack_body using assms by simp_all
  ultimately show "rs_rtcp_parse (build_rtcp_nack n) = Inr [Rs_Unknown 205 1 (nack_body n)]"
    using rs_rtcp_parse_image [of 1 "nack_body n" 205 "[]"]
    by (simp add: rs_parse_body_def rs_rtcp_parse.simps [of "[]"])
  show "parse_rtcp_fb 205 1 (nack_body n) = Some (Fb_Nack n)"
    using parse_nack_items_back [of "nk_items n"] by (simp add: parse_rtcp_fb_def nack_body_def Let_def)
qed

text \<open>
  C6: A NACK reports exactly the lost packets. For any list of lost sequence numbers, in any order, with
  repetitions, the NACK built from it is one RTCP packet that the parsers read back, and the numbers its items
  stand for are those of the list, each once, in ascending order. The items are few enough (at most 3856) for
  the length field, whatever the list.
\<close>

theorem nack_reports_lost:
  "\<exists>payload n. rs_rtcp_parse (build_rtcp_nack \<lparr>nk_sender_ssrc = s, nk_media_ssrc = m,
       nk_items = nack_items_from_lost_seqs lost\<rparr>) = Inr [Rs_Unknown 205 1 payload]
     \<and> parse_rtcp_fb 205 1 payload = Some (Fb_Nack n) \<and> nk_sender_ssrc n = s \<and> nk_media_ssrc n = m
     \<and> concat (map lost_seqs (nk_items n)) = sorted_list_of_set (set lost)"
proof -
  let ?n = "\<lparr>nk_sender_ssrc = s, nk_media_ssrc = m, nk_items = nack_items_from_lost_seqs lost\<rparr>"
  have "length (nk_items ?n) \<le> 65533" using nack_items_few [of lost] by simp
  note w = nack_wire [OF this]
  show ?thesis by (intro exI conjI, rule w(1), rule w(2)) (simp_all add: nack_items_cover)
qed

end
