(* ===== verification/Rtsp_Rtp.thy ===== *)
theory Rtsp_Rtp
  imports Rtsp_Rtcp
begin

text \<open>
  The RTP packets of the RTSP core: \<^verbatim>\<open>rtsp/core/src/core/rtp.rs\<close> (parser and builder, errors with their numbers)
  and \<^verbatim>\<open>rtp_rewrite.rs\<close>, the rewriter of the headers of packets that are forwarded undecoded.
\<close>

section \<open>Packets\<close>

datatype rs_rtp_error =
  Rp_Unsupported_Version u8
| Rp_Insufficient_Data string nat nat
| Rp_Invalid_Padding u8 nat
| Rp_Too_Many_Csrc nat
| Rp_Extension_Too_Large nat

record rs_rtp_header =
  hd_version :: u8
  hd_padding :: bool
  hd_extension :: bool
  hd_csrc_count :: u8
  hd_marker :: bool
  hd_payload_type :: u8
  hd_sequence_number :: u16
  hd_timestamp :: u32
  hd_ssrc :: u32
  hd_csrc :: "u32 list"

definition rs_rtp_header_new :: "u8 \<Rightarrow> u16 \<Rightarrow> u32 \<Rightarrow> u32 \<Rightarrow> rs_rtp_header" where
  "rs_rtp_header_new payload_type sequence_number timestamp ssrc =
     \<lparr>hd_version = 2, hd_padding = False, hd_extension = False, hd_csrc_count = 0, hd_marker = False,
      hd_payload_type = payload_type, hd_sequence_number = sequence_number, hd_timestamp = timestamp,
      hd_ssrc = ssrc, hd_csrc = []\<rparr>"

definition rs_rtp_header_size :: "rs_rtp_header \<Rightarrow> nat" where
  "rs_rtp_header_size h = 12 + length (hd_csrc h) * 4"

record rs_rtp_extension =
  ex_profile :: u16
  ex_data :: bytes

record rs_rtp_packet =
  pk_header :: rs_rtp_header
  pk_extension :: "rs_rtp_extension option"
  pk_payload :: bytes
  pk_padding_size :: u8

definition rs_rtp_packet_new :: "rs_rtp_header \<Rightarrow> bytes \<Rightarrow> rs_rtp_packet" where
  "rs_rtp_packet_new header payload =
     \<lparr>pk_header = header, pk_extension = None, pk_payload = payload, pk_padding_size = 0\<rparr>"

section \<open>Parsing\<close>

text \<open>The extension at the front of what is left; \<open>n\<close> is the length of the packet.\<close>

definition rs_parse_extension :: "nat \<Rightarrow> bytes \<Rightarrow> rs_rtp_error + (rs_rtp_extension \<times> bytes)" where
  "rs_parse_extension n left =
     (let offset = n - length left in
      if length left < 4 then Inl (Rp_Insufficient_Data ''rtp extension header'' (offset + 4) n)
      else
        let profile = from_be (take 2 left); length_words = unat (from_be (take 2 (drop 2 left)) :: u16);
            offset = offset + 4; extension_size = length_words * 4 in
        if length left - 4 < extension_size
        then Inl (Rp_Insufficient_Data ''rtp extension payload'' (offset + extension_size) n)
        else Inr (\<lparr>ex_profile = profile, ex_data = take extension_size (drop 4 left)\<rparr>,
                  drop extension_size (drop 4 left)))"

definition rs_split_padding :: "bytes \<Rightarrow> rs_rtp_error + (bytes \<times> u8)" where
  "rs_split_padding remaining =
     (if remaining = [] then Inl (Rp_Invalid_Padding 0 0)
      else
        let padding_size = last remaining in
        if padding_size = 0 \<or> unat padding_size > length remaining
        then Inl (Rp_Invalid_Padding padding_size (length remaining))
        else Inr (take (length remaining - unat padding_size) remaining, padding_size))"

definition rs_rtp_parse :: "bytes \<Rightarrow> rs_rtp_error + rs_rtp_packet" where
  "rs_rtp_parse data =
     (if length data < 12 then Inl (Rp_Insufficient_Data ''rtp fixed header'' 12 (length data))
      else
        let first = data ! 0; version = drop_bit 6 first in
        if version \<noteq> 2 then Inl (Rp_Unsupported_Version version)
        else
          let padding = (first AND 0x20 \<noteq> 0); has_extension = (first AND 0x10 \<noteq> 0); csrc_count = unat (first AND 0x0F);
              second = data ! 1; marker = (second AND 0x80 \<noteq> 0); payload_type = second AND 0x7F;
              csrc_bytes = csrc_count * 4 in
          if length data < 12 + csrc_bytes then Inl (Rp_Insufficient_Data ''csrc list'' (12 + csrc_bytes) (length data))
          else
            let csrc = split_ssrcs csrc_count (drop 12 data); left = drop (12 + csrc_bytes) data in
            sbind (if has_extension
                   then sbind (rs_parse_extension (length data) left) (\<lambda>(e, r). Inr (Some e, r))
                   else Inr (None, left)) (\<lambda>(extension, remaining).
            sbind (if padding then rs_split_padding remaining else Inr (remaining, 0)) (\<lambda>(payload, padding_size).
              Inr \<lparr>pk_header = \<lparr>hd_version = version, hd_padding = padding, hd_extension = has_extension,
                     hd_csrc_count = of_nat csrc_count, hd_marker = marker, hd_payload_type = payload_type,
                     hd_sequence_number = from_be (take 2 (drop 2 data)), hd_timestamp = from_be (take 4 (drop 4 data)),
                     hd_ssrc = from_be (take 4 (drop 8 data)), hd_csrc = csrc\<rparr>,
                   pk_extension = extension, pk_payload = payload, pk_padding_size = padding_size\<rparr>)))"

section \<open>Building\<close>

text \<open>\<^verbatim>\<open>usize::div_ceil(4)\<close>.\<close>

definition words_of :: "nat \<Rightarrow> nat" where
  "words_of n = (n + 3) div 4"

definition extension_len :: "rs_rtp_packet \<Rightarrow> nat" where
  "extension_len p = (case pk_extension p of None \<Rightarrow> 0 | Some e \<Rightarrow> length (ex_data e))"

definition rs_rtp_size :: "rs_rtp_packet \<Rightarrow> nat" where
  "rs_rtp_size p =
     rs_rtp_header_size (pk_header p)
     + (case pk_extension p of None \<Rightarrow> 0 | Some e \<Rightarrow> 4 + words_of (length (ex_data e)) * 4)
     + length (pk_payload p) + unat (pk_padding_size p)"

definition bit_of :: "nat \<Rightarrow> bool \<Rightarrow> u8" where
  "bit_of n b = push_bit n (if b then 1 else 0)"

definition build_extension :: "rs_rtp_extension option \<Rightarrow> bytes" where
  "build_extension extension =
     (case extension of
        None \<Rightarrow> []
      | Some e \<Rightarrow>
          let extension_words = words_of (length (ex_data e)) in
          to_be 2 (ex_profile e) @ to_be 2 (of_nat extension_words :: u16) @ ex_data e
          @ replicate (extension_words * 4 - length (ex_data e)) 0)"

definition build_padding :: "u8 \<Rightarrow> bytes" where
  "build_padding n = (if n > 0 then replicate (unat n - 1) 0 @ [n] else [])"

definition rs_rtp_build :: "rs_rtp_packet \<Rightarrow> rs_rtp_error + bytes" where
  "rs_rtp_build p =
     (let h = pk_header p in
      if hd_version h \<noteq> 2 then Inl (Rp_Unsupported_Version (hd_version h))
      else
        let csrc_count = length (hd_csrc h) in
        if csrc_count > 0x0F then Inl (Rp_Too_Many_Csrc csrc_count)
        else if hd_padding h \<and> pk_padding_size p = 0 then Inl (Rp_Invalid_Padding 0 (length (pk_payload p)))
        else if words_of (extension_len p) > 65535 then Inl (Rp_Extension_Too_Large (extension_len p))
        else
          let has_padding = (pk_padding_size p > 0); has_extension = (pk_extension p \<noteq> None);
              first = push_bit 6 (hd_version h AND 0x03) OR bit_of 5 has_padding OR bit_of 4 has_extension OR of_nat csrc_count;
              second = bit_of 7 (hd_marker h) OR (hd_payload_type h AND 0x7F) in
          Inr ([first, second] @ to_be 2 (hd_sequence_number h) @ to_be 4 (hd_timestamp h) @ to_be 4 (hd_ssrc h)
               @ concat (map (to_be 4) (hd_csrc h)) @ build_extension (pk_extension p) @ pk_payload p
               @ build_padding (pk_padding_size p)))"

section \<open>Rewriting\<close>

record rtp_rewriter =
  rw_target_ssrc :: u32
  rw_next_seq :: u16
  rw_target_pt :: "u8 option"

definition rewriter_new :: "u32 \<Rightarrow> u16 \<Rightarrow> rtp_rewriter" where
  "rewriter_new target_ssrc initial_seq = \<lparr>rw_target_ssrc = target_ssrc, rw_next_seq = initial_seq, rw_target_pt = None\<rparr>"

definition with_payload_type :: "u8 \<Rightarrow> rtp_rewriter \<Rightarrow> rtp_rewriter" where
  "with_payload_type pt r = r\<lparr>rw_target_pt := Some pt\<rparr>"

text \<open>\<^verbatim>\<open>copy_from_slice\<close>: the bytes \<open>new\<close> in place of those from \<open>i\<close> on.\<close>

definition put_at :: "nat \<Rightarrow> bytes \<Rightarrow> bytes \<Rightarrow> bytes" where
  "put_at i new bs = take i bs @ new @ drop (i + length new) bs"

definition rewrite_packet :: "bytes \<Rightarrow> rtp_rewriter \<Rightarrow> rtp_rewriter \<times> bytes option" where
  "rewrite_packet packet r =
     (if length packet < 12 then (r, None)
      else
        let out = (case rw_target_pt r of
                     None \<Rightarrow> packet
                   | Some pt \<Rightarrow> packet[1 := (packet ! 1 AND 0x80) OR (pt AND 0x7F)]);
            seq = rw_next_seq r;
            out = out[2 := ucast (drop_bit 8 seq)];
            out = out[3 := ucast seq];
            out = put_at 8 (to_be 4 (rw_target_ssrc r)) out in
        (r\<lparr>rw_next_seq := rw_next_seq r + 1\<rparr>, Some out))"

fun rewrite_all :: "rtp_rewriter \<Rightarrow> bytes list \<Rightarrow> rtp_rewriter \<times> bytes option list" where
  "rewrite_all r [] = (r, [])"
| "rewrite_all r (p # ps) =
     (let (r1, out) = rewrite_packet p r; (r2, outs) = rewrite_all r1 ps in (r2, out # outs))"

end
