(* ===== verification/Rtsp_Rtp_Info_Roundtrip.thy ===== *)
theory Rtsp_Rtp_Info_Roundtrip
  imports Rtsp_Headers
begin

text \<open>
  What the RTP-Info writer produces, the parser reads back, also when URLs contain commas: a comma in a URL
  splits streams only when what looks like the next \<^verbatim>\<open>url=\<close> follows it.
\<close>

definition url_follows :: "string \<Rightarrow> bool" where
  "url_follows s \<longleftrightarrow> eq_ignore_ascii_case (take 4 (trim_start s)) ''url=''"

fun comma_safe :: "string \<Rightarrow> bool" where
  "comma_safe [] = True"
| "comma_safe (c # s) = ((c = CHR '','' \<longrightarrow> \<not> url_follows s) \<and> comma_safe s)"

definition plain_url :: "string \<Rightarrow> bool" where
  "plain_url u \<longleftrightarrow> u \<noteq> [] \<and> trimmed u \<and> CHR '';'' \<notin> set u \<and> comma_safe u"

definition ends_url :: "string \<Rightarrow> bool" where
  "ends_url rest \<longleftrightarrow> rest = [] \<or> hd rest = CHR '';'' \<or> hd rest = CHR '',''"

lemma eq_ignore_length: "eq_ignore_ascii_case a b \<Longrightarrow> length a = length b"
  by (auto simp: eq_ignore_ascii_case_def dest: arg_cong [of _ _ length])

lemma eq_ignore_chars: "eq_ignore_ascii_case a b \<Longrightarrow> c \<in> set a \<Longrightarrow> ascii_lower c \<in> set (map ascii_lower b)"
  by (metis eq_ignore_ascii_case_def image_eqI list.set_map)

lemma url_follows_append:
  assumes "ascii b" "ascii rest" "ends_url rest" "url_follows (b @ rest)" 
  shows "url_follows b"
proof -
  let ?d = "dropWhile is_space b"
  have sep: "\<not> is_space (CHR '';'')" "\<not> is_space (CHR '','')" by (simp_all add: is_space_iff)
  have lower: "ascii_lower (CHR '';'') = CHR '';''" "ascii_lower (CHR '','') = CHR '',''" by (simp_all add: ascii_lower_def)
  have w: "set (map ascii_lower ''url='') = {CHR ''u'', CHR ''r'', CHR ''l'', CHR ''=''}"
    by (auto simp: ascii_lower_def)
  have d: "dropWhile is_space (b @ rest) = ?d @ rest"
  proof (cases "?d = []")
    case True
    then have "dropWhile is_space (b @ rest) = dropWhile is_space rest"
      by (auto simp: dropWhile_eq_Nil_conv dropWhile_append)
    with True assms(3) sep show ?thesis by (cases rest) (auto simp: ends_url_def)
  next
    case False
    then show ?thesis by (auto simp: dropWhile_eq_Nil_conv dropWhile_append)
  qed
  from assms have e: "eq_ignore_ascii_case (take 4 (?d @ rest)) ''url=''"
    by (simp add: url_follows_def trim_ascii d)
  have l4: "length (take 4 (?d @ rest)) = 4" using eq_ignore_length [OF e] by simp
  have "4 \<le> length ?d"
  proof (rule ccontr)
    assume s: "\<not> 4 \<le> length ?d"
    with l4 obtain c cs where r: "rest = c # cs" by (cases rest) (auto simp: min_def split: if_splits)
    with s have "c \<in> set (take 4 (?d @ rest))" by (cases "4 - length ?d") auto
    from eq_ignore_chars [OF e this] have "ascii_lower c \<in> {CHR ''u'', CHR ''r'', CHR ''l'', CHR ''=''}"
      by (simp only: w)
    with assms(3) r lower show False by (auto simp: ends_url_def)
  qed
  with e assms(1) show ?thesis by (simp add: url_follows_def trim_ascii)
qed

lemma split_url:
  "ascii url \<Longrightarrow> ascii rest \<Longrightarrow> CHR '';'' \<notin> set url \<Longrightarrow> comma_safe url \<Longrightarrow> ends_url rest \<Longrightarrow>
     split_streams True piece (url @ rest) = split_streams True (piece @ url) rest"
proof (induction url arbitrary: piece)
  case (Cons c url)
  have *: "is_char_boundary (trim_start (url @ rest)) 4" if "4 \<le> length (trim_start (url @ rest))"
    using that Cons.prems(1,2) by (intro char_boundary_ascii) (simp_all add: trim_ascii ascii_dropWhile)
  have "c = CHR '','' \<Longrightarrow> \<not> eq_ignore_ascii_case (take 4 (trim_start (url @ rest))) ''url=''"
    using url_follows_append [of url rest] Cons.prems by (auto simp: url_follows_def)
  with Cons * show ?case by (auto simp: Let_def)
qed simp

lemma split_fields:
  "CHR '','' \<notin> set f \<Longrightarrow> CHR ''='' \<in> set piece \<Longrightarrow>
     split_streams False piece (f @ rest) = split_streams False (piece @ f) rest"
proof (induction f arbitrary: piece)
  case (Cons c f)
  have "\<not> eq_ignore_ascii_case (trim piece) ''url''"
  proof
    assume e: "eq_ignore_ascii_case (trim piece) ''url''"
    obtain a b where ab: "piece = a @ CHR ''='' # b" using Cons.prems(2) by (auto simp: in_set_conv_decomp)
    have "CHR ''='' \<in> set (trim piece)"
      unfolding ab by (subst trim_around(3)) (simp_all add: is_space_iff)
    from eq_ignore_chars [OF e this] show False by (simp add: ascii_lower_def)
  qed
  with Cons show ?case by auto
qed simp

lemma ascii_join: "\<forall>x \<in> set xs. ascii x \<Longrightarrow> ascii sep \<Longrightarrow> ascii (join sep xs)"
  by (induction sep xs rule: join.induct) simp_all

definition more_streams :: "string \<Rightarrow> bool" where
  "more_streams rest \<longleftrightarrow> rest = [] \<or> (\<exists>r. rest = '',url='' @ r \<and> ascii r)"

lemma ascii_stream: "plain_url (ri_url s) \<Longrightarrow> ascii (stream_to_string s)"
  by (auto simp: stream_to_string_def plain_url_def trimmed_ascii split: option.split)

lemma split_stream:
  assumes u: "plain_url (ri_url s)" and m: "more_streams rest"
  shows "split_streams False [] (stream_to_string s @ rest) =
    (if rest = [] then Some [stream_to_string s]
     else map_option (\<lambda>ps. stream_to_string s # ps) (split_streams False [] (tl rest)))"
proof -
  let ?f = "(case ri_seq s of None \<Rightarrow> [] | Some n \<Rightarrow> '';seq='' @ decimal (unat n))
     @ (case ri_rtptime s of None \<Rightarrow> [] | Some n \<Rightarrow> '';rtptime='' @ decimal (unat n))"
  let ?p = "''url='' @ ri_url s"
  have str: "stream_to_string s = ?p @ ?f" by (simp add: stream_to_string_def)
  have tr: "trim ''url'' = ''url''" by (rule trim_trimmed) (simp add: trimmed_def is_space_iff)
  have ar: "ascii rest" using m by (auto simp: more_streams_def)
  have af: "ascii ?f" by (auto split: option.split)
  have comma: "CHR '','' \<notin> set ?f" by (auto simp: not_in_decimal is_ascii_digit_def split: option.split)
  have "ends_url (?f @ rest)" using m by (auto simp: ends_url_def more_streams_def split: option.split)
  then have "split_streams False [] (''url='' @ ri_url s @ ?f @ rest) = split_streams True (''url='' @ ri_url s) (?f @ rest)"
    using split_url [of "ri_url s" "?f @ rest" "''url=''"] u ar af tr
    by (simp add: plain_url_def trimmed_ascii eq_ignore_ascii_case_def)
  then have 1: "split_streams False [] (stream_to_string s @ rest) = split_streams True ?p (?f @ rest)"
    by (simp add: stream_to_string_def)
  have url: "is_char_boundary (trim_start (''url='' @ r)) 4 \<and> 4 \<le> length (trim_start (''url='' @ r)) \<and>
      eq_ignore_ascii_case (take 4 (trim_start (''url='' @ r))) ''url=''" if "ascii r" for r
  proof -
    have "trim_start (''url='' @ r) = ''url='' @ r"
      using trim_start_head [of "CHR ''u''" "''rl='' @ r"] by (simp add: is_space_iff)
    moreover have "is_char_boundary (''url='' @ r) 4" by (rule char_boundary_ascii) (simp_all add: that)
    ultimately show ?thesis by (simp add: eq_ignore_ascii_case_def)
  qed
  show ?thesis
  proof (cases "?f = []")
    case True
    then have s: "stream_to_string s = ?p" using str by simp
    show ?thesis
    proof (cases "rest = []")
      case False
      with m obtain r where r: "rest = CHR '','' # ''url='' @ r" "ascii r" by (auto simp: more_streams_def)
      with 1 True url [OF r(2)] s show ?thesis by (simp add: Let_def)
    qed (use 1 True s in simp)
  next
    case False
    then obtain f where f: "?f = CHR '';'' # f" by (auto split: option.splits)
    then have "split_streams True ?p (?f @ rest) = split_streams False (?p @ ?f) rest"
      using split_fields [of f "?p @ '';''" rest] comma by simp
    with 1 have 2: "split_streams False [] (stream_to_string s @ rest) = split_streams False (stream_to_string s) rest"
      by (simp only: str append_assoc)
    have "stream_to_string s \<noteq> []" by (simp add: stream_to_string_def)
    with 2 m show ?thesis by (auto simp: more_streams_def)
  qed
qed

lemma split_info:
  "\<forall>s \<in> set ss. plain_url (ri_url s) \<Longrightarrow> ss \<noteq> [] \<Longrightarrow>
     split_streams False [] (rtp_info_to_string ss) = Some (map stream_to_string ss)"
proof (induction ss)
  case (Cons s ss)
  show ?case
  proof (cases ss)
    case Nil
    with Cons split_stream [of s "[]"] show ?thesis by (simp add: rtp_info_to_string_def more_streams_def)
  next
    case (Cons s2 ss')
    have asc: "ascii (rtp_info_to_string ts)" if "\<forall>s \<in> set ts. plain_url (ri_url s)" for ts
      using that unfolding rtp_info_to_string_def by (intro ascii_join) (auto simp: ascii_stream)
    have info: "rtp_info_to_string (s # ss) = stream_to_string s @ '','' @ rtp_info_to_string ss"
      by (simp add: rtp_info_to_string_def Cons)
    obtain r where "rtp_info_to_string ss = ''url='' @ r"
      by (cases ss') (simp_all add: rtp_info_to_string_def stream_to_string_def Cons)
    moreover from this asc [of ss] Cons.prems have "ascii r" by simp
    ultimately have "more_streams ('','' @ rtp_info_to_string ss)" by (simp add: more_streams_def)
    from split_stream [OF _ this, of s] Cons.prems Cons.IH Cons info show ?thesis by simp
  qed
qed simp

section \<open>One stream\<close>

lemma split_semicolon: "CHR '';'' \<notin> set a \<Longrightarrow> split_str '';'' (a @ CHR '';'' # b) = a # split_str '';'' b"
  using split_str_at [of "CHR '';''" a "[]" b] by simp

lemma field_key:
  assumes "trimmed v"
  shows "split_once ''='' (''url='' @ v) = Some (''url'', v)" "split_once ''='' (''seq='' @ v) = Some (''seq'', v)"
    "split_once ''='' (''rtptime='' @ v) = Some (''rtptime'', v)"
  using split_once_char_append [of "CHR ''=''" "''url''" v] split_once_char_append [of "CHR ''=''" "''seq''" v]
    split_once_char_append [of "CHR ''=''" "''rtptime''" v] by simp_all

lemma key_trim: "trim ''url'' = ''url''" "trim ''seq'' = ''seq''" "trim ''rtptime'' = ''rtptime''"
  by (rule trim_trimmed, simp add: trimmed_def is_space_iff)+

lemma stream_field_values:
  "trimmed u \<Longrightarrow> u \<noteq> [] \<Longrightarrow> stream_field (x, y, z) (''url='' @ u) = Inr (Some u, y, z)"
  "stream_field (x, y, z) (''seq='' @ decimal (unat (n :: u16))) = Inr (x, Some n, z)"
  "stream_field (x, y, z) (''rtptime='' @ decimal (unat (m :: u32))) = Inr (x, y, Some m)"
proof -
  have b: "unat n < 2 ^ 16" "unat m < 2 ^ 32" using unat_less [of n] unat_less [of m] by simp_all
  show "trimmed u \<Longrightarrow> u \<noteq> [] \<Longrightarrow> stream_field (x, y, z) (''url='' @ u) = Inr (Some u, y, z)"
    using field_key(1) [of u] by (simp add: stream_field_def key_trim eq_ignore_ascii_case_def)
  show "stream_field (x, y, z) (''seq='' @ decimal (unat n)) = Inr (x, Some n, z)"
    using field_key(2) [of "decimal (unat n)"] b
    by (simp add: stream_field_def key_trim eq_ignore_ascii_case_def ascii_lower_def Let_def)
  show "stream_field (x, y, z) (''rtptime='' @ decimal (unat m)) = Inr (x, y, Some m)"
    using field_key(3) [of "decimal (unat m)"] b
    by (simp add: stream_field_def key_trim eq_ignore_ascii_case_def ascii_lower_def Let_def)
qed

lemma field_trimmed:
  "trimmed u \<Longrightarrow> u \<noteq> [] \<Longrightarrow> trimmed (''url='' @ u)" "trimmed (''seq='' @ decimal n)" "trimmed (''rtptime='' @ decimal n)"
proof -
  have l: "last (decimal n) = c \<longrightarrow> \<not> is_space c" for c
    using decimal_trimmed [of n] by (auto simp: trimmed_def)
  show "trimmed u \<Longrightarrow> u \<noteq> [] \<Longrightarrow> trimmed (''url='' @ u)" by (simp add: trimmed_def is_space_iff)
  show "trimmed (''seq='' @ decimal n)" "trimmed (''rtptime='' @ decimal n)"
    using l by (simp_all add: trimmed_def) (simp_all add: is_space_iff)
qed

lemma stream_parts:
  assumes "plain_url (ri_url s)"
  shows "map trim (split_str '';'' (stream_to_string s)) =
    [''url='' @ ri_url s] @ (case ri_seq s of None \<Rightarrow> [] | Some n \<Rightarrow> [''seq='' @ decimal (unat n)])
      @ (case ri_rtptime s of None \<Rightarrow> [] | Some n \<Rightarrow> [''rtptime='' @ decimal (unat n)])"
proof -
  have u: "CHR '';'' \<notin> set (''url='' @ ri_url s)" using assms by (simp add: plain_url_def)
  have d: "CHR '';'' \<notin> set (''seq='' @ decimal n)" "CHR '';'' \<notin> set (''rtptime='' @ decimal n)" for n
    by (simp_all add: not_in_decimal is_ascii_digit_def)
  have t: "trim (''url='' @ ri_url s) = ''url='' @ ri_url s" "trim (''seq='' @ decimal n) = ''seq='' @ decimal n"
    "trim (''rtptime='' @ decimal n) = ''rtptime='' @ decimal n" for n
    by (rule trim_trimmed, use assms field_trimmed in \<open>simp add: plain_url_def\<close>)+
  have s: "split_str '';'' (''url='' @ ri_url s @ CHR '';'' # b) = (''url='' @ ri_url s) # split_str '';'' b"
    "split_str '';'' (''seq='' @ decimal n @ CHR '';'' # b) = (''seq='' @ decimal n) # split_str '';'' b" for n b
    using split_semicolon [OF u, where b = b] split_semicolon [OF d(1), where b = b] by simp_all
  show ?thesis
    using s split_str_absent [OF u, where ps = "[]"] split_str_absent [OF d(1), where ps = "[]"]
      split_str_absent [OF d(2), where ps = "[]"] t
    by (cases "ri_seq s"; cases "ri_rtptime s") (simp_all add: stream_to_string_def)
qed

lemma stream_parse_to_string: "plain_url (ri_url s) \<Longrightarrow> stream_parse (stream_to_string s) = Inr s"
  unfolding stream_parse_def stream_parts
  using stream_field_values
  by (cases s; cases "ri_seq s"; cases "ri_rtptime s") (simp_all add: plain_url_def)

lemma stream_trimmed:
  assumes "plain_url (ri_url s)"
  shows "trimmed (stream_to_string s)"
proof -
  have l: "\<not> is_space (last (decimal n))" for n using decimal_trimmed [of n] by (auto simp: trimmed_def)
  have h: "hd (stream_to_string s) = CHR ''u''" "stream_to_string s \<noteq> []" by (simp_all add: stream_to_string_def)
  have "\<not> is_space (last (stream_to_string s))"
    using assms l by (auto simp: stream_to_string_def plain_url_def trimmed_def split: option.split)
  with h ascii_stream [OF assms] show ?thesis by (simp add: trimmed_def is_space_iff)
qed

lemma info_trimmed:
  "\<forall>s \<in> set ss. plain_url (ri_url s) \<Longrightarrow> ss \<noteq> [] \<Longrightarrow> trimmed (rtp_info_to_string ss) \<and> rtp_info_to_string ss \<noteq> []"
proof (induction ss)
  case (Cons s ss)
  have s: "trimmed (stream_to_string s)" "stream_to_string s \<noteq> []"
    using Cons.prems stream_trimmed by (auto simp: stream_to_string_def)
  show ?case
  proof (cases ss)
    case (Cons s2 ss')
    then have "rtp_info_to_string (s # ss) = stream_to_string s @ CHR '','' # rtp_info_to_string ss"
      by (simp add: rtp_info_to_string_def)
    with s Cons Cons.IH Cons.prems show ?thesis by (simp add: trimmed_def)
  qed (use s in \<open>simp add: rtp_info_to_string_def\<close>)
qed simp

text \<open>
  An RTP-Info header that the code writes is read back as the same streams, with their sequence numbers and
  timestamps, also when the URLs contain commas: it is enough that no URL has a semicolon, white space at its ends,
  or a comma directly before something that reads like the next \<^verbatim>\<open>url=\<close>.
\<close>

lemma rtp_info_roundtrip:
  assumes "info \<noteq> []" "\<forall>s \<in> set info. plain_url (ri_url s)"
  shows "rtp_info_parse (rtp_info_to_string info) = Some (Inr info)"
proof -
  have "parse_streams (map stream_to_string ss) = Inr ss" if "\<forall>s \<in> set ss. plain_url (ri_url s)" for ss
    using that
    by (induction ss) (simp_all add: stream_parse_to_string stream_trimmed, simp add: stream_to_string_def)
  with info_trimmed [OF assms(2,1)] split_info [OF assms(2,1)] assms show ?thesis
    by (simp add: rtp_info_parse_def split_rtp_info_streams_def)
qed

lemma rtp_info_roundtrip_witness:
  "rtp_info_parse (rtp_info_to_string [\<lparr>ri_url = ''rtsp://h/a,b'', ri_seq = Some 7, ri_rtptime = None\<rparr>]) =
     Some (Inr [\<lparr>ri_url = ''rtsp://h/a,b'', ri_seq = Some 7, ri_rtptime = None\<rparr>])"
  by (rule rtp_info_roundtrip)
    (simp_all add: plain_url_def trimmed_def is_space_iff url_follows_def trim_ascii eq_ignore_ascii_case_def)

lemma rtp_info_parse_total_witness:
  "\<exists>r. rtp_info_parse ''seq=1'' = Some r \<and> (trim ''seq=1'' = [] \<longrightarrow> r = Inl Rtp_Info_Empty_Header) \<and>
    (\<forall>ss. r = Inr ss \<longrightarrow> ss \<noteq> [] \<and> (\<forall>s \<in> set ss. ri_url s \<noteq> []))"
  by (rule rtp_info_parse_total) simp

end
