(* ===== verification/Rtsp_Rtp_Properties.thy ===== *)
theory Rtsp_Rtp_Properties
  imports Rtsp_Rtp Rtsp_Rtcp_Properties Rtp_Packet
begin

text \<open>
  RTP packets of the RTSP core round trip, and the rewriter of forwarded packets changes what it should of a
  packet, as the parser sees it, and nothing else.
\<close>

section \<open>The parser by fields\<close>

text \<open>The fixed header as the parser splits it: two bytes, sequence number, timestamp, SSRC and the rest.\<close>

definition parse_fields :: "u8 \<Rightarrow> u8 \<Rightarrow> u16 \<Rightarrow> u32 \<Rightarrow> u32 \<Rightarrow> bytes \<Rightarrow> rs_rtp_error + rs_rtp_packet" where
  "parse_fields first second seq timestamp ssrc rest =
     (let n = 12 + length rest; csrc_count = unat (first AND 0x0F) in
      if drop_bit 6 first \<noteq> 2 then Inl (Rp_Unsupported_Version (drop_bit 6 first))
      else if n < 12 + csrc_count * 4 then Inl (Rp_Insufficient_Data ''csrc list'' (12 + csrc_count * 4) n)
      else
        let left = drop (csrc_count * 4) rest in
        sbind (if first AND 0x10 \<noteq> 0
               then sbind (rs_parse_extension n left) (\<lambda>(e, r). Inr (Some e, r)) else Inr (None, left)) (\<lambda>(extension, remaining).
        sbind (if first AND 0x20 \<noteq> 0 then rs_split_padding remaining else Inr (remaining, 0)) (\<lambda>(payload, padding_size).
          Inr \<lparr>pk_header = \<lparr>hd_version = drop_bit 6 first, hd_padding = (first AND 0x20 \<noteq> 0),
                 hd_extension = (first AND 0x10 \<noteq> 0), hd_csrc_count = of_nat csrc_count,
                 hd_marker = (second AND 0x80 \<noteq> 0), hd_payload_type = second AND 0x7F, hd_sequence_number = seq,
                 hd_timestamp = timestamp, hd_ssrc = ssrc, hd_csrc = split_ssrcs csrc_count rest\<rparr>,
               pk_extension = extension, pk_payload = payload, pk_padding_size = padding_size\<rparr>)))"

lemma parse_wire:
  "rs_rtp_parse ([a, b] @ to_be 2 s @ to_be 4 t @ to_be 4 c @ rest) = parse_fields a b s t c rest"
proof -
  let ?d = "[a, b] @ to_be 2 s @ to_be 4 t @ to_be 4 c @ rest"
  have f: "length ?d = 12 + length rest" "?d ! 0 = a" "?d ! 1 = b" "take 2 (drop 2 ?d) = to_be 2 s"
    "take 4 (drop 4 ?d) = to_be 4 t" "take 4 (drop 8 ?d) = to_be 4 c" "drop 12 ?d = rest" by simp_all
  have d: "drop (12 + k) ?d = drop k rest" for k
    by (simp only: drop_drop [symmetric, of _ 12] add.commute [of 12] f(7))
  show ?thesis
    unfolding rs_rtp_parse_def parse_fields_def Let_def f d word_be_simps by simp
qed

lemma wire_of:
  assumes "12 \<le> length d"
  shows "d = [d ! 0, d ! 1] @ to_be 2 (from_be (take 2 (drop 2 d)) :: u16) @ to_be 4 (from_be (take 4 (drop 4 d)) :: u32)
    @ to_be 4 (from_be (take 4 (drop 8 d)) :: u32) @ drop 12 d"
proof -
  have l: "length (take 2 (drop 2 d)) = 2" "length (take 4 (drop 4 d)) = 4" "length (take 4 (drop 8 d)) = 4"
    using assms by simp_all
  have w: "to_be 2 (from_be (take 2 (drop 2 d)) :: u16) = take 2 (drop 2 d)"
    "to_be 4 (from_be (take 4 (drop 4 d)) :: u32) = take 4 (drop 4 d)"
    "to_be 4 (from_be (take 4 (drop 8 d)) :: u32) = take 4 (drop 8 d)"
    using to_be_from_be [where 'a = 16, of "take 2 (drop 2 d)"] to_be_from_be [where 'a = 32, of "take 4 (drop 4 d)"]
      to_be_from_be [where 'a = 32, of "take 4 (drop 8 d)"] unfolding l by simp_all
  have "take 2 d = [d ! 0, d ! 1]" using list2 [of "take 2 d"] assms by simp
  moreover have "d = take 2 d @ take 2 (drop 2 d) @ take 4 (drop 4 d) @ take 4 (drop 8 d) @ drop 12 d"
    using append_take_drop_id [of 2 d] append_take_drop_id [of 2 "drop 2 d"] append_take_drop_id [of 4 "drop 4 d"]
      append_take_drop_id [of 4 "drop 8 d"] by simp
  ultimately show ?thesis unfolding w by simp
qed

section \<open>Rewriting\<close>

text \<open>What the rewriter does to a packet, seen through the parser.\<close>

definition rewritten :: "u32 \<Rightarrow> u16 \<Rightarrow> u8 option \<Rightarrow> rs_rtp_packet \<Rightarrow> rs_rtp_packet" where
  "rewritten ssrc seq pt p =
     (let h = (pk_header p)\<lparr>hd_ssrc := ssrc, hd_sequence_number := seq\<rparr> in
      p\<lparr>pk_header := (case pt of None \<Rightarrow> h | Some v \<Rightarrow> h\<lparr>hd_payload_type := v AND 0x7F\<rparr>)\<rparr>)"

lemma to_be_2_bytes: "to_be 2 (seq :: u16) = [ucast (drop_bit 8 seq), ucast seq]"
proof -
  have "unat seq < 65536" using unsigned_less [of seq, where ?'a = nat] by simp
  then have "unat seq div 256 < 256" by (simp add: less_mult_imp_div_less)
  then have "unat (of_nat (unat seq div 256) :: u8) = unat seq div 256"
    "unat (ucast (drop_bit 8 seq) :: u8) = unat seq div 256" "unat (ucast seq :: u8) = unat seq mod 256"
    by (simp_all add: unsigned_ucast_eq unsigned_drop_bit_eq drop_bit_eq_div take_bit_eq_mod unat_div_distrib)
  then show ?thesis
    by (simp only: to_be_def numeral_2_eq_2 nat_to_be.simps list.inject word_unat_eq_iff append.simps simp_thms) simp
qed

definition new_second :: "u8 option \<Rightarrow> u8 \<Rightarrow> u8" where
  "new_second pt b = (case pt of None \<Rightarrow> b | Some v \<Rightarrow> (b AND 0x80) OR (v AND 0x7F))"

lemma rewrite_packet_wire:
  "rewrite_packet ([a, b] @ to_be 2 (s :: u16) @ to_be 4 (t :: u32) @ to_be 4 (c :: u32) @ rest) r =
     (r\<lparr>rw_next_seq := rw_next_seq r + 1\<rparr>,
      Some ([a, new_second (rw_target_pt r) b] @ to_be 2 (rw_next_seq r) @ to_be 4 t @ to_be 4 (rw_target_ssrc r) @ rest))"
proof -
  obtain x y where xy: "to_be 2 s = [x, y]" by (simp add: to_be_2_bytes)
  obtain t0 t1 t2 t3 where t: "to_be 4 t = [t0, t1, t2, t3]" using list4 [of "to_be 4 t"] by (metis length_to_be)
  obtain c0 c1 c2 c3 where c: "to_be 4 c = [c0, c1, c2, c3]" using list4 [of "to_be 4 c"] by (metis length_to_be)
  show ?thesis
    unfolding xy t c to_be_2_bytes [of "rw_next_seq r"]
    by (cases "rw_target_pt r") (simp_all add: rewrite_packet_def put_at_def new_second_def Let_def numeral_eq_Suc)
qed

lemma new_second_bits:
  "(new_second pt b AND 0x80 \<noteq> 0) = (b AND 0x80 \<noteq> 0)"
  "new_second pt b AND 0x7F = (case pt of None \<Rightarrow> b AND 0x7F | Some v \<Rightarrow> v AND 0x7F)"
proof -
  have "((b AND 0x80) OR (v AND 0x7F)) AND 0x80 = b AND (0x80 :: u8)" for v
    by (simp add: bit.conj_disj_distrib2 and.assoc)
  moreover have "((b AND 0x80) OR (v AND 0x7F)) AND 0x7F = v AND (0x7F :: u8)" for v
    by (simp add: bit.conj_disj_distrib2 and.assoc)
  ultimately show "(new_second pt b AND 0x80 \<noteq> 0) = (b AND 0x80 \<noteq> 0)"
    "new_second pt b AND 0x7F = (case pt of None \<Rightarrow> b AND 0x7F | Some v \<Rightarrow> v AND 0x7F)"
    by (simp_all add: new_second_def split: option.splits)
qed

lemma parse_fields_rewritten:
  "parse_fields a (new_second pt b) seq t ssrc rest =
     (case parse_fields a b s t c rest of Inl e \<Rightarrow> Inl e | Inr p \<Rightarrow> Inr (rewritten ssrc seq pt p))"
  unfolding parse_fields_def Let_def new_second_bits
  by (cases pt) (auto simp: rewritten_def sbind_def split: sum.split)

lemma rewrite_packet_parsed:
  assumes "12 \<le> length d"
  shows "\<exists>out. rewrite_packet d r = (r\<lparr>rw_next_seq := rw_next_seq r + 1\<rparr>, Some out) \<and> length out = length d
    \<and> rs_rtp_parse out = (case rs_rtp_parse d of
         Inl e \<Rightarrow> Inl e | Inr p \<Rightarrow> Inr (rewritten (rw_target_ssrc r) (rw_next_seq r) (rw_target_pt r) p))"
proof -
  let ?s = "from_be (take 2 (drop 2 d)) :: u16" and ?t = "from_be (take 4 (drop 4 d)) :: u32"
  let ?c = "from_be (take 4 (drop 8 d)) :: u32" and ?rest = "drop 12 d"
  have w: "d = [d ! 0, d ! 1] @ to_be 2 ?s @ to_be 4 ?t @ to_be 4 ?c @ ?rest" using assms by (rule wire_of)
  let ?out = "[d ! 0, new_second (rw_target_pt r) (d ! 1)] @ to_be 2 (rw_next_seq r) @ to_be 4 ?t
    @ to_be 4 (rw_target_ssrc r) @ ?rest"
  have "rewrite_packet d r = (r\<lparr>rw_next_seq := rw_next_seq r + 1\<rparr>, Some ?out)"
    using rewrite_packet_wire [of "d ! 0" "d ! 1" ?s ?t ?c ?rest r] unfolding w [symmetric] .
  moreover have "length ?out = length d" using assms by simp
  moreover have "rs_rtp_parse d = parse_fields (d ! 0) (d ! 1) ?s ?t ?c ?rest"
    using parse_wire [of "d ! 0" "d ! 1" ?s ?t ?c ?rest] unfolding w [symmetric] .
  ultimately show ?thesis by (metis parse_wire parse_fields_rewritten)
qed

text \<open>
  C7: A forwarded RTP packet keeps everything but what the rewriter is for. Of any sequence of packets, each packet
  of at least twelve bytes leaves with its length unchanged, and read by the parser it is the packet that came
  in with the target SSRC, the target payload type where one is set, and the next sequence number: the numbers
  are consecutive over the packets that were forwarded, whatever their own numbers were, modulo 2^16.
\<close>

theorem rewriting_keeps_packets:
  assumes "i < length packets" and "12 \<le> length (packets ! i)"
  shows "\<exists>out. snd (rewrite_all r packets) ! i = Some out \<and> length out = length (packets ! i)
    \<and> rs_rtp_parse out = (case rs_rtp_parse (packets ! i) of
         Inl e \<Rightarrow> Inl e
       | Inr p \<Rightarrow> Inr (rewritten (rw_target_ssrc r)
           (rw_next_seq r + of_nat (length (filter (\<lambda>p. 12 \<le> length p) (take i packets)))) (rw_target_pt r) p))"
  using assms
proof (induction packets arbitrary: i r)
  case Nil
  then show ?case by simp
next
  case (Cons d ds)
  show ?case
  proof (cases i)
    case 0
    with Cons.prems rewrite_packet_parsed [of d r] show ?thesis 
      by (auto simp: split_beta Let_def cong del: sum.case_cong_weak)
  next
    case (Suc j)
    show ?thesis
    proof (cases "12 \<le> length d")
      case True
      then obtain out where "rewrite_packet d r = (r\<lparr>rw_next_seq := rw_next_seq r + 1\<rparr>, Some out)"
        using rewrite_packet_parsed [of d r] by blast
      with Cons.prems Suc Cons.IH [of j "r\<lparr>rw_next_seq := rw_next_seq r + 1\<rparr>"] True show ?thesis
        by (simp add: split_beta Let_def add.assoc cong del: sum.case_cong_weak)
    next
      case False
      then have "rewrite_packet d r = (r, None)" by (simp add: rewrite_packet_def)
      with Cons.prems Suc Cons.IH [of j r] False show ?thesis
        by (simp add: split_beta Let_def cong del: sum.case_cong_weak)
    qed
  qed
qed

theorem rewriting_keeps_packets_witness:
  "\<exists>out. snd (rewrite_all (with_payload_type 100 (rewriter_new 7 65534))
      [[0x80, 96, 0, 1, 0, 0, 0, 9, 0, 0, 0, 3, 1, 2], [1, 2, 3], [0x80, 0xE0, 0, 4, 0, 0, 0, 9, 0, 0, 0, 3, 5]]) ! 2 = Some out
    \<and> length out = 13 \<and> rs_rtp_parse out = Inr (rs_rtp_packet_new ((rs_rtp_header_new 100 65535 9 7)\<lparr>hd_marker := True\<rparr>) [5])"
proof -
  let ?ps = "[[0x80, 96, 0, 1, 0, 0, 0, 9, 0, 0, 0, 3, 1, 2], [1, 2, 3], [0x80, 0xE0, 0, 4, 0, 0, 0, 9, 0, 0, 0, 3, 5]] :: bytes list"
  have p: "rs_rtp_parse (?ps ! 2) = Inr (rs_rtp_packet_new ((rs_rtp_header_new 96 4 9 3)\<lparr>hd_marker := True\<rparr>) [5])"
    by (simp add: rs_rtp_parse_def rs_rtp_packet_new_def rs_rtp_header_new_def from_be_def be_to_nat_def)
  have i: "2 < length ?ps" "12 \<le> length (?ps ! 2)" by simp_all
  from rewriting_keeps_packets [OF i, of "with_payload_type 100 (rewriter_new 7 65534)", unfolded p] obtain out where
    o: "snd (rewrite_all (with_payload_type 100 (rewriter_new 7 65534)) ?ps) ! 2 = Some out" "length out = length (?ps ! 2)"
    "rs_rtp_parse out = Inr (rewritten 7 65535 (Some 100) (rs_rtp_packet_new ((rs_rtp_header_new 96 4 9 3)\<lparr>hd_marker := True\<rparr>) [5]))"
    by (auto simp: with_payload_type_def rewriter_new_def)
  have "length out = 13" using o(2) by simp
  moreover have "rs_rtp_parse out = Inr (rs_rtp_packet_new ((rs_rtp_header_new 100 65535 9 7)\<lparr>hd_marker := True\<rparr>) [5])"
    unfolding o(3) by (simp add: rewritten_def rs_rtp_packet_new_def rs_rtp_header_new_def)
  ultimately show ?thesis using o(1) by blast
qed

section \<open>Round trip\<close>

definition rs_rtp_packet_ok :: "rs_rtp_packet \<Rightarrow> bool" where
  "rs_rtp_packet_ok p \<longleftrightarrow>
     (let h = pk_header p in
      hd_version h = 2 \<and> length (hd_csrc h) \<le> 15 \<and> hd_csrc_count h = of_nat (length (hd_csrc h))
      \<and> hd_payload_type h < 128 \<and> hd_extension h = (pk_extension p \<noteq> None) \<and> hd_padding h = (0 < pk_padding_size p)
      \<and> (case pk_extension p of None \<Rightarrow> True
           | Some e \<Rightarrow> length (ex_data e) mod 4 = 0 \<and> length (ex_data e) \<le> 262140))"

lemma first_byte_bits:
  assumes "n \<le> 15"
  shows "let first = push_bit 6 (2 AND 0x03) OR bit_of 5 a OR bit_of 4 b OR (of_nat n :: u8) in
    drop_bit 6 first = 2 \<and> (first AND 0x20 \<noteq> 0) = a \<and> (first AND 0x10 \<noteq> 0) = b \<and> unat (first AND 0x0F) = n"
proof -
  have "\<forall>a \<in> {True, False}. \<forall>b \<in> {True, False}. \<forall>n \<in> set [0..<16].
    let first = push_bit 6 (2 AND 0x03) OR bit_of 5 a OR bit_of 4 b OR (of_nat n :: u8) in
    drop_bit 6 first = 2 \<and> (first AND 0x20 \<noteq> 0) = a \<and> (first AND 0x10 \<noteq> 0) = b \<and> unat (first AND 0x0F) = n"
    by (simp add: upt_rec bit_of_def)
  moreover have "n \<in> set [0..<16]" "a \<in> {True, False}" "b \<in> {True, False}" using assms by auto
  ultimately show ?thesis by blast
qed

lemma second_byte_bits:
  fixes v :: u8
  assumes "v < 128"
  shows "(bit_of 7 m OR (v AND 0x7F)) AND 0x7F = v" "((bit_of 7 m OR (v AND 0x7F)) AND 0x80 \<noteq> 0) = m"
  using payload_type_bits [OF assms, of "if m then 1 else 0"] by (auto simp: bit_of_def)

lemma words_of_aligned: "n mod 4 = 0 \<Longrightarrow> words_of n * 4 = n \<and> words_of n = n div 4"
  unfolding words_of_def by presburger

lemma extension_roundtrip:
  assumes "length (ex_data e) mod 4 = 0" and "length (ex_data e) \<le> 262140"
  shows "rs_parse_extension n (build_extension (Some e) @ r) = Inr (e, r)"
proof -
  let ?w = "words_of (length (ex_data e))"
  have w: "?w * 4 = length (ex_data e)" "?w < 65536" using words_of_aligned [OF assms(1)] assms(2) by auto
  have u: "unat (of_nat ?w :: u16) = ?w" using w(2) by (simp add: unat_of_nat)
  have b: "build_extension (Some e) = to_be 2 (ex_profile e) @ to_be 2 (of_nat ?w :: u16) @ ex_data e"
    using w(1) by (simp add: build_extension_def Let_def)
  have t: "take 2 (build_extension (Some e) @ r) = to_be 2 (ex_profile e)"
    "take 2 (drop 2 (build_extension (Some e) @ r)) = to_be 2 (of_nat ?w :: u16)"
    "drop 4 (build_extension (Some e) @ r) = ex_data e @ r"
    "\<not> length (build_extension (Some e) @ r) < 4"
    "\<not> length (build_extension (Some e) @ r) - 4 < length (ex_data e)"
    by (simp_all add: b)
  show ?thesis
    unfolding rs_parse_extension_def Let_def t word_be_simps u w(1) using t(4,5) by simp
qed

lemma padding_roundtrip:
  "0 < n \<Longrightarrow> rs_split_padding (payload @ build_padding n) = Inr (payload, n)"
proof -
  assume "0 < n"
  then have n: "0 < unat n" by (simp add: word_less_nat_alt)
  then have "length (build_padding n) = unat n" using \<open>0 < n\<close> by (simp add: build_padding_def)
  then show ?thesis using \<open>0 < n\<close> n by (simp add: rs_split_padding_def build_padding_def)
qed

lemma parse_fields_Inr:
  assumes "drop_bit 6 first = 2" and "unat (first AND 0x0F) * 4 \<le> length rest"
    and "(if first AND 0x10 \<noteq> 0
          then sbind (rs_parse_extension (12 + length rest) (drop (unat (first AND 0x0F) * 4) rest)) (\<lambda>(e, r). Inr (Some e, r))
          else Inr (None, drop (unat (first AND 0x0F) * 4) rest)) = Inr (extension, remaining)"
    and "(if first AND 0x20 \<noteq> 0 then rs_split_padding remaining else Inr (remaining, 0)) = Inr (payload, k)"
  shows "parse_fields first second seq timestamp ssrc rest =
    Inr \<lparr>pk_header = \<lparr>hd_version = 2, hd_padding = (first AND 0x20 \<noteq> 0),
                 hd_extension = (first AND 0x10 \<noteq> 0), hd_csrc_count = of_nat (unat (first AND 0x0F)),
                 hd_marker = (second AND 0x80 \<noteq> 0), hd_payload_type = second AND 0x7F, hd_sequence_number = seq,
                 hd_timestamp = timestamp, hd_ssrc = ssrc, hd_csrc = split_ssrcs (unat (first AND 0x0F)) rest\<rparr>,
          pk_extension = extension, pk_payload = payload, pk_padding_size = k\<rparr>"
  unfolding parse_fields_def Let_def assms(3) sbind_Inr prod.case assms(4) using assms(1,2) by simp

lemma rs_rtp_roundtrip:
  assumes "rs_rtp_packet_ok p"
  shows "\<exists>out. rs_rtp_build p = Inr out \<and> length out = rs_rtp_size p \<and> rs_rtp_parse out = Inr p"
proof -
  let ?h = "pk_header p" and ?n = "length (hd_csrc (pk_header p))"
  have ok: "hd_version ?h = 2" "?n \<le> 15" "hd_csrc_count ?h = of_nat ?n" "hd_payload_type ?h < 128"
    "hd_extension ?h = (pk_extension p \<noteq> None)" "hd_padding ?h = (0 < pk_padding_size p)"
    "\<And>e. pk_extension p = Some e \<Longrightarrow> length (ex_data e) mod 4 = 0 \<and> length (ex_data e) \<le> 262140"
    using assms by (auto simp: rs_rtp_packet_ok_def Let_def)
  define first where
    "first = push_bit 6 (2 AND 0x03) OR bit_of 5 (0 < pk_padding_size p) OR bit_of 4 (pk_extension p \<noteq> None) OR (of_nat ?n :: u8)"
  note f = first_byte_bits [OF ok(2), of "0 < pk_padding_size p" "pk_extension p \<noteq> None", folded first_def, unfolded Let_def]
  define second where "second = bit_of 7 (hd_marker ?h) OR (hd_payload_type ?h AND 0x7F)"
  note s = second_byte_bits [OF ok(4), of "hd_marker ?h", folded second_def]
  let ?tail = "pk_payload p @ build_padding (pk_padding_size p)"
  let ?ext = "build_extension (pk_extension p) @ ?tail"
  let ?csrc = "concat (map (to_be 4) (hd_csrc ?h))"
  have lc: "length ?csrc = ?n * 4" by (simp add: length_concat comp_def sum_list_triv)
  have small: "\<not> 65535 < words_of (extension_len p)"
    using ok(7) by (auto simp: extension_len_def words_of_def split: option.splits)
  have b: "rs_rtp_build p = Inr ([first, second] @ to_be 2 (hd_sequence_number ?h) @ to_be 4 (hd_timestamp ?h)
      @ to_be 4 (hd_ssrc ?h) @ ?csrc @ ?ext)"
    unfolding rs_rtp_build_def Let_def ok(1) first_def second_def using ok(2,6) small by auto
  have pad: "(if first AND 0x20 \<noteq> 0 then rs_split_padding ?tail else Inr (?tail, 0)) = Inr (pk_payload p, pk_padding_size p)"
    using f padding_roundtrip by (auto simp: build_padding_def word_gt_0)
  have ext: "(if first AND 0x10 \<noteq> 0 then sbind (rs_parse_extension n ?ext) (\<lambda>(e, r). Inr (Some e, r)) else Inr (None, ?ext))
    = Inr (pk_extension p, ?tail)" for n
    using f extension_roundtrip ok(7) by (cases "pk_extension p") (simp_all add: build_extension_def)
  have "parse_fields first second (hd_sequence_number ?h) (hd_timestamp ?h) (hd_ssrc ?h) (?csrc @ ?ext) = Inr p"
  proof -
    have d: "drop (?n * 4) (?csrc @ ?ext) = ?ext" "\<not> 12 + length (?csrc @ ?ext) < 12 + ?n * 4"
      using lc by simp_all
    have h: "\<lparr>hd_version = 2, hd_padding = 0 < pk_padding_size p, hd_extension = pk_extension p \<noteq> None,
       hd_csrc_count = of_nat ?n, hd_marker = hd_marker ?h, hd_payload_type = hd_payload_type ?h,
       hd_sequence_number = hd_sequence_number ?h, hd_timestamp = hd_timestamp ?h, hd_ssrc = hd_ssrc ?h,
       hd_csrc = hd_csrc ?h\<rparr> = ?h"
      using ok(1,3,5,6) by simp
    have n: "unat (first AND 0x0F) = ?n" using f by blast
    have "parse_fields first second (hd_sequence_number ?h) (hd_timestamp ?h) (hd_ssrc ?h) (?csrc @ ?ext) =
      Inr \<lparr>pk_header = \<lparr>hd_version = 2, hd_padding = (first AND 0x20 \<noteq> 0),
                 hd_extension = (first AND 0x10 \<noteq> 0), hd_csrc_count = of_nat ?n,
                 hd_marker = (second AND 0x80 \<noteq> 0), hd_payload_type = second AND 0x7F,
                 hd_sequence_number = hd_sequence_number ?h, hd_timestamp = hd_timestamp ?h, hd_ssrc = hd_ssrc ?h,
                 hd_csrc = split_ssrcs ?n (?csrc @ ?ext)\<rparr>,
          pk_extension = pk_extension p, pk_payload = pk_payload p, pk_padding_size = pk_padding_size p\<rparr>"
      unfolding n [symmetric]
      by (rule parse_fields_Inr [OF conjunct1 [OF f] _ _ pad]; unfold n d(1)) (use lc in simp, rule ext)
    with f h show ?thesis by (simp add: s split_ssrcs_back)
  qed
  moreover have "length ([first, second] @ to_be 2 (hd_sequence_number ?h) @ to_be 4 (hd_timestamp ?h)
      @ to_be 4 (hd_ssrc ?h) @ ?csrc @ ?ext) = rs_rtp_size p"
  proof -
    have "length (build_padding (pk_padding_size p)) = unat (pk_padding_size p)"
      by (auto simp: build_padding_def word_less_nat_alt word_unat_eq_iff)
    then show ?thesis
      using words_of_aligned ok(7)
      by (cases "pk_extension p") (auto simp: rs_rtp_size_def rs_rtp_header_size_def lc build_extension_def Let_def)
  qed
  ultimately show ?thesis using b by (metis parse_wire)
qed

end
