(* ===== verification/Rtsp_Seq.thy ===== *)
theory Rtsp_Seq
  imports Prelude
begin

text \<open>
  \<^verbatim>\<open>rtsp/core/src/core/seq_tracker.rs\<close>: the tracker of the sequence numbers of one source, and the counter it
  refines: the highest packet so far on an unbounded number line, and the packets skipped on the way.
\<close>

section \<open>The tracker\<close>

datatype seq_event = Seq_Initial | Seq_Normal | Seq_Wrap | Seq_Reset | Seq_Duplicate | Seq_Out_Of_Order | Seq_Gap u16

record seq_tracker =
  sk_last_seq :: "u16 option"
  sk_wrap_count :: u32
  sk_total_packets :: u64
  sk_total_lost :: u64
  sk_reset_threshold :: u16

definition with_threshold :: "u16 \<Rightarrow> seq_tracker" where
  "with_threshold reset_threshold =
     \<lparr>sk_last_seq = None, sk_wrap_count = 0, sk_total_packets = 0, sk_total_lost = 0,
      sk_reset_threshold = reset_threshold\<rparr>"

definition seq_tracker_new :: seq_tracker where
  "seq_tracker_new = with_threshold 5000"

definition seq_update :: "u16 \<Rightarrow> seq_tracker \<Rightarrow> seq_tracker \<times> seq_event" where
  "seq_update seq s =
     (let s = s\<lparr>sk_total_packets := sk_total_packets s + 1\<rparr> in
      case sk_last_seq s of
        None \<Rightarrow> (s\<lparr>sk_last_seq := Some seq\<rparr>, Seq_Initial)
      | Some last_seq \<Rightarrow>
          let expected = last_seq + 1 in
          if seq = expected then
            let s = s\<lparr>sk_last_seq := Some seq\<rparr> in
            if expected = 0 then (s\<lparr>sk_wrap_count := sk_wrap_count s + 1\<rparr>, Seq_Wrap) else (s, Seq_Normal)
          else if seq = last_seq then (s, Seq_Duplicate)
          else
            let forward = seq - expected; backward = expected - seq in
            if forward < 0x8000 then
              if forward \<ge> sk_reset_threshold s
              then (s\<lparr>sk_last_seq := Some seq, sk_wrap_count := 0\<rparr>, Seq_Reset)
              else
                let lost = forward;
                    s = s\<lparr>sk_total_lost := sk_total_lost s + ucast lost, sk_last_seq := Some seq\<rparr>;
                    s = (if last_seq > seq then s\<lparr>sk_wrap_count := sk_wrap_count s + 1\<rparr> else s) in
                (s, Seq_Gap lost)
            else if backward \<ge> sk_reset_threshold s
            then (s\<lparr>sk_last_seq := Some seq, sk_wrap_count := 0\<rparr>, Seq_Reset)
            else (s, Seq_Out_Of_Order))"

definition extended_seq :: "seq_tracker \<Rightarrow> u64" where
  "extended_seq s = ucast (sk_wrap_count s) * 65536 + ucast (case sk_last_seq s of None \<Rightarrow> 0 | Some q \<Rightarrow> q)"

definition fraction_lost_256 :: "seq_tracker \<Rightarrow> u8" where
  "fraction_lost_256 s =
     (if sk_total_packets s = 0 then 0
      else let expected = sk_total_packets s + sk_total_lost s; frac = (sk_total_lost s * 256) div expected in
        ucast (min frac 255))"

definition seq_reset :: "seq_tracker \<Rightarrow> seq_tracker" where
  "seq_reset s = s\<lparr>sk_last_seq := None, sk_wrap_count := 0, sk_total_packets := 0, sk_total_lost := 0\<rparr>"

fun seq_updates :: "u16 list \<Rightarrow> seq_tracker \<Rightarrow> seq_tracker" where
  "seq_updates [] s = s"
| "seq_updates (q # qs) s = seq_updates qs (fst (seq_update q s))"

section \<open>The number line\<close>

text \<open>
  The packets of the sender are numbered on an unbounded line; the tracker sees the numbers modulo 2^16.
  \<open>advance\<close> is what it is to know: the highest number seen and how many were skipped when it was passed.
  \<open>within\<close> says that a packet is close enough to the highest one for 16 bits and the threshold to place it.
\<close>

definition advance :: "nat \<Rightarrow> nat \<times> nat \<Rightarrow> nat \<times> nat" where
  "advance t c = (if fst c < t then (t, snd c + (t - fst c - 1)) else c)"

definition within :: "u16 \<Rightarrow> nat \<Rightarrow> nat \<Rightarrow> bool" where
  "within threshold highest t \<longleftrightarrow>
     (if highest < t then t = highest + 1 \<or> t - highest - 1 < min 32768 (unat threshold)
      else t = highest \<or> (highest + 1 - t \<le> 32768 \<and> highest + 1 - t < unat threshold))"

fun all_within :: "u16 \<Rightarrow> nat \<times> nat \<Rightarrow> nat list \<Rightarrow> bool" where
  "all_within threshold c [] = True"
| "all_within threshold c (t # ts) = (within threshold (fst c) t \<and> all_within threshold (advance t c) ts)"

text \<open>The tracker after \<open>n\<close> packets, with the counter at \<open>c\<close>; the line is cut at the 65536 that holds the first one.\<close>

definition tracks :: "u16 \<Rightarrow> nat \<Rightarrow> nat \<Rightarrow> nat \<times> nat \<Rightarrow> seq_tracker \<Rightarrow> bool" where
  "tracks threshold start n c s \<longleftrightarrow>
     sk_last_seq s = Some (of_nat (fst c)) \<and> sk_wrap_count s = of_nat (fst c div 65536 - start div 65536)
     \<and> sk_total_packets s = of_nat n \<and> sk_total_lost s = of_nat (snd c) \<and> sk_reset_threshold s = threshold
     \<and> start \<le> fst c"

lemma u16_eq: "(of_nat a :: u16) = of_nat b \<longleftrightarrow> a mod 65536 = b mod 65536"
  by (simp add: word_of_nat_eq_iff take_bit_eq_mod)

lemma next_cycle:
  assumes "h < t" and "t < h + 65536"
  shows "(t mod 65536 < h mod 65536 \<longrightarrow> t div 65536 = Suc (h div 65536))
    \<and> (\<not> t mod 65536 < h mod 65536 \<longrightarrow> t div 65536 = h div 65536)"
proof -
  have th: "t = t div 65536 * 65536 + t mod 65536" "h = h div 65536 * 65536 + h mod 65536" by simp_all
  have m: "t mod 65536 < 65536" "h mod 65536 < 65536" by simp_all
  have "h div 65536 \<le> t div 65536" using assms(1) by (simp add: div_le_mono)
  moreover have "t div 65536 < h div 65536 + 2" using assms(2) th m by linarith
  ultimately have "t div 65536 = h div 65536 \<or> t div 65536 = Suc (h div 65536)" by linarith
  then show ?thesis using assms th m by linarith
qed

lemma update_in_order:
  assumes "tracks threshold start n (h, l) s"
  shows "tracks threshold start (Suc n) (Suc h, l) (fst (seq_update (of_nat (Suc h)) s))"
proof -
  have e: "(of_nat (Suc h) :: u16) = of_nat h + 1" by (simp add: add.commute)
  have n: "Suc h div 65536 = (if (of_nat h + 1 :: u16) = 0 then Suc (h div 65536) else h div 65536)"
    using u16_eq [of "Suc h" 0] unfolding e by (simp add: div_Suc)
  have le: "start div 65536 \<le> h div 65536" using assms by (simp add: tracks_def div_le_mono)
  show ?thesis
    unfolding e using assms le by (auto simp: tracks_def seq_update_def Let_def n Suc_diff_le e simp del: of_nat_Suc of_nat_diff)
      (simp_all add: add.commute)
qed

lemma seq_forward_distance:
  assumes "h + 1 < t" and "t - h - 1 < 32768"
  shows "unat (of_nat t - (of_nat h + 1) :: u16) = t - h - 1" "(of_nat t :: u16) \<noteq> of_nat h + 1" "(of_nat t :: u16) \<noteq> of_nat h"
proof -
  have e: "(of_nat t - (of_nat h + 1) :: u16) = of_nat (t - h - 1)" using assms(1) by (simp add: of_nat_diff)
  show d: "unat (of_nat t - (of_nat h + 1) :: u16) = t - h - 1" unfolding e using assms(2) by (simp add: unat_of_nat)
  show "(of_nat t :: u16) \<noteq> of_nat h + 1" using d assms(1) by auto
  have "unat (of_nat t - of_nat h :: u16) = t - h"
  proof -
    have "(of_nat t - of_nat h :: u16) = of_nat (t - h)" using assms(1) by (simp add: of_nat_diff)
    then show ?thesis using assms(2) by (simp add: unat_of_nat)
  qed
  then show "(of_nat t :: u16) \<noteq> of_nat h" using assms(1) by auto
qed

lemma seq_update_gap:
  assumes "sk_last_seq s = Some p" and "q \<noteq> p + 1" and "q \<noteq> p" and "q - (p + 1) < 0x8000"
    and "\<not> q - (p + 1) \<ge> sk_reset_threshold s"
  shows "seq_update q s =
    (let s1 = s\<lparr>sk_total_packets := sk_total_packets s + 1, sk_total_lost := sk_total_lost s + ucast (q - (p + 1)),
                sk_last_seq := Some q\<rparr> in
     (if q < p then s1\<lparr>sk_wrap_count := sk_wrap_count s + 1\<rparr> else s1, Seq_Gap (q - (p + 1))))"
  using assms by (simp add: seq_update_def Let_def)

lemma update_gap:
  assumes "tracks threshold start n (h, l) s" and "h + 1 < t" and "t - h - 1 < min 32768 (unat threshold)"
  shows "seq_update (of_nat t) s = (fst (seq_update (of_nat t) s), Seq_Gap (of_nat (t - h - 1)))
    \<and> tracks threshold start (Suc n) (t, l + (t - h - 1)) (fst (seq_update (of_nat t) s))"
proof -
  have d: "t - h - 1 < 32768" "t - h - 1 < unat threshold" using assms(3) by simp_all
  note f = seq_forward_distance [OF assms(2) d(1)]
  have fw: "(of_nat t - (of_nat h + 1) :: u16) = of_nat (t - h - 1)" using assms(2) by (simp add: of_nat_diff)
  have c: "(of_nat t - (of_nat h + 1) :: u16) < 0x8000" "\<not> (of_nat t - (of_nat h + 1) :: u16) \<ge> threshold"
    using d f(1) by (simp_all add: word_less_nat_alt word_le_nat_alt)
  have w: "(of_nat t :: u16) < of_nat h \<longleftrightarrow> t mod 65536 < h mod 65536"
    by (simp add: word_less_nat_alt unat_of_nat)
  have n: "t div 65536 = (if (of_nat t :: u16) < of_nat h then Suc (h div 65536) else h div 65536)"
    using next_cycle [of h t] assms(2) d(1) unfolding w by auto
  have le: "start div 65536 \<le> h div 65536" using assms(1) by (simp add: tracks_def div_le_mono)
  have u: "(ucast (of_nat (t - h - 1) :: u16) :: u64) = of_nat (t - h - 1)"
    using d(1) by (simp add: word_unat_eq_iff unat_of_nat unsigned_ucast_eq take_bit_eq_mod)
  have last: "sk_last_seq s = Some (of_nat h)" and thr: "sk_reset_threshold s = threshold"
    using assms(1) by (simp_all add: tracks_def)
  note r = seq_update_gap [OF last f(2,3) c(1) c(2) [folded thr], unfolded fw u]
  have tl: "tracks threshold start (Suc n) (t, l + (t - h - 1)) (fst (seq_update (of_nat t) s))"
    unfolding r tracks_def Let_def fst_conv snd_conv of_nat_add
    using assms(1,2) le n by (auto simp: tracks_def Suc_diff_le simp del: of_nat_diff)
  then show ?thesis unfolding r by (simp add: Let_def)
qed

lemma update_late:
  assumes "tracks threshold start n (h, l) s" and "t \<le> h"
    and "t = h \<or> h + 1 - t \<le> 32768 \<and> h + 1 - t < unat threshold"
  shows "tracks threshold start (Suc n) (h, l) (fst (seq_update (of_nat t) s))"
proof (cases "t = h")
  case True
  have "(of_nat h :: u16) \<noteq> of_nat h + 1" by simp
  then show ?thesis using assms(1) True by (simp add: tracks_def seq_update_def Let_def)
next
  case False
  with assms(2,3) have lt: "t < h" and b: "h + 1 - t \<le> 32768" "h + 1 - t < unat threshold" by auto
  have bw: "(of_nat h + 1 - of_nat t :: u16) = of_nat (h + 1 - t)" using lt by (simp add: of_nat_diff)
  have ub: "unat (of_nat h + 1 - of_nat t :: u16) = h + 1 - t" unfolding bw using b(1) by (simp add: unat_of_nat)
  have fw: "unat (of_nat t - (of_nat h + 1) :: u16) = 65536 - (h + 1 - t)"
  proof -
    have "h + 1 \<le> 65536 + t" using b(1) by simp
    then have "(of_nat (65536 + t - (h + 1)) :: u16) = of_nat (65536 + t) - of_nat (h + 1)" by (rule of_nat_diff)
    also have "\<dots> = of_nat t - (of_nat h + 1)" using u16_eq [of "65536 + t" t] by simp
    finally have e: "(of_nat (65536 + t - (h + 1)) :: u16) = of_nat t - (of_nat h + 1)" .
    have "unat (of_nat (65536 + t - (h + 1)) :: u16) = (65536 + t - (h + 1)) mod 65536"
      by (simp add: unat_of_nat)
    then have "unat (of_nat t - (of_nat h + 1) :: u16) = (65536 + t - (h + 1)) mod 65536" unfolding e .
    then show ?thesis using b(1) lt by simp
  qed
  have c: "\<not> (of_nat t - (of_nat h + 1) :: u16) < 0x8000" "\<not> (of_nat h + 1 - of_nat t :: u16) \<ge> threshold"
    using b ub fw by (simp_all add: word_less_nat_alt word_le_nat_alt)
  have ne: "(of_nat t :: u16) \<noteq> of_nat h + 1" using ub lt by auto
  have nh: "(of_nat t :: u16) \<noteq> of_nat h"
  proof
    assume "(of_nat t :: u16) = of_nat h"
    then have "unat (of_nat h + 1 - of_nat t :: u16) = 1" by simp
    with ub lt show False by simp
  qed
  show ?thesis using assms(1) c ne nh by (simp add: tracks_def seq_update_def Let_def)
qed

lemma update_tracks:
  assumes "tracks threshold start n c s" and "within threshold (fst c) t"
  shows "tracks threshold start (Suc n) (advance t c) (fst (seq_update (of_nat t) s))"
proof -
  obtain h l where c: "c = (h, l)" by fastforce
  note tr = assms(1) [unfolded c]
  consider "t = Suc h" | "h + 1 < t" "t - h - 1 < min 32768 (unat threshold)"
    | "t \<le> h" "t = h \<or> h + 1 - t \<le> 32768 \<and> h + 1 - t < unat threshold"
    using assms(2) unfolding c within_def by (cases "t = Suc h"; cases "h < t") auto
  then show ?thesis
  proof cases
    case 1
    with update_in_order [OF tr] show ?thesis by (simp add: c advance_def)
  next
    case 2
    with update_gap [OF tr 2] show ?thesis by (simp add: c advance_def)
  next
    case 3
    with update_late [OF tr 3] show ?thesis by (simp add: c advance_def)
  qed
qed

lemma updates_track:
  "tracks threshold start n c s \<Longrightarrow> all_within threshold c ts \<Longrightarrow>
     tracks threshold start (n + length ts) (fold advance ts c) (seq_updates (map of_nat ts) s)"
proof (induction ts arbitrary: n c s)
  case Nil
  then show ?case by simp
next
  case (Cons t ts)
  from Cons.IH [OF update_tracks [OF Cons.prems(1), of t]] Cons.prems(2) show ?case by simp
qed

lemma tracks_first: "tracks threshold t 1 (t, 0) (fst (seq_update (of_nat t) (with_threshold threshold)))"
  by (simp add: tracks_def seq_update_def with_threshold_def)

lemma advance_lost: "snd c \<le> fst c \<Longrightarrow> snd (fold advance ts c) \<le> fst (fold advance ts c)"
  by (induction ts arbitrary: c) (auto simp: advance_def)

text \<open>
  C5: The tracker knows the real sequence number. Packets are numbered on an unbounded line and the tracker sees
  16 bits of each. However they are reordered, repeated or lost, as long as every packet is close enough to the
  highest one so far (its distance within the reset threshold and half a cycle), the extended number is the
  highest packet seen, counted from the start of the first packet's cycle, the loss count is the number of
  packets skipped when that highest number advanced, and every packet is counted once.
\<close>

theorem seq_tracker_refines_line:
  assumes "all_within threshold (t, 0) ts"
    and "fst (fold advance ts (t, 0)) < 2 ^ 48" and "length ts < 2 ^ 48"
  shows "let s = seq_updates (map of_nat (t # ts)) (with_threshold threshold); c = fold advance ts (t, 0) in
    unat (extended_seq s) = fst c - t div 65536 * 65536 \<and> unat (sk_total_lost s) = snd c
    \<and> unat (sk_total_packets s) = length (t # ts)"
proof -
  let ?c = "fold advance ts (t, 0)" and ?s = "seq_updates (map of_nat (t # ts)) (with_threshold threshold)"
  have tr: "tracks threshold t (1 + length ts) ?c ?s"
    using updates_track [OF tracks_first assms(1)] by simp
  let ?w = "fst ?c div 65536 - t div 65536"
  have le: "t div 65536 * 65536 \<le> fst ?c" 
    by (rule le_trans [OF div_times_less_eq_dividend]) (use tr in \<open>simp add: tracks_def\<close>)
  have w: "?w < 2 ^ 32" using assms(2) by (simp add: less_mult_imp_div_less less_imp_diff_less)
  have ex: "extended_seq ?s = of_nat (?w * 65536 + fst ?c mod 65536)"
  proof -
    have "(ucast (of_nat ?w :: u32) :: u64) = of_nat ?w"
      using w by (simp add: word_unat_eq_iff unat_of_nat unsigned_ucast_eq take_bit_eq_mod)
    moreover have "(ucast (of_nat (fst ?c) :: u16) :: u64) = of_nat (fst ?c mod 65536)"
      by (simp add: word_unat_eq_iff unat_of_nat unsigned_ucast_eq take_bit_eq_mod)
    ultimately show ?thesis using tr by (simp add: extended_seq_def tracks_def del: of_nat_diff)
  qed
  have sum: "?w * 65536 + fst ?c mod 65536 = fst ?c - t div 65536 * 65536"
    using tr by (simp add: tracks_def diff_mult_distrib div_le_mono diff_add_assoc2 [symmetric])
  show ?thesis
    unfolding Let_def ex sum using tr assms(2,3) advance_lost [of "(t, 0)" ts]
    by (simp add: tracks_def unat_of_nat del: of_nat_Suc of_nat_add)
qed

theorem seq_tracker_refines_line_witness:
  "let s = seq_updates (map of_nat (131070 # [131071, 131075, 131072, 131075])) (with_threshold 5000) in
    unat (extended_seq s) = 65539 \<and> unat (sk_total_lost s) = 3 \<and> unat (sk_total_packets s) = 5"
proof -
  have w: "all_within 5000 (131070, 0) [131071, 131075, 131072, 131075]" by (simp add: within_def advance_def)
  have f: "fold advance [131071, 131075, 131072, 131075] (131070, 0) = (131075, 3)" by (simp add: advance_def)
  from seq_tracker_refines_line [OF w, unfolded f] show ?thesis by (simp only: Let_def) simp
qed

end
