(* ===== verification/Spec2Isabelle.thy ===== *)
theory Spec2Isabelle
  imports Amf_Parser Codec_Ids Codec_Time Codec_Time_Properties Codec_Track Engine_Dispatch Engine_Dispatch_Properties Engine_Ring Engine_Ring_Properties Engine_Streams Engine_Streams_Properties Float64 Media_Ids Prelude Rtcp_Packet Rtcp_Properties Rtcp_Report Rtmp_Amf Rtmp_Amf0 Rtmp_Amf0_Roundtrip Rtmp_Amf3 Rtmp_Amf3_Roundtrip Rtmp_Bytes Rtmp_Chunk_Decoder Rtmp_Chunk_Encoder Rtmp_Chunk_Properties Rtmp_Chunk_Roundtrip Rtmp_Chunk_Types Rtmp_Command Rtmp_Core Rtmp_Core_Handshake Rtmp_Core_Inbound Rtmp_Core_Media Rtmp_Core_Messages Rtmp_Core_Outbound Rtmp_Core_Properties Rtmp_Core_Reads Rtmp_Core_State Rtmp_Core_Status Rtmp_Core_Total Rtmp_Handshake Rtmp_Media Rtmp_Media_Properties Rtmp_Message Rtmp_Message_Roundtrip Rtmp_Url Rtmp_User_Control Rtp_Ehome Rtp_Packet Rtp_Pt Rtp_Reorder Rtp_Sequence Rtp_Session_Core Rtp_Session_Input Rtp_Session_Invariant Rtp_Session_Lives Rtp_Session_Properties Rtp_Session_Rtp Rtp_Session_State Rtp_Session_Steps Rtp_Time Rtsp_Compat Rtsp_Core Rtsp_Core_Properties Rtsp_Headers Rtsp_Message Rtsp_Message_Roundtrip Rtsp_Rtcp Rtsp_Rtcp_Fb Rtsp_Rtcp_Properties Rtsp_Rtp Rtsp_Rtp_Info_Roundtrip Rtsp_Rtp_Properties Rtsp_Seq Rtsp_Transport Rust_Strings Rust_Text Stream_Decoder
begin

text \<open>
  Verification of the protocol cores of the Cheetah media server, RTMP, RTP with RTCP, and RTSP
  (\<^verbatim>\<open>src/crates/protocols/rtmp/core\<close>, \<^verbatim>\<open>rtp/core\<close>, \<^verbatim>\<open>rtsp/core\<close>), of the parts of the codec crate
  (\<^verbatim>\<open>src/crates/foundation/cheetah-codec\<close>) they rest on, and of the stream manager of the engine
  (\<^verbatim>\<open>src/crates/system/cheetah-engine/src/stream.rs\<close>). Each core is a sans-I/O state machine: its owner (a driver)
  hands it received bytes, commands and the time, and it returns bytes to write and events; a module connects
  it to the engine, which passes the frames of each publisher to its subscribers.

  \<^bold>\<open>Shared theories.\<close>

  \<^item> \<open>Prelude\<close>, \<open>Rtmp_Bytes\<close>: machine integers, the readers and writers of \<^verbatim>\<open>bytes.rs\<close>, the error kinds of
    \<^verbatim>\<open>error.rs\<close>, and the compacting receive buffer \<^verbatim>\<open>Buf\<close> with its contract, the locale \<open>byte_buffer\<close>.
  \<^item> \<open>Rust_Strings\<close>, \<open>Rust_Text\<close>: the functions of Rust's \<^verbatim>\<open>str\<close> and integers the parsers call (case folding,
    trimming, splitting, joining, decimal and hexadecimal printing and parsing), with their inverse laws.
  \<^item> \<open>Stream_Decoder\<close>: the contract of an incremental decoder (locale \<open>incremental_decoder\<close>) and of the loop
    that drives it: the cutting of the input into reads does not matter. It is interpreted for the RTMP chunk
    decoder, the Ehome framing of RTP over TCP and the RTSP message parser.
  \<^item> \<open>Codec_Ids\<close>, \<open>Codec_Time\<close>, \<open>Codec_Track\<close> (\<^verbatim>\<open>time.rs\<close>, \<^verbatim>\<open>track.rs\<close>, \<^verbatim>\<open>frame.rs\<close>): codec tables, time bases and
    the normaliser of timestamps, tracks and frames; \<open>Codec_Time_Properties\<close>: rescaling and monotony.

  \<^bold>\<open>RTMP.\<close> From the wire upwards:

  \<^item> \<open>Rtmp_Chunk_Types\<close>, \<open>Rtmp_Chunk_Encoder\<close>, \<open>Rtmp_Chunk_Decoder\<close> (\<^verbatim>\<open>chunk/\<close>): header compression,
    fragmentation and reassembly; \<open>Rtmp_Chunk_Roundtrip\<close> and \<open>Rtmp_Chunk_Properties\<close> prove them inverse,
    bounded, and independent of the reads.
  \<^item> \<open>Rtmp_Handshake\<close> (\<^verbatim>\<open>handshake.rs\<close>): server and client machines in the default build.
  \<^item> \<open>Float64\<close>: IEEE doubles as their 64-bit patterns, with the conversions and comparisons the code uses.
  \<^item> \<open>Amf_Parser\<close>, \<open>Rtmp_Amf3\<close>, \<open>Rtmp_Amf0\<close>, \<open>Rtmp_Amf\<close> (\<^verbatim>\<open>amf3.rs\<close>, \<^verbatim>\<open>amf0.rs\<close>, \<^verbatim>\<open>amf.rs\<close>): the two value
    formats with their reference tables, decoders and encoders; the \<open>_Roundtrip\<close> theories prove the
    round trips of representable values.
  \<^item> \<open>Rtmp_User_Control\<close>, \<open>Rtmp_Media\<close>: user control events, audio and video tags, ingress headers;
    \<open>Rtmp_Media_Properties\<close> has their properties.
  \<^item> \<open>Rtmp_Message\<close>, \<open>Rtmp_Command\<close> (\<^verbatim>\<open>message/\<close>, \<^verbatim>\<open>command.rs\<close>): typed messages and commands over chunks and
    AMF; \<open>Rtmp_Message_Roundtrip\<close> proves a whole stream of messages, chunk-size changes included, to be
    read back.
  \<^item> \<open>Rtmp_Url\<close> (\<^verbatim>\<open>url.rs\<close>): addresses, their parser and display.
  \<^item> The connection core (\<^verbatim>\<open>core.rs\<close> and \<^verbatim>\<open>core/\<close>): \<open>Rtmp_Core_State\<close> (the record \<open>rtmp_core\<close> of \<^verbatim>\<open>RtmpCore\<close>, events,
    outputs, commands, and the monad \<open>core_m\<close> of its methods: state, outputs pushed, result, panic),
    \<open>Rtmp_Core_Media\<close> (\<^verbatim>\<open>core/media.rs\<close>), \<open>Rtmp_Core_Outbound\<close> and \<open>Rtmp_Core_Inbound\<close> (\<^verbatim>\<open>core/command/\<close>),
    \<open>Rtmp_Core_Messages\<close> (message dispatch, control messages, aggregates), \<open>Rtmp_Core\<close> (the decoding loop,
    \<^verbatim>\<open>core/handshake.rs\<close> and \<^verbatim>\<open>handle_input\<close>).

  A chain of locales, \<open>effect_relation\<close>, \<open>message_effects\<close>,
  \<open>loop_effects\<close>, \<open>byte_effects\<close> and \<open>input_effects\<close>, shows once that a relation between the state before,
  the outputs and the state after holds of every handler when it holds of the few primitive effects.
  It is interpreted for: the fields messages leave alone (\<open>session\<close>, which gives the termination of the
  decoding loop), the connection state (\<open>status\<close>), the byte counters (\<open>count\<close>), the admission of media
  (\<open>gate\<close>) and the invariant of the waiting queue (\<open>queue\<close>).

  \<open>Rtmp_Core_Total\<close>: no input makes the core panic. \<open>Rtmp_Core_Properties\<close>: media reaches
  the application only for the stream it accepted, refining the admission machine \<open>admit\<close>; the queue of
  waiting media is bounded up to sequence headers and loses nothing within its bounds.
  \<open>Rtmp_Core_Status\<close>: the connection state only moves forward, and received bytes are acknowledged.
  \<open>Rtmp_Core_Handshake\<close>: the server core completes the handshake with any client, whatever the reads, and
  opens with its three control messages. \<open>Rtmp_Core_Reads\<close>: after the handshake, how the bytes are cut into
  reads changes neither what is decoded from them nor the state it leads to; the byte count and the acknowledgements,
  which come before the decoding, are not part of this.

  \<^bold>\<open>RTP.\<close>

  \<^item> \<open>Rtp_Sequence\<close>, \<open>Rtp_Reorder\<close>, \<open>Rtp_Packet\<close>, \<open>Rtp_Time\<close>, \<open>Rtp_Ehome\<close>, \<open>Rtp_Pt\<close>: sequence number arithmetic,
    the reorder buffer, packets, clocks, the Ehome framing and the payload type table.
  \<^item> \<open>Rtcp_Packet\<close> (\<^verbatim>\<open>rtcp/\<close>), with the round trip of compound packets in \<open>Rtcp_Properties\<close>; \<open>Rtcp_Report\<close>: the
    reception statistics and reports of a session.
  \<^item> \<open>Rtp_Session_State\<close>, \<open>Rtp_Session_Rtp\<close>, \<open>Rtp_Session_Core\<close>, \<open>Rtp_Session_Input\<close>: the session core (\<^verbatim>\<open>core.rs\<close>):
    sessions, endpoints, the routing tables, commands, ticks and received packets. The demultiplexers of
    program and transport streams are a parameter (\<open>demux_ops\<close>), as are the iteration order of hash maps and
    random numbers (\<open>core_env\<close>).
  \<^item> \<open>Rtp_Session_Invariant\<close> (the routing tables agree with the sessions), \<open>Rtp_Session_Lives\<close> (a session refines
    a small life-cycle machine), \<open>Rtp_Session_Steps\<close>, \<open>Rtp_Session_Properties\<close>: these hold of every operation.

  \<^bold>\<open>RTSP.\<close>

  \<^item> \<open>Rtsp_Message\<close> (\<^verbatim>\<open>method.rs\<close>, \<^verbatim>\<open>limits.rs\<close>, \<^verbatim>\<open>message.rs\<close>): requests and responses, the incremental parser with
    its limits, the writer; \<open>Rtsp_Message_Roundtrip\<close>.
  \<^item> \<open>Rtsp_Core\<close> (\<^verbatim>\<open>connection.rs\<close>, \<^verbatim>\<open>interleaved.rs\<close>, \<^verbatim>\<open>mod.rs\<close>): the connection core over messages and interleaved
    frames; \<open>Rtsp_Core_Properties\<close>: the cutting into reads does not matter, every event is within the limits,
    an error loses the outputs collected before it.
  \<^item> \<open>Rtsp_Transport\<close>, \<open>Rtsp_Compat\<close>, \<open>Rtsp_Headers\<close>, \<open>Rtsp_Rtp_Info_Roundtrip\<close> (\<^verbatim>\<open>transport.rs\<close>, \<^verbatim>\<open>compat.rs\<close>,
    \<^verbatim>\<open>rtp_info.rs\<close>): the headers of SETUP and PLAY, with their round trips and where parsing panics.
  \<^item> \<open>Rtsp_Rtp\<close>, \<open>Rtsp_Rtcp\<close>, \<open>Rtsp_Rtcp_Fb\<close> (\<^verbatim>\<open>rtp.rs\<close>, \<^verbatim>\<open>rtp_rewrite.rs\<close>, \<^verbatim>\<open>rtcp.rs\<close>, \<^verbatim>\<open>rtcp_fb.rs\<close>, \<^verbatim>\<open>rtcp_xr.rs\<close>): the
    crate's own RTP and RTCP packets, feedback and extended reports, and the rewriter of forwarded packets; the
    \<open>_Properties\<close> theories have their round trips and what rewriting keeps, \<open>Rtsp_Rtcp_Fb\<close> that a NACK reports
    exactly the lost packets. \<open>Rtsp_Seq\<close> (\<^verbatim>\<open>seq_tracker.rs\<close>) refines a counter on the unbounded line of packets.

  \<^bold>\<open>Engine.\<close>

  \<^item> \<open>Engine_Ring\<close>: the ring of the last frames of a stream, the index of its key frames, and the frames a new
    subscriber starts with; \<open>Engine_Ring_Properties\<close>: these are the newest frames without a gap.
  \<^item> \<open>Engine_Dispatch\<close>: the dispatcher of a stream, with the media filters and backpressure policies of its
    subscribers; \<open>Engine_Dispatch_Properties\<close>: a gap ends with a key frame, and where it never ends.
  \<^item> \<open>Media_Ids\<close> (\<^verbatim>\<open>cheetah-sdk/src/ids.rs\<close>, \<^verbatim>\<open>cheetah-media-api/src/ids.rs\<close>): stream keys, media keys and the
    bridge between them.
  \<^item> \<open>Engine_Streams\<close>: the stream manager: streams and leases, publisher and subscriber handles, the shared pool,
    events and queries. \<open>Engine_Streams_Properties\<close>: runs of its operations, with the steps of a push and of a
    subscription interleaved: one publisher for each stream, handles whose lease has ended have no effect, the events of a
    stream come once and in order, subscribers drain when a stream ends; and what interleavings break.

  The bounded channels of tokio are a parameter of the engine theories (\<open>chan_ops\<close>); the properties hold for any
  channels, and the examples use the documented behaviour (\<open>fifo\<close>). The concurrent maps and atomic cells are plain
  values, since each operation, or each of its steps, is atomic in a run.

  \<^bold>\<open>Conventions.\<close> Machine integers are words; counters of bytes in memory are \<open>nat\<close>. Strings are their
  UTF-8 bytes. \<^verbatim>\<open>Result\<close> is a sum with the error on the left. In RTMP an error carries its kind only; elsewhere it
  carries the numbers the code puts in it. Reasons, locations and texts made by \<^verbatim>\<open>format!\<close> are represented by
  what they are made from. A panic is \<open>None\<close>.
  The AMF decoders recurse on nesting; their fuel is the length of the input, of which every level
  consumes a byte, and \<open>amf_decoders_total\<close> shows that it never runs out. Every other loop has a measure: the
  bytes that are left. Stack and memory limits are not
  modelled (see the findings of the manifest). Arithmetic wraps as in a release build.

  \<^bold>\<open>Not modelled.\<close> The complex RTMP handshake (a feature that is off by default and needs an external HMAC),
  \<^verbatim>\<open>flv_ingest.rs\<close> and the re-exports of the crates; drivers (socket I/O), modules (engine glue)
  and bindings; the other protocol crates, the rest of the engine and of the SDK, and the control plane. Of the
  stream manager \<^verbatim>\<open>close_idle_publishers\<close> is left out, whose effect depends on the locks of the concurrent map, and
  so are interleavings inside the ring. The manifest lists each with its reason.
\<close>

end
